(* ===== verification/Prelude.thy ===== *)
theory Prelude
  imports Main "HOL-Library.Finite_Map"
begin

section \<open>Shared types, tables and the automation of the development\<close>

text \<open>
  This theory holds what every component shares: the identifiers and clock of the program, JSON
  values, the tables of the PostgreSQL store as lists of rows, and the generic lemmas the component
  proofs rest on.

  \<^item> A UUID is its 128-bit value, a \<open>nat\<close>. Fresh UUIDs (\<open>uuid4()\<close>) and readings of the database
    clock are arguments of the operations that draw them.
  \<^item> A timestamp is a number of microseconds, the resolution of \<open>timestamptz\<close>.
  \<^item> A JSON object is a finite map, so two objects are equal whatever the order of their keys, as
    Python dictionaries and \<open>jsonb\<close> values are.
  \<^item> A float that the code checks for NaN and infinities is a \<open>pyfloat\<close>; a finite one is its exact
    rational value.
\<close>

type_synonym uuid = nat
type_synonym time = int

datatype json =
    JNull
  | JBool bool
  | JInt int
  | JFloat rat
  | JStr string
  | JArr "json list"
  | JObj "(string, json) fmap"

datatype pyfloat = Finite rat | PosInf | NegInf | NaN

text \<open>The collections the component theories fill: facts that unfold an operation, facts that say
  what an operation leaves alone, and facts that preserve an invariant.\<close>

named_theorems op_defs \<open>definitions of the operations of a component\<close>
named_theorems frame \<open>what an operation leaves unchanged\<close>
named_theorems preserved \<open>invariants an operation preserves\<close>

subsection \<open>Results\<close>

text \<open>A fallible operation returns \<open>Inl\<close> with the error it raises or \<open>Inr\<close> with its value.\<close>

definition is_ok :: "'e + 'a \<Rightarrow> bool" where
  "is_ok r \<longleftrightarrow> (\<exists>x. r = Inr x)"

lemma is_ok_simps [simp]: "is_ok (Inr x)" "\<not> is_ok (Inl e)"
  by (simp_all add: is_ok_def)

fun bind_result :: "'e + 'a \<Rightarrow> ('a \<Rightarrow> 'e + 'b) \<Rightarrow> 'e + 'b" where
  "bind_result (Inl e) f = Inl e"
| "bind_result (Inr x) f = f x"

lemma bind_result_Inr_iff:
  "bind_result r f = Inr y \<longleftrightarrow> (\<exists>x. r = Inr x \<and> f x = Inr y)"
  by (cases r) auto

lemma bind_result_Inl_iff:
  "bind_result r f = Inl e \<longleftrightarrow> r = Inl e \<or> (\<exists>x. r = Inr x \<and> f x = Inl e)"
  by (cases r) auto

subsection \<open>Tables\<close>

text \<open>
  A table is the list of its rows. \<open>find_row\<close> is a \<open>SELECT\<close> by a key column, \<open>update_where\<close> an
  \<open>UPDATE \<dots> WHERE\<close>, an \<open>INSERT\<close> appends a row, and \<open>max_or\<close> is \<open>COALESCE(MAX(col), d)\<close>.
\<close>

definition find_row :: "('r \<Rightarrow> 'k) \<Rightarrow> 'k \<Rightarrow> 'r list \<Rightarrow> 'r option" where
  "find_row key k t = List.find (\<lambda>r. key r = k) t"

definition update_where :: "('r \<Rightarrow> bool) \<Rightarrow> ('r \<Rightarrow> 'r) \<Rightarrow> 'r list \<Rightarrow> 'r list" where
  "update_where P f t = map (\<lambda>r. if P r then f r else r) t"

fun max_or :: "'a::linorder \<Rightarrow> 'a list \<Rightarrow> 'a" where
  "max_or d [] = d"
| "max_or d (x # xs) = (if xs = [] then x else max x (max_or d xs))"

lemma find_row_Nil [simp]: "find_row key k [] = None"
  by (simp add: find_row_def)

lemma find_row_Cons [simp]:
  "find_row key k (r # t) = (if key r = k then Some r else find_row key k t)"
  by (simp add: find_row_def)

lemma find_row_append:
  "find_row key k (t @ u) =
     (case find_row key k t of None \<Rightarrow> find_row key k u | Some r \<Rightarrow> Some r)"
  by (induction t) auto

lemma find_append:
  "List.find P (xs @ ys) = (case List.find P xs of None \<Rightarrow> List.find P ys | Some x \<Rightarrow> Some x)"
  by (induction xs) auto

lemma find_row_None_iff: "find_row key k t = None \<longleftrightarrow> k \<notin> key ` set t"
  by (auto simp: find_row_def find_None_iff)

lemma find_row_SomeD: "find_row key k t = Some r \<Longrightarrow> r \<in> set t \<and> key r = k"
  by (auto simp: find_row_def find_Some_iff)

lemma find_row_key: "find_row key k t = Some r \<Longrightarrow> key r = k"
  by (rule find_row_SomeD [THEN conjunct2])

lemma find_row_in_set: "find_row key k t = Some r \<Longrightarrow> r \<in> set t"
  by (rule find_row_SomeD [THEN conjunct1])

lemma find_row_distinct:
  assumes "distinct (map key t)" and "r \<in> set t"
  shows "find_row key (key r) t = Some r"
  using assms
proof (induction t)
  case (Cons a t)
  then show ?case by (cases "r = a") (auto simp: image_iff)
qed simp

lemma update_where_Nil [simp]: "update_where P f [] = []"
  by (simp add: update_where_def)

lemma update_where_Cons [simp]:
  "update_where P f (r # t) = (if P r then f r else r) # update_where P f t"
  by (simp add: update_where_def)

lemma length_update_where [simp]: "length (update_where P f t) = length t"
  by (simp add: update_where_def)

lemma update_where_append [simp]:
  "update_where P f (t @ u) = update_where P f t @ update_where P f u"
  by (simp add: update_where_def)

lemma set_update_where: "set (update_where P f t) = (\<lambda>r. if P r then f r else r) ` set t"
  by (simp add: update_where_def)

lemma map_update_where:
  "(\<And>r. P r \<Longrightarrow> g (f r) = g r) \<Longrightarrow> map g (update_where P f t) = map g t"
  by (induction t) auto

lemma update_where_cong_id: "(\<And>r. r \<in> set t \<Longrightarrow> \<not> P r) \<Longrightarrow> update_where P f t = t"
  by (induction t) auto

lemma update_where_miss: "k \<notin> key ` set t \<Longrightarrow> update_where (\<lambda>r. key r = k) f t = t"
  by (rule update_where_cong_id) auto

lemma find_row_update_where:
  "(\<And>r. P r \<Longrightarrow> key (f r) = key r) \<Longrightarrow>
   find_row key k (update_where P f t) =
     map_option (\<lambda>r. if P r then f r else r) (find_row key k t)"
  by (induction t) auto

lemma update_where_twice:
  "(\<And>x. P (f x) = P x) \<Longrightarrow> (\<And>x. f (f x) = f x) \<Longrightarrow> (\<And>x. Q (f x) = Q x) \<Longrightarrow>
   update_where Q f (update_where P f t) = update_where (\<lambda>x. P x \<or> Q x) f t"
  by (induction t) auto

lemma max_or_ge: "x \<in> set xs \<Longrightarrow> x \<le> max_or d xs"
  by (induction xs) (auto simp: le_max_iff_disj)

lemma max_or_in: "xs \<noteq> [] \<Longrightarrow> max_or d xs \<in> set xs"
  by (induction xs) (auto simp: max_def)

lemma max_or_fresh: "(max_or d xs + 1 :: int) \<notin> set xs"
  using max_or_ge [of "max_or d xs + 1" xs d] by auto

lemma max_or_upto: "max_or 0 [1..int n] = int n"
proof (cases n)
  case (Suc k)
  then have ne: "[1..int n] \<noteq> []" by simp
  show ?thesis
  proof (rule antisym)
    show "max_or 0 [1..int n] \<le> int n" using max_or_in [OF ne, of 0] by simp
    show "int n \<le> max_or 0 [1..int n]" by (rule max_or_ge) (simp add: Suc)
  qed
qed simp

lemma sorted_wrt_le_last: "sorted_wrt P xs \<Longrightarrow> x \<in> set xs \<Longrightarrow> x = last xs \<or> P x (last xs)"
  by (induction xs) auto

subsection \<open>Rendering numbers\<close>

text \<open>\<open>str(n)\<close> of an integer: its decimal digits, a minus sign before those of a negative one. The
  digits are the remainders of repeated division, least significant last.\<close>

fun decimal :: "nat \<Rightarrow> nat list" where
  "decimal k = (let (q, d) = (k div 10, k mod 10) in if q = 0 then [d] else decimal q @ [d])"

declare decimal.simps [simp del]

definition digit_char :: "nat \<Rightarrow> char" where
  "digit_char d = char_of (48 + d)"

definition string_of_nat :: "nat \<Rightarrow> string" where
  "string_of_nat k = map digit_char (decimal k)"

text \<open>The sign of \<open>i\<close>, then the digits of its magnitude.\<close>

definition string_of_int :: "int \<Rightarrow> string" where
  "string_of_int i = (if 0 \<le> i then [] else [CHR ''-'']) @ string_of_nat (nat \<bar>i\<bar>)"

lemma decimal_digits: "d \<in> set (decimal k) \<Longrightarrow> d < 10"
proof (induction k rule: decimal.induct)
  case (1 k)
  then show ?case by (auto simp: decimal.simps [of k] Let_def split: if_splits)
qed

lemma decimal_value: "foldl (\<lambda>v d. 10 * v + d) 0 (decimal k) = k"
proof (induction k rule: decimal.induct)
  case (1 k)
  show ?case
  proof (cases "k div 10 = 0")
    case True
    then show ?thesis by (simp add: decimal.simps [of k])
  next
    case False
    with 1 show ?thesis by (simp add: decimal.simps [of k])
  qed
qed

lemma digit_char_inject: "d < 10 \<Longrightarrow> e < 10 \<Longrightarrow> digit_char d = digit_char e \<longleftrightarrow> d = e"
proof -
  assume "d < 10" "e < 10"
  then have "of_char (digit_char d) = 48 + d" "of_char (digit_char e) = 48 + e"
    by (simp_all add: digit_char_def)
  then show ?thesis by (metis add_left_cancel)
qed

lemma string_of_nat_inject [simp]: "string_of_nat m = string_of_nat n \<longleftrightarrow> m = n"
proof
  assume "string_of_nat m = string_of_nat n"
  then have "decimal m = decimal n"
    unfolding string_of_nat_def
    by (rule map_inj_on) (auto simp: inj_on_def dest: digit_char_inject [OF decimal_digits decimal_digits, THEN iffD1, rotated 2])
  then show "m = n" by (metis decimal_value)
qed simp

lemma string_of_nat_digits: "c \<in> set (string_of_nat n) \<Longrightarrow> \<exists>d::nat. d < 10 \<and> c = char_of (48 + d)"
  by (auto simp: string_of_nat_def digit_char_def dest: decimal_digits)

lemma digit_neq:
  assumes "d < 10" "\<not> ((48::nat) \<le> of_char c \<and> of_char c < (58::nat))"
  shows "char_of (48 + d :: nat) \<noteq> c"
proof
  assume "char_of (48 + d) = c"
  then have "of_char c = (48 + d) mod (256::nat)" by (metis of_char_of)
  with assms show False by simp
qed

lemma not_in_string_of_nat:
  "\<not> ((48::nat) \<le> of_char c \<and> of_char c < (58::nat)) \<Longrightarrow> c \<notin> set (string_of_nat n)"
  using string_of_nat_digits digit_neq by metis

lemma string_of_int_inject [simp]: "string_of_int i = string_of_int j \<longleftrightarrow> i = j"
proof -
  have m: "string_of_nat n \<noteq> CHR ''-'' # s" for n s
    using not_in_string_of_nat [of "CHR ''-''" n] by (auto simp del: string_of_nat_inject)
  then show ?thesis
    by (auto simp: string_of_int_def) (metis m)+
qed

lemma hash_not_in_string_of_int: "CHR ''#'' \<notin> set (string_of_int i)"
  by (simp add: string_of_int_def not_in_string_of_nat)

text \<open>A suffix after the last separator is unique when it does not contain the separator.\<close>

lemma append_sep_inject:
  assumes "s @ c # a = t @ c # b" and "c \<notin> set a" and "c \<notin> set b"
  shows "s = t \<and> a = b"
proof -
  have "rev a @ c # rev s = rev b @ c # rev t" using arg_cong [OF assms(1), of rev] by simp
  moreover have "takeWhile (\<lambda>x. x \<noteq> c) (rev a @ c # rev s) = rev a"
    and "takeWhile (\<lambda>x. x \<noteq> c) (rev b @ c # rev t) = rev b"
    using assms(2,3) by (auto simp: takeWhile_append)
  ultimately have "rev a = rev b" by argo
  with assms(1) show ?thesis by simp
qed

end
