(* ===== verification/State_Machine.thy ===== *)
theory State_Machine
  imports Prelude
begin

section \<open>Error codes and the transition table primitive (\<open>opspilot/domain/base.py\<close>)\<close>

text \<open>
  The domain layer raises \<open>DomainError\<close> with one of five fixed codes, renders pydantic validation
  errors without the rejected input, and describes every lifecycle by a \<open>StateMachine\<close>: a table
  \<open>(state, trigger) \<rightarrow> state\<close> whose constructor refuses an edge to an undeclared state. The states of
  a machine are a datatype (the \<open>Literal\<close> of the source); triggers are strings, since any string may
  reach \<open>fire\<close>. The \<open>isinstance\<close> checks of the source are discharged by typing.

  The locale \<open>lifecycle\<close> is the contract a table gives its clients; every table of the domain layer
  is an interpretation of it in the theory that declares the table.
\<close>

datatype ErrorCode = INVALID_INPUT | ILLEGAL_TRANSITION | CONTROL_CONFLICT | SUSPENDED | STALE_RESULT

type_synonym 'a domain_result = "ErrorCode + 'a"

subsection \<open>Rendering a validation failure\<close>

datatype loc_item = LocName string | LocIndex int

record validation_error =
  ve_type :: string
  ve_loc :: "loc_item list"
  ve_msg :: string
  ve_input :: json

record rendered_error =
  re_type :: string
  re_loc :: "loc_item list"
  re_msg :: string

definition sanitized_errors :: "validation_error list \<Rightarrow> rendered_error list" where
  "sanitized_errors errors = map (\<lambda>error.
     \<lparr>re_type = ve_type error,
      re_loc = (if ve_type error = ''extra_forbidden'' \<and> ve_loc error \<noteq> []
                then butlast (ve_loc error) @ [LocName ''<redacted>'']
                else ve_loc error),
      re_msg = ve_msg error\<rparr>) errors"

subsection \<open>The table\<close>

record 's StateMachine =
  sm_name :: string
  sm_edges :: "('s \<times> (string \<times> 's) list) list"

definition StateMachine_init ::
  "string \<Rightarrow> ('s \<times> (string \<times> 's) list) list \<Rightarrow> 's StateMachine option" where
  "StateMachine_init name edges =
     (if \<forall>(state, triggers) \<in> set edges. \<forall>(trigger, target) \<in> set triggers. target \<in> fst ` set edges
      then Some \<lparr>sm_name = name, sm_edges = edges\<rparr> else None)"

definition states :: "'s StateMachine \<Rightarrow> 's set" where
  "states m = fst ` set (sm_edges m)"

definition sm_require :: "'s StateMachine \<Rightarrow> 's \<Rightarrow> (string \<times> 's) list domain_result" where
  "sm_require m state =
     (case map_of (sm_edges m) state of None \<Rightarrow> Inl INVALID_INPUT | Some ts \<Rightarrow> Inr ts)"

definition triggers :: "'s StateMachine \<Rightarrow> 's \<Rightarrow> string set domain_result" where
  "triggers m state = bind_result (sm_require m state) (\<lambda>ts. Inr (fst ` set ts))"

definition terminal :: "'s StateMachine \<Rightarrow> 's \<Rightarrow> bool domain_result" where
  "terminal m state = bind_result (sm_require m state) (\<lambda>ts. Inr (ts = []))"

definition fire :: "'s StateMachine \<Rightarrow> 's \<Rightarrow> string \<Rightarrow> 's domain_result" where
  "fire m state trigger = bind_result (sm_require m state) (\<lambda>allowed.
     (case map_of allowed trigger of None \<Rightarrow> Inl ILLEGAL_TRANSITION | Some target \<Rightarrow> Inr target))"

text \<open>A sequence of triggers, stopping at the first refusal.\<close>

fun fires :: "'s StateMachine \<Rightarrow> 's \<Rightarrow> string list \<Rightarrow> 's domain_result" where
  "fires m state [] = Inr state"
| "fires m state (t # ts) = bind_result (fire m state t) (\<lambda>s. fires m s ts)"

subsection \<open>The contract of a table\<close>

text \<open>A table whose constructor succeeded and which declares every state of its \<open>Literal\<close>.\<close>

locale lifecycle =
  fixes m :: "'s StateMachine"
  assumes constructed: "StateMachine_init (sm_name m) (sm_edges m) = Some m"
    and declared: "s \<in> states m"
begin

lemma require_ok: "\<exists>ts. sm_require m s = Inr ts"
proof -
  obtain ts where "(s, ts) \<in> set (sm_edges m)"
    using declared [of s] by (auto simp: states_def)
  then obtain ts' where "map_of (sm_edges m) s = Some ts'"
    by (metis weak_map_of_SomeI)
  then show ?thesis by (simp add: sm_require_def)
qed

text \<open>A declared table never answers \<open>INVALID_INPUT\<close>: an unlisted pair is an illegal transition.\<close>

lemma fire_total: "fire m s t = Inl ILLEGAL_TRANSITION \<or> (\<exists>s'. fire m s t = Inr s')"
  using require_ok [of s] by (auto simp: fire_def split: option.splits)

lemma fire_Inl: "fire m s t = Inl e \<Longrightarrow> e = ILLEGAL_TRANSITION"
  using fire_total [of s t] by auto

lemma terminal_iff: "terminal m s = Inr True \<longleftrightarrow> (\<forall>t. fire m s t = Inl ILLEGAL_TRANSITION)"
proof -
  obtain ts where ts: "sm_require m s = Inr ts" using require_ok by blast
  have "(\<forall>t. map_of ts t = None) \<longleftrightarrow> ts = []"
    by (metis map_of.simps(1) map_of_eq_empty_iff)
  with ts show ?thesis
    by (auto simp: terminal_def fire_def split: option.splits)
qed

text \<open>Nothing leaves a terminal state.\<close>

lemma terminal_final: "terminal m s = Inr True \<Longrightarrow> fires m s ts = Inr s' \<Longrightarrow> ts = [] \<and> s' = s"
  by (cases ts) (auto simp: terminal_iff bind_result_Inr_iff)

text \<open>A property of states that every edge keeps holds after any sequence of triggers.\<close>

lemma fires_invariant:
  assumes step: "\<And>a t b. P a \<Longrightarrow> t \<in> T \<Longrightarrow> fire m a t = Inr b \<Longrightarrow> P b"
  shows "P s \<Longrightarrow> set ts \<subseteq> T \<Longrightarrow> fires m s ts = Inr s' \<Longrightarrow> P s'"
proof (induction ts arbitrary: s)
  case (Cons t ts)
  then show ?case by (auto simp: bind_result_Inr_iff intro: step)
qed simp

end

text \<open>Closed instances of a table evaluate with these equations.\<close>

lemmas machine_eval = fire_def sm_require_def terminal_def triggers_def StateMachine_init_def states_def

subsection \<open>Properties\<close>

text \<open>(\<open>sanitized_errors\<close>) A rendered validation failure does not depend on the rejected input:
  two failures that differ only in the rejected values, and in the final location segment of
  \<open>extra_forbidden\<close> errors, which is the caller's own key, render the same.\<close>

theorem sanitized_errors_no_leak:
  assumes "list_all2 (\<lambda>a b. ve_type a = ve_type b \<and> ve_msg a = ve_msg b \<and>
             (if ve_type a = ''extra_forbidden''
              then butlast (ve_loc a) = butlast (ve_loc b) \<and> (ve_loc a = [] \<longleftrightarrow> ve_loc b = [])
              else ve_loc a = ve_loc b)) xs ys"
  shows "sanitized_errors xs = sanitized_errors ys"
  using assms by (induction rule: list_all2_induct) (auto simp: sanitized_errors_def split: if_splits)

theorem sanitized_errors_no_leak_witness:
  "sanitized_errors [\<lparr>ve_type = ''extra_forbidden'', ve_loc = [LocName ''run'', LocName ''s3cret''],
       ve_msg = ''Extra inputs'', ve_input = JStr ''hunter2''\<rparr>]
   = sanitized_errors [\<lparr>ve_type = ''extra_forbidden'', ve_loc = [LocName ''run'', LocName ''other''],
       ve_msg = ''Extra inputs'', ve_input = JInt 0\<rparr>]"
  by (rule sanitized_errors_no_leak) simp

end
