(* ===== verification/Domain_Control.thy ===== *)
theory Domain_Control
  imports State_Machine
begin

section \<open>Targets, human control and suspension (\<open>domain/intake.py\<close>, \<open>domain/control.py\<close>)\<close>

text \<open>
  Two control layers. A human operation on a subject is a conditional update: it carries the
  control generation it was decided at, and either applies and increments the generation or is a
  conflict that changes nothing. Global and per-target suspension is a separate scope state with
  its own generations that outranks the subject layer.
\<close>

record Target =
  t_integration_id :: string
  t_cluster_uid :: string
  t_namespace :: string
  t_resource_uid :: string
  t_revision :: "string option"

datatype ObservationMode = M_automatic | M_human_owned

record ControlState =
  cs_control_generation :: int
  cs_mode :: ObservationMode
  cs_paused :: bool
  cs_observation_authorized :: bool

definition ControlState_default :: ControlState where
  "ControlState_default = \<lparr>cs_control_generation = 0, cs_mode = M_automatic, cs_paused = False,
     cs_observation_authorized = False\<rparr>"

record ScopeVersions =
  sv_subject_control_generation :: int
  sv_global_suspension_generation :: int
  sv_target_suspension_generation :: int

record SuspensionState =
  ss_global_suspended :: bool
  ss_global_generation :: int
  ss_suspended_target_uids :: "string set"
  ss_target_generation :: int

definition blocks :: "SuspensionState \<Rightarrow> Target \<Rightarrow> bool" where
  "blocks s target \<longleftrightarrow> ss_global_suspended s \<or> t_resource_uid target \<in> ss_suspended_target_uids s"

datatype ControlAction =
    A_pause | A_resume | A_takeover | A_follow_up | A_correct | A_cancel_run | A_close | A_reopen
  | A_rebind_target | A_merge_into | A_authorize_observation | A_revoke_observation

text \<open>The \<open>_ACTIONS\<close> set: the strings that name an action.\<close>

definition control_actions :: "(string \<times> ControlAction) list" where
  "control_actions = [(''pause'', A_pause), (''resume'', A_resume), (''takeover'', A_takeover),
     (''follow_up'', A_follow_up), (''correct'', A_correct), (''cancel_run'', A_cancel_run),
     (''close'', A_close), (''reopen'', A_reopen), (''rebind_target'', A_rebind_target),
     (''merge_into'', A_merge_into), (''authorize_observation'', A_authorize_observation),
     (''revoke_observation'', A_revoke_observation)]"

definition control_update :: "ControlState \<Rightarrow> ControlAction \<Rightarrow> ControlState domain_result" where
  "control_update state action =
     (let update = state\<lparr>cs_control_generation := cs_control_generation state + 1\<rparr> in
      case action of
        A_pause \<Rightarrow> Inr (update\<lparr>cs_paused := True\<rparr>)
      | A_resume \<Rightarrow> Inr (update\<lparr>cs_paused := False\<rparr>)
      | A_takeover \<Rightarrow> Inr (update\<lparr>cs_mode := M_human_owned, cs_observation_authorized := False\<rparr>)
      | A_authorize_observation \<Rightarrow>
          (if cs_mode state \<noteq> M_human_owned then Inl ILLEGAL_TRANSITION
           else Inr (update\<lparr>cs_observation_authorized := True\<rparr>))
      | A_revoke_observation \<Rightarrow> Inr (update\<lparr>cs_observation_authorized := False\<rparr>)
      | A_rebind_target \<Rightarrow> Inr (update\<lparr>cs_observation_authorized := False\<rparr>)
      | A_merge_into \<Rightarrow> Inr (update\<lparr>cs_observation_authorized := False\<rparr>)
      | _ \<Rightarrow> Inr update)"

definition apply_control :: "ControlState \<Rightarrow> string \<Rightarrow> int \<Rightarrow> ControlState domain_result" where
  "apply_control state action expected_version =
     (if expected_version < 0 then Inl INVALID_INPUT
      else case map_of control_actions action of
        None \<Rightarrow> Inl INVALID_INPUT
      | Some act \<Rightarrow>
          if expected_version \<noteq> cs_control_generation state then Inl CONTROL_CONFLICT
          else control_update state act)"

definition resolved_uids :: "Target list \<Rightarrow> string set domain_result" where
  "resolved_uids targets =
     (if targets = [] then Inl INVALID_INPUT else Inr (t_resource_uid ` set targets))"

definition suspend_targets :: "SuspensionState \<Rightarrow> Target list \<Rightarrow> SuspensionState domain_result" where
  "suspend_targets state targets = bind_result (resolved_uids targets) (\<lambda>resolved.
     Inr (state\<lparr>ss_suspended_target_uids := ss_suspended_target_uids state \<union> resolved,
                ss_target_generation := ss_target_generation state + 1\<rparr>))"

definition release_targets :: "SuspensionState \<Rightarrow> Target list \<Rightarrow> SuspensionState domain_result" where
  "release_targets state targets = bind_result (resolved_uids targets) (\<lambda>resolved.
     Inr (state\<lparr>ss_suspended_target_uids := ss_suspended_target_uids state - resolved,
                ss_target_generation := ss_target_generation state + 1\<rparr>))"

definition suspend_globally :: "SuspensionState \<Rightarrow> bool \<Rightarrow> SuspensionState" where
  "suspend_globally state suspended =
     state\<lparr>ss_global_suspended := suspended, ss_global_generation := ss_global_generation state + 1\<rparr>"

definition automatic_investigation_allowed ::
  "ControlState \<Rightarrow> SuspensionState \<Rightarrow> Target \<Rightarrow> bool \<Rightarrow> bool" where
  "automatic_investigation_allowed control suspension target lifecycle_allows =
     (if blocks suspension target then False
      else if cs_paused control \<or> cs_mode control \<noteq> M_automatic then False
      else lifecycle_allows)"

definition observation_sampling_allowed ::
  "ControlState \<Rightarrow> SuspensionState \<Rightarrow> Target \<Rightarrow> bool \<Rightarrow> bool" where
  "observation_sampling_allowed control suspension target lifecycle_allows =
     (if blocks suspension target \<or> cs_paused control \<or> \<not> lifecycle_allows then False
      else if cs_mode control = M_automatic then True
      else cs_observation_authorized control)"

definition event_intake_allowed :: "SuspensionState \<Rightarrow> bool" where
  "event_intake_allowed suspension = True"

definition human_control_allowed :: "SuspensionState \<Rightarrow> bool" where
  "human_control_allowed suspension = True"

definition check_scope_versions :: "ScopeVersions \<Rightarrow> ScopeVersions \<Rightarrow> unit domain_result" where
  "check_scope_versions observed current = (if observed \<noteq> current then Inl CONTROL_CONFLICT else Inr ())"

subsection \<open>Sequences of operations\<close>

text \<open>A sequence of human operations, each with its expected version; a refused one changes
  nothing and the next is tried on the same state.\<close>

fun control_history :: "ControlState \<Rightarrow> (string \<times> int) list \<Rightarrow> ControlState" where
  "control_history s [] = s"
| "control_history s ((a, v) # rest) =
     control_history (case apply_control s a v of Inl e \<Rightarrow> s | Inr s' \<Rightarrow> s') rest"

lemma control_update_generation:
  "control_update s a = Inr s' \<Longrightarrow> cs_control_generation s' = cs_control_generation s + 1"
  by (cases a) (auto simp: control_update_def Let_def split: if_splits)

lemma control_update_mode:
  "control_update s a = Inr s' \<Longrightarrow> cs_mode s = M_human_owned \<Longrightarrow> cs_mode s' = M_human_owned"
  by (cases a) (auto simp: control_update_def Let_def split: if_splits)

lemma apply_control_InrE:
  assumes "apply_control s a v = Inr s'"
  obtains act where "map_of control_actions a = Some act" and "0 \<le> v"
    and "v = cs_control_generation s" and "control_update s act = Inr s'"
  using assms by (auto simp: apply_control_def split: if_splits option.splits)

lemma apply_control_generation:
  "apply_control s a v = Inr s' \<Longrightarrow>
     v = cs_control_generation s \<and> cs_control_generation s' = cs_control_generation s + 1"
  by (auto elim: apply_control_InrE simp: control_update_generation)

lemma apply_control_mode:
  "apply_control s a v = Inr s' \<Longrightarrow> cs_mode s = M_human_owned \<Longrightarrow> cs_mode s' = M_human_owned"
  by (auto elim: apply_control_InrE simp: control_update_mode)

lemma control_history_append [simp]:
  "control_history s (xs @ ys) = control_history (control_history s xs) ys"
  by (induction s xs rule: control_history.induct) auto

lemma control_history_generation_mono:
  "cs_control_generation s \<le> cs_control_generation (control_history s ops)"
proof (induction ops arbitrary: s)
  case (Cons op ops)
  obtain a v where op: "op = (a, v)" by (cases op)
  let ?s = "case apply_control s a v of Inl e \<Rightarrow> s | Inr s' \<Rightarrow> s'"
  have "cs_control_generation s \<le> cs_control_generation ?s"
  proof (cases "apply_control s a v")
    case (Inr s')
    with apply_control_generation [OF Inr] show ?thesis by simp
  qed simp
  also have "\<dots> \<le> cs_control_generation (control_history ?s ops)" by (rule Cons.IH)
  finally show ?case by (simp add: op)
qed simp

lemma control_history_human_owned:
  "cs_mode s = M_human_owned \<Longrightarrow> cs_mode (control_history s ops) = M_human_owned"
proof (induction ops arbitrary: s)
  case (Cons op ops)
  obtain a v where op: "op = (a, v)" by (cases op)
  have "cs_mode (case apply_control s a v of Inl e \<Rightarrow> s | Inr s' \<Rightarrow> s') = M_human_owned"
  proof (cases "apply_control s a v")
    case (Inr s')
    with apply_control_mode [OF Inr Cons.prems] show ?thesis by simp
  qed (simp add: Cons.prems)
  from Cons.IH [OF this] show ?case by (simp add: op)
qed simp

subsection \<open>Properties\<close>

lemma apply_control_ok_iff:
  "is_ok (apply_control s a v) \<longleftrightarrow>
     0 \<le> v \<and> v = cs_control_generation s \<and>
     (\<exists>act. map_of control_actions a = Some act \<and>
        \<not> (act = A_authorize_observation \<and> cs_mode s \<noteq> M_human_owned))"
proof -
  have "is_ok (control_update s act) \<longleftrightarrow> \<not> (act = A_authorize_observation \<and> cs_mode s \<noteq> M_human_owned)"
    for act by (cases act) (auto simp: control_update_def Let_def)
  then show ?thesis
    by (auto simp: apply_control_def split: option.splits)
qed

lemma apply_control_stale:
  assumes ok: "apply_control s a v = Inr s'" and b: "map_of control_actions b = Some act"
  shows "apply_control (control_history s' ops) b v = Inl CONTROL_CONFLICT"
proof -
  have "0 \<le> v" using ok by (rule apply_control_InrE)
  moreover have "v < cs_control_generation (control_history s' ops)"
    using apply_control_generation [OF ok] control_history_generation_mono [of s' ops] by simp
  ultimately show ?thesis
    using b by (simp add: apply_control_def)
qed

lemma takeover_ends_automatic:
  assumes "apply_control c ''takeover'' v = Inr c'"
  shows "\<not> automatic_investigation_allowed (control_history c' ops) u tg l"
proof -
  have "cs_mode c' = M_human_owned"
    using assms by (elim apply_control_InrE) (auto simp: control_actions_def control_update_def)
  then show ?thesis
    by (simp add: automatic_investigation_allowed_def control_history_human_owned)
qed

text \<open>(\<open>apply_control\<close>) A human operation applies exactly when it is a known action decided at
  the current generation (and, for a separate observation authorization, under human ownership);
  then the generation rises by one, so a second operation decided at the same version is always a
  conflict, whatever happened in between.\<close>

theorem apply_control_conditional_update:
  "(is_ok (apply_control s a v) \<longleftrightarrow>
     0 \<le> v \<and> v = cs_control_generation s \<and>
     (\<exists>act. map_of control_actions a = Some act \<and>
        \<not> (act = A_authorize_observation \<and> cs_mode s \<noteq> M_human_owned))) \<and>
   (apply_control s a v = Inr s' \<longrightarrow> cs_control_generation s' = cs_control_generation s + 1 \<and>
     (map_of control_actions b = Some act \<longrightarrow>
       apply_control (control_history s' ops) b v = Inl CONTROL_CONFLICT))"
proof (intro conjI impI apply_control_ok_iff)
  assume ok: "apply_control s a v = Inr s'"
  show "cs_control_generation s' = cs_control_generation s + 1"
    using apply_control_generation [OF ok] by simp
  show "apply_control (control_history s' ops) b v = Inl CONTROL_CONFLICT"
    if "map_of control_actions b = Some act" using ok that by (rule apply_control_stale)
qed

theorem apply_control_conditional_update_witness:
  "apply_control (control_history (ControlState_default\<lparr>cs_control_generation := 1, cs_paused := True\<rparr>)
     [(''resume'', 1)]) ''close'' 0 = Inl CONTROL_CONFLICT"
proof -
  have "apply_control ControlState_default ''pause'' 0
      = Inr (ControlState_default\<lparr>cs_control_generation := 1, cs_paused := True\<rparr>)"
    by (simp add: apply_control_def ControlState_default_def control_actions_def control_update_def)
  moreover have "map_of control_actions ''close'' = Some A_close"
    by (simp add: control_actions_def)
  ultimately show ?thesis using apply_control_conditional_update by blast
qed

text \<open>(suspension outranks control) While global suspension or the target's own suspension is
  in force, no control state, however it was reached, allows automatic investigation or sampling of
  that target; event intake and human operations stay allowed. Taking over ends automatic
  investigation for good: no later sequence of human operations allows it again.\<close>

theorem suspension_and_takeover_outrank:
  "(blocks u tg \<longrightarrow>
     \<not> automatic_investigation_allowed (control_history c ops) u tg l \<and>
     \<not> observation_sampling_allowed (control_history c ops) u tg l \<and>
     event_intake_allowed u \<and> human_control_allowed u) \<and>
   (apply_control c ''takeover'' v = Inr c' \<longrightarrow>
     \<not> automatic_investigation_allowed (control_history c' ops) u tg l)"
  using takeover_ends_automatic
  by (simp add: automatic_investigation_allowed_def observation_sampling_allowed_def
      event_intake_allowed_def human_control_allowed_def)

definition example_target :: Target where
  "example_target = \<lparr>t_integration_id = ''i'', t_cluster_uid = ''c'', t_namespace = ''n'',
     t_resource_uid = ''r'', t_revision = None\<rparr>"

definition example_suspension :: SuspensionState where
  "example_suspension = \<lparr>ss_global_suspended = False, ss_global_generation = 0,
     ss_suspended_target_uids = {}, ss_target_generation = 0\<rparr>"

theorem suspension_and_takeover_outrank_witness:
  "\<not> automatic_investigation_allowed
     (control_history (ControlState_default\<lparr>cs_control_generation := 1, cs_mode := M_human_owned\<rparr>)
        [(''resume'', 1)]) example_suspension example_target True"
proof -
  have "apply_control ControlState_default ''takeover'' 0
      = Inr (ControlState_default\<lparr>cs_control_generation := 1, cs_mode := M_human_owned\<rparr>)"
    by (simp add: apply_control_def ControlState_default_def control_actions_def control_update_def)
  then show ?thesis using suspension_and_takeover_outrank by blast
qed

text \<open>Suspending a set of resolved targets blocks exactly
  those in addition to what was blocked; releasing the same set afterwards leaves blocked exactly
  what was blocked before and is not in the set; both raise the target generation by one and neither
  touches the global gate; an empty scope is refused.\<close>

theorem target_suspension_scope:
  "(suspend_targets s [] = Inl INVALID_INPUT \<and> release_targets s [] = Inl INVALID_INPUT) \<and>
   (suspend_targets s ts = Inr s' \<longrightarrow>
     (blocks s' tg \<longleftrightarrow> blocks s tg \<or> t_resource_uid tg \<in> t_resource_uid ` set ts) \<and>
     (release_targets s' ts = Inr s'' \<longrightarrow>
       (blocks s'' tg \<longleftrightarrow> ss_global_suspended s \<or>
          t_resource_uid tg \<in> ss_suspended_target_uids s - t_resource_uid ` set ts) \<and>
       ss_target_generation s'' = ss_target_generation s + 2 \<and>
       ss_global_generation s'' = ss_global_generation s))"
  by (auto simp: suspend_targets_def release_targets_def resolved_uids_def blocks_def split: if_splits)

theorem target_suspension_scope_witness:
  "blocks (example_suspension\<lparr>ss_suspended_target_uids := {''r''}, ss_target_generation := 1\<rparr>)
     example_target"
proof -
  have "suspend_targets example_suspension [example_target]
    = Inr (example_suspension\<lparr>ss_suspended_target_uids := {''r''}, ss_target_generation := 1\<rparr>)"
    by (simp add: suspend_targets_def resolved_uids_def example_suspension_def example_target_def)
  moreover have "t_resource_uid example_target \<in> t_resource_uid ` set [example_target]" by simp
  ultimately show ?thesis using target_suspension_scope by blast
qed

end
