(* ===== verification/Domain_Subjects.thy ===== *)
theory Domain_Subjects
  imports Domain_Control
begin

section \<open>Incidents and release observations (\<open>domain/subjects.py\<close>)\<close>

text \<open>
  The two subjects of the program, each with its own lifecycle table and its own control state.
  Timestamps are instants. The validator of \<open>ReleaseObservationPolicy\<close> is a smart constructor.
\<close>

datatype IncidentLifecycle = L_open | L_observing_recovery | L_resolved | L_closed

datatype ReleaseStatus =
  RO_pending | RO_observing | RO_healthy | RO_anomalous | RO_unknown | RO_cancelled

definition INCIDENT_LIFECYCLE :: "IncidentLifecycle StateMachine" where
  "INCIDENT_LIFECYCLE = \<lparr>sm_name = ''incident'', sm_edges =
     [(L_open, [(''start_recovery_observation'', L_observing_recovery), (''human_close'', L_closed)]),
      (L_observing_recovery, [(''recovery_confirmed'', L_resolved),
         (''observation_ended_unconfirmed'', L_open), (''human_close'', L_closed)]),
      (L_resolved, [(''human_close'', L_closed), (''human_reopen'', L_open)]),
      (L_closed, [(''human_reopen'', L_open)])]\<rparr>"

definition RELEASE_OBSERVATION :: "ReleaseStatus StateMachine" where
  "RELEASE_OBSERVATION = \<lparr>sm_name = ''release_observation'', sm_edges =
     [(RO_pending, [(''observation_started'', RO_observing), (''deadline_expired'', RO_unknown),
         (''human_cancel'', RO_cancelled)]),
      (RO_observing, [(''healthy_window_satisfied'', RO_healthy), (''anomaly_detected'', RO_anomalous),
         (''evidence_unavailable'', RO_unknown), (''deadline_expired'', RO_unknown),
         (''human_cancel'', RO_cancelled)]),
      (RO_healthy, []), (RO_anomalous, []), (RO_unknown, []), (RO_cancelled, [])]\<rparr>"

interpretation incident: lifecycle INCIDENT_LIFECYCLE
proof (unfold_locales, goal_cases)
  case 1 show ?case by (simp add: INCIDENT_LIFECYCLE_def StateMachine_init_def)
next
  case (2 s) show ?case by (cases s) (simp_all add: INCIDENT_LIFECYCLE_def states_def)
qed

interpretation release: lifecycle RELEASE_OBSERVATION
proof (unfold_locales, goal_cases)
  case 1 show ?case by (simp add: RELEASE_OBSERVATION_def StateMachine_init_def)
next
  case (2 s) show ?case by (cases s) (simp_all add: RELEASE_OBSERVATION_def states_def)
qed

definition ACTIVE_INCIDENT_LIFECYCLES :: "IncidentLifecycle set" where
  "ACTIVE_INCIDENT_LIFECYCLES = {L_open, L_observing_recovery}"

definition ACTIVE_RELEASE_STATUSES :: "ReleaseStatus set" where
  "ACTIVE_RELEASE_STATUSES = {RO_pending, RO_observing}"

datatype subject_kind = SK_incident | SK_release_observation

record SubjectRef =
  sr_kind :: subject_kind
  sr_id :: string

record Incident =
  inc_incident_id :: string
  inc_target :: Target
  inc_opened_at :: time
  inc_lifecycle :: IncidentLifecycle
  inc_control :: ControlState
  inc_current_run_id :: "string option"
  inc_related_incident_id :: "string option"
  inc_observation_generation :: int

definition Incident_ref :: "Incident \<Rightarrow> SubjectRef" where
  "Incident_ref i = \<lparr>sr_kind = SK_incident, sr_id = inc_incident_id i\<rparr>"

record ReleaseIdentity =
  ri_source :: string
  ri_release_id :: string
  ri_target :: Target
  ri_release_revision :: string

record ReleaseObservationPolicy =
  rp_released_at :: time
  rp_min_tracking_seconds :: int
  rp_sample_interval_seconds :: int
  rp_healthy_window_seconds :: int
  rp_max_samples :: int
  rp_deadline :: time

definition seconds :: "int \<Rightarrow> time" where
  "seconds n = n * 1000000"

definition earliest_healthy_at :: "ReleaseObservationPolicy \<Rightarrow> time" where
  "earliest_healthy_at p =
     rp_released_at p + seconds (max (rp_min_tracking_seconds p) (rp_healthy_window_seconds p))"

text \<open>The fields of type \<open>Positive\<close> and the \<open>windows_fit_the_deadline\<close> validator.\<close>

definition windows_fit_the_deadline :: "ReleaseObservationPolicy \<Rightarrow> bool" where
  "windows_fit_the_deadline p \<longleftrightarrow>
     0 < rp_min_tracking_seconds p \<and> 0 < rp_sample_interval_seconds p \<and>
     0 < rp_healthy_window_seconds p \<and> 0 < rp_max_samples p \<and>
     \<not> rp_deadline p \<le> rp_released_at p \<and> \<not> earliest_healthy_at p \<ge> rp_deadline p"

record ReleaseObservation =
  ro_observation_id :: string
  ro_identity :: ReleaseIdentity
  ro_policy :: ReleaseObservationPolicy
  ro_status :: ReleaseStatus
  ro_control :: ControlState
  ro_current_run_id :: "string option"
  ro_incident_id :: "string option"
  ro_supersedes_observation_id :: "string option"
  ro_observation_generation :: int

definition ReleaseObservation_ref :: "ReleaseObservation \<Rightarrow> SubjectRef" where
  "ReleaseObservation_ref o1 = \<lparr>sr_kind = SK_release_observation, sr_id = ro_observation_id o1\<rparr>"

definition advance_incident :: "Incident \<Rightarrow> string \<Rightarrow> Incident domain_result" where
  "advance_incident incident trigger =
     bind_result (fire INCIDENT_LIFECYCLE (inc_lifecycle incident) trigger)
       (\<lambda>l. Inr (incident\<lparr>inc_lifecycle := l\<rparr>))"

datatype anomaly_disposition = attach_event | new_related_incident

definition disposition_for_new_anomaly :: "Incident \<Rightarrow> anomaly_disposition" where
  "disposition_for_new_anomaly incident =
     (if inc_lifecycle incident = L_closed then new_related_incident else attach_event)"

text \<open>\<open>a or b\<close> on two optional strings: the first when it is a non-empty string, else the second.\<close>

definition str_or :: "string option \<Rightarrow> string option \<Rightarrow> string option" where
  "str_or a b = (case a of None \<Rightarrow> b | Some s \<Rightarrow> (if s = [] then b else a))"

definition advance_release ::
  "ReleaseObservation \<Rightarrow> string \<Rightarrow> time option \<Rightarrow> string option \<Rightarrow> ReleaseObservation domain_result" where
  "advance_release obs trigger now incident_id =
     bind_result (fire RELEASE_OBSERVATION (ro_status obs) trigger) (\<lambda>status.
       let update = obs\<lparr>ro_status := status\<rparr> in
       if trigger = ''healthy_window_satisfied'' then
         (case now of None \<Rightarrow> Inl ILLEGAL_TRANSITION
          | Some n \<Rightarrow>
              if n < earliest_healthy_at (ro_policy obs) then Inl ILLEGAL_TRANSITION
              else if n \<ge> rp_deadline (ro_policy obs) then Inl ILLEGAL_TRANSITION
              else Inr update)
       else if trigger = ''anomaly_detected'' then
         (case str_or incident_id (ro_incident_id obs) of
            None \<Rightarrow> Inr update
          | Some linked \<Rightarrow>
              if linked = [] then Inl INVALID_INPUT else Inr (update\<lparr>ro_incident_id := Some linked\<rparr>))
       else Inr update)"

definition successor_observation ::
  "ReleaseObservation \<Rightarrow> string \<Rightarrow> ReleaseIdentity \<Rightarrow> ReleaseObservationPolicy
     \<Rightarrow> ReleaseObservation domain_result" where
  "successor_observation previous observation_id identity policy =
     bind_result (terminal RELEASE_OBSERVATION (ro_status previous)) (\<lambda>t.
       if \<not> t then Inl ILLEGAL_TRANSITION
       else Inr \<lparr>ro_observation_id = observation_id, ro_identity = identity, ro_policy = policy,
              ro_status = RO_pending, ro_control = ControlState_default, ro_current_run_id = None,
              ro_incident_id = None, ro_supersedes_observation_id = Some (ro_observation_id previous),
              ro_observation_generation = 0\<rparr>)"

subsection \<open>Facts about the tables\<close>

lemma incident_fire_resolved:
  "fire INCIDENT_LIFECYCLE l t = Inr L_resolved \<longleftrightarrow> l = L_observing_recovery \<and> t = ''recovery_confirmed''"
  by (cases l) (auto simp: INCIDENT_LIFECYCLE_def fire_def sm_require_def)

lemma release_terminal_iff:
  "terminal RELEASE_OBSERVATION s = Inr True \<longleftrightarrow> s \<notin> ACTIVE_RELEASE_STATUSES"
  by (cases s) (simp_all add: RELEASE_OBSERVATION_def machine_eval ACTIVE_RELEASE_STATUSES_def)

lemma release_terminal_ok: "\<exists>b. terminal RELEASE_OBSERVATION s = Inr b"
  using release.require_ok [of s] by (auto simp: terminal_def)

lemma release_fire_healthy:
  "fire RELEASE_OBSERVATION s t = Inr RO_healthy \<longleftrightarrow> s = RO_observing \<and> t = ''healthy_window_satisfied''"
  by (cases s) (auto simp: RELEASE_OBSERVATION_def fire_def sm_require_def)

text \<open>A run of lifecycle triggers on an incident.\<close>

fun advance_incident_all :: "Incident \<Rightarrow> string list \<Rightarrow> Incident domain_result" where
  "advance_incident_all i [] = Inr i"
| "advance_incident_all i (t # ts) = bind_result (advance_incident i t) (\<lambda>j. advance_incident_all j ts)"

lemma advance_incident_all_fires:
  "advance_incident_all i ts =
     bind_result (fires INCIDENT_LIFECYCLE (inc_lifecycle i) ts) (\<lambda>l. Inr (i\<lparr>inc_lifecycle := l\<rparr>))"
proof (induction ts arbitrary: i)
  case (Cons t ts)
  then show ?case
    by (cases "fire INCIDENT_LIFECYCLE (inc_lifecycle i) t") (simp_all add: advance_incident_def)
qed simp

lemma not_resolved_without_confirmation:
  assumes "l \<noteq> L_resolved" and "''recovery_confirmed'' \<notin> set ts"
    and "fires INCIDENT_LIFECYCLE l ts = Inr l'"
  shows "l' \<noteq> L_resolved"
proof (rule incident.fires_invariant [where P = "\<lambda>l. l \<noteq> L_resolved"
        and T = "{t. t \<noteq> ''recovery_confirmed''}", OF _ assms(1) _ assms(3)])
  show "b \<noteq> L_resolved" if "t \<in> {t. t \<noteq> ''recovery_confirmed''}"
    and "fire INCIDENT_LIFECYCLE a t = Inr b" for a t b
    using that incident_fire_resolved [of a t] by auto
  show "set ts \<subseteq> {t. t \<noteq> ''recovery_confirmed''}" using assms(2) by auto
qed

lemma advance_release_healthy_iff:
  "(\<exists>obs'. advance_release obs t n i = Inr obs' \<and> ro_status obs' = RO_healthy) \<longleftrightarrow>
     ro_status obs = RO_observing \<and> t = ''healthy_window_satisfied'' \<and>
     (\<exists>now. n = Some now \<and> earliest_healthy_at (ro_policy obs) \<le> now \<and> now < rp_deadline (ro_policy obs))"
  (is "?L \<longleftrightarrow> ?R")
proof
  assume ?L
  then obtain obs' where adv: "advance_release obs t n i = Inr obs'" and h: "ro_status obs' = RO_healthy"
    by blast
  then obtain st where st: "fire RELEASE_OBSERVATION (ro_status obs) t = Inr st"
    by (auto simp: advance_release_def bind_result_Inr_iff)
  with adv h have "st = RO_healthy"
    by (simp add: advance_release_def Let_def split: if_split_asm option.split_asm)
      (auto split: if_split_asm)
  with st have *: "ro_status obs = RO_observing" "t = ''healthy_window_satisfied''"
    by (simp_all add: release_fire_healthy)
  with adv show ?R
    by (auto simp: advance_release_def bind_result_Inr_iff split: option.split_asm if_split_asm)
next
  assume ?R
  then show ?L
    by (auto simp: advance_release_def RELEASE_OBSERVATION_def machine_eval)
qed

lemma successor_iff_final:
  "is_ok (successor_observation obs oid idn pol) \<longleftrightarrow>
     (\<forall>t n i. advance_release obs t n i = Inl ILLEGAL_TRANSITION)"
proof (cases "terminal RELEASE_OBSERVATION (ro_status obs) = Inr True")
  case True
  then have "\<forall>t. fire RELEASE_OBSERVATION (ro_status obs) t = Inl ILLEGAL_TRANSITION"
    by (simp add: release.terminal_iff)
  with True show ?thesis by (simp add: successor_observation_def advance_release_def)
next
  case False
  then obtain b where "terminal RELEASE_OBSERVATION (ro_status obs) = Inr b" and "\<not> b"
    using release_terminal_ok by (metis (full_types))
  moreover have "\<exists>x. advance_release obs ''human_cancel'' None None = Inr x"
    using False by (cases "ro_status obs")
      (simp_all add: advance_release_def RELEASE_OBSERVATION_def machine_eval)
  ultimately show ?thesis
    by (auto simp: successor_observation_def) (metis Inl_Inr_False)
qed

subsection \<open>Properties\<close>

text \<open>(\<open>advance_incident\<close>) Recovery is only ever confirmed by an independent observation:
  if a sequence of lifecycle triggers brings an incident that was not resolved to \<open>resolved\<close>, the
  sequence contains \<open>recovery_confirmed\<close>, so no sequence of human triggers and observation starts
  or ends resolves an incident; and nothing but the lifecycle changes along the way.\<close>

theorem resolved_only_by_recovery_confirmation:
  assumes "inc_lifecycle i \<noteq> L_resolved"
    and "advance_incident_all i ts = Inr j"
  shows "(inc_lifecycle j = L_resolved \<longrightarrow> ''recovery_confirmed'' \<in> set ts) \<and>
    j = i\<lparr>inc_lifecycle := inc_lifecycle j\<rparr>"
proof -
  obtain l where l: "fires INCIDENT_LIFECYCLE (inc_lifecycle i) ts = Inr l"
    and j: "j = i\<lparr>inc_lifecycle := l\<rparr>"
    using assms(2) by (auto simp: advance_incident_all_fires bind_result_Inr_iff)
  then show ?thesis
    using not_resolved_without_confirmation [OF assms(1) _ l] by auto
qed

definition example_incident :: Incident where
  "example_incident = \<lparr>inc_incident_id = ''inc-1'', inc_target = \<lparr>t_integration_id = ''i'',
     t_cluster_uid = ''c'', t_namespace = ''n'', t_resource_uid = ''r'', t_revision = None\<rparr>,
     inc_opened_at = 0, inc_lifecycle = L_open, inc_control = ControlState_default,
     inc_current_run_id = None, inc_related_incident_id = None, inc_observation_generation = 0\<rparr>"

theorem resolved_only_by_recovery_confirmation_witness:
  "advance_incident_all example_incident [''start_recovery_observation'', ''recovery_confirmed'']
     = Inr (example_incident\<lparr>inc_lifecycle := L_resolved\<rparr>) \<and>
   ''recovery_confirmed'' \<in> set [''start_recovery_observation'', ''recovery_confirmed'']"
proof -
  have *: "advance_incident_all example_incident [''start_recovery_observation'', ''recovery_confirmed'']
      = Inr (example_incident\<lparr>inc_lifecycle := L_resolved\<rparr>)"
    by (simp add: example_incident_def advance_incident_def INCIDENT_LIFECYCLE_def machine_eval)
  moreover from resolved_only_by_recovery_confirmation [OF _ *]
  have "''recovery_confirmed'' \<in> set [''start_recovery_observation'', ''recovery_confirmed'']"
    by (simp add: example_incident_def)
  ultimately show ?thesis by blast
qed

text \<open>(\<open>advance_release\<close>, \<open>successor_observation\<close>) A release observation becomes \<open>healthy\<close>
  exactly when it was observing and the trigger fires inside
  \<open>[earliest_healthy_at, deadline)\<close>, an interval every valid policy makes non-empty and that starts
  no earlier than the minimum tracking span and the healthy window; a terminal record accepts no
  trigger at all, and only a terminal record gets a successor.\<close>

theorem release_healthy_window:
  "((\<exists>obs'. advance_release obs t n i = Inr obs' \<and> ro_status obs' = RO_healthy) \<longleftrightarrow>
     ro_status obs = RO_observing \<and> t = ''healthy_window_satisfied'' \<and>
     (\<exists>now. n = Some now \<and> earliest_healthy_at (ro_policy obs) \<le> now \<and> now < rp_deadline (ro_policy obs))) \<and>
   (windows_fit_the_deadline p \<longrightarrow> earliest_healthy_at p < rp_deadline p \<and>
     rp_released_at p + seconds (rp_min_tracking_seconds p) \<le> earliest_healthy_at p \<and>
     rp_released_at p + seconds (rp_healthy_window_seconds p) \<le> earliest_healthy_at p) \<and>
   (is_ok (successor_observation obs oid idn pol) \<longleftrightarrow>
     (\<forall>t n i. advance_release obs t n i = Inl ILLEGAL_TRANSITION))"
proof (intro conjI advance_release_healthy_iff successor_iff_final)
  show "windows_fit_the_deadline p \<longrightarrow> earliest_healthy_at p < rp_deadline p \<and>
     rp_released_at p + seconds (rp_min_tracking_seconds p) \<le> earliest_healthy_at p \<and>
     rp_released_at p + seconds (rp_healthy_window_seconds p) \<le> earliest_healthy_at p"
    by (auto simp: windows_fit_the_deadline_def earliest_healthy_at_def seconds_def)
qed

definition example_policy :: ReleaseObservationPolicy where
  "example_policy = \<lparr>rp_released_at = 0, rp_min_tracking_seconds = 600, rp_sample_interval_seconds = 60,
     rp_healthy_window_seconds = 300, rp_max_samples = 30, rp_deadline = seconds 1800\<rparr>"

theorem release_healthy_window_witness:
  "rp_released_at example_policy + seconds 600 \<le> earliest_healthy_at example_policy"
proof -
  have "windows_fit_the_deadline example_policy"
    by (simp add: windows_fit_the_deadline_def earliest_healthy_at_def seconds_def example_policy_def)
  then have "rp_released_at example_policy + seconds (rp_min_tracking_seconds example_policy)
      \<le> earliest_healthy_at example_policy"
    using release_healthy_window by blast
  then show ?thesis by (simp add: example_policy_def)
qed

end
