(* ===== verification/Domain_Scheduling.thy ===== *)
theory Domain_Scheduling
  imports Domain_Subjects
begin

section \<open>Jobs and schedules (\<open>domain/scheduling.py\<close>)\<close>

text \<open>
  A job carries the generation of the schedule it was created under; changing a schedule bumps its
  generation and so invalidates the jobs of the old one. An expired lease requeues the job under a
  higher epoch, and renewal and commit verify owner, epoch and a live lease.

  \<open>execution_key\<close> hashes a canonical JSON document: the hash (\<open>digest\<close>) and the ISO rendering of an
  aware datetime (\<open>isoformat\<close>) are arguments. A datetime is its local time and its UTC offset;
  it is aware when the offset is present.
\<close>

datatype JobState = J_pending | J_leased | J_succeeded | J_failed | J_blocked | J_cancelled

definition JOB :: "JobState StateMachine" where
  "JOB = \<lparr>sm_name = ''job'', sm_edges =
     [(J_pending, [(''claimed'', J_leased), (''schedule_superseded'', J_cancelled),
         (''human_cancel'', J_cancelled)]),
      (J_leased, [(''committed'', J_succeeded), (''execution_failed'', J_failed),
         (''retries_exhausted'', J_blocked), (''lease_expired'', J_pending),
         (''schedule_superseded'', J_cancelled), (''human_cancel'', J_cancelled)]),
      (J_blocked, [(''human_cancel'', J_cancelled)]),
      (J_succeeded, []), (J_failed, []), (J_cancelled, [])]\<rparr>"

interpretation job: lifecycle JOB
proof (unfold_locales, goal_cases)
  case 1 show ?case by (simp add: JOB_def StateMachine_init_def)
next
  case (2 s) show ?case by (cases s) (simp_all add: JOB_def states_def)
qed

record Schedule =
  sch_schedule_id :: string
  sch_subject :: SubjectRef
  sch_kind :: string
  sch_generation :: int
  sch_due_at :: time
  sch_cancelled :: bool

record Job =
  job_job_id :: string
  job_schedule_id :: string
  job_subject :: SubjectRef
  job_schedule_generation :: int
  job_due_at :: time
  job_execution_key :: string
  job_state :: JobState
  job_epoch :: int
  job_attempts :: int
  job_owner :: "string option"
  job_lease_expires_at :: "time option"

record datetime =
  dt_local :: int
  dt_utcoffset :: "int option"

definition execution_key ::
  "(json \<Rightarrow> string) \<Rightarrow> (datetime \<Rightarrow> string) \<Rightarrow> string \<Rightarrow> int \<Rightarrow> datetime \<Rightarrow> string domain_result" where
  "execution_key digest isoformat schedule_id generation due_at =
     (if schedule_id = [] \<or> generation < 0 then Inl INVALID_INPUT
      else if dt_utcoffset due_at = None then Inl INVALID_INPUT
      else Inr (''job:'' @ digest (JObj (fmap_of_list
        [(''schedule_id'', JStr schedule_id), (''generation'', JInt generation),
         (''due_at'', JStr (isoformat due_at))]))))"

definition advance_job :: "Job \<Rightarrow> string \<Rightarrow> Job domain_result" where
  "advance_job job trigger = bind_result (fire JOB (job_state job) trigger) (\<lambda>state.
     let update = job\<lparr>job_state := state\<rparr> in
     Inr (if trigger = ''lease_expired''
          then update\<lparr>job_owner := None, job_lease_expires_at := None, job_epoch := job_epoch job + 1\<rparr>
          else update))"

definition may_execute :: "Job \<Rightarrow> Schedule \<Rightarrow> bool domain_result" where
  "may_execute job schedule =
     (if job_schedule_id job \<noteq> sch_schedule_id schedule then Inl INVALID_INPUT
      else bind_result (terminal JOB (job_state job)) (\<lambda>t.
        if t \<or> job_state job \<noteq> J_pending then Inr False
        else if sch_cancelled schedule \<or> job_schedule_generation job \<noteq> sch_generation schedule then Inr False
        else Inr True))"

definition claim_job :: "Job \<Rightarrow> string \<Rightarrow> int \<Rightarrow> time \<Rightarrow> Schedule \<Rightarrow> Job domain_result" where
  "claim_job job owner epoch lease_expires_at schedule =
     (if owner = [] then Inl INVALID_INPUT
      else bind_result (may_execute job schedule) (\<lambda>ok.
        if \<not> ok then Inl ILLEGAL_TRANSITION
        else if epoch \<noteq> job_epoch job then Inl INVALID_INPUT
        else bind_result (advance_job job ''claimed'') (\<lambda>claimed.
          Inr (claimed\<lparr>job_owner := Some owner, job_lease_expires_at := Some lease_expires_at,
                       job_attempts := job_attempts job + 1\<rparr>))))"

definition check_execution_identity :: "Job \<Rightarrow> string \<Rightarrow> int \<Rightarrow> time \<Rightarrow> unit domain_result" where
  "check_execution_identity job owner epoch now =
     (if job_state job \<noteq> J_leased then Inl ILLEGAL_TRANSITION
      else if job_owner job \<noteq> Some owner \<or> job_epoch job \<noteq> epoch then Inl CONTROL_CONFLICT
      else if (case job_lease_expires_at job of None \<Rightarrow> True | Some t \<Rightarrow> t \<le> now) then Inl CONTROL_CONFLICT
      else Inr ())"

definition supersede_schedule :: "Schedule \<Rightarrow> time option \<Rightarrow> Schedule" where
  "supersede_schedule schedule due_at =
     (let update = schedule\<lparr>sch_generation := sch_generation schedule + 1\<rparr>
      in case due_at of None \<Rightarrow> update | Some d \<Rightarrow> update\<lparr>sch_due_at := d\<rparr>)"

subsection \<open>Histories of one job\<close>

datatype job_event = JTrigger string | JClaim string int time Schedule

definition job_event_apply :: "Job \<Rightarrow> job_event \<Rightarrow> Job domain_result" where
  "job_event_apply j e = (case e of JTrigger t \<Rightarrow> advance_job j t
     | JClaim owner epoch until sch \<Rightarrow> claim_job j owner epoch until sch)"

fun job_events :: "Job \<Rightarrow> job_event list \<Rightarrow> Job domain_result" where
  "job_events j [] = Inr j"
| "job_events j (e # es) = bind_result (job_event_apply j e) (\<lambda>k. job_events k es)"

lemma may_execute_iff:
  "may_execute j sch = Inr True \<longleftrightarrow> job_schedule_id j = sch_schedule_id sch \<and> job_state j = J_pending \<and>
     \<not> sch_cancelled sch \<and> job_schedule_generation j = sch_generation sch"
  by (cases "job_state j") (auto simp: may_execute_def JOB_def machine_eval)

lemma advance_job_Inr:
  "advance_job j t = Inr k \<Longrightarrow> fire JOB (job_state j) t = Inr (job_state k) \<and>
     job_epoch k = job_epoch j + (if t = ''lease_expired'' then 1 else 0) \<and>
     job_schedule_generation k = job_schedule_generation j \<and> job_attempts k = job_attempts j"
  by (auto simp: advance_job_def bind_result_Inr_iff Let_def)

lemma claim_job_Inr:
  assumes "claim_job j owner e until sch = Inr k"
  shows "may_execute j sch = Inr True \<and> e = job_epoch j \<and> job_epoch k = e \<and> job_state k = J_leased \<and>
     job_owner k = Some owner \<and> job_attempts k = job_attempts j + 1 \<and>
     job_schedule_generation k = job_schedule_generation j"
proof -
  obtain c where c: "advance_job j ''claimed'' = Inr c" and ok: "may_execute j sch = Inr True"
    and e: "e = job_epoch j"
    and k: "k = c\<lparr>job_owner := Some owner, job_lease_expires_at := Some until,
       job_attempts := job_attempts j + 1\<rparr>"
    using assms by (auto simp: claim_job_def bind_result_Inr_iff split: if_splits)
  then show ?thesis
    using advance_job_Inr [OF c] by (auto simp: may_execute_iff JOB_def machine_eval)
qed

text \<open>Invariant: a job that has been leased since epoch \<open>e\<close> and is pending again has a higher epoch.\<close>

lemma job_events_epoch:
  "job_events j es = Inr k \<Longrightarrow> job_epoch j \<le> job_epoch k \<and>
     (job_state j \<noteq> J_pending \<longrightarrow> job_state k = J_pending \<longrightarrow> job_epoch j < job_epoch k)"
proof (induction es arbitrary: j)
  case (Cons e es)
  then obtain j' where j': "job_event_apply j e = Inr j'" "job_events j' es = Inr k"
    by (auto simp: bind_result_Inr_iff)
  note IH = Cons.IH [OF j'(2)]
  show ?case
  proof (cases e)
    case (JTrigger t)
    with j' have adv: "advance_job j t = Inr j'" by (simp add: job_event_apply_def)
    note a = advance_job_Inr [OF adv]
    have "job_state j \<noteq> J_pending \<Longrightarrow> job_state j' = J_pending \<Longrightarrow> t = ''lease_expired''"
      using a by (cases "job_state j") (auto simp: JOB_def machine_eval split: if_splits)
    with a IH show ?thesis by (cases "t = ''lease_expired''") auto
  next
    case (JClaim owner ep until sch)
    with j' have "claim_job j owner ep until sch = Inr j'" by (simp add: job_event_apply_def)
    from claim_job_Inr [OF this] IH show ?thesis by (auto simp: may_execute_iff)
  qed
qed simp

subsection \<open>Properties\<close>

text \<open>(\<open>claim_job\<close>, \<open>check_execution_identity\<close>) A job's lease belongs to one attempt: if a job
  is claimed at epoch \<open>e1\<close> and later claimed again, the second claim has a strictly greater epoch, so
  the first attempt's owner and epoch fail the identity check from then on, whatever the owners'
  names and lease times.\<close>

theorem job_lease_single_attempt:
  assumes "claim_job j o1 e1 l1 s1 = Inr j1" and "job_events j1 es = Inr j2"
    and "claim_job j2 o2 e2 l2 s2 = Inr j3"
  shows "e1 < e2 \<and> (check_execution_identity j3 o2 e2 n = Inr () \<longleftrightarrow> n < l2) \<and>
    check_execution_identity j3 o1 e1 n \<noteq> Inr ()"
proof -
  note c1 = claim_job_Inr [OF assms(1)] and c3 = claim_job_Inr [OF assms(3)]
  have "job_state j2 = J_pending" using c3 by (simp add: may_execute_iff)
  with job_events_epoch [OF assms(2)] c1 c3 have lt: "e1 < e2" by auto
  have "job_lease_expires_at j3 = Some l2"
    using assms(3) by (auto simp: claim_job_def bind_result_Inr_iff split: if_splits)
  with c3 lt show ?thesis by (auto simp: check_execution_identity_def)
qed

definition example_schedule :: Schedule where
  "example_schedule = \<lparr>sch_schedule_id = ''s'', sch_subject = \<lparr>sr_kind = SK_incident, sr_id = ''i''\<rparr>,
     sch_kind = ''sample'', sch_generation = 0, sch_due_at = 10, sch_cancelled = False\<rparr>"

definition example_job :: Job where
  "example_job = \<lparr>job_job_id = ''j'', job_schedule_id = ''s'',
     job_subject = \<lparr>sr_kind = SK_incident, sr_id = ''i''\<rparr>, job_schedule_generation = 0, job_due_at = 10,
     job_execution_key = ''k'', job_state = J_pending, job_epoch = 0, job_attempts = 0,
     job_owner = None, job_lease_expires_at = None\<rparr>"

definition example_job1 :: Job where
  "example_job1 = example_job\<lparr>job_state := J_leased, job_attempts := 1, job_owner := Some ''a'',
     job_lease_expires_at := Some 20\<rparr>"

definition example_job2 :: Job where
  "example_job2 = example_job1\<lparr>job_state := J_pending, job_owner := None, job_lease_expires_at := None,
     job_epoch := 1\<rparr>"

definition example_job3 :: Job where
  "example_job3 = example_job2\<lparr>job_state := J_leased, job_attempts := 2, job_owner := Some ''b'',
     job_lease_expires_at := Some 60\<rparr>"

lemmas example_job_defs = example_schedule_def example_job_def example_job1_def example_job2_def
  example_job3_def

theorem job_lease_single_attempt_witness:
  "claim_job example_job2 ''b'' 1 60 example_schedule = Inr example_job3 \<and>
   check_execution_identity example_job3 ''b'' 1 30 = Inr () \<and>
   check_execution_identity example_job3 ''a'' 0 30 \<noteq> Inr ()"
proof -
  have 1: "claim_job example_job ''a'' 0 20 example_schedule = Inr example_job1"
    by (simp add: claim_job_def may_execute_def advance_job_def JOB_def machine_eval example_job_defs)
  have 2: "job_events example_job1 [JTrigger ''lease_expired''] = Inr example_job2"
    by (simp add: job_event_apply_def advance_job_def JOB_def machine_eval example_job_defs)
  have 3: "claim_job example_job2 ''b'' 1 60 example_schedule = Inr example_job3"
    by (simp add: claim_job_def may_execute_def advance_job_def JOB_def machine_eval example_job_defs)
  from job_lease_single_attempt [OF 1 2 3, of 30] 3 show ?thesis by simp
qed

text \<open>Superseding a schedule invalidates the jobs of its
  old generation for good: a job the schedule could execute cannot be claimed under the schedule
  after any positive number of supersessions, by any owner at any epoch.\<close>

theorem superseded_jobs_never_execute:
  assumes "may_execute j sch = Inr True"
  shows "may_execute j (fold (\<lambda>d s. supersede_schedule s d) (due # dues) sch) = Inr False \<and>
    (owner \<noteq> [] \<longrightarrow>
      claim_job j owner e until (fold (\<lambda>d s. supersede_schedule s d) (due # dues) sch)
        = Inl ILLEGAL_TRANSITION)"
proof -
  let ?f = "\<lambda>d s. supersede_schedule s d"
  have f: "sch_generation (fold ?f ds s) = sch_generation s + int (length ds) \<and>
      sch_schedule_id (fold ?f ds s) = sch_schedule_id s \<and>
      sch_cancelled (fold ?f ds s) = sch_cancelled s" for ds s
    by (induction ds arbitrary: s) (auto simp: supersede_schedule_def Let_def split: option.splits)
  from assms have "job_state j = J_pending" "job_schedule_id j = sch_schedule_id sch"
    "job_schedule_generation j = sch_generation sch" by (auto simp: may_execute_iff)
  with f [of "due # dues" sch]
  have "may_execute j (fold ?f (due # dues) sch) = Inr False"
    unfolding may_execute_def by (simp add: JOB_def machine_eval del: fold_simps)
  then show ?thesis by (simp add: claim_job_def del: fold_simps)
qed

theorem superseded_jobs_never_execute_witness:
  "may_execute example_job (supersede_schedule (supersede_schedule example_schedule None) (Some 99)) = Inr False"
proof -
  have "may_execute example_job example_schedule = Inr True"
    by (simp add: may_execute_iff example_job_defs)
  from superseded_jobs_never_execute [OF this, of None "[Some 99]"] show ?thesis by simp
qed

end
