(* ===== verification/Domain_Intake.thy ===== *)
theory Domain_Intake
  imports Domain_Scheduling
begin

section \<open>Integrations, input events and delivery keys (\<open>domain/intake.py\<close>)\<close>

text \<open>
  A delivery is deduplicated by a key: a stable external event id when the source has one, else the
  composite of source instance, object identity, state time and payload hash, all required. The hash
  of the canonical document and the ISO rendering of a datetime are arguments.
\<close>

record Integration =
  int_integration_id :: string
  int_kind :: string
  int_revision :: string
  int_endpoint_ref :: string

record InputEvent =
  ie_event_id :: string
  ie_source :: string
  ie_delivery_key :: string
  ie_received_at :: time
  ie_sequence :: int
  ie_external_event_id :: "string option"
  ie_source_instance :: "string option"
  ie_object_identity :: "string option"
  ie_state_time :: "time option"
  ie_payload_hash :: "string option"
  ie_target :: "Target option"
  ie_fingerprint :: "string option"

definition external_basis :: "string \<Rightarrow> string \<Rightarrow> json" where
  "external_basis source eid = JObj (fmap_of_list
     [(''basis'', JStr ''external_event_id''), (''source'', JStr source), (''id'', JStr eid)])"

definition composite_basis :: "string \<Rightarrow> string \<Rightarrow> string \<Rightarrow> string \<Rightarrow> string \<Rightarrow> json" where
  "composite_basis source state_time source_instance object_identity payload_hash = JObj (fmap_of_list
     [(''basis'', JStr ''composite''), (''source'', JStr source), (''state_time'', JStr state_time),
      (''source_instance'', JStr source_instance), (''object_identity'', JStr object_identity),
      (''payload_hash'', JStr payload_hash)])"

definition present :: "string option \<Rightarrow> bool" where
  "present v \<longleftrightarrow> (case v of None \<Rightarrow> False | Some s \<Rightarrow> s \<noteq> [])"

definition delivery_key ::
  "(json \<Rightarrow> string) \<Rightarrow> (datetime \<Rightarrow> string) \<Rightarrow> string \<Rightarrow> string option \<Rightarrow> string option \<Rightarrow> string option
     \<Rightarrow> datetime option \<Rightarrow> string option \<Rightarrow> string domain_result" where
  "delivery_key digest isoformat source external_event_id source_instance object_identity state_time
       payload_hash =
     (if source = [] then Inl INVALID_INPUT
      else case external_event_id of
        Some eid \<Rightarrow> if eid = [] then Inl INVALID_INPUT
                    else Inr (''evt:'' @ digest (external_basis source eid))
      | None \<Rightarrow>
          if \<not> present source_instance \<or> \<not> present object_identity \<or> \<not> present payload_hash
            then Inl INVALID_INPUT
          else case state_time of
            None \<Rightarrow> Inl INVALID_INPUT
          | Some dt \<Rightarrow>
              if dt_utcoffset dt = None then Inl INVALID_INPUT
              else Inr (''evt:'' @ digest (composite_basis source (isoformat dt) (the source_instance)
                     (the object_identity) (the payload_hash))))"

definition is_duplicate_delivery :: "InputEvent \<Rightarrow> string set \<Rightarrow> bool" where
  "is_duplicate_delivery event seen \<longleftrightarrow> ie_delivery_key event \<in> seen"

subsection \<open>The documents identify the delivery\<close>

lemma external_basis_inject [simp]:
  "external_basis s i = external_basis s' i' \<longleftrightarrow> s = s' \<and> i = i'"
proof
  assume "external_basis s i = external_basis s' i'"
  then have "fmlookup (fmap_of_list [(''basis'', JStr ''external_event_id''), (''source'', JStr s), (''id'', JStr i)]) k
     = fmlookup (fmap_of_list [(''basis'', JStr ''external_event_id''), (''source'', JStr s'), (''id'', JStr i')]) k"
    for k by (simp add: external_basis_def)
  from this [of "''source''"] this [of "''id''"] show "s = s' \<and> i = i'" by (simp add: fmlookup_of_list)
qed simp

lemma composite_basis_inject [simp]:
  "composite_basis s t i ob p = composite_basis s' t' i' ob' p' \<longleftrightarrow>
     s = s' \<and> t = t' \<and> i = i' \<and> ob = ob' \<and> p = p'"
proof
  assume "composite_basis s t i ob p = composite_basis s' t' i' ob' p'"
  then have "fmlookup (fmap_of_list
      [(''basis'', JStr ''composite''), (''source'', JStr s), (''state_time'', JStr t),
      (''source_instance'', JStr i), (''object_identity'', JStr ob), (''payload_hash'', JStr p)]) k =
    fmlookup (fmap_of_list
      [(''basis'', JStr ''composite''), (''source'', JStr s'), (''state_time'', JStr t'),
      (''source_instance'', JStr i'), (''object_identity'', JStr ob'), (''payload_hash'', JStr p')]) k" for k
    by (simp add: composite_basis_def)
  from this [of "''source''"] this [of "''state_time''"] this [of "''source_instance''"]
    this [of "''object_identity''"] this [of "''payload_hash''"]
  show "s = s' \<and> t = t' \<and> i = i' \<and> ob = ob' \<and> p = p'" by (simp add: fmlookup_of_list)
qed simp

lemma basis_distinct [simp]: "external_basis s i \<noteq> composite_basis s' t' i' ob' p'"
proof
  assume "external_basis s i = composite_basis s' t' i' ob' p'"
  then have "fmlookup (fmap_of_list [(''basis'', JStr ''external_event_id''), (''source'', JStr s), (''id'', JStr i)]) ''id''
    = fmlookup (fmap_of_list
      [(''basis'', JStr ''composite''), (''source'', JStr s'), (''state_time'', JStr t'),
      (''source_instance'', JStr i'), (''object_identity'', JStr ob'), (''payload_hash'', JStr p')]) ''id''"
    by (simp add: external_basis_def composite_basis_def)
  then show False by (simp add: fmlookup_of_list)
qed

lemmas basis_distinct' [simp] = basis_distinct [symmetric]

text \<open>The document a delivery is keyed by, when it has a key.\<close>

definition delivery_basis ::
  "(datetime \<Rightarrow> string) \<Rightarrow> string \<Rightarrow> string option \<Rightarrow> string option \<Rightarrow> string option
     \<Rightarrow> datetime option \<Rightarrow> string option \<Rightarrow> json" where
  "delivery_basis isoformat source eid si oi st ph = (case eid of
      Some i \<Rightarrow> external_basis source i
    | None \<Rightarrow> composite_basis source (isoformat (the st)) (the si) (the oi) (the ph))"

lemma delivery_key_Inr:
  "delivery_key digest isof source eid si oi st ph = Inr k \<Longrightarrow>
     k = ''evt:'' @ digest (delivery_basis isof source eid si oi st ph)"
  by (auto simp: delivery_key_def delivery_basis_def split: if_splits option.splits)

subsection \<open>Properties\<close>

text \<open>(\<open>delivery_key\<close>) A delivery without an external event id is keyed only when source instance,
  object identity, payload hash and an aware state time are all present, so an object name alone is
  always refused; and two deliveries share a key only when they agree on the external id of the
  same source, or on every composite part (source, instance, object, rendered state time and
  payload hash), or the hash collides: a later incident on the same object is never swallowed.\<close>

theorem delivery_keys_identify_deliveries:
  "(is_ok (delivery_key digest isof source None si oi st ph) \<longleftrightarrow>
     source \<noteq> [] \<and> present si \<and> present oi \<and> present ph \<and> (\<exists>dt. st = Some dt \<and> dt_utcoffset dt \<noteq> None)) \<and>
   (delivery_key digest isof source eid si oi st ph = Inr k \<and>
    delivery_key digest isof source' eid' si' oi' st' ph' = Inr k \<longrightarrow>
      (source = source' \<and> eid = eid' \<and>
        (eid = None \<longrightarrow> si = si' \<and> oi = oi' \<and> ph = ph' \<and> isof (the st) = isof (the st'))) \<or>
      (\<exists>x y. x \<noteq> y \<and> digest x = digest y))"
proof (intro conjI impI)
  show "is_ok (delivery_key digest isof source None si oi st ph) \<longleftrightarrow>
     source \<noteq> [] \<and> present si \<and> present oi \<and> present ph \<and> (\<exists>dt. st = Some dt \<and> dt_utcoffset dt \<noteq> None)"
    by (auto simp: delivery_key_def split: option.splits)
next
  assume k: "delivery_key digest isof source eid si oi st ph = Inr k \<and>
    delivery_key digest isof source' eid' si' oi' st' ph' = Inr k"
  let ?b = "delivery_basis isof source eid si oi st ph"
  let ?b' = "delivery_basis isof source' eid' si' oi' st' ph'"
  have d: "digest ?b = digest ?b'"
    using k delivery_key_Inr by (metis append_same_eq same_append_eq)
  show "(source = source' \<and> eid = eid' \<and>
        (eid = None \<longrightarrow> si = si' \<and> oi = oi' \<and> ph = ph' \<and> isof (the st) = isof (the st'))) \<or>
      (\<exists>x y. x \<noteq> y \<and> digest x = digest y)"
  proof (cases "?b = ?b'")
    case True
    with k show ?thesis
      by (auto simp: delivery_basis_def delivery_key_def present_def split: option.splits if_splits)
  qed (use d in blast)
qed

theorem delivery_keys_identify_deliveries_witness:
  "is_ok (delivery_key (\<lambda>j. ''h'') (\<lambda>d. ''2026'') ''am'' None (Some ''i'') (Some ''o'')
     (Some \<lparr>dt_local = 0, dt_utcoffset = Some 0\<rparr>) (Some ''p''))"
  using delivery_keys_identify_deliveries [THEN conjunct1, of "\<lambda>j. ''h''" "\<lambda>d. ''2026''" "''am''" "Some ''i''"
      "Some ''o''" "Some \<lparr>dt_local = 0, dt_utcoffset = Some 0\<rparr>" "Some ''p''"]
  by (simp add: present_def)

end
