(* ===== verification/Domain_Runs.thy ===== *)
theory Domain_Runs
  imports Domain_Subjects
begin

section \<open>Runs and model steps (\<open>domain/runs.py\<close>)\<close>

text \<open>
  Execution status and investigation result are separate values. A Run is claimed for one attempt at
  a time, each attempt under a strictly greater epoch; a conclusion becomes current only when its
  Run is the subject's current one at the current control generation; on recovery only the tool
  operations without a committed result run again.

  The SHA-256 of a canonical JSON document is an argument \<open>digest\<close> of the functions that hash, so
  their properties hold for every hash function and name its collisions explicitly.
\<close>

datatype RunExecution =
    R_queued | R_running | R_waiting_human | R_paused | R_blocked
  | R_completed | R_failed | R_cancelled | R_budget_exhausted

datatype InvestigationResult = IR_supported | IR_inconclusive | IR_partial

datatype BlockedReason = INCOMPATIBLE_STATE | RETRIES_EXHAUSTED | HANDOFF_REQUIRED

definition RUN_EXECUTION :: "RunExecution StateMachine" where
  "RUN_EXECUTION = \<lparr>sm_name = ''run'', sm_edges =
     [(R_queued, [(''claimed'', R_running), (''human_pause'', R_paused), (''human_cancel'', R_cancelled)]),
      (R_running, [(''finished'', R_completed), (''awaiting_human_input'', R_waiting_human),
         (''human_pause'', R_paused), (''human_cancel'', R_cancelled), (''execution_failed'', R_failed),
         (''retries_exhausted'', R_blocked), (''incompatible_state'', R_blocked),
         (''budget_exhausted'', R_budget_exhausted), (''lease_expired'', R_queued)]),
      (R_waiting_human, [(''human_reply'', R_queued), (''human_pause'', R_paused),
         (''human_cancel'', R_cancelled), (''deadline_expired'', R_failed)]),
      (R_paused, [(''human_resume'', R_queued), (''human_cancel'', R_cancelled)]),
      (R_blocked, [(''human_cancel'', R_cancelled), (''handoff_failed'', R_failed)]),
      (R_completed, []), (R_failed, []), (R_cancelled, []), (R_budget_exhausted, [])]\<rparr>"

interpretation run_machine: lifecycle RUN_EXECUTION
proof (unfold_locales, goal_cases)
  case 1 show ?case by (simp add: RUN_EXECUTION_def StateMachine_init_def)
next
  case (2 s) show ?case by (cases s) (simp_all add: RUN_EXECUTION_def states_def)
qed

definition ACTIVE_RUN_EXECUTIONS :: "RunExecution set" where
  "ACTIVE_RUN_EXECUTIONS = {R_queued, R_running, R_waiting_human}"

record ModelProfile =
  mp_provider :: string
  mp_model :: string
  mp_endpoint_mode :: string
  mp_prompt_revision :: string
  mp_adapter_revision :: string
  mp_tool_schema_revision :: string

record BudgetLedger =
  bl_deadline :: time
  bl_model_requests :: int
  bl_tool_operations :: int
  bl_known_cost_micros :: int
  bl_unknown_reserved_micros :: int

record Run =
  run_run_id :: string
  run_subject :: SubjectRef
  run_model_profile :: ModelProfile
  run_budget :: BudgetLedger
  run_execution :: RunExecution
  run_epoch :: int
  run_input_watermark :: int
  run_owner :: "string option"
  run_lease_expires_at :: "time option"
  run_blocked_reason :: "BlockedReason option"

record Conclusion =
  con_run_id :: string
  con_subject :: SubjectRef
  con_result :: InvestigationResult
  con_recorded_at :: time
  con_control_generation :: int

datatype ConclusionReason = CR_accepted | CR_subject_mismatch | CR_not_current_run | CR_control_generation_stale

datatype conclusion_disposition = CD_current | CD_history_only

record ConclusionAcceptance =
  ca_accepted :: bool
  ca_disposition :: conclusion_disposition
  ca_reason :: ConclusionReason

definition advance_run :: "Run \<Rightarrow> string \<Rightarrow> BlockedReason option \<Rightarrow> Run domain_result" where
  "advance_run run trigger reason =
     bind_result (fire RUN_EXECUTION (run_execution run) trigger) (\<lambda>execution.
       let run1 = run\<lparr>run_execution := execution\<rparr>;
           run2 = (if execution = R_blocked
                   then run1\<lparr>run_blocked_reason := Some (case reason of Some r \<Rightarrow> r
                          | None \<Rightarrow> if trigger = ''incompatible_state'' then INCOMPATIBLE_STATE
                                  else RETRIES_EXHAUSTED)\<rparr>
                   else run1);
           run3 = (if trigger \<in> {''lease_expired'', ''human_pause'', ''human_resume'', ''human_reply''}
                   then run2\<lparr>run_owner := None, run_lease_expires_at := None\<rparr> else run2)
       in Inr run3)"

definition claim_run :: "Run \<Rightarrow> string \<Rightarrow> int \<Rightarrow> time \<Rightarrow> Run domain_result" where
  "claim_run run owner epoch lease_expires_at =
     (if owner = [] then Inl INVALID_INPUT
      else if epoch \<noteq> run_epoch run + 1 then Inl INVALID_INPUT
      else bind_result (advance_run run ''claimed'' None) (\<lambda>claimed.
        Inr (claimed\<lparr>run_owner := Some owner, run_epoch := epoch,
                     run_lease_expires_at := Some lease_expires_at\<rparr>)))"

definition advance_watermark :: "Run \<Rightarrow> int \<Rightarrow> Run domain_result" where
  "advance_watermark run to =
     (if to < 0 then Inl INVALID_INPUT
      else if run_execution run \<noteq> R_running then Inl ILLEGAL_TRANSITION
      else if to < run_input_watermark run then Inl STALE_RESULT
      else Inr (run\<lparr>run_input_watermark := to\<rparr>))"

definition conclusion_history_only :: "ConclusionReason \<Rightarrow> ConclusionAcceptance" where
  "conclusion_history_only reason =
     \<lparr>ca_accepted = False, ca_disposition = CD_history_only, ca_reason = reason\<rparr>"

definition evaluate_conclusion ::
  "Conclusion \<Rightarrow> SubjectRef \<Rightarrow> string option \<Rightarrow> int \<Rightarrow> ConclusionAcceptance domain_result" where
  "evaluate_conclusion conclusion subject current_run_id control_generation =
     (if control_generation < 0 then Inl INVALID_INPUT
      else if con_subject conclusion \<noteq> subject then Inr (conclusion_history_only CR_subject_mismatch)
      else if current_run_id = None \<or> Some (con_run_id conclusion) \<noteq> current_run_id
        then Inr (conclusion_history_only CR_not_current_run)
      else if con_control_generation conclusion \<noteq> control_generation
        then Inr (conclusion_history_only CR_control_generation_stale)
      else Inr \<lparr>ca_accepted = True, ca_disposition = CD_current, ca_reason = CR_accepted\<rparr>)"

record ToolPlanEntry =
  tp_tool_index :: int
  tp_tool_name :: string
  tp_tool_version :: string
  tp_arguments_hash :: string

record ModelStep =
  ms_step_id :: string
  ms_run_id :: string
  ms_context_segment :: string
  ms_logical_round :: int
  ms_input_snapshot_hash :: string
  ms_response_committed :: bool
  ms_response_hash :: "string option"
  ms_tool_plan :: "ToolPlanEntry list"

definition step_canonical :: "string \<Rightarrow> string \<Rightarrow> int \<Rightarrow> json" where
  "step_canonical run_id context_segment logical_round = JObj (fmap_of_list
     [(''run_id'', JStr run_id), (''context_segment'', JStr context_segment), (''round'', JInt logical_round)])"

definition step_id :: "(json \<Rightarrow> string) \<Rightarrow> string \<Rightarrow> string \<Rightarrow> int \<Rightarrow> string domain_result" where
  "step_id digest run_id context_segment logical_round =
     (if run_id = [] \<or> context_segment = [] \<or> logical_round < 0 then Inl INVALID_INPUT
      else Inr (''step:'' @ digest (step_canonical run_id context_segment logical_round)))"

definition tool_operation_id :: "string \<Rightarrow> int \<Rightarrow> string domain_result" where
  "tool_operation_id step tool_index =
     (if step = [] then Inl INVALID_INPUT
      else if tool_index < 0 then Inl INVALID_INPUT
      else Inr (step @ ''#'' @ string_of_int tool_index))"

definition may_execute_tools :: "ModelStep \<Rightarrow> bool" where
  "may_execute_tools step = ms_response_committed step"

definition pending_tool_indices :: "ModelStep \<Rightarrow> int set \<Rightarrow> int list domain_result" where
  "pending_tool_indices step completed =
     (if \<not> ms_response_committed step then Inl ILLEGAL_TRANSITION
      else Inr (map tp_tool_index (filter (\<lambda>entry. tp_tool_index entry \<notin> completed) (ms_tool_plan step))))"

subsection \<open>Sequences of execution triggers\<close>

text \<open>What happens to a Run between attempts: a trigger is fired or the Run is claimed.\<close>

datatype run_event = Trigger string "BlockedReason option" | Claim string int time | Watermark int

definition run_event_apply :: "Run \<Rightarrow> run_event \<Rightarrow> Run domain_result" where
  "run_event_apply run e = (case e of
      Trigger t r \<Rightarrow> advance_run run t r
    | Claim owner epoch until \<Rightarrow> claim_run run owner epoch until
    | Watermark to \<Rightarrow> advance_watermark run to)"

fun run_events :: "Run \<Rightarrow> run_event list \<Rightarrow> Run domain_result" where
  "run_events run [] = Inr run"
| "run_events run (e # es) = bind_result (run_event_apply run e) (\<lambda>r. run_events r es)"

lemma advance_run_frame:
  "advance_run run t r = Inr run' \<Longrightarrow> run_epoch run' = run_epoch run \<and>
     run_input_watermark run' = run_input_watermark run \<and> run_run_id run' = run_run_id run \<and>
     fire RUN_EXECUTION (run_execution run) t = Inr (run_execution run')"
  by (auto simp: advance_run_def Let_def bind_result_Inr_iff)

lemma run_event_mono:
  "run_event_apply run e = Inr run' \<Longrightarrow>
     run_epoch run \<le> run_epoch run' \<and> run_input_watermark run \<le> run_input_watermark run'"
  by (cases e)
    (auto simp: run_event_apply_def claim_run_def advance_watermark_def bind_result_Inr_iff
      split: if_splits dest!: advance_run_frame)

lemma run_events_mono:
  "run_events run es = Inr run' \<Longrightarrow>
     run_epoch run \<le> run_epoch run' \<and> run_input_watermark run \<le> run_input_watermark run'"
proof (induction es arbitrary: run)
  case (Cons e es)
  then obtain r where "run_event_apply run e = Inr r" and "run_events r es = Inr run'"
    by (auto simp: bind_result_Inr_iff)
  with Cons.IH [of r] run_event_mono [of run e r] show ?case by auto
qed simp

lemma claim_run_Inr:
  "claim_run run owner e until = Inr run' \<Longrightarrow>
     run_execution run = R_queued \<and> run_execution run' = R_running \<and> e = run_epoch run + 1 \<and>
     run_epoch run' = e \<and> run_owner run' = Some owner"
  by (cases "run_execution run")
    (auto simp: claim_run_def advance_run_def RUN_EXECUTION_def machine_eval Let_def split: if_splits)

subsection \<open>Properties\<close>

text \<open>(\<open>claim_run\<close>, \<open>advance_run\<close>, \<open>advance_watermark\<close>) Every execution attempt has its own
  epoch: if a Run is claimed twice, with any triggers, claims and watermark moves in between, the
  second claim carries a strictly greater epoch than the first, and a claim is only ever made on a
  queued Run. Along any history the epoch and the input watermark never decrease.\<close>

theorem attempts_have_increasing_epochs:
  assumes "claim_run run o1 e1 l1 = Inr run1" and "run_events run1 es = Inr run2"
    and "claim_run run2 o2 e2 l2 = Inr run3"
  shows "e1 < e2 \<and> run_epoch run3 = e2 \<and> run_execution run2 = R_queued \<and>
    run_input_watermark run \<le> run_input_watermark run3"
proof -
  have "run_input_watermark run \<le> run_input_watermark run1"
    using run_event_mono [of run "Claim o1 e1 l1" run1] assms(1) by (simp add: run_event_apply_def)
  moreover have "run_input_watermark run2 \<le> run_input_watermark run3"
    using run_event_mono [of run2 "Claim o2 e2 l2" run3] assms(3) by (simp add: run_event_apply_def)
  ultimately show ?thesis
    using claim_run_Inr [OF assms(1)] run_events_mono [OF assms(2)] claim_run_Inr [OF assms(3)] by auto
qed

definition example_run :: Run where
  "example_run = \<lparr>run_run_id = ''run-1'', run_subject = \<lparr>sr_kind = SK_incident, sr_id = ''inc-1''\<rparr>,
     run_model_profile = \<lparr>mp_provider = ''p'', mp_model = ''m'', mp_endpoint_mode = ''e'',
       mp_prompt_revision = ''1'', mp_adapter_revision = ''1'', mp_tool_schema_revision = ''1''\<rparr>,
     run_budget = \<lparr>bl_deadline = 100, bl_model_requests = 0, bl_tool_operations = 0,
       bl_known_cost_micros = 0, bl_unknown_reserved_micros = 0\<rparr>,
     run_execution = R_queued, run_epoch = 0, run_input_watermark = 0, run_owner = None,
     run_lease_expires_at = None, run_blocked_reason = None\<rparr>"

definition example_run1 :: Run where
  "example_run1 = example_run\<lparr>run_execution := R_running, run_owner := Some ''a'', run_epoch := 1,
     run_lease_expires_at := Some 10\<rparr>"

definition example_run2 :: Run where
  "example_run2 = example_run1\<lparr>run_execution := R_queued, run_owner := None, run_lease_expires_at := None\<rparr>"

definition example_run3 :: Run where
  "example_run3 = example_run2\<lparr>run_execution := R_running, run_owner := Some ''b'', run_epoch := 2,
     run_lease_expires_at := Some 50\<rparr>"

lemmas example_run_defs = example_run_def example_run1_def example_run2_def example_run3_def

theorem attempts_have_increasing_epochs_witness:
  "claim_run example_run2 ''b'' 2 50 = Inr example_run3 \<and> run_epoch example_run3 = 2 \<and> (1::int) < 2"
proof -
  have 1: "claim_run example_run ''a'' 1 10 = Inr example_run1"
    by (simp add: claim_run_def advance_run_def example_run_defs RUN_EXECUTION_def machine_eval)
  have 2: "run_events example_run1 [Trigger ''lease_expired'' None] = Inr example_run2"
    by (simp add: run_event_apply_def advance_run_def example_run_defs RUN_EXECUTION_def machine_eval)
  have 3: "claim_run example_run2 ''b'' 2 50 = Inr example_run3"
    by (simp add: claim_run_def advance_run_def example_run_defs RUN_EXECUTION_def machine_eval)
  from attempts_have_increasing_epochs [OF 1 2 3] 3 show ?thesis by simp
qed

text \<open>A conclusion becomes the subject's current one exactly when it is
  bound to that subject, comes from the subject's current Run and carries the current control
  generation; otherwise it is kept as history with the first failing reason, never dropped and
  never an error for a valid generation.\<close>

theorem conclusion_ownership:
  assumes "0 \<le> g"
  shows "\<exists>a. evaluate_conclusion c subj cur g = Inr a \<and>
    (ca_accepted a \<longleftrightarrow> con_subject c = subj \<and> cur = Some (con_run_id c) \<and> con_control_generation c = g) \<and>
    (ca_accepted a \<longleftrightarrow> ca_disposition a = CD_current) \<and> (ca_accepted a \<longleftrightarrow> ca_reason a = CR_accepted) \<and>
    (ca_reason a = CR_control_generation_stale \<longrightarrow> con_subject c = subj \<and> cur = Some (con_run_id c))"
  using assms by (auto simp: evaluate_conclusion_def conclusion_history_only_def)

theorem conclusion_ownership_witness:
  "\<exists>a. evaluate_conclusion \<lparr>con_run_id = ''run-1'', con_subject = \<lparr>sr_kind = SK_incident, sr_id = ''i''\<rparr>,
      con_result = IR_supported, con_recorded_at = 0, con_control_generation = 3\<rparr>
      \<lparr>sr_kind = SK_incident, sr_id = ''i''\<rparr> (Some ''run-1'') 3 = Inr a \<and> ca_accepted a"
proof -
  let ?s = "\<lparr>sr_kind = SK_incident, sr_id = ''i''\<rparr>"
  let ?c = "\<lparr>con_run_id = ''run-1'', con_subject = ?s,
      con_result = IR_supported, con_recorded_at = 0, con_control_generation = 3\<rparr>"
  have h: "0 \<le> (3::int)" by simp
  from conclusion_ownership [OF h, of ?c ?s "Some ''run-1''"] show ?thesis by auto
qed

text \<open>(\<open>step_id\<close>, \<open>tool_operation_id\<close>) The operation id a recovery stamps on a tool call is the
  one the original dispatch used, and no other call's: two operation ids built from step ids are
  equal only for the same run, context segment, round and tool index, or if the hash function
  collides on the two canonical documents.\<close>

lemma step_canonical_inject [simp]:
  "step_canonical r c n = step_canonical r' c' n' \<longleftrightarrow> r = r' \<and> c = c' \<and> n = n'"
proof
  assume eq: "step_canonical r c n = step_canonical r' c' n'"
  have "fmlookup (fmap_of_list [(''run_id'', JStr r), (''context_segment'', JStr c), (''round'', JInt n)]) k
      = fmlookup (fmap_of_list [(''run_id'', JStr r'), (''context_segment'', JStr c'), (''round'', JInt n')]) k"
    for k using eq by (simp add: step_canonical_def)
  from this [of "''run_id''"] this [of "''context_segment''"] this [of "''round''"]
  show "r = r' \<and> c = c' \<and> n = n'" by (simp add: fmlookup_of_list)
qed simp

theorem operation_ids_identify_calls:
  assumes "step_id digest r c n = Inr s" and "step_id digest r' c' n' = Inr s'"
    and "tool_operation_id s k = Inr op" and "tool_operation_id s' k' = Inr op"
  shows "(r = r' \<and> c = c' \<and> n = n' \<and> k = k') \<or>
    (step_canonical r c n \<noteq> step_canonical r' c' n' \<and>
     digest (step_canonical r c n) = digest (step_canonical r' c' n') \<and> k = k')"
proof -
  have "s @ CHR ''#'' # string_of_int k = s' @ CHR ''#'' # string_of_int k'"
    using assms(3,4) by (auto simp: tool_operation_id_def split: if_splits)
  then have "s = s'" and "k = k'"
    using append_sep_inject hash_not_in_string_of_int by (metis string_of_int_inject)+
  then show ?thesis using assms(1,2) by (auto simp: step_id_def split: if_splits)
qed

theorem operation_ids_identify_calls_witness:
  "tool_operation_id ''step:run-1'' 4 = Inr ''step:run-1#4''"
proof -
  let ?d = "\<lambda>j. case j of JObj m \<Rightarrow> (case fmlookup m ''run_id'' of Some (JStr s) \<Rightarrow> s | _ \<Rightarrow> []) | _ \<Rightarrow> []"
  have s: "step_id ?d ''run-1'' ''main'' 0 = Inr ''step:run-1''"
    by (simp add: step_id_def step_canonical_def fmlookup_of_list)
  have o: "tool_operation_id ''step:run-1'' 4 = Inr ''step:run-1#4''"
    by code_simp
  from operation_ids_identify_calls [OF s s o o] o show ?thesis by blast
qed

text \<open>\<open>pending_tool_indices\<close>: On recovery exactly the planned operations without a completed
  result are pending, in plan order; when the completed ones are all of the plan nothing runs again,
  and before the response is committed no tool is pending at all.\<close>

theorem recovery_reruns_only_missing:
  "pending_tool_indices step completed = (if may_execute_tools step
     then Inr (filter (\<lambda>i. i \<notin> completed) (map tp_tool_index (ms_tool_plan step)))
     else Inl ILLEGAL_TRANSITION) \<and>
   (may_execute_tools step \<and> tp_tool_index ` set (ms_tool_plan step) \<subseteq> completed \<longleftrightarrow>
     pending_tool_indices step completed = Inr [])"
  by (auto simp: pending_tool_indices_def may_execute_tools_def filter_map o_def filter_empty_conv)

end
