(* ===== verification/Domain_Evidence.thy ===== *)
theory Domain_Evidence
  imports Domain_Control
begin

section \<open>Tool operations and evidence (\<open>domain/evidence.py\<close>)\<close>

text \<open>
  Every tool operation ends in success, failure, cancellation or an explicit unknown state, and
  evidence carries its own adoption state: only adopted evidence may enter a model input, and
  withdrawing an authorization revokes the adopted restricted evidence while keeping its history.
\<close>

datatype ToolOperationState =
  TO_planned | TO_dispatched | TO_succeeded | TO_failed | TO_cancelled | TO_unknown

datatype EvidenceAdoption = EA_recorded | EA_adopted | EA_history_only | EA_revoked

definition TOOL_OPERATION :: "ToolOperationState StateMachine" where
  "TOOL_OPERATION = \<lparr>sm_name = ''tool_operation'', sm_edges =
     [(TO_planned, [(''dispatched'', TO_dispatched), (''cancelled'', TO_cancelled)]),
      (TO_dispatched, [(''result_committed'', TO_succeeded), (''error_committed'', TO_failed),
         (''cancelled'', TO_cancelled), (''state_unknown'', TO_unknown)]),
      (TO_succeeded, []), (TO_failed, []), (TO_cancelled, []), (TO_unknown, [])]\<rparr>"

interpretation tool_operation: lifecycle TOOL_OPERATION
proof (unfold_locales, goal_cases)
  case 1 show ?case by (simp add: TOOL_OPERATION_def StateMachine_init_def)
next
  case (2 s) show ?case by (cases s) (simp_all add: TOOL_OPERATION_def states_def)
qed

definition EVIDENCE_ADOPTION :: "EvidenceAdoption StateMachine" where
  "EVIDENCE_ADOPTION = \<lparr>sm_name = ''evidence'', sm_edges =
     [(EA_recorded, [(''adopt'', EA_adopted), (''reject'', EA_history_only)]),
      (EA_adopted, [(''revoke'', EA_revoked)]), (EA_history_only, []), (EA_revoked, [])]\<rparr>"

interpretation evidence: lifecycle EVIDENCE_ADOPTION
proof (unfold_locales, goal_cases)
  case 1 show ?case by (simp add: EVIDENCE_ADOPTION_def StateMachine_init_def)
next
  case (2 s) show ?case by (cases s) (simp_all add: EVIDENCE_ADOPTION_def states_def)
qed

record QueryWindow =
  qw_start :: time
  qw_end :: time

text \<open>The \<open>ordered\<close> validator of \<open>QueryWindow\<close>: construction is refused when the window is empty.\<close>

definition QueryWindow_make :: "time \<Rightarrow> time \<Rightarrow> QueryWindow option" where
  "QueryWindow_make s e = (if e \<le> s then None else Some \<lparr>qw_start = s, qw_end = e\<rparr>)"

record QueryScope =
  qs_tool_name :: string
  qs_tool_version :: string
  qs_integration_id :: string
  qs_target :: Target
  qs_window :: QueryWindow
  qs_result_bytes_limit :: int
  qs_deadline_seconds :: int

record ToolOperation =
  op_operation_id :: string
  op_run_id :: string
  op_step_id :: string
  op_tool_index :: int
  op_scope :: QueryScope
  op_state :: ToolOperationState
  op_dispatched_at :: "time option"
  op_completed_at :: "time option"
  op_error_class :: "string option"
  op_truncated :: bool

record Evidence =
  ev_evidence_id :: string
  ev_operation_id :: string
  ev_run_id :: string
  ev_source :: string
  ev_target :: Target
  ev_window :: QueryWindow
  ev_observed_at :: time
  ev_freshness_seconds :: int
  ev_raw_hash :: string
  ev_view_hash :: string
  ev_adoption :: EvidenceAdoption
  ev_restricted :: bool

definition advance_tool_operation :: "ToolOperation \<Rightarrow> string \<Rightarrow> ToolOperation domain_result" where
  "advance_tool_operation operation trigger =
     bind_result (fire TOOL_OPERATION (op_state operation) trigger) (\<lambda>s. Inr (operation\<lparr>op_state := s\<rparr>))"

definition advance_evidence :: "Evidence \<Rightarrow> string \<Rightarrow> Evidence domain_result" where
  "advance_evidence evidence trigger =
     bind_result (fire EVIDENCE_ADOPTION (ev_adoption evidence) trigger)
       (\<lambda>a. Inr (evidence\<lparr>ev_adoption := a\<rparr>))"

definition counts_as_observed :: "ToolOperation \<Rightarrow> bool" where
  "counts_as_observed operation \<longleftrightarrow> op_state operation = TO_succeeded"

definition may_enter_model_input :: "Evidence \<Rightarrow> bool" where
  "may_enter_model_input evidence \<longleftrightarrow> ev_adoption evidence = EA_adopted"

text \<open>The generator expression of \<open>revoke_restricted\<close>: an error of one item would surface.\<close>

fun revoke_restricted :: "Evidence list \<Rightarrow> Evidence list domain_result" where
  "revoke_restricted [] = Inr []"
| "revoke_restricted (item # rest) =
     bind_result (if ev_restricted item \<and> ev_adoption item = EA_adopted
                  then advance_evidence item ''revoke'' else Inr item)
       (\<lambda>x. bind_result (revoke_restricted rest) (\<lambda>xs. Inr (x # xs)))"

definition revoke_item :: "Evidence \<Rightarrow> Evidence" where
  "revoke_item e = (if ev_restricted e \<and> ev_adoption e = EA_adopted then e\<lparr>ev_adoption := EA_revoked\<rparr> else e)"

lemma revoke_restricted_map: "revoke_restricted es = Inr (map revoke_item es)"
  by (induction es)
    (simp_all add: advance_evidence_def EVIDENCE_ADOPTION_def machine_eval revoke_item_def)

lemma evidence_fire_adopted: "fire EVIDENCE_ADOPTION a t = Inr EA_adopted \<longleftrightarrow> a = EA_recorded \<and> t = ''adopt''"
  by (cases a) (auto simp: EVIDENCE_ADOPTION_def machine_eval)

lemma evidence_fires_adopted:
  "a \<noteq> EA_recorded \<Longrightarrow> a \<noteq> EA_adopted \<Longrightarrow> fires EVIDENCE_ADOPTION a ts = Inr b \<Longrightarrow> b = a"
proof -
  assume "a \<noteq> EA_recorded" "a \<noteq> EA_adopted" "fires EVIDENCE_ADOPTION a ts = Inr b"
  moreover from this have "terminal EVIDENCE_ADOPTION a = Inr True"
    by (cases a) (simp_all add: EVIDENCE_ADOPTION_def machine_eval)
  ultimately show "b = a" using evidence.terminal_final by blast
qed

subsection \<open>Properties\<close>

text \<open>(\<open>revoke_restricted\<close>) Withdrawing an authorization always succeeds, keeps every item and
  its order, changes nothing but the adoption of adopted restricted items, and leaves no restricted
  item that may enter a model input; no later trigger sequence lets a revoked item in again.\<close>

theorem revoke_restricted_blocks_inputs:
  "\<exists>out. revoke_restricted es = Inr out \<and> length out = length es \<and>
     (\<forall>i < length es. out ! i = (es ! i)\<lparr>ev_adoption := ev_adoption (out ! i)\<rparr> \<and>
        (may_enter_model_input (out ! i) \<longleftrightarrow> may_enter_model_input (es ! i) \<and> \<not> ev_restricted (es ! i)) \<and>
        (may_enter_model_input (es ! i) \<and> ev_restricted (es ! i) \<longrightarrow>
          (\<forall>ts a. fires EVIDENCE_ADOPTION (ev_adoption (out ! i)) ts = Inr a \<longrightarrow> a \<noteq> EA_adopted)))"
proof (intro exI conjI allI impI)
  show "revoke_restricted es = Inr (map revoke_item es)" by (rule revoke_restricted_map)
  fix i assume i: "i < length es"
  show "map revoke_item es ! i = (es ! i)\<lparr>ev_adoption := ev_adoption (map revoke_item es ! i)\<rparr>"
    using i by (simp add: revoke_item_def)
  show "may_enter_model_input (map revoke_item es ! i) \<longleftrightarrow>
      may_enter_model_input (es ! i) \<and> \<not> ev_restricted (es ! i)"
    using i by (auto simp: revoke_item_def may_enter_model_input_def)
  fix ts a assume "may_enter_model_input (es ! i) \<and> ev_restricted (es ! i)"
    and f: "fires EVIDENCE_ADOPTION (ev_adoption (map revoke_item es ! i)) ts = Inr a"
  with i have "ev_adoption (map revoke_item es ! i) = EA_revoked"
    by (simp add: revoke_item_def may_enter_model_input_def)
  with f show "a \<noteq> EA_adopted" using evidence_fires_adopted [of EA_revoked ts a] by simp
qed simp

theorem revoke_restricted_blocks_inputs_witness:
  "\<exists>out. revoke_restricted [\<lparr>ev_evidence_id = ''e'', ev_operation_id = ''o'', ev_run_id = ''r'',
      ev_source = ''s'', ev_target = example_target, ev_window = \<lparr>qw_start = 0, qw_end = 1\<rparr>,
      ev_observed_at = 1, ev_freshness_seconds = 0, ev_raw_hash = ''h'', ev_view_hash = ''v'',
      ev_adoption = EA_adopted, ev_restricted = True\<rparr>] = Inr out \<and> \<not> may_enter_model_input (out ! 0)"
    (is "\<exists>out. revoke_restricted ?es = Inr out \<and> _")
proof -
  from revoke_restricted_blocks_inputs [of ?es] obtain out
    where "revoke_restricted ?es = Inr out" and "\<forall>i < length ?es.
      may_enter_model_input (out ! i) \<longleftrightarrow> may_enter_model_input (?es ! i) \<and> \<not> ev_restricted (?es ! i)"
    by blast
  then show ?thesis by (intro exI [of _ out]) simp
qed

end
