(* ===== verification/Domain_Observation.thy ===== *)
theory Domain_Observation
  imports Domain_Subjects Domain_Evidence
begin

section \<open>Observation sessions (\<open>domain/observation.py\<close>)\<close>

text \<open>
  A session binds its purpose, subject, target, control and observation generations and health rule.
  Adoption of a sample is a decision with a reason, never an exception; adopting moves a watermark
  that never goes back; and health is a separate question from adoption.

  The state of the subject is the lifecycle of an incident or the status of a release: the string
  the source compares against \<open>_ACTIVE_SUBJECT_STATES\<close> is the sum of the two.
\<close>

datatype ObservationPurpose = OP_incident_recovery | OP_release_observation

datatype ObservationSessionState = OS_authorized | OS_completed | OS_revoked | OS_expired

datatype SampleOutcome = SO_healthy | SO_degraded | SO_no_data | SO_stale | SO_timeout | SO_failed

definition OBSERVATION_SESSION :: "ObservationSessionState StateMachine" where
  "OBSERVATION_SESSION = \<lparr>sm_name = ''observation_session'', sm_edges =
     [(OS_authorized, [(''observation_completed'', OS_completed), (''authority_revoked'', OS_revoked),
         (''deadline_expired'', OS_expired)]),
      (OS_completed, []), (OS_revoked, []), (OS_expired, [])]\<rparr>"

interpretation observation_session: lifecycle OBSERVATION_SESSION
proof (unfold_locales, goal_cases)
  case 1 show ?case by (simp add: OBSERVATION_SESSION_def StateMachine_init_def)
next
  case (2 s) show ?case by (cases s) (simp_all add: OBSERVATION_SESSION_def states_def)
qed

type_synonym subject_state = "IncidentLifecycle + ReleaseStatus"

definition active_subject_states :: "ObservationPurpose \<Rightarrow> subject_state set" where
  "active_subject_states p = (case p of OP_incident_recovery \<Rightarrow> Inl ` ACTIVE_INCIDENT_LIFECYCLES
     | OP_release_observation \<Rightarrow> Inr ` ACTIVE_RELEASE_STATUSES)"

definition subject_kind_for_purpose :: "ObservationPurpose \<Rightarrow> subject_kind" where
  "subject_kind_for_purpose p = (case p of OP_incident_recovery \<Rightarrow> SK_incident
     | OP_release_observation \<Rightarrow> SK_release_observation)"

record ObservationSession =
  os_session_id :: string
  os_purpose :: ObservationPurpose
  os_subject :: SubjectRef
  os_target :: Target
  os_subject_control_generation :: int
  os_observation_generation :: int
  os_authorized :: bool
  os_state :: ObservationSessionState
  os_health_profile_revision :: "string option"
  os_adopted_sequence :: int
  os_adopted_window_end :: "time option"
  os_active_sample_job_id :: "string option"

definition subject_matches_purpose :: "ObservationSession \<Rightarrow> bool" where
  "subject_matches_purpose s \<longleftrightarrow> sr_kind (os_subject s) = subject_kind_for_purpose (os_purpose s)"

record HealthSample =
  hs_sample_id :: string
  hs_session_id :: string
  hs_sequence :: int
  hs_window :: QueryWindow
  hs_outcome :: SampleOutcome
  hs_subject_control_generation :: int
  hs_observation_generation :: int
  hs_health_profile_revision :: "string option"
  hs_required_signals_present :: bool

datatype SampleReason =
    SR_adopted | SR_session_not_authorized | SR_session_mismatch | SR_control_generation_stale
  | SR_observation_generation_stale | SR_health_profile_revision_mismatch | SR_sequence_not_advancing
  | SR_window_regressed | SR_subject_state_not_adoptable | SR_deadline_expired | SR_suspended
  | SR_lease_revoked | SR_lease_stamp_mismatch | SR_readings_inconsistent

datatype sample_disposition = SD_adopted | SD_history_only

record SampleAcceptance =
  sa_accepted :: bool
  sa_disposition :: sample_disposition
  sa_reason :: SampleReason

definition sample_history_only :: "SampleReason \<Rightarrow> SampleAcceptance" where
  "sample_history_only reason = \<lparr>sa_accepted = False, sa_disposition = SD_history_only, sa_reason = reason\<rparr>"

definition advance_session :: "ObservationSession \<Rightarrow> string \<Rightarrow> ObservationSession domain_result" where
  "advance_session session trigger =
     bind_result (fire OBSERVATION_SESSION (os_state session) trigger) (\<lambda>s. Inr (session\<lparr>os_state := s\<rparr>))"

definition may_schedule_sample :: "ObservationSession \<Rightarrow> bool" where
  "may_schedule_sample session \<longleftrightarrow> os_state session = OS_authorized \<and> os_authorized session \<and>
     os_active_sample_job_id session = None"

definition evaluate_sample ::
  "ObservationSession \<Rightarrow> HealthSample \<Rightarrow> subject_state \<Rightarrow> bool \<Rightarrow> bool \<Rightarrow> SampleAcceptance" where
  "evaluate_sample session sample subject_state within_deadline suspension_blocks =
     (if subject_state \<notin> active_subject_states (os_purpose session)
        then sample_history_only SR_subject_state_not_adoptable
      else if suspension_blocks then sample_history_only SR_suspended
      else if \<not> within_deadline then sample_history_only SR_deadline_expired
      else if os_state session \<noteq> OS_authorized \<or> \<not> os_authorized session
        then sample_history_only SR_session_not_authorized
      else if hs_session_id sample \<noteq> os_session_id session then sample_history_only SR_session_mismatch
      else if hs_subject_control_generation sample \<noteq> os_subject_control_generation session
        then sample_history_only SR_control_generation_stale
      else if hs_observation_generation sample \<noteq> os_observation_generation session
        then sample_history_only SR_observation_generation_stale
      else if hs_health_profile_revision sample \<noteq> os_health_profile_revision session
        then sample_history_only SR_health_profile_revision_mismatch
      else if hs_sequence sample \<le> os_adopted_sequence session
        then sample_history_only SR_sequence_not_advancing
      else if (case os_adopted_window_end session of None \<Rightarrow> False
                | Some e \<Rightarrow> qw_end (hs_window sample) < e)
        then sample_history_only SR_window_regressed
      else \<lparr>sa_accepted = True, sa_disposition = SD_adopted, sa_reason = SR_adopted\<rparr>)"

definition adopt_sample :: "ObservationSession \<Rightarrow> HealthSample \<Rightarrow> ObservationSession domain_result" where
  "adopt_sample session sample =
     (if hs_sequence sample \<le> os_adopted_sequence session then Inl STALE_RESULT
      else Inr (session\<lparr>os_adopted_sequence := hs_sequence sample,
                        os_adopted_window_end := Some (qw_end (hs_window sample)),
                        os_active_sample_job_id := None\<rparr>))"

definition confirms_health :: "ObservationSession \<Rightarrow> HealthSample \<Rightarrow> bool" where
  "confirms_health session sample \<longleftrightarrow> os_health_profile_revision session \<noteq> None \<and>
     hs_outcome sample = SO_healthy \<and> hs_required_signals_present sample"

definition extends_healthy_window :: "ObservationSession \<Rightarrow> HealthSample \<Rightarrow> bool" where
  "extends_healthy_window session sample = confirms_health session sample"

subsection \<open>Submitting samples\<close>

text \<open>A sequence of submissions: each sample is evaluated in the subject state of its moment and
  adopted when accepted. The second component lists the adopted samples.\<close>

fun submit_samples ::
  "ObservationSession \<Rightarrow> (HealthSample \<times> subject_state \<times> bool \<times> bool) list
     \<Rightarrow> ObservationSession \<times> HealthSample list" where
  "submit_samples s [] = (s, [])"
| "submit_samples s ((h, st, d, b) # rest) =
     (if sa_accepted (evaluate_sample s h st d b)
      then case adopt_sample s h of
             Inl e \<Rightarrow> submit_samples s rest
           | Inr s' \<Rightarrow> (case submit_samples s' rest of (u, adopted) \<Rightarrow> (u, h # adopted))
      else submit_samples s rest)"

lemma evaluate_sample_accepted_iff:
  "sa_accepted (evaluate_sample s h st d b) \<longleftrightarrow>
     st \<in> active_subject_states (os_purpose s) \<and> \<not> b \<and> d \<and> os_state s = OS_authorized \<and> os_authorized s \<and>
     hs_session_id h = os_session_id s \<and>
     hs_subject_control_generation h = os_subject_control_generation s \<and>
     hs_observation_generation h = os_observation_generation s \<and>
     hs_health_profile_revision h = os_health_profile_revision s \<and>
     os_adopted_sequence s < hs_sequence h \<and>
     (\<forall>e. os_adopted_window_end s = Some e \<longrightarrow> e \<le> qw_end (hs_window h))"
  by (simp add: evaluate_sample_def sample_history_only_def split: option.split) auto

text \<open>An accepted sample is always adopted: the guard of \<open>adopt_sample\<close> is implied.\<close>

lemma accepted_adopts:
  "sa_accepted (evaluate_sample s h st d b) \<Longrightarrow> adopt_sample s h =
     Inr (s\<lparr>os_adopted_sequence := hs_sequence h, os_adopted_window_end := Some (qw_end (hs_window h)),
            os_active_sample_job_id := None\<rparr>)"
  by (simp add: evaluate_sample_accepted_iff adopt_sample_def)

definition above_watermark :: "ObservationSession \<Rightarrow> HealthSample \<Rightarrow> bool" where
  "above_watermark s h \<longleftrightarrow> os_adopted_sequence s < hs_sequence h \<and>
     (\<forall>e. os_adopted_window_end s = Some e \<longrightarrow> e \<le> qw_end (hs_window h))"

lemma submit_samples_ordered:
  "submit_samples s xs = (u, adopted) \<Longrightarrow>
     sorted_wrt (\<lambda>a b. hs_sequence a < hs_sequence b \<and> qw_end (hs_window a) \<le> qw_end (hs_window b)) adopted \<and>
     (\<forall>h \<in> set adopted. above_watermark s h) \<and>
     (adopted \<noteq> [] \<longrightarrow> os_adopted_sequence u = hs_sequence (last adopted) \<and>
        os_adopted_window_end u = Some (qw_end (hs_window (last adopted)))) \<and>
     (adopted = [] \<longrightarrow> u = s)"
proof (induction xs arbitrary: s u adopted)
  case (Cons x xs)
  obtain h st d b where x: "x = (h, st, d, b)" by (cases x)
  show ?case
  proof (cases "sa_accepted (evaluate_sample s h st d b)")
    case True
    let ?s = "s\<lparr>os_adopted_sequence := hs_sequence h, os_adopted_window_end := Some (qw_end (hs_window h)),
            os_active_sample_job_id := None\<rparr>"
    obtain rest where rest: "submit_samples ?s xs = (u, rest)" and ad: "adopted = h # rest"
      using Cons.prems True by (auto simp: x accepted_adopts split: prod.splits)
    have "above_watermark s h" using True by (simp add: evaluate_sample_accepted_iff above_watermark_def)
    with Cons.IH [OF rest] show ?thesis
      by (auto simp: ad above_watermark_def)
  next
    case False
    with Cons.prems Cons.IH show ?thesis by (simp add: x)
  qed
qed simp

subsection \<open>Properties\<close>

text \<open>(\<open>evaluate_sample\<close>, \<open>adopt_sample\<close>) Over any sequence of submissions, in whatever order
  and however stale, the adopted samples have strictly increasing sequences and non-decreasing
  window ends, and the session's watermark is exactly the last adopted sample's; submitting an
  adopted sample again never adopts it a second time.\<close>

theorem adopted_samples_advance:
  assumes "submit_samples s xs = (u, adopted)"
  shows "sorted_wrt (\<lambda>a b. hs_sequence a < hs_sequence b \<and>
      qw_end (hs_window a) \<le> qw_end (hs_window b)) adopted \<and>
    (adopted \<noteq> [] \<longrightarrow> os_adopted_sequence u = hs_sequence (last adopted) \<and>
       os_adopted_window_end u = Some (qw_end (hs_window (last adopted)))) \<and>
    (\<forall>h \<in> set adopted. \<forall>st d b. \<not> sa_accepted (evaluate_sample u h st d b) \<and> adopt_sample u h = Inl STALE_RESULT)"
proof -
  note o = submit_samples_ordered [OF assms]
  have "hs_sequence h \<le> os_adopted_sequence u" if h: "h \<in> set adopted" for h
  proof -
    have "os_adopted_sequence u = hs_sequence (last adopted)" using o h by auto
    moreover have "h = last adopted \<or> hs_sequence h < hs_sequence (last adopted)"
      using sorted_wrt_le_last [OF conjunct1 [OF o] h] by blast
    ultimately show ?thesis by auto
  qed
  with o show ?thesis by (auto simp: evaluate_sample_accepted_iff adopt_sample_def not_less)
qed

definition example_session :: ObservationSession where
  "example_session = \<lparr>os_session_id = ''s'', os_purpose = OP_incident_recovery,
     os_subject = \<lparr>sr_kind = SK_incident, sr_id = ''i''\<rparr>, os_target = example_target,
     os_subject_control_generation = 1, os_observation_generation = 1, os_authorized = True,
     os_state = OS_authorized, os_health_profile_revision = Some ''hp'', os_adopted_sequence = 0,
     os_adopted_window_end = None, os_active_sample_job_id = Some ''j''\<rparr>"

definition example_sample :: "int \<Rightarrow> time \<Rightarrow> HealthSample" where
  "example_sample n e = \<lparr>hs_sample_id = ''x'', hs_session_id = ''s'', hs_sequence = n,
     hs_window = \<lparr>qw_start = 0, qw_end = e\<rparr>, hs_outcome = SO_healthy, hs_subject_control_generation = 1,
     hs_observation_generation = 1, hs_health_profile_revision = Some ''hp'',
     hs_required_signals_present = True\<rparr>"

theorem adopted_samples_advance_witness:
  "snd (submit_samples example_session [(example_sample 2 20, Inl L_observing_recovery, True, False),
      (example_sample 1 30, Inl L_open, True, False), (example_sample 3 25, Inl L_open, True, False)])
     = [example_sample 2 20, example_sample 3 25] \<and>
   sorted_wrt (\<lambda>a b. hs_sequence a < hs_sequence b) [example_sample 2 20, example_sample 3 25]"
proof -
  let ?xs = "[(example_sample 2 20, Inl L_observing_recovery, True, False),
      (example_sample 1 30, Inl L_open, True, False), (example_sample 3 25, Inl L_open, True, False)]"
  have r: "submit_samples example_session ?xs =
      (example_session\<lparr>os_adopted_sequence := 3, os_adopted_window_end := Some 25,
         os_active_sample_job_id := None\<rparr>, [example_sample 2 20, example_sample 3 25])"
    by (simp add: evaluate_sample_def adopt_sample_def example_session_def example_sample_def
        active_subject_states_def ACTIVE_INCIDENT_LIFECYCLES_def sample_history_only_def)
  from adopted_samples_advance [OF r] r show ?thesis by (auto intro: sorted_wrt_mono_rel [rotated])
qed

text \<open>\<open>confirms_health\<close>: Health is never confirmed without a bound health rule, and never by a
  missing, stale, timed out, failed or degraded reading: such samples may be adopted but do not
  extend the healthy window. An accepted sample that confirms health was taken under the session's
  own rule revision and generations, in an active subject state.\<close>

theorem health_confirmation_needs_rule_and_signals:
  "(extends_healthy_window s h \<longrightarrow> os_health_profile_revision s \<noteq> None \<and> hs_required_signals_present h \<and>
     hs_outcome h \<notin> {SO_degraded, SO_no_data, SO_stale, SO_timeout, SO_failed}) \<and>
   (sa_accepted (evaluate_sample s h st d b) \<and> confirms_health s h \<longrightarrow>
     hs_health_profile_revision h = os_health_profile_revision s \<and> hs_health_profile_revision h \<noteq> None \<and>
     hs_subject_control_generation h = os_subject_control_generation s \<and>
     hs_observation_generation h = os_observation_generation s \<and> \<not> b \<and>
     st \<in> active_subject_states (os_purpose s))"
  by (auto simp: extends_healthy_window_def confirms_health_def evaluate_sample_accepted_iff)

theorem health_confirmation_needs_rule_and_signals_witness:
  "sa_accepted (evaluate_sample example_session (example_sample 1 5) (Inl L_open) True False) \<and>
   confirms_health example_session (example_sample 1 5) \<and>
   hs_health_profile_revision (example_sample 1 5) = os_health_profile_revision example_session"
proof -
  have "sa_accepted (evaluate_sample example_session (example_sample 1 5) (Inl L_open) True False)"
    and "confirms_health example_session (example_sample 1 5)"
    by (simp_all add: evaluate_sample_accepted_iff confirms_health_def example_session_def example_sample_def
        active_subject_states_def ACTIVE_INCIDENT_LIFECYCLES_def)
  then show ?thesis using health_confirmation_needs_rule_and_signals by blast
qed

end
