(* ===== verification/Domain_Records.thy ===== *)
theory Domain_Records
  imports Domain_Subjects
begin

section \<open>Subject events, audit records, the export outbox (\<open>domain/records.py\<close>)\<close>

text \<open>
  The immutable business events of a subject, the audit records and the lifecycle of an export
  entry. \<open>append_events\<close> is the append discipline of the event history: each event takes the
  sequence \<open>next_sequence\<close> gives it.
\<close>

datatype OutboxState = OX_pending | OX_delivered | OX_dropped

definition EXPORT_OUTBOX :: "OutboxState StateMachine" where
  "EXPORT_OUTBOX = \<lparr>sm_name = ''export_outbox'', sm_edges =
     [(OX_pending, [(''delivered'', OX_delivered), (''bounded_drop'', OX_dropped)]),
      (OX_delivered, []), (OX_dropped, [])]\<rparr>"

interpretation export_outbox: lifecycle EXPORT_OUTBOX
proof (unfold_locales, goal_cases)
  case 1 show ?case by (simp add: EXPORT_OUTBOX_def StateMachine_init_def)
next
  case (2 s) show ?case by (cases s) (simp_all add: EXPORT_OUTBOX_def states_def)
qed

record SubjectEvent =
  se_event_id :: string
  se_subject :: SubjectRef
  se_sequence :: int
  se_kind :: string
  se_occurred_at :: time
  se_run_id :: "string option"

record AuditRecord =
  ar_audit_id :: string
  ar_subject :: SubjectRef
  ar_actor :: string
  ar_action :: ControlAction
  ar_expected_version :: int
  ar_resulting_control_generation :: int
  ar_recorded_at :: time
  ar_idempotency_key :: string

datatype payload_kind = PK_trace | PK_eval

record ExportOutboxEntry =
  ox_entry_id :: string
  ox_idempotency_key :: string
  ox_payload_kind :: payload_kind
  ox_payload_hash :: string
  ox_created_at :: time
  ox_state :: OutboxState
  ox_attempts :: int

definition advance_outbox :: "ExportOutboxEntry \<Rightarrow> string \<Rightarrow> ExportOutboxEntry domain_result" where
  "advance_outbox entry trigger =
     bind_result (fire EXPORT_OUTBOX (ox_state entry) trigger) (\<lambda>s. Inr (entry\<lparr>ox_state := s\<rparr>))"

definition next_sequence :: "SubjectEvent list \<Rightarrow> SubjectRef \<Rightarrow> int" where
  "next_sequence events subject =
     max_or 0 (map se_sequence (filter (\<lambda>event. se_subject event = subject) events)) + 1"

text \<open>Appending events, each stamped with the next sequence of its subject.\<close>

fun append_events :: "SubjectEvent list \<Rightarrow> SubjectEvent list \<Rightarrow> SubjectEvent list" where
  "append_events log [] = log"
| "append_events log (e # es) =
     append_events (log @ [e\<lparr>se_sequence := next_sequence log (se_subject e)\<rparr>]) es"

definition sequences :: "SubjectEvent list \<Rightarrow> SubjectRef \<Rightarrow> int list" where
  "sequences log s = map se_sequence (filter (\<lambda>e. se_subject e = s) log)"

lemma sequences_append_events:
  assumes "\<forall>s. sequences log s = [1..int (length (sequences log s))]"
  shows "\<forall>s. sequences (append_events log es) s = [1..int (length (sequences (append_events log es) s))]"
  using assms
proof (induction es arbitrary: log)
  case (Cons e es)
  let ?log = "log @ [e\<lparr>se_sequence := next_sequence log (se_subject e)\<rparr>]"
  have "sequences ?log s = [1..int (length (sequences ?log s))]" for s
  proof (cases "s = se_subject e")
    case True
    let ?n = "length (sequences log s)"
    have s: "sequences log s = [1..int ?n]" using Cons.prems by blast
    have "next_sequence log s = int ?n + 1"
      unfolding next_sequence_def sequences_def [symmetric] by (subst s) (simp only: max_or_upto)
    then have "sequences ?log s = [1..int ?n] @ [int ?n + 1]"
      using True s by (simp add: sequences_def)
    moreover have "[1..int ?n] @ [int ?n + 1] = [1..int (Suc ?n)]"
      by (simp add: upto_rec2 add.commute)
    moreover have "length (sequences ?log s) = Suc ?n" using True by (simp add: sequences_def)
    ultimately show ?thesis by simp
  next
    case False
    then have "sequences ?log s = sequences log s" by (simp add: sequences_def)
    with Cons.prems show ?thesis by metis
  qed
  then have "\<forall>s. sequences ?log s = [1..int (length (sequences ?log s))]" by blast
  from Cons.IH [OF this] show ?case by simp
qed simp

subsection \<open>Properties\<close>

text \<open>(\<open>next_sequence\<close>) The per-subject event sequence is gap-free and never repeats: when every
  event appended to an empty log takes \<open>next_sequence\<close>, the events of each subject carry exactly
  \<open>1, 2, \<dots>, n\<close> in append order, whatever the interleaving with other subjects.\<close>

theorem subject_sequences_gap_free:
  "sequences (append_events [] es) s = [1..int (length (filter (\<lambda>e. se_subject e = s) es))]"
proof -
  have len: "length (sequences (append_events log es) s) =
      length (sequences log s) + length (filter (\<lambda>e. se_subject e = s) es)" for log
    by (induction es arbitrary: log) (auto simp: sequences_def)
  have "\<forall>s. sequences [] s = [1..int (length (sequences [] s))]" by (simp add: sequences_def)
  from sequences_append_events [OF this, of es] len [of "[]"] show ?thesis
    by (simp add: sequences_def)
qed

end
