(* ===== verification/Domain_Knowledge.thy ===== *)
theory Domain_Knowledge
  imports Domain_Subjects
begin

section \<open>Postmortems and knowledge revisions (\<open>domain/knowledge.py\<close>)\<close>

text \<open>
  A postmortem starts as a draft; only a human review approves it, and only an approved postmortem
  yields an immutable knowledge revision, which can later be superseded or revoked.
\<close>

datatype PostmortemState = PM_draft | PM_under_review | PM_approved | PM_rejected | PM_returned | PM_stale

datatype KnowledgeState = KR_active | KR_superseded | KR_revoked

definition POSTMORTEM :: "PostmortemState StateMachine" where
  "POSTMORTEM = \<lparr>sm_name = ''postmortem'', sm_edges =
     [(PM_draft, [(''submit_for_review'', PM_under_review), (''mark_stale'', PM_stale)]),
      (PM_under_review, [(''human_approve'', PM_approved), (''human_reject'', PM_rejected),
         (''human_return_for_revision'', PM_returned), (''mark_stale'', PM_stale)]),
      (PM_approved, []), (PM_rejected, []), (PM_returned, []), (PM_stale, [])]\<rparr>"

interpretation postmortem: lifecycle POSTMORTEM
proof (unfold_locales, goal_cases)
  case 1 show ?case by (simp add: POSTMORTEM_def StateMachine_init_def)
next
  case (2 s) show ?case by (cases s) (simp_all add: POSTMORTEM_def states_def)
qed

definition KNOWLEDGE_REVISION :: "KnowledgeState StateMachine" where
  "KNOWLEDGE_REVISION = \<lparr>sm_name = ''knowledge_revision'', sm_edges =
     [(KR_active, [(''supersede'', KR_superseded), (''revoke'', KR_revoked)]),
      (KR_superseded, []), (KR_revoked, [])]\<rparr>"

interpretation knowledge: lifecycle KNOWLEDGE_REVISION
proof (unfold_locales, goal_cases)
  case 1 show ?case by (simp add: KNOWLEDGE_REVISION_def StateMachine_init_def)
next
  case (2 s) show ?case by (cases s) (simp_all add: KNOWLEDGE_REVISION_def states_def)
qed

record Postmortem =
  pm_postmortem_id :: string
  pm_subject :: SubjectRef
  pm_content_hash :: string
  pm_created_at :: time
  pm_state :: PostmortemState
  pm_reviewed_by :: "string option"
  pm_reviewed_at :: "time option"

datatype approver_kind = human

record KnowledgeRevision =
  kr_revision_id :: string
  kr_postmortem_id :: string
  kr_content_hash :: string
  kr_approver_kind :: approver_kind
  kr_approved_by :: string
  kr_approved_at :: time
  kr_state :: KnowledgeState
  kr_supersedes_revision_id :: "string option"

definition advance_postmortem ::
  "Postmortem \<Rightarrow> string \<Rightarrow> string option \<Rightarrow> Postmortem domain_result" where
  "advance_postmortem postmortem trigger reviewer =
     bind_result (fire POSTMORTEM (pm_state postmortem) trigger) (\<lambda>state.
       let update = postmortem\<lparr>pm_state := state\<rparr> in
       if trigger \<in> {''human_approve'', ''human_reject''} then
         (case reviewer of None \<Rightarrow> Inl INVALID_INPUT
          | Some r \<Rightarrow> if r = [] then Inl INVALID_INPUT else Inr (update\<lparr>pm_reviewed_by := Some r\<rparr>))
       else Inr update)"

definition advance_knowledge :: "KnowledgeRevision \<Rightarrow> string \<Rightarrow> KnowledgeRevision domain_result" where
  "advance_knowledge revision trigger =
     bind_result (fire KNOWLEDGE_REVISION (kr_state revision) trigger) (\<lambda>s. Inr (revision\<lparr>kr_state := s\<rparr>))"

definition publish_knowledge ::
  "Postmortem \<Rightarrow> string \<Rightarrow> string \<Rightarrow> time \<Rightarrow> string option \<Rightarrow> KnowledgeRevision domain_result" where
  "publish_knowledge postmortem revision_id approved_by approved_at supersedes_revision_id =
     (if pm_state postmortem \<noteq> PM_approved then Inl ILLEGAL_TRANSITION
      else if approved_by = [] then Inl INVALID_INPUT
      else Inr \<lparr>kr_revision_id = revision_id, kr_postmortem_id = pm_postmortem_id postmortem,
             kr_content_hash = pm_content_hash postmortem, kr_approver_kind = human,
             kr_approved_by = approved_by, kr_approved_at = approved_at, kr_state = KR_active,
             kr_supersedes_revision_id = supersedes_revision_id\<rparr>)"

text \<open>A sequence of postmortem triggers, each with the reviewer it names.\<close>

fun postmortem_history :: "Postmortem \<Rightarrow> (string \<times> string option) list \<Rightarrow> Postmortem domain_result" where
  "postmortem_history p [] = Inr p"
| "postmortem_history p ((t, r) # es) = bind_result (advance_postmortem p t r) (\<lambda>q. postmortem_history q es)"

definition human_approved :: "Postmortem \<Rightarrow> bool" where
  "human_approved p \<longleftrightarrow> (pm_state p = PM_approved \<longrightarrow> (\<exists>r. pm_reviewed_by p = Some r \<and> r \<noteq> []))"

lemma postmortem_fire_approved:
  "fire POSTMORTEM s t = Inr PM_approved \<longleftrightarrow> s = PM_under_review \<and> t = ''human_approve''"
  by (cases s) (auto simp: POSTMORTEM_def machine_eval)

lemma postmortem_approved_final: "fire POSTMORTEM PM_approved t = Inl ILLEGAL_TRANSITION"
  by (simp add: POSTMORTEM_def machine_eval)

lemma advance_postmortem_human_approved:
  assumes "advance_postmortem p t r = Inr q"
  shows "human_approved q \<and> pm_content_hash q = pm_content_hash p \<and> pm_postmortem_id q = pm_postmortem_id p"
proof (cases "pm_state q = PM_approved")
  case True
  with assms have "t = ''human_approve''"
    by (simp add: advance_postmortem_def bind_result_Inr_iff Let_def
        split: if_split_asm option.split_asm) (auto simp: postmortem_fire_approved)
  with assms show ?thesis
    by (auto simp: advance_postmortem_def bind_result_Inr_iff human_approved_def
        split: option.split_asm if_split_asm)
next
  case False
  with assms show ?thesis
    by (simp add: advance_postmortem_def bind_result_Inr_iff Let_def human_approved_def
        split: if_split_asm option.split_asm) auto
qed

lemma postmortem_history_human_approved:
  "human_approved p \<Longrightarrow> postmortem_history p es = Inr q \<Longrightarrow>
     human_approved q \<and> pm_content_hash q = pm_content_hash p \<and> pm_postmortem_id q = pm_postmortem_id p"
proof (induction es arbitrary: p)
  case (Cons e es)
  obtain t r where e: "e = (t, r)" by (cases e)
  then obtain p' where p': "advance_postmortem p t r = Inr p'" "postmortem_history p' es = Inr q"
    using Cons.prems(2) by (auto simp: bind_result_Inr_iff)
  with Cons.IH [of p'] advance_postmortem_human_approved [OF p'(1)] show ?case by simp
qed simp

subsection \<open>Properties\<close>

text \<open>(\<open>advance_postmortem\<close>, \<open>publish_knowledge\<close>) Knowledge is only published from a
  postmortem a named human approved: if a knowledge revision is published from a postmortem that
  started as a draft, a non-empty reviewer is recorded on it, the revision carries the draft's
  content hash and names its approver, and the approved postmortem accepts no further trigger.\<close>

theorem knowledge_needs_human_approval:
  assumes "pm_state draft = PM_draft" and "postmortem_history draft es = Inr p"
    and "publish_knowledge p rid approver at_time supersedes = Inr k"
  shows "(\<exists>r. pm_reviewed_by p = Some r \<and> r \<noteq> []) \<and> kr_approved_by k \<noteq> [] \<and>
    kr_content_hash k = pm_content_hash draft \<and> kr_postmortem_id k = pm_postmortem_id draft \<and>
    kr_state k = KR_active \<and> (\<forall>t r. advance_postmortem p t r = Inl ILLEGAL_TRANSITION)"
proof -
  have "human_approved draft" using assms(1) by (simp add: human_approved_def)
  from postmortem_history_human_approved [OF this assms(2)]
  have p: "human_approved p" "pm_content_hash p = pm_content_hash draft"
    "pm_postmortem_id p = pm_postmortem_id draft" by auto
  have "pm_state p = PM_approved" "approver \<noteq> []"
    using assms(3) by (auto simp: publish_knowledge_def split: if_splits)
  with p assms(3) show ?thesis
    by (auto simp: publish_knowledge_def human_approved_def advance_postmortem_def postmortem_approved_final)
qed

definition example_draft :: Postmortem where
  "example_draft = \<lparr>pm_postmortem_id = ''pm'', pm_subject = \<lparr>sr_kind = SK_incident, sr_id = ''i''\<rparr>,
     pm_content_hash = ''h'', pm_created_at = 0, pm_state = PM_draft, pm_reviewed_by = None,
     pm_reviewed_at = None\<rparr>"

theorem knowledge_needs_human_approval_witness:
  "\<exists>k. publish_knowledge (example_draft\<lparr>pm_state := PM_approved, pm_reviewed_by := Some ''ann''\<rparr>)
         ''rev'' ''ann'' 5 None = Inr k \<and> kr_content_hash k = ''h''"
proof -
  let ?p = "example_draft\<lparr>pm_state := PM_approved, pm_reviewed_by := Some ''ann''\<rparr>"
  have h: "postmortem_history example_draft
      [(''submit_for_review'', None), (''human_approve'', Some ''ann'')] = Inr ?p"
    by (simp add: advance_postmortem_def POSTMORTEM_def machine_eval example_draft_def)
  obtain k where k: "publish_knowledge ?p ''rev'' ''ann'' 5 None = Inr k"
    by (simp add: publish_knowledge_def)
  from knowledge_needs_human_approval [OF _ h k] k show ?thesis by (auto simp: example_draft_def)
qed

end
