(* ===== verification/Store_Base.thy ===== *)
theory Store_Base
  imports Domain_Runs Domain_Observation Domain_Records Domain_Knowledge
begin

section \<open>The durable store: tables, transactions and the lease fence (\<open>persistence/base.py\<close>)\<close>

text \<open>
  The PostgreSQL database is the record \<open>db\<close> of its tables, each a list of rows in insertion order
  with the columns the modelled statements read or write (migrations 0001 to 0024; columns filled by
  a default and never read, such as \<open>updated_at\<close>, are left out). An operation is
  one transaction. The row locks the code takes, always incident before Run, serialize the
  transactions that touch the same incident, so an operation is an atomic function of the database:
  it returns its result or the code of the \<open>PersistenceError\<close> it raises, and the database after
  commit. An error rolls the transaction back (\<open>transaction\<close>); the two places that commit before they
  raise write their result pair out. What an operation reads from outside is its \<open>env\<close>: the database
  clock, fresh UUIDs, the name-based UUIDs of merge events, the SHA-256 of a text and of the canonical form of a JSON value, that
  canonical form, the JSON value a text parses to, and the image version and revision of the process.

  The row of \<open>opspilot_scope_controls\<close>, inserted by migration 0001 and never deleted, is the
  pair of fields \<open>db_global_suspended\<close> and \<open>db_global_generation\<close>.
\<close>

datatype perr =
    E_INVALID_INPUT | E_UNKNOWN_IDENTITY | E_IDENTITY_CONFLICT | E_CONTROL_DENIED | E_CONTROL_CONFLICT
  | E_ILLEGAL_TRANSITION | E_REOPEN_REQUIRED | E_RENEW_INPUT_STALE | E_LEASE_ACTIVE
  | E_DEADLINE_EXCEEDED | E_INCOMPATIBLE_STATE | E_BUDGET_EXHAUSTED | E_FINAL_STEP_REQUIRED
  | E_INCONSISTENT_STATE | E_UNKNOWN_TARGET | E_TARGET_UNCHANGED | E_TARGET_MISMATCH | E_HANDOFF_ONLY
  | E_NOT_FOUND | E_STORAGE_UNAVAILABLE | E_RETRY | E_UNCAUGHT
  | E_SCOPE_SUSPENDED | E_TARGET_IDENTITY_MISSING | E_OBSERVATION_ALREADY_AUTHORIZED
  | E_HEALTH_PROFILE_REVISION_MISMATCH | E_HEALTH_PROFILE_UNREADABLE | E_HEALTH_PROFILE_TARGET_MISMATCH
  | E_PRINCIPAL_NOT_ALLOWED | E_IDEMPOTENCY_CONFLICT | E_GENERATION_CONFLICT | E_OPEN_VERSION_EXISTS
  | E_WATERMARK_MOVED | E_CITATIONS_INVALID | E_DISPUTED | E_ENTRY_GENERATION_CONFLICT | E_INTEGRITY_REFUSED
  | E_LEASE_LOST | E_NOT_ELIGIBLE

datatype IncidentState = IS_queued | IS_waiting_human | IS_running | IS_paused | IS_cancelled | IS_completed

datatype StepStatus = ST_response_committed | ST_tool_result_committed | ST_late_result

datatype ReservationState = RS_reserved | RS_spent | RS_unknown

subsection \<open>Rows\<close>

record run_row =
  rr_run_id :: uuid
  rr_incident_id :: uuid
  rr_state :: RunExecution
  rr_epoch :: int
  rr_owner :: "uuid option"
  rr_lease_until :: "time option"
  rr_control_generation :: int
  rr_budget_limit :: int
  rr_budget_reserved :: int
  rr_budget_spent :: int
  rr_budget_unknown :: int
  rr_deadline :: time
  rr_versions :: "(string, string) fmap"
  rr_input_watermark :: int
  rr_tool_operations_used :: int
  rr_tool_seconds_used :: rat
  rr_input :: "json option"

record incident_row =
  ir_incident_id :: uuid
  ir_intake_key :: string
  ir_state :: IncidentState
  ir_mode :: ObservationMode
  ir_lifecycle :: IncidentLifecycle
  ir_control_generation :: int
  ir_observation_generation :: int
  ir_current_run_id :: "uuid option"
  ir_conclusion :: "json option"
  ir_target_id :: "uuid option"
  ir_priority :: int
  ir_related_incident_id :: "uuid option"
  ir_merged_into_incident_id :: "uuid option"
  ir_created_at :: time

record target_row =
  tg_target_id :: uuid
  tg_resource_uid :: string
  tg_integration_id :: "string option"
  tg_cluster_uid :: "string option"
  tg_namespace :: "string option"
  tg_workload :: "string option"

record target_suspension_row =
  ts_target_id :: uuid
  ts_suspended :: bool
  ts_generation :: int

record suspension_audit_row =
  sa_target_id :: "uuid option"
  sa_suspended :: bool
  sa_generation :: int
  sa_actor :: string

record step_row =
  st_step_id :: uuid
  st_run_id :: uuid
  st_sequence :: int
  st_logical_key :: string
  st_status :: StepStatus
  st_response :: json
  st_tool_results :: json
  st_control_generation :: int
  st_observed_at :: time

record control_row =
  ca_audit_id :: uuid
  ca_incident_id :: uuid
  ca_action :: string
  ca_expected_generation :: int
  ca_resulting_generation :: int
  ca_actor :: string
  ca_payload :: "json option"
  ca_created_at :: time

record input_row =
  in_input_id :: uuid
  in_incident_id :: uuid
  in_sequence :: int
  in_kind :: string
  in_content :: json
  in_actor :: string
  in_control_generation :: int

record round_row =
  rd_run_id :: uuid
  rd_logical_key :: string
  rd_control_generation :: int
  rd_input_watermark :: int
  rd_committed :: bool

record reservation_row =
  rs_reservation_id :: uuid
  rs_run_id :: uuid
  rs_amount :: int
  rs_state :: ReservationState
  rs_reserved_seconds :: rat
  rs_seconds :: "rat option"

record charge_row =
  tc_dispatch_id :: uuid
  tc_run_id :: uuid
  tc_epoch :: int
  tc_operation_id :: string
  tc_reserved :: rat
  tc_seconds :: "rat option"

datatype authorization_source = AS_post_remediation | AS_automatic

text \<open>The sessions that observe an incident; those of a release are rows of the same table with another
  purpose and no incident.\<close>

record session_row =
  se_session_id :: uuid
  se_incident_id :: uuid
  se_target_id :: uuid
  se_target :: Target
  se_subject_control_generation :: int
  se_observation_generation :: int
  se_authorized :: bool
  se_authorized_by :: string
  se_authorized_at :: time
  se_authorization_source :: authorization_source
  se_state :: ObservationSessionState
  se_ended_reason :: "string option"
  se_health_profile_revision :: "string option"
  se_authorized_global_generation :: int
  se_authorized_target_generation :: int
  se_deadline_at :: time
  se_max_samples :: int
  se_sample_interval_seconds :: int
  se_sustained_window_seconds :: int
  se_adopted_sequence :: int
  se_adopted_window_end :: "time option"
  se_adopted_count :: int
  se_healthy_since :: "time option"
  se_issued_sequence :: int
  se_active_sample_job_id :: "uuid option"
  se_active_sample_sequence :: "int option"
  se_active_sample_due_at :: "time option"
  se_active_sample_owner :: "uuid option"
  se_active_sample_epoch :: int
  se_active_sample_lease_until :: "time option"

record profile_row =
  hp_revision :: string
  hp_profile_id :: string
  hp_content_sha256 :: string
  hp_content :: string

datatype reading_status = RG_ok | RG_no_data | RG_stale | RG_timeout | RG_failed

datatype health_basis = HB_confirmed | HB_not_adopted | HB_no_health_profile | HB_outcome_not_healthy
  | HB_required_signals_missing | HB_window_before_authorization

record reading_row =
  rg_signal_name :: string
  rg_status :: reading_status
  rg_value :: "pyfloat option"
  rg_sample_count :: "int option"
  rg_query :: string
  rg_window_start :: time
  rg_window_end :: time
  rg_source :: string
  rg_raw_sha256 :: "string option"
  rg_raw :: "string option"

text \<open>A submitted sample with the conditions its decision was taken under; its reading rows are kept with it.\<close>

record sample_row =
  sm_sample_id :: uuid
  sm_session_id :: uuid
  sm_job_id :: uuid
  sm_sequence :: int
  sm_epoch :: int
  sm_window :: QueryWindow
  sm_outcome :: SampleOutcome
  sm_required_signals_present :: bool
  sm_subject_control_generation :: int
  sm_observation_generation :: int
  sm_health_profile_revision :: "string option"
  sm_disposition :: sample_disposition
  sm_reason :: SampleReason
  sm_confirms_health :: bool
  sm_health_basis :: health_basis
  sm_subject_lifecycle :: IncidentLifecycle
  sm_incident_control_generation :: int
  sm_incident_observation_generation :: int
  sm_scope_suspended :: bool
  sm_global_generation :: int
  sm_target_generation :: int
  sm_within_deadline :: bool
  sm_lease_valid :: bool
  sm_lease_stamps_match :: bool
  sm_readings_consistent :: bool
  sm_transition :: "string option"
  sm_readings :: "reading_row list"

record ending_row =
  en_ending_id :: uuid
  en_session_id :: uuid
  en_incident_id :: uuid
  en_ended_reason :: string
  en_transition :: "string option"
  en_sample_id :: "uuid option"
  en_lifecycle_before :: IncidentLifecycle
  en_lifecycle_after :: IncidentLifecycle
  en_recorded_at :: time
  en_job_id :: "uuid option"
  en_job_sequence :: "int option"

datatype self_heal_state = SH_authorized | SH_skipped | SH_retrying | SH_handed_off

text \<open>The decision on an automatic observation, one per incident and control generation.\<close>

record self_heal_row =
  sh_incident_id :: uuid
  sh_control_generation :: int
  sh_state :: self_heal_state
  sh_reason :: "string option"
  sh_attempts :: int
  sh_next_attempt_at :: "time option"
  sh_session_id :: "uuid option"

record subject_event_row =
  ev_subject_id :: uuid
  ev_sequence :: int
  ev_kind :: string
  ev_payload :: "(string, json) fmap"

record outbox_row =
  ob_entry_id :: int
  ob_idempotency_key :: string
  ob_incident_id :: uuid
  ob_run_id :: "uuid option"
  ob_kind :: string
  ob_payload :: "(string, json) fmap"
  ob_state :: OutboxState
  ob_attempts :: int
  ob_next_attempt_at :: "time option"
  ob_drop_reason :: "string option"
  ob_created_at :: time
  ob_finalized_at :: "time option"

record evidence_row =
  ei_evidence_id :: string
  ei_run_id :: string
  ei_raw_sha256 :: string
  ei_view_sha256 :: string
  ei_adopted :: bool
  ei_committed :: bool

record postmortem_row =
  ph_postmortem_id :: uuid
  ph_incident_id :: uuid
  ph_generation :: int
  ph_latest_version :: int

record postmortem_version_row =
  pv_postmortem_id :: uuid
  pv_version :: int
  pv_state :: PostmortemState
  pv_stale_reason :: "string option"
  pv_incident_control_generation :: int
  pv_observation_generation :: int
  pv_run_count :: int
  pv_last_run_id :: "uuid option"
  pv_input_watermark :: int
  pv_evidence_snapshot_sha256 :: string
  pv_observation_session_id :: uuid
  pv_observation_ending_id :: uuid
  pv_revises_version :: "int option"
  pv_content :: string
  pv_content_sha256 :: string
  pv_generated_by :: string
  pv_created_at :: time

datatype draft_author = AU_code | AU_model

datatype certainty = CT_deterministic | CT_supported | CT_uncertain

record conclusion_row =
  cn_postmortem_id :: uuid
  cn_version :: int
  cn_conclusion_key :: string
  cn_ordinal :: nat
  cn_section :: string
  cn_body :: string
  cn_author :: draft_author
  cn_certainty :: certainty
  cn_citations_valid :: bool
  cn_evidence_refs :: json

record dispute_row =
  dp_dispute_id :: uuid
  dp_postmortem_id :: uuid
  dp_version :: int
  dp_conclusion_key :: string
  dp_reason :: string
  dp_raised_by :: string
  dp_event_id :: uuid

record proposal_row =
  pp_postmortem_id :: uuid
  pp_version :: int
  pp_proposal_key :: string
  pp_name :: string
  pp_tags :: "string list"
  pp_content :: string
  pp_content_sha256 :: string
  pp_supersedes_entry_id :: "uuid option"

record entry_row =
  ke_entry_id :: uuid
  ke_generation :: int
  ke_latest_revision :: int

record revision_row =
  kr_entry_id :: uuid
  kr_revision :: int
  kr_name :: string
  kr_tags :: "string list"
  kr_content :: string
  kr_content_sha256 :: string
  kr_source_postmortem_id :: uuid
  kr_source_version :: int
  kr_source_proposal_key :: string
  kr_supersedes_revision :: "int option"
  kr_approved_by :: string
  kr_approved_by_kind :: string
  kr_event_id :: uuid
  kr_approved_at :: time

record revocation_row =
  kx_entry_id :: uuid
  kx_revision :: int
  kx_reason :: string
  kx_revoked_by :: string
  kx_revoked_by_kind :: string
  kx_event_id :: uuid

record generation_job_row =
  gj_incident_id :: uuid
  gj_lease_owner :: "uuid option"
  gj_lease_epoch :: int
  gj_lease_until :: "time option"
  gj_pending_regeneration_version :: "int option"
  gj_failure_watermark :: "string option"
  gj_consecutive_failures :: int
  gj_next_attempt_at :: "time option"
  gj_last_error_code :: "string option"

record f13_audit_row =
  fa_event_id :: uuid
  fa_idempotency_key :: string
  fa_object_kind :: string
  fa_object_id :: uuid
  fa_action :: string
  fa_version :: "int option"
  fa_revision :: "int option"
  fa_actor_id :: string
  fa_principal_kind :: string
  fa_reason :: "string option"
  fa_expected_generation :: int
  fa_resulting_generation :: int

record f13_request_row =
  fr_idempotency_key :: string
  fr_action :: string
  fr_request_sha256 :: string
  fr_result :: json

text \<open>The rows of the alert and release intake that a merge event quotes: an opening identity, the
  attached deliveries and the release links.\<close>

record alert_identity_row =
  ai_delivery_key :: string
  ai_fingerprint :: string
  ai_starts_at :: time
  ai_starts_at_raw :: string
  ai_incident_id :: uuid
  ai_run_id :: "uuid option"
  ai_target_id :: "string option"
  ai_namespace :: "string option"
  ai_workload :: "string option"
  ai_handoff_reason :: "string option"

record alert_delivery_row =
  ad_delivery_id :: int
  ad_delivery_key :: string
  ad_fingerprint :: string
  ad_starts_at :: time
  ad_starts_at_raw :: string
  ad_status :: string
  ad_outcome :: string
  ad_incident_id :: "uuid option"
  ad_actor :: string
  ad_received_at :: time
  ad_raw_sha256 :: string
  ad_annotations_sha256 :: string
  ad_annotation_revision :: int
  ad_alert_json :: string
  ad_truncated :: bool

record release_link_row =
  rl_incident_id :: uuid
  rl_related_incident_id :: "uuid option"
  rl_observation_id :: uuid
  rl_consumed_at :: time
  rl_disposition :: string

record db =
  db_runs :: "run_row list"
  db_incidents :: "incident_row list"
  db_global_suspended :: bool
  db_global_generation :: int
  db_targets :: "target_row list"
  db_target_suspensions :: "target_suspension_row list"
  db_suspension_audit :: "suspension_audit_row list"
  db_steps :: "step_row list"
  db_controls :: "control_row list"
  db_inputs :: "input_row list"
  db_rounds :: "round_row list"
  db_reservations :: "reservation_row list"
  db_charges :: "charge_row list"
  db_sessions :: "session_row list"
  db_endings :: "ending_row list"
  db_samples :: "sample_row list"
  db_profiles :: "profile_row list"
  db_self_heal :: "self_heal_row list"
  db_events :: "subject_event_row list"
  db_outbox :: "outbox_row list"
  db_outbox_seq :: int
  db_evidence :: "evidence_row list"
  db_postmortems :: "postmortem_row list"
  db_postmortem_versions :: "postmortem_version_row list"
  db_conclusions :: "conclusion_row list"
  db_disputes :: "dispute_row list"
  db_proposals :: "proposal_row list"
  db_entries :: "entry_row list"
  db_revisions :: "revision_row list"
  db_revocations :: "revocation_row list"
  db_generation_jobs :: "generation_job_row list"
  db_f13_audit :: "f13_audit_row list"
  db_f13_requests :: "f13_request_row list"
  db_alert_identities :: "alert_identity_row list"
  db_alert_deliveries :: "alert_delivery_row list"
  db_alert_seq :: int
  db_release_links :: "release_link_row list"
  db_web_ledger :: "((string \<times> string) \<times> json) list"

text \<open>The database as the migrations leave it.\<close>

definition initial_db :: db where
  "initial_db = \<lparr>db_runs = [], db_incidents = [], db_global_suspended = False, db_global_generation = 0,
     db_targets = [], db_target_suspensions = [], db_suspension_audit = [], db_steps = [], db_controls = [],
     db_inputs = [], db_rounds = [], db_reservations = [], db_charges = [], db_sessions = [], db_endings = [],
     db_samples = [], db_profiles = [], db_self_heal = [], db_events = [],
     db_outbox = [], db_outbox_seq = 0, db_evidence = [], db_postmortems = [], db_postmortem_versions = [],
     db_conclusions = [], db_disputes = [], db_proposals = [], db_entries = [], db_revisions = [], db_revocations = [],
     db_generation_jobs = [],
     db_f13_audit = [], db_f13_requests = [], db_alert_identities = [], db_alert_deliveries = [],
     db_alert_seq = 0, db_release_links = [], db_web_ledger = []\<rparr>"

subsection \<open>What an operation reads from outside\<close>

record env =
  env_now :: time
  env_later :: time
  env_uuid4 :: "nat \<Rightarrow> uuid"
  env_uuid5 :: "string \<Rightarrow> uuid"
  env_sha256 :: "string \<Rightarrow> string"
  env_json_sha256 :: "json \<Rightarrow> string"
  env_canonical :: "json \<Rightarrow> string"
  env_json_loads :: "string \<Rightarrow> json option"
  env_image_version :: string
  env_image_revision :: string

text \<open>An environment for the concrete examples: the clock shows \<open>t\<close>, fresh UUIDs count up from \<open>n\<close>.\<close>

definition example_env :: "time \<Rightarrow> uuid \<Rightarrow> env" where
  "example_env t n = \<lparr>env_now = t, env_later = t, env_uuid4 = (\<lambda>k. n + k), env_uuid5 = (\<lambda>s. n),
     env_sha256 = (\<lambda>s. replicate 64 (CHR ''0'')), env_json_sha256 = (\<lambda>j. replicate 64 (CHR ''0'')), env_canonical = (\<lambda>j. []), env_json_loads = (\<lambda>s. None),
      env_image_version = ''0.1.0'', env_image_revision = ''abc''\<rparr>"

text \<open>The text form of a UUID: 32 hexadecimal digits in groups of 8, 4, 4, 4 and 12.\<close>

definition hex_char :: "nat \<Rightarrow> char" where
  "hex_char d = ''0123456789abcdef'' ! d"

definition hex_digits :: "nat \<Rightarrow> nat \<Rightarrow> string" where
  "hex_digits n v = map (\<lambda>i. hex_char (v div 16 ^ (n - 1 - i) mod 16)) [0..<n]"

definition uuid_str :: "uuid \<Rightarrow> string" where
  "uuid_str u = (let h = hex_digits 32 u in
     take 8 h @ ''-'' @ take 4 (drop 8 h) @ ''-'' @ take 4 (drop 12 h) @ ''-'' @
     take 4 (drop 16 h) @ ''-'' @ drop 20 h)"

lemma length_uuid_str [simp]: "length (uuid_str u) = 36"
  by (simp add: uuid_str_def hex_digits_def Let_def)

text \<open>An instant in UTC, as \<open>datetime.isoformat()\<close> and the trigger's \<open>to_char\<close> render it: the proleptic
  Gregorian date of the day number, then the time of day; Python leaves out a zero fraction.\<close>

definition civil_date :: "int \<Rightarrow> int \<times> int \<times> int" where
  "civil_date days = (let z = days + 719468; era = z div 146097; doe = z mod 146097;
      yoe = (doe - doe div 1460 + doe div 36524 - doe div 146096) div 365;
      doy = doe - (365 * yoe + yoe div 4 - yoe div 100);
      mp = (5 * doy + 2) div 153;
      m = (if mp < 10 then mp + 3 else mp - 9)
    in (yoe + era * 400 + (if m \<le> 2 then 1 else 0), m, doy - (153 * mp + 2) div 5 + 1))"

definition padded :: "nat \<Rightarrow> int \<Rightarrow> string" where
  "padded w n = (let s = string_of_int n in replicate (w - length s) (CHR ''0'') @ s)"

definition iso_seconds :: "time \<Rightarrow> string" where
  "iso_seconds t = (let (y, m, d) = civil_date (t div 86400000000); s = t mod 86400000000 div 1000000 in
     padded 4 y @ ''-'' @ padded 2 m @ ''-'' @ padded 2 d @ ''T'' @
     padded 2 (s div 3600) @ '':'' @ padded 2 (s div 60 mod 60) @ '':'' @ padded 2 (s mod 60))"

definition iso_fraction :: "time \<Rightarrow> string" where
  "iso_fraction t = CHR ''.'' # padded 6 (t mod 1000000)"

definition isoformat_utc :: "time \<Rightarrow> string" where
  "isoformat_utc t = iso_seconds t @ (if t mod 1000000 = 0 then [] else iso_fraction t) @ ''+00:00''"

definition to_char_utc :: "time \<Rightarrow> string" where
  "to_char_utc t = iso_seconds t @ iso_fraction t @ ''+00:00''"

lemma iso_example: "isoformat_utc 1785543305000042 = ''2026-08-01T00:15:05.000042+00:00''"
  by code_simp

text \<open>Every instant of the years 1 to 9999 renders to a short text.\<close>

lemma abs_div_bound:
  fixes a d n :: int
  assumes "0 < d" "\<bar>a\<bar> \<le> d * n"
  shows "\<bar>a div d\<bar> \<le> n"
proof -
  from assms(2) have "d * - n \<le> a" "a \<le> d * n" by auto
  from this [THEN zdiv_mono1, OF assms(1)]
  have "d * - n div d \<le> a div d" "a div d \<le> d * n div d" .
  then have "- n \<le> a div d" "a div d \<le> n" using assms(1) nonzero_mult_div_cancel_left [of d "- n"] by auto
  then show ?thesis by simp
qed

lemma length_decimal: "0 < k \<Longrightarrow> n < 10 ^ k \<Longrightarrow> length (decimal n) \<le> k"
proof (induction n arbitrary: k rule: decimal.induct)
  case (1 n)
  show ?case
  proof (cases "n div 10 = 0")
    case True
    with 1 show ?thesis by (simp add: decimal.simps [of n])
  next
    case False
    with 1 obtain j where j: "k = Suc j" "0 < j"
      by (cases k; cases "k - 1") auto
    with 1(3) have "n div 10 < 10 ^ j" by (simp add: less_mult_imp_div_less mult.commute)
    with 1(1) [OF refl refl _ j(2)] False j show ?thesis by (simp add: decimal.simps [of n])
  qed
qed

lemma length_padded:
  assumes "0 < k" "\<bar>n\<bar> < 10 ^ k"
  shows "length (padded w n) \<le> max w (k + 1)"
proof -
  have "nat \<bar>n\<bar> < 10 ^ k" using assms(2) by (simp add: nat_less_iff)
  then have "length (string_of_int n) \<le> k + 1"
    using length_decimal [OF assms(1), of "nat \<bar>n\<bar>"] by (auto simp: string_of_int_def string_of_nat_def)
  then show ?thesis by (simp add: padded_def Let_def)
qed

lemma civil_date_bounds:
  assumes "civil_date days = (y, m, d)" and "\<bar>days\<bar> < 3000000"
  shows "\<bar>y\<bar> < 10 ^ 5 \<and> \<bar>m\<bar> < 10 ^ 5 \<and> \<bar>d\<bar> < 10 ^ 6"
proof -
  define z where "z = days + 719468"
  define era where "era = z div 146097"
  define doe where "doe = z mod 146097"
  define yoe where "yoe = (doe - doe div 1460 + doe div 36524 - doe div 146096) div 365"
  define doy where "doy = doe - (365 * yoe + yoe div 4 - yoe div 100)"
  define mp where "mp = (5 * doy + 2) div 153"
  have z: "\<bar>z\<bar> < 4000000" using assms(2) by (simp add: z_def)
  then have era: "\<bar>era\<bar> \<le> 40" unfolding era_def by (intro abs_div_bound) auto
  have doe: "0 \<le> doe \<and> doe < 146097" by (simp add: doe_def)
  define a where "a = doe div 1460"
  define b where "b = doe div 36524"
  define c where "c = doe div 146096"
  have "\<bar>a\<bar> \<le> 101" "\<bar>b\<bar> \<le> 4" "\<bar>c\<bar> \<le> 2"
    unfolding a_def b_def c_def using doe by (auto intro!: abs_div_bound)
  with doe have "\<bar>doe - a + b - c\<bar> \<le> 365 * 410" by linarith
  then have yoe: "\<bar>yoe\<bar> \<le> 410"
    unfolding yoe_def a_def b_def c_def by (rule abs_div_bound [rotated]) simp
  then have "\<bar>yoe div 4\<bar> \<le> 103" "\<bar>yoe div 100\<bar> \<le> 5" by (auto intro!: abs_div_bound)
  then obtain u v where uv: "yoe div 4 = u" "yoe div 100 = v" "\<bar>u\<bar> \<le> 103" "\<bar>v\<bar> \<le> 5" by blast
  have doy: "\<bar>doy\<bar> \<le> 400000" unfolding doy_def uv(1,2) using uv(3,4) yoe doe by linarith
  then have mp: "\<bar>mp\<bar> \<le> 14000" unfolding mp_def by (intro abs_div_bound) linarith+
  then have dd: "\<bar>(153 * mp + 2) div 5\<bar> \<le> 450000" by (intro abs_div_bound) linarith+
  have "y = yoe + era * 400 + (if (if mp < 10 then mp + 3 else mp - 9) \<le> 2 then 1 else 0)"
    "m = (if mp < 10 then mp + 3 else mp - 9)" "d = doy - (153 * mp + 2) div 5 + 1"
    using assms(1) unfolding civil_date_def Let_def z_def [symmetric] era_def [symmetric]
      doe_def [symmetric] yoe_def [symmetric] doy_def [symmetric] mp_def [symmetric] prod.inject
    by (elim conjE; elim sym)+
  moreover obtain q where "(153 * mp + 2) div 5 = q" "\<bar>q\<bar> \<le> 450000" using dd by blast
  ultimately show ?thesis using era yoe mp doy by (simp add: abs_le_iff abs_less_iff)
qed

lemma length_isoformat_utc:
  assumes "\<bar>t\<bar> < 253402300800000000"
  shows "length (isoformat_utc t) \<le> 64" "length (to_char_utc t) \<le> 64"
proof -
  have "\<bar>t div 86400000000\<bar> \<le> 2999999" using assms by (intro abs_div_bound) auto
  then have days: "\<bar>t div 86400000000\<bar> < 3000000" by simp
  obtain y m d where c: "civil_date (t div 86400000000) = (y, m, d)" by (cases "civil_date (t div 86400000000)")
  define s where "s = t mod 86400000000 div 1000000"
  have "\<bar>s\<bar> \<le> 86400" unfolding s_def
    by (intro abs_div_bound) (use pos_mod_bound [of 86400000000 t] pos_mod_sign [of 86400000000 t] in auto)
  then have s: "\<bar>s div 3600\<bar> \<le> 24" by (intro abs_div_bound) auto
  have f: "\<bar>t mod 1000000\<bar> < 10 ^ 6" by simp
  from civil_date_bounds [OF c days]
  have b: "length (padded 4 y) \<le> 6" "length (padded 2 m) \<le> 6" "length (padded 2 d) \<le> 7"
    using length_padded [of 5 y 4] length_padded [of 5 m 2] length_padded [of 6 d 2] by auto
  have "\<bar>s div 3600\<bar> < 10 ^ 2" "\<bar>s div 60 mod 60\<bar> < 10 ^ 2" "\<bar>s mod 60\<bar> < 10 ^ 2"
    using s by auto
  then have h: "length (padded 2 (s div 3600)) \<le> 3" "length (padded 2 (s div 60 mod 60)) \<le> 3"
     "length (padded 2 (s mod 60)) \<le> 3"
    using length_padded [of 2 "s div 3600" 2] length_padded [of 2 "s div 60 mod 60" 2]
      length_padded [of 2 "s mod 60" 2] by auto
  have fr: "length (padded 6 (t mod 1000000)) \<le> 7" using length_padded [of 6 "t mod 1000000" 6, OF _ f] by simp
  from b h fr show "length (isoformat_utc t) \<le> 64" "length (to_char_utc t) \<le> 64"
    by (simp_all add: isoformat_utc_def to_char_utc_def iso_seconds_def iso_fraction_def c Let_def s_def [symmetric])
qed

subsection \<open>Transactions\<close>

type_synonym 'a tx = "perr + 'a \<times> db"
type_synonym 'a outcome = "(perr + 'a) \<times> db"

definition transaction :: "db \<Rightarrow> 'a tx \<Rightarrow> 'a outcome" where
  "transaction db r = (case r of Inl e \<Rightarrow> (Inl e, db) | Inr (x, db') \<Rightarrow> (Inr x, db'))"

lemma transaction_simps [simp]:
  "transaction db (Inl e) = (Inl e, db)"
  "transaction db (Inr (x, db')) = (Inr x, db')"
  by (simp_all add: transaction_def)

lemma transaction_Inr_iff [simp]:
  "transaction db r = (Inr x, db') \<longleftrightarrow> r = Inr (x, db')"
  by (auto simp: transaction_def split: sum.splits)

lemma transaction_rollback: "transaction db r = (Inl e, db') \<Longrightarrow> db' = db"
  by (auto simp: transaction_def split: sum.splits)

lemma snd_transaction:
  "snd (transaction db r) = (case r of Inl e \<Rightarrow> db | Inr (x, db') \<Rightarrow> db')"
  by (auto simp: transaction_def split: sum.splits)

text \<open>An \<open>INSERT\<close> into a table with a primary key: a duplicate key is a \<open>UniqueViolation\<close>, which the
  store reports as \<open>IDENTITY_CONFLICT\<close>.\<close>

definition insert_row :: "('r \<Rightarrow> 'k) \<Rightarrow> 'r \<Rightarrow> 'r list \<Rightarrow> perr + 'r list" where
  "insert_row key r t = (if key r \<in> key ` set t then Inl E_IDENTITY_CONFLICT else Inr (t @ [r]))"

lemma insert_row_Inr_iff:
  "insert_row key r t = Inr t' \<longleftrightarrow> key r \<notin> key ` set t \<and> t' = t @ [r]"
  by (auto simp: insert_row_def)

subsection \<open>The lease fence\<close>

record Lease =
  le_incident_id :: uuid
  le_run_id :: uuid
  le_owner :: uuid
  le_epoch :: int
  le_control_generation :: int
  le_global_suspension_generation :: int
  le_target_suspension_generation :: int

record scope_row =
  sc_global_suspended :: bool
  sc_global_generation :: int
  sc_target_suspended :: bool
  sc_target_generation :: int

abbreviation find_run :: "uuid \<Rightarrow> db \<Rightarrow> run_row option" where
  "find_run k db \<equiv> find_row rr_run_id k (db_runs db)"

abbreviation find_incident :: "uuid \<Rightarrow> db \<Rightarrow> incident_row option" where
  "find_incident k db \<equiv> find_row ir_incident_id k (db_incidents db)"

abbreviation find_suspension :: "uuid \<Rightarrow> db \<Rightarrow> target_suspension_row option" where
  "find_suspension k db \<equiv> find_row ts_target_id k (db_target_suspensions db)"

text \<open>The scope columns of the fenced \<open>SELECT\<close>: the global row joined with the suspension row of the
  incident's target, \<open>COALESCE\<close>d to false and 0 when there is none.\<close>

definition joined_scope :: "db \<Rightarrow> incident_row \<Rightarrow> scope_row" where
  "joined_scope db i =
     (let ts = Option.bind (ir_target_id i) (\<lambda>t. find_suspension t db) in
      \<lparr>sc_global_suspended = db_global_suspended db, sc_global_generation = db_global_generation db,
       sc_target_suspended = (case ts of None \<Rightarrow> False | Some r \<Rightarrow> ts_suspended r),
       sc_target_generation = (case ts of None \<Rightarrow> 0 | Some r \<Rightarrow> ts_generation r)\<rparr>)"

text \<open>\<open>SELECT \<dots> FROM opspilot_runs r JOIN opspilot_incidents i \<dots> WHERE r.run_id = %s\<close>.\<close>

definition run_join :: "db \<Rightarrow> uuid \<Rightarrow> (run_row \<times> incident_row) option" where
  "run_join db run_id = Option.bind (find_run run_id db)
     (\<lambda>r. map_option (\<lambda>i. (r, i)) (find_incident (rr_incident_id r) db))"

definition lease_revoked :: "run_row \<Rightarrow> incident_row \<Rightarrow> scope_row \<Rightarrow> Lease \<Rightarrow> time \<Rightarrow> bool" where
  "lease_revoked r i sc lease now \<longleftrightarrow>
     rr_owner r \<noteq> Some (le_owner lease)
     \<or> rr_epoch r \<noteq> le_epoch lease
     \<or> ir_control_generation i \<noteq> le_control_generation lease
     \<or> (case rr_lease_until r of None \<Rightarrow> True | Some u \<Rightarrow> u \<le> now)
     \<or> rr_deadline r \<le> now
     \<or> sc_global_suspended sc
     \<or> sc_target_suspended sc
     \<or> sc_global_generation sc \<noteq> le_global_suspension_generation lease
     \<or> sc_target_generation sc \<noteq> le_target_suspension_generation lease"

definition incident_target :: "db \<Rightarrow> uuid option \<Rightarrow> uuid option" where
  "incident_target db incident_id =
     Option.bind incident_id (\<lambda>k. Option.bind (find_incident k db) ir_target_id)"

definition lock_scope :: "db \<Rightarrow> uuid option \<Rightarrow> uuid list \<Rightarrow> perr + scope_row" where
  "lock_scope db incident_id extra =
     (let current = incident_target db incident_id;
          locked = (case current of None \<Rightarrow> extra | Some t \<Rightarrow> t # extra)
      in if (\<exists>t \<in> set locked. find_suspension t db = None) then Inl E_INCONSISTENT_STATE
         else Inr \<lparr>sc_global_suspended = db_global_suspended db,
                   sc_global_generation = db_global_generation db,
                   sc_target_suspended = (case Option.bind current (\<lambda>t. find_suspension t db) of
                      None \<Rightarrow> False | Some r \<Rightarrow> ts_suspended r),
                   sc_target_generation = (case Option.bind current (\<lambda>t. find_suspension t db) of
                      None \<Rightarrow> 0 | Some r \<Rightarrow> ts_generation r)\<rparr>)"

text \<open>The fence every lease-holding write starts with: lock the scope, read the Run with its incident
  and refuse a revoked lease.\<close>

definition lease_valid :: "db \<Rightarrow> Lease \<Rightarrow> time \<Rightarrow> bool" where
  "lease_valid db lease now \<longleftrightarrow> (case run_join db (le_run_id lease) of
      None \<Rightarrow> False
    | Some (r, i) \<Rightarrow> \<not> lease_revoked r i (joined_scope db i) lease now)"

lemma run_join_SomeD:
  "run_join db k = Some (r, i) \<Longrightarrow>
     find_run k db = Some r \<and> rr_run_id r = k \<and> find_incident (rr_incident_id r) db = Some i
     \<and> ir_incident_id i = rr_incident_id r"
  by (auto simp: run_join_def bind_eq_Some_conv dest: find_row_key)

lemma run_join_Some_iff:
  "run_join db k = Some (r, i) \<longleftrightarrow>
     find_run k db = Some r \<and> find_incident (rr_incident_id r) db = Some i"
  by (auto simp: run_join_def bind_eq_Some_conv)

lemma lock_scope_joined:
  assumes "lock_scope db (Some k) ex = Inr sc" and "find_incident k db = Some i"
  shows "sc = joined_scope db i"
  using assms by (auto simp: lock_scope_def joined_scope_def incident_target_def Let_def split: if_splits)

end
