(* ===== verification/Store_Outbox.thy ===== *)
theory Store_Outbox
  imports Store_Base
begin

section \<open>The trace outbox (\<open>persistence/outbox.py\<close>, migration 0024)\<close>

text \<open>
  The write side: \<open>build_payload\<close> keeps only the allowlisted keys of the named fields, each value in
  the shape its key admits; \<open>insert_entry\<close> adds a row once per idempotency key; the trigger of
  migration 0024 (\<open>trace_run_state\<close>) adds one row per change of a Run's state, and \<open>update_runs\<close> is an
  \<open>UPDATE opspilot_runs\<close> with that trigger. The delivery side: \<open>claim_outbox\<close>, \<open>mark_delivered\<close>,
  \<open>mark_dropped\<close>, \<open>schedule_retry\<close>, \<open>trim_backlog\<close> and \<open>purge_expired\<close>.

  A regular expression is a predicate on the characters. The table's \<open>CHECK\<close> on the payload size is
  not a branch of the model; that every payload satisfies it is what the bounds on keys and
  strings below are for. The identity column counts inserted rows.
\<close>

subsection \<open>Shapes of values\<close>

definition PAYLOAD_KEYS :: "string list" where
  "PAYLOAD_KEYS = [''incident_id'', ''run_id'', ''step_id'', ''attempt_id'', ''image_version'',
     ''image_revision'', ''prompt_revision'', ''tool_schema_revision'', ''context_policy_revision'',
     ''model'', ''span_kind'', ''started_at'', ''ended_at'', ''input_tokens'', ''output_tokens'',
     ''total_tokens'', ''reasoning_tokens'', ''finish_reason'', ''run_state'', ''handoff_reason'',
     ''tool_status_class'', ''tool_reason'', ''tool_name'', ''source_contact'', ''budget_seconds'']"

definition KINDS :: "string list" where
  "KINDS = [''run_state'', ''model_step'', ''tool_result'', ''generation'']"

definition RETENTION :: time where "RETENTION = 7 * 86400 * 1000000"
definition CLAIM_LEASE :: time where "CLAIM_LEASE = 30 * 1000000"
definition UNCLASSIFIED :: string where "UNCLASSIFIED = ''UNCLASSIFIED''"

definition in_range :: "nat \<Rightarrow> nat \<Rightarrow> char \<Rightarrow> bool" where
  "in_range a b c \<longleftrightarrow> a \<le> of_char c \<and> of_char c \<le> b"

definition is_upper :: "char \<Rightarrow> bool" where "is_upper c = in_range 65 90 c"
definition is_lower :: "char \<Rightarrow> bool" where "is_lower c = in_range 97 122 c"
definition is_digit :: "char \<Rightarrow> bool" where "is_digit c = in_range 48 57 c"
definition is_alnum :: "char \<Rightarrow> bool" where "is_alnum c \<longleftrightarrow> is_upper c \<or> is_lower c \<or> is_digit c"

text \<open>\<open>shape first rest lo hi\<close> is the expression \<open>^[first][rest]{lo,hi}$\<close>.\<close>

definition shape :: "(char \<Rightarrow> bool) \<Rightarrow> (char \<Rightarrow> bool) \<Rightarrow> nat \<Rightarrow> nat \<Rightarrow> string \<Rightarrow> bool" where
  "shape first rest lo hi s = (case s of [] \<Rightarrow> False
     | c # cs \<Rightarrow> first c \<and> list_all rest cs \<and> lo \<le> length cs \<and> length cs \<le> hi)"

definition CODE_shape :: "string \<Rightarrow> bool" where
  "CODE_shape = shape is_upper (\<lambda>c. is_upper c \<or> is_digit c \<or> c = CHR ''_'') 1 63"

definition FINISH_shape :: "string \<Rightarrow> bool" where
  "FINISH_shape = shape is_lower (\<lambda>c. is_lower c \<or> is_digit c \<or> c = CHR ''_'') 0 31"

definition IDENTIFIER :: "string \<Rightarrow> bool" where
  "IDENTIFIER = shape is_alnum (\<lambda>c. is_alnum c \<or> c \<in> set ''._-'') 0 63"

definition TOOL_NAME_shape :: "string \<Rightarrow> bool" where
  "TOOL_NAME_shape = shape is_lower (\<lambda>c. is_lower c \<or> is_digit c \<or> c = CHR ''_'') 0 63"

definition KEY_PART_shape :: "string \<Rightarrow> bool" where
  "KEY_PART_shape = (let ok = (\<lambda>c. is_alnum c \<or> c \<in> set ''_.#-'') in shape ok ok 0 63)"

definition RUN_STATES :: "string list" where
  "RUN_STATES = [''queued'', ''running'', ''waiting_human'', ''paused'', ''blocked'', ''completed'',
     ''failed'', ''cancelled'', ''budget_exhausted'']"

definition TOOL_STATUSES :: "string list" where
  "TOOL_STATUSES = [''ok'', ''no_data'', ''error'', ''timeout'', ''denied'']"

definition SOURCE_CONTACTS :: "string list" where
  "SOURCE_CONTACTS = [''none'', ''possible'', ''confirmed'']"

text \<open>A value a caller passes as a payload field: a UUID, a datetime or a JSON value (\<open>None\<close> is \<open>JNull\<close>).\<close>

datatype field_value = FV_uuid uuid | FV_datetime time | FV_naive_datetime | FV_json json

definition closed_value :: "field_value \<Rightarrow> string list \<Rightarrow> string" where
  "closed_value v allowed = (case v of
      FV_json (JStr s) \<Rightarrow> if s \<in> set allowed then s else UNCLASSIFIED
    | _ \<Rightarrow> UNCLASSIFIED)"

definition shaped_value :: "field_value \<Rightarrow> (string \<Rightarrow> bool) \<Rightarrow> string" where
  "shaped_value v sh = (case v of
      FV_json (JStr s) \<Rightarrow> if sh s then s else UNCLASSIFIED
    | _ \<Rightarrow> UNCLASSIFIED)"

text \<open>\<open>UUID(value)\<close> of a text: drop \<open>urn:\<close>, \<open>uuid:\<close>, surrounding braces and hyphens, then exactly 32
  characters that \<open>int(\<dots>, 16)\<close> reads.\<close>

fun replace_all :: "string \<Rightarrow> string \<Rightarrow> string" where
  "replace_all pat [] = []"
| "replace_all pat (c # cs) =
     (if pat \<noteq> [] \<and> take (length pat) (c # cs) = pat then replace_all pat (drop (length pat - 1) cs)
      else c # replace_all pat cs)"

definition strip :: "(char \<Rightarrow> bool) \<Rightarrow> string \<Rightarrow> string" where
  "strip P s = rev (dropWhile P (rev (dropWhile P s)))"

definition hex_value :: "char \<Rightarrow> nat option" where
  "hex_value c = (let n = of_char c in
     if is_digit c then Some (n - 48)
     else if in_range 97 102 c then Some (n - 87)
     else if in_range 65 70 c then Some (n - 55) else None)"

text \<open>Digits with single underscores between them.\<close>

fun hex_run :: "bool \<Rightarrow> nat \<Rightarrow> string \<Rightarrow> nat option" where
  "hex_run after_digit v [] = (if after_digit then Some v else None)"
| "hex_run after_digit v (c # cs) =
     (if c = CHR ''_'' then (if after_digit then hex_run False v cs else None)
      else case hex_value c of None \<Rightarrow> None | Some d \<Rightarrow> hex_run True (16 * v + d) cs)"

definition is_space :: "char \<Rightarrow> bool" where
  "is_space c \<longleftrightarrow> (let n = of_char c :: nat in n = 32 \<or> (9 \<le> n \<and> n \<le> 13) \<or> (28 \<le> n \<and> n \<le> 31))"

definition int16 :: "string \<Rightarrow> int option" where
  "int16 s =
     (let t = strip is_space s;
          (neg, u) = (case t of c # cs \<Rightarrow> if c = CHR ''-'' then (True, cs)
                        else if c = CHR ''+'' then (False, cs) else (False, t) | [] \<Rightarrow> (False, []));
          w = (if take 2 u = ''0x'' \<or> take 2 u = ''0X''
               then (if take 1 (drop 2 u) = ''_'' then drop 3 u else drop 2 u) else u)
      in map_option (\<lambda>n. if neg then - int n else int n) (hex_run False 0 w))"

definition parse_uuid :: "string \<Rightarrow> uuid option" where
  "parse_uuid s =
     (let h = replace_all ''-'' (strip (\<lambda>c. c \<in> set ''{}'')
                (replace_all ''uuid:'' (replace_all ''urn:'' s)))
      in if length h \<noteq> 32 then None
         else case int16 h of None \<Rightarrow> None | Some i \<Rightarrow> if 0 \<le> i then Some (nat i) else None)"

definition id_value :: "field_value \<Rightarrow> json option" where
  "id_value v = (case v of
      FV_uuid u \<Rightarrow> Some (JStr (uuid_str u))
    | FV_json (JStr s) \<Rightarrow> map_option (\<lambda>u. JStr (uuid_str u)) (parse_uuid s)
    | _ \<Rightarrow> None)"

definition time_value :: "field_value \<Rightarrow> json option" where
  "time_value v = (case v of FV_datetime t \<Rightarrow> Some (JStr (isoformat_utc t)) | _ \<Rightarrow> None)"

definition MAX_NUMBER :: int where "MAX_NUMBER = 2 ^ 53"

definition number_value :: "field_value \<Rightarrow> json option" where
  "number_value v = (case v of
      FV_json (JInt i) \<Rightarrow> if \<bar>i\<bar> > MAX_NUMBER then None else Some (JInt i)
    | FV_json (JFloat x) \<Rightarrow> if \<bar>x\<bar> > of_int MAX_NUMBER then None else Some (JFloat x)
    | _ \<Rightarrow> None)"

definition key_part :: "env \<Rightarrow> string \<Rightarrow> string" where
  "key_part e v = (if KEY_PART_shape v then v else ''sha256-'' @ take 32 (env_sha256 e v))"

subsection \<open>The payload\<close>

text \<open>The chain of tests on the key, as the table of the keys each test names (\<open>_IDS\<close>, \<open>_TIMES\<close>,
  \<open>_NUMBERS\<close>, \<open>_IDENTIFIERS\<close>, \<open>_CODES\<close> and the single keys).\<close>

datatype value_kind = VK_id | VK_time | VK_number | VK_identifier | VK_code | VK_finish | VK_tool_name
  | VK_run_state | VK_tool_status | VK_source_contact | VK_span_kind

definition value_kinds :: "(string \<times> value_kind) list" where
  "value_kinds =
     [(''incident_id'', VK_id), (''run_id'', VK_id), (''step_id'', VK_id), (''attempt_id'', VK_id),
      (''started_at'', VK_time), (''ended_at'', VK_time),
      (''input_tokens'', VK_number), (''output_tokens'', VK_number), (''total_tokens'', VK_number),
      (''reasoning_tokens'', VK_number), (''budget_seconds'', VK_number),
      (''image_version'', VK_identifier), (''image_revision'', VK_identifier),
      (''prompt_revision'', VK_identifier), (''tool_schema_revision'', VK_identifier),
      (''context_policy_revision'', VK_identifier), (''model'', VK_identifier),
      (''handoff_reason'', VK_code), (''tool_reason'', VK_code), (''finish_reason'', VK_finish),
      (''tool_name'', VK_tool_name), (''run_state'', VK_run_state), (''tool_status_class'', VK_tool_status),
      (''source_contact'', VK_source_contact), (''span_kind'', VK_span_kind)]"

definition tool_name_value :: "field_value \<Rightarrow> json option" where
  "tool_name_value v = (case v of
      FV_json (JStr s) \<Rightarrow> if TOOL_NAME_shape s then Some (JStr s) else None | _ \<Rightarrow> None)"

fun kept_value :: "value_kind \<Rightarrow> field_value \<Rightarrow> json option" where
  "kept_value VK_id v = id_value v"
| "kept_value VK_time v = time_value v"
| "kept_value VK_number v = number_value v"
| "kept_value VK_identifier v = Some (JStr (shaped_value v IDENTIFIER))"
| "kept_value VK_code v = Some (JStr (shaped_value v CODE_shape))"
| "kept_value VK_finish v = Some (JStr (shaped_value v FINISH_shape))"
| "kept_value VK_tool_name v = tool_name_value v"
| "kept_value VK_run_state v = Some (JStr (closed_value v RUN_STATES))"
| "kept_value VK_tool_status v = Some (JStr (closed_value v TOOL_STATUSES))"
| "kept_value VK_source_contact v = Some (JStr (closed_value v SOURCE_CONTACTS))"
| "kept_value VK_span_kind v = Some (JStr (closed_value v KINDS))"

definition payload_value :: "string \<Rightarrow> field_value \<Rightarrow> json option" where
  "payload_value k v = Option.bind (map_of value_kinds k) (\<lambda>kind. kept_value kind v)"

type_synonym fields = "(string \<times> field_value) list"

fun build_payload :: "fields \<Rightarrow> (string, json) fmap" where
  "build_payload [] = fmempty"
| "build_payload ((k, v) # rest) =
     (let payload = build_payload rest in
      if k \<notin> set PAYLOAD_KEYS \<or> v = FV_json JNull then payload
      else case payload_value k v of None \<Rightarrow> payload | Some kept \<Rightarrow> fmupd k kept payload)"

text \<open>\<open>{**a, **b}\<close>: a key of \<open>b\<close> hides the same key of \<open>a\<close>.\<close>

definition dict_merge :: "('k \<times> 'v) list \<Rightarrow> ('k \<times> 'v) list \<Rightarrow> ('k \<times> 'v) list" where
  "dict_merge a b = filter (\<lambda>(k, v). k \<notin> fst ` set b) a @ b"

definition image_fields :: "env \<Rightarrow> fields" where
  "image_fields e = [(''image_version'', FV_json (JStr (env_image_version e))),
     (''image_revision'', FV_json (JStr (if env_image_revision e = [] then ''unknown'' else env_image_revision e)))]"

definition opt_str :: "string option \<Rightarrow> json" where
  "opt_str s = (case s of None \<Rightarrow> JNull | Some t \<Rightarrow> JStr t)"

definition revisions :: "(string, string) fmap \<Rightarrow> fields" where
  "revisions versions = map (\<lambda>k. (k, FV_json (opt_str (fmlookup versions k))))
     [''prompt_revision'', ''tool_schema_revision'', ''context_policy_revision'']"

subsection \<open>Inserting a row\<close>

definition outbox_add :: "env \<Rightarrow> string \<Rightarrow> uuid \<Rightarrow> uuid option \<Rightarrow> string \<Rightarrow> (string, json) fmap \<Rightarrow> db \<Rightarrow> db" where
  "outbox_add e key incident_id run_id kind payload db =
     (if key \<in> ob_idempotency_key ` set (db_outbox db) then db
      else db\<lparr>db_outbox := db_outbox db @ [\<lparr>ob_entry_id = db_outbox_seq db + 1, ob_idempotency_key = key,
              ob_incident_id = incident_id, ob_run_id = run_id, ob_kind = kind, ob_payload = payload,
              ob_state = OX_pending, ob_attempts = 0, ob_next_attempt_at = None, ob_drop_reason = None,
              ob_created_at = env_later e, ob_finalized_at = None\<rparr>],
              db_outbox_seq := db_outbox_seq db + 1\<rparr>)"

definition bounded_key :: "env \<Rightarrow> string \<Rightarrow> string \<Rightarrow> string" where
  "bounded_key e kind key = (if length key > 256 then kind @ '':'' @ key_part e key else key)"

definition insert_entry ::
  "env \<Rightarrow> string \<Rightarrow> string \<Rightarrow> uuid \<Rightarrow> uuid option \<Rightarrow> (string, string) fmap \<Rightarrow> fields \<Rightarrow> db \<Rightarrow> perr + db" where
  "insert_entry e kind key incident_id run_id versions fs db =
     (if kind \<notin> set KINDS then Inl E_UNCAUGHT
      else Inr (outbox_add e (bounded_key e kind key) incident_id run_id kind
        (build_payload (dict_merge (dict_merge (image_fields e) (revisions versions))
           (dict_merge [(''span_kind'', FV_json (JStr kind))] fs))) db))"

subsection \<open>The trigger of migration 0024\<close>

fun run_state_str :: "RunExecution \<Rightarrow> string" where
  "run_state_str R_queued = ''queued''"
| "run_state_str R_running = ''running''"
| "run_state_str R_waiting_human = ''waiting_human''"
| "run_state_str R_paused = ''paused''"
| "run_state_str R_blocked = ''blocked''"
| "run_state_str R_completed = ''completed''"
| "run_state_str R_failed = ''failed''"
| "run_state_str R_cancelled = ''cancelled''"
| "run_state_str R_budget_exhausted = ''budget_exhausted''"

definition run_state_key :: "uuid \<Rightarrow> nat \<Rightarrow> string" where
  "run_state_key run_id n = ''run_state:'' @ uuid_str run_id @ '':'' @ string_of_nat n"

definition run_state_pairs :: "env \<Rightarrow> run_row \<Rightarrow> (string \<times> json) list" where
  "run_state_pairs e r =
     [(''incident_id'', JStr (uuid_str (rr_incident_id r))), (''run_id'', JStr (uuid_str (rr_run_id r))),
      (''span_kind'', JStr ''run_state''), (''run_state'', JStr (run_state_str (rr_state r))),
      (''ended_at'', JStr (to_char_utc (env_later e)))] @
     concat (map (\<lambda>k. case fmlookup (rr_versions r) k of None \<Rightarrow> []
        | Some v \<Rightarrow> [(k, JStr (if IDENTIFIER v then v else UNCLASSIFIED))])
       [''prompt_revision'', ''tool_schema_revision'', ''context_policy_revision''])"

definition run_state_body :: "env \<Rightarrow> run_row \<Rightarrow> (string, json) fmap" where
  "run_state_body e r = fmap_of_list (run_state_pairs e r)"

text \<open>The probe: the first ordinal from 1 whose key is free. Among one more ordinals than there are
  rows one is free, so the loop ends within that range (\<open>free_ordinal_exists\<close>).\<close>

definition free_ordinal :: "db \<Rightarrow> uuid \<Rightarrow> nat option" where
  "free_ordinal db run_id =
     List.find (\<lambda>n. run_state_key run_id n \<notin> ob_idempotency_key ` set (db_outbox db))
       [1..<length (db_outbox db) + 2]"

definition trace_run_state :: "env \<Rightarrow> run_row \<Rightarrow> db \<Rightarrow> db" where
  "trace_run_state e r db = (case free_ordinal db (rr_run_id r) of
      None \<Rightarrow> db
    | Some n \<Rightarrow> outbox_add e (run_state_key (rr_run_id r) n) (rr_incident_id r) (Some (rr_run_id r))
                 ''run_state'' (run_state_body e r) db)"

text \<open>\<open>UPDATE opspilot_runs SET f WHERE P\<close>: the rows change, then the trigger runs once per row whose
  state changed.\<close>

definition update_runs :: "env \<Rightarrow> (run_row \<Rightarrow> bool) \<Rightarrow> (run_row \<Rightarrow> run_row) \<Rightarrow> db \<Rightarrow> db" where
  "update_runs e P f db =
     fold (trace_run_state e) (map f (filter (\<lambda>r. P r \<and> rr_state (f r) \<noteq> rr_state r) (db_runs db)))
       (db\<lparr>db_runs := update_where P f (db_runs db)\<rparr>)"

subsection \<open>Cleanup and delivery\<close>

text \<open>\<open>locked\<close> names the rows another transaction holds at that moment, which \<open>SKIP LOCKED\<close> leaves
  alone. A \<open>now\<close> of \<open>None\<close> is the database clock.\<close>

definition purge_keeps :: "time \<Rightarrow> bool \<Rightarrow> outbox_row \<Rightarrow> bool" where
  "purge_keeps cutoff export_enabled r \<longleftrightarrow>
     \<not> ((ob_state r \<in> {OX_delivered, OX_dropped} \<and> (case ob_finalized_at r of None \<Rightarrow> False | Some t \<Rightarrow> t \<le> cutoff))
        \<or> (\<not> export_enabled \<and> ob_state r = OX_pending \<and> ob_created_at r \<le> cutoff))"

definition purge_expired :: "time \<Rightarrow> time \<Rightarrow> bool \<Rightarrow> db \<Rightarrow> nat \<times> db" where
  "purge_expired now retention export_enabled db =
     (let kept = filter (purge_keeps (now - retention) export_enabled) (db_outbox db)
      in (length (db_outbox db) - length kept, db\<lparr>db_outbox := kept\<rparr>))"

definition purge :: "env \<Rightarrow> time \<Rightarrow> bool \<Rightarrow> db \<Rightarrow> nat \<times> db" where
  "purge e retention export_enabled = purge_expired (env_now e) retention export_enabled"

definition count_pending :: "db \<Rightarrow> nat" where
  "count_pending db = length (filter (\<lambda>r. ob_state r = OX_pending) (db_outbox db))"

definition now_or :: "env \<Rightarrow> time option \<Rightarrow> time" where
  "now_or e now = (case now of None \<Rightarrow> env_now e | Some t \<Rightarrow> t)"

text \<open>An \<open>UPDATE\<close> of the outbox returns the number of rows it touched.\<close>

definition outbox_update :: "(outbox_row \<Rightarrow> bool) \<Rightarrow> (outbox_row \<Rightarrow> outbox_row) \<Rightarrow> db \<Rightarrow> nat \<times> db" where
  "outbox_update P f db =
     (length (filter P (db_outbox db)), db\<lparr>db_outbox := update_where P f (db_outbox db)\<rparr>)"

definition drop_row :: "string \<Rightarrow> time \<Rightarrow> outbox_row \<Rightarrow> outbox_row" where
  "drop_row reason at_time r =
     r\<lparr>ob_state := OX_dropped, ob_drop_reason := Some reason, ob_finalized_at := Some at_time\<rparr>"

definition trimmable :: "time \<Rightarrow> time \<Rightarrow> int list \<Rightarrow> outbox_row \<Rightarrow> bool" where
  "trimmable now lease locked r \<longleftrightarrow> ob_state r = OX_pending
     \<and> (case ob_next_attempt_at r of None \<Rightarrow> True | Some t \<Rightarrow> t \<le> now \<or> t > now + lease)
     \<and> ob_entry_id r \<notin> set locked"

definition trim_backlog :: "env \<Rightarrow> nat \<Rightarrow> time option \<Rightarrow> time \<Rightarrow> int list \<Rightarrow> db \<Rightarrow> nat \<times> db" where
  "trim_backlog e limit now lease locked db =
     (if count_pending db \<le> limit then (0, db)
      else let at_time = now_or e now;
               old = take (count_pending db - limit)
                 (sort_key ob_created_at (sort_key ob_entry_id
                   (filter (trimmable at_time lease locked) (db_outbox db))))
           in outbox_update (\<lambda>r. ob_entry_id r \<in> ob_entry_id ` set old) (drop_row ''BACKLOG'' at_time) db)"

record ClaimedRow =
  cl_entry_id :: int
  cl_idempotency_key :: string
  cl_incident_id :: uuid
  cl_run_id :: "uuid option"
  cl_kind :: string
  cl_payload :: "(string, json) fmap"
  cl_attempts :: int
  cl_created_at :: time
  cl_run_started_at :: "time option"

record ClaimResult =
  cr_rows :: "ClaimedRow list"
  cr_exhausted :: nat

definition due :: "time \<Rightarrow> int list \<Rightarrow> outbox_row \<Rightarrow> bool" where
  "due at_time locked r \<longleftrightarrow> ob_state r = OX_pending
     \<and> (case ob_next_attempt_at r of None \<Rightarrow> True | Some t \<Rightarrow> t \<le> at_time) \<and> ob_entry_id r \<notin> set locked"

definition used_up :: "int option \<Rightarrow> outbox_row \<Rightarrow> bool" where
  "used_up max_attempts r \<longleftrightarrow> (case max_attempts of None \<Rightarrow> False | Some m \<Rightarrow> m \<le> ob_attempts r)"

definition run_started :: "db \<Rightarrow> uuid option \<Rightarrow> time option" where
  "run_started db run_id = (case run_id of None \<Rightarrow> None | Some k \<Rightarrow>
     (case map ob_created_at (filter (\<lambda>r. ob_run_id r = Some k) (db_outbox db)) of
        [] \<Rightarrow> None | t # ts \<Rightarrow> Some (Min (set (t # ts)))))"

definition claim_batch :: "nat \<Rightarrow> time \<Rightarrow> int list \<Rightarrow> db \<Rightarrow> outbox_row list" where
  "claim_batch limit at_time locked db =
     take limit (sort_key ob_entry_id (filter (due at_time locked) (db_outbox db)))"

definition claim_outbox ::
  "env \<Rightarrow> nat \<Rightarrow> time \<Rightarrow> time option \<Rightarrow> int option \<Rightarrow> int list \<Rightarrow> db \<Rightarrow> ClaimResult \<times> db" where
  "claim_outbox e limit lease now max_attempts locked db =
     (let at_time = now_or e now;
          rows = claim_batch limit at_time locked db;
          spent = map ob_entry_id (filter (used_up max_attempts) rows);
          send = filter (\<lambda>r. \<not> used_up max_attempts r) rows;
          dropped = (if spent = [] then (0, db)
             else outbox_update (\<lambda>r. ob_entry_id r \<in> set spent) (drop_row ''MAX_ATTEMPTS'' at_time) db);
          db2 = (if send = [] then snd dropped
             else snd (outbox_update (\<lambda>r. ob_entry_id r \<in> ob_entry_id ` set send)
               (\<lambda>r. r\<lparr>ob_attempts := ob_attempts r + 1, ob_next_attempt_at := Some (at_time + lease)\<rparr>) (snd dropped)))
      in (\<lparr>cr_rows = map (\<lambda>r. \<lparr>cl_entry_id = ob_entry_id r, cl_idempotency_key = ob_idempotency_key r,
              cl_incident_id = ob_incident_id r, cl_run_id = ob_run_id r, cl_kind = ob_kind r,
              cl_payload = ob_payload r, cl_attempts = ob_attempts r + 1, cl_created_at = ob_created_at r,
              cl_run_started_at = run_started db2 (ob_run_id r)\<rparr>) send,
           cr_exhausted = fst dropped\<rparr>, db2))"

definition mark_delivered :: "env \<Rightarrow> int list \<Rightarrow> time option \<Rightarrow> db \<Rightarrow> nat \<times> db" where
  "mark_delivered e entry_ids now db =
     (if entry_ids = [] then (0, db)
      else outbox_update (\<lambda>r. ob_entry_id r \<in> set entry_ids \<and> ob_state r = OX_pending)
        (\<lambda>r. r\<lparr>ob_state := OX_delivered, ob_finalized_at := Some (now_or e now)\<rparr>) db)"

definition mark_dropped :: "env \<Rightarrow> int list \<Rightarrow> string \<Rightarrow> time option \<Rightarrow> db \<Rightarrow> nat \<times> db" where
  "mark_dropped e entry_ids reason now db =
     (if entry_ids = [] then (0, db)
      else outbox_update (\<lambda>r. ob_entry_id r \<in> set entry_ids \<and> ob_state r = OX_pending)
        (drop_row reason (now_or e now)) db)"

definition schedule_retry :: "env \<Rightarrow> (int \<times> time) list \<Rightarrow> time option \<Rightarrow> db \<Rightarrow> nat \<times> db" where
  "schedule_retry e retries now db =
     (if retries = [] then (0, db)
      else outbox_update (\<lambda>r. ob_entry_id r \<in> fst ` set retries \<and> ob_state r = OX_pending)
        (\<lambda>r. r\<lparr>ob_next_attempt_at := map_option (\<lambda>d. now_or e now + d) (map_of retries (ob_entry_id r))\<rparr>) db)"

lemmas outbox_ops = purge_expired_def purge_def trim_backlog_def claim_outbox_def mark_delivered_def
  mark_dropped_def schedule_retry_def outbox_update_def

subsection \<open>What the outbox writes leave alone\<close>

lemma outbox_same: "\<exists>ob n. db = db\<lparr>db_outbox := ob, db_outbox_seq := n\<rparr>"
  by (intro exI [of _ "db_outbox db"] exI [of _ "db_outbox_seq db"]) simp

lemma outbox_add_shape:
  "\<exists>ob n. outbox_add e key i r k p db = db\<lparr>db_outbox := ob, db_outbox_seq := n\<rparr>"
  by (auto simp: outbox_add_def intro: outbox_same)

lemma trace_run_state_shape:
  "\<exists>ob n. trace_run_state e r db = db\<lparr>db_outbox := ob, db_outbox_seq := n\<rparr>"
  unfolding trace_run_state_def by (cases "free_ordinal db (rr_run_id r)") (auto simp: outbox_add_def intro: outbox_same)

lemma fold_trace_shape:
  "\<exists>ob n. fold (trace_run_state e) rs db = db\<lparr>db_outbox := ob, db_outbox_seq := n\<rparr>"
proof (induction rs arbitrary: db)
  case (Cons r rs)
  obtain ob n where "trace_run_state e r db = db\<lparr>db_outbox := ob, db_outbox_seq := n\<rparr>"
    using trace_run_state_shape by blast
  with Cons [of "trace_run_state e r db"] show ?case by auto
qed (simp add: outbox_same)

lemma update_runs_shape:
  "\<exists>ob n. update_runs e P f db =
     db\<lparr>db_runs := update_where P f (db_runs db), db_outbox := ob, db_outbox_seq := n\<rparr>"
  unfolding update_runs_def using fold_trace_shape by fastforce

lemma update_runs_frame [simp]:
  "db_runs (update_runs e P f db) = update_where P f (db_runs db)"
  "db_incidents (update_runs e P f db) = db_incidents db"
  "db_global_suspended (update_runs e P f db) = db_global_suspended db"
  "db_global_generation (update_runs e P f db) = db_global_generation db"
  "db_targets (update_runs e P f db) = db_targets db"
  "db_target_suspensions (update_runs e P f db) = db_target_suspensions db"
  "db_suspension_audit (update_runs e P f db) = db_suspension_audit db"
  "db_steps (update_runs e P f db) = db_steps db"
  "db_controls (update_runs e P f db) = db_controls db"
  "db_inputs (update_runs e P f db) = db_inputs db"
  "db_rounds (update_runs e P f db) = db_rounds db"
  "db_reservations (update_runs e P f db) = db_reservations db"
  "db_charges (update_runs e P f db) = db_charges db"
  "db_sessions (update_runs e P f db) = db_sessions db"
  "db_endings (update_runs e P f db) = db_endings db"
  "db_samples (update_runs e P f db) = db_samples db"
  "db_profiles (update_runs e P f db) = db_profiles db"
  "db_self_heal (update_runs e P f db) = db_self_heal db"
  "db_events (update_runs e P f db) = db_events db"
  "db_evidence (update_runs e P f db) = db_evidence db"
  "db_postmortems (update_runs e P f db) = db_postmortems db"
  "db_postmortem_versions (update_runs e P f db) = db_postmortem_versions db"
  "db_conclusions (update_runs e P f db) = db_conclusions db"
  "db_disputes (update_runs e P f db) = db_disputes db"
  "db_proposals (update_runs e P f db) = db_proposals db"
  "db_entries (update_runs e P f db) = db_entries db"
  "db_revisions (update_runs e P f db) = db_revisions db"
  "db_revocations (update_runs e P f db) = db_revocations db"
  "db_generation_jobs (update_runs e P f db) = db_generation_jobs db"
  "db_f13_audit (update_runs e P f db) = db_f13_audit db"
  "db_f13_requests (update_runs e P f db) = db_f13_requests db"
  "db_alert_identities (update_runs e P f db) = db_alert_identities db"
  "db_alert_deliveries (update_runs e P f db) = db_alert_deliveries db"
  "db_release_links (update_runs e P f db) = db_release_links db"
  "db_alert_seq (update_runs e P f db) = db_alert_seq db"
  "db_web_ledger (update_runs e P f db) = db_web_ledger db"
  using update_runs_shape [of e P f db] by auto

lemma outbox_add_frame [simp]:
  "db_runs (outbox_add e key i r k p db) = db_runs db"
  "db_incidents (outbox_add e key i r k p db) = db_incidents db"
  "db_global_suspended (outbox_add e key i r k p db) = db_global_suspended db"
  "db_global_generation (outbox_add e key i r k p db) = db_global_generation db"
  "db_targets (outbox_add e key i r k p db) = db_targets db"
  "db_target_suspensions (outbox_add e key i r k p db) = db_target_suspensions db"
  "db_suspension_audit (outbox_add e key i r k p db) = db_suspension_audit db"
  "db_steps (outbox_add e key i r k p db) = db_steps db"
  "db_controls (outbox_add e key i r k p db) = db_controls db"
  "db_inputs (outbox_add e key i r k p db) = db_inputs db"
  "db_rounds (outbox_add e key i r k p db) = db_rounds db"
  "db_reservations (outbox_add e key i r k p db) = db_reservations db"
  "db_charges (outbox_add e key i r k p db) = db_charges db"
  "db_sessions (outbox_add e key i r k p db) = db_sessions db"
  "db_endings (outbox_add e key i r k p db) = db_endings db"
  "db_samples (outbox_add e key i r k p db) = db_samples db"
  "db_profiles (outbox_add e key i r k p db) = db_profiles db"
  "db_self_heal (outbox_add e key i r k p db) = db_self_heal db"
  "db_events (outbox_add e key i r k p db) = db_events db"
  "db_evidence (outbox_add e key i r k p db) = db_evidence db"
  "db_postmortems (outbox_add e key i r k p db) = db_postmortems db"
  "db_postmortem_versions (outbox_add e key i r k p db) = db_postmortem_versions db"
  "db_conclusions (outbox_add e key i r k p db) = db_conclusions db"
  "db_disputes (outbox_add e key i r k p db) = db_disputes db"
  "db_proposals (outbox_add e key i r k p db) = db_proposals db"
  "db_entries (outbox_add e key i r k p db) = db_entries db"
  "db_revisions (outbox_add e key i r k p db) = db_revisions db"
  "db_revocations (outbox_add e key i r k p db) = db_revocations db"
  "db_generation_jobs (outbox_add e key i r k p db) = db_generation_jobs db"
  "db_f13_audit (outbox_add e key i r k p db) = db_f13_audit db"
  "db_f13_requests (outbox_add e key i r k p db) = db_f13_requests db"
  "db_alert_identities (outbox_add e key i r k p db) = db_alert_identities db"
  "db_alert_deliveries (outbox_add e key i r k p db) = db_alert_deliveries db"
  "db_release_links (outbox_add e key i r k p db) = db_release_links db"
  "db_alert_seq (outbox_add e key i r k p db) = db_alert_seq db"
  "db_web_ledger (outbox_add e key i r k p db) = db_web_ledger db"
  by (simp_all add: outbox_add_def)

lemma insert_entry_Inr:
  "insert_entry e kind key i r vs fs db = Inr db' \<Longrightarrow> \<exists>p. db' = outbox_add e (bounded_key e kind key) i r kind p db"
  by (auto simp: insert_entry_def split: if_splits)

subsection \<open>The probe always lands\<close>

lemma run_state_key_inject [simp]: "run_state_key k m = run_state_key k n \<longleftrightarrow> m = n"
  by (simp add: run_state_key_def)

lemma free_ordinal_exists:
  "\<exists>n. free_ordinal db k = Some n \<and> run_state_key k n \<notin> ob_idempotency_key ` set (db_outbox db)"
proof (cases "free_ordinal db k")
  case None
  let ?N = "{1..<length (db_outbox db) + 2}"
  from None have "run_state_key k ` ?N \<subseteq> ob_idempotency_key ` set (db_outbox db)"
    by (auto simp: free_ordinal_def find_None_iff simp del: upt_Suc)
  then have "card (run_state_key k ` ?N) \<le> card (ob_idempotency_key ` set (db_outbox db))"
    by (rule card_mono [rotated]) simp
  also have "\<dots> \<le> length (db_outbox db)"
    by (meson card_image_le card_length finite_set le_trans)
  finally have "card ?N \<le> length (db_outbox db)" by (subst (asm) card_image) (auto simp: inj_on_def)
  then show ?thesis by simp
next
  case (Some n)
  then show ?thesis unfolding free_ordinal_def find_Some_iff by blast
qed

lemma trace_run_state_adds:
  "\<exists>row. db_outbox (trace_run_state e r db) = db_outbox db @ [row] \<and> ob_kind row = ''run_state''
     \<and> ob_run_id row = Some (rr_run_id r) \<and> ob_incident_id row = rr_incident_id r
     \<and> ob_payload row = run_state_body e r \<and> ob_state row = OX_pending
     \<and> ob_entry_id row = db_outbox_seq db + 1
     \<and> ob_idempotency_key row \<notin> ob_idempotency_key ` set (db_outbox db)"
  using free_ordinal_exists [of db "rr_run_id r"]
  by (auto simp: trace_run_state_def outbox_add_def)

lemma fold_trace_adds:
  "\<exists>rows. db_outbox (fold (trace_run_state e) rs db) = db_outbox db @ rows \<and>
     map ob_payload rows = map (run_state_body e) rs \<and> map ob_run_id rows = map (Some \<circ> rr_run_id) rs"
proof (induction rs arbitrary: db)
  case (Cons r rs)
  obtain row where row: "db_outbox (trace_run_state e r db) = db_outbox db @ [row]"
    "ob_run_id row = Some (rr_run_id r)" "ob_payload row = run_state_body e r"
    using trace_run_state_adds by blast
  obtain rows where "db_outbox (fold (trace_run_state e) rs (trace_run_state e r db)) =
      db_outbox (trace_run_state e r db) @ rows"
    "map ob_payload rows = map (run_state_body e) rs" "map ob_run_id rows = map (Some \<circ> rr_run_id) rs"
    using Cons by blast
  with row show ?case by (intro exI [of _ "row # rows"]) simp
qed simp

lemma update_runs_traces:
  "\<exists>rows. db_outbox (update_runs e P f db) = db_outbox db @ rows \<and>
     map ob_payload rows = map (run_state_body e \<circ> f)
       (filter (\<lambda>r. P r \<and> rr_state (f r) \<noteq> rr_state r) (db_runs db))"
  using fold_trace_adds [of e "map f (filter (\<lambda>r. P r \<and> rr_state (f r) \<noteq> rr_state r) (db_runs db))"
      "db\<lparr>db_runs := update_where P f (db_runs db)\<rparr>"]
  by (auto simp: update_runs_def)

text \<open>\<^bold>\<open>C38\<close> (the trigger on \<open>opspilot_runs\<close>) The probe for a free key of a Run ends within one more ordinal than
  the outbox has rows, at the first free one; and an update of Runs appends one row per Run whose state
  it changed, in order, with the payload of the new state.\<close>

theorem run_state_trigger_terminates:
  "(\<exists>n. free_ordinal db k = Some n \<and> n \<le> length (db_outbox db) + 1
      \<and> run_state_key k n \<notin> ob_idempotency_key ` set (db_outbox db)
      \<and> run_state_key k ` {1..<n} \<subseteq> ob_idempotency_key ` set (db_outbox db))
   \<and> (\<exists>rows. db_outbox (update_runs e P f db) = db_outbox db @ rows
      \<and> map ob_payload rows = map (run_state_body e \<circ> f) (filter (\<lambda>r. P r \<and> rr_state (f r) \<noteq> rr_state r) (db_runs db)))"
proof -
  obtain n where n: "free_ordinal db k = Some n" "run_state_key k n \<notin> ob_idempotency_key ` set (db_outbox db)"
    using free_ordinal_exists by blast
  then obtain j where j: "j < length (db_outbox db) + 1" "n = Suc j"
    "\<forall>m < j. run_state_key k (Suc m) \<in> ob_idempotency_key ` set (db_outbox db)"
    by (auto simp: free_ordinal_def find_Some_iff simp del: upt_Suc)
  have "run_state_key k m \<in> ob_idempotency_key ` set (db_outbox db)" if "m \<in> {1..<n}" for m
    using that j(2,3) by (cases m) auto
  with n j(1,2) update_runs_traces show ?thesis by (auto simp: image_subset_iff)
qed

subsection \<open>Payload bounds\<close>

definition payload_scalar :: "json \<Rightarrow> bool" where
  "payload_scalar v = (case v of JStr s \<Rightarrow> length s \<le> 64 | JInt i \<Rightarrow> \<bar>i\<bar> \<le> MAX_NUMBER
     | JFloat x \<Rightarrow> \<bar>x\<bar> \<le> of_int MAX_NUMBER | _ \<Rightarrow> False)"

definition payload_ok :: "(string, json) fmap \<Rightarrow> bool" where
  "payload_ok p \<longleftrightarrow> (\<forall>k v. fmlookup p k = Some v \<longrightarrow> k \<in> set PAYLOAD_KEYS \<and> payload_scalar v)"

text \<open>A datetime of Python is within the years 1 to 9999.\<close>

definition datetime_range :: "time \<Rightarrow> bool" where
  "datetime_range t \<longleftrightarrow> \<bar>t\<bar> < 253402300800000000"

definition field_in_range :: "field_value \<Rightarrow> bool" where
  "field_in_range v = (case v of FV_datetime t \<Rightarrow> datetime_range t | _ \<Rightarrow> True)"

lemma shape_length: "shape f r lo hi s \<Longrightarrow> hi \<le> 63 \<Longrightarrow> length s \<le> 64"
  by (auto simp: shape_def split: list.splits)

lemma shape_lengths:
  "IDENTIFIER s \<Longrightarrow> length s \<le> 64" "CODE_shape s \<Longrightarrow> length s \<le> 64"
  "FINISH_shape s \<Longrightarrow> length s \<le> 64" "TOOL_NAME_shape s \<Longrightarrow> length s \<le> 64"
  "KEY_PART_shape s \<Longrightarrow> length s \<le> 64"
  unfolding IDENTIFIER_def CODE_shape_def FINISH_shape_def TOOL_NAME_shape_def KEY_PART_shape_def Let_def
  by (erule shape_length, simp)+

lemma shaped_value_length: "(\<And>s. sh s \<Longrightarrow> length s \<le> 64) \<Longrightarrow> length (shaped_value v sh) \<le> 64"
  by (simp add: shaped_value_def UNCLASSIFIED_def split: field_value.split json.split)

lemma closed_value_length:
  "list_all (\<lambda>s. length s \<le> 64) allowed \<Longrightarrow> length (closed_value v allowed) \<le> 64"
  by (simp add: closed_value_def UNCLASSIFIED_def list_all_iff split: field_value.split json.split)

lemma closed_vocabularies:
  "list_all (\<lambda>s. length s \<le> 64) RUN_STATES" "list_all (\<lambda>s. length s \<le> 64) TOOL_STATUSES"
  "list_all (\<lambda>s. length s \<le> 64) SOURCE_CONTACTS" "list_all (\<lambda>s. length s \<le> 64) KINDS"
  by (simp_all add: RUN_STATES_def TOOL_STATUSES_def SOURCE_CONTACTS_def KINDS_def)

lemma id_value_scalar: "id_value v = Some j \<Longrightarrow> payload_scalar j"
  by (auto simp: id_value_def payload_scalar_def split: field_value.splits json.splits)

lemma time_value_scalar: "time_value v = Some j \<Longrightarrow> field_in_range v \<Longrightarrow> payload_scalar j"
  by (auto simp: time_value_def payload_scalar_def field_in_range_def datetime_range_def
      length_isoformat_utc split: field_value.splits)

lemma number_value_scalar: "number_value v = Some j \<Longrightarrow> payload_scalar j"
  by (auto simp: number_value_def payload_scalar_def split: field_value.splits json.splits if_splits)

lemma string_scalar [simp]: "payload_scalar (JStr s) \<longleftrightarrow> length s \<le> 64"
  by (simp add: payload_scalar_def)

lemma tool_name_scalar: "tool_name_value v = Some j \<Longrightarrow> payload_scalar j"
  by (auto simp: tool_name_value_def dest: shape_lengths split: field_value.splits json.splits if_splits)

lemma kept_value_scalar:
  "kept_value kind v = Some j \<Longrightarrow> field_in_range v \<Longrightarrow> payload_scalar j"
  by (cases kind) (auto dest: id_value_scalar time_value_scalar number_value_scalar tool_name_scalar
      simp: shaped_value_length shape_lengths closed_value_length closed_vocabularies)

lemma payload_value_scalar:
  "payload_value k v = Some j \<Longrightarrow> field_in_range v \<Longrightarrow> payload_scalar j"
  by (auto simp: payload_value_def bind_eq_Some_conv dest: kept_value_scalar)

lemma build_payload_ok:
  "list_all (\<lambda>(k, v). field_in_range v) fs \<Longrightarrow> payload_ok (build_payload fs)"
proof (induction fs)
  case (Cons kv fs)
  obtain k v where kv: "kv = (k, v)" by (cases kv)
  with Cons have IH: "payload_ok (build_payload fs)" and v: "field_in_range v" by simp_all
  show ?case
  proof (cases "k \<in> set PAYLOAD_KEYS \<and> v \<noteq> FV_json JNull")
    case True
    show ?thesis
    proof (cases "payload_value k v")
      case (Some j)
      from payload_value_scalar [OF this v] True IH Some kv show ?thesis
        by (simp add: payload_ok_def Let_def)
    qed (use IH kv True in \<open>simp add: Let_def\<close>)
  qed (use IH kv in \<open>auto simp: Let_def\<close>)
qed (simp add: payload_ok_def)

subsection \<open>Rows move forward only\<close>

definition outbox_wf :: "db \<Rightarrow> bool" where
  "outbox_wf db \<longleftrightarrow> distinct (map ob_entry_id (db_outbox db))
     \<and> (\<forall>r \<in> set (db_outbox db). ob_entry_id r \<le> db_outbox_seq db
          \<and> (ob_state r = OX_pending \<longleftrightarrow> ob_finalized_at r = None))"

text \<open>One step of a row: unchanged, or still pending after a claim or a retry, or finalized by an edge
  of \<open>EXPORT_OUTBOX\<close>. The subject and the payload never change.\<close>

definition row_next :: "outbox_row \<Rightarrow> outbox_row \<Rightarrow> bool" where
  "row_next r r' \<longleftrightarrow> ob_entry_id r' = ob_entry_id r \<and> ob_idempotency_key r' = ob_idempotency_key r
     \<and> ob_payload r' = ob_payload r \<and> ob_created_at r' = ob_created_at r
     \<and> (r' = r \<or> ob_state r = OX_pending \<and>
         ((ob_state r' = OX_pending \<and> ob_finalized_at r' = ob_finalized_at r) \<or>
          ((\<exists>t. fire EXPORT_OUTBOX OX_pending t = Inr (ob_state r')) \<and> ob_finalized_at r' \<noteq> None)))"

inductive outbox_step :: "db \<Rightarrow> db \<Rightarrow> bool" where
  step_insert: "insert_entry e kind key i r vs fs db = Inr db' \<Longrightarrow> outbox_step db db'"
| step_trace: "outbox_step db (update_runs e P f db)"
| step_purge: "outbox_step db (snd (purge e retention export_enabled db))"
| step_trim: "outbox_step db (snd (trim_backlog e limit now lease locked db))"
| step_claim: "outbox_step db (snd (claim_outbox e limit lease now max_attempts locked db))"
| step_delivered: "outbox_step db (snd (mark_delivered e ids now db))"
| step_dropped: "outbox_step db (snd (mark_dropped e ids reason now db))"
| step_retry: "outbox_step db (snd (schedule_retry e retries now db))"

lemma fire_outbox:
  "fire EXPORT_OUTBOX OX_pending ''delivered'' = Inr OX_delivered"
  "fire EXPORT_OUTBOX OX_pending ''bounded_drop'' = Inr OX_dropped"
  by (simp_all add: fire_def sm_require_def EXPORT_OUTBOX_def)

lemma fire_outbox_final: "fire EXPORT_OUTBOX OX_pending t = Inr s \<Longrightarrow> s \<noteq> OX_pending"
  by (auto simp: fire_def sm_require_def EXPORT_OUTBOX_def split: if_splits option.splits)

lemma row_next_refl [simp]: "row_next r r"
  by (simp add: row_next_def)

lemma row_next_trans: "row_next r s \<Longrightarrow> row_next s t \<Longrightarrow> row_next r t"
  unfolding row_next_def by auto

lemma row_next_wf:
  "row_next r r' \<Longrightarrow> (ob_state r = OX_pending \<longleftrightarrow> ob_finalized_at r = None) \<Longrightarrow>
     ob_entry_id r' = ob_entry_id r \<and> (ob_state r' = OX_pending \<longleftrightarrow> ob_finalized_at r' = None)"
  by (auto simp: row_next_def dest: fire_outbox_final)

lemma row_next_drop: "ob_state r = OX_pending \<Longrightarrow> row_next r (drop_row reason t r)"
  using fire_outbox(2) by (auto simp: row_next_def drop_row_def)

text \<open>Every step either rewrites rows one by one by \<open>row_next\<close>, or appends rows with fresh ids, or
  removes rows; the three closure facts below are what the steps share.\<close>

definition evolves :: "db \<Rightarrow> db \<Rightarrow> bool" where
  "evolves db db' \<longleftrightarrow> (outbox_wf db \<longrightarrow> outbox_wf db' \<and> db_outbox_seq db \<le> db_outbox_seq db' \<and>
     (\<forall>r' \<in> set (db_outbox db'). (\<exists>r \<in> set (db_outbox db). row_next r r') \<or> db_outbox_seq db < ob_entry_id r'))"

lemma evolves_refl [simp]: "evolves db db"
  by (auto simp: evolves_def intro: row_next_refl)

lemma evolves_trans: "evolves a b \<Longrightarrow> evolves b c \<Longrightarrow> evolves a c"
  unfolding evolves_def by (smt (verit) order_trans order_le_less_trans row_next_def row_next_trans)

lemma evolves_runs [simp]: "evolves db (db\<lparr>db_runs := x\<rparr>)"
  by (auto simp: evolves_def outbox_wf_def intro: row_next_refl)

lemma evolves_add: "evolves db (outbox_add e key i r k p db)"
proof (cases "key \<in> ob_idempotency_key ` set (db_outbox db)")
  case False
  then show ?thesis by (auto simp: evolves_def outbox_wf_def outbox_add_def intro: row_next_refl)
qed (simp add: outbox_add_def)

lemma evolves_fold_trace: "evolves db (fold (trace_run_state e) rs db)"
proof (induction rs arbitrary: db)
  case (Cons r rs)
  have "evolves db (trace_run_state e r db)"
    by (simp add: trace_run_state_def evolves_add split: option.split)
  with Cons show ?case by (auto intro: evolves_trans)
qed simp

lemma evolves_filter: "evolves db (db\<lparr>db_outbox := filter P (db_outbox db)\<rparr>)"
  by (auto simp: evolves_def outbox_wf_def distinct_map_filter intro: row_next_refl)

lemma evolves_update:
  assumes "outbox_wf db \<Longrightarrow> (\<And>r. r \<in> set (db_outbox db) \<Longrightarrow> P r \<Longrightarrow> row_next r (f r))"
  shows "evolves db (db\<lparr>db_outbox := update_where P f (db_outbox db)\<rparr>)"
proof (cases "outbox_wf db")
  case True
  have step: "row_next r (if P r then f r else r)" if "r \<in> set (db_outbox db)" for r
    using assms [OF True that] by simp
  then have src: "\<exists>r \<in> set (db_outbox db). row_next r r'" if "r' \<in> set (update_where P f (db_outbox db))" for r'
    using that unfolding set_update_where by blast
  from step have ids: "map ob_entry_id (update_where P f (db_outbox db)) = map ob_entry_id (db_outbox db)"
    by (simp add: update_where_def row_next_def)
  have "outbox_wf (db\<lparr>db_outbox := update_where P f (db_outbox db)\<rparr>)"
    unfolding outbox_wf_def
  proof (intro conjI ballI)
    fix r' assume "r' \<in> set (db_outbox (db\<lparr>db_outbox := update_where P f (db_outbox db)\<rparr>))"
    then obtain r where r: "r \<in> set (db_outbox db)" "row_next r r'"
      using src by auto
    with True show "ob_entry_id r' \<le> db_outbox_seq (db\<lparr>db_outbox := update_where P f (db_outbox db)\<rparr>)"
      "ob_state r' = OX_pending \<longleftrightarrow> ob_finalized_at r' = None"
      using row_next_wf [OF r(2)] by (auto simp: outbox_wf_def)
  qed (use True ids in \<open>simp add: outbox_wf_def\<close>)
  with src show ?thesis by (simp add: evolves_def)
qed (simp add: evolves_def)

text \<open>A candidate list picks rows of the table, so with distinct ids an update by id touches exactly
  the candidates.\<close>

lemma picked_row:
  assumes "outbox_wf db" and "r \<in> set (db_outbox db)" and "ob_entry_id r \<in> ob_entry_id ` S"
    and "S \<subseteq> {r \<in> set (db_outbox db). Q r}"
  shows "Q r"
proof -
  from assms(3,4) obtain s where "s \<in> set (db_outbox db)" "Q s" "ob_entry_id s = ob_entry_id r" by auto
  moreover have "inj_on ob_entry_id (set (db_outbox db))"
    using assms(1) by (simp add: outbox_wf_def distinct_map)
  ultimately have "s = r" using assms(2) by (meson inj_onD)
  with \<open>Q s\<close> show ?thesis by simp
qed

lemma updated_outbox_row:
  "r \<in> set (db_outbox (db\<lparr>db_outbox := update_where P f (db_outbox db)\<rparr>)) \<Longrightarrow>
     \<exists>x \<in> set (db_outbox db). r = (if P x then f x else x)"
  by (auto simp: update_where_def)

lemma evolves_trim: "evolves db (snd (trim_backlog e limit now lease locked db))"
proof -
  let ?cand = "filter (trimmable (now_or e now) lease locked) (db_outbox db)"
  let ?old = "take (count_pending db - limit) (sort_key ob_created_at (sort_key ob_entry_id ?cand))"
  have sub: "set ?old \<subseteq> {r \<in> set (db_outbox db). ob_state r = OX_pending}"
    using set_take_subset [of "count_pending db - limit" "sort_key ob_created_at (sort_key ob_entry_id ?cand)"]
    by (auto simp: trimmable_def)
  have "evolves db (db\<lparr>db_outbox := update_where (\<lambda>r. ob_entry_id r \<in> ob_entry_id ` set ?old)
      (drop_row ''BACKLOG'' (now_or e now)) (db_outbox db)\<rparr>)"
    by (rule evolves_update) (use picked_row [OF _ _ _ sub] row_next_drop in blast)
  then show ?thesis by (simp add: trim_backlog_def outbox_update_def Let_def)
qed

lemma claim_batch_due: "set (claim_batch limit t locked db) \<subseteq> {r \<in> set (db_outbox db). due t locked r}"
  using set_take_subset [of limit "sort_key ob_entry_id (filter (due t locked) (db_outbox db))"]
  by (auto simp: claim_batch_def)

lemma evolves_claim: "evolves db (snd (claim_outbox e limit lease now max_attempts locked db))"
proof -
  let ?t = "now_or e now"
  let ?rows = "claim_batch limit ?t locked db"
  let ?spent = "filter (used_up max_attempts) ?rows" and ?send = "filter (\<lambda>r. \<not> used_up max_attempts r) ?rows"
  let ?drop = "\<lambda>db. db\<lparr>db_outbox := update_where (\<lambda>r. ob_entry_id r \<in> ob_entry_id ` set ?spent)
      (drop_row ''MAX_ATTEMPTS'' ?t) (db_outbox db)\<rparr>"
  let ?bump = "\<lambda>db. db\<lparr>db_outbox := update_where (\<lambda>r. ob_entry_id r \<in> ob_entry_id ` set ?send)
      (\<lambda>r. r\<lparr>ob_attempts := ob_attempts r + 1, ob_next_attempt_at := Some (?t + lease)\<rparr>) (db_outbox db)\<rparr>"
  have rows: "set ?rows \<subseteq> {r \<in> set (db_outbox db). ob_state r = OX_pending}"
    using claim_batch_due [of limit ?t locked db] by (auto simp: due_def)
  then have spent: "set ?spent \<subseteq> {r \<in> set (db_outbox db). ob_state r = OX_pending \<and> used_up max_attempts r}"
    and send: "set ?send \<subseteq> {r \<in> set (db_outbox db). ob_state r = OX_pending \<and> \<not> used_up max_attempts r}"
    by auto
  have drop: "evolves db (?drop db)"
    by (rule evolves_update) (use picked_row [OF _ _ _ spent] row_next_drop in blast)
  have bump: "evolves db (?bump db)"
    by (rule evolves_update) (use picked_row [OF _ _ _ send] in \<open>auto simp: row_next_def\<close>)
  have both: "evolves db (?bump (?drop db))"
  proof (cases "outbox_wf db")
    case True
    have "evolves (?drop db) (?bump (?drop db))"
    proof (rule evolves_update)
      fix r assume "r \<in> set (db_outbox (?drop db))" and id: "ob_entry_id r \<in> ob_entry_id ` set ?send"
      from updated_outbox_row [OF this(1)] obtain x where x0: "x \<in> set (db_outbox db)"
        "r = (if ob_entry_id x \<in> ob_entry_id ` set ?spent then drop_row ''MAX_ATTEMPTS'' ?t x else x)" ..
      have "ob_entry_id (drop_row ''MAX_ATTEMPTS'' ?t x) = ob_entry_id x" by (simp add: drop_row_def)
      with x0(2) have "ob_entry_id x = ob_entry_id r" by presburger
      note x = x0(1) this x0(2)
      from picked_row [OF True x(1) _ send] id x(2) have "ob_state x = OX_pending \<and> \<not> used_up max_attempts x" by simp
      moreover from this picked_row [OF True x(1) _ spent] have "ob_entry_id x \<notin> ob_entry_id ` set ?spent" by blast
      ultimately show "row_next r (r\<lparr>ob_attempts := ob_attempts r + 1, ob_next_attempt_at := Some (?t + lease)\<rparr>)"
        using x(3) by (auto simp: row_next_def)
    qed
    with drop show ?thesis by (rule evolves_trans)
  qed (simp add: evolves_def)
  show ?thesis
    using drop bump both by (simp add: claim_outbox_def outbox_update_def Let_def image_set)
qed

lemma outbox_step_evolves: "outbox_step db db' \<Longrightarrow> evolves db db'"
proof (induction rule: outbox_step.induct)
  case (step_insert e kind key i r vs fs db db')
  then show ?case using insert_entry_Inr evolves_add by blast
next
  case (step_trace db e P f)
  show ?case unfolding update_runs_def
    by (rule evolves_trans [OF evolves_runs evolves_fold_trace])
next
  case (step_purge db e retention export_enabled)
  show ?case by (simp add: purge_def purge_expired_def Let_def evolves_filter)
next
  case (step_delivered db e ids now)
  show ?case
    by (auto simp: mark_delivered_def outbox_update_def row_next_def intro!: evolves_update exI [of _ "''delivered''"] fire_outbox)
next
  case (step_dropped db e ids reason now)
  show ?case
    by (auto simp: mark_dropped_def outbox_update_def row_next_drop intro!: evolves_update)
next
  case (step_retry db e retries now)
  show ?case
    by (auto simp: schedule_retry_def outbox_update_def row_next_def intro!: evolves_update)
qed (rule evolves_trim evolves_claim)+

subsection \<open>Properties\<close>

lemma dict_merge_range:
  "list_all (\<lambda>(k, v). Q v) a \<Longrightarrow> list_all (\<lambda>(k, v). Q v) b \<Longrightarrow> list_all (\<lambda>(k, v). Q v) (dict_merge a b)"
  by (auto simp: dict_merge_def list_all_iff)

lemma key_part_length: "length (key_part e v) \<le> 64"
  by (simp add: key_part_def shape_lengths min_def)

lemma KINDS_length: "kind \<in> set KINDS \<Longrightarrow> length kind \<le> 64"
  using closed_vocabularies(4) by (simp add: list_all_iff)

lemma bounded_key_length: "kind \<in> set KINDS \<Longrightarrow> length (bounded_key e kind key) \<le> 256"
  using KINDS_length [of kind] key_part_length [of e key] by (simp add: bounded_key_def)

lemma run_state_body_ok: "datetime_range (env_later e) \<Longrightarrow> payload_ok (run_state_body e r)"
proof -
  assume t: "datetime_range (env_later e)"
  have st: "length (run_state_str (rr_state r)) \<le> 64" by (cases "rr_state r") simp_all
  have len: "length (if IDENTIFIER v then v else UNCLASSIFIED) \<le> 64" for v
    by (simp add: shape_lengths UNCLASSIFIED_def)
  have "list_all (\<lambda>(k, v). k \<in> set PAYLOAD_KEYS \<and> payload_scalar v) (run_state_pairs e r)"
    using t st len by (simp add: run_state_pairs_def PAYLOAD_KEYS_def length_isoformat_utc datetime_range_def split: option.split)
  then show ?thesis
    by (auto simp: list_all_iff payload_ok_def run_state_body_def fmlookup_of_list simp del: string_scalar dest!: map_of_SomeD)
qed

text \<open>A row as a writer leaves it: pending and not final, never attempted, due at once, of a kind of the
  table, with a bounded payload under a bounded key no row had before, and a new row id.\<close>

definition fresh_entry :: "env \<Rightarrow> db \<Rightarrow> outbox_row \<Rightarrow> bool" where
  "fresh_entry e db row \<longleftrightarrow> ob_state row = OX_pending \<and> ob_finalized_at row = None \<and> ob_drop_reason row = None
     \<and> ob_attempts row = 0 \<and> ob_next_attempt_at row = None \<and> ob_created_at row = env_later e
     \<and> ob_kind row \<in> set KINDS \<and> payload_ok (ob_payload row) \<and> length (ob_idempotency_key row) \<le> 256
     \<and> ob_idempotency_key row \<notin> ob_idempotency_key ` set (db_outbox db) \<and> db_outbox_seq db < ob_entry_id row"

lemma decimal_length: "n < 10 ^ Suc k \<Longrightarrow> length (decimal n) \<le> Suc k"
proof (induction k arbitrary: n)
  case 0
  then show ?case by (subst decimal.simps) simp
next
  case (Suc k)
  then have "n div 10 < 10 ^ Suc k" by (simp add: less_mult_imp_div_less)
  with Suc.IH [of "n div 10"] show ?case by (subst decimal.simps) simp
qed

lemma run_state_key_length: "n < 2 ^ 63 \<Longrightarrow> length (run_state_key k n) \<le> 256"
  using decimal_length [of n 18] by (simp add: run_state_key_def string_of_nat_def)

lemma trace_run_state_fresh:
  assumes "datetime_range (env_later e)" and "length (db_outbox db) < 2 ^ 63 - 1"
  shows "\<exists>row. db_outbox (trace_run_state e r db) = db_outbox db @ [row] \<and> fresh_entry e db row
     \<and> ob_kind row = ''run_state'' \<and> ob_run_id row = Some (rr_run_id r) \<and> ob_incident_id row = rr_incident_id r
     \<and> ob_payload row = run_state_body e r \<and> db_outbox_seq (trace_run_state e r db) = db_outbox_seq db + 1"
proof -
  obtain n where n: "free_ordinal db (rr_run_id r) = Some n" "run_state_key (rr_run_id r) n \<notin> ob_idempotency_key ` set (db_outbox db)"
    using free_ordinal_exists by blast
  then have "n \<le> length (db_outbox db) + 1" by (auto simp: free_ordinal_def find_Some_iff simp del: upt_Suc)
  with assms(2) have "length (run_state_key (rr_run_id r) n) \<le> 256" by (intro run_state_key_length) simp
  with n run_state_body_ok [OF assms(1)] show ?thesis
    by (simp add: trace_run_state_def outbox_add_def fresh_entry_def KINDS_def)
qed

lemma fresh_entry_later:
  assumes "fresh_entry e db' row" and "set (map ob_idempotency_key (db_outbox db)) \<subseteq> set (map ob_idempotency_key (db_outbox db'))"
    and "db_outbox_seq db \<le> db_outbox_seq db'"
  shows "fresh_entry e db row"
  using assms by (auto simp: fresh_entry_def)

definition run_state_entry :: "run_row \<Rightarrow> outbox_row \<Rightarrow> bool" where
  "run_state_entry r row \<longleftrightarrow> ob_kind row = ''run_state'' \<and> ob_run_id row = Some (rr_run_id r) \<and> ob_incident_id row = rr_incident_id r"

lemma fold_trace_fresh:
  assumes "datetime_range (env_later e)" and "length (db_outbox db) + length rs < 2 ^ 63"
  shows "\<exists>rows. db_outbox (fold (trace_run_state e) rs db) = db_outbox db @ rows \<and> list_all2 run_state_entry rs rows
     \<and> distinct (map ob_idempotency_key rows) \<and> (\<forall>row \<in> set rows. fresh_entry e db row)"
  using assms(2)
proof (induction rs arbitrary: db)
  case (Cons r rs)
  from trace_run_state_fresh [OF assms(1), of db r] Cons.prems obtain row where
    row: "db_outbox (trace_run_state e r db) = db_outbox db @ [row]" "fresh_entry e db row" "run_state_entry r row"
      "db_outbox_seq (trace_run_state e r db) = db_outbox_seq db + 1"
    by (auto simp: run_state_entry_def)
  with Cons.IH [of "trace_run_state e r db"] Cons.prems obtain rows where
    rows: "db_outbox (fold (trace_run_state e) rs (trace_run_state e r db)) = db_outbox db @ [row] @ rows"
      "list_all2 run_state_entry rs rows" "distinct (map ob_idempotency_key rows)"
      "\<forall>x \<in> set rows. fresh_entry e (trace_run_state e r db) x" by auto
  have "fresh_entry e db x" if "x \<in> set rows" for x
  proof (rule fresh_entry_later)
    show "fresh_entry e (trace_run_state e r db) x" using rows(4) that by blast
    show "set (map ob_idempotency_key (db_outbox db)) \<subseteq> set (map ob_idempotency_key (db_outbox (trace_run_state e r db)))"
      unfolding row(1) by auto
    show "db_outbox_seq db \<le> db_outbox_seq (trace_run_state e r db)" unfolding row(4) by simp
  qed
  moreover have "ob_idempotency_key x \<noteq> ob_idempotency_key row" if "x \<in> set rows" for x
  proof -
    have "ob_idempotency_key x \<notin> ob_idempotency_key ` set (db_outbox (trace_run_state e r db))"
      using rows(4) that unfolding fresh_entry_def by blast
    then show ?thesis unfolding row(1) by simp
  qed
  then have "ob_idempotency_key row \<notin> ob_idempotency_key ` set rows" by force
  ultimately show ?case using rows(1-3) row(2,3) by (intro exI [of _ "row # rows"]) simp
qed simp

text \<open>\<^bold>\<open>C40\<close> (\<open>insert_entry\<close>, \<open>build_payload\<close> and the run-state trigger) A business transaction can ride with
  its outbox rows. A repeated key adds nothing; otherwise one row is added, of the subject, kind and key that
  were given. An update of Runs adds exactly one row for each Run whose state it changes, in order, for
  that Run and its incident, of kind \<open>run_state\<close> and under keys all different. Every row added, whatever the
  fields hold, is pending, not final and never attempted, has a kind of the table, only allowlisted payload
  keys, strings of at most 64 characters and numbers of bounded size, a new row id, and an idempotency
  key of at most 256 characters that no row had. (The row ids of the table are 64-bit.)\<close>

theorem outbox_rows_bounded:
  assumes "list_all (\<lambda>(k, v). field_in_range v) fs" and "datetime_range (env_later e)"
    and "length (db_outbox db) + length (db_runs db) < 2 ^ 63"
  shows "(insert_entry e kind key i run_id versions fs db = Inr db' \<longrightarrow>
      (if bounded_key e kind key \<in> ob_idempotency_key ` set (db_outbox db) then db' = db
       else \<exists>row. db_outbox db' = db_outbox db @ [row] \<and> fresh_entry e db row \<and> ob_kind row = kind
         \<and> ob_idempotency_key row = bounded_key e kind key \<and> ob_incident_id row = i \<and> ob_run_id row = run_id)) \<and>
    (\<exists>rows. db_outbox (update_runs e P f db) = db_outbox db @ rows
       \<and> list_all2 run_state_entry (map f (filter (\<lambda>r. P r \<and> rr_state (f r) \<noteq> rr_state r) (db_runs db))) rows
       \<and> distinct (map ob_idempotency_key rows) \<and> (\<forall>row \<in> set rows. fresh_entry e db row))"
proof (intro conjI impI)
  let ?fs = "dict_merge (dict_merge (image_fields e) (revisions versions))
     (dict_merge [(''span_kind'', FV_json (JStr kind))] fs)"
  have "list_all (\<lambda>(k, v). field_in_range v) ?fs"
    using assms(1) by (intro dict_merge_range) (simp_all add: image_fields_def revisions_def field_in_range_def)
  then have p: "payload_ok (build_payload ?fs)" by (rule build_payload_ok)
  assume "insert_entry e kind key i run_id versions fs db = Inr db'"
  then have k: "kind \<in> set KINDS"
    and d: "db' = outbox_add e (bounded_key e kind key) i run_id kind (build_payload ?fs) db"
    by (simp_all add: insert_entry_def split: if_splits)
  show "if bounded_key e kind key \<in> ob_idempotency_key ` set (db_outbox db) then db' = db
       else \<exists>row. db_outbox db' = db_outbox db @ [row] \<and> fresh_entry e db row \<and> ob_kind row = kind
         \<and> ob_idempotency_key row = bounded_key e kind key \<and> ob_incident_id row = i \<and> ob_run_id row = run_id"
    using p k bounded_key_length [OF k, of e key] unfolding d outbox_add_def fresh_entry_def by simp
next
  let ?rs = "map f (filter (\<lambda>r. P r \<and> rr_state (f r) \<noteq> rr_state r) (db_runs db))"
  let ?db = "db\<lparr>db_runs := update_where P f (db_runs db)\<rparr>"
  have same: "db_outbox ?db = db_outbox db" by simp
  have "length (db_outbox db) + length ?rs \<le> length (db_outbox db) + length (db_runs db)" by simp
  from le_less_trans [OF this assms(3)] have "length (db_outbox ?db) + length ?rs < 2 ^ 63" unfolding same .
  from fold_trace_fresh [OF assms(2) this] show "\<exists>rows. db_outbox (update_runs e P f db) = db_outbox db @ rows
       \<and> list_all2 run_state_entry ?rs rows \<and> distinct (map ob_idempotency_key rows) \<and> (\<forall>row \<in> set rows. fresh_entry e db row)"
    by (simp add: update_runs_def fresh_entry_def)
qed

theorem outbox_rows_bounded_witness:
  "\<exists>db' row. insert_entry (example_env 0 0) ''model_step'' ''model_step:1:0'' 1 (Some 1) fmempty
       [(''ended_at'', FV_datetime 0), (''prompt'', FV_json (JStr ''secret''))] initial_db = Inr db' \<and>
     db_outbox db' = [row] \<and> ob_state row = OX_pending \<and> ob_finalized_at row = None \<and> ob_kind row = ''model_step''
     \<and> payload_ok (ob_payload row) \<and> fmlookup (ob_payload row) ''prompt'' = None"
proof -
  let ?fs = "[(''ended_at'', FV_datetime 0), (''prompt'', FV_json (JStr ''secret''))]"
  obtain db' where i: "insert_entry (example_env 0 0) ''model_step'' ''model_step:1:0'' 1 (Some 1) fmempty
       ?fs initial_db = Inr db'"
    by (simp add: insert_entry_def KINDS_def)
  have "list_all (\<lambda>(k, v). field_in_range v) ?fs" "datetime_range (env_later (example_env 0 0))"
    "length (db_outbox initial_db) + length (db_runs initial_db) < 2 ^ 63"
    by (simp_all add: example_env_def field_in_range_def datetime_range_def initial_db_def)
  from outbox_rows_bounded [OF this, THEN conjunct1, THEN mp, OF i] obtain row
    where row: "db_outbox db' = [row]" "fresh_entry (example_env 0 0) initial_db row" "ob_kind row = ''model_step''"
    by (auto simp: initial_db_def split: if_splits)
  moreover have "''prompt'' \<notin> set PAYLOAD_KEYS" by (simp add: PAYLOAD_KEYS_def)
  then have "fmlookup (ob_payload row) ''prompt'' = None"
    using row(2) by (cases "fmlookup (ob_payload row) ''prompt''") (auto simp: fresh_entry_def payload_ok_def)
  ultimately show ?thesis using i by (auto simp: fresh_entry_def)
qed

text \<open>(\<open>OutboxStore\<close>) Over any interleaving of inserts, Run updates, claims, settlements, retries,
  trims and cleanups, a row keeps its key, its payload and its creation time, moves only along the
  edges of \<open>EXPORT_OUTBOX\<close>, and once delivered or dropped is never written again; row ids stay
  unique, are never reused, and a row has a finalization time exactly when it is final.\<close>

theorem outbox_rows_move_forward:
  assumes "outbox_wf db" and "outbox_step\<^sup>*\<^sup>* db db'"
  shows "outbox_wf db' \<and> (\<forall>r \<in> set (db_outbox db). \<forall>r' \<in> set (db_outbox db').
     ob_entry_id r' = ob_entry_id r \<longrightarrow> row_next r r' \<and> (ob_state r \<noteq> OX_pending \<longrightarrow> r' = r))"
proof -
  from assms(2) have ev: "evolves db db'"
    by (induction rule: rtranclp_induct) (auto intro: evolves_trans outbox_step_evolves)
  have "row_next r r'" if "r \<in> set (db_outbox db)" "r' \<in> set (db_outbox db')" "ob_entry_id r' = ob_entry_id r" for r r'
  proof -
    have "\<not> db_outbox_seq db < ob_entry_id r'" using assms(1) that by (auto simp: outbox_wf_def)
    with ev assms(1) that obtain x where x: "x \<in> set (db_outbox db)" "row_next x r'"
      by (auto simp: evolves_def)
    moreover from x that have "ob_entry_id x = ob_entry_id r" by (simp add: row_next_def)
    ultimately have "x = r"
      using assms(1) that(1) by (auto simp: outbox_wf_def distinct_map dest: inj_onD)
    with x show ?thesis by simp
  qed
  with ev assms(1) show ?thesis by (auto simp: evolves_def row_next_def)
qed

definition example_outbox :: db where
  "example_outbox = outbox_add (example_env 0 0) ''k'' 1 (Some 2) ''run_state'' fmempty initial_db"

theorem outbox_rows_move_forward_witness:
  "outbox_wf (snd (mark_delivered (example_env 5 0) [1] None example_outbox)) \<and>
   map ob_state (db_outbox (snd (mark_delivered (example_env 5 0) [1] None example_outbox))) = [OX_delivered]"
proof -
  have "outbox_wf example_outbox"
    by (simp add: outbox_wf_def example_outbox_def outbox_add_def initial_db_def)
  moreover have "outbox_step\<^sup>*\<^sup>* example_outbox (snd (mark_delivered (example_env 5 0) [1] None example_outbox))"
    by (intro r_into_rtranclp step_delivered)
  ultimately have "outbox_wf (snd (mark_delivered (example_env 5 0) [1] None example_outbox))"
    by (rule outbox_rows_move_forward [THEN conjunct1])
  then show ?thesis
    by (simp add: mark_delivered_def outbox_update_def example_outbox_def outbox_add_def initial_db_def)
qed

lemma claim_ids:
  "map cl_entry_id (cr_rows (fst (claim_outbox e limit lease now m locked db))) =
     map ob_entry_id (filter (\<lambda>r. \<not> used_up m r) (claim_batch limit (now_or e now) locked db))"
  by (simp add: claim_outbox_def Let_def)

lemma claim_ids_set:
  "cl_entry_id ` set (cr_rows (fst (claim_outbox e limit lease now m locked db))) =
     ob_entry_id ` set (filter (\<lambda>r. \<not> used_up m r) (claim_batch limit (now_or e now) locked db))"
  using arg_cong [OF claim_ids, of set] by (simp only: set_map)

lemma claim_updates:
  "\<exists>db0. snd (claim_outbox e limit lease now m locked db) =
     (let send = filter (\<lambda>r. \<not> used_up m r) (claim_batch limit (now_or e now) locked db) in
      if send = [] then db0 else db0\<lparr>db_outbox := update_where (\<lambda>r. ob_entry_id r \<in> ob_entry_id ` set send)
       (\<lambda>r. r\<lparr>ob_attempts := ob_attempts r + 1, ob_next_attempt_at := Some (now_or e now + lease)\<rparr>)
       (db_outbox db0)\<rparr>)"
  unfolding claim_outbox_def Let_def snd_conv outbox_update_def [of _ "\<lambda>r. r\<lparr>ob_attempts := ob_attempts r + 1,
      ob_next_attempt_at := Some (now_or e now + lease)\<rparr>"] by (rule exI) (rule refl)

lemma claim_sets_lease:
  assumes "r \<in> set (db_outbox (snd (claim_outbox e limit lease now m locked db)))"
    and "ob_entry_id r \<in> cl_entry_id ` set (cr_rows (fst (claim_outbox e limit lease now m locked db)))"
  shows "ob_next_attempt_at r = Some (now_or e now + lease)"
proof -
  define send where "send = filter (\<lambda>r. \<not> used_up m r) (claim_batch limit (now_or e now) locked db)"
  have id: "ob_entry_id r \<in> ob_entry_id ` set send"
    using assms(2) unfolding claim_ids_set send_def .
  then have "send \<noteq> []" by auto
  with claim_updates [of e limit lease now m locked db]
  obtain db0 where "snd (claim_outbox e limit lease now m locked db) =
     db0\<lparr>db_outbox := update_where (\<lambda>r. ob_entry_id r \<in> ob_entry_id ` set send)
       (\<lambda>r. r\<lparr>ob_attempts := ob_attempts r + 1, ob_next_attempt_at := Some (now_or e now + lease)\<rparr>)
       (db_outbox db0)\<rparr>"
    unfolding Let_def send_def [symmetric] by auto
  from assms(1) [unfolded this]
  obtain x where x: "r = (if ob_entry_id x \<in> ob_entry_id ` set send
      then x\<lparr>ob_attempts := ob_attempts x + 1, ob_next_attempt_at := Some (now_or e now + lease)\<rparr> else x)"
    using updated_outbox_row by blast
  show ?thesis
  proof (cases "ob_entry_id x \<in> ob_entry_id ` set send")
    case True
    with x have "r = x\<lparr>ob_attempts := ob_attempts x + 1, ob_next_attempt_at := Some (now_or e now + lease)\<rparr>"
      by (rule trans [OF _ if_P])
    then show ?thesis by simp
  next
    case False
    with x have "r = x" by (rule trans [OF _ if_not_P])
    with False id show ?thesis by blast
  qed
qed

text \<open>(\<open>OutboxStore.claim\<close>) A claimed row belongs to its claimer for the lease: a second claim made
  within the lease of the first never returns a row the first one took, and a claim never returns a
  final row, a row locked by another transaction or one whose attempts are used up.\<close>

theorem outbox_claims_exclusive:
  assumes "claim_outbox e limit lease now m locked db = (res, db1)"
    and "claim_outbox e2 limit2 lease2 now2 m2 locked2 db1 = (res2, db2)"
    and "now_or e2 now2 < now_or e now + lease"
  shows "cl_entry_id ` set (cr_rows res) \<inter> cl_entry_id ` set (cr_rows res2) = {} \<and>
     (\<forall>k \<in> cl_entry_id ` set (cr_rows res). \<exists>r \<in> set (db_outbox db). ob_entry_id r = k \<and>
        ob_state r = OX_pending \<and> k \<notin> set locked \<and> \<not> used_up m r)"
proof (intro conjI)
  have claims: "\<exists>r \<in> set (db_outbox db). ob_entry_id r = k \<and> due (now_or e now) locked r \<and> \<not> used_up m r"
    if "k \<in> cl_entry_id ` set (cr_rows (fst (claim_outbox e limit lease now m locked db)))"
    for k e limit lease now m locked db
    using that claim_batch_due [of limit "now_or e now" locked db] unfolding claim_ids_set by auto
  show "cl_entry_id ` set (cr_rows res) \<inter> cl_entry_id ` set (cr_rows res2) = {}"
  proof (rule equals0I)
    fix k assume k: "k \<in> cl_entry_id ` set (cr_rows res) \<inter> cl_entry_id ` set (cr_rows res2)"
    then obtain r where r: "r \<in> set (db_outbox db1)" "ob_entry_id r = k" "due (now_or e2 now2) locked2 r"
      using claims [of k e2 limit2 lease2 now2 m2 locked2 db1] assms(2) by auto
    with k claim_sets_lease [of r e limit lease now m locked db] assms(1)
    have "ob_next_attempt_at r = Some (now_or e now + lease)" by simp
    with r(3) assms(3) show False by (simp add: due_def)
  qed
  show "\<forall>k \<in> cl_entry_id ` set (cr_rows res). \<exists>r \<in> set (db_outbox db). ob_entry_id r = k \<and>
        ob_state r = OX_pending \<and> k \<notin> set locked \<and> \<not> used_up m r"
    using claims [of _ e limit lease now m locked db] assms(1) by (fastforce simp: due_def)
qed

theorem outbox_claims_exclusive_witness:
  "map cl_entry_id (cr_rows (fst (claim_outbox (example_env 0 0) 10 30 (Some 0) None [] example_outbox))) = [1] \<and>
   1 \<notin> cl_entry_id ` set (cr_rows (fst (claim_outbox (example_env 9 0) 10 30 (Some 9) None []
      (snd (claim_outbox (example_env 0 0) 10 30 (Some 0) None [] example_outbox)))))"
proof -
  let ?c = "claim_outbox (example_env 0 0) 10 30 (Some 0) None [] example_outbox"
  have "map cl_entry_id (cr_rows (fst ?c)) = [1]"
    unfolding claim_ids by (simp add: now_or_def example_outbox_def outbox_add_def
        initial_db_def due_def used_up_def claim_batch_def)
  moreover from this have "1 \<in> cl_entry_id ` set (cr_rows (fst ?c))"
    by (metis image_set list.set_intros(1))
  moreover have "cl_entry_id ` set (cr_rows (fst ?c)) \<inter> cl_entry_id ` set (cr_rows (fst
      (claim_outbox (example_env 9 0) 10 30 (Some 9) None [] (snd ?c)))) = {}"
    by (rule outbox_claims_exclusive [THEN conjunct1, OF prod.collapse [symmetric] prod.collapse [symmetric]])
      (simp add: now_or_def)
  ultimately show ?thesis by blast
qed

end
