(* ===== verification/Store_Sessions.thy ===== *)
theory Store_Sessions
  imports Store_Outbox
begin

section \<open>Ending observation sessions (\<open>observation/revocation.py\<close>)\<close>

text \<open>
  The human-control paths end the observation sessions of an incident inside their own transaction:
  the session state moves by \<open>OBSERVATION_SESSION\<close>, its job slot is cleared, and an append-only ending
  record keeps the reason, the lifecycle before and after and the job that held the slot. Fresh
  ending ids start at index \<open>n\<close> of the environment.
\<close>

definition session_trigger :: "(string \<times> string) list" where
  "session_trigger = [(''recovery_confirmed'', ''observation_completed''), (''deadline_expired'', ''deadline_expired''),
     (''max_samples_exhausted'', ''deadline_expired''), (''authority_revoked'', ''authority_revoked''),
     (''binding_stale'', ''authority_revoked''), (''scope_suspended'', ''authority_revoked'')]"

record session_marks =
  mk_adopted_sequence :: "int option"
  mk_adopted_window_end :: "time option"
  mk_adopted_count :: "int option"
  mk_healthy_since :: "time option"

definition or_old :: "'a option \<Rightarrow> 'a \<Rightarrow> 'a" where
  "or_old v old = (case v of None \<Rightarrow> old | Some x \<Rightarrow> x)"

definition end_session_row ::
  "ObservationSessionState \<Rightarrow> string \<Rightarrow> session_marks option \<Rightarrow> session_row \<Rightarrow> session_row" where
  "end_session_row state reason marks s = s\<lparr>se_state := state, se_ended_reason := Some reason,
     se_adopted_sequence := or_old (Option.bind marks mk_adopted_sequence) (se_adopted_sequence s),
     se_adopted_window_end := (case Option.bind marks mk_adopted_window_end of None \<Rightarrow> se_adopted_window_end s | Some t \<Rightarrow> Some t),
     se_adopted_count := or_old (Option.bind marks mk_adopted_count) (se_adopted_count s),
     se_healthy_since := (case marks of None \<Rightarrow> se_healthy_since s | Some m \<Rightarrow> mk_healthy_since m),
     se_active_sample_job_id := None, se_active_sample_sequence := None, se_active_sample_due_at := None,
     se_active_sample_owner := None, se_active_sample_lease_until := None\<rparr>"

definition end_session ::
  "env \<Rightarrow> nat \<Rightarrow> uuid \<Rightarrow> uuid \<Rightarrow> string \<Rightarrow> string option \<Rightarrow> IncidentLifecycle \<Rightarrow> IncidentLifecycle \<Rightarrow> uuid option
     \<Rightarrow> session_marks option \<Rightarrow> bool \<Rightarrow> db \<Rightarrow> perr + db" where
  "end_session e n session_id incident_id ended_reason transition bef aft sample_id watermark record_job db =
     (let slot = (if record_job then find_row se_session_id session_id (db_sessions db) else None) in
      case map_of session_trigger ended_reason of
        None \<Rightarrow> Inl E_UNCAUGHT
      | Some trigger \<Rightarrow> (case fire OBSERVATION_SESSION OS_authorized trigger of
          Inl _ \<Rightarrow> Inl E_UNCAUGHT
        | Inr state \<Rightarrow>
            bind_result (insert_row en_ending_id
               \<lparr>en_ending_id = env_uuid4 e n, en_session_id = session_id, en_incident_id = incident_id,
                en_ended_reason = ended_reason, en_transition = transition, en_sample_id = sample_id,
                en_lifecycle_before = bef, en_lifecycle_after = aft, en_recorded_at = env_later e,
                en_job_id = Option.bind slot se_active_sample_job_id,
                en_job_sequence = Option.bind slot se_active_sample_sequence\<rparr> (db_endings db))
              (\<lambda>endings. Inr (db\<lparr>db_sessions := update_where (\<lambda>s. se_session_id s = session_id)
                   (end_session_row state ended_reason watermark) (db_sessions db), db_endings := endings\<rparr>))))"

fun end_sessions :: "env \<Rightarrow> nat \<Rightarrow> uuid list \<Rightarrow> uuid \<Rightarrow> IncidentLifecycle \<Rightarrow> db \<Rightarrow> perr + db" where
  "end_sessions e n [] incident_id lc db = Inr db"
| "end_sessions e n (k # ks) incident_id lc db =
     bind_result (end_session e n k incident_id ''authority_revoked'' None lc lc None None True db)
       (end_sessions e (Suc n) ks incident_id lc)"

definition authorized_sessions :: "uuid \<Rightarrow> db \<Rightarrow> uuid list" where
  "authorized_sessions incident_id db =
     sort (map se_session_id (filter (\<lambda>s. se_incident_id s = incident_id \<and> se_state s = OS_authorized) (db_sessions db)))"

definition revoke_authorized_sessions :: "env \<Rightarrow> nat \<Rightarrow> uuid \<Rightarrow> db \<Rightarrow> perr + uuid list \<times> db" where
  "revoke_authorized_sessions e n incident_id db =
     (let ks = authorized_sessions incident_id db in
      if ks = [] then Inr ([], db)
      else case find_incident incident_id db of
        None \<Rightarrow> Inl E_INCONSISTENT_STATE
      | Some i \<Rightarrow> bind_result (end_sessions e n ks incident_id (ir_lifecycle i) db) (\<lambda>db'. Inr (ks, db')))"

subsection \<open>What revocation does\<close>

abbreviation revoked_row :: "session_row \<Rightarrow> session_row" where
  "revoked_row \<equiv> end_session_row OS_revoked ''authority_revoked'' None"

lemma revoked_row_simps [simp]:
  "se_session_id (revoked_row s) = se_session_id s" "se_incident_id (revoked_row s) = se_incident_id s"
  "se_state (revoked_row s) = OS_revoked" "revoked_row (revoked_row s) = revoked_row s"
  by (simp_all add: end_session_row_def or_old_def)

lemma end_session_revoke:
  assumes "end_session e n k i ''authority_revoked'' None l l None None True db = Inr db'"
  shows "\<exists>en. db' = db\<lparr>db_sessions := update_where (\<lambda>s. se_session_id s = k) revoked_row (db_sessions db),
       db_endings := db_endings db @ [en]\<rparr> \<and> en_session_id en = k \<and> en_incident_id en = i \<and>
       en_ended_reason en = ''authority_revoked'' \<and> en_transition en = None \<and>
       en_lifecycle_before en = l \<and> en_lifecycle_after en = l"
  using assms
  by (auto simp: end_session_def session_trigger_def fire_def sm_require_def OBSERVATION_SESSION_def Let_def
      bind_result_Inr_iff insert_row_Inr_iff split: if_splits option.splits sum.splits)

lemma end_sessions_effect:
  assumes "end_sessions e n ks i l db = Inr db'"
  shows "\<exists>ens. db' = db\<lparr>db_sessions := update_where (\<lambda>s. se_session_id s \<in> set ks) revoked_row (db_sessions db),
       db_endings := db_endings db @ ens\<rparr> \<and> map en_session_id ens = ks \<and>
       list_all (\<lambda>en. en_incident_id en = i \<and> en_ended_reason en = ''authority_revoked'' \<and> en_transition en = None
          \<and> en_lifecycle_before en = l \<and> en_lifecycle_after en = l) ens"
  using assms
proof (induction ks arbitrary: n db)
  case Nil
  then show ?case by (auto simp: update_where_cong_id intro!: exI [of _ "[]"])
next
  case (Cons k ks)
  then obtain db1 where s: "end_session e n k i ''authority_revoked'' None l l None None True db = Inr db1"
    and r: "end_sessions e (Suc n) ks i l db1 = Inr db'"
    by (auto simp: bind_result_Inr_iff)
  from end_session_revoke [OF s] obtain en where d1: "db1 = db\<lparr>db_sessions :=
      update_where (\<lambda>s. se_session_id s = k) revoked_row (db_sessions db), db_endings := db_endings db @ [en]\<rparr>"
    and en: "en_session_id en = k" "en_incident_id en = i" "en_ended_reason en = ''authority_revoked''"
      "en_transition en = None" "en_lifecycle_before en = l" "en_lifecycle_after en = l" by blast
  from Cons.IH [OF r] obtain ens where "db' = db1\<lparr>db_sessions := update_where (\<lambda>s. se_session_id s \<in> set ks)
      revoked_row (db_sessions db1), db_endings := db_endings db1 @ ens\<rparr>" "map en_session_id ens = ks"
    "list_all (\<lambda>en. en_incident_id en = i \<and> en_ended_reason en = ''authority_revoked'' \<and> en_transition en = None
          \<and> en_lifecycle_before en = l \<and> en_lifecycle_after en = l) ens" by blast
  with d1 en show ?case by (auto simp: update_where_twice intro!: exI [of _ "en # ens"])
qed

lemma revoke_authorized_sessions_effect:
  assumes "revoke_authorized_sessions e n i db = Inr (ks, db')"
  shows "ks = authorized_sessions i db \<and> (\<exists>ens. db' = db\<lparr>db_sessions := update_where (\<lambda>s. se_session_id s \<in> set ks)
      revoked_row (db_sessions db), db_endings := db_endings db @ ens\<rparr> \<and> map en_session_id ens = ks \<and>
      (\<forall>en \<in> set ens. en_incident_id en = i \<and> en_ended_reason en = ''authority_revoked'' \<and> en_transition en = None \<and>
        (\<exists>x. find_incident i db = Some x \<and> en_lifecycle_before en = ir_lifecycle x \<and> en_lifecycle_after en = ir_lifecycle x)))"
proof (cases "authorized_sessions i db = []")
  case True
  with assms show ?thesis
    by (auto simp: revoke_authorized_sessions_def update_where_cong_id intro!: exI [of _ "[]"])
next
  case False
  with assms obtain x where x: "find_incident i db = Some x" "ks = authorized_sessions i db"
    "end_sessions e n ks i (ir_lifecycle x) db = Inr db'"
    by (auto simp: revoke_authorized_sessions_def Let_def bind_result_Inr_iff split: option.splits)
  with end_sessions_effect [OF x(3)] show ?thesis by (auto simp: list_all_iff)
qed

text \<open>The part every caller uses: only the two observation tables change, and no authorized session of
  the incident is left.\<close>

lemma revoke_shape:
  assumes "revoke_authorized_sessions e n i db = Inr (ks, db')"
  shows "\<exists>ss ens. db' = db\<lparr>db_sessions := ss, db_endings := ens\<rparr>"
  using revoke_authorized_sessions_effect [OF assms] by blast

lemma revoke_none_left:
  assumes "revoke_authorized_sessions e n i db = Inr (ks, db')"
  shows "\<forall>s \<in> set (db_sessions db'). se_incident_id s = i \<longrightarrow> se_state s \<noteq> OS_authorized"
proof -
  from revoke_authorized_sessions_effect [OF assms] obtain ens where ks: "ks = authorized_sessions i db"
    and db': "db' = db\<lparr>db_sessions := update_where (\<lambda>s. se_session_id s \<in> set ks) revoked_row (db_sessions db),
      db_endings := db_endings db @ ens\<rparr>" by blast
  show ?thesis
    unfolding db' ks authorized_sessions_def by (auto simp: set_update_where)
qed

end
