(* ===== verification/Store_Knowledge.thy ===== *)
theory Store_Knowledge
  imports Store_Outbox
begin

section \<open>Marking postmortem drafts stale (\<open>knowledge/store.py\<close>)\<close>

text \<open>
  A business transaction that moves an incident's watermark (a control decision, a new Run, a new
  input) marks every draft or under-review postmortem version behind it stale before it commits:
  \<open>mark_stale_in\<close> compares each version with \<open>moved_components\<close>, writes the audit and the request record,
  raises the postmortem's generation and sets the version stale. Fresh ids start at index \<open>n\<close>: two
  per version, the audit event and the key. The hash of a canonical JSON text is of the environment;
  the guard triggers of migration 0008, which admit this path, are not modelled.
\<close>

definition STALE_REASONS :: "string list" where
  "STALE_REASONS = [''control_generation_changed'', ''incident_reopened'', ''observation_changed'', ''run_added'',
     ''input_added'', ''evidence_changed'']"

text \<open>\<open>str\<close> is at least the order of its characters: the SQL \<open>ORDER BY\<close> of the evidence ids, as a sort on
  the character codes.\<close>

definition char_codes :: "string \<Rightarrow> nat list" where "char_codes s = map of_char s"

fun codes_le :: "nat list \<Rightarrow> nat list \<Rightarrow> bool" where
  "codes_le [] ys = True"
| "codes_le (x # xs) [] = False"
| "codes_le (x # xs) (y # ys) = (x < y \<or> (x = y \<and> codes_le xs ys))"

fun insert_evidence :: "evidence_row \<Rightarrow> evidence_row list \<Rightarrow> evidence_row list" where
  "insert_evidence r [] = [r]"
| "insert_evidence r (x # xs) =
     (if codes_le (char_codes (ei_evidence_id r)) (char_codes (ei_evidence_id x)) then r # x # xs
      else x # insert_evidence r xs)"

definition run_count :: "uuid \<Rightarrow> db \<Rightarrow> int" where
  "run_count incident_id db = int (length (filter (\<lambda>r. rr_incident_id r = incident_id) (db_runs db)))"

definition evidence_snapshot :: "env \<Rightarrow> uuid \<Rightarrow> db \<Rightarrow> string" where
  "evidence_snapshot e incident_id db =
     (let runs = map (\<lambda>r. uuid_str (rr_run_id r)) (filter (\<lambda>r. rr_incident_id r = incident_id) (db_runs db));
          rows = foldr insert_evidence (filter (\<lambda>x. ei_committed x \<and> ei_run_id x \<in> set runs) (db_evidence db)) []
      in env_json_sha256 e (JArr (map (\<lambda>x. JArr [JStr (ei_evidence_id x), JStr (ei_raw_sha256 x), JStr (ei_view_sha256 x),
           JBool (ei_adopted x)]) rows)))"

definition last_input :: "uuid \<Rightarrow> db \<Rightarrow> int" where
  "last_input incident_id db =
     max_or 0 (map in_sequence (filter (\<lambda>x. in_incident_id x = incident_id) (db_inputs db)))"

definition moved_components :: "env \<Rightarrow> uuid \<Rightarrow> postmortem_version_row \<Rightarrow> db \<Rightarrow> perr + string list" where
  "moved_components e incident_id w db = (case find_incident incident_id db of
      None \<Rightarrow> Inl E_NOT_FOUND
    | Some i \<Rightarrow> Inr (
        (if ir_observation_generation i \<noteq> pv_observation_generation w then [''observation_generation''] else []) @
        (if run_count incident_id db \<noteq> pv_run_count w \<or> ir_current_run_id i \<noteq> pv_last_run_id w then [''run''] else []) @
        (if ir_control_generation i \<noteq> pv_incident_control_generation w then [''control_generation''] else []) @
        (if last_input incident_id db \<noteq> pv_input_watermark w then [''input_watermark''] else []) @
        (if evidence_snapshot e incident_id db \<noteq> pv_evidence_snapshot_sha256 w then [''evidence''] else [])))"

definition moved_reasons :: "(string \<times> string) list" where
  "moved_reasons = [(''observation_generation'', ''observation_changed''), (''run'', ''run_added''),
     (''control_generation'', ''control_generation_changed''), (''input_watermark'', ''input_added''),
     (''evidence'', ''evidence_changed'')]"

definition stale_reason_for :: "string list \<Rightarrow> string option" where
  "stale_reason_for moved = map_option snd (List.find (\<lambda>(component, reason). component \<in> set moved) moved_reasons)"

definition bump_postmortem :: "uuid \<Rightarrow> int \<Rightarrow> db \<Rightarrow> db" where
  "bump_postmortem postmortem_id expected db = db\<lparr>db_postmortems :=
     update_where (\<lambda>h. ph_postmortem_id h = postmortem_id) (\<lambda>h. h\<lparr>ph_generation := expected + 1\<rparr>) (db_postmortems db)\<rparr>"

definition f13_audit ::
  "env \<Rightarrow> nat \<Rightarrow> string \<Rightarrow> string \<Rightarrow> uuid \<Rightarrow> string \<Rightarrow> string \<times> string \<Rightarrow> int \<Rightarrow> int option \<Rightarrow> int option \<Rightarrow> string option
     \<Rightarrow> db \<Rightarrow> perr + db" where
  "f13_audit e n key object_kind object_id action actor expected version revision reason db =
     bind_result (insert_row fa_event_id
       \<lparr>fa_event_id = env_uuid4 e n, fa_idempotency_key = key, fa_object_kind = object_kind, fa_object_id = object_id,
        fa_action = action, fa_version = version, fa_revision = revision, fa_actor_id = fst actor,
        fa_principal_kind = snd actor, fa_reason = reason, fa_expected_generation = expected,
        fa_resulting_generation = expected + 1\<rparr> (db_f13_audit db))
      (\<lambda>rows. Inr (db\<lparr>db_f13_audit := rows\<rparr>))"

definition record_request :: "env \<Rightarrow> string \<Rightarrow> string \<Rightarrow> json \<Rightarrow> json \<Rightarrow> db \<Rightarrow> perr + db" where
  "record_request e key action request result db =
     bind_result (insert_row fr_idempotency_key
       \<lparr>fr_idempotency_key = key, fr_action = action, fr_request_sha256 = env_json_sha256 e request, fr_result = result\<rparr>
       (db_f13_requests db))
      (\<lambda>rows. Inr (db\<lparr>db_f13_requests := rows\<rparr>))"

definition stale_request :: "uuid \<Rightarrow> int \<Rightarrow> string \<Rightarrow> int \<Rightarrow> string \<Rightarrow> json" where
  "stale_request postmortem_id version reason generation actor = JObj (fmap_of_list
     [(''action'', JStr ''mark_stale''), (''postmortem_id'', JStr (uuid_str postmortem_id)), (''version'', JInt version),
      (''reason'', JStr reason), (''expected_generation'', JInt generation), (''actor'', JArr [JStr actor, JStr ''worker''])])"

definition stale_result :: "uuid \<Rightarrow> int \<Rightarrow> int \<Rightarrow> json" where
  "stale_result postmortem_id version generation = JObj (fmap_of_list
     [(''action'', JStr ''mark_stale''), (''object_kind'', JStr ''postmortem''), (''object_id'', JStr (uuid_str postmortem_id)),
      (''generation'', JInt generation), (''version'', JInt version), (''revision'', JNull), (''state'', JStr ''stale''),
      (''published'', JObj fmempty)])"

text \<open>The loop over the open versions, read once before it.\<close>

fun mark_versions :: "env \<Rightarrow> nat \<Rightarrow> uuid \<Rightarrow> uuid \<Rightarrow> int \<Rightarrow> string \<Rightarrow> string \<Rightarrow> postmortem_version_row list \<Rightarrow> db \<Rightarrow> perr + db" where
  "mark_versions e n incident_id postmortem_id generation reason source [] db = Inr db"
| "mark_versions e n incident_id postmortem_id generation reason source (w # ws) db =
     bind_result (moved_components e incident_id w db) (\<lambda>moved.
       if moved = [] then mark_versions e (n + 2) incident_id postmortem_id generation reason source ws db
       else
         (let actor = ''system:'' @ source; key = ''stale:'' @ source @ '':'' @ uuid_str (env_uuid4 e (n + 1)) in
          bind_result (f13_audit e n key ''postmortem'' postmortem_id ''mark_stale'' (actor, ''worker'') generation
              (Some (pv_version w)) None (Some reason) db) (\<lambda>db1.
          bind_result (record_request e key ''mark_stale''
              (stale_request postmortem_id (pv_version w) reason generation actor)
              (stale_result postmortem_id (pv_version w) (generation + 1))
              ((bump_postmortem postmortem_id generation db1)\<lparr>db_postmortem_versions :=
                 update_where (\<lambda>v. pv_postmortem_id v = postmortem_id \<and> pv_version v = pv_version w)
                   (\<lambda>v. v\<lparr>pv_state := PM_stale, pv_stale_reason := Some reason\<rparr>) (db_postmortem_versions db1)\<rparr>))
            (mark_versions e (n + 2) incident_id postmortem_id (generation + 1) reason source ws))))"

definition open_versions :: "uuid \<Rightarrow> db \<Rightarrow> postmortem_version_row list" where
  "open_versions postmortem_id db = sort_key pv_version
     (filter (\<lambda>v. pv_postmortem_id v = postmortem_id \<and> pv_state v \<in> {PM_draft, PM_under_review}) (db_postmortem_versions db))"

definition mark_stale_in :: "env \<Rightarrow> nat \<Rightarrow> uuid \<Rightarrow> string \<Rightarrow> string \<Rightarrow> db \<Rightarrow> perr + db" where
  "mark_stale_in e n incident_id reason source db =
     (if reason \<notin> set STALE_REASONS \<or> strip is_space source = [] then Inl E_INVALID_INPUT
      else case find_row ph_incident_id incident_id (db_postmortems db) of
        None \<Rightarrow> Inr db
      | Some h \<Rightarrow>
          if open_versions (ph_postmortem_id h) db = [] then Inr db
          else mark_versions e n incident_id (ph_postmortem_id h) (ph_generation h) reason source
                 (open_versions (ph_postmortem_id h) db) db)"

subsection \<open>Only the knowledge tables change\<close>

definition knowledge_only :: "db \<Rightarrow> db \<Rightarrow> bool" where
  "knowledge_only db db' \<longleftrightarrow> db_runs db' = db_runs db
     \<and> db_incidents db' = db_incidents db
     \<and> db_global_suspended db' = db_global_suspended db
     \<and> db_global_generation db' = db_global_generation db
     \<and> db_targets db' = db_targets db
     \<and> db_target_suspensions db' = db_target_suspensions db
     \<and> db_suspension_audit db' = db_suspension_audit db
     \<and> db_steps db' = db_steps db
     \<and> db_controls db' = db_controls db
     \<and> db_inputs db' = db_inputs db
     \<and> db_rounds db' = db_rounds db
     \<and> db_reservations db' = db_reservations db
     \<and> db_charges db' = db_charges db
     \<and> db_sessions db' = db_sessions db
     \<and> db_endings db' = db_endings db
     \<and> db_conclusions db' = db_conclusions db \<and> db_disputes db' = db_disputes db \<and> db_proposals db' = db_proposals db
     \<and> db_entries db' = db_entries db \<and> db_revisions db' = db_revisions db \<and> db_revocations db' = db_revocations db
     \<and> db_generation_jobs db' = db_generation_jobs db
     \<and> db_samples db' = db_samples db \<and> db_profiles db' = db_profiles db
     \<and> db_self_heal db' = db_self_heal db \<and> db_events db' = db_events db
     \<and> db_outbox db' = db_outbox db
     \<and> db_outbox_seq db' = db_outbox_seq db
     \<and> db_evidence db' = db_evidence db
     \<and> db_alert_identities db' = db_alert_identities db
     \<and> db_alert_deliveries db' = db_alert_deliveries db
     \<and> db_alert_seq db' = db_alert_seq db \<and> db_web_ledger db' = db_web_ledger db
     \<and> db_release_links db' = db_release_links db"

lemma knowledge_only_refl [simp]: "knowledge_only db db"
  by (simp add: knowledge_only_def)

lemma knowledge_only_trans: "knowledge_only a b \<Longrightarrow> knowledge_only b c \<Longrightarrow> knowledge_only a c"
  by (simp add: knowledge_only_def)

lemma mark_versions_frame:
  "mark_versions e n i p g reason source ws db = Inr db' \<Longrightarrow> knowledge_only db db'"
proof (induction ws arbitrary: n g db)
  case (Cons w ws)
  from Cons.prems obtain moved where m: "moved_components e i w db = Inr moved" by (auto simp: bind_result_Inr_iff)
  show ?case
  proof (cases "moved = []")
    case True
    with m Cons show ?thesis by simp
  next
    case False
    with Cons.prems m obtain au rq where
      "mark_versions e (n + 2) i p (g + 1) reason source ws ((bump_postmortem p g (db\<lparr>db_f13_audit := au\<rparr>))
         \<lparr>db_postmortem_versions := update_where (\<lambda>v. pv_postmortem_id v = p \<and> pv_version v = pv_version w)
                   (\<lambda>v. v\<lparr>pv_state := PM_stale, pv_stale_reason := Some reason\<rparr>) (db_postmortem_versions db),
          db_f13_requests := rq\<rparr>) = Inr db'"
      by (auto simp: Let_def bind_result_Inr_iff f13_audit_def record_request_def bump_postmortem_def)
    from Cons.IH [OF this] show ?thesis
      by (rule knowledge_only_trans [rotated]) (simp add: knowledge_only_def bump_postmortem_def)
  qed
qed simp

lemma mark_stale_frame: "mark_stale_in e n i reason source db = Inr db' \<Longrightarrow> knowledge_only db db'"
  by (auto simp: mark_stale_in_def dest: mark_versions_frame split: if_splits option.splits)

subsection \<open>Exactly the versions behind the watermark become stale\<close>

lemma moved_components_cong:
  assumes "knowledge_only db db'"
  shows "moved_components e i w db' = moved_components e i w db"
  using assms by (simp add: moved_components_def knowledge_only_def run_count_def last_input_def evidence_snapshot_def
      split: option.split)

definition stale_row :: "string \<Rightarrow> postmortem_version_row \<Rightarrow> postmortem_version_row" where
  "stale_row reason v = v\<lparr>pv_state := PM_stale, pv_stale_reason := Some reason\<rparr>"

lemma mark_versions_effect:
  assumes "mark_versions e n i p g reason source ws db = Inr db'"
  shows "db_postmortem_versions db' = update_where (\<lambda>v. pv_postmortem_id v = p \<and>
      (\<exists>w \<in> set ws. pv_version v = pv_version w \<and> moved_components e i w db \<noteq> Inr [])) (stale_row reason)
      (db_postmortem_versions db)"
  using assms
proof (induction ws arbitrary: n g db)
  case Nil
  then show ?case by (simp add: update_where_cong_id)
next
  case (Cons w ws)
  from Cons.prems obtain moved where m: "moved_components e i w db = Inr moved" by (auto simp: bind_result_Inr_iff)
  show ?case
  proof (cases "moved = []")
    case True
    with m Cons.prems Cons.IH [of "n + 2" g db] show ?thesis by simp
  next
    case False
    with Cons.prems m obtain au rq where
      r: "mark_versions e (n + 2) i p (g + 1) reason source ws ((bump_postmortem p g (db\<lparr>db_f13_audit := au\<rparr>))
         \<lparr>db_postmortem_versions := update_where (\<lambda>v. pv_postmortem_id v = p \<and> pv_version v = pv_version w)
                   (stale_row reason) (db_postmortem_versions db), db_f13_requests := rq\<rparr>) = Inr db'"
      by (auto simp: Let_def bind_result_Inr_iff f13_audit_def record_request_def bump_postmortem_def stale_row_def [abs_def])
    have k: "knowledge_only db ((bump_postmortem p g (db\<lparr>db_f13_audit := au\<rparr>))
         \<lparr>db_postmortem_versions := update_where (\<lambda>v. pv_postmortem_id v = p \<and> pv_version v = pv_version w)
                   (stale_row reason) (db_postmortem_versions db), db_f13_requests := rq\<rparr>)"
      by (simp add: knowledge_only_def bump_postmortem_def)
    have s: "pv_postmortem_id (stale_row reason v) = pv_postmortem_id v" "pv_version (stale_row reason v) = pv_version v"
      "stale_row reason (stale_row reason v) = stale_row reason v" for v by (simp_all add: stale_row_def)
    from Cons.IH [OF r] moved_components_cong [OF k] m False show ?thesis
      by (simp add: update_where_twice s) (rule arg_cong [where f = "\<lambda>P. update_where P _ _"], auto)
  qed
qed

text \<open>(\<open>mark_stale_in\<close>) When it succeeds, no draft or under-review version of the incident's postmortem is left
  behind the incident's watermark, every version it changed was open and behind, became stale with
  the given reason and kept the rest, and nothing outside the postmortem tables changed; so with
  nothing moved it changes no version.\<close>

theorem stale_marking_exact:
  assumes "mark_stale_in e n i reason source db = Inr db'"
    and "find_row ph_incident_id i (db_postmortems db) = Some h"
    and "distinct (map (\<lambda>v. (pv_postmortem_id v, pv_version v)) (db_postmortem_versions db))"
  shows "knowledge_only db db' \<and>
    (\<forall>v \<in> set (db_postmortem_versions db'). pv_postmortem_id v = ph_postmortem_id h \<and> pv_state v \<in> {PM_draft, PM_under_review}
       \<longrightarrow> moved_components e i v db' = Inr []) \<and>
    (\<forall>v \<in> set (db_postmortem_versions db). v \<in> set (db_postmortem_versions db') \<or>
       (stale_row reason v \<in> set (db_postmortem_versions db') \<and> pv_state v \<in> {PM_draft, PM_under_review}
        \<and> moved_components e i v db \<noteq> Inr []))"
proof -
  let ?p = "ph_postmortem_id h"
  let ?ws = "open_versions ?p db"
  let ?B = "\<lambda>v. pv_postmortem_id v = ?p \<and> (\<exists>w \<in> set ?ws. pv_version v = pv_version w \<and> moved_components e i w db \<noteq> Inr [])"
  have frame: "knowledge_only db db'" using assms(1) by (rule mark_stale_frame)
  have vs: "db_postmortem_versions db' = update_where ?B (stale_row reason) (db_postmortem_versions db)"
  proof (cases "?ws = []")
    case True
    with assms(1,2) have "db' = db" by (auto simp: mark_stale_in_def split: if_splits)
    with True show ?thesis by (simp add: update_where_cong_id)
  next
    case False
    with assms(1,2) mark_versions_effect show ?thesis by (auto simp: mark_stale_in_def split: if_splits)
  qed
  have ws: "w \<in> set ?ws \<longleftrightarrow> w \<in> set (db_postmortem_versions db) \<and> pv_postmortem_id w = ?p \<and> pv_state w \<in> {PM_draft, PM_under_review}" for w
    by (auto simp: open_versions_def)
  have B: "pv_state v \<in> {PM_draft, PM_under_review} \<and> moved_components e i v db \<noteq> Inr []"
    if v: "v \<in> set (db_postmortem_versions db)" "?B v" for v
  proof -
    from v(2) ws obtain w where w: "w \<in> set (db_postmortem_versions db)" "pv_postmortem_id w = ?p" "pv_version v = pv_version w"
      "pv_state w \<in> {PM_draft, PM_under_review}" "moved_components e i w db \<noteq> Inr []" "pv_postmortem_id v = ?p" by blast
    with assms(3) v(1) have "v = w" by (auto simp: distinct_map inj_on_def)
    with w show ?thesis by simp
  qed
  have "moved_components e i v db' = Inr []" if v: "v \<in> set (db_postmortem_versions db')" "pv_postmortem_id v = ?p"
      "pv_state v \<in> {PM_draft, PM_under_review}" for v
  proof -
    from v(1) obtain x where x: "x \<in> set (db_postmortem_versions db)" "v = (if ?B x then stale_row reason x else x)"
      unfolding vs set_update_where by blast
    with v(3) have "v = x" "\<not> ?B x" by (auto simp: stale_row_def split: if_splits)
    with v x(1) ws have "moved_components e i v db = Inr []" by blast
    then show ?thesis using moved_components_cong [OF frame] by simp
  qed
  moreover have "v \<in> set (db_postmortem_versions db') \<or> (stale_row reason v \<in> set (db_postmortem_versions db') \<and>
      pv_state v \<in> {PM_draft, PM_under_review} \<and> moved_components e i v db \<noteq> Inr [])"
    if "v \<in> set (db_postmortem_versions db)" for v
    using that B [OF that] unfolding vs set_update_where by (cases "?B v") (auto simp: image_iff)
  ultimately show ?thesis using frame by blast
qed

definition example_version :: postmortem_version_row where
  "example_version = \<lparr>pv_postmortem_id = 30, pv_version = 1, pv_state = PM_draft, pv_stale_reason = None,
     pv_incident_control_generation = 0, pv_observation_generation = 0, pv_run_count = 0, pv_last_run_id = None,
     pv_input_watermark = 0, pv_evidence_snapshot_sha256 = replicate 64 (CHR ''0''), pv_observation_session_id = 40, pv_observation_ending_id = 41,
     pv_revises_version = None, pv_content = [], pv_content_sha256 = replicate 64 (CHR ''0''), pv_generated_by = ''w'', pv_created_at = 0\<rparr>"

definition example_postmortem_db :: db where
  "example_postmortem_db = initial_db\<lparr>db_postmortems := [\<lparr>ph_postmortem_id = 30, ph_incident_id = 1, ph_generation = 4, ph_latest_version = 1\<rparr>],
     db_postmortem_versions := [example_version],
     db_incidents := [\<lparr>ir_incident_id = 1, ir_intake_key = ''k'', ir_state = IS_running, ir_mode = M_automatic,
       ir_lifecycle = L_open, ir_control_generation = 1, ir_observation_generation = 0, ir_current_run_id = None,
       ir_conclusion = None, ir_target_id = None, ir_priority = 2, ir_related_incident_id = None,
       ir_merged_into_incident_id = None, ir_created_at = 0\<rparr>]\<rparr>"

lemma pv_state_stale_row: "pv_state (stale_row reason v) = PM_stale"
  by (simp add: stale_row_def)

lemma mark_versions_single:
  assumes "moved_components e i w db = Inr (m # ms)" "db_f13_audit db = []" "db_f13_requests db = []"
  shows "\<exists>db'. mark_versions e n i p g reason source [w] db = Inr db' \<and>
    db_postmortem_versions db' = update_where (\<lambda>v. pv_postmortem_id v = p \<and> pv_version v = pv_version w)
                   (stale_row reason) (db_postmortem_versions db)"
  using assms by (simp add: Let_def f13_audit_def record_request_def insert_row_def bump_postmortem_def stale_row_def [abs_def])

theorem stale_marking_exact_witness:
  "\<exists>db'. mark_stale_in (example_env 0 100) 0 1 ''control_generation_changed'' ''control.pause'' example_postmortem_db = Inr db' \<and>
     knowledge_only example_postmortem_db db' \<and> map pv_state (db_postmortem_versions db') = [PM_stale]"
proof -
  let ?r = "''control_generation_changed''" and ?s = "''control.pause''"
  have h: "find_row ph_incident_id 1 (db_postmortems example_postmortem_db) =
      Some \<lparr>ph_postmortem_id = 30, ph_incident_id = 1, ph_generation = 4, ph_latest_version = 1\<rparr>"
    by (simp add: example_postmortem_db_def)
  have d: "distinct (map (\<lambda>v. (pv_postmortem_id v, pv_version v)) (db_postmortem_versions example_postmortem_db))"
    by (simp add: example_postmortem_db_def)
  have o: "open_versions 30 example_postmortem_db = [example_version]"
    by (simp add: open_versions_def example_postmortem_db_def example_version_def)
  have m: "moved_components (example_env 0 100) 1 example_version example_postmortem_db = Inr [''control_generation'']"
    by (simp add: moved_components_def example_postmortem_db_def example_version_def run_count_def last_input_def
        evidence_snapshot_def initial_db_def example_env_def)
  have "strip is_space ?s \<noteq> []" by code_simp
  moreover have "?r \<in> set STALE_REASONS" by (simp add: STALE_REASONS_def)
  ultimately have "mark_stale_in (example_env 0 100) 0 1 ?r ?s example_postmortem_db =
      mark_versions (example_env 0 100) 0 1 30 4 ?r ?s [example_version] example_postmortem_db"
    unfolding mark_stale_in_def using h o by (simp del: mark_versions.simps)
  moreover have "db_f13_audit example_postmortem_db = []" "db_f13_requests example_postmortem_db = []"
    by (simp_all add: example_postmortem_db_def initial_db_def)
  ultimately obtain db' where db': "mark_stale_in (example_env 0 100) 0 1 ?r ?s example_postmortem_db = Inr db'"
    "db_postmortem_versions db' = update_where (\<lambda>v. pv_postmortem_id v = 30 \<and> pv_version v = pv_version example_version)
       (stale_row ?r) (db_postmortem_versions example_postmortem_db)"
    using mark_versions_single [OF m, of 0 30 4 ?r ?s] by metis
  have "db_postmortem_versions example_postmortem_db = [example_version]" "pv_postmortem_id example_version = 30"
    by (simp_all add: example_postmortem_db_def example_version_def)
  then have "map pv_state (db_postmortem_versions db') = [PM_stale]"
    unfolding db'(2) by (simp only: update_where_Nil update_where_Cons pv_state_stale_row list.map simp_thms if_True)
  with stale_marking_exact [OF db'(1) h d, THEN conjunct1] db'(1) show ?thesis by (intro exI conjI)
qed

end
