(* ===== verification/Store_Fence.thy ===== *)
theory Store_Fence
  imports Store_Outbox
begin

section \<open>What the fence promises to every lease-holding write\<close>

text \<open>
  The contract shared by the write paths that take a \<open>Lease\<close>: under a lease that the fence calls revoked
  the write has no effect. What a refused reply may leave behind is a row of history, a step with
  status \<open>late_result\<close>; \<open>live\<close> is the database without that history. The locale is interpreted on
  each write path in the theory that defines it. A lease is superseded once a newer human decision,
  a newer attempt or a newer suspension or release of its scope exists; a superseded lease is
  revoked whatever the clock says.
\<close>

definition live :: "db \<Rightarrow> db" where
  "live db = db\<lparr>db_steps := filter (\<lambda>s. st_status s \<noteq> ST_late_result) (db_steps db)\<rparr>"

definition superseded :: "db \<Rightarrow> Lease \<Rightarrow> bool" where
  "superseded db lease \<longleftrightarrow> (case run_join db (le_run_id lease) of
      None \<Rightarrow> False
    | Some (r, i) \<Rightarrow> le_control_generation lease < ir_control_generation i \<or> le_epoch lease < rr_epoch r
        \<or> le_global_suspension_generation lease < db_global_generation db
        \<or> (le_control_generation lease = ir_control_generation i
            \<and> le_target_suspension_generation lease < sc_target_generation (joined_scope db i)))"

lemma joined_scope_global [simp]:
  "sc_global_suspended (joined_scope db i) = db_global_suspended db"
  "sc_global_generation (joined_scope db i) = db_global_generation db"
  by (simp_all add: joined_scope_def Let_def)

lemma superseded_invalid: "superseded db lease \<Longrightarrow> \<not> lease_valid db lease now"
  by (cases "run_join db (le_run_id lease)") (auto simp: superseded_def lease_valid_def lease_revoked_def)

text \<open>The current Run of an incident is a Run of that incident; a part of the store invariant that every
  operation keeps, and what \<open>publish\<close> relies on when it reads the Run through the incident.\<close>

definition current_runs_ok :: "db \<Rightarrow> bool" where
  "current_runs_ok db \<longleftrightarrow> (\<forall>i \<in> set (db_incidents db). case ir_current_run_id i of None \<Rightarrow> True
     | Some k \<Rightarrow> (case find_run k db of None \<Rightarrow> False | Some r \<Rightarrow> rr_incident_id r = ir_incident_id i))"

lemma current_runs_okD:
  "current_runs_ok db \<Longrightarrow> i \<in> set (db_incidents db) \<Longrightarrow> ir_current_run_id i = Some k \<Longrightarrow>
     \<exists>r. find_run k db = Some r \<and> rr_incident_id r = ir_incident_id i"
  by (fastforce simp: current_runs_ok_def split: option.splits)

lemma current_runs_ok_mono:
  assumes "current_runs_ok db"
    and "\<And>k r. find_run k db = Some r \<Longrightarrow> \<exists>r'. find_run k db' = Some r' \<and> rr_incident_id r' = rr_incident_id r"
    and "\<And>i'. i' \<in> set (db_incidents db') \<Longrightarrow> \<exists>i \<in> set (db_incidents db).
       ir_incident_id i' = ir_incident_id i \<and> ir_current_run_id i' = ir_current_run_id i"
  shows "current_runs_ok db'"
proof -
  have "\<exists>r'. find_run k db' = Some r' \<and> rr_incident_id r' = ir_incident_id i'"
    if i': "i' \<in> set (db_incidents db')" "ir_current_run_id i' = Some k" for i' k
  proof -
    from assms(3) [OF i'(1)] i'(2) obtain i where "i \<in> set (db_incidents db)" "ir_incident_id i' = ir_incident_id i"
      "ir_current_run_id i = Some k" by auto
    with current_runs_okD [OF assms(1)] assms(2) show ?thesis by metis
  qed
  then show ?thesis by (fastforce simp: current_runs_ok_def split: option.split)
qed

lemma current_runs_ok_update:
  assumes "current_runs_ok db" and "db_runs db' = update_where P f (db_runs db)"
    and "db_incidents db' = update_where Q g (db_incidents db)"
    and "\<And>r. rr_run_id (f r) = rr_run_id r \<and> rr_incident_id (f r) = rr_incident_id r"
    and "\<And>i. ir_incident_id (g i) = ir_incident_id i \<and> ir_current_run_id (g i) = ir_current_run_id i"
  shows "current_runs_ok db'"
proof (rule current_runs_ok_mono [OF assms(1)])
  show "\<exists>r'. find_run k db' = Some r' \<and> rr_incident_id r' = rr_incident_id r" if "find_run k db = Some r" for k r
    using that assms(4) by (simp add: assms(2) find_row_update_where)
  show "\<exists>i \<in> set (db_incidents db). ir_incident_id i' = ir_incident_id i \<and> ir_current_run_id i' = ir_current_run_id i"
    if "i' \<in> set (db_incidents db')" for i'
    using that assms(5) unfolding assms(3) set_update_where by (auto split: if_splits)
qed

locale fenced_write =
  fixes op_write :: "env \<Rightarrow> Lease \<Rightarrow> db \<Rightarrow> 'a outcome"
  assumes revoked_no_effect:
    "current_runs_ok db \<Longrightarrow> \<not> lease_valid db lease (env_now e) \<Longrightarrow> live (snd (op_write e lease db)) = live db"
begin

lemma superseded_no_effect:
  "current_runs_ok db \<Longrightarrow> superseded db lease \<Longrightarrow> live (snd (op_write e lease db)) = live db"
  using revoked_no_effect superseded_invalid by blast

end

text \<open>A write whose errors roll back and that succeeds only under a valid lease keeps the contract.\<close>

locale lease_checked =
  fixes body :: "env \<Rightarrow> Lease \<Rightarrow> db \<Rightarrow> 'a tx"
  assumes success_needs_lease: "body e lease db = Inr (x, db') \<Longrightarrow> lease_valid db lease (env_now e)"
begin

lemma revoked_refused: "\<not> lease_valid db lease (env_now e) \<Longrightarrow> \<exists>err. transaction db (body e lease db) = (Inl err, db)"
  by (cases "body e lease db") (auto dest: success_needs_lease)

end

sublocale lease_checked \<subseteq> fenced_write "\<lambda>e lease db. transaction db (body e lease db)"
proof
  fix db :: db and lease :: Lease and e :: env
  assume "\<not> lease_valid db lease (env_now e)"
  from revoked_refused [OF this] obtain err where "transaction db (body e lease db) = (Inl err, db)" ..
  then show "live (snd (transaction db (body e lease db))) = live db" by simp
qed

text \<open>The fenced read every such body starts with.\<close>

definition fenced_join :: "env \<Rightarrow> Lease \<Rightarrow> db \<Rightarrow> perr + run_row \<times> incident_row" where
  "fenced_join e lease db = (case lock_scope db (Some (le_incident_id lease)) [] of
      Inl err \<Rightarrow> Inl err
    | Inr _ \<Rightarrow> (case run_join db (le_run_id lease) of
        None \<Rightarrow> Inl E_CONTROL_DENIED
      | Some (r, i) \<Rightarrow> if lease_revoked r i (joined_scope db i) lease (env_now e) then Inl E_CONTROL_DENIED
          else Inr (r, i)))"

lemma fenced_join_Inr:
  "fenced_join e lease db = Inr (r, i) \<Longrightarrow>
     run_join db (le_run_id lease) = Some (r, i) \<and> lease_valid db lease (env_now e)
     \<and> find_run (le_run_id lease) db = Some r \<and> find_incident (rr_incident_id r) db = Some i"
  by (auto simp: fenced_join_def lease_valid_def run_join_Some_iff split: sum.splits option.splits if_splits)

lemma lease_validD:
  assumes "lease_valid db lease now"
  obtains r i u where "find_run (le_run_id lease) db = Some r" "find_incident (rr_incident_id r) db = Some i"
    "rr_owner r = Some (le_owner lease)" "rr_epoch r = le_epoch lease"
    "ir_control_generation i = le_control_generation lease" "rr_lease_until r = Some u" "now < u"
    "now < rr_deadline r" "\<not> db_global_suspended db" "db_global_generation db = le_global_suspension_generation lease"
  using assms by (auto simp: lease_valid_def lease_revoked_def joined_scope_def Let_def run_join_Some_iff
      split: option.splits)

text \<open>A small database for the concrete examples: one incident with one running attempt.\<close>

definition example_run_row :: run_row where
  "example_run_row = \<lparr>rr_run_id = 10, rr_incident_id = 1, rr_state = R_running, rr_epoch = 1, rr_owner = Some 7,
     rr_lease_until = Some 100, rr_control_generation = 0, rr_budget_limit = 5, rr_budget_reserved = 0,
     rr_budget_spent = 0, rr_budget_unknown = 0, rr_deadline = 1000, rr_versions = fmempty, rr_input_watermark = 0,
     rr_tool_operations_used = 0, rr_tool_seconds_used = 0, rr_input = None\<rparr>"

definition example_incident_row :: incident_row where
  "example_incident_row = \<lparr>ir_incident_id = 1, ir_intake_key = ''k'', ir_state = IS_running, ir_mode = M_automatic,
     ir_lifecycle = L_open, ir_control_generation = 0, ir_observation_generation = 0, ir_current_run_id = Some 10,
     ir_conclusion = None, ir_target_id = None, ir_priority = 2, ir_related_incident_id = None,
     ir_merged_into_incident_id = None, ir_created_at = 0\<rparr>"

definition example_db :: db where
  "example_db = initial_db\<lparr>db_runs := [example_run_row], db_incidents := [example_incident_row]\<rparr>"

definition example_lease :: Lease where
  "example_lease = \<lparr>le_incident_id = 1, le_run_id = 10, le_owner = 7, le_epoch = 1, le_control_generation = 0,
     le_global_suspension_generation = 0, le_target_suspension_generation = 0\<rparr>"

lemmas example_defs = example_db_def example_lease_def example_run_row_def example_incident_row_def
  initial_db_def example_env_def

lemma example_fenced:
  "fenced_join (example_env 5 50) example_lease example_db = Inr (example_run_row, example_incident_row)"
  by (simp add: fenced_join_def lock_scope_def incident_target_def run_join_def lease_revoked_def joined_scope_def
      example_defs)

end
