(* ===== verification/Store_Steps.thy ===== *)
theory Store_Steps
  imports Store_Fence "HOL-Library.Multiset"
begin

section \<open>Steps, tool checkpoints, rounds and publication (\<open>persistence/steps.py\<close>)\<close>

text \<open>
  \<open>commit_step\<close> stores the complete model response of a round once per logical key, \<open>commit_tool\<close> one tool
  result per ordinal, \<open>begin_round\<close> freezes the inputs a round reads, \<open>publish\<close> makes the final step's
  response the conclusion of the incident. A reply that arrives under a revoked lease is kept as a
  \<open>late_result\<close> row of history: there \<open>commit_step\<close> and \<open>commit_tool\<close> commit that row and then raise,
  which the model writes as the pair of the error and the database with the row.
\<close>

definition late_prefix :: string where "late_prefix = ''late_result:''"

definition starts_with :: "string \<Rightarrow> string \<Rightarrow> bool" where
  "starts_with p s \<longleftrightarrow> take (length p) s = p"

subsection \<open>Reading a step's JSON\<close>

definition tool_calls_of :: "(string, json) fmap \<Rightarrow> json list option" where
  "tool_calls_of m = (case fmlookup m ''tool_calls'' of
      None \<Rightarrow> Some []
    | Some JNull \<Rightarrow> Some []
    | Some (JArr xs) \<Rightarrow> Some xs
    | Some _ \<Rightarrow> None)"

text \<open>\<open>None\<close> is the non-list the caller refuses.\<close>

definition tool_plan :: "json \<Rightarrow> json list option" where
  "tool_plan response = (case response of
      JObj m \<Rightarrow> (case fmlookup m ''assistant'' of
          None \<Rightarrow> tool_calls_of m
        | Some (JObj a) \<Rightarrow> tool_calls_of a
        | Some _ \<Rightarrow> None)
    | _ \<Rightarrow> None)"

definition field_of :: "json \<Rightarrow> string \<Rightarrow> json" where
  "field_of container key = (case container of
      JObj m \<Rightarrow> (case fmlookup m key of None \<Rightarrow> JNull | Some v \<Rightarrow> v)
    | _ \<Rightarrow> JNull)"

definition is_object :: "json \<Rightarrow> bool" where
  "is_object j = (case j of JObj m \<Rightarrow> True | _ \<Rightarrow> False)"

definition usage_fields :: "json \<Rightarrow> fields" where
  "usage_fields response = (let usage = field_of response ''usage'' in
     if \<not> is_object usage then []
     else [(''input_tokens'', FV_json (field_of usage ''prompt_tokens'')),
           (''output_tokens'', FV_json (field_of usage ''completion_tokens'')),
           (''total_tokens'', FV_json (field_of usage ''total_tokens'')),
           (''reasoning_tokens'', FV_json (field_of (field_of usage ''completion_tokens_details'') ''reasoning_tokens''))])"

definition tool_call_id :: "env \<Rightarrow> json \<Rightarrow> int \<Rightarrow> string" where
  "tool_call_id e response ordinal =
     (let fallback = CHR ''#'' # string_of_int ordinal in
      case tool_plan response of
        None \<Rightarrow> fallback
      | Some calls \<Rightarrow>
          if 0 \<le> ordinal \<and> ordinal < int (length calls)
          then (case field_of (calls ! nat ordinal) ''id'' of
                  JStr s \<Rightarrow> if s \<noteq> [] then key_part e s else fallback
                | _ \<Rightarrow> fallback)
          else fallback)"

text \<open>The ordinals of the stored results; anything \<open>commit_tool\<close> does not write is inconsistent.\<close>

fun index_results :: "int \<Rightarrow> int set \<Rightarrow> json list \<Rightarrow> perr + int set" where
  "index_results n done [] = Inr done"
| "index_results n done (item # items) = (case item of
      JObj m \<Rightarrow> (case fmlookup m ''ordinal'' of
          Some (JInt k) \<Rightarrow>
            if k < 0 \<or> n \<le> k \<or> k \<in> done
               \<or> \<not> (case fmlookup m ''result'' of Some (JObj _) \<Rightarrow> True | _ \<Rightarrow> False)
            then Inl E_INCONSISTENT_STATE
            else index_results n (insert k done) items
        | _ \<Rightarrow> Inl E_INCONSISTENT_STATE)
    | _ \<Rightarrow> Inl E_INCONSISTENT_STATE)"

definition completed_tool_ordinals :: "json \<Rightarrow> int \<Rightarrow> perr + int set" where
  "completed_tool_ordinals tool_results call_count = (case tool_results of
      JArr items \<Rightarrow> index_results call_count {} items
    | _ \<Rightarrow> Inl E_INCONSISTENT_STATE)"

subsection \<open>Late results\<close>

abbreviation find_step :: "uuid \<Rightarrow> db \<Rightarrow> step_row option" where
  "find_step k db \<equiv> find_row st_step_id k (db_steps db)"

definition next_step_sequence :: "uuid \<Rightarrow> db \<Rightarrow> int" where
  "next_step_sequence run_id db = max_or (-1) (map st_sequence (filter (\<lambda>s. st_run_id s = run_id) (db_steps db))) + 1"

definition find_logical :: "uuid \<Rightarrow> string \<Rightarrow> db \<Rightarrow> step_row option" where
  "find_logical run_id key db = List.find (\<lambda>s. st_run_id s = run_id \<and> st_logical_key s = key) (db_steps db)"

definition late_result :: "env \<Rightarrow> uuid \<Rightarrow> string \<Rightarrow> json \<Rightarrow> int \<Rightarrow> db \<Rightarrow> perr + db" where
  "late_result e run_id key payload generation db =
     (if find_run run_id db = None then Inr db
      else if find_logical run_id key db \<noteq> None then Inr db
      else bind_result (insert_row st_step_id
          \<lparr>st_step_id = env_uuid4 e 0, st_run_id = run_id, st_sequence = next_step_sequence run_id db,
           st_logical_key = key, st_status = ST_late_result, st_response = payload, st_tool_results = JArr [],
           st_control_generation = generation, st_observed_at = env_later e\<rparr> (db_steps db))
        (\<lambda>steps. Inr (db\<lparr>db_steps := steps\<rparr>)))"

text \<open>Commit the history row, then raise.\<close>

definition record_late :: "env \<Rightarrow> uuid \<Rightarrow> string \<Rightarrow> json \<Rightarrow> int \<Rightarrow> db \<Rightarrow> 'a outcome" where
  "record_late e run_id key payload generation db = (case late_result e run_id key payload generation db of
      Inl err \<Rightarrow> (Inl err, db)
    | Inr db' \<Rightarrow> (Inl E_CONTROL_DENIED, db'))"

subsection \<open>Committing a step\<close>

definition frozen_round :: "uuid \<Rightarrow> string \<Rightarrow> db \<Rightarrow> round_row option" where
  "frozen_round run_id key db = List.find (\<lambda>d. rd_run_id d = run_id \<and> rd_logical_key d = key) (db_rounds db)"

definition commit_round :: "env \<Rightarrow> Lease \<Rightarrow> string \<Rightarrow> db \<Rightarrow> db" where
  "commit_round e lease key db =
     (let hit = (\<lambda>d. rd_run_id d = le_run_id lease \<and> rd_logical_key d = key
                   \<and> rd_control_generation d = le_control_generation lease);
          db1 = db\<lparr>db_rounds := update_where hit (\<lambda>d. d\<lparr>rd_committed := True\<rparr>) (db_rounds db)\<rparr>
      in case List.find hit (db_rounds db) of
           None \<Rightarrow> db1
         | Some d \<Rightarrow> update_runs e (\<lambda>r. rr_run_id r = le_run_id lease)
             (\<lambda>r. r\<lparr>rr_input_watermark := max (rr_input_watermark r) (rd_input_watermark d)\<rparr>) db1)"

definition new_step :: "env \<Rightarrow> Lease \<Rightarrow> string \<Rightarrow> json \<Rightarrow> db \<Rightarrow> step_row" where
  "new_step e lease key response db =
     \<lparr>st_step_id = env_uuid4 e 0, st_run_id = le_run_id lease,
      st_sequence = next_step_sequence (le_run_id lease) db, st_logical_key = key,
      st_status = ST_response_committed, st_response = response, st_tool_results = JArr [],
      st_control_generation = le_control_generation lease, st_observed_at = env_later e\<rparr>"

definition commit_step_in :: "string \<Rightarrow> json \<Rightarrow> env \<Rightarrow> Lease \<Rightarrow> run_row \<Rightarrow> db \<Rightarrow> uuid tx" where
  "commit_step_in key response e lease r db = (case find_logical (le_run_id lease) key db of
      Some s \<Rightarrow> Inr (st_step_id s, db)
    | None \<Rightarrow>
        (let step = new_step e lease key response db in
         bind_result (insert_row st_step_id step (db_steps db))
           (\<lambda>steps. bind_result (insert_entry e ''model_step''
                (''model_step:'' @ uuid_str (le_run_id lease) @ '':'' @ string_of_int (st_sequence step))
                (le_incident_id lease) (Some (le_run_id lease)) (rr_versions r)
                (dict_merge [(''incident_id'', FV_uuid (le_incident_id lease)), (''run_id'', FV_uuid (le_run_id lease)),
                  (''step_id'', FV_uuid (st_step_id step)), (''model'', FV_json (field_of response ''response_model'')),
                  (''finish_reason'', FV_json (field_of response ''finish_reason'')),
                  (''ended_at'', FV_datetime (st_observed_at step))] (usage_fields response))
                (db\<lparr>db_steps := steps\<rparr>))
              (\<lambda>db1. Inr (st_step_id step, commit_round e lease key db1)))))"

definition late_step_key :: "string \<Rightarrow> int \<Rightarrow> string" where
  "late_step_key key epoch = late_prefix @ ''step:'' @ key @ '':e'' @ string_of_int epoch"

definition commit_step :: "string \<Rightarrow> json \<Rightarrow> env \<Rightarrow> Lease \<Rightarrow> db \<Rightarrow> uuid outcome" where
  "commit_step key response e lease db =
     (if starts_with late_prefix key then (Inl E_INVALID_INPUT, db)
      else case lock_scope db (Some (le_incident_id lease)) [] of
        Inl err \<Rightarrow> (Inl err, db)
      | Inr _ \<Rightarrow>
          (let late = record_late e (le_run_id lease) (late_step_key key (le_epoch lease)) response
                        (le_control_generation lease) db
           in case run_join db (le_run_id lease) of
             None \<Rightarrow> late
           | Some (r, i) \<Rightarrow>
               if lease_revoked r i (joined_scope db i) lease (env_now e) then late
               else transaction db (commit_step_in key response e lease r db)))"

subsection \<open>Committing a tool result\<close>

text \<open>\<open>list(value or [])\<close> of a JSON value: \<open>None\<close> when Python raises or the items have no \<open>get\<close>.\<close>

definition stored_results :: "json \<Rightarrow> json list option" where
  "stored_results j = (case j of
      JArr xs \<Rightarrow> Some xs
    | JNull \<Rightarrow> Some []
    | JBool b \<Rightarrow> if b then None else Some []
    | JInt i \<Rightarrow> if i = 0 then Some [] else None
    | JFloat x \<Rightarrow> if x = 0 then Some [] else None
    | JStr s \<Rightarrow> if s = [] then Some [] else None
    | JObj m \<Rightarrow> if m = fmempty then Some [] else None)"

text \<open>Numbers and booleans compare by value.\<close>

definition number_of :: "json \<Rightarrow> rat option" where
  "number_of j = (case j of JInt i \<Rightarrow> Some (of_int i) | JFloat x \<Rightarrow> Some x
     | JBool b \<Rightarrow> Some (if b then 1 else 0) | _ \<Rightarrow> None)"

fun any_ordinal :: "int \<Rightarrow> json list \<Rightarrow> bool option" where
  "any_ordinal k [] = Some False"
| "any_ordinal k (item # items) = (if \<not> is_object item then None
     else if number_of (field_of item ''ordinal'') = Some (of_int k) then Some True
     else any_ordinal k items)"

definition result_item :: "int \<Rightarrow> json \<Rightarrow> json" where
  "result_item ordinal result = JObj (fmap_of_list [(''ordinal'', JInt ordinal), (''result'', result)])"

definition ordinal_key :: "json \<Rightarrow> rat" where
  "ordinal_key item = (case number_of (field_of item ''ordinal'') of None \<Rightarrow> 0 | Some x \<Rightarrow> x)"

text \<open>The result list with the new item, sorted by ordinal; a missing or non-numeric ordinal makes the
  sort raise.\<close>

definition add_result :: "int \<Rightarrow> json \<Rightarrow> json list \<Rightarrow> json list option" where
  "add_result ordinal result results =
     (if list_all (\<lambda>item. number_of (field_of item ''ordinal'') \<noteq> None) results
      then Some (sort_key ordinal_key (results @ [result_item ordinal result])) else None)"

definition late_tool_key :: "uuid \<Rightarrow> int \<Rightarrow> int \<Rightarrow> string" where
  "late_tool_key sid ordinal epoch =
     late_prefix @ ''tool:'' @ uuid_str sid @ '':'' @ string_of_int ordinal @ '':e'' @ string_of_int epoch"

definition commit_tool_in :: "uuid \<Rightarrow> int \<Rightarrow> json \<Rightarrow> env \<Rightarrow> Lease \<Rightarrow> run_row \<Rightarrow> step_row \<Rightarrow> db \<Rightarrow> unit tx" where
  "commit_tool_in sid ordinal result e lease r s db = (case stored_results (st_tool_results s) of
      None \<Rightarrow> Inl E_UNCAUGHT
    | Some results \<Rightarrow> (case any_ordinal ordinal results of
        None \<Rightarrow> Inl E_UNCAUGHT
      | Some True \<Rightarrow> Inr ((), db)
      | Some False \<Rightarrow> (case add_result ordinal result results of
          None \<Rightarrow> Inl E_UNCAUGHT
        | Some results' \<Rightarrow>
            bind_result (insert_entry e ''tool_result''
              (''tool_result:'' @ uuid_str (le_run_id lease) @ '':'' @ string_of_int (st_sequence s) @ '':''
                 @ tool_call_id e (st_response s) ordinal)
              (le_incident_id lease) (Some (le_run_id lease)) (rr_versions r)
              [(''incident_id'', FV_uuid (le_incident_id lease)), (''run_id'', FV_uuid (le_run_id lease)),
               (''step_id'', FV_uuid sid), (''tool_name'', FV_json (field_of result ''tool'')),
               (''tool_status_class'', FV_json (field_of result ''status'')),
               (''tool_reason'', FV_json (field_of result ''reason'')),
               (''source_contact'', FV_json (field_of result ''source_contact'')),
               (''ended_at'', FV_datetime (env_later e))]
              (db\<lparr>db_steps := update_where (\<lambda>x. st_step_id x = sid)
                 (\<lambda>x. x\<lparr>st_tool_results := JArr results', st_status := ST_tool_result_committed\<rparr>) (db_steps db)\<rparr>))
            (\<lambda>db1. Inr ((), db1)))))"

definition commit_tool :: "uuid \<Rightarrow> int \<Rightarrow> json \<Rightarrow> env \<Rightarrow> Lease \<Rightarrow> db \<Rightarrow> unit outcome" where
  "commit_tool sid ordinal result e lease db =
     (case lock_scope db (Some (le_incident_id lease)) [] of
        Inl err \<Rightarrow> (Inl err, db)
      | Inr _ \<Rightarrow>
          (case (run_join db (le_run_id lease), find_step sid db) of
             (Some (r, i), Some s) \<Rightarrow>
               if st_run_id s \<noteq> le_run_id lease then (Inl E_UNKNOWN_IDENTITY, db)
               else if ordinal < 0 \<or> (case tool_plan (st_response s) of None \<Rightarrow> True | Some calls \<Rightarrow> int (length calls) \<le> ordinal)
                 then (Inl E_UNKNOWN_IDENTITY, db)
               else if st_control_generation s \<noteq> le_control_generation lease \<or> st_status s = ST_late_result
                    \<or> lease_revoked r i (joined_scope db i) lease (env_now e)
                 then record_late e (le_run_id lease) (late_tool_key sid ordinal (le_epoch lease)) result
                        (le_control_generation lease) db
               else transaction db (commit_tool_in sid ordinal result e lease r s db)
           | _ \<Rightarrow> (Inl E_UNKNOWN_IDENTITY, db)))"

subsection \<open>Freezing the inputs of a round\<close>

definition input_watermark :: "uuid \<Rightarrow> db \<Rightarrow> int" where
  "input_watermark incident_id db =
     max_or 0 (map in_sequence (filter (\<lambda>x. in_incident_id x = incident_id) (db_inputs db)))"

record round_view =
  rv_round :: round_row
  rv_inputs :: "(int \<times> string \<times> json) list"

definition read_round :: "uuid \<Rightarrow> round_row \<Rightarrow> db \<Rightarrow> round_view" where
  "read_round incident_id d db = \<lparr>rv_round = d, rv_inputs =
     map (\<lambda>x. (in_sequence x, in_kind x, in_content x)) (sort_key in_sequence
       (filter (\<lambda>x. in_incident_id x = incident_id \<and> in_sequence x \<le> rd_input_watermark d) (db_inputs db)))\<rparr>"

definition freeze_round :: "round_row \<Rightarrow> db \<Rightarrow> db" where
  "freeze_round d db =
     (if frozen_round (rd_run_id d) (rd_logical_key d) db = None then db\<lparr>db_rounds := db_rounds db @ [d]\<rparr>
      else db\<lparr>db_rounds := update_where (\<lambda>x. rd_run_id x = rd_run_id d \<and> rd_logical_key x = rd_logical_key d)
             (\<lambda>x. x\<lparr>rd_control_generation := rd_control_generation d, rd_input_watermark := rd_input_watermark d,
                   rd_committed := False\<rparr>) (db_rounds db)\<rparr>)"

definition begin_round_in :: "string \<Rightarrow> env \<Rightarrow> Lease \<Rightarrow> db \<Rightarrow> round_view tx" where
  "begin_round_in key e lease db =
     (if key = [] \<or> starts_with late_prefix key then Inl E_INVALID_INPUT
      else case lock_scope db (Some (le_incident_id lease)) [] of
        Inl err \<Rightarrow> Inl err
      | Inr scope \<Rightarrow> (case run_join db (le_run_id lease) of
          None \<Rightarrow> Inl E_CONTROL_DENIED
        | Some (r, i) \<Rightarrow>
            if ir_incident_id i \<noteq> le_incident_id lease \<or> lease_revoked r i scope lease (env_now e)
            then Inl E_CONTROL_DENIED
            else
              (let fresh = \<lparr>rd_run_id = le_run_id lease, rd_logical_key = key,
                     rd_control_generation = le_control_generation lease,
                     rd_input_watermark = input_watermark (le_incident_id lease) db, rd_committed = False\<rparr>;
                   refreeze = Inr (read_round (le_incident_id lease) fresh db, freeze_round fresh db)
               in case frozen_round (le_run_id lease) key db of
                    None \<Rightarrow> refreeze
                  | Some d \<Rightarrow>
                      if rd_control_generation d = le_control_generation lease
                      then Inr (read_round (le_incident_id lease) d db, db)
                      else if rd_committed d then Inl E_CONTROL_DENIED
                      else refreeze)))"

definition begin_round :: "string \<Rightarrow> env \<Rightarrow> Lease \<Rightarrow> db \<Rightarrow> round_view outcome" where
  "begin_round key e lease db = transaction db (begin_round_in key e lease db)"

subsection \<open>Publishing a conclusion\<close>

definition late_publish_key :: "uuid \<Rightarrow> int \<Rightarrow> string" where
  "late_publish_key sid epoch = late_prefix @ ''publish:'' @ uuid_str sid @ '':e'' @ string_of_int epoch"

text \<open>The incident with its current Run.\<close>

definition incident_join :: "db \<Rightarrow> uuid \<Rightarrow> (run_row \<times> incident_row) option" where
  "incident_join db incident_id = Option.bind (find_incident incident_id db)
     (\<lambda>i. Option.bind (ir_current_run_id i) (\<lambda>k. map_option (\<lambda>r. (r, i)) (find_run k db)))"

definition late_publish :: "uuid \<Rightarrow> json \<Rightarrow> env \<Rightarrow> Lease \<Rightarrow> db \<Rightarrow> bool tx" where
  "late_publish sid conclusion e lease db =
     (if (case find_step sid db of None \<Rightarrow> True | Some s \<Rightarrow> st_run_id s \<noteq> le_run_id lease)
      then Inl E_UNKNOWN_IDENTITY
      else bind_result (late_result e (le_run_id lease) (late_publish_key sid (le_epoch lease)) conclusion
             (le_control_generation lease) db) (\<lambda>db'. Inr (False, db')))"

definition final_step_ok :: "uuid \<Rightarrow> json \<Rightarrow> Lease \<Rightarrow> db \<Rightarrow> bool" where
  "final_step_ok sid conclusion lease db = (case find_step sid db of
      None \<Rightarrow> False
    | Some s \<Rightarrow> st_run_id s = le_run_id lease \<and> st_control_generation s = le_control_generation lease
        \<and> st_status s \<in> {ST_response_committed, ST_tool_result_committed} \<and> st_response s = conclusion)"

definition publish_write :: "json \<Rightarrow> env \<Rightarrow> Lease \<Rightarrow> db \<Rightarrow> db" where
  "publish_write conclusion e lease db =
     update_runs e (\<lambda>r. rr_run_id r = le_run_id lease)
       (\<lambda>r. r\<lparr>rr_state := R_completed, rr_owner := None, rr_lease_until := None\<rparr>)
       (db\<lparr>db_incidents := update_where (\<lambda>i. ir_incident_id i = le_incident_id lease)
          (\<lambda>i. i\<lparr>ir_conclusion := Some conclusion\<rparr>) (db_incidents db)\<rparr>)"

definition publish_in :: "json \<Rightarrow> uuid \<Rightarrow> env \<Rightarrow> Lease \<Rightarrow> db \<Rightarrow> bool tx" where
  "publish_in conclusion sid e lease db =
     (case lock_scope db (Some (le_incident_id lease)) [] of
        Inl err \<Rightarrow> Inl err
      | Inr _ \<Rightarrow> (case incident_join db (le_incident_id lease) of
          None \<Rightarrow> late_publish sid conclusion e lease db
        | Some (r, i) \<Rightarrow>
            if ir_current_run_id i = Some (le_run_id lease) \<and> ir_conclusion i = Some conclusion then Inr (True, db)
            else if ir_current_run_id i \<noteq> Some (le_run_id lease) \<or> rr_state r \<noteq> R_running
                 \<or> ir_state i \<in> {IS_completed, IS_cancelled, IS_paused}
                 \<or> lease_revoked r i (joined_scope db i) lease (env_now e)
              then late_publish sid conclusion e lease db
            else if \<not> final_step_ok sid conclusion lease db then Inl E_FINAL_STEP_REQUIRED
            else Inr (True, publish_write conclusion e lease db)))"

definition publish :: "json \<Rightarrow> uuid \<Rightarrow> env \<Rightarrow> Lease \<Rightarrow> db \<Rightarrow> bool outcome" where
  "publish conclusion sid e lease db = transaction db (publish_in conclusion sid e lease db)"

subsection \<open>The fence contract\<close>

lemma late_result_live: "late_result e k key p g db = Inr db' \<Longrightarrow> live db' = live db"
  by (auto simp: late_result_def live_def bind_result_Inr_iff insert_row_Inr_iff split: if_splits)

lemma late_result_shape:
  "late_result e k key p g db = Inr db' \<Longrightarrow> \<exists>new. db' = db\<lparr>db_steps := db_steps db @ new\<rparr> \<and> list_all (\<lambda>s. st_status s = ST_late_result) new"
  by (auto simp: late_result_def bind_result_Inr_iff insert_row_Inr_iff split: if_splits
      intro: exI [of _ "[]"])

lemma record_late_live: "live (snd (record_late e k key p g db)) = live db"
  by (auto simp: record_late_def late_result_live split: sum.split)

interpretation commit_step: fenced_write "commit_step key response"
  by unfold_locales (auto simp: commit_step_def lease_valid_def record_late_live Let_def split: sum.split option.split)

interpretation commit_tool: fenced_write "commit_tool sid ordinal result"
  by unfold_locales
    (auto simp: commit_tool_def lease_valid_def record_late_live split: sum.split option.split)

lemma begin_round_lease:
  assumes "begin_round_in key e lease db = Inr (x, db')"
  shows "lease_valid db lease (env_now e)"
proof -
  from assms obtain scope r i where sc: "lock_scope db (Some (le_incident_id lease)) [] = Inr scope"
    and j: "run_join db (le_run_id lease) = Some (r, i)" and i: "ir_incident_id i = le_incident_id lease"
    and f: "\<not> lease_revoked r i scope lease (env_now e)"
    by (auto simp: begin_round_in_def split: if_splits sum.splits option.splits)
  from run_join_SomeD [OF j] i have "find_incident (le_incident_id lease) db = Some i" by simp
  from lock_scope_joined [OF sc this] j f show ?thesis by (simp add: lease_valid_def)
qed

interpretation begin_round: lease_checked "begin_round_in key"
  by unfold_locales (rule begin_round_lease)

lemma incident_join_run_join:
  assumes "current_runs_ok db" and "incident_join db k = Some (r, i)" and "ir_current_run_id i = Some run_id"
  shows "run_join db run_id = Some (r, i) \<and> ir_incident_id i = k"
proof -
  from assms(2,3) have i: "find_incident k db = Some i" "find_run run_id db = Some r"
    by (auto simp: incident_join_def bind_eq_Some_conv)
  with find_row_SomeD [OF i(1)] assms(1,3) have "rr_incident_id r = ir_incident_id i" "ir_incident_id i = k"
    by (force simp: current_runs_ok_def)+
  with i show ?thesis by (simp add: run_join_Some_iff)
qed

lemma late_publish_live: "late_publish s c e lease db = Inr (b, db') \<Longrightarrow> live db' = live db"
  by (auto simp: late_publish_def bind_result_Inr_iff late_result_live split: if_splits option.splits)

interpretation publish: fenced_write "publish conclusion sid"
proof
  fix db :: db and lease :: Lease and e :: env
  assume ok: "current_runs_ok db" and no: "\<not> lease_valid db lease (env_now e)"
  have "live db' = live db" if "publish_in conclusion sid e lease db = Inr (b, db')" for b db'
    using that no incident_join_run_join [OF ok, of "le_incident_id lease"]
    by (auto simp: publish_in_def lease_valid_def dest: late_publish_live split: if_splits sum.splits option.splits)
  then show "live (snd (publish conclusion sid e lease db)) = live db"
    by (auto simp: publish_def snd_transaction split: sum.split)
qed

subsection \<open>Steps are committed once\<close>

lemma commit_round_steps [simp]: "db_steps (commit_round e lease key db) = db_steps db"
  by (simp add: commit_round_def Let_def split: option.split)

lemma insert_entry_steps: "insert_entry e kind key i r vs fs db = Inr db' \<Longrightarrow> db_steps db' = db_steps db"
  by (auto dest: insert_entry_Inr)

lemma commit_step_in_cases:
  assumes "commit_step_in key response e lease r db = Inr (sid, db1)"
  shows "(\<exists>s. find_logical (le_run_id lease) key db = Some s \<and> sid = st_step_id s \<and> db1 = db) \<or>
    (find_logical (le_run_id lease) key db = None \<and> sid \<notin> st_step_id ` set (db_steps db) \<and>
     sid = st_step_id (new_step e lease key response db) \<and> db_steps db1 = db_steps db @ [new_step e lease key response db])"
  using assms
  by (auto simp: commit_step_in_def Let_def bind_result_Inr_iff insert_row_Inr_iff new_step_def
      dest: insert_entry_steps split: option.splits)

lemma commit_step_in_valid:
  assumes "commit_step key response e lease db = (Inr sid, db1)"
  obtains r i where "commit_step_in key response e lease r db = Inr (sid, db1)" "run_join db (le_run_id lease) = Some (r, i)"
    "\<not> lease_revoked r i (joined_scope db i) lease (env_now e)"
  using assms by (auto simp: commit_step_def record_late_def Let_def split: if_splits sum.splits option.splits)

lemma commit_step_recorded:
  assumes "commit_step key response e lease db = (Inr sid, db1)"
  shows "\<exists>s. find_logical (le_run_id lease) key db1 = Some s \<and> st_step_id s = sid"
proof -
  from commit_step_in_valid [OF assms] obtain r where c: "commit_step_in key response e lease r db = Inr (sid, db1)" .
  from commit_step_in_cases [OF c] show ?thesis
    by (auto simp: find_logical_def find_append new_step_def)
qed

text \<open>(\<open>commit_step\<close>) A logical step is committed once: a successful commit happens only under a valid
  lease and leaves exactly one row for its logical key, appended after every row of the Run with the
  next sequence number; a retry under the same key, with whatever response and lease of the Run,
  changes no live step and, when it succeeds, returns the id of the first commit.\<close>

theorem steps_commit_once:
  assumes "commit_step key response e lease db = (Inr sid, db1)"
  shows "lease_valid db lease (env_now e) \<and>
    (\<exists>new. db_steps db1 = db_steps db @ new \<and> length new \<le> 1 \<and> (\<forall>s \<in> set new. st_step_id s = sid \<and>
       st_response s = response \<and> (\<forall>x \<in> set (db_steps db). st_run_id x = le_run_id lease \<longrightarrow> st_sequence x < st_sequence s))) \<and>
    (le_run_id lease2 = le_run_id lease \<longrightarrow>
      live (snd (commit_step key response2 e2 lease2 db1)) = live db1 \<and>
      (\<forall>x. fst (commit_step key response2 e2 lease2 db1) = Inr x \<longrightarrow> x = sid))"
proof (intro conjI impI)
  from commit_step_in_valid [OF assms] obtain r i where c: "commit_step_in key response e lease r db = Inr (sid, db1)"
    and j: "run_join db (le_run_id lease) = Some (r, i)" "\<not> lease_revoked r i (joined_scope db i) lease (env_now e)" .
  then show "lease_valid db lease (env_now e)" by (simp add: lease_valid_def)
  have seq: "st_sequence x < next_step_sequence (le_run_id lease) db"
    if "x \<in> set (db_steps db)" "st_run_id x = le_run_id lease" for x
    using that max_or_ge [of "st_sequence x" "map st_sequence (filter (\<lambda>s. st_run_id s = le_run_id lease) (db_steps db))" "-1"]
    by (simp add: next_step_sequence_def image_iff) (metis zle_add1_eq_le)
  then show "\<exists>new. db_steps db1 = db_steps db @ new \<and> length new \<le> 1 \<and> (\<forall>s \<in> set new. st_step_id s = sid \<and>
       st_response s = response \<and> (\<forall>x \<in> set (db_steps db). st_run_id x = le_run_id lease \<longrightarrow> st_sequence x < st_sequence s))"
    using commit_step_in_cases [OF c] by (elim disjE) (auto simp: new_step_def)
  assume run: "le_run_id lease2 = le_run_id lease"
  from commit_step_recorded [OF assms] obtain s where s: "find_logical (le_run_id lease) key db1 = Some s" "st_step_id s = sid" by blast
  then have "commit_step_in key response2 e2 lease2 r' db1 = Inr (sid, db1)" for r'
    by (simp add: commit_step_in_def run)
  then show "live (snd (commit_step key response2 e2 lease2 db1)) = live db1"
    and "\<forall>x. fst (commit_step key response2 e2 lease2 db1) = Inr x \<longrightarrow> x = sid"
    by (auto simp: commit_step_def Let_def record_late_live record_late_def late_result_live split: sum.splits option.splits if_splits)
qed

theorem steps_commit_once_witness:
  "fst (commit_step ''seg:round-1'' (JObj fmempty) (example_env 5 50) example_lease example_db) = Inr 50 \<and>
   fst (commit_step ''seg:round-1'' JNull (example_env 6 60) example_lease
     (snd (commit_step ''seg:round-1'' (JObj fmempty) (example_env 5 50) example_lease example_db))) \<noteq> Inr 60"
proof -
  have first: "fst (commit_step ''seg:round-1'' (JObj fmempty) (example_env 5 50) example_lease example_db) = Inr 50"
    by (simp add: commit_step_def starts_with_def late_prefix_def lock_scope_def incident_target_def run_join_def
        lease_revoked_def joined_scope_def commit_step_in_def find_logical_def new_step_def insert_row_def
        insert_entry_def KINDS_def transaction_def example_defs)
  obtain db1 where db1: "commit_step ''seg:round-1'' (JObj fmempty) (example_env 5 50) example_lease example_db = (Inr 50, db1)"
    using first by (metis prod.collapse)
  from steps_commit_once [OF db1, THEN conjunct2, THEN conjunct2, THEN mp, OF refl, THEN conjunct2,
      of JNull "example_env 6 60"]
  have "fst (commit_step ''seg:round-1'' JNull (example_env 6 60) example_lease db1) = Inr 60 \<longrightarrow> (60 :: uuid) = 50" by blast
  then have "fst (commit_step ''seg:round-1'' JNull (example_env 6 60) example_lease db1) \<noteq> Inr 60" by simp
  with first db1 show ?thesis by simp
qed

subsection \<open>Tool results\<close>

text \<open>The results of a live step: objects with distinct integer ordinals of the plan, in ordinal order.\<close>

definition item_ok :: "int \<Rightarrow> json \<Rightarrow> bool" where
  "item_ok n item \<longleftrightarrow> (\<exists>k m. item = result_item k (JObj m) \<and> 0 \<le> k \<and> k < n)"

definition results_ok :: "int \<Rightarrow> json \<Rightarrow> bool" where
  "results_ok n j \<longleftrightarrow> (\<exists>items. j = JArr items \<and> list_all (item_ok n) items \<and> sorted_wrt (<) (map ordinal_key items))"

lemma field_of_result_item [simp]:
  "field_of (result_item k v) ''ordinal'' = JInt k" "field_of (result_item k v) ''result'' = v"
  by (simp_all add: field_of_def result_item_def fmlookup_of_list)

lemma ordinal_key_result_item [simp]: "ordinal_key (result_item k v) = of_int k"
  by (simp add: ordinal_key_def number_of_def)

lemma is_object_result_item [simp]: "is_object (result_item k v)"
  by (simp add: is_object_def result_item_def)

lemma any_ordinal_ok:
  "list_all (item_ok n) items \<Longrightarrow> any_ordinal k items = Some (of_int k \<in> ordinal_key ` set items)"
proof (induction items)
  case (Cons item items)
  then obtain j m where j: "item = result_item j (JObj m)" by (auto simp: item_ok_def)
  then have "number_of (field_of item ''ordinal'') = Some (of_int j)" by (simp add: number_of_def)
  with Cons j show ?case by auto
qed simp

lemma add_result_ok:
  "list_all (item_ok n) items \<Longrightarrow> add_result k v items = Some (sort_key ordinal_key (items @ [result_item k v]))"
  by (auto simp: add_result_def list_all_iff item_ok_def number_of_def)

lemma sorted_sort_key_distinct:
  assumes "distinct (map f xs)"
  shows "sorted_wrt (<) (map f (sort_key f xs))"
proof -
  have "mset (map f (sort_key f xs)) = mset (map f xs)" by simp
  then have "distinct (map f (sort_key f xs))" using assms by (metis mset_eq_imp_distinct_iff)
  then show ?thesis by (simp add: strict_sorted_iff)
qed

lemma strict_distinct: "sorted_wrt (<) (map f xs) \<Longrightarrow> distinct (map f (xs :: 'a list)) \<and> sorted (map f xs)"
  for f :: "'a \<Rightarrow> rat"
  using strict_sorted_iff by blast

lemma results_ok_add:
  assumes "results_ok n (JArr items)" and "0 \<le> k" "k < n" and "of_int k \<notin> ordinal_key ` set items"
  shows "results_ok n (JArr (sort_key ordinal_key (items @ [result_item k (JObj m)])))"
proof -
  have "distinct (map ordinal_key (items @ [result_item k (JObj m)]))"
    using assms strict_distinct by (auto simp: results_ok_def)
  then have "sorted_wrt (<) (map ordinal_key (sort_key ordinal_key (items @ [result_item k (JObj m)])))"
    by (rule sorted_sort_key_distinct)
  with assms show ?thesis by (auto simp: results_ok_def list_all_iff item_ok_def)
qed

text \<open>What \<open>rebuild\<close> reads back is what was committed.\<close>

lemma index_results_ok:
  "list_all (item_ok n) items \<Longrightarrow> distinct (map ordinal_key items) \<Longrightarrow>
   of_int ` done \<inter> ordinal_key ` set items = {} \<Longrightarrow>
   \<exists>s. index_results n done items = Inr s \<and> of_int ` s = of_int ` done \<union> ordinal_key ` set items"
proof (induction items arbitrary: "done")
  case (Cons item items)
  then obtain j m where j: "item = result_item j (JObj m)" "0 \<le> j" "j < n" by (auto simp: item_ok_def)
  from Cons.prems j have "j \<notin> done" by auto
  moreover have "\<exists>s. index_results n (insert j done) items = Inr s \<and>
      of_int ` s = of_int ` insert j done \<union> ordinal_key ` set items"
    using Cons.prems j by (intro Cons.IH) auto
  moreover have "index_results n done (item # items) =
      (if j \<in> done then Inl E_INCONSISTENT_STATE else index_results n (insert j done) items)"
    using j by (simp add: result_item_def fmlookup_of_list)
  ultimately show ?case using j by auto
qed simp

text \<open>(\<open>commit_tool\<close>) Tool results may be committed in any order: two results of different calls of a step
  leave the same stored list whichever is committed first, sorted by call, with one entry per call;
  and the list a commit leaves is one recovery accepts, with exactly the committed ordinals.\<close>

theorem tool_results_order_independent:
  assumes "results_ok n (JArr items)" and "0 \<le> j" "j < n" and "0 \<le> k" "k < n" and "j \<noteq> k"
    and "any_ordinal j items = Some False" and "any_ordinal k items = Some False"
    and "add_result j (JObj u) items = Some a" and "add_result k (JObj v) a = Some ab"
    and "add_result k (JObj v) items = Some b" and "add_result j (JObj u) b = Some ba"
  shows "ab = ba \<and> results_ok n (JArr ab) \<and>
     (\<exists>s. completed_tool_ordinals (JArr ab) n = Inr s \<and> of_int ` s = insert (of_int j) (insert (of_int k) (ordinal_key ` set items)))"
proof -
  let ?x = "result_item j (JObj u)" and ?y = "result_item k (JObj v)"
  have items: "list_all (item_ok n) items" "sorted_wrt (<) (map ordinal_key items)" using assms(1) by (auto simp: results_ok_def)
  have fresh: "of_int j \<notin> ordinal_key ` set items" "of_int k \<notin> ordinal_key ` set items"
    using assms(7,8) any_ordinal_ok [OF items(1)] by auto
  have a: "a = sort_key ordinal_key (items @ [?x])" and b: "b = sort_key ordinal_key (items @ [?y])"
    using assms(9,11) add_result_ok [OF items(1)] by auto
  have a_ok: "results_ok n (JArr a)" and b_ok: "results_ok n (JArr b)"
    unfolding a b using results_ok_add [OF assms(1)] assms(2-5) fresh by auto
  then have ab: "ab = sort_key ordinal_key (a @ [?y])" and ba: "ba = sort_key ordinal_key (b @ [?x])"
    using assms(10,12) add_result_ok by (auto simp: results_ok_def)
  have set: "set a = insert ?x (set items)" by (simp add: a)
  have "results_ok n (JArr ab)"
    unfolding ab by (rule results_ok_add [OF a_ok]) (use assms fresh in \<open>auto simp: set\<close>)
  moreover have "ab = ba"
    unfolding ab
  proof (rule sort_key_inj_key_eq)
    show "mset (a @ [?y]) = mset ba" by (simp add: a b ba)
    show "inj_on ordinal_key (set (a @ [?y]))"
      using a_ok fresh assms(6) strict_distinct [of ordinal_key a] by (auto simp: results_ok_def distinct_map set)
    show "sorted (map ordinal_key ba)" by (simp add: ba)
  qed
  moreover have "\<exists>s. index_results n {} ab = Inr s \<and> of_int ` s = of_int ` {} \<union> ordinal_key ` set ab"
    using \<open>results_ok n (JArr ab)\<close> strict_distinct by (intro index_results_ok) (auto simp: results_ok_def)
  ultimately show ?thesis by (auto simp: completed_tool_ordinals_def ab set)
qed

theorem tool_results_order_independent_witness:
  "add_result 1 (JObj fmempty) [result_item 0 (JObj fmempty)] = Some [result_item 0 (JObj fmempty), result_item 1 (JObj fmempty)]
   \<and> results_ok 2 (JArr [result_item 0 (JObj fmempty), result_item 1 (JObj fmempty)])"
proof -
  let ?x = "result_item 0 (JObj fmempty)" and ?y = "result_item 1 (JObj fmempty)"
  have "add_result 0 (JObj fmempty) [] = Some [?x]" "add_result 1 (JObj fmempty) [] = Some [?y]"
    "add_result 1 (JObj fmempty) [?x] = Some [?x, ?y]" "add_result 0 (JObj fmempty) [?y] = Some [?x, ?y]"
    by (simp_all add: add_result_def number_of_def)
  moreover from this have "results_ok 2 (JArr [?x, ?y])"
    using tool_results_order_independent [of 2 "[]" 0 1 fmempty "[?x]" fmempty "[?x, ?y]" "[?y]" "[?x, ?y]"]
    by (simp add: results_ok_def)
  ultimately show ?thesis by simp
qed

subsection \<open>Rounds\<close>

lemma find_update_where_self:
  "(\<And>x. P x \<Longrightarrow> P (f x)) \<Longrightarrow> List.find P (update_where P f t) = map_option f (List.find P t)"
  by (induction t) auto

lemma frozen_roundD: "frozen_round k key db = Some d \<Longrightarrow> rd_run_id d = k \<and> rd_logical_key d = key"
  by (auto simp: frozen_round_def find_Some_iff)

lemma begin_round_freezes:
  assumes "begin_round_in key e lease db = Inr (v, db1)"
  shows "frozen_round (le_run_id lease) key db1 = Some (rv_round v)
     \<and> rd_control_generation (rv_round v) = le_control_generation lease
     \<and> rv_inputs v = rv_inputs (read_round (le_incident_id lease) (rv_round v) db)
     \<and> db_inputs db1 = db_inputs db"
proof -
  let ?fresh = "\<lparr>rd_run_id = le_run_id lease, rd_logical_key = key, rd_control_generation = le_control_generation lease,
     rd_input_watermark = input_watermark (le_incident_id lease) db, rd_committed = False\<rparr>"
  have frozen: "frozen_round (le_run_id lease) key (freeze_round ?fresh db) = Some ?fresh"
  proof (cases "frozen_round (le_run_id lease) key db")
    case None
    then show ?thesis by (simp add: freeze_round_def frozen_round_def find_append)
  next
    case (Some d)
    have "frozen_round (le_run_id lease) key (freeze_round ?fresh db) = Some (d\<lparr>rd_control_generation :=
        le_control_generation lease, rd_input_watermark := input_watermark (le_incident_id lease) db, rd_committed := False\<rparr>)"
      using Some by (simp add: freeze_round_def frozen_round_def find_update_where_self)
    with frozen_roundD [OF Some] show ?thesis by (cases d) simp
  qed
  have "db_inputs (freeze_round ?fresh db) = db_inputs db" by (simp add: freeze_round_def)
  with frozen assms show ?thesis
    by (auto simp: begin_round_in_def Let_def read_round_def split: if_splits sum.splits option.splits)
qed

lemma filter_none: "(\<And>x. x \<in> set new \<Longrightarrow> \<not> P x) \<Longrightarrow> filter P (old @ new) = filter P old"
  by (simp add: filter_empty_conv)

text \<open>(\<open>begin_round\<close>) A round reads a frozen boundary: a later \<open>begin_round\<close> for the same key under the same
  control generation returns the same watermark and the same inputs, whatever inputs arrived in
  between, and it never returns an input beyond the watermark.\<close>

theorem round_boundary_frozen:
  assumes "begin_round key e lease db = (Inr v, db1)"
    and "frozen_round (le_run_id lease) key db2 = Some ((rv_round v)\<lparr>rd_committed := c\<rparr>)"
    and "db_inputs db2 = db_inputs db1 @ new"
    and "\<forall>x \<in> set new. rd_input_watermark (rv_round v) < in_sequence x"
    and "begin_round key e2 lease db2 = (Inr v2, db3)"
  shows "rv_inputs v2 = rv_inputs v \<and> rd_input_watermark (rv_round v2) = rd_input_watermark (rv_round v) \<and> db3 = db2
     \<and> (\<forall>(k, kind, content) \<in> set (rv_inputs v). k \<le> rd_input_watermark (rv_round v))"
proof -
  from assms(1) have b1: "begin_round_in key e lease db = Inr (v, db1)" by (simp add: begin_round_def)
  note v = begin_round_freezes [OF b1]
  from assms(5,2) v have v2: "v2 = read_round (le_incident_id lease) ((rv_round v)\<lparr>rd_committed := c\<rparr>) db2" "db3 = db2"
    by (auto simp: begin_round_def begin_round_in_def Let_def split: if_splits sum.splits option.splits)
  have "filter (\<lambda>x. in_incident_id x = le_incident_id lease \<and> in_sequence x \<le> rd_input_watermark (rv_round v)) (db_inputs db2) =
     filter (\<lambda>x. in_incident_id x = le_incident_id lease \<and> in_sequence x \<le> rd_input_watermark (rv_round v)) (db_inputs db)"
    unfolding assms(3) using v assms(4) by (simp add: filter_none) (auto simp: filter_empty_conv)
  then have "rv_inputs v2 = rv_inputs v" using v by (simp add: v2 read_round_def)
  moreover have "\<forall>(k, kind, content) \<in> set (rv_inputs v). k \<le> rd_input_watermark (rv_round v)"
    using v by (auto simp: read_round_def)
  ultimately show ?thesis by (simp add: v2 read_round_def)
qed

lemma example_begin_round:
  "begin_round ''r1'' (example_env t n) example_lease example_db =
     (if t < 100 then (Inr \<lparr>rv_round = \<lparr>rd_run_id = 10, rd_logical_key = ''r1'', rd_control_generation = 0,
        rd_input_watermark = 0, rd_committed = False\<rparr>, rv_inputs = []\<rparr>,
        example_db\<lparr>db_rounds := [\<lparr>rd_run_id = 10, rd_logical_key = ''r1'', rd_control_generation = 0,
           rd_input_watermark = 0, rd_committed = False\<rparr>]\<rparr>)
      else (Inl E_CONTROL_DENIED, example_db))"
  by (simp add: begin_round_def begin_round_in_def starts_with_def late_prefix_def lock_scope_def incident_target_def
      run_join_def lease_revoked_def frozen_round_def read_round_def freeze_round_def input_watermark_def
      transaction_def Let_def example_defs)

theorem round_boundary_frozen_witness:
  "rv_inputs (read_round 1 \<lparr>rd_run_id = 10, rd_logical_key = ''r1'', rd_control_generation = 0,
      rd_input_watermark = 0, rd_committed = False\<rparr>
      (example_db\<lparr>db_inputs := [\<lparr>in_input_id = 1, in_incident_id = 1, in_sequence = 1, in_kind = ''event'',
         in_content = JNull, in_actor = ''a'', in_control_generation = 0\<rparr>]\<rparr>)) = []"
proof -
  let ?d = "\<lparr>rd_run_id = 10, rd_logical_key = ''r1'', rd_control_generation = 0, rd_input_watermark = 0, rd_committed = False\<rparr>"
  let ?x = "\<lparr>in_input_id = 1, in_incident_id = 1, in_sequence = 1, in_kind = ''event'',
         in_content = JNull, in_actor = ''a'', in_control_generation = 0\<rparr>"
  let ?db2 = "example_db\<lparr>db_rounds := [?d], db_inputs := [?x]\<rparr>"
  have "begin_round ''r1'' (example_env 6 60) example_lease ?db2 = (Inr (read_round 1 ?d ?db2), ?db2)"
    by (simp add: begin_round_def begin_round_in_def starts_with_def late_prefix_def lock_scope_def incident_target_def
      run_join_def lease_revoked_def frozen_round_def read_round_def transaction_def example_defs)
  from round_boundary_frozen [OF example_begin_round [of 5 50, simplified] _ _ _ this, of False "[?x]", THEN conjunct1]
  show ?thesis by (simp add: frozen_round_def read_round_def example_defs)
qed

subsection \<open>Publication\<close>

lemma publish_write_frame [simp]:
  "db_runs (publish_write c e lease db) = update_where (\<lambda>r. rr_run_id r = le_run_id lease)
       (\<lambda>r. r\<lparr>rr_state := R_completed, rr_owner := None, rr_lease_until := None\<rparr>) (db_runs db)"
  "db_incidents (publish_write c e lease db) = update_where (\<lambda>i. ir_incident_id i = le_incident_id lease)
          (\<lambda>i. i\<lparr>ir_conclusion := Some c\<rparr>) (db_incidents db)"
  "db_steps (publish_write c e lease db) = db_steps db"
  by (simp_all add: publish_write_def)

lemma publish_write_current_ok: "current_runs_ok db \<Longrightarrow> current_runs_ok (publish_write c e lease db)"
  by (erule current_runs_ok_update) (rule publish_write_frame, rule publish_write_frame, simp_all)

lemma publish_True_cases:
  assumes "publish c sid e lease db = (Inr True, db1)"
  shows "(\<exists>r i. incident_join db (le_incident_id lease) = Some (r, i) \<and> ir_current_run_id i = Some (le_run_id lease) \<and>
      ((ir_conclusion i = Some c \<and> db1 = db) \<or>
       (rr_state r = R_running \<and> ir_state i \<notin> {IS_completed, IS_cancelled, IS_paused} \<and>
        \<not> lease_revoked r i (joined_scope db i) lease (env_now e) \<and> final_step_ok sid c lease db \<and>
        db1 = publish_write c e lease db)))"
  using assms
  by (auto simp: publish_def publish_in_def late_publish_def bind_result_Inr_iff split: if_splits sum.splits option.splits)

text \<open>\<^bold>\<open>C39\<close> (\<open>publish\<close>) Publication is owned and final: \<open>publish\<close> returns true only when the incident's current
  Run is the lease's Run and the incident's conclusion is then the given one; it writes only under a
  valid lease for a running Run, and only the response of a committed step of the same Run and
  control generation; it completes that Run and releases its lease; and after it wrote, publishing
  again under that lease, the same or another conclusion, changes nothing live.\<close>

theorem publish_owned_and_final:
  assumes ok: "current_runs_ok db" and op: "publish c sid e lease db = (Inr True, db1)"
  shows "(\<exists>i. find_incident (le_incident_id lease) db1 = Some i \<and> ir_current_run_id i = Some (le_run_id lease)
      \<and> ir_conclusion i = Some c) \<and>
    (db1 \<noteq> db \<longrightarrow> lease_valid db lease (env_now e) \<and> final_step_ok sid c lease db \<and>
       (\<exists>r. find_run (le_run_id lease) db1 = Some r \<and> rr_state r = R_completed \<and> rr_owner r = None) \<and>
       (\<forall>c2 sid2 e2. live (snd (publish c2 sid2 e2 lease db1)) = live db1))"
proof -
  from publish_True_cases [OF op] obtain r i where
    j: "incident_join db (le_incident_id lease) = Some (r, i)" "ir_current_run_id i = Some (le_run_id lease)"
    and cs: "(ir_conclusion i = Some c \<and> db1 = db) \<or>
       (\<not> lease_revoked r i (joined_scope db i) lease (env_now e) \<and> final_step_ok sid c lease db \<and>
        db1 = publish_write c e lease db)" by blast
  from incident_join_run_join [OF ok j] have rj: "run_join db (le_run_id lease) = Some (r, i)" "ir_incident_id i = le_incident_id lease" by auto
  then have fi: "find_incident (le_incident_id lease) db = Some i" and fr: "find_run (le_run_id lease) db = Some r"
    and rid: "rr_run_id r = le_run_id lease"
    using run_join_SomeD [OF rj(1)] by auto
  have "\<exists>i. find_incident (le_incident_id lease) db1 = Some i \<and> ir_current_run_id i = Some (le_run_id lease)
      \<and> ir_conclusion i = Some c"
    using cs
  proof
    assume "\<not> lease_revoked r i (joined_scope db i) lease (env_now e) \<and> final_step_ok sid c lease db \<and>
        db1 = publish_write c e lease db"
    with fi j(2) rj(2) show ?thesis by (simp add: find_row_update_where)
  qed (use fi j(2) in simp)
  moreover have "lease_valid db lease (env_now e) \<and> final_step_ok sid c lease db \<and>
       (\<exists>r. find_run (le_run_id lease) db1 = Some r \<and> rr_state r = R_completed \<and> rr_owner r = None) \<and>
       (\<forall>c2 sid2 e2. live (snd (publish c2 sid2 e2 lease db1)) = live db1)" if False: "db1 \<noteq> db"
  proof -
    from False cs have w: "\<not> lease_revoked r i (joined_scope db i) lease (env_now e)" "final_step_ok sid c lease db"
      "db1 = publish_write c e lease db" by auto
    have r1: "find_run (le_run_id lease) db1 = Some (r\<lparr>rr_state := R_completed, rr_owner := None, rr_lease_until := None\<rparr>)"
      by (simp add: w(3) find_row_update_where fr rid)
    then have "\<not> lease_valid db1 lease t" for t
      by (auto simp: lease_valid_def run_join_def lease_revoked_def split: option.splits)
    with publish_write_current_ok [OF ok] have "live (snd (publish c2 sid2 e2 lease db1)) = live db1" for c2 sid2 e2
      unfolding w(3) by (intro publish.revoked_no_effect) auto
    with r1 w rj show ?thesis by (simp add: lease_valid_def)
  qed
  ultimately show ?thesis by blast
qed

theorem publish_owned_and_final_witness:
  "fst (publish (JStr ''done'') 50 (example_env 6 60) example_lease
      (example_db\<lparr>db_steps := [new_step (example_env 5 50) example_lease ''final'' (JStr ''done'') example_db]\<rparr>)) = Inr True \<and>
   (\<exists>i. find_incident 1 (snd (publish (JStr ''done'') 50 (example_env 6 60) example_lease
      (example_db\<lparr>db_steps := [new_step (example_env 5 50) example_lease ''final'' (JStr ''done'') example_db]\<rparr>))) = Some i
      \<and> ir_conclusion i = Some (JStr ''done''))"
proof -
  let ?db = "example_db\<lparr>db_steps := [new_step (example_env 5 50) example_lease ''final'' (JStr ''done'') example_db]\<rparr>"
  have ok: "current_runs_ok ?db" by (simp add: current_runs_ok_def example_defs)
  have step: "final_step_ok 50 (JStr ''done'') example_lease ?db"
    by (simp add: final_step_ok_def new_step_def example_defs)
  have ij: "incident_join ?db 1 = Some (example_run_row, example_incident_row)"
    "lock_scope ?db (Some 1) [] = Inr (joined_scope ?db example_incident_row)"
    "\<not> lease_revoked example_run_row example_incident_row (joined_scope ?db example_incident_row) example_lease 6"
    "le_incident_id example_lease = 1"
    by (simp_all add: incident_join_def lock_scope_def incident_target_def joined_scope_def lease_revoked_def example_defs)
  have "\<exists>db1. publish (JStr ''done'') 50 (example_env 6 60) example_lease ?db = (Inr True, db1)"
    using ij step by (simp add: publish_def publish_in_def) (simp add: example_defs)
  then obtain db1 where p: "publish (JStr ''done'') 50 (example_env 6 60) example_lease ?db = (Inr True, db1)" ..
  from publish_owned_and_final [OF ok p, THEN conjunct1] p ij(4) show ?thesis by auto
qed

end
