(* ===== verification/Store_Runs.thy ===== *)
theory Store_Runs
  imports Store_Sessions Store_Knowledge Store_Steps "HOL-Library.Product_Lexorder"
begin

section \<open>Runs: creation, claims, leases, parking (\<open>persistence/runs.py\<close>)\<close>

text \<open>
  \<open>claim\<close> gives one worker the lease of a Run for one attempt, \<open>renew_lease\<close> extends it, \<open>block\<close>, \<open>hand_off\<close> and
  \<open>abandon\<close> give it back, \<open>new_run\<close> continues a cancelled incident with a fresh Run. Without a lease, the
  deadline sweep parks what is overdue and \<open>park_backlog\<close> what is queued beyond a limit. A loop of
  transactions (the sweep, the backlog pass) is a recursion over its transactions; an error leaves
  what the earlier ones committed.

  The fresh ids of a decision: index 0 is the audit row, index 1 the input row, the ending records
  of revoked sessions start at 2 and the stale marks after them.
\<close>

definition seconds_interval :: "int \<Rightarrow> time" where
  "seconds_interval secs = secs * 1000000"

text \<open>\<open>INSERT INTO opspilot_runs\<close> with the column defaults.\<close>

definition fresh_run :: "uuid \<Rightarrow> uuid \<Rightarrow> RunExecution \<Rightarrow> int \<Rightarrow> int \<Rightarrow> time \<Rightarrow> (string, string) fmap \<Rightarrow> json option \<Rightarrow> run_row" where
  "fresh_run run_id incident_id state generation budget_limit deadline versions inp =
     \<lparr>rr_run_id = run_id, rr_incident_id = incident_id, rr_state = state, rr_epoch = 0, rr_owner = None,
      rr_lease_until = None, rr_control_generation = generation, rr_budget_limit = budget_limit, rr_budget_reserved = 0,
      rr_budget_spent = 0, rr_budget_unknown = 0, rr_deadline = deadline, rr_versions = versions,
      rr_input_watermark = 0, rr_tool_operations_used = 0, rr_tool_seconds_used = 0, rr_input = inp\<rparr>"

lemma fresh_run_simps [simp]:
  "rr_run_id (fresh_run k i s g b d v j) = k" "rr_incident_id (fresh_run k i s g b d v j) = i"
  "rr_state (fresh_run k i s g b d v j) = s" "rr_epoch (fresh_run k i s g b d v j) = 0"
  "rr_owner (fresh_run k i s g b d v j) = None" "rr_lease_until (fresh_run k i s g b d v j) = None"
  "rr_control_generation (fresh_run k i s g b d v j) = g" "rr_deadline (fresh_run k i s g b d v j) = d"
  "rr_budget_limit (fresh_run k i s g b d v j) = b" "rr_budget_reserved (fresh_run k i s g b d v j) = 0"
  "rr_budget_spent (fresh_run k i s g b d v j) = 0" "rr_budget_unknown (fresh_run k i s g b d v j) = 0"
  "rr_tool_operations_used (fresh_run k i s g b d v j) = 0" "rr_tool_seconds_used (fresh_run k i s g b d v j) = 0"
  "rr_versions (fresh_run k i s g b d v j) = v" "rr_input_watermark (fresh_run k i s g b d v j) = 0"
  by (simp_all add: fresh_run_def)

definition insert_run :: "run_row \<Rightarrow> db \<Rightarrow> perr + db" where
  "insert_run r db = bind_result (insert_row rr_run_id r (db_runs db)) (\<lambda>runs. Inr (db\<lparr>db_runs := runs\<rparr>))"

definition update_incident :: "uuid \<Rightarrow> (incident_row \<Rightarrow> incident_row) \<Rightarrow> db \<Rightarrow> db" where
  "update_incident incident_id f db =
     db\<lparr>db_incidents := update_where (\<lambda>i. ir_incident_id i = incident_id) f (db_incidents db)\<rparr>"

text \<open>The audit row of a human decision.\<close>

definition record_control ::
  "env \<Rightarrow> uuid \<Rightarrow> string \<Rightarrow> int \<Rightarrow> int \<Rightarrow> string \<Rightarrow> (string, json) fmap option \<Rightarrow> db \<Rightarrow> perr + db" where
  "record_control e incident_id action expected resulting actor payload db =
     bind_result (insert_row ca_audit_id
       \<lparr>ca_audit_id = env_uuid4 e 0, ca_incident_id = incident_id, ca_action = action, ca_expected_generation = expected,
        ca_resulting_generation = resulting, ca_actor = actor, ca_payload = map_option JObj payload,
        ca_created_at = env_later e\<rparr> (db_controls db))
      (\<lambda>rows. Inr (db\<lparr>db_controls := rows\<rparr>))"

subsection \<open>\<open>new_run\<close>\<close>

definition payload_key :: "(string, json) fmap option \<Rightarrow> json" where
  "payload_key payload = (case payload of None \<Rightarrow> JNull
     | Some m \<Rightarrow> (case fmlookup m ''idempotency_key'' of None \<Rightarrow> JNull | Some v \<Rightarrow> v))"

definition recorded_key :: "json option \<Rightarrow> json" where
  "recorded_key stored = (case stored of Some (JObj m) \<Rightarrow> payload_key (Some m) | _ \<Rightarrow> JNull)"

definition new_run_audit :: "uuid \<Rightarrow> int \<Rightarrow> db \<Rightarrow> control_row option" where
  "new_run_audit incident_id generation db =
     List.find (\<lambda>c. ca_incident_id c = incident_id \<and> ca_action c = ''new_run'' \<and> ca_resulting_generation c = generation)
       (db_controls db)"

text \<open>The answer to a \<open>run_id\<close> that exists already.\<close>

definition replay_new_run :: "incident_row \<Rightarrow> run_row \<Rightarrow> int \<Rightarrow> (string, json) fmap option \<Rightarrow> db \<Rightarrow> perr + int" where
  "replay_new_run i r expected payload db =
     (let generation = rr_control_generation r; current = (ir_current_run_id i = Some (rr_run_id r));
          refused = (if current \<and> ir_state i \<noteq> IS_cancelled then Inl E_ILLEGAL_TRANSITION else Inl E_IDENTITY_CONFLICT)
      in case new_run_audit (ir_incident_id i) generation db of
           None \<Rightarrow> refused
         | Some audit \<Rightarrow>
             if ir_state i \<in> {IS_queued, IS_paused} \<and> current \<and> ir_control_generation i = generation
                \<and> expected = generation - 1
             then (if payload_key payload \<noteq> JNull \<and> recorded_key (ca_payload audit) \<noteq> payload_key payload
                   then Inl E_CONTROL_CONFLICT else Inr generation)
             else refused)"

definition suspended_scope :: "scope_row \<Rightarrow> bool" where
  "suspended_scope sc \<longleftrightarrow> sc_global_suspended sc \<or> sc_target_suspended sc"

definition create_run ::
  "env \<Rightarrow> incident_row \<Rightarrow> scope_row \<Rightarrow> uuid \<Rightarrow> time \<Rightarrow> int \<Rightarrow> (string, string) fmap \<Rightarrow> string \<Rightarrow> json option
     \<Rightarrow> (string, json) fmap option \<Rightarrow> db \<Rightarrow> int tx" where
  "create_run e i scope run_id deadline budget_limit versions actor inp payload db =
     (let incident_id = ir_incident_id i; nxt = ir_control_generation i + 1;
          halted = suspended_scope scope
      in bind_result (insert_run (fresh_run run_id incident_id (if halted then R_paused else R_queued) nxt
             budget_limit deadline versions inp) db) (\<lambda>db1.
         bind_result (revoke_authorized_sessions e 2 incident_id db1) (\<lambda>(ks, db2).
         bind_result (record_control e incident_id ''new_run'' (nxt - 1) nxt actor payload
             (update_incident incident_id (\<lambda>x. x\<lparr>ir_state := (if halted then IS_paused else IS_queued),
                ir_lifecycle := L_open, ir_control_generation := nxt, ir_current_run_id := Some run_id,
                ir_conclusion := None\<rparr>) db2)) (\<lambda>db3.
         bind_result (mark_stale_in e (2 + length ks) incident_id
             (if ir_lifecycle i \<in> {L_resolved, L_closed} then ''incident_reopened'' else ''run_added'') ''new_run'' db3)
           (\<lambda>db4. Inr (nxt, db4))))))"

definition new_run_in ::
  "uuid \<Rightarrow> uuid \<Rightarrow> int \<Rightarrow> time \<Rightarrow> int \<Rightarrow> (string, string) fmap \<Rightarrow> string \<Rightarrow> json option \<Rightarrow> (string, json) fmap option
     \<Rightarrow> env \<Rightarrow> db \<Rightarrow> int tx" where
  "new_run_in incident_id run_id expected deadline budget_limit versions actor inp payload e db =
     (if expected < 0 then Inl E_INVALID_INPUT
      else case lock_scope db (Some incident_id) [] of
        Inl err \<Rightarrow> Inl err
      | Inr scope \<Rightarrow> (case find_incident incident_id db of
          None \<Rightarrow> Inl E_UNKNOWN_IDENTITY
        | Some i \<Rightarrow>
            if ir_mode i = M_human_owned \<and> ir_lifecycle i \<noteq> L_closed then Inl E_ILLEGAL_TRANSITION
            else case List.find (\<lambda>r. rr_run_id r = run_id \<and> rr_incident_id r = incident_id) (db_runs db) of
              Some r \<Rightarrow> map_sum id (\<lambda>generation. (generation, db)) (replay_new_run i r expected payload db)
            | None \<Rightarrow>
                if ir_lifecycle i = L_closed
                then (if ir_control_generation i \<noteq> expected then Inl E_CONTROL_CONFLICT else Inl E_REOPEN_REQUIRED)
                else if ir_state i \<noteq> IS_cancelled then Inl E_ILLEGAL_TRANSITION
                else if ir_control_generation i \<noteq> expected then Inl E_CONTROL_CONFLICT
                else create_run e i scope run_id deadline budget_limit versions actor inp payload db))"

definition new_run ::
  "uuid \<Rightarrow> uuid \<Rightarrow> int \<Rightarrow> time \<Rightarrow> int \<Rightarrow> (string, string) fmap \<Rightarrow> string \<Rightarrow> json option \<Rightarrow> (string, json) fmap option
     \<Rightarrow> env \<Rightarrow> db \<Rightarrow> int outcome" where
  "new_run incident_id run_id expected deadline budget_limit versions actor inp payload e db =
     transaction db (new_run_in incident_id run_id expected deadline budget_limit versions actor inp payload e db)"

subsection \<open>Claims and leases\<close>

definition active_lease :: "run_row \<Rightarrow> time \<Rightarrow> bool" where
  "active_lease r now \<longleftrightarrow> rr_state r = R_running \<and> (case rr_lease_until r of None \<Rightarrow> False | Some u \<Rightarrow> now < u)"

text \<open>What \<open>claim\<close> refuses before it looks at the versions.\<close>

definition claim_guard :: "run_row \<Rightarrow> incident_row \<Rightarrow> scope_row \<Rightarrow> time \<Rightarrow> perr option" where
  "claim_guard r i sc now =
     (if active_lease r now then Some E_LEASE_ACTIVE
      else if rr_deadline r \<le> now then Some E_DEADLINE_EXCEEDED
      else if ir_state i \<in> {IS_completed, IS_cancelled, IS_paused} then Some E_CONTROL_DENIED
      else if ir_mode i = M_human_owned then Some E_CONTROL_DENIED
      else if rr_state r \<notin> {R_queued, R_running, R_blocked} then Some E_CONTROL_DENIED
      else if suspended_scope sc then Some E_CONTROL_DENIED
      else None)"

definition claim_lease :: "uuid \<Rightarrow> run_row \<Rightarrow> incident_row \<Rightarrow> scope_row \<Rightarrow> Lease" where
  "claim_lease owner r i sc = \<lparr>le_incident_id = ir_incident_id i, le_run_id = rr_run_id r, le_owner = owner,
     le_epoch = rr_epoch r + 1, le_control_generation = ir_control_generation i,
     le_global_suspension_generation = sc_global_generation sc, le_target_suspension_generation = sc_target_generation sc\<rparr>"

definition take_lease :: "env \<Rightarrow> int \<Rightarrow> Lease \<Rightarrow> db \<Rightarrow> db" where
  "take_lease e lease_seconds lease db = update_runs e (\<lambda>r. rr_run_id r = le_run_id lease)
     (\<lambda>r. r\<lparr>rr_state := R_running, rr_owner := Some (le_owner lease), rr_epoch := le_epoch lease,
           rr_control_generation := le_control_generation lease,
           rr_lease_until := Some (min (env_later e + seconds_interval lease_seconds) (rr_deadline r))\<rparr>) db"

text \<open>A Run of other versions is blocked in the transaction, which commits before the error is raised.\<close>

definition claim :: "uuid \<Rightarrow> uuid \<Rightarrow> uuid \<Rightarrow> (string, string) fmap \<Rightarrow> int \<Rightarrow> env \<Rightarrow> db \<Rightarrow> Lease outcome" where
  "claim incident_id run_id owner versions lease_seconds e db =
     (case lock_scope db (Some incident_id) [] of
        Inl err \<Rightarrow> (Inl err, db)
      | Inr _ \<Rightarrow> (case run_join db run_id of
          None \<Rightarrow> (Inl E_UNKNOWN_IDENTITY, db)
        | Some (r, i) \<Rightarrow>
            if ir_incident_id i \<noteq> incident_id then (Inl E_UNKNOWN_IDENTITY, db)
            else case claim_guard r i (joined_scope db i) (env_now e) of
              Some err \<Rightarrow> (Inl err, db)
            | None \<Rightarrow>
                if rr_versions r \<noteq> versions
                then (Inl E_INCOMPATIBLE_STATE, update_runs e
                       (\<lambda>x. rr_run_id x = run_id \<and> rr_state x \<in> {R_queued, R_running})
                       (\<lambda>x. x\<lparr>rr_state := R_blocked\<rparr>) db)
                else if rr_state r = R_blocked then (Inl E_CONTROL_DENIED, db)
                else (Inr (claim_lease owner r i (joined_scope db i)),
                      take_lease e lease_seconds (claim_lease owner r i (joined_scope db i)) db)))"

text \<open>\<open>renew_lease\<close> compares the execution identity and the clock; the suspension gates are not read.\<close>

definition renew_lease_in :: "int \<Rightarrow> env \<Rightarrow> Lease \<Rightarrow> db \<Rightarrow> time tx" where
  "renew_lease_in extend_seconds e lease db =
     (if extend_seconds \<le> 0 then Inl E_INVALID_INPUT
      else case run_join db (le_run_id lease) of
        None \<Rightarrow> Inl E_CONTROL_DENIED
      | Some (r, i) \<Rightarrow> (case rr_lease_until r of
          None \<Rightarrow> Inl E_CONTROL_DENIED
        | Some u \<Rightarrow>
            if ir_incident_id i \<noteq> le_incident_id lease \<or> rr_state r \<noteq> R_running \<or> rr_owner r \<noteq> Some (le_owner lease)
               \<or> rr_epoch r \<noteq> le_epoch lease \<or> ir_control_generation i \<noteq> le_control_generation lease
               \<or> u \<le> env_now e \<or> rr_deadline r \<le> env_now e
            then Inl E_CONTROL_DENIED
            else let until = min (max u (env_now e + seconds_interval extend_seconds)) (rr_deadline r)
                 in Inr (until, update_runs e (\<lambda>x. rr_run_id x = le_run_id lease)
                      (\<lambda>x. x\<lparr>rr_lease_until := Some until\<rparr>) db)))"

definition renew_lease :: "int \<Rightarrow> env \<Rightarrow> Lease \<Rightarrow> db \<Rightarrow> time outcome" where
  "renew_lease extend_seconds e lease db = transaction db (renew_lease_in extend_seconds e lease db)"

definition block_in :: "env \<Rightarrow> Lease \<Rightarrow> db \<Rightarrow> unit tx" where
  "block_in e lease db = bind_result (fenced_join e lease db) (\<lambda>_.
     Inr ((), update_runs e (\<lambda>r. rr_run_id r = le_run_id lease \<and> rr_state r = R_running)
        (\<lambda>r. r\<lparr>rr_state := R_blocked, rr_owner := None, rr_lease_until := None\<rparr>) db))"

definition block :: "env \<Rightarrow> Lease \<Rightarrow> db \<Rightarrow> unit outcome" where
  "block e lease db = transaction db (block_in e lease db)"

definition park :: "env \<Rightarrow> uuid \<Rightarrow> RunExecution set \<Rightarrow> db \<Rightarrow> bool \<times> db" where
  "park e run_id from_states db =
     ((\<exists>r \<in> set (db_runs db). rr_run_id r = run_id \<and> rr_state r \<in> from_states),
      update_runs e (\<lambda>r. rr_run_id r = run_id \<and> rr_state r \<in> from_states)
        (\<lambda>r. r\<lparr>rr_state := R_waiting_human, rr_owner := None, rr_lease_until := None\<rparr>) db)"

definition hand_off_in :: "env \<Rightarrow> Lease \<Rightarrow> db \<Rightarrow> unit tx" where
  "hand_off_in e lease db = bind_result (fenced_join e lease db) (\<lambda>(r, i).
     if rr_state r \<noteq> R_running then Inl E_CONTROL_DENIED
     else Inr ((), snd (park e (le_run_id lease) {R_running} db)))"

definition hand_off :: "env \<Rightarrow> Lease \<Rightarrow> db \<Rightarrow> unit outcome" where
  "hand_off e lease db = transaction db (hand_off_in e lease db)"

definition lease_current :: "env \<Rightarrow> Lease \<Rightarrow> db \<Rightarrow> bool" where
  "lease_current e lease db = (case run_join db (le_run_id lease) of
      None \<Rightarrow> False
    | Some (r, i) \<Rightarrow> ir_incident_id i = le_incident_id lease \<and> \<not> lease_revoked r i (joined_scope db i) lease (env_now e))"

definition abandon :: "env \<Rightarrow> Lease \<Rightarrow> db \<Rightarrow> db" where
  "abandon e lease db = update_runs e
     (\<lambda>r. rr_run_id r = le_run_id lease \<and> rr_owner r = Some (le_owner lease) \<and> rr_epoch r = le_epoch lease
        \<and> rr_control_generation r = le_control_generation lease)
     (\<lambda>r. r\<lparr>rr_owner := None, rr_lease_until := None\<rparr>) db"

interpretation block: lease_checked block_in
  by unfold_locales (auto simp: block_in_def bind_result_Inr_iff dest: fenced_join_Inr)

interpretation hand_off: lease_checked hand_off_in
  by unfold_locales (auto simp: hand_off_in_def bind_result_Inr_iff dest: fenced_join_Inr split: if_splits)

subsection \<open>The deadline sweep\<close>

definition overdue :: "time \<Rightarrow> run_row \<Rightarrow> bool" where
  "overdue now r \<longleftrightarrow> rr_state r \<in> {R_queued, R_running} \<and> rr_deadline r \<le> now"

definition sweep_candidates :: "env \<Rightarrow> uuid option \<Rightarrow> nat \<Rightarrow> db \<Rightarrow> (uuid \<times> uuid) list" where
  "sweep_candidates e incident_id limit db =
     map (\<lambda>r. (rr_incident_id r, rr_run_id r)) (take limit (sort_key rr_deadline
       (filter (\<lambda>r. overdue (env_now e) r \<and> (case incident_id of None \<Rightarrow> True | Some k \<Rightarrow> rr_incident_id r = k))
          (db_runs db))))"

text \<open>One candidate, in a transaction of its own; \<open>None\<close> when it is no longer overdue.\<close>

definition sweep_one :: "env \<Rightarrow> uuid \<times> uuid \<Rightarrow> db \<Rightarrow> (uuid \<times> uuid \<times> int) option tx" where
  "sweep_one e c db = (case find_run (snd c) db of
      None \<Rightarrow> Inr (None, db)
    | Some r \<Rightarrow>
        if \<not> overdue (env_later e) r then Inr (None, db)
        else (case find_incident (fst c) db of
            None \<Rightarrow> Inl E_UNCAUGHT
          | Some i \<Rightarrow> (let p = park e (snd c) {R_queued, R_running} db in
              Inr (if fst p then Some (fst c, snd c, ir_control_generation i) else None, snd p))))"

fun sweep_loop :: "env \<Rightarrow> (uuid \<times> uuid) list \<Rightarrow> db \<Rightarrow> (uuid \<times> uuid \<times> int) list outcome" where
  "sweep_loop e [] db = (Inr [], db)"
| "sweep_loop e (c # cs) db = (case sweep_one e c db of
      Inl err \<Rightarrow> (Inl err, db)
    | Inr (p, db1) \<Rightarrow> (case sweep_loop e cs db1 of
        (Inl err, db2) \<Rightarrow> (Inl err, db2)
      | (Inr ps, db2) \<Rightarrow> (Inr ((case p of None \<Rightarrow> [] | Some x \<Rightarrow> [x]) @ ps), db2)))"

definition sweep_expired_runs_with_generations ::
  "env \<Rightarrow> uuid option \<Rightarrow> nat \<Rightarrow> db \<Rightarrow> (uuid \<times> uuid \<times> int) list outcome" where
  "sweep_expired_runs_with_generations e incident_id limit db =
     sweep_loop e (sweep_candidates e incident_id limit db) db"

definition sweep_expired_runs :: "env \<Rightarrow> uuid option \<Rightarrow> nat \<Rightarrow> db \<Rightarrow> (uuid \<times> uuid) list outcome" where
  "sweep_expired_runs e incident_id limit db =
     map_prod (map_sum id (map (\<lambda>(i, r, g). (i, r)))) id (sweep_expired_runs_with_generations e incident_id limit db)"

subsection \<open>The backlog limit\<close>

text \<open>The rows \<open>FROM opspilot_incidents i JOIN opspilot_runs r ON r.run_id = i.current_run_id\<close>.\<close>

definition current_pairs :: "db \<Rightarrow> (incident_row \<times> run_row) list" where
  "current_pairs db = List.map_filter (\<lambda>i. Option.bind (ir_current_run_id i) (\<lambda>k. map_option (Pair i) (find_run k db)))
     (db_incidents db)"

definition open_automatic :: "incident_row \<Rightarrow> bool" where
  "open_automatic i \<longleftrightarrow> ir_state i \<notin> {IS_paused, IS_cancelled, IS_completed} \<and> ir_mode i = M_automatic \<and> ir_conclusion i = None"

definition in_backlog :: "time \<Rightarrow> incident_row \<times> run_row \<Rightarrow> bool" where
  "in_backlog now p \<longleftrightarrow> open_automatic (fst p) \<and> rr_state (snd p) = R_queued \<and> now < rr_deadline (snd p)"

definition parkable :: "time \<Rightarrow> incident_row \<times> run_row \<Rightarrow> bool" where
  "parkable now p \<longleftrightarrow> in_backlog now p \<and> rr_control_generation (snd p) = 0"

text \<open>\<open>ORDER BY i.priority, r.deadline, i.incident_id\<close>, and its reverse.\<close>

definition claim_order :: "incident_row \<times> run_row \<Rightarrow> int \<times> time \<times> uuid" where
  "claim_order p = (ir_priority (fst p), rr_deadline (snd p), ir_incident_id (fst p))"

definition backlog_count :: "time \<Rightarrow> db \<Rightarrow> nat" where
  "backlog_count now db = length (filter (in_backlog now) (current_pairs db))"

definition backlog_lowest :: "time \<Rightarrow> db \<Rightarrow> (incident_row \<times> run_row) option" where
  "backlog_lowest now db = (case rev (sort_key claim_order (filter (parkable now) (current_pairs db))) of
      [] \<Rightarrow> None | p # ps \<Rightarrow> Some p)"

datatype backlog_step = BS_stop | BS_again | BS_parked "uuid \<times> uuid \<times> int"

text \<open>One transaction of the pass: the first pick, the locked re-read, the count and the second pick.\<close>

definition park_backlog_one :: "int \<Rightarrow> env \<Rightarrow> db \<Rightarrow> backlog_step \<times> db" where
  "park_backlog_one max_queued e db = (case backlog_lowest (env_now e) db of
      None \<Rightarrow> (BS_stop, db)
    | Some (i, r) \<Rightarrow>
        if \<not> parkable (env_later e) (i, r) then (BS_again, db)
        else if int (backlog_count (env_later e) db) \<le> max_queued then (BS_stop, db)
        else if map_option (rr_run_id \<circ> snd) (backlog_lowest (env_later e) db) \<noteq> Some (rr_run_id r) then (BS_again, db)
        else (let p = park e (rr_run_id r) {R_queued} db in
              (if fst p then BS_parked (ir_incident_id i, rr_run_id r, ir_control_generation i) else BS_again, snd p)))"

text \<open>The loop, one environment per transaction: at most \<open>limit\<close> of them.\<close>

fun park_backlog_loop :: "int \<Rightarrow> env list \<Rightarrow> db \<Rightarrow> (uuid \<times> uuid \<times> int) list \<times> db" where
  "park_backlog_loop max_queued [] db = ([], db)"
| "park_backlog_loop max_queued (e # es) db = (case park_backlog_one max_queued e db of
      (BS_stop, db1) \<Rightarrow> ([], db1)
    | (BS_again, db1) \<Rightarrow> park_backlog_loop max_queued es db1
    | (BS_parked x, db1) \<Rightarrow> map_prod (Cons x) id (park_backlog_loop max_queued es db1))"

definition park_backlog :: "int \<Rightarrow> env list \<Rightarrow> db \<Rightarrow> (uuid \<times> uuid \<times> int) list outcome" where
  "park_backlog max_queued es db =
     (if max_queued < 1 \<or> es = [] then (Inl E_INVALID_INPUT, db)
      else map_prod Inr id (park_backlog_loop max_queued es db))"

subsection \<open>The history of an incident's Runs\<close>

record run_history =
  rh_run_id :: uuid
  rh_state :: RunExecution
  rh_control_generation :: int
  rh_started_at :: "time option"
  rh_concluded_at :: "time option"
  rh_report :: "json option"

definition run_started_at :: "uuid \<Rightarrow> db \<Rightarrow> time option" where
  "run_started_at run_id db = (case map st_observed_at (filter (\<lambda>s. st_run_id s = run_id) (db_steps db)) of
      [] \<Rightarrow> None | t # ts \<Rightarrow> Some (fold min ts t))"

definition conclusion_step :: "run_row \<Rightarrow> db \<Rightarrow> step_row option" where
  "conclusion_step r db = (case rev (sort_key (\<lambda>s. (st_sequence s, st_step_id s))
       (filter (\<lambda>s. st_run_id s = rr_run_id r \<and> field_of (st_response s) ''kind'' = JStr ''conclusion''
          \<and> st_status s \<noteq> ST_late_result \<and> rr_state r = R_completed) (db_steps db))) of
      [] \<Rightarrow> None | s # ss \<Rightarrow> Some s)"

definition history_of :: "db \<Rightarrow> run_row \<Rightarrow> run_history" where
  "history_of db r = \<lparr>rh_run_id = rr_run_id r, rh_state = rr_state r, rh_control_generation = rr_control_generation r,
     rh_started_at = run_started_at (rr_run_id r) db,
     rh_concluded_at = map_option st_observed_at (conclusion_step r db),
     rh_report = map_option st_response (conclusion_step r db)\<rparr>"

text \<open>\<open>NULLS LAST\<close> is the first component of the key.\<close>

definition investigation_history :: "uuid \<Rightarrow> db \<Rightarrow> run_history list" where
  "investigation_history incident_id db =
     sort_key (\<lambda>h. (rh_started_at h = None, (case rh_started_at h of None \<Rightarrow> 0 | Some t \<Rightarrow> t),
         rh_control_generation h, rh_run_id h))
       (map (history_of db) (filter (\<lambda>r. rr_incident_id r = incident_id) (db_runs db)))"

end
