(* ===== verification/Store_Incidents.thy ===== *)
theory Store_Incidents
  imports Store_Runs Domain_Evidence
begin

section \<open>Incidents: intake, targets, the claim list, rebuilding (\<open>persistence/incidents.py\<close>, \<open>recovery.py\<close>)\<close>

text \<open>
  \<open>accept\<close> creates an incident with its first Run once per intake key, \<open>register_target\<close> a target with its
  suspension row, \<open>claimable_incidents\<close> lists what a worker may try to claim in the order it should,
  \<open>rebuild\<close> reads the break point of an incident from the committed rows, and \<open>rebuild_plan\<close> turns it into
  the plan of a new attempt. The freezing of the snapshot into immutable mappings is the identity on
  the model's values.
\<close>

definition check_priority :: "int \<Rightarrow> bool" where
  "check_priority priority \<longleftrightarrow> priority \<in> {0, 1, 2}"

record intake =
  it_incident_id :: uuid
  it_run_id :: uuid
  it_intake_key :: string
  it_deadline :: time
  it_budget_limit :: int
  it_versions :: "(string, string) fmap"
  it_input :: "json option"
  it_target_id :: "uuid option"
  it_priority :: int
  it_related_incident_id :: "uuid option"

definition same_intake :: "intake \<Rightarrow> incident_row \<Rightarrow> bool" where
  "same_intake a i \<longleftrightarrow> ir_incident_id i = it_incident_id a \<and> ir_current_run_id i = Some (it_run_id a)
     \<and> ir_target_id i = it_target_id a \<and> ir_related_incident_id i = it_related_incident_id a"

definition fresh_incident :: "env \<Rightarrow> intake \<Rightarrow> incident_row" where
  "fresh_incident e a = \<lparr>ir_incident_id = it_incident_id a, ir_intake_key = it_intake_key a, ir_state = IS_queued,
     ir_mode = M_automatic, ir_lifecycle = L_open, ir_control_generation = 0, ir_observation_generation = 0,
     ir_current_run_id = Some (it_run_id a), ir_conclusion = None, ir_target_id = it_target_id a,
     ir_priority = it_priority a, ir_related_incident_id = it_related_incident_id a, ir_merged_into_incident_id = None,
     ir_created_at = env_later e\<rparr>"

lemma fresh_incident_simps [simp]:
  "ir_incident_id (fresh_incident e a) = it_incident_id a" "ir_intake_key (fresh_incident e a) = it_intake_key a"
  "ir_state (fresh_incident e a) = IS_queued" "ir_mode (fresh_incident e a) = M_automatic"
  "ir_lifecycle (fresh_incident e a) = L_open" "ir_control_generation (fresh_incident e a) = 0"
  "ir_current_run_id (fresh_incident e a) = Some (it_run_id a)" "ir_conclusion (fresh_incident e a) = None"
  "ir_target_id (fresh_incident e a) = it_target_id a" "ir_related_incident_id (fresh_incident e a) = it_related_incident_id a"
  by (simp_all add: fresh_incident_def)

abbreviation find_intake :: "string \<Rightarrow> db \<Rightarrow> incident_row option" where
  "find_intake key db \<equiv> find_row ir_intake_key key (db_incidents db)"

text \<open>\<open>INSERT \<dots> ON CONFLICT DO NOTHING\<close>: a related incident equal to the incident itself violates a \<open>CHECK\<close>;
  nothing is inserted when the incident id or the intake key is taken; a related incident that does
  not exist violates its foreign key.\<close>

definition insert_incident :: "env \<Rightarrow> intake \<Rightarrow> db \<Rightarrow> perr + bool \<times> db" where
  "insert_incident e a db =
     (if it_related_incident_id a = Some (it_incident_id a) then Inl E_STORAGE_UNAVAILABLE
      else if find_incident (it_incident_id a) db \<noteq> None \<or> find_intake (it_intake_key a) db \<noteq> None then Inr (False, db)
      else case it_related_incident_id a of
        None \<Rightarrow> Inr (True, db\<lparr>db_incidents := db_incidents db @ [fresh_incident e a]\<rparr>)
      | Some k \<Rightarrow> if find_incident k db = None then Inl E_STORAGE_UNAVAILABLE
          else Inr (True, db\<lparr>db_incidents := db_incidents db @ [fresh_incident e a]\<rparr>))"

definition pause_accepted :: "env \<Rightarrow> intake \<Rightarrow> db \<Rightarrow> db" where
  "pause_accepted e a db = update_runs e (\<lambda>r. rr_run_id r = it_run_id a) (\<lambda>r. r\<lparr>rr_state := R_paused\<rparr>)
     (update_incident (it_incident_id a) (\<lambda>i. i\<lparr>ir_state := IS_paused\<rparr>) db)"

text \<open>The gates at intake: the global one and that of the target, which must be registered.\<close>

definition intake_gates :: "uuid option \<Rightarrow> db \<Rightarrow> perr + bool" where
  "intake_gates target db = (case target of
      None \<Rightarrow> Inr (db_global_suspended db)
    | Some t \<Rightarrow>
        if find_row tg_target_id t (db_targets db) = None then Inl E_UNKNOWN_TARGET
        else case find_suspension t db of
          None \<Rightarrow> Inl E_INCONSISTENT_STATE
        | Some ts \<Rightarrow> Inr (db_global_suspended db \<or> ts_suspended ts))"

definition accept_new :: "env \<Rightarrow> intake \<Rightarrow> bool \<Rightarrow> db \<Rightarrow> bool tx" where
  "accept_new e a halted db = bind_result (insert_incident e a db) (\<lambda>(inserted, db1).
     case find_intake (it_intake_key a) db1 of
       None \<Rightarrow> Inl E_IDENTITY_CONFLICT
     | Some i \<Rightarrow>
         if \<not> same_intake a i then Inl E_IDENTITY_CONFLICT
         else if \<not> inserted then Inr (False, db1)
         else bind_result (insert_run (fresh_run (it_run_id a) (it_incident_id a) R_queued 0 (it_budget_limit a)
                (it_deadline a) (it_versions a) (it_input a)) db1)
              (\<lambda>db2. Inr (True, if halted then pause_accepted e a db2 else db2)))"

definition accept_in :: "env \<Rightarrow> intake \<Rightarrow> db \<Rightarrow> bool tx" where
  "accept_in e a db =
     (if \<not> check_priority (it_priority a) then Inl E_INVALID_INPUT
      else bind_result (intake_gates (it_target_id a) db) (\<lambda>halted.
        case find_intake (it_intake_key a) db of
          Some i \<Rightarrow> if same_intake a i then Inr (False, db) else Inl E_IDENTITY_CONFLICT
        | None \<Rightarrow> accept_new e a halted db))"

definition accept :: "env \<Rightarrow> intake \<Rightarrow> db \<Rightarrow> unit outcome" where
  "accept e a db = map_prod (map_sum id (\<lambda>_. ())) id
     (transaction db (accept_in e (a\<lparr>it_related_incident_id := None\<rparr>) db))"

subsection \<open>Targets\<close>

definition insert_target :: "uuid \<Rightarrow> string \<Rightarrow> db \<Rightarrow> perr + db" where
  "insert_target target_id resource_uid db =
     (if (\<exists>t \<in> set (db_targets db). tg_target_id t = target_id \<or> tg_resource_uid t = resource_uid) then Inl E_IDENTITY_CONFLICT
      else Inr (db\<lparr>db_targets := db_targets db @ [\<lparr>tg_target_id = target_id, tg_resource_uid = resource_uid, tg_integration_id = None, tg_cluster_uid = None,
        tg_namespace = None, tg_workload = None\<rparr>]\<rparr>))"

definition insert_suspension :: "uuid \<Rightarrow> db \<Rightarrow> perr + db" where
  "insert_suspension target_id db = bind_result (insert_row ts_target_id
       \<lparr>ts_target_id = target_id, ts_suspended = False, ts_generation = 0\<rparr> (db_target_suspensions db))
     (\<lambda>rows. Inr (db\<lparr>db_target_suspensions := rows\<rparr>))"

definition register_target_in :: "env \<Rightarrow> string \<Rightarrow> uuid option \<Rightarrow> db \<Rightarrow> uuid tx" where
  "register_target_in e resource_uid target_id db =
     (if resource_uid = [] then Inl E_INVALID_INPUT
      else let identity = (case target_id of None \<Rightarrow> env_uuid4 e 0 | Some t \<Rightarrow> t) in
        case List.find (\<lambda>t. tg_resource_uid t = resource_uid \<or> tg_target_id t = identity) (db_targets db) of
          Some t \<Rightarrow>
            if tg_resource_uid t \<noteq> resource_uid \<or> (target_id \<noteq> None \<and> tg_target_id t \<noteq> identity)
            then Inl E_IDENTITY_CONFLICT else Inr (tg_target_id t, db)
        | None \<Rightarrow> bind_result (insert_target identity resource_uid db) (\<lambda>db1.
            bind_result (insert_suspension identity db1) (\<lambda>db2. Inr (identity, db2))))"

definition register_target :: "env \<Rightarrow> string \<Rightarrow> uuid option \<Rightarrow> db \<Rightarrow> uuid outcome" where
  "register_target e resource_uid target_id db = transaction db (register_target_in e resource_uid target_id db)"

subsection \<open>What a worker may claim\<close>

definition claimable :: "time \<Rightarrow> incident_row \<times> run_row \<Rightarrow> bool" where
  "claimable now p \<longleftrightarrow> open_automatic (fst p) \<and> rr_state (snd p) \<in> {R_queued, R_running} \<and> now < rr_deadline (snd p)
     \<and> (rr_state (snd p) = R_queued \<or> (case rr_lease_until (snd p) of None \<Rightarrow> True | Some u \<Rightarrow> u \<le> now))"

definition claimable_incidents :: "env \<Rightarrow> int \<Rightarrow> db \<Rightarrow> perr + uuid list" where
  "claimable_incidents e limit db =
     (if limit < 1 then Inl E_INVALID_INPUT
      else Inr (map (ir_incident_id \<circ> fst) (take (nat limit)
        (sort_key claim_order (filter (claimable (env_now e)) (current_pairs db))))))"

subsection \<open>Rebuilding an attempt\<close>

record pending_tool =
  pt_step_id :: uuid
  pt_ordinal :: nat
  pt_tool_call :: json

record snapshot =
  sn_incident_id :: uuid
  sn_state :: IncidentState
  sn_control_generation :: int
  sn_run :: run_row
  sn_steps :: "step_row list"
  sn_pending_tools :: "pending_tool list"
  sn_conclusion :: "json option"
  sn_inputs :: "input_row list"
  sn_input_rounds :: "round_row list"
  sn_pending_inputs :: "input_row list"

definition steps_of :: "uuid \<Rightarrow> db \<Rightarrow> step_row list" where
  "steps_of run_id db = sort_key (\<lambda>s. (st_sequence s, st_step_id s)) (filter (\<lambda>s. st_run_id s = run_id) (db_steps db))"

text \<open>The plan of a step must be a list of objects and its results exactly what \<open>commit_tool\<close> writes.\<close>

definition step_calls :: "step_row \<Rightarrow> perr + json list" where
  "step_calls s = (case tool_plan (st_response s) of
      None \<Rightarrow> Inl E_INCONSISTENT_STATE
    | Some calls \<Rightarrow> if list_all is_object calls then Inr calls else Inl E_INCONSISTENT_STATE)"

definition check_step :: "step_row \<Rightarrow> perr + unit" where
  "check_step s = (if st_status s = ST_late_result then Inr ()
     else bind_result (step_calls s) (\<lambda>calls.
       bind_result (completed_tool_ordinals (st_tool_results s) (int (length calls))) (\<lambda>_. Inr ())))"

fun check_steps :: "step_row list \<Rightarrow> perr + unit" where
  "check_steps [] = Inr ()"
| "check_steps (s # ss) = bind_result (check_step s) (\<lambda>_. check_steps ss)"

definition pending_of_step :: "step_row \<Rightarrow> perr + pending_tool list" where
  "pending_of_step s = bind_result (step_calls s) (\<lambda>calls.
     bind_result (completed_tool_ordinals (st_tool_results s) (int (length calls))) (\<lambda>done.
       Inr (map (\<lambda>k. \<lparr>pt_step_id = st_step_id s, pt_ordinal = k, pt_tool_call = calls ! k\<rparr>)
              (filter (\<lambda>k. int k \<notin> done) [0..<length calls]))))"

definition live_step :: "int \<Rightarrow> step_row \<Rightarrow> bool" where
  "live_step generation s \<longleftrightarrow> st_control_generation s = generation \<and> st_status s \<in> {ST_response_committed, ST_tool_result_committed}"

fun pending_of_steps :: "int \<Rightarrow> step_row list \<Rightarrow> perr + pending_tool list" where
  "pending_of_steps generation [] = Inr []"
| "pending_of_steps generation (s # ss) =
     (if \<not> live_step generation s then pending_of_steps generation ss
      else bind_result (pending_of_step s) (\<lambda>ps. bind_result (pending_of_steps generation ss) (\<lambda>qs. Inr (ps @ qs))))"

text \<open>\<open>ORDER BY logical_key\<close> compares the characters' codes.\<close>

fun insert_round :: "round_row \<Rightarrow> round_row list \<Rightarrow> round_row list" where
  "insert_round d [] = [d]"
| "insert_round d (x # xs) = (if codes_le (char_codes (rd_logical_key d)) (char_codes (rd_logical_key x)) then d # x # xs
      else x # insert_round d xs)"

definition rounds_of :: "uuid \<Rightarrow> db \<Rightarrow> round_row list" where
  "rounds_of run_id db = foldr insert_round (filter (\<lambda>d. rd_run_id d = run_id) (db_rounds db)) []"

definition inputs_of :: "uuid \<Rightarrow> db \<Rightarrow> input_row list" where
  "inputs_of incident_id db = sort_key in_sequence (filter (\<lambda>x. in_incident_id x = incident_id) (db_inputs db))"

definition rebuild :: "uuid \<Rightarrow> db \<Rightarrow> perr + snapshot" where
  "rebuild incident_id db = (case find_incident incident_id db of
      None \<Rightarrow> Inl E_UNKNOWN_IDENTITY
    | Some i \<Rightarrow> (case Option.bind (ir_current_run_id i) (\<lambda>k. find_run k db) of
        None \<Rightarrow> Inl E_INCONSISTENT_STATE
      | Some r \<Rightarrow>
          if rr_incident_id r \<noteq> incident_id then Inl E_INCONSISTENT_STATE
          else bind_result (check_steps (steps_of (rr_run_id r) db)) (\<lambda>_.
            bind_result (pending_of_steps (ir_control_generation i) (steps_of (rr_run_id r) db)) (\<lambda>pending.
              Inr \<lparr>sn_incident_id = ir_incident_id i, sn_state = ir_state i, sn_control_generation = ir_control_generation i,
                   sn_run = r, sn_steps = steps_of (rr_run_id r) db, sn_pending_tools = pending,
                   sn_conclusion = ir_conclusion i, sn_inputs = inputs_of incident_id db,
                   sn_input_rounds = rounds_of (rr_run_id r) db,
                   sn_pending_inputs = filter (\<lambda>x. rr_input_watermark r < in_sequence x) (inputs_of incident_id db)\<rparr>))))"

record metadata =
  md_incident_state :: IncidentState
  md_control_generation :: int
  md_run_id :: uuid
  md_run_state :: RunExecution
  md_versions :: "(string, string) fmap"

definition recovery_metadata :: "uuid \<Rightarrow> db \<Rightarrow> perr + metadata" where
  "recovery_metadata incident_id db = (case incident_join db incident_id of
      None \<Rightarrow> Inl E_UNKNOWN_IDENTITY
    | Some (r, i) \<Rightarrow> Inr \<lparr>md_incident_state = ir_state i, md_control_generation = ir_control_generation i,
        md_run_id = rr_run_id r, md_run_state = rr_state r, md_versions = rr_versions r\<rparr>)"

subsection \<open>The recovery plan (\<open>recovery.py\<close>)\<close>

record RecoveryPlan =
  rp_incident_id :: uuid
  rp_run_id :: uuid
  rp_state :: RunExecution
  rp_control_generation :: int
  rp_run :: run_row
  rp_steps :: "step_row list"
  rp_pending_tools :: "(pending_tool \<times> string) list"
  rp_conclusion :: "json option"

definition candidate :: "RecoveryPlan \<Rightarrow> bool" where
  "candidate plan \<longleftrightarrow> rp_state plan \<in> {R_queued, R_running} \<and> rp_conclusion plan = None"

definition identified :: "pending_tool \<Rightarrow> perr + pending_tool \<times> string" where
  "identified p = (case tool_operation_id (uuid_str (pt_step_id p)) (int (pt_ordinal p)) of
      Inl _ \<Rightarrow> Inl E_UNCAUGHT
    | Inr operation_id \<Rightarrow> Inr (p, operation_id))"

fun identified_all :: "pending_tool list \<Rightarrow> perr + (pending_tool \<times> string) list" where
  "identified_all [] = Inr []"
| "identified_all (p # ps) = bind_result (identified p) (\<lambda>q. bind_result (identified_all ps) (\<lambda>qs. Inr (q # qs)))"

definition rebuild_plan :: "snapshot \<Rightarrow> perr + RecoveryPlan" where
  "rebuild_plan s = bind_result (identified_all (sn_pending_tools s)) (\<lambda>tools.
     Inr \<lparr>rp_incident_id = sn_incident_id s, rp_run_id = rr_run_id (sn_run s), rp_state = rr_state (sn_run s),
          rp_control_generation = sn_control_generation s, rp_run = sn_run s, rp_steps = sn_steps s,
          rp_pending_tools = tools, rp_conclusion = sn_conclusion s\<rparr>)"

definition recover :: "db \<Rightarrow> uuid \<Rightarrow> perr + RecoveryPlan" where
  "recover db incident_id = bind_result (rebuild incident_id db) rebuild_plan"

end
