(* ===== verification/Store_Controls.thy ===== *)
theory Store_Controls
  imports Store_Incidents
begin

section \<open>Human control: suspensions, decisions, inputs (\<open>persistence/controls.py\<close>)\<close>

text \<open>
  \<open>set_global_suspension\<close> and \<open>set_target_suspension\<close> change a gate and pause what it covers; \<open>control\<close> applies
  one human decision under the control generation it was taken at; \<open>append_input\<close> receives an event.
  The body of \<open>control\<close> is one definition per group of actions, called in the order of the source. A
  decision writes the incident first, then ends observation sessions, then moves the Runs, then the
  audit row, the input and the stale marks, all in one transaction.
\<close>

subsection \<open>Inputs\<close>

definition next_input_sequence :: "uuid \<Rightarrow> db \<Rightarrow> int" where
  "next_input_sequence incident_id db =
     max_or 0 (map in_sequence (filter (\<lambda>x. in_incident_id x = incident_id) (db_inputs db))) + 1"

definition insert_input :: "input_row \<Rightarrow> db \<Rightarrow> perr + db" where
  "insert_input x db = bind_result (insert_row in_input_id x (db_inputs db)) (\<lambda>rows. Inr (db\<lparr>db_inputs := rows\<rparr>))"

definition append_input_in :: "env \<Rightarrow> nat \<Rightarrow> uuid \<Rightarrow> uuid \<Rightarrow> (string, json) fmap \<Rightarrow> string \<Rightarrow> db \<Rightarrow> int tx" where
  "append_input_in e n incident_id input_id content actor db = (case find_incident incident_id db of
      None \<Rightarrow> Inl E_UNKNOWN_IDENTITY
    | Some i \<Rightarrow> (case find_row in_input_id input_id (db_inputs db) of
        Some x \<Rightarrow> if in_incident_id x \<noteq> incident_id \<or> in_content x \<noteq> JObj content \<or> in_actor x \<noteq> actor
                  then Inl E_IDENTITY_CONFLICT else Inr (in_sequence x, db)
      | None \<Rightarrow>
          bind_result (insert_input \<lparr>in_input_id = input_id, in_incident_id = incident_id,
             in_sequence = next_input_sequence incident_id db, in_kind = ''event'', in_content = JObj content,
             in_actor = actor, in_control_generation = ir_control_generation i\<rparr> db) (\<lambda>db1.
          bind_result (mark_stale_in e n incident_id ''input_added'' ''append_input'' db1) (\<lambda>db2.
          Inr (next_input_sequence incident_id db, db2)))))"

definition append_input :: "env \<Rightarrow> uuid \<Rightarrow> uuid \<Rightarrow> (string, json) fmap \<Rightarrow> string \<Rightarrow> db \<Rightarrow> int outcome" where
  "append_input e incident_id input_id content actor db =
     transaction db (append_input_in e 2 incident_id input_id content actor db)"

definition read_inputs :: "uuid \<Rightarrow> int \<Rightarrow> db \<Rightarrow> input_row list" where
  "read_inputs incident_id after_sequence db = sort_key in_sequence
     (filter (\<lambda>x. in_incident_id x = incident_id \<and> after_sequence < in_sequence x) (db_inputs db))"

subsection \<open>Suspension\<close>

record gate =
  ga_suspended :: bool
  ga_generation :: int

definition suspension_state :: "db \<Rightarrow> gate \<times> (string, gate) fmap" where
  "suspension_state db =
     (\<lparr>ga_suspended = db_global_suspended db, ga_generation = db_global_generation db\<rparr>,
      fmap_of_list (rev (map (\<lambda>t. (tg_resource_uid t, case find_suspension (tg_target_id t) db of
           None \<Rightarrow> \<lparr>ga_suspended = False, ga_generation = 0\<rparr>
         | Some s \<Rightarrow> \<lparr>ga_suspended = ts_suspended s, ga_generation = ts_generation s\<rparr>)) (db_targets db))))"

definition audit_suspension :: "uuid option \<Rightarrow> bool \<Rightarrow> int \<Rightarrow> string \<Rightarrow> db \<Rightarrow> db" where
  "audit_suspension target suspended generation actor db = db\<lparr>db_suspension_audit := db_suspension_audit db @
     [\<lparr>sa_target_id = target, sa_suspended = suspended, sa_generation = generation, sa_actor = actor\<rparr>]\<rparr>"

text \<open>The Runs a suspension stops, and the incidents whose current Run is one of those or paused
  already.\<close>

definition PAUSABLE :: "RunExecution set" where "PAUSABLE = {R_queued, R_running, R_waiting_human}"

definition pause_incidents :: "(incident_row \<Rightarrow> bool) \<Rightarrow> db \<Rightarrow> db" where
  "pause_incidents covered db = db\<lparr>db_incidents := update_where
     (\<lambda>i. covered i \<and> ir_conclusion i = None \<and> ir_state i \<notin> {IS_completed, IS_cancelled}
        \<and> (\<exists>r \<in> set (db_runs db). ir_current_run_id i = Some (rr_run_id r) \<and> rr_state r \<in> insert R_paused PAUSABLE))
     (\<lambda>i. i\<lparr>ir_state := IS_paused\<rparr>) (db_incidents db)\<rparr>"

definition pause_runs :: "env \<Rightarrow> (run_row \<Rightarrow> bool) \<Rightarrow> db \<Rightarrow> db" where
  "pause_runs e covered db = update_runs e (\<lambda>r. rr_state r \<in> PAUSABLE \<and> covered r)
     (\<lambda>r. r\<lparr>rr_owner := None, rr_lease_until := None, rr_state := R_paused\<rparr>) db"

definition set_global_suspension_in :: "bool \<Rightarrow> int \<Rightarrow> string \<Rightarrow> env \<Rightarrow> db \<Rightarrow> int tx" where
  "set_global_suspension_in suspended expected actor e db =
     (let current = db_global_generation db; nxt = current + 1 in
      if expected < 0 \<or> expected \<noteq> current then Inl E_CONTROL_CONFLICT
      else if suspended = db_global_suspended db
        then Inr (current, audit_suspension None suspended current actor db)
      else let db1 = db\<lparr>db_global_suspended := suspended, db_global_generation := nxt\<rparr>;
               db2 = (if suspended then pause_runs e (\<lambda>r. True) (pause_incidents (\<lambda>i. True) db1) else db1)
           in Inr (nxt, audit_suspension None suspended nxt actor db2))"

definition set_global_suspension :: "bool \<Rightarrow> int \<Rightarrow> string \<Rightarrow> env \<Rightarrow> db \<Rightarrow> int outcome" where
  "set_global_suspension suspended expected actor e db =
     transaction db (set_global_suspension_in suspended expected actor e db)"

text \<open>The target named by id, which must exist, or by uid, registered on first use.\<close>

definition suspension_target :: "uuid option \<Rightarrow> string option \<Rightarrow> env \<Rightarrow> db \<Rightarrow> uuid tx" where
  "suspension_target target_id resource_uid e db = (case (target_id, resource_uid) of
      (Some t, None) \<Rightarrow> if find_row tg_target_id t (db_targets db) = None then Inl E_UNKNOWN_TARGET else Inr (t, db)
    | (None, Some uid) \<Rightarrow>
        if uid = [] then Inl E_INVALID_INPUT
        else (case find_row tg_resource_uid uid (db_targets db) of
            Some t \<Rightarrow> Inr (tg_target_id t, db)
          | None \<Rightarrow> bind_result (insert_target (env_uuid4 e 0) uid db) (\<lambda>db1. Inr (env_uuid4 e 0, db1)))
    | _ \<Rightarrow> Inl E_INVALID_INPUT)"

definition ensure_suspension :: "uuid \<Rightarrow> db \<Rightarrow> db" where
  "ensure_suspension t db = (if find_suspension t db = None
     then db\<lparr>db_target_suspensions := db_target_suspensions db @ [\<lparr>ts_target_id = t, ts_suspended = False, ts_generation = 0\<rparr>]\<rparr>
     else db)"

definition on_target :: "uuid \<Rightarrow> db \<Rightarrow> run_row \<Rightarrow> bool" where
  "on_target t db r \<longleftrightarrow> (\<exists>i \<in> set (db_incidents db). ir_target_id i = Some t \<and> ir_incident_id i = rr_incident_id r)"

definition set_target_gate :: "uuid \<Rightarrow> bool \<Rightarrow> int \<Rightarrow> string \<Rightarrow> env \<Rightarrow> db \<Rightarrow> int tx" where
  "set_target_gate t suspended expected actor e db = (case find_suspension t db of
      None \<Rightarrow> Inl E_INCONSISTENT_STATE
    | Some row \<Rightarrow>
       (let current = ts_generation row; nxt = current + 1 in
        if expected < 0 \<or> expected \<noteq> current then Inl E_CONTROL_CONFLICT
        else if suspended = ts_suspended row
          then Inr (current, audit_suspension (Some t) suspended current actor db)
        else let db1 = db\<lparr>db_target_suspensions := update_where (\<lambda>s. ts_target_id s = t)
                    (\<lambda>s. s\<lparr>ts_suspended := suspended, ts_generation := nxt\<rparr>) (db_target_suspensions db)\<rparr>;
                 db2 = (if suspended then (let db' = pause_incidents (\<lambda>i. ir_target_id i = Some t) db1
                          in pause_runs e (on_target t db') db') else db1)
             in Inr (nxt, audit_suspension (Some t) suspended nxt actor db2)))"

definition set_target_suspension_in :: "uuid option \<Rightarrow> string option \<Rightarrow> bool \<Rightarrow> int \<Rightarrow> string \<Rightarrow> env \<Rightarrow> db \<Rightarrow> int tx" where
  "set_target_suspension_in target_id resource_uid suspended expected actor e db =
     bind_result (suspension_target target_id resource_uid e db) (\<lambda>(t, db1).
       set_target_gate t suspended expected actor e (ensure_suspension t db1))"

definition set_target_suspension :: "uuid option \<Rightarrow> string option \<Rightarrow> bool \<Rightarrow> int \<Rightarrow> string \<Rightarrow> env \<Rightarrow> db \<Rightarrow> int outcome" where
  "set_target_suspension target_id resource_uid suspended expected actor e db =
     transaction db (set_target_suspension_in target_id resource_uid suspended expected actor e db)"

subsection \<open>Reading the control state\<close>

record control_view =
  cv_incident_generation :: int
  cv_incident_state :: IncidentState
  cv_scope :: scope_row

definition control_state :: "uuid \<Rightarrow> db \<Rightarrow> perr + control_view" where
  "control_state incident_id db = (case find_incident incident_id db of
      None \<Rightarrow> Inl E_UNKNOWN_IDENTITY
    | Some i \<Rightarrow> bind_result (lock_scope db (Some incident_id) []) (\<lambda>scope.
        Inr \<lparr>cv_incident_generation = ir_control_generation i, cv_incident_state = ir_state i, cv_scope = scope\<rparr>))"

definition control_times :: "uuid \<Rightarrow> db \<Rightarrow> (int \<times> time) list" where
  "control_times incident_id db = map (\<lambda>c. (ca_resulting_generation c, ca_created_at c))
     (sort_key ca_resulting_generation (filter (\<lambda>c. ca_incident_id c = incident_id) (db_controls db)))"

subsection \<open>The actions of \<open>control\<close>\<close>

datatype StoreAction = SA_cancel | SA_pause | SA_resume | SA_follow_up | SA_correct | SA_takeover
  | SA_close | SA_reopen | SA_rebind_target | SA_merge_into

definition store_actions :: "(string \<times> StoreAction) list" where
  "store_actions = [(''cancel'', SA_cancel), (''pause'', SA_pause), (''resume'', SA_resume), (''follow_up'', SA_follow_up),
     (''correct'', SA_correct), (''takeover'', SA_takeover), (''close'', SA_close), (''reopen'', SA_reopen),
     (''rebind_target'', SA_rebind_target), (''merge_into'', SA_merge_into)]"

definition is_note :: "StoreAction \<Rightarrow> bool" where
  "is_note a \<longleftrightarrow> a \<in> {SA_follow_up, SA_correct}"

definition CONTROL_OPEN_RUN_STATES :: "RunExecution set" where
  "CONTROL_OPEN_RUN_STATES = {R_queued, R_running, R_paused, R_waiting_human}"

definition UNFINISHED :: "RunExecution set" where
  "UNFINISHED = {R_queued, R_paused, R_running, R_waiting_human, R_blocked}"

record decision =
  dc_incident_id :: uuid
  dc_expected :: int
  dc_action :: string
  dc_actor :: string
  dc_payload :: "(string, json) fmap option"

record renewal =
  rn_run_id :: "uuid option"
  rn_deadline :: "time option"
  rn_input :: "json option"
  rn_basis :: "(string, json) fmap option"

text \<open>\<open>UPDATE opspilot_runs SET state=s, owner=NULL, lease_until=NULL, control_generation=nxt WHERE
  incident_id=k AND state IN from\<close>.\<close>

definition move_runs :: "env \<Rightarrow> uuid \<Rightarrow> RunExecution set \<Rightarrow> RunExecution \<Rightarrow> int \<Rightarrow> db \<Rightarrow> db" where
  "move_runs e incident_id from_states to_state nxt db =
     update_runs e (\<lambda>r. rr_incident_id r = incident_id \<and> rr_state r \<in> from_states)
       (\<lambda>r. r\<lparr>rr_state := to_state, rr_owner := None, rr_lease_until := None, rr_control_generation := nxt\<rparr>) db"

text \<open>The incident state after cancelling its unfinished Runs: cancelled when the current Run was one.\<close>

definition stopped_state :: "incident_row \<Rightarrow> db \<Rightarrow> IncidentState" where
  "stopped_state i db =
     (if (\<exists>r \<in> set (db_runs db). rr_incident_id r = ir_incident_id i \<and> rr_state r \<in> UNFINISHED
            \<and> ir_current_run_id i = Some (rr_run_id r))
      then IS_cancelled else ir_state i)"

definition bump :: "uuid \<Rightarrow> int \<Rightarrow> db \<Rightarrow> db" where
  "bump incident_id nxt = update_incident incident_id (\<lambda>x. x\<lparr>ir_control_generation := nxt\<rparr>)"

text \<open>The common end: the audit row and the stale marks.\<close>

definition settle_decision :: "env \<Rightarrow> nat \<Rightarrow> decision \<Rightarrow> (string, json) fmap option \<Rightarrow> string \<Rightarrow> db \<Rightarrow> perr + db" where
  "settle_decision e n d payload reason db =
     bind_result (record_control e (dc_incident_id d) (dc_action d) (dc_expected d) (dc_expected d + 1) (dc_actor d) payload db)
       (mark_stale_in e n (dc_incident_id d) reason (''control.'' @ dc_action d))"

definition close_reopen :: "env \<Rightarrow> decision \<Rightarrow> StoreAction \<Rightarrow> incident_row \<Rightarrow> db \<Rightarrow> int tx" where
  "close_reopen e d a i db =
     (let k = dc_incident_id d; nxt = dc_expected d + 1 in
      if ir_lifecycle i \<notin> (if a = SA_close then {L_open, L_observing_recovery, L_resolved} else {L_resolved, L_closed})
      then Inl E_ILLEGAL_TRANSITION
      else bind_result
        (if a = SA_close
         then bind_result (revoke_authorized_sessions e 2 k (bump k nxt db)) (\<lambda>(ks, db1).
                Inr (length ks, update_incident k (\<lambda>x. x\<lparr>ir_lifecycle := L_closed, ir_state := stopped_state i db1\<rparr>)
                   (move_runs e k UNFINISHED R_cancelled nxt db1)))
         else Inr (0, update_incident k (\<lambda>x. x\<lparr>ir_lifecycle := L_open, ir_state := ir_state i\<rparr>) (bump k nxt db)))
        (\<lambda>(m, db2). bind_result (settle_decision e (2 + m) d (dc_payload d) ''control_generation_changed'' db2)
           (\<lambda>db3. Inr (nxt, db3))))"

definition register_uid_in :: "env \<Rightarrow> nat \<Rightarrow> string \<Rightarrow> db \<Rightarrow> uuid tx" where
  "register_uid_in e n resource_uid db = (case find_row tg_resource_uid resource_uid (db_targets db) of
      Some t \<Rightarrow> Inr (tg_target_id t, db)
    | None \<Rightarrow> bind_result (insert_target (env_uuid4 e n) resource_uid db) (\<lambda>db1.
        bind_result (insert_suspension (env_uuid4 e n) db1) (\<lambda>db2. Inr (env_uuid4 e n, db2))))"

definition rebind :: "env \<Rightarrow> decision \<Rightarrow> string \<Rightarrow> uuid option \<Rightarrow> (string, json) fmap \<Rightarrow> incident_row \<Rightarrow> db \<Rightarrow> int tx" where
  "rebind e d to_uid rebind_to payload i db =
     (let k = dc_incident_id d; nxt = dc_expected d + 1 in
      if ir_lifecycle i \<in> {L_resolved, L_closed} then Inl E_REOPEN_REQUIRED
      else if ir_lifecycle i \<notin> {L_open, L_observing_recovery} then Inl E_ILLEGAL_TRANSITION
      else case ir_target_id i of
        None \<Rightarrow> Inl E_ILLEGAL_TRANSITION
      | Some old \<Rightarrow>
          if rebind_to = Some old then Inl E_TARGET_UNCHANGED
          else bind_result (case rebind_to of Some t \<Rightarrow> Inr (t, db) | None \<Rightarrow> register_uid_in e 1 to_uid db) (\<lambda>(t, db0).
            case find_row tg_target_id old (db_targets db0) of
              None \<Rightarrow> Inl E_INCONSISTENT_STATE
            | Some old_row \<Rightarrow>
                bind_result (revoke_authorized_sessions e 2 k (bump k nxt db0)) (\<lambda>(ks, db1).
                bind_result (settle_decision e (2 + length ks) d
                    (Some (fmupd ''from_target'' (JStr (tg_resource_uid old_row)) payload)) ''control_generation_changed''
                    (update_incident k (\<lambda>x. x\<lparr>ir_lifecycle := L_open, ir_state := stopped_state i db1, ir_target_id := Some t\<rparr>)
                       (move_runs e k UNFINISHED R_cancelled nxt db1)))
                  (\<lambda>db2. Inr (nxt, db2)))))"

definition takeover :: "env \<Rightarrow> decision \<Rightarrow> incident_row \<Rightarrow> db \<Rightarrow> int tx" where
  "takeover e d i db =
     (let k = dc_incident_id d; nxt = dc_expected d + 1 in
      bind_result (revoke_authorized_sessions e 2 k
          (update_incident k (\<lambda>x. x\<lparr>ir_control_generation := nxt, ir_mode := M_human_owned\<rparr>) db)) (\<lambda>(ks, db1).
      bind_result (settle_decision e (2 + length ks) d (dc_payload d) ''control_generation_changed''
          (if ir_mode i = M_human_owned then db1
           else move_runs e k {R_queued, R_running, R_paused, R_blocked} R_waiting_human nxt db1))
        (\<lambda>db2. Inr (nxt, db2))))"

subsection \<open>Merging\<close>

definition MERGE_EVENT_ITEMS :: nat where "MERGE_EVENT_ITEMS = 16"

definition first_occurrences :: "'a list \<Rightarrow> 'a list" where
  "first_occurrences xs = rev (remdups (rev xs))"

definition alert_item :: "string \<times> string \<Rightarrow> json" where
  "alert_item p = JObj (fmap_of_list [(''fingerprint'', JStr (fst p)), (''starts_at'', JStr (snd p))])"

text \<open>The fingerprints with their start: the opening identity first, then the attached episodes in the
  order of their first delivery, at most 16 of them.\<close>

definition merge_alerts :: "uuid \<Rightarrow> db \<Rightarrow> (string \<times> string) list" where
  "merge_alerts incident_id db =
     (let opening = map (\<lambda>a. (ai_fingerprint a, ai_starts_at_raw a))
            (filter (\<lambda>a. ai_incident_id a = incident_id \<and> ai_handoff_reason a = None) (db_alert_identities db));
          attached = take MERGE_EVENT_ITEMS (first_occurrences (map (\<lambda>a. (ad_fingerprint a, ad_starts_at_raw a))
            (sort_key ad_delivery_id (filter (\<lambda>a. ad_incident_id a = Some incident_id \<and> ad_outcome a = ''attached'')
               (db_alert_deliveries db)))))
      in take MERGE_EVENT_ITEMS (opening @ filter (\<lambda>p. p \<notin> set opening) attached))"

definition merge_releases :: "uuid \<Rightarrow> db \<Rightarrow> string list" where
  "merge_releases incident_id db = map (\<lambda>l. uuid_str (rl_observation_id l)) (take MERGE_EVENT_ITEMS
     (sort_key (\<lambda>l. (rl_consumed_at l, rl_observation_id l)) (filter (\<lambda>l. rl_incident_id l = incident_id) (db_release_links db))))"

fun join_strings :: "string \<Rightarrow> string list \<Rightarrow> string" where
  "join_strings sep [] = []"
| "join_strings sep [s] = s"
| "join_strings sep (s # t # ts) = s @ sep @ join_strings sep (t # ts)"

definition or_none :: "string \<Rightarrow> string" where
  "or_none s = (if s = [] then ''none'' else s)"

fun lifecycle_str :: "IncidentLifecycle \<Rightarrow> string" where
  "lifecycle_str L_open = ''open''"
| "lifecycle_str L_observing_recovery = ''observing_recovery''"
| "lifecycle_str L_resolved = ''resolved''"
| "lifecycle_str L_closed = ''closed''"

definition merge_text :: "uuid \<Rightarrow> incident_row \<Rightarrow> db \<Rightarrow> string" where
  "merge_text incident_id i db =
     ''Incident '' @ uuid_str incident_id @ '' was merged into this incident by a human decision (same target). Its alerts: '' @
     or_none (join_strings '', '' (map (\<lambda>p. fst p @ '' (startsAt '' @ snd p @ '')'') (merge_alerts incident_id db))) @
     ''. Its release observations: '' @ or_none (join_strings '', '' (merge_releases incident_id db)) @
     ''. Its lifecycle at the merge: '' @ lifecycle_str (ir_lifecycle i) @ ''; '' @
     (if ir_conclusion i \<noteq> None then ''it had a published conclusion'' else ''it had no conclusion'') @
     ''. Its records stay on that incident.''"

definition merge_event :: "uuid \<Rightarrow> incident_row \<Rightarrow> db \<Rightarrow> (string, json) fmap" where
  "merge_event incident_id i db = fmap_of_list
     [(''channel'', JStr ''merge''), (''text'', JStr (merge_text incident_id i db)),
      (''source_incident_id'', JStr (uuid_str incident_id)),
      (''source_alerts'', JArr (map alert_item (merge_alerts incident_id db))),
      (''source_release_observations'', JArr (map JStr (merge_releases incident_id db))),
      (''source_lifecycle'', JStr (lifecycle_str (ir_lifecycle i))), (''source_concluded'', JBool (ir_conclusion i \<noteq> None))]"

definition merge_input_id :: "env \<Rightarrow> uuid \<Rightarrow> uuid \<Rightarrow> uuid" where
  "merge_input_id e source survivor = env_uuid5 e (''merge:'' @ uuid_str source @ '':'' @ uuid_str survivor)"

text \<open>What refuses a merge, in the order of the source.\<close>

definition merge_guard :: "uuid \<Rightarrow> uuid \<Rightarrow> incident_row \<Rightarrow> db \<Rightarrow> perr option" where
  "merge_guard incident_id survivor_id i db = (case find_incident survivor_id db of
      None \<Rightarrow> Some E_UNKNOWN_IDENTITY
    | Some s \<Rightarrow>
        if survivor_id = incident_id then Some E_ILLEGAL_TRANSITION
        else if ir_current_run_id i = None \<or> ir_current_run_id s = None then Some E_HANDOFF_ONLY
        else if ir_lifecycle s = L_closed \<or> ir_merged_into_incident_id s \<noteq> None then Some E_ILLEGAL_TRANSITION
        else if ir_target_id s \<noteq> ir_target_id i then Some E_TARGET_MISMATCH
        else None)"

definition merge_into :: "env \<Rightarrow> decision \<Rightarrow> uuid \<Rightarrow> (string, json) fmap \<Rightarrow> incident_row \<Rightarrow> db \<Rightarrow> int tx" where
  "merge_into e d survivor_id payload i db =
     (let k = dc_incident_id d; nxt = dc_expected d + 1 in
      case merge_guard k survivor_id i db of
        Some err \<Rightarrow> Inl err
      | None \<Rightarrow>
          bind_result (revoke_authorized_sessions e 2 k (bump k nxt db)) (\<lambda>(ks, db1).
          bind_result (settle_decision e (2 + length ks) d
              (Some (fmupd ''into_incident_id'' (JStr (uuid_str survivor_id)) payload)) ''control_generation_changed''
              (update_incident k (\<lambda>x. x\<lparr>ir_lifecycle := L_closed, ir_state := stopped_state i db1,
                   ir_merged_into_incident_id := Some survivor_id\<rparr>)
                 (move_runs e k UNFINISHED R_cancelled nxt db1))) (\<lambda>db2.
          bind_result (append_input_in e (2 + length ks + 2 * length (db_postmortem_versions db)) survivor_id
              (merge_input_id e k survivor_id) (merge_event k i db) (dc_actor d) db2)
            (\<lambda>(sequence, db3). Inr (nxt, db3)))))"

subsection \<open>Pause, resume, cancel and notes\<close>

text \<open>The facts the guards of this group read.\<close>

record standing =
  sd_human_owned :: bool
  sd_overdue :: bool
  sd_concluded :: bool
  sd_renew :: bool
  sd_keep_paused :: bool

definition standing_of :: "env \<Rightarrow> StoreAction \<Rightarrow> scope_row \<Rightarrow> incident_row \<Rightarrow> run_row \<Rightarrow> standing" where
  "standing_of e a scope i r =
     (let human_owned = (ir_mode i = M_human_owned);
          late = (rr_state r \<in> CONTROL_OPEN_RUN_STATES \<and> rr_deadline r \<le> env_now e);
          concluded = (ir_state i \<in> {IS_cancelled, IS_completed} \<or> ir_conclusion i \<noteq> None)
      in \<lparr>sd_human_owned = human_owned, sd_overdue = late, sd_concluded = concluded,
          sd_renew = (is_note a \<and> (late \<or> concluded) \<and> \<not> human_owned),
          sd_keep_paused = (a \<noteq> SA_cancel \<and> (suspended_scope scope \<or> (ir_state i = IS_paused \<and> is_note a)))\<rparr>)"

definition human_note :: "StoreAction \<Rightarrow> standing \<Rightarrow> bool" where
  "human_note a s \<longleftrightarrow> sd_human_owned s \<and> is_note a"

definition subject_guard :: "StoreAction \<Rightarrow> bool \<Rightarrow> standing \<Rightarrow> incident_row \<Rightarrow> run_row \<Rightarrow> perr option" where
  "subject_guard a no_payload s i r =
     (if is_note a \<and> sd_concluded s \<and> \<not> sd_human_owned s \<and> ir_lifecycle i \<in> {L_resolved, L_closed} then Some E_REOPEN_REQUIRED
      else if a = SA_resume \<and> sd_overdue s \<and> \<not> sd_human_owned s then Some E_ILLEGAL_TRANSITION
      else if sd_concluded s \<and> \<not> (human_note a s \<or> sd_renew s) then Some E_ILLEGAL_TRANSITION
      else if ir_state i = IS_paused \<and> a \<in> {SA_pause, SA_follow_up, SA_correct} \<and> (a = SA_pause \<or> no_payload)
        then Some E_ILLEGAL_TRANSITION
      else if a \<noteq> SA_cancel \<and> \<not> (human_note a s \<or> sd_renew s) \<and> rr_state r \<notin> CONTROL_OPEN_RUN_STATES
        then Some E_ILLEGAL_TRANSITION
      else None)"

text \<open>The basis names the Run by the text of its UUID.\<close>

definition basis_matches :: "(string, json) fmap \<Rightarrow> incident_row \<Rightarrow> bool" where
  "basis_matches basis i \<longleftrightarrow>
     fmlookup basis ''run_id'' = map_option (JStr \<circ> uuid_str) (ir_current_run_id i)
     \<and> fmlookup basis ''concluded'' = Some (JBool (ir_conclusion i \<noteq> None))"

definition renew_guard :: "renewal \<Rightarrow> incident_row \<Rightarrow> db \<Rightarrow> perr option" where
  "renew_guard rn i db =
     (if (case rn_basis rn of None \<Rightarrow> False | Some b \<Rightarrow> \<not> basis_matches b i) then Some E_RENEW_INPUT_STALE
      else case (rn_run_id rn, rn_deadline rn) of
        (Some k, Some t) \<Rightarrow> if find_run k db \<noteq> None then Some E_IDENTITY_CONFLICT else None
      | _ \<Rightarrow> Some E_ILLEGAL_TRANSITION)"

definition next_incident_state :: "StoreAction \<Rightarrow> standing \<Rightarrow> incident_row \<Rightarrow> IncidentState" where
  "next_incident_state a s i =
     (if human_note a s then ir_state i
      else if sd_keep_paused s then IS_paused
      else if a = SA_cancel then IS_cancelled
      else if a = SA_pause then IS_paused
      else IS_running)"

definition renew_run :: "env \<Rightarrow> uuid \<Rightarrow> int \<Rightarrow> bool \<Rightarrow> renewal \<Rightarrow> run_row \<Rightarrow> db \<Rightarrow> perr + db" where
  "renew_run e incident_id nxt keep_paused rn r db = (case (rn_run_id rn, rn_deadline rn) of
      (Some k, Some deadline) \<Rightarrow>
        bind_result (insert_run (fresh_run k incident_id (if keep_paused then R_paused else R_queued) nxt
            (rr_budget_limit r) deadline (rr_versions r) (rn_input rn)) (move_runs e incident_id UNFINISHED R_cancelled nxt db))
          (\<lambda>db1. Inr (update_incident incident_id (\<lambda>x. x\<lparr>ir_current_run_id := Some k, ir_lifecycle := L_open, ir_conclusion := None\<rparr>) db1))
    | _ \<Rightarrow> Inl E_ILLEGAL_TRANSITION)"

definition subject_runs :: "env \<Rightarrow> uuid \<Rightarrow> StoreAction \<Rightarrow> int \<Rightarrow> standing \<Rightarrow> renewal \<Rightarrow> run_row \<Rightarrow> db \<Rightarrow> perr + db" where
  "subject_runs e incident_id a nxt s rn r db =
     (if a = SA_cancel then Inr (move_runs e incident_id UNFINISHED R_cancelled nxt db)
      else if sd_human_owned s then Inr db
      else if sd_renew s then renew_run e incident_id nxt (sd_keep_paused s) rn r db
      else if a = SA_pause \<or> sd_keep_paused s then Inr (move_runs e incident_id {R_running, R_waiting_human} R_paused nxt db)
      else if a = SA_resume
        then Inr (move_runs e incident_id {R_queued, R_paused, R_running, R_waiting_human} R_queued nxt db)
      else Inr (move_runs e incident_id {R_queued, R_running, R_waiting_human} R_queued nxt db))"

definition note_input :: "env \<Rightarrow> decision \<Rightarrow> StoreAction \<Rightarrow> db \<Rightarrow> perr + db" where
  "note_input e d a db =
     (if is_note a then insert_input
        \<lparr>in_input_id = env_uuid4 e 1, in_incident_id = dc_incident_id d,
         in_sequence = next_input_sequence (dc_incident_id d) db, in_kind = dc_action d,
         in_content = JObj (case dc_payload d of None \<Rightarrow> fmempty | Some m \<Rightarrow> m), in_actor = dc_actor d,
         in_control_generation = dc_expected d + 1\<rparr> db
      else Inr db)"

definition subject_reason :: "StoreAction \<Rightarrow> standing \<Rightarrow> string" where
  "subject_reason a s = (if sd_renew s then ''run_added'' else if is_note a then ''input_added''
     else ''control_generation_changed'')"

definition apply_subject :: "env \<Rightarrow> decision \<Rightarrow> renewal \<Rightarrow> StoreAction \<Rightarrow> standing \<Rightarrow> incident_row \<Rightarrow> run_row \<Rightarrow> db \<Rightarrow> int tx" where
  "apply_subject e d rn a s i r db =
     (let k = dc_incident_id d; nxt = dc_expected d + 1;
          db0 = update_incident k (\<lambda>x. x\<lparr>ir_control_generation := nxt, ir_state := next_incident_state a s i\<rparr>) db in
      bind_result (if a \<in> {SA_pause, SA_cancel} \<or> sd_renew s then revoke_authorized_sessions e 2 k db0 else Inr ([], db0)) (\<lambda>(ks, db1).
      bind_result (subject_runs e k a nxt s rn r db1) (\<lambda>db2.
      bind_result (record_control e k (dc_action d) (dc_expected d) nxt (dc_actor d) (dc_payload d) db2) (\<lambda>db3.
      bind_result (note_input e d a db3) (\<lambda>db4.
      bind_result (mark_stale_in e (2 + length ks) k (subject_reason a s) (''control.'' @ dc_action d) db4)
        (\<lambda>db5. Inr (nxt, db5)))))))"

definition subject_control :: "env \<Rightarrow> decision \<Rightarrow> renewal \<Rightarrow> StoreAction \<Rightarrow> scope_row \<Rightarrow> incident_row \<Rightarrow> db \<Rightarrow> int tx" where
  "subject_control e d rn a scope i db = (case Option.bind (ir_current_run_id i) (\<lambda>k. find_run k db) of
      None \<Rightarrow> Inl E_INCONSISTENT_STATE
    | Some r \<Rightarrow>
        if rr_incident_id r \<noteq> dc_incident_id d then Inl E_INCONSISTENT_STATE
        else (let s = standing_of e a scope i r in
          case subject_guard a (dc_payload d = None) s i r of
            Some err \<Rightarrow> Inl err
          | None \<Rightarrow> (case (if sd_renew s then renew_guard rn i db else None) of
              Some err \<Rightarrow> Inl err
            | None \<Rightarrow> if human_note a s \<and> dc_payload d = None then Inl E_ILLEGAL_TRANSITION
                else apply_subject e d rn a s i r db)))"

subsection \<open>\<open>control\<close>\<close>

text \<open>A rebind names its new target by uid; the target's id when it is registered.\<close>

definition rebind_request :: "StoreAction option \<Rightarrow> decision \<Rightarrow> db \<Rightarrow> perr + (string \<times> uuid option)" where
  "rebind_request a d db =
     (if a \<noteq> Some SA_rebind_target then Inr ([], None)
      else case dc_payload d of
        None \<Rightarrow> Inl E_INVALID_INPUT
      | Some m \<Rightarrow> (case fmlookup m ''to_target'' of
          Some (JStr uid) \<Rightarrow>
            if uid = [] \<or> fmlookup m ''from_target'' \<noteq> None then Inl E_INVALID_INPUT
            else Inr (uid, map_option tg_target_id (find_row tg_resource_uid uid (db_targets db)))
        | _ \<Rightarrow> Inl E_INVALID_INPUT))"

text \<open>A merge names its survivor; only a string or an integer can print as a UUID.\<close>

definition merge_request :: "StoreAction option \<Rightarrow> decision \<Rightarrow> perr + uuid option" where
  "merge_request a d =
     (if a \<noteq> Some SA_merge_into then Inr None
      else case Option.bind (dc_payload d) (\<lambda>m. fmlookup m ''into_incident_id'') of
        Some (JStr s) \<Rightarrow> (case parse_uuid s of None \<Rightarrow> Inl E_INVALID_INPUT | Some u \<Rightarrow> Inr (Some u))
      | Some (JInt n) \<Rightarrow> (case parse_uuid (string_of_int n) of None \<Rightarrow> Inl E_INVALID_INPUT | Some u \<Rightarrow> Inr (Some u))
      | _ \<Rightarrow> Inl E_INVALID_INPUT)"

definition extra_targets :: "uuid option \<Rightarrow> uuid option \<Rightarrow> db \<Rightarrow> uuid list" where
  "extra_targets rebind_to survivor db =
     (case rebind_to of None \<Rightarrow> [] | Some t \<Rightarrow> [t]) @
     (case incident_target db survivor of None \<Rightarrow> [] | Some t \<Rightarrow> [t])"

definition decide :: "env \<Rightarrow> decision \<Rightarrow> renewal \<Rightarrow> StoreAction \<Rightarrow> string \<times> uuid option \<Rightarrow> uuid option \<Rightarrow> scope_row
     \<Rightarrow> incident_row \<Rightarrow> db \<Rightarrow> int tx" where
  "decide e d rn a rebound survivor scope i db =
     (let payload = (case dc_payload d of None \<Rightarrow> fmempty | Some m \<Rightarrow> m) in
      if ir_merged_into_incident_id i \<noteq> None \<and> a \<in> {SA_reopen, SA_rebind_target, SA_merge_into} then Inl E_ILLEGAL_TRANSITION
      else if ir_mode i = M_human_owned \<and> is_note a \<and> dc_payload d = None then Inl E_ILLEGAL_TRANSITION
      else case a of
        SA_close \<Rightarrow> close_reopen e d a i db
      | SA_reopen \<Rightarrow> close_reopen e d a i db
      | SA_rebind_target \<Rightarrow> rebind e d (fst rebound) (snd rebound) payload i db
      | SA_merge_into \<Rightarrow> (case survivor of None \<Rightarrow> Inl E_UNCAUGHT | Some k \<Rightarrow> merge_into e d k payload i db)
      | SA_takeover \<Rightarrow> takeover e d i db
      | _ \<Rightarrow> subject_control e d rn a scope i db)"

definition control_in :: "decision \<Rightarrow> renewal \<Rightarrow> env \<Rightarrow> db \<Rightarrow> int tx" where
  "control_in d rn e db =
     (let action = map_of store_actions (dc_action d) in
      bind_result (rebind_request action d db) (\<lambda>rebound.
      bind_result (merge_request action d) (\<lambda>survivor.
      bind_result (lock_scope db (Some (dc_incident_id d)) (extra_targets (snd rebound) survivor db)) (\<lambda>scope.
        case find_incident (dc_incident_id d) db of
          None \<Rightarrow> Inl E_UNKNOWN_IDENTITY
        | Some i \<Rightarrow>
            if ir_control_generation i \<noteq> dc_expected d then Inl E_CONTROL_CONFLICT
            else case action of
              None \<Rightarrow> Inl E_INVALID_INPUT
            | Some a \<Rightarrow> decide e d rn a rebound survivor scope i db))))"

definition control :: "decision \<Rightarrow> renewal \<Rightarrow> env \<Rightarrow> db \<Rightarrow> int outcome" where
  "control d rn e db = transaction db (control_in d rn e db)"

end
