(* ===== verification/Store_Budgets.thy ===== *)
theory Store_Budgets
  imports Store_Fence
begin

section \<open>Budgets: reservations, settlement, tool charges (\<open>persistence/budgets.py\<close>)\<close>

text \<open>
  \<open>reserve_budget\<close> takes request slots of a Run against its limit, \<open>settle_budget\<close> moves a reservation to
  \<open>spent\<close> or \<open>unknown\<close>, \<open>charge_tool\<close> counts tool dispatches, \<open>run_usage\<close> reads the totals a new attempt
  continues from. The numbers are exact rationals where the columns are \<open>double precision\<close>. The
  wrong-type checks of the arguments are the types of the model; NaN and the infinities are values.
\<close>

definition seconds_ok :: "pyfloat \<Rightarrow> bool" where
  "seconds_ok s = (case s of Finite x \<Rightarrow> 0 \<le> x | _ \<Rightarrow> False)"

definition finite_value :: "pyfloat \<Rightarrow> rat" where
  "finite_value s = (case s of Finite x \<Rightarrow> x | _ \<Rightarrow> 0)"

abbreviation find_reservation :: "uuid \<Rightarrow> db \<Rightarrow> reservation_row option" where
  "find_reservation k db \<equiv> find_row rs_reservation_id k (db_reservations db)"

definition budget_used :: "run_row \<Rightarrow> int" where
  "budget_used r = rr_budget_reserved r + rr_budget_spent r + rr_budget_unknown r"

definition reserve_budget_in :: "uuid \<Rightarrow> int \<Rightarrow> pyfloat \<Rightarrow> env \<Rightarrow> Lease \<Rightarrow> db \<Rightarrow> unit tx" where
  "reserve_budget_in reservation_id amount secs e lease db =
     (if amount \<le> 0 \<or> \<not> seconds_ok secs then Inl E_INVALID_INPUT
      else case fenced_join e lease db of
        Inl err \<Rightarrow> Inl err
      | Inr (r, i) \<Rightarrow> (case find_reservation reservation_id db of
          Some x \<Rightarrow> if rs_amount x \<noteq> amount \<or> rs_run_id x \<noteq> le_run_id lease then Inl E_IDENTITY_CONFLICT
                    else Inr ((), db)
        | None \<Rightarrow> if budget_used r + amount > rr_budget_limit r then Inl E_BUDGET_EXHAUSTED
            else Inr ((), update_runs e (\<lambda>r. rr_run_id r = le_run_id lease)
                (\<lambda>r. r\<lparr>rr_budget_reserved := rr_budget_reserved r + amount\<rparr>)
                (db\<lparr>db_reservations := db_reservations db @
                   [\<lparr>rs_reservation_id = reservation_id, rs_run_id = le_run_id lease, rs_amount = amount,
                     rs_state = RS_reserved, rs_reserved_seconds = finite_value secs, rs_seconds = None\<rparr>]\<rparr>))))"

definition reserve_budget :: "uuid \<Rightarrow> int \<Rightarrow> pyfloat \<Rightarrow> env \<Rightarrow> Lease \<Rightarrow> db \<Rightarrow> unit outcome" where
  "reserve_budget reservation_id amount secs e lease db =
     transaction db (reserve_budget_in reservation_id amount secs e lease db)"

text \<open>\<open>_SETTLEMENTS\<close>: the column an outcome adds to.\<close>

definition settlements :: "(string \<times> ReservationState) list" where
  "settlements = [(''spent'', RS_spent), (''unknown'', RS_unknown)]"

fun settle_column :: "ReservationState \<Rightarrow> int \<Rightarrow> run_row \<Rightarrow> run_row" where
  "settle_column RS_spent a r = r\<lparr>rr_budget_reserved := rr_budget_reserved r - a, rr_budget_spent := rr_budget_spent r + a\<rparr>"
| "settle_column RS_unknown a r = r\<lparr>rr_budget_reserved := rr_budget_reserved r - a, rr_budget_unknown := rr_budget_unknown r + a\<rparr>"
| "settle_column RS_reserved a r = r"

text \<open>The fence of a settlement compares owner, epoch, generation, lease and deadline, not the
  suspension gates; the two clock readings are the two \<open>_db_now\<close> calls.\<close>

definition holds_lease :: "run_row \<Rightarrow> incident_row \<Rightarrow> Lease \<Rightarrow> time \<Rightarrow> time \<Rightarrow> bool" where
  "holds_lease r i lease now later \<longleftrightarrow>
     rr_owner r = Some (le_owner lease) \<and> rr_epoch r = le_epoch lease
     \<and> ir_control_generation i = le_control_generation lease
     \<and> (case rr_lease_until r of None \<Rightarrow> False | Some u \<Rightarrow> now < u)
     \<and> later < rr_deadline r"

definition settle_budget_in :: "uuid \<Rightarrow> string \<Rightarrow> pyfloat option \<Rightarrow> env \<Rightarrow> Lease \<Rightarrow> db \<Rightarrow> unit tx" where
  "settle_budget_in reservation_id outcome secs e lease db =
     (case map_of settlements outcome of
        None \<Rightarrow> Inl E_INVALID_INPUT
      | Some target \<Rightarrow>
        if (case secs of None \<Rightarrow> False | Some s \<Rightarrow> \<not> seconds_ok s) then Inl E_INVALID_INPUT
        else case run_join db (le_run_id lease) of
          None \<Rightarrow> Inl E_CONTROL_DENIED
        | Some (r, i) \<Rightarrow>
          if \<not> holds_lease r i lease (env_now e) (env_later e) then Inl E_CONTROL_DENIED
          else case find_reservation reservation_id db of
            None \<Rightarrow> Inl E_UNKNOWN_IDENTITY
          | Some x \<Rightarrow>
            if rs_run_id x \<noteq> le_run_id lease then Inl E_UNKNOWN_IDENTITY
            else if rs_state x \<noteq> RS_reserved
              then (if rs_state x = target then Inr ((), db) else Inl E_IDENTITY_CONFLICT)
            else Inr ((), update_runs e (\<lambda>r. rr_run_id r = le_run_id lease) (settle_column target (rs_amount x))
                (db\<lparr>db_reservations := update_where (\<lambda>y. rs_reservation_id y = reservation_id)
                   (\<lambda>y. y\<lparr>rs_state := target,
                        rs_seconds := Some (case secs of None \<Rightarrow> rs_reserved_seconds y | Some s \<Rightarrow> finite_value s)\<rparr>)
                   (db_reservations db)\<rparr>)))"

definition settle_budget :: "uuid \<Rightarrow> string \<Rightarrow> pyfloat option \<Rightarrow> env \<Rightarrow> Lease \<Rightarrow> db \<Rightarrow> unit outcome" where
  "settle_budget reservation_id outcome secs e lease db =
     transaction db (settle_budget_in reservation_id outcome secs e lease db)"

text \<open>The charge of this dispatch under this attempt, when it was reserved before.\<close>

definition find_charge :: "uuid \<Rightarrow> string \<Rightarrow> Lease \<Rightarrow> db \<Rightarrow> charge_row option" where
  "find_charge dispatch_id operation_id lease db =
     List.find (\<lambda>c. tc_dispatch_id c = dispatch_id \<and> tc_run_id c = le_run_id lease
        \<and> tc_epoch c = le_epoch lease \<and> tc_operation_id c = operation_id) (db_charges db)"

definition settled_seconds :: "charge_row \<Rightarrow> rat \<Rightarrow> rat" where
  "settled_seconds c s = (case tc_seconds c of None \<Rightarrow> s | Some old \<Rightarrow> max old s)"

definition charge_delta :: "charge_row \<Rightarrow> rat \<Rightarrow> rat" where
  "charge_delta c s = (case tc_seconds c of None \<Rightarrow> s - tc_reserved c | Some old \<Rightarrow> max old s - old)"

definition charge_tool_in ::
  "string \<Rightarrow> pyfloat \<Rightarrow> int \<Rightarrow> pyfloat \<Rightarrow> uuid \<Rightarrow> env \<Rightarrow> Lease \<Rightarrow> db \<Rightarrow> unit tx" where
  "charge_tool_in operation_id secs max_operations max_tool_seconds dispatch_id e lease db =
     (if operation_id = [] \<or> \<not> seconds_ok secs \<or> max_operations \<le> 0
         \<or> \<not> (case max_tool_seconds of Finite x \<Rightarrow> 0 < x | _ \<Rightarrow> False) then Inl E_INVALID_INPUT
      else case lock_scope db (Some (le_incident_id lease)) [] of
        Inl err \<Rightarrow> Inl err
      | Inr _ \<Rightarrow> (case run_join db (le_run_id lease) of
          None \<Rightarrow> Inl E_CONTROL_DENIED
        | Some (r, i) \<Rightarrow>
          if ir_incident_id i \<noteq> le_incident_id lease then Inl E_CONTROL_DENIED
          else case find_charge dispatch_id operation_id lease db of
            None \<Rightarrow>
              if lease_revoked r i (joined_scope db i) lease (env_now e) then Inl E_CONTROL_DENIED
              else bind_result (insert_row tc_dispatch_id
                  \<lparr>tc_dispatch_id = dispatch_id, tc_run_id = le_run_id lease, tc_epoch = le_epoch lease,
                   tc_operation_id = operation_id, tc_reserved = finite_value secs, tc_seconds = None\<rparr>
                  (db_charges db))
                (\<lambda>charges. Inr ((), update_runs e (\<lambda>r. rr_run_id r = le_run_id lease)
                  (\<lambda>r. r\<lparr>rr_tool_operations_used := rr_tool_operations_used r + 1,
                        rr_tool_seconds_used := rr_tool_seconds_used r + finite_value secs\<rparr>)
                  (db\<lparr>db_charges := charges\<rparr>)))
          | Some c \<Rightarrow>
              let db1 = db\<lparr>db_charges := update_where (\<lambda>x. tc_dispatch_id x = dispatch_id)
                    (\<lambda>x. x\<lparr>tc_seconds := Some (settled_seconds c (finite_value secs))\<rparr>) (db_charges db)\<rparr>;
                  delta = charge_delta c (finite_value secs)
              in Inr ((), if delta = 0 then db1
                 else update_runs e (\<lambda>r. rr_run_id r = le_run_id lease)
                    (\<lambda>r. r\<lparr>rr_tool_seconds_used := rr_tool_seconds_used r + delta\<rparr>) db1)))"

definition charge_tool ::
  "string \<Rightarrow> pyfloat \<Rightarrow> int \<Rightarrow> pyfloat \<Rightarrow> uuid \<Rightarrow> env \<Rightarrow> Lease \<Rightarrow> db \<Rightarrow> unit outcome" where
  "charge_tool operation_id secs max_operations max_tool_seconds dispatch_id e lease db =
     transaction db (charge_tool_in operation_id secs max_operations max_tool_seconds dispatch_id e lease db)"

record usage =
  us_budget_limit :: int
  us_model_requests_used :: int
  us_model_seconds_used :: rat
  us_tool_operations_used :: int
  us_tool_seconds_used :: rat

definition run_usage :: "uuid \<Rightarrow> db \<Rightarrow> perr + usage" where
  "run_usage run_id db = (case find_run run_id db of
      None \<Rightarrow> Inl E_UNKNOWN_IDENTITY
    | Some r \<Rightarrow> Inr \<lparr>us_budget_limit = rr_budget_limit r, us_model_requests_used = budget_used r,
        us_model_seconds_used = sum_list (map (\<lambda>x. case rs_seconds x of None \<Rightarrow> rs_reserved_seconds x | Some s \<Rightarrow> s)
          (filter (\<lambda>x. rs_run_id x = run_id) (db_reservations db))),
        us_tool_operations_used = rr_tool_operations_used r, us_tool_seconds_used = rr_tool_seconds_used r\<rparr>)"

subsection \<open>The fence contract\<close>

interpretation reserve: lease_checked "reserve_budget_in reservation_id amount secs"
  by unfold_locales (auto simp: reserve_budget_in_def dest: fenced_join_Inr split: if_splits sum.splits prod.splits)

subsection \<open>The ledger invariant\<close>

text \<open>The columns of a Run are the sums of its reservations by state, and what is committed never
  exceeds the limit once anything is committed.\<close>

definition amounts :: "reservation_row list \<Rightarrow> uuid \<Rightarrow> ReservationState \<Rightarrow> int" where
  "amounts t run_id s = sum_list (map rs_amount (filter (\<lambda>x. rs_run_id x = run_id \<and> rs_state x = s) t))"

definition run_ledger_ok :: "reservation_row list \<Rightarrow> run_row \<Rightarrow> bool" where
  "run_ledger_ok t r \<longleftrightarrow>
     rr_budget_reserved r = amounts t (rr_run_id r) RS_reserved
     \<and> rr_budget_spent r = amounts t (rr_run_id r) RS_spent
     \<and> rr_budget_unknown r = amounts t (rr_run_id r) RS_unknown
     \<and> (budget_used r = 0 \<or> budget_used r \<le> rr_budget_limit r)"

definition ledger_ok :: "db \<Rightarrow> bool" where
  "ledger_ok db \<longleftrightarrow> distinct (map rr_run_id (db_runs db))
     \<and> distinct (map rs_reservation_id (db_reservations db))
     \<and> (\<forall>x \<in> set (db_reservations db). 0 < rs_amount x \<and> rs_run_id x \<in> rr_run_id ` set (db_runs db))
     \<and> (\<forall>r \<in> set (db_runs db). run_ledger_ok (db_reservations db) r)"

definition budget_columns :: "run_row \<Rightarrow> uuid \<times> int \<times> int \<times> int \<times> int" where
  "budget_columns r = (rr_run_id r, rr_budget_limit r, rr_budget_reserved r, rr_budget_spent r, rr_budget_unknown r)"

lemma ledger_ok_cong:
  assumes "map budget_columns (db_runs db') = map budget_columns (db_runs db)"
    and "db_reservations db' = db_reservations db"
  shows "ledger_ok db' \<longleftrightarrow> ledger_ok db"
proof -
  have ids: "map rr_run_id rs = map (fst \<circ> budget_columns) rs" for rs by (simp add: budget_columns_def)
  have ok: "run_ledger_ok t r \<longleftrightarrow> (case budget_columns r of (k, l, a, b, c) \<Rightarrow>
      a = amounts t k RS_reserved \<and> b = amounts t k RS_spent \<and> c = amounts t k RS_unknown \<and> (a + b + c = 0 \<or> a + b + c \<le> l))"
    for t r by (simp add: run_ledger_ok_def budget_used_def budget_columns_def)
  have "map rr_run_id (db_runs db') = map rr_run_id (db_runs db)"
    unfolding ids using assms(1) by (metis map_map)
  moreover from this have "rr_run_id ` set (db_runs db') = rr_run_id ` set (db_runs db)" by (metis image_set)
  moreover have "budget_columns ` set (db_runs db') = budget_columns ` set (db_runs db)"
    using assms(1) by (metis image_set)
  then have "(\<forall>r \<in> set (db_runs db'). run_ledger_ok t r) \<longleftrightarrow> (\<forall>r \<in> set (db_runs db). run_ledger_ok t r)" for t
    unfolding ok by (metis (mono_tags, lifting) image_iff)
  ultimately show ?thesis by (simp add: ledger_ok_def assms(2))
qed

lemma ledger_ok_update_runs:
  assumes "\<And>r. P r \<Longrightarrow> budget_columns (f r) = budget_columns r"
  shows "ledger_ok (update_runs e P f db) \<longleftrightarrow> ledger_ok db"
  by (rule ledger_ok_cong) (simp_all add: map_update_where assms)

lemma ledger_ok_new_run:
  assumes "ledger_ok db" and "rr_run_id r \<notin> rr_run_id ` set (db_runs db)"
    and "budget_used r = 0" "rr_budget_reserved r = 0" "rr_budget_spent r = 0"
  shows "ledger_ok (db\<lparr>db_runs := db_runs db @ [r]\<rparr>)"
proof -
  have none: "filter (\<lambda>x. rs_run_id x = rr_run_id r \<and> rs_state x = s) (db_reservations db) = []" for s
    using assms(1,2) by (metis (mono_tags, lifting) filter_False ledger_ok_def)
  then show ?thesis using assms by (auto simp: ledger_ok_def run_ledger_ok_def amounts_def budget_used_def)
qed

lemma amounts_append:
  "amounts (t @ [x]) k s = amounts t k s + (if rs_run_id x = k \<and> rs_state x = s then rs_amount x else 0)"
  by (simp add: amounts_def)

lemma amounts_settle:
  assumes "distinct (map rs_reservation_id t)" and "x \<in> set t" and "rs_state x = RS_reserved" and "target \<noteq> RS_reserved"
    and "\<And>y. rs_run_id (f y) = rs_run_id y \<and> rs_amount (f y) = rs_amount y \<and> rs_state (f y) = target"
  shows "amounts (update_where (\<lambda>y. rs_reservation_id y = rs_reservation_id x) f t) k s =
     amounts t k s + (if rs_run_id x = k then (if s = target then rs_amount x else if s = RS_reserved then - rs_amount x else 0) else 0)"
proof -
  obtain us vs where t: "t = us @ x # vs" using assms(2) by (meson split_list)
  with assms(1) have "update_where (\<lambda>y. rs_reservation_id y = rs_reservation_id x) f us = us"
    "update_where (\<lambda>y. rs_reservation_id y = rs_reservation_id x) f vs = vs"
    by (auto intro!: update_where_cong_id simp: image_iff)
  then have "update_where (\<lambda>y. rs_reservation_id y = rs_reservation_id x) f t = us @ f x # vs" by (simp add: t)
  then show ?thesis using assms(3,4,5) by (simp add: amounts_def t)
qed

lemma find_run_unique:
  "distinct (map rr_run_id (db_runs db)) \<Longrightarrow> find_run k db = Some r \<Longrightarrow> r' \<in> set (db_runs db) \<Longrightarrow> rr_run_id r' = k \<Longrightarrow> r' = r"
  using find_row_distinct [of rr_run_id "db_runs db" r'] by auto

lemma ledger_ok_update:
  assumes ok: "ledger_ok db" and run: "find_run k db = Some r0"
    and f: "\<And>r. rr_run_id (f r) = rr_run_id r"
    and res: "distinct (map rs_reservation_id t)" "\<forall>x \<in> set t. 0 < rs_amount x \<and> rs_run_id x \<in> rr_run_id ` set (db_runs db)"
    and other: "\<And>j s. j \<noteq> k \<Longrightarrow> amounts t j s = amounts (db_reservations db) j s"
    and this_run: "run_ledger_ok t (f r0)"
  shows "ledger_ok (update_runs e (\<lambda>r. rr_run_id r = k) f (db\<lparr>db_reservations := t\<rparr>))"
proof -
  have d: "distinct (map rr_run_id (db_runs db))" using ok by (simp add: ledger_ok_def)
  have ids: "map rr_run_id (update_where (\<lambda>r. rr_run_id r = k) f (db_runs db)) = map rr_run_id (db_runs db)"
    by (simp add: map_update_where f)
  have "run_ledger_ok t (if rr_run_id r = k then f r else r)" if "r \<in> set (db_runs db)" for r
  proof (cases "rr_run_id r = k")
    case True
    with find_run_unique [OF d run that] this_run show ?thesis by simp
  next
    case False
    with ok that show ?thesis by (simp add: ledger_ok_def run_ledger_ok_def other)
  qed
  then have "\<forall>r \<in> set (update_where (\<lambda>r. rr_run_id r = k) f (db_runs db)). run_ledger_ok t r"
    unfolding set_update_where by blast
  moreover have "rr_run_id ` set (update_where (\<lambda>r. rr_run_id r = k) f (db_runs db)) = rr_run_id ` set (db_runs db)"
    using arg_cong [OF ids, of set] by (simp only: set_map)
  ultimately show ?thesis using d ids res by (simp add: ledger_ok_def)
qed

lemma reserve_budget_ledger:
  assumes ok: "ledger_ok db" and op: "reserve_budget_in rid amount secs e lease db = Inr ((), db')"
  shows "ledger_ok db'"
proof (cases "find_reservation rid db")
  case None
  with op obtain r i where j: "fenced_join e lease db = Inr (r, i)" and a: "0 < amount" "budget_used r + amount \<le> rr_budget_limit r"
    and db': "db' = update_runs e (\<lambda>r. rr_run_id r = le_run_id lease)
        (\<lambda>r. r\<lparr>rr_budget_reserved := rr_budget_reserved r + amount\<rparr>)
        (db\<lparr>db_reservations := db_reservations db @
           [\<lparr>rs_reservation_id = rid, rs_run_id = le_run_id lease, rs_amount = amount,
             rs_state = RS_reserved, rs_reserved_seconds = finite_value secs, rs_seconds = None\<rparr>]\<rparr>)"
    by (auto simp: reserve_budget_in_def split: if_splits sum.splits)
  from fenced_join_Inr [OF j] have run: "find_run (le_run_id lease) db = Some r" by simp
  have r: "r \<in> set (db_runs db)" "rr_run_id r = le_run_id lease" using find_row_SomeD [OF run] by auto
  then have "le_run_id lease \<in> rr_run_id ` set (db_runs db)" by force
  note r = r this
  show ?thesis unfolding db'
    by (rule ledger_ok_update [OF ok run])
      (use ok None a r in \<open>auto simp: ledger_ok_def run_ledger_ok_def budget_used_def amounts_append find_row_None_iff\<close>)
qed (use op ok in \<open>auto simp: reserve_budget_in_def split: if_splits sum.splits\<close>)

lemma settle_budget_ledger:
  assumes ok: "ledger_ok db" and op: "settle_budget_in rid outcome secs e lease db = Inr ((), db')"
  shows "ledger_ok db'"
proof (cases "db' = db")
  case False
  with op obtain target r i x where t: "map_of settlements outcome = Some target" and j: "run_join db (le_run_id lease) = Some (r, i)"
    and x: "find_reservation rid db = Some x" "rs_run_id x = le_run_id lease" "rs_state x = RS_reserved"
    and db': "db' = update_runs e (\<lambda>r. rr_run_id r = le_run_id lease) (settle_column target (rs_amount x))
                (db\<lparr>db_reservations := update_where (\<lambda>y. rs_reservation_id y = rid)
                   (\<lambda>y. y\<lparr>rs_state := target,
                        rs_seconds := Some (case secs of None \<Rightarrow> rs_reserved_seconds y | Some s \<Rightarrow> finite_value s)\<rparr>)
                   (db_reservations db)\<rparr>)"
    by (auto simp: settle_budget_in_def split: if_splits option.splits)
  from t have target: "target = RS_spent \<or> target = RS_unknown" by (auto simp: settlements_def split: if_splits)
  from j have run: "find_run (le_run_id lease) db = Some r" by (simp add: run_join_Some_iff)
  have r: "r \<in> set (db_runs db)" "rr_run_id r = le_run_id lease" using find_row_SomeD [OF run] by auto
  have x': "x \<in> set (db_reservations db)" "rs_reservation_id x = rid" using find_row_SomeD [OF x(1)] by auto
  have d: "distinct (map rs_reservation_id (db_reservations db))" using ok by (simp add: ledger_ok_def)
  note am = amounts_settle [OF d x'(1) x(3), of target, unfolded x'(2)]
  show ?thesis unfolding db'
    by (rule ledger_ok_update [OF ok run])
      (use ok target r x(2) am in \<open>auto simp: ledger_ok_def run_ledger_ok_def budget_used_def map_update_where set_update_where\<close>)
qed (use ok in simp)

subsection \<open>The tool account\<close>

text \<open>A dispatch costs its settled seconds, or the reserved ones while it is not settled. The columns of
  a Run count its dispatches and sum their costs.\<close>

definition charge_cost :: "charge_row \<Rightarrow> rat" where
  "charge_cost c = (case tc_seconds c of None \<Rightarrow> tc_reserved c | Some s \<Rightarrow> s)"

definition charges_of :: "charge_row list \<Rightarrow> uuid \<Rightarrow> charge_row list" where
  "charges_of t k = filter (\<lambda>c. tc_run_id c = k) t"

definition run_tools_ok :: "charge_row list \<Rightarrow> run_row \<Rightarrow> bool" where
  "run_tools_ok t r \<longleftrightarrow> rr_tool_operations_used r = int (length (charges_of t (rr_run_id r)))
     \<and> rr_tool_seconds_used r = sum_list (map charge_cost (charges_of t (rr_run_id r)))"

definition tools_ok :: "db \<Rightarrow> bool" where
  "tools_ok db \<longleftrightarrow> distinct (map rr_run_id (db_runs db)) \<and> distinct (map tc_dispatch_id (db_charges db))
     \<and> (\<forall>c \<in> set (db_charges db). tc_run_id c \<in> rr_run_id ` set (db_runs db))
     \<and> (\<forall>r \<in> set (db_runs db). run_tools_ok (db_charges db) r)"

definition tool_columns :: "run_row \<Rightarrow> uuid \<times> int \<times> rat" where
  "tool_columns r = (rr_run_id r, rr_tool_operations_used r, rr_tool_seconds_used r)"

lemma tools_ok_cong:
  assumes "map tool_columns (db_runs db') = map tool_columns (db_runs db)"
    and "db_charges db' = db_charges db"
  shows "tools_ok db' \<longleftrightarrow> tools_ok db"
proof -
  have ids: "map rr_run_id rs = map (fst \<circ> tool_columns) rs" for rs by (simp add: tool_columns_def)
  have ok: "run_tools_ok t r \<longleftrightarrow> (case tool_columns r of (k, n, s) \<Rightarrow>
      n = int (length (charges_of t k)) \<and> s = sum_list (map charge_cost (charges_of t k)))"
    for t r by (simp add: run_tools_ok_def tool_columns_def)
  have "map rr_run_id (db_runs db') = map rr_run_id (db_runs db)"
    unfolding ids using assms(1) by (metis map_map)
  moreover from this have "rr_run_id ` set (db_runs db') = rr_run_id ` set (db_runs db)" by (metis image_set)
  moreover have "tool_columns ` set (db_runs db') = tool_columns ` set (db_runs db)"
    using assms(1) by (metis image_set)
  then have "(\<forall>r \<in> set (db_runs db'). run_tools_ok t r) \<longleftrightarrow> (\<forall>r \<in> set (db_runs db). run_tools_ok t r)" for t
    unfolding ok by (metis (mono_tags, lifting) image_iff)
  ultimately show ?thesis by (simp add: tools_ok_def assms(2))
qed

lemma tools_ok_update_runs:
  assumes "\<And>r. P r \<Longrightarrow> tool_columns (f r) = tool_columns r"
  shows "tools_ok (update_runs e P f db) \<longleftrightarrow> tools_ok db"
  by (rule tools_ok_cong) (simp_all add: map_update_where assms)

lemma tools_ok_new_run:
  assumes "tools_ok db" and "rr_run_id r \<notin> rr_run_id ` set (db_runs db)"
    and "rr_tool_operations_used r = 0" "rr_tool_seconds_used r = 0"
  shows "tools_ok (db\<lparr>db_runs := db_runs db @ [r]\<rparr>)"
proof -
  have none: "charges_of (db_charges db) (rr_run_id r) = []"
    unfolding charges_of_def using assms(1,2) by (metis (mono_tags, lifting) filter_False tools_ok_def)
  then show ?thesis using assms by (auto simp: tools_ok_def run_tools_ok_def)
qed

lemma tools_ok_update:
  assumes ok: "tools_ok db" and run: "find_run k db = Some r0"
    and f: "\<And>r. rr_run_id (f r) = rr_run_id r"
    and t: "distinct (map tc_dispatch_id t)" "\<forall>x \<in> set t. tc_run_id x \<in> rr_run_id ` set (db_runs db)"
    and other: "\<And>j. j \<noteq> k \<Longrightarrow> length (charges_of t j) = length (charges_of (db_charges db) j) \<and>
        sum_list (map charge_cost (charges_of t j)) = sum_list (map charge_cost (charges_of (db_charges db) j))"
    and this_run: "run_tools_ok t (f r0)"
    and d': "db_runs db' = update_where (\<lambda>r. rr_run_id r = k) f (db_runs db)" "db_charges db' = t"
  shows "tools_ok db'"
proof -
  have d: "distinct (map rr_run_id (db_runs db))" using ok by (simp add: tools_ok_def)
  have ids: "map rr_run_id (update_where (\<lambda>r. rr_run_id r = k) f (db_runs db)) = map rr_run_id (db_runs db)"
    by (simp add: map_update_where f)
  have "run_tools_ok t (if rr_run_id r = k then f r else r)" if "r \<in> set (db_runs db)" for r
  proof (cases "rr_run_id r = k")
    case True
    with find_run_unique [OF d run that] this_run show ?thesis by simp
  next
    case False
    with ok that show ?thesis by (simp add: tools_ok_def run_tools_ok_def other)
  qed
  then have "\<forall>r \<in> set (update_where (\<lambda>r. rr_run_id r = k) f (db_runs db)). run_tools_ok t r"
    unfolding set_update_where by blast
  moreover have "rr_run_id ` set (update_where (\<lambda>r. rr_run_id r = k) f (db_runs db)) = rr_run_id ` set (db_runs db)"
    using arg_cong [OF ids, of set] by (simp only: set_map)
  ultimately show ?thesis using d ids t by (simp add: tools_ok_def d')
qed

lemma charges_settle:
  assumes "distinct (map tc_dispatch_id t)" and "c \<in> set t"
    and "\<And>y. tc_run_id (f y) = tc_run_id y \<and> charge_cost (f y) = v"
  shows "length (charges_of (update_where (\<lambda>y. tc_dispatch_id y = tc_dispatch_id c) f t) j) = length (charges_of t j) \<and>
     sum_list (map charge_cost (charges_of (update_where (\<lambda>y. tc_dispatch_id y = tc_dispatch_id c) f t) j)) =
       sum_list (map charge_cost (charges_of t j)) + (if tc_run_id c = j then v - charge_cost c else 0)"
proof -
  obtain us vs where t: "t = us @ c # vs" using assms(2) by (meson split_list)
  with assms(1) have "update_where (\<lambda>y. tc_dispatch_id y = tc_dispatch_id c) f us = us"
    "update_where (\<lambda>y. tc_dispatch_id y = tc_dispatch_id c) f vs = vs"
    by (auto intro!: update_where_cong_id simp: image_iff)
  then have "update_where (\<lambda>y. tc_dispatch_id y = tc_dispatch_id c) f t = us @ f c # vs" by (simp add: t)
  then show ?thesis using assms(3) by (simp add: charges_of_def t)
qed

lemma find_chargeD:
  "find_charge d oid lease db = Some c \<Longrightarrow> c \<in> set (db_charges db) \<and> tc_dispatch_id c = d
     \<and> tc_run_id c = le_run_id lease \<and> tc_epoch c = le_epoch lease \<and> tc_operation_id c = oid"
  by (auto simp: find_charge_def find_Some_iff)

lemma charge_delta_cost: "charge_delta c s = settled_seconds c s - charge_cost c"
  by (simp add: charge_delta_def settled_seconds_def charge_cost_def split: option.split)

lemma charge_tool_account:
  assumes ok: "tools_ok db" and op: "charge_tool_in oid secs mo ms d e lease db = Inr ((), db')"
  shows "tools_ok db'"
proof -
  from op obtain r i where j: "run_join db (le_run_id lease) = Some (r, i)"
    by (auto simp: charge_tool_in_def split: if_splits sum.splits option.splits)
  then have run: "find_run (le_run_id lease) db = Some r" by (simp add: run_join_Some_iff)
  have r: "r \<in> set (db_runs db)" "rr_run_id r = le_run_id lease" using find_row_SomeD [OF run] by auto
  then have mem: "le_run_id lease \<in> rr_run_id ` set (db_runs db)" by force
  have r_ok: "run_tools_ok (db_charges db) r" using ok r by (simp add: tools_ok_def)
  show ?thesis
  proof (cases "find_charge d oid lease db")
    case None
    with op j obtain t where t: "insert_row tc_dispatch_id
          \<lparr>tc_dispatch_id = d, tc_run_id = le_run_id lease, tc_epoch = le_epoch lease,
           tc_operation_id = oid, tc_reserved = finite_value secs, tc_seconds = None\<rparr> (db_charges db) = Inr t"
      and db': "db' = update_runs e (\<lambda>r. rr_run_id r = le_run_id lease)
          (\<lambda>r. r\<lparr>rr_tool_operations_used := rr_tool_operations_used r + 1,
                rr_tool_seconds_used := rr_tool_seconds_used r + finite_value secs\<rparr>) (db\<lparr>db_charges := t\<rparr>)"
      by (auto simp: charge_tool_in_def bind_result_Inr_iff split: if_splits sum.splits)
    show ?thesis
      by (rule tools_ok_update [OF ok run, where t = t and f = "\<lambda>r. r\<lparr>rr_tool_operations_used := rr_tool_operations_used r + 1,
                rr_tool_seconds_used := rr_tool_seconds_used r + finite_value secs\<rparr>"])
        (use ok r r_ok mem t in \<open>auto simp: db' tools_ok_def run_tools_ok_def insert_row_Inr_iff charges_of_def charge_cost_def\<close>)
  next
    case (Some c)
    note c = find_chargeD [OF this]
    let ?v = "settled_seconds c (finite_value secs)"
    let ?t = "update_where (\<lambda>x. tc_dispatch_id x = d) (\<lambda>x. x\<lparr>tc_seconds := Some ?v\<rparr>) (db_charges db)"
    let ?f = "\<lambda>r. r\<lparr>rr_tool_seconds_used := rr_tool_seconds_used r + charge_delta c (finite_value secs)\<rparr>"
    have d: "distinct (map tc_dispatch_id (db_charges db))" using ok by (simp add: tools_ok_def)
    have am: "length (charges_of ?t k) = length (charges_of (db_charges db) k) \<and>
     sum_list (map charge_cost (charges_of ?t k)) =
       sum_list (map charge_cost (charges_of (db_charges db) k)) + (if tc_run_id c = k then ?v - charge_cost c else 0)" for k
      using charges_settle [OF d, of c "\<lambda>x. x\<lparr>tc_seconds := Some ?v\<rparr>" ?v] c by (simp add: charge_cost_def)
    from op j Some have db': "db' = (if charge_delta c (finite_value secs) = 0 then db\<lparr>db_charges := ?t\<rparr>
        else update_runs e (\<lambda>r. rr_run_id r = le_run_id lease) ?f (db\<lparr>db_charges := ?t\<rparr>))"
      by (auto simp: charge_tool_in_def Let_def split: if_splits sum.splits)
    show ?thesis
    proof (rule tools_ok_update [OF ok run, where t = ?t and f = ?f])
      show "db_runs db' = update_where (\<lambda>r. rr_run_id r = le_run_id lease) ?f (db_runs db)"
        by (cases "charge_delta c (finite_value secs) = 0")
          (simp_all add: db' update_where_def map_idI [symmetric])
    qed (use ok r r_ok c am in \<open>auto simp: db' tools_ok_def run_tools_ok_def map_update_where set_update_where charge_delta_cost\<close>)
  qed
qed

subsection \<open>Properties\<close>

lemma reserve_budget_records:
  assumes "reserve_budget rid amount secs e lease db = (Inr (), db1)"
  shows "\<exists>x. find_reservation rid db1 = Some x \<and> rs_amount x = amount \<and> rs_run_id x = le_run_id lease"
  using assms
  by (auto simp: reserve_budget_def reserve_budget_in_def find_row_append split: if_splits sum.splits option.splits)

lemma settle_budget_records:
  assumes "settle_budget rid outcome secs e lease db = (Inr (), db1)"
  shows "\<exists>x. find_reservation rid db1 = Some x \<and> rs_run_id x = le_run_id lease
     \<and> map_of settlements outcome = Some (rs_state x) \<and> rs_state x \<noteq> RS_reserved"
proof -
  have "target \<noteq> RS_reserved" if "map_of settlements outcome = Some target" for target
    using that by (auto simp: settlements_def split: if_splits)
  moreover have "rs_reservation_id x = rid" if "find_reservation rid db = Some x" for x
    using that by (rule find_row_key)
  ultimately show ?thesis
    using assms by (auto simp: settle_budget_def settle_budget_in_def find_row_update_where split: if_splits option.splits)
qed

lemma reserve_budget_replay:
  assumes "find_reservation rid db = Some x"
  shows "snd (reserve_budget rid amount secs e lease db) = db"
  using assms by (auto simp: reserve_budget_def reserve_budget_in_def snd_transaction split: sum.split)

lemma settle_budget_replay:
  assumes "find_reservation rid db = Some x" and "rs_state x \<noteq> RS_reserved"
  shows "snd (settle_budget rid outcome secs e lease db) = db"
  using assms by (auto simp: settle_budget_def settle_budget_in_def snd_transaction split: sum.split option.split)

text \<open>(\<open>reserve_budget\<close>, \<open>settle_budget\<close>) Retries are free: once a reservation is recorded, reserving its
  id again changes nothing, whatever lease, amount or clock the retry comes with; once it is settled,
  settling it again changes nothing, so a reservation settles once and to one outcome.\<close>

theorem budget_retries_are_free:
  "(reserve_budget rid amount secs e lease db = (Inr (), db1) \<longrightarrow>
      snd (reserve_budget rid amount2 secs2 e2 lease2 db1) = db1) \<and>
   (settle_budget rid outcome tm e lease db = (Inr (), db1) \<longrightarrow>
      snd (settle_budget rid outcome2 tm2 e2 lease2 db1) = db1)"
  using reserve_budget_records [of rid amount secs e lease db db1]
    settle_budget_records [of rid outcome tm e lease db db1]
  by (auto intro: reserve_budget_replay settle_budget_replay)

lemma example_reservation:
  "find_reservation 3 example_db = None" "budget_used example_run_row = 0" "rr_budget_limit example_run_row = 5"
  by (simp_all add: budget_used_def example_defs)

theorem budget_retries_are_free_witness:
  "fst (reserve_budget 3 2 (Finite 1) (example_env 5 50) example_lease example_db) = Inr () \<and>
   snd (reserve_budget 3 2 (Finite 1) (example_env 6 50) example_lease
     (snd (reserve_budget 3 2 (Finite 1) (example_env 5 50) example_lease example_db))) =
   snd (reserve_budget 3 2 (Finite 1) (example_env 5 50) example_lease example_db)"
proof -
  obtain db1 where db1: "reserve_budget 3 2 (Finite 1) (example_env 5 50) example_lease example_db = (Inr (), db1)"
    using example_reservation
    by (simp add: reserve_budget_def reserve_budget_in_def example_fenced seconds_ok_def)
  with budget_retries_are_free [THEN conjunct1, THEN mp, OF db1] show ?thesis by simp
qed

text \<open>(\<open>charge_tool\<close>, \<open>run_usage\<close>) The tool account is exact: if every Run's counters equal the number of
  its dispatches and the sum of their costs, with an unsettled dispatch counted at its full
  reservation, then they still do after any \<open>charge_tool\<close>, and \<open>run_usage\<close> reports them; under a revoked
  lease only a dispatch this attempt reserved before is still settled, never a new one counted.\<close>

theorem tool_account_exact:
  assumes "tools_ok db" and "charge_tool oid secs mo ms d e lease db = (res, db')"
  shows "tools_ok db' \<and>
     (\<not> lease_valid db lease (env_now e) \<longrightarrow> map tc_dispatch_id (db_charges db') = map tc_dispatch_id (db_charges db)) \<and>
     (\<forall>k u. run_usage k db' = Inr u \<longrightarrow>
        us_tool_operations_used u = int (length (charges_of (db_charges db') k)) \<and>
        us_tool_seconds_used u = sum_list (map charge_cost (charges_of (db_charges db') k)))"
proof -
  have ok': "tools_ok db'"
    using assms charge_tool_account [OF assms(1), of oid secs mo ms d e lease db']
    by (cases res) (auto simp: charge_tool_def dest: transaction_rollback)
  have "map tc_dispatch_id (db_charges db') = map tc_dispatch_id (db_charges db)"
    if "\<not> lease_valid db lease (env_now e)"
    using assms(2) that
    by (auto simp: charge_tool_def transaction_def charge_tool_in_def lease_valid_def Let_def map_update_where
        split: sum.splits prod.splits if_splits option.splits)
  with ok' show ?thesis
    by (auto simp: run_usage_def tools_ok_def run_tools_ok_def split: option.splits dest!: find_row_SomeD)
qed

theorem tool_account_exact_witness:
  "tools_ok (snd (charge_tool ''op'' (Finite 3) 1 (Finite 1) 4 (example_env 5 50) example_lease example_db))"
proof -
  have "tools_ok example_db" by (simp add: tools_ok_def run_tools_ok_def charges_of_def example_defs)
  from tool_account_exact [OF this prod.collapse [symmetric], THEN conjunct1] show ?thesis .
qed

end
