(* ===== verification/Store_Core.thy ===== *)
theory Store_Core
  imports Store_Controls Store_Budgets
begin

section \<open>The abstract machine of incidents and Runs\<close>

text \<open>
  What every operation of the store may do to the incidents, their Runs, the audit log and the
  inputs, as three kinds of step: \<open>work\<close> moves Runs and never a generation, a \<open>decision\<close> raises the
  generation of one incident by one, writes one audit row and may replace the current Run, an \<open>intake\<close>
  adds an incident with its first Run. The invariant \<open>store_ok\<close> and the monotonicity of generations and
  epochs are proved once here; that every operation is such a step is shown in \<open>Store_System\<close>.
\<close>

definition unfinished :: "run_row \<Rightarrow> bool" where
  "unfinished r \<longleftrightarrow> rr_state r \<in> UNFINISHED"

definition lease_bounded :: "run_row \<Rightarrow> bool" where
  "lease_bounded r \<longleftrightarrow> (\<forall>u. rr_lease_until r = Some u \<longrightarrow> u \<le> rr_deadline r \<and> unfinished r)"

text \<open>An unfinished Run is the current Run of its incident, which is not cancelled; the generation on the
  Run is never ahead of the incident's; a lease never outlives the deadline and is held on unfinished Runs only.\<close>

definition pair_ok :: "run_row \<Rightarrow> incident_row \<Rightarrow> bool" where
  "pair_ok r i \<longleftrightarrow> (unfinished r \<longrightarrow> ir_current_run_id i = Some (rr_run_id r) \<and> ir_state i \<noteq> IS_cancelled)
     \<and> rr_control_generation r \<le> ir_control_generation i \<and> lease_bounded r"

definition runs_ok :: "db \<Rightarrow> bool" where
  "runs_ok db \<longleftrightarrow> (\<forall>r \<in> set (db_runs db). \<exists>i. find_incident (rr_incident_id r) db = Some i \<and> pair_ok r i)"

definition store_ok :: "db \<Rightarrow> bool" where
  "store_ok db \<longleftrightarrow> distinct (map rr_run_id (db_runs db)) \<and> distinct (map ir_incident_id (db_incidents db))
     \<and> runs_ok db \<and> current_runs_ok db"

text \<open>The audit rows of the decisions on an incident count its generations: one row each, in order. A
  row whose generations are equal is a note: an automatic observation was authorized, nobody decided.\<close>

definition raises :: "control_row \<Rightarrow> bool" where
  "raises c \<longleftrightarrow> ca_expected_generation c \<noteq> ca_resulting_generation c"

definition audit_of :: "uuid \<Rightarrow> db \<Rightarrow> int list" where
  "audit_of k db = map ca_resulting_generation (filter (\<lambda>c. ca_incident_id c = k \<and> raises c) (db_controls db))"

definition audit_ok :: "db \<Rightarrow> bool" where
  "audit_ok db \<longleftrightarrow> (\<forall>c \<in> set (db_controls db). find_incident (ca_incident_id c) db \<noteq> None)
     \<and> (\<forall>c \<in> set (db_controls db). raises c \<longrightarrow> ca_resulting_generation c = ca_expected_generation c + 1)
     \<and> (\<forall>i \<in> set (db_incidents db). 0 \<le> ir_control_generation i \<and> audit_of (ir_incident_id i) db = [1..ir_control_generation i])"

definition sequences_of :: "uuid \<Rightarrow> db \<Rightarrow> int list" where
  "sequences_of k db = map in_sequence (filter (\<lambda>x. in_incident_id x = k) (db_inputs db))"

definition inputs_ok :: "db \<Rightarrow> bool" where
  "inputs_ok db \<longleftrightarrow> (\<forall>k. sequences_of k db = [1..int (length (sequences_of k db))])"

subsection \<open>Steps\<close>

definition inputs_step :: "db \<Rightarrow> db \<Rightarrow> bool" where
  "inputs_step db db' \<longleftrightarrow> db_inputs db' = db_inputs db
     \<or> (\<exists>x. db_inputs db' = db_inputs db @ [x] \<and> in_sequence x = next_input_sequence (in_incident_id x) db)"

definition target_generation :: "uuid \<Rightarrow> db \<Rightarrow> int" where
  "target_generation t db = (case find_suspension t db of None \<Rightarrow> 0 | Some s \<Rightarrow> ts_generation s)"

definition gates_step :: "db \<Rightarrow> db \<Rightarrow> bool" where
  "gates_step db db' \<longleftrightarrow> db_global_generation db \<le> db_global_generation db'
     \<and> (db_global_suspended db' \<noteq> db_global_suspended db \<longrightarrow> db_global_generation db < db_global_generation db')
     \<and> (\<forall>t. target_generation t db \<le> target_generation t db')"

definition notes_step :: "db \<Rightarrow> db \<Rightarrow> bool" where
  "notes_step db db' \<longleftrightarrow> db_controls db' = db_controls db
     \<or> (\<exists>c. db_controls db' = db_controls db @ [c] \<and> \<not> raises c \<and> find_incident (ca_incident_id c) db \<noteq> None)"

lemma notes_same [simp]: "db_controls db' = db_controls db \<Longrightarrow> notes_step db db'"
  by (simp add: notes_step_def)

definition run_same :: "run_row \<Rightarrow> run_row \<Rightarrow> bool" where
  "run_same r r' \<longleftrightarrow> rr_run_id r' = rr_run_id r \<and> rr_incident_id r' = rr_incident_id r \<and> rr_deadline r' = rr_deadline r"

definition work_run :: "db \<Rightarrow> run_row \<Rightarrow> run_row \<Rightarrow> bool" where
  "work_run db r r' \<longleftrightarrow> run_same r r' \<and> rr_epoch r \<le> rr_epoch r' \<and> (unfinished r' \<longrightarrow> unfinished r)
     \<and> (lease_bounded r \<longrightarrow> lease_bounded r')
     \<and> (rr_control_generation r' = rr_control_generation r
        \<or> (\<exists>i. find_incident (rr_incident_id r) db = Some i \<and> rr_control_generation r' = ir_control_generation i))"

definition work_incident :: "incident_row \<Rightarrow> incident_row \<Rightarrow> bool" where
  "work_incident i i' \<longleftrightarrow> ir_incident_id i' = ir_incident_id i \<and> ir_current_run_id i' = ir_current_run_id i
     \<and> ir_control_generation i' = ir_control_generation i \<and> ir_mode i' = ir_mode i \<and> ir_target_id i' = ir_target_id i
     \<and> (ir_state i' = ir_state i \<or> ir_state i' = IS_paused)"

definition decided_run :: "uuid \<Rightarrow> int \<Rightarrow> run_row \<Rightarrow> run_row \<Rightarrow> bool" where
  "decided_run k nxt r r' \<longleftrightarrow> run_same r r' \<and> rr_incident_id r = k \<and> rr_epoch r' = rr_epoch r
     \<and> (unfinished r' \<longrightarrow> unfinished r) \<and> rr_control_generation r' = nxt \<and> rr_lease_until r' = None"

definition decided_incident :: "uuid \<Rightarrow> incident_row \<Rightarrow> incident_row \<Rightarrow> bool" where
  "decided_incident k i i' \<longleftrightarrow> ir_incident_id i = k \<and> ir_incident_id i' = k
     \<and> ir_control_generation i' = ir_control_generation i + 1
     \<and> (ir_mode i = M_human_owned \<longrightarrow> ir_mode i' = M_human_owned)"

text \<open>The Runs of \<open>k\<close> are all finished after the update.\<close>

definition stops_all :: "uuid \<Rightarrow> (run_row \<Rightarrow> bool) \<Rightarrow> (run_row \<Rightarrow> run_row) \<Rightarrow> bool" where
  "stops_all k P f \<longleftrightarrow> (\<forall>r. rr_incident_id r = k \<and> unfinished r \<longrightarrow> P r \<and> \<not> unfinished (f r))"

definition new_runs_ok :: "uuid \<Rightarrow> incident_row \<Rightarrow> incident_row \<Rightarrow> run_row list \<Rightarrow> db \<Rightarrow> bool" where
  "new_runs_ok k i i' new db \<longleftrightarrow>
     (new = [] \<and> ir_current_run_id i' = ir_current_run_id i)
     \<or> (\<exists>r. new = [r] \<and> ir_current_run_id i' = Some (rr_run_id r) \<and> rr_run_id r \<notin> rr_run_id ` set (db_runs db)
          \<and> rr_incident_id r = k \<and> rr_control_generation r = ir_control_generation i' \<and> rr_lease_until r = None \<and> rr_epoch r = 0
          \<and> ir_state i' \<noteq> IS_cancelled)"

text \<open>A new incident comes with its first Run, or without one when it is handed to a human at intake.\<close>

definition first_run_ok :: "incident_row \<Rightarrow> run_row list \<Rightarrow> db \<Rightarrow> bool" where
  "first_run_ok i new db \<longleftrightarrow> (new = [] \<and> ir_current_run_id i = None)
     \<or> (\<exists>r. new = [r] \<and> ir_current_run_id i = Some (rr_run_id r) \<and> rr_run_id r \<notin> rr_run_id ` set (db_runs db)
          \<and> rr_incident_id r = ir_incident_id i \<and> rr_control_generation r = 0 \<and> rr_lease_until r = None)"

text \<open>A decision on the incident \<open>k\<close>.\<close>

inductive decided :: "uuid \<Rightarrow> db \<Rightarrow> db \<Rightarrow> bool" for k where
  decidedI: "find_incident k db = Some i \<Longrightarrow>
     db_runs db' = update_where P f (db_runs db) @ new \<Longrightarrow>
     (\<And>r. r \<in> set (db_runs db) \<Longrightarrow> P r \<Longrightarrow> decided_run k (ir_control_generation i + 1) r (f r)) \<Longrightarrow>
     db_incidents db' = update_where (\<lambda>x. ir_incident_id x = k) g (db_incidents db) \<Longrightarrow> decided_incident k i (g i) \<Longrightarrow>
     new_runs_ok k i (g i) new db \<Longrightarrow>
     (new \<noteq> [] \<or> ir_state (g i) = IS_cancelled \<Longrightarrow> ir_state i = IS_cancelled \<or> stops_all k P f) \<Longrightarrow>
     db_controls db' = db_controls db @ [c] \<Longrightarrow> ca_incident_id c = k \<Longrightarrow>
     ca_resulting_generation c = ir_control_generation i + 1 \<Longrightarrow> ca_expected_generation c = ir_control_generation i \<Longrightarrow>
     inputs_step db db' \<Longrightarrow> gates_step db db' \<Longrightarrow> decided k db db'"

inductive core_step :: "db \<Rightarrow> db \<Rightarrow> bool" where
  work: "db_runs db' = update_where P f (db_runs db) \<Longrightarrow> (\<And>r. r \<in> set (db_runs db) \<Longrightarrow> P r \<Longrightarrow> work_run db r (f r)) \<Longrightarrow>
     db_incidents db' = update_where Q g (db_incidents db) \<Longrightarrow>
     (\<And>i. i \<in> set (db_incidents db) \<Longrightarrow> Q i \<Longrightarrow> work_incident i (g i)) \<Longrightarrow>
     notes_step db db' \<Longrightarrow> inputs_step db db' \<Longrightarrow> gates_step db db' \<Longrightarrow> core_step db db'"
| decision: "decided k db db' \<Longrightarrow> core_step db db'"
| intake: "db_runs db' = db_runs db @ new \<Longrightarrow> first_run_ok i new db \<Longrightarrow>
     db_incidents db' = db_incidents db @ [i] \<Longrightarrow> ir_incident_id i \<notin> ir_incident_id ` set (db_incidents db) \<Longrightarrow>
     ir_state i \<noteq> IS_cancelled \<Longrightarrow> ir_control_generation i = 0 \<Longrightarrow>
     db_controls db' = db_controls db \<Longrightarrow> inputs_step db db' \<Longrightarrow> gates_step db db' \<Longrightarrow> core_step db db'"

lemma core_refl: "db_runs db' = db_runs db \<Longrightarrow> db_incidents db' = db_incidents db \<Longrightarrow> db_controls db' = db_controls db \<Longrightarrow>
    db_inputs db' = db_inputs db \<Longrightarrow> db_global_suspended db' = db_global_suspended db \<Longrightarrow>
    db_global_generation db' = db_global_generation db \<Longrightarrow> db_target_suspensions db' = db_target_suspensions db \<Longrightarrow> core_step db db'"
  by (rule work [where P = "\<lambda>r. False" and Q = "\<lambda>i. False" and f = id and g = id])
    (simp_all add: update_where_cong_id inputs_step_def gates_step_def target_generation_def)

subsection \<open>The invariant is kept\<close>

lemma pair_ok_work:
  assumes "pair_ok r i" and "find_incident (rr_incident_id r) db = Some i"
    and "r' = r \<or> work_run db r r'" and "i' = i \<or> work_incident i i'"
  shows "pair_ok r' i'"
  using assms unfolding pair_ok_def work_run_def work_incident_def run_same_def lease_bounded_def by auto

lemma find_incident_update:
  "(\<And>i. Q i \<Longrightarrow> i \<in> set (db_incidents db) \<Longrightarrow> ir_incident_id (g i) = ir_incident_id i) \<Longrightarrow>
   db_incidents db' = update_where Q g (db_incidents db) \<Longrightarrow>
   find_incident k db' = map_option (\<lambda>i. if Q i then g i else i) (find_incident k db)"
proof -
  assume a: "\<And>i. Q i \<Longrightarrow> i \<in> set (db_incidents db) \<Longrightarrow> ir_incident_id (g i) = ir_incident_id i"
    "db_incidents db' = update_where Q g (db_incidents db)"
  have "find_row ir_incident_id k (update_where Q g t) = map_option (\<lambda>i. if Q i then g i else i) (find_row ir_incident_id k t)"
    if "\<And>i. Q i \<Longrightarrow> i \<in> set t \<Longrightarrow> ir_incident_id (g i) = ir_incident_id i" for t
    using that by (induction t) auto
  with a show ?thesis by simp
qed

lemma find_run_update:
  assumes "\<And>r. P r \<Longrightarrow> r \<in> set (db_runs db) \<Longrightarrow> rr_run_id (f r) = rr_run_id r"
    and "db_runs db' = update_where P f (db_runs db) @ new"
  shows "find_run k db' = (case find_run k db of Some r \<Rightarrow> Some (if P r then f r else r) | None \<Rightarrow> find_row rr_run_id k new)"
proof -
  have "find_row rr_run_id k (update_where P f t @ new) =
      (case find_row rr_run_id k t of Some r \<Rightarrow> Some (if P r then f r else r) | None \<Rightarrow> find_row rr_run_id k new)"
    if "\<And>r. P r \<Longrightarrow> r \<in> set t \<Longrightarrow> rr_run_id (f r) = rr_run_id r" for t
    using that by (induction t) (auto simp: find_row_append)
  with assms show ?thesis by simp
qed

lemma map_update_where_on:
  "(\<And>r. P r \<Longrightarrow> r \<in> set t \<Longrightarrow> h (f r) = h r) \<Longrightarrow> map h (update_where P f t) = map h t"
  by (induction t) auto

text \<open>The shape the three kinds of step share, and what it needs for the invariant.\<close>

lemma store_okI:
  assumes runs: "db_runs db' = update_where P f (db_runs db) @ new"
    and same: "\<And>r. r \<in> set (db_runs db) \<Longrightarrow> P r \<Longrightarrow> run_same r (f r)"
    and inc: "db_incidents db' = update_where Q g (db_incidents db) @ newi"
    and ids: "\<And>i. i \<in> set (db_incidents db) \<Longrightarrow> Q i \<Longrightarrow> ir_incident_id (g i) = ir_incident_id i"
    and fresh: "distinct (map rr_run_id new)" "rr_run_id ` set new \<inter> rr_run_id ` set (db_runs db) = {}"
      "distinct (map ir_incident_id newi)" "ir_incident_id ` set newi \<inter> ir_incident_id ` set (db_incidents db) = {}"
    and ok: "store_ok db"
    and old_pairs: "\<And>r i. r \<in> set (db_runs db) \<Longrightarrow> find_incident (rr_incident_id r) db = Some i \<Longrightarrow> pair_ok r i \<Longrightarrow>
       pair_ok (if P r then f r else r) (if Q i then g i else i)"
    and new_pairs: "\<And>r. r \<in> set new \<Longrightarrow> \<exists>i. find_incident (rr_incident_id r) db' = Some i \<and> pair_ok r i"
    and current: "\<And>i k. i \<in> set (db_incidents db) \<Longrightarrow> ir_current_run_id (if Q i then g i else i) = Some k \<Longrightarrow>
       ir_current_run_id i = Some k \<or> (\<exists>r. find_run k db' = Some r \<and> rr_incident_id r = ir_incident_id i)"
    and new_current: "\<And>i k. i \<in> set newi \<Longrightarrow> ir_current_run_id i = Some k \<Longrightarrow>
       \<exists>r. find_run k db' = Some r \<and> rr_incident_id r = ir_incident_id i"
  shows "store_ok db'"
proof -
  have rid: "map rr_run_id (db_runs db') = map rr_run_id (db_runs db) @ map rr_run_id new"
    using same by (simp add: runs map_update_where_on run_same_def)
  have iid: "map ir_incident_id (db_incidents db') = map ir_incident_id (db_incidents db) @ map ir_incident_id newi"
    using ids by (simp add: inc map_update_where_on)
  have fr: "find_run k db' = Some (if P r then f r else r)" if "find_run k db = Some r" for k r
    using find_run_update [of P db f db' new k] same runs that by (simp add: run_same_def)
  have fi: "find_incident k db' = Some (if Q i then g i else i)" if "find_incident k db = Some i" for k i
  proof -
    have "find_row ir_incident_id k (update_where Q g (db_incidents db)) = Some (if Q i then g i else i)"
      using find_incident_update [of Q db g "db\<lparr>db_incidents := update_where Q g (db_incidents db)\<rparr>" k] ids that by simp
    then show ?thesis by (simp add: inc find_row_append)
  qed
  have "distinct (map rr_run_id (db_runs db'))" "distinct (map ir_incident_id (db_incidents db'))"
    unfolding rid iid using ok fresh by (auto simp: store_ok_def)
  moreover have "runs_ok db'"
    unfolding runs_ok_def
  proof
    fix r' assume "r' \<in> set (db_runs db')"
    then consider "r' \<in> set new" | r where "r \<in> set (db_runs db)" "r' = (if P r then f r else r)"
      unfolding runs set_append set_update_where by blast
    then show "\<exists>i. find_incident (rr_incident_id r') db' = Some i \<and> pair_ok r' i"
    proof cases
      case 1
      then show ?thesis by (rule new_pairs)
    next
      case 2
      with ok obtain i where i: "find_incident (rr_incident_id r) db = Some i" "pair_ok r i"
        unfolding store_ok_def runs_ok_def by blast
      moreover have "rr_incident_id r' = rr_incident_id r" using 2 same by (simp add: run_same_def)
      ultimately show ?thesis using fi [OF i(1)] old_pairs [OF 2(1) i] 2(2) by simp
    qed
  qed
  moreover have "current_runs_ok db'"
  proof -
    have "\<exists>r. find_run k db' = Some r \<and> rr_incident_id r = ir_incident_id i'"
      if i': "i' \<in> set (db_incidents db')" "ir_current_run_id i' = Some k" for i' k
    proof -
      from i'(1) consider "i' \<in> set newi" | i where "i \<in> set (db_incidents db)" "i' = (if Q i then g i else i)"
        unfolding inc set_append set_update_where by blast
      then show ?thesis
      proof cases
        case 1
        with i' show ?thesis by (intro new_current)
      next
        case 2
        then have id: "ir_incident_id i' = ir_incident_id i" using ids by simp
        from current [OF 2(1)] i'(2) 2(2) consider "ir_current_run_id i = Some k"
          | "\<exists>r. find_run k db' = Some r \<and> rr_incident_id r = ir_incident_id i" by blast
        then show ?thesis
        proof cases
          case 1
          with current_runs_okD 2(1) ok obtain r where "find_run k db = Some r" "rr_incident_id r = ir_incident_id i"
            unfolding store_ok_def by blast
          with fr [OF this(1)] same find_row_in_set [OF this(1)] id show ?thesis by (auto simp: run_same_def)
        qed (simp add: id)
      qed
    qed
    then show ?thesis by (fastforce simp: current_runs_ok_def split: option.split)
  qed
  ultimately show ?thesis by (simp add: store_ok_def)
qed

lemma store_okD:
  assumes "store_ok db"
  shows "distinct (map rr_run_id (db_runs db))" "distinct (map ir_incident_id (db_incidents db))" "runs_ok db" "current_runs_ok db"
  using assms by (simp_all add: store_ok_def)

lemma finished_when_cancelled:
  assumes "store_ok db" and "find_incident k db = Some i" and "ir_state i = IS_cancelled" and "r \<in> set (db_runs db)"
    and "rr_incident_id r = k"
  shows "\<not> unfinished r"
  using assms unfolding store_ok_def runs_ok_def pair_ok_def by fastforce

lemma find_incident_unique:
  "store_ok db \<Longrightarrow> find_incident k db = Some i \<Longrightarrow> i' \<in> set (db_incidents db) \<Longrightarrow> ir_incident_id i' = k \<Longrightarrow> i' = i"
  using find_row_distinct [of ir_incident_id "db_incidents db" i'] by (auto simp: store_ok_def)

text \<open>A decision that opens a successor, or leaves the incident cancelled, leaves no Run of it unfinished.\<close>

lemma decided_stops:
  assumes ok: "store_ok db" and i: "find_incident k db = Some i"
    and f: "\<And>r. r \<in> set (db_runs db) \<Longrightarrow> P r \<Longrightarrow> decided_run k n r (f r)"
    and stop: "ir_state i = IS_cancelled \<or> stops_all k P f" and r: "r \<in> set (db_runs db)" "rr_incident_id r = k"
  shows "\<not> unfinished (if P r then f r else r)"
  using stop
proof
  assume "ir_state i = IS_cancelled"
  with finished_when_cancelled [OF ok i this r] f [OF r(1)] show ?thesis by (auto simp: decided_run_def)
next
  assume "stops_all k P f"
  with r(2) f [OF r(1)] show ?thesis by (auto simp: stops_all_def decided_run_def)
qed

lemma decided_pair:
  assumes r: "pair_ok r i" "P r \<Longrightarrow> decided_run k (ir_control_generation i + 1) r (f r)" and i': "decided_incident k i i'"
    and stop: "new \<noteq> [] \<or> ir_state i' = IS_cancelled \<Longrightarrow> \<not> unfinished (if P r then f r else r)" and new: "new_runs_ok k i i' new db"
  shows "pair_ok (if P r then f r else r) i'"
proof -
  have "unfinished (if P r then f r else r) \<Longrightarrow> unfinished r" using r(2) by (auto simp: decided_run_def split: if_splits)
  with assms show ?thesis
    by (auto simp: pair_ok_def decided_run_def decided_incident_def new_runs_ok_def run_same_def lease_bounded_def)
qed

lemma decided_find:
  assumes ok: "store_ok db" and i: "find_incident k db = Some i" and g: "decided_incident k i (g i)"
    and inc: "db_incidents db' = update_where (\<lambda>x. ir_incident_id x = k) g (db_incidents db)"
  shows "x \<in> set (db_incidents db) \<Longrightarrow> ir_incident_id x = k \<Longrightarrow> x = i \<and> ir_incident_id (g x) = ir_incident_id x"
    and "find_incident k db' = Some (g i)"
proof -
  show u: "x = i \<and> ir_incident_id (g x) = ir_incident_id x" if "x \<in> set (db_incidents db)" "ir_incident_id x = k" for x
    using find_incident_unique [OF ok i that] g that(2) by (simp add: decided_incident_def)
  show "find_incident k db' = Some (g i)"
    using find_incident_update [OF _ inc, of k] u i find_row_key [OF i] by simp
qed

lemma store_ok_decided:
  assumes "decided k db db'" and ok: "store_ok db"
  shows "store_ok db'"
  using assms(1)
proof cases
  case (decidedI i P f new g c)
  let ?Q = "\<lambda>x. ir_incident_id x = k"
  note find = decided_find [OF ok decidedI(1,5,4)]
  show ?thesis
  proof (rule store_okI [where newi = "[]", OF decidedI(2) _ _ _ _ _ _ _ ok])
    show "db_incidents db' = update_where ?Q g (db_incidents db) @ []" using decidedI by simp
    show "run_same r (f r)" if "r \<in> set (db_runs db)" "P r" for r using decidedI(3) that by (simp add: decided_run_def)
    show "ir_incident_id (g x) = ir_incident_id x" if "x \<in> set (db_incidents db)" "?Q x" for x using find(1) that by blast
    show "distinct (map rr_run_id new)" "rr_run_id ` set new \<inter> rr_run_id ` set (db_runs db) = {}"
      using decidedI(6) by (auto simp: new_runs_ok_def)
    show "pair_ok (if P r then f r else r) (if ?Q x then g x else x)"
      if r: "r \<in> set (db_runs db)" "find_incident (rr_incident_id r) db = Some x" "pair_ok r x" for r x
    proof (cases "rr_incident_id r = k")
      case True
      with r(2) decidedI(1) find_row_key [OF r(2)] have x: "x = i" "?Q x" by simp_all
      from decided_pair [where P = P and f = f, OF _ decidedI(3) [OF r(1)] decidedI(5)
          decided_stops [OF ok decidedI(1,3) decidedI(7) r(1) True] decidedI(6)] r(3) x show ?thesis by simp
    next
      case False
      with decidedI(3) [OF r(1)] have "\<not> P r" by (auto simp: decided_run_def)
      moreover have "\<not> ?Q x" using find_row_key [OF r(2)] False by simp
      ultimately show ?thesis using r(3) by simp
    qed
    show "\<exists>x. find_incident (rr_incident_id r) db' = Some x \<and> pair_ok r x" if "r \<in> set new" for r
      using that decidedI(6) find(2) by (auto simp: new_runs_ok_def pair_ok_def lease_bounded_def)
    show "ir_current_run_id x = Some j \<or> (\<exists>r. find_run j db' = Some r \<and> rr_incident_id r = ir_incident_id x)"
      if x: "x \<in> set (db_incidents db)" "ir_current_run_id (if ?Q x then g x else x) = Some j" for x j
    proof (cases "?Q x \<and> new \<noteq> []")
      case True
      with find(1) x have "x = i" by blast
      with True decidedI(6) x(2) obtain r0 where r0: "new = [r0]" "j = rr_run_id r0" "j \<notin> rr_run_id ` set (db_runs db)" "rr_incident_id r0 = k"
        by (auto simp: new_runs_ok_def)
      have "find_run j db' = Some r0"
        using find_run_update [of P db f db' new j] decidedI(2,3) r0(1,2) r0(3) [folded find_row_None_iff]
        by (simp add: decided_run_def run_same_def)
      with r0 True show ?thesis by simp
    next
      case False
      with x find(1) decidedI(6) show ?thesis by (auto simp: new_runs_ok_def split: if_splits)
    qed
  qed simp_all
qed

lemma store_ok_core:
  assumes "core_step db db'" and ok: "store_ok db"
  shows "store_ok db'"
  using assms(1)
proof cases
  case (work P f Q g)
  show ?thesis
  proof (rule store_okI [where new = "[]" and newi = "[]", OF _ _ _ _ _ _ _ _ ok])
    show "db_runs db' = update_where P f (db_runs db) @ []" "db_incidents db' = update_where Q g (db_incidents db) @ []"
      using work by simp_all
    show "run_same r (f r)" if "r \<in> set (db_runs db)" "P r" for r using work(2) that by (simp add: work_run_def)
    show "ir_incident_id (g i) = ir_incident_id i" if "i \<in> set (db_incidents db)" "Q i" for i
      using work(4) that by (simp add: work_incident_def)
    show "pair_ok (if P r then f r else r) (if Q i then g i else i)"
      if "r \<in> set (db_runs db)" "find_incident (rr_incident_id r) db = Some i" "pair_ok r i" for r i
      using pair_ok_work [OF that(3,2)] work(2,4) that(1) find_row_in_set [OF that(2)] by auto
    show "ir_current_run_id i = Some k \<or> (\<exists>r. find_run k db' = Some r \<and> rr_incident_id r = ir_incident_id i)"
      if "i \<in> set (db_incidents db)" "ir_current_run_id (if Q i then g i else i) = Some k" for i k
      using that work(4) by (auto simp: work_incident_def split: if_splits)
  qed simp_all
next
  case (decision k)
  then show ?thesis using ok by (rule store_ok_decided)
next
  case (intake new i)
  have nr: "find_run (rr_run_id r) db' = Some r" if "new = [r]" for r
    using that intake(1,2) by (auto simp: first_run_ok_def find_row_append find_row_None_iff [THEN iffD2])
  have ni: "find_incident (ir_incident_id i) db' = Some i"
    using intake(3,4) by (simp add: find_row_append find_row_None_iff [THEN iffD2])
  show ?thesis
  proof (rule store_okI [where P = "\<lambda>r. False" and Q = "\<lambda>i. False" and f = id and g = id and new = new and newi = "[i]", OF _ _ _ _ _ _ _ _ ok])
    show "\<exists>i. find_incident (rr_incident_id x) db' = Some i \<and> pair_ok x i" if "x \<in> set new" for x
      using that ni intake by (auto simp: first_run_ok_def pair_ok_def lease_bounded_def)
    show "\<exists>x. find_run k db' = Some x \<and> rr_incident_id x = ir_incident_id j" if "j \<in> set [i]" "ir_current_run_id j = Some k" for j k
      using that nr intake by (auto simp: first_run_ok_def)
  qed (use intake in \<open>auto simp: update_where_cong_id first_run_ok_def\<close>)
qed

subsection \<open>Generations, epochs and ownership only move forward\<close>

definition incident_next :: "incident_row \<Rightarrow> incident_row \<Rightarrow> bool" where
  "incident_next i i' \<longleftrightarrow> ir_incident_id i' = ir_incident_id i \<and> ir_control_generation i \<le> ir_control_generation i'
     \<and> (ir_mode i = M_human_owned \<longrightarrow> ir_mode i' = M_human_owned)
     \<and> (ir_control_generation i' = ir_control_generation i \<longrightarrow> ir_target_id i' = ir_target_id i \<and> ir_mode i' = ir_mode i
          \<and> ir_current_run_id i' = ir_current_run_id i)"

definition run_next :: "run_row \<Rightarrow> run_row \<Rightarrow> bool" where
  "run_next r r' \<longleftrightarrow> run_same r r' \<and> rr_epoch r \<le> rr_epoch r' \<and> (unfinished r' \<longrightarrow> unfinished r)"

lemma decided_incident_next:
  assumes "decided k' db db'" and ok: "store_ok db" and "find_incident k db = Some i"
  shows "\<exists>i'. find_incident k db' = Some i' \<and> incident_next i i'"
  using assms(1)
proof cases
  case (decidedI i0 P f new g c)
  note find = decided_find [OF ok decidedI(1,5,4)]
  have f: "find_incident k db' = Some (if ir_incident_id i = k' then g i else i)"
    using find_incident_update [OF _ decidedI(4), of k] find(1) assms(3) by simp
  show ?thesis
  proof (cases "ir_incident_id i = k'")
    case True
    with find(1) [OF find_row_in_set [OF assms(3)]] have "i = i0" by simp
    with f True decidedI(5) show ?thesis by (simp add: incident_next_def decided_incident_def)
  qed (use f in \<open>simp add: incident_next_def\<close>)
qed

lemma decided_generation:
  assumes "decided k db db'" and "store_ok db"
  shows "\<exists>i i'. find_incident k db = Some i \<and> find_incident k db' = Some i' \<and>
     ir_control_generation i' = ir_control_generation i + 1"
  using assms(1)
proof cases
  case (decidedI i P f new g c)
  with decided_find(2) [OF assms(2) decidedI(1,5,4)] show ?thesis by (auto simp: decided_incident_def)
qed

lemma core_incident:
  assumes "core_step db db'" and ok: "store_ok db" and "find_incident k db = Some i"
  shows "\<exists>i'. find_incident k db' = Some i' \<and> incident_next i i'"
  using assms(1)
proof cases
  case (work P f Q g)
  have "find_incident k db' = Some (if Q i then g i else i)"
    using find_incident_update [OF _ work(3), of k] work(4) assms(3) by (auto simp: work_incident_def)
  with work(4) [OF find_row_in_set [OF assms(3)]] show ?thesis by (auto simp: incident_next_def work_incident_def)
next
  case (decision k')
  then show ?thesis using ok assms(3) by (rule decided_incident_next)
next
  case (intake new i0)
  with assms(3) show ?thesis by (simp add: find_row_append incident_next_def)
qed

lemma core_run:
  assumes "core_step db db'" and "find_run k db = Some r"
  shows "\<exists>r'. find_run k db' = Some r' \<and> run_next r r'"
  using assms(1)
proof cases
  case (work P f Q g)
  have "find_run k db' = Some (if P r then f r else r)"
    using find_run_update [of P db f db' "[]" k] work(1,2) assms(2) by (simp add: work_run_def run_same_def)
  with work(2) [OF find_row_in_set [OF assms(2)]] show ?thesis by (auto simp: run_next_def work_run_def run_same_def)
next
  case (decision k')
  then show ?thesis
  proof cases
    case (decidedI i0 P f new g c)
    have "find_run k db' = Some (if P r then f r else r)"
      using find_run_update [of P db f db' new k] decidedI(2,3) assms(2) by (simp add: decided_run_def run_same_def)
    with decidedI(3) [OF find_row_in_set [OF assms(2)]] show ?thesis by (auto simp: run_next_def decided_run_def run_same_def)
  qed
next
  case (intake new i0)
  with assms(2) show ?thesis by (simp add: find_row_append run_next_def run_same_def)
qed

lemma core_gates: "core_step db db' \<Longrightarrow> gates_step db db'"
  by (auto elim!: core_step.cases decided.cases)

lemma core_inputs: "core_step db db' \<Longrightarrow> inputs_step db db'"
  by (auto elim!: core_step.cases decided.cases)

lemma joined_target_generation:
  "sc_target_generation (joined_scope db i) = (case ir_target_id i of None \<Rightarrow> 0 | Some t \<Rightarrow> target_generation t db)"
  by (simp add: joined_scope_def target_generation_def Let_def split: option.split)

text \<open>Once superseded, a lease stays superseded.\<close>

lemma superseded_core:
  assumes "core_step db db'" and ok: "store_ok db" and s: "superseded db lease"
  shows "superseded db' lease"
proof -
  from s obtain r i where r: "find_run (le_run_id lease) db = Some r" and i: "find_incident (rr_incident_id r) db = Some i"
    and c: "le_control_generation lease < ir_control_generation i \<or> le_epoch lease < rr_epoch r
        \<or> le_global_suspension_generation lease < db_global_generation db
        \<or> (le_control_generation lease = ir_control_generation i
            \<and> le_target_suspension_generation lease < sc_target_generation (joined_scope db i))"
    by (auto simp: superseded_def run_join_Some_iff split: option.splits)
  from core_run [OF assms(1) r] obtain r' where r': "find_run (le_run_id lease) db' = Some r'" "run_next r r'" by blast
  from core_incident [OF assms(1) ok i] obtain i' where i': "find_incident (rr_incident_id r) db' = Some i'" "incident_next i i'" by blast
  from r'(2) have e: "rr_epoch r \<le> rr_epoch r'" and ri: "rr_incident_id r' = rr_incident_id r"
    by (simp_all add: run_next_def run_same_def)
  from i'(2) have g: "ir_control_generation i \<le> ir_control_generation i'" by (simp add: incident_next_def)
  from core_gates [OF assms(1)] have gg: "db_global_generation db \<le> db_global_generation db'" by (simp add: gates_step_def)
  have t: "sc_target_generation (joined_scope db i) \<le> sc_target_generation (joined_scope db' i')"
    if "ir_control_generation i' = ir_control_generation i"
    using that i'(2) core_gates [OF assms(1)]
    by (auto simp: incident_next_def joined_target_generation gates_step_def split: option.split)
  have "run_join db' (le_run_id lease) = Some (r', i')" using r' ri i' by (simp add: run_join_Some_iff)
  with c e g gg t show ?thesis unfolding superseded_def by (auto dest: order_le_imp_less_or_eq)
qed

lemma upto_snoc: "0 \<le> n \<Longrightarrow> [1..n] @ [n + 1] = [1..n + 1 :: int]"
  by (simp add: upto_rec2)

lemma audit_ok_core:
  assumes "core_step db db'" and ok: "store_ok db" and a: "audit_ok db"
  shows "audit_ok db'"
proof -
  have known: "\<forall>c \<in> set (db_controls db). find_incident (ca_incident_id c) db' \<noteq> None"
    using a core_incident [OF assms(1) ok] unfolding audit_ok_def by (metis option.distinct(1) option.exhaust)
  have "\<forall>c \<in> set (db_controls db). raises c \<longrightarrow> ca_resulting_generation c = ca_expected_generation c + 1"
    using a by (simp add: audit_ok_def)
  with assms(1) have by_one: "\<forall>c \<in> set (db_controls db'). raises c \<longrightarrow> ca_resulting_generation c = ca_expected_generation c + 1"
    by (cases rule: core_step.cases) (auto simp: notes_step_def elim!: decided.cases)
  have old: "audit_of (ir_incident_id i) db = [1..ir_control_generation i] \<and> 0 \<le> ir_control_generation i"
    if "i \<in> set (db_incidents db)" for i using a that by (simp add: audit_ok_def)
  show ?thesis using assms(1)
  proof cases
    case (work P f Q g)
    have "audit_of k db' = audit_of k db" for k using work(5) by (auto simp: audit_of_def notes_step_def)
    moreover have "\<forall>c \<in> set (db_controls db'). find_incident (ca_incident_id c) db' \<noteq> None"
    proof -
      have "find_incident k db' \<noteq> None" if "find_incident k db \<noteq> None" for k
        using that core_incident [OF assms(1) ok] by fastforce
      with work(5) known show ?thesis by (auto simp: notes_step_def)
    qed
    moreover have "\<exists>i \<in> set (db_incidents db). ir_incident_id i = ir_incident_id i' \<and> ir_control_generation i = ir_control_generation i'"
      if "i' \<in> set (db_incidents db')" for i'
      using that work(4) unfolding work(3) set_update_where work_incident_def by force
    ultimately show ?thesis using old by_one unfolding audit_ok_def by (metis (no_types, lifting))
  next
    case (decision k)
    then show ?thesis
    proof cases
      case (decidedI i P f new g c)
      have i: "i \<in> set (db_incidents db)" "ir_incident_id i = k" using find_row_SomeD [OF decidedI(1)] by blast+
      have other: "audit_of j db' = (if j = k then audit_of k db @ [ir_control_generation i + 1] else audit_of j db)" for j
        using decidedI(8,9,10,11) by (simp add: audit_of_def raises_def)
      have "0 \<le> ir_control_generation i' \<and> audit_of (ir_incident_id i') db' = [1..ir_control_generation i']"
        if i': "i' \<in> set (db_incidents db')" for i'
      proof -
        from i' obtain x where x: "x \<in> set (db_incidents db)" "i' = (if ir_incident_id x = k then g x else x)"
          unfolding decidedI(4) set_update_where by blast
        show ?thesis
        proof (cases "ir_incident_id x = k")
          case True
          with find_incident_unique [OF ok decidedI(1) x(1)] have "x = i" by simp
          with x True decidedI(5) have "ir_incident_id i' = k" "ir_control_generation i' = ir_control_generation i + 1"
            by (simp_all add: decided_incident_def)
          with old [OF i(1)] i(2) show ?thesis by (simp add: other upto_snoc)
        next
          case False
          with x old [OF x(1)] show ?thesis by (simp add: other)
        qed
      qed
      moreover have "find_incident (ca_incident_id c) db' \<noteq> None"
        using core_incident [OF assms(1) ok decidedI(1)] decidedI(9) by auto
      ultimately show ?thesis using known by_one decidedI(8) by (auto simp: audit_ok_def)
    qed
  next
    case (intake new i)
    have "filter (\<lambda>c. ca_incident_id c = ir_incident_id i \<and> raises c) (db_controls db) = []"
    proof -
      have "ca_incident_id c \<noteq> ir_incident_id i" if "c \<in> set (db_controls db)" for c
        using a that intake(4) [folded find_row_None_iff] by (auto simp: audit_ok_def)
      then show ?thesis by (simp add: filter_empty_conv)
    qed
    moreover have "audit_of k db' = audit_of k db" for k using intake by (simp add: audit_of_def)
    ultimately show ?thesis using known old by_one intake by (auto simp: audit_ok_def audit_of_def)
  qed
qed

lemma inputs_ok_step:
  assumes "inputs_step db db'" and "inputs_ok db"
  shows "inputs_ok db'"
  using assms(1) unfolding inputs_step_def
proof
  assume "db_inputs db' = db_inputs db"
  with assms(2) show ?thesis by (simp add: inputs_ok_def sequences_of_def)
next
  assume "\<exists>x. db_inputs db' = db_inputs db @ [x] \<and> in_sequence x = next_input_sequence (in_incident_id x) db"
  then obtain x where x: "db_inputs db' = db_inputs db @ [x]" "in_sequence x = next_input_sequence (in_incident_id x) db" by blast
  let ?k = "in_incident_id x"
  have "sequences_of ?k db = [1..int (length (sequences_of ?k db))]" using assms(2) unfolding inputs_ok_def by blast
  then have "in_sequence x = int (length (sequences_of ?k db)) + 1"
    using max_or_upto unfolding x(2) next_input_sequence_def sequences_of_def by metis
  with assms(2) show ?thesis
    by (auto simp: inputs_ok_def sequences_of_def x(1) upto_snoc [symmetric])
qed

end
