(* ===== verification/Store_System.thy ===== *)
theory Store_System
  imports Store_Core
begin

section \<open>Every operation is a step of the abstract machine\<close>

text \<open>
  \<open>store_step\<close> lists the operations that change the store, with any arguments, clock readings and fresh
  ids: one commit each, errors included. \<open>store_refines_core\<close> shows that each is a step of \<open>core_step\<close>; by
  induction the invariants hold in every reachable state, whatever operations interleave.
\<close>

definition same_core :: "db \<Rightarrow> db \<Rightarrow> bool" where
  "same_core db db' \<longleftrightarrow> db_runs db' = db_runs db \<and> db_incidents db' = db_incidents db \<and> db_controls db' = db_controls db
     \<and> db_inputs db' = db_inputs db \<and> db_global_suspended db' = db_global_suspended db
     \<and> db_global_generation db' = db_global_generation db \<and> db_target_suspensions db' = db_target_suspensions db"

lemma same_core_refl [simp]: "same_core db db"
  by (simp add: same_core_def)

lemma same_core_trans: "same_core a b \<Longrightarrow> same_core b c \<Longrightarrow> same_core a c"
  by (simp add: same_core_def)

lemma core_same: "same_core db db' \<Longrightarrow> core_step db db'"
  by (rule core_refl) (simp_all add: same_core_def)

lemma same_core_find:
  "same_core db db' \<Longrightarrow> find_run k db' = find_run k db" "same_core db db' \<Longrightarrow> find_incident k db' = find_incident k db"
  by (simp_all add: same_core_def)

lemma gates_same:
  "db_global_suspended db' = db_global_suspended db \<Longrightarrow> db_global_generation db' = db_global_generation db \<Longrightarrow>
   db_target_suspensions db' = db_target_suspensions db \<Longrightarrow> gates_step db db'"
  by (simp add: gates_step_def target_generation_def)

lemma inputs_same: "db_inputs db' = db_inputs db \<Longrightarrow> inputs_step db db'"
  by (simp add: inputs_step_def)

lemma core_transaction:
  "(\<And>x db'. r = Inr (x, db') \<Longrightarrow> core_step db db') \<Longrightarrow> core_step db (snd (transaction db r))"
  by (cases r) (auto simp: core_same)

text \<open>A write of Run rows alone.\<close>

lemma core_update_runs:
  assumes "same_core db db1" and "\<And>r. r \<in> set (db_runs db) \<Longrightarrow> P r \<Longrightarrow> work_run db r (f r)"
  shows "core_step db (update_runs e P f db1)"
  using assms(1) unfolding same_core_def
  by (intro work [where P = P and f = f and Q = "\<lambda>i. False" and g = id])
    (auto simp: assms(2) update_where_cong_id intro: inputs_same gates_same)

lemma run_by_id:
  "store_ok db \<Longrightarrow> find_run k db = Some r \<Longrightarrow> x \<in> set (db_runs db) \<Longrightarrow> rr_run_id x = k \<Longrightarrow> x = r"
  by (rule find_run_unique) (simp_all add: store_ok_def)

lemmas work_defs = work_run_def run_same_def lease_bounded_def unfinished_def UNFINISHED_def

lemma revoke_same: "revoke_authorized_sessions e n i db = Inr (ks, db') \<Longrightarrow> same_core db db'"
  using revoke_shape [of e n i db ks db'] by (auto simp: same_core_def)

lemma stale_same: "mark_stale_in e n i reason source db = Inr db' \<Longrightarrow> same_core db db'"
  using mark_stale_frame [of e n i reason source db db'] by (simp add: knowledge_only_def same_core_def)

subsection \<open>Worker operations\<close>

lemma core_claim:
  assumes ok: "store_ok db"
  shows "core_step db (snd (claim k run_id owner versions secs e db))"
proof (cases "lock_scope db (Some k) []")
  case (Inr sc)
  show ?thesis
  proof (cases "run_join db run_id")
    case (Some p)
    obtain r i where p: "p = (r, i)" by (cases p)
    with Some have r: "find_run run_id db = Some r" "find_incident (rr_incident_id r) db = Some i" "rr_run_id r = run_id"
      using run_join_SomeD [of db run_id r i] by auto
    have b: "core_step db (update_runs e (\<lambda>x. rr_run_id x = run_id \<and> rr_state x \<in> {R_queued, R_running})
                       (\<lambda>x. x\<lparr>rr_state := R_blocked\<rparr>) db)"
      by (rule core_update_runs) (auto simp: work_defs)
    have t: "core_step db (take_lease e secs (claim_lease owner r i (joined_scope db i)) db)"
      if "claim_guard r i (joined_scope db i) (env_now e) = None"
      unfolding take_lease_def
    proof (rule core_update_runs)
      fix x assume "x \<in> set (db_runs db)" "rr_run_id x = le_run_id (claim_lease owner r i (joined_scope db i))"
      with run_by_id [OF ok r(1)] r(3) have "x = r" by (simp add: claim_lease_def)
      moreover have "rr_state r \<in> {R_queued, R_running, R_blocked}"
        using that by (auto simp: claim_guard_def split: if_splits)
      ultimately show "work_run db x (x\<lparr>rr_state := R_running, rr_owner := Some (le_owner (claim_lease owner r i (joined_scope db i))),
          rr_epoch := le_epoch (claim_lease owner r i (joined_scope db i)),
          rr_control_generation := le_control_generation (claim_lease owner r i (joined_scope db i)),
          rr_lease_until := Some (min (env_later e + seconds_interval secs) (rr_deadline x))\<rparr>)"
        using r(2) by (auto simp: work_defs claim_lease_def)
    qed simp
    show ?thesis using Inr Some p b t by (auto simp: claim_def core_same split: option.splits)
  qed (simp add: claim_def Inr core_same)
qed (simp add: claim_def core_same)

text \<open>A write of one Run row, found by its id.\<close>

lemma core_update_run:
  assumes "store_ok db" and "find_run k db = Some r" and "same_core db db1"
    and "P r \<Longrightarrow> work_run db r (f r)"
  shows "core_step db (update_runs e (\<lambda>x. rr_run_id x = k \<and> P x) f db1)"
  using assms(3) by (rule core_update_runs) (use run_by_id [OF assms(1,2)] assms(4) in auto)

lemma core_update_run':
  assumes "store_ok db" and "find_run k db = Some r" and "same_core db db1" and "work_run db r (f r)"
  shows "core_step db (update_runs e (\<lambda>x. rr_run_id x = k) f db1)"
  using core_update_run [OF assms(1,2,3), of "\<lambda>x. True" f e] assms(4) by simp

lemma core_renew:
  assumes ok: "store_ok db"
  shows "core_step db (snd (renew_lease secs e lease db))"
  unfolding renew_lease_def
proof (rule core_transaction)
  fix t db' assume "renew_lease_in secs e lease db = Inr (t, db')"
  then obtain r where r: "find_run (le_run_id lease) db = Some r" "t \<le> rr_deadline r" "rr_state r = R_running"
    and db': "db' = update_runs e (\<lambda>x. rr_run_id x = le_run_id lease) (\<lambda>x. x\<lparr>rr_lease_until := Some t\<rparr>) db"
    by (auto simp: renew_lease_in_def Let_def run_join_Some_iff split: if_splits option.splits)
  show "core_step db db'" unfolding db' by (rule core_update_run' [OF ok r(1)]) (use r(2,3) in \<open>auto simp: work_defs\<close>)
qed

lemma core_block: "core_step db (snd (block e lease db))"
  unfolding block_def
proof (rule core_transaction)
  fix x db' assume "block_in e lease db = Inr (x, db')"
  then have db': "db' = update_runs e (\<lambda>r. rr_run_id r = le_run_id lease \<and> rr_state r = R_running)
        (\<lambda>r. r\<lparr>rr_state := R_blocked, rr_owner := None, rr_lease_until := None\<rparr>) db"
    by (auto simp: block_in_def bind_result_Inr_iff)
  show "core_step db db'" unfolding db' by (rule core_update_runs) (auto simp: work_defs)
qed

lemma core_park: "S \<subseteq> UNFINISHED \<Longrightarrow> core_step db (snd (park e k S db))"
  unfolding park_def snd_conv by (rule core_update_runs) (auto simp: work_defs)

lemma core_hand_off: "core_step db (snd (hand_off e lease db))"
  unfolding hand_off_def
  by (rule core_transaction) (auto simp: hand_off_in_def bind_result_Inr_iff UNFINISHED_def intro!: core_park split: if_splits)

lemma core_abandon: "core_step db (abandon e lease db)"
  unfolding abandon_def by (rule core_update_runs) (auto simp: work_defs)

lemma core_sweep_one: "core_step db (snd (transaction db (sweep_one e c db)))"
  by (rule core_transaction)
    (auto simp: sweep_one_def Let_def core_same UNFINISHED_def intro!: core_park split: if_splits option.splits)

lemma core_park_backlog_one: "core_step db (snd (park_backlog_one n e db))"
  by (auto simp: park_backlog_one_def Let_def core_same UNFINISHED_def intro!: core_park split: option.splits)

subsection \<open>Budgets, steps, rounds and publication\<close>

lemma core_reserve: "core_step db (snd (reserve_budget k a s e lease db))"
  unfolding reserve_budget_def
proof (rule core_transaction)
  fix x db' assume "reserve_budget_in k a s e lease db = Inr (x, db')"
  then consider "db' = db" | rs where "db' = update_runs e (\<lambda>r. rr_run_id r = le_run_id lease)
        (\<lambda>r. r\<lparr>rr_budget_reserved := rr_budget_reserved r + a\<rparr>) (db\<lparr>db_reservations := rs\<rparr>)"
    by (auto simp: reserve_budget_in_def split: if_splits sum.splits option.splits)
  then show "core_step db db'"
    by cases (auto simp: core_same same_core_def work_defs intro!: core_update_runs)
qed

lemma settle_column_core:
  "rr_run_id (settle_column s a r) = rr_run_id r" "rr_incident_id (settle_column s a r) = rr_incident_id r"
  "rr_deadline (settle_column s a r) = rr_deadline r" "rr_epoch (settle_column s a r) = rr_epoch r"
  "rr_state (settle_column s a r) = rr_state r" "rr_lease_until (settle_column s a r) = rr_lease_until r"
  "rr_control_generation (settle_column s a r) = rr_control_generation r"
  by (cases s; simp)+

lemma core_settle: "core_step db (snd (settle_budget k out s e lease db))"
  unfolding settle_budget_def
proof (rule core_transaction)
  fix x db' assume "settle_budget_in k out s e lease db = Inr (x, db')"
  then consider "db' = db" | rs target a where "db' = update_runs e (\<lambda>r. rr_run_id r = le_run_id lease)
        (settle_column target a) (db\<lparr>db_reservations := rs\<rparr>)"
    by (auto simp: settle_budget_in_def split: if_splits sum.splits option.splits)
  then show "core_step db db'"
    by cases (auto simp: core_same same_core_def work_defs settle_column_core intro!: core_update_runs)
qed

lemma core_charge: "core_step db (snd (charge_tool op s m ms k e lease db))"
  unfolding charge_tool_def
proof (rule core_transaction)
  fix x db' assume "charge_tool_in op s m ms k e lease db = Inr (x, db')"
  then consider cs where "db' = db\<lparr>db_charges := cs\<rparr>" | cs n y where "db' = update_runs e (\<lambda>r. rr_run_id r = le_run_id lease)
        (\<lambda>r. r\<lparr>rr_tool_operations_used := rr_tool_operations_used r + n, rr_tool_seconds_used := rr_tool_seconds_used r + y\<rparr>)
        (db\<lparr>db_charges := cs\<rparr>)"
    | cs y where "db' = update_runs e (\<lambda>r. rr_run_id r = le_run_id lease)
        (\<lambda>r. r\<lparr>rr_tool_seconds_used := rr_tool_seconds_used r + y\<rparr>) (db\<lparr>db_charges := cs\<rparr>)"
    by (auto simp: charge_tool_in_def Let_def bind_result_Inr_iff split: if_splits sum.splits option.splits)
  then show "core_step db db'"
    by cases (auto simp: core_same same_core_def work_defs intro!: core_update_runs)
qed

lemma late_result_same: "late_result e k key p g db = Inr db' \<Longrightarrow> same_core db db'"
  by (auto dest!: late_result_shape simp: same_core_def)

lemma record_late_same: "same_core db (snd (record_late e k key p g db))"
  by (auto simp: record_late_def late_result_same split: sum.split)

lemma outbox_same_core: "insert_entry e kind key i r vs fs db = Inr db' \<Longrightarrow> same_core db db'"
  by (auto dest!: insert_entry_Inr simp: same_core_def)

lemma core_commit_round: "same_core db0 db \<Longrightarrow> core_step db0 (commit_round e lease key db)"
  unfolding commit_round_def Let_def
  by (split option.split) (auto simp: work_defs same_core_def intro: core_same intro!: core_update_runs)

lemma core_commit_step: "core_step db (snd (commit_step key response e lease db))"
proof -
  have "core_step db (snd (transaction db (commit_step_in key response e lease r db)))" for r
  proof (rule core_transaction)
    fix x db' assume "commit_step_in key response e lease r db = Inr (x, db')"
    then consider "db' = db" | ss kk fs db1 where "insert_entry e ''model_step'' kk (le_incident_id lease) (Some (le_run_id lease))
        (rr_versions r) fs (db\<lparr>db_steps := ss\<rparr>) = Inr db1" "db' = commit_round e lease key db1"
      by (auto simp: commit_step_in_def Let_def bind_result_Inr_iff split: option.splits)
    then show "core_step db db'"
    proof cases
      case 2
      with outbox_same_core [OF this(1)] show ?thesis by (auto simp: same_core_def intro!: core_commit_round)
    qed (simp add: core_same)
  qed
  then show ?thesis
    by (auto simp: commit_step_def Let_def core_same record_late_same split: sum.split option.split)
qed

lemma core_commit_tool: "core_step db (snd (commit_tool sid n result e lease db))"
proof -
  have "core_step db (snd (transaction db (commit_tool_in sid n result e lease r s db)))" for r s
    by (rule core_transaction, rule core_same)
      (auto simp: commit_tool_in_def bind_result_Inr_iff same_core_def dest!: insert_entry_Inr split: option.splits bool.splits)
  then show ?thesis
    by (auto simp: commit_tool_def core_same record_late_same split: sum.split option.split)
qed

lemma core_begin_round: "core_step db (snd (begin_round key e lease db))"
  unfolding begin_round_def
  by (rule core_transaction, rule core_same)
    (auto simp: begin_round_in_def Let_def same_core_def freeze_round_def split: if_splits sum.splits option.splits)

lemma core_publish_write:
  "core_step db (publish_write conclusion e lease db)"
  unfolding publish_write_def
  by (rule work [where P = "\<lambda>r. rr_run_id r = le_run_id lease" and Q = "\<lambda>i. ir_incident_id i = le_incident_id lease"
       and f = "\<lambda>r. r\<lparr>rr_state := R_completed, rr_owner := None, rr_lease_until := None\<rparr>" and g = "\<lambda>i. i\<lparr>ir_conclusion := Some conclusion\<rparr>"])
    (simp_all add: work_defs work_incident_def inputs_same gates_same)

lemma core_publish: "core_step db (snd (publish conclusion sid e lease db))"
  unfolding publish_def
  by (rule core_transaction)
    (auto simp: publish_in_def late_publish_def bind_result_Inr_iff core_publish_write core_same late_result_same
       split: if_splits sum.splits option.splits)

subsection \<open>Intake, targets and suspension\<close>

lemma insert_run_Inr: "insert_run r db = Inr db' \<longleftrightarrow> rr_run_id r \<notin> rr_run_id ` set (db_runs db) \<and> db' = db\<lparr>db_runs := db_runs db @ [r]\<rparr>"
  by (auto simp: insert_run_def bind_result_Inr_iff insert_row_Inr_iff)

lemma insert_incident_True:
  "insert_incident e a db = Inr (True, db') \<Longrightarrow>
     it_incident_id a \<notin> ir_incident_id ` set (db_incidents db) \<and> db' = db\<lparr>db_incidents := db_incidents db @ [fresh_incident e a]\<rparr>"
  by (auto simp: insert_incident_def find_row_None_iff [symmetric] split: if_splits option.splits)

lemma insert_incident_False: "insert_incident e a db = Inr (False, db') \<Longrightarrow> db' = db"
  by (auto simp: insert_incident_def split: if_splits option.splits)

text \<open>What a successful intake leaves: nothing, or the incident with its first Run, both queued or both
  paused.\<close>

lemma accept_effect:
  assumes "accept_in e a db = Inr (b, db')"
  shows "(\<not> b \<and> db' = db) \<or> (b \<and> (\<exists>halted db1.
      intake_gates (it_target_id a) db = Inr halted \<and> find_intake (it_intake_key a) db = None \<and>
      it_incident_id a \<notin> ir_incident_id ` set (db_incidents db) \<and> it_run_id a \<notin> rr_run_id ` set (db_runs db) \<and>
      db1 = db\<lparr>db_incidents := db_incidents db @ [fresh_incident e a],
          db_runs := db_runs db @ [fresh_run (it_run_id a) (it_incident_id a) R_queued 0 (it_budget_limit a)
                (it_deadline a) (it_versions a) (it_input a)]\<rparr> \<and>
      db' = (if halted then pause_accepted e a db1 else db1)))"
proof (cases "find_intake (it_intake_key a) db")
  case (Some i)
  with assms show ?thesis by (auto simp: accept_in_def bind_result_Inr_iff split: if_splits)
next
  case None
  with assms obtain halted where h: "intake_gates (it_target_id a) db = Inr halted" "accept_new e a halted db = Inr (b, db')"
    by (auto simp: accept_in_def bind_result_Inr_iff split: if_splits)
  then obtain ins db1 where ins: "insert_incident e a db = Inr (ins, db1)" by (auto simp: accept_new_def bind_result_Inr_iff)
  show ?thesis
  proof (cases ins)
    case True
    with ins insert_incident_True [of e a db db1] h None show ?thesis
      by (auto simp: accept_new_def bind_result_Inr_iff insert_run_Inr split: if_splits option.splits)
  next
    case False
    with ins insert_incident_False [of e a db db1] h None show ?thesis
      by (auto simp: accept_new_def bind_result_Inr_iff split: if_splits option.splits)
  qed
qed

lemma core_accept_in: "core_step db (snd (transaction db (accept_in e a db)))"
proof (rule core_transaction)
  fix b db' assume "accept_in e a db = Inr (b, db')"
  from accept_effect [OF this] show "core_step db db'"
  proof (elim disjE conjE exE)
    fix halted db1
    let ?r = "fresh_run (it_run_id a) (it_incident_id a) R_queued 0 (it_budget_limit a) (it_deadline a) (it_versions a) (it_input a)"
    assume fresh: "it_incident_id a \<notin> ir_incident_id ` set (db_incidents db)" "it_run_id a \<notin> rr_run_id ` set (db_runs db)"
      and db1: "db1 = db\<lparr>db_incidents := db_incidents db @ [fresh_incident e a], db_runs := db_runs db @ [?r]\<rparr>"
      and db': "db' = (if halted then pause_accepted e a db1 else db1)"
    have runs: "update_where (\<lambda>r. rr_run_id r = it_run_id a) f (db_runs db @ [?r]) = db_runs db @ [f ?r]" for f
      using fresh(2) by (simp add: update_where_miss)
    have inc: "update_where (\<lambda>i. ir_incident_id i = it_incident_id a) f (db_incidents db @ [fresh_incident e a]) =
        db_incidents db @ [f (fresh_incident e a)]" for f
      using fresh(1) by (simp add: update_where_miss)
    show "core_step db db'"
    proof (cases halted)
      case True
      show ?thesis
        by (rule intake [where new = "[?r\<lparr>rr_state := R_paused\<rparr>]" and i = "(fresh_incident e a)\<lparr>ir_state := IS_paused\<rparr>"])
          (use fresh in \<open>simp_all add: first_run_ok_def db' db1 True pause_accepted_def update_incident_def runs inc
             inputs_same gates_same del: update_where_append\<close>)
    next
      case False
      show ?thesis
        by (rule intake [where new = "[?r]" and i = "fresh_incident e a"])
          (use fresh in \<open>simp_all add: first_run_ok_def db' db1 False inputs_same gates_same\<close>)
    qed
  qed (simp add: core_same)
qed

lemma core_accept: "core_step db (snd (accept e a db))"
  using core_accept_in by (simp add: accept_def)

lemma target_generation_append:
  "target_generation t (db\<lparr>db_target_suspensions := db_target_suspensions db @ [\<lparr>ts_target_id = k, ts_suspended = False, ts_generation = 0\<rparr>]\<rparr>)
     = target_generation t db"
  by (simp add: target_generation_def find_row_append split: option.split)

text \<open>A change of the suspension table alone that lowers no generation.\<close>

lemma core_suspensions:
  assumes "db_runs db' = db_runs db" "db_incidents db' = db_incidents db" "db_controls db' = db_controls db"
    "db_inputs db' = db_inputs db" "db_global_suspended db' = db_global_suspended db"
    "db_global_generation db' = db_global_generation db" "\<And>t. target_generation t db \<le> target_generation t db'"
  shows "core_step db db'"
  by (rule work [where P = "\<lambda>r. False" and Q = "\<lambda>i. False" and f = id and g = id])
    (simp_all add: assms update_where_cong_id inputs_same gates_step_def)

lemma insert_target_Inr:
  "insert_target k uid db = Inr db' \<Longrightarrow> \<exists>ts. db' = db\<lparr>db_targets := ts\<rparr>"
  by (auto simp: insert_target_def split: if_splits)

lemma insert_suspension_Inr:
  "insert_suspension k db = Inr db' \<Longrightarrow>
     db' = db\<lparr>db_target_suspensions := db_target_suspensions db @ [\<lparr>ts_target_id = k, ts_suspended = False, ts_generation = 0\<rparr>]\<rparr>"
  by (auto simp: insert_suspension_def bind_result_Inr_iff insert_row_Inr_iff)

lemma target_generation_cong: "db_target_suspensions db' = db_target_suspensions db \<Longrightarrow> target_generation t db' = target_generation t db"
  by (simp add: target_generation_def)

lemma registered_generation:
  assumes "insert_target k uid db = Inr db1" "insert_suspension k db1 = Inr db2"
  shows "target_generation t db2 = target_generation t db" "same_core db (db2\<lparr>db_target_suspensions := db_target_suspensions db\<rparr>)"
  using insert_target_Inr [OF assms(1)] insert_suspension_Inr [OF assms(2)]
    target_generation_append [of t db1 k] target_generation_cong [of db1 db t] by (auto simp: same_core_def)

lemma core_register: "core_step db (snd (register_target e uid t db))"
  unfolding register_target_def
proof (rule core_transaction)
  fix x db' assume "register_target_in e uid t db = Inr (x, db')"
  then consider "db' = db" | k db1 where "insert_target k uid db = Inr db1" "insert_suspension k db1 = Inr db'"
    by (auto simp: register_target_in_def Let_def bind_result_Inr_iff split: if_splits option.splits)
  then show "core_step db db'"
  proof cases
    case 2
    from registered_generation [OF 2] show ?thesis by (auto simp: same_core_def intro: core_suspensions)
  qed (simp add: core_same)
qed

lemma pause_shape:
  "db_runs (pause_runs e c db) = update_where (\<lambda>r. rr_state r \<in> PAUSABLE \<and> c r)
     (\<lambda>r. r\<lparr>rr_owner := None, rr_lease_until := None, rr_state := R_paused\<rparr>) (db_runs db)"
  "db_incidents (pause_runs e c db) = db_incidents db" "db_controls (pause_runs e c db) = db_controls db"
  "db_inputs (pause_runs e c db) = db_inputs db" "db_global_suspended (pause_runs e c db) = db_global_suspended db"
  "db_global_generation (pause_runs e c db) = db_global_generation db"
  "db_target_suspensions (pause_runs e c db) = db_target_suspensions db"
  by (simp_all add: pause_runs_def)

text \<open>Suspending pauses Runs and incidents and raises a generation.\<close>

lemma core_pause:
  assumes "same_core db (db1\<lparr>db_global_suspended := db_global_suspended db, db_global_generation := db_global_generation db,
      db_target_suspensions := db_target_suspensions db\<rparr>)" and "gates_step db db1"
  shows "core_step db (audit_suspension t s g a (pause_runs e c (pause_incidents d db1)))"
    and "core_step db (audit_suspension t s g a db1)"
proof -
  from assms(2) have g: "gates_step db (audit_suspension t s g a (pause_runs e c (pause_incidents d db1)))"
    "gates_step db (audit_suspension t s g a db1)"
    by (simp_all add: gates_step_def target_generation_def audit_suspension_def pause_shape pause_incidents_def)
  have w: "work_run db r (r\<lparr>rr_owner := None, rr_lease_until := None, rr_state := R_paused\<rparr>)" if "rr_state r \<in> PAUSABLE" for r
    using that by (auto simp: work_defs PAUSABLE_def)
  show "core_step db (audit_suspension t s g a (pause_runs e c (pause_incidents d db1)))"
    by (rule work [where P = "\<lambda>r. rr_state r \<in> PAUSABLE \<and> c r" and f = "\<lambda>r. r\<lparr>rr_owner := None, rr_lease_until := None, rr_state := R_paused\<rparr>"
        and g = "\<lambda>i. i\<lparr>ir_state := IS_paused\<rparr>"])
      (use assms g w in \<open>auto simp: same_core_def audit_suspension_def pause_shape pause_incidents_def inputs_step_def work_incident_def\<close>)
  show "core_step db (audit_suspension t s g a db1)"
    by (rule work [where P = "\<lambda>r. False" and Q = "\<lambda>i. False" and f = id and g = id])
      (use assms g in \<open>auto simp: same_core_def audit_suspension_def inputs_step_def update_where_cong_id\<close>)
qed

lemma core_global_suspension: "core_step db (snd (set_global_suspension s g a e db))"
  unfolding set_global_suspension_def
proof (rule core_transaction)
  fix n db' assume step: "set_global_suspension_in s g a e db = Inr (n, db')"
  let ?db1 = "db\<lparr>db_global_suspended := s, db_global_generation := db_global_generation db + 1\<rparr>"
  have g: "gates_step db ?db1" by (simp add: gates_step_def target_generation_def)
  have g0: "gates_step db db" by (simp add: gates_same)
  have s: "same_core db (?db1\<lparr>db_global_suspended := db_global_suspended db, db_global_generation := db_global_generation db,
      db_target_suspensions := db_target_suspensions db\<rparr>)" "same_core db (db\<lparr>db_global_suspended := db_global_suspended db,
      db_global_generation := db_global_generation db, db_target_suspensions := db_target_suspensions db\<rparr>)"
    by (simp_all add: same_core_def)
  show "core_step db db'"
    using step core_pause [OF s(1) g] core_pause(2) [OF s(2) g0]
    by (auto simp: set_global_suspension_in_def Let_def split: if_splits)
qed

lemma ensure_suspension_generation: "target_generation t (ensure_suspension k db) = target_generation t db"
  by (simp add: ensure_suspension_def target_generation_append)

lemma core_target_suspension: "core_step db (snd (set_target_suspension t u s g a e db))"
  unfolding set_target_suspension_def
proof (rule core_transaction)
  fix n db' assume "set_target_suspension_in t u s g a e db = Inr (n, db')"
  then obtain k db1 where k: "suspension_target t u e db = Inr (k, db1)"
    and gate: "set_target_gate k s g a e (ensure_suspension k db1) = Inr (n, db')"
    by (auto simp: set_target_suspension_in_def bind_result_Inr_iff)
  define db2 where "db2 = ensure_suspension k db1"
  have tg: "\<exists>ts. db1 = db\<lparr>db_targets := ts\<rparr>"
    using k by (auto simp: suspension_target_def bind_result_Inr_iff dest: insert_target_Inr
        intro: exI [of _ "db_targets db"] split: option.splits if_splits)
  have core2: "same_core db (db2\<lparr>db_target_suspensions := db_target_suspensions db\<rparr>)"
    using tg by (auto simp: db2_def ensure_suspension_def same_core_def)
  have gen2: "target_generation j db2 = target_generation j db" for j
    using tg target_generation_cong [of db1 db j] by (auto simp: db2_def ensure_suspension_generation)
  from gate obtain row where row: "find_suspension k db2 = Some row"
    by (auto simp: set_target_gate_def db2_def split: option.splits)
  let ?db3 = "db2\<lparr>db_target_suspensions := update_where (\<lambda>s. ts_target_id s = k)
     (\<lambda>x. x\<lparr>ts_suspended := s, ts_generation := ts_generation row + 1\<rparr>) (db_target_suspensions db2)\<rparr>"
  have "target_generation j ?db3 = (if j = k then ts_generation row + 1 else target_generation j db2)" for j
    using row find_row_key [OF row]
    by (auto simp: target_generation_def find_row_update_where dest: find_row_key split: option.splits)
  moreover have "target_generation k db2 = ts_generation row" using row by (simp add: target_generation_def)
  ultimately have gen3: "target_generation j db2 \<le> target_generation j ?db3" for j by simp
  have g: "gates_step db db2" "gates_step db ?db3"
    using core2 gen3 by (simp_all add: gates_step_def gen2 same_core_def)
  have s3: "same_core db (db2\<lparr>db_global_suspended := db_global_suspended db, db_global_generation := db_global_generation db,
      db_target_suspensions := db_target_suspensions db\<rparr>)"
    "same_core db (?db3\<lparr>db_global_suspended := db_global_suspended db, db_global_generation := db_global_generation db,
      db_target_suspensions := db_target_suspensions db\<rparr>)"
    using core2 by (simp_all add: same_core_def)
  show "core_step db db'"
    using gate [folded db2_def] row core_pause(2) [OF s3(1) g(1)] core_pause [OF s3(2) g(2)]
    by (auto simp: set_target_gate_def Let_def split: if_splits)
qed

subsection \<open>Human decisions\<close>

lemma record_control_Inr:
  assumes "record_control e k action expected resulting actor payload db = Inr db'"
  shows "\<exists>c. db' = db\<lparr>db_controls := db_controls db @ [c]\<rparr> \<and> ca_incident_id c = k \<and> ca_resulting_generation c = resulting
     \<and> ca_action c = action \<and> ca_expected_generation c = expected \<and> ca_actor c = actor"
  using assms by (auto simp: record_control_def bind_result_Inr_iff insert_row_Inr_iff)

lemma settle_decision_Inr:
  assumes "settle_decision e n d payload reason db = Inr db'"
  shows "\<exists>c. same_core (db\<lparr>db_controls := db_controls db @ [c]\<rparr>) db' \<and> ca_incident_id c = dc_incident_id d
     \<and> ca_resulting_generation c = dc_expected d + 1 \<and> ca_expected_generation c = dc_expected d"
  using assms record_control_Inr stale_same unfolding settle_decision_def bind_result_Inr_iff by metis

lemma move_runs_frame [simp]:
  "db_runs (move_runs e k S s nxt db) = update_where (\<lambda>r. rr_incident_id r = k \<and> rr_state r \<in> S)
       (\<lambda>r. r\<lparr>rr_state := s, rr_owner := None, rr_lease_until := None, rr_control_generation := nxt\<rparr>) (db_runs db)"
  "db_incidents (move_runs e k S s nxt db) = db_incidents db" "db_controls (move_runs e k S s nxt db) = db_controls db"
  "db_inputs (move_runs e k S s nxt db) = db_inputs db" "db_global_suspended (move_runs e k S s nxt db) = db_global_suspended db"
  "db_global_generation (move_runs e k S s nxt db) = db_global_generation db"
  "db_target_suspensions (move_runs e k S s nxt db) = db_target_suspensions db"
  by (simp_all add: move_runs_def)

lemma update_incident_frame [simp]:
  "db_incidents (update_incident k g db) = update_where (\<lambda>i. ir_incident_id i = k) g (db_incidents db)"
  "db_runs (update_incident k g db) = db_runs db" "db_controls (update_incident k g db) = db_controls db"
  "db_inputs (update_incident k g db) = db_inputs db" "db_global_suspended (update_incident k g db) = db_global_suspended db"
  "db_global_generation (update_incident k g db) = db_global_generation db"
  "db_target_suspensions (update_incident k g db) = db_target_suspensions db"
  by (simp_all add: update_incident_def)

lemma update_incident_twice:
  "(\<And>i. ir_incident_id (g i) = ir_incident_id i) \<Longrightarrow>
   update_where (\<lambda>i. ir_incident_id i = k) h (update_where (\<lambda>i. ir_incident_id i = k) g t) =
     update_where (\<lambda>i. ir_incident_id i = k) (h \<circ> g) t"
  by (induction t) auto

lemma decided_move:
  "S \<subseteq> UNFINISHED \<Longrightarrow> rr_incident_id r = k \<and> rr_state r \<in> S \<Longrightarrow>
   decided_run k nxt r (r\<lparr>rr_state := s, rr_owner := None, rr_lease_until := None, rr_control_generation := nxt\<rparr>)"
  by (auto simp: decided_run_def run_same_def unfinished_def)

lemma stops_all_move:
  "stops_all k (\<lambda>r. rr_incident_id r = k \<and> rr_state r \<in> UNFINISHED)
     (\<lambda>r. r\<lparr>rr_state := R_cancelled, rr_owner := None, rr_lease_until := None, rr_control_generation := nxt\<rparr>)"
  by (simp add: stops_all_def unfinished_def UNFINISHED_def)

text \<open>The decision step for a write that updates the incident, moves Runs from unfinished states and
  appends the audit row; \<open>db2\<close> is the database before the audit row.\<close>

lemma decided_step:
  assumes i: "find_incident k db = Some i"
    and inc: "db_incidents db2 = update_where (\<lambda>x. ir_incident_id x = k) g (db_incidents db)"
    and g: "ir_incident_id (g i) = ir_incident_id i" "ir_control_generation (g i) = ir_control_generation i + 1"
      "ir_mode i = M_human_owned \<longrightarrow> ir_mode (g i) = M_human_owned" "ir_current_run_id (g i) = ir_current_run_id i"
    and runs: "db_runs db2 = update_where (\<lambda>r. rr_incident_id r = k \<and> rr_state r \<in> S)
       (\<lambda>r. r\<lparr>rr_state := s, rr_owner := None, rr_lease_until := None, rr_control_generation := ir_control_generation i + 1\<rparr>) (db_runs db)"
    and S: "S \<subseteq> UNFINISHED" "ir_state (g i) = IS_cancelled \<Longrightarrow> ir_state i = IS_cancelled \<or> (S = UNFINISHED \<and> s = R_cancelled)"
    and fin: "db_runs db' = db_runs db2" "db_incidents db' = db_incidents db2" "db_controls db' = db_controls db @ [c]"
      "ca_incident_id c = k" "ca_resulting_generation c = ir_control_generation i + 1" "ca_expected_generation c = ir_control_generation i"
      "inputs_step db db'" "gates_step db db'"
  shows "decided k db db'"
proof (rule decidedI [where P = "\<lambda>r. rr_incident_id r = k \<and> rr_state r \<in> S" and new = "[]" and g = g, OF i])
  show "db_runs db' = update_where (\<lambda>r. rr_incident_id r = k \<and> rr_state r \<in> S)
       (\<lambda>r. r\<lparr>rr_state := s, rr_owner := None, rr_lease_until := None, rr_control_generation := ir_control_generation i + 1\<rparr>) (db_runs db) @ []"
    using runs fin by simp
  show "ir_state i = IS_cancelled \<or> stops_all k (\<lambda>r. rr_incident_id r = k \<and> rr_state r \<in> S)
       (\<lambda>r. r\<lparr>rr_state := s, rr_owner := None, rr_lease_until := None, rr_control_generation := ir_control_generation i + 1\<rparr>)"
    if "[] \<noteq> [] \<or> ir_state (g i) = IS_cancelled" using that S(2) stops_all_move by blast
qed (use assms find_row_key [OF i] in \<open>simp_all add: decided_move decided_incident_def new_runs_ok_def\<close>)

lemma update_where_False [simp]: "update_where (\<lambda>r. False) f t = t"
  by (simp add: update_where_cong_id)

text \<open>Closing, rebinding and merging: raise the generation, end the sessions, cancel every unfinished Run,
  then write the incident; \<open>db0\<close> may hold a newly registered target.\<close>

lemma decided_stop:
  assumes i: "find_incident (dc_incident_id d) db = Some i" "ir_control_generation i = dc_expected d"
    and db0: "same_core db (db0\<lparr>db_target_suspensions := db_target_suspensions db\<rparr>)" "\<And>t. target_generation t db0 = target_generation t db"
    and r: "revoke_authorized_sessions e 2 (dc_incident_id d) (bump (dc_incident_id d) (dc_expected d + 1) db0) = Inr (ks, db1)"
    and h: "\<And>x. ir_incident_id (h x) = ir_incident_id x" "\<And>x. ir_control_generation (h x) = ir_control_generation x"
      "\<And>x. ir_mode (h x) = ir_mode x" "\<And>x. ir_current_run_id (h x) = ir_current_run_id x"
    and s: "settle_decision e m d payload reason (update_incident (dc_incident_id d) h
         (move_runs e (dc_incident_id d) UNFINISHED R_cancelled (dc_expected d + 1) db1)) = Inr db3"
    and db': "same_core (db3\<lparr>db_inputs := db_inputs db'\<rparr>) db'" "inputs_step db db'"
  shows "decided (dc_incident_id d) db db'"
proof -
  from settle_decision_Inr [OF s] obtain c where c: "same_core ((update_incident (dc_incident_id d) h
      (move_runs e (dc_incident_id d) UNFINISHED R_cancelled (dc_expected d + 1) db1))\<lparr>db_controls := db_controls db1 @ [c]\<rparr>) db3"
    "ca_incident_id c = dc_incident_id d" "ca_resulting_generation c = dc_expected d + 1" "ca_expected_generation c = dc_expected d" by auto
  have ts: "db_target_suspensions db' = db_target_suspensions db0" "db_global_suspended db' = db_global_suspended db0"
    "db_global_generation db' = db_global_generation db0"
    using c(1) db'(1) revoke_same [OF r] by (simp_all add: same_core_def bump_def)
  have g: "gates_step db db'"
    using ts db0 target_generation_cong [of db' db0] by (simp add: gates_step_def same_core_def)
  show ?thesis
    by (rule decided_step [OF i(1), where ?db2.0 = db' and c = c and S = UNFINISHED and s = R_cancelled and
        g = "h \<circ> (\<lambda>x. x\<lparr>ir_control_generation := dc_expected d + 1\<rparr>)"])
      (use c i db0 db' g h revoke_same [OF r] in \<open>simp_all add: same_core_def bump_def update_incident_twice\<close>)
qed

lemma same_core_other: "same_core (db\<lparr>db_inputs := db_inputs db\<rparr>) db"
  by (simp add: same_core_def)

lemma settle_inputs: "settle_decision e n d payload reason db = Inr db' \<Longrightarrow> db_inputs db' = db_inputs db"
  by (auto dest!: settle_decision_Inr simp: same_core_def)

lemma revoke_inputs: "revoke_authorized_sessions e n i db = Inr (ks, db') \<Longrightarrow> db_inputs db' = db_inputs db"
  by (auto dest!: revoke_same simp: same_core_def)

lemma decided_close_reopen:
  assumes i: "find_incident (dc_incident_id d) db = Some i" "ir_control_generation i = dc_expected d"
    and step: "close_reopen e d a i db = Inr (n, db')"
  shows "decided (dc_incident_id d) db db'"
proof (cases "a = SA_close")
  case True
  with step obtain ks db1 m where r: "revoke_authorized_sessions e 2 (dc_incident_id d) (bump (dc_incident_id d) (dc_expected d + 1) db) = Inr (ks, db1)"
    and s: "settle_decision e m d (dc_payload d) ''control_generation_changed'' (update_incident (dc_incident_id d)
         (\<lambda>x. x\<lparr>ir_lifecycle := L_closed, ir_state := stopped_state i db1\<rparr>)
         (move_runs e (dc_incident_id d) UNFINISHED R_cancelled (dc_expected d + 1) db1)) = Inr db'"
    by (auto simp: close_reopen_def Let_def bind_result_Inr_iff split: if_splits)
  show ?thesis
    by (rule decided_stop [OF i _ _ r _ _ _ _ s])
      (use settle_inputs [OF s] revoke_inputs [OF r] in \<open>simp_all add: same_core_def inputs_same bump_def\<close>)
next
  case False
  with step obtain db2 m where
    db2: "db2 = update_incident (dc_incident_id d) (\<lambda>x. x\<lparr>ir_lifecycle := L_open, ir_state := ir_state i\<rparr>)
         (bump (dc_incident_id d) (dc_expected d + 1) db)"
    and s: "settle_decision e m d (dc_payload d) ''control_generation_changed'' db2 = Inr db'"
    by (auto simp: close_reopen_def Let_def bind_result_Inr_iff split: if_splits)
  from settle_decision_Inr [OF s] obtain c where c: "same_core (db2\<lparr>db_controls := db_controls db2 @ [c]\<rparr>) db'"
    "ca_incident_id c = dc_incident_id d" "ca_resulting_generation c = dc_expected d + 1" "ca_expected_generation c = dc_expected d" by blast
  show ?thesis
    by (rule decided_step [OF i(1), where ?db2.0 = db2 and c = c and S = "{}" and s = R_cancelled and
        g = "(\<lambda>x. x\<lparr>ir_lifecycle := L_open, ir_state := ir_state i\<rparr>) \<circ> (\<lambda>x. x\<lparr>ir_control_generation := dc_expected d + 1\<rparr>)"])
      (use c i in \<open>simp_all add: db2 same_core_def bump_def update_incident_twice inputs_same gates_same\<close>)
qed

lemma register_uid_core:
  assumes "register_uid_in e n uid db = Inr (k, db0)"
  shows "same_core db (db0\<lparr>db_target_suspensions := db_target_suspensions db\<rparr>) \<and> target_generation j db0 = target_generation j db"
proof -
  from assms consider "db0 = db" | db1 where "insert_target k uid db = Inr db1" "insert_suspension k db1 = Inr db0"
    by (auto simp: register_uid_in_def bind_result_Inr_iff split: option.splits)
  then show ?thesis
  proof cases
    case 2
    from registered_generation [OF this] show ?thesis by simp
  qed (simp add: same_core_def)
qed

lemma decided_rebind:
  assumes i: "find_incident (dc_incident_id d) db = Some i" "ir_control_generation i = dc_expected d"
    and step: "rebind e d uid t payload i db = Inr (n, db')"
  shows "decided (dc_incident_id d) db db'"
proof -
  from step obtain k db0 ks db1 m p where k: "(case t of Some t \<Rightarrow> Inr (t, db) | None \<Rightarrow> register_uid_in e 1 uid db) = Inr (k, db0)"
    and r: "revoke_authorized_sessions e 2 (dc_incident_id d) (bump (dc_incident_id d) (dc_expected d + 1) db0) = Inr (ks, db1)"
    and s: "settle_decision e m d p ''control_generation_changed'' (update_incident (dc_incident_id d)
         (\<lambda>x. x\<lparr>ir_lifecycle := L_open, ir_state := stopped_state i db1, ir_target_id := Some k\<rparr>)
         (move_runs e (dc_incident_id d) UNFINISHED R_cancelled (dc_expected d + 1) db1)) = Inr db'"
    by (auto simp: rebind_def Let_def bind_result_Inr_iff split: if_splits option.splits)
  have "same_core db (db0\<lparr>db_target_suspensions := db_target_suspensions db\<rparr>) \<and> (\<forall>j. target_generation j db0 = target_generation j db)"
    using k by (cases t) (auto dest: register_uid_core)
  then show ?thesis
    by (intro decided_stop [OF i _ _ r _ _ _ _ s])
      (use settle_inputs [OF s] revoke_inputs [OF r] in \<open>auto simp: same_core_def inputs_same bump_def\<close>)
qed

lemma append_input_effect:
  assumes "append_input_in e n k x content actor db = Inr (m, db')"
  shows "same_core (db\<lparr>db_inputs := db_inputs db'\<rparr>) db' \<and> inputs_step db db'"
  using assms stale_same
  by (fastforce simp: append_input_in_def bind_result_Inr_iff insert_input_def insert_row_Inr_iff same_core_def inputs_step_def
      split: option.splits if_splits)

lemma core_append_input: "core_step db (snd (append_input e k x content actor db))"
  unfolding append_input_def
proof (rule core_transaction)
  fix m db' assume "append_input_in e 2 k x content actor db = Inr (m, db')"
  from append_input_effect [OF this] show "core_step db db'"
    by (intro work [where P = "\<lambda>r. False" and Q = "\<lambda>i. False" and f = id and g = id])
      (auto simp: same_core_def intro: gates_same)
qed

lemma inputs_step_cong: "db_inputs db = db_inputs db1 \<Longrightarrow> inputs_step db db' \<Longrightarrow> inputs_step db1 db'"
  by (simp add: inputs_step_def next_input_sequence_def)

lemma decided_merge:
  assumes i: "find_incident (dc_incident_id d) db = Some i" "ir_control_generation i = dc_expected d"
    and step: "merge_into e d survivor payload i db = Inr (n, db')"
  shows "decided (dc_incident_id d) db db'"
proof -
  from step obtain ks db1 db2 m p where
    r: "revoke_authorized_sessions e 2 (dc_incident_id d) (bump (dc_incident_id d) (dc_expected d + 1) db) = Inr (ks, db1)"
    and s: "settle_decision e (2 + length ks) d p ''control_generation_changed'' (update_incident (dc_incident_id d)
         (\<lambda>x. x\<lparr>ir_lifecycle := L_closed, ir_state := stopped_state i db1, ir_merged_into_incident_id := Some survivor\<rparr>)
         (move_runs e (dc_incident_id d) UNFINISHED R_cancelled (dc_expected d + 1) db1)) = Inr db2"
    and a: "append_input_in e (2 + length ks + 2 * length (db_postmortem_versions db)) survivor
         (merge_input_id e (dc_incident_id d) survivor) (merge_event (dc_incident_id d) i db) (dc_actor d) db2 = Inr (m, db')"
    by (auto simp: merge_into_def Let_def bind_result_Inr_iff split: option.splits)
  have "db_inputs db2 = db_inputs db" using settle_inputs [OF s] revoke_inputs [OF r] by (simp add: bump_def)
  with append_input_effect [OF a] have "same_core (db2\<lparr>db_inputs := db_inputs db'\<rparr>) db'" "inputs_step db db'"
    using inputs_step_cong [of db2 db db'] by blast+
  then show ?thesis by (intro decided_stop [OF i _ _ r _ _ _ _ s]) (simp_all add: same_core_def)
qed

lemma decided_takeover:
  assumes i: "find_incident (dc_incident_id d) db = Some i" "ir_control_generation i = dc_expected d"
    and step: "takeover e d i db = Inr (n, db')"
  shows "decided (dc_incident_id d) db db'"
proof -
  let ?g = "\<lambda>x. x\<lparr>ir_control_generation := dc_expected d + 1, ir_mode := M_human_owned\<rparr>"
  let ?S = "if ir_mode i = M_human_owned then {} else {R_queued, R_running, R_paused, R_blocked}"
  from step obtain ks db1 m db2 where r: "revoke_authorized_sessions e 2 (dc_incident_id d) (update_incident (dc_incident_id d) ?g db) = Inr (ks, db1)"
    and db2: "db2 = (if ir_mode i = M_human_owned then db1
         else move_runs e (dc_incident_id d) {R_queued, R_running, R_paused, R_blocked} R_waiting_human (dc_expected d + 1) db1)"
    and s: "settle_decision e m d (dc_payload d) ''control_generation_changed'' db2 = Inr db'"
    by (auto simp: takeover_def Let_def bind_result_Inr_iff simp del: if_split)
  from settle_decision_Inr [OF s] obtain c where c: "same_core (db2\<lparr>db_controls := db_controls db2 @ [c]\<rparr>) db'"
    "ca_incident_id c = dc_incident_id d" "ca_resulting_generation c = dc_expected d + 1" "ca_expected_generation c = dc_expected d" by blast
  have S: "?S \<subseteq> UNFINISHED" by (simp add: UNFINISHED_def)
  show ?thesis
    by (rule decided_step [OF i(1), where ?db2.0 = db2 and c = c and S = ?S and s = R_waiting_human and g = ?g])
      (use c i S revoke_same [OF r] in \<open>simp_all add: db2 same_core_def inputs_same gates_same\<close>)
qed

text \<open>The Run part of a pause, resume, cancel or note: a move of unfinished Runs, or a successor.\<close>

lemma subject_runs_cases:
  assumes "subject_runs e k a nxt s rn r db = Inr db'"
  obtains (move) S st where "S \<subseteq> UNFINISHED" "a = SA_cancel \<Longrightarrow> S = UNFINISHED \<and> st = R_cancelled"
      "same_core (db\<lparr>db_runs := update_where (\<lambda>r. rr_incident_id r = k \<and> rr_state r \<in> S)
         (\<lambda>r. r\<lparr>rr_state := st, rr_owner := None, rr_lease_until := None, rr_control_generation := nxt\<rparr>) (db_runs db)\<rparr>) db'"
  | (renew) j deadline where "sd_renew s" "a \<noteq> SA_cancel" "\<not> sd_human_owned s" "j \<notin> rr_run_id ` set (db_runs db)"
      "same_core (db\<lparr>db_runs := update_where (\<lambda>r. rr_incident_id r = k \<and> rr_state r \<in> UNFINISHED)
         (\<lambda>r. r\<lparr>rr_state := R_cancelled, rr_owner := None, rr_lease_until := None, rr_control_generation := nxt\<rparr>) (db_runs db)
           @ [fresh_run j k (if sd_keep_paused s then R_paused else R_queued) nxt (rr_budget_limit r) deadline (rr_versions r) (rn_input rn)],
         db_incidents := update_where (\<lambda>i. ir_incident_id i = k)
           (\<lambda>x. x\<lparr>ir_current_run_id := Some j, ir_lifecycle := L_open, ir_conclusion := None\<rparr>) (db_incidents db)\<rparr>) db'"
proof -
  have m: thesis if "db' = move_runs e k S st nxt db" "S \<subseteq> UNFINISHED" "a = SA_cancel \<Longrightarrow> S = UNFINISHED \<and> st = R_cancelled" for S st
    using that by (intro move [of S st]) (simp_all add: same_core_def)
  have none: thesis if "db' = db" "a \<noteq> SA_cancel"
    using that by (intro move [of "{}" R_paused]) (simp_all add: same_core_def)
  have ids: "rr_run_id ` set (update_where (\<lambda>r. rr_incident_id r = k \<and> rr_state r \<in> S)
         (\<lambda>r. r\<lparr>rr_state := st, rr_owner := None, rr_lease_until := None, rr_control_generation := nxt\<rparr>) (db_runs db)) = rr_run_id ` set (db_runs db)" for S st
    unfolding set_map [symmetric] by (simp add: map_update_where)
  show thesis
  proof (cases "a \<noteq> SA_cancel \<and> \<not> sd_human_owned s \<and> sd_renew s")
    case True
    with assms obtain j deadline where "renew_run e k nxt (sd_keep_paused s) rn r db = Inr db'" "rn_run_id rn = Some j" "rn_deadline rn = Some deadline"
      by (auto simp: subject_runs_def renew_run_def split: option.splits)
    then show ?thesis using True
      by (intro renew [of j deadline]) (auto simp: renew_run_def bind_result_Inr_iff insert_run_Inr ids same_core_def)
  next
    case False
    with assms show ?thesis
      by (auto simp: subject_runs_def UNFINISHED_def intro: m none split: if_splits)
  qed
qed

lemma note_input_effect:
  assumes "note_input e d a db = Inr db'"
  shows "same_core (db\<lparr>db_inputs := db_inputs db'\<rparr>) db' \<and> inputs_step db db'"
  using assms by (auto simp: note_input_def insert_input_def bind_result_Inr_iff insert_row_Inr_iff same_core_def inputs_step_def
      split: if_splits)

lemma next_state_cancelled:
  "next_incident_state a s i = IS_cancelled \<Longrightarrow> a = SA_cancel \<or> (human_note a s \<and> ir_state i = IS_cancelled)"
  by (auto simp: next_incident_state_def split: if_splits)

lemma decided_apply_subject:
  assumes i: "find_incident (dc_incident_id d) db = Some i" "ir_control_generation i = dc_expected d"
    and step: "apply_subject e d rn a s i r db = Inr (n, db')"
  shows "decided (dc_incident_id d) db db'"
proof -
  let ?k = "dc_incident_id d" and ?n = "dc_expected d + 1"
  let ?g = "\<lambda>x. x\<lparr>ir_control_generation := ?n, ir_state := next_incident_state a s i\<rparr>"
  from step obtain ks db1 db2 db3 db4 m where
    r: "(if a \<in> {SA_pause, SA_cancel} \<or> sd_renew s then revoke_authorized_sessions e 2 ?k (update_incident ?k ?g db)
         else Inr ([], update_incident ?k ?g db)) = Inr (ks, db1)"
    and runs: "subject_runs e ?k a ?n s rn r db1 = Inr db2"
    and ctl: "record_control e ?k (dc_action d) (dc_expected d) ?n (dc_actor d) (dc_payload d) db2 = Inr db3"
    and inp: "note_input e d a db3 = Inr db4" and st: "mark_stale_in e m ?k (subject_reason a s) (''control.'' @ dc_action d) db4 = Inr db'"
    by (auto simp: apply_subject_def Let_def bind_result_Inr_iff simp del: if_split)
  have d1: "same_core (update_incident ?k ?g db) db1" using r revoke_same by (auto split: if_splits)
  from record_control_Inr [OF ctl] obtain c where c: "db3 = db2\<lparr>db_controls := db_controls db2 @ [c]\<rparr>" "ca_incident_id c = ?k"
    "ca_resulting_generation c = ?n" "ca_expected_generation c = dc_expected d" by blast
  have late: "same_core (db3\<lparr>db_inputs := db_inputs db'\<rparr>) db'" "inputs_step db3 db'"
    using note_input_effect [OF inp] stale_same [OF st] by (auto simp: same_core_def inputs_step_def)
  from runs show ?thesis
  proof (cases rule: subject_runs_cases)
    case (move S ss)
    have f: "inputs_step db db'" "gates_step db db'"
      using late move(3) d1 c(1) inputs_step_cong [of db3 db db'] by (simp_all add: same_core_def gates_same)
    show ?thesis
      by (rule decided_step [OF i(1), where ?db2.0 = db' and c = c and S = S and s = ss and g = ?g])
        (use move c i late d1 f next_state_cancelled [of a s i] in \<open>auto simp: same_core_def\<close>)
  next
    case (renew j deadline)
    have f: "inputs_step db db'" "gates_step db db'"
      using late renew(5) d1 c(1) inputs_step_cong [of db3 db db'] by (simp_all add: same_core_def gates_same)
    let ?h = "\<lambda>x. x\<lparr>ir_current_run_id := Some j, ir_lifecycle := L_open, ir_conclusion := None\<rparr>"
    have ns: "next_incident_state a s i \<noteq> IS_cancelled"
      using next_state_cancelled [of a s i] renew by (auto simp: human_note_def)
    show ?thesis
    proof (rule decidedI [OF i(1), where g = "?h \<circ> ?g" and c = c and P = "\<lambda>r. rr_incident_id r = ?k \<and> rr_state r \<in> UNFINISHED"])
      show "db_runs db' = update_where (\<lambda>r. rr_incident_id r = ?k \<and> rr_state r \<in> UNFINISHED)
         (\<lambda>r. r\<lparr>rr_state := R_cancelled, rr_owner := None, rr_lease_until := None, rr_control_generation := ?n\<rparr>) (db_runs db)
           @ [fresh_run j ?k (if sd_keep_paused s then R_paused else R_queued) ?n (rr_budget_limit r) deadline (rr_versions r) (rn_input rn)]"
        using renew late d1 c by (simp add: same_core_def)
      show "new_runs_ok ?k i ((?h \<circ> ?g) i) [fresh_run j ?k (if sd_keep_paused s then R_paused else R_queued) ?n (rr_budget_limit r)
           deadline (rr_versions r) (rn_input rn)] db"
        using renew(4) d1 ns by (simp add: new_runs_ok_def same_core_def)
      show "decided_run ?k (ir_control_generation i + 1) x
          (x\<lparr>rr_state := R_cancelled, rr_owner := None, rr_lease_until := None, rr_control_generation := ?n\<rparr>)"
        if "x \<in> set (db_runs db)" "rr_incident_id x = ?k \<and> rr_state x \<in> UNFINISHED" for x
        using decided_move [OF order_refl that(2), of ?n R_cancelled] i(2) by simp
    qed (use renew c i late d1 f stops_all_move find_row_key [OF i(1)] in
        \<open>simp_all add: same_core_def update_incident_twice decided_incident_def\<close>)
  qed
qed

lemma decided_subject:
  assumes "find_incident (dc_incident_id d) db = Some i" "ir_control_generation i = dc_expected d"
    and "subject_control e d rn a scope i db = Inr (n, db')"
  shows "decided (dc_incident_id d) db db'"
  using assms by (auto simp: subject_control_def Let_def intro: decided_apply_subject split: option.splits if_splits)

lemma control_in_InrE:
  assumes "control_in d rn e db = Inr (n, db')"
  obtains i a rebound survivor scope where "find_incident (dc_incident_id d) db = Some i" "ir_control_generation i = dc_expected d"
    "map_of store_actions (dc_action d) = Some a" "decide e d rn a rebound survivor scope i db = Inr (n, db')"
    "lock_scope db (Some (dc_incident_id d)) (extra_targets (snd rebound) survivor db) = Inr scope"
    "merge_request (Some a) d = Inr survivor" "rebind_request (Some a) d db = Inr rebound"
proof -
  let ?a = "map_of store_actions (dc_action d)"
  from assms obtain rebound survivor scope where rq: "rebind_request ?a d db = Inr rebound" "merge_request ?a d = Inr survivor"
    "lock_scope db (Some (dc_incident_id d)) (extra_targets (snd rebound) survivor db) = Inr scope"
    and c: "(case find_incident (dc_incident_id d) db of None \<Rightarrow> Inl E_UNKNOWN_IDENTITY
      | Some i \<Rightarrow> if ir_control_generation i \<noteq> dc_expected d then Inl E_CONTROL_CONFLICT
          else case ?a of None \<Rightarrow> Inl E_INVALID_INPUT | Some a \<Rightarrow> decide e d rn a rebound survivor scope i db) = Inr (n, db')"
    unfolding control_in_def Let_def bind_result_Inr_iff by blast
  from c that [OF _ _ _ _ rq(3)] rq show thesis
    by (cases "find_incident (dc_incident_id d) db"; cases ?a) (simp_all split: if_splits)
qed

lemma decide_cases:
  assumes "decide e d rn a rebound survivor scope i db = Inr (n, db')"
  shows "(a \<in> {SA_close, SA_reopen} \<and> close_reopen e d a i db = Inr (n, db'))
    \<or> (\<exists>uid t p. a = SA_rebind_target \<and> rebind e d uid t p i db = Inr (n, db'))
    \<or> (\<exists>k p. a = SA_merge_into \<and> survivor = Some k \<and> merge_into e d k p i db = Inr (n, db'))
    \<or> (a = SA_takeover \<and> takeover e d i db = Inr (n, db'))
    \<or> (a \<in> {SA_cancel, SA_pause, SA_resume, SA_follow_up, SA_correct} \<and> subject_control e d rn a scope i db = Inr (n, db'))"
  using assms by (cases a) (auto simp: decide_def Let_def split: if_splits option.splits)

lemma decided_control:
  assumes i: "find_incident (dc_incident_id d) db = Some i" "ir_control_generation i = dc_expected d"
    and "decide e d rn a rebound survivor scope i db = Inr (n, db')"
  shows "decided (dc_incident_id d) db db'"
  using decide_cases [OF assms(3)]
  by (elim disjE exE conjE)
    (erule decided_close_reopen [OF i] decided_rebind [OF i] decided_merge [OF i] decided_takeover [OF i] decided_subject [OF i])+

lemma core_control: "core_step db (snd (control d rn e db))"
  unfolding control_def by (rule core_transaction, erule control_in_InrE, rule decision, rule decided_control)

lemma map_sum_Inr_iff: "map_sum id f r = Inr y \<longleftrightarrow> (\<exists>x. r = Inr x \<and> y = f x)"
  by (cases r) auto

lemma new_run_in_cases:
  assumes "new_run_in k j expected deadline limit versions actor inp payload e db = Inr (n, db')"
  obtains (replay) "db' = db"
  | (create) scope i where "find_incident k db = Some i" "ir_state i = IS_cancelled" "ir_control_generation i = expected"
      "lock_scope db (Some k) [] = Inr scope"
      "create_run e i scope j deadline limit versions actor inp payload db = Inr (n, db')"
proof (cases "lock_scope db (Some k) []")
  case (Inr scope)
  show ?thesis
  proof (cases "find_incident k db")
    case (Some i)
    show ?thesis
    proof (cases "List.find (\<lambda>r. rr_run_id r = j \<and> rr_incident_id r = k) (db_runs db)")
      case None
      with assms Inr Some show ?thesis by (intro create [OF Some _ _ Inr]) (auto simp: new_run_in_def split: if_splits)
    next
      case (Some r)
      with assms Inr \<open>find_incident k db = Some i\<close> show ?thesis
        by (intro replay) (auto simp: new_run_in_def map_sum_Inr_iff split: if_splits)
    qed
  qed (use assms Inr in \<open>simp add: new_run_in_def split: if_splits\<close>)
qed (use assms in \<open>simp add: new_run_in_def split: if_splits\<close>)

lemma decided_create_run:
  assumes i: "find_incident k db = Some i" "ir_state i = IS_cancelled"
    and step: "create_run e i scope j deadline limit versions actor inp payload db = Inr (n, db')"
  shows "decided k db db'"
proof -
  have k: "ir_incident_id i = k" using i(1) by (rule find_row_key)
  let ?n = "ir_control_generation i + 1" and ?s = "if suspended_scope scope then R_paused else R_queued"
  let ?r = "fresh_run j k ?s ?n limit deadline versions inp"
  let ?g = "\<lambda>x. x\<lparr>ir_state := (if suspended_scope scope then IS_paused else IS_queued), ir_lifecycle := L_open,
     ir_control_generation := ?n, ir_current_run_id := Some j, ir_conclusion := None\<rparr>"
  from step obtain db1 ks db2 db3 m reason where ins: "insert_run ?r db = Inr db1"
    and r: "revoke_authorized_sessions e 2 k db1 = Inr (ks, db2)"
    and ctl: "record_control e k ''new_run'' (?n - 1) ?n actor payload (update_incident k ?g db2) = Inr db3"
    and st: "mark_stale_in e m k reason ''new_run'' db3 = Inr db'"
    by (auto simp: create_run_def Let_def bind_result_Inr_iff k simp del: if_split)
  from record_control_Inr [OF ctl] obtain c where c: "db3 = (update_incident k ?g db2)\<lparr>db_controls := db_controls db2 @ [c]\<rparr>"
    "ca_incident_id c = k" "ca_resulting_generation c = ?n" "ca_expected_generation c = ?n - 1" by auto
  have f: "inputs_step db db'" "gates_step db db'"
    using ins revoke_same [OF r] c(1) stale_same [OF st] by (simp_all add: same_core_def insert_run_Inr inputs_same gates_same)
  show ?thesis
  proof (rule decidedI [OF i(1), where g = ?g and c = c and P = "\<lambda>r. False" and f = id and new = "[?r]"])
    show "new_runs_ok k i (?g i) [?r] db" using ins by (simp add: new_runs_ok_def insert_run_Inr)
  qed (use i k c f ins revoke_same [OF r] stale_same [OF st] in
      \<open>simp_all add: same_core_def insert_run_Inr decided_incident_def\<close>)
qed

lemma core_new_run: "core_step db (snd (new_run k j expected deadline limit versions actor inp payload e db))"
  unfolding new_run_def
proof (rule core_transaction)
  fix n db' assume "new_run_in k j expected deadline limit versions actor inp payload e db = Inr (n, db')"
  then show "core_step db db'"
    by (cases rule: new_run_in_cases) (auto simp: core_same intro: decision decided_create_run)
qed

end
