(* ===== verification/Store_Alerts.thy ===== *)
theory Store_Alerts
  imports Store_System
begin

section \<open>Alert intake (\<open>persistence/alerts.py\<close>, \<open>persistence/correlation.py\<close>)\<close>

text \<open>
  \<open>record_alert\<close> records one delivery of an alert in one transaction: the first firing delivery of an
  identity opens an incident (with its first Run, or none for a handoff) unless an open incident takes
  it as an event; every later delivery of the identity adds its audit row only. \<open>correlate\<close> picks the
  incident: the candidates stand for the ends of their merge chains, \<open>choose_correlation\<close> takes the
  latest open one. An opening names its priority; the default of 2 is the caller's.

  The advisory lock on the fingerprint and the row locks make the transaction atomic, but for the statements
  of the correlation that read without a lock: the target, the candidates and each round of merge pointers.
  They come before the rows are locked and other transactions may commit in between, so the operations take
  what each of them saw as an argument: \<open>seen n\<close> is the database at the statement after which \<open>n\<close> more
  unlocked statements follow, \<open>db\<close> the one whose rows were locked. \<open>record_alert\<close> is the case where nothing
  was committed in between, \<open>record_alert_reading\<close> the operation with any interference.
\<close>

subsection \<open>The shared rule (\<open>correlation.py\<close>)\<close>

definition MERGE_CHAIN_LIMIT :: nat where "MERGE_CHAIN_LIMIT = 16"

record CorrelationCandidate =
  cc_incident_id :: uuid
  cc_lifecycle :: IncidentLifecycle
  cc_created_at :: time

record Correlation =
  co_attach_to :: "uuid option"
  co_related_to :: "uuid option"

definition candidate_key :: "CorrelationCandidate \<Rightarrow> time \<times> uuid" where
  "candidate_key c = (cc_created_at c, cc_incident_id c)"

definition latest :: "CorrelationCandidate list \<Rightarrow> uuid option" where
  "latest rows = (case rows of [] \<Rightarrow> None
     | r # rs \<Rightarrow> Some (cc_incident_id (fold (\<lambda>x m. if candidate_key m < candidate_key x then x else m) rs r)))"

definition choose_correlation :: "CorrelationCandidate list \<Rightarrow> Correlation" where
  "choose_correlation candidates =
     (let open_rows = filter (\<lambda>c. cc_lifecycle c \<noteq> L_closed) candidates in
      if open_rows \<noteq> [] then \<lparr>co_attach_to = latest open_rows, co_related_to = None\<rparr>
      else \<lparr>co_attach_to = None, co_related_to = latest candidates\<rparr>)"

text \<open>\<open>lock_merge_closure\<close>: the candidates and what their merge pointers lead to, in at most 16 rounds of
  unlocked reads, then the rows as the lock finds them.\<close>

type_synonym reads = "nat \<Rightarrow> db"

definition merge_pointers :: "uuid set \<Rightarrow> db \<Rightarrow> uuid set" where
  "merge_pointers frontier db =
     set (List.map_filter (\<lambda>i. if ir_incident_id i \<in> frontier then ir_merged_into_incident_id i else None) (db_incidents db))"

fun closure_loop :: "nat \<Rightarrow> uuid set \<Rightarrow> uuid set \<Rightarrow> reads \<Rightarrow> uuid set" where
  "closure_loop 0 frontier ids seen = ids"
| "closure_loop (Suc n) frontier ids seen = (if frontier = {} then ids
     else let pointers = merge_pointers frontier (seen n) in closure_loop n (pointers - ids) (ids \<union> pointers) seen)"

definition lock_merge_closure :: "reads \<Rightarrow> uuid list \<Rightarrow> db \<Rightarrow> uuid \<Rightarrow> incident_row option" where
  "lock_merge_closure seen candidates db k =
     (if k \<in> closure_loop MERGE_CHAIN_LIMIT (set candidates) (set candidates) seen then find_incident k db else None)"

text \<open>\<open>resolve_merged\<close>: each candidate stands for the end of its chain among the locked rows.\<close>

fun chase :: "nat \<Rightarrow> (uuid \<Rightarrow> incident_row option) \<Rightarrow> incident_row \<Rightarrow> perr + incident_row" where
  "chase 0 locked current = Inr current"
| "chase (Suc n) locked current = (case ir_merged_into_incident_id current of
      None \<Rightarrow> Inr current
    | Some p \<Rightarrow> (case locked p of None \<Rightarrow> Inl E_RETRY | Some nxt \<Rightarrow> chase n locked nxt))"

definition resolve_one :: "(uuid \<Rightarrow> incident_row option) \<Rightarrow> uuid option \<Rightarrow> uuid \<Rightarrow> perr + CorrelationCandidate option" where
  "resolve_one locked target_id k = (case locked k of
      None \<Rightarrow> Inr None
    | Some row \<Rightarrow> bind_result (chase MERGE_CHAIN_LIMIT locked row) (\<lambda>current.
        Inr (if ir_merged_into_incident_id current \<noteq> None \<or> ir_target_id current \<noteq> target_id then None
             else Some \<lparr>cc_incident_id = ir_incident_id current, cc_lifecycle = ir_lifecycle current,
                        cc_created_at = ir_created_at current\<rparr>)))"

text \<open>The dictionary by incident id keeps the first place of a key.\<close>

fun resolve_merged :: "(uuid \<Rightarrow> incident_row option) \<Rightarrow> uuid list \<Rightarrow> uuid option \<Rightarrow> perr + CorrelationCandidate list" where
  "resolve_merged locked [] target_id = Inr []"
| "resolve_merged locked (k # ks) target_id =
     bind_result (resolve_one locked target_id k) (\<lambda>found. bind_result (resolve_merged locked ks target_id) (\<lambda>rest.
       Inr (case found of None \<Rightarrow> rest | Some c \<Rightarrow> c # filter (\<lambda>x. cc_incident_id x \<noteq> cc_incident_id c) rest)))"

subsection \<open>A delivery\<close>

record alert =
  al_delivery_key :: string
  al_fingerprint :: string
  al_starts_at :: time
  al_starts_at_raw :: string
  al_status :: string
  al_actor :: string
  al_raw_sha256 :: string
  al_annotations_sha256 :: string
  al_alert_json :: string
  al_truncated :: bool
  al_received_at :: "time option"

record alert_opening =
  op_incident_id :: uuid
  op_intake_key :: string
  op_run_id :: "uuid option"
  op_resource_uid :: "string option"
  op_namespace :: "string option"
  op_workload :: "string option"
  op_deadline :: time
  op_budget_limit :: int
  op_versions :: "(string, string) fmap"
  op_input :: "json option"
  op_ledger :: "((string \<times> string) \<times> json) list"
  op_handoff_reason :: "string option"
  op_priority :: int

record alert_result =
  ar_outcome :: string
  ar_incident_id :: "uuid option"
  ar_run_id :: "uuid option"
  ar_handoff_reason :: "string option"
  ar_annotation_revision :: int
  ar_related_incident_id :: "uuid option"

definition OUTCOMES :: "string list" where
  "OUTCOMES = [''created'', ''replayed'', ''handoff_created'', ''handoff_replayed'', ''resolved_attached'',
     ''resolved_recorded'', ''attached'']"

definition HANDOFF_REASONS :: "string list" where
  "HANDOFF_REASONS = [''TARGET_UNRESOLVED'', ''TARGET_AMBIGUOUS'']"

subsection \<open>\<open>_correlate\<close>\<close>

definition opened_by_release :: "db \<Rightarrow> incident_row \<Rightarrow> bool" where
  "opened_by_release db i \<longleftrightarrow> (\<exists>l \<in> set (db_release_links db). rl_incident_id l = ir_incident_id i
     \<and> rl_disposition l \<in> {''created'', ''created_related''})"

definition opened_by_alert :: "string \<Rightarrow> string \<Rightarrow> db \<Rightarrow> incident_row \<Rightarrow> bool" where
  "opened_by_alert fingerprint resource_uid db i \<longleftrightarrow> (\<exists>a \<in> set (db_alert_identities db). ai_incident_id a = ir_incident_id i
     \<and> ai_fingerprint a = fingerprint \<and> ai_target_id a = Some resource_uid \<and> ai_handoff_reason a = None)"

definition claimed_by_other :: "string \<Rightarrow> db \<Rightarrow> uuid \<Rightarrow> bool" where
  "claimed_by_other fingerprint db k \<longleftrightarrow> (\<exists>d \<in> set (db_alert_deliveries db). ad_incident_id d = Some k
     \<and> ad_outcome d = ''attached'' \<and> ad_fingerprint d \<noteq> fingerprint)"

definition correlation_rows :: "string \<Rightarrow> string \<Rightarrow> uuid option \<Rightarrow> db \<Rightarrow> incident_row list" where
  "correlation_rows fingerprint resource_uid target_id db = sort_key ir_incident_id
     (filter (\<lambda>i. target_id \<noteq> None \<and> ir_target_id i = target_id
        \<and> (opened_by_alert fingerprint resource_uid db i \<or> opened_by_release db i)) (db_incidents db))"

text \<open>The decision, and the release-opened incidents this fingerprint may still claim. The candidates and their
  \<open>released\<close> flags are those of the unlocked read; the claims are read after the row locks.\<close>

abbreviation candidate_read :: "reads \<Rightarrow> db" where
  "candidate_read seen \<equiv> seen MERGE_CHAIN_LIMIT"

abbreviation target_read :: "reads \<Rightarrow> db" where
  "target_read seen \<equiv> seen (Suc MERGE_CHAIN_LIMIT)"

definition correlate_target :: "reads \<Rightarrow> string \<Rightarrow> string \<Rightarrow> uuid option \<Rightarrow> db \<Rightarrow> perr + Correlation \<times> uuid list" where
  "correlate_target seen fingerprint resource_uid target_id db =
     (let rows = correlation_rows fingerprint resource_uid target_id (candidate_read seen);
          released = map ir_incident_id (filter (opened_by_release (candidate_read seen)) rows);
          claimed = filter (claimed_by_other fingerprint db) released;
          ids = map ir_incident_id rows
      in bind_result (resolve_merged (lock_merge_closure seen ids db) (filter (\<lambda>k. k \<notin> set claimed) ids) target_id)
           (\<lambda>candidates. Inr (choose_correlation candidates, filter (\<lambda>k. k \<notin> set claimed) released)))"

definition correlate :: "reads \<Rightarrow> alert \<Rightarrow> alert_opening \<Rightarrow> db \<Rightarrow> perr + Correlation \<times> uuid list" where
  "correlate seen a op db = (case (op_run_id op, op_resource_uid op) of
      (Some _, Some uid) \<Rightarrow>
        (let target_id = map_option tg_target_id (find_row tg_resource_uid uid (db_targets (target_read seen))) in
         case target_id of
           Some t \<Rightarrow> if find_suspension t (target_read seen) = None then Inl E_INCONSISTENT_STATE
                     else correlate_target seen (al_fingerprint a) uid target_id db
         | None \<Rightarrow> correlate_target seen (al_fingerprint a) uid target_id db)
    | _ \<Rightarrow> Inr (\<lparr>co_attach_to = None, co_related_to = None\<rparr>, []))"

subsection \<open>\<open>_open\<close>\<close>

text \<open>The intake ledger rows, insert if absent.\<close>

fun ledger_rows :: "((string \<times> string) \<times> json) list \<Rightarrow> ((string \<times> string) \<times> json) list \<Rightarrow> ((string \<times> string) \<times> json) list" where
  "ledger_rows [] t = t"
| "ledger_rows (r # rs) t = ledger_rows rs (if fst r \<in> fst ` set t then t else t @ [r])"

definition opening_intake :: "alert_opening \<Rightarrow> uuid \<Rightarrow> uuid \<Rightarrow> uuid option \<Rightarrow> intake" where
  "opening_intake op run_id target_id related = \<lparr>it_incident_id = op_incident_id op, it_run_id = run_id,
     it_intake_key = op_intake_key op, it_deadline = op_deadline op, it_budget_limit = op_budget_limit op,
     it_versions = op_versions op, it_input = op_input op, it_target_id = Some target_id, it_priority = op_priority op,
     it_related_incident_id = related\<rparr>"

definition handoff_incident :: "env \<Rightarrow> alert_opening \<Rightarrow> uuid option \<Rightarrow> incident_row" where
  "handoff_incident e op related = \<lparr>ir_incident_id = op_incident_id op, ir_intake_key = op_intake_key op,
     ir_state = IS_waiting_human, ir_mode = M_automatic, ir_lifecycle = L_open, ir_control_generation = 0,
     ir_observation_generation = 0, ir_current_run_id = None, ir_conclusion = None, ir_target_id = None,
     ir_priority = op_priority op, ir_related_incident_id = related, ir_merged_into_incident_id = None,
     ir_created_at = env_later e\<rparr>"

definition insert_handoff :: "env \<Rightarrow> alert_opening \<Rightarrow> uuid option \<Rightarrow> db \<Rightarrow> perr + db" where
  "insert_handoff e op related db =
     (if \<not> check_priority (op_priority op) then Inl E_INVALID_INPUT
      else if related = Some (op_incident_id op) then Inl E_STORAGE_UNAVAILABLE
      else if find_incident (op_incident_id op) db \<noteq> None \<or> find_intake (op_intake_key op) db \<noteq> None then Inl E_IDENTITY_CONFLICT
      else if (case related of None \<Rightarrow> False | Some k \<Rightarrow> find_incident k db = None) then Inl E_STORAGE_UNAVAILABLE
      else Inr (db\<lparr>db_incidents := db_incidents db @ [handoff_incident e op related]\<rparr>))"

definition identity_row :: "alert \<Rightarrow> alert_opening \<Rightarrow> alert_identity_row" where
  "identity_row a op = \<lparr>ai_delivery_key = al_delivery_key a, ai_fingerprint = al_fingerprint a, ai_starts_at = al_starts_at a,
     ai_starts_at_raw = al_starts_at_raw a, ai_incident_id = op_incident_id op, ai_run_id = op_run_id op,
     ai_target_id = op_resource_uid op, ai_namespace = op_namespace op, ai_workload = op_workload op,
     ai_handoff_reason = op_handoff_reason op\<rparr>"

text \<open>The table's \<open>CHECK\<close>s, then its unique keys.\<close>

definition identity_checks :: "alert_identity_row \<Rightarrow> bool" where
  "identity_checks r \<longleftrightarrow> (case ai_handoff_reason r of None \<Rightarrow> True | Some x \<Rightarrow> x \<in> set HANDOFF_REASONS)
     \<and> (ai_handoff_reason r = None) = (ai_run_id r \<noteq> None) \<and> (ai_handoff_reason r = None) = (ai_target_id r \<noteq> None)"

definition insert_identity :: "alert_identity_row \<Rightarrow> db \<Rightarrow> perr + db" where
  "insert_identity r db =
     (if \<not> identity_checks r then Inl E_STORAGE_UNAVAILABLE
      else if (\<exists>x \<in> set (db_alert_identities db). ai_delivery_key x = ai_delivery_key r \<or> ai_incident_id x = ai_incident_id r
                \<or> (ai_fingerprint x = ai_fingerprint r \<and> ai_starts_at x = ai_starts_at r)) then Inl E_IDENTITY_CONFLICT
      else Inr (db\<lparr>db_alert_identities := db_alert_identities db @ [r]\<rparr>))"

definition open_subject :: "env \<Rightarrow> alert_opening \<Rightarrow> uuid option \<Rightarrow> db \<Rightarrow> perr + db" where
  "open_subject e op related db = (case op_run_id op of
      None \<Rightarrow> insert_handoff e op related db
    | Some run_id \<Rightarrow> (case op_resource_uid op of
        None \<Rightarrow> Inl E_UNCAUGHT
      | Some uid \<Rightarrow> bind_result (register_uid_in e 0 uid db) (\<lambda>(t, db1).
          bind_result (accept_in e (opening_intake op run_id t related) db1) (\<lambda>(_, db2).
            Inr (db2\<lparr>db_web_ledger := ledger_rows (op_ledger op) (db_web_ledger db2)\<rparr>)))))"

definition open_incident :: "env \<Rightarrow> alert \<Rightarrow> alert_opening \<Rightarrow> uuid option \<Rightarrow> db \<Rightarrow> alert_identity_row tx" where
  "open_incident e a op related db = bind_result (open_subject e op related db) (\<lambda>db1.
     bind_result (insert_identity (identity_row a op) db1) (\<lambda>db2. Inr (identity_row a op, db2)))"

subsection \<open>Attaching\<close>

definition escalate_priority :: "uuid \<Rightarrow> int \<Rightarrow> db \<Rightarrow> perr + db" where
  "escalate_priority incident_id priority db =
     (if \<not> check_priority priority then Inl E_INVALID_INPUT
      else Inr (db\<lparr>db_incidents := update_where (\<lambda>i. ir_incident_id i = incident_id \<and> priority < ir_priority i)
             (\<lambda>i. i\<lparr>ir_priority := priority\<rparr>) (db_incidents db)\<rparr>))"

definition starts_at_text :: "alert \<Rightarrow> string" where
  "starts_at_text a = iso_seconds (al_starts_at a) @ ''Z''"

definition attached_text :: "alert \<Rightarrow> bool \<Rightarrow> string" where
  "attached_text a release =
     ''Alertmanager alert '' @ al_fingerprint a @ (if release then '' fired with startsAt '' else '' fired again with startsAt '') @
     starts_at_text a @ '' (status '' @ al_status a @ '') on this incident's target; attached to this '' @
     (if release then ''release-anomaly incident'' else ''incident'') @ '' without a new Run.''"

definition attached_content :: "alert \<Rightarrow> int \<Rightarrow> bool \<Rightarrow> (string, json) fmap" where
  "attached_content a revision release = fmap_of_list
     [(''channel'', JStr ''alertmanager''), (''text'', JStr (attached_text a release)), (''fingerprint'', JStr (al_fingerprint a)),
      (''starts_at'', JStr (starts_at_text a)), (''status'', JStr (al_status a)), (''annotation_revision'', JInt revision),
      (''delivery_key'', JStr (al_delivery_key a))]"

definition append_attached_event :: "env \<Rightarrow> alert \<Rightarrow> uuid \<Rightarrow> int \<Rightarrow> bool \<Rightarrow> db \<Rightarrow> perr + db" where
  "append_attached_event e a incident_id revision release db =
     bind_result (append_input_in e 1 incident_id (env_uuid5 e (''attach:'' @ al_delivery_key a @ '':'' @ uuid_str incident_id))
         (attached_content a revision release) (al_actor a) db)
       (\<lambda>(_, db1). Inr db1)"

subsection \<open>\<open>record_alert\<close>\<close>

definition find_identity :: "string \<Rightarrow> db \<Rightarrow> alert_identity_row option" where
  "find_identity key db = find_row ai_delivery_key key (db_alert_identities db)"

definition first_attached :: "string \<Rightarrow> db \<Rightarrow> alert_delivery_row option" where
  "first_attached key db = (case sort_key ad_delivery_id
       (filter (\<lambda>d. ad_delivery_key d = key \<and> ad_outcome d = ''attached'') (db_alert_deliveries db)) of
      [] \<Rightarrow> None | d # ds \<Rightarrow> Some d)"

definition last_delivery :: "string \<Rightarrow> db \<Rightarrow> alert_delivery_row option" where
  "last_delivery key db = (case rev (sort_key ad_delivery_id
       (filter (\<lambda>d. ad_delivery_key d = key) (db_alert_deliveries db))) of
      [] \<Rightarrow> None | d # ds \<Rightarrow> Some d)"

definition next_revision :: "alert \<Rightarrow> db \<Rightarrow> int" where
  "next_revision a db = (case last_delivery (al_delivery_key a) db of
      None \<Rightarrow> 1
    | Some d \<Rightarrow> if ad_annotations_sha256 d = al_annotations_sha256 a then ad_annotation_revision d
        else ad_annotation_revision d + 1)"

definition sha256_shape :: "string \<Rightarrow> bool" where
  "sha256_shape s \<longleftrightarrow> length s = 64 \<and> list_all (\<lambda>c. c \<in> set ''0123456789abcdef'') s"

definition delivery_row :: "env \<Rightarrow> alert \<Rightarrow> alert_result \<Rightarrow> db \<Rightarrow> alert_delivery_row" where
  "delivery_row e a r db = \<lparr>ad_delivery_id = db_alert_seq db + 1, ad_delivery_key = al_delivery_key a,
     ad_fingerprint = al_fingerprint a, ad_starts_at = al_starts_at a, ad_starts_at_raw = al_starts_at_raw a,
     ad_status = al_status a, ad_outcome = ar_outcome r, ad_incident_id = ar_incident_id r, ad_actor = al_actor a,
     ad_received_at = (case al_received_at a of None \<Rightarrow> env_later e | Some t \<Rightarrow> t), ad_raw_sha256 = al_raw_sha256 a,
     ad_annotations_sha256 = al_annotations_sha256 a, ad_annotation_revision = ar_annotation_revision r,
     ad_alert_json = al_alert_json a, ad_truncated = al_truncated a\<rparr>"

definition delivery_checks :: "alert_delivery_row \<Rightarrow> bool" where
  "delivery_checks d \<longleftrightarrow> ad_status d \<in> {''firing'', ''resolved''} \<and> ad_outcome d \<in> set OUTCOMES \<and> sha256_shape (ad_raw_sha256 d)
     \<and> sha256_shape (ad_annotations_sha256 d) \<and> 1 \<le> ad_annotation_revision d \<and> length (ad_alert_json d) \<le> 16384"

definition insert_delivery :: "env \<Rightarrow> alert \<Rightarrow> alert_result \<Rightarrow> db \<Rightarrow> alert_result tx" where
  "insert_delivery e a r db =
     (if \<not> delivery_checks (delivery_row e a r db) then Inl E_STORAGE_UNAVAILABLE
      else Inr (r, db\<lparr>db_alert_deliveries := db_alert_deliveries db @ [delivery_row e a r db], db_alert_seq := db_alert_seq db + 1\<rparr>))"

definition identity_result :: "alert_identity_row \<Rightarrow> string \<Rightarrow> int \<Rightarrow> uuid option \<Rightarrow> alert_result" where
  "identity_result x outcome revision related = \<lparr>ar_outcome = outcome, ar_incident_id = Some (ai_incident_id x),
     ar_run_id = ai_run_id x, ar_handoff_reason = ai_handoff_reason x, ar_annotation_revision = revision,
     ar_related_incident_id = related\<rparr>"

definition plain_result :: "string \<Rightarrow> uuid option \<Rightarrow> int \<Rightarrow> alert_result" where
  "plain_result outcome incident_id revision = \<lparr>ar_outcome = outcome, ar_incident_id = incident_id, ar_run_id = None,
     ar_handoff_reason = None, ar_annotation_revision = revision, ar_related_incident_id = None\<rparr>"

text \<open>A firing delivery of an identity not seen before.\<close>

definition first_firing :: "reads \<Rightarrow> env \<Rightarrow> alert \<Rightarrow> alert_opening \<Rightarrow> int \<Rightarrow> db \<Rightarrow> alert_result tx" where
  "first_firing seen e a op revision db = bind_result (correlate seen a op db) (\<lambda>(c, released). case co_attach_to c of
      Some k \<Rightarrow> bind_result (append_attached_event e a k revision (k \<in> set released) db) (\<lambda>db1.
        bind_result (escalate_priority k (op_priority op) db1) (\<lambda>db2. Inr (plain_result ''attached'' (Some k) revision, db2)))
    | None \<Rightarrow> bind_result (open_incident e a op (co_related_to c) db) (\<lambda>(x, db1).
        Inr (identity_result x (if ai_run_id x \<noteq> None then ''created'' else ''handoff_created'') revision (co_related_to c), db1)))"

definition decide_alert :: "reads \<Rightarrow> env \<Rightarrow> alert \<Rightarrow> alert_opening option \<Rightarrow> db \<Rightarrow> alert_result tx" where
  "decide_alert seen e a opening db =
     (let revision = next_revision a db; firing = (al_status a = ''firing'') in
      case find_identity (al_delivery_key a) db of
        Some x \<Rightarrow> Inr (identity_result x (if firing then (if ai_run_id x \<noteq> None then ''replayed'' else ''handoff_replayed'')
                    else ''resolved_attached'') revision None, db)
      | None \<Rightarrow> (case first_attached (al_delivery_key a) db of
          Some d \<Rightarrow> Inr (plain_result (if firing then ''attached'' else ''resolved_attached'') (ad_incident_id d) revision, db)
        | None \<Rightarrow> if \<not> firing then Inr (plain_result ''resolved_recorded'' None revision, db)
            else (case opening of None \<Rightarrow> Inl E_INVALID_INPUT | Some op \<Rightarrow> first_firing seen e a op revision db)))"

definition record_alert_in :: "reads \<Rightarrow> env \<Rightarrow> alert \<Rightarrow> alert_opening option \<Rightarrow> db \<Rightarrow> alert_result tx" where
  "record_alert_in seen e a opening db =
     (if al_status a = ''firing'' \<and> opening = None then Inl E_INVALID_INPUT
      else bind_result (decide_alert seen e a opening db) (\<lambda>(r, db1). insert_delivery e a r db1))"

definition record_alert_reading :: "reads \<Rightarrow> env \<Rightarrow> alert \<Rightarrow> alert_opening option \<Rightarrow> db \<Rightarrow> alert_result outcome" where
  "record_alert_reading seen e a opening db = transaction db (record_alert_in seen e a opening db)"

definition record_alert :: "env \<Rightarrow> alert \<Rightarrow> alert_opening option \<Rightarrow> db \<Rightarrow> alert_result outcome" where
  "record_alert e a opening db = record_alert_reading (\<lambda>_. db) e a opening db"

subsection \<open>Recording an alert is a step of the abstract machine\<close>

text \<open>The tables the abstract machine sees are the same, the generations of the targets too.\<close>

definition core_equal :: "db \<Rightarrow> db \<Rightarrow> bool" where
  "core_equal db db' \<longleftrightarrow> same_core db (db'\<lparr>db_target_suspensions := db_target_suspensions db\<rparr>)
     \<and> (\<forall>t. target_generation t db' = target_generation t db)"

lemma core_equal_same: "same_core db db' \<Longrightarrow> core_equal db db'"
  by (simp add: core_equal_def same_core_def target_generation_def)

lemma core_equalD:
  assumes "core_equal db db'"
  shows "db_runs db' = db_runs db" "db_incidents db' = db_incidents db" "db_controls db' = db_controls db"
    "db_inputs db' = db_inputs db" "gates_step x db = gates_step x db'" "gates_step db x = gates_step db' x"
    "inputs_step x db = inputs_step x db'" "inputs_step db x = inputs_step db' x"
    "notes_step x db = notes_step x db'" "notes_step db x = notes_step db' x"
  using assms by (auto simp: core_equal_def same_core_def gates_step_def inputs_step_def next_input_sequence_def notes_step_def)

lemma core_step_equal:
  assumes "core_step db db'" and l: "core_equal db0 db" and r: "core_equal db' db1"
  shows "core_step db0 db1"
  using assms(1)
proof cases
  case (work P f Q g)
  then show ?thesis
    by (intro core_step.work [where P = P and f = f and Q = Q and g = g])
      (use core_equalD [OF l] core_equalD [OF r] in \<open>auto simp: work_run_def\<close>)
next
  case (decision k)
  then show ?thesis
  proof cases
    case (decidedI i P f new g c)
    then show ?thesis
      by (intro core_step.decision [of k] decided.decidedI [where i = i and P = P and f = f and new = new and g = g and c = c])
        (use core_equalD [OF l] core_equalD [OF r] in \<open>auto simp: new_runs_ok_def\<close>)
  qed
next
  case (intake new i)
  then show ?thesis
    by (intro core_step.intake [where new = new and i = i])
      (use core_equalD [OF l] core_equalD [OF r] in \<open>auto simp: first_run_ok_def\<close>)
qed

lemma core_equal_refl [simp]: "core_equal db db"
  by (simp add: core_equal_def)

lemma core_open_subject:
  assumes "open_subject e op related db = Inr db'"
  shows "core_step db db'"
proof (cases "op_run_id op")
  case None
  with assms have "insert_handoff e op related db = Inr db'" by (simp add: open_subject_def)
  then have fresh: "op_incident_id op \<notin> ir_incident_id ` set (db_incidents db)"
    and db': "db' = db\<lparr>db_incidents := db_incidents db @ [handoff_incident e op related]\<rparr>"
    by (auto simp: insert_handoff_def find_row_None_iff [symmetric] split: if_splits option.splits)
  show ?thesis
    by (rule intake [where new = "[]" and i = "handoff_incident e op related"])
      (use fresh in \<open>simp_all add: db' first_run_ok_def handoff_incident_def inputs_same gates_same\<close>)
next
  case (Some run_id)
  with assms obtain uid t db1 b db2 where r: "register_uid_in e 0 uid db = Inr (t, db1)"
    "accept_in e (opening_intake op run_id t related) db1 = Inr (b, db2)"
    "db' = db2\<lparr>db_web_ledger := ledger_rows (op_ledger op) (db_web_ledger db2)\<rparr>"
    by (auto simp: open_subject_def bind_result_Inr_iff split: option.splits)
  have "core_step db1 db2" using core_accept_in [of db1 e "opening_intake op run_id t related"] r(2) by simp
  moreover have "core_equal db db1" using register_uid_core [OF r(1)] by (simp add: core_equal_def)
  moreover have "core_equal db2 db'" by (simp add: r(3) core_equal_same same_core_def)
  ultimately show ?thesis by (rule core_step_equal)
qed

lemma core_open_incident: "open_incident e a op related db = Inr (x, db') \<Longrightarrow> core_step db db'"
  unfolding open_incident_def bind_result_Inr_iff
  by (auto dest!: core_open_subject simp: insert_identity_def core_equal_same same_core_def
      intro: core_step_equal [OF _ core_equal_refl] split: if_splits)

lemma core_attach:
  assumes "append_attached_event e a k revision rel db = Inr db1" and "escalate_priority k priority db1 = Inr db2"
  shows "core_step db db2"
proof -
  obtain m where "append_input_in e 1 k (env_uuid5 e (''attach:'' @ al_delivery_key a @ '':'' @ uuid_str k))
      (attached_content a revision rel) (al_actor a) db = Inr (m, db1)"
    using assms(1) by (auto simp: append_attached_event_def bind_result_Inr_iff)
  from append_input_effect [OF this] have a: "same_core (db\<lparr>db_inputs := db_inputs db1\<rparr>) db1" "inputs_step db db1" by blast+
  have db2: "db2 = db1\<lparr>db_incidents := update_where (\<lambda>i. ir_incident_id i = k \<and> priority < ir_priority i)
      (\<lambda>i. i\<lparr>ir_priority := priority\<rparr>) (db_incidents db1)\<rparr>"
    using assms(2) by (auto simp: escalate_priority_def split: if_splits)
  show ?thesis
    by (rule work [where P = "\<lambda>r. False" and f = id and Q = "\<lambda>i. ir_incident_id i = k \<and> priority < ir_priority i"
          and g = "\<lambda>i. i\<lparr>ir_priority := priority\<rparr>"])
      (use a in \<open>auto simp: db2 same_core_def update_where_cong_id work_incident_def inputs_step_def intro: gates_same\<close>)
qed

lemma core_record_alert: "core_step db (snd (record_alert_reading seen e a op db))"
  unfolding record_alert_reading_def
proof (rule core_transaction)
  fix r db' assume "record_alert_in seen e a op db = Inr (r, db')"
  then obtain db1 where d: "decide_alert seen e a op db = Inr (r, db1)" and i: "insert_delivery e a r db1 = Inr (r, db')"
    by (auto simp: record_alert_in_def bind_result_Inr_iff insert_delivery_def split: if_splits)
  have "core_step db db1"
  proof (cases "db1 = db")
    case False
    with d obtain op' where "first_firing seen e a op' (next_revision a db) db = Inr (r, db1)"
      by (auto simp: decide_alert_def Let_def split: option.splits if_splits)
    then show ?thesis
      by (auto simp: first_firing_def bind_result_Inr_iff split: option.splits intro: core_attach core_open_incident)
  qed (simp add: core_same)
  moreover have "core_equal db1 db'"
    using i by (auto simp: insert_delivery_def core_equal_same same_core_def split: if_splits)
  ultimately show "core_step db db'" by (rule core_step_equal [OF _ core_equal_refl])
qed

end
