(* ===== verification/Alert_Safety.thy ===== *)
theory Alert_Safety
  imports Store_Alerts
begin

section \<open>What alert intake promises\<close>

text \<open>
  The correlation of an alert is refused only when a merge pointer moved between its unlocked reads and its
  row locks, and otherwise ends at an incident that was not merged; a refiring alert joins the open incident of its fingerprint instead of opening a
  second one; a repeated delivery returns what the first one returned and adds its audit row only.
\<close>

subsection \<open>The correlation ends at an incident that is not merged\<close>

lemma merge_pointers_in:
  "i \<in> set (db_incidents db) \<Longrightarrow> ir_incident_id i \<in> F \<Longrightarrow> ir_merged_into_incident_id i = Some p \<Longrightarrow> p \<in> merge_pointers F db"
  by (auto simp: merge_pointers_def List.map_filter_def image_iff intro!: bexI [of _ i])

lemma closure_loop_mono: "ids \<subseteq> closure_loop n F ids seen"
proof (induction n arbitrary: F ids)
  case (Suc n)
  show ?case using Suc.IH [of "ids \<union> merge_pointers F (seen n)" "merge_pointers F (seen n) - ids"] by (auto simp: Let_def)
qed simp

text \<open>The merge pointers are foreign keys.\<close>

definition merge_keys_ok :: "db \<Rightarrow> bool" where
  "merge_keys_ok db \<longleftrightarrow> (\<forall>i \<in> set (db_incidents db). \<forall>p. ir_merged_into_incident_id i = Some p \<longrightarrow> find_incident p db \<noteq> None)"

lemma merge_target:
  assumes "merge_keys_ok db" and "i \<in> set (db_incidents db)" and "ir_merged_into_incident_id i = Some p"
  obtains nxt where "find_incident p db = Some nxt" "nxt \<in> set (db_incidents db)" "ir_incident_id nxt = p"
proof -
  from assms obtain nxt where "find_incident p db = Some nxt" unfolding merge_keys_ok_def by blast
  with that find_row_SomeD [OF this] show thesis by blast
qed

lemma chase_closed:
  assumes "merge_keys_ok db" and closed: "merge_pointers ids db \<subseteq> ids" and locked: "\<And>k. k \<in> ids \<Longrightarrow> locked k = find_incident k db"
    and "current \<in> set (db_incidents db)" "ir_incident_id current \<in> ids"
  shows "\<exists>i. chase n locked current = Inr i"
  using assms(4,5)
proof (induction n arbitrary: current)
  case (Suc n)
  show ?case
  proof (cases "ir_merged_into_incident_id current")
    case (Some p)
    obtain nxt where nxt: "find_incident p db = Some nxt" "nxt \<in> set (db_incidents db)" "ir_incident_id nxt = p"
      using merge_target [OF assms(1) Suc.prems(1) Some] .
    have "p \<in> ids" using merge_pointers_in [OF Suc.prems Some] closed by blast
    then show ?thesis using Some nxt locked Suc.IH [OF nxt(2)] by simp
  qed simp
qed simp

text \<open>A pointer of the locked state that one of the rounds did not see: it was set in between.\<close>

definition pointer_moved :: "reads \<Rightarrow> db \<Rightarrow> bool" where
  "pointer_moved seen db \<longleftrightarrow> (\<exists>n < MERGE_CHAIN_LIMIT. \<exists>i \<in> set (db_incidents db). \<exists>p. ir_merged_into_incident_id i = Some p
     \<and> p \<notin> merge_pointers {ir_incident_id i} (seen n))"

lemma serial_unmoved: "\<not> pointer_moved (\<lambda>_. db) db"
  by (auto simp: pointer_moved_def intro: merge_pointers_in)

lemma merge_pointers_mono: "F \<subseteq> G \<Longrightarrow> merge_pointers F db \<subseteq> merge_pointers G db"
  by (auto simp: merge_pointers_def List.map_filter_def)

lemma merge_pointersE:
  assumes "p \<in> merge_pointers F db"
  obtains i where "i \<in> set (db_incidents db)" "ir_incident_id i \<in> F" "ir_merged_into_incident_id i = Some p"
  using assms by (auto simp: merge_pointers_def List.map_filter_def split: if_splits)

text \<open>Without such a pointer a chain of at most \<open>n\<close> pointers stays within \<open>n\<close> rounds of the closure, so the
  locked rows hold it.\<close>

lemma chase_in_closure:
  assumes ok: "merge_keys_ok db" and step: "merge_pointers (ids - F) db \<subseteq> ids" and sub: "F \<subseteq> ids"
    and cur: "current \<in> set (db_incidents db)" "ir_incident_id current \<in> ids"
    and locked: "\<And>k. k \<in> closure_loop n F ids seen \<Longrightarrow> locked k = find_incident k db"
    and still: "\<And>m i p. m < n \<Longrightarrow> i \<in> set (db_incidents db) \<Longrightarrow> ir_merged_into_incident_id i = Some p \<Longrightarrow>
       p \<in> merge_pointers {ir_incident_id i} (seen m)"
  shows "\<exists>i. chase n locked current = Inr i"
  using step sub cur locked still
proof (induction n arbitrary: F ids current)
  case (Suc n)
  let ?P = "merge_pointers F (seen n)"
  show ?case
  proof (cases "F = {} \<or> ir_merged_into_incident_id current = None")
    case True
    with Suc.prems chase_closed [OF ok, of ids locked current "Suc n"] show ?thesis by auto
  next
    case False
    then obtain p where p: "ir_merged_into_incident_id current = Some p" by blast
    obtain nxt where nxt: "find_incident p db = Some nxt" "nxt \<in> set (db_incidents db)" "ir_incident_id nxt = p"
      using merge_target [OF ok Suc.prems(3) p] .
    have c: "closure_loop (Suc n) F ids seen = closure_loop n (?P - ids) (ids \<union> ?P) seen" using False by (simp add: Let_def)
    have covered: "merge_pointers ids db \<subseteq> ids \<union> ?P"
    proof
      fix q assume "q \<in> merge_pointers ids db"
      then obtain i where i: "i \<in> set (db_incidents db)" "ir_incident_id i \<in> ids" "ir_merged_into_incident_id i = Some q"
        by (rule merge_pointersE)
      show "q \<in> ids \<union> ?P"
      proof (cases "ir_incident_id i \<in> F")
        case True
        then show ?thesis using Suc.prems(6) [of n, OF _ i(1,3)] merge_pointers_mono [of "{ir_incident_id i}" F "seen n"] by auto
      next
        case False
        then show ?thesis using merge_pointers_in [OF i(1) _ i(3), of "ids - F"] i(2) Suc.prems(1) by auto
      qed
    qed
    then have pin: "p \<in> ids \<union> ?P" using merge_pointers_in [OF Suc.prems(3,4) p] by blast
    then have "p \<in> closure_loop (Suc n) F ids seen" unfolding c using closure_loop_mono by blast
    then have l: "locked p = Some nxt" using Suc.prems(5) nxt(1) by simp
    have "ids \<union> ?P - (?P - ids) = ids" by blast
    with covered have "merge_pointers (ids \<union> ?P - (?P - ids)) db \<subseteq> ids \<union> ?P" by simp
    moreover have "locked k = find_incident k db" if "k \<in> closure_loop n (?P - ids) (ids \<union> ?P) seen" for k
      using that Suc.prems(5) unfolding c by blast
    moreover have "q \<in> merge_pointers {ir_incident_id i} (seen m)"
      if "m < n" "i \<in> set (db_incidents db)" "ir_merged_into_incident_id i = Some q" for m i q
      using Suc.prems(6) [OF _ that(2,3)] that(1) by simp
    ultimately have "\<exists>i. chase n locked nxt = Inr i" using Suc.IH [OF _ _ nxt(2)] pin nxt(3) by blast
    with p l show ?thesis by simp
  qed
qed simp

lemma resolve_merged_total:
  assumes "merge_keys_ok db" and "\<not> pointer_moved seen db" and "set ks \<subseteq> set candidates"
  shows "\<exists>cs. resolve_merged (lock_merge_closure seen candidates db) ks t = Inr cs"
  using assms(3)
proof (induction ks)
  case (Cons k ks)
  have "\<exists>r. resolve_one (lock_merge_closure seen candidates db) t k = Inr r"
  proof (cases "lock_merge_closure seen candidates db k")
    case (Some i)
    then have i: "i \<in> set (db_incidents db)" "ir_incident_id i = k"
      by (auto simp: lock_merge_closure_def dest: find_row_SomeD split: if_splits)
    have "\<exists>j. chase MERGE_CHAIN_LIMIT (lock_merge_closure seen candidates db) i = Inr j"
      by (rule chase_in_closure [OF assms(1), of "set candidates" "set candidates" _ _ seen])
        (use i Cons.prems assms(2) in \<open>auto simp: merge_pointers_def List.map_filter_def lock_merge_closure_def pointer_moved_def\<close>)
    with Some show ?thesis by (auto simp: resolve_one_def)
  qed (simp add: resolve_one_def)
  with Cons show ?case by auto
qed simp

lemma chase_end: "chase n locked current = Inr i \<Longrightarrow> i = current \<or> (\<exists>k. locked k = Some i)"
  by (induction n arbitrary: current) (fastforce split: option.splits)+

text \<open>What a resolved candidate stands for.\<close>

definition stands_for :: "CorrelationCandidate \<Rightarrow> incident_row \<Rightarrow> bool" where
  "stands_for c i \<longleftrightarrow> cc_incident_id c = ir_incident_id i \<and> cc_lifecycle c = ir_lifecycle i \<and> cc_created_at c = ir_created_at i"

lemma resolve_merged_in:
  assumes "resolve_merged locked ks t = Inr cs" and "c \<in> set cs"
  shows "\<exists>k i. locked k = Some i \<and> stands_for c i \<and> ir_merged_into_incident_id i = None \<and> ir_target_id i = t"
  using assms
proof (induction ks arbitrary: cs)
  case (Cons k ks)
  from Cons.prems(1) obtain found rest where r: "resolve_one locked t k = Inr found" "resolve_merged locked ks t = Inr rest"
    "cs = (case found of None \<Rightarrow> rest | Some c \<Rightarrow> c # filter (\<lambda>x. cc_incident_id x \<noteq> cc_incident_id c) rest)"
    by (auto simp: bind_result_Inr_iff)
  show ?case
  proof (cases "c \<in> set rest")
    case False
    with r(3) Cons.prems(2) have "found = Some c" by (auto split: option.splits)
    with r(1) obtain row i where "locked k = Some row" "chase MERGE_CHAIN_LIMIT locked row = Inr i" "stands_for c i"
      "ir_merged_into_incident_id i = None" "ir_target_id i = t"
      by (auto simp: resolve_one_def bind_result_Inr_iff stands_for_def split: option.splits if_splits)
    with chase_end [of MERGE_CHAIN_LIMIT locked row i] show ?thesis by blast
  qed (use Cons.IH r(2) in blast)
qed simp

lemma fold_latest:
  "fold (\<lambda>x m. if candidate_key m < candidate_key x then x else m) rs r \<in> set (r # rs)
    \<and> (\<forall>x \<in> set (r # rs). candidate_key x \<le> candidate_key (fold (\<lambda>x m. if candidate_key m < candidate_key x then x else m) rs r))"
proof (induction rs arbitrary: r)
  case (Cons y rs)
  show ?case using Cons.IH [of "if candidate_key r < candidate_key y then y else r"] by (auto split: if_splits intro: order.trans)
qed simp

lemma latest_Some:
  assumes "latest rows = Some k"
  obtains c where "c \<in> set rows" "cc_incident_id c = k" "\<forall>x \<in> set rows. candidate_key x \<le> candidate_key c"
proof (cases rows)
  case (Cons r rs)
  with assms fold_latest [of rs r] that [of "fold (\<lambda>x m. if candidate_key m < candidate_key x then x else m) rs r"]
  show thesis by (simp add: latest_def)
qed (use assms in \<open>simp add: latest_def\<close>)

lemma choose_cases:
  assumes "choose_correlation cs = co"
  shows "(co_attach_to co \<noteq> None \<longleftrightarrow> (\<exists>c \<in> set cs. cc_lifecycle c \<noteq> L_closed)) \<and> (co_attach_to co \<noteq> None \<longrightarrow> co_related_to co = None)"
  using assms by (auto simp: choose_correlation_def Let_def latest_def filter_empty_conv split: list.splits if_splits)

lemma latest_in: "rows \<noteq> [] \<Longrightarrow> \<exists>c. c \<in> set rows \<and> latest rows = Some (cc_incident_id c)"
  using fold_latest by (cases rows) (auto simp: latest_def)

lemma correlate_rows:
  assumes "correlate seen a op db = r" and "r \<noteq> Inl E_INCONSISTENT_STATE"
  obtains "r = Inr (\<lparr>co_attach_to = None, co_related_to = None\<rparr>, [])" "op_run_id op = None \<or> op_resource_uid op = None"
  | uid where "op_resource_uid op = Some uid"
      "r = correlate_target seen (al_fingerprint a) uid (map_option tg_target_id (find_row tg_resource_uid uid (db_targets (target_read seen)))) db"
  using assms that by (fastforce simp: correlate_def Let_def split: option.splits if_splits)

text \<open>The release-opened rows another fingerprint claimed, as \<open>_correlate\<close> collects them.\<close>

definition claimed_ids :: "reads \<Rightarrow> string \<Rightarrow> string \<Rightarrow> uuid option \<Rightarrow> db \<Rightarrow> uuid list" where
  "claimed_ids seen fp uid t db = filter (claimed_by_other fp db)
     (map ir_incident_id (filter (opened_by_release (candidate_read seen)) (correlation_rows fp uid t (candidate_read seen))))"

definition candidate_ids :: "reads \<Rightarrow> string \<Rightarrow> string \<Rightarrow> uuid option \<Rightarrow> uuid list" where
  "candidate_ids seen fp uid t = map ir_incident_id (correlation_rows fp uid t (candidate_read seen))"

lemma correlate_target_alt:
  "correlate_target seen fp uid t db = (let ids = candidate_ids seen fp uid t in
     bind_result (resolve_merged (lock_merge_closure seen ids db) (filter (\<lambda>k. k \<notin> set (claimed_ids seen fp uid t db)) ids) t)
       (\<lambda>cs. Inr (choose_correlation cs, filter (\<lambda>k. k \<notin> set (claimed_ids seen fp uid t db))
          (map ir_incident_id (filter (opened_by_release (candidate_read seen)) (correlation_rows fp uid t (candidate_read seen)))))))"
  by (simp add: correlate_target_def claimed_ids_def candidate_ids_def Let_def)

lemma correlate_target_result:
  assumes "correlate_target seen fp uid t db = Inr (c, rel)"
  obtains cs where "resolve_merged (lock_merge_closure seen (candidate_ids seen fp uid t) db)
      (filter (\<lambda>k. k \<notin> set (claimed_ids seen fp uid t db)) (candidate_ids seen fp uid t)) t = Inr cs"
    "c = choose_correlation cs"
  using assms by (auto simp: correlate_target_alt Let_def bind_result_Inr_iff)

lemma correlate_target_total:
  assumes "merge_keys_ok db" and "\<not> pointer_moved seen db"
  shows "\<exists>r. correlate_target seen fp uid t db = Inr r"
proof -
  let ?ids = "candidate_ids seen fp uid t"
  obtain cs where "resolve_merged (lock_merge_closure seen ?ids db) (filter (\<lambda>k. k \<notin> set (claimed_ids seen fp uid t db)) ?ids) t = Inr cs"
    using resolve_merged_total [OF assms, of "filter (\<lambda>k. k \<notin> set (claimed_ids seen fp uid t db)) ?ids" ?ids t] by auto
  then show ?thesis by (simp add: correlate_target_alt Let_def)
qed

lemma correlate_no_retry:
  assumes "merge_keys_ok db" and "\<not> pointer_moved seen db"
  shows "correlate seen a op db \<noteq> Inl E_RETRY"
  using correlate_target_total [OF assms] by (auto simp: correlate_def Let_def split: option.splits) (metis Inl_Inr_False)+

lemma correlation_rows_None [simp]: "correlation_rows fp uid None db = []"
  by (simp add: correlation_rows_def)

lemma lock_merge_closure_Some: "lock_merge_closure seen ks db k = Some i \<Longrightarrow> find_incident k db = Some i \<and> ir_incident_id i = k"
  by (auto simp: lock_merge_closure_def dest: find_row_key split: if_splits)

text \<open>The incident an anomaly joins or relates to, as its row stands when it is locked; \<open>tdb\<close> is where the
  target of the alert was read.\<close>

definition standing_incident :: "alert_opening \<Rightarrow> db \<Rightarrow> db \<Rightarrow> uuid \<Rightarrow> incident_row \<Rightarrow> bool" where
  "standing_incident op tdb db k i \<longleftrightarrow> find_incident k db = Some i \<and> ir_merged_into_incident_id i = None
     \<and> (\<exists>uid t. op_resource_uid op = Some uid \<and> find_row tg_resource_uid uid (db_targets tdb) = Some t
         \<and> ir_target_id i = Some (tg_target_id t))"

lemma candidate_stands:
  assumes "op_resource_uid op = Some uid"
    and t: "t = map_option tg_target_id (find_row tg_resource_uid uid (db_targets (target_read seen)))"
    and "set ks \<subseteq> set (candidate_ids seen fp uid t)"
    and "resolve_merged (lock_merge_closure seen (candidate_ids seen fp uid t) db) ks t = Inr cs" and "x \<in> set cs"
  shows "\<exists>i. standing_incident op (target_read seen) db (cc_incident_id x) i \<and> ir_lifecycle i = cc_lifecycle x"
proof -
  from resolve_merged_in [OF assms(4,5)] obtain k i where i: "lock_merge_closure seen (candidate_ids seen fp uid t) db k = Some i"
    "stands_for x i" "ir_merged_into_incident_id i = None" "ir_target_id i = t" by blast
  have "ks \<noteq> []" using assms(4,5) by auto
  then have "candidate_ids seen fp uid t \<noteq> []" using assms(3) by auto
  then have "t \<noteq> None" by (cases t) (simp_all add: candidate_ids_def)
  then show ?thesis
    using i assms(1) lock_merge_closure_Some [OF i(1)] by (auto simp: standing_incident_def stands_for_def t)
qed

text \<open>\<^bold>\<open>C37\<close> (\<open>_correlate\<close>, \<open>lock_merge_closure\<close>, \<open>resolve_merged\<close>) Whatever other transactions commit between the
  unlocked reads of the target, the candidates and the merge chains and the moment the rows are locked,
  correlating an alert is refused with \<open>RETRY\<close> only when a merge pointer was set in between that a round did not
  see, and never when nothing was committed. What it decides holds of the locked rows: it is one of attaching
  and relating; an alert is attached to an incident that exists, is not closed, was not merged into another and is
  bound now to the registered target of the alert, and it is related to such an incident only when that
  is closed.\<close>

theorem correlation_finds_standing_incident:
  assumes "merge_keys_ok db"
  shows "(correlate seen a op db = Inl E_RETRY \<longrightarrow> pointer_moved seen db) \<and> correlate (\<lambda>_. db) a op db \<noteq> Inl E_RETRY \<and>
    (\<forall>c rel. correlate seen a op db = Inr (c, rel) \<longrightarrow>
       (case (co_attach_to c, co_related_to c) of
          (None, None) \<Rightarrow> True
        | (Some k, None) \<Rightarrow> (\<exists>i. standing_incident op (target_read seen) db k i \<and> ir_lifecycle i \<noteq> L_closed)
        | (None, Some k) \<Rightarrow> (\<exists>i. standing_incident op (target_read seen) db k i \<and> ir_lifecycle i = L_closed)
        | (Some _, Some _) \<Rightarrow> False))"
proof (intro conjI allI impI)
  show "pointer_moved seen db" if "correlate seen a op db = Inl E_RETRY"
    using correlate_no_retry [OF assms] that by blast
  show "correlate (\<lambda>_. db) a op db \<noteq> Inl E_RETRY" by (rule correlate_no_retry [OF assms serial_unmoved])
next
  fix c rel assume "correlate seen a op db = Inr (c, rel)"
  then show "case (co_attach_to c, co_related_to c) of
          (None, None) \<Rightarrow> True
        | (Some k, None) \<Rightarrow> (\<exists>i. standing_incident op (target_read seen) db k i \<and> ir_lifecycle i \<noteq> L_closed)
        | (None, Some k) \<Rightarrow> (\<exists>i. standing_incident op (target_read seen) db k i \<and> ir_lifecycle i = L_closed)
        | (Some _, Some _) \<Rightarrow> False"
  proof (rule correlate_rows)
    fix uid
    let ?t = "map_option tg_target_id (find_row tg_resource_uid uid (db_targets (target_read seen)))"
    let ?ids = "candidate_ids seen (al_fingerprint a) uid ?t"
    assume uid: "op_resource_uid op = Some uid" and "Inr (c, rel) = correlate_target seen (al_fingerprint a) uid ?t db"
    then obtain ks cs where r: "set ks \<subseteq> set ?ids" "resolve_merged (lock_merge_closure seen ?ids db) ks ?t = Inr cs" "c = choose_correlation cs"
      by (metis correlate_target_result filter_is_subset)
    note cand = candidate_stands [OF uid refl r(1,2)]
    show ?thesis
    proof (cases "filter (\<lambda>c. cc_lifecycle c \<noteq> L_closed) cs = []")
      case True
      show ?thesis
      proof (cases cs)
        case (Cons y ys)
        then obtain x where x: "x \<in> set cs" "latest cs = Some (cc_incident_id x)" using latest_in by blast
        moreover have "cc_lifecycle x = L_closed" using True x(1) by (simp add: filter_empty_conv)
        ultimately show ?thesis using cand [OF x(1)] True by (simp add: r(3) choose_correlation_def)
      qed (simp add: r(3) choose_correlation_def latest_def)
    next
      case False
      then obtain x where x: "x \<in> set (filter (\<lambda>c. cc_lifecycle c \<noteq> L_closed) cs)"
        "latest (filter (\<lambda>c. cc_lifecycle c \<noteq> L_closed) cs) = Some (cc_incident_id x)" using latest_in by blast
      with cand [of x] False show ?thesis by (auto simp: r(3) choose_correlation_def)
    qed
  qed simp_all
qed

subsection \<open>A refiring alert joins the open incident\<close>

lemma chase_unmerged: "ir_merged_into_incident_id i = None \<Longrightarrow> chase n locked i = Inr i"
  by (cases n) simp_all

lemma resolve_merged_covers:
  assumes "resolve_merged locked ks t = Inr cs" and "k \<in> set ks" and "locked k = Some i"
    and "ir_incident_id i = k" "ir_merged_into_incident_id i = None" "ir_target_id i = t"
  shows "\<exists>c \<in> set cs. cc_incident_id c = k"
  using assms(1,2)
proof (induction ks arbitrary: cs)
  case (Cons x ks)
  from Cons.prems(1) obtain found rest where r: "resolve_one locked t x = Inr found" "resolve_merged locked ks t = Inr rest"
    "cs = (case found of None \<Rightarrow> rest | Some c \<Rightarrow> c # filter (\<lambda>x. cc_incident_id x \<noteq> cc_incident_id c) rest)"
    by (auto simp: bind_result_Inr_iff)
  show ?case
  proof (cases "k \<in> set ks")
    case True
    then show ?thesis using Cons.IH [OF r(2)] r(3) by (fastforce split: option.splits)
  next
    case False
    with r(1) Cons.prems(2) assms(3-) obtain c where "found = Some c" "cc_incident_id c = k"
      by (auto simp: resolve_one_def chase_unmerged)
    then show ?thesis using r(3) by simp
  qed
qed simp

text \<open>An open incident of the alert takes it.\<close>

definition takes_alert :: "alert \<Rightarrow> alert_opening \<Rightarrow> db \<Rightarrow> incident_row \<Rightarrow> bool" where
  "takes_alert a op db i \<longleftrightarrow> i \<in> set (db_incidents db) \<and> ir_lifecycle i \<noteq> L_closed \<and> ir_merged_into_incident_id i = None
     \<and> op_run_id op \<noteq> None \<and> (case op_resource_uid op of None \<Rightarrow> False
         | Some uid \<Rightarrow> ir_target_id i \<noteq> None \<and> ir_target_id i = map_option tg_target_id (find_row tg_resource_uid uid (db_targets db))
             \<and> (opened_by_alert (al_fingerprint a) uid db i \<or> opened_by_release db i))
     \<and> \<not> (opened_by_release db i \<and> claimed_by_other (al_fingerprint a) db (ir_incident_id i))"

lemma lock_merge_closure_candidate: "k \<in> set ks \<Longrightarrow> lock_merge_closure seen ks db k = find_incident k db"
  using closure_loop_mono [of "set ks" MERGE_CHAIN_LIMIT "set ks" seen] by (auto simp: lock_merge_closure_def)

lemma correlate_attaches:
  assumes distinct: "distinct (map ir_incident_id (db_incidents db))" and i: "takes_alert a op db i"
    and r: "correlate (\<lambda>_. db) a op db = Inr (c, rel)"
  shows "co_attach_to c \<noteq> None"
proof -
  obtain uid where uid: "op_resource_uid op = Some uid" using i by (auto simp: takes_alert_def split: option.splits)
  let ?t = "map_option tg_target_id (find_row tg_resource_uid uid (db_targets db))"
  let ?rows = "correlation_rows (al_fingerprint a) uid ?t db"
  let ?ids = "map ir_incident_id ?rows" and ?claimed = "claimed_ids (\<lambda>_. db) (al_fingerprint a) uid ?t db"
  have "correlate_target (\<lambda>_. db) (al_fingerprint a) uid ?t db = Inr (c, rel)"
    using r uid i by (auto simp: correlate_def Let_def takes_alert_def split: option.splits if_splits)
  then obtain cs where cs: "resolve_merged (lock_merge_closure (\<lambda>_. db) ?ids db) (filter (\<lambda>k. k \<notin> set ?claimed) ?ids) ?t = Inr cs"
    "c = choose_correlation cs" unfolding candidate_ids_def [of "\<lambda>_. db", symmetric] by (rule correlate_target_result)
  have inn: "i \<in> set ?rows" using i uid by (auto simp: takes_alert_def correlation_rows_def)
  have f: "find_incident (ir_incident_id i) db = Some i"
    by (rule find_row_distinct [OF distinct]) (use i in \<open>simp add: takes_alert_def\<close>)
  have one: "j = i" if "j \<in> set (db_incidents db)" "ir_incident_id j = ir_incident_id i" for j
  proof -
    have "find_incident (ir_incident_id i) db = Some j"
      unfolding that(2) [symmetric] by (rule find_row_distinct [OF distinct that(1)])
    then have "Some i = Some j" by (rule trans [OF f [symmetric]])
    then show ?thesis by simp
  qed
  have rows_in: "set ?rows \<subseteq> set (db_incidents db)" by (auto simp: correlation_rows_def)
  have "ir_incident_id i \<notin> set ?claimed"
  proof
    assume "ir_incident_id i \<in> set ?claimed"
    then obtain j where j: "j \<in> set ?rows" "opened_by_release db j" "ir_incident_id j = ir_incident_id i"
      "claimed_by_other (al_fingerprint a) db (ir_incident_id j)" by (auto simp: claimed_ids_def)
    have "j = i" using one rows_in j(1,3) by blast
    with j i show False by (simp add: takes_alert_def)
  qed
  with inn have k: "ir_incident_id i \<in> set (filter (\<lambda>k. k \<notin> set ?claimed) ?ids)" by simp
  have l: "lock_merge_closure (\<lambda>_. db) ?ids db (ir_incident_id i) = Some i"
    using inn f lock_merge_closure_candidate [of "ir_incident_id i" ?ids "\<lambda>_. db" db] by simp
  obtain x where x: "x \<in> set cs" "cc_incident_id x = ir_incident_id i"
    using resolve_merged_covers [OF cs(1) k l refl] i by (auto simp: takes_alert_def uid)
  from resolve_merged_in [OF cs(1) x(1)] obtain k' j where j: "lock_merge_closure (\<lambda>_. db) ?ids db k' = Some j" "stands_for x j" by blast
  from lock_merge_closure_Some [OF j(1)] j(2) x(2) f have "j = i" by (auto simp: stands_for_def)
  with j(2) i have "cc_lifecycle x \<noteq> L_closed" by (auto simp: takes_alert_def stands_for_def)
  with x(1) choose_cases [OF cs(2) [symmetric]] show ?thesis by blast
qed

text \<open>Only the priority of an incident may move, to a more urgent one.\<close>

definition raised :: "incident_row \<Rightarrow> incident_row \<Rightarrow> bool" where
  "raised i j \<longleftrightarrow> j = i\<lparr>ir_priority := ir_priority j\<rparr> \<and> ir_priority j \<le> ir_priority i"

lemma raised_refl [simp]: "raised i i"
  by (simp add: raised_def)

lemma attach_effect:
  assumes "append_attached_event e a k revision rel db = Inr db1" and "escalate_priority k priority db1 = Inr db2"
  shows "db_runs db2 = db_runs db \<and> list_all2 raised (db_incidents db) (db_incidents db2)"
proof -
  obtain m where "append_input_in e 1 k (env_uuid5 e (''attach:'' @ al_delivery_key a @ '':'' @ uuid_str k))
      (attached_content a revision rel) (al_actor a) db = Inr (m, db1)"
    using assms(1) by (auto simp: append_attached_event_def bind_result_Inr_iff)
  from append_input_effect [OF this] have s: "db_runs db1 = db_runs db" "db_incidents db1 = db_incidents db"
    by (simp_all add: same_core_def)
  have db2: "db2 = db1\<lparr>db_incidents := update_where (\<lambda>i. ir_incident_id i = k \<and> priority < ir_priority i)
      (\<lambda>i. i\<lparr>ir_priority := priority\<rparr>) (db_incidents db1)\<rparr>"
    using assms(2) by (auto simp: escalate_priority_def split: if_splits)
  show ?thesis by (auto simp: db2 s update_where_def list_all2_map2 raised_def intro!: list_all2_refl)
qed

text \<open>\<^bold>\<open>C36\<close>. An alert that fires (again) while an open incident of its fingerprint, or an unclaimed one a release
  anomaly opened, stands on the same registered target never opens a second incident, with nothing committed
  between its reads and its locks: no Run is created, no incident row is added, and nothing of the incidents
  moves but a priority, to a more urgent one.\<close>

theorem refiring_alert_joins_open_incident:
  assumes "distinct (map ir_incident_id (db_incidents db))" and "takes_alert a op db i"
    and "record_alert e a (Some op) db = (Inr r, db')"
  shows "ar_outcome r \<notin> {''created'', ''handoff_created''} \<and> db_runs db' = db_runs db
    \<and> list_all2 raised (db_incidents db) (db_incidents db')"
proof -
  from assms(3) obtain db1 where d: "decide_alert (\<lambda>_. db) e a (Some op) db = Inr (r, db1)" and "insert_delivery e a r db1 = Inr (r, db')"
    by (auto simp: record_alert_def record_alert_reading_def record_alert_in_def bind_result_Inr_iff insert_delivery_def split: if_splits)
  then have i: "db_runs db' = db_runs db1" "db_incidents db' = db_incidents db1"
    by (auto simp: insert_delivery_def split: if_splits)
  show ?thesis
  proof (cases "first_firing (\<lambda>_. db) e a op (next_revision a db) db = Inr (r, db1)")
    case True
    then obtain c rel where c: "correlate (\<lambda>_. db) a op db = Inr (c, rel)" by (auto simp: first_firing_def bind_result_Inr_iff)
    with correlate_attaches [OF assms(1,2)] obtain k where "co_attach_to c = Some k" by blast
    with True c obtain db2 where "append_attached_event e a k (next_revision a db) (k \<in> set rel) db = Inr db2"
      "escalate_priority k (op_priority op) db2 = Inr db1" "ar_outcome r = ''attached''"
      by (auto simp: first_firing_def bind_result_Inr_iff plain_result_def)
    with attach_effect i show ?thesis by simp
  next
    case False
    with d have "db1 = db" "ar_outcome r \<notin> {''created'', ''handoff_created''}"
      by (auto simp: decide_alert_def Let_def identity_result_def plain_result_def split: option.splits if_splits)
    with i show ?thesis by (auto intro: list_all2_refl)
  qed
qed

subsection \<open>A repeated delivery adds its audit row only\<close>

definition same_alerts :: "db \<Rightarrow> db \<Rightarrow> bool" where
  "same_alerts db db' \<longleftrightarrow> db_alert_identities db' = db_alert_identities db
     \<and> db_alert_deliveries db' = db_alert_deliveries db \<and> db_alert_seq db' = db_alert_seq db"

lemma attach_alerts:
  assumes "append_attached_event e a k revision rel db = Inr db1" and "escalate_priority k priority db1 = Inr db2"
  shows "same_alerts db db2"
proof -
  obtain m where "append_input_in e 1 k (env_uuid5 e (''attach:'' @ al_delivery_key a @ '':'' @ uuid_str k))
      (attached_content a revision rel) (al_actor a) db = Inr (m, db1)"
    using assms(1) by (auto simp: append_attached_event_def bind_result_Inr_iff)
  then have "same_alerts db db1"
    by (auto simp: append_input_in_def insert_input_def bind_result_Inr_iff same_alerts_def knowledge_only_def
        split: option.splits if_splits dest!: mark_stale_frame)
  then show ?thesis using assms(2) by (auto simp: escalate_priority_def same_alerts_def split: if_splits)
qed

lemma accept_alerts: "accept_in e x db = Inr (b, db') \<Longrightarrow> same_alerts db db'"
  by (auto simp: accept_in_def accept_new_def insert_incident_def insert_run_def pause_accepted_def update_incident_def
      bind_result_Inr_iff same_alerts_def split: option.splits if_splits)

lemma register_alerts: "register_uid_in e n uid db = Inr (t, db') \<Longrightarrow> same_alerts db db'"
  by (auto simp: register_uid_in_def insert_target_def insert_suspension_def bind_result_Inr_iff same_alerts_def
      split: option.splits if_splits)

lemma open_subject_alerts:
  assumes "open_subject e op related db = Inr db'"
  shows "same_alerts db db'"
proof (cases "op_run_id op")
  case None
  with assms show ?thesis by (auto simp: open_subject_def insert_handoff_def same_alerts_def split: if_splits)
next
  case (Some run_id)
  with assms obtain uid t db1 b db2 where "register_uid_in e 0 uid db = Inr (t, db1)"
    "accept_in e (opening_intake op run_id t related) db1 = Inr (b, db2)"
    "db' = db2\<lparr>db_web_ledger := ledger_rows (op_ledger op) (db_web_ledger db2)\<rparr>"
    by (auto simp: open_subject_def bind_result_Inr_iff split: option.splits)
  with register_alerts accept_alerts show ?thesis by (fastforce simp: same_alerts_def)
qed

text \<open>What a first firing leaves: the event of an attached episode, or the identity row of an opened incident.\<close>

lemma first_firing_cases:
  assumes "first_firing seen e a op revision db = Inr (r, db')"
  obtains (attached) k where "r = plain_result ''attached'' (Some k) revision" "same_alerts db db'"
  | (opened) related where "r = identity_result (identity_row a op)
       (if op_run_id op \<noteq> None then ''created'' else ''handoff_created'') revision related"
     "db_alert_identities db' = db_alert_identities db @ [identity_row a op]"
     "db_alert_deliveries db' = db_alert_deliveries db" "db_alert_seq db' = db_alert_seq db"
proof -
  from assms obtain c rel where c: "correlate seen a op db = Inr (c, rel)" by (auto simp: first_firing_def bind_result_Inr_iff)
  show thesis
  proof (cases "co_attach_to c")
    case (Some k)
    with assms c show thesis by (auto simp: first_firing_def bind_result_Inr_iff dest: attach_alerts intro: attached)
  next
    case None
    with assms c obtain x where o: "open_incident e a op (co_related_to c) db = Inr (x, db')"
      "r = identity_result x (if ai_run_id x \<noteq> None then ''created'' else ''handoff_created'') revision (co_related_to c)"
      by (force simp: first_firing_def bind_result_Inr_iff)
    then obtain db1 where n: "open_subject e op (co_related_to c) db = Inr db1" "insert_identity (identity_row a op) db1 = Inr db'"
      "x = identity_row a op" by (auto simp: open_incident_def bind_result_Inr_iff)
    have r: "r = identity_result (identity_row a op) (if op_run_id op \<noteq> None then ''created'' else ''handoff_created'') revision (co_related_to c)"
      unfolding o(2) n(3) by (simp add: identity_row_def)
    have "db' = db1\<lparr>db_alert_identities := db_alert_identities db1 @ [identity_row a op]\<rparr>"
      using n(2) by (simp add: insert_identity_def split: if_split_asm)
    with open_subject_alerts [OF n(1)] show thesis
      by (intro opened [OF r]) (simp_all add: same_alerts_def)
  qed
qed

definition deliveries_ok :: "db \<Rightarrow> bool" where
  "deliveries_ok db \<longleftrightarrow> (\<forall>d \<in> set (db_alert_deliveries db). ad_delivery_id d \<le> db_alert_seq db)"

lemma sort_key_append_larger:
  assumes "\<And>x. x \<in> set xs \<Longrightarrow> f x < f y"
  shows "sort_key f (xs @ [y]) = sort_key f xs @ [y]"
proof (rule properties_for_sort_key)
  show "sorted (map f (sort_key f xs @ [y]))" using assms by (fastforce simp: sorted_append)
  show "filter (\<lambda>x. f k = f x) (sort_key f xs @ [y]) = filter (\<lambda>x. f k = f x) (xs @ [y])" for k
    using sort_key_stable [of f "f k" xs] by (simp add: eq_commute [of "f k"])
qed simp

lemma insert_delivery_shape:
  assumes "insert_delivery e a r db = Inr (r, db')"
  shows "db' = db\<lparr>db_alert_deliveries := db_alert_deliveries db @ [delivery_row e a r db], db_alert_seq := db_alert_seq db + 1\<rparr>"
    "delivery_checks (delivery_row e a r db)"
  using assms by (auto simp: insert_delivery_def split: if_splits)

text \<open>The row just added is the last of its identity, and the first attached one if there was none.\<close>

lemma delivery_id_row [simp]: "ad_delivery_id (delivery_row e a r db) = db_alert_seq db + 1"
  by (simp add: delivery_row_def)

lemma last_delivery_added:
  assumes "deliveries_ok db" and "db_alert_deliveries db' = db_alert_deliveries db @ [delivery_row e a r db]"
  shows "last_delivery (al_delivery_key a) db' = Some (delivery_row e a r db)"
  using assms sort_key_append_larger [of "filter (\<lambda>d. ad_delivery_key d = al_delivery_key a) (db_alert_deliveries db)"
      ad_delivery_id "delivery_row e a r db"]
  by (fastforce simp: last_delivery_def deliveries_ok_def delivery_row_def)

lemma first_attached_None_iff:
  "first_attached key db = None \<longleftrightarrow> filter (\<lambda>d. ad_delivery_key d = key \<and> ad_outcome d = ''attached'') (db_alert_deliveries db) = []"
  by (auto simp: first_attached_def split: list.splits dest: arg_cong [of "sort_key _ _" _ set])

lemma first_attached_added:
  assumes "deliveries_ok db" and "db_alert_deliveries db' = db_alert_deliveries db @ [delivery_row e a r db]"
  shows "first_attached (al_delivery_key a) db' = (case first_attached (al_delivery_key a) db of
     None \<Rightarrow> if ar_outcome r = ''attached'' then Some (delivery_row e a r db) else None
   | Some d \<Rightarrow> Some d)"
proof -
  let ?P = "\<lambda>d. ad_delivery_key d = al_delivery_key a \<and> ad_outcome d = ''attached''"
  have "sort_key ad_delivery_id (filter ?P (db_alert_deliveries db) @ [delivery_row e a r db]) =
      sort_key ad_delivery_id (filter ?P (db_alert_deliveries db)) @ [delivery_row e a r db]"
    by (rule sort_key_append_larger) (use assms(1) in \<open>fastforce simp: deliveries_ok_def delivery_row_def\<close>)
  moreover have "?P (delivery_row e a r db) = (ar_outcome r = ''attached'')" by (simp add: delivery_row_def)
  ultimately show ?thesis
    by (simp add: first_attached_def assms(2) del: sort_key_simps split: list.split)
qed

definition repeated_outcome :: "string \<Rightarrow> string" where
  "repeated_outcome outcome = (if outcome = ''created'' then ''replayed''
     else if outcome = ''handoff_created'' then ''handoff_replayed'' else outcome)"

definition same_answer :: "alert_result \<Rightarrow> alert_result \<Rightarrow> bool" where
  "same_answer r r' \<longleftrightarrow> ar_incident_id r' = ar_incident_id r \<and> ar_run_id r' = ar_run_id r
     \<and> ar_handoff_reason r' = ar_handoff_reason r \<and> ar_annotation_revision r' = ar_annotation_revision r
     \<and> ar_outcome r' = repeated_outcome (ar_outcome r)"

lemma repeated_decision:
  assumes ok: "deliveries_ok db" and d: "decide_alert seen e a op db = Inr (r, db0)"
    and db1: "db1 = db0\<lparr>db_alert_deliveries := db_alert_deliveries db0 @ [delivery_row e a r db0], db_alert_seq := db_alert_seq db0 + 1\<rparr>"
  shows "\<exists>r'. decide_alert seen' e' a op' db1 = Inr (r', db1) \<and> same_answer r r'"
proof -
  let ?key = "al_delivery_key a" and ?rev = "next_revision a db"
  have rev: "ar_annotation_revision r = ?rev \<and> db_alert_deliveries db0 = db_alert_deliveries db \<and> db_alert_seq db0 = db_alert_seq db"
    using d by (auto simp: decide_alert_def Let_def identity_result_def plain_result_def same_alerts_def
        elim!: first_firing_cases split: option.splits if_splits)
  then have ok0: "deliveries_ok db0" using ok by (simp add: deliveries_ok_def)
  have dl: "db_alert_deliveries db1 = db_alert_deliveries db0 @ [delivery_row e a r db0]" by (simp add: db1)
  have nr: "next_revision a db1 = ?rev"
    using rev by (simp add: next_revision_def [of a db1] last_delivery_added [OF ok0 dl]) (simp add: delivery_row_def)
  note fa = first_attached_added [OF ok0 dl]
  have fa0: "first_attached ?key db0 = first_attached ?key db" using rev by (simp add: first_attached_def)
  have id1: "find_identity ?key db1 = find_identity ?key db0" by (simp add: find_identity_def db1)
  show ?thesis
  proof (cases "find_identity ?key db")
    case (Some x)
    with d have "db0 = db" "r = identity_result x (if al_status a = ''firing'' then (if ai_run_id x \<noteq> None then ''replayed'' else ''handoff_replayed'')
        else ''resolved_attached'') ?rev None" by (auto simp: decide_alert_def Let_def)
    with Some id1 nr show ?thesis
      by (auto simp: decide_alert_def Let_def same_answer_def identity_result_def repeated_outcome_def)
  next
    case None
    note no_id = this
    show ?thesis
    proof (cases "first_attached ?key db")
      case (Some x)
      with d no_id have "db0 = db" "r = plain_result (if al_status a = ''firing'' then ''attached'' else ''resolved_attached'') (ad_incident_id x) ?rev"
        by (auto simp: decide_alert_def Let_def)
      with Some no_id id1 fa fa0 nr show ?thesis
        by (auto simp: decide_alert_def Let_def same_answer_def plain_result_def repeated_outcome_def)
    next
      case None
      show ?thesis
      proof (cases "al_status a = ''firing''")
        case False
        with d no_id None have "db0 = db" "r = plain_result ''resolved_recorded'' None ?rev" by (auto simp: decide_alert_def Let_def)
        with False None no_id id1 fa fa0 nr show ?thesis
          by (auto simp: decide_alert_def Let_def same_answer_def plain_result_def repeated_outcome_def)
      next
        case True
        with d no_id None obtain o1 where "first_firing seen e a o1 ?rev db = Inr (r, db0)"
          by (auto simp: decide_alert_def Let_def split: option.splits)
        then show ?thesis
        proof (cases rule: first_firing_cases)
          case (attached k)
          then have "find_identity ?key db1 = None" using no_id id1 by (simp add: same_alerts_def find_identity_def)
          moreover have "first_attached ?key db1 = Some (delivery_row e a r db0)"
            using fa fa0 None attached(1) by (simp add: plain_result_def)
          ultimately show ?thesis using True nr attached(1)
            by (simp add: decide_alert_def Let_def same_answer_def plain_result_def repeated_outcome_def delivery_row_def)
        next
          case (opened related)
          then have "find_identity ?key db1 = Some (identity_row a o1)"
            using no_id id1 by (simp add: find_identity_def find_row_append identity_row_def)
          then show ?thesis using True nr opened(1)
            by (simp add: decide_alert_def Let_def same_answer_def identity_result_def repeated_outcome_def identity_row_def)
        qed
      qed
    qed
  qed
qed

text \<open>. A delivery of an alert recorded once is answered the same when it arrives again, at any time and
  whatever opening comes with it: the same incident, Run, handoff reason and annotation revision, \<open>created\<close>
  turned into \<open>replayed\<close> and \<open>handoff_created\<close> into \<open>handoff_replayed\<close>. The second time opens nothing and appends
  no event: the database differs by the audit row of the delivery and its sequence only.\<close>

theorem repeated_delivery_only_audited:
  assumes "deliveries_ok db" and "record_alert e a op db = (Inr r, db1)"
    and "al_status a = ''firing'' \<Longrightarrow> op' \<noteq> None"
  shows "\<exists>r'. same_answer r r' \<and> record_alert e' a op' db1 = (Inr r', db1\<lparr>
     db_alert_deliveries := db_alert_deliveries db1 @ [delivery_row e' a r' db1], db_alert_seq := db_alert_seq db1 + 1\<rparr>)"
proof -
  from assms(2) obtain db0 where d: "decide_alert (\<lambda>_. db) e a op db = Inr (r, db0)" and i: "insert_delivery e a r db0 = Inr (r, db1)"
    by (auto simp: record_alert_def record_alert_reading_def record_alert_in_def bind_result_Inr_iff insert_delivery_def split: if_splits)
  from repeated_decision [OF assms(1) d insert_delivery_shape(1) [OF i], of "\<lambda>_. db1" e' op']
  obtain r' where r': "decide_alert (\<lambda>_. db1) e' a op' db1 = Inr (r', db1)" "same_answer r r'" by blast
  have "repeated_outcome (ar_outcome r) \<in> set OUTCOMES" if "ar_outcome r \<in> set OUTCOMES"
    using that by (auto simp: repeated_outcome_def OUTCOMES_def)
  then have checks: "delivery_checks (delivery_row e' a r' db1)"
    using insert_delivery_shape(2) [OF i] r'(2) by (simp add: delivery_checks_def delivery_row_def same_answer_def)
  have "\<not> (al_status a = ''firing'' \<and> op' = None)" using assms(3) by blast
  then have "record_alert_in (\<lambda>_. db1) e' a op' db1 = insert_delivery e' a r' db1"
    unfolding record_alert_in_def r'(1) by (simp only: if_False bind_result.simps prod.case)
  with checks have "record_alert e' a op' db1 = (Inr r', db1\<lparr>
     db_alert_deliveries := db_alert_deliveries db1 @ [delivery_row e' a r' db1], db_alert_seq := db_alert_seq db1 + 1\<rparr>)"
    by (simp only: record_alert_def record_alert_reading_def insert_delivery_def not_True_eq_False if_False transaction_simps)
  with r'(2) show ?thesis by blast
qed

subsection \<open>An example: an alert fires again on the target of its open incident\<close>

definition example_alert :: "string \<Rightarrow> string \<Rightarrow> alert" where
  "example_alert fingerprint status = \<lparr>al_delivery_key = ''k2'', al_fingerprint = fingerprint, al_starts_at = 7, al_starts_at_raw = ''7'',
     al_status = status, al_actor = ''am'', al_raw_sha256 = replicate 64 (CHR ''0''),
     al_annotations_sha256 = replicate 64 (CHR ''0''), al_alert_json = ''{}'', al_truncated = False, al_received_at = None\<rparr>"

definition example_opening :: alert_opening where
  "example_opening = \<lparr>op_incident_id = 2, op_intake_key = ''i2'', op_run_id = Some 20, op_resource_uid = Some ''u'',
     op_namespace = None, op_workload = None, op_deadline = 1000, op_budget_limit = 5, op_versions = fmempty, op_input = None,
     op_ledger = [], op_handoff_reason = None, op_priority = 1\<rparr>"

definition alert_db :: db where
  "alert_db = initial_db\<lparr>db_incidents := [example_incident_row\<lparr>ir_target_id := Some 5\<rparr>],
     db_targets := [\<lparr>tg_target_id = 5, tg_resource_uid = ''u'', tg_integration_id = None, tg_cluster_uid = None,
       tg_namespace = None, tg_workload = None\<rparr>],
     db_target_suspensions := [\<lparr>ts_target_id = 5, ts_suspended = False, ts_generation = 0\<rparr>],
     db_alert_identities := [\<lparr>ai_delivery_key = ''k1'', ai_fingerprint = ''f'', ai_starts_at = 3, ai_starts_at_raw = ''3'',
       ai_incident_id = 1, ai_run_id = Some 10, ai_target_id = Some ''u'', ai_namespace = None, ai_workload = None,
       ai_handoff_reason = None\<rparr>]\<rparr>"

lemma alert_db_simps [simp]:
  "db_incidents alert_db = [example_incident_row\<lparr>ir_target_id := Some 5\<rparr>]"
  "db_targets alert_db = [\<lparr>tg_target_id = 5, tg_resource_uid = ''u'', tg_integration_id = None, tg_cluster_uid = None,
       tg_namespace = None, tg_workload = None\<rparr>]"
  "db_alert_deliveries alert_db = []" "db_release_links alert_db = []" "db_inputs alert_db = []" "db_postmortems alert_db = []"
  "find_suspension 5 alert_db = Some \<lparr>ts_target_id = 5, ts_suspended = False, ts_generation = 0\<rparr>"
  "opened_by_alert ''f'' ''u'' alert_db i \<longleftrightarrow> ir_incident_id i = 1"
  by (auto simp: alert_db_def initial_db_def opened_by_alert_def)

lemma example_row_simps [simp]:
  "ir_incident_id example_incident_row = 1" "ir_lifecycle example_incident_row = L_open"
  "ir_merged_into_incident_id example_incident_row = None"
  by (simp_all add: example_incident_row_def)

lemma alert_db_ok: "merge_keys_ok alert_db" "distinct (map ir_incident_id (db_incidents alert_db))" "deliveries_ok alert_db"
  by (simp_all add: merge_keys_ok_def deliveries_ok_def)

lemma example_takes: "takes_alert (example_alert ''f'' s) example_opening alert_db (example_incident_row\<lparr>ir_target_id := Some 5\<rparr>)"
  by (simp add: takes_alert_def example_alert_def example_opening_def opened_by_release_def)

lemma example_correlate:
  "\<exists>rel. correlate (\<lambda>_. alert_db) (example_alert ''f'' s) example_opening alert_db = Inr (\<lparr>co_attach_to = Some 1, co_related_to = None\<rparr>, rel)"
proof -
  have "correlation_rows ''f'' ''u'' (Some 5) alert_db = [example_incident_row\<lparr>ir_target_id := Some 5\<rparr>]"
    by (simp add: correlation_rows_def opened_by_release_def)
  moreover have "lock_merge_closure (\<lambda>_. alert_db) [1] alert_db 1 = Some (example_incident_row\<lparr>ir_target_id := Some 5\<rparr>)"
    by (simp add: lock_merge_closure_candidate)
  ultimately show ?thesis
    by (simp add: correlate_def example_opening_def example_alert_def correlate_target_def Let_def opened_by_release_def
        resolve_one_def chase_unmerged choose_correlation_def latest_def)
qed

lemma example_recorded:
  "\<exists>db'. record_alert (example_env 5 50) (example_alert ''f'' ''firing'') (Some example_opening) alert_db =
     (Inr (plain_result ''attached'' (Some 1) 1), db')"
proof -
  let ?a = "example_alert ''f'' ''firing''" and ?e = "example_env 5 50"
  obtain rel where c: "correlate (\<lambda>_. alert_db) ?a example_opening alert_db = Inr (\<lparr>co_attach_to = Some 1, co_related_to = None\<rparr>, rel)"
    using example_correlate by blast
  have "''input_added'' \<in> set STALE_REASONS \<and> strip is_space ''append_input'' \<noteq> []" by code_simp
  then obtain db1 where "append_attached_event ?e ?a 1 1 (1 \<in> set rel) alert_db = Inr db1"
    by (simp add: append_attached_event_def append_input_in_def insert_input_def insert_row_def mark_stale_in_def)
  moreover have "check_priority (op_priority example_opening)" by (simp add: check_priority_def example_opening_def)
  ultimately obtain db2 where f: "first_firing (\<lambda>_. alert_db) ?e ?a example_opening 1 alert_db = Inr (plain_result ''attached'' (Some 1) 1, db2)"
    by (simp add: first_firing_def c escalate_priority_def)
  have "next_revision ?a alert_db = 1" by (simp add: next_revision_def last_delivery_def)
  moreover have "find_identity (al_delivery_key ?a) alert_db = None" "first_attached (al_delivery_key ?a) alert_db = None"
    by (simp_all add: find_identity_def first_attached_def alert_db_def example_alert_def initial_db_def)
  moreover have s: "al_status ?a = ''firing''" by (simp add: example_alert_def)
  ultimately have d: "decide_alert (\<lambda>_. alert_db) ?e ?a (Some example_opening) alert_db = Inr (plain_result ''attached'' (Some 1) 1, db2)"
    using f by (simp add: decide_alert_def Let_def)
  have "delivery_checks (delivery_row ?e ?a (plain_result ''attached'' (Some 1) 1) db2)"
    by (simp add: delivery_checks_def delivery_row_def example_alert_def plain_result_def OUTCOMES_def sha256_shape_def
        list_all_iff)
  with d show ?thesis by (simp add: record_alert_def record_alert_reading_def record_alert_in_def insert_delivery_def)
qed

text \<open>The same alert when incident 1 was merged into 2 after the chains were read and before the rows were locked.\<close>

definition merged_db :: db where
  "merged_db = alert_db\<lparr>db_incidents := [example_incident_row\<lparr>ir_target_id := Some 5, ir_merged_into_incident_id := Some 2\<rparr>,
     example_incident_row\<lparr>ir_incident_id := 2, ir_target_id := Some 5, ir_current_run_id := None\<rparr>]\<rparr>"

lemma merged_db_ok: "merge_keys_ok merged_db"
  by (simp add: merge_keys_ok_def merged_db_def)

lemma example_retry: "correlate (\<lambda>_. alert_db) (example_alert ''f'' s) example_opening merged_db = Inl E_RETRY"
proof -
  have rows: "correlation_rows ''f'' ''u'' (Some 5) alert_db = [example_incident_row\<lparr>ir_target_id := Some 5\<rparr>]"
    by (simp add: correlation_rows_def opened_by_release_def)
  have limit: "MERGE_CHAIN_LIMIT = Suc 15" by (simp add: MERGE_CHAIN_LIMIT_def)
  have empty: "closure_loop n {} ids seen = ids" for n ids seen by (cases n) simp_all
  have "merge_pointers {1} alert_db = {}" by (simp add: merge_pointers_def List.map_filter_def)
  then have closure: "closure_loop MERGE_CHAIN_LIMIT {1} {1} (\<lambda>_. alert_db) = {1}"
    unfolding limit closure_loop.simps Let_def by (simp add: empty del: One_nat_def)
  let ?lock = "lock_merge_closure (\<lambda>_. alert_db) [1] merged_db"
  have "?lock 1 = Some (example_incident_row\<lparr>ir_target_id := Some 5, ir_merged_into_incident_id := Some 2\<rparr>)" "?lock 2 = None"
    using closure by (simp_all add: lock_merge_closure_def merged_db_def del: One_nat_def)
  then have "resolve_one ?lock (Some 5) 1 = Inl E_RETRY"
    unfolding resolve_one_def limit chase.simps by (simp del: One_nat_def)
  then show ?thesis
    by (simp add: correlate_def example_opening_def example_alert_def correlate_target_def Let_def opened_by_release_def rows)
qed

theorem correlation_finds_standing_incident_witness:
  "(\<exists>rel. correlate (\<lambda>_. alert_db) (example_alert ''f'' ''firing'') example_opening alert_db =
       Inr (\<lparr>co_attach_to = Some 1, co_related_to = None\<rparr>, rel))
   \<and> (\<exists>i. standing_incident example_opening alert_db alert_db 1 i \<and> ir_lifecycle i \<noteq> L_closed)
   \<and> correlate (\<lambda>_. alert_db) (example_alert ''f'' ''firing'') example_opening merged_db = Inl E_RETRY
   \<and> pointer_moved (\<lambda>_. alert_db) merged_db"
proof -
  obtain rel where c: "correlate (\<lambda>_. alert_db) (example_alert ''f'' ''firing'') example_opening alert_db =
      Inr (\<lparr>co_attach_to = Some 1, co_related_to = None\<rparr>, rel)" using example_correlate by blast
  from correlation_finds_standing_incident [OF alert_db_ok(1), of "\<lambda>_. alert_db" "example_alert ''f'' ''firing''" example_opening,
      THEN conjunct2, THEN conjunct2, rule_format, OF c] c
    correlation_finds_standing_incident [OF merged_db_ok, of "\<lambda>_. alert_db" "example_alert ''f'' ''firing''" example_opening,
      THEN conjunct1, THEN mp, OF example_retry] example_retry
  show ?thesis by simp
qed

theorem refiring_alert_joins_open_incident_witness:
  "\<exists>r db'. record_alert (example_env 5 50) (example_alert ''f'' ''firing'') (Some example_opening) alert_db = (Inr r, db')
     \<and> ar_outcome r = ''attached'' \<and> db_runs db' = db_runs alert_db \<and> list_all2 raised (db_incidents alert_db) (db_incidents db')"
proof -
  obtain db' where r: "record_alert (example_env 5 50) (example_alert ''f'' ''firing'') (Some example_opening) alert_db =
      (Inr (plain_result ''attached'' (Some 1) 1), db')" using example_recorded by blast
  from refiring_alert_joins_open_incident [OF alert_db_ok(2) example_takes r] r
  show ?thesis by (simp add: plain_result_def)
qed

theorem repeated_delivery_only_audited_witness:
  "\<exists>r db1 r' db2. record_alert (example_env 5 50) (example_alert ''f'' ''firing'') (Some example_opening) alert_db = (Inr r, db1)
     \<and> record_alert (example_env 9 90) (example_alert ''f'' ''firing'') (Some example_opening) db1 = (Inr r', db2) \<and> same_answer r r'
     \<and> db_inputs db2 = db_inputs db1"
proof -
  obtain db1 where r: "record_alert (example_env 5 50) (example_alert ''f'' ''firing'') (Some example_opening) alert_db =
      (Inr (plain_result ''attached'' (Some 1) 1), db1)" using example_recorded by blast
  obtain r' where r': "same_answer (plain_result ''attached'' (Some 1) 1) r'"
    "record_alert (example_env 9 90) (example_alert ''f'' ''firing'') (Some example_opening) db1 =
      (Inr r', db1\<lparr>db_alert_deliveries := db_alert_deliveries db1 @ [delivery_row (example_env 9 90) (example_alert ''f'' ''firing'') r' db1],
         db_alert_seq := db_alert_seq db1 + 1\<rparr>)"
    using repeated_delivery_only_audited [OF alert_db_ok(3) r, of "Some example_opening" "example_env 9 90"] by blast
  show ?thesis
    by (intro exI conjI; (rule r r')?) simp
qed

end

