(* ===== verification/Observation_Judge.thy ===== *)
theory Observation_Judge
  imports Store_Sessions
begin

section \<open>Judging samples and replaying a session (\<open>observation/store.py\<close>)\<close>

text \<open>
  \<open>judge\<close> is the decision procedure that the submission of a sample and the replay of a stored session
  share: it evaluates the sample, moves the watermark and the healthy streak, and says whether the
  session ends. \<open>fold_history\<close> recomputes every stored decision of a session from its rows, and the
  report's \<open>consistent\<close> compares the fold with what is stored. The parser of the profile's JSON text and
  the SHA-256 are of the environment.
\<close>

definition OBSERVER_LEASE_SECONDS :: int where "OBSERVER_LEASE_SECONDS = 120"
definition WINDOW_FUTURE_SKEW_SECONDS :: int where "WINDOW_FUTURE_SKEW_SECONDS = 30"
definition READING_RAW_LIMIT :: nat where "READING_RAW_LIMIT = 131072"

definition STALE_BINDINGS :: "SampleReason set" where
  "STALE_BINDINGS = {SR_control_generation_stale, SR_observation_generation_stale, SR_subject_state_not_adoptable}"

subsection \<open>The verdict on one sample\<close>

record Verdict =
  vd_decision :: SampleAcceptance
  vd_healthy :: bool
  vd_health_basis :: health_basis
  vd_transition :: "string option"
  vd_session_state :: ObservationSessionState
  vd_ended_reason :: "string option"
  vd_adopted_sequence :: int
  vd_adopted_window_end :: "time option"
  vd_adopted_count :: int
  vd_healthy_since :: "time option"

text \<open>The keyword arguments of \<open>_judge\<close>.\<close>

record judge_input =
  jg_subject_state :: subject_state
  jg_within_deadline :: bool
  jg_suspension_blocks :: bool
  jg_lease_valid :: bool
  jg_stamps_match :: bool
  jg_readings_consistent :: bool
  jg_authorized_at :: time
  jg_adopted_count :: int
  jg_healthy_since :: "time option"
  jg_max_samples :: int
  jg_sustained_window_seconds :: int

definition health_basis_of :: "ObservationSession \<Rightarrow> HealthSample \<Rightarrow> bool \<Rightarrow> time \<Rightarrow> health_basis" where
  "health_basis_of session sample accepted authorized_at =
     (if \<not> accepted then HB_not_adopted
      else if os_health_profile_revision session = None then HB_no_health_profile
      else if hs_outcome sample \<noteq> SO_healthy then HB_outcome_not_healthy
      else if \<not> hs_required_signals_present sample then HB_required_signals_missing
      else if qw_start (hs_window sample) < authorized_at then HB_window_before_authorization
      else HB_confirmed)"

definition judge_decision :: "ObservationSession \<Rightarrow> HealthSample \<Rightarrow> judge_input \<Rightarrow> SampleAcceptance" where
  "judge_decision session sample j =
     (if \<not> jg_lease_valid j then sample_history_only SR_lease_revoked
      else if \<not> jg_stamps_match j then sample_history_only SR_lease_stamp_mismatch
      else if \<not> jg_readings_consistent j then sample_history_only SR_readings_inconsistent
      else evaluate_sample session sample (jg_subject_state j) (jg_within_deadline j) (jg_suspension_blocks j))"

text \<open>The healthy streak starts where the first healthy window ends, and again after a gap.\<close>

definition streak :: "ObservationSession \<Rightarrow> HealthSample \<Rightarrow> bool \<Rightarrow> time option \<Rightarrow> time option" where
  "streak session sample healthy healthy_since =
     (let gap = (case os_adopted_window_end session of None \<Rightarrow> False | Some w \<Rightarrow> w < qw_start (hs_window sample)) in
      if \<not> healthy then None
      else if healthy_since = None \<or> gap then Some (qw_end (hs_window sample))
      else healthy_since)"

definition judge_adopted :: "ObservationSession \<Rightarrow> HealthSample \<Rightarrow> judge_input \<Rightarrow> Verdict \<Rightarrow> Verdict domain_result" where
  "judge_adopted session sample j v = bind_result (adopt_sample session sample) (\<lambda>advanced.
     let since = streak session sample (vd_healthy v) (jg_healthy_since j);
         v1 = v\<lparr>vd_adopted_sequence := os_adopted_sequence advanced, vd_adopted_window_end := os_adopted_window_end advanced,
                vd_adopted_count := jg_adopted_count j + 1, vd_healthy_since := since\<rparr> in
     if vd_healthy v \<and> (case since of None \<Rightarrow> False
          | Some t \<Rightarrow> seconds (jg_sustained_window_seconds j) \<le> qw_end (hs_window sample) - t)
     then bind_result (fire OBSERVATION_SESSION (os_state session) ''observation_completed'') (\<lambda>s.
       Inr (v1\<lparr>vd_transition := Some ''recovery_confirmed'', vd_session_state := s,
               vd_ended_reason := Some ''recovery_confirmed''\<rparr>))
     else if jg_max_samples j \<le> jg_adopted_count j + 1
     then bind_result (fire OBSERVATION_SESSION (os_state session) ''deadline_expired'') (\<lambda>s.
       Inr (v1\<lparr>vd_transition := Some ''observation_ended_unconfirmed'', vd_session_state := s,
               vd_ended_reason := Some ''max_samples_exhausted''\<rparr>))
     else Inr v1)"

text \<open>A rejected sample ends an authorized session for the deadline, a stale binding or a suspension.\<close>

definition judge_rejected :: "ObservationSession \<Rightarrow> Verdict \<Rightarrow> Verdict domain_result" where
  "judge_rejected session v = (let reason = sa_reason (vd_decision v) in
     if os_state session \<noteq> OS_authorized then Inr v
     else if reason = SR_deadline_expired then
       bind_result (fire OBSERVATION_SESSION (os_state session) ''deadline_expired'') (\<lambda>s.
         Inr (v\<lparr>vd_transition := Some ''observation_ended_unconfirmed'', vd_session_state := s,
                vd_ended_reason := Some ''deadline_expired''\<rparr>))
     else if reason \<in> STALE_BINDINGS then
       bind_result (fire OBSERVATION_SESSION (os_state session) ''authority_revoked'') (\<lambda>s.
         Inr (v\<lparr>vd_session_state := s, vd_ended_reason := Some ''binding_stale''\<rparr>))
     else if reason = SR_suspended then
       bind_result (fire OBSERVATION_SESSION (os_state session) ''authority_revoked'') (\<lambda>s.
         Inr (v\<lparr>vd_session_state := s, vd_ended_reason := Some ''scope_suspended''\<rparr>))
     else Inr v)"

definition judge :: "ObservationSession \<Rightarrow> HealthSample \<Rightarrow> judge_input \<Rightarrow> Verdict domain_result" where
  "judge session sample j =
     (let decision = judge_decision session sample j;
          basis = health_basis_of session sample (sa_accepted decision) (jg_authorized_at j);
          v = \<lparr>vd_decision = decision,
            vd_healthy = (sa_accepted decision \<and> confirms_health session sample \<and> basis = HB_confirmed),
            vd_health_basis = basis, vd_transition = None, vd_session_state = os_state session, vd_ended_reason = None,
            vd_adopted_sequence = os_adopted_sequence session, vd_adopted_window_end = os_adopted_window_end session,
            vd_adopted_count = jg_adopted_count j, vd_healthy_since = jg_healthy_since j\<rparr>
      in if sa_accepted decision then judge_adopted session sample j v else judge_rejected session v)"

subsection \<open>The required signals of a profile\<close>

text \<open>\<open>text.rpartition('@')\<close>: what is before the last separator, whether there is one, what is after it.\<close>

definition rpartition_at :: "string \<Rightarrow> string \<times> bool \<times> string" where
  "rpartition_at s = (if CHR ''@'' \<in> set s
     then (rev (tl (dropWhile (\<lambda>c. c \<noteq> CHR ''@'') (rev s))), True, rev (takeWhile (\<lambda>c. c \<noteq> CHR ''@'') (rev s)))
     else ([], False, s))"

definition profile_revision :: "env \<Rightarrow> string \<Rightarrow> string \<Rightarrow> string" where
  "profile_revision e profile_id content = profile_id @ ''@'' @ take 12 (env_sha256 e content)"

text \<open>One entry of \<open>signals\<close>: its name and whether it is required.\<close>

definition signal_entry :: "json \<Rightarrow> (string \<times> bool) option" where
  "signal_entry item = (case item of
      JObj m \<Rightarrow> (case (fmlookup m ''name'', fmlookup m ''required'') of
          (Some (JStr name), None) \<Rightarrow> if name = [] then None else Some (name, True)
        | (Some (JStr name), Some (JBool r)) \<Rightarrow> if name = [] then None else Some (name, r)
        | _ \<Rightarrow> None)
    | _ \<Rightarrow> None)"

fun signal_entries :: "json list \<Rightarrow> (string \<times> bool) list option" where
  "signal_entries [] = Some []"
| "signal_entries (x # xs) = (case (signal_entry x, signal_entries xs) of
      (Some a, Some as) \<Rightarrow> Some (a # as) | _ \<Rightarrow> None)"

definition required_signals :: "env \<Rightarrow> string \<Rightarrow> perr + string list" where
  "required_signals e content = (case env_json_loads e content of
      Some (JObj m) \<Rightarrow> (case fmlookup m ''signals'' of
          Some (JArr items) \<Rightarrow> (case signal_entries items of
              None \<Rightarrow> Inl E_HEALTH_PROFILE_UNREADABLE
            | Some entries \<Rightarrow> (let names = map fst (filter snd entries) in
                if names = [] then Inl E_HEALTH_PROFILE_UNREADABLE else Inr names))
        | _ \<Rightarrow> Inl E_HEALTH_PROFILE_UNREADABLE)
    | _ \<Rightarrow> Inl E_HEALTH_PROFILE_UNREADABLE)"

definition profile_subject :: "env \<Rightarrow> string \<Rightarrow> perr + string \<times> string" where
  "profile_subject e content = (case env_json_loads e content of
      Some (JObj m) \<Rightarrow> (case fmlookup m ''subject'' of
          Some (JObj s) \<Rightarrow> (case (fmlookup s ''kubernetes_namespace'', fmlookup s ''service'') of
              (Some (JStr ns), Some (JStr sv)) \<Rightarrow>
                if ns = [] \<or> sv = [] then Inl E_HEALTH_PROFILE_UNREADABLE else Inr (ns, sv)
            | _ \<Rightarrow> Inl E_HEALTH_PROFILE_UNREADABLE)
        | _ \<Rightarrow> Inl E_HEALTH_PROFILE_UNREADABLE)
    | _ \<Rightarrow> Inl E_HEALTH_PROFILE_UNREADABLE)"

text \<open>The required names, if there is a profile, and whether it cannot be read.\<close>

definition parse_required :: "env \<Rightarrow> profile_row option \<Rightarrow> string list option \<times> bool" where
  "parse_required e profile = (case profile of
      None \<Rightarrow> (None, False)
    | Some p \<Rightarrow>
        (let digest = env_sha256 e (hp_content p); parts = rpartition_at (hp_revision p) in
         if digest \<noteq> hp_content_sha256 p \<or> snd (snd parts) \<noteq> take 12 digest
           \<or> hp_revision p \<noteq> profile_revision e (fst parts) (hp_content p)
         then (None, True)
         else case required_signals e (hp_content p) of Inl _ \<Rightarrow> (None, True) | Inr names \<Rightarrow> (Some names, False)))"

text \<open>\<open>timedelta * 0.05\<close>: the float's exact ratio, divided and rounded half to even to a microsecond.\<close>

definition divide_and_round :: "int \<Rightarrow> int \<Rightarrow> int" where
  "divide_and_round a b = (let q = a div b; r = a mod b in
     if b < 2 * r \<or> (2 * r = b \<and> odd q) then q + 1 else q)"

definition window_tolerance :: "QueryWindow \<Rightarrow> time" where
  "window_tolerance w = divide_and_round ((qw_end w - qw_start w) * 3602879701896397) 72057594037927936"

definition covers :: "QueryWindow \<Rightarrow> reading_row \<Rightarrow> bool" where
  "covers w r \<longleftrightarrow> rg_status r = RG_ok \<and> rg_value r \<noteq> None
     \<and> (case rg_sample_count r of None \<Rightarrow> False | Some n \<Rightarrow> 0 < n)
     \<and> \<bar>rg_window_start r - qw_start w\<bar> \<le> window_tolerance w \<and> \<bar>rg_window_end r - qw_end w\<bar> \<le> window_tolerance w"

definition ok_signals :: "QueryWindow \<Rightarrow> reading_row list \<Rightarrow> string set" where
  "ok_signals w rs = set (map rg_signal_name (filter (covers w) rs))"

definition missing_required_signals ::
  "string list option \<times> bool \<Rightarrow> SampleOutcome \<Rightarrow> bool \<Rightarrow> string set \<Rightarrow> string list" where
  "missing_required_signals required outcome required_signals_present ok =
     (if snd required then [''health_profile_unreadable'']
      else case fst required of None \<Rightarrow> []
      | Some names \<Rightarrow> (let missing = filter (\<lambda>n. n \<notin> ok) names in
          if (outcome = SO_healthy \<and> missing \<noteq> []) \<or> required_signals_present \<noteq> (missing = [])
          then (if missing = [] then [''required_signals_present''] else missing) else []))"

subsection \<open>The domain view of a session row\<close>

definition domain_session ::
  "session_row \<Rightarrow> int \<Rightarrow> int \<Rightarrow> ObservationSessionState \<Rightarrow> int \<Rightarrow> time option \<Rightarrow> uuid option \<Rightarrow> ObservationSession" where
  "domain_session row control_generation observation_generation state adopted_sequence adopted_window_end active_job =
     \<lparr>os_session_id = uuid_str (se_session_id row), os_purpose = OP_incident_recovery,
      os_subject = \<lparr>sr_kind = SK_incident, sr_id = uuid_str (se_incident_id row)\<rparr>, os_target = se_target row,
      os_subject_control_generation = control_generation, os_observation_generation = observation_generation,
      os_authorized = True, os_state = state, os_health_profile_revision = se_health_profile_revision row,
      os_adopted_sequence = adopted_sequence, os_adopted_window_end = adopted_window_end,
      os_active_sample_job_id = map_option uuid_str active_job\<rparr>"

subsection \<open>Replaying a session\<close>

type_synonym decision_tuple = "sample_disposition \<times> SampleReason \<times> bool \<times> health_basis \<times> string option"

record ReplayedSample =
  rp_sample_id :: uuid
  rp_sequence :: int
  rp_stored :: decision_tuple
  rp_replayed :: decision_tuple
  rp_raw_mismatches :: "string list"
  rp_signal_mismatches :: "string list"
  rp_stored_outcome :: "(SampleOutcome \<times> bool) option"
  rp_replayed_outcome :: "(SampleOutcome \<times> bool) option"
  rp_deadline_mismatch :: bool
  rp_scope_mismatch :: bool

definition replay_matches :: "ReplayedSample \<Rightarrow> bool" where
  "replay_matches r \<longleftrightarrow> rp_stored r = rp_replayed r \<and> rp_stored_outcome r = rp_replayed_outcome r
     \<and> \<not> rp_deadline_mismatch r \<and> \<not> rp_scope_mismatch r \<and> rp_raw_mismatches r = []
     \<and> (rp_signal_mismatches r = [] \<or> fst (snd (rp_stored r)) = SR_readings_inconsistent)"

record session_history =
  hi_session :: session_row
  hi_incident_lifecycle :: IncidentLifecycle
  hi_health_profile :: "profile_row option"
  hi_samples :: "sample_row list"
  hi_endings :: "ending_row list"

record fold_state =
  fs_state :: ObservationSessionState
  fs_adopted_sequence :: int
  fs_adopted_window_end :: "time option"
  fs_adopted_count :: int
  fs_healthy_since :: "time option"
  fs_healthy_until :: "time option"
  fs_expected_lifecycle :: "IncidentLifecycle option"
  fs_ending_sample_id :: "uuid option"
  fs_ended_reason :: "string option"

definition fold_start :: fold_state where
  "fold_start = \<lparr>fs_state = OS_authorized, fs_adopted_sequence = 0, fs_adopted_window_end = None, fs_adopted_count = 0,
     fs_healthy_since = None, fs_healthy_until = None, fs_expected_lifecycle = None, fs_ending_sample_id = None,
     fs_ended_reason = None\<rparr>"

definition sample_of_row :: "sample_row \<Rightarrow> SampleOutcome \<times> bool \<Rightarrow> HealthSample" where
  "sample_of_row stored outcome = \<lparr>hs_sample_id = uuid_str (sm_sample_id stored), hs_session_id = uuid_str (sm_session_id stored),
     hs_sequence = sm_sequence stored, hs_window = sm_window stored, hs_outcome = fst outcome,
     hs_subject_control_generation = sm_subject_control_generation stored,
     hs_observation_generation = sm_observation_generation stored,
     hs_health_profile_revision = sm_health_profile_revision stored, hs_required_signals_present = snd outcome\<rparr>"

definition deadline_mismatch :: "session_row \<Rightarrow> sample_row \<Rightarrow> bool" where
  "deadline_mismatch row stored \<longleftrightarrow> sm_within_deadline stored \<and> se_deadline_at row \<le> qw_end (sm_window stored)"

definition scope_moved :: "session_row \<Rightarrow> sample_row \<Rightarrow> bool" where
  "scope_moved row stored \<longleftrightarrow> (sm_global_generation stored, sm_target_generation stored)
     \<noteq> (se_authorized_global_generation row, se_authorized_target_generation row)"

definition replay_input :: "session_row \<Rightarrow> fold_state \<Rightarrow> sample_row \<Rightarrow> string list \<Rightarrow> judge_input" where
  "replay_input row f stored signal_mismatches = \<lparr>jg_subject_state = Inl (sm_subject_lifecycle stored),
     jg_within_deadline = (sm_within_deadline stored \<and> \<not> deadline_mismatch row stored),
     jg_suspension_blocks = (sm_scope_suspended stored \<or> scope_moved row stored),
     jg_lease_valid = sm_lease_valid stored, jg_stamps_match = sm_lease_stamps_match stored,
     jg_readings_consistent = (signal_mismatches = []), jg_authorized_at = se_authorized_at row,
     jg_adopted_count = fs_adopted_count f, jg_healthy_since = fs_healthy_since f, jg_max_samples = se_max_samples row,
     jg_sustained_window_seconds = se_sustained_window_seconds row\<rparr>"

definition advance_fold :: "fold_state \<Rightarrow> sample_row \<Rightarrow> Verdict \<Rightarrow> fold_state" where
  "advance_fold f stored v = \<lparr>fs_state = vd_session_state v, fs_adopted_sequence = vd_adopted_sequence v,
     fs_adopted_window_end = vd_adopted_window_end v, fs_adopted_count = vd_adopted_count v,
     fs_healthy_since = vd_healthy_since v,
     fs_healthy_until = (if sa_accepted (vd_decision v)
        then (if vd_healthy_since v = None then None else Some (qw_end (sm_window stored))) else fs_healthy_until f),
     fs_expected_lifecycle = (if vd_transition v = Some ''recovery_confirmed'' then Some L_resolved
        else if vd_transition v = Some ''observation_ended_unconfirmed'' then Some L_open else fs_expected_lifecycle f),
     fs_ending_sample_id = (if vd_ended_reason v \<noteq> None \<and> sa_accepted (vd_decision v) \<and> fs_ending_sample_id f = None
        then Some (sm_sample_id stored) else fs_ending_sample_id f),
     fs_ended_reason = (if vd_ended_reason v \<noteq> None \<and> fs_ended_reason f = None then vd_ended_reason v else fs_ended_reason f)\<rparr>"

definition stored_decision :: "sample_row \<Rightarrow> decision_tuple" where
  "stored_decision s = (sm_disposition s, sm_reason s, sm_confirms_health s, sm_health_basis s, sm_transition s)"

definition verdict_decision :: "Verdict \<Rightarrow> decision_tuple" where
  "verdict_decision v = (sa_disposition (vd_decision v), sa_reason (vd_decision v), vd_healthy v, vd_health_basis v, vd_transition v)"

definition raw_mismatches :: "env \<Rightarrow> reading_row list \<Rightarrow> string list" where
  "raw_mismatches e rs = map rg_signal_name (filter (\<lambda>r. case rg_raw r of None \<Rightarrow> False
     | Some raw \<Rightarrow> rg_raw_sha256 r \<noteq> Some (env_sha256 e raw)) rs)"

text \<open>\<open>outcomes\<close> gives the recomputed outcome of a sample, if the caller has one.\<close>

definition fold_step ::
  "env \<Rightarrow> session_row \<Rightarrow> string list option \<times> bool \<Rightarrow> (uuid \<Rightarrow> (SampleOutcome \<times> bool) option) \<Rightarrow> fold_state \<Rightarrow> sample_row
     \<Rightarrow> (fold_state \<times> ReplayedSample) domain_result" where
  "fold_step e row required outcomes f stored =
     (let stored_outcome = (sm_outcome stored, sm_required_signals_present stored);
          recomputed = outcomes (sm_sample_id stored);
          outcome = (case recomputed of None \<Rightarrow> stored_outcome | Some x \<Rightarrow> x);
          session = domain_session row (sm_incident_control_generation stored) (sm_incident_observation_generation stored)
            (fs_state f) (fs_adopted_sequence f) (fs_adopted_window_end f) (Some (sm_job_id stored));
          missing = missing_required_signals required (fst outcome) (snd outcome)
            (ok_signals (sm_window stored) (sm_readings stored))
      in bind_result (judge session (sample_of_row stored outcome) (replay_input row f stored missing)) (\<lambda>v.
         Inr (advance_fold f stored v,
           \<lparr>rp_sample_id = sm_sample_id stored, rp_sequence = sm_sequence stored, rp_stored = stored_decision stored,
            rp_replayed = verdict_decision v, rp_raw_mismatches = raw_mismatches e (sm_readings stored),
            rp_signal_mismatches = missing,
            rp_stored_outcome = (if recomputed = None then None else Some stored_outcome), rp_replayed_outcome = recomputed,
            rp_deadline_mismatch = deadline_mismatch row stored,
            rp_scope_mismatch = (scope_moved row stored \<noteq> sm_scope_suspended stored)\<rparr>)))"

fun fold_samples ::
  "env \<Rightarrow> session_row \<Rightarrow> string list option \<times> bool \<Rightarrow> (uuid \<Rightarrow> (SampleOutcome \<times> bool) option) \<Rightarrow> fold_state \<Rightarrow> sample_row list
     \<Rightarrow> (fold_state \<times> ReplayedSample list) domain_result" where
  "fold_samples e row required outcomes f [] = Inr (f, [])"
| "fold_samples e row required outcomes f (s # ss) =
     bind_result (fold_step e row required outcomes f s) (\<lambda>(f1, r).
       bind_result (fold_samples e row required outcomes f1 ss) (\<lambda>(f2, rs). Inr (f2, r # rs)))"

subsection \<open>The report of a replay\<close>

type_synonym recorded_ending = "string \<times> string option \<times> uuid option \<times> IncidentLifecycle \<times> IncidentLifecycle"

record ReplayReport =
  rep_session_id :: uuid
  rep_samples :: "ReplayedSample list"
  rep_replayed_session_state :: ObservationSessionState
  rep_stored_session_state :: ObservationSessionState
  rep_expected_lifecycle :: "IncidentLifecycle option"
  rep_recorded_lifecycle :: "IncidentLifecycle option"
  rep_stored_ended_reason :: "string option"
  rep_recorded_ending :: "recorded_ending option"
  rep_ending_sample_id :: "uuid option"
  rep_healthy_since :: "time option"
  rep_healthy_until :: "time option"
  rep_adopted_sequence :: int
  rep_adopted_window_end :: "time option"
  rep_adopted_count :: int
  rep_recorded_endings_count :: nat
  rep_replayed_ended_reason :: "string option"
  rep_max_samples :: "int option"
  rep_deadline_at :: time
  rep_recorded_ending_at :: "time option"

definition healthy_window_seconds :: "ReplayReport \<Rightarrow> int" where
  "healthy_window_seconds r = (case (rep_healthy_since r, rep_healthy_until r) of
      (Some s, Some u) \<Rightarrow> max 0 ((u - s) div 1000000) | _ \<Rightarrow> 0)"

text \<open>Firing a trigger the lifecycle has leads on; one it lacks leaves the lifecycle as it is.\<close>

definition can_fire :: "IncidentLifecycle \<Rightarrow> string \<Rightarrow> bool" where
  "can_fire lc trigger = (case triggers INCIDENT_LIFECYCLE lc of Inl _ \<Rightarrow> False | Inr ts \<Rightarrow> trigger \<in> ts)"

definition fired_or_same :: "IncidentLifecycle \<Rightarrow> string \<Rightarrow> IncidentLifecycle" where
  "fired_or_same lc trigger = (case fire INCIDENT_LIFECYCLE lc trigger of Inl _ \<Rightarrow> lc | Inr l \<Rightarrow> l)"

definition implied_state :: "(string \<times> ObservationSessionState) list" where
  "implied_state = [(''recovery_confirmed'', OS_completed), (''deadline_expired'', OS_expired),
     (''max_samples_exhausted'', OS_expired), (''authority_revoked'', OS_revoked), (''binding_stale'', OS_revoked),
     (''scope_suspended'', OS_revoked)]"

text \<open>The transition of an ending is the one its reason fires, and the lifecycle moved by it.\<close>

definition transition_fits :: "recorded_ending \<Rightarrow> bool" where
  "transition_fits en = (case en of (reason, transition, sample_id, bef, aft) \<Rightarrow>
     (if reason = ''recovery_confirmed'' then transition = Some ''recovery_confirmed'' \<and> sample_id \<noteq> None
      else if reason \<in> {''deadline_expired'', ''max_samples_exhausted''} then transition = Some ''observation_ended_unconfirmed''
      else transition = None)
     \<and> (case transition of None \<Rightarrow> aft = bef
        | Some t \<Rightarrow> if can_fire bef t then aft = fired_or_same bef t else t \<noteq> ''recovery_confirmed'' \<and> aft = bef))"

definition ending_backed :: "ReplayReport \<Rightarrow> recorded_ending \<Rightarrow> string \<Rightarrow> bool" where
  "ending_backed r en stored_reason = (case en of (reason, transition, sample_id, bef, aft) \<Rightarrow>
     reason = stored_reason
     \<and> (rep_replayed_ended_reason r = None \<or> rep_replayed_ended_reason r = Some reason)
     \<and> \<not> (reason = ''max_samples_exhausted'' \<and> (case rep_max_samples r of None \<Rightarrow> True | Some m \<Rightarrow> rep_adopted_count r < m))
     \<and> \<not> (reason = ''deadline_expired'' \<and> rep_replayed_ended_reason r = None
          \<and> (case rep_recorded_ending_at r of None \<Rightarrow> False | Some t \<Rightarrow> t < rep_deadline_at r))
     \<and> map_of implied_state reason = Some (rep_stored_session_state r)
     \<and> transition_fits en \<and> (rep_ending_sample_id r = None \<or> sample_id = rep_ending_sample_id r))"

definition ending_consistent :: "ReplayReport \<Rightarrow> bool" where
  "ending_consistent r =
     (if rep_stored_session_state r = OS_authorized
      then rep_stored_ended_reason r = None \<and> rep_recorded_ending r = None \<and> rep_recorded_endings_count r = 0
      else case (rep_recorded_ending r, rep_stored_ended_reason r) of
        (Some en, Some reason) \<Rightarrow> rep_recorded_endings_count r = 1 \<and> ending_backed r en reason
      | _ \<Rightarrow> False)"

definition session_consistent :: "ReplayReport \<Rightarrow> bool" where
  "session_consistent r \<longleftrightarrow> ending_consistent r
     \<and> (rep_replayed_session_state r = rep_stored_session_state r
        \<or> (rep_replayed_session_state r = OS_authorized \<and> rep_ending_sample_id r = None
           \<and> rep_stored_session_state r \<in> {OS_expired, OS_revoked}))"

definition lifecycle_consistent :: "ReplayReport \<Rightarrow> bool" where
  "lifecycle_consistent r \<longleftrightarrow> rep_expected_lifecycle r = None \<or> rep_expected_lifecycle r = rep_recorded_lifecycle r"

definition consistent :: "ReplayReport \<Rightarrow> bool" where
  "consistent r \<longleftrightarrow> list_all replay_matches (rep_samples r) \<and> session_consistent r \<and> lifecycle_consistent r"

text \<open>The lifecycle the deciding sample recorded: the last with a transition, else the last.\<close>

definition recorded_lifecycle :: "sample_row list \<Rightarrow> IncidentLifecycle option" where
  "recorded_lifecycle samples = (let moved = filter (\<lambda>s. sm_transition s \<noteq> None) samples in
     if samples = [] then None
     else let l = last (if moved = [] then samples else moved) in
       Some (case sm_transition l of None \<Rightarrow> sm_subject_lifecycle l | Some t \<Rightarrow> fired_or_same (sm_subject_lifecycle l) t))"

definition fold_history ::
  "env \<Rightarrow> session_history \<Rightarrow> (uuid \<Rightarrow> (SampleOutcome \<times> bool) option) \<Rightarrow> ReplayReport domain_result" where
  "fold_history e h outcomes = (let row = hi_session h in
     bind_result (fold_samples e row (parse_required e (hi_health_profile h)) outcomes fold_start (hi_samples h)) (\<lambda>(f, rs).
       Inr \<lparr>rep_session_id = se_session_id row, rep_samples = rs, rep_replayed_session_state = fs_state f,
         rep_stored_session_state = se_state row, rep_expected_lifecycle = fs_expected_lifecycle f,
         rep_recorded_lifecycle = recorded_lifecycle (hi_samples h), rep_stored_ended_reason = se_ended_reason row,
         rep_recorded_ending = (if hi_endings h = [] then None else (let l = last (hi_endings h) in
            Some (en_ended_reason l, en_transition l, en_sample_id l, en_lifecycle_before l, en_lifecycle_after l))),
         rep_ending_sample_id = fs_ending_sample_id f, rep_healthy_since = fs_healthy_since f,
         rep_healthy_until = fs_healthy_until f, rep_adopted_sequence = fs_adopted_sequence f,
         rep_adopted_window_end = fs_adopted_window_end f, rep_adopted_count = fs_adopted_count f,
         rep_recorded_endings_count = length (hi_endings h), rep_replayed_ended_reason = fs_ended_reason f,
         rep_max_samples = (if se_max_samples row = 0 then None else Some (se_max_samples row)),
         rep_deadline_at = se_deadline_at row,
         rep_recorded_ending_at = (if hi_endings h = [] then None else Some (en_recorded_at (last (hi_endings h))))\<rparr>))"

subsection \<open>What a judgement can be\<close>

lemma judge_decision_accepted:
  assumes "sa_accepted (judge_decision session sample j)"
  shows "jg_lease_valid j \<and> jg_stamps_match j \<and> jg_readings_consistent j
    \<and> sa_accepted (evaluate_sample session sample (jg_subject_state j) (jg_within_deadline j) (jg_suspension_blocks j))"
  using assms by (auto simp: judge_decision_def sample_history_only_def split: if_splits)

lemma session_fires [simp]:
  "fire OBSERVATION_SESSION OS_authorized ''observation_completed'' = Inr OS_completed"
  "fire OBSERVATION_SESSION OS_authorized ''deadline_expired'' = Inr OS_expired"
  "fire OBSERVATION_SESSION OS_authorized ''authority_revoked'' = Inr OS_revoked"
  by (simp_all add: machine_eval OBSERVATION_SESSION_def)

text \<open>A judgement never raises: the session state is \<open>authorized\<close> wherever a trigger is fired.\<close>

lemma judge_total: "\<exists>v. judge session sample j = Inr v"
proof (cases "sa_accepted (judge_decision session sample j)")
  case True
  then have acc: "sa_accepted (evaluate_sample session sample (jg_subject_state j) (jg_within_deadline j) (jg_suspension_blocks j))"
    using judge_decision_accepted by blast
  have "os_state session = OS_authorized" using acc by (simp add: evaluate_sample_accepted_iff)
  with True accepted_adopts [OF acc] show ?thesis
    by (simp add: judge_def judge_adopted_def Let_def)
next
  case False
  then show ?thesis by (simp add: judge_def judge_rejected_def Let_def)
qed

end
