(* ===== verification/Observation_Store.thy ===== *)
theory Observation_Store
  imports Store_Alerts Observation_Judge
begin

section \<open>Sampling an observed incident (\<open>observation/store.py\<close>)\<close>

text \<open>
  The Observer claims due sampling jobs, asks before every query whether the authorization of its lease
  still stands, submits a sample with its readings, and sweeps sessions past their deadline. A
  submission is judged by \<open>judge\<close>; the sample row keeps the conditions of the decision, and the session
  row, the lifecycle of the incident and the ending record follow it in the same transaction.

  The fresh ids of a transaction: index 0 is the sample, index 1 the next job or the ending record; the
  claim numbers its ending records from 0. Samples and endings are read back in the order of their
  insertion, which is that of \<open>submitted_at\<close> and \<open>recorded_at\<close>, the clock read under the row lock of the session.
\<close>

record SampleLease =
  sl_session_id :: uuid
  sl_incident_id :: uuid
  sl_job_id :: uuid
  sl_sequence :: int
  sl_owner :: uuid
  sl_epoch :: int
  sl_lease_until :: time
  sl_subject_control_generation :: int
  sl_observation_generation :: int
  sl_health_profile_revision :: "string option"
  sl_deadline_at :: time
  sl_sample_interval_seconds :: int
  sl_adopted_window_end :: "time option"
  sl_global_suspension_generation :: int
  sl_target_suspension_generation :: int

record SampleReceipt =
  rt_sample_id :: uuid
  rt_accepted :: bool
  rt_disposition :: sample_disposition
  rt_reason :: SampleReason
  rt_confirms_health :: bool
  rt_health_basis :: health_basis
  rt_session_state :: ObservationSessionState
  rt_incident_lifecycle :: IncidentLifecycle
  rt_transition :: "string option"
  rt_next_sample_due_at :: "time option"

text \<open>The validator of \<open>SignalReading\<close>; the hash of a raw result given without one is filled in.\<close>

definition signal_reading :: "env \<Rightarrow> reading_row \<Rightarrow> reading_row option" where
  "signal_reading e r =
     (if (rg_status r = RG_ok) \<noteq> (rg_value r \<noteq> None) \<or> rg_window_end r < rg_window_start r then None
      else case rg_raw r of
        None \<Rightarrow> Some r
      | Some raw \<Rightarrow>
          if READING_RAW_LIMIT < length raw then None
          else (case rg_raw_sha256 r of
              None \<Rightarrow> Some (r\<lparr>rg_raw_sha256 := Some (env_sha256 e raw)\<rparr>)
            | Some d \<Rightarrow> if d = env_sha256 e raw then Some r else None))"

text \<open>The scope is suspended now, or a generation moved since the session was authorized.\<close>

definition scope_blocks :: "scope_row \<Rightarrow> session_row \<Rightarrow> bool" where
  "scope_blocks sc row \<longleftrightarrow> sc_global_suspended sc \<or> sc_target_suspended sc
     \<or> (sc_global_generation sc, sc_target_generation sc) \<noteq> (se_authorized_global_generation row, se_authorized_target_generation row)"

abbreviation find_session :: "uuid \<Rightarrow> db \<Rightarrow> session_row option" where
  "find_session k db \<equiv> find_row se_session_id k (db_sessions db)"

definition update_session :: "uuid \<Rightarrow> (session_row \<Rightarrow> session_row) \<Rightarrow> db \<Rightarrow> db" where
  "update_session k f db = db\<lparr>db_sessions := update_where (\<lambda>s. se_session_id s = k) f (db_sessions db)\<rparr>"

subsection \<open>Claiming due jobs\<close>

definition due_session :: "time \<Rightarrow> uuid option \<Rightarrow> db \<Rightarrow> session_row \<Rightarrow> bool" where
  "due_session now selected db s \<longleftrightarrow> find_incident (se_incident_id s) db \<noteq> None
     \<and> se_state s = OS_authorized \<and> se_authorized s \<and> se_active_sample_job_id s \<noteq> None
     \<and> (case se_active_sample_due_at s of None \<Rightarrow> False | Some t \<Rightarrow> t \<le> now)
     \<and> (case se_active_sample_lease_until s of None \<Rightarrow> True | Some t \<Rightarrow> t \<le> now)
     \<and> now < se_deadline_at s \<and> (selected = None \<or> selected = Some (se_session_id s))
     \<and> \<not> db_global_suspended db
     \<and> \<not> (case find_suspension (se_target_id s) db of None \<Rightarrow> False | Some t \<Rightarrow> ts_suspended t)"

definition due_key :: "session_row \<Rightarrow> time \<times> uuid" where
  "due_key s = (case se_active_sample_due_at s of None \<Rightarrow> 0 | Some t \<Rightarrow> t, se_session_id s)"

text \<open>\<open>FOR UPDATE \<dots> SKIP LOCKED\<close>: the rows another transaction holds are a parameter, left out before \<open>LIMIT\<close>.\<close>

definition due_sessions :: "time \<Rightarrow> uuid option \<Rightarrow> nat \<Rightarrow> uuid set \<Rightarrow> db \<Rightarrow> session_row list" where
  "due_sessions now selected limit locked db = take limit (sort_key due_key
     (filter (\<lambda>s. due_session now selected db s \<and> se_session_id s \<notin> locked) (db_sessions db)))"

definition lease_row :: "uuid \<Rightarrow> time \<Rightarrow> session_row \<Rightarrow> session_row" where
  "lease_row owner until s = s\<lparr>se_active_sample_owner := Some owner, se_active_sample_epoch := se_active_sample_epoch s + 1,
     se_active_sample_lease_until := Some until\<rparr>"

text \<open>A due session has a job, and a job its sequence (\<open>CHECK\<close> of the table).\<close>

definition sample_lease :: "session_row \<Rightarrow> uuid \<Rightarrow> time \<Rightarrow> scope_row \<Rightarrow> SampleLease" where
  "sample_lease row owner until sc = \<lparr>sl_session_id = se_session_id row, sl_incident_id = se_incident_id row,
     sl_job_id = the (se_active_sample_job_id row), sl_sequence = the (se_active_sample_sequence row), sl_owner = owner,
     sl_epoch = se_active_sample_epoch row + 1, sl_lease_until = until,
     sl_subject_control_generation = se_subject_control_generation row,
     sl_observation_generation = se_observation_generation row,
     sl_health_profile_revision = se_health_profile_revision row, sl_deadline_at = se_deadline_at row,
     sl_sample_interval_seconds = se_sample_interval_seconds row, sl_adopted_window_end = se_adopted_window_end row,
     sl_global_suspension_generation = sc_global_generation sc, sl_target_suspension_generation = sc_target_generation sc\<rparr>"

definition incident_lifecycle_of :: "uuid \<Rightarrow> db \<Rightarrow> IncidentLifecycle" where
  "incident_lifecycle_of k db = (case find_incident k db of None \<Rightarrow> L_open | Some i \<Rightarrow> ir_lifecycle i)"

fun claim_sessions :: "env \<Rightarrow> uuid \<Rightarrow> time \<Rightarrow> nat \<Rightarrow> session_row list \<Rightarrow> db \<Rightarrow> SampleLease list tx" where
  "claim_sessions e owner until n [] db = Inr ([], db)"
| "claim_sessions e owner until n (row # rows) db =
     bind_result (lock_scope db (Some (se_incident_id row)) []) (\<lambda>sc.
       if scope_blocks sc row
       then (let lc = incident_lifecycle_of (se_incident_id row) db in
         bind_result (end_session e n (se_session_id row) (se_incident_id row) ''scope_suspended'' None lc lc None None True db)
           (claim_sessions e owner until (Suc n) rows))
       else bind_result (claim_sessions e owner until n rows (update_session (se_session_id row) (lease_row owner until) db))
         (\<lambda>(leases, db'). Inr (sample_lease row owner until sc # leases, db')))"

definition claim_incident_due_samples ::
  "uuid \<Rightarrow> int \<Rightarrow> int \<Rightarrow> uuid option \<Rightarrow> uuid set \<Rightarrow> env \<Rightarrow> db \<Rightarrow> SampleLease list outcome" where
  "claim_incident_due_samples owner limit lease_seconds selected locked e db =
     (if limit \<le> 0 \<or> lease_seconds \<le> 0 then (Inl E_INVALID_INPUT, db)
      else transaction db (claim_sessions e owner (env_now e + seconds lease_seconds) 0
        (due_sessions (env_now e) selected (nat limit) locked db) db))"

text \<open>What the Observer asks before every query.\<close>

definition lease_scope_current :: "SampleLease \<Rightarrow> db \<Rightarrow> perr + bool" where
  "lease_scope_current lease db = bind_result (lock_scope db (Some (sl_incident_id lease)) []) (\<lambda>sc.
     case (find_session (sl_session_id lease) db, find_incident (sl_incident_id lease) db) of
       (Some s, Some i) \<Rightarrow> Inr (\<not> sc_global_suspended sc \<and> \<not> sc_target_suspended sc
         \<and> sc_global_generation sc = sl_global_suspension_generation lease
         \<and> sc_target_generation sc = sl_target_suspension_generation lease
         \<and> se_state s = OS_authorized \<and> se_active_sample_job_id s = Some (sl_job_id lease)
         \<and> se_active_sample_owner s = Some (sl_owner lease) \<and> se_active_sample_epoch s = sl_epoch lease
         \<and> ir_control_generation i = sl_subject_control_generation lease
         \<and> ir_observation_generation i = sl_observation_generation lease
         \<and> se_subject_control_generation s = sl_subject_control_generation lease
         \<and> se_observation_generation s = sl_observation_generation lease)
     | _ \<Rightarrow> Inr False)"

subsection \<open>Submitting a sample\<close>

definition required_signals_of :: "env \<Rightarrow> string option \<Rightarrow> db \<Rightarrow> string list option \<times> bool" where
  "required_signals_of e revision db = (case revision of None \<Rightarrow> (None, False)
     | Some k \<Rightarrow> parse_required e (find_row hp_revision k (db_profiles db)))"

definition sample_lease_valid :: "SampleLease \<Rightarrow> session_row \<Rightarrow> time \<Rightarrow> bool" where
  "sample_lease_valid lease row now \<longleftrightarrow> se_active_sample_job_id row = Some (sl_job_id lease)
     \<and> se_active_sample_owner row = Some (sl_owner lease) \<and> se_active_sample_epoch row = sl_epoch lease
     \<and> (case se_active_sample_lease_until row of None \<Rightarrow> False | Some t \<Rightarrow> now < t)"

definition stamps_match :: "SampleLease \<Rightarrow> session_row \<Rightarrow> HealthSample \<Rightarrow> bool" where
  "stamps_match lease row sample \<longleftrightarrow> se_active_sample_sequence row = Some (hs_sequence sample)
     \<and> hs_subject_control_generation sample = sl_subject_control_generation lease
     \<and> hs_observation_generation sample = sl_observation_generation lease
     \<and> hs_health_profile_revision sample = sl_health_profile_revision lease"

text \<open>The lifecycle trigger an ending fires: a confirmation must be legal, an unconfirmed ending may find
  a lifecycle that cannot take it.\<close>

definition ending_transition :: "IncidentLifecycle \<Rightarrow> string \<Rightarrow> perr + IncidentLifecycle" where
  "ending_transition lc trigger =
     (if trigger = ''recovery_confirmed''
      then (case fire INCIDENT_LIFECYCLE lc trigger of Inl _ \<Rightarrow> Inl E_ILLEGAL_TRANSITION | Inr l \<Rightarrow> Inr l)
      else Inr (fired_or_same lc trigger))"

definition moved_lifecycle :: "IncidentLifecycle \<Rightarrow> Verdict \<Rightarrow> perr + IncidentLifecycle" where
  "moved_lifecycle lc v = (case (vd_ended_reason v, vd_transition v) of
      (Some _, Some t) \<Rightarrow> ending_transition lc t | _ \<Rightarrow> Inr lc)"

text \<open>The session row after an adopted sample that does not end the session: the watermark moves and
  the next job is issued. A rejected one under a valid lease only postpones the job.\<close>

definition next_job :: "env \<Rightarrow> Verdict \<Rightarrow> session_row \<Rightarrow> session_row" where
  "next_job e v s = s\<lparr>se_adopted_sequence := vd_adopted_sequence v, se_adopted_window_end := vd_adopted_window_end v,
     se_adopted_count := vd_adopted_count v, se_healthy_since := vd_healthy_since v,
     se_issued_sequence := se_issued_sequence s + 1, se_active_sample_job_id := Some (env_uuid4 e 1),
     se_active_sample_sequence := Some (se_issued_sequence s + 1),
     se_active_sample_due_at := Some (env_now e + seconds (se_sample_interval_seconds s)),
     se_active_sample_owner := None, se_active_sample_epoch := 0, se_active_sample_lease_until := None\<rparr>"

definition postponed_job :: "env \<Rightarrow> session_row \<Rightarrow> session_row" where
  "postponed_job e s = s\<lparr>se_active_sample_due_at := Some (env_now e + seconds (se_sample_interval_seconds s)),
     se_active_sample_owner := None, se_active_sample_lease_until := None\<rparr>"

definition next_session :: "env \<Rightarrow> Verdict \<Rightarrow> bool \<Rightarrow> session_row \<Rightarrow> session_row" where
  "next_session e v lease_ok s = (if vd_ended_reason v \<noteq> None then s
     else if sa_accepted (vd_decision v) then next_job e v s else if lease_ok then postponed_job e s else s)"

definition marks_of :: "Verdict \<Rightarrow> session_marks" where
  "marks_of v = \<lparr>mk_adopted_sequence = Some (vd_adopted_sequence v), mk_adopted_window_end = vd_adopted_window_end v,
     mk_adopted_count = Some (vd_adopted_count v), mk_healthy_since = vd_healthy_since v\<rparr>"

text \<open>The conditions of a decision.\<close>

record sample_conditions =
  sx_scope_suspended :: bool
  sx_global_generation :: int
  sx_target_generation :: int
  sx_within_deadline :: bool
  sx_lease_valid :: bool
  sx_stamps_match :: bool
  sx_readings_consistent :: bool

definition conditions_of ::
  "env \<Rightarrow> SampleLease \<Rightarrow> HealthSample \<Rightarrow> reading_row list \<Rightarrow> scope_row \<Rightarrow> session_row \<Rightarrow> db \<Rightarrow> sample_conditions" where
  "conditions_of e lease sample rows sc row db = (let ok = sample_lease_valid lease row (env_now e) in
     \<lparr>sx_scope_suspended = scope_blocks sc row, sx_global_generation = sc_global_generation sc,
      sx_target_generation = sc_target_generation sc, sx_within_deadline = env_now e < se_deadline_at row,
      sx_lease_valid = ok, sx_stamps_match = (\<not> ok \<or> stamps_match lease row sample),
      sx_readings_consistent = (missing_required_signals (required_signals_of e (se_health_profile_revision row) db)
        (hs_outcome sample) (hs_required_signals_present sample) (ok_signals (hs_window sample) rows) = [])\<rparr>)"

definition session_of_row :: "session_row \<Rightarrow> incident_row \<Rightarrow> ObservationSession" where
  "session_of_row row i = domain_session row (ir_control_generation i) (ir_observation_generation i) (se_state row)
     (se_adopted_sequence row) (se_adopted_window_end row) (se_active_sample_job_id row)"

definition submit_input :: "sample_conditions \<Rightarrow> session_row \<Rightarrow> incident_row \<Rightarrow> judge_input" where
  "submit_input c row i = \<lparr>jg_subject_state = Inl (ir_lifecycle i), jg_within_deadline = sx_within_deadline c,
     jg_suspension_blocks = sx_scope_suspended c, jg_lease_valid = sx_lease_valid c, jg_stamps_match = sx_stamps_match c,
     jg_readings_consistent = sx_readings_consistent c, jg_authorized_at = se_authorized_at row,
     jg_adopted_count = se_adopted_count row, jg_healthy_since = se_healthy_since row, jg_max_samples = se_max_samples row,
     jg_sustained_window_seconds = se_sustained_window_seconds row\<rparr>"

definition new_sample_row ::
  "env \<Rightarrow> SampleLease \<Rightarrow> HealthSample \<Rightarrow> reading_row list \<Rightarrow> sample_conditions \<Rightarrow> incident_row \<Rightarrow> Verdict \<Rightarrow> sample_row" where
  "new_sample_row e lease sample rows c i v =
     \<lparr>sm_sample_id = env_uuid4 e 0, sm_session_id = sl_session_id lease, sm_job_id = sl_job_id lease,
      sm_sequence = hs_sequence sample, sm_epoch = sl_epoch lease, sm_window = hs_window sample, sm_outcome = hs_outcome sample,
      sm_required_signals_present = hs_required_signals_present sample,
      sm_subject_control_generation = hs_subject_control_generation sample,
      sm_observation_generation = hs_observation_generation sample,
      sm_health_profile_revision = hs_health_profile_revision sample, sm_disposition = sa_disposition (vd_decision v),
      sm_reason = sa_reason (vd_decision v), sm_confirms_health = vd_healthy v, sm_health_basis = vd_health_basis v,
      sm_subject_lifecycle = ir_lifecycle i, sm_incident_control_generation = ir_control_generation i,
      sm_incident_observation_generation = ir_observation_generation i, sm_scope_suspended = sx_scope_suspended c,
      sm_global_generation = sx_global_generation c, sm_target_generation = sx_target_generation c,
      sm_within_deadline = sx_within_deadline c, sm_lease_valid = sx_lease_valid c,
      sm_lease_stamps_match = sx_stamps_match c, sm_readings_consistent = sx_readings_consistent c,
      sm_transition = vd_transition v, sm_readings = rows\<rparr>"

text \<open>The \<open>CHECK\<close>s of the table are of the constructors of the sample; a sequence is adopted once per session.\<close>

definition insert_sample :: "sample_row \<Rightarrow> db \<Rightarrow> perr + db" where
  "insert_sample m db =
     (if sm_sequence m \<le> 0 \<or> qw_end (sm_window m) \<le> qw_start (sm_window m) then Inl E_STORAGE_UNAVAILABLE
      else if sm_disposition m = SD_adopted \<and> (\<exists>x \<in> set (db_samples db). sm_session_id x = sm_session_id m
        \<and> sm_sequence x = sm_sequence m \<and> sm_disposition x = SD_adopted) then Inl E_IDENTITY_CONFLICT
      else bind_result (insert_row sm_sample_id m (db_samples db)) (\<lambda>ms. Inr (db\<lparr>db_samples := ms\<rparr>)))"

definition sample_receipt :: "env \<Rightarrow> Verdict \<Rightarrow> bool \<Rightarrow> session_row \<Rightarrow> IncidentLifecycle \<Rightarrow> SampleReceipt" where
  "sample_receipt e v lease_ok row lc = \<lparr>rt_sample_id = env_uuid4 e 0, rt_accepted = sa_accepted (vd_decision v),
     rt_disposition = sa_disposition (vd_decision v), rt_reason = sa_reason (vd_decision v), rt_confirms_health = vd_healthy v,
     rt_health_basis = vd_health_basis v, rt_session_state = vd_session_state v, rt_incident_lifecycle = lc,
     rt_transition = vd_transition v,
     rt_next_sample_due_at = (if vd_ended_reason v = None \<and> (sa_accepted (vd_decision v) \<or> lease_ok)
       then Some (env_now e + seconds (se_sample_interval_seconds row)) else None)\<rparr>"

text \<open>The writes of a judged sample: lifecycle and session row, the sample, then the ending that points at it.\<close>

definition write_sample ::
  "env \<Rightarrow> SampleLease \<Rightarrow> HealthSample \<Rightarrow> reading_row list \<Rightarrow> sample_conditions \<Rightarrow> incident_row \<Rightarrow> Verdict \<Rightarrow> db
     \<Rightarrow> IncidentLifecycle tx" where
  "write_sample e lease sample rows c i v db = bind_result (moved_lifecycle (ir_lifecycle i) v) (\<lambda>lc.
     let db1 = update_session (sl_session_id lease) (next_session e v (sx_lease_valid c))
           (if lc \<noteq> ir_lifecycle i then update_incident (sl_incident_id lease) (\<lambda>x. x\<lparr>ir_lifecycle := lc\<rparr>) db else db) in
     bind_result (insert_sample (new_sample_row e lease sample rows c i v) db1) (\<lambda>db2.
       case vd_ended_reason v of
         None \<Rightarrow> Inr (lc, db2)
       | Some reason \<Rightarrow>
           bind_result (end_session e 1 (sl_session_id lease) (sl_incident_id lease) reason (vd_transition v) (ir_lifecycle i) lc
             (if sa_accepted (vd_decision v) then Some (env_uuid4 e 0) else None) (Some (marks_of v)) True db2)
             (\<lambda>db3. Inr (lc, db3))))"

definition submit_sample_in ::
  "env \<Rightarrow> SampleLease \<Rightarrow> HealthSample \<Rightarrow> reading_row list \<Rightarrow> db \<Rightarrow> SampleReceipt tx" where
  "submit_sample_in e lease sample rows db =
     (if \<not> distinct (map rg_signal_name rows) \<or> hs_session_id sample \<noteq> uuid_str (sl_session_id lease) then Inl E_INVALID_INPUT
      else case (find_incident (sl_incident_id lease) db, find_session (sl_session_id lease) db) of
        (Some i, Some row) \<Rightarrow>
          if se_incident_id row \<noteq> sl_incident_id lease then Inl E_INCONSISTENT_STATE
          else bind_result (lock_scope db (Some (sl_incident_id lease)) []) (\<lambda>sc.
            if env_now e + seconds WINDOW_FUTURE_SKEW_SECONDS < qw_end (hs_window sample) then Inl E_INVALID_INPUT
            else (let c = conditions_of e lease sample rows sc row db in
              case judge (session_of_row row i) sample (submit_input c row i) of
                Inl _ \<Rightarrow> Inl E_UNCAUGHT
              | Inr v \<Rightarrow> bind_result (write_sample e lease sample rows c i v db) (\<lambda>(lc, db').
                  Inr (sample_receipt e v (sx_lease_valid c) row lc, db'))))
      | _ \<Rightarrow> Inl E_UNKNOWN_IDENTITY)"

definition submit_sample ::
  "SampleLease \<Rightarrow> HealthSample \<Rightarrow> reading_row list \<Rightarrow> env \<Rightarrow> db \<Rightarrow> SampleReceipt outcome" where
  "submit_sample lease sample rows e db = transaction db (submit_sample_in e lease sample rows db)"

subsection \<open>The deadline sweep and the withdrawal\<close>

definition expired_candidates :: "env \<Rightarrow> int \<Rightarrow> db \<Rightarrow> (uuid \<times> uuid) list" where
  "expired_candidates e limit db = map (\<lambda>s. (se_session_id s, se_incident_id s)) (take (nat limit)
     (sort_key (\<lambda>s. (se_deadline_at s, se_session_id s))
       (filter (\<lambda>s. se_state s = OS_authorized \<and> se_deadline_at s \<le> env_now e) (db_sessions db))))"

text \<open>One candidate, in a transaction of its own.\<close>

definition expire_session :: "env \<Rightarrow> uuid \<times> uuid \<Rightarrow> db \<Rightarrow> uuid option tx" where
  "expire_session e c db = (case (find_incident (snd c) db, find_session (fst c) db) of
      (Some i, Some row) \<Rightarrow>
        if se_state row \<noteq> OS_authorized \<or> env_now e < se_deadline_at row then Inr (None, db)
        else bind_result (ending_transition (ir_lifecycle i) ''observation_ended_unconfirmed'') (\<lambda>lc.
          bind_result (end_session e 0 (fst c) (snd c) ''deadline_expired'' (Some ''observation_ended_unconfirmed'')
             (ir_lifecycle i) lc None None True db) (\<lambda>db1.
            Inr (Some (fst c), if lc \<noteq> ir_lifecycle i then update_incident (snd c) (\<lambda>x. x\<lparr>ir_lifecycle := lc\<rparr>) db1 else db1)))
    | _ \<Rightarrow> Inl E_UNKNOWN_IDENTITY)"

fun expire_loop :: "env list \<Rightarrow> (uuid \<times> uuid) list \<Rightarrow> db \<Rightarrow> uuid list outcome" where
  "expire_loop es [] db = (Inr [], db)"
| "expire_loop [] (c # cs) db = (Inl E_UNCAUGHT, db)"
| "expire_loop (e # es) (c # cs) db = (case transaction db (expire_session e c db) of
      (Inl err, db1) \<Rightarrow> (Inl err, db1)
    | (Inr p, db1) \<Rightarrow> (case expire_loop es cs db1 of
        (Inl err, db2) \<Rightarrow> (Inl err, db2)
      | (Inr ps, db2) \<Rightarrow> (Inr ((case p of None \<Rightarrow> [] | Some k \<Rightarrow> [k]) @ ps), db2)))"

text \<open>The environment of the snapshot and one per transaction.\<close>

definition sweep_expired_sessions :: "int \<Rightarrow> env \<Rightarrow> env list \<Rightarrow> db \<Rightarrow> uuid list outcome" where
  "sweep_expired_sessions limit e es db =
     (if limit \<le> 0 then (Inl E_INVALID_INPUT, db) else expire_loop es (expired_candidates e limit db) db)"

definition revoke_sessions :: "uuid \<Rightarrow> env \<Rightarrow> db \<Rightarrow> uuid list outcome" where
  "revoke_sessions incident_id e db = transaction db
     (if find_incident incident_id db = None then Inl E_UNKNOWN_IDENTITY else revoke_authorized_sessions e 0 incident_id db)"

subsection \<open>Reading a session back\<close>

definition session_history_in :: "uuid \<Rightarrow> db \<Rightarrow> perr + session_history" where
  "session_history_in k db = (case find_session k db of
      None \<Rightarrow> Inl E_UNKNOWN_IDENTITY
    | Some row \<Rightarrow> (case find_incident (se_incident_id row) db of
        None \<Rightarrow> Inl E_INCONSISTENT_STATE
      | Some i \<Rightarrow> Inr \<lparr>hi_session = row, hi_incident_lifecycle = ir_lifecycle i,
          hi_health_profile = Option.bind (se_health_profile_revision row) (\<lambda>r. find_row hp_revision r (db_profiles db)),
          hi_samples = filter (\<lambda>m. sm_session_id m = k) (db_samples db),
          hi_endings = filter (\<lambda>en. en_session_id en = k) (db_endings db)\<rparr>))"

definition replay_session :: "env \<Rightarrow> uuid \<Rightarrow> db \<Rightarrow> perr + ReplayReport" where
  "replay_session e k db = bind_result (session_history_in k db) (\<lambda>h.
     case fold_history e h (\<lambda>k. None) of Inl _ \<Rightarrow> Inl E_UNCAUGHT | Inr r \<Rightarrow> Inr r)"

end
