(* ===== verification/Observation_Grants.thy ===== *)
theory Observation_Grants
  imports Observation_Store
begin

section \<open>Authorizing an observation (\<open>observation/store.py\<close>, \<open>observation/bindings.py\<close>)\<close>

text \<open>
  A session is authorized by the human action \<open>register_remediation\<close> or by the automatic observation after
  a published conclusion. Both complete the identity of the target once, store the health profile once
  per revision, move the incident to \<open>observing_recovery\<close> and insert one session with its first job. The
  decisions on the automatic observation are rows of their own, one per control generation, retried with
  a doubling delay and handed to a human with a timeline event after the last failure.

  The fresh ids: index 0 is the audit row, 1 the session, 2 its first job; the ending records of revoked
  sessions start at 3 and the stale marks after them.
\<close>

subsection \<open>Profiles and identities\<close>

definition store_profile :: "env \<Rightarrow> string \<Rightarrow> string option \<Rightarrow> db \<Rightarrow> perr + db" where
  "store_profile e revision content db = (case content of
      None \<Rightarrow> Inl E_INVALID_INPUT
    | Some text \<Rightarrow>
        if text = [] then Inl E_INVALID_INPUT
        else (let (profile_id, separator, suffix) = rpartition_at revision; digest = env_sha256 e text in
          if \<not> separator \<or> profile_id = [] \<or> suffix \<noteq> take 12 digest then Inl E_HEALTH_PROFILE_REVISION_MISMATCH
          else case find_row hp_revision revision (db_profiles db) of
            Some p \<Rightarrow> if hp_content_sha256 p \<noteq> digest then Inl E_HEALTH_PROFILE_REVISION_MISMATCH else Inr db
          | None \<Rightarrow> Inr (db\<lparr>db_profiles := db_profiles db @ [\<lparr>hp_revision = revision, hp_profile_id = profile_id,
              hp_content_sha256 = digest, hp_content = text\<rparr>]\<rparr>)))"

text \<open>The configured identity of a target: the four identity fields and the workload.\<close>

record target_identity =
  ti_integration_id :: string
  ti_cluster_uid :: string
  ti_namespace :: string
  ti_resource_uid :: string
  ti_workload :: string

definition identity_filled :: "target_identity \<Rightarrow> bool" where
  "identity_filled t \<longleftrightarrow> ti_integration_id t \<noteq> [] \<and> ti_cluster_uid t \<noteq> [] \<and> ti_namespace t \<noteq> []
     \<and> ti_resource_uid t \<noteq> [] \<and> ti_workload t \<noteq> []"

definition identity_complete :: "target_row \<Rightarrow> bool" where
  "identity_complete r \<longleftrightarrow> tg_integration_id r \<noteq> None \<and> tg_cluster_uid r \<noteq> None \<and> tg_namespace r \<noteq> None \<and> tg_workload r \<noteq> None"

definition identity_agrees :: "target_row \<Rightarrow> target_identity \<Rightarrow> bool" where
  "identity_agrees r t \<longleftrightarrow> tg_integration_id r = Some (ti_integration_id t) \<and> tg_cluster_uid r = Some (ti_cluster_uid t)
     \<and> tg_namespace r = Some (ti_namespace t) \<and> tg_resource_uid r = ti_resource_uid t \<and> tg_workload r = Some (ti_workload t)"

definition identity_bare :: "target_row \<Rightarrow> bool" where
  "identity_bare r \<longleftrightarrow> tg_integration_id r = None \<and> tg_cluster_uid r = None \<and> tg_namespace r = None \<and> tg_workload r = None"

definition complete_identity :: "uuid \<Rightarrow> target_identity option \<Rightarrow> db \<Rightarrow> perr + db" where
  "complete_identity target_id identity db =
     (if (case identity of None \<Rightarrow> False | Some t \<Rightarrow> \<not> identity_filled t) then Inl E_INVALID_INPUT
      else case find_row tg_target_id target_id (db_targets db) of
        None \<Rightarrow> Inl E_INCONSISTENT_STATE
      | Some r \<Rightarrow>
          if (case identity of None \<Rightarrow> False | Some t \<Rightarrow> ti_resource_uid t \<noteq> tg_resource_uid r) then Inl E_TARGET_MISMATCH
          else if identity_complete r
          then (if (case identity of None \<Rightarrow> False | Some t \<Rightarrow> \<not> identity_agrees r t) then Inl E_TARGET_MISMATCH else Inr db)
          else case identity of
            None \<Rightarrow> Inl E_TARGET_IDENTITY_MISSING
          | Some t \<Rightarrow> Inr (db\<lparr>db_targets := update_where (\<lambda>x. tg_target_id x = target_id \<and> identity_bare x)
              (\<lambda>x. x\<lparr>tg_integration_id := Some (ti_integration_id t), tg_cluster_uid := Some (ti_cluster_uid t),
                 tg_namespace := Some (ti_namespace t), tg_workload := Some (ti_workload t)\<rparr>) (db_targets db)\<rparr>))"

definition registered_target :: "uuid \<Rightarrow> string option \<Rightarrow> db \<Rightarrow> perr + Target" where
  "registered_target target_id revision db = (case find_row tg_target_id target_id (db_targets db) of
      None \<Rightarrow> Inl E_INCONSISTENT_STATE
    | Some r \<Rightarrow> (case (tg_integration_id r, tg_cluster_uid r, tg_namespace r) of
        (Some a, Some b, Some c) \<Rightarrow> Inr \<lparr>t_integration_id = a, t_cluster_uid = b, t_namespace = c,
           t_resource_uid = tg_resource_uid r, t_revision = revision\<rparr>
      | _ \<Rightarrow> Inl E_TARGET_IDENTITY_MISSING))"

definition identity_of :: "Target \<Rightarrow> string \<times> string \<times> string \<times> string" where
  "identity_of t = (t_integration_id t, t_cluster_uid t, t_namespace t, t_resource_uid t)"

subsection \<open>One session\<close>

text \<open>The keyword arguments of \<open>authorize_session_in\<close>.\<close>

record session_grant =
  sg_revision :: "string option"
  sg_actor :: string
  sg_source :: authorization_source
  sg_deadline_at :: time
  sg_max_samples :: int
  sg_sample_interval_seconds :: int
  sg_sustained_window_seconds :: int
  sg_profile_revision :: "string option"
  sg_profile :: "string option"
  sg_session_id :: "uuid option"
  sg_first_due_at :: "time option"

definition grant_refused :: "session_grant \<Rightarrow> bool" where
  "grant_refused g \<longleftrightarrow> (sg_revision g = None \<and> sg_source g \<noteq> AS_automatic) \<or> sg_revision g = Some [] \<or> sg_actor g = []
     \<or> sg_max_samples g \<le> 0 \<or> sg_sample_interval_seconds g \<le> 0 \<or> sg_sustained_window_seconds g \<le> 0
     \<or> sg_profile_revision g = Some []"

text \<open>The profile is stored, and names the workload it observes.\<close>

definition granted_profile :: "env \<Rightarrow> session_grant \<Rightarrow> db \<Rightarrow> perr + (string \<times> string) option \<times> db" where
  "granted_profile e g db = (case sg_profile_revision g of
      Some revision \<Rightarrow> bind_result (store_profile e revision (sg_profile g) db) (\<lambda>db'.
        bind_result (profile_subject e (or_old (sg_profile g) [])) (\<lambda>s. Inr (Some s, db')))
    | None \<Rightarrow> if sg_profile g \<noteq> None then Inl E_INVALID_INPUT else Inr (None, db))"

definition profile_mismatch :: "(string \<times> string) option \<Rightarrow> uuid \<Rightarrow> Target \<Rightarrow> db \<Rightarrow> bool" where
  "profile_mismatch subject target_id target db = (case subject of None \<Rightarrow> False
     | Some (ns, service) \<Rightarrow> \<not> (ns = t_namespace target
         \<and> Option.bind (find_row tg_target_id target_id (db_targets db)) tg_workload = Some service))"

definition new_session ::
  "env \<Rightarrow> time \<Rightarrow> session_grant \<Rightarrow> uuid \<Rightarrow> Target \<Rightarrow> incident_row \<Rightarrow> scope_row \<Rightarrow> session_row" where
  "new_session e now g target_id target i sc =
     \<lparr>se_session_id = or_old (sg_session_id g) (env_uuid4 e 1), se_incident_id = ir_incident_id i, se_target_id = target_id,
      se_target = target, se_subject_control_generation = ir_control_generation i,
      se_observation_generation = ir_observation_generation i + 1, se_authorized = True, se_authorized_by = sg_actor g,
      se_authorized_at = env_later e, se_authorization_source = sg_source g, se_state = OS_authorized, se_ended_reason = None,
      se_health_profile_revision = sg_profile_revision g, se_authorized_global_generation = sc_global_generation sc,
      se_authorized_target_generation = sc_target_generation sc, se_deadline_at = sg_deadline_at g,
      se_max_samples = sg_max_samples g, se_sample_interval_seconds = sg_sample_interval_seconds g,
      se_sustained_window_seconds = sg_sustained_window_seconds g, se_adopted_sequence = 0, se_adopted_window_end = None,
      se_adopted_count = 0, se_healthy_since = None, se_issued_sequence = 1,
      se_active_sample_job_id = Some (env_uuid4 e 2), se_active_sample_sequence = Some 1,
      se_active_sample_due_at = Some (or_old (sg_first_due_at g) (now + seconds (sg_sample_interval_seconds g))),
      se_active_sample_owner = None, se_active_sample_epoch = 0, se_active_sample_lease_until = None\<rparr>"

definition observing_lifecycle :: "IncidentLifecycle \<Rightarrow> perr + IncidentLifecycle" where
  "observing_lifecycle lc = (if lc = L_observing_recovery then Inr lc
     else case fire INCIDENT_LIFECYCLE lc ''start_recovery_observation'' of Inl _ \<Rightarrow> Inl E_ILLEGAL_TRANSITION | Inr l \<Rightarrow> Inr l)"

definition has_authorized :: "uuid \<Rightarrow> db \<Rightarrow> bool" where
  "has_authorized k db \<longleftrightarrow> (\<exists>s \<in> set (db_sessions db). se_incident_id s = k \<and> se_state s = OS_authorized)"

text \<open>The checks under the incident lock, up to the lifecycle of the observed incident.\<close>

definition session_checks ::
  "time \<Rightarrow> session_grant \<Rightarrow> (string \<times> string) option \<Rightarrow> incident_row \<Rightarrow> db \<Rightarrow> perr + uuid \<times> Target \<times> IncidentLifecycle" where
  "session_checks now g subject i db =
     (if ir_state i = IS_paused then Inl E_ILLEGAL_TRANSITION
      else case ir_target_id i of
        None \<Rightarrow> Inl E_UNKNOWN_TARGET
      | Some t \<Rightarrow> bind_result (registered_target t (sg_revision g) db) (\<lambda>target.
          if profile_mismatch subject t target db then Inl E_HEALTH_PROFILE_TARGET_MISMATCH
          else if \<exists>s \<in> set (db_sessions db). se_target_id s = t \<and> identity_of (se_target s) \<noteq> identity_of target
          then Inl E_TARGET_MISMATCH
          else if has_authorized (ir_incident_id i) db then Inl E_OBSERVATION_ALREADY_AUTHORIZED
          else bind_result (observing_lifecycle (ir_lifecycle i)) (\<lambda>lc.
            if sg_deadline_at g \<le> now then Inl E_INVALID_INPUT else Inr (t, target, lc))))"

definition authorize_session_in :: "env \<Rightarrow> nat \<Rightarrow> time \<Rightarrow> uuid \<Rightarrow> session_grant \<Rightarrow> db \<Rightarrow> uuid tx" where
  "authorize_session_in e n now incident_id g db =
     (if grant_refused g then Inl E_INVALID_INPUT
      else bind_result (granted_profile e g db) (\<lambda>(subject, db1).
        case find_incident incident_id db1 of
          None \<Rightarrow> Inl E_UNKNOWN_IDENTITY
        | Some i \<Rightarrow> bind_result (session_checks now g subject i db1) (\<lambda>(t, target, lc).
            bind_result (lock_scope db1 (Some incident_id) []) (\<lambda>sc.
            bind_result (mark_stale_in e n incident_id ''observation_changed'' ''observation.authorize''
              (update_incident incident_id (\<lambda>x. x\<lparr>ir_lifecycle := lc, ir_observation_generation := ir_observation_generation i + 1\<rparr>) db1))
              (\<lambda>db2. let s = new_session e now g t target i sc in
                bind_result (insert_row se_session_id s (db_sessions db2)) (\<lambda>ss.
                  Inr (se_session_id s, db2\<lparr>db_sessions := ss\<rparr>)))))))"

definition authorize_session :: "uuid \<Rightarrow> session_grant \<Rightarrow> env \<Rightarrow> db \<Rightarrow> uuid outcome" where
  "authorize_session incident_id g e db = transaction db (authorize_session_in e 3 (env_now e) incident_id g db)"

subsection \<open>The human action\<close>

definition remediation_audit :: "(string, json) fmap option \<Rightarrow> session_grant \<Rightarrow> uuid \<Rightarrow> uuid list \<Rightarrow> (string, json) fmap" where
  "remediation_audit payload g session revoked = or_old payload fmempty ++\<^sub>f fmap_of_list
     [(''revision'', opt_str (sg_revision g)), (''session_id'', JStr (uuid_str session)),
      (''health_profile_revision'', opt_str (sg_profile_revision g)),
      (''revoked_sessions'', JArr (map (JStr \<circ> uuid_str) revoked))]"

definition register_remediation_in ::
  "env \<Rightarrow> uuid \<Rightarrow> int \<Rightarrow> session_grant \<Rightarrow> target_identity option \<Rightarrow> (string, json) fmap option \<Rightarrow> db \<Rightarrow> int tx" where
  "register_remediation_in e k expected g identity payload db =
     bind_result (lock_scope db (Some k) []) (\<lambda>sc. case find_incident k db of
        None \<Rightarrow> Inl E_UNKNOWN_IDENTITY
      | Some i \<Rightarrow>
          if ir_control_generation i \<noteq> expected then Inl E_CONTROL_CONFLICT
          else if ir_lifecycle i = L_closed then Inl E_REOPEN_REQUIRED
          else if sc_global_suspended sc \<or> sc_target_suspended sc then Inl E_SCOPE_SUSPENDED
          else case ir_target_id i of
            None \<Rightarrow> Inl E_UNKNOWN_TARGET
          | Some t \<Rightarrow> bind_result (complete_identity t identity db) (\<lambda>db1.
              bind_result (revoke_authorized_sessions e 3 k (bump k (expected + 1) db1)) (\<lambda>(revoked, db2).
              bind_result (authorize_session_in e (3 + length revoked) (env_now e) k (g\<lparr>sg_source := AS_post_remediation\<rparr>) db2) (\<lambda>(s, db3).
              bind_result (record_control e k ''register_remediation'' expected (expected + 1) (sg_actor g)
                (Some (remediation_audit payload g s revoked)) db3) (\<lambda>db4. Inr (expected + 1, db4))))))"

definition register_remediation ::
  "uuid \<Rightarrow> int \<Rightarrow> session_grant \<Rightarrow> target_identity option \<Rightarrow> (string, json) fmap option \<Rightarrow> env \<Rightarrow> db \<Rightarrow> int outcome" where
  "register_remediation k expected g identity payload e db =
     (if expected < 0 then (Inl E_INVALID_INPUT, db)
      else transaction db (register_remediation_in e k expected g identity payload db))"

subsection \<open>The automatic observation\<close>

definition AUTO_OBSERVATION_ACTOR :: string where "AUTO_OBSERVATION_ACTOR = ''system''"
definition AUTO_OBSERVATION_ACTION :: string where "AUTO_OBSERVATION_ACTION = ''auto_authorize_observation''"
definition AUTO_OBSERVATION_MAX_ATTEMPTS :: int where "AUTO_OBSERVATION_MAX_ATTEMPTS = 5"
definition AUTO_OBSERVATION_HANDED_OFF :: string where "AUTO_OBSERVATION_HANDED_OFF = ''auto_observation_handed_off''"
definition AUTO_OBSERVATION_RETRY_BASE_SECONDS :: int where "AUTO_OBSERVATION_RETRY_BASE_SECONDS = 30"

text \<open>The refusals of the primitive that settle a decision as skipped, with their codes.\<close>

definition AUTO_OBSERVATION_NOT_APPLICABLE :: "(perr \<times> string) list" where
  "AUTO_OBSERVATION_NOT_APPLICABLE =
     [(E_ILLEGAL_TRANSITION, ''ILLEGAL_TRANSITION''), (E_INVALID_INPUT, ''INVALID_INPUT''), (E_UNKNOWN_TARGET, ''UNKNOWN_TARGET''),
      (E_TARGET_IDENTITY_MISSING, ''TARGET_IDENTITY_MISSING''), (E_TARGET_MISMATCH, ''TARGET_MISMATCH''),
      (E_HEALTH_PROFILE_TARGET_MISMATCH, ''HEALTH_PROFILE_TARGET_MISMATCH''),
      (E_HEALTH_PROFILE_REVISION_MISMATCH, ''HEALTH_PROFILE_REVISION_MISMATCH''),
      (E_OBSERVATION_ALREADY_AUTHORIZED, ''OBSERVATION_ALREADY_AUTHORIZED'')]"

record SelfHealGrant =
  hg_session_id :: uuid
  hg_profile_revision :: string
  hg_profile :: string
  hg_deadline_seconds :: int
  hg_max_samples :: int
  hg_sample_interval_seconds :: int
  hg_sustained_window_seconds :: int
  hg_identity :: "target_identity option"

text \<open>The current Run of the incident completed at its generation.\<close>

definition published_here :: "incident_row \<Rightarrow> db \<Rightarrow> bool" where
  "published_here i db = (case Option.bind (ir_current_run_id i) (\<lambda>k. find_run k db) of
      None \<Rightarrow> False
    | Some r \<Rightarrow> rr_incident_id r = ir_incident_id i \<and> rr_state r = R_completed
        \<and> rr_control_generation r = ir_control_generation i)"

abbreviation find_decision :: "uuid \<Rightarrow> int \<Rightarrow> db \<Rightarrow> self_heal_row option" where
  "find_decision k generation db \<equiv> find_row (\<lambda>a. (sh_incident_id a, sh_control_generation a)) (k, generation) (db_self_heal db)"

definition decision_due :: "time \<Rightarrow> self_heal_row \<Rightarrow> bool" where
  "decision_due now a = (case sh_next_attempt_at a of None \<Rightarrow> False | Some t \<Rightarrow> t \<le> now)"

text \<open>The join with the retries that are due or of a generation that is gone; without one, an incident
  whose conclusion is published at the current generation and not decided yet.\<close>

definition retries_of :: "time \<Rightarrow> incident_row \<Rightarrow> db \<Rightarrow> int list" where
  "retries_of now i db = map sh_control_generation (filter (\<lambda>a. sh_incident_id a = ir_incident_id i \<and> sh_state a = SH_retrying
     \<and> (decision_due now a \<or> sh_control_generation a \<noteq> ir_control_generation i)) (db_self_heal db))"

definition undecided :: "incident_row \<Rightarrow> db \<Rightarrow> bool" where
  "undecided i db \<longleftrightarrow> ir_conclusion i \<noteq> None \<and> ir_lifecycle i \<in> {L_open, L_observing_recovery} \<and> published_here i db
     \<and> find_decision (ir_incident_id i) (ir_control_generation i) db = None"

definition candidate_generations :: "time \<Rightarrow> db \<Rightarrow> incident_row \<Rightarrow> (incident_row \<times> int) list" where
  "candidate_generations now db i = (let rs = retries_of now i db in
     if rs \<noteq> [] then map (Pair i) rs else if undecided i db then [(i, ir_control_generation i)] else [])"

definition auto_observation_candidates :: "env \<Rightarrow> int \<Rightarrow> db \<Rightarrow> perr + (uuid \<times> string \<times> int) list" where
  "auto_observation_candidates e limit db = (if limit \<le> 0 then Inl E_INVALID_INPUT
     else Inr (map (\<lambda>(i, g). (ir_incident_id i, ir_intake_key i, g)) (take (nat limit)
       (sort_key (\<lambda>(i, g). (ir_created_at i, ir_incident_id i, g))
         (concat (map (candidate_generations (env_now e) db) (db_incidents db)))))))"

definition auto_observation_refusal :: "incident_row \<Rightarrow> scope_row \<Rightarrow> int \<Rightarrow> db \<Rightarrow> string option" where
  "auto_observation_refusal i sc generation db =
     (if ir_control_generation i \<noteq> generation then Some ''CONTROL_GENERATION_CHANGED''
      else if ir_conclusion i = None \<or> \<not> published_here i db then Some ''NOT_PUBLISHED_AT_GENERATION''
      else if ir_mode i \<noteq> M_automatic then Some ''HUMAN_OWNED''
      else if sc_global_suspended sc \<or> sc_target_suspended sc then Some ''SCOPE_SUSPENDED''
      else if ir_state i = IS_paused then Some ''INCIDENT_PAUSED''
      else if ir_state i = IS_cancelled then Some ''INCIDENT_CANCELLED''
      else if \<exists>a \<in> set (db_alert_identities db). ai_incident_id a = ir_incident_id i \<and> ai_handoff_reason a \<noteq> None
      then Some ''HANDOFF_ONLY''
      else if has_authorized (ir_incident_id i) db then Some ''OBSERVATION_ALREADY_AUTHORIZED''
      else if ir_lifecycle i \<noteq> L_open then Some ''LIFECYCLE_NOT_OPEN''
      else if ir_target_id i = None then Some ''UNKNOWN_TARGET'' else None)"

definition automatic_grant :: "SelfHealGrant \<Rightarrow> time \<Rightarrow> session_grant" where
  "automatic_grant h now = \<lparr>sg_revision = None, sg_actor = AUTO_OBSERVATION_ACTOR, sg_source = AS_automatic,
     sg_deadline_at = now + seconds (hg_deadline_seconds h), sg_max_samples = hg_max_samples h,
     sg_sample_interval_seconds = hg_sample_interval_seconds h, sg_sustained_window_seconds = hg_sustained_window_seconds h,
     sg_profile_revision = Some (hg_profile_revision h), sg_profile = Some (hg_profile h),
     sg_session_id = Some (hg_session_id h), sg_first_due_at = None\<rparr>"

definition automatic_audit :: "SelfHealGrant \<Rightarrow> uuid \<Rightarrow> time \<Rightarrow> (string, json) fmap" where
  "automatic_audit h session now = fmap_of_list [(''authorization_source'', JStr ''automatic''), (''trigger'', JStr ''published''),
     (''revision'', JNull), (''session_id'', JStr (uuid_str session)),
     (''health_profile_revision'', JStr (hg_profile_revision h)),
     (''deadline_at'', JStr (isoformat_utc (now + seconds (hg_deadline_seconds h))))]"

definition authorize_automatic_in :: "env \<Rightarrow> incident_row \<Rightarrow> int \<Rightarrow> SelfHealGrant \<Rightarrow> db \<Rightarrow> uuid tx" where
  "authorize_automatic_in e i generation h db = (case ir_target_id i of
      None \<Rightarrow> Inl E_INCONSISTENT_STATE
    | Some t \<Rightarrow> bind_result (complete_identity t (hg_identity h) db) (\<lambda>db1.
        bind_result (authorize_session_in e 3 (env_later e) (ir_incident_id i) (automatic_grant h (env_now e)) db1) (\<lambda>(s, db2).
        bind_result (record_control e (ir_incident_id i) AUTO_OBSERVATION_ACTION generation generation AUTO_OBSERVATION_ACTOR
          (Some (automatic_audit h s (env_now e))) db2) (\<lambda>db3. Inr (s, db3)))))"

text \<open>A due retry is settled in place, its attempts are kept.\<close>

definition record_auto_observation ::
  "uuid \<Rightarrow> int \<Rightarrow> self_heal_state \<Rightarrow> string option \<Rightarrow> uuid option \<Rightarrow> db \<Rightarrow> self_heal_row \<times> db" where
  "record_auto_observation k generation state reason session db = (case find_decision k generation db of
      Some a \<Rightarrow> (let a' = a\<lparr>sh_state := state, sh_reason := reason, sh_session_id := session, sh_next_attempt_at := None\<rparr> in
        (a', db\<lparr>db_self_heal := update_where (\<lambda>x. (sh_incident_id x, sh_control_generation x) = (k, generation)) (\<lambda>x. a') (db_self_heal db)\<rparr>))
    | None \<Rightarrow> (let a' = \<lparr>sh_incident_id = k, sh_control_generation = generation, sh_state = state, sh_reason = reason,
          sh_attempts = 0, sh_next_attempt_at = None, sh_session_id = session\<rparr> in
        (a', db\<lparr>db_self_heal := db_self_heal db @ [a']\<rparr>)))"

definition settled_elsewhere :: "time \<Rightarrow> incident_row \<Rightarrow> int \<Rightarrow> self_heal_row option \<Rightarrow> bool" where
  "settled_elsewhere now i generation recorded = (case recorded of None \<Rightarrow> False
     | Some a \<Rightarrow> sh_state a \<noteq> SH_retrying \<or> (ir_control_generation i = generation \<and> \<not> decision_due now a))"

text \<open>The refusal of the primitive is recorded, the database is the one before the savepoint.\<close>

definition decide_automatic ::
  "env \<Rightarrow> incident_row \<Rightarrow> int \<Rightarrow> SelfHealGrant option \<Rightarrow> string option \<Rightarrow> scope_row \<Rightarrow> db \<Rightarrow> self_heal_row tx" where
  "decide_automatic e i generation grant refusal sc db =
     (let k = ir_incident_id i;
          skipped = (\<lambda>reason. Inr (record_auto_observation k generation SH_skipped (Some reason) None db)) in
      case auto_observation_refusal i sc generation db of
        Some reason \<Rightarrow> skipped reason
      | None \<Rightarrow> (case (refusal, grant) of
          (Some reason, _) \<Rightarrow> skipped reason
        | (None, None) \<Rightarrow> Inl E_UNCAUGHT
        | (None, Some h) \<Rightarrow> (case authorize_automatic_in e i generation h db of
            Inl err \<Rightarrow> (case map_of AUTO_OBSERVATION_NOT_APPLICABLE err of None \<Rightarrow> Inl err | Some code \<Rightarrow> skipped code)
          | Inr (s, db') \<Rightarrow> Inr (record_auto_observation k generation SH_authorized None (Some s) db'))))"

definition authorize_automatic_observation ::
  "uuid \<Rightarrow> int \<Rightarrow> SelfHealGrant option \<Rightarrow> string option \<Rightarrow> bool \<Rightarrow> env \<Rightarrow> db \<Rightarrow> self_heal_row option outcome" where
  "authorize_automatic_observation k generation grant refusal locked e db =
     (if generation < 0 \<or> (grant = None \<and> refusal = None) \<or> refusal = Some [] then (Inl E_INVALID_INPUT, db)
      else transaction db (bind_result (lock_scope db (Some k) []) (\<lambda>sc.
        case (if locked then None else find_incident k db) of
          None \<Rightarrow> Inr (None, db)
        | Some i \<Rightarrow>
            if settled_elsewhere (env_now e) i generation (find_decision k generation db) then Inr (None, db)
            else bind_result (decide_automatic e i generation grant refusal sc db) (\<lambda>(a, db'). Inr (Some a, db')))))"

subsection \<open>Failures and the hand-off event (\<open>persistence/events.py\<close>)\<close>

text \<open>\<open>payload @> key\<close> for a key of scalar values.\<close>

definition payload_contains :: "(string, json) fmap \<Rightarrow> (string, json) fmap \<Rightarrow> bool" where
  "payload_contains payload key \<longleftrightarrow> fmpred (\<lambda>k v. fmlookup payload k = Some v) key"

definition event_retained :: "(string, json) fmap \<Rightarrow> (string, json) fmap \<Rightarrow> bool" where
  "event_retained key payload \<longleftrightarrow> payload_contains payload key
     \<or> (fmlookup key ''reconciled'' = Some (JBool False) \<and> payload_contains payload (fmdrop ''reconciled'' key)
        \<and> fmlookup payload ''reconciled'' = None)"

definition append_once_in ::
  "uuid \<Rightarrow> string \<Rightarrow> (string, json) fmap \<Rightarrow> (string, json) fmap \<Rightarrow> db \<Rightarrow> perr + int \<times> db" where
  "append_once_in subject kind payload key db =
     (if kind = [] \<or> 64 < length kind then Inl E_UNCAUGHT
      else let retained = filter (\<lambda>v. ev_subject_id v = subject \<and> ev_kind v = kind \<and> event_retained key (ev_payload v)) (db_events db);
               sequences = map ev_sequence (filter (\<lambda>v. ev_subject_id v = subject) (db_events db)) in
        if retained \<noteq> [] then Inr (Min (set (map ev_sequence retained)), db)
        else let n = max_or 0 sequences + 1 in
          Inr (n, db\<lparr>db_events := db_events db @ [\<lparr>ev_subject_id = subject, ev_sequence = n, ev_kind = kind, ev_payload = payload\<rparr>]\<rparr>))"

definition failed_attempt :: "env \<Rightarrow> string \<Rightarrow> self_heal_row \<Rightarrow> self_heal_row" where
  "failed_attempt e reason a = (let attempts = sh_attempts a + 1; exhausted = AUTO_OBSERVATION_MAX_ATTEMPTS \<le> attempts in
     a\<lparr>sh_state := (if exhausted then SH_handed_off else SH_retrying), sh_reason := Some reason, sh_attempts := attempts,
       sh_next_attempt_at := (if exhausted then None
         else Some (env_now e + seconds (AUTO_OBSERVATION_RETRY_BASE_SECONDS * 2 ^ nat (attempts - 1))))\<rparr>)"

definition handed_off_payload :: "self_heal_row \<Rightarrow> (string, json) fmap" where
  "handed_off_payload a = fmap_of_list [(''control_generation'', JInt (sh_control_generation a)), (''reason'', opt_str (sh_reason a)),
     (''attempts'', JInt (sh_attempts a))]"

text \<open>Counting a failure: the row is inserted with no attempts when there is none yet.\<close>

definition count_failure :: "env \<Rightarrow> uuid \<Rightarrow> int \<Rightarrow> string \<Rightarrow> db \<Rightarrow> self_heal_row tx" where
  "count_failure e k generation reason db =
     (let old = (case find_decision k generation db of Some a \<Rightarrow> a
        | None \<Rightarrow> \<lparr>sh_incident_id = k, sh_control_generation = generation, sh_state = SH_retrying, sh_reason = Some reason,
            sh_attempts = 0, sh_next_attempt_at = Some (env_now e), sh_session_id = None\<rparr>);
          a' = failed_attempt e reason old;
          db1 = db\<lparr>db_self_heal := (if find_decision k generation db = None then db_self_heal db @ [a']
            else update_where (\<lambda>x. (sh_incident_id x, sh_control_generation x) = (k, generation)) (\<lambda>x. a') (db_self_heal db))\<rparr> in
      if sh_state a' \<noteq> SH_handed_off then Inr (a', db1)
      else bind_result (append_once_in k AUTO_OBSERVATION_HANDED_OFF (handed_off_payload a')
             (fmap_of_list [(''control_generation'', JInt generation)]) db1) (\<lambda>(n, db2). Inr (a', db2)))"

definition failure_stale :: "incident_row \<Rightarrow> int \<Rightarrow> db \<Rightarrow> string option" where
  "failure_stale i generation db = (if ir_control_generation i \<noteq> generation then Some ''CONTROL_GENERATION_CHANGED''
     else if ir_conclusion i = None \<or> \<not> published_here i db then Some ''NOT_PUBLISHED_AT_GENERATION'' else None)"

text \<open>Under the lock: a generation that moved on is retired, no attempt counted.\<close>

definition fail_or_retire :: "env \<Rightarrow> incident_row \<Rightarrow> int \<Rightarrow> string \<Rightarrow> db \<Rightarrow> self_heal_row tx" where
  "fail_or_retire e i generation reason db = (case failure_stale i generation db of
      Some stale \<Rightarrow> Inr (record_auto_observation (ir_incident_id i) generation SH_skipped (Some stale) None db)
    | None \<Rightarrow> count_failure e (ir_incident_id i) generation reason db)"

definition record_auto_observation_failure :: "uuid \<Rightarrow> int \<Rightarrow> string \<Rightarrow> env \<Rightarrow> db \<Rightarrow> self_heal_row outcome" where
  "record_auto_observation_failure k generation reason e db =
     (if generation < 0 \<or> reason = [] then (Inl E_INVALID_INPUT, db)
      else transaction db (bind_result (lock_scope db (Some k) []) (\<lambda>sc. case find_incident k db of
          None \<Rightarrow> Inl E_UNKNOWN_IDENTITY
        | Some i \<Rightarrow> (case find_decision k generation db of
            Some a \<Rightarrow> if sh_state a \<noteq> SH_retrying then Inr (a, db) else fail_or_retire e i generation reason db
          | None \<Rightarrow> fail_or_retire e i generation reason db))))"

definition auto_observation_decision :: "uuid \<Rightarrow> int \<Rightarrow> db \<Rightarrow> self_heal_row option" where
  "auto_observation_decision k generation db = find_decision k generation db"

end
