(* ===== verification/Observation_Steps.thy ===== *)
theory Observation_Steps
  imports Observation_Grants
begin

section \<open>The observation operations as steps of the abstract machine\<close>

text \<open>
  Sampling, sweeping and the automatic authorization move no Run and no generation: they are \<open>work\<close> that
  may change the lifecycle of the incident, and the automatic authorization leaves a note in the audit
  log. \<open>register_remediation\<close> is a human decision like those of \<open>control\<close>.
\<close>

lemma end_session_same: "end_session e n s i reason tr bef aft m marks job db = Inr db' \<Longrightarrow> same_core db db'"
  by (auto simp: end_session_def Let_def bind_result_Inr_iff same_core_def split: option.splits sum.splits)

lemma update_session_same [simp]: "same_core db (update_session k f db)"
  by (simp add: update_session_def same_core_def)

lemma claim_sessions_same: "claim_sessions e owner until n rows db = Inr (ls, db') \<Longrightarrow> same_core db db'"
proof (induction e owner until n rows db arbitrary: ls rule: claim_sessions.induct)
  case (2 e owner until n row rows db)
  from 2(3) obtain sc where sc: "lock_scope db (Some (se_incident_id row)) [] = Inr sc"
    by (auto simp: bind_result_Inr_iff)
  show ?case
  proof (cases "scope_blocks sc row")
    case True
    with 2(3) sc obtain lc db1 where "end_session e n (se_session_id row) (se_incident_id row) ''scope_suspended'' None lc lc None None True db = Inr db1"
      "claim_sessions e owner until (Suc n) rows db1 = Inr (ls, db')" and "lc = incident_lifecycle_of (se_incident_id row) db"
      by (auto simp: bind_result_Inr_iff Let_def)
    with 2(1) [OF True refl] end_session_same show ?thesis by (blast intro: same_core_trans)
  next
    case False
    with 2(3) sc obtain ls' where "claim_sessions e owner until n rows (update_session (se_session_id row) (lease_row owner until) db) = Inr (ls', db')"
      by (auto simp: bind_result_Inr_iff)
    from 2(2) [OF False this] show ?thesis using update_session_same same_core_trans by blast
  qed
qed simp

lemma core_claim_samples: "core_step db (snd (claim_incident_due_samples owner limit s sel locked e db))"
  unfolding claim_incident_due_samples_def
  by (auto simp: core_same intro!: core_transaction dest: claim_sessions_same)

text \<open>The lifecycle of one incident.\<close>

lemma core_lifecycle:
  assumes "db_incidents db' = update_where (\<lambda>i. ir_incident_id i = k) g (db_incidents db)"
    and "\<And>i. work_incident i (g i)" and "same_core (db\<lparr>db_incidents := db_incidents db', db_controls := db_controls db'\<rparr>) db'"
    and "notes_step db db'"
  shows "core_step db db'"
  by (rule work [where P = "\<lambda>r. False" and f = id and Q = "\<lambda>i. ir_incident_id i = k" and g = g])
    (use assms in \<open>simp_all add: same_core_def inputs_same gates_same\<close>)

lemma write_sample_effect:
  assumes "write_sample e lease sample rows c i v db = Inr (lc, db')"
  shows "same_core (if lc \<noteq> ir_lifecycle i then update_incident (sl_incident_id lease) (\<lambda>x. x\<lparr>ir_lifecycle := lc\<rparr>) db else db) db'"
proof -
  let ?db0 = "if lc \<noteq> ir_lifecycle i then update_incident (sl_incident_id lease) (\<lambda>x. x\<lparr>ir_lifecycle := lc\<rparr>) db else db"
  from assms obtain db2 where db2: "insert_sample (new_sample_row e lease sample rows c i v)
       (update_session (sl_session_id lease) (next_session e v (sx_lease_valid c)) ?db0) = Inr db2"
    and rest: "same_core db2 db'"
    by (auto simp: write_sample_def bind_result_Inr_iff Let_def dest: end_session_same split: option.splits)
  have "same_core (update_session (sl_session_id lease) (next_session e v (sx_lease_valid c)) ?db0) db2"
    using db2 by (auto simp: insert_sample_def bind_result_Inr_iff same_core_def split: if_splits)
  then show ?thesis using rest by (blast intro: same_core_trans update_session_same)
qed

lemma core_submit_sample: "core_step db (snd (submit_sample lease sample rows e db))"
  unfolding submit_sample_def
proof (rule core_transaction)
  fix r db' assume "submit_sample_in e lease sample rows db = Inr (r, db')"
  then obtain c i v lc where "write_sample e lease sample rows c i v db = Inr (lc, db')"
    by (auto simp: submit_sample_in_def Let_def bind_result_Inr_iff split: if_splits option.splits sum.splits)
  from write_sample_effect [OF this] show "core_step db db'"
    by (cases "lc = ir_lifecycle i")
      (auto simp: core_same same_core_def work_incident_def
        intro: core_lifecycle [where k = "sl_incident_id lease" and g = "\<lambda>x. x\<lparr>ir_lifecycle := lc\<rparr>"])
qed

lemma expire_effect:
  assumes "expire_session e c db = Inr (p, db')"
  shows "same_core db db' \<or> (\<exists>lc. same_core (update_incident (snd c) (\<lambda>x. x\<lparr>ir_lifecycle := lc\<rparr>) db) db')"
  using assms
  by (auto simp: expire_session_def bind_result_Inr_iff same_core_def update_incident_def dest!: end_session_same
      split: option.splits if_splits)

lemma core_expire: "core_step db (snd (transaction db (expire_session e c db)))"
proof (rule core_transaction)
  fix p db' assume "expire_session e c db = Inr (p, db')"
  from expire_effect [OF this] consider "same_core db db'"
    | lc where "same_core (update_incident (snd c) (\<lambda>x. x\<lparr>ir_lifecycle := lc\<rparr>) db) db'" by blast
  then show "core_step db db'"
  proof cases
    case 2
    then show ?thesis
      by (auto simp: same_core_def work_incident_def
          intro: core_lifecycle [where k = "snd c" and g = "\<lambda>x. x\<lparr>ir_lifecycle := lc\<rparr>"])
  qed (simp add: core_same)
qed

lemma core_revoke_sessions: "core_step db (snd (revoke_sessions k e db))"
  unfolding revoke_sessions_def by (rule core_transaction) (auto dest: revoke_same core_same split: if_splits)

subsection \<open>Authorization\<close>

lemma complete_identity_same: "complete_identity t identity db = Inr db' \<Longrightarrow> same_core db db'"
  by (auto simp: complete_identity_def same_core_def split: if_splits option.splits)

lemma store_profile_same: "store_profile e r content db = Inr db' \<Longrightarrow> same_core db db'"
  by (auto simp: store_profile_def same_core_def Let_def split: if_splits option.splits prod.splits)

lemma granted_profile_same: "granted_profile e g db = Inr (subject, db') \<Longrightarrow> same_core db db'"
  by (auto simp: granted_profile_def bind_result_Inr_iff dest: store_profile_same split: if_splits option.splits)

text \<open>What an authorization does to the tables of the abstract machine.\<close>

lemma authorize_session_effect:
  assumes "authorize_session_in e n now k g db = Inr (s, db')"
  shows "\<exists>lc gen. same_core (update_incident k (\<lambda>x. x\<lparr>ir_lifecycle := lc, ir_observation_generation := gen\<rparr>) db) db'"
proof -
  from assms obtain subject db1 i t target lc db2 ss where p: "granted_profile e g db = Inr (subject, db1)"
    and c: "session_checks now g subject i db1 = Inr (t, target, lc)"
    and rest: "mark_stale_in e n k ''observation_changed'' ''observation.authorize'' (update_incident k
       (\<lambda>x. x\<lparr>ir_lifecycle := lc, ir_observation_generation := ir_observation_generation i + 1\<rparr>) db1) = Inr db2"
      "db' = db2\<lparr>db_sessions := ss\<rparr>"
    by (auto simp: authorize_session_in_def bind_result_Inr_iff Let_def split: if_splits option.splits)
  then have "same_core (update_incident k (\<lambda>x. x\<lparr>ir_lifecycle := lc, ir_observation_generation := ir_observation_generation i + 1\<rparr>) db1) db'"
    by (auto dest!: stale_same simp: same_core_def)
  with granted_profile_same [OF p] show ?thesis by (auto simp: same_core_def update_incident_def)
qed

lemma core_authorize_session: "core_step db (snd (authorize_session k g e db))"
  unfolding authorize_session_def
proof (rule core_transaction)
  fix s db' assume "authorize_session_in e 3 (env_now e) k g db = Inr (s, db')"
  from authorize_session_effect [OF this] obtain lc gen where
    a: "same_core (update_incident k (\<lambda>x. x\<lparr>ir_lifecycle := lc, ir_observation_generation := gen\<rparr>) db) db'" by blast
  show "core_step db db'"
    by (rule core_lifecycle [where k = k and g = "\<lambda>x. x\<lparr>ir_lifecycle := lc, ir_observation_generation := gen\<rparr>"])
      (use a in \<open>simp_all add: same_core_def work_incident_def\<close>)
qed

text \<open>The human action is a decision on the incident.\<close>

lemma decided_remediation:
  assumes "register_remediation_in e k expected g identity payload db = Inr (m, db')"
  shows "decided k db db' \<and> m = expected + 1"
proof -
  from assms obtain i where i: "find_incident k db = Some i"
    by (auto simp: register_remediation_in_def bind_result_Inr_iff split: option.splits)
  from assms obtain t db1 ks db2 s db3 where g: "ir_control_generation i = expected"
    and d1: "complete_identity t identity db = Inr db1"
    and d2: "revoke_authorized_sessions e 3 k (bump k (expected + 1) db1) = Inr (ks, db2)"
    and d3: "authorize_session_in e (3 + length ks) (env_now e) k (g\<lparr>sg_source := AS_post_remediation\<rparr>) db2 = Inr (s, db3)"
    and d4: "record_control e k ''register_remediation'' expected (expected + 1) (sg_actor g)
        (Some (remediation_audit payload g s ks)) db3 = Inr db'" and m: "m = expected + 1"
    by (auto simp: register_remediation_in_def i bind_result_Inr_iff split: if_splits option.split_asm)
  from authorize_session_effect [OF d3] obtain lc gen where
    a: "same_core (update_incident k (\<lambda>x. x\<lparr>ir_lifecycle := lc, ir_observation_generation := gen\<rparr>) db2) db3" by blast
  from record_control_Inr [OF d4] obtain c where c: "db' = db3\<lparr>db_controls := db_controls db3 @ [c]\<rparr>" "ca_incident_id c = k"
    "ca_resulting_generation c = expected + 1" "ca_expected_generation c = expected" by blast
  show ?thesis
    by (intro conjI m, rule decided_step [OF i, where ?db2.0 = db3 and c = c and S = "{}" and s = R_cancelled and
        g = "(\<lambda>x. x\<lparr>ir_lifecycle := lc, ir_observation_generation := gen\<rparr>) \<circ> (\<lambda>x. x\<lparr>ir_control_generation := expected + 1\<rparr>)"])
      (use a c g revoke_same [OF d2] complete_identity_same [OF d1] in
        \<open>simp_all add: same_core_def bump_def update_incident_twice inputs_same gates_same\<close>)
qed

lemma core_register_remediation: "core_step db (snd (register_remediation k expected g identity payload e db))"
  unfolding register_remediation_def
  by (auto simp: core_same intro!: core_transaction dest!: decided_remediation intro: decision)

lemma record_auto_same: "record_auto_observation k generation state reason s db = (a, db') \<Longrightarrow> same_core db db'"
  by (auto simp: record_auto_observation_def same_core_def Let_def split: option.splits)

text \<open>The automatic authorization: a note in the audit log, and the lifecycle.\<close>

lemma authorize_automatic_effect:
  assumes "authorize_automatic_in e i generation h db = Inr (s, db')" and i: "find_incident (ir_incident_id i) db \<noteq> None"
  shows "core_step db db'"
proof -
  from assms obtain t db1 db2 where d1: "complete_identity t (hg_identity h) db = Inr db1"
    and d2: "authorize_session_in e 3 (env_later e) (ir_incident_id i) (automatic_grant h (env_now e)) db1 = Inr (s, db2)"
    and d3: "record_control e (ir_incident_id i) AUTO_OBSERVATION_ACTION generation generation AUTO_OBSERVATION_ACTOR
          (Some (automatic_audit h s (env_now e))) db2 = Inr db'"
    by (auto simp: authorize_automatic_in_def bind_result_Inr_iff split: option.splits)
  from authorize_session_effect [OF d2] obtain lc gen where a: "same_core (update_incident (ir_incident_id i)
    (\<lambda>x. x\<lparr>ir_lifecycle := lc, ir_observation_generation := gen\<rparr>) db1) db2" by blast
  from record_control_Inr [OF d3] obtain c where c: "db' = db2\<lparr>db_controls := db_controls db2 @ [c]\<rparr>"
    "ca_incident_id c = ir_incident_id i" "ca_resulting_generation c = generation" "ca_expected_generation c = generation" by blast
  have "db_controls db' = db_controls db @ [c]" using a c(1) complete_identity_same [OF d1] by (simp add: same_core_def)
  then have n: "notes_step db db'" using c i by (auto simp: notes_step_def raises_def)
  show ?thesis
    by (rule core_lifecycle [OF _ _ _ n, where k = "ir_incident_id i" and g = "\<lambda>x. x\<lparr>ir_lifecycle := lc, ir_observation_generation := gen\<rparr>"])
      (use a c(1) complete_identity_same [OF d1] in \<open>simp_all add: same_core_def work_incident_def\<close>)
qed

lemma core_step_same: "core_step db db1 \<Longrightarrow> same_core db1 db2 \<Longrightarrow> core_step db db2"
  by (erule core_step_equal [OF _ core_equal_refl core_equal_same])

lemma decide_automatic_effect:
  assumes "decide_automatic e i generation grant refusal sc db = Inr (a, db')" and "find_incident (ir_incident_id i) db \<noteq> None"
  shows "core_step db db'"
  using assms
  by (auto simp: decide_automatic_def Let_def split: option.splits sum.splits
      dest!: record_auto_same intro: core_same core_step_same dest: authorize_automatic_effect)

lemma core_authorize_automatic: "core_step db (snd (authorize_automatic_observation k generation grant refusal locked e db))"
proof (cases "generation < 0 \<or> (grant = None \<and> refusal = None) \<or> refusal = Some []")
  case False
  have "core_step db db'" if "bind_result (lock_scope db (Some k) []) (\<lambda>sc. case (if locked then None else find_incident k db) of
          None \<Rightarrow> Inr (None, db)
        | Some i \<Rightarrow> if settled_elsewhere (env_now e) i generation (find_decision k generation db) then Inr (None, db)
            else bind_result (decide_automatic e i generation grant refusal sc db) (\<lambda>(a, db'). Inr (Some a, db'))) = Inr (x, db')" for x db'
  proof -
    from that consider "db' = db" | i sc a where "find_incident k db = Some i" "decide_automatic e i generation grant refusal sc db = Inr (a, db')"
      by (auto simp: bind_result_Inr_iff split: if_splits option.splits)
    then show ?thesis
    proof cases
      case 2
      then have "find_incident (ir_incident_id i) db \<noteq> None" using find_row_key [OF 2(1)] by simp
      with 2(2) show ?thesis by (rule decide_automatic_effect)
    qed (simp add: core_same)
  qed
  with False show ?thesis unfolding authorize_automatic_observation_def by (auto intro: core_transaction)
qed (simp add: authorize_automatic_observation_def core_same)

lemma fail_or_retire_same: "fail_or_retire e i generation reason db = Inr (a, db') \<Longrightarrow> same_core db db'"
  by (auto simp: fail_or_retire_def count_failure_def append_once_in_def Let_def bind_result_Inr_iff same_core_def
      dest!: record_auto_same split: option.splits if_splits)

lemma core_auto_failure: "core_step db (snd (record_auto_observation_failure k generation reason e db))"
proof (cases "generation < 0 \<or> reason = []")
  case False
  then show ?thesis
    unfolding record_auto_observation_failure_def if_not_P [OF False]
    by (intro core_transaction core_same)
      (auto simp: bind_result_Inr_iff dest: fail_or_retire_same split: option.split_asm if_split_asm)
qed (auto simp: record_auto_observation_failure_def core_same)

end
