(* ===== verification/Store_Safety.thy ===== *)
theory Store_Safety
  imports Observation_Steps
begin

section \<open>What holds in every reachable state of the store\<close>

text \<open>
  \<open>agent_step\<close> is one committed or refused operation with any arguments, clock readings and fresh ids,
  \<open>store_step\<close> is that or an operation on an observation session; a history is any sequence of them, so every interleaving of workers, sweeps, intakes and human
  decisions is one. The deadline sweep and the backlog pass appear as their single transactions.
\<close>

inductive agent_step :: "db \<Rightarrow> db \<Rightarrow> bool" where
  agent_accept: "agent_step db (snd (transaction db (accept_in e a db)))"
| agent_register: "agent_step db (snd (register_target e uid t db))"
| agent_new_run: "agent_step db (snd (new_run k j expected deadline limit versions actor inp payload e db))"
| agent_claim: "agent_step db (snd (claim k j owner versions secs e db))"
| agent_renew: "agent_step db (snd (renew_lease secs e lease db))"
| agent_block: "agent_step db (snd (block e lease db))"
| agent_hand_off: "agent_step db (snd (hand_off e lease db))"
| agent_abandon: "agent_step db (abandon e lease db)"
| agent_sweep: "agent_step db (snd (transaction db (sweep_one e c db)))"
| agent_backlog: "agent_step db (snd (park_backlog_one max_queued e db))"
| agent_reserve: "agent_step db (snd (reserve_budget k amount seconds_f e lease db))"
| agent_settle: "agent_step db (snd (settle_budget k out seconds_o e lease db))"
| agent_charge: "agent_step db (snd (charge_tool operation seconds_f max_ops max_secs k e lease db))"
| agent_commit: "agent_step db (snd (commit_step key response e lease db))"
| agent_tool: "agent_step db (snd (commit_tool sid ordinal result e lease db))"
| agent_round: "agent_step db (snd (begin_round key e lease db))"
| agent_publish: "agent_step db (snd (publish conclusion sid e lease db))"
| agent_suspend: "agent_step db (snd (set_global_suspension suspended expected actor e db))"
| agent_suspend_target: "agent_step db (snd (set_target_suspension t uid suspended expected actor e db))"
| agent_control: "agent_step db (snd (control d rn e db))"
| agent_input: "agent_step db (snd (append_input e k x content actor db))"
| agent_alert: "agent_step db (snd (record_alert_reading seen e a op db))"
| agent_delivery: "agent_step db (snd (claim_outbox e limit lease_t now max_attempts locked db))"
| agent_delivered: "agent_step db (snd (mark_delivered e ids now db))"
| agent_dropped: "agent_step db (snd (mark_dropped e ids reason now db))"
| agent_retry: "agent_step db (snd (schedule_retry e retries now db))"
| agent_trim: "agent_step db (snd (trim_backlog e limit now lease_t locked db))"
| agent_purge: "agent_step db (snd (purge e retention export_enabled db))"

text \<open>The operations on observation sessions come on top; the sweep of expired sessions appears as its
  single transactions.\<close>

inductive store_step :: "db \<Rightarrow> db \<Rightarrow> bool" where
  step_agent: "agent_step db db' \<Longrightarrow> store_step db db'"
| step_authorize: "store_step db (snd (authorize_session k g e db))"
| step_remediation: "store_step db (snd (register_remediation k expected g identity payload e db))"
| step_automatic: "store_step db (snd (authorize_automatic_observation k generation grant refusal locked e db))"
| step_auto_failure: "store_step db (snd (record_auto_observation_failure k generation reason e db))"
| step_claim_samples: "store_step db (snd (claim_incident_due_samples owner limit secs selected locked e db))"
| step_submit: "store_step db (snd (submit_sample lease sample rows e db))"
| step_expire: "store_step db (snd (transaction db (expire_session e c db)))"
| step_revoke: "store_step db (snd (revoke_sessions k e db))"

lemmas step_accept = step_agent [OF agent_accept]
lemmas step_claim = step_agent [OF agent_claim]
lemmas step_control = step_agent [OF agent_control]
lemmas step_input = step_agent [OF agent_input]

lemma outbox_ops_same:
  "same_core db (snd (claim_outbox e limit lease_t now max_attempts locked db))"
  "same_core db (snd (mark_delivered e ids now db))" "same_core db (snd (mark_dropped e ids reason now db))"
  "same_core db (snd (schedule_retry e retries now db))" "same_core db (snd (trim_backlog e n now lease_t locked db))"
  "same_core db (snd (purge e retention export_enabled db))"
  by (simp_all add: same_core_def claim_outbox_def mark_delivered_def mark_dropped_def schedule_retry_def trim_backlog_def
      purge_def purge_expired_def outbox_update_def Let_def)

lemma agent_refines_core: "agent_step db db' \<Longrightarrow> store_ok db \<Longrightarrow> core_step db db'"
  by (induction rule: agent_step.induct)
    (simp_all add: core_accept_in core_register core_new_run core_claim core_renew core_block core_hand_off core_abandon
      core_sweep_one core_park_backlog_one core_reserve core_settle core_charge core_commit_step core_commit_tool
      core_begin_round core_publish core_global_suspension core_target_suspension core_control core_append_input
      core_record_alert core_same outbox_ops_same)

lemma store_refines_core: "store_step db db' \<Longrightarrow> store_ok db \<Longrightarrow> core_step db db'"
  by (induction rule: store_step.induct)
    (simp_all add: agent_refines_core core_authorize_session core_register_remediation core_authorize_automatic core_auto_failure
      core_claim_samples core_submit_sample core_expire core_revoke_sessions)

abbreviation store_steps :: "db \<Rightarrow> db \<Rightarrow> bool" where
  "store_steps \<equiv> store_step\<^sup>*\<^sup>*"

definition reachable :: "db \<Rightarrow> bool" where
  "reachable db \<longleftrightarrow> store_steps initial_db db"

lemma initial_ok: "store_ok initial_db" "audit_ok initial_db" "inputs_ok initial_db"
  by (simp_all add: store_ok_def runs_ok_def current_runs_ok_def audit_ok_def inputs_ok_def sequences_of_def initial_db_def)

lemma steps_ok: "store_steps db db' \<Longrightarrow> store_ok db \<Longrightarrow> store_ok db'"
  by (induction rule: rtranclp_induct) (auto dest: store_refines_core store_ok_core)

lemma reachable_ok: "reachable db \<Longrightarrow> store_ok db"
  unfolding reachable_def using steps_ok initial_ok by blast

lemma reachable_step: "reachable db \<Longrightarrow> store_step db db' \<Longrightarrow> reachable db'"
  unfolding reachable_def by (rule rtranclp.rtrancl_into_rtrancl)

lemma steps_next:
  assumes "store_steps db db'" and "store_ok db"
  shows "find_incident k db = Some i \<Longrightarrow> \<exists>i'. find_incident k db' = Some i' \<and> incident_next i i'"
    and "superseded db lease \<Longrightarrow> superseded db' lease"
    and "audit_ok db \<Longrightarrow> audit_ok db'" and "inputs_ok db \<Longrightarrow> inputs_ok db'"
proof -
  have "store_ok db' \<and> (find_incident k db = Some i \<longrightarrow> (\<exists>i'. find_incident k db' = Some i' \<and> incident_next i i'))
    \<and> (superseded db lease \<longrightarrow> superseded db' lease) \<and> (audit_ok db \<longrightarrow> audit_ok db') \<and> (inputs_ok db \<longrightarrow> inputs_ok db')"
    using assms
  proof (induction rule: rtranclp_induct)
    case base
    then show ?case by (simp add: incident_next_def)
  next
    case (step x y)
    then have c: "core_step x y" "store_ok x" by (simp_all add: store_refines_core)
    have trans: "incident_next a z" if "incident_next a b" "incident_next b z" for a b z
      using that unfolding incident_next_def by fastforce
    show ?case
      using step.IH [OF step.prems] c store_ok_core [OF c] core_incident [OF c] superseded_core [OF c] audit_ok_core [OF c]
        inputs_ok_step [OF core_inputs [OF c(1)]] trans by meson
  qed
  then show "find_incident k db = Some i \<Longrightarrow> \<exists>i'. find_incident k db' = Some i' \<and> incident_next i i'"
    "superseded db lease \<Longrightarrow> superseded db' lease" "audit_ok db \<Longrightarrow> audit_ok db'" "inputs_ok db \<Longrightarrow> inputs_ok db'" by blast+
qed

lemma reachable_invariants: "reachable db \<Longrightarrow> audit_ok db" "reachable db \<Longrightarrow> inputs_ok db"
  unfolding reachable_def using steps_next(3,4) [OF _ initial_ok(1)] initial_ok by blast+

lemma core_join:
  assumes "core_step db db'" and "store_ok db" and "run_join db k = Some (r, i)"
  shows "\<exists>r' i'. run_join db' k = Some (r', i') \<and> run_next r r' \<and> incident_next i i'"
proof -
  from assms(3) have r: "find_run k db = Some r" "find_incident (rr_incident_id r) db = Some i" by (simp_all add: run_join_Some_iff)
  from core_run [OF assms(1) r(1)] core_incident [OF assms(1,2) r(2)] show ?thesis
    by (auto simp: run_join_Some_iff run_next_def run_same_def)
qed

subsection \<open>A history for the concrete examples\<close>

definition example_intake :: intake where
  "example_intake = \<lparr>it_incident_id = 1, it_run_id = 10, it_intake_key = ''k'', it_deadline = 1000000000, it_budget_limit = 5,
     it_versions = fmempty, it_input = None, it_target_id = None, it_priority = 2, it_related_incident_id = None\<rparr>"

definition accepted_db :: db where
  "accepted_db = snd (transaction initial_db (accept_in (example_env 0 50) example_intake initial_db))"

definition claimed_db :: db where
  "claimed_db = snd (claim 1 10 7 fmempty 30 (example_env 5 50) accepted_db)"

definition claimed_lease :: Lease where
  "claimed_lease = \<lparr>le_incident_id = 1, le_run_id = 10, le_owner = 7, le_epoch = 1, le_control_generation = 0,
     le_global_suspension_generation = 0, le_target_suspension_generation = 0\<rparr>"

definition accepted_run :: run_row where
  "accepted_run = fresh_run 10 1 R_queued 0 5 1000000000 fmempty None"

definition claimed_run :: run_row where
  "claimed_run = accepted_run\<lparr>rr_state := R_running, rr_owner := Some 7, rr_epoch := 1, rr_lease_until := Some 30000005\<rparr>"

lemma accepted_db_eq:
  "accepted_db = initial_db\<lparr>db_incidents := [fresh_incident (example_env 0 50) example_intake], db_runs := [accepted_run]\<rparr>"
  by (simp add: accepted_db_def accept_in_def accept_new_def insert_incident_def insert_run_def insert_row_def intake_gates_def
      same_intake_def check_priority_def accepted_run_def example_intake_def initial_db_def fresh_incident_def)

lemma accepted_reachable: "reachable accepted_db"
  unfolding reachable_def accepted_db_def by (rule r_into_rtranclp) (rule step_accept)

lemma accepted_claim:
  "claim 1 10 7 fmempty 30 (example_env 5 50) accepted_db = (Inr claimed_lease,
     update_runs (example_env 5 50) (\<lambda>r. rr_run_id r = 10)
       (\<lambda>r. r\<lparr>rr_state := R_running, rr_owner := Some 7, rr_epoch := 1, rr_control_generation := 0,
             rr_lease_until := Some (min 30000005 (rr_deadline r))\<rparr>) accepted_db)"
  by (simp add: claim_def lock_scope_def incident_target_def run_join_def accepted_db_eq claim_guard_def active_lease_def
      accepted_run_def example_intake_def initial_db_def suspended_scope_def joined_scope_def claim_lease_def take_lease_def
      claimed_lease_def seconds_interval_def example_env_def fresh_incident_def)

lemma claimed_run_eq:
  "claimed_run = accepted_run\<lparr>rr_state := R_running, rr_owner := Some 7, rr_epoch := 1, rr_control_generation := 0,
     rr_lease_until := Some (min 30000005 (rr_deadline accepted_run))\<rparr>"
  by (simp add: claimed_run_def accepted_run_def fresh_run_def)

lemma accepted_run_simps:
  "rr_run_id accepted_run = 10" "rr_incident_id accepted_run = 1" "rr_state accepted_run = R_queued"
  "rr_deadline accepted_run = 1000000000" "rr_control_generation accepted_run = 0" "rr_budget_limit accepted_run = 5"
  by (simp_all add: accepted_run_def)

lemma claimed_db_simps:
  "db_runs claimed_db = [claimed_run]" "db_incidents claimed_db = [fresh_incident (example_env 0 50) example_intake]"
  "db_target_suspensions claimed_db = []" "db_global_suspended claimed_db = False" "db_global_generation claimed_db = 0"
  "db_sessions claimed_db = []" "db_postmortems claimed_db = []" "db_controls claimed_db = []" "db_inputs claimed_db = []"
  unfolding claimed_db_def accepted_claim snd_conv update_runs_frame claimed_run_eq
  by (simp_all add: accepted_db_eq initial_db_def accepted_run_simps)

lemma claimed_reachable: "reachable claimed_db"
  unfolding claimed_db_def by (rule reachable_step [OF accepted_reachable step_claim])

lemma claimed_valid: "lease_valid claimed_db claimed_lease 6"
  by (simp add: lease_valid_def run_join_def claimed_db_simps claimed_lease_def claimed_run_def accepted_run_def
      example_intake_def fresh_incident_def lease_revoked_def joined_scope_def)

lemma decision_returns:
  "close_reopen e d a i db = Inr (n, db') \<Longrightarrow> n = dc_expected d + 1"
  "rebind e d uid t p i db = Inr (n, db') \<Longrightarrow> n = dc_expected d + 1"
  "merge_into e d k p i db = Inr (n, db') \<Longrightarrow> n = dc_expected d + 1"
  "takeover e d i db = Inr (n, db') \<Longrightarrow> n = dc_expected d + 1"
  "subject_control e d rn a scope i db = Inr (n, db') \<Longrightarrow> n = dc_expected d + 1"
  by (auto simp: close_reopen_def rebind_def merge_into_def takeover_def subject_control_def apply_subject_def Let_def
      bind_result_Inr_iff simp del: bind_eq_None_conv split: option.splits if_splits)

lemma control_decided:
  assumes "control d rn e db = (Inr n, db')"
  shows "decided (dc_incident_id d) db db' \<and> n = dc_expected d + 1
    \<and> (\<exists>i. find_incident (dc_incident_id d) db = Some i \<and> ir_control_generation i = dc_expected d)"
proof -
  from assms have "control_in d rn e db = Inr (n, db')" by (auto simp: control_def transaction_def split: sum.splits prod.splits)
  then show ?thesis
  proof (rule control_in_InrE)
    fix i a rebound survivor scope
    assume i: "find_incident (dc_incident_id d) db = Some i" "ir_control_generation i = dc_expected d"
      and d: "decide e d rn a rebound survivor scope i db = Inr (n, db')"
    have "n = dc_expected d + 1" using decide_cases [OF d] by (auto dest: decision_returns)
    with decided_control [OF i d] i show ?thesis by blast
  qed
qed

text \<open>The writes \<open>renew_lease\<close> and \<open>settle_budget\<close> compare the generation and the attempt only: the lease must have
  been overtaken by a decision or a later attempt.\<close>

definition overtaken :: "db \<Rightarrow> Lease \<Rightarrow> bool" where
  "overtaken db lease \<longleftrightarrow> (\<exists>r i. run_join db (le_run_id lease) = Some (r, i)
     \<and> (le_control_generation lease < ir_control_generation i \<or> le_epoch lease < rr_epoch r))"

lemma overtaken_superseded: "overtaken db lease \<Longrightarrow> superseded db lease"
  by (auto simp: overtaken_def superseded_def)

lemma decided_overtakes:
  assumes "decided k db db'" and ok: "store_ok db" and "lease_valid db lease t"
    and r: "find_run (le_run_id lease) db = Some r" "rr_incident_id r = k"
  shows "overtaken db' lease"
proof -
  obtain i where i: "find_incident k db = Some i" "ir_control_generation i = le_control_generation lease"
    using assms(3) r by (auto elim!: lease_validD)
  then have "run_join db (le_run_id lease) = Some (r, i)" using r by (simp add: run_join_Some_iff)
  from core_join [OF decision [OF assms(1)] ok this] obtain r' i' where
    j: "run_join db' (le_run_id lease) = Some (r', i')" "run_next r r'" by blast
  then have "find_incident k db' = Some i'" using r(2) by (simp add: run_join_Some_iff run_next_def run_same_def)
  then have "ir_control_generation i' = ir_control_generation i + 1" using decided_generation [OF assms(1) ok] i(1) by auto
  with i j show ?thesis by (simp add: overtaken_def)
qed

lemmas decided_supersedes = overtaken_superseded [OF decided_overtakes]

definition cancel_decision :: decision where
  "cancel_decision = \<lparr>dc_incident_id = 1, dc_expected = 0, dc_action = ''cancel'', dc_actor = ''op'', dc_payload = None\<rparr>"

definition no_renewal :: renewal where
  "no_renewal = \<lparr>rn_run_id = None, rn_deadline = None, rn_input = None, rn_basis = None\<rparr>"

definition cancelled_db :: db where
  "cancelled_db = snd (control cancel_decision no_renewal (example_env 6 50) claimed_db)"

lemma revoke_none: "db_sessions db = [] \<Longrightarrow> revoke_authorized_sessions e n k db = Inr ([], db)"
  by (simp add: revoke_authorized_sessions_def authorized_sessions_def)

lemma mark_none:
  assumes "db_postmortems db = []"
  shows "mark_stale_in e n k ''control_generation_changed'' ''control.cancel'' db = Inr db"
    and "mark_stale_in e n k ''control_generation_changed'' ''control.takeover'' db = Inr db"
    and "mark_stale_in e n k ''input_added'' ''append_input'' db = Inr db"
proof -
  have "''control_generation_changed'' \<in> set STALE_REASONS" "strip is_space ''control.cancel'' \<noteq> []"
    "''input_added'' \<in> set STALE_REASONS" "strip is_space ''append_input'' \<noteq> []" "strip is_space ''control.takeover'' \<noteq> []"
    by code_simp+
  with assms show "mark_stale_in e n k ''control_generation_changed'' ''control.cancel'' db = Inr db"
    "mark_stale_in e n k ''control_generation_changed'' ''control.takeover'' db = Inr db"
    "mark_stale_in e n k ''input_added'' ''append_input'' db = Inr db" by (simp_all add: mark_stale_in_def)
qed

lemma cancel_accepted: "control cancel_decision no_renewal (example_env 6 50) claimed_db = (Inr 1, cancelled_db)"
proof -
  have "fst (control cancel_decision no_renewal (example_env 6 50) claimed_db) = Inr 1"
    by (simp add: control_def control_in_def cancel_decision_def store_actions_def rebind_request_def merge_request_def
        extra_targets_def lock_scope_def incident_target_def claimed_db_simps example_intake_def decide_def is_note_def
        subject_control_def claimed_run_def accepted_run_simps standing_of_def subject_guard_def human_note_def
        CONTROL_OPEN_RUN_STATES_def suspended_scope_def apply_subject_def revoke_none update_incident_def subject_runs_def
        move_runs_def record_control_def insert_row_def note_input_def mark_none subject_reason_def)
  then show ?thesis by (simp add: cancelled_db_def prod_eq_iff)
qed

lemma cancelled_reachable: "reachable cancelled_db"
  unfolding cancelled_db_def by (rule reachable_step [OF claimed_reachable step_control])

lemma cancelled_overtaken: "overtaken cancelled_db claimed_lease"
proof -
  have "find_run 10 claimed_db = Some claimed_run" by (simp add: claimed_db_simps claimed_run_def accepted_run_simps)
  then show ?thesis
    using decided_overtakes [OF control_decided [OF cancel_accepted, THEN conjunct1] reachable_ok [OF claimed_reachable] claimed_valid]
    by (simp add: claimed_lease_def cancel_decision_def claimed_run_def accepted_run_simps)
qed

lemmas cancelled_supersedes = overtaken_superseded [OF cancelled_overtaken]

subsection \<open>One unfinished Run per incident\<close>

text \<open>\<^bold>\<open>C1\<close> (every store operation) In every reachable state an incident has at most one unfinished Run, and
  it is the incident's current Run: whatever claims, sweeps, renewals, follow-ups, cancellations and
  intakes interleave, no second attempt line can run beside the current one.\<close>

theorem single_active_run:
  assumes "reachable db" and "r \<in> set (db_runs db)" "r' \<in> set (db_runs db)" and "unfinished r" "unfinished r'"
    and "rr_incident_id r = rr_incident_id r'"
  shows "r = r' \<and> (\<exists>i. find_incident (rr_incident_id r) db = Some i \<and> ir_current_run_id i = Some (rr_run_id r)
     \<and> ir_state i \<noteq> IS_cancelled)"
proof -
  have ok: "store_ok db" using assms(1) by (rule reachable_ok)
  then obtain i i' where i: "find_incident (rr_incident_id r) db = Some i" "pair_ok r i"
    "find_incident (rr_incident_id r') db = Some i'" "pair_ok r' i'"
    using assms(2,3) unfolding store_ok_def runs_ok_def by metis
  with assms(4-6) have "rr_run_id r = rr_run_id r'" by (simp add: pair_ok_def)
  with ok assms(2,3) have "r = r'" by (auto simp: store_ok_def distinct_map inj_on_def)
  with i assms(4) show ?thesis by (auto simp: pair_ok_def)
qed

theorem single_active_run_witness:
  "claimed_run \<in> set (db_runs claimed_db) \<and> unfinished claimed_run \<and>
   (\<exists>i. find_incident 1 claimed_db = Some i \<and> ir_current_run_id i = Some 10)"
  using single_active_run [OF claimed_reachable, of claimed_run claimed_run]
  by (simp add: claimed_db_simps claimed_run_def accepted_run_def unfinished_def UNFINISHED_def example_intake_def)

subsection \<open>A superseded lease never writes again\<close>

lemma overtaken_steps:
  assumes "store_steps db db'" and "store_ok db" and "overtaken db lease"
  shows "overtaken db' lease"
proof -
  have "store_ok db' \<and> overtaken db' lease" using assms
  proof (induction rule: rtranclp_induct)
    case (step x y)
    then have c: "core_step x y" "store_ok x" "overtaken x lease" by (simp_all add: store_refines_core)
    from c(3) obtain r i where ri: "run_join x (le_run_id lease) = Some (r, i)"
      "le_control_generation lease < ir_control_generation i \<or> le_epoch lease < rr_epoch r" unfolding overtaken_def by blast
    from core_join [OF c(1,2) ri(1)] ri(2) have "overtaken y lease"
      unfolding overtaken_def by (fastforce simp: run_next_def incident_next_def)
    then show ?case using store_ok_core [OF c(1,2)] by blast
  qed simp
  then show ?thesis by blast
qed

lemma overtaken_refused:
  assumes "overtaken db lease"
  shows "\<exists>err. settle_budget k out s e lease db = (Inl err, db)" and "\<exists>err. renew_lease n e lease db = (Inl err, db)"
proof -
  from assms obtain r i where ri: "run_join db (le_run_id lease) = Some (r, i)"
    "\<not> (ir_control_generation i = le_control_generation lease \<and> rr_epoch r = le_epoch lease)" by (auto simp: overtaken_def)
  then have "\<not> holds_lease r i lease t t'" for t t' by (auto simp: holds_lease_def)
  then have "\<exists>err. settle_budget_in k out s e lease db = Inl err"
    using ri(1) by (simp add: settle_budget_in_def split: option.split)
  then show "\<exists>err. settle_budget k out s e lease db = (Inl err, db)" by (auto simp: settle_budget_def)
  have "\<exists>err. renew_lease_in n e lease db = Inl err"
    using ri by (auto simp: renew_lease_in_def split: option.split)
  then show "\<exists>err. renew_lease n e lease db = (Inl err, db)" by (auto simp: renew_lease_def)
qed

text \<open>The database without the measured seconds of tool dispatches and their sums.\<close>

definition untimed :: "db \<Rightarrow> db" where
  "untimed db = db\<lparr>db_charges := map (\<lambda>c. c\<lparr>tc_seconds := None\<rparr>) (db_charges db),
     db_runs := map (\<lambda>r. r\<lparr>rr_tool_seconds_used := 0\<rparr>) (db_runs db)\<rparr>"

lemma update_runs_stateless: "(\<And>r. rr_state (f r) = rr_state r) \<Longrightarrow> update_runs e P f db = db\<lparr>db_runs := update_where P f (db_runs db)\<rparr>"
  by (simp add: update_runs_def)

lemma charge_tool_revoked:
  assumes "\<not> lease_valid db lease (env_now e)"
  shows "untimed (snd (charge_tool op s m ms k e lease db)) = untimed db"
    and "find_charge k op lease db = None \<Longrightarrow> \<exists>err. charge_tool op s m ms k e lease db = (Inl err, db)"
proof -
  have no: "lease_revoked r i (joined_scope db i) lease (env_now e)" if "run_join db (le_run_id lease) = Some (r, i)" for r i
    using assms that by (simp add: lease_valid_def)
  have "\<exists>err. charge_tool_in op s m ms k e lease db = Inl err" if "find_charge k op lease db = None"
    using that no by (auto simp: charge_tool_in_def split: sum.split option.split)
  then show "find_charge k op lease db = None \<Longrightarrow> \<exists>err. charge_tool op s m ms k e lease db = (Inl err, db)"
    by (auto simp: charge_tool_def)
  have "untimed db' = untimed db" if "charge_tool_in op s m ms k e lease db = Inr (x, db')" for x db'
  proof (cases "find_charge k op lease db")
    case None
    with that no show ?thesis by (auto simp: charge_tool_in_def split: if_splits sum.splits option.splits)
  next
    case (Some c)
    let ?db = "db\<lparr>db_charges := update_where (\<lambda>x. tc_dispatch_id x = k)
        (\<lambda>x. x\<lparr>tc_seconds := Some (settled_seconds c (finite_value s))\<rparr>) (db_charges db)\<rparr>"
    let ?f = "\<lambda>r. r\<lparr>rr_tool_seconds_used := rr_tool_seconds_used r + charge_delta c (finite_value s)\<rparr>"
    have "db' = (if charge_delta c (finite_value s) = 0 then ?db else update_runs e (\<lambda>r. rr_run_id r = le_run_id lease) ?f ?db)"
      using that Some unfolding charge_tool_in_def Let_def
      by (simp only: option.case split: if_split_asm sum.split_asm option.split_asm prod.split_asm) simp_all
    moreover have "update_runs e P ?f ?db = ?db\<lparr>db_runs := update_where P ?f (db_runs ?db)\<rparr>" for P
      by (rule update_runs_stateless) simp
    ultimately consider "db' = ?db" | P where "db' = ?db\<lparr>db_runs := update_where P ?f (db_runs ?db)\<rparr>" by (metis (no_types))
    then show ?thesis by cases (simp_all add: untimed_def update_where_def)
  qed
  then show "untimed (snd (charge_tool op s m ms k e lease db)) = untimed db"
    by (cases "charge_tool_in op s m ms k e lease db") (auto simp: charge_tool_def)
qed

text \<open>\<^bold>\<open>C3\<close> (the write paths that take a \<open>Lease\<close>) Once a lease is superseded by a newer decision, attempt or
  suspension, then after any further history and at any time, \<open>commit_step\<close>, \<open>commit_tool\<close>, \<open>begin_round\<close>,
  \<open>publish\<close>, \<open>reserve_budget\<close>, \<open>block\<close> and \<open>hand_off\<close> under it change nothing but the history of late
  results. A new tool dispatch is refused; of a dispatch reserved before, only the measured seconds and their sum
  may still be settled, as the code means it. When the lease was overtaken by a decision or a later attempt,
  renewing it and settling a budget reservation under it are refused too. (\<open>abandon\<close> is no write under the
  fence: it can only give the lease up.)\<close>

theorem superseded_lease_never_writes:
  assumes "reachable db" and "superseded db lease" and "store_steps db db'"
  shows "superseded db' lease \<and> live (snd (commit_step key response e lease db')) = live db'
    \<and> live (snd (commit_tool sid ordinal result e lease db')) = live db'
    \<and> live (snd (begin_round key e lease db')) = live db'
    \<and> live (snd (publish conclusion sid e lease db')) = live db'
    \<and> live (snd (reserve_budget k amount secs e lease db')) = live db'
    \<and> live (snd (block e lease db')) = live db' \<and> live (snd (hand_off e lease db')) = live db'
    \<and> untimed (snd (charge_tool operation s max_ops max_secs dispatch e lease db')) = untimed db'
    \<and> (find_charge dispatch operation lease db' = None \<longrightarrow>
        (\<exists>err. charge_tool operation s max_ops max_secs dispatch e lease db' = (Inl err, db')))
    \<and> (overtaken db lease \<longrightarrow> (\<exists>err. settle_budget k out secs_o e lease db' = (Inl err, db'))
        \<and> (\<exists>err. renew_lease longer e lease db' = (Inl err, db')))"
proof -
  have ok: "store_ok db" using assms(1) by (rule reachable_ok)
  have s: "superseded db' lease" using steps_next(2) [OF assms(3) ok assms(2)] .
  have c: "current_runs_ok db'" using steps_ok [OF assms(3) ok] by (simp add: store_ok_def)
  have seven: "live (snd (commit_step key response e lease db')) = live db'
    \<and> live (snd (commit_tool sid ordinal result e lease db')) = live db'
    \<and> live (snd (begin_round key e lease db')) = live db'
    \<and> live (snd (publish conclusion sid e lease db')) = live db'
    \<and> live (snd (reserve_budget k amount secs e lease db')) = live db'
    \<and> live (snd (block e lease db')) = live db' \<and> live (snd (hand_off e lease db')) = live db'"
    using commit_step.superseded_no_effect [OF c s] commit_tool.superseded_no_effect [OF c s]
      begin_round.superseded_no_effect [OF c s] publish.superseded_no_effect [OF c s] reserve.superseded_no_effect [OF c s]
      block.superseded_no_effect [OF c s] hand_off.superseded_no_effect [OF c s]
    by (simp add: begin_round_def reserve_budget_def block_def hand_off_def)
  note charge = charge_tool_revoked [OF superseded_invalid [OF s, of "env_now e"]]
  have over: "overtaken db' lease" if "overtaken db lease" by (rule overtaken_steps [OF assms(3) ok that])
  show ?thesis using s seven charge overtaken_refused [OF over] by blast
qed

theorem superseded_lease_never_writes_witness:
  "superseded cancelled_db claimed_lease \<and> overtaken cancelled_db claimed_lease
   \<and> live (snd (block (example_env 6 50) claimed_lease cancelled_db)) = live cancelled_db
   \<and> (\<exists>err. renew_lease 30 (example_env 6 50) claimed_lease cancelled_db = (Inl err, cancelled_db))"
  using superseded_lease_never_writes [OF cancelled_reachable cancelled_supersedes, of cancelled_db] cancelled_overtaken
    cancelled_supersedes by blast

subsection \<open>A human decision ends every lease of the incident\<close>

text \<open>\<^bold>\<open>C4\<close> (\<open>control\<close>) An accepted decision returns the generation it raised the incident to, one more than
  before, and from then on no lease taken before it on a Run of that incident is valid, whatever
  happens later and whatever the clock says.\<close>

theorem decision_ends_leases:
  assumes "reachable db" and "control d rn e db = (Inr n, db')"
    and "lease_valid db lease t" and "run_join db (le_run_id lease) = Some (r, i)" and "ir_incident_id i = dc_incident_id d"
    and "store_steps db' db''"
  shows "n = ir_control_generation i + 1 \<and> \<not> lease_valid db'' lease t'
    \<and> (\<exists>i'. find_incident (dc_incident_id d) db' = Some i' \<and> ir_control_generation i' = n)"
proof -
  have ok: "store_ok db" using assms(1) by (rule reachable_ok)
  have dec: "decided (dc_incident_id d) db db'" "n = dc_expected d + 1"
    "\<exists>x. find_incident (dc_incident_id d) db = Some x \<and> ir_control_generation x = dc_expected d"
    using control_decided [OF assms(2)] by blast+
  have i: "find_incident (dc_incident_id d) db = Some i" "find_run (le_run_id lease) db = Some r" "rr_incident_id r = dc_incident_id d"
    using run_join_SomeD [OF assms(4)] assms(5) by auto
  have "superseded db' lease" using decided_supersedes [OF dec(1) ok assms(3) i(2,3)] .
  then have "superseded db'' lease" by (rule steps_next(2) [OF assms(6) store_ok_decided [OF dec(1) ok]])
  then show ?thesis using superseded_invalid decided_generation [OF dec(1) ok] i dec(2,3) by fastforce
qed

theorem decision_ends_leases_witness:
  "lease_valid claimed_db claimed_lease 6 \<and> \<not> lease_valid cancelled_db claimed_lease 7"
proof -
  have "run_join claimed_db (le_run_id claimed_lease) = Some (claimed_run, fresh_incident (example_env 0 50) example_intake)"
    by (simp add: run_join_Some_iff claimed_lease_def claimed_db_simps claimed_run_def accepted_run_simps example_intake_def)
  from decision_ends_leases [OF claimed_reachable cancel_accepted claimed_valid this _ rtranclp.rtrancl_refl, of 7] claimed_valid
  show ?thesis by (simp add: cancel_decision_def example_intake_def)
qed

subsection \<open>Of two decisions on one generation one is refused\<close>

lemma stale_control:
  assumes "find_incident (dc_incident_id d) db = Some i" and "ir_control_generation i \<noteq> dc_expected d"
  shows "\<exists>err. control d rn e db = (Inl err, db) \<and> (dc_action d \<notin> {''rebind_target'', ''merge_into''}
    \<and> lock_scope db (Some (dc_incident_id d)) [] = Inr sc \<longrightarrow> err = E_CONTROL_CONFLICT)"
proof -
  have "\<not> (\<exists>n db'. control_in d rn e db = Inr (n, db'))" using assms by (auto elim!: control_in_InrE)
  then obtain err where err: "control_in d rn e db = Inl err" by (cases "control_in d rn e db") auto
  moreover have "err = E_CONTROL_CONFLICT"
    if a: "dc_action d \<notin> {''rebind_target'', ''merge_into''}" "lock_scope db (Some (dc_incident_id d)) [] = Inr sc"
  proof -
    have "map_of store_actions (dc_action d) \<noteq> Some SA_rebind_target" "map_of store_actions (dc_action d) \<noteq> Some SA_merge_into"
      using a(1) by (auto simp: store_actions_def split: if_splits)
    with err assms a(2) show ?thesis
      by (simp add: control_in_def Let_def rebind_request_def merge_request_def extra_targets_def incident_target_def)
  qed
  ultimately show ?thesis by (auto simp: control_def)
qed

text \<open>\<^bold>\<open>C5\<close> (\<open>control\<close>) Of the decisions taken on one generation of an incident at most one is applied: after an
  accepted one, every other with the same expected generation is refused without any effect, however
  late it comes. When it is neither a rebinding nor a merge (they check their own request first) and the
  locks of its scope are found, the answer is \<open>CONTROL_CONFLICT\<close>.\<close>

theorem stale_decision_refused:
  assumes "reachable db" and "control d rn e db = (Inr n, db')" and "store_steps db' db''"
    and "dc_incident_id d' = dc_incident_id d" and "dc_expected d' = dc_expected d"
  shows "\<exists>err. control d' rn' e' db'' = (Inl err, db'') \<and> (dc_action d' \<notin> {''rebind_target'', ''merge_into''}
    \<and> lock_scope db'' (Some (dc_incident_id d)) [] = Inr sc \<longrightarrow> err = E_CONTROL_CONFLICT)"
proof -
  have ok: "store_ok db" using assms(1) by (rule reachable_ok)
  note dec = control_decided [OF assms(2)]
  from decided_generation [OF dec [THEN conjunct1] ok] dec obtain i where
    i: "find_incident (dc_incident_id d) db' = Some i" "ir_control_generation i = dc_expected d + 1" by auto
  from steps_next(1) [OF assms(3) store_ok_decided [OF dec [THEN conjunct1] ok] i(1)] obtain i' where
    "find_incident (dc_incident_id d) db'' = Some i'" "ir_control_generation i \<le> ir_control_generation i'"
    by (auto simp: incident_next_def)
  with i(2) stale_control [of d' db'' i' rn' e' sc] assms(4,5) show ?thesis by simp
qed

lemma cancelled_untargeted: "\<exists>i. find_incident 1 cancelled_db = Some i \<and> ir_target_id i = None"
  by (simp add: cancelled_db_def control_def control_in_def cancel_decision_def store_actions_def rebind_request_def merge_request_def
      extra_targets_def lock_scope_def incident_target_def claimed_db_simps example_intake_def decide_def is_note_def
      subject_control_def claimed_run_def accepted_run_simps standing_of_def subject_guard_def human_note_def
      CONTROL_OPEN_RUN_STATES_def suspended_scope_def apply_subject_def revoke_none update_incident_def subject_runs_def
      move_runs_def record_control_def insert_row_def note_input_def mark_none subject_reason_def)

theorem stale_decision_refused_witness:
  "control cancel_decision no_renewal (example_env 8 90) cancelled_db = (Inl E_CONTROL_CONFLICT, cancelled_db)"
proof -
  obtain sc where "lock_scope cancelled_db (Some (dc_incident_id cancel_decision)) [] = Inr sc"
    using cancelled_untargeted by (auto simp: lock_scope_def incident_target_def cancel_decision_def)
  with stale_decision_refused [OF claimed_reachable cancel_accepted rtranclp.rtrancl_refl refl refl, of no_renewal "example_env 8 90" sc]
  show ?thesis by (auto simp: cancel_decision_def)
qed

subsection \<open>Global suspension\<close>

lemma claim_InrE:
  assumes "claim k j owner versions secs e db = (Inr lease, db')"
  obtains r i where "run_join db j = Some (r, i)" "ir_incident_id i = k" "claim_guard r i (joined_scope db i) (env_now e) = None"
    "rr_versions r = versions" "rr_state r \<noteq> R_blocked" "lease = claim_lease owner r i (joined_scope db i)"
    "db' = take_lease e secs lease db" "\<exists>sc. lock_scope db (Some k) [] = Inr sc"
  using assms by (auto simp: claim_def split: sum.splits option.splits if_splits)

lemma claim_needs_open_gates:
  "db_global_suspended db \<Longrightarrow> fst (claim k j owner versions secs e db) \<noteq> Inr lease"
  by (cases "claim k j owner versions secs e db")
    (auto elim!: claim_InrE simp: claim_guard_def suspended_scope_def split: if_splits)

lemma global_suspension_effect:
  assumes "set_global_suspension True g actor e db = (Inr n, db')" and "\<not> db_global_suspended db"
  shows "db_global_generation db' = db_global_generation db + 1" "db_global_suspended db'"
    "\<forall>r \<in> set (db_runs db'). rr_state r \<notin> PAUSABLE"
proof -
  from assms have db': "db' = audit_suspension None True n actor (pause_runs e (\<lambda>r. True) (pause_incidents (\<lambda>i. True)
      (db\<lparr>db_global_suspended := True, db_global_generation := db_global_generation db + 1\<rparr>)))"
    by (auto simp: set_global_suspension_def set_global_suspension_in_def Let_def split: if_splits)
  show "db_global_generation db' = db_global_generation db + 1" "db_global_suspended db'"
    by (simp_all add: db' audit_suspension_def pause_runs_def pause_incidents_def)
  show "\<forall>r \<in> set (db_runs db'). rr_state r \<notin> PAUSABLE"
    by (auto simp: db' audit_suspension_def pause_runs_def pause_incidents_def set_update_where PAUSABLE_def split: if_splits)
qed

text \<open>\<^bold>\<open>C6\<close> (\<open>set_global_suspension\<close>, \<open>claim\<close>) Suspending the system ends every lease for good, leaves no Run
  queued, running or waiting, and as long as the gate stays closed no claim of any Run succeeds.\<close>

theorem suspension_stops_automation:
  assumes "reachable db" and "\<not> db_global_suspended db" and "set_global_suspension True g actor e db = (Inr n, db')"
    and "lease_valid db lease t" and "store_steps db' db''"
  shows "\<not> lease_valid db'' lease t' \<and> (\<forall>r \<in> set (db_runs db'). rr_state r \<notin> {R_queued, R_running, R_waiting_human})
    \<and> (db_global_suspended db'' \<longrightarrow> (\<forall>k j owner versions secs e' l. fst (claim k j owner versions secs e' db'') \<noteq> Inr l))"
proof -
  have ok: "store_ok db" using assms(1) by (rule reachable_ok)
  note eff = global_suspension_effect [OF assms(3,2)]
  have step: "core_step db db'" using core_global_suspension [of db True g actor e] assms(3) by simp
  obtain r i where r: "run_join db (le_run_id lease) = Some (r, i)" "db_global_generation db = le_global_suspension_generation lease"
    using assms(4) by (auto elim!: lease_validD simp: run_join_Some_iff)
  then have "superseded db' lease" using core_join [OF step ok r(1)] eff(1) by (auto simp: superseded_def)
  then have "superseded db'' lease" by (rule steps_next(2) [OF assms(5) store_ok_core [OF step ok]])
  then show ?thesis using superseded_invalid eff(3) claim_needs_open_gates by (auto simp: PAUSABLE_def)
qed

definition suspended_db :: db where
  "suspended_db = snd (set_global_suspension True 0 ''op'' (example_env 6 50) claimed_db)"

lemma suspend_accepted: "set_global_suspension True 0 ''op'' (example_env 6 50) claimed_db = (Inr 1, suspended_db)"
proof -
  have "fst (set_global_suspension True 0 ''op'' (example_env 6 50) claimed_db) = Inr 1"
    by (simp add: set_global_suspension_def set_global_suspension_in_def claimed_db_simps)
  then show ?thesis by (simp add: suspended_db_def prod_eq_iff)
qed

theorem suspension_stops_automation_witness: "lease_valid claimed_db claimed_lease 6 \<and> \<not> lease_valid suspended_db claimed_lease 7"
proof -
  have "\<not> db_global_suspended claimed_db" by (simp add: claimed_db_simps)
  from suspension_stops_automation [OF claimed_reachable this suspend_accepted claimed_valid rtranclp.rtrancl_refl, of 7] claimed_valid
  show ?thesis by simp
qed

subsection \<open>One valid lease per incident\<close>

text \<open>\<^bold>\<open>C2\<close> (every store operation) In every reachable state all the valid leases on Runs of one incident are
  the same lease: the same Run, owner, attempt and generations. Two workers never both pass the fence
  for one incident.\<close>

theorem one_lease_per_incident:
  assumes "reachable db" and "lease_valid db l1 t1" and "lease_valid db l2 t2"
    and "run_join db (le_run_id l1) = Some (r1, i)" and "run_join db (le_run_id l2) = Some (r2, i)"
  shows "le_run_id l1 = le_run_id l2 \<and> le_owner l1 = le_owner l2 \<and> le_epoch l1 = le_epoch l2
    \<and> le_control_generation l1 = le_control_generation l2
    \<and> le_global_suspension_generation l1 = le_global_suspension_generation l2
    \<and> le_target_suspension_generation l1 = le_target_suspension_generation l2"
proof -
  have ok: "runs_ok db" using reachable_ok [OF assms(1)] by (simp add: store_ok_def)
  have current: "ir_current_run_id i = Some (le_run_id l)"
    if "lease_valid db l t" "run_join db (le_run_id l) = Some (r, i)" for l t r
  proof -
    have r: "find_run (le_run_id l) db = Some r" "find_incident (rr_incident_id r) db = Some i" "rr_run_id r = le_run_id l"
      using run_join_SomeD [OF that(2)] by auto
    then have "pair_ok r i" using ok find_row_in_set [OF r(1)] unfolding runs_ok_def by fastforce
    moreover have "rr_lease_until r \<noteq> None" using that by (auto simp: lease_valid_def lease_revoked_def split: option.splits)
    ultimately show ?thesis using r(3) by (auto simp: pair_ok_def lease_bounded_def)
  qed
  from current [OF assms(2,4)] current [OF assms(3,5)] have same: "le_run_id l1 = le_run_id l2" by simp
  with assms(2-5) show ?thesis by (auto simp: lease_valid_def lease_revoked_def)
qed

text \<open>In the example history the claimed lease is valid at two times, and a lease that differs from it in the
  owner is valid at none.\<close>

theorem one_lease_per_incident_witness:
  "reachable claimed_db \<and> lease_valid claimed_db claimed_lease 6 \<and> lease_valid claimed_db claimed_lease 9
   \<and> (\<exists>r i. run_join claimed_db (le_run_id claimed_lease) = Some (r, i) \<and> ir_incident_id i = 1)
   \<and> \<not> lease_valid claimed_db (claimed_lease\<lparr>le_owner := 8\<rparr>) 6"
proof -
  have j: "run_join claimed_db (le_run_id claimed_lease) = Some (claimed_run, fresh_incident (example_env 0 50) example_intake)"
    by (simp add: run_join_Some_iff claimed_lease_def claimed_db_simps claimed_run_def accepted_run_simps example_intake_def)
  have later: "lease_valid claimed_db claimed_lease 9"
    by (simp add: lease_valid_def run_join_def claimed_db_simps claimed_lease_def claimed_run_def accepted_run_def
        example_intake_def fresh_incident_def lease_revoked_def joined_scope_def)
  let ?l = "claimed_lease\<lparr>le_owner := 8\<rparr>"
  have "\<not> lease_valid claimed_db ?l 6"
  proof
    assume v: "lease_valid claimed_db ?l 6"
    have "run_join claimed_db (le_run_id ?l) = Some (claimed_run, fresh_incident (example_env 0 50) example_intake)"
      using j by simp
    from one_lease_per_incident [OF claimed_reachable later v j this] show False by (simp add: claimed_lease_def)
  qed
  with j later claimed_reachable claimed_valid show ?thesis by (simp add: example_intake_def)
qed

subsection \<open>The audit log and the inputs are complete\<close>

lemma upto_shift_down: "map (\<lambda>n. n - 1) [a..b] = [a - 1..b - (1::int)]"
proof (induction a b rule: upto.induct)
  case (1 a b)
  then show ?case by (cases "a \<le> b") (simp_all add: upto_rec1 [of a b] upto_rec1 [of "a - 1" "b - 1"])
qed

text \<open>\<^bold>\<open>C32\<close> (\<open>control\<close>, \<open>new_run\<close>, \<open>control_times\<close>) In every reachable state the audit rows of an incident that raise its
  generation, the decisions on it, take it from 0 to 1, from 1 to 2 and so on up to the current generation, one row
  each and in this order, and the read of the decision times has a time for each: no decision is
  lost, doubled or unaudited. (An automatic observation adds a further row whose expected and resulting generation
  are equal; such rows raise nothing and are not counted.)\<close>

theorem audit_complete:
  assumes "reachable db" and "find_incident k db = Some i"
  shows "map ca_resulting_generation (filter (\<lambda>c. ca_incident_id c = k \<and> raises c) (db_controls db)) = [1..ir_control_generation i]
    \<and> map ca_expected_generation (filter (\<lambda>c. ca_incident_id c = k \<and> raises c) (db_controls db)) = [0..ir_control_generation i - 1]
    \<and> {1..ir_control_generation i} \<subseteq> fst ` set (control_times k db)"
proof -
  let ?rows = "filter (\<lambda>c. ca_incident_id c = k \<and> raises c) (db_controls db)"
  have ok: "audit_ok db" using reachable_invariants(1) [OF assms(1)] .
  then have a: "audit_of k db = [1..ir_control_generation i]"
    using find_row_SomeD [OF assms(2)] by (auto simp: audit_ok_def)
  have times: "set (audit_of k db) \<subseteq> fst ` set (control_times k db)" by (force simp: audit_of_def control_times_def)
  have shift: "map ca_expected_generation ?rows = map (\<lambda>n. n - 1) (map ca_resulting_generation ?rows)"
    using ok by (auto simp: audit_ok_def)
  have "map ca_expected_generation ?rows = map (\<lambda>n. n - 1) [1..ir_control_generation i]"
    unfolding shift using a unfolding audit_of_def by (rule arg_cong)
  with times upto_shift_down [of 1 "ir_control_generation i"] a [unfolded audit_of_def]
  show ?thesis unfolding a by simp
qed

lemma cancelled_incident: "\<exists>i. find_incident 1 cancelled_db = Some i \<and> ir_control_generation i = 1"
  using decided_generation [OF control_decided [OF cancel_accepted, THEN conjunct1] reachable_ok [OF claimed_reachable]]
  by (auto simp: cancel_decision_def claimed_db_simps example_intake_def)

theorem audit_complete_witness:
  "map ca_resulting_generation (filter (\<lambda>c. ca_incident_id c = 1 \<and> raises c) (db_controls cancelled_db)) = [1]
   \<and> 1 \<in> fst ` set (control_times 1 cancelled_db)"
  using audit_complete [OF cancelled_reachable] cancelled_incident by fastforce

lemma read_inputs_all:
  assumes "reachable db"
  shows "read_inputs k 0 db = filter (\<lambda>x. in_incident_id x = k) (db_inputs db)"
    and "map in_sequence (read_inputs k 0 db) = [1..int (length (read_inputs k 0 db))]"
proof -
  let ?xs = "filter (\<lambda>x. in_incident_id x = k) (db_inputs db)"
  have s: "map in_sequence ?xs = [1..int (length ?xs)]"
    using reachable_invariants(2) [OF assms] by (simp add: inputs_ok_def sequences_of_def)
  have "in_sequence x \<in> set [1..int (length ?xs)]" if "x \<in> set ?xs" for x
    using that unfolding s [symmetric] by (simp del: set_upto)
  then have "0 < in_sequence x" if "x \<in> set ?xs" for x using that by fastforce
  then have "filter (\<lambda>x. in_incident_id x = k \<and> 0 < in_sequence x) (db_inputs db) = ?xs"
    by (intro filter_cong) auto
  moreover from s have "sort_key in_sequence ?xs = ?xs" by (intro sort_key_id_if_sorted) simp
  ultimately show "read_inputs k 0 db = ?xs" by (simp add: read_inputs_def)
  with s show "map in_sequence (read_inputs k 0 db) = [1..int (length (read_inputs k 0 db))]" by simp
qed

lemma appended_input_effect:
  assumes "append_input e k x content actor db = (Inr n, db')" and "find_row in_input_id x (db_inputs db) = None"
  shows "\<exists>i j. db_inputs db' = db_inputs db @ [\<lparr>in_input_id = x, in_incident_id = k, in_sequence = n, in_kind = ''event'',
      in_content = JObj content, in_actor = actor, in_control_generation = i\<rparr>] \<and> find_incident k db' = Some j"
proof -
  from assms have "append_input_in e 2 k x content actor db = Inr (n, db')"
    by (auto simp: append_input_def transaction_def split: sum.splits)
  then show ?thesis using assms(2)
    by (auto simp: append_input_in_def insert_input_def insert_row_def bind_result_Inr_iff knowledge_only_def
        dest!: mark_stale_frame split: option.splits if_splits)
qed

text \<open>(\<open>append_input\<close>, \<open>read_inputs\<close>) Inputs are read back as they were appended: an accepted new input gets the
  next number, the read afterwards is the read before with that input at its end, the numbers have no
  gap, and sending the same input again returns its number and changes nothing.\<close>

theorem appended_input_read_back:
  assumes "reachable db" and "append_input e k x content actor db = (Inr n, db')" and "find_row in_input_id x (db_inputs db) = None"
  shows "map in_sequence (read_inputs k 0 db') = [1..n]
    \<and> (\<exists>i. read_inputs k 0 db' = read_inputs k 0 db @ [\<lparr>in_input_id = x, in_incident_id = k, in_sequence = n, in_kind = ''event'',
          in_content = JObj content, in_actor = actor, in_control_generation = i\<rparr>])
    \<and> append_input e' k x content actor db' = (Inr n, db')"
proof -
  have r': "reachable db'" using reachable_step [OF assms(1) step_input [of db e k x content actor]] assms(2) by simp
  from appended_input_effect [OF assms(2,3)] obtain i j where
    eff: "db_inputs db' = db_inputs db @ [\<lparr>in_input_id = x, in_incident_id = k, in_sequence = n, in_kind = ''event'',
          in_content = JObj content, in_actor = actor, in_control_generation = i\<rparr>]" "find_incident k db' = Some j" by blast
  have new: "read_inputs k 0 db' = read_inputs k 0 db @ [\<lparr>in_input_id = x, in_incident_id = k, in_sequence = n, in_kind = ''event'',
          in_content = JObj content, in_actor = actor, in_control_generation = i\<rparr>]"
    by (simp add: read_inputs_all(1) [OF assms(1)] read_inputs_all(1) [OF r'] eff(1))
  have "n = int (length (read_inputs k 0 db'))"
  proof -
    have "last (map in_sequence (read_inputs k 0 db')) = n" by (simp add: new)
    moreover have "length (read_inputs k 0 db') > 0" by (simp add: new)
    ultimately show ?thesis unfolding read_inputs_all(2) [OF r'] by (simp add: upto_rec2)
  qed
  moreover have "append_input e' k x content actor db' = (Inr n, db')"
    using eff assms(3) by (simp add: append_input_def append_input_in_def find_row_append)
  ultimately show ?thesis using read_inputs_all(2) [OF r', of k] new by metis
qed

theorem appended_input_read_back_witness:
  "map in_sequence (read_inputs 1 0 (snd (append_input (example_env 6 50) 1 77 fmempty ''event'' claimed_db))) = [1]"
proof -
  have f: "fst (append_input (example_env 6 50) 1 77 fmempty ''event'' claimed_db) = Inr 1"
    by (simp add: append_input_def append_input_in_def claimed_db_simps example_intake_def insert_input_def insert_row_def
        next_input_sequence_def mark_none)
  have "find_row in_input_id 77 (db_inputs claimed_db) = None" by (simp add: claimed_db_simps)
  moreover obtain db' where a: "append_input (example_env 6 50) 1 77 fmempty ''event'' claimed_db = (Inr 1, db')"
    using f by (metis prod.collapse)
  ultimately show ?thesis using appended_input_read_back [OF claimed_reachable a] by simp
qed

subsection \<open>Takeover\<close>

lemma human_owned_not_claimed:
  "find_incident k db = Some i \<Longrightarrow> ir_mode i = M_human_owned \<Longrightarrow> fst (claim k j owner versions secs e db) \<noteq> Inr l"
  by (cases "claim k j owner versions secs e db")
    (auto elim!: claim_InrE dest!: run_join_SomeD simp: claim_guard_def split: if_splits)

lemma current_pairs_iff:
  "(i, r) \<in> set (current_pairs db) \<longleftrightarrow> i \<in> set (db_incidents db) \<and> (\<exists>k. ir_current_run_id i = Some k \<and> find_run k db = Some r)"
  by (auto simp: current_pairs_def List.map_filter_def bind_eq_Some_conv image_iff intro!: bexI [of _ i])

lemma human_owned_not_listed:
  assumes "store_ok db" and "find_incident k db = Some i" and "ir_mode i = M_human_owned" and "claimable_incidents e limit db = Inr ks"
  shows "k \<notin> set ks"
proof
  assume "k \<in> set ks"
  then obtain x r where "(x, r) \<in> set (current_pairs db)" "claimable (env_now e) (x, r)" "ir_incident_id x = k"
    using assms(4) by (auto simp: claimable_incidents_def split: if_splits dest!: in_set_takeD)
  then have "x = i" using find_incident_unique [OF assms(1,2)] by (simp add: current_pairs_iff)
  with \<open>claimable (env_now e) (x, r)\<close> assms(3) show False by (simp add: claimable_def open_automatic_def)
qed

text \<open>\<^bold>\<open>C31\<close> (\<open>control\<close> with \<open>takeover\<close>, \<open>claim\<close>, \<open>claimable_incidents\<close>) An incident a human took over stays the human's in
  every later state: no operation returns it to automatic, it is never listed to a worker, and every
  claim on a Run of it is refused.\<close>

theorem takeover_is_permanent:
  assumes "reachable db" and "find_incident k db = Some i" and "ir_mode i = M_human_owned" and "store_steps db db'"
  shows "(\<exists>i'. find_incident k db' = Some i' \<and> ir_mode i' = M_human_owned)
    \<and> fst (claim k j owner versions secs e db') \<noteq> Inr l \<and> (claimable_incidents e limit db' = Inr ks \<longrightarrow> k \<notin> set ks)"
proof -
  have ok: "store_ok db" using assms(1) by (rule reachable_ok)
  obtain i' where i': "find_incident k db' = Some i'" "ir_mode i' = M_human_owned"
    using steps_next(1) [OF assms(4) ok assms(2)] assms(3) by (auto simp: incident_next_def)
  with human_owned_not_claimed human_owned_not_listed [OF steps_ok [OF assms(4) ok] i'] show ?thesis by blast
qed

definition taken_db :: db where
  "taken_db = snd (control (cancel_decision\<lparr>dc_action := ''takeover''\<rparr>) no_renewal (example_env 6 50) claimed_db)"

lemma taken_incident: "\<exists>i. find_incident 1 taken_db = Some i \<and> ir_mode i = M_human_owned"
  by (simp add: taken_db_def control_def control_in_def cancel_decision_def store_actions_def rebind_request_def merge_request_def
      extra_targets_def lock_scope_def incident_target_def claimed_db_simps example_intake_def decide_def is_note_def takeover_def
      settle_decision_def revoke_none update_incident_def move_runs_def record_control_def insert_row_def mark_none)

lemma taken_reachable: "reachable taken_db"
  unfolding taken_db_def by (rule reachable_step [OF claimed_reachable step_control])

theorem takeover_is_permanent_witness: "fst (claim 1 10 8 fmempty 30 (example_env 9 60) taken_db) \<noteq> Inr claimed_lease"
  using taken_incident takeover_is_permanent [OF taken_reachable _ _ rtranclp.rtrancl_refl] by blast

end
