(* ===== verification/Store_Progress.thy ===== *)
theory Store_Progress
  imports Store_Safety "HOL-Library.Multiset"
begin

section \<open>What the store gets done: claims, sweeps, the backlog limit, recovery\<close>

text \<open>
  The progress side of the store: what is listed can be claimed, the deadline sweep and the backlog
  pass, loops of single transactions, have the effect of one bulk update, and what recovery hands to a
  new attempt is what the domain rules call pending.
\<close>

subsection \<open>Claims\<close>

lemma take_lease_valid:
  assumes j: "run_join db j = Some (r, i)" and "\<not> suspended_scope (joined_scope db i)"
    and lease: "lease = claim_lease owner r i (joined_scope db i)"
    and t: "t < min (env_later e + seconds_interval secs) (rr_deadline r)"
  shows "lease_valid (take_lease e secs lease db) lease t"
proof -
  let ?f = "\<lambda>r. r\<lparr>rr_state := R_running, rr_owner := Some (le_owner lease), rr_epoch := le_epoch lease,
      rr_control_generation := le_control_generation lease,
      rr_lease_until := Some (min (env_later e + seconds_interval secs) (rr_deadline r))\<rparr>"
  have r: "find_run j db = Some r" "rr_run_id r = j" "find_incident (rr_incident_id r) db = Some i"
    using run_join_SomeD [OF j] by auto
  have l: "le_run_id lease = j" using lease r(2) by (simp add: claim_lease_def)
  have "find_run j (take_lease e secs lease db) = Some (?f r)"
    using r(1,2) l by (simp add: take_lease_def find_row_update_where)
  then have "run_join (take_lease e secs lease db) (le_run_id lease) = Some (?f r, i)"
    using r(3) l by (simp add: run_join_Some_iff take_lease_def)
  moreover have "joined_scope (take_lease e secs lease db) i = joined_scope db i"
    by (simp add: joined_scope_def take_lease_def)
  moreover have "db_global_suspended (take_lease e secs lease db) = db_global_suspended db"
    "db_global_generation (take_lease e secs lease db) = db_global_generation db"
    by (simp_all add: take_lease_def)
  ultimately show ?thesis using assms(2) t lease
    by (simp add: lease_valid_def lease_revoked_def suspended_scope_def claim_lease_def min_le_iff_disj not_le)
qed

lemma claim_supersedes:
  assumes "claim k j owner versions secs e db = (Inr lease, db')" and "lease_valid db lease' t" and "le_run_id lease' = j"
  shows "superseded db' lease'"
  using assms(1)
proof (rule claim_InrE)
  fix r i assume j: "run_join db j = Some (r, i)" and l: "lease = claim_lease owner r i (joined_scope db i)"
    and db': "db' = take_lease e secs lease db"
  have r: "find_run j db = Some r" "rr_run_id r = j" "find_incident (rr_incident_id r) db = Some i"
    using run_join_SomeD [OF j] by auto
  have "\<exists>r'. run_join db' j = Some (r', i) \<and> rr_epoch r' = rr_epoch r + 1"
    using r l by (simp add: db' take_lease_def run_join_Some_iff find_row_update_where claim_lease_def)
  moreover have "le_epoch lease' = rr_epoch r" using assms(2,3) j by (simp add: lease_valid_def lease_revoked_def)
  ultimately show ?thesis using assms(3) by (auto simp: superseded_def)
qed

text \<open>\<^bold>\<open>C33\<close> (\<open>claimable_incidents\<close>, \<open>claim\<close>) Every incident on the worker's list whose gates are open can be claimed: a
  claim of its current Run with the Run's versions succeeds, the lease it returns is of the next
  attempt and valid until it runs out or the deadline comes, and every earlier lease on the Run is
  superseded by it.\<close>

theorem listed_incidents_can_be_claimed:
  assumes "reachable db" and "claimable_incidents e limit db = Inr ks" and "k \<in> set ks"
    and "lock_scope db (Some k) [] = Inr sc" and "\<not> suspended_scope sc"
  shows "\<exists>j r lease db'. find_run j db = Some r \<and> claim k j owner (rr_versions r) secs e db = (Inr lease, db')
    \<and> le_epoch lease = rr_epoch r + 1
    \<and> (\<forall>t < min (env_later e + seconds_interval secs) (rr_deadline r). lease_valid db' lease t)
    \<and> (\<forall>lease' t. lease_valid db lease' t \<and> le_run_id lease' = j \<longrightarrow> superseded db' lease')"
proof -
  have ok: "store_ok db" using assms(1) by (rule reachable_ok)
  from assms(2,3) obtain i r where p: "(i, r) \<in> set (current_pairs db)" "claimable (env_now e) (i, r)" "ir_incident_id i = k"
    by (auto simp: claimable_incidents_def split: if_splits dest!: in_set_takeD)
  then obtain j where j: "ir_current_run_id i = Some j" "find_run j db = Some r" "i \<in> set (db_incidents db)"
    by (auto simp: current_pairs_iff)
  then have own: "rr_incident_id r = k"
    using current_runs_okD [of db i j] ok p(3) by (auto simp: store_ok_def)
  have i: "find_incident k db = Some i" using find_row_distinct [of ir_incident_id "db_incidents db" i] ok j(3) p(3) by (simp add: store_ok_def)
  have rj: "run_join db j = Some (r, i)" using j(2) own i by (simp add: run_join_Some_iff)
  have sc: "\<not> suspended_scope (joined_scope db i)" using lock_scope_joined [OF assms(4) i] assms(5) by simp
  let ?lease = "claim_lease owner r i (joined_scope db i)"
  have "claim_guard r i (joined_scope db i) (env_now e) = None"
    using p(2) sc by (auto simp: claim_guard_def claimable_def open_automatic_def active_lease_def split: option.splits)
  then have c: "claim k j owner (rr_versions r) secs e db = (Inr ?lease, take_lease e secs ?lease db)"
    using p(2,3) rj assms(4) by (auto simp: claim_def claimable_def)
  have "le_epoch ?lease = rr_epoch r + 1" by (simp add: claim_lease_def)
  with j(2) c take_lease_valid [OF rj sc refl, of _ e secs owner] claim_supersedes [OF c] show ?thesis by blast
qed

theorem listed_incidents_can_be_claimed_witness:
  "claimable_incidents (example_env 5 50) 20 accepted_db = Inr [1] \<and>
   (\<exists>j r lease db'. find_run j accepted_db = Some r
      \<and> claim 1 j 7 (rr_versions r) 30 (example_env 5 50) accepted_db = (Inr lease, db') \<and> lease_valid db' lease 6)"
proof -
  have l: "claimable_incidents (example_env 5 50) 20 accepted_db = Inr [1]"
    by (simp add: accepted_db_eq claimable_incidents_def current_pairs_def List.map_filter_def example_intake_def
        initial_db_def accepted_run_simps claimable_def open_automatic_def example_env_def)
  have r: "rr_deadline r = 1000000000" if "find_run j accepted_db = Some r" for j r
    using that by (auto simp: accepted_db_eq accepted_run_simps split: if_splits)
  have "lock_scope accepted_db (Some 1) [] = Inr \<lparr>sc_global_suspended = False, sc_global_generation = 0, sc_target_suspended = False, sc_target_generation = 0\<rparr>"
    by (simp add: lock_scope_def incident_target_def accepted_db_eq example_intake_def initial_db_def)
  from listed_incidents_can_be_claimed [OF accepted_reachable l _ this, where owner = 7 and secs = 30] obtain j r lease db' where
    c: "find_run j accepted_db = Some r" "claim 1 j 7 (rr_versions r) 30 (example_env 5 50) accepted_db = (Inr lease, db')"
    "\<forall>t < min (env_later (example_env 5 50) + seconds_interval 30) (rr_deadline r). lease_valid db' lease t"
    by (auto simp: suspended_scope_def)
  have "lease_valid db' lease 6" using c(3) by (simp add: r [OF c(1)] example_env_def seconds_interval_def)
  with c(1,2) l show ?thesis by blast
qed

subsection \<open>The deadline sweep\<close>

abbreviation parked :: "run_row \<Rightarrow> run_row" where
  "parked r \<equiv> r\<lparr>rr_state := R_waiting_human, rr_owner := None, rr_lease_until := None\<rparr>"

lemma sweep_one_parks:
  assumes d: "distinct (map rr_run_id (db_runs db))" and r: "r \<in> set (db_runs db)" "overdue (env_later e) r"
    "find_incident (rr_incident_id r) db \<noteq> None"
  obtains g ob n where "sweep_one e (rr_incident_id r, rr_run_id r) db = Inr (Some (rr_incident_id r, rr_run_id r, g),
      db\<lparr>db_runs := update_where (\<lambda>x. rr_run_id x = rr_run_id r) parked (db_runs db), db_outbox := ob, db_outbox_seq := n\<rparr>)"
proof -
  have f: "find_run (rr_run_id r) db = Some r" using find_row_distinct [OF d r(1)] .
  from r(3) obtain i where i: "find_incident (rr_incident_id r) db = Some i" by auto
  let ?p = "park e (rr_run_id r) {R_queued, R_running} db"
  have "fst ?p" using r by (auto simp: park_def overdue_def)
  then have s: "sweep_one e (rr_incident_id r, rr_run_id r) db = Inr (Some (rr_incident_id r, rr_run_id r, ir_control_generation i), snd ?p)"
    using f i r(2) by (simp add: sweep_one_def Let_def)
  have "rr_state x \<in> {R_queued, R_running}" if "x \<in> set (db_runs db)" "rr_run_id x = rr_run_id r" for x
    using d r that by (metis distinct_map inj_onD overdue_def)
  then have u: "update_where (\<lambda>x. rr_run_id x = rr_run_id r \<and> rr_state x \<in> {R_queued, R_running}) parked (db_runs db) =
      update_where (\<lambda>x. rr_run_id x = rr_run_id r) parked (db_runs db)"
    by (auto simp: update_where_def)
  obtain ob n where "snd ?p = db\<lparr>db_runs := update_where (\<lambda>x. rr_run_id x = rr_run_id r \<and> rr_state x \<in> {R_queued, R_running}) parked (db_runs db),
      db_outbox := ob, db_outbox_seq := n\<rparr>"
    using update_runs_shape [of e "\<lambda>x. rr_run_id x = rr_run_id r \<and> rr_state x \<in> {R_queued, R_running}" parked db]
    unfolding park_def snd_conv by blast
  then show thesis using that s unfolding u by simp
qed

text \<open>The sweep over a list of overdue Runs parks exactly these, and touches no table but the Runs and the
  outbox.\<close>

lemma sweep_loop_bulk:
  assumes "distinct (map rr_run_id (db_runs db))" and "distinct (map snd cs)"
    and "\<And>c. c \<in> set cs \<Longrightarrow> \<exists>r \<in> set (db_runs db). c = (rr_incident_id r, rr_run_id r) \<and> overdue (env_later e) r
       \<and> find_incident (rr_incident_id r) db \<noteq> None"
  shows "\<exists>ps ob n. sweep_loop e cs db = (Inr ps, db\<lparr>db_runs := update_where (\<lambda>r. rr_run_id r \<in> snd ` set cs) parked (db_runs db),
      db_outbox := ob, db_outbox_seq := n\<rparr>) \<and> map (\<lambda>(k, j, g). (k, j)) ps = cs"
  using assms
proof (induction cs arbitrary: db)
  case Nil
  show ?case
    by (intro exI [of _ "[]"] exI [of _ "db_outbox db"] exI [of _ "db_outbox_seq db"]) (simp add: update_where_cong_id)
next
  case (Cons c cs)
  from Cons.prems(3) [of c] obtain r where r: "r \<in> set (db_runs db)" "c = (rr_incident_id r, rr_run_id r)" "overdue (env_later e) r"
    "find_incident (rr_incident_id r) db \<noteq> None" by auto
  obtain g ob n where one: "sweep_one e c db = Inr (Some (rr_incident_id r, rr_run_id r, g),
      db\<lparr>db_runs := update_where (\<lambda>x. rr_run_id x = snd c) parked (db_runs db), db_outbox := ob, db_outbox_seq := n\<rparr>)"
    using sweep_one_parks [OF Cons.prems(1) r(1,3,4)] unfolding r(2) snd_conv .
  define db1 where "db1 = db\<lparr>db_runs := update_where (\<lambda>x. rr_run_id x = snd c) parked (db_runs db), db_outbox := ob, db_outbox_seq := n\<rparr>"
  have runs: "db_runs db1 = update_where (\<lambda>x. rr_run_id x = snd c) parked (db_runs db)" and inc: "db_incidents db1 = db_incidents db"
    by (simp_all add: db1_def)
  have keep: "x \<in> set (db_runs db1)" if "x \<in> set (db_runs db)" "rr_run_id x \<noteq> snd c" for x
    using that by (auto simp: runs set_update_where)
  have "\<exists>x \<in> set (db_runs db1). d = (rr_incident_id x, rr_run_id x) \<and> overdue (env_later e) x
      \<and> find_incident (rr_incident_id x) db1 \<noteq> None" if d: "d \<in> set cs" for d
  proof -
    from Cons.prems(3) [of d] d obtain x where x: "x \<in> set (db_runs db)" "d = (rr_incident_id x, rr_run_id x)" "overdue (env_later e) x"
      "find_incident (rr_incident_id x) db \<noteq> None" by auto
    moreover have "rr_run_id x \<noteq> snd c"
    proof -
      have "rr_run_id x \<in> snd ` set cs" by (rule image_eqI [OF _ d]) (simp add: x(2))
      moreover have "snd c \<notin> snd ` set cs" using Cons.prems(2) by simp
      ultimately show ?thesis by metis
    qed
    ultimately show ?thesis using keep [of x] inc by auto
  qed
  moreover have "distinct (map rr_run_id (db_runs db1))" using Cons.prems(1) by (simp add: runs map_update_where)
  moreover have "distinct (map snd cs)" using Cons.prems(2) by simp
  ultimately obtain ps ob' n' where IH: "sweep_loop e cs db1 = (Inr ps, db1\<lparr>db_runs := update_where (\<lambda>r. rr_run_id r \<in> snd ` set cs) parked
      (db_runs db1), db_outbox := ob', db_outbox_seq := n'\<rparr>)" "map (\<lambda>(k, j, g). (k, j)) ps = cs"
    using Cons.IH [of db1] by blast
  have "update_where (\<lambda>r. rr_run_id r \<in> snd ` set cs) parked (db_runs db1) = update_where (\<lambda>r. rr_run_id r \<in> snd ` set (c # cs)) parked (db_runs db)"
    unfolding runs by (subst update_where_twice) simp_all
  then have "db1\<lparr>db_runs := update_where (\<lambda>r. rr_run_id r \<in> snd ` set cs) parked (db_runs db1), db_outbox := ob', db_outbox_seq := n'\<rparr>
      = db\<lparr>db_runs := update_where (\<lambda>r. rr_run_id r \<in> snd ` set (c # cs)) parked (db_runs db), db_outbox := ob', db_outbox_seq := n'\<rparr>"
    by (simp add: db1_def)
  with IH(1) have rest: "sweep_loop e cs db1 = (Inr ps, db\<lparr>db_runs := update_where (\<lambda>r. rr_run_id r \<in> snd ` set (c # cs)) parked (db_runs db),
      db_outbox := ob', db_outbox_seq := n'\<rparr>)" by (rule trans [OF _ arg_cong])
  show ?case
  proof (intro exI conjI)
    show "sweep_loop e (c # cs) db = (Inr ((rr_incident_id r, rr_run_id r, g) # ps), db\<lparr>db_runs := update_where
        (\<lambda>r. rr_run_id r \<in> snd ` set (c # cs)) parked (db_runs db), db_outbox := ob', db_outbox_seq := n'\<rparr>)"
      unfolding sweep_loop.simps one [folded db1_def] by (simp only: rest sum.case prod.case option.case append.simps)
  qed (simp add: IH(2) r(2))
qed

text \<open>The overdue Runs a sweep with a limit takes: those of the earliest deadlines.\<close>

definition swept :: "time \<Rightarrow> nat \<Rightarrow> db \<Rightarrow> run_row list" where
  "swept now limit db = take limit (sort_key rr_deadline (filter (overdue now) (db_runs db)))"

text \<open>\<^bold>\<open>C34\<close> (\<open>sweep_expired_runs_with_generations\<close>) A sweep of the overdue Runs, one transaction each, succeeds and has
  the effect of one bulk update of the Runs: it parks exactly the queued and running Runs whose deadline has
  passed, up to the limit those of the earliest deadlines, reports exactly these with their incidents in that order,
  and changes nothing else but the outbox. When the limit covers all overdue Runs, none is overdue afterwards.\<close>

theorem sweep_equals_bulk_update:
  assumes "reachable db" and "env_now e \<le> env_later e"
  shows "\<exists>ps ob n. sweep_expired_runs_with_generations e None limit db = (Inr ps,
        db\<lparr>db_runs := update_where (\<lambda>r. r \<in> set (swept (env_now e) limit db)) parked (db_runs db), db_outbox := ob, db_outbox_seq := n\<rparr>)
    \<and> map (\<lambda>(k, j, g). (k, j)) ps = map (\<lambda>r. (rr_incident_id r, rr_run_id r)) (swept (env_now e) limit db)
    \<and> (length (filter (overdue (env_now e)) (db_runs db)) \<le> limit \<longrightarrow>
        filter (overdue (env_now e)) (update_where (\<lambda>r. r \<in> set (swept (env_now e) limit db)) parked (db_runs db)) = [])"
proof -
  have ok: "store_ok db" using assms(1) by (rule reachable_ok)
  let ?s = "swept (env_now e) limit db"
  define cs where "cs = sweep_candidates e None limit db"
  have cs: "cs = map (\<lambda>r. (rr_incident_id r, rr_run_id r)) ?s" by (simp add: cs_def sweep_candidates_def swept_def)
  have d: "distinct (map rr_run_id (db_runs db))" using ok by (simp add: store_ok_def)
  have sub: "set ?s \<subseteq> {r \<in> set (db_runs db). overdue (env_now e) r}"
    using set_take_subset [of limit "sort_key rr_deadline (filter (overdue (env_now e)) (db_runs db))"] by (auto simp: swept_def)
  have "distinct (db_runs db)" using d by (simp add: distinct_map)
  then have "distinct ?s" by (simp add: swept_def)
  moreover have "inj_on rr_run_id (set ?s)" using d sub by (auto simp: distinct_map intro: inj_on_subset)
  ultimately have "distinct (map snd cs)" by (simp add: cs o_def distinct_map)
  moreover have "\<exists>r \<in> set (db_runs db). c = (rr_incident_id r, rr_run_id r) \<and> overdue (env_later e) r
      \<and> find_incident (rr_incident_id r) db \<noteq> None" if c: "c \<in> set cs" for c
  proof -
    from c sub obtain r where r: "r \<in> set (db_runs db)" "overdue (env_now e) r" "c = (rr_incident_id r, rr_run_id r)" by (auto simp: cs)
    moreover have "find_incident (rr_incident_id r) db \<noteq> None" using ok r(1) by (fastforce simp: store_ok_def runs_ok_def)
    ultimately show ?thesis using assms(2) by (force simp: overdue_def)
  qed
  ultimately obtain ps ob n where l: "sweep_loop e cs db = (Inr ps, db\<lparr>db_runs := update_where (\<lambda>r. rr_run_id r \<in> snd ` set cs) parked
      (db_runs db), db_outbox := ob, db_outbox_seq := n\<rparr>)" "map (\<lambda>(k, j, g). (k, j)) ps = cs"
    using sweep_loop_bulk [OF d] by blast
  have "rr_run_id r \<in> snd ` set cs \<longleftrightarrow> r \<in> set ?s" if "r \<in> set (db_runs db)" for r
    using that d sub by (auto simp: cs image_image distinct_map inj_on_def)
  then have runs: "update_where (\<lambda>r. rr_run_id r \<in> snd ` set cs) parked (db_runs db) = update_where (\<lambda>r. r \<in> set ?s) parked (db_runs db)"
    unfolding update_where_def by (intro map_cong) auto
  have "filter (overdue (env_now e)) (update_where (\<lambda>r. r \<in> set ?s) parked (db_runs db)) = []"
    if "length (filter (overdue (env_now e)) (db_runs db)) \<le> limit"
    using that by (auto simp: filter_empty_conv set_update_where overdue_def swept_def split: if_splits)
  moreover have "sweep_expired_runs_with_generations e None limit db = (Inr ps,
      db\<lparr>db_runs := update_where (\<lambda>r. r \<in> set ?s) parked (db_runs db), db_outbox := ob, db_outbox_seq := n\<rparr>)"
    unfolding sweep_expired_runs_with_generations_def cs_def [symmetric] l(1) runs ..
  moreover have "map (\<lambda>(k, j, g). (k, j)) ps = map (\<lambda>r. (rr_incident_id r, rr_run_id r)) ?s" using l(2) unfolding cs .
  ultimately show ?thesis by blast
qed

theorem sweep_equals_bulk_update_witness:
  "\<exists>ps db'. sweep_expired_runs_with_generations (example_env 2000000000 50) None 100 accepted_db = (Inr ps, db')
    \<and> map (\<lambda>(k, j, g). (k, j)) ps = [(1, 10)] \<and> db_runs db' = [parked accepted_run]"
proof -
  have "overdue 2000000000 accepted_run" by (simp add: overdue_def accepted_run_simps)
  moreover have "db_runs accepted_db = [accepted_run]" by (simp add: accepted_db_eq)
  ultimately have "swept 2000000000 100 accepted_db = [accepted_run]" by (simp add: swept_def)
  with sweep_equals_bulk_update [OF accepted_reachable, of "example_env 2000000000 50" 100] \<open>db_runs accepted_db = [accepted_run]\<close>
  show ?thesis by (auto simp: example_env_def update_where_def accepted_run_simps)
qed

subsection \<open>The backlog limit\<close>

text \<open>The parkable Runs in the order a pass picks them: the claim order reversed.\<close>

definition backlog_order :: "time \<Rightarrow> db \<Rightarrow> (incident_row \<times> run_row) list" where
  "backlog_order now db = rev (sort_key claim_order (filter (parkable now) (current_pairs db)))"

definition park_triple :: "incident_row \<times> run_row \<Rightarrow> uuid \<times> uuid \<times> int" where
  "park_triple p = (ir_incident_id (fst p), rr_run_id (snd p), ir_control_generation (fst p))"

lemma remove1_by_key:
  assumes "distinct xs" and "p \<in> set xs" and "\<And>q. q \<in> set xs \<Longrightarrow> g q = g p \<Longrightarrow> q = p"
  shows "filter (\<lambda>q. g q \<noteq> g p) xs = remove1 p xs"
proof -
  have "filter (\<lambda>q. g q \<noteq> g p) xs = filter (\<lambda>q. p \<noteq> q) xs" using assms(2,3) by (intro filter_cong) auto
  with assms(1) show ?thesis by (simp add: distinct_remove1_removeAll removeAll_filter_not_eq)
qed

lemma sort_key_remove_last:
  fixes f :: "'a \<Rightarrow> 'b::linorder"
  assumes "inj_on f (set xs)" and "rev (sort_key f xs) = p # ps"
  shows "rev (sort_key f (remove1 p xs)) = ps"
proof -
  have s: "sort_key f xs = rev ps @ [p]" using assms(2) by (metis rev.simps(2) rev_rev_ident)
  have "mset (remove1 p xs) = mset (rev ps)" using arg_cong [OF s, of mset] by simp
  moreover have "inj_on f (set (remove1 p xs))" using assms(1) set_remove1_subset by (rule inj_on_subset)
  moreover have "sorted (map f (rev ps))" using sorted_sort_key [of f xs] by (simp add: s sorted_append)
  ultimately have "sort_key f (remove1 p xs) = rev ps" by (rule sort_key_inj_key_eq)
  then show ?thesis by simp
qed

lemma distinct_map_filter:
  assumes "distinct xs" and "\<And>x y. g x = Some y \<Longrightarrow> h y = x"
  shows "distinct (List.map_filter g xs)"
proof -
  have "h y \<in> set ys" if "y \<in> set (List.map_filter g ys)" for y ys
    using that assms(2) by (induction ys) (auto simp: List.map_filter_simps split: option.splits)
  with assms show ?thesis by (induction xs) (fastforce simp: List.map_filter_simps split: option.splits)+
qed

lemma current_pairs_ok:
  assumes "store_ok db"
  shows "distinct (current_pairs db)" and "inj_on claim_order (set (current_pairs db))"
    and "p \<in> set (current_pairs db) \<Longrightarrow> q \<in> set (current_pairs db) \<Longrightarrow> rr_run_id (snd q) = rr_run_id (snd p) \<Longrightarrow> q = p"
proof -
  have d: "distinct (map ir_incident_id (db_incidents db))" using assms by (simp add: store_ok_def)
  have same: "q = p" if "p \<in> set (current_pairs db)" "q \<in> set (current_pairs db)" "ir_incident_id (fst q) = ir_incident_id (fst p)" for p q
  proof -
    obtain i r j r' where pq: "p = (i, r)" "q = (j, r')" using surj_pair by metis
    with that d have "i = j" by (auto simp: current_pairs_iff distinct_map inj_on_def)
    with that pq show ?thesis by (auto simp: current_pairs_iff)
  qed
  show "inj_on claim_order (set (current_pairs db))" using same by (auto simp: inj_on_def claim_order_def)
  show "q = p" if "p \<in> set (current_pairs db)" "q \<in> set (current_pairs db)" "rr_run_id (snd q) = rr_run_id (snd p)" for p q
  proof -
    have "ir_incident_id (fst x) = rr_incident_id (snd x) \<and> find_run (rr_run_id (snd x)) db = Some (snd x)"
      if "x \<in> set (current_pairs db)" for x
    proof -
      obtain i r where x: "x = (i, r)" using surj_pair by metis
      with that obtain k where k: "i \<in> set (db_incidents db)" "ir_current_run_id i = Some k" "find_run k db = Some r"
        by (auto simp: current_pairs_iff)
      with assms current_runs_okD [of db i k] x find_row_key [OF k(3)] show ?thesis by (auto simp: store_ok_def)
    qed
    from this [OF that(1)] this [OF that(2)] that(3) have "ir_incident_id (fst q) = ir_incident_id (fst p)" by simp
    with same that show ?thesis by blast
  qed
  show "distinct (current_pairs db)"
    unfolding current_pairs_def using d
    by (intro distinct_map_filter [where h = fst]) (auto simp: distinct_map bind_eq_Some_conv)
qed

text \<open>What the parking of the current Run \<open>j\<close> of an incident takes out of the backlog.\<close>

lemma current_pairs_parked:
  assumes "db_incidents db' = db_incidents db" and "db_runs db' = update_where (\<lambda>r. rr_run_id r = j) parked (db_runs db)"
  shows "current_pairs db' = map (\<lambda>(i, r). (i, if rr_run_id r = j then parked r else r)) (current_pairs db)"
proof -
  have f: "find_run k db' = map_option (\<lambda>r. if rr_run_id r = j then parked r else r) (find_run k db)" for k
    by (simp add: assms(2) find_row_update_where)
  have "List.map_filter (\<lambda>i. Option.bind (ir_current_run_id i) (\<lambda>k. map_option (Pair i) (find_run k db'))) is =
    map (\<lambda>(i, r). (i, if rr_run_id r = j then parked r else r))
      (List.map_filter (\<lambda>i. Option.bind (ir_current_run_id i) (\<lambda>k. map_option (Pair i) (find_run k db))) is)" for "is"
    by (induction "is") (auto simp: List.map_filter_simps f split: option.split bind_split)
  then show ?thesis by (simp add: current_pairs_def assms(1))
qed

lemma backlog_parked:
  assumes ok: "store_ok db" and p: "p \<in> set (current_pairs db)" "Q p"
    and inc: "db_incidents db' = db_incidents db" and runs: "db_runs db' = update_where (\<lambda>r. rr_run_id r = rr_run_id (snd p)) parked (db_runs db)"
    and Q: "\<And>i r. \<not> Q (i, parked r)"
  shows "filter Q (current_pairs db') = remove1 p (filter Q (current_pairs db))"
proof -
  have "filter Q (map (\<lambda>(i, r). (i, if rr_run_id r = j then parked r else r)) xs) = filter (\<lambda>q. rr_run_id (snd q) \<noteq> j) (filter Q xs)" for j xs
    by (induction xs) (auto simp: Q)
  then have "filter Q (current_pairs db') = filter (\<lambda>q. rr_run_id (snd q) \<noteq> rr_run_id (snd p)) (filter Q (current_pairs db))"
    unfolding current_pairs_parked [OF inc runs] .
  also have "\<dots> = remove1 p (filter Q (current_pairs db))"
    using current_pairs_ok(1) [OF ok] current_pairs_ok(3) [OF ok p(1)] p by (intro remove1_by_key) auto
  finally show ?thesis .
qed

lemma backlog_order_Cons:
  assumes "backlog_order now db = p # ps"
  shows "p \<in> set (current_pairs db)" "parkable now p" "backlog_lowest now db = Some p"
proof -
  have "p \<in> set (backlog_order now db)" using assms by simp
  then show "p \<in> set (current_pairs db)" "parkable now p" by (simp_all add: backlog_order_def)
  show "backlog_lowest now db = Some p" using assms by (simp add: backlog_lowest_def backlog_order_def)
qed

text \<open>One transaction of a pass: the lowest of the order goes when the count is above the limit.\<close>

lemma park_backlog_one_parks:
  assumes ok: "store_ok db" and t: "env_now e = t" "env_later e = t" and order: "backlog_order t db = p # ps"
    and above: "max_queued < int (backlog_count t db)"
  obtains db' where "park_backlog_one max_queued e db = (BS_parked (park_triple p), db')" "store_ok db'"
    "backlog_order t db' = ps" "Suc (backlog_count t db') = backlog_count t db" "db_incidents db' = db_incidents db"
    "db_runs db' = update_where (\<lambda>r. rr_run_id r = rr_run_id (snd p)) parked (db_runs db)"
proof -
  note p = backlog_order_Cons [OF order]
  obtain i r where pr: "p = (i, r)" by (cases p)
  define db' where "db' = snd (park e (rr_run_id r) {R_queued} db)"
  have r: "r \<in> set (db_runs db)" "rr_state r = R_queued"
    using p(1,2) find_row_in_set by (auto simp: pr current_pairs_iff parkable_def in_backlog_def)
  then have step: "park_backlog_one max_queued e db = (BS_parked (park_triple p), db')"
    using p above t by (auto simp: park_backlog_one_def pr Let_def park_triple_def db'_def park_def)
  have "rr_state x \<in> {R_queued}" if "x \<in> set (db_runs db)" "rr_run_id x = rr_run_id r" for x
    using ok r that by (metis distinct_map inj_onD insertI1 store_ok_def)
  then have runs: "db_runs db' = update_where (\<lambda>x. rr_run_id x = rr_run_id (snd p)) parked (db_runs db)"
    by (auto simp: db'_def pr park_def update_where_def)
  have inc: "db_incidents db' = db_incidents db" by (simp add: db'_def park_def)
  have "store_ok db'" using store_ok_core [OF core_park_backlog_one ok, of max_queued e] step by simp
  moreover have "filter (parkable t) (current_pairs db') = remove1 p (filter (parkable t) (current_pairs db))"
    using p by (intro backlog_parked [OF ok _ _ inc runs]) (auto simp: parkable_def in_backlog_def)
  then have "backlog_order t db' = ps"
    using sort_key_remove_last [of claim_order "filter (parkable t) (current_pairs db)" p ps] order
      inj_on_subset [OF current_pairs_ok(2) [OF ok], of "set (filter (parkable t) (current_pairs db))"]
    by (auto simp: backlog_order_def)
  moreover have b: "p \<in> set (filter (in_backlog t) (current_pairs db))" using p by (simp add: parkable_def)
  have "filter (in_backlog t) (current_pairs db') = remove1 p (filter (in_backlog t) (current_pairs db))"
    using b by (intro backlog_parked [OF ok _ _ inc runs]) (auto simp: in_backlog_def)
  then have "Suc (backlog_count t db') = backlog_count t db"
    using b length_pos_if_in_set [OF b] by (simp add: backlog_count_def length_remove1)
  ultimately show thesis using step inc runs by (intro that)
qed

lemma park_backlog_loop_bulk:
  assumes "store_ok db" and "env_now e = t" "env_later e = t"
  shows "\<exists>db'. park_backlog_loop max_queued (replicate n e) db = (map park_triple (take (min n (nat (int (backlog_count t db) - max_queued))) (backlog_order t db)), db')
    \<and> db_runs db' = update_where (\<lambda>r. rr_run_id r \<in> (rr_run_id \<circ> snd) ` set (take (min n (nat (int (backlog_count t db) - max_queued))) (backlog_order t db)))
        parked (db_runs db)"
  using assms(1)
proof (induction n arbitrary: db)
  case 0
  then show ?case by (simp add: update_where_cong_id)
next
  case (Suc n)
  show ?case
  proof (cases "backlog_order t db")
    case Nil
    then have "backlog_lowest t db = None" by (simp add: backlog_lowest_def backlog_order_def)
    then show ?thesis using assms Nil by (simp add: park_backlog_one_def update_where_cong_id)
  next
    case (Cons p ps)
    note p = backlog_order_Cons [OF Cons]
    show ?thesis
    proof (cases "int (backlog_count t db) \<le> max_queued")
      case True
      then have "park_backlog_one max_queued e db = (BS_stop, db)"
        using p assms by (auto simp: park_backlog_one_def split: prod.split)
      then show ?thesis using True by (simp add: update_where_cong_id)
    next
      case False
      then obtain db1 where s: "park_backlog_one max_queued e db = (BS_parked (park_triple p), db1)" "store_ok db1"
        "backlog_order t db1 = ps" "Suc (backlog_count t db1) = backlog_count t db"
        "db_runs db1 = update_where (\<lambda>r. rr_run_id r = rr_run_id (snd p)) parked (db_runs db)"
        using park_backlog_one_parks [OF Suc.prems assms(2,3) Cons, of max_queued] by (metis not_le)
      let ?m = "min n (nat (int (backlog_count t db1) - max_queued))"
      have m: "min (Suc n) (nat (int (backlog_count t db) - max_queued)) = Suc ?m"
        using False s(4) by linarith
      from Suc.IH [OF s(2)] obtain db' where IH: "park_backlog_loop max_queued (replicate n e) db1 = (map park_triple (take ?m ps), db')"
        "db_runs db' = update_where (\<lambda>r. rr_run_id r \<in> (rr_run_id \<circ> snd) ` set (take ?m ps)) parked (db_runs db1)"
        unfolding s(3) by blast
      have "db_runs db' = update_where (\<lambda>r. rr_run_id r \<in> (rr_run_id \<circ> snd) ` set (take (Suc ?m) (p # ps))) parked (db_runs db)"
        unfolding IH(2) s(5) by (subst update_where_twice) simp_all
      with s(1) IH(1) show ?thesis unfolding m Cons by simp
    qed
  qed
qed

text \<open>(\<open>park_backlog\<close>) While nothing else happens, a pass of \<open>n\<close> transactions equals one bulk update: of the
  queued Runs no human has touched it parks, in the reverse of the claim order, exactly as many as the
  backlog exceeds the limit, at most \<open>n\<close>, and reports them in that order.\<close>

theorem park_backlog_parks_excess:
  assumes "reachable db" and "env_later e = env_now e" and "1 \<le> max_queued" and "0 < n"
    and "excess = take (min n (nat (int (backlog_count (env_now e) db) - max_queued))) (backlog_order (env_now e) db)"
  shows "\<exists>db'. park_backlog max_queued (replicate n e) db = (Inr (map park_triple excess), db')
    \<and> db_runs db' = update_where (\<lambda>r. rr_run_id r \<in> (rr_run_id \<circ> snd) ` set excess) parked (db_runs db)"
  using park_backlog_loop_bulk [OF reachable_ok [OF assms(1)] refl assms(2), of max_queued n] assms(3-5)
  by (auto simp: park_backlog_def)

definition second_intake :: intake where
  "second_intake = example_intake\<lparr>it_incident_id := 2, it_run_id := 20, it_intake_key := ''m'', it_deadline := 1000000001\<rparr>"

definition two_db :: db where
  "two_db = snd (transaction accepted_db (accept_in (example_env 1 60) second_intake accepted_db))"

definition second_run :: run_row where
  "second_run = fresh_run 20 2 R_queued 0 5 1000000001 fmempty None"

lemma two_db_eq:
  "two_db = accepted_db\<lparr>db_incidents := [fresh_incident (example_env 0 50) example_intake, fresh_incident (example_env 1 60) second_intake],
     db_runs := [accepted_run, second_run]\<rparr>"
  by (simp add: two_db_def accept_in_def accept_new_def insert_incident_def insert_run_def insert_row_def intake_gates_def
      same_intake_def check_priority_def accepted_run_def example_intake_def second_intake_def second_run_def
      accepted_db_eq initial_db_def fresh_incident_def)

theorem park_backlog_parks_excess_witness:
  "\<exists>db'. park_backlog 1 (replicate 5 (example_env 6 70)) two_db = (Inr [(2, 20, 0)], db')"
proof -
  have r: "reachable two_db" unfolding two_db_def by (rule reachable_step [OF accepted_reachable step_accept])
  have pairs: "current_pairs two_db = [(fresh_incident (example_env 0 50) example_intake, accepted_run), (fresh_incident (example_env 1 60) second_intake, second_run)]"
    by (simp add: two_db_eq current_pairs_def List.map_filter_def example_intake_def second_intake_def accepted_run_simps second_run_def)
  have q: "in_backlog 6 (fresh_incident (example_env 0 50) example_intake, accepted_run)" "in_backlog 6 (fresh_incident (example_env 1 60) second_intake, second_run)"
    by (simp_all add: in_backlog_def open_automatic_def accepted_run_simps second_run_def)
  then have pk: "parkable 6 (fresh_incident (example_env 0 50) example_intake, accepted_run)" "parkable 6 (fresh_incident (example_env 1 60) second_intake, second_run)"
    by (simp_all add: parkable_def accepted_run_simps second_run_def)
  have order: "backlog_order 6 two_db = [(fresh_incident (example_env 1 60) second_intake, second_run), (fresh_incident (example_env 0 50) example_intake, accepted_run)]"
  proof -
    have "claim_order (fresh_incident (example_env 0 50) example_intake, accepted_run) = (2, 1000000000, 1)"
      "claim_order (fresh_incident (example_env 1 60) second_intake, second_run) = (2, 1000000001, 2)"
      by (simp_all add: claim_order_def fresh_incident_def example_intake_def second_intake_def accepted_run_simps second_run_def)
    then show ?thesis by (simp add: backlog_order_def pairs pk)
  qed
  have count: "backlog_count 6 two_db = 2" by (simp add: backlog_count_def pairs q)
  have "env_now (example_env 6 70) = 6" "env_later (example_env 6 70) = 6" by (simp_all add: example_env_def)
  with park_backlog_parks_excess [OF r, of "example_env 6 70" 1 5 "[(fresh_incident (example_env 1 60) second_intake, second_run)]"] order count
  show ?thesis by (auto simp: park_triple_def second_run_def second_intake_def)
qed

subsection \<open>Recovery\<close>

text \<open>A stored step as the domain's \<open>ModelStep\<close>: the plan has one entry per call of the response, numbered from 0.\<close>

definition planned_call :: "nat \<Rightarrow> ToolPlanEntry" where
  "planned_call k = \<lparr>tp_tool_index = int k, tp_tool_name = [], tp_tool_version = [], tp_arguments_hash = []\<rparr>"

definition model_step :: "step_row \<Rightarrow> ModelStep" where
  "model_step s = \<lparr>ms_step_id = uuid_str (st_step_id s), ms_run_id = uuid_str (st_run_id s), ms_context_segment = [],
     ms_logical_round = st_sequence s, ms_input_snapshot_hash = [],
     ms_response_committed = (st_status s \<in> {ST_response_committed, ST_tool_result_committed}), ms_response_hash = None,
     ms_tool_plan = (case step_calls s of Inl _ \<Rightarrow> [] | Inr calls \<Rightarrow> map planned_call [0..<length calls])\<rparr>"

definition committed_results :: "step_row \<Rightarrow> int set" where
  "committed_results s = (case step_calls s of Inl _ \<Rightarrow> {}
     | Inr calls \<Rightarrow> (case completed_tool_ordinals (st_tool_results s) (int (length calls)) of Inl _ \<Rightarrow> {} | Inr ks \<Rightarrow> ks))"

definition domain_pending :: "step_row \<Rightarrow> int list" where
  "domain_pending s = (case pending_tool_indices (model_step s) (committed_results s) of Inl _ \<Rightarrow> [] | Inr ks \<Rightarrow> ks)"

abbreviation call_of :: "pending_tool \<Rightarrow> uuid \<times> int" where
  "call_of p \<equiv> (pt_step_id p, int (pt_ordinal p))"

lemma pending_of_step_refines:
  assumes "pending_of_step s = Inr ps" and "live_step g s"
  shows "map call_of ps = map (Pair (st_step_id s)) (domain_pending s)"
proof -
  from assms(1) obtain calls ks where c: "step_calls s = Inr calls"
    "completed_tool_ordinals (st_tool_results s) (int (length calls)) = Inr ks"
    "ps = map (\<lambda>k. \<lparr>pt_step_id = st_step_id s, pt_ordinal = k, pt_tool_call = calls ! k\<rparr>) (filter (\<lambda>k. int k \<notin> ks) [0..<length calls])"
    by (auto simp: pending_of_step_def bind_result_Inr_iff)
  have "domain_pending s = map int (filter (\<lambda>k. int k \<notin> ks) [0..<length calls])"
    using assms(2) c(1,2) by (simp add: domain_pending_def model_step_def committed_results_def pending_tool_indices_def live_step_def
        filter_map o_def planned_call_def)
  with c(3) show ?thesis by simp
qed

lemma pending_of_steps_refines:
  "pending_of_steps g ss = Inr ps \<Longrightarrow>
   map call_of ps = concat (map (\<lambda>s. map (Pair (st_step_id s)) (domain_pending s)) (filter (live_step g) ss))"
  by (induction ss arbitrary: ps) (auto simp: bind_result_Inr_iff pending_of_step_refines split: if_splits)

lemma identified_all_total:
  "\<exists>qs. identified_all ps = Inr qs \<and> map fst qs = ps
     \<and> (\<forall>(p, op) \<in> set qs. tool_operation_id (uuid_str (pt_step_id p)) (int (pt_ordinal p)) = Inr op)"
proof (induction ps)
  case (Cons p ps)
  have "uuid_str (pt_step_id p) \<noteq> []" using length_uuid_str [of "pt_step_id p"] by (metis list.size(3) zero_neq_numeral)
  then obtain op where "tool_operation_id (uuid_str (pt_step_id p)) (int (pt_ordinal p)) = Inr op" by (simp add: tool_operation_id_def)
  with Cons show ?case by (auto simp: identified_def)
qed simp

text \<open>\<^bold>\<open>C35\<close> (\<open>rebuild\<close>, \<open>recover\<close>, \<open>rebuild_plan\<close>) Recovery refines the domain rule: whenever the rows can be read back, a
  plan comes out, its pending calls are, step by step in order, the indices \<open>pending_tool_indices\<close> gives for
  the committed steps of the incident's current generation, and each carries the operation id its
  first dispatch used, so a replay is recognised as the same operation.\<close>

theorem recovery_refines_domain:
  assumes "rebuild k db = Inr sn"
  shows "\<exists>plan. recover db k = Inr plan
    \<and> map (call_of \<circ> fst) (rp_pending_tools plan)
        = concat (map (\<lambda>s. map (Pair (st_step_id s)) (domain_pending s)) (filter (live_step (rp_control_generation plan)) (rp_steps plan)))
    \<and> (\<forall>(p, op) \<in> set (rp_pending_tools plan). tool_operation_id (uuid_str (pt_step_id p)) (int (pt_ordinal p)) = Inr op)"
proof -
  have p: "pending_of_steps (sn_control_generation sn) (sn_steps sn) = Inr (sn_pending_tools sn)"
    using assms by (auto simp: rebuild_def bind_result_Inr_iff split: option.splits if_splits)
  obtain qs where q: "identified_all (sn_pending_tools sn) = Inr qs" "map fst qs = sn_pending_tools sn"
    "\<forall>(p, op) \<in> set qs. tool_operation_id (uuid_str (pt_step_id p)) (int (pt_ordinal p)) = Inr op"
    using identified_all_total by blast
  have "map (call_of \<circ> fst) qs = map call_of (sn_pending_tools sn)" by (simp add: q(2) [symmetric])
  with pending_of_steps_refines [OF p] q assms show ?thesis by (simp add: recover_def rebuild_plan_def)
qed

theorem recovery_refines_domain_witness: "\<exists>plan. recover claimed_db 1 = Inr plan \<and> rp_pending_tools plan = []"
proof -
  have s: "db_steps claimed_db = []"
    unfolding claimed_db_def accepted_claim snd_conv update_runs_frame by (simp add: accepted_db_eq initial_db_def)
  then have "\<exists>sn. rebuild 1 claimed_db = Inr sn"
    by (simp add: rebuild_def claimed_db_simps example_intake_def claimed_run_def accepted_run_simps steps_of_def)
  then obtain sn where sn: "rebuild 1 claimed_db = Inr sn" by blast
  from recovery_refines_domain [OF this] obtain plan where plan: "recover claimed_db 1 = Inr plan"
    "map (call_of \<circ> fst) (rp_pending_tools plan)
        = concat (map (\<lambda>s. map (Pair (st_step_id s)) (domain_pending s)) (filter (live_step (rp_control_generation plan)) (rp_steps plan)))"
    by blast
  have "rp_steps plan = []"
    using plan(1) s by (auto simp: recover_def rebuild_def rebuild_plan_def steps_of_def bind_result_Inr_iff split: option.splits if_splits)
  with plan show ?thesis by auto
qed

end
