(* ===== verification/Observation_Machine.thy ===== *)
theory Observation_Machine
  imports Store_Safety
begin

section \<open>The abstract machine of observation sessions\<close>

text \<open>
  What any operation of the store may do to the sessions, their samples, their endings and the
  profiles, as five kinds of change: nothing, a new session, a move of the sampling job, an ending
  without a sample, and a judged sample. \<open>observed_step\<close> is \<open>store_step\<close> with the hash and the JSON parser
  fixed to those of \<open>w\<close> and a clock that does not run backwards inside a transaction; that each such
  step is a sequence of changes is the refinement \<open>observed_refines\<close>.
\<close>

definition same_world :: "env \<Rightarrow> env \<Rightarrow> bool" where
  "same_world w e \<longleftrightarrow> env_sha256 e = env_sha256 w \<and> env_json_loads e = env_json_loads w \<and> env_now e \<le> env_later e"

definition samples_of :: "uuid \<Rightarrow> db \<Rightarrow> sample_row list" where
  "samples_of k db = filter (\<lambda>m. sm_session_id m = k) (db_samples db)"

definition endings_of :: "uuid \<Rightarrow> db \<Rightarrow> ending_row list" where
  "endings_of k db = filter (\<lambda>en. en_session_id en = k) (db_endings db)"

subsection \<open>Verdicts\<close>

definition ends_as :: "string \<Rightarrow> ObservationSessionState" where
  "ends_as reason = the (map_of implied_state reason)"

text \<open>What an ending reason fires on the incident.\<close>

definition fires_of :: "string \<Rightarrow> string option" where
  "fires_of reason = (if reason = ''recovery_confirmed'' then Some ''recovery_confirmed''
     else if reason \<in> {''deadline_expired'', ''max_samples_exhausted''} then Some ''observation_ended_unconfirmed'' else None)"

text \<open>A verdict that ends the session moves it by the table of its reason; one that does not leaves it.\<close>

definition verdict_ends :: "ObservationSession \<Rightarrow> Verdict \<Rightarrow> bool" where
  "verdict_ends session v = (case vd_ended_reason v of
      None \<Rightarrow> vd_session_state v = os_state session \<and> vd_transition v = None
    | Some reason \<Rightarrow> os_state session = OS_authorized \<and> map_of implied_state reason = Some (vd_session_state v)
        \<and> vd_transition v = fires_of reason)"

lemma judge_rejects:
  assumes "judge session sample j = Inr v" and "\<not> sa_accepted (vd_decision v)"
  shows "verdict_ends session v \<and> vd_decision v = judge_decision session sample j \<and> \<not> vd_healthy v \<and> vd_health_basis v = HB_not_adopted
    \<and> vd_adopted_sequence v = os_adopted_sequence session \<and> vd_adopted_window_end v = os_adopted_window_end session
    \<and> vd_adopted_count v = jg_adopted_count j \<and> vd_healthy_since v = jg_healthy_since j
    \<and> vd_ended_reason v \<in> {None, Some ''deadline_expired'', Some ''binding_stale'', Some ''scope_suspended''}"
proof -
  have n: "\<not> sa_accepted (judge_decision session sample j)"
  proof
    assume "sa_accepted (judge_decision session sample j)"
    with assms show False by (auto simp: judge_def judge_adopted_def Let_def bind_result_Inr_iff split: if_splits)
  qed
  with assms(1) show ?thesis
    by (auto simp: judge_def judge_rejected_def Let_def bind_result_Inr_iff health_basis_of_def verdict_ends_def implied_state_def
        fires_of_def split: if_splits)
qed

text \<open>An accepted sample moves the watermark; it confirms the recovery, exhausts the budget or continues.\<close>

lemma judge_accepts:
  assumes "judge session sample j = Inr v" and "sa_accepted (vd_decision v)"
  shows "os_state session = OS_authorized \<and> verdict_ends session v \<and> vd_decision v = judge_decision session sample j
    \<and> vd_decision v = \<lparr>sa_accepted = True, sa_disposition = SD_adopted, sa_reason = SR_adopted\<rparr>
    \<and> jg_lease_valid j \<and> \<not> jg_suspension_blocks j \<and> jg_within_deadline j \<and> jg_stamps_match j \<and> jg_readings_consistent j
    \<and> vd_healthy v = (confirms_health session sample \<and> jg_authorized_at j \<le> qw_start (hs_window sample))
    \<and> vd_adopted_sequence v = hs_sequence sample \<and> os_adopted_sequence session < hs_sequence sample
    \<and> vd_adopted_window_end v = Some (qw_end (hs_window sample)) \<and> vd_adopted_count v = jg_adopted_count j + 1
    \<and> vd_healthy_since v = streak session sample (vd_healthy v) (jg_healthy_since j)
    \<and> (vd_ended_reason v = Some ''recovery_confirmed'' \<longleftrightarrow> vd_healthy v \<and> (\<exists>t. vd_healthy_since v = Some t
         \<and> seconds (jg_sustained_window_seconds j) \<le> qw_end (hs_window sample) - t))
    \<and> (vd_ended_reason v = Some ''max_samples_exhausted'' \<longrightarrow> jg_max_samples j \<le> vd_adopted_count v)
    \<and> (vd_ended_reason v = None \<longrightarrow> vd_adopted_count v < jg_max_samples j)
    \<and> vd_ended_reason v \<in> {None, Some ''recovery_confirmed'', Some ''max_samples_exhausted''}"
proof -
  let ?d = "judge_decision session sample j"
  have acc: "sa_accepted ?d"
  proof (rule ccontr)
    assume "\<not> sa_accepted ?d"
    with assms show False by (auto simp: judge_def judge_rejected_def Let_def bind_result_Inr_iff split: if_splits)
  qed
  note jd = judge_decision_accepted [OF acc]
  then have ev: "sa_accepted (evaluate_sample session sample (jg_subject_state j) (jg_within_deadline j) (jg_suspension_blocks j))" by blast
  note ad = accepted_adopts [OF ev] and eq = evaluate_sample_accepted_iff [THEN iffD1, OF ev]
  have d: "?d = \<lparr>sa_accepted = True, sa_disposition = SD_adopted, sa_reason = SR_adopted\<rparr>"
    using acc by (auto simp: judge_decision_def evaluate_sample_def sample_history_only_def split: if_splits)
  have au: "os_state session = OS_authorized" using eq by blast
  define h where "h \<longleftrightarrow> confirms_health session sample \<and> jg_authorized_at j \<le> qw_start (hs_window sample)"
  define s where "s = streak session sample h (jg_healthy_since j)"
  define sus where "sus \<longleftrightarrow> (case s of None \<Rightarrow> False | Some t \<Rightarrow> seconds (jg_sustained_window_seconds j) \<le> qw_end (hs_window sample) - t)"
  define v0 where "v0 = \<lparr>vd_decision = ?d, vd_healthy = h, vd_health_basis = health_basis_of session sample True (jg_authorized_at j),
     vd_transition = None, vd_session_state = OS_authorized, vd_ended_reason = None, vd_adopted_sequence = hs_sequence sample,
     vd_adopted_window_end = Some (qw_end (hs_window sample)), vd_adopted_count = jg_adopted_count j + 1, vd_healthy_since = s\<rparr>"
  have h': "(confirms_health session sample \<and> health_basis_of session sample True (jg_authorized_at j) = HB_confirmed) = h"
    unfolding h_def by (auto simp: health_basis_of_def confirms_health_def)
  have "judge session sample j = Inr (if h \<and> sus
     then v0\<lparr>vd_transition := Some ''recovery_confirmed'', vd_session_state := OS_completed, vd_ended_reason := Some ''recovery_confirmed''\<rparr>
     else if jg_max_samples j \<le> jg_adopted_count j + 1
     then v0\<lparr>vd_transition := Some ''observation_ended_unconfirmed'', vd_session_state := OS_expired,
            vd_ended_reason := Some ''max_samples_exhausted''\<rparr> else v0)"
    unfolding judge_def Let_def if_P [OF acc] judge_adopted_def ad bind_result.simps
    by (cases h) (simp_all add: acc h' au v0_def s_def sus_def)
  then consider (confirmed) "h \<and> sus" "v = v0\<lparr>vd_transition := Some ''recovery_confirmed'', vd_session_state := OS_completed, vd_ended_reason := Some ''recovery_confirmed''\<rparr>"
    | (exhausted) "\<not> (h \<and> sus)" "jg_max_samples j \<le> jg_adopted_count j + 1" "v = v0\<lparr>vd_transition := Some ''observation_ended_unconfirmed'',
         vd_session_state := OS_expired, vd_ended_reason := Some ''max_samples_exhausted''\<rparr>"
    | (running) "\<not> (h \<and> sus)" "\<not> jg_max_samples j \<le> jg_adopted_count j + 1" "v = v0"
    using assms(1) by (auto split: if_splits)
  moreover have "h \<Longrightarrow> streak session sample True (jg_healthy_since j) = s" "\<not> h \<Longrightarrow> streak session sample False (jg_healthy_since j) = s"
    by (simp_all add: s_def)
  ultimately show ?thesis
    by cases (use eq jd in \<open>auto simp: v0_def d h_def [symmetric] s_def [symmetric] sus_def au verdict_ends_def implied_state_def fires_of_def
        split: option.splits\<close>)
qed

lemma judge_ends: "judge session sample j = Inr v \<Longrightarrow> verdict_ends session v"
  using judge_rejects judge_accepts by blast

text \<open>Without a valid lease the verdict is the same whatever the session is.\<close>

lemma judge_unleased:
  assumes "\<not> jg_lease_valid j" and "judge session sample j = Inr v"
  shows "vd_decision v = sample_history_only SR_lease_revoked \<and> \<not> sa_accepted (vd_decision v) \<and> vd_ended_reason v = None \<and> vd_transition v = None"
  using assms
  by (auto simp: judge_def judge_decision_def sample_history_only_def judge_rejected_def Let_def STALE_BINDINGS_def split: if_splits)

text \<open>The job the session waits for and the id of the sample play no part.\<close>

lemma evaluate_job [simp]:
  "evaluate_sample (session\<lparr>os_active_sample_job_id := a\<rparr>) sample st d b = evaluate_sample session sample st d b"
  "evaluate_sample session (sample\<lparr>hs_sample_id := x\<rparr>) st d b = evaluate_sample session sample st d b"
  by (cases "os_adopted_window_end session"; simp add: evaluate_sample_def)+

lemma judge_job [simp]: "judge (session\<lparr>os_active_sample_job_id := a\<rparr>) sample j = judge session sample j" (is "judge ?s _ _ = _")
proof -
  have e: "adopt_sample ?s sample = adopt_sample session sample" "streak ?s sample = streak session sample" "os_state ?s = os_state session"
    by (simp_all add: adopt_sample_def streak_def fun_eq_iff)
  have a: "judge_adopted ?s sample j = judge_adopted session sample j" "judge_rejected ?s = judge_rejected session"
    unfolding judge_adopted_def judge_rejected_def e by (rule refl)+
  have b: "judge_decision ?s sample j = judge_decision session sample j" "health_basis_of ?s sample = health_basis_of session sample"
      "confirms_health ?s sample = confirms_health session sample" "os_state ?s = os_state session"
      "os_adopted_sequence ?s = os_adopted_sequence session" "os_adopted_window_end ?s = os_adopted_window_end session"
    by (simp_all add: judge_decision_def health_basis_of_def confirms_health_def fun_eq_iff)
  show ?thesis unfolding judge_def a b ..
qed

lemma judge_sample_id [simp]: "judge session (sample\<lparr>hs_sample_id := x\<rparr>) j = judge session sample j" (is "judge _ ?s _ = _")
proof -
  have e: "adopt_sample session ?s = adopt_sample session sample" "streak session ?s = streak session sample" "hs_window ?s = hs_window sample"
    by (cases "os_adopted_window_end session"; simp add: adopt_sample_def streak_def fun_eq_iff)+
  have a: "judge_adopted session ?s j = judge_adopted session sample j"
    unfolding judge_adopted_def e by (rule refl)
  have b: "judge_decision session ?s j = judge_decision session sample j" "health_basis_of session ?s = health_basis_of session sample"
      "confirms_health session ?s = confirms_health session sample"
    by (simp_all add: judge_decision_def health_basis_of_def confirms_health_def fun_eq_iff)
  show ?thesis unfolding judge_def a b ..
qed

subsection \<open>The changes\<close>

text \<open>The columns that are fixed when a session is authorized.\<close>

definition frozen_same :: "session_row \<Rightarrow> session_row \<Rightarrow> bool" where
  "frozen_same s s' \<longleftrightarrow> se_session_id s' = se_session_id s \<and> se_incident_id s' = se_incident_id s
     \<and> se_target_id s' = se_target_id s \<and> se_target s' = se_target s
     \<and> se_subject_control_generation s' = se_subject_control_generation s \<and> se_observation_generation s' = se_observation_generation s
     \<and> se_authorized_at s' = se_authorized_at s \<and> se_health_profile_revision s' = se_health_profile_revision s
     \<and> se_authorized_global_generation s' = se_authorized_global_generation s
     \<and> se_authorized_target_generation s' = se_authorized_target_generation s \<and> se_deadline_at s' = se_deadline_at s
     \<and> se_max_samples s' = se_max_samples s \<and> se_sustained_window_seconds s' = se_sustained_window_seconds s"

definition watermark_same :: "session_row \<Rightarrow> session_row \<Rightarrow> bool" where
  "watermark_same s s' \<longleftrightarrow> se_adopted_sequence s' = se_adopted_sequence s \<and> se_adopted_window_end s' = se_adopted_window_end s
     \<and> se_adopted_count s' = se_adopted_count s \<and> se_healthy_since s' = se_healthy_since s"

definition stored_input :: "session_row \<Rightarrow> sample_row \<Rightarrow> judge_input" where
  "stored_input row m = \<lparr>jg_subject_state = Inl (sm_subject_lifecycle m), jg_within_deadline = sm_within_deadline m,
     jg_suspension_blocks = sm_scope_suspended m, jg_lease_valid = sm_lease_valid m, jg_stamps_match = sm_lease_stamps_match m,
     jg_readings_consistent = sm_readings_consistent m, jg_authorized_at = se_authorized_at row,
     jg_adopted_count = se_adopted_count row, jg_healthy_since = se_healthy_since row, jg_max_samples = se_max_samples row,
     jg_sustained_window_seconds = se_sustained_window_seconds row\<rparr>"

definition stored_session :: "session_row \<Rightarrow> sample_row \<Rightarrow> ObservationSession" where
  "stored_session row m = domain_session row (sm_incident_control_generation m) (sm_incident_observation_generation m) (se_state row)
     (se_adopted_sequence row) (se_adopted_window_end row) (Some (sm_job_id m))"

text \<open>A stored sample carries the verdict on it, given the session row of its moment.\<close>

definition row_judged :: "session_row \<Rightarrow> sample_row \<Rightarrow> Verdict \<Rightarrow> bool" where
  "row_judged row m v \<longleftrightarrow> sm_session_id m = se_session_id row
     \<and> judge (stored_session row m) (sample_of_row m (sm_outcome m, sm_required_signals_present m)) (stored_input row m) = Inr v
     \<and> stored_decision m = verdict_decision v \<and> (sm_lease_valid m \<longrightarrow> se_active_sample_job_id row \<noteq> None)
     \<and> (scope_moved row m \<longrightarrow> sm_scope_suspended m)"

definition row_after :: "session_row \<Rightarrow> Verdict \<Rightarrow> session_row \<Rightarrow> bool" where
  "row_after row v row' \<longleftrightarrow> frozen_same row row' \<and> se_state row' = vd_session_state v
     \<and> se_ended_reason row' = (case vd_ended_reason v of None \<Rightarrow> se_ended_reason row | Some r \<Rightarrow> Some r)
     \<and> se_adopted_sequence row' = vd_adopted_sequence v \<and> se_adopted_window_end row' = vd_adopted_window_end v
     \<and> se_adopted_count row' = vd_adopted_count v \<and> se_healthy_since row' = vd_healthy_since v
     \<and> (vd_ended_reason v \<noteq> None \<longrightarrow> se_active_sample_job_id row' = None)
     \<and> (se_active_sample_job_id row' \<noteq> None \<longrightarrow> sa_accepted (vd_decision v) \<or> se_active_sample_job_id row \<noteq> None)"

definition ending_tuple :: "ending_row \<Rightarrow> recorded_ending" where
  "ending_tuple en = (en_ended_reason en, en_transition en, en_sample_id en, en_lifecycle_before en, en_lifecycle_after en)"

definition sample_endings :: "session_row \<Rightarrow> sample_row \<Rightarrow> Verdict \<Rightarrow> ending_row list \<Rightarrow> bool" where
  "sample_endings row m v ens = (case vd_ended_reason v of None \<Rightarrow> ens = []
     | Some reason \<Rightarrow> \<exists>en. ens = [en] \<and> en_session_id en = se_session_id row \<and> en_incident_id en = se_incident_id row
         \<and> en_ended_reason en = reason \<and> transition_fits (ending_tuple en)
         \<and> en_lifecycle_before en = sm_subject_lifecycle m
         \<and> en_sample_id en = (if sa_accepted (vd_decision v) then Some (sm_sample_id m) else None))"

definition fresh_session :: "session_row \<Rightarrow> bool" where
  "fresh_session s \<longleftrightarrow> se_state s = OS_authorized \<and> se_ended_reason s = None \<and> se_adopted_sequence s = 0
     \<and> se_adopted_window_end s = None \<and> se_adopted_count s = 0 \<and> se_healthy_since s = None \<and> 0 < se_max_samples s
     \<and> 0 < se_sustained_window_seconds s"

definition profile_known :: "session_row \<Rightarrow> db \<Rightarrow> bool" where
  "profile_known s db \<longleftrightarrow> (\<forall>r. se_health_profile_revision s = Some r \<longrightarrow> find_row hp_revision r (db_profiles db) \<noteq> None)"

definition obs_same :: "db \<Rightarrow> db \<Rightarrow> bool" where
  "obs_same db db' \<longleftrightarrow> db_sessions db' = db_sessions db \<and> db_samples db' = db_samples db \<and> db_endings db' = db_endings db
     \<and> db_profiles db' = db_profiles db"

inductive obs_change :: "env \<Rightarrow> db \<Rightarrow> db \<Rightarrow> bool" for w where
  unchanged: "obs_same db db' \<Longrightarrow> obs_change w db db'"
| profiled: "obs_same (db\<lparr>db_profiles := db_profiles db'\<rparr>) db' \<Longrightarrow> db_profiles db' = db_profiles db @ ps \<Longrightarrow> obs_change w db db'"
| created: "obs_same (db\<lparr>db_sessions := db_sessions db @ [s]\<rparr>) db' \<Longrightarrow> find_session (se_session_id s) db = None \<Longrightarrow>
     \<not> has_authorized (se_incident_id s) db \<Longrightarrow> fresh_session s \<Longrightarrow> profile_known s db \<Longrightarrow>
     (\<forall>x \<in> set (db_sessions db). se_target_id x = se_target_id s \<longrightarrow> identity_of (se_target x) = identity_of (se_target s)) \<Longrightarrow>
     obs_change w db db'"
| job: "obs_same (update_session k f db) db' \<Longrightarrow> find_session k db = Some row \<Longrightarrow> frozen_same row (f row) \<Longrightarrow>
     watermark_same row (f row) \<Longrightarrow> se_state (f row) = se_state row \<Longrightarrow> se_ended_reason (f row) = se_ended_reason row \<Longrightarrow>
     se_active_sample_job_id (f row) = se_active_sample_job_id row \<Longrightarrow> obs_change w db db'"
| ended: "obs_same (update_session k (end_session_row (ends_as (en_ended_reason en)) (en_ended_reason en) None) db
       \<lparr>db_endings := db_endings db @ [en]\<rparr>) db' \<Longrightarrow>
     find_session k db = Some row \<Longrightarrow> se_state row = OS_authorized \<Longrightarrow> en_session_id en = k \<Longrightarrow>
     en_ended_reason en \<in> {''authority_revoked'', ''scope_suspended'', ''deadline_expired''} \<Longrightarrow>
     en_sample_id en = None \<Longrightarrow> transition_fits (ending_tuple en) \<Longrightarrow>
     (en_ended_reason en = ''deadline_expired'' \<longrightarrow> se_deadline_at row \<le> en_recorded_at en) \<Longrightarrow> obs_change w db db'"
| sampled: "obs_same (update_session k f db\<lparr>db_samples := db_samples db @ [m], db_endings := db_endings db @ ens\<rparr>) db' \<Longrightarrow>
     find_session k db = Some row \<Longrightarrow> row_judged row m v \<Longrightarrow> row_after row v (f row) \<Longrightarrow> sample_endings row m v ens \<Longrightarrow>
     sm_readings_consistent m = (missing_required_signals (required_signals_of w (se_health_profile_revision row) db) (sm_outcome m)
       (sm_required_signals_present m) (ok_signals (sm_window m) (sm_readings m)) = []) \<Longrightarrow>
     raw_mismatches w (sm_readings m) = [] \<Longrightarrow> obs_change w db db'"

text \<open>The two ways a sequence of changes begins or goes on.\<close>

abbreviation obs_changes :: "env \<Rightarrow> db \<Rightarrow> db \<Rightarrow> bool" where
  "obs_changes w \<equiv> (obs_change w)\<^sup>*\<^sup>*"

lemma obs_same_refl [simp]: "obs_same db db"
  by (simp add: obs_same_def)

lemma obs_same_trans [trans]: "obs_same a b \<Longrightarrow> obs_same b c \<Longrightarrow> obs_same a c"
  by (simp add: obs_same_def)

lemma obs_same_changes: "obs_same a b \<Longrightarrow> obs_changes w a b"
  by (blast intro: unchanged)

lemma obs_same_find: "obs_same a b \<Longrightarrow> find_session k b = find_session k a"
  by (simp add: obs_same_def)

lemma end_session_row_simps [simp]:
  "se_session_id (end_session_row st r marks s) = se_session_id s" "se_incident_id (end_session_row st r marks s) = se_incident_id s"
  "se_state (end_session_row st r marks s) = st" "se_ended_reason (end_session_row st r marks s) = Some r"
  "se_active_sample_job_id (end_session_row st r marks s) = None" "frozen_same s (end_session_row st r marks s)"
  "watermark_same s (end_session_row st r None s)"
  by (simp_all add: end_session_row_def frozen_same_def watermark_same_def or_old_def)

lemma find_session_update:
  "(\<And>s. se_session_id (f s) = se_session_id s) \<Longrightarrow>
   find_session j (update_session k f db) = map_option (\<lambda>s. if se_session_id s = k then f s else s) (find_session j db)"
  by (simp add: update_session_def find_row_update_where)

end
