(* ===== verification/Observation_Frames.thy ===== *)
theory Observation_Frames
  imports Observation_Machine
begin

section \<open>What the other operations do to observation sessions\<close>

text \<open>
  An operation of a worker, an intake or human control leaves the observation tables alone or revokes the
  sessions of one incident: \<open>agent_observes\<close>. Revocations and expiries are \<open>ended\<close> changes.
\<close>

subsection \<open>Endings without a sample\<close>

lemma fires_fits:
  "transition_fits (''authority_revoked'', None, None, lc, lc)" "transition_fits (''scope_suspended'', None, None, lc, lc)"
  by (simp_all add: transition_fits_def)

lemma can_fire_iff: "can_fire lc t \<longleftrightarrow> (\<exists>l. fire INCIDENT_LIFECYCLE lc t = Inr l)"
  by (cases lc) (auto simp: can_fire_def machine_eval INCIDENT_LIFECYCLE_def)

lemma expired_fits: "transition_fits (''deadline_expired'', Some ''observation_ended_unconfirmed'', None, lc, fired_or_same lc ''observation_ended_unconfirmed'')"
  by (cases "fire INCIDENT_LIFECYCLE lc ''observation_ended_unconfirmed''") (simp_all add: transition_fits_def can_fire_iff fired_or_same_def)

lemma end_session_change:
  assumes step: "end_session e n k i reason tr bef aft None None True db = Inr db'"
    and row: "find_session k db = Some row" "se_state row = OS_authorized"
    and reason: "reason \<in> {''authority_revoked'', ''scope_suspended'', ''deadline_expired''}"
    and fits: "transition_fits (reason, tr, None, bef, aft)"
    and late: "reason = ''deadline_expired'' \<Longrightarrow> se_deadline_at row \<le> env_later e"
  shows "obs_change w db db' \<and> db_sessions db' = update_where (\<lambda>s. se_session_id s = k) (end_session_row (ends_as reason) reason None) (db_sessions db)"
proof -
  from step reason obtain en where db': "db' = update_session k (end_session_row (ends_as reason) reason None) db\<lparr>db_endings := db_endings db @ [en]\<rparr>"
    and en: "en_session_id en = k" "ending_tuple en = (reason, tr, None, bef, aft)" "en_recorded_at en = env_later e"
    by (auto simp: end_session_def session_trigger_def Let_def bind_result_Inr_iff insert_row_Inr_iff update_session_def
        ends_as_def implied_state_def ending_tuple_def split: option.splits)
  then have f: "en_ended_reason en = reason" "en_sample_id en = None" by (simp_all add: ending_tuple_def)
  have "obs_change w db db'"
    by (rule ended [where k = k and en = en and row = row]) (use db' en f row reason fits late in \<open>simp_all add: obs_same_def\<close>)
  then show ?thesis by (simp add: db' update_session_def)
qed

lemma end_sessions_changes:
  assumes "end_sessions e n ks i lc db = Inr db'" and "distinct ks"
    and "\<And>k. k \<in> set ks \<Longrightarrow> \<exists>row. find_session k db = Some row \<and> se_state row = OS_authorized"
  shows "obs_changes w db db'"
  using assms
proof (induction ks arbitrary: n db)
  case (Cons k ks)
  from Cons.prems(1) obtain db1 where s: "end_session e n k i ''authority_revoked'' None lc lc None None True db = Inr db1"
    and r: "end_sessions e (Suc n) ks i lc db1 = Inr db'" by (auto simp: bind_result_Inr_iff)
  from Cons.prems(3) obtain row where "find_session k db = Some row" "se_state row = OS_authorized" by auto
  from end_session_change [OF s this, where w = w] have c: "obs_change w db db1"
    and ss: "db_sessions db1 = update_where (\<lambda>s. se_session_id s = k) (end_session_row (ends_as ''authority_revoked'') ''authority_revoked'' None) (db_sessions db)"
    by (simp_all add: fires_fits)
  have "\<exists>row. find_session j db1 = Some row \<and> se_state row = OS_authorized" if "j \<in> set ks" for j
  proof -
    from that Cons.prems obtain row where "find_session j db = Some row" "se_state row = OS_authorized" "j \<noteq> k" by fastforce
    then show ?thesis by (auto simp: ss find_row_update_where dest: find_row_key)
  qed
  with Cons.IH [OF r] Cons.prems(2) c show ?case by (simp add: converse_rtranclp_into_rtranclp)
qed simp

lemma revoke_changes:
  assumes "revoke_authorized_sessions e n i db = Inr (ks, db')" and d: "distinct (map se_session_id (db_sessions db))"
  shows "obs_changes w db db'"
proof (cases "authorized_sessions i db = []")
  case False
  with assms(1) obtain x where "find_incident i db = Some x"
    and s: "end_sessions e n (authorized_sessions i db) i (ir_lifecycle x) db = Inr db'"
    by (cases "find_incident i db") (auto simp: revoke_authorized_sessions_def Let_def bind_result_Inr_iff)
  show ?thesis
  proof (rule end_sessions_changes [OF s])
    show "distinct (authorized_sessions i db)"
      using d by (simp add: authorized_sessions_def distinct_map_filter)
    fix k assume "k \<in> set (authorized_sessions i db)"
    then obtain row where "row \<in> set (db_sessions db)" "se_session_id row = k" "se_state row = OS_authorized"
      by (auto simp: authorized_sessions_def)
    with find_row_distinct [OF d this(1)] show "\<exists>row. find_session k db = Some row \<and> se_state row = OS_authorized" by auto
  qed
qed (use assms in \<open>simp add: revoke_authorized_sessions_def\<close>)

subsection \<open>The operations of workers, intakes and human control\<close>

text \<open>They leave the observation tables, the decisions on the automatic observation and the timeline events
  alone, or revoke the sessions of one incident.\<close>

definition agent_same :: "db \<Rightarrow> db \<Rightarrow> bool" where
  "agent_same db db' \<longleftrightarrow> db_sessions db' = db_sessions db \<and> db_samples db' = db_samples db \<and> db_endings db' = db_endings db
     \<and> db_profiles db' = db_profiles db \<and> db_self_heal db' = db_self_heal db \<and> db_events db' = db_events db"

lemma agent_same_refl [simp]: "agent_same db db"
  by (simp add: agent_same_def)

lemma agent_same_trans [trans]: "agent_same a b \<Longrightarrow> agent_same b c \<Longrightarrow> agent_same a c"
  by (simp add: agent_same_def)

lemma agent_obs_same: "agent_same db db' \<Longrightarrow> obs_same db db'"
  by (simp add: agent_same_def obs_same_def)

definition obs_revoked :: "db \<Rightarrow> db \<Rightarrow> bool" where
  "obs_revoked db db' \<longleftrightarrow> agent_same db db' \<or> (\<exists>d1 d2 e n i ks. agent_same db d1 \<and> revoke_authorized_sessions e n i d1 = Inr (ks, d2) \<and> agent_same d2 db')"

lemma obs_revoked_changes:
  assumes "obs_revoked db db'" and "distinct (map se_session_id (db_sessions db))"
  shows "obs_changes w db db'"
proof -
  from assms(1) consider "agent_same db db'"
    | d1 d2 e n i ks where "agent_same db d1" "revoke_authorized_sessions e n i d1 = Inr (ks, d2)" "agent_same d2 db'"
    unfolding obs_revoked_def by blast
  then show ?thesis
  proof cases
    case 2
    with assms(2) have "distinct (map se_session_id (db_sessions d1))" by (simp add: agent_same_def)
    from revoke_changes [OF 2(2) this] obs_same_changes [OF agent_obs_same [OF 2(1)]] obs_same_changes [OF agent_obs_same [OF 2(3)]]
    show ?thesis by (blast intro: rtranclp_trans)
  qed (rule obs_same_changes, rule agent_obs_same)
qed

lemma agent_same_transaction: "(\<And>x db'. r = Inr (x, db') \<Longrightarrow> agent_same db db') \<Longrightarrow> agent_same db (snd (transaction db r))"
  by (cases r) auto

lemma obs_revoked_same: "agent_same db db' \<Longrightarrow> obs_revoked db db'"
  by (simp add: obs_revoked_def)

lemma obs_revoked_transaction: "(\<And>x db'. r = Inr (x, db') \<Longrightarrow> obs_revoked db db') \<Longrightarrow> obs_revoked db (snd (transaction db r))"
  by (cases r) (auto simp: obs_revoked_same)

lemma update_runs_obs [simp]: "agent_same db (update_runs e P f db)"
  by (simp add: agent_same_def)

lemma update_incident_obs [simp]: "agent_same db (update_incident k g db)"
  by (simp add: agent_same_def update_incident_def)

lemma update_incident_obs_same [simp]: "obs_same db (update_incident k g db)"
  by (rule agent_obs_same) simp

lemma move_runs_obs [simp]: "agent_same db (move_runs e k S s nxt db)"
  by (simp add: move_runs_def)

lemma stale_obs: "mark_stale_in e n i reason source db = Inr db' \<Longrightarrow> agent_same db db'"
  by (drule mark_stale_frame) (simp add: agent_same_def knowledge_only_def)

lemma late_obs: "late_result e k key p g db = Inr db' \<Longrightarrow> agent_same db db'"
  by (auto dest!: late_result_shape simp: agent_same_def)

lemma record_late_obs: "agent_same db (snd (record_late e k key p g db))"
  by (auto simp: record_late_def late_obs split: sum.split)

lemma outbox_obs: "insert_entry e kind key i r vs fs db = Inr db' \<Longrightarrow> agent_same db db'"
  by (auto dest!: insert_entry_Inr simp: agent_same_def)

lemma obs_revokedI: "revoke_authorized_sessions e n i d1 = Inr (ks, d2) \<Longrightarrow> agent_same db d1 \<Longrightarrow> agent_same d2 db' \<Longrightarrow> obs_revoked db db'"
  unfolding obs_revoked_def by blast

lemma record_control_obs: "record_control e k action expected resulting actor payload db = Inr db' \<Longrightarrow> agent_same db db'"
  by (auto dest!: record_control_Inr simp: agent_same_def)

lemma settle_obs: "settle_decision e n d payload reason db = Inr db' \<Longrightarrow> agent_same db db'"
  by (auto simp: settle_decision_def bind_result_Inr_iff dest!: record_control_obs stale_obs intro: agent_same_trans)

lemma bump_obs [simp]: "agent_same db (bump k n db)"
  by (simp add: bump_def)

lemma insert_input_obs: "insert_input r db = Inr db' \<Longrightarrow> agent_same db db'"
  by (auto simp: insert_input_def bind_result_Inr_iff insert_row_Inr_iff agent_same_def)

lemma append_input_obs: "append_input_in e n k x content actor db = Inr (m, db') \<Longrightarrow> agent_same db db'"
  by (auto simp: append_input_in_def bind_result_Inr_iff dest!: insert_input_obs stale_obs intro: agent_same_trans
      split: option.splits if_splits)

lemma note_input_obs: "note_input e d a db = Inr db' \<Longrightarrow> agent_same db db'"
  by (auto simp: note_input_def dest!: insert_input_obs split: if_splits)

lemma insert_run_obs: "insert_run r db = Inr db' \<Longrightarrow> agent_same db db'"
  by (auto simp: insert_run_Inr agent_same_def)

subsection \<open>Worker operations\<close>

lemma claim_obs: "agent_same db (snd (claim k j owner versions secs e db))"
  by (auto simp: claim_def take_lease_def split: sum.split option.split)

lemma renew_obs: "agent_same db (snd (renew_lease secs e lease db))"
  unfolding renew_lease_def
  by (rule agent_same_transaction) (auto simp: renew_lease_in_def Let_def split: if_splits option.splits)

lemma block_obs: "agent_same db (snd (block e lease db))"
  unfolding block_def by (rule agent_same_transaction) (auto simp: block_in_def bind_result_Inr_iff)

lemma park_obs: "agent_same db (snd (park e k S db))"
  by (simp add: park_def)

lemma hand_off_obs: "agent_same db (snd (hand_off e lease db))"
  unfolding hand_off_def
  by (rule agent_same_transaction) (auto simp: hand_off_in_def bind_result_Inr_iff park_obs split: if_splits)

lemma abandon_obs: "agent_same db (abandon e lease db)"
  by (simp add: abandon_def)

lemma sweep_obs: "agent_same db (snd (transaction db (sweep_one e c db)))"
  by (rule agent_same_transaction) (auto simp: sweep_one_def Let_def park_obs split: if_splits option.splits)

lemma backlog_obs: "agent_same db (snd (park_backlog_one n e db))"
  by (auto simp: park_backlog_one_def Let_def park_obs split: option.splits)

lemma agent_same_reservations: "agent_same db (update_runs e P f (db\<lparr>db_reservations := rs\<rparr>))"
  by (simp add: agent_same_def)

lemma reserve_obs: "agent_same db (snd (reserve_budget k a s e lease db))"
  unfolding reserve_budget_def
  by (rule agent_same_transaction)
    (auto simp: reserve_budget_in_def agent_same_reservations split: if_splits sum.splits option.splits)

lemma settle_budget_obs: "agent_same db (snd (settle_budget k out s e lease db))"
  unfolding settle_budget_def
  by (rule agent_same_transaction)
    (auto simp: settle_budget_in_def agent_same_reservations split: if_splits sum.splits option.splits)

lemma agent_same_charges: "agent_same db (update_runs e P f (db\<lparr>db_charges := cs\<rparr>))" "agent_same db (db\<lparr>db_charges := cs\<rparr>)"
  by (simp_all add: agent_same_def)

lemma charge_obs: "agent_same db (snd (charge_tool op s m ms k e lease db))"
  unfolding charge_tool_def
  by (rule agent_same_transaction)
    (auto simp: charge_tool_in_def Let_def bind_result_Inr_iff agent_same_charges split: if_splits sum.splits option.splits)

lemma commit_round_obs: "agent_same db (commit_round e lease key db)"
  unfolding commit_round_def Let_def by (split option.split) (auto simp: agent_same_def)

lemma commit_step_obs: "agent_same db (snd (commit_step key response e lease db))"
proof -
  have "agent_same db (snd (transaction db (commit_step_in key response e lease r db)))" for r
  proof (rule agent_same_transaction)
    fix x db' assume "commit_step_in key response e lease r db = Inr (x, db')"
    then consider "db' = db" | ss kk fs db1 where "insert_entry e ''model_step'' kk (le_incident_id lease) (Some (le_run_id lease))
        (rr_versions r) fs (db\<lparr>db_steps := ss\<rparr>) = Inr db1" "db' = commit_round e lease key db1"
      by (auto simp: commit_step_in_def Let_def bind_result_Inr_iff split: option.splits)
    then show "agent_same db db'"
    proof cases
      case 2
      have "agent_same db (db\<lparr>db_steps := ss\<rparr>)" by (simp add: agent_same_def)
      also note outbox_obs [OF 2(1)]
      also note commit_round_obs
      finally show ?thesis by (simp add: 2(2))
    qed simp
  qed
  then show ?thesis
    by (auto simp: commit_step_def Let_def record_late_obs split: sum.split option.split)
qed

lemma commit_tool_obs: "agent_same db (snd (commit_tool sid n result e lease db))"
proof -
  have "agent_same db (snd (transaction db (commit_tool_in sid n result e lease r s db)))" for r s
    by (rule agent_same_transaction)
      (auto simp: commit_tool_in_def bind_result_Inr_iff agent_same_def dest!: insert_entry_Inr split: option.splits bool.splits)
  then show ?thesis
    by (auto simp: commit_tool_def record_late_obs split: sum.split option.split)
qed

lemma begin_round_obs: "agent_same db (snd (begin_round key e lease db))"
  unfolding begin_round_def
  by (rule agent_same_transaction)
    (auto simp: begin_round_in_def Let_def agent_same_def freeze_round_def split: if_splits sum.splits option.splits)

lemma publish_obs: "agent_same db (snd (publish conclusion sid e lease db))"
proof -
  have "agent_same db (publish_write conclusion e lease db)"
    by (simp add: publish_write_def agent_same_def)
  then show ?thesis unfolding publish_def
    by (intro agent_same_transaction)
      (auto simp: publish_in_def late_publish_def bind_result_Inr_iff dest: late_obs split: if_splits sum.splits option.splits)
qed

subsection \<open>Intake and suspension\<close>

lemma accept_obs: "accept_in e a db = Inr (b, db') \<Longrightarrow> agent_same db db'"
  by (drule accept_effect) (auto simp: pause_accepted_def agent_same_def update_incident_def)

lemma insert_target_obs: "insert_target k uid db = Inr db' \<Longrightarrow> agent_same db db'"
  by (auto dest!: insert_target_Inr simp: agent_same_def)

lemma insert_suspension_obs: "insert_suspension k db = Inr db' \<Longrightarrow> agent_same db db'"
  by (auto dest!: insert_suspension_Inr simp: agent_same_def)

lemma register_obs: "agent_same db (snd (register_target e uid t db))"
  unfolding register_target_def
  by (rule agent_same_transaction)
    (auto simp: register_target_in_def Let_def bind_result_Inr_iff dest!: insert_target_obs insert_suspension_obs
      intro: agent_same_trans split: if_splits option.splits)

lemma suspend_obs: "agent_same db (snd (set_global_suspension s g a e db))"
  unfolding set_global_suspension_def
  by (rule agent_same_transaction)
    (auto simp: set_global_suspension_in_def Let_def audit_suspension_def pause_runs_def pause_incidents_def agent_same_def split: if_splits)

lemma target_gate_obs: "set_target_gate k s g a e db = Inr (n, db') \<Longrightarrow> agent_same db db'"
  by (auto simp: set_target_gate_def Let_def audit_suspension_def pause_runs_def pause_incidents_def agent_same_def
      split: if_splits option.splits)

lemma suspend_target_obs: "agent_same db (snd (set_target_suspension t u s g a e db))"
  unfolding set_target_suspension_def
proof (rule agent_same_transaction)
  fix n db' assume "set_target_suspension_in t u s g a e db = Inr (n, db')"
  then obtain k db1 where k: "suspension_target t u e db = Inr (k, db1)"
    and gate: "set_target_gate k s g a e (ensure_suspension k db1) = Inr (n, db')"
    by (auto simp: set_target_suspension_in_def bind_result_Inr_iff)
  from k have "agent_same db db1"
    by (auto simp: suspension_target_def bind_result_Inr_iff dest: insert_target_obs split: option.splits if_splits)
  also have "agent_same db1 (ensure_suspension k db1)" by (simp add: ensure_suspension_def agent_same_def)
  also note target_gate_obs [OF gate]
  finally show "agent_same db db'" .
qed

subsection \<open>Human decisions\<close>

lemma append_obs: "agent_same db (snd (append_input e k x content actor db))"
  unfolding append_input_def by (rule agent_same_transaction) (rule append_input_obs)

lemma close_reopen_obs:
  assumes "close_reopen e d a i db = Inr (n, db')"
  shows "obs_revoked db db'"
proof (cases "a = SA_close")
  case True
  with assms obtain ks db1 m where r: "revoke_authorized_sessions e 2 (dc_incident_id d) (bump (dc_incident_id d) (dc_expected d + 1) db) = Inr (ks, db1)"
    and s: "settle_decision e m d (dc_payload d) ''control_generation_changed'' (update_incident (dc_incident_id d)
         (\<lambda>x. x\<lparr>ir_lifecycle := L_closed, ir_state := stopped_state i db1\<rparr>)
         (move_runs e (dc_incident_id d) UNFINISHED R_cancelled (dc_expected d + 1) db1)) = Inr db'"
    by (auto simp: close_reopen_def Let_def bind_result_Inr_iff split: if_splits)
  have "agent_same db1 db'"
    using agent_same_trans [OF move_runs_obs agent_same_trans [OF update_incident_obs settle_obs [OF s]]] .
  with r show ?thesis by (rule obs_revokedI [OF _ bump_obs])
next
  case False
  with assms obtain m where "settle_decision e m d (dc_payload d) ''control_generation_changed'' (update_incident (dc_incident_id d)
       (\<lambda>x. x\<lparr>ir_lifecycle := L_open, ir_state := ir_state i\<rparr>) (bump (dc_incident_id d) (dc_expected d + 1) db)) = Inr db'"
    by (auto simp: close_reopen_def Let_def bind_result_Inr_iff split: if_splits)
  from settle_obs [OF this] show ?thesis
    by (intro obs_revoked_same) (meson bump_obs update_incident_obs agent_same_trans)
qed

lemma register_uid_obs: "register_uid_in e n uid db = Inr (k, db') \<Longrightarrow> agent_same db db'"
  by (auto simp: register_uid_in_def bind_result_Inr_iff dest!: insert_target_obs insert_suspension_obs
      intro: agent_same_trans split: option.splits)

lemma rebind_obs:
  assumes "rebind e d uid t payload i db = Inr (n, db')"
  shows "obs_revoked db db'"
proof -
  from assms obtain k db0 ks db1 m p where k: "(case t of Some t \<Rightarrow> Inr (t, db) | None \<Rightarrow> register_uid_in e 1 uid db) = Inr (k, db0)"
    and r: "revoke_authorized_sessions e 2 (dc_incident_id d) (bump (dc_incident_id d) (dc_expected d + 1) db0) = Inr (ks, db1)"
    and s: "settle_decision e m d p ''control_generation_changed'' (update_incident (dc_incident_id d)
         (\<lambda>x. x\<lparr>ir_lifecycle := L_open, ir_state := stopped_state i db1, ir_target_id := Some k\<rparr>)
         (move_runs e (dc_incident_id d) UNFINISHED R_cancelled (dc_expected d + 1) db1)) = Inr db'"
    by (auto simp: rebind_def Let_def bind_result_Inr_iff split: if_splits option.splits)
  have "agent_same db db0" using k by (cases t) (auto dest: register_uid_obs)
  with r show ?thesis
    using agent_same_trans [OF move_runs_obs agent_same_trans [OF update_incident_obs settle_obs [OF s]]]
    by (blast intro: obs_revokedI bump_obs agent_same_trans)
qed

lemma merge_obs:
  assumes "merge_into e d survivor payload i db = Inr (n, db')"
  shows "obs_revoked db db'"
proof -
  from assms obtain ks db1 db2 m p x where
    r: "revoke_authorized_sessions e 2 (dc_incident_id d) (bump (dc_incident_id d) (dc_expected d + 1) db) = Inr (ks, db1)"
    and s: "settle_decision e (2 + length ks) d p ''control_generation_changed'' (update_incident (dc_incident_id d)
         (\<lambda>x. x\<lparr>ir_lifecycle := L_closed, ir_state := stopped_state i db1, ir_merged_into_incident_id := Some survivor\<rparr>)
         (move_runs e (dc_incident_id d) UNFINISHED R_cancelled (dc_expected d + 1) db1)) = Inr db2"
    and a: "append_input_in e x survivor
         (merge_input_id e (dc_incident_id d) survivor) (merge_event (dc_incident_id d) i db) (dc_actor d) db2 = Inr (m, db')"
    by (auto simp: merge_into_def Let_def bind_result_Inr_iff split: option.splits)
  have "agent_same db1 db'"
    using agent_same_trans [OF move_runs_obs agent_same_trans [OF update_incident_obs agent_same_trans [OF settle_obs [OF s] append_input_obs [OF a]]]] .
  with r show ?thesis by (rule obs_revokedI [OF _ bump_obs])
qed

lemma takeover_obs:
  assumes "takeover e d i db = Inr (n, db')"
  shows "obs_revoked db db'"
proof -
  from assms obtain ks db1 m db2 where r: "revoke_authorized_sessions e 2 (dc_incident_id d) (update_incident (dc_incident_id d)
       (\<lambda>x. x\<lparr>ir_control_generation := dc_expected d + 1, ir_mode := M_human_owned\<rparr>) db) = Inr (ks, db1)"
    and db2: "db2 = (if ir_mode i = M_human_owned then db1
         else move_runs e (dc_incident_id d) {R_queued, R_running, R_paused, R_blocked} R_waiting_human (dc_expected d + 1) db1)"
    and s: "settle_decision e m d (dc_payload d) ''control_generation_changed'' db2 = Inr db'"
    by (auto simp: takeover_def Let_def bind_result_Inr_iff simp del: if_split)
  have "agent_same db1 db2" by (simp add: db2)
  with settle_obs [OF s] show ?thesis by (blast intro: obs_revokedI [OF r] agent_same_trans update_incident_obs)
qed

lemma subject_runs_obs: "subject_runs e k a nxt s rn r db = Inr db' \<Longrightarrow> agent_same db db'"
  by (auto simp: subject_runs_def renew_run_def bind_result_Inr_iff dest!: insert_run_obs
      intro: agent_same_trans [OF move_runs_obs] agent_same_trans [OF _ update_incident_obs] split: if_splits option.splits)

lemma apply_subject_obs:
  assumes "apply_subject e d rn a s i r db = Inr (n, db')"
  shows "obs_revoked db db'"
proof -
  let ?k = "dc_incident_id d" and ?n = "dc_expected d + 1"
  let ?g = "\<lambda>x. x\<lparr>ir_control_generation := ?n, ir_state := next_incident_state a s i\<rparr>"
  from assms obtain ks db1 db2 db3 db4 m where
    r: "(if a \<in> {SA_pause, SA_cancel} \<or> sd_renew s then revoke_authorized_sessions e 2 ?k (update_incident ?k ?g db)
         else Inr ([], update_incident ?k ?g db)) = Inr (ks, db1)"
    and runs: "subject_runs e ?k a ?n s rn r db1 = Inr db2"
    and ctl: "record_control e ?k (dc_action d) (dc_expected d) ?n (dc_actor d) (dc_payload d) db2 = Inr db3"
    and inp: "note_input e d a db3 = Inr db4" and st: "mark_stale_in e m ?k (subject_reason a s) (''control.'' @ dc_action d) db4 = Inr db'"
    by (auto simp: apply_subject_def Let_def bind_result_Inr_iff simp del: if_split)
  have late: "agent_same db1 db'"
    using agent_same_trans [OF subject_runs_obs [OF runs] agent_same_trans [OF record_control_obs [OF ctl] agent_same_trans [OF note_input_obs [OF inp] stale_obs [OF st]]]] .
  show ?thesis
  proof (cases "a \<in> {SA_pause, SA_cancel} \<or> sd_renew s")
    case True
    with r have "revoke_authorized_sessions e 2 ?k (update_incident ?k ?g db) = Inr (ks, db1)" by (simp only: if_True)
    with late show ?thesis by (blast intro: obs_revokedI update_incident_obs)
  next
    case False
    with r have "agent_same db db1" by auto
    with late show ?thesis by (blast intro: obs_revoked_same agent_same_trans)
  qed
qed

lemma subject_control_obs: "subject_control e d rn a scope i db = Inr (n, db') \<Longrightarrow> obs_revoked db db'"
  by (auto simp: subject_control_def Let_def intro: apply_subject_obs split: option.splits if_splits)

lemma decide_obs: "decide e d rn a rebound survivor scope i db = Inr (n, db') \<Longrightarrow> obs_revoked db db'"
  by (drule decide_cases, elim disjE exE conjE)
    (erule close_reopen_obs rebind_obs merge_obs takeover_obs subject_control_obs)+

lemma control_obs: "obs_revoked db (snd (control d rn e db))"
  unfolding control_def by (rule obs_revoked_transaction, erule control_in_InrE, rule decide_obs)

lemma create_run_obs:
  assumes "create_run e i scope j deadline limit versions actor inp payload db = Inr (n, db')"
  shows "obs_revoked db db'"
proof -
  from assms obtain x k db1 ks db2 g db3 m reason n' n'' where "insert_run x db = Inr db1"
    and r: "revoke_authorized_sessions e 2 k db1 = Inr (ks, db2)"
    and "record_control e k ''new_run'' n'' n' actor payload (update_incident k g db2) = Inr db3"
    and "mark_stale_in e m k reason ''new_run'' db3 = Inr db'"
    by (auto simp: create_run_def Let_def bind_result_Inr_iff simp del: if_split)
  then have "agent_same db db1" "agent_same db2 db'"
    using agent_same_trans [OF update_incident_obs agent_same_trans [OF record_control_obs stale_obs]] insert_run_obs by blast+
  with r show ?thesis by (rule obs_revokedI)
qed

lemma new_run_obs: "obs_revoked db (snd (new_run k j expected deadline limit versions actor inp payload e db))"
  unfolding new_run_def
  by (rule obs_revoked_transaction, erule new_run_in_cases) (auto simp: obs_revoked_same intro: create_run_obs)

subsection \<open>Alerts and the outbox\<close>

lemma ledger_obs: "agent_same db (db\<lparr>db_web_ledger := l\<rparr>)"
  by (simp add: agent_same_def)

lemma open_subject_obs: "open_subject e op related db = Inr db' \<Longrightarrow> agent_same db db'"
  by (auto simp: open_subject_def insert_handoff_def bind_result_Inr_iff agent_same_def
      dest!: register_uid_obs accept_obs split: option.splits if_splits)

lemma alert_obs: "agent_same db (snd (record_alert_reading seen e a op db))"
  unfolding record_alert_reading_def
proof (rule agent_same_transaction)
  fix r db' assume "record_alert_in seen e a op db = Inr (r, db')"
  then obtain db1 where d: "decide_alert seen e a op db = Inr (r, db1)" and i: "insert_delivery e a r db1 = Inr (r, db')"
    by (auto simp: record_alert_in_def bind_result_Inr_iff insert_delivery_def split: if_splits)
  have "agent_same db db1"
  proof (cases "db1 = db")
    case False
    with d obtain op' where "first_firing seen e a op' (next_revision a db) db = Inr (r, db1)"
      by (auto simp: decide_alert_def Let_def split: option.splits if_splits)
    then show ?thesis
      by (auto simp: first_firing_def bind_result_Inr_iff append_attached_event_def escalate_priority_def open_incident_def
          insert_identity_def agent_same_def dest!: append_input_obs open_subject_obs split: option.splits if_splits)
  qed simp
  also have "agent_same db1 db'"
    using i by (auto simp: insert_delivery_def agent_same_def split: if_splits)
  finally show "agent_same db db'" .
qed

lemma outbox_ops_obs:
  "agent_same db (snd (claim_outbox e limit lease_t now max_attempts locked db))"
  "agent_same db (snd (mark_delivered e ids now db))" "agent_same db (snd (mark_dropped e ids reason now db))"
  "agent_same db (snd (schedule_retry e retries now db))" "agent_same db (snd (trim_backlog e n now lease_t locked db))"
  "agent_same db (snd (purge e retention export_enabled db))"
  by (simp_all add: agent_same_def claim_outbox_def mark_delivered_def mark_dropped_def schedule_retry_def trim_backlog_def
      purge_def purge_expired_def outbox_update_def Let_def)

lemma agent_observes: "agent_step db db' \<Longrightarrow> obs_revoked db db'"
  by (induction rule: agent_step.induct)
    (simp_all add: obs_revoked_same accept_obs agent_same_transaction register_obs new_run_obs claim_obs renew_obs block_obs hand_off_obs
      abandon_obs sweep_obs backlog_obs reserve_obs settle_budget_obs charge_obs commit_step_obs commit_tool_obs
      begin_round_obs publish_obs suspend_obs suspend_target_obs control_obs append_obs alert_obs outbox_ops_obs)

end
