(* ===== verification/Observation_Refinement.thy ===== *)
theory Observation_Refinement
  imports Observation_Frames
begin

section \<open>The store refines the machine of observation sessions\<close>

text \<open>
  Every \<open>observed_step\<close> is a sequence of \<open>obs_change\<close>s. \<open>observed_step\<close> is \<open>store_step\<close> with the hash and the
  JSON parser fixed to those of one world \<open>w\<close>, a clock that does not run backwards inside a transaction, and
  readings that passed the validator of \<open>SignalReading\<close>.
\<close>

inductive observed_step :: "env \<Rightarrow> db \<Rightarrow> db \<Rightarrow> bool" for w where
  observed_agent: "agent_step db db' \<Longrightarrow> observed_step w db db'"
| observed_authorize: "same_world w e \<Longrightarrow> observed_step w db (snd (authorize_session k g e db))"
| observed_remediation: "same_world w e \<Longrightarrow> observed_step w db (snd (register_remediation k expected g identity payload e db))"
| observed_automatic: "same_world w e \<Longrightarrow>
     observed_step w db (snd (authorize_automatic_observation k generation grant refusal locked e db))"
| observed_auto_failure: "observed_step w db (snd (record_auto_observation_failure k generation reason e db))"
| observed_claim: "observed_step w db (snd (claim_incident_due_samples owner limit secs selected locked e db))"
| observed_submit: "same_world w e \<Longrightarrow> list_all (\<lambda>r. signal_reading e r = Some r) rows \<Longrightarrow>
     observed_step w db (snd (submit_sample lease sample rows e db))"
| observed_expire: "same_world w e \<Longrightarrow> observed_step w db (snd (transaction db (expire_session e c db)))"
| observed_revoke: "observed_step w db (snd (revoke_sessions k e db))"

lemma observed_store: "observed_step w db db' \<Longrightarrow> store_step db db'"
  by (induction rule: observed_step.induct)
    (blast intro: step_agent step_authorize step_remediation step_automatic step_auto_failure step_claim_samples step_submit
      step_expire step_revoke)+

abbreviation session_ids_distinct :: "db \<Rightarrow> bool" where
  "session_ids_distinct db \<equiv> distinct (map se_session_id (db_sessions db))"

lemma changes_transaction:
  "(\<And>x db'. r = Inr (x, db') \<Longrightarrow> obs_changes w db db') \<Longrightarrow> obs_changes w db (snd (transaction db r))"
  by (cases r) auto

lemma obs_same_transaction: "(\<And>x db'. r = Inr (x, db') \<Longrightarrow> obs_same db db') \<Longrightarrow> obs_same db (snd (transaction db r))"
  by (cases r) auto

lemma required_signals_world:
  assumes "same_world w e"
  shows "required_signals_of e r db = required_signals_of w r db"
proof -
  have "required_signals e = required_signals w" using assms by (simp add: fun_eq_iff required_signals_def same_world_def)
  moreover have "env_sha256 e = env_sha256 w" "profile_revision e = profile_revision w"
    using assms by (simp_all add: fun_eq_iff profile_revision_def same_world_def)
  ultimately have "parse_required e = parse_required w"
    by (intro ext) (simp only: parse_required_def)
  then show ?thesis by (simp add: required_signals_of_def cong: option.case_cong)
qed

lemma raw_world: "same_world w e \<Longrightarrow> list_all (\<lambda>r. signal_reading e r = Some r) rows \<Longrightarrow> raw_mismatches w rows = []"
  by (induction rows)
    (auto simp: raw_mismatches_def signal_reading_def same_world_def split: option.splits if_splits dest: arg_cong [where f = rg_raw_sha256])

subsection \<open>Claims, expiry and revocation\<close>

lemma claim_changes:
  assumes "claim_sessions e owner until n rows db = Inr (ls, db')" and "distinct (map se_session_id rows)"
    and "\<And>row. row \<in> set rows \<Longrightarrow> find_session (se_session_id row) db = Some row \<and> se_state row = OS_authorized"
  shows "obs_changes w db db'"
  using assms
proof (induction e owner until n rows db arbitrary: ls rule: claim_sessions.induct)
  case (2 e owner until n row rows db)
  let ?k = "se_session_id row"
  from 2(3) obtain sc where sc: "lock_scope db (Some (se_incident_id row)) [] = Inr sc"
    by (auto simp: bind_result_Inr_iff)
  have row: "find_session ?k db = Some row" "se_state row = OS_authorized" using 2(5) by simp_all
  have later: "find_session (se_session_id r) db1 = Some r \<and> se_state r = OS_authorized"
    if "r \<in> set rows" "db_sessions db1 = update_where (\<lambda>s. se_session_id s = ?k) f (db_sessions db)"
      "\<And>s. se_session_id (f s) = se_session_id s" for r db1 f
  proof -
    from that(1) 2(4) have "se_session_id r \<noteq> ?k" by (auto simp: image_iff)
    with 2(5) [of r] that show ?thesis by (simp add: find_row_update_where)
  qed
  have d: "distinct (map se_session_id rows)" using 2(4) by simp
  show ?case
  proof (cases "scope_blocks sc row")
    case True
    with 2(3) sc obtain lc db1 where s: "end_session e n ?k (se_incident_id row) ''scope_suspended'' None lc lc None None True db = Inr db1"
      and r: "claim_sessions e owner until (Suc n) rows db1 = Inr (ls, db')" and lc: "lc = incident_lifecycle_of (se_incident_id row) db"
      by (auto simp: bind_result_Inr_iff Let_def)
    from end_session_change [OF s row, where w = w] have c: "obs_change w db db1"
      and ss: "db_sessions db1 = update_where (\<lambda>s. se_session_id s = ?k) (end_session_row (ends_as ''scope_suspended'') ''scope_suspended'' None) (db_sessions db)"
      by (simp_all add: fires_fits)
    from 2(1) [OF True lc r d] later [OF _ ss] c show ?thesis by (simp add: converse_rtranclp_into_rtranclp)
  next
    case False
    let ?db1 = "update_session ?k (lease_row owner until) db"
    from False 2(3) sc obtain ls' where r: "claim_sessions e owner until n rows ?db1 = Inr (ls', db')"
      by (auto simp: bind_result_Inr_iff)
    have c: "obs_change w db ?db1"
      by (rule job [where k = ?k and f = "lease_row owner until", OF obs_same_refl row(1)])
        (simp_all add: frozen_same_def watermark_same_def lease_row_def)
    have "db_sessions ?db1 = update_where (\<lambda>s. se_session_id s = ?k) (lease_row owner until) (db_sessions db)"
      by (simp add: update_session_def)
    from 2(2) [OF False r d] later [OF _ this] c show ?thesis
      by (simp add: lease_row_def converse_rtranclp_into_rtranclp)
  qed
qed simp

lemma due_sessions_found:
  assumes "session_ids_distinct db"
  shows "distinct (map se_session_id (due_sessions now selected limit locked db))"
    and "row \<in> set (due_sessions now selected limit locked db) \<Longrightarrow> find_session (se_session_id row) db = Some row \<and> se_state row = OS_authorized"
proof -
  have "distinct (map se_session_id (sort_key due_key (filter P (db_sessions db))))" for P
    using assms by (simp add: distinct_map inj_on_def)
  then show "distinct (map se_session_id (due_sessions now selected limit locked db))"
    by (simp add: due_sessions_def take_map [symmetric] distinct_take)
  show "find_session (se_session_id row) db = Some row \<and> se_state row = OS_authorized"
    if "row \<in> set (due_sessions now selected limit locked db)"
    using set_take_subset that [unfolded due_sessions_def] find_row_distinct [OF assms, of row]
    by (fastforce simp: due_session_def)
qed

lemma observed_claim_changes:
  "session_ids_distinct db \<Longrightarrow> obs_changes w db (snd (claim_incident_due_samples owner limit secs selected locked e db))"
  unfolding claim_incident_due_samples_def
  by (auto intro!: changes_transaction elim!: claim_changes simp: due_sessions_found)

lemma expire_changes:
  assumes step: "expire_session e c db = Inr (p, db')" and world: "same_world w e"
  shows "obs_changes w db db'"
proof -
  from step obtain i row where f: "find_incident (snd c) db = Some i" "find_session (fst c) db = Some row"
    by (cases "find_incident (snd c) db"; cases "find_session (fst c) db") (simp_all add: expire_session_def)
  show ?thesis
  proof (cases "se_state row \<noteq> OS_authorized \<or> env_now e < se_deadline_at row")
    case True
    with step f show ?thesis by (simp add: expire_session_def)
  next
    case False
    let ?lc = "fired_or_same (ir_lifecycle i) ''observation_ended_unconfirmed''"
    from step f False obtain db1 where
      s: "end_session e 0 (fst c) (snd c) ''deadline_expired'' (Some ''observation_ended_unconfirmed'') (ir_lifecycle i) ?lc None None True db = Inr db1"
      and db': "obs_same db1 db'"
      by (auto simp: expire_session_def bind_result_Inr_iff ending_transition_def)
    have "obs_change w db db1"
      using end_session_change [OF s f(2), where w = w] False world expired_fits by (simp add: same_world_def)
    moreover have "obs_change w db1 db'" using db' by (rule unchanged)
    ultimately show ?thesis by (meson converse_rtranclp_into_rtranclp r_into_rtranclp)
  qed
qed

lemma observed_revoke_changes: "session_ids_distinct db \<Longrightarrow> obs_changes w db (snd (revoke_sessions k e db))"
  unfolding revoke_sessions_def
  by (rule changes_transaction) (auto split: if_splits elim: revoke_changes)

subsection \<open>Authorization\<close>

lemma store_profile_change:
  assumes "store_profile e r content db = Inr db'"
  shows "obs_change w db db' \<and> db_sessions db' = db_sessions db \<and> find_row hp_revision r (db_profiles db') \<noteq> None"
proof -
  obtain a b c where parts: "rpartition_at r = (a, b, c)" by (cases "rpartition_at r")
  from assms obtain doc where doc: "content = Some doc" by (cases content) (simp_all add: store_profile_def)
  have "(db' = db \<and> find_row hp_revision r (db_profiles db) \<noteq> None) \<or> db' = db\<lparr>db_profiles := db_profiles db @
      [\<lparr>hp_revision = r, hp_profile_id = a, hp_content_sha256 = env_sha256 e doc, hp_content = doc\<rparr>]\<rparr>"
    using assms by (cases "find_row hp_revision r (db_profiles db)") (simp_all add: store_profile_def Let_def doc parts split: if_split_asm)
  then consider "db' = db" "find_row hp_revision r (db_profiles db) \<noteq> None"
    | q where "db' = db\<lparr>db_profiles := db_profiles db @ [q]\<rparr>" "hp_revision q = r" by fastforce
  then show ?thesis
  proof cases
    case 1
    then show ?thesis by (simp add: unchanged)
  next
    case 2
    have "obs_change w db db'" by (rule profiled [where ps = "[q]"]) (simp_all add: 2 obs_same_def)
    with 2 show ?thesis by (auto simp: find_row_append split: option.split)
  qed
qed

lemma granted_profile_change:
  assumes "granted_profile e g db = Inr (subject, db')"
  shows "obs_change w db db' \<and> db_sessions db' = db_sessions db
    \<and> (\<forall>r. sg_profile_revision g = Some r \<longrightarrow> find_row hp_revision r (db_profiles db') \<noteq> None)"
  using assms store_profile_change [where w = w]
  by (auto simp: granted_profile_def bind_result_Inr_iff unchanged split: if_splits option.splits)

lemma complete_identity_obs: "complete_identity t identity db = Inr db' \<Longrightarrow> obs_same db db'"
  by (auto simp: complete_identity_def obs_same_def split: if_splits option.splits)

lemma authorize_session_changes:
  assumes "authorize_session_in e n now k g db = Inr (s, db')"
  shows "obs_changes w db db'"
proof -
  from assms obtain subject db1 where g: "\<not> grant_refused g" and p: "granted_profile e g db = Inr (subject, db1)"
    by (auto simp: authorize_session_in_def bind_result_Inr_iff split: if_splits)
  with assms obtain i where i: "find_incident k db1 = Some i"
    by (auto simp: authorize_session_in_def bind_result_Inr_iff split: option.splits)
  from assms g p i obtain t target lc sc gen db2 where
    c: "session_checks now g subject i db1 = Inr (t, target, lc)"
    and m: "mark_stale_in e n k ''observation_changed'' ''observation.authorize'' (update_incident k
       (\<lambda>x. x\<lparr>ir_lifecycle := lc, ir_observation_generation := gen\<rparr>) db1) = Inr db2"
    and s: "se_session_id (new_session e now g t target i sc) \<notin> se_session_id ` set (db_sessions db2)"
    and db': "db' = db2\<lparr>db_sessions := db_sessions db2 @ [new_session e now g t target i sc]\<rparr>"
    by (auto simp: authorize_session_in_def bind_result_Inr_iff Let_def insert_row_Inr_iff)
  let ?s = "new_session e now g t target i sc"
  have same: "obs_same db1 db2" using agent_same_trans [OF update_incident_obs stale_obs [OF m]] by (rule agent_obs_same)
  note prof = granted_profile_change [OF p, where w = w]
  have checks: "\<not> has_authorized (ir_incident_id i) db1"
    "\<forall>x \<in> set (db_sessions db1). se_target_id x = t \<longrightarrow> identity_of (se_target x) = identity_of target"
    using c by (auto simp: session_checks_def bind_result_Inr_iff split: if_splits option.splits)
  have "obs_change w db1 db'"
  proof (rule created [where s = ?s])
    show "obs_same (db1\<lparr>db_sessions := db_sessions db1 @ [?s]\<rparr>) db'" using same by (simp add: db' obs_same_def)
    show "find_session (se_session_id ?s) db1 = None" using s same by (simp add: find_row_None_iff obs_same_def)
    show "\<not> has_authorized (se_incident_id ?s) db1" using checks by (simp add: new_session_def)
    show "fresh_session ?s" using g by (simp add: fresh_session_def new_session_def grant_refused_def)
    show "profile_known ?s db1" using prof by (simp add: profile_known_def new_session_def)
    show "\<forall>x \<in> set (db_sessions db1). se_target_id x = se_target_id ?s \<longrightarrow> identity_of (se_target x) = identity_of (se_target ?s)"
      using checks by (simp add: new_session_def)
  qed
  with prof show ?thesis by (meson converse_rtranclp_into_rtranclp r_into_rtranclp)
qed

lemma observed_authorize_changes: "obs_changes w db (snd (authorize_session k g e db))"
  unfolding authorize_session_def by (rule changes_transaction) (rule authorize_session_changes)

lemma observed_remediation_changes:
  assumes "session_ids_distinct db"
  shows "obs_changes w db (snd (register_remediation k expected g identity payload e db))"
proof (cases "expected < 0")
  case False
  have "obs_changes w db db'" if r: "register_remediation_in e k expected g identity payload db = Inr (m, db')" for m db'
  proof -
    from r obtain i where i: "find_incident k db = Some i"
      by (auto simp: register_remediation_in_def bind_result_Inr_iff split: option.splits)
    from r obtain t db1 ks db2 s db3 where
      d1: "complete_identity t identity db = Inr db1"
      and d2: "revoke_authorized_sessions e 3 k (bump k (expected + 1) db1) = Inr (ks, db2)"
      and d3: "authorize_session_in e (3 + length ks) (env_now e) k (g\<lparr>sg_source := AS_post_remediation\<rparr>) db2 = Inr (s, db3)"
      and d4: "record_control e k ''register_remediation'' expected (expected + 1) (sg_actor g)
          (Some (remediation_audit payload g s ks)) db3 = Inr db'"
      by (auto simp: register_remediation_in_def i bind_result_Inr_iff split: if_splits option.split_asm)
    have a: "obs_same db (bump k (expected + 1) db1)" using complete_identity_obs [OF d1] agent_obs_same [OF bump_obs] by (rule obs_same_trans)
    then have "session_ids_distinct (bump k (expected + 1) db1)" using assms by (simp add: obs_same_def)
    note revoke_changes [OF d2 this, where w = w]
    also note authorize_session_changes [OF d3, where w = w]
    also note obs_same_changes [OF agent_obs_same [OF record_control_obs [OF d4]], where w = w]
    finally show ?thesis using obs_same_changes [OF a, where w = w] by (rule rtranclp_trans [rotated])
  qed
  with False show ?thesis by (auto simp: register_remediation_def intro: changes_transaction)
qed (simp add: register_remediation_def)

lemma record_auto_obs: "record_auto_observation k generation state reason s db = (a, db') \<Longrightarrow> obs_same db db'"
  by (auto simp: record_auto_observation_def obs_same_def Let_def split: option.splits)

lemma authorize_automatic_changes:
  assumes "authorize_automatic_in e i generation h db = Inr (s, db')"
  shows "obs_changes w db db'"
proof -
  from assms obtain t db1 g k db2 x where d1: "complete_identity t (hg_identity h) db = Inr db1"
    and d2: "authorize_session_in e 3 (env_later e) k g db1 = Inr (s, db2)"
    and d3: "record_control e k AUTO_OBSERVATION_ACTION generation generation AUTO_OBSERVATION_ACTOR x db2 = Inr db'"
    by (auto simp: authorize_automatic_in_def bind_result_Inr_iff split: option.splits)
  note obs_same_changes [OF complete_identity_obs [OF d1], where w = w]
  also note authorize_session_changes [OF d2, where w = w]
  also note obs_same_changes [OF agent_obs_same [OF record_control_obs [OF d3]], where w = w]
  finally show ?thesis .
qed

lemma decide_automatic_changes: "decide_automatic e i generation grant refusal sc db = Inr (a, db') \<Longrightarrow> obs_changes w db db'"
  by (auto simp: decide_automatic_def Let_def split: option.splits sum.splits
      dest!: record_auto_obs intro: obs_same_changes rtranclp_trans [OF authorize_automatic_changes obs_same_changes])

lemma observed_automatic_changes:
  "obs_changes w db (snd (authorize_automatic_observation k generation grant refusal locked e db))"
proof (cases "generation < 0 \<or> (grant = None \<and> refusal = None) \<or> refusal = Some []")
  case False
  then show ?thesis unfolding authorize_automatic_observation_def if_not_P [OF False]
    by (intro changes_transaction)
      (auto simp: bind_result_Inr_iff split: option.split_asm if_split_asm intro: decide_automatic_changes)
qed (auto simp: authorize_automatic_observation_def)

lemma fail_or_retire_obs: "fail_or_retire e i generation reason db = Inr (a, db') \<Longrightarrow> obs_same db db'"
  by (auto simp: fail_or_retire_def count_failure_def append_once_in_def Let_def bind_result_Inr_iff obs_same_def
      dest!: record_auto_obs split: option.splits if_splits)

lemma auto_failure_obs: "obs_same db (snd (record_auto_observation_failure k generation reason e db))"
proof (cases "generation < 0 \<or> reason = []")
  case False
  then show ?thesis
    unfolding record_auto_observation_failure_def if_not_P [OF False]
    by (intro obs_same_transaction)
      (auto simp: bind_result_Inr_iff dest: fail_or_retire_obs split: option.split_asm if_split_asm)
qed (auto simp: record_auto_observation_failure_def)

subsection \<open>Submission\<close>

text \<open>The write of a sample, as one update of the session row, one sample and at most one ending.\<close>

definition judged_row :: "env \<Rightarrow> Verdict \<Rightarrow> bool \<Rightarrow> session_row \<Rightarrow> session_row" where
  "judged_row e v lease_ok s = (case vd_ended_reason v of None \<Rightarrow> next_session e v lease_ok s
     | Some reason \<Rightarrow> end_session_row (ends_as reason) reason (Some (marks_of v)) s)"

definition judged_endings :: "env \<Rightarrow> SampleLease \<Rightarrow> incident_row \<Rightarrow> Verdict \<Rightarrow> IncidentLifecycle \<Rightarrow> ending_row list \<Rightarrow> bool" where
  "judged_endings e lease i v lc ens = (case vd_ended_reason v of None \<Rightarrow> ens = []
     | Some reason \<Rightarrow> \<exists>en. ens = [en] \<and> en_session_id en = sl_session_id lease \<and> en_incident_id en = sl_incident_id lease
         \<and> ending_tuple en = (reason, vd_transition v, if sa_accepted (vd_decision v) then Some (env_uuid4 e 0) else None,
             ir_lifecycle i, lc))"

lemma end_session_Inr:
  assumes "end_session e n k i reason tr bef aft m marks job db = Inr db'" and "reason \<in> fst ` set implied_state"
  shows "\<exists>en. db' = update_session k (end_session_row (ends_as reason) reason marks) db\<lparr>db_endings := db_endings db @ [en]\<rparr>
    \<and> en_session_id en = k \<and> en_incident_id en = i \<and> ending_tuple en = (reason, tr, m, bef, aft)"
proof -
  let ?slot = "if job then find_row se_session_id k (db_sessions db) else None"
  let ?en = "\<lparr>en_ending_id = env_uuid4 e n, en_session_id = k, en_incident_id = i, en_ended_reason = reason, en_transition = tr,
    en_sample_id = m, en_lifecycle_before = bef, en_lifecycle_after = aft, en_recorded_at = env_later e,
    en_job_id = Option.bind ?slot se_active_sample_job_id, en_job_sequence = Option.bind ?slot se_active_sample_sequence\<rparr>"
  from assms(2) obtain t where t: "map_of session_trigger reason = Some t" "fire OBSERVATION_SESSION OS_authorized t = Inr (ends_as reason)"
    by (auto simp: implied_state_def session_trigger_def ends_as_def)
  from assms(1) have "db' = update_session k (end_session_row (ends_as reason) reason marks) db\<lparr>db_endings := db_endings db @ [?en]\<rparr>"
    unfolding end_session_def Let_def t option.case sum.case by (auto simp: bind_result_Inr_iff insert_row_Inr_iff update_session_def)
  then show ?thesis by (intro exI [of _ ?en]) (simp add: ending_tuple_def)
qed

lemma ended_reasons: "verdict_ends session v \<Longrightarrow> vd_ended_reason v = Some reason \<Longrightarrow> reason \<in> fst ` set implied_state"
  by (auto simp: verdict_ends_def implied_state_def split: if_splits)

lemma write_sample_shape:
  assumes w: "write_sample e lease sample rows c i v db = Inr (lc, db')" and v: "verdict_ends session v"
  shows "moved_lifecycle (ir_lifecycle i) v = Inr lc \<and> (\<exists>ens. judged_endings e lease i v lc ens \<and>
    obs_same (update_session (sl_session_id lease) (judged_row e v (sx_lease_valid c)) db
      \<lparr>db_samples := db_samples db @ [new_sample_row e lease sample rows c i v], db_endings := db_endings db @ ens\<rparr>) db')"
proof -
  let ?m = "new_sample_row e lease sample rows c i v" and ?k = "sl_session_id lease"
  from w obtain l where l: "moved_lifecycle (ir_lifecycle i) v = Inr l" by (auto simp: write_sample_def bind_result_Inr_iff)
  with w have "l = lc" by (auto simp: write_sample_def bind_result_Inr_iff Let_def split: option.split_asm)
  with l have lc: "moved_lifecycle (ir_lifecycle i) v = Inr lc" by simp
  let ?db0 = "if lc \<noteq> ir_lifecycle i then update_incident (sl_incident_id lease) (\<lambda>x. x\<lparr>ir_lifecycle := lc\<rparr>) db else db"
  have d0: "obs_same db ?db0" by simp
  from w lc obtain db2 where db2: "insert_sample ?m (update_session ?k (next_session e v (sx_lease_valid c)) ?db0) = Inr db2"
    and rest: "(case vd_ended_reason v of None \<Rightarrow> Inr (lc, db2) | Some reason \<Rightarrow>
           bind_result (end_session e 1 ?k (sl_incident_id lease) reason (vd_transition v) (ir_lifecycle i) lc
             (if sa_accepted (vd_decision v) then Some (env_uuid4 e 0) else None) (Some (marks_of v)) True db2)
             (\<lambda>db3. Inr (lc, db3))) = Inr (lc, db')"
    unfolding write_sample_def lc bind_result.simps Let_def bind_result_Inr_iff by blast
  from db2 have d2: "db_sessions db2 = update_where (\<lambda>s. se_session_id s = ?k) (next_session e v (sx_lease_valid c)) (db_sessions db)"
    "db_samples db2 = db_samples db @ [?m]" "db_endings db2 = db_endings db" "db_profiles db2 = db_profiles db"
    using d0 by (auto simp: insert_sample_def bind_result_Inr_iff insert_row_Inr_iff update_session_def obs_same_def split: if_splits)
  show ?thesis
  proof (cases "vd_ended_reason v")
    case None
    with rest have "db' = db2" by simp
    moreover from None have "judged_row e v (sx_lease_valid c) = next_session e v (sx_lease_valid c)" by (simp add: fun_eq_iff judged_row_def)
    ultimately show ?thesis using None d2
      by (intro conjI lc exI [of _ "[]"]) (simp_all add: judged_endings_def obs_same_def update_session_def)
  next
    case (Some reason)
    with rest have s: "end_session e 1 ?k (sl_incident_id lease) reason (vd_transition v) (ir_lifecycle i) lc
             (if sa_accepted (vd_decision v) then Some (env_uuid4 e 0) else None) (Some (marks_of v)) True db2 = Inr db'"
      by (auto simp: bind_result_Inr_iff)
    from end_session_Inr [OF s ended_reasons [OF v Some]] obtain en where en:
      "db' = update_session ?k (end_session_row (ends_as reason) reason (Some (marks_of v))) db2\<lparr>db_endings := db_endings db2 @ [en]\<rparr>"
      "en_session_id en = ?k" "en_incident_id en = sl_incident_id lease"
      "ending_tuple en = (reason, vd_transition v, if sa_accepted (vd_decision v) then Some (env_uuid4 e 0) else None, ir_lifecycle i, lc)"
      by blast
    have "next_session e v (sx_lease_valid c) = (\<lambda>s. s)" by (simp add: fun_eq_iff next_session_def Some)
    then have "db_sessions db2 = db_sessions db" using d2(1) by (simp add: update_where_def)
    moreover from Some have "judged_row e v (sx_lease_valid c) = end_session_row (ends_as reason) reason (Some (marks_of v))"
      by (simp add: fun_eq_iff judged_row_def)
    ultimately show ?thesis using en d2 Some
      by (intro conjI lc exI [of _ "[en]"]) (simp_all add: judged_endings_def obs_same_def update_session_def)
  qed
qed

text \<open>The submitted sample and the stored one are judged alike.\<close>

lemma judge_stored:
  assumes "se_session_id row = sl_session_id lease" and "hs_session_id sample = uuid_str (sl_session_id lease)"
    and m: "m = new_sample_row e lease sample rows c i v"
  shows "judge (stored_session row m) (sample_of_row m (sm_outcome m, sm_required_signals_present m)) (stored_input row m)
    = judge (session_of_row row i) sample (submit_input c row i)"
proof -
  have "stored_session row m = (session_of_row row i)\<lparr>os_active_sample_job_id := Some (uuid_str (sl_job_id lease))\<rparr>"
    by (simp add: stored_session_def session_of_row_def domain_session_def m new_sample_row_def)
  moreover have "sample_of_row m (sm_outcome m, sm_required_signals_present m) = sample\<lparr>hs_sample_id := uuid_str (env_uuid4 e 0)\<rparr>"
    using assms(2) by (simp add: sample_of_row_def m new_sample_row_def)
  moreover have "stored_input row m = submit_input c row i"
    by (simp add: stored_input_def submit_input_def m new_sample_row_def)
  ultimately show ?thesis by simp
qed

lemma moved_fits:
  assumes "verdict_ends session v" and "vd_ended_reason v = Some reason" and "moved_lifecycle bef v = Inr lc"
    and "reason = ''recovery_confirmed'' \<Longrightarrow> sa_accepted (vd_decision v)"
  shows "transition_fits (reason, vd_transition v, if sa_accepted (vd_decision v) then Some k else None, bef, lc)"
proof -
  from assms(1,2) have t: "vd_transition v = fires_of reason" by (simp add: verdict_ends_def)
  consider "reason = ''recovery_confirmed''" | "reason \<in> {''deadline_expired'', ''max_samples_exhausted''}"
    | "reason \<noteq> ''recovery_confirmed''" "reason \<notin> {''deadline_expired'', ''max_samples_exhausted''}" by blast
  then show ?thesis
  proof cases
    case 1
    with t assms(2-4) show ?thesis
      by (auto simp: fires_of_def moved_lifecycle_def ending_transition_def transition_fits_def can_fire_iff fired_or_same_def split: sum.splits)
  next
    case 2
    with t assms(2,3) have "lc = fired_or_same bef ''observation_ended_unconfirmed''" "vd_transition v = Some ''observation_ended_unconfirmed''"
      by (auto simp: fires_of_def moved_lifecycle_def ending_transition_def)
    with 2 show ?thesis
      by (cases "fire INCIDENT_LIFECYCLE bef ''observation_ended_unconfirmed''") (auto simp: transition_fits_def can_fire_iff fired_or_same_def)
  next
    case 3
    with t assms(2,3) have "lc = bef" "vd_transition v = None"
      by (auto simp: fires_of_def moved_lifecycle_def)
    with 3 show ?thesis by (simp add: transition_fits_def)
  qed
qed

lemma judged_row_after:
  assumes "judge (session_of_row row i) sample (submit_input c row i) = Inr v"
    and "sx_lease_valid c \<Longrightarrow> se_active_sample_job_id row \<noteq> None"
  shows "row_after row v (judged_row e v (sx_lease_valid c) row)"
proof -
  note ends = judge_ends [OF assms(1)]
  have old: "\<not> sa_accepted (vd_decision v) \<Longrightarrow> vd_adopted_sequence v = se_adopted_sequence row \<and> vd_adopted_window_end v = se_adopted_window_end row
      \<and> vd_adopted_count v = se_adopted_count row \<and> vd_healthy_since v = se_healthy_since row"
    using judge_rejects [OF assms(1)] by (simp add: session_of_row_def domain_session_def submit_input_def)
  have new: "sa_accepted (vd_decision v) \<Longrightarrow> vd_adopted_window_end v \<noteq> None"
    using judge_accepts [OF assms(1)] by simp
  show ?thesis
  proof (cases "vd_ended_reason v")
    case None
    with ends have st: "vd_session_state v = se_state row" by (simp add: verdict_ends_def session_of_row_def domain_session_def)
    with None old assms(2) show ?thesis
      by (auto simp: judged_row_def next_session_def next_job_def postponed_job_def row_after_def frozen_same_def)
  next
    case (Some reason)
    with ends have st: "ends_as reason = vd_session_state v" by (simp add: verdict_ends_def ends_as_def)
    have w: "(case vd_adopted_window_end v of None \<Rightarrow> se_adopted_window_end row | Some t \<Rightarrow> Some t) = vd_adopted_window_end v"
      using old new by (cases "sa_accepted (vd_decision v)") (auto split: option.splits)
    show ?thesis
      unfolding judged_row_def Some option.case row_after_def
      by (simp add: end_session_row_def marks_of_def or_old_def st w frozen_same_def)
  qed
qed

lemma submit_change:
  assumes step: "submit_sample_in e lease sample rows db = Inr (r, db')" and world: "same_world w e"
    and rows: "list_all (\<lambda>r. signal_reading e r = Some r) rows"
  shows "obs_change w db db'"
proof -
  from step obtain i row where f: "find_incident (sl_incident_id lease) db = Some i" "find_session (sl_session_id lease) db = Some row"
    by (cases "find_incident (sl_incident_id lease) db"; cases "find_session (sl_session_id lease) db")
      (simp_all add: submit_sample_in_def split: if_split_asm)
  from step f have inc: "se_incident_id row = sl_incident_id lease" and hs: "hs_session_id sample = uuid_str (sl_session_id lease)"
    by (simp_all add: submit_sample_in_def split: if_split_asm)
  from step f inc hs obtain sc v lc c where c: "c = conditions_of e lease sample rows sc row db"
    and j: "judge (session_of_row row i) sample (submit_input c row i) = Inr v"
    and wr: "write_sample e lease sample rows c i v db = Inr (lc, db')"
    by (auto simp: submit_sample_in_def bind_result_Inr_iff Let_def split: if_split_asm sum.split_asm)
  let ?m = "new_sample_row e lease sample rows c i v" and ?k = "sl_session_id lease"
  have k: "se_session_id row = ?k" using f(2) by (rule find_row_key)
  note ends = judge_ends [OF j]
  from write_sample_shape [OF wr ends] obtain ens where lc: "moved_lifecycle (ir_lifecycle i) v = Inr lc"
    and ens: "judged_endings e lease i v lc ens"
    and db': "obs_same (update_session ?k (judged_row e v (sx_lease_valid c)) db
      \<lparr>db_samples := db_samples db @ [?m], db_endings := db_endings db @ ens\<rparr>) db'" by blast
  have leased: "sx_lease_valid c \<Longrightarrow> se_active_sample_job_id row \<noteq> None"
    by (auto simp: c conditions_of_def Let_def sample_lease_valid_def)
  show ?thesis
  proof (rule sampled [OF db' f(2)])
    show "row_judged row ?m v"
      unfolding row_judged_def judge_stored [OF k hs refl] j
      using leased by (auto simp: new_sample_row_def k stored_decision_def verdict_decision_def c conditions_of_def Let_def scope_moved_def scope_blocks_def)
    show "row_after row v (judged_row e v (sx_lease_valid c) row)" using j leased by (rule judged_row_after)
    show "sample_endings row ?m v ens"
    proof (cases "vd_ended_reason v")
      case (Some reason)
      have "reason = ''recovery_confirmed'' \<Longrightarrow> sa_accepted (vd_decision v)"
        using judge_rejects [OF j] Some by auto
      from moved_fits [OF ends Some lc this, of "env_uuid4 e 0"] ens Some show ?thesis
        by (auto simp: sample_endings_def judged_endings_def ending_tuple_def k inc new_sample_row_def)
    qed (use ens in \<open>simp add: sample_endings_def judged_endings_def\<close>)
    show "sm_readings_consistent ?m = (missing_required_signals (required_signals_of w (se_health_profile_revision row) db) (sm_outcome ?m)
       (sm_required_signals_present ?m) (ok_signals (sm_window ?m) (sm_readings ?m)) = [])"
      by (simp add: new_sample_row_def c conditions_of_def Let_def required_signals_world [OF world])
    show "raw_mismatches w (sm_readings ?m) = []"
      using raw_world [OF world rows] by (simp add: new_sample_row_def)
  qed
qed

lemma observed_submit_changes:
  "same_world w e \<Longrightarrow> list_all (\<lambda>r. signal_reading e r = Some r) rows \<Longrightarrow> obs_changes w db (snd (submit_sample lease sample rows e db))"
  unfolding submit_sample_def by (rule changes_transaction) (blast intro: submit_change)

subsection \<open>The refinement\<close>

lemma observed_refines: "observed_step w db db' \<Longrightarrow> session_ids_distinct db \<Longrightarrow> obs_changes w db db'"
proof (induction rule: observed_step.induct)
  case (observed_agent db db')
  then show ?case using agent_observes obs_revoked_changes by blast
next
  case (observed_expire e db c)
  then show ?case by (blast intro: changes_transaction expire_changes)
qed (simp_all add: observed_authorize_changes observed_remediation_changes observed_automatic_changes obs_same_changes auto_failure_obs
    observed_claim_changes observed_submit_changes observed_revoke_changes)

end
