(* ===== verification/Observation_Trace.thy ===== *)
theory Observation_Trace
  imports Observation_Refinement
begin

section \<open>The samples of one session as a trace\<close>

text \<open>
  \<open>trace row ms\<close> folds the stored samples of a session with the conditions stored beside them, from the
  state of a new session. The lemmas say what the fold knows of the samples it has adopted: their
  number, order and watermark, the streak of healthy windows, and how the session was ended by one.
\<close>

definition row_at :: "session_row \<Rightarrow> fold_state \<Rightarrow> session_row" where
  "row_at row f = row\<lparr>se_state := fs_state f, se_adopted_sequence := fs_adopted_sequence f,
     se_adopted_window_end := fs_adopted_window_end f, se_adopted_count := fs_adopted_count f, se_healthy_since := fs_healthy_since f\<rparr>"

definition judged_at :: "session_row \<Rightarrow> fold_state \<Rightarrow> sample_row \<Rightarrow> Verdict domain_result" where
  "judged_at row f m = judge (stored_session (row_at row f) m) (sample_of_row m (sm_outcome m, sm_required_signals_present m))
     (stored_input (row_at row f) m)"

definition trace_step :: "session_row \<Rightarrow> fold_state \<Rightarrow> sample_row \<Rightarrow> fold_state" where
  "trace_step row f m = (case judged_at row f m of Inl err \<Rightarrow> f | Inr v \<Rightarrow> advance_fold f m v)"

definition trace :: "session_row \<Rightarrow> sample_row list \<Rightarrow> fold_state" where
  "trace row ms = foldl (trace_step row) fold_start ms"

text \<open>The decisions on the samples are those of the fold.\<close>

fun decisions_hold :: "session_row \<Rightarrow> fold_state \<Rightarrow> sample_row list \<Rightarrow> bool" where
  "decisions_hold row f [] = True"
| "decisions_hold row f (m # ms) = (case judged_at row f m of Inl err \<Rightarrow> False
     | Inr v \<Rightarrow> stored_decision m = verdict_decision v \<and> decisions_hold row (advance_fold f m v) ms)"

lemma trace_Nil [simp]: "trace row [] = fold_start"
  by (simp add: trace_def)

lemma trace_snoc [simp]: "trace row (ms @ [m]) = trace_step row (trace row ms) m"
  by (simp add: trace_def)

lemma decisions_snoc:
  "decisions_hold row f (ms @ [m]) \<longleftrightarrow> decisions_hold row f ms
     \<and> (\<exists>v. judged_at row (foldl (trace_step row) f ms) m = Inr v \<and> stored_decision m = verdict_decision v)"
proof (induction ms arbitrary: f)
  case Nil
  then show ?case by (auto split: sum.split)
next
  case (Cons a ms)
  then show ?case by (cases "judged_at row f a") (auto simp: trace_step_def)
qed

lemma judged_at_frozen: "frozen_same row row' \<Longrightarrow> judged_at row' = judged_at row"
  by (simp add: fun_eq_iff judged_at_def stored_session_def domain_session_def stored_input_def row_at_def frozen_same_def)

lemma trace_frozen:
  assumes "frozen_same row row'"
  shows "trace row' ms = trace row ms" "decisions_hold row' f ms = decisions_hold row f ms"
proof -
  note j = judged_at_frozen [OF assms]
  show "trace row' ms = trace row ms" by (simp add: trace_def trace_step_def [abs_def] j)
  show "decisions_hold row' f ms = decisions_hold row f ms" by (induction ms arbitrary: f) (simp_all add: j cong: sum.case_cong)
qed

definition adopted_of :: "sample_row list \<Rightarrow> sample_row list" where
  "adopted_of ms = filter (\<lambda>m. sm_disposition m = SD_adopted) ms"

lemma adopted_of_simps [simp]: "adopted_of [] = []"
  "adopted_of (ms @ [m]) = (if sm_disposition m = SD_adopted then adopted_of ms @ [m] else adopted_of ms)"
  by (simp_all add: adopted_of_def)

text \<open>One step of the fold: the verdict \<open>v\<close> on \<open>m\<close> is stored with it.\<close>

definition fold_judges :: "session_row \<Rightarrow> fold_state \<Rightarrow> sample_row \<Rightarrow> Verdict \<Rightarrow> bool" where
  "fold_judges row f m v \<longleftrightarrow> judged_at row f m = Inr v \<and> stored_decision m = verdict_decision v"

lemma rejected_disposition: "\<not> sa_accepted (judge_decision session sample j) \<Longrightarrow> sa_disposition (judge_decision session sample j) = SD_history_only"
  by (auto simp: judge_decision_def evaluate_sample_def sample_history_only_def split: if_splits)

lemma judge_disposition:
  assumes "judge session sample j = Inr v"
  shows "vd_decision v = judge_decision session sample j" "sa_accepted (vd_decision v) \<longleftrightarrow> sa_disposition (vd_decision v) = SD_adopted"
proof -
  show d: "vd_decision v = judge_decision session sample j"
    by (cases "sa_accepted (vd_decision v)") (use judge_accepts [OF assms] judge_rejects [OF assms] in blast)+
  have "sa_accepted (vd_decision v) \<Longrightarrow> vd_decision v = \<lparr>sa_accepted = True, sa_disposition = SD_adopted, sa_reason = SR_adopted\<rparr>"
    using judge_accepts [OF assms] by blast
  then have "sa_accepted (vd_decision v) \<Longrightarrow> sa_disposition (vd_decision v) = SD_adopted" by simp
  moreover have "\<not> sa_accepted (vd_decision v) \<Longrightarrow> sa_disposition (vd_decision v) = SD_history_only"
    using rejected_disposition d by metis
  ultimately show "sa_accepted (vd_decision v) \<longleftrightarrow> sa_disposition (vd_decision v) = SD_adopted"
    by (cases "sa_accepted (vd_decision v)") simp_all
qed

text \<open>What an adopted sample satisfies, and how it moves the fold.\<close>

definition adoptable :: "session_row \<Rightarrow> sample_row \<Rightarrow> bool" where
  "adoptable row m \<longleftrightarrow> sm_lease_valid m \<and> sm_lease_stamps_match m \<and> sm_readings_consistent m \<and> \<not> sm_scope_suspended m
     \<and> sm_within_deadline m \<and> sm_subject_lifecycle m \<in> ACTIVE_INCIDENT_LIFECYCLES
     \<and> sm_subject_control_generation m = sm_incident_control_generation m
     \<and> sm_observation_generation m = sm_incident_observation_generation m
     \<and> sm_health_profile_revision m = se_health_profile_revision row
     \<and> (sm_confirms_health m \<longrightarrow> sm_outcome m = SO_healthy \<and> sm_required_signals_present m
          \<and> se_health_profile_revision row \<noteq> None \<and> se_authorized_at row \<le> qw_start (sm_window m))"

lemma fold_accepts:
  assumes "fold_judges row f m v" and "sm_disposition m = SD_adopted"
  shows "adoptable row m \<and> fs_state f = OS_authorized \<and> fs_adopted_sequence f < sm_sequence m
    \<and> (\<forall>t. fs_adopted_window_end f = Some t \<longrightarrow> t \<le> qw_end (sm_window m)) \<and> sa_accepted (vd_decision v)
    \<and> vd_adopted_sequence v = sm_sequence m \<and> vd_adopted_window_end v = Some (qw_end (sm_window m))
    \<and> vd_adopted_count v = fs_adopted_count f + 1 \<and> vd_healthy v = sm_confirms_health m
    \<and> vd_healthy_since v = (if \<not> sm_confirms_health m then None
         else if fs_healthy_since f = None \<or> (\<exists>t. fs_adopted_window_end f = Some t \<and> t < qw_start (sm_window m))
         then Some (qw_end (sm_window m)) else fs_healthy_since f)
    \<and> (vd_ended_reason v = Some ''recovery_confirmed'' \<longleftrightarrow> sm_confirms_health m \<and> (\<exists>t. vd_healthy_since v = Some t
         \<and> seconds (se_sustained_window_seconds row) \<le> qw_end (sm_window m) - t))
    \<and> (vd_ended_reason v = Some ''max_samples_exhausted'' \<longrightarrow> se_max_samples row \<le> vd_adopted_count v)
    \<and> (vd_ended_reason v = None \<longrightarrow> vd_adopted_count v < se_max_samples row)
    \<and> vd_ended_reason v \<in> {None, Some ''recovery_confirmed'', Some ''max_samples_exhausted''}"
proof -
  let ?s = "stored_session (row_at row f) m" and ?h = "sample_of_row m (sm_outcome m, sm_required_signals_present m)"
  let ?j = "stored_input (row_at row f) m"
  from assms(1) have j: "judge ?s ?h ?j = Inr v" and st: "sm_disposition m = sa_disposition (vd_decision v)"
      "sm_confirms_health m = vd_healthy v"
    by (simp_all add: fold_judges_def judged_at_def stored_decision_def verdict_decision_def)
  have acc: "sa_accepted (vd_decision v)" using judge_disposition(2) [OF j] st(1) assms(2) by simp
  note a = judge_accepts [OF j acc]
  have "sa_accepted (judge_decision ?s ?h ?j)" using acc judge_disposition(1) [OF j] by simp
  from judge_decision_accepted [OF this] have "sa_accepted (evaluate_sample ?s ?h (jg_subject_state ?j) (jg_within_deadline ?j) (jg_suspension_blocks ?j))"
    by blast
  note ev = this [unfolded evaluate_sample_accepted_iff]
  have fields: "jg_lease_valid ?j = sm_lease_valid m" "jg_stamps_match ?j = sm_lease_stamps_match m" "jg_readings_consistent ?j = sm_readings_consistent m"
    "jg_suspension_blocks ?j = sm_scope_suspended m" "jg_within_deadline ?j = sm_within_deadline m" "jg_authorized_at ?j = se_authorized_at row"
    "jg_adopted_count ?j = fs_adopted_count f" "jg_healthy_since ?j = fs_healthy_since f" "jg_max_samples ?j = se_max_samples row"
    "jg_sustained_window_seconds ?j = se_sustained_window_seconds row" "jg_subject_state ?j = Inl (sm_subject_lifecycle m)"
    "os_state ?s = fs_state f" "os_adopted_sequence ?s = fs_adopted_sequence f" "os_adopted_window_end ?s = fs_adopted_window_end f"
    "hs_window ?h = sm_window m" "hs_sequence ?h = sm_sequence m" "os_purpose ?s = OP_incident_recovery"
    by (simp_all add: stored_input_def stored_session_def domain_session_def sample_of_row_def row_at_def)
  have s: "streak ?s ?h (vd_healthy v) (fs_healthy_since f) = (if \<not> sm_confirms_health m then None
         else if fs_healthy_since f = None \<or> (\<exists>t. fs_adopted_window_end f = Some t \<and> t < qw_start (sm_window m))
         then Some (qw_end (sm_window m)) else fs_healthy_since f)"
    by (auto simp: streak_def Let_def fields st(2) split: option.splits)
  have ad: "adoptable row m"
    using a ev unfolding fields
    by (auto simp: adoptable_def active_subject_states_def stored_session_def domain_session_def sample_of_row_def row_at_def
        confirms_health_def st(2))
  from a have h: "vd_healthy_since v = streak ?s ?h (vd_healthy v) (jg_healthy_since ?j)" by blast
  note a' = a [unfolded fields] and ev' = ev [unfolded fields]
  show ?thesis
  proof (intro conjI ad)
    show "vd_healthy_since v = (if \<not> sm_confirms_health m then None
         else if fs_healthy_since f = None \<or> (\<exists>t. fs_adopted_window_end f = Some t \<and> t < qw_start (sm_window m))
         then Some (qw_end (sm_window m)) else fs_healthy_since f)"
      using h unfolding fields s .
    show "vd_healthy v = sm_confirms_health m" by (simp add: st(2))
    show "vd_ended_reason v = Some ''recovery_confirmed'' \<longleftrightarrow> sm_confirms_health m \<and> (\<exists>t. vd_healthy_since v = Some t
         \<and> seconds (se_sustained_window_seconds row) \<le> qw_end (sm_window m) - t)"
      unfolding st(2) using a' by blast
  qed (insert acc a' ev', (elim conjE, assumption)+)
qed

lemma fold_rejects:
  assumes "fold_judges row f m v" and "sm_disposition m \<noteq> SD_adopted"
  shows "\<not> sa_accepted (vd_decision v) \<and> \<not> sm_confirms_health m \<and> vd_adopted_sequence v = fs_adopted_sequence f
    \<and> vd_adopted_window_end v = fs_adopted_window_end f \<and> vd_adopted_count v = fs_adopted_count f
    \<and> vd_healthy_since v = fs_healthy_since f \<and> vd_ended_reason v \<notin> {Some ''recovery_confirmed'', Some ''max_samples_exhausted''}"
proof -
  from assms(1) have j: "judge (stored_session (row_at row f) m) (sample_of_row m (sm_outcome m, sm_required_signals_present m))
      (stored_input (row_at row f) m) = Inr v" and st: "sm_disposition m = sa_disposition (vd_decision v)" "sm_confirms_health m = vd_healthy v"
    by (simp_all add: fold_judges_def judged_at_def stored_decision_def verdict_decision_def)
  have n: "\<not> sa_accepted (vd_decision v)" using judge_disposition(2) [OF j] assms(2) st(1) by simp
  have "vd_adopted_sequence v = fs_adopted_sequence f \<and> vd_adopted_window_end v = fs_adopted_window_end f \<and> vd_adopted_count v = fs_adopted_count f
    \<and> vd_healthy_since v = fs_healthy_since f"
    using judge_rejects [OF j n] by (simp add: stored_session_def domain_session_def stored_input_def row_at_def)
  with judge_rejects [OF j n] n st(2) show ?thesis by auto
qed

text \<open>How a verdict ends the session of the fold.\<close>

lemma fold_ends:
  assumes "fold_judges row f m v"
  shows "case vd_ended_reason v of None \<Rightarrow> vd_session_state v = fs_state f \<and> sm_transition m = None
    | Some r \<Rightarrow> fs_state f = OS_authorized \<and> map_of implied_state r = Some (vd_session_state v) \<and> vd_session_state v \<noteq> OS_authorized
        \<and> sm_transition m = fires_of r"
proof -
  from assms have j: "judge (stored_session (row_at row f) m) (sample_of_row m (sm_outcome m, sm_required_signals_present m))
      (stored_input (row_at row f) m) = Inr v" and t: "sm_transition m = vd_transition v"
    by (simp_all add: fold_judges_def judged_at_def stored_decision_def verdict_decision_def)
  have "os_state (stored_session (row_at row f) m) = fs_state f" by (simp add: stored_session_def domain_session_def row_at_def)
  with judge_ends [OF j] t show ?thesis
    by (auto simp: verdict_ends_def implied_state_def split: option.splits if_splits)
qed

subsection \<open>What the fold knows\<close>

text \<open>The adopted samples advance, the watermark is the last one, and their number is bounded.\<close>

definition advances :: "sample_row \<Rightarrow> sample_row \<Rightarrow> bool" where
  "advances a b \<longleftrightarrow> sm_sequence a < sm_sequence b \<and> qw_end (sm_window a) \<le> qw_end (sm_window b)"

definition counts_ok :: "session_row \<Rightarrow> fold_state \<Rightarrow> sample_row list \<Rightarrow> bool" where
  "counts_ok row f as \<longleftrightarrow> 0 < se_max_samples row \<and> fs_adopted_count f = int (length as) \<and> int (length as) \<le> se_max_samples row
     \<and> (fs_state f = OS_authorized \<longrightarrow> int (length as) < se_max_samples row)
     \<and> fs_adopted_sequence f = (if as = [] then 0 else sm_sequence (last as))
     \<and> fs_adopted_window_end f = (if as = [] then None else Some (qw_end (sm_window (last as))))
     \<and> sorted_wrt advances as \<and> list_all (adoptable row) as"

text \<open>A healthy run: adopted samples that each confirm health, every window starting no later than the one
  before it ends.\<close>

definition healthy_run :: "sample_row list \<Rightarrow> bool" where
  "healthy_run xs \<longleftrightarrow> xs \<noteq> [] \<and> list_all sm_confirms_health xs
     \<and> successively (\<lambda>a b. qw_start (sm_window b) \<le> qw_end (sm_window a)) xs"

definition run_span :: "sample_row list \<Rightarrow> time" where
  "run_span xs = qw_end (sm_window (last xs)) - qw_end (sm_window (hd xs))"

definition streak_ok :: "fold_state \<Rightarrow> sample_row list \<Rightarrow> bool" where
  "streak_ok f as \<longleftrightarrow> (\<forall>t. fs_healthy_since f = Some t \<longrightarrow>
     (\<exists>ys xs. as = ys @ xs \<and> healthy_run xs \<and> qw_end (sm_window (hd xs)) = t))"

definition ended_ok :: "session_row \<Rightarrow> fold_state \<Rightarrow> sample_row list \<Rightarrow> bool" where
  "ended_ok row f as \<longleftrightarrow> (fs_ended_reason f = None \<longleftrightarrow> fs_state f = OS_authorized)
     \<and> (\<forall>r. fs_ended_reason f = Some r \<longrightarrow> map_of implied_state r = Some (fs_state f))
     \<and> (fs_ended_reason f = Some ''recovery_confirmed'' \<longrightarrow> as \<noteq> [] \<and> fs_ending_sample_id f = Some (sm_sample_id (last as))
          \<and> (\<exists>t. fs_healthy_since f = Some t \<and> seconds (se_sustained_window_seconds row) \<le> qw_end (sm_window (last as)) - t))
     \<and> (fs_ended_reason f = Some ''max_samples_exhausted'' \<longrightarrow> se_max_samples row \<le> int (length as))
     \<and> (fs_ended_reason f = None \<longrightarrow> fs_ending_sample_id f = None)"

definition lifecycle_ok :: "fold_state \<Rightarrow> sample_row list \<Rightarrow> bool" where
  "lifecycle_ok f ms \<longleftrightarrow> (fs_expected_lifecycle f = None \<longleftrightarrow> filter (\<lambda>m. sm_transition m \<noteq> None) ms = [])
     \<and> (fs_expected_lifecycle f \<noteq> None \<longrightarrow> fs_expected_lifecycle f = recorded_lifecycle ms)"

lemma fold_stays: "fold_judges row f m v \<Longrightarrow> sm_disposition m = SD_adopted \<Longrightarrow> fs_state f = OS_authorized"
  using fold_accepts by blast

lemma sorted_snoc:
  assumes "sorted_wrt advances as" and "as \<noteq> [] \<Longrightarrow> advances (last as) m"
  shows "sorted_wrt advances (as @ [m])"
proof -
  have "advances a m" if a: "a \<in> set as" for a
  proof -
    from a have "as \<noteq> []" by auto
    then have "advances (last as) m" by (rule assms(2))
    with sorted_wrt_le_last [OF assms(1) a] show ?thesis by (auto simp: advances_def)
  qed
  with assms(1) show ?thesis by (simp add: sorted_wrt_append)
qed

lemma counts_step:
  assumes j: "fold_judges row f m v" and ok: "counts_ok row f (adopted_of ms)"
  shows "counts_ok row (advance_fold f m v) (adopted_of (ms @ [m]))"
proof (cases "sm_disposition m = SD_adopted")
  case True
  note a = fold_accepts [OF j True]
  have "sorted_wrt advances (adopted_of ms @ [m])"
    using ok a by (intro sorted_snoc) (auto simp: counts_ok_def advances_def)
  moreover have "vd_session_state v = OS_authorized \<Longrightarrow> vd_ended_reason v = None"
    using fold_ends [OF j] by (cases "vd_ended_reason v") simp_all
  ultimately show ?thesis
    using a ok True by (auto simp: counts_ok_def advance_fold_def)
next
  case False
  have "vd_session_state v = OS_authorized \<Longrightarrow> fs_state f = OS_authorized"
    using fold_ends [OF j] by (cases "vd_ended_reason v") simp_all
  with fold_rejects [OF j False] ok False show ?thesis by (simp add: counts_ok_def advance_fold_def)
qed

lemma streak_step:
  assumes j: "fold_judges row f m v" and ok: "streak_ok f (adopted_of ms)" and c: "counts_ok row f (adopted_of ms)"
  shows "streak_ok (advance_fold f m v) (adopted_of (ms @ [m]))"
proof (cases "sm_disposition m = SD_adopted")
  case True
  note a = fold_accepts [OF j True]
  let ?gap = "\<exists>t. fs_adopted_window_end f = Some t \<and> t < qw_start (sm_window m)"
  show ?thesis
    unfolding streak_ok_def
  proof (intro allI impI)
    fix t assume t: "fs_healthy_since (advance_fold f m v) = Some t"
    then have h: "sm_confirms_health m" using a by (auto simp: advance_fold_def split: if_splits)
    show "\<exists>ys xs. adopted_of (ms @ [m]) = ys @ xs \<and> healthy_run xs \<and> qw_end (sm_window (hd xs)) = t"
    proof (cases "fs_healthy_since f = None \<or> ?gap")
      case True
      then have "t = qw_end (sm_window m)" using t a h by (simp add: advance_fold_def)
      with h \<open>sm_disposition m = SD_adopted\<close> show ?thesis
        by (intro exI [of _ "adopted_of ms"] exI [of _ "[m]"]) (simp add: healthy_run_def)
    next
      case False
      moreover from a have "vd_healthy_since v = (if \<not> sm_confirms_health m then None
         else if fs_healthy_since f = None \<or> ?gap then Some (qw_end (sm_window m)) else fs_healthy_since f)" by blast
      ultimately have "fs_healthy_since f = vd_healthy_since v" using h by (simp only: if_False not_True_eq_False)
      then have "fs_healthy_since f = Some t" using t by (simp add: advance_fold_def)
      with ok obtain ys xs where xs: "adopted_of ms = ys @ xs" "healthy_run xs" "qw_end (sm_window (hd xs)) = t"
        unfolding streak_ok_def by blast
      then have ne: "xs \<noteq> []" by (simp add: healthy_run_def)
      with xs(1) c have "fs_adopted_window_end f = Some (qw_end (sm_window (last xs)))" by (simp add: counts_ok_def)
      with False have "qw_start (sm_window m) \<le> qw_end (sm_window (last xs))" by simp
      with xs ne h \<open>sm_disposition m = SD_adopted\<close> show ?thesis
        by (intro exI [of _ ys] exI [of _ "xs @ [m]"]) (simp add: healthy_run_def successively_append_iff)
    qed
  qed
next
  case False
  with fold_rejects [OF j False] ok show ?thesis by (simp add: streak_ok_def advance_fold_def)
qed

lemma ended_step:
  assumes j: "fold_judges row f m v" and ok: "ended_ok row f (adopted_of ms)" and c: "counts_ok row f (adopted_of ms)"
  shows "ended_ok row (advance_fold f m v) (adopted_of (ms @ [m]))"
proof (cases "vd_ended_reason v")
  case None
  then have s: "vd_session_state v = fs_state f" using fold_ends [OF j] by simp
  show ?thesis
  proof (cases "sm_disposition m = SD_adopted")
    case True
    with ok s None fold_stays [OF j] show ?thesis by (auto simp: ended_ok_def advance_fold_def)
  next
    case False
    with ok s None fold_rejects [OF j] show ?thesis by (simp add: ended_ok_def advance_fold_def)
  qed
next
  case (Some r)
  then have s: "fs_state f = OS_authorized" "map_of implied_state r = Some (vd_session_state v)" "vd_session_state v \<noteq> OS_authorized"
    using fold_ends [OF j] by simp_all
  then have n: "fs_ended_reason f = None" "fs_ending_sample_id f = None" using ok by (simp_all add: ended_ok_def)
  show ?thesis
  proof (cases "sm_disposition m = SD_adopted")
    case True
    note a = fold_accepts [OF j True]
    have acc: "sa_accepted (vd_decision v)" using a by blast
    have confirmed: "r = ''recovery_confirmed'' \<Longrightarrow> \<exists>t. vd_healthy_since v = Some t
        \<and> seconds (se_sustained_window_seconds row) \<le> qw_end (sm_window m) - t"
      using a Some by blast
    have "vd_adopted_count v = fs_adopted_count f + 1" "fs_adopted_count f = int (length (adopted_of ms))"
      using a c by (blast, simp add: counts_ok_def)
    moreover have "r = ''max_samples_exhausted'' \<Longrightarrow> se_max_samples row \<le> vd_adopted_count v" using a Some by blast
    ultimately have "r = ''max_samples_exhausted'' \<Longrightarrow> se_max_samples row \<le> 1 + int (length (adopted_of ms))" by simp
    then show ?thesis using acc confirmed s n Some True by (simp add: ended_ok_def advance_fold_def)
  next
    case False
    with fold_rejects [OF j False] s n Some show ?thesis by (simp add: ended_ok_def advance_fold_def)
  qed
qed

text \<open>A deadline or the budget ends only the observation of an active incident.\<close>

lemma unconfirmed_active:
  assumes j: "fold_judges row f m v" and t: "sm_transition m = Some ''observation_ended_unconfirmed''"
  shows "sm_subject_lifecycle m \<in> ACTIVE_INCIDENT_LIFECYCLES"
proof (cases "sm_disposition m = SD_adopted")
  case True
  with fold_accepts [OF j] show ?thesis by (auto simp: adoptable_def)
next
  case False
  let ?s = "stored_session (row_at row f) m" and ?h = "sample_of_row m (sm_outcome m, sm_required_signals_present m)"
  let ?j = "stored_input (row_at row f) m"
  from j have jj: "judge ?s ?h ?j = Inr v" by (simp add: fold_judges_def judged_at_def)
  note r = fold_rejects [OF j False]
  obtain reason where reason: "vd_ended_reason v = Some reason" "fires_of reason = Some ''observation_ended_unconfirmed''"
    using fold_ends [OF j] t by (cases "vd_ended_reason v") simp_all
  with judge_rejects [OF jj conjunct1 [OF r]] have "reason = ''deadline_expired''"
    by (auto simp: fires_of_def split: if_splits)
  with jj reason r judge_disposition(1) [OF jj] have "sa_reason (judge_decision ?s ?h ?j) = SR_deadline_expired"
    by (auto simp: judge_def judge_rejected_def Let_def bind_result_Inr_iff split: if_splits)
  then show ?thesis
    by (auto simp: judge_decision_def evaluate_sample_def sample_history_only_def active_subject_states_def stored_session_def
        domain_session_def stored_input_def split: if_splits)
qed

lemma recorded_unmoved:
  "filter (\<lambda>m. sm_transition m \<noteq> None) ms \<noteq> [] \<Longrightarrow> sm_transition m = None \<Longrightarrow> recorded_lifecycle (ms @ [m]) = recorded_lifecycle ms"
  by (subgoal_tac "ms \<noteq> []") (auto simp: recorded_lifecycle_def Let_def)

lemma lifecycle_step:
  assumes j: "fold_judges row f m v" and ok: "lifecycle_ok f ms"
    and fits: "sm_transition m = Some ''recovery_confirmed'' \<Longrightarrow> can_fire (sm_subject_lifecycle m) ''recovery_confirmed''"
  shows "lifecycle_ok (advance_fold f m v) (ms @ [m])"
proof -
  have t: "vd_transition v = sm_transition m"
    using j by (simp add: fold_judges_def stored_decision_def verdict_decision_def)
  have cases: "sm_transition m \<in> {None, Some ''recovery_confirmed'', Some ''observation_ended_unconfirmed''}"
    using fold_ends [OF j] by (auto simp: fires_of_def split: option.splits if_splits)
  show ?thesis
  proof (cases "sm_transition m")
    case None
    then show ?thesis using ok t recorded_unmoved [of ms m]
      by (cases "fs_expected_lifecycle f"; cases "recorded_lifecycle ms") (simp_all add: lifecycle_ok_def advance_fold_def)
  next
    case (Some u)
    have r: "recorded_lifecycle (ms @ [m]) = Some (fired_or_same (sm_subject_lifecycle m) u)"
      using Some by (simp add: recorded_lifecycle_def Let_def)
    show ?thesis
    proof (cases "u = ''recovery_confirmed''")
      case True
      have "fired_or_same (sm_subject_lifecycle m) u = L_resolved"
        using fits Some True by (cases "sm_subject_lifecycle m") (auto simp: fired_or_same_def can_fire_iff machine_eval INCIDENT_LIFECYCLE_def)
      with r Some True t show ?thesis by (simp add: lifecycle_ok_def advance_fold_def)
    next
      case False
      with cases Some have u: "u = ''observation_ended_unconfirmed''" by simp
      have "sm_subject_lifecycle m \<in> {L_open, L_observing_recovery}"
        using unconfirmed_active [OF j] Some u by (simp add: ACTIVE_INCIDENT_LIFECYCLES_def)
      then have "fired_or_same (sm_subject_lifecycle m) u = L_open"
        by (auto simp: u fired_or_same_def machine_eval INCIDENT_LIFECYCLE_def)
      with r Some u t show ?thesis by (simp add: lifecycle_ok_def advance_fold_def)
    qed
  qed
qed

end
