(* ===== verification/Observation_Safety.thy ===== *)
theory Observation_Safety
  imports Observation_Trace
begin

section \<open>What holds of observation sessions in every reachable state\<close>

text \<open>
  \<open>session_ok\<close> relates a session row to its samples and endings: the stored decisions are those of the fold,
  the row's watermark is the fold's, and the session is authorized with no ending or ended with exactly
  one that fits. It holds initially and every \<open>obs_change\<close> keeps it, so it holds in every state that
  \<open>observed_step\<close> reaches; the properties of the sampling loop follow.
\<close>

definition same_watermark :: "session_row \<Rightarrow> fold_state \<Rightarrow> bool" where
  "same_watermark s f \<longleftrightarrow> se_adopted_sequence s = fs_adopted_sequence f \<and> se_adopted_window_end s = fs_adopted_window_end f
     \<and> se_adopted_count s = fs_adopted_count f \<and> se_healthy_since s = fs_healthy_since f"

definition ending_of :: "session_row \<Rightarrow> fold_state \<Rightarrow> ending_row \<Rightarrow> bool" where
  "ending_of s f en \<longleftrightarrow> se_ended_reason s = Some (en_ended_reason en)
     \<and> map_of implied_state (en_ended_reason en) = Some (se_state s) \<and> transition_fits (ending_tuple en)
     \<and> (fs_ending_sample_id f = None \<or> en_sample_id en = fs_ending_sample_id f)
     \<and> (fs_ended_reason f = None \<longrightarrow> en_ended_reason en \<in> {''authority_revoked'', ''scope_suspended'', ''deadline_expired''}
          \<and> (en_ended_reason en = ''deadline_expired'' \<longrightarrow> se_deadline_at s \<le> en_recorded_at en))"

definition endings_ok :: "session_row \<Rightarrow> fold_state \<Rightarrow> ending_row list \<Rightarrow> bool" where
  "endings_ok s f ens \<longleftrightarrow> (if se_state s = OS_authorized then se_ended_reason s = None \<and> ens = [] else \<exists>en. ens = [en] \<and> ending_of s f en)
     \<and> (fs_ended_reason f \<noteq> None \<longrightarrow> fs_ended_reason f = se_ended_reason s)
     \<and> (se_active_sample_job_id s \<noteq> None \<longrightarrow> se_state s = OS_authorized)"

definition sample_ok :: "env \<Rightarrow> db \<Rightarrow> session_row \<Rightarrow> sample_row \<Rightarrow> bool" where
  "sample_ok w db s m \<longleftrightarrow> (scope_moved s m \<longrightarrow> sm_scope_suspended m)
     \<and> sm_readings_consistent m = (missing_required_signals (required_signals_of w (se_health_profile_revision s) db) (sm_outcome m)
         (sm_required_signals_present m) (ok_signals (sm_window m) (sm_readings m)) = [])
     \<and> raw_mismatches w (sm_readings m) = []"

definition fold_ok :: "session_row \<Rightarrow> fold_state \<Rightarrow> sample_row list \<Rightarrow> bool" where
  "fold_ok s f ms \<longleftrightarrow> decisions_hold s fold_start ms \<and> counts_ok s f (adopted_of ms) \<and> streak_ok f (adopted_of ms)
     \<and> ended_ok s f (adopted_of ms) \<and> lifecycle_ok f ms"

definition session_ok :: "env \<Rightarrow> db \<Rightarrow> sample_row list \<Rightarrow> ending_row list \<Rightarrow> session_row \<Rightarrow> bool" where
  "session_ok w db ms ens s \<longleftrightarrow> fold_ok s (trace s ms) ms \<and> same_watermark s (trace s ms) \<and> endings_ok s (trace s ms) ens
     \<and> profile_known s db \<and> list_all (sample_ok w db s) ms"

lemma fold_ok_frozen:
  assumes "frozen_same s s'" and "fold_ok s f ms"
  shows "fold_ok s' f ms"
proof -
  from assms(1) have "counts_ok s' f as = counts_ok s f as" "ended_ok s' f as = ended_ok s f as" for as
    by (simp_all add: counts_ok_def ended_ok_def frozen_same_def adoptable_def [abs_def])
  with assms trace_frozen(2) [OF assms(1)] show ?thesis by (simp add: fold_ok_def)
qed

lemma trace_step_frozen: "frozen_same s s' \<Longrightarrow> trace_step s' = trace_step s"
  by (simp add: fun_eq_iff trace_step_def judged_at_frozen)

lemma sample_ok_frozen: "frozen_same s s' \<Longrightarrow> sample_ok w db s' = sample_ok w db s"
  by (simp add: fun_eq_iff sample_ok_def frozen_same_def scope_moved_def)

lemma profile_known_frozen: "frozen_same s s' \<Longrightarrow> profile_known s' db = profile_known s db"
  by (simp add: profile_known_def frozen_same_def)

subsection \<open>Every change keeps the invariant of a session\<close>

lemma fresh_ok:
  assumes "fresh_session s" and "profile_known s db"
  shows "session_ok w db [] [] s"
  using assms
  by (simp add: session_ok_def fold_ok_def fold_start_def counts_ok_def streak_ok_def ended_ok_def lifecycle_ok_def same_watermark_def
      endings_ok_def fresh_session_def)

lemma job_ok:
  assumes ok: "session_ok w db ms ens s" and f: "frozen_same s s'" and "watermark_same s s'" "se_state s' = se_state s"
    "se_ended_reason s' = se_ended_reason s" "se_active_sample_job_id s' = se_active_sample_job_id s"
  shows "session_ok w db ms ens s'"
proof -
  have "ending_of s' g = ending_of s g" for g
    using assms by (simp add: fun_eq_iff ending_of_def frozen_same_def)
  with assms show ?thesis
    by (simp add: session_ok_def trace_frozen [OF f] fold_ok_frozen sample_ok_frozen profile_known_frozen endings_ok_def
        same_watermark_def watermark_same_def)
qed

lemma ended_session_ok:
  assumes ok: "session_ok w db ms ens s" and a: "se_state s = OS_authorized"
    and r: "en_ended_reason en \<in> {''authority_revoked'', ''scope_suspended'', ''deadline_expired''}" "en_sample_id en = None"
    and fits: "transition_fits (ending_tuple en)" and late: "en_ended_reason en = ''deadline_expired'' \<longrightarrow> se_deadline_at s \<le> en_recorded_at en"
    and s': "s' = end_session_row (ends_as (en_ended_reason en)) (en_ended_reason en) None s"
  shows "session_ok w db ms (ens @ [en]) s'"
proof -
  let ?f = "trace s ms"
  have f: "frozen_same s s'" "watermark_same s s'" "se_deadline_at s' = se_deadline_at s"
    unfolding s' by (simp, simp, simp add: end_session_row_def)
  have n: "ens = []" "fs_ended_reason ?f = None" using ok a by (auto simp: session_ok_def endings_ok_def)
  then have "fs_ending_sample_id ?f = None" using ok by (simp add: session_ok_def fold_ok_def ended_ok_def)
  moreover have "map_of implied_state (en_ended_reason en) = Some (ends_as (en_ended_reason en))" "ends_as (en_ended_reason en) \<noteq> OS_authorized"
    using r by (auto simp: ends_as_def implied_state_def)
  ultimately have "endings_ok s' ?f (ens @ [en])"
    using n r fits late f(3) by (simp add: endings_ok_def ending_of_def s')
  with ok f show ?thesis
    by (simp add: session_ok_def trace_frozen [OF f(1)] fold_ok_frozen sample_ok_frozen profile_known_frozen same_watermark_def
        watermark_same_def)
qed

text \<open>A sample under an authorized session: the row is the one of the fold.\<close>

lemma row_at_same: "same_watermark s f \<Longrightarrow> se_state s = fs_state f \<Longrightarrow> row_at s f = s"
  by (simp add: row_at_def same_watermark_def)

lemma fold_ok_step:
  assumes ok: "fold_ok s f ms" and f: "f = trace s ms" and j: "fold_judges s f m v"
    and fits: "sm_transition m = Some ''recovery_confirmed'' \<Longrightarrow> can_fire (sm_subject_lifecycle m) ''recovery_confirmed''"
  shows "fold_ok s (advance_fold f m v) (ms @ [m])"
  using ok j counts_step [OF j] streak_step [OF j] ended_step [OF j] lifecycle_step [OF j _ fits]
  by (auto simp: fold_ok_def decisions_snoc fold_judges_def f trace_def)

lemma sampled_fits:
  assumes j: "row_judged row m v" and e: "sample_endings row m v ens" and t: "sm_transition m = Some ''recovery_confirmed''"
  shows "can_fire (sm_subject_lifecycle m) ''recovery_confirmed''"
proof -
  from j have jj: "judge (stored_session row m) (sample_of_row m (sm_outcome m, sm_required_signals_present m)) (stored_input row m) = Inr v"
    and tr: "vd_transition v = sm_transition m"
    by (simp_all add: row_judged_def stored_decision_def verdict_decision_def)
  from judge_ends [OF jj] tr t have r: "vd_ended_reason v = Some ''recovery_confirmed''"
    by (auto simp: verdict_ends_def fires_of_def split: option.splits if_splits)
  with e obtain en where en: "en_ended_reason en = ''recovery_confirmed''" "transition_fits (ending_tuple en)"
    "en_lifecycle_before en = sm_subject_lifecycle m" by (auto simp: sample_endings_def)
  then show ?thesis by (auto simp: transition_fits_def ending_tuple_def split: if_splits)
qed

lemma sampled_authorized:
  assumes ok: "session_ok w db ms ens s" and a: "se_state s = OS_authorized" and j: "row_judged s m v" and r: "row_after s v s'"
    and e: "sample_endings s m v ens'" and m: "sample_ok w db s m"
  shows "session_ok w db (ms @ [m]) (ens @ ens') s'"
proof -
  let ?f = "trace s ms" and ?g = "trace s (ms @ [m])"
  from ok a have n: "ens = []" "fs_ended_reason ?f = None" "se_ended_reason s = None" by (auto simp: session_ok_def endings_ok_def)
  with ok have st: "fs_state ?f = OS_authorized" "fs_ending_sample_id ?f = None" by (simp_all add: session_ok_def fold_ok_def ended_ok_def)
  with ok a have "row_at s ?f = s" by (intro row_at_same) (simp_all add: session_ok_def)
  with j have fj: "fold_judges s ?f m v" by (simp add: fold_judges_def judged_at_def row_judged_def)
  then have g: "trace_step s ?f m = advance_fold ?f m v" by (simp add: trace_step_def fold_judges_def)
  from r have fr: "frozen_same s s'" by (simp add: row_after_def)
  have fold: "fold_ok s' ?g (ms @ [m])"
    using ok fold_ok_step [OF _ refl fj sampled_fits [OF j e]] by (simp add: session_ok_def g fold_ok_frozen [OF fr])
  have wm: "same_watermark s' ?g" using r by (simp add: same_watermark_def row_after_def g advance_fold_def)
  have "endings_ok s' ?g (ens @ ens')"
  proof (cases "vd_ended_reason v")
    case None
    with fold_ends [OF fj] have "vd_session_state v = OS_authorized" by (simp add: st)
    with None r e n show ?thesis by (simp add: endings_ok_def row_after_def sample_endings_def g advance_fold_def)
  next
    case (Some reason)
    with e obtain en where en: "ens' = [en]" "en_ended_reason en = reason" "transition_fits (ending_tuple en)"
      "en_sample_id en = (if sa_accepted (vd_decision v) then Some (sm_sample_id m) else None)" by (auto simp: sample_endings_def)
    from fold_ends [OF fj] Some have "map_of implied_state reason = Some (vd_session_state v)" "vd_session_state v \<noteq> OS_authorized" by simp_all
    with Some r en n st show ?thesis
      by (simp add: endings_ok_def ending_of_def row_after_def g advance_fold_def)
  qed
  with fold wm ok m show ?thesis
    by (simp add: session_ok_def trace_frozen(1) [OF fr] trace_step_frozen [OF fr] sample_ok_frozen [OF fr] profile_known_frozen [OF fr])
qed

text \<open>A sample that comes after the end of its session has no valid lease, and moves nothing.\<close>

lemma late_verdict:
  assumes j: "judge (stored_session x m) h (stored_input x m) = Inr v" and l: "\<not> sm_lease_valid m"
  shows "vd_decision v = sample_history_only SR_lease_revoked \<and> \<not> vd_healthy v \<and> vd_health_basis v = HB_not_adopted
    \<and> vd_transition v = None \<and> vd_ended_reason v = None \<and> vd_session_state v = se_state x
    \<and> vd_adopted_sequence v = se_adopted_sequence x \<and> vd_adopted_window_end v = se_adopted_window_end x
    \<and> vd_adopted_count v = se_adopted_count x \<and> vd_healthy_since v = se_healthy_since x"
proof -
  have "\<not> jg_lease_valid (stored_input x m)" using l by (simp add: stored_input_def)
  note u = judge_unleased [OF this j]
  then have n: "\<not> sa_accepted (vd_decision v)" by blast
  have x: "os_state (stored_session x m) = se_state x" "os_adopted_sequence (stored_session x m) = se_adopted_sequence x"
    "os_adopted_window_end (stored_session x m) = se_adopted_window_end x" "jg_adopted_count (stored_input x m) = se_adopted_count x"
    "jg_healthy_since (stored_input x m) = se_healthy_since x"
    by (simp_all add: stored_session_def domain_session_def stored_input_def)
  from judge_ends [OF j] u have "vd_session_state v = se_state x" by (simp add: verdict_ends_def x)
  with u judge_rejects [OF j n, unfolded x] show ?thesis by blast
qed

lemma sampled_late:
  assumes ok: "session_ok w db ms ens s" and a: "se_state s \<noteq> OS_authorized" and j: "row_judged s m v" and r: "row_after s v s'"
    and e: "sample_endings s m v ens'" and m: "sample_ok w db s m"
  shows "session_ok w db (ms @ [m]) (ens @ ens') s'"
proof -
  let ?f = "trace s ms" and ?g = "trace s (ms @ [m])"
  let ?h = "sample_of_row m (sm_outcome m, sm_required_signals_present m)"
  from ok a have "se_active_sample_job_id s = None" by (auto simp: session_ok_def endings_ok_def)
  with j have l: "\<not> sm_lease_valid m" by (auto simp: row_judged_def)
  from j have jj: "judge (stored_session s m) ?h (stored_input s m) = Inr v" and dec: "stored_decision m = verdict_decision v"
    by (simp_all add: row_judged_def)
  note v = late_verdict [OF jj l]
  obtain v' where jj': "judge (stored_session (row_at s ?f) m) ?h (stored_input (row_at s ?f) m) = Inr v'" using judge_total by blast
  note v' = late_verdict [OF jj' l]
  have "stored_decision m = verdict_decision v'" using v v' by (simp add: dec verdict_decision_def)
  with jj' have fj: "fold_judges s ?f m v'" by (simp add: fold_judges_def judged_at_def)
  have keep: "advance_fold ?f m v' = ?f"
    using v' by (simp add: advance_fold_def row_at_def sample_history_only_def)
  from fj have g: "trace_step s ?f m = advance_fold ?f m v'" by (simp add: trace_step_def fold_judges_def)
  have tr: "sm_transition m = None" using v dec by (simp add: stored_decision_def verdict_decision_def)
  from r have fr: "frozen_same s s'" by (simp add: row_after_def)
  have fold: "fold_ok s' ?g (ms @ [m])"
    using ok fold_ok_step [OF _ refl fj] tr by (simp add: session_ok_def g fold_ok_frozen [OF fr])
  have same: "watermark_same s s'" "se_state s' = se_state s" "se_ended_reason s' = se_ended_reason s" "se_active_sample_job_id s' = None"
    using r v \<open>se_active_sample_job_id s = None\<close>
    by (simp_all add: row_after_def watermark_same_def sample_history_only_def)
  have "ens' = []" using e v by (simp add: sample_endings_def)
  have eo: "ending_of s' ?f = ending_of s ?f" using same fr by (simp add: fun_eq_iff ending_of_def frozen_same_def)
  have "endings_ok s' ?g (ens @ ens')"
    using ok a same by (simp add: session_ok_def endings_ok_def g keep \<open>ens' = []\<close> eo)
  moreover have "same_watermark s' ?g" using ok same(1) by (simp add: session_ok_def same_watermark_def watermark_same_def g keep)
  ultimately show ?thesis
    using ok fold m by (simp add: session_ok_def trace_frozen(1) [OF fr] trace_step_frozen [OF fr] sample_ok_frozen [OF fr] profile_known_frozen [OF fr])
qed

lemma sampled_ok:
  assumes "session_ok w db ms ens s" and "row_judged s m v" and "row_after s v s'" and "sample_endings s m v ens'" and "sample_ok w db s m"
  shows "session_ok w db (ms @ [m]) (ens @ ens') s'"
  using sampled_authorized [OF assms(1) _ assms(2-5)] sampled_late [OF assms(1) _ assms(2-5)] by blast

lemma profiles_ok:
  assumes ok: "session_ok w db ms ens s" and p: "db_profiles db' = db_profiles db @ ps"
  shows "session_ok w db' ms ens s"
proof -
  have k: "profile_known s db" using ok by (simp add: session_ok_def)
  then have "profile_known s db'" by (auto simp: profile_known_def p find_row_append split: option.split)
  moreover have "required_signals_of w (se_health_profile_revision s) db' = required_signals_of w (se_health_profile_revision s) db"
    using k by (auto simp: profile_known_def required_signals_of_def p find_row_append split: option.split)
  then have "sample_ok w db' s = sample_ok w db s" by (simp add: fun_eq_iff sample_ok_def)
  ultimately show ?thesis using ok by (simp add: session_ok_def)
qed

subsection \<open>The invariant of the database\<close>

definition references_ok :: "db \<Rightarrow> bool" where
  "references_ok db \<longleftrightarrow> (\<forall>m \<in> set (db_samples db). find_session (sm_session_id m) db \<noteq> None)
     \<and> (\<forall>en \<in> set (db_endings db). find_session (en_session_id en) db \<noteq> None)"

definition one_authorized :: "db \<Rightarrow> bool" where
  "one_authorized db \<longleftrightarrow> (\<forall>s \<in> set (db_sessions db). \<forall>x \<in> set (db_sessions db). se_state s = OS_authorized \<and> se_state x = OS_authorized
     \<and> se_incident_id s = se_incident_id x \<longrightarrow> s = x)"

definition one_identity :: "db \<Rightarrow> bool" where
  "one_identity db \<longleftrightarrow> (\<forall>s \<in> set (db_sessions db). \<forall>x \<in> set (db_sessions db). se_target_id s = se_target_id x \<longrightarrow>
     identity_of (se_target s) = identity_of (se_target x))"

definition obs_ok :: "env \<Rightarrow> db \<Rightarrow> bool" where
  "obs_ok w db \<longleftrightarrow> session_ids_distinct db \<and> references_ok db \<and> one_authorized db \<and> one_identity db
     \<and> (\<forall>s \<in> set (db_sessions db). session_ok w db (samples_of (se_session_id s) db) (endings_of (se_session_id s) db) s)"

lemma session_ok_profiles:
  assumes "db_profiles db' = db_profiles db"
  shows "session_ok w db' = session_ok w db"
proof -
  have "required_signals_of w r db' = required_signals_of w r db" for r
    using assms by (simp add: required_signals_of_def cong: option.case_cong)
  with assms show ?thesis by (simp add: fun_eq_iff session_ok_def profile_known_def sample_ok_def [abs_def])
qed

lemma obs_ok_same: "obs_same db db' \<Longrightarrow> obs_ok w db' = obs_ok w db"
  by (simp add: obs_ok_def obs_same_def references_ok_def one_authorized_def one_identity_def samples_of_def endings_of_def
      session_ok_profiles [of db' db])

lemma obs_ok_found:
  "obs_ok w db \<Longrightarrow> find_session k db = Some s \<Longrightarrow> session_ok w db (samples_of k db) (endings_of k db) s"
  by (auto simp: obs_ok_def dest!: find_row_SomeD)

lemma references_none:
  assumes "references_ok db" and "find_session k db = None"
  shows "samples_of k db = []" "endings_of k db = []"
  using assms by (auto simp: references_ok_def samples_of_def endings_of_def filter_empty_conv)

text \<open>A write of one session row: the rows are the new one and the others.\<close>

lemma updated_sessions:
  assumes d: "session_ids_distinct db" and row: "find_session k db = Some row" and x: "x \<in> set (db_sessions (update_session k f db))"
  obtains (written) "x = f row" | (other) "x \<in> set (db_sessions db)" "se_session_id x \<noteq> k"
proof -
  from x obtain y where y: "y \<in> set (db_sessions db)" "x = (if se_session_id y = k then f y else y)"
    by (auto simp: update_session_def set_update_where)
  show thesis
  proof (cases "se_session_id y = k")
    case True
    with find_row_distinct [OF d y(1)] row have "y = row" by (metis option.inject)
    with y True show thesis by (intro that(1)) simp
  qed (use y that(2) in simp)
qed

lemma update_where_ids: "(\<And>s. se_session_id (f s) = se_session_id s) \<Longrightarrow> session_ids_distinct (update_session k f db) = session_ids_distinct db"
  by (simp add: update_session_def map_update_where)

text \<open>A change of one session with its new samples and endings.\<close>

lemma session_changed_ids:
  assumes ok: "obs_ok w db" and row: "find_session k db = Some row" and f: "frozen_same row (f row)"
    and ids: "\<And>s. se_session_id (f s) = se_session_id s"
    and st: "se_state (f row) = OS_authorized \<Longrightarrow> se_state row = OS_authorized"
    and db': "obs_same (update_session k f db\<lparr>db_samples := db_samples db @ ms, db_endings := db_endings db @ ens\<rparr>) db'"
    and ms: "\<And>m. m \<in> set ms \<Longrightarrow> sm_session_id m = k" and ens: "\<And>en. en \<in> set ens \<Longrightarrow> en_session_id en = k"
    and new: "session_ok w db (samples_of k db @ ms) (endings_of k db @ ens) (f row)"
  shows "obs_ok w db'"
proof -
  let ?db1 = "update_session k f db\<lparr>db_samples := db_samples db @ ms, db_endings := db_endings db @ ens\<rparr>"
  have d: "session_ids_distinct db" and ref: "references_ok db" and one: "one_authorized db" and idn: "one_identity db"
    using ok by (simp_all add: obs_ok_def)
  have k: "se_session_id row = k" "row \<in> set (db_sessions db)" using find_row_SomeD [OF row] by auto
  have fs: "find_session j ?db1 \<noteq> None \<longleftrightarrow> find_session j db \<noteq> None" for j
    using find_session_update [of f j k db] ids by simp
  have s1: "db_sessions ?db1 = db_sessions (update_session k f db)" by simp
  have so: "session_ok w ?db1 = session_ok w db" by (rule session_ok_profiles) (simp add: update_session_def)
  note cases = updated_sessions [OF d row]
  have keep: "se_incident_id (f row) = se_incident_id row" "se_target_id (f row) = se_target_id row" "se_target (f row) = se_target row"
    using f by (simp_all add: frozen_same_def)
  have "obs_ok w ?db1"
    unfolding obs_ok_def
  proof (intro conjI ballI)
    show "session_ids_distinct ?db1" using d update_where_ids [of f k db] ids by simp
    show "references_ok ?db1"
      unfolding references_ok_def fs using ref ms ens row by (auto simp: references_ok_def)
    show "one_authorized ?db1"
      unfolding one_authorized_def s1
    proof (intro ballI impI)
      fix s x assume s: "s \<in> set (db_sessions (update_session k f db))" and x: "x \<in> set (db_sessions (update_session k f db))"
        and a: "se_state s = OS_authorized \<and> se_state x = OS_authorized \<and> se_incident_id s = se_incident_id x"
      from s x show "s = x"
        by (elim cases) (use a one k st keep in \<open>auto simp: one_authorized_def\<close>)
    qed
    show "one_identity ?db1"
      unfolding one_identity_def s1
    proof (intro ballI impI)
      fix s x assume s: "s \<in> set (db_sessions (update_session k f db))" and x: "x \<in> set (db_sessions (update_session k f db))"
        and a: "se_target_id s = se_target_id x"
      have "\<exists>y \<in> set (db_sessions db). se_target_id y = se_target_id x \<and> se_target y = se_target x"
        if "x \<in> set (db_sessions (update_session k f db))" for x
        using that by (elim cases) (use k keep in force)+
      from this [OF s] this [OF x] a idn show "identity_of (se_target s) = identity_of (se_target x)"
        unfolding one_identity_def by metis
    qed
    fix x assume "x \<in> set (db_sessions ?db1)"
    then have "x \<in> set (db_sessions (update_session k f db))" by simp
    then consider (written) "x = f row" | (other) "x \<in> set (db_sessions db)" "se_session_id x \<noteq> k"
      by (elim cases)
    then show "session_ok w ?db1 (samples_of (se_session_id x) ?db1) (endings_of (se_session_id x) ?db1) x"
    proof cases
      case written
      have "samples_of k ?db1 = samples_of k db @ ms" "endings_of k ?db1 = endings_of k db @ ens"
        using ms ens by (auto simp: samples_of_def endings_of_def filter_id_conv update_session_def)
      with written new ids k show ?thesis by (simp add: so)
    next
      case other
      then have "samples_of (se_session_id x) ?db1 = samples_of (se_session_id x) db" "endings_of (se_session_id x) ?db1 = endings_of (se_session_id x) db"
        using ms ens by (auto simp: samples_of_def endings_of_def filter_empty_conv update_session_def)
      with other ok show ?thesis by (simp add: so obs_ok_def)
    qed
  qed
  with db' show ?thesis by (simp add: obs_ok_same)
qed

lemma session_changed:
  assumes ok: "obs_ok w db" and row: "find_session k db = Some row" and f: "frozen_same row (f row)"
    and st: "se_state (f row) = OS_authorized \<Longrightarrow> se_state row = OS_authorized"
    and db': "obs_same (update_session k f db\<lparr>db_samples := db_samples db @ ms, db_endings := db_endings db @ ens\<rparr>) db'"
    and ms: "\<And>m. m \<in> set ms \<Longrightarrow> sm_session_id m = k" and ens: "\<And>en. en \<in> set ens \<Longrightarrow> en_session_id en = k"
    and new: "session_ok w db (samples_of k db @ ms) (endings_of k db @ ens) (f row)"
  shows "obs_ok w db'"
proof -
  define g where "g s = (if s = row then f row else s)" for s
  have d: "session_ids_distinct db" using ok by (simp add: obs_ok_def)
  have "f s = g s" if "s \<in> set (db_sessions db)" "se_session_id s = k" for s
    using find_row_distinct [OF d that(1)] row that(2) by (simp add: g_def)
  then have "update_where (\<lambda>s. se_session_id s = k) f (db_sessions db) = update_where (\<lambda>s. se_session_id s = k) g (db_sessions db)"
    by (simp add: update_where_def)
  then have "update_session k f db = update_session k g db" by (simp add: update_session_def)
  moreover have "g row = f row" "\<And>s. se_session_id (g s) = se_session_id s" using f by (simp_all add: g_def frozen_same_def)
  ultimately show ?thesis
    by (intro session_changed_ids [OF ok row, where f = g and ms = ms and ens = ens]) (use assms in simp_all)
qed

lemma obs_change_ok:
  assumes "obs_change w db db'" and ok: "obs_ok w db"
  shows "obs_ok w db'"
  using assms(1)
proof cases
  case unchanged
  then show ?thesis using ok by (simp add: obs_ok_same)
next
  case (profiled ps)
  let ?db1 = "db\<lparr>db_profiles := db_profiles db'\<rparr>"
  have "session_ok w ?db1 ms ens s" if "session_ok w db ms ens s" for ms ens s
    using profiles_ok [OF that, of ?db1] profiled(2) by simp
  moreover have "samples_of k ?db1 = samples_of k db" "endings_of k ?db1 = endings_of k db" for k
    by (simp_all add: samples_of_def endings_of_def)
  moreover have "references_ok ?db1 = references_ok db" "one_authorized ?db1 = one_authorized db" "one_identity ?db1 = one_identity db"
    by (simp_all add: references_ok_def one_authorized_def one_identity_def)
  ultimately have "obs_ok w ?db1" using ok by (simp add: obs_ok_def)
  with profiled(1) show ?thesis by (simp add: obs_ok_same)
next
  case (created s)
  let ?db1 = "db\<lparr>db_sessions := db_sessions db @ [s]\<rparr>"
  have none: "samples_of (se_session_id s) db = []" "endings_of (se_session_id s) db = []"
    using references_none created(2) ok by (simp_all add: obs_ok_def)
  have so: "session_ok w ?db1 = session_ok w db" by (rule session_ok_profiles) simp
  have same: "samples_of k ?db1 = samples_of k db" "endings_of k ?db1 = endings_of k db" for k
    by (simp_all add: samples_of_def endings_of_def)
  have fs: "find_session j db \<noteq> None \<Longrightarrow> find_session j ?db1 \<noteq> None" for j by (auto simp: find_row_append)
  have "obs_ok w ?db1"
    unfolding obs_ok_def so same
  proof (intro conjI)
    show "session_ids_distinct ?db1" using ok created(2) by (auto simp: obs_ok_def find_row_None_iff)
    show "references_ok ?db1" using ok fs by (simp add: obs_ok_def references_ok_def)
    show "one_authorized ?db1" using ok created(3) by (auto simp: obs_ok_def one_authorized_def has_authorized_def)
    have i: "one_identity db" using ok by (simp add: obs_ok_def)
    show "one_identity ?db1" unfolding one_identity_def
    proof (intro ballI impI)
      fix a b assume "a \<in> set (db_sessions ?db1)" "b \<in> set (db_sessions ?db1)" and t: "se_target_id a = se_target_id b"
      then consider "a = b" | "a \<in> set (db_sessions db)" "b \<in> set (db_sessions db)" | "a \<in> set (db_sessions db)" "b = s"
        | "b \<in> set (db_sessions db)" "a = s" by auto
      then show "identity_of (se_target a) = identity_of (se_target b)"
      proof cases
        case 2
        then show ?thesis using i t unfolding one_identity_def by blast
      next
        case 3
        then show ?thesis using created(6) t by blast
      next
        case 4
        then have "identity_of (se_target b) = identity_of (se_target s)" using created(6) t by auto
        then show ?thesis by (simp only: \<open>a = s\<close>)
      qed simp
    qed
    show "\<forall>x \<in> set (db_sessions ?db1). session_ok w db (samples_of (se_session_id x) db) (endings_of (se_session_id x) db) x"
      using ok none fresh_ok [OF created(4,5)] by (simp add: obs_ok_def)
  qed
  with created(1) show ?thesis by (simp add: obs_ok_same)
next
  case (job k f row)
  show ?thesis
    by (rule session_changed [where k = k and f = f and row = row and ms = "[]" and ens = "[]", OF ok job(2,3)])
      (use job obs_ok_found [OF ok job(2)] in \<open>auto simp: obs_same_def update_session_def intro: job_ok\<close>)
next
  case (ended en k row)
  show ?thesis
    by (rule session_changed [where k = k and row = row and ms = "[]" and ens = "[en]", OF ok ended(2)])
      (use ended ended_session_ok [OF obs_ok_found [OF ok ended(2)] ended(3,5-8) refl] in
        \<open>auto simp: ends_as_def implied_state_def obs_same_def update_session_def\<close>)
next
  case (sampled ens m k f row v)
  have m: "sm_session_id m = k" "\<And>en. en \<in> set ens \<Longrightarrow> en_session_id en = k"
    using find_row_key [OF sampled(2)] sampled(3,5) by (auto simp: row_judged_def sample_endings_def split: option.splits)
  have fr: "frozen_same row (f row)" using sampled(4) by (simp add: row_after_def)
  have st: "se_state (f row) = OS_authorized \<Longrightarrow> se_state row = OS_authorized"
    using judge_ends sampled(3,4)
    by (fastforce simp: row_judged_def row_after_def verdict_ends_def stored_session_def domain_session_def split: option.splits)
  have mo: "sample_ok w db row m" using sampled(3,6,7) by (simp add: sample_ok_def row_judged_def)
  note new = sampled_ok [OF obs_ok_found [OF ok sampled(2)] sampled(3-5) mo]
  show ?thesis
    by (rule session_changed [where k = k and f = f and row = row and ms = "[m]" and ens = ens, OF ok sampled(2) fr])
      (use sampled m new st in simp_all)
qed

subsection \<open>Reachable states\<close>

definition observed :: "env \<Rightarrow> db \<Rightarrow> bool" where
  "observed w db \<longleftrightarrow> (observed_step w)\<^sup>*\<^sup>* initial_db db"

lemma obs_changes_ok: "obs_changes w db db' \<Longrightarrow> obs_ok w db \<Longrightarrow> obs_ok w db'"
  by (induction rule: rtranclp_induct) (auto intro: obs_change_ok)

lemma observed_ok: "observed w db \<Longrightarrow> obs_ok w db"
  unfolding observed_def
proof (induction rule: rtranclp_induct)
  case base
  show ?case by (simp add: obs_ok_def references_ok_def one_authorized_def one_identity_def initial_db_def)
next
  case (step x y)
  then show ?case by (meson obs_changes_ok observed_refines obs_ok_def)
qed

lemma observed_reachable: "observed w db \<Longrightarrow> reachable db"
  unfolding observed_def reachable_def
  by (induction rule: rtranclp_induct) (auto intro: observed_store rtranclp.rtrancl_into_rtrancl)

lemma observed_next: "observed w db \<Longrightarrow> observed_step w db db' \<Longrightarrow> observed w db'"
  unfolding observed_def by (rule rtranclp.rtrancl_into_rtrancl)

lemma observed_session:
  "observed w db \<Longrightarrow> s \<in> set (db_sessions db) \<Longrightarrow>
     session_ok w db (samples_of (se_session_id s) db) (endings_of (se_session_id s) db) s"
  using observed_ok by (simp add: obs_ok_def)

subsection \<open>Replaying\<close>

text \<open>A sample the report counts as matching, beyond its decision.\<close>

definition replayable :: "session_row \<Rightarrow> sample_row \<Rightarrow> bool" where
  "replayable s m \<longleftrightarrow> (sm_scope_suspended m \<longrightarrow> scope_moved s m) \<and> (sm_readings_consistent m \<or> sm_reason m = SR_readings_inconsistent)"

lemma replay_same_input:
  assumes m: "sample_ok w db s m" and d: "\<not> deadline_mismatch s m" and missing: "(missing = []) = sm_readings_consistent m"
  shows "replay_input s f m missing = stored_input (row_at s f) m"
  using assms by (auto simp: replay_input_def stored_input_def row_at_def sample_ok_def)

lemma fold_replays:
  assumes "decisions_hold s f ms" and "\<And>m. m \<in> set ms \<Longrightarrow> sample_ok w db s m \<and> \<not> deadline_mismatch s m" and "same_world w e"
  shows "\<exists>rs. fold_samples e s (required_signals_of w (se_health_profile_revision s) db) (\<lambda>k. None) f ms = Inr (foldl (trace_step s) f ms, rs)
    \<and> list_all (\<lambda>r. rp_stored r = rp_replayed r) rs \<and> (list_all replay_matches rs \<longleftrightarrow> list_all (replayable s) ms)"
  using assms(1,2)
proof (induction ms arbitrary: f)
  case (Cons m ms)
  let ?req = "required_signals_of w (se_health_profile_revision s) db"
  let ?missing = "missing_required_signals ?req (sm_outcome m) (sm_required_signals_present m) (ok_signals (sm_window m) (sm_readings m))"
  from Cons.prems(1) obtain v where v: "judged_at s f m = Inr v" "stored_decision m = verdict_decision v"
    and rest: "decisions_hold s (advance_fold f m v) ms" by (cases "judged_at s f m") auto
  have m: "sample_ok w db s m" "\<not> deadline_mismatch s m" using Cons.prems(2) by simp_all
  then have c: "(?missing = []) = sm_readings_consistent m" by (simp add: sample_ok_def)
  have ses: "domain_session s (sm_incident_control_generation m) (sm_incident_observation_generation m) (fs_state f)
      (fs_adopted_sequence f) (fs_adopted_window_end f) (Some (sm_job_id m)) = stored_session (row_at s f) m"
    by (simp add: domain_session_def stored_session_def row_at_def)
  have "judge (stored_session (row_at s f) m) (sample_of_row m (sm_outcome m, sm_required_signals_present m)) (replay_input s f m ?missing) = Inr v"
    using v(1) by (simp add: replay_same_input [OF m c] judged_at_def)
  then obtain r where r: "fold_step e s ?req (\<lambda>k. None) f m = Inr (advance_fold f m v, r)"
    and rr: "rp_stored r = stored_decision m" "rp_replayed r = verdict_decision v" "rp_raw_mismatches r = raw_mismatches e (sm_readings m)"
      "rp_signal_mismatches r = ?missing" "rp_stored_outcome r = rp_replayed_outcome r" "rp_deadline_mismatch r = deadline_mismatch s m"
      "rp_scope_mismatch r = (scope_moved s m \<noteq> sm_scope_suspended m)"
    by (simp add: fold_step_def ses)
  have raw: "raw_mismatches e (sm_readings m) = []"
    using m(1) assms(3) by (simp add: sample_ok_def raw_mismatches_def same_world_def cong: option.case_cong)
  have eq: "rp_stored r = rp_replayed r" "fst (snd (rp_stored r)) = sm_reason m"
  proof -
    show "rp_stored r = rp_replayed r" using rr(1,2) v(2) by simp
    show "fst (snd (rp_stored r)) = sm_reason m" unfolding rr(1) stored_decision_def by simp
  qed
  have "replay_matches r \<longleftrightarrow> replayable s m"
    using rr(3-7) eq raw m c by (auto simp: replay_matches_def replayable_def sample_ok_def)
  moreover have "foldl (trace_step s) f (m # ms) = foldl (trace_step s) (advance_fold f m v) ms" using v(1) by (simp add: trace_step_def)
  moreover from Cons.IH [OF rest] Cons.prems(2) obtain rs where
    "fold_samples e s ?req (\<lambda>k. None) (advance_fold f m v) ms = Inr (foldl (trace_step s) (advance_fold f m v) ms, rs)"
    "list_all (\<lambda>r. rp_stored r = rp_replayed r) rs" "list_all replay_matches rs \<longleftrightarrow> list_all (replayable s) ms" by auto
  ultimately show ?case using r rr(1,2) v(2) by (intro exI [of _ "r # rs"]) simp
qed simp

end
