(* ===== verification/Observation_Examples.thy ===== *)
theory Observation_Examples
  imports Observation_Safety
begin

section \<open>A session from its registration to the confirmed recovery\<close>

text \<open>
  One incident on one target: a remediation is registered, the Observer claims its first job, submits a
  healthy sample, claims the next and submits a second one a minute later, which confirms the recovery.
  The states are computed step by step; the concrete examples of the properties are taken from them.
\<close>

definition watch_env :: "time \<Rightarrow> uuid \<Rightarrow> env" where
  "watch_env t n = (example_env t n)\<lparr>env_json_loads := (\<lambda>s. Some (JObj (fmap_of_list
     [(''signals'', JArr [JObj (fmap_of_list [(''name'', JStr ''up'')])]),
      (''subject'', JObj (fmap_of_list [(''kubernetes_namespace'', JStr ''ns''), (''service'', JStr ''svc'')]))])))\<rparr>"

lemma watch_env_simps [simp]:
  "env_now (watch_env t n) = t" "env_later (watch_env t n) = t" "env_uuid4 (watch_env t n) k = n + k"
  "env_sha256 (watch_env t n) s = replicate 64 (CHR ''0'')" "same_world (watch_env t n) (watch_env t' n')"
  by (simp_all add: watch_env_def example_env_def same_world_def)

definition watch_target :: target_row where
  "watch_target = \<lparr>tg_target_id = 5, tg_resource_uid = ''u'', tg_integration_id = None, tg_cluster_uid = None,
     tg_namespace = None, tg_workload = None\<rparr>"

definition watch_suspension :: target_suspension_row where
  "watch_suspension = \<lparr>ts_target_id = 5, ts_suspended = False, ts_generation = 0\<rparr>"

definition registered_db :: db where
  "registered_db = snd (register_target (watch_env 0 50) ''u'' (Some 5) initial_db)"

lemma registered_db_eq: "registered_db = initial_db\<lparr>db_targets := [watch_target], db_target_suspensions := [watch_suspension]\<rparr>"
  by (simp add: registered_db_def register_target_def register_target_in_def insert_target_def insert_suspension_def insert_row_def
      watch_target_def watch_suspension_def initial_db_def)

definition watch_intake :: intake where
  "watch_intake = example_intake\<lparr>it_target_id := Some 5\<rparr>"

definition opened_db :: db where
  "opened_db = snd (transaction registered_db (accept_in (watch_env 0 60) watch_intake registered_db))"

definition watched :: "IncidentLifecycle \<Rightarrow> int \<Rightarrow> int \<Rightarrow> incident_row" where
  "watched lc cg og = (fresh_incident (watch_env 0 60) watch_intake)\<lparr>ir_lifecycle := lc, ir_control_generation := cg,
     ir_observation_generation := og\<rparr>"

lemma watched_simps [simp]:
  "ir_incident_id (watched lc cg og) = 1" "ir_lifecycle (watched lc cg og) = lc" "ir_control_generation (watched lc cg og) = cg"
  "ir_observation_generation (watched lc cg og) = og" "ir_target_id (watched lc cg og) = Some 5" "ir_state (watched lc cg og) = IS_queued"
  "(watched lc cg og)\<lparr>ir_lifecycle := lc'\<rparr> = watched lc' cg og" "(watched lc cg og)\<lparr>ir_control_generation := cg'\<rparr> = watched lc cg' og"
  "(watched lc cg og)\<lparr>ir_observation_generation := og'\<rparr> = watched lc cg og'"
  by (simp_all add: watched_def watch_intake_def example_intake_def)

lemma opened_db_eq: "opened_db = registered_db\<lparr>db_incidents := [watched L_open 0 0], db_runs := [accepted_run]\<rparr>"
  by (simp add: opened_db_def registered_db_eq accept_in_def accept_new_def insert_incident_def insert_run_def insert_row_def intake_gates_def
      same_intake_def check_priority_def accepted_run_def watch_intake_def example_intake_def initial_db_def fresh_incident_def watched_def
      watch_target_def watch_suspension_def)

subsection \<open>Registration\<close>

definition watch_identity :: target_identity where
  "watch_identity = \<lparr>ti_integration_id = ''i'', ti_cluster_uid = ''c'', ti_namespace = ''ns'', ti_resource_uid = ''u'', ti_workload = ''svc''\<rparr>"

definition watch_revision :: string where
  "watch_revision = ''p@000000000000''"

definition watch_grant :: session_grant where
  "watch_grant = \<lparr>sg_revision = Some ''r'', sg_actor = ''alice'', sg_source = AS_post_remediation, sg_deadline_at = 1000000000,
     sg_max_samples = 5, sg_sample_interval_seconds = 30, sg_sustained_window_seconds = 60,
     sg_profile_revision = Some watch_revision, sg_profile = Some ''x'', sg_session_id = None, sg_first_due_at = Some 0\<rparr>"

definition watch_place :: Target where
  "watch_place = \<lparr>t_integration_id = ''i'', t_cluster_uid = ''c'', t_namespace = ''ns'', t_resource_uid = ''u'', t_revision = Some ''r''\<rparr>"

definition watch_session :: session_row where
  "watch_session = \<lparr>se_session_id = 101, se_incident_id = 1, se_target_id = 5, se_target = watch_place,
     se_subject_control_generation = 1, se_observation_generation = 1, se_authorized = True, se_authorized_by = ''alice'',
     se_authorized_at = 1000000, se_authorization_source = AS_post_remediation, se_state = OS_authorized, se_ended_reason = None,
     se_health_profile_revision = Some watch_revision, se_authorized_global_generation = 0, se_authorized_target_generation = 0,
     se_deadline_at = 1000000000, se_max_samples = 5, se_sample_interval_seconds = 30, se_sustained_window_seconds = 60,
     se_adopted_sequence = 0, se_adopted_window_end = None, se_adopted_count = 0, se_healthy_since = None, se_issued_sequence = 1,
     se_active_sample_job_id = Some 102, se_active_sample_sequence = Some 1, se_active_sample_due_at = Some 0,
     se_active_sample_owner = None, se_active_sample_epoch = 0, se_active_sample_lease_until = None\<rparr>"

definition watch_profile :: profile_row where
  "watch_profile = \<lparr>hp_revision = watch_revision, hp_profile_id = ''p'', hp_content_sha256 = replicate 64 (CHR ''0''), hp_content = ''x''\<rparr>"

definition authorized_db :: db where
  "authorized_db = snd (register_remediation 1 0 watch_grant (Some watch_identity) None (watch_env 1000000 100) opened_db)"

text \<open>The observation tables and the incident of a state; the other tables stay as after the registration.\<close>

definition watch_db :: "IncidentLifecycle \<Rightarrow> session_row \<Rightarrow> sample_row list \<Rightarrow> ending_row list \<Rightarrow> db" where
  "watch_db lc s ms ens = opened_db\<lparr>db_incidents := [watched lc 1 1],
     db_targets := [watch_target\<lparr>tg_integration_id := Some ''i'', tg_cluster_uid := Some ''c'', tg_namespace := Some ''ns'', tg_workload := Some ''svc''\<rparr>],
     db_controls := [\<lparr>ca_audit_id = 100, ca_incident_id = 1, ca_action = ''register_remediation'', ca_expected_generation = 0,
        ca_resulting_generation = 1, ca_actor = ''alice'', ca_payload = Some (JObj (remediation_audit None watch_grant 101 [])),
        ca_created_at = 1000000\<rparr>],
     db_profiles := [watch_profile], db_sessions := [s], db_samples := ms, db_endings := ens\<rparr>"

lemma watch_signals:
  "profile_subject (watch_env t n) c = Inr (''ns'', ''svc'')" "required_signals (watch_env t n) c = Inr [''up'']"
  by (simp_all add: profile_subject_def required_signals_def watch_env_def signal_entry_def)

lemma watch_parts: "rpartition_at watch_revision = (''p'', True, ''000000000000'')"
  by (simp add: rpartition_at_def watch_revision_def)

lemma zeros: "replicate 12 (CHR ''0'') = ''000000000000''"
  by code_simp

lemma watch_grant_simps [simp]:
  "sg_revision watch_grant = Some ''r''" "sg_actor watch_grant = ''alice''" "sg_source watch_grant = AS_post_remediation"
  "sg_deadline_at watch_grant = 1000000000" "sg_max_samples watch_grant = 5" "sg_sample_interval_seconds watch_grant = 30"
  "sg_sustained_window_seconds watch_grant = 60" "sg_profile_revision watch_grant = Some watch_revision" "sg_profile watch_grant = Some ''x''"
  "sg_session_id watch_grant = None" "sg_first_due_at watch_grant = Some 0" "watch_grant\<lparr>sg_source := AS_post_remediation\<rparr> = watch_grant"
  by (simp_all add: watch_grant_def)

lemma authorize_stale: "mark_stale_in e n k ''observation_changed'' ''observation.authorize'' db
  = (case find_row ph_incident_id k (db_postmortems db) of None \<Rightarrow> Inr db
      | Some h \<Rightarrow>
          if open_versions (ph_postmortem_id h) db = [] then Inr db
          else mark_versions e n k (ph_postmortem_id h) (ph_generation h) ''observation_changed'' ''observation.authorize''
                 (open_versions (ph_postmortem_id h) db) db)"
proof -
  have "''observation_changed'' \<in> set STALE_REASONS \<and> strip is_space ''observation.authorize'' \<noteq> []" by code_simp
  then show ?thesis by (simp add: mark_stale_in_def)
qed

abbreviation identified_db :: db where
  "identified_db \<equiv> opened_db\<lparr>db_targets := [watch_target\<lparr>tg_integration_id := Some ''i'', tg_cluster_uid := Some ''c'',
     tg_namespace := Some ''ns'', tg_workload := Some ''svc''\<rparr>]\<rparr>"

lemma watch_identified: "complete_identity 5 (Some watch_identity) opened_db = Inr identified_db"
  by (simp add: complete_identity_def opened_db_eq registered_db_eq watch_identity_def watch_target_def identity_filled_def
      identity_complete_def identity_bare_def)

abbreviation bumped_db :: db where
  "bumped_db \<equiv> identified_db\<lparr>db_incidents := [watched L_open 1 0]\<rparr>"

lemma watch_bumped: "bump 1 1 identified_db = bumped_db"
  by (simp add: bump_def update_incident_def opened_db_eq)

lemma opened_tables [simp]:
  "db_incidents opened_db = [watched L_open 0 0]" "db_sessions opened_db = []" "db_samples opened_db = []" "db_endings opened_db = []"
  "db_profiles opened_db = []" "db_controls opened_db = []" "db_postmortems opened_db = []" "db_global_suspended opened_db = False"
  "db_global_generation opened_db = 0" "db_target_suspensions opened_db = [watch_suspension]"
  by (simp_all add: opened_db_eq registered_db_eq initial_db_def)

lemma watch_suspension_simps [simp]:
  "ts_target_id watch_suspension = 5" "ts_suspended watch_suspension = False" "ts_generation watch_suspension = 0"
  by (simp_all add: watch_suspension_def)

lemma watch_target_id [simp]: "tg_target_id watch_target = 5"
  by (simp add: watch_target_def)

lemma watch_stored: "store_profile (watch_env t n) watch_revision (Some ''x'') bumped_db = Inr (bumped_db\<lparr>db_profiles := [watch_profile]\<rparr>)"
  by (simp add: store_profile_def watch_parts zeros watch_profile_def Let_def)

lemma watch_scope [simp]:
  "db_incidents db = [watched lc cg og] \<Longrightarrow> db_target_suspensions db = [watch_suspension] \<Longrightarrow> \<not> db_global_suspended db \<Longrightarrow> db_global_generation db = 0 \<Longrightarrow>
   lock_scope db (Some 1) [] = Inr \<lparr>sc_global_suspended = False, sc_global_generation = 0, sc_target_suspended = False, sc_target_generation = 0\<rparr>"
  by (simp add: lock_scope_def incident_target_def Let_def)

lemma watch_authorized:
  "authorize_session_in (watch_env 1000000 100) 3 1000000 1 watch_grant bumped_db =
     Inr (101, bumped_db\<lparr>db_profiles := [watch_profile], db_incidents := [watched L_observing_recovery 1 1], db_sessions := [watch_session]\<rparr>)"
proof -
  let ?db = "bumped_db\<lparr>db_profiles := [watch_profile]\<rparr>"
  have g: "\<not> grant_refused watch_grant" by (simp add: grant_refused_def watch_revision_def)
  have p: "granted_profile (watch_env 1000000 100) watch_grant bumped_db = Inr (Some (''ns'', ''svc''), ?db)"
    by (simp add: granted_profile_def watch_stored watch_signals or_old_def)
  have c: "session_checks 1000000 watch_grant (Some (''ns'', ''svc'')) (watched L_open 1 0) ?db = Inr (5, watch_place, L_observing_recovery)"
    by (simp add: session_checks_def registered_target_def watch_target_def watch_place_def profile_mismatch_def
        has_authorized_def observing_lifecycle_def machine_eval INCIDENT_LIFECYCLE_def)
  show ?thesis
    unfolding authorize_session_in_def if_not_P [OF g] p bind_result.simps prod.case
    by (simp add: c authorize_stale update_incident_def insert_row_def new_session_def watch_session_def or_old_def Let_def del: One_nat_def)
qed

lemma authorized_db_eq: "authorized_db = watch_db L_observing_recovery watch_session [] []"
proof -
  have r: "revoke_authorized_sessions e n 1 bumped_db = Inr ([], bumped_db)" for e n
    by (simp add: revoke_authorized_sessions_def authorized_sessions_def)
  show ?thesis
    unfolding authorized_db_def register_remediation_def register_remediation_in_def
    by (simp add: watch_identified watch_bumped r watch_authorized record_control_def insert_row_def watch_db_def
        del: One_nat_def)
qed

subsection \<open>Claims\<close>

lemma watch_db_tables [simp]:
  "db_incidents (watch_db lc s ms ens) = [watched lc 1 1]" "db_sessions (watch_db lc s ms ens) = [s]" "db_samples (watch_db lc s ms ens) = ms"
  "db_endings (watch_db lc s ms ens) = ens" "db_profiles (watch_db lc s ms ens) = [watch_profile]"
  "db_global_suspended (watch_db lc s ms ens) = False" "db_global_generation (watch_db lc s ms ens) = 0"
  "db_target_suspensions (watch_db lc s ms ens) = [watch_suspension]"
  by (simp_all add: watch_db_def)

lemma watch_session_simps [simp]:
  "se_session_id watch_session = 101" "se_incident_id watch_session = 1" "se_target_id watch_session = 5" "se_target watch_session = watch_place"
  "se_subject_control_generation watch_session = 1" "se_observation_generation watch_session = 1" "se_authorized watch_session"
  "se_authorized_at watch_session = 1000000" "se_state watch_session = OS_authorized" "se_ended_reason watch_session = None"
  "se_health_profile_revision watch_session = Some watch_revision" "se_authorized_global_generation watch_session = 0"
  "se_authorized_target_generation watch_session = 0" "se_deadline_at watch_session = 1000000000" "se_max_samples watch_session = 5"
  "se_sample_interval_seconds watch_session = 30" "se_sustained_window_seconds watch_session = 60"
  "se_adopted_sequence watch_session = 0" "se_adopted_window_end watch_session = None" "se_adopted_count watch_session = 0"
  "se_healthy_since watch_session = None" "se_issued_sequence watch_session = 1" "se_active_sample_job_id watch_session = Some 102"
  "se_active_sample_sequence watch_session = Some 1" "se_active_sample_due_at watch_session = Some 0"
  "se_active_sample_owner watch_session = None" "se_active_sample_epoch watch_session = 0" "se_active_sample_lease_until watch_session = None"
  by (simp_all add: watch_session_def)

definition watch_scope_row :: scope_row where
  "watch_scope_row = \<lparr>sc_global_suspended = False, sc_global_generation = 0, sc_target_suspended = False, sc_target_generation = 0\<rparr>"

text \<open>A due job of the session is leased for 120 seconds.\<close>

lemma watch_claim:
  assumes "se_state s = OS_authorized" "se_authorized s" "se_incident_id s = 1" "se_target_id s = 5" "se_session_id s = 101"
    "se_active_sample_job_id s = Some j" "se_active_sample_due_at s = Some d" "d \<le> t" "se_active_sample_lease_until s = None"
    "t < se_deadline_at s" "se_authorized_global_generation s = 0" "se_authorized_target_generation s = 0"
  shows "claim_incident_due_samples 7 1 120 None {} (watch_env t n) (watch_db lc s ms ens) =
    (Inr [sample_lease s 7 (t + 120000000) watch_scope_row], watch_db lc (lease_row 7 (t + 120000000) s) ms ens)"
proof -
  have "due_session t None (watch_db lc s ms ens) s"
    using assms by (simp add: due_session_def)
  then have d: "due_sessions t None (Suc 0) {} (watch_db lc s ms ens) = [s]"
    by (simp add: due_sessions_def)
  have l: "lock_scope (watch_db lc s ms ens) (Some 1) [] = Inr watch_scope_row" for s
    by (simp add: watch_scope_row_def del: One_nat_def)
  have "\<not> scope_blocks watch_scope_row s" using assms by (simp add: scope_blocks_def watch_scope_row_def)
  moreover have "update_session 101 f (watch_db lc s ms ens) = watch_db lc (f s) ms ens" for f
    using assms by (simp add: update_session_def watch_db_def)
  moreover have "seconds 120 = 120000000" by (simp add: seconds_def)
  ultimately show ?thesis
    using assms unfolding claim_incident_due_samples_def by (simp add: d l del: One_nat_def)
qed

definition first_session :: session_row where
  "first_session = lease_row 7 122000000 watch_session"

definition first_lease :: SampleLease where
  "first_lease = sample_lease watch_session 7 122000000 watch_scope_row"

lemma first_claim:
  "claim_incident_due_samples 7 1 120 None {} (watch_env 2000000 200) authorized_db =
     (Inr [first_lease], watch_db L_observing_recovery first_session [] [])"
  unfolding authorized_db_eq
  by (subst watch_claim [where j = 102 and d = 0]) (simp_all add: first_session_def first_lease_def)

subsection \<open>Submissions\<close>

definition watch_sample :: "int \<Rightarrow> time \<Rightarrow> time \<Rightarrow> HealthSample" where
  "watch_sample k t0 t1 = \<lparr>hs_sample_id = ''x'', hs_session_id = uuid_str 101, hs_sequence = k,
     hs_window = \<lparr>qw_start = t0, qw_end = t1\<rparr>, hs_outcome = SO_healthy, hs_subject_control_generation = 1,
     hs_observation_generation = 1, hs_health_profile_revision = Some watch_revision, hs_required_signals_present = True\<rparr>"

definition watch_reading :: "time \<Rightarrow> time \<Rightarrow> reading_row" where
  "watch_reading t0 t1 = \<lparr>rg_signal_name = ''up'', rg_status = RG_ok, rg_value = Some (Finite 1), rg_sample_count = Some 4,
     rg_query = ''q'', rg_window_start = t0, rg_window_end = t1, rg_source = ''s'', rg_raw_sha256 = None, rg_raw = None\<rparr>"

definition watch_conditions :: sample_conditions where
  "watch_conditions = \<lparr>sx_scope_suspended = False, sx_global_generation = 0, sx_target_generation = 0, sx_within_deadline = True,
     sx_lease_valid = True, sx_stamps_match = True, sx_readings_consistent = True\<rparr>"

lemma watch_ok: "t0 \<le> t1 \<Longrightarrow> ok_signals \<lparr>qw_start = t0, qw_end = t1\<rparr> [watch_reading t0 t1] = {''up''}"
proof -
  assume "t0 \<le> t1"
  then have "0 \<le> window_tolerance \<lparr>qw_start = t0, qw_end = t1\<rparr>"
    by (simp add: window_tolerance_def divide_and_round_def Let_def pos_imp_zdiv_nonneg_iff)
  then show ?thesis by (simp add: ok_signals_def covers_def watch_reading_def)
qed

lemma watch_required: "required_signals_of (watch_env t n) (Some watch_revision) (watch_db lc s ms ens) = (Some [''up''], False)"
proof -
  have "profile_revision (watch_env t n) ''p'' ''x'' = watch_revision"
    by (simp add: profile_revision_def watch_revision_def zeros)
  moreover have "hp_revision watch_profile = watch_revision" "hp_content watch_profile = ''x''"
    "hp_content_sha256 watch_profile = env_sha256 (watch_env t n) ''x''" "take 12 (env_sha256 (watch_env t n) ''x'') = ''000000000000''"
    by (simp_all add: watch_profile_def zeros)
  ultimately have "parse_required (watch_env t n) (Some watch_profile) = (Some [''up''], False)"
    unfolding parse_required_def Let_def option.case by (simp only: watch_parts watch_signals fst_conv snd_conv sum.case simp_thms if_False)
  then show ?thesis by (simp add: required_signals_of_def watch_profile_def)
qed

definition adopted_verdict :: "int \<Rightarrow> time \<Rightarrow> time \<Rightarrow> Verdict" where
  "adopted_verdict k since t1 = \<lparr>vd_decision = \<lparr>sa_accepted = True, sa_disposition = SD_adopted, sa_reason = SR_adopted\<rparr>, vd_healthy = True,
     vd_health_basis = HB_confirmed, vd_transition = None, vd_session_state = OS_authorized, vd_ended_reason = None,
     vd_adopted_sequence = k, vd_adopted_window_end = Some t1, vd_adopted_count = k, vd_healthy_since = Some since\<rparr>"

definition first_sample :: sample_row where
  "first_sample = new_sample_row (watch_env 62000000 300) first_lease (watch_sample 1 1000000 61000000) [watch_reading 1000000 61000000]
     watch_conditions (watched L_observing_recovery 1 1) (adopted_verdict 1 61000000 61000000)"

definition second_session :: session_row where
  "second_session = next_job (watch_env 62000000 300) (adopted_verdict 1 61000000 61000000) first_session"

text \<open>The submission of a healthy minute: \<open>v\<close> is the verdict, \<open>s'\<close> what it makes of the session row.\<close>

lemma watch_missing:
  "t0 \<le> t1 \<Longrightarrow> missing_required_signals (required_signals_of (watch_env t n) (Some watch_revision) (watch_db lc s ms ens)) SO_healthy True
     (ok_signals \<lparr>qw_start = t0, qw_end = t1\<rparr> [watch_reading t0 t1]) = []"
  by (simp add: watch_required watch_ok missing_required_signals_def Let_def)

lemma watch_conditions_of:
  assumes "sample_lease_valid lease s t" "stamps_match lease s (watch_sample k t0 t1)" "t < se_deadline_at s" "t0 \<le> t1"
    "se_authorized_global_generation s = 0" "se_authorized_target_generation s = 0" "se_health_profile_revision s = Some watch_revision"
  shows "conditions_of (watch_env t n) lease (watch_sample k t0 t1) [watch_reading t0 t1] watch_scope_row s (watch_db lc s ms ens) = watch_conditions"
  using assms
  by (simp add: conditions_of_def Let_def watch_conditions_def scope_blocks_def watch_scope_row_def watch_sample_def watch_missing)

lemma first_judge:
  "judge (session_of_row first_session (watched L_observing_recovery 1 1)) (watch_sample 1 1000000 61000000)
     (submit_input watch_conditions first_session (watched L_observing_recovery 1 1)) = Inr (adopted_verdict 1 61000000 61000000)"
  by (simp add: judge_def judge_decision_def judge_adopted_def evaluate_sample_def adopt_sample_def Let_def session_of_row_def
      domain_session_def submit_input_def watch_conditions_def first_session_def lease_row_def watch_sample_def adopted_verdict_def
      health_basis_of_def confirms_health_def streak_def active_subject_states_def ACTIVE_INCIDENT_LIFECYCLES_def seconds_def)

lemma watch_place_scope: "lock_scope (watch_db lc s ms ens) (Some 1) [] = Inr watch_scope_row"
  by (simp add: watch_scope_row_def del: One_nat_def)

lemma watch_update: "se_session_id s = 101 \<Longrightarrow> update_session 101 f (watch_db lc s ms ens) = watch_db lc (f s) ms ens"
  by (simp add: update_session_def watch_db_def)

lemma watch_insert: "sm_disposition m = SD_adopted \<Longrightarrow> 0 < sm_sequence m \<Longrightarrow> qw_start (sm_window m) < qw_end (sm_window m) \<Longrightarrow>
    (\<forall>x \<in> set ms. sm_sequence x \<noteq> sm_sequence m \<and> sm_sample_id x \<noteq> sm_sample_id m) \<Longrightarrow>
    insert_sample m (watch_db lc s ms ens) = Inr (watch_db lc s (ms @ [m]) ens)"
  by (auto simp: insert_sample_def insert_row_def watch_db_def)

lemma watch_submit:
  assumes s: "se_session_id s = 101" "se_incident_id s = 1" and lease: "sl_session_id lease = 101" "sl_incident_id lease = 1"
    and t: "t1 \<le> t"
    and c: "conditions_of (watch_env t n) lease (watch_sample k t0 t1) [watch_reading t0 t1] watch_scope_row s (watch_db lc s ms ens) = watch_conditions"
    and j: "judge (session_of_row s (watched lc 1 1)) (watch_sample k t0 t1) (submit_input watch_conditions s (watched lc 1 1)) = Inr v"
    and w: "write_sample (watch_env t n) lease (watch_sample k t0 t1) [watch_reading t0 t1] watch_conditions (watched lc 1 1) v (watch_db lc s ms ens) = Inr (lc', db')"
  shows "submit_sample lease (watch_sample k t0 t1) [watch_reading t0 t1] (watch_env t n) (watch_db lc s ms ens) =
    (Inr (sample_receipt (watch_env t n) v True s lc'), db')"
proof -
  have "find_incident 1 (watch_db lc s ms ens) = Some (watched lc 1 1)" "find_session 101 (watch_db lc s ms ens) = Some s"
    using s by simp_all
  moreover have "hs_session_id (watch_sample k t0 t1) = uuid_str 101" "hs_window (watch_sample k t0 t1) = \<lparr>qw_start = t0, qw_end = t1\<rparr>"
    by (simp_all add: watch_sample_def)
  moreover have "sx_lease_valid watch_conditions" by (simp add: watch_conditions_def)
  ultimately show ?thesis
    using s(2) t by (simp add: submit_sample_def submit_sample_in_def lease c j w watch_place_scope Let_def seconds_def WINDOW_FUTURE_SKEW_SECONDS_def
        del: One_nat_def)
qed

lemma first_write:
  "write_sample (watch_env 62000000 300) first_lease (watch_sample 1 1000000 61000000) [watch_reading 1000000 61000000] watch_conditions
     (watched L_observing_recovery 1 1) (adopted_verdict 1 61000000 61000000) (watch_db L_observing_recovery first_session [] []) =
   Inr (L_observing_recovery, watch_db L_observing_recovery second_session [first_sample] [])"
proof -
  have v: "vd_ended_reason (adopted_verdict 1 61000000 61000000) = None" "sa_accepted (vd_decision (adopted_verdict 1 61000000 61000000))"
    by (simp_all add: adopted_verdict_def)
  have k: "sl_session_id first_lease = 101" "se_session_id first_session = 101"
    by (simp_all add: first_lease_def sample_lease_def first_session_def lease_row_def)
  have m: "sm_disposition first_sample = SD_adopted" "sm_sequence first_sample = 1" "sm_window first_sample = \<lparr>qw_start = 1000000, qw_end = 61000000\<rparr>"
    by (simp_all add: first_sample_def new_sample_row_def adopted_verdict_def watch_sample_def)
  show ?thesis
    unfolding write_sample_def first_sample_def [symmetric]
    by (simp add: v k moved_lifecycle_def watch_update next_session_def second_session_def [symmetric] watch_insert m)
qed

definition first_db :: db where
  "first_db = watch_db L_observing_recovery second_session [first_sample] []"

lemma first_submit:
  "submit_sample first_lease (watch_sample 1 1000000 61000000) [watch_reading 1000000 61000000] (watch_env 62000000 300)
     (watch_db L_observing_recovery first_session [] []) =
   (Inr (sample_receipt (watch_env 62000000 300) (adopted_verdict 1 61000000 61000000) True first_session L_observing_recovery), first_db)"
  unfolding first_db_def
proof (rule watch_submit [OF _ _ _ _ _ _ first_judge first_write])
  show "conditions_of (watch_env 62000000 300) first_lease (watch_sample 1 1000000 61000000) [watch_reading 1000000 61000000] watch_scope_row
      first_session (watch_db L_observing_recovery first_session [] []) = watch_conditions"
    by (rule watch_conditions_of)
      (simp_all add: sample_lease_valid_def stamps_match_def first_lease_def first_session_def lease_row_def sample_lease_def watch_sample_def)
qed (simp_all add: first_session_def first_lease_def sample_lease_def lease_row_def)

subsection \<open>The second sample confirms the recovery\<close>

lemma second_session_simps [simp]:
  "se_session_id second_session = 101" "se_incident_id second_session = 1" "se_target_id second_session = 5" "se_authorized second_session"
  "se_state second_session = OS_authorized" "se_active_sample_job_id second_session = Some 301" "se_active_sample_sequence second_session = Some 2"
  "se_active_sample_due_at second_session = Some 92000000" "se_active_sample_lease_until second_session = None"
  "se_deadline_at second_session = 1000000000" "se_authorized_global_generation second_session = 0"
  "se_authorized_target_generation second_session = 0" "se_health_profile_revision second_session = Some watch_revision"
  "se_adopted_sequence second_session = 1" "se_adopted_window_end second_session = Some 61000000" "se_adopted_count second_session = 1"
  "se_healthy_since second_session = Some 61000000" "se_max_samples second_session = 5" "se_sustained_window_seconds second_session = 60"
  "se_authorized_at second_session = 1000000" "se_active_sample_epoch second_session = 0" "se_subject_control_generation second_session = 1"
  "se_observation_generation second_session = 1" "se_target second_session = watch_place"
  by (simp_all add: second_session_def next_job_def first_session_def lease_row_def adopted_verdict_def seconds_def)

definition third_session :: session_row where
  "third_session = lease_row 7 242000000 second_session"

definition second_lease :: SampleLease where
  "second_lease = sample_lease second_session 7 242000000 watch_scope_row"

lemma second_claim:
  "claim_incident_due_samples 7 1 120 None {} (watch_env 122000000 400) first_db =
     (Inr [second_lease], watch_db L_observing_recovery third_session [first_sample] [])"
  unfolding first_db_def
  by (subst watch_claim [where j = 301 and d = 92000000]) (simp_all add: third_session_def second_lease_def)

definition confirmed_verdict :: Verdict where
  "confirmed_verdict = (adopted_verdict 2 61000000 121000000)\<lparr>vd_transition := Some ''recovery_confirmed'', vd_session_state := OS_completed,
     vd_ended_reason := Some ''recovery_confirmed''\<rparr>"

lemma second_judge:
  "judge (session_of_row third_session (watched L_observing_recovery 1 1)) (watch_sample 2 61000000 121000000)
     (submit_input watch_conditions third_session (watched L_observing_recovery 1 1)) = Inr confirmed_verdict"
  by (simp add: judge_def judge_decision_def judge_adopted_def evaluate_sample_def adopt_sample_def Let_def session_of_row_def
      domain_session_def submit_input_def watch_conditions_def third_session_def lease_row_def watch_sample_def confirmed_verdict_def adopted_verdict_def
      health_basis_of_def confirms_health_def streak_def active_subject_states_def ACTIVE_INCIDENT_LIFECYCLES_def seconds_def)

definition second_sample :: sample_row where
  "second_sample = new_sample_row (watch_env 123000000 500) second_lease (watch_sample 2 61000000 121000000) [watch_reading 61000000 121000000]
     watch_conditions (watched L_observing_recovery 1 1) confirmed_verdict"

definition completed_session :: session_row where
  "completed_session = end_session_row OS_completed ''recovery_confirmed'' (Some (marks_of confirmed_verdict)) third_session"

definition confirmed_ending :: ending_row where
  "confirmed_ending = \<lparr>en_ending_id = 501, en_session_id = 101, en_incident_id = 1, en_ended_reason = ''recovery_confirmed'',
     en_transition = Some ''recovery_confirmed'', en_sample_id = Some 500, en_lifecycle_before = L_observing_recovery,
     en_lifecycle_after = L_resolved, en_recorded_at = 123000000, en_job_id = Some 301, en_job_sequence = Some 2\<rparr>"

definition confirmed_db :: db where
  "confirmed_db = watch_db L_resolved completed_session [first_sample, second_sample] [confirmed_ending]"

lemma sample_simps [simp]:
  "sm_disposition first_sample = SD_adopted" "sm_sequence first_sample = 1" "sm_sample_id first_sample = 300" "sm_session_id first_sample = 101"
  "sm_disposition second_sample = SD_adopted" "sm_sequence second_sample = 2" "sm_sample_id second_sample = 500" "sm_session_id second_sample = 101"
  "sm_window first_sample = \<lparr>qw_start = 1000000, qw_end = 61000000\<rparr>" "sm_window second_sample = \<lparr>qw_start = 61000000, qw_end = 121000000\<rparr>"
  by (simp_all add: first_sample_def second_sample_def new_sample_row_def adopted_verdict_def confirmed_verdict_def watch_sample_def
      first_lease_def second_lease_def sample_lease_def)

lemma confirmed_verdict_simps [simp]:
  "vd_ended_reason confirmed_verdict = Some ''recovery_confirmed''" "sa_accepted (vd_decision confirmed_verdict)"
  "vd_transition confirmed_verdict = Some ''recovery_confirmed''"
  by (simp_all add: confirmed_verdict_def adopted_verdict_def)

lemma second_lease_simps [simp]: "sl_session_id second_lease = 101" "sl_incident_id second_lease = 1"
  by (simp_all add: second_lease_def sample_lease_def)

lemma third_session_simps [simp]: "se_session_id third_session = 101" "se_incident_id third_session = 1"
    "se_active_sample_job_id third_session = Some 301" "se_active_sample_sequence third_session = Some 2"
  by (simp_all add: third_session_def lease_row_def)

lemma second_write:
  "write_sample (watch_env 123000000 500) second_lease (watch_sample 2 61000000 121000000) [watch_reading 61000000 121000000] watch_conditions
     (watched L_observing_recovery 1 1) confirmed_verdict (watch_db L_observing_recovery third_session [first_sample] []) = Inr (L_resolved, confirmed_db)"
proof -
  have l: "moved_lifecycle L_observing_recovery confirmed_verdict = Inr L_resolved"
    by (simp add: moved_lifecycle_def ending_transition_def machine_eval INCIDENT_LIFECYCLE_def)
  have u: "update_incident 1 (\<lambda>x. x\<lparr>ir_lifecycle := L_resolved\<rparr>) (watch_db L_observing_recovery s ms ens) = watch_db L_resolved s ms ens" for s ms ens
    by (simp add: update_incident_def watch_db_def)
  have n: "next_session (watch_env 123000000 500) confirmed_verdict b third_session = third_session" for b
    by (simp add: next_session_def)
  have en: "end_session (watch_env 123000000 500) 1 101 1 ''recovery_confirmed'' (Some ''recovery_confirmed'') L_observing_recovery L_resolved
      (Some 500) (Some (marks_of confirmed_verdict)) True (watch_db L_resolved third_session [first_sample, second_sample] []) = Inr confirmed_db"
    by (simp add: end_session_def session_trigger_def Let_def insert_row_def confirmed_db_def watch_db_def completed_session_def confirmed_ending_def)
  show ?thesis
    unfolding write_sample_def second_sample_def [symmetric]
    by (simp add: l u watch_update n watch_insert en del: One_nat_def)
qed

lemma second_submit:
  "submit_sample second_lease (watch_sample 2 61000000 121000000) [watch_reading 61000000 121000000] (watch_env 123000000 500)
     (watch_db L_observing_recovery third_session [first_sample] []) =
   (Inr (sample_receipt (watch_env 123000000 500) confirmed_verdict True third_session L_resolved), confirmed_db)"
proof (rule watch_submit [OF _ _ _ _ _ _ second_judge second_write])
  show "conditions_of (watch_env 123000000 500) second_lease (watch_sample 2 61000000 121000000) [watch_reading 61000000 121000000] watch_scope_row
      third_session (watch_db L_observing_recovery third_session [first_sample] []) = watch_conditions"
    by (rule watch_conditions_of)
      (simp_all add: sample_lease_valid_def stamps_match_def second_lease_def third_session_def lease_row_def sample_lease_def watch_sample_def)
qed simp_all

subsection \<open>The history\<close>

definition watch_world :: env where
  "watch_world = watch_env 0 0"

lemma watch_worlds [simp]: "same_world watch_world (watch_env t n)"
  by (simp add: watch_world_def)

lemma reading_valid [simp]: "t0 \<le> t1 \<Longrightarrow> signal_reading e (watch_reading t0 t1) = Some (watch_reading t0 t1)"
  by (simp add: signal_reading_def watch_reading_def)

lemma opened_observed: "observed watch_world opened_db"
proof -
  have "observed_step watch_world initial_db registered_db"
    unfolding registered_db_def by (rule observed_agent, rule agent_register)
  moreover have "observed_step watch_world registered_db opened_db"
    unfolding opened_db_def by (rule observed_agent, rule agent_accept)
  ultimately show ?thesis unfolding observed_def by (meson r_into_rtranclp rtranclp.rtrancl_into_rtrancl)
qed

lemma authorized_observed: "observed watch_world authorized_db"
  unfolding authorized_db_def by (rule observed_next [OF opened_observed], rule observed_remediation, simp)

lemma first_claim_observed: "observed watch_world (watch_db L_observing_recovery first_session [] [])"
  using observed_next [OF authorized_observed observed_claim [where owner = 7 and limit = 1 and secs = 120 and selected = None and locked = "{}" and e = "watch_env 2000000 200"]]
  unfolding first_claim by simp

lemma first_observed: "observed watch_world first_db"
proof -
  have "observed_step watch_world (watch_db L_observing_recovery first_session [] []) (snd (submit_sample first_lease (watch_sample 1 1000000 61000000)
      [watch_reading 1000000 61000000] (watch_env 62000000 300) (watch_db L_observing_recovery first_session [] [])))"
    by (rule observed_submit) simp_all
  from observed_next [OF first_claim_observed this] show ?thesis unfolding first_submit by simp
qed

lemma second_claim_observed: "observed watch_world (watch_db L_observing_recovery third_session [first_sample] [])"
  using observed_next [OF first_observed observed_claim [where owner = 7 and limit = 1 and secs = 120 and selected = None and locked = "{}" and e = "watch_env 122000000 400"]]
  unfolding second_claim by simp

lemma confirmed_observed: "observed watch_world confirmed_db"
proof -
  have "observed_step watch_world (watch_db L_observing_recovery third_session [first_sample] []) (snd (submit_sample second_lease (watch_sample 2 61000000 121000000)
      [watch_reading 61000000 121000000] (watch_env 123000000 500) (watch_db L_observing_recovery third_session [first_sample] [])))"
    by (rule observed_submit) simp_all
  from observed_next [OF second_claim_observed this] show ?thesis unfolding second_submit by simp
qed

end
