(* ===== verification/Observation_Properties.thy ===== *)
theory Observation_Properties
  imports Observation_Examples
begin

section \<open>Properties of the sampling loop\<close>

lemma history_parts:
  assumes "session_history_in k db = Inr h"
  shows "find_session k db = Some (hi_session h)" "hi_samples h = samples_of k db" "hi_endings h = endings_of k db"
    "hi_health_profile h = Option.bind (se_health_profile_revision (hi_session h)) (\<lambda>r. find_row hp_revision r (db_profiles db))"
  using assms by (auto simp: session_history_in_def samples_of_def endings_of_def split: option.splits)

lemma history_required:
  assumes "same_world w e"
  shows "parse_required e (Option.bind revision (\<lambda>r. find_row hp_revision r (db_profiles db))) = required_signals_of w revision db"
  using required_signals_world [OF assms, of revision db] by (cases revision) (simp_all add: required_signals_of_def parse_required_def)

text \<open>The end that the report compares: the invariant is what it asks for.\<close>

lemma report_consistent:
  assumes ok: "session_ok w db ms ens s" and f: "f = trace s ms" and mx: "0 < se_max_samples s"
    and r: "rep_stored_session_state r = se_state s" "rep_stored_ended_reason r = se_ended_reason s"
      "rep_recorded_ending r = (if ens = [] then None else Some (ending_tuple (last ens)))" "rep_recorded_endings_count r = length ens"
      "rep_replayed_session_state r = fs_state f" "rep_replayed_ended_reason r = fs_ended_reason f"
      "rep_max_samples r = Some (se_max_samples s)" "rep_adopted_count r = fs_adopted_count f"
      "rep_recorded_ending_at r = (if ens = [] then None else Some (en_recorded_at (last ens)))" "rep_deadline_at r = se_deadline_at s"
      "rep_ending_sample_id r = fs_ending_sample_id f"
  shows "session_consistent r"
proof (cases "se_state s = OS_authorized")
  case True
  with ok have "se_ended_reason s = None" "ens = []" "fs_ended_reason f = None" by (auto simp: session_ok_def endings_ok_def f)
  with ok True r show ?thesis
    by (simp add: session_consistent_def ending_consistent_def session_ok_def fold_ok_def ended_ok_def f)
next
  case False
  with ok obtain en where en: "ens = [en]" "ending_of s f en" by (auto simp: session_ok_def endings_ok_def f)
  have e: "ended_ok s f (adopted_of ms)" and c: "counts_ok s f (adopted_of ms)" using ok by (simp_all add: session_ok_def fold_ok_def f)
  have same: "fs_ended_reason f \<noteq> None \<Longrightarrow> fs_ended_reason f = se_ended_reason s" using ok by (simp add: session_ok_def endings_ok_def f)
  have reason: "se_ended_reason s = Some (en_ended_reason en)" using en(2) by (simp add: ending_of_def)
  have backed: "ending_backed r (ending_tuple en) (en_ended_reason en)"
  proof (cases "fs_ended_reason f")
    case None
    with en e r reason show ?thesis by (auto simp: ending_backed_def ending_tuple_def ending_of_def ended_ok_def)
  next
    case (Some x)
    with same reason have x: "x = en_ended_reason en" by simp
    have "x = ''max_samples_exhausted'' \<Longrightarrow> se_max_samples s \<le> fs_adopted_count f"
      using e c Some by (simp add: ended_ok_def counts_ok_def)
    with en r x Some show ?thesis by (auto simp: ending_backed_def ending_tuple_def ending_of_def)
  qed
  have "fs_state f = se_state s \<or> (fs_state f = OS_authorized \<and> fs_ending_sample_id f = None \<and> se_state s \<in> {OS_expired, OS_revoked})"
  proof (cases "fs_ended_reason f")
    case None
    with e have "fs_state f = OS_authorized" "fs_ending_sample_id f = None" by (simp_all add: ended_ok_def)
    moreover have "se_state s \<in> {OS_expired, OS_revoked}"
      using en(2) None by (auto simp: ending_of_def implied_state_def)
    ultimately show ?thesis by simp
  next
    case (Some x)
    with same reason e en(2) show ?thesis by (auto simp: ended_ok_def ending_of_def)
  qed
  with backed en r reason False show ?thesis by (simp add: session_consistent_def ending_consistent_def)
qed

text \<open>\<^bold>\<open>C8\<close> (\<open>ObservationStore.replay_session\<close>, \<open>fold_history\<close>) For any session of any history: provided no sample taken as within the deadline has
  a window that ends at or after it (submission admits such a window within its clock skew, and the replay then
  reports it), the replay returns, reproduces every stored decision, finds the stored end and lifecycle
  consistent with the fold, and reports the session consistent exactly when each sample is replayable.\<close>

theorem replay_reproduces:
  assumes "observed w db" and "same_world w e" and h: "session_history_in k db = Inr h"
    and d: "\<forall>m \<in> set (hi_samples h). \<not> deadline_mismatch (hi_session h) m"
  shows "\<exists>r. replay_session e k db = Inr r \<and> (\<forall>p \<in> set (rep_samples r). rp_stored p = rp_replayed p)
    \<and> session_consistent r \<and> lifecycle_consistent r
    \<and> (consistent r \<longleftrightarrow> (\<forall>m \<in> set (hi_samples h). replayable (hi_session h) m))"
proof -
  let ?s = "hi_session h" and ?ms = "samples_of k db"
  let ?f = "trace ?s ?ms"
  note p = history_parts [OF h]
  have ok: "session_ok w db ?ms (endings_of k db) ?s" using obs_ok_found [OF observed_ok [OF assms(1)] p(1)] .
  then have fold: "fold_ok ?s ?f ?ms" and so: "list_all (sample_ok w db ?s) ?ms" by (simp_all add: session_ok_def)
  from fold have dh: "decisions_hold ?s fold_start ?ms" and lc: "lifecycle_ok ?f ?ms" and mx: "0 < se_max_samples ?s"
    by (simp_all add: fold_ok_def counts_ok_def)
  have req: "parse_required e (hi_health_profile h) = required_signals_of w (se_health_profile_revision ?s) db"
    unfolding p(4) by (rule history_required [OF assms(2)])
  have "\<And>m. m \<in> set ?ms \<Longrightarrow> sample_ok w db ?s m \<and> \<not> deadline_mismatch ?s m" using so d p(2) by (simp add: list_all_iff)
  from fold_replays [OF dh this assms(2)] obtain rs where
    rs: "fold_samples e ?s (required_signals_of w (se_health_profile_revision ?s) db) (\<lambda>k. None) fold_start ?ms = Inr (?f, rs)"
      "list_all (\<lambda>r. rp_stored r = rp_replayed r) rs" "list_all replay_matches rs \<longleftrightarrow> list_all (replayable ?s) ?ms"
    unfolding trace_def by blast
  from rs(1) obtain r where r: "replay_session e k db = Inr r" and
    parts: "rep_samples r = rs" "rep_stored_session_state r = se_state ?s" "rep_stored_ended_reason r = se_ended_reason ?s"
      "rep_recorded_ending r = (if hi_endings h = [] then None else Some (ending_tuple (last (hi_endings h))))"
      "rep_recorded_endings_count r = length (hi_endings h)" "rep_replayed_session_state r = fs_state ?f"
      "rep_replayed_ended_reason r = fs_ended_reason ?f"
      "rep_max_samples r = (if se_max_samples ?s = 0 then None else Some (se_max_samples ?s))" "rep_adopted_count r = fs_adopted_count ?f"
      "rep_recorded_ending_at r = (if hi_endings h = [] then None else Some (en_recorded_at (last (hi_endings h))))"
      "rep_deadline_at r = se_deadline_at ?s" "rep_ending_sample_id r = fs_ending_sample_id ?f"
      "rep_expected_lifecycle r = fs_expected_lifecycle ?f" "rep_recorded_lifecycle r = recorded_lifecycle ?ms"
    by (simp add: replay_session_def h fold_history_def Let_def req p(2) ending_tuple_def)
  have sc: "session_consistent r"
    by (rule report_consistent [OF ok refl mx]) (use parts mx p(3) in simp_all)
  moreover have lcc: "lifecycle_consistent r" using lc parts by (auto simp: lifecycle_consistent_def lifecycle_ok_def)
  ultimately show ?thesis using r rs(2,3) parts(1) p(2)
    by (intro exI [of _ r]) (simp add: consistent_def list_all_iff)
qed

lemma confirmed_history:
  "session_history_in 101 confirmed_db = Inr \<lparr>hi_session = completed_session, hi_incident_lifecycle = L_resolved,
     hi_health_profile = Some watch_profile, hi_samples = [first_sample, second_sample], hi_endings = [confirmed_ending]\<rparr>"
proof -
  have "se_session_id completed_session = 101" "se_incident_id completed_session = 1" "se_health_profile_revision completed_session = Some watch_revision"
    by (simp_all add: completed_session_def end_session_row_def third_session_def lease_row_def)
  moreover have "hp_revision watch_profile = watch_revision" "en_session_id confirmed_ending = 101" by (simp_all add: watch_profile_def confirmed_ending_def)
  ultimately show ?thesis by (simp add: session_history_in_def confirmed_db_def)
qed

lemma completed_simps [simp]:
  "se_session_id completed_session = 101" "se_ended_reason completed_session = Some ''recovery_confirmed''" "se_deadline_at completed_session = 1000000000"
  "se_authorized_global_generation completed_session = 0" "se_authorized_target_generation completed_session = 0" "se_max_samples completed_session = 5"
  "se_state completed_session = OS_completed" "completed_session \<in> set (db_sessions confirmed_db)" "se_target_id completed_session = 5"
  "se_incident_id completed_session = 1" "se_sustained_window_seconds completed_session = 60" "se_adopted_count completed_session = 2"
  by (simp_all add: completed_session_def end_session_row_def third_session_def lease_row_def confirmed_db_def marks_of_def or_old_def
      confirmed_verdict_def adopted_verdict_def)

theorem replay_reproduces_witness:
  "\<exists>r. replay_session (watch_env 200000000 600) 101 confirmed_db = Inr r \<and> (\<forall>p \<in> set (rep_samples r). rp_stored p = rp_replayed p)
     \<and> consistent r"
proof -
  have "\<not> deadline_mismatch completed_session first_sample" "\<not> deadline_mismatch completed_session second_sample"
    by (simp_all add: deadline_mismatch_def)
  moreover have "replayable completed_session first_sample" "replayable completed_session second_sample"
    by (simp_all add: replayable_def first_sample_def second_sample_def new_sample_row_def watch_conditions_def)
  ultimately show ?thesis
    using replay_reproduces [OF confirmed_observed watch_worlds confirmed_history, of 200000000 600] by auto
qed

text \<open>\<^bold>\<open>C7\<close> (\<open>ObservationStore.submit_sample\<close>) A recovery is confirmed only by evidence: the last adopted samples of the session form a
  run of healthy ones without a gap that spans the sustained window. Each of them was submitted in scope,
  under a valid lease and before the deadline, with the required signals, of a window that starts after the
  authorization and under the generations of the incident at that moment. The ending names the last of
  them, and moved the incident from \<open>observing_recovery\<close> to \<open>resolved\<close>.\<close>

theorem confirmed_by_sustained_run:
  assumes "observed w db" and s: "s \<in> set (db_sessions db)" and r: "se_ended_reason s = Some ''recovery_confirmed''"
  shows "\<exists>ys xs en. adopted_of (samples_of (se_session_id s) db) = ys @ xs \<and> healthy_run xs \<and> (\<forall>m \<in> set xs. adoptable s m)
    \<and> seconds (se_sustained_window_seconds s) \<le> run_span xs
    \<and> endings_of (se_session_id s) db = [en] \<and> en_sample_id en = Some (sm_sample_id (last xs))
    \<and> en_lifecycle_before en = L_observing_recovery \<and> en_lifecycle_after en = L_resolved"
proof -
  let ?ms = "samples_of (se_session_id s) db" and ?ens = "endings_of (se_session_id s) db"
  let ?f = "trace s ?ms" and ?as = "adopted_of ?ms"
  from observed_session [OF assms(1) s] have e: "endings_ok s ?f ?ens" and fold: "fold_ok s ?f ?ms" by (simp_all add: session_ok_def)
  from e r obtain en where en: "?ens = [en]" "ending_of s ?f en" by (auto simp: endings_ok_def split: if_splits)
  with r have er: "en_ended_reason en = ''recovery_confirmed''" "transition_fits (ending_tuple en)" by (simp_all add: ending_of_def)
  with en(2) have "fs_ended_reason ?f \<noteq> None" by (auto simp: ending_of_def)
  with e r have fr: "fs_ended_reason ?f = Some ''recovery_confirmed''" by (simp add: endings_ok_def)
  with fold have "ended_ok s ?f ?as" by (simp add: fold_ok_def)
  with fr obtain t where ne: "?as \<noteq> []" and sid: "fs_ending_sample_id ?f = Some (sm_sample_id (last ?as))"
    and t: "fs_healthy_since ?f = Some t" "seconds (se_sustained_window_seconds s) \<le> qw_end (sm_window (last ?as)) - t"
    by (auto simp: ended_ok_def)
  from fold t(1) obtain ys xs where xs: "?as = ys @ xs" "healthy_run xs" "qw_end (sm_window (hd xs)) = t"
    unfolding fold_ok_def streak_ok_def by blast
  then have l: "last ?as = last xs" by (simp add: healthy_run_def)
  have ad: "\<forall>m \<in> set xs. adoptable s m" using fold xs(1) by (simp add: fold_ok_def counts_ok_def list_all_iff)
  have "en_sample_id en = Some (sm_sample_id (last xs))" using en(2) sid l by (simp add: ending_of_def)
  moreover from er have "can_fire (en_lifecycle_before en) ''recovery_confirmed''"
    "en_lifecycle_after en = fired_or_same (en_lifecycle_before en) ''recovery_confirmed''"
    by (auto simp: transition_fits_def ending_tuple_def split: if_splits)
  then have "en_lifecycle_before en = L_observing_recovery \<and> en_lifecycle_after en = L_resolved"
    by (cases "en_lifecycle_before en") (auto simp: can_fire_iff fired_or_same_def machine_eval INCIDENT_LIFECYCLE_def)
  ultimately show ?thesis using xs ad t(2) l en(1) by (intro exI [of _ ys] exI [of _ xs] exI [of _ en]) (simp add: run_span_def)
qed

theorem confirmed_by_sustained_run_witness:
  "\<exists>ys xs. adopted_of (samples_of 101 confirmed_db) = ys @ xs \<and> healthy_run xs \<and> 60000000 \<le> run_span xs"
  using confirmed_by_sustained_run [OF confirmed_observed, of completed_session] by (auto simp: seconds_def)

text \<open>\<^bold>\<open>C11\<close> (\<open>ObservationStore.submit_sample\<close>) The adopted samples of a session have strictly increasing sequences and window
  ends that do not go back, each was adoptable when it was submitted, and there are never more than the
  budget; the watermark and the counter of the session row are those of the adopted samples.\<close>

theorem adoption_is_monotone:
  assumes "observed w db" and "s \<in> set (db_sessions db)" and "as = adopted_of (samples_of (se_session_id s) db)"
  shows "sorted_wrt advances as \<and> (\<forall>m \<in> set as. adoptable s m) \<and> int (length as) \<le> se_max_samples s
    \<and> (se_state s = OS_authorized \<longrightarrow> int (length as) < se_max_samples s) \<and> se_adopted_count s = int (length as)
    \<and> se_adopted_sequence s = (if as = [] then 0 else sm_sequence (last as))
    \<and> se_adopted_window_end s = (if as = [] then None else Some (qw_end (sm_window (last as))))"
proof -
  let ?f = "trace s (samples_of (se_session_id s) db)"
  from observed_session [OF assms(1,2)] have c: "counts_ok s ?f as" and w: "same_watermark s ?f" and e: "endings_ok s ?f (endings_of (se_session_id s) db)"
    and n: "ended_ok s ?f as" by (simp_all add: session_ok_def fold_ok_def assms(3))
  from e n have "se_state s = OS_authorized \<Longrightarrow> fs_state ?f = OS_authorized" by (auto simp: endings_ok_def ended_ok_def)
  with c w show ?thesis by (simp add: counts_ok_def same_watermark_def list_all_iff)
qed

theorem adoption_is_monotone_witness:
  "se_adopted_count completed_session = 2 \<and> int (length (adopted_of (samples_of 101 confirmed_db))) = 2
    \<and> sorted_wrt advances (adopted_of (samples_of 101 confirmed_db))"
  using adoption_is_monotone [OF confirmed_observed, of completed_session, OF _ refl] by simp

text \<open>\<^bold>\<open>C9\<close> (\<open>observation/store.py\<close>, \<open>observation/revocation.py\<close>) An incident has at most one authorized session, a session without authorization has no job,
  and a session ends exactly once: the authorized one has no ending record, any other exactly one, whose
  reason the row repeats, implies the state of the row and fits the recorded lifecycle change.\<close>

theorem sessions_end_once:
  assumes "observed w db" and s: "s \<in> set (db_sessions db)"
  shows "(if se_state s = OS_authorized then se_ended_reason s = None \<and> endings_of (se_session_id s) db = []
      else \<exists>en. endings_of (se_session_id s) db = [en] \<and> se_ended_reason s = Some (en_ended_reason en)
        \<and> map_of implied_state (en_ended_reason en) = Some (se_state s) \<and> transition_fits (ending_tuple en))
    \<and> (se_active_sample_job_id s \<noteq> None \<longrightarrow> se_state s = OS_authorized)
    \<and> (\<forall>x \<in> set (db_sessions db). se_state s = OS_authorized \<and> se_state x = OS_authorized \<and> se_incident_id x = se_incident_id s \<longrightarrow> x = s)"
proof -
  from observed_session [OF assms] have e: "endings_ok s (trace s (samples_of (se_session_id s) db)) (endings_of (se_session_id s) db)"
    by (simp add: session_ok_def)
  moreover have "one_authorized db" using observed_ok [OF assms(1)] by (simp add: obs_ok_def)
  ultimately show ?thesis using s by (auto simp: endings_ok_def ending_of_def one_authorized_def)
qed

theorem sessions_end_once_witness:
  "(\<exists>en. endings_of 101 confirmed_db = [en] \<and> en_ended_reason en = ''recovery_confirmed'') \<and> endings_of 101 first_db = []"
proof -
  have "second_session \<in> set (db_sessions first_db)" by (simp add: first_db_def)
  from sessions_end_once [OF first_observed this] sessions_end_once [OF confirmed_observed, of completed_session]
  show ?thesis by auto
qed

text \<open>\<^bold>\<open>C10\<close> (\<open>ObservationStore.submit_sample\<close>) An accepted submission was made within its authority: at that moment the session was
  authorized and not overdue, the lease named its job, owner and epoch and had not lapsed, the scope was
  open at the generations of the authorization, the incident was active, and the sample carries the
  incident's generations, the profile of the session and the sequence of the job.\<close>

theorem accepted_within_authority:
  assumes "submit_sample lease sample rows e db = (Inr r, db')" and acc: "rt_accepted r"
  shows "\<exists>i row sc. find_incident (sl_incident_id lease) db = Some i \<and> find_session (sl_session_id lease) db = Some row
    \<and> lock_scope db (Some (sl_incident_id lease)) [] = Inr sc \<and> \<not> scope_blocks sc row
    \<and> se_incident_id row = sl_incident_id lease \<and> se_state row = OS_authorized \<and> env_now e < se_deadline_at row
    \<and> sample_lease_valid lease row (env_now e) \<and> stamps_match lease row sample
    \<and> ir_lifecycle i \<in> ACTIVE_INCIDENT_LIFECYCLES
    \<and> hs_subject_control_generation sample = ir_control_generation i \<and> hs_observation_generation sample = ir_observation_generation i
    \<and> hs_health_profile_revision sample = se_health_profile_revision row \<and> se_adopted_sequence row < hs_sequence sample"
proof -
  from assms(1) have step: "submit_sample_in e lease sample rows db = Inr (r, db')"
    by (cases "submit_sample_in e lease sample rows db") (auto simp: submit_sample_def)
  then obtain i row where f: "find_incident (sl_incident_id lease) db = Some i" "find_session (sl_session_id lease) db = Some row"
    by (cases "find_incident (sl_incident_id lease) db"; cases "find_session (sl_session_id lease) db")
      (simp_all add: submit_sample_in_def split: if_split_asm)
  from step f have inc: "se_incident_id row = sl_incident_id lease" by (simp add: submit_sample_in_def split: if_split_asm)
  from step f inc obtain sc v lc c where sc: "lock_scope db (Some (sl_incident_id lease)) [] = Inr sc" and c: "c = conditions_of e lease sample rows sc row db"
    and j: "judge (session_of_row row i) sample (submit_input c row i) = Inr v" and r: "r = sample_receipt e v (sx_lease_valid c) row lc"
    by (auto simp: submit_sample_in_def bind_result_Inr_iff Let_def split: if_split_asm sum.split_asm)
  from acc r have "sa_accepted (vd_decision v)" by (simp add: sample_receipt_def)
  with judge_disposition(1) [OF j] have "sa_accepted (judge_decision (session_of_row row i) sample (submit_input c row i))" by simp
  from judge_decision_accepted [OF this, unfolded evaluate_sample_accepted_iff] show ?thesis
    using f inc sc by (intro exI [of _ i] exI [of _ row] exI [of _ sc])
      (auto simp: submit_input_def session_of_row_def domain_session_def c conditions_of_def Let_def active_subject_states_def)
qed

theorem accepted_within_authority_witness:
  "\<exists>row sc. find_session 101 (watch_db L_observing_recovery first_session [] []) = Some row
    \<and> lock_scope (watch_db L_observing_recovery first_session [] []) (Some 1) [] = Inr sc \<and> \<not> scope_blocks sc row
    \<and> sample_lease_valid first_lease row 62000000"
proof -
  have "rt_accepted (sample_receipt (watch_env 62000000 300) (adopted_verdict 1 61000000 61000000) True first_session L_observing_recovery)"
    by (simp add: sample_receipt_def adopted_verdict_def)
  note g = accepted_within_authority [OF first_submit this]
  have "sl_session_id first_lease = 101" "sl_incident_id first_lease = 1" by (simp_all add: first_lease_def sample_lease_def)
  with g show ?thesis unfolding watch_env_simps by metis
qed

text \<open>(\<open>authorize_session_in\<close>) All sessions on one registered target name the same four-part identity.\<close>

theorem target_identity_immutable:
  assumes "observed w db" and "s \<in> set (db_sessions db)" and "x \<in> set (db_sessions db)" and "se_target_id s = se_target_id x"
  shows "identity_of (se_target s) = identity_of (se_target x)"
  using observed_ok [OF assms(1)] assms(2-4) unfolding obs_ok_def one_identity_def by blast

theorem target_identity_immutable_witness:
  "identity_of (se_target completed_session) = (''i'', ''c'', ''ns'', ''u'')"
  using target_identity_immutable [OF confirmed_observed, of completed_session completed_session]
  by (simp add: identity_of_def watch_place_def completed_session_def end_session_row_def third_session_def lease_row_def)

end
