(* ===== verification/Self_Heal.thy ===== *)
theory Self_Heal
  imports Observation_Refinement
begin

section \<open>Decisions on the automatic observation\<close>

text \<open>
  The rows of \<open>self_heal\<close> as an abstract machine: a decision is open while it has no row or its row is
  \<open>retrying\<close>; it is then settled, counted as a failed attempt, or handed to a human at the fifth failure
  with a timeline event. \<open>store_step_heals\<close> shows that every step of the store is one of these changes; the
  invariant \<open>heal_ok\<close> bounds the attempts and counts the events.
\<close>

abbreviation heal_key :: "self_heal_row \<Rightarrow> uuid \<times> int" where
  "heal_key a \<equiv> (sh_incident_id a, sh_control_generation a)"

definition undecided_yet :: "uuid \<Rightarrow> int \<Rightarrow> db \<Rightarrow> bool" where
  "undecided_yet k g db = (case find_decision k g db of None \<Rightarrow> True | Some a \<Rightarrow> sh_state a = SH_retrying)"

definition attempts_of :: "uuid \<Rightarrow> int \<Rightarrow> db \<Rightarrow> int" where
  "attempts_of k g db = (case find_decision k g db of None \<Rightarrow> 0 | Some a \<Rightarrow> sh_attempts a)"

definition session_id_of :: "uuid \<Rightarrow> int \<Rightarrow> db \<Rightarrow> uuid option" where
  "session_id_of k g db = Option.bind (find_decision k g db) sh_session_id"

definition put_decision :: "self_heal_row \<Rightarrow> db \<Rightarrow> db" where
  "put_decision a db = db\<lparr>db_self_heal := (if find_row heal_key (heal_key a) (db_self_heal db) = None then db_self_heal db @ [a]
     else update_where (\<lambda>x. heal_key x = heal_key a) (\<lambda>x. a) (db_self_heal db))\<rparr>"

definition handed_event :: "uuid \<Rightarrow> int \<Rightarrow> subject_event_row \<Rightarrow> bool" where
  "handed_event k g v \<longleftrightarrow> ev_subject_id v = k \<and> ev_kind v = AUTO_OBSERVATION_HANDED_OFF
     \<and> fmlookup (ev_payload v) ''control_generation'' = Some (JInt g)"

definition handed_events :: "uuid \<Rightarrow> int \<Rightarrow> db \<Rightarrow> subject_event_row list" where
  "handed_events k g db = filter (handed_event k g) (db_events db)"

definition heal_same :: "db \<Rightarrow> db \<Rightarrow> bool" where
  "heal_same db db' \<longleftrightarrow> db_self_heal db' = db_self_heal db \<and> db_events db' = db_events db"

inductive heal_change :: "db \<Rightarrow> db \<Rightarrow> bool" where
  kept: "heal_same db db' \<Longrightarrow> heal_change db db'"
| settled: "heal_same (put_decision a db) db' \<Longrightarrow> undecided_yet (sh_incident_id a) (sh_control_generation a) db \<Longrightarrow>
     sh_attempts a = attempts_of (sh_incident_id a) (sh_control_generation a) db \<Longrightarrow> sh_next_attempt_at a = None \<Longrightarrow>
     (sh_state a = SH_authorized \<and> sh_session_id a \<noteq> None) \<or> (sh_state a = SH_skipped \<and> sh_reason a \<noteq> None \<and> sh_session_id a = None) \<Longrightarrow>
     heal_change db db'"
| retried: "heal_same (put_decision a db) db' \<Longrightarrow> undecided_yet (sh_incident_id a) (sh_control_generation a) db \<Longrightarrow>
     sh_attempts a = attempts_of (sh_incident_id a) (sh_control_generation a) db + 1 \<Longrightarrow>
     sh_session_id a = session_id_of (sh_incident_id a) (sh_control_generation a) db \<Longrightarrow>
     sh_state a = SH_retrying \<Longrightarrow> sh_attempts a < AUTO_OBSERVATION_MAX_ATTEMPTS \<Longrightarrow> sh_next_attempt_at a \<noteq> None \<Longrightarrow> heal_change db db'"
| handed: "heal_same (put_decision a db\<lparr>db_events := db_events db @ vs\<rparr>) db' \<Longrightarrow> undecided_yet (sh_incident_id a) (sh_control_generation a) db \<Longrightarrow>
     sh_attempts a = attempts_of (sh_incident_id a) (sh_control_generation a) db + 1 \<Longrightarrow>
     sh_session_id a = session_id_of (sh_incident_id a) (sh_control_generation a) db \<Longrightarrow>
     sh_state a = SH_handed_off \<Longrightarrow> AUTO_OBSERVATION_MAX_ATTEMPTS \<le> sh_attempts a \<Longrightarrow> sh_next_attempt_at a = None \<Longrightarrow>
     (if handed_events (sh_incident_id a) (sh_control_generation a) db = []
      then \<exists>v. vs = [v] \<and> handed_event (sh_incident_id a) (sh_control_generation a) v else vs = []) \<Longrightarrow> heal_change db db'"

subsection \<open>Every step of the store is a change of the machine\<close>

lemma heal_same_refl [simp]: "heal_same db db"
  by (simp add: heal_same_def)

lemma heal_same_trans [trans]: "heal_same a b \<Longrightarrow> heal_same b c \<Longrightarrow> heal_same a c"
  by (simp add: heal_same_def)

lemma agent_heal_same: "agent_same db db' \<Longrightarrow> heal_same db db'"
  by (simp add: agent_same_def heal_same_def)

lemma revoke_heal: "revoke_authorized_sessions e n i db = Inr (ks, db') \<Longrightarrow> heal_same db db'"
  by (auto dest!: revoke_shape simp: heal_same_def)

lemma agent_heals: "agent_step db db' \<Longrightarrow> heal_same db db'"
  using agent_observes [of db db'] unfolding obs_revoked_def
  by (blast intro: agent_heal_same heal_same_trans dest: revoke_heal)

lemma heal_same_transaction: "(\<And>x db'. r = Inr (x, db') \<Longrightarrow> heal_same db db') \<Longrightarrow> heal_same db (snd (transaction db r))"
  by (cases r) auto

lemma end_session_heal: "end_session e n s i reason tr bef aft m marks job db = Inr db' \<Longrightarrow> heal_same db db'"
  by (auto simp: end_session_def Let_def bind_result_Inr_iff heal_same_def split: option.splits sum.splits)

lemma update_session_heal [simp]: "heal_same db (update_session k f db)"
  by (simp add: update_session_def heal_same_def)

lemma update_incident_heal [simp]: "heal_same db (update_incident k f db)"
  by (rule agent_heal_same) simp

lemma claim_sessions_heal: "claim_sessions e owner until n rows db = Inr (ls, db') \<Longrightarrow> heal_same db db'"
proof (induction e owner until n rows db arbitrary: ls rule: claim_sessions.induct)
  case (2 e owner until n row rows db)
  from 2(3) obtain sc where sc: "lock_scope db (Some (se_incident_id row)) [] = Inr sc"
    by (auto simp: bind_result_Inr_iff)
  show ?case
  proof (cases "scope_blocks sc row")
    case True
    with 2(3) sc obtain lc db1 where "end_session e n (se_session_id row) (se_incident_id row) ''scope_suspended'' None lc lc None None True db = Inr db1"
      "claim_sessions e owner until (Suc n) rows db1 = Inr (ls, db')" and "lc = incident_lifecycle_of (se_incident_id row) db"
      by (auto simp: bind_result_Inr_iff Let_def)
    with 2(1) [OF True refl] end_session_heal show ?thesis by (blast intro: heal_same_trans)
  next
    case False
    with 2(3) sc obtain ls' where "claim_sessions e owner until n rows (update_session (se_session_id row) (lease_row owner until) db) = Inr (ls', db')"
      by (auto simp: bind_result_Inr_iff)
    from 2(2) [OF False this] show ?thesis using update_session_heal heal_same_trans by blast
  qed
qed simp

lemma claim_heal: "heal_same db (snd (claim_incident_due_samples owner limit secs sel locked e db))"
  by (auto simp: claim_incident_due_samples_def intro!: heal_same_transaction dest: claim_sessions_heal)

lemma write_sample_heal: "write_sample e lease sample rows c i v db = Inr (lc, db') \<Longrightarrow> heal_same db db'"
  by (auto simp: write_sample_def bind_result_Inr_iff Let_def insert_sample_def heal_same_def update_session_def update_incident_def
      dest!: end_session_heal split: option.splits if_splits)

lemma submit_heal: "heal_same db (snd (submit_sample lease sample rows e db))"
  unfolding submit_sample_def
  by (rule heal_same_transaction)
    (auto simp: submit_sample_in_def Let_def bind_result_Inr_iff split: if_splits option.splits sum.splits dest: write_sample_heal)

lemma expire_heal: "heal_same db (snd (transaction db (expire_session e c db)))"
  by (rule heal_same_transaction)
    (auto simp: expire_session_def bind_result_Inr_iff heal_same_def update_incident_def dest!: end_session_heal split: option.splits if_splits)

lemma revoke_sessions_heal: "heal_same db (snd (revoke_sessions k e db))"
  unfolding revoke_sessions_def by (rule heal_same_transaction) (auto dest: revoke_heal split: if_splits)

lemma complete_identity_heal: "complete_identity t identity db = Inr db' \<Longrightarrow> heal_same db db'"
  by (auto simp: complete_identity_def heal_same_def split: if_splits option.splits)

lemma store_profile_heal: "store_profile e r content db = Inr db' \<Longrightarrow> heal_same db db'"
  by (auto simp: store_profile_def heal_same_def Let_def split: if_splits option.splits prod.splits)

lemma granted_profile_heal: "granted_profile e g db = Inr (subject, db') \<Longrightarrow> heal_same db db'"
  by (auto simp: granted_profile_def bind_result_Inr_iff dest: store_profile_heal split: if_splits option.splits)

lemma authorize_session_heal:
  assumes "authorize_session_in e n now k g db = Inr (s, db')"
  shows "heal_same db db'"
proof -
  from assms obtain subject db1 x db2 ss where p: "granted_profile e g db = Inr (subject, db1)"
    and rest: "mark_stale_in e n k ''observation_changed'' ''observation.authorize'' (update_incident k x db1) = Inr db2"
      "db' = db2\<lparr>db_sessions := ss\<rparr>"
    by (auto simp: authorize_session_in_def bind_result_Inr_iff Let_def split: if_splits option.splits)
  have "heal_same db2 db'" by (simp add: rest(2) heal_same_def)
  with granted_profile_heal [OF p] agent_heal_same [OF stale_obs [OF rest(1)]] update_incident_heal show ?thesis
    by (blast intro: heal_same_trans)
qed

lemma remediation_heal: "heal_same db (snd (register_remediation k expected g identity payload e db))"
proof -
  have "heal_same db db'" if "register_remediation_in e k expected g identity payload db = Inr (m, db')" for m db'
  proof -
    from that obtain i where i: "find_incident k db = Some i"
      by (auto simp: register_remediation_in_def bind_result_Inr_iff split: option.splits)
    from that obtain t db1 ks db2 s db3 x where d1: "complete_identity t identity db = Inr db1"
      and d2: "revoke_authorized_sessions e 3 k (bump k (expected + 1) db1) = Inr (ks, db2)"
      and d3: "authorize_session_in e (3 + length ks) (env_now e) k (g\<lparr>sg_source := AS_post_remediation\<rparr>) db2 = Inr (s, db3)"
      and d4: "record_control e k ''register_remediation'' expected (expected + 1) (sg_actor g) x db3 = Inr db'"
      by (auto simp: register_remediation_in_def i bind_result_Inr_iff split: if_splits option.split_asm)
    note complete_identity_heal [OF d1]
    also have "heal_same db1 (bump k (expected + 1) db1)" by (rule agent_heal_same) simp
    also note revoke_heal [OF d2]
    also note authorize_session_heal [OF d3]
    also note agent_heal_same [OF record_control_obs [OF d4]]
    finally show ?thesis .
  qed
  then show ?thesis by (auto simp: register_remediation_def intro: heal_same_transaction)
qed


subsection \<open>Decisions\<close>

lemma find_put_decision [simp]:
  "find_decision k g (put_decision a db) = (if heal_key a = (k, g) then Some a else find_decision k g db)"
proof (cases "find_row heal_key (heal_key a) (db_self_heal db)")
  case None
  then show ?thesis by (auto simp: put_decision_def find_row_append split: option.splits)
next
  case (Some x)
  have "find_row heal_key (k, g) (update_where (\<lambda>x. heal_key x = heal_key a) (\<lambda>x. a) (db_self_heal db))
      = map_option (\<lambda>r. if heal_key r = heal_key a then a else r) (find_row heal_key (k, g) (db_self_heal db))"
    by (rule find_row_update_where) simp
  also have "\<dots> = (if heal_key a = (k, g) then Some a else find_row heal_key (k, g) (db_self_heal db))"
  proof (cases "heal_key a = (k, g)")
    case True
    with find_row_key [OF Some] show ?thesis using Some by simp
  next
    case False
    then show ?thesis by (cases "find_row heal_key (k, g) (db_self_heal db)") (auto dest: find_row_key)
  qed
  finally show ?thesis using Some unfolding put_decision_def by (simp del: prod.inject Pair_inject)
qed

lemma put_decision_events [simp]: "db_events (put_decision a db) = db_events db"
  by (simp add: put_decision_def)

lemma heal_same_put: "heal_same db db1 \<Longrightarrow> heal_same (put_decision a db) (put_decision a db1)"
  by (simp add: heal_same_def put_decision_def)

lemma settled_undecided: "\<not> settled_elsewhere t i g (find_decision k g db) \<Longrightarrow> undecided_yet k g db"
  by (auto simp: settled_elsewhere_def undecided_yet_def split: option.splits)

text \<open>Recording puts the decided row, the attempts are kept.\<close>

lemma record_auto_put:
  assumes "record_auto_observation k g st reason s db = (a, db')"
  shows "db' = put_decision a db \<and> sh_incident_id a = k \<and> sh_control_generation a = g \<and> sh_state a = st \<and> sh_reason a = reason
    \<and> sh_session_id a = s \<and> sh_next_attempt_at a = None \<and> sh_attempts a = attempts_of k g db"
proof (cases "find_decision k g db")
  case None
  with assms show ?thesis by (auto simp: record_auto_observation_def put_decision_def attempts_of_def Let_def)
next
  case (Some x)
  with find_row_key [OF Some] assms show ?thesis
    by (auto simp: record_auto_observation_def put_decision_def attempts_of_def Let_def)
qed

lemma record_auto_change:
  assumes "record_auto_observation k g st reason s db1 = (a, db')" and "heal_same db db1" and "undecided_yet k g db"
    and "(st = SH_authorized \<and> s \<noteq> None) \<or> (st = SH_skipped \<and> reason \<noteq> None \<and> s = None)"
  shows "heal_change db db'"
proof (rule settled [where a = a])
  note r = record_auto_put [OF assms(1)]
  show "heal_same (put_decision a db) db'" using r heal_same_put [OF assms(2)] by simp
  show "sh_attempts a = attempts_of (sh_incident_id a) (sh_control_generation a) db"
    using r assms(2) by (simp add: attempts_of_def heal_same_def)
qed (use record_auto_put [OF assms(1)] assms(3,4) in simp_all)

lemma authorize_automatic_heal:
  assumes "authorize_automatic_in e i g h db = Inr (s, db')"
  shows "heal_same db db'"
proof -
  from assms obtain t db1 db2 x where d1: "complete_identity t (hg_identity h) db = Inr db1"
    and d2: "authorize_session_in e 3 (env_later e) (ir_incident_id i) (automatic_grant h (env_now e)) db1 = Inr (s, db2)"
    and d3: "record_control e (ir_incident_id i) AUTO_OBSERVATION_ACTION g g AUTO_OBSERVATION_ACTOR x db2 = Inr db'"
    by (auto simp: authorize_automatic_in_def bind_result_Inr_iff split: option.splits)
  note complete_identity_heal [OF d1]
  also note authorize_session_heal [OF d2]
  also note agent_heal_same [OF record_control_obs [OF d3]]
  finally show ?thesis .
qed

text \<open>The decision: skipped with a reason, or authorized with the session of the primitive.\<close>

lemma decide_automatic_cases:
  assumes "decide_automatic e i g grant refusal sc db = Inr (a, db')"
  obtains (skip) reason where "record_auto_observation (ir_incident_id i) g SH_skipped (Some reason) None db = (a, db')"
  | (authorize) h s db1 where "auto_observation_refusal i sc g db = None" and "refusal = None" and "grant = Some h"
      and "authorize_automatic_in e i g h db = Inr (s, db1)"
      and "record_auto_observation (ir_incident_id i) g SH_authorized None (Some s) db1 = (a, db')"
  using assms by (auto simp: decide_automatic_def Let_def split: option.splits sum.splits)

lemma decide_automatic_change:
  assumes "decide_automatic e i g grant refusal sc db = Inr (a, db')" and "undecided_yet (ir_incident_id i) g db"
  shows "heal_change db db'"
  using assms(1)
proof (cases rule: decide_automatic_cases)
  case skip
  then show ?thesis using assms(2) by (auto intro: record_auto_change)
next
  case (authorize h s db1)
  show ?thesis by (rule record_auto_change [OF authorize(5) authorize_automatic_heal [OF authorize(4)] assms(2)]) simp
qed

text \<open>What the transaction of the automatic authorization may do.\<close>

lemma authorize_automatic_cases:
  assumes "snd (authorize_automatic_observation k g grant refusal locked e db) = db'"
  obtains (nothing) "db' = db"
  | (decided) i sc a where "find_incident k db = Some i" and "ir_incident_id i = k" and "lock_scope db (Some k) [] = Inr sc"
      and "undecided_yet k g db" and "decide_automatic e i g grant refusal sc db = Inr (a, db')"
proof (cases "db' = db")
  case False
  then have n: "\<not> (g < 0 \<or> (grant = None \<and> refusal = None) \<or> refusal = Some [])"
    using assms unfolding authorize_automatic_observation_def by (auto split: if_splits)
  from assms False obtain sc where sc: "lock_scope db (Some k) [] = Inr sc"
    unfolding authorize_automatic_observation_def if_not_P [OF n] by (cases "lock_scope db (Some k) []") auto
  from assms False obtain i where i: "find_incident k db = Some i" and l: "\<not> locked"
    unfolding authorize_automatic_observation_def if_not_P [OF n] by (cases "find_incident k db") (auto simp: sc split: if_splits)
  from assms False have u: "\<not> settled_elsewhere (env_now e) i g (find_decision k g db)"
    unfolding authorize_automatic_observation_def if_not_P [OF n] by (auto simp: sc i l split: if_splits)
  from assms False obtain a where "decide_automatic e i g grant refusal sc db = Inr (a, db')"
    unfolding authorize_automatic_observation_def if_not_P [OF n]
    by (cases "decide_automatic e i g grant refusal sc db") (auto simp: sc i l u)
  with decided [OF i _ sc settled_undecided [OF u]] find_row_key [OF i] show ?thesis by simp
qed (rule nothing)

lemma automatic_heals: "heal_change db (snd (authorize_automatic_observation k g grant refusal locked e db))"
proof -
  obtain db' where d: "snd (authorize_automatic_observation k g grant refusal locked e db) = db'" by blast
  then have "heal_change db db'"
  proof (cases rule: authorize_automatic_cases)
    case nothing
    then show ?thesis by (simp add: kept)
  next
    case (decided i sc a)
    with decide_automatic_change [OF decided(5)] show ?thesis by simp
  qed
  with d show ?thesis by simp
qed

text \<open>A counted failure.\<close>

definition decision_before :: "env \<Rightarrow> uuid \<Rightarrow> int \<Rightarrow> string \<Rightarrow> db \<Rightarrow> self_heal_row" where
  "decision_before e k g reason db = (case find_decision k g db of Some a \<Rightarrow> a
     | None \<Rightarrow> \<lparr>sh_incident_id = k, sh_control_generation = g, sh_state = SH_retrying, sh_reason = Some reason,
         sh_attempts = 0, sh_next_attempt_at = Some (env_now e), sh_session_id = None\<rparr>)"

definition failed_decision :: "env \<Rightarrow> uuid \<Rightarrow> int \<Rightarrow> string \<Rightarrow> db \<Rightarrow> self_heal_row" where
  "failed_decision e k g reason db = failed_attempt e reason (decision_before e k g reason db)"

lemma failed_decision_row:
  "sh_incident_id (failed_decision e k g reason db) = k" "sh_control_generation (failed_decision e k g reason db) = g"
  "sh_attempts (failed_decision e k g reason db) = attempts_of k g db + 1"
  "sh_session_id (failed_decision e k g reason db) = session_id_of k g db"
  "sh_state (failed_decision e k g reason db) = (if attempts_of k g db + 1 < AUTO_OBSERVATION_MAX_ATTEMPTS then SH_retrying else SH_handed_off)"
  "(sh_next_attempt_at (failed_decision e k g reason db) = None) = (AUTO_OBSERVATION_MAX_ATTEMPTS \<le> attempts_of k g db + 1)"
proof -
  let ?b = "decision_before e k g reason db"
  have b: "sh_incident_id ?b = k" "sh_control_generation ?b = g" "sh_attempts ?b = attempts_of k g db" "sh_session_id ?b = session_id_of k g db"
  proof -
    show "sh_incident_id ?b = k" "sh_control_generation ?b = g"
      by (cases "find_decision k g db"; use find_row_key [of heal_key "(k, g)" "db_self_heal db"] in \<open>simp add: decision_before_def\<close>)+
  qed (cases "find_decision k g db"; simp add: decision_before_def attempts_of_def session_id_of_def)+
  then show "sh_incident_id (failed_decision e k g reason db) = k" "sh_control_generation (failed_decision e k g reason db) = g"
    "sh_attempts (failed_decision e k g reason db) = attempts_of k g db + 1"
    "sh_session_id (failed_decision e k g reason db) = session_id_of k g db"
    "sh_state (failed_decision e k g reason db) = (if attempts_of k g db + 1 < AUTO_OBSERVATION_MAX_ATTEMPTS then SH_retrying else SH_handed_off)"
    "(sh_next_attempt_at (failed_decision e k g reason db) = None) = (AUTO_OBSERVATION_MAX_ATTEMPTS \<le> attempts_of k g db + 1)"
    by (simp_all add: failed_decision_def failed_attempt_def Let_def)
qed

lemma count_failure_alt:
  "count_failure e k g reason db = (let a = failed_decision e k g reason db; db1 = put_decision a db in
     if sh_state a \<noteq> SH_handed_off then Inr (a, db1)
     else bind_result (append_once_in k AUTO_OBSERVATION_HANDED_OFF (handed_off_payload a) (fmap_of_list [(''control_generation'', JInt g)]) db1)
       (\<lambda>(n, db2). Inr (a, db2)))"
proof -
  have h: "heal_key (failed_decision e k g reason db) = (k, g)" by (simp add: failed_decision_row)
  show ?thesis unfolding Let_def put_decision_def h unfolding count_failure_def Let_def failed_decision_def decision_before_def
    by (rule refl)
qed

lemma hand_off_retained: "event_retained (fmap_of_list [(''control_generation'', JInt g)]) p = (fmlookup p ''control_generation'' = Some (JInt g))"
  by (auto simp: event_retained_def payload_contains_def fmpred_iff fmlookup_of_list)

lemma hand_off_events:
  assumes "append_once_in k AUTO_OBSERVATION_HANDED_OFF (handed_off_payload a) (fmap_of_list [(''control_generation'', JInt g)]) db = Inr (n, db')"
    and "sh_control_generation a = g"
  shows "\<exists>vs. db' = db\<lparr>db_events := db_events db @ vs\<rparr>
    \<and> (if handed_events k g db = [] then \<exists>v. vs = [v] \<and> handed_event k g v else vs = [])"
proof -
  define K where "K = fmap_of_list [(''control_generation'', JInt g)]"
  have r: "filter (\<lambda>v. ev_subject_id v = k \<and> ev_kind v = AUTO_OBSERVATION_HANDED_OFF \<and> event_retained K (ev_payload v)) (db_events db)
      = handed_events k g db"
    unfolding handed_events_def K_def hand_off_retained by (rule filter_cong) (simp_all add: handed_event_def)
  note a = assms(1) [folded K_def, unfolded append_once_in_def r Let_def]
  show ?thesis
  proof (cases "handed_events k g db = []")
    case True
    let ?v = "\<lambda>n. \<lparr>ev_subject_id = k, ev_sequence = n, ev_kind = AUTO_OBSERVATION_HANDED_OFF, ev_payload = handed_off_payload a\<rparr>"
    from a True obtain m where "db' = db\<lparr>db_events := db_events db @ [?v m]\<rparr>" by (auto split: if_splits)
    moreover have "handed_event k g (?v m)" using assms(2) by (simp add: handed_event_def handed_off_payload_def)
    ultimately show ?thesis using True by (intro exI [of _ "[?v m]"]) simp
  next
    case False
    with a have "db' = db" by (simp split: if_splits)
    with False show ?thesis by (intro exI [of _ "[]"]) simp
  qed
qed

lemma count_failure_change:
  assumes "count_failure e k g reason db = Inr (a, db')" and "undecided_yet k g db"
  shows "heal_change db db' \<and> a = failed_decision e k g reason db"
proof (cases "attempts_of k g db + 1 < AUTO_OBSERVATION_MAX_ATTEMPTS")
  case True
  with assms(1) have p: "db' = put_decision (failed_decision e k g reason db) db" "a = failed_decision e k g reason db"
    by (auto simp: count_failure_alt Let_def failed_decision_row)
  have "heal_change db db'"
    by (rule retried [where a = "failed_decision e k g reason db"]) (use True assms(2) p in \<open>simp_all add: failed_decision_row\<close>)
  with p show ?thesis by simp
next
  case False
  let ?a = "failed_decision e k g reason db"
  define K where "K = fmap_of_list [(''control_generation'', JInt g)]"
  have off: "\<not> (sh_state ?a \<noteq> SH_handed_off)" using False by (simp add: failed_decision_row)
  note c = assms(1) [unfolded count_failure_alt Let_def if_not_P [OF off], folded K_def]
  from c obtain n where
    n: "append_once_in k AUTO_OBSERVATION_HANDED_OFF (handed_off_payload ?a) K (put_decision ?a db) = Inr (n, db')" and a: "a = ?a"
    unfolding bind_result_Inr_iff by (elim exE conjE) (simp only: split_paired_all prod.case sum.inject prod.inject)
  have h: "handed_events k g (put_decision ?a db) = handed_events k g db" by (simp add: handed_events_def)
  from hand_off_events [OF n [unfolded K_def] failed_decision_row(2)] obtain vs where
    vs: "db' = (put_decision ?a db)\<lparr>db_events := db_events (put_decision ?a db) @ vs\<rparr>"
    "if handed_events k g db = [] then \<exists>v. vs = [v] \<and> handed_event k g v else vs = []"
    unfolding h by (elim exE conjE)
  have s: "heal_same ((put_decision ?a db)\<lparr>db_events := db_events db @ vs\<rparr>) db'" by (simp add: vs(1) heal_same_def)
  have "heal_change db db'"
    by (rule handed [where a = ?a and vs = vs])
      (use s vs(2) assms(2) False [unfolded not_less] in \<open>simp_all only: failed_decision_row if_not_P [OF False]\<close>)
  with a show ?thesis by simp
qed

lemma fail_or_retire_change:
  assumes "fail_or_retire e i g reason db = Inr (a, db')" and "undecided_yet (ir_incident_id i) g db"
  shows "heal_change db db'"
proof (cases "failure_stale i g db")
  case None
  with assms show ?thesis by (auto simp: fail_or_retire_def dest: count_failure_change)
next
  case (Some stale)
  with assms(1) have r: "record_auto_observation (ir_incident_id i) g SH_skipped (Some stale) None db = (a, db')"
    by (simp add: fail_or_retire_def)
  show ?thesis by (rule record_auto_change [OF r heal_same_refl assms(2)]) simp
qed

lemma auto_failure_heals: "heal_change db (snd (record_auto_observation_failure k g reason e db))"
proof (cases "g < 0 \<or> reason = []")
  case True
  then show ?thesis by (simp add: record_auto_observation_failure_def kept)
next
  case False
  let ?r = "bind_result (lock_scope db (Some k) []) (\<lambda>sc. case find_incident k db of None \<Rightarrow> Inl E_UNKNOWN_IDENTITY
        | Some i \<Rightarrow> (case find_decision k g db of
            Some a \<Rightarrow> if sh_state a \<noteq> SH_retrying then Inr (a, db) else fail_or_retire e i g reason db
          | None \<Rightarrow> fail_or_retire e i g reason db))"
  have "heal_change db db'" if r: "?r = Inr (a, db')" for a db'
  proof -
    from r obtain sc i where i: "find_incident k db = Some i"
      by (auto simp: bind_result_Inr_iff split: option.split_asm)
    from find_row_key [OF i] have k: "ir_incident_id i = k" by simp
    from r i consider "db' = db" | "fail_or_retire e i g reason db = Inr (a, db')" "undecided_yet k g db"
      by (auto simp: bind_result_Inr_iff undecided_yet_def split: option.split_asm if_split_asm)
    then show ?thesis
    proof cases
      case 2
      with fail_or_retire_change k show ?thesis by blast
    qed (simp add: kept)
  qed
  then have "heal_change db (snd (transaction db ?r))"
    by (cases ?r) (auto simp: kept)
  with False show ?thesis by (simp add: record_auto_observation_failure_def)
qed

text \<open>Every operation of the store is one change.\<close>

lemma store_step_heals: "store_step db db' \<Longrightarrow> heal_change db db'"
proof (induction rule: store_step.induct)
  case (step_authorize db k g e)
  show ?case unfolding authorize_session_def
    by (rule kept, rule heal_same_transaction) (rule authorize_session_heal)
qed (blast intro: kept agent_heals automatic_heals auto_failure_heals claim_heal submit_heal expire_heal revoke_sessions_heal remediation_heal)+

subsection \<open>The invariant\<close>

text \<open>A decision by its row, and the timeline events of its hand-off.\<close>

definition decision_ok :: "self_heal_row \<Rightarrow> bool" where
  "decision_ok a \<longleftrightarrow> 0 \<le> sh_attempts a \<and> (sh_state a = SH_handed_off \<longleftrightarrow> sh_attempts a = AUTO_OBSERVATION_MAX_ATTEMPTS)
     \<and> sh_attempts a \<le> AUTO_OBSERVATION_MAX_ATTEMPTS \<and> (sh_next_attempt_at a \<noteq> None \<longleftrightarrow> sh_state a = SH_retrying)
     \<and> (sh_session_id a \<noteq> None \<longleftrightarrow> sh_state a = SH_authorized) \<and> (sh_state a = SH_skipped \<longrightarrow> sh_reason a \<noteq> None)
     \<and> (sh_state a = SH_retrying \<longrightarrow> 0 < sh_attempts a)"

definition handed_off_decision :: "uuid \<Rightarrow> int \<Rightarrow> db \<Rightarrow> bool" where
  "handed_off_decision k g db \<longleftrightarrow> map_option sh_state (find_decision k g db) = Some SH_handed_off"

definition heal_ok :: "db \<Rightarrow> bool" where
  "heal_ok db \<longleftrightarrow> (\<forall>k g. (case find_decision k g db of None \<Rightarrow> True | Some a \<Rightarrow> decision_ok a)
     \<and> length (handed_events k g db) = (if handed_off_decision k g db then 1 else 0))"

lemma heal_okD:
  assumes "heal_ok db"
  shows "find_decision k g db = Some a \<Longrightarrow> decision_ok a"
    and "length (handed_events k g db) = (if handed_off_decision k g db then 1 else 0)"
  using assms by (auto simp: heal_ok_def split: option.splits)

lemma heal_same_views:
  "heal_same db db' \<Longrightarrow> find_decision k g db' = find_decision k g db"
  "heal_same db db' \<Longrightarrow> handed_events k g db' = handed_events k g db"
  by (simp_all add: heal_same_def handed_events_def)

lemma heal_ok_same: "heal_same db db' \<Longrightarrow> heal_ok db \<Longrightarrow> heal_ok db'"
  by (simp add: heal_ok_def heal_same_views handed_off_decision_def)

lemma undecided_row:
  assumes "heal_ok db" and "undecided_yet k g db"
  shows "0 \<le> attempts_of k g db" "attempts_of k g db < AUTO_OBSERVATION_MAX_ATTEMPTS" "session_id_of k g db = None"
    and "\<not> handed_off_decision k g db" "handed_events k g db = []"
proof -
  have "0 \<le> attempts_of k g db \<and> attempts_of k g db < AUTO_OBSERVATION_MAX_ATTEMPTS \<and> session_id_of k g db = None
    \<and> \<not> handed_off_decision k g db"
  proof (cases "find_decision k g db")
    case None
    then show ?thesis by (simp add: attempts_of_def session_id_of_def handed_off_decision_def AUTO_OBSERVATION_MAX_ATTEMPTS_def)
  next
    case (Some a)
    with assms(2) heal_okD(1) [OF assms(1) Some] show ?thesis
      by (auto simp: attempts_of_def session_id_of_def handed_off_decision_def undecided_yet_def decision_ok_def)
  qed
  then show "0 \<le> attempts_of k g db" "attempts_of k g db < AUTO_OBSERVATION_MAX_ATTEMPTS" "session_id_of k g db = None"
    "\<not> handed_off_decision k g db" by blast+
  with heal_okD(2) [OF assms(1), of k g] show "handed_events k g db = []" by simp
qed

lemma put_decision_no_events [simp]: "(put_decision a db)\<lparr>db_events := db_events db\<rparr> = put_decision a db"
  by (simp add: put_decision_def)

text \<open>A decided row keeps the invariant when its events fit it.\<close>

lemma heal_ok_put:
  assumes "heal_ok db" and "decision_ok a" and "sh_incident_id a = k" "sh_control_generation a = g" and "undecided_yet k g db"
    and "vs = (if sh_state a = SH_handed_off then [v] else [])" and "sh_state a = SH_handed_off \<Longrightarrow> handed_event k g v"
  shows "heal_ok ((put_decision a db)\<lparr>db_events := db_events db @ vs\<rparr>)" (is "heal_ok ?db")
  unfolding heal_ok_def
proof (intro allI)
  fix x y
  have f: "find_decision x y ?db = (if x = k \<and> y = g then Some a else find_decision x y db)"
    using find_put_decision [of x y a db] assms(3,4) by auto
  have h: "handed_events x y ?db = handed_events x y db @ filter (handed_event x y) vs"
    by (simp add: handed_events_def)
  show "(case find_decision x y ?db of None \<Rightarrow> True | Some a \<Rightarrow> decision_ok a)
     \<and> length (handed_events x y ?db) = (if handed_off_decision x y ?db then 1 else 0)"
  proof (cases "x = k \<and> y = g")
    case True
    then have e: "find_decision x y ?db = Some a" "handed_events x y ?db = filter (handed_event k g) vs"
      using f h undecided_row(5) [OF assms(1,5)] by simp_all
    have "handed_off_decision x y ?db \<longleftrightarrow> sh_state a = SH_handed_off"
      unfolding handed_off_decision_def e(1) by simp
    then show ?thesis unfolding e by (cases "sh_state a = SH_handed_off") (use assms(2,6,7) in simp_all)
  next
    case False
    have "filter (handed_event x y) vs = []"
      using False assms(6,7) by (auto simp: handed_event_def split: if_splits)
    then have e: "find_decision x y ?db = find_decision x y db" "handed_events x y ?db = handed_events x y db"
      using f [unfolded if_not_P [OF False]] h by simp_all
    then have "handed_off_decision x y ?db = handed_off_decision x y db" by (simp only: handed_off_decision_def)
    with assms(1) show ?thesis unfolding e by (simp only: heal_ok_def)
  qed
qed

lemma heal_ok_change: "heal_change db db' \<Longrightarrow> heal_ok db \<Longrightarrow> heal_ok db'"
proof (induction rule: heal_change.induct)
  case (kept db db')
  then show ?case by (blast intro: heal_ok_same)
next
  case (settled a db db')
  note u = undecided_row [OF settled.prems settled.hyps(2)]
  have "decision_ok a" using settled.hyps(3-5) u(1,2) by (auto simp: decision_ok_def)
  from heal_ok_put [OF settled.prems this refl refl settled.hyps(2), of "[]"] settled.hyps(5)
  have "heal_ok (put_decision a db)" by auto
  with settled.hyps(1) show ?case by (rule heal_ok_same)
next
  case (retried a db db')
  note u = undecided_row [OF retried.prems retried.hyps(2)]
  have "decision_ok a" using retried.hyps(3-7) u(1,3) by (auto simp: decision_ok_def)
  from heal_ok_put [OF retried.prems this refl refl retried.hyps(2), of "[]"] retried.hyps(5)
  have "heal_ok (put_decision a db)" by auto
  with retried.hyps(1) show ?case by (rule heal_ok_same)
next
  case (handed db vs a db')
  note u = undecided_row [OF handed.prems handed.hyps(2)]
  have d: "decision_ok a" using handed.hyps(3-7) u(1-3) by (auto simp: decision_ok_def)
  from handed.hyps(8) u(5) obtain v where v: "vs = [v]" "handed_event (sh_incident_id a) (sh_control_generation a) v" by auto
  have "heal_ok ((put_decision a db)\<lparr>db_events := db_events db @ vs\<rparr>)"
    by (rule heal_ok_put [OF handed.prems d refl refl handed.hyps(2)]) (use v handed.hyps(5) in simp_all)
  with handed.hyps(1) show ?case by (rule heal_ok_same)
qed

text \<open>A decision that is settled or handed off is never touched again.\<close>

lemma decided_stays:
  assumes "heal_change db db'" and "find_decision k g db = Some a" and "sh_state a \<noteq> SH_retrying"
  shows "find_decision k g db' = Some a"
proof -
  have other: "find_decision k g (put_decision x db) = Some a" if "undecided_yet (sh_incident_id x) (sh_control_generation x) db" for x
  proof -
    have "heal_key x \<noteq> (k, g)" using that assms(2,3) by (auto simp: undecided_yet_def)
    then show ?thesis using assms(2) find_put_decision [of k g x db] by (simp only: if_False)
  qed
  from assms(1) show ?thesis
  proof cases
    case kept
    with assms(2) show ?thesis by (simp only: heal_same_views)
  next
    case (settled x)
    with other [OF settled(2)] show ?thesis by (simp only: heal_same_views)
  next
    case (retried x)
    with other [OF retried(2)] show ?thesis by (simp only: heal_same_views)
  next
    case (handed vs x)
    have "find_decision k g db' = find_decision k g ((put_decision x db)\<lparr>db_events := db_events db @ vs\<rparr>)"
      by (rule heal_same_views(1) [OF handed(1)])
    also have "\<dots> = find_decision k g (put_decision x db)" by (simp del: find_put_decision)
    finally show ?thesis using other [OF handed(2)] by simp
  qed
qed

lemma heal_steps:
  assumes "store_steps db db'"
  shows "heal_ok db \<Longrightarrow> heal_ok db'"
    and "find_decision k g db = Some a \<Longrightarrow> sh_state a \<noteq> SH_retrying \<Longrightarrow> find_decision k g db' = Some a"
  using assms
  by (induction rule: rtranclp_induct) (blast intro: heal_ok_change store_step_heals decided_stays)+

lemma heal_ok_initial: "heal_ok initial_db"
  by (simp add: heal_ok_def initial_db_def handed_events_def handed_off_decision_def)

lemma heal_reachable: "reachable db \<Longrightarrow> heal_ok db"
  unfolding reachable_def using heal_steps(1) heal_ok_initial by blast

end
