(* ===== verification/Self_Heal_Properties.thy ===== *)
theory Self_Heal_Properties
  imports Self_Heal Observation_Examples
begin

section \<open>Properties of the automatic observation\<close>

text \<open>
  What the rows of \<open>self_heal\<close> promise: a decision is taken once, it authorizes only what a published,
  unattended incident allows, and repeated failures end with a human.
\<close>

definition skipped_db :: db where
  "skipped_db = snd (record_auto_observation_failure 1 0 ''PROFILE_UNREADABLE'' (watch_env 1000000 100) opened_db)"

lemma skipped_decision: "find_decision 1 0 skipped_db = Some \<lparr>sh_incident_id = 1, sh_control_generation = 0, sh_state = SH_skipped,
    sh_reason = Some ''NOT_PUBLISHED_AT_GENERATION'', sh_attempts = 0, sh_next_attempt_at = None, sh_session_id = None\<rparr>"
proof -
  have "ir_conclusion (watched L_open 0 0) = None" by (simp add: watched_def)
  moreover have "db_self_heal opened_db = []" by (simp add: opened_db_eq registered_db_eq initial_db_def)
  ultimately show ?thesis
    by (simp add: skipped_db_def record_auto_observation_failure_def fail_or_retire_def failure_stale_def record_auto_observation_def Let_def
        del: One_nat_def)
qed

lemma skipped_reachable: "reachable skipped_db"
proof -
  have "reachable opened_db" using observed_reachable [OF opened_observed] .
  then show ?thesis unfolding skipped_db_def by (rule reachable_step) (rule step_auto_failure)
qed

text \<open>\<^bold>\<open>C29\<close> (\<open>authorize_automatic_observation\<close>, \<open>record_auto_observation_failure\<close>) A decision on the automatic observation of a
  control generation is settled once: it counts at most five attempts, is handed off exactly at the fifth with
  one timeline event, has a next attempt exactly while it is retried and a session exactly when it authorized
  one; once settled or handed off, no later operation of any kind changes it.\<close>

theorem decisions_settle_once:
  assumes "reachable db" and "find_decision k g db = Some a"
  shows "0 \<le> sh_attempts a \<and> sh_attempts a \<le> 5 \<and> (sh_state a = SH_handed_off \<longleftrightarrow> sh_attempts a = 5)
    \<and> (sh_next_attempt_at a \<noteq> None \<longleftrightarrow> sh_state a = SH_retrying) \<and> (sh_session_id a \<noteq> None \<longleftrightarrow> sh_state a = SH_authorized)
    \<and> length (handed_events k g db) = (if sh_state a = SH_handed_off then 1 else 0)
    \<and> (sh_state a \<noteq> SH_retrying \<longrightarrow> (\<forall>db'. store_steps db db' \<longrightarrow> find_decision k g db' = Some a))"
proof -
  have ok: "heal_ok db" using assms(1) by (rule heal_reachable)
  from heal_okD(1) [OF ok assms(2)] have "0 \<le> sh_attempts a \<and> sh_attempts a \<le> 5 \<and> (sh_state a = SH_handed_off \<longleftrightarrow> sh_attempts a = 5)
    \<and> (sh_next_attempt_at a \<noteq> None \<longleftrightarrow> sh_state a = SH_retrying) \<and> (sh_session_id a \<noteq> None \<longleftrightarrow> sh_state a = SH_authorized)"
    unfolding decision_ok_def AUTO_OBSERVATION_MAX_ATTEMPTS_def by blast
  moreover have "length (handed_events k g db) = (if sh_state a = SH_handed_off then 1 else 0)"
    using heal_okD(2) [OF ok, of k g] by (simp add: handed_off_decision_def assms(2))
  ultimately show ?thesis using heal_steps(2) [OF _ assms(2)] by blast
qed

theorem decisions_settle_once_witness:
  "\<exists>a. find_decision 1 0 skipped_db = Some a \<and> sh_state a = SH_skipped \<and> handed_events 1 0 skipped_db = []
    \<and> find_decision 1 0 (snd (record_auto_observation_failure 1 0 ''PROFILE_UNREADABLE'' (watch_env 2000000 200) skipped_db)) = Some a"
proof -
  have "store_steps skipped_db (snd (record_auto_observation_failure 1 0 ''PROFILE_UNREADABLE'' (watch_env 2000000 200) skipped_db))"
    by (rule r_into_rtranclp) (rule step_auto_failure)
  then show ?thesis using decisions_settle_once [OF skipped_reachable skipped_decision] skipped_decision by simp
qed

subsection \<open>Failures\<close>

text \<open>Failures of one decision, each counted in a transaction of its own.\<close>

definition fail_all :: "uuid \<Rightarrow> int \<Rightarrow> string \<Rightarrow> env list \<Rightarrow> db \<Rightarrow> db" where
  "fail_all k g reason es db = fold (\<lambda>e db. snd (record_auto_observation_failure k g reason e db)) es db"

definition waits_for_observation :: "uuid \<Rightarrow> int \<Rightarrow> db \<Rightarrow> bool" where
  "waits_for_observation k g db \<longleftrightarrow> 0 \<le> g \<and> (\<exists>i sc. find_incident k db = Some i \<and> lock_scope db (Some k) [] = Inr sc
     \<and> ir_control_generation i = g \<and> ir_conclusion i \<noteq> None \<and> published_here i db)"

lemma lock_scope_frame: "lock_scope (db\<lparr>db_self_heal := hs, db_events := vs\<rparr>) k ts = lock_scope db k ts"
  by (simp add: lock_scope_def incident_target_def Let_def cong: if_cong option.case_cong)

lemma waits_frame: "waits_for_observation k g db \<Longrightarrow> waits_for_observation k g (db\<lparr>db_self_heal := hs, db_events := vs\<rparr>)"
  by (simp add: waits_for_observation_def lock_scope_frame published_here_def cong: option.case_cong)

lemma hand_off_appends: "\<exists>n db'. append_once_in k AUTO_OBSERVATION_HANDED_OFF p K db = Inr (n, db')"
  by (simp add: append_once_in_def AUTO_OBSERVATION_HANDED_OFF_def Let_def)

lemma put_decision_frame: "put_decision a db = db\<lparr>db_self_heal := db_self_heal (put_decision a db), db_events := db_events db\<rparr>"
  by (simp add: put_decision_def)

text \<open>One failure counts one attempt.\<close>

lemma failure_counted:
  assumes "waits_for_observation k g db" and "undecided_yet k g db" and "reason \<noteq> []"
  shows "\<exists>hs vs. snd (record_auto_observation_failure k g reason e db) = db\<lparr>db_self_heal := hs, db_events := vs\<rparr>
    \<and> find_decision k g (snd (record_auto_observation_failure k g reason e db)) = Some (failed_decision e k g reason db)"
proof -
  from assms(1) obtain i sc where i: "find_incident k db = Some i" "lock_scope db (Some k) [] = Inr sc" "0 \<le> g" "failure_stale i g db = None"
    by (auto simp: waits_for_observation_def failure_stale_def)
  from find_row_key [OF i(1)] have k: "ir_incident_id i = k" .
  have f: "fail_or_retire e i g reason db = count_failure e k g reason db" by (simp add: fail_or_retire_def i(4) k)
  let ?a = "failed_decision e k g reason db"
  have p: "find_decision k g (put_decision ?a db) = Some ?a"
    using find_put_decision [of k g ?a db] failed_decision_row(1,2) [of e k g reason db] by (simp del: find_put_decision)
  obtain hs where hs: "put_decision ?a db = db\<lparr>db_self_heal := hs, db_events := db_events db\<rparr>"
    using put_decision_frame [of ?a db] by blast
  have "\<exists>hs vs. count_failure e k g reason db = Inr (?a, db\<lparr>db_self_heal := hs, db_events := vs\<rparr>)
      \<and> find_decision k g (db\<lparr>db_self_heal := hs, db_events := vs\<rparr>) = Some ?a"
  proof (cases "sh_state ?a = SH_handed_off")
    case False
    have "count_failure e k g reason db = Inr (?a, put_decision ?a db)" unfolding count_failure_alt Let_def if_P [OF False] ..
    with p show ?thesis unfolding hs by blast
  next
    case True
    let ?p = "put_decision ?a db"
    from hand_off_appends obtain n db' where
      n: "append_once_in k AUTO_OBSERVATION_HANDED_OFF (handed_off_payload ?a) (fmap_of_list [(''control_generation'', JInt g)]) ?p = Inr (n, db')" by blast
    from hand_off_events [OF n failed_decision_row(2)] obtain vs where "db' = ?p\<lparr>db_events := db_events ?p @ vs\<rparr>" by blast
    then have d: "db' = db\<lparr>db_self_heal := hs, db_events := db_events db @ vs\<rparr>" unfolding hs by simp
    have "count_failure e k g reason db = Inr (?a, db')"
      unfolding count_failure_alt Let_def n using True by simp
    moreover have "find_decision k g db' = Some ?a" using p unfolding hs d by simp
    ultimately show ?thesis unfolding d by blast
  qed
  then obtain hs vs where c: "count_failure e k g reason db = Inr (?a, db\<lparr>db_self_heal := hs, db_events := vs\<rparr>)"
    "find_decision k g (db\<lparr>db_self_heal := hs, db_events := vs\<rparr>) = Some ?a" by blast
  have "snd (record_auto_observation_failure k g reason e db) = db\<lparr>db_self_heal := hs, db_events := vs\<rparr>"
    using assms(2,3) i(3)
    by (cases "find_decision k g db") (simp_all add: record_auto_observation_failure_def i(1,2) f c(1) undecided_yet_def)
  with c(2) show ?thesis by (intro exI conjI) simp_all
qed

lemma fail_all_state:
  assumes "waits_for_observation k g db" and "find_decision k g db = None" and "reason \<noteq> []" and "length es \<le> 5" and "es \<noteq> []"
  shows "\<exists>a. (\<exists>hs vs. fail_all k g reason es db = db\<lparr>db_self_heal := hs, db_events := vs\<rparr>)
    \<and> find_decision k g (fail_all k g reason es db) = Some a \<and> sh_attempts a = int (length es)
    \<and> sh_state a = (if length es = 5 then SH_handed_off else SH_retrying) \<and> sh_reason a = Some reason
    \<and> sh_next_attempt_at a = (if length es = 5 then None
        else Some (env_now (last es) + seconds (AUTO_OBSERVATION_RETRY_BASE_SECONDS * 2 ^ (length es - 1))))"
  using assms(4,5)
proof (induction es rule: rev_induct)
  case (snoc e es)
  let ?db = "fail_all k g reason es db"
  have l: "length es < 5" using snoc.prems by simp
  have fr: "(\<exists>hs vs. ?db = db\<lparr>db_self_heal := hs, db_events := vs\<rparr>) \<and> undecided_yet k g ?db \<and> attempts_of k g ?db = int (length es)"
  proof (cases "es = []")
    case True
    have "db = db\<lparr>db_self_heal := db_self_heal db, db_events := db_events db\<rparr>" by simp
    then have "\<exists>hs vs. db = db\<lparr>db_self_heal := hs, db_events := vs\<rparr>" by blast
    with True show ?thesis using assms(2) by (simp add: fail_all_def undecided_yet_def attempts_of_def)
  next
    case False
    with snoc.IH l obtain a hs vs where "?db = db\<lparr>db_self_heal := hs, db_events := vs\<rparr>" "find_decision k g ?db = Some a"
      "sh_attempts a = int (length es)" "sh_state a = SH_retrying" by auto
    then show ?thesis by (auto simp: undecided_yet_def attempts_of_def)
  qed
  then obtain hs vs where d: "?db = db\<lparr>db_self_heal := hs, db_events := vs\<rparr>" by blast
  have w: "waits_for_observation k g ?db" unfolding d by (rule waits_frame) (rule assms(1))
  let ?a = "failed_decision e k g reason ?db"
  from failure_counted [OF w _ assms(3), where e = e] fr obtain hs' vs' where
    s: "fail_all k g reason (es @ [e]) db = ?db\<lparr>db_self_heal := hs', db_events := vs'\<rparr>"
    "find_decision k g (fail_all k g reason (es @ [e]) db) = Some ?a" by (auto simp: fail_all_def)
  have n: "sh_attempts (decision_before e k g reason ?db) = int (length es)"
    using conjunct2 [OF conjunct2 [OF fr]] by (cases "find_decision k g ?db") (simp_all add: decision_before_def attempts_of_def)
  have "sh_attempts ?a = int (length (es @ [e]))" "sh_state ?a = (if length (es @ [e]) = 5 then SH_handed_off else SH_retrying)"
    "sh_reason ?a = Some reason" "sh_next_attempt_at ?a = (if length (es @ [e]) = 5 then None
        else Some (env_now e + seconds (AUTO_OBSERVATION_RETRY_BASE_SECONDS * 2 ^ (length (es @ [e]) - 1))))"
    using l by (simp_all add: failed_decision_def failed_attempt_def n Let_def AUTO_OBSERVATION_MAX_ATTEMPTS_def)
  moreover have "\<exists>hs vs. fail_all k g reason (es @ [e]) db = db\<lparr>db_self_heal := hs, db_events := vs\<rparr>"
    unfolding s(1) d by (intro exI [of _ hs'] exI [of _ vs']) simp
  ultimately show ?case using s(2) by (intro exI [of _ ?a]) simp
qed simp

text \<open>\<^bold>\<open>C30\<close> (\<open>record_auto_observation_failure\<close>) While an incident waits for its automatic observation, each failure delays
  the next attempt by a doubled interval (30 seconds, then 60, 120 and 240), and the fifth always hands the
  decision to a human: it is handed off without another attempt.\<close>

theorem repeated_failures_hand_off:
  assumes "waits_for_observation k g db" and "find_decision k g db = None" and "reason \<noteq> []" and "1 \<le> length es" "length es \<le> 5"
  shows "\<exists>a. find_decision k g (fail_all k g reason es db) = Some a \<and> sh_attempts a = int (length es)
    \<and> (length es < 5 \<longrightarrow> sh_state a = SH_retrying \<and> sh_next_attempt_at a = Some (env_now (last es) + seconds (30 * 2 ^ (length es - 1))))
    \<and> (length es = 5 \<longrightarrow> sh_state a = SH_handed_off \<and> sh_next_attempt_at a = None)"
proof -
  from assms(4) have "es \<noteq> []" by auto
  from fail_all_state [OF assms(1-3,5) this] show ?thesis by (auto simp: AUTO_OBSERVATION_RETRY_BASE_SECONDS_def)
qed

definition published_db :: db where
  "published_db = opened_db\<lparr>db_incidents := [(watched L_open 0 0)\<lparr>ir_conclusion := Some (JObj fmempty)\<rparr>],
     db_runs := [accepted_run\<lparr>rr_state := R_completed\<rparr>]\<rparr>"

lemma published_simps [simp]:
  "db_incidents published_db = [(watched L_open 0 0)\<lparr>ir_conclusion := Some (JObj fmempty)\<rparr>]"
  "db_runs published_db = [accepted_run\<lparr>rr_state := R_completed\<rparr>]" "db_self_heal published_db = []"
  "db_target_suspensions published_db = [watch_suspension]" "\<not> db_global_suspended published_db" "db_global_generation published_db = 0"
  "db_sessions published_db = []" "db_alert_identities published_db = []" "db_targets published_db = [watch_target]"
  "db_profiles published_db = []" "db_controls published_db = []" "db_postmortems published_db = []"
  by (simp_all add: published_db_def opened_db_eq registered_db_eq initial_db_def)

lemma published_scope: "lock_scope published_db (Some 1) [] = Inr watch_scope_row"
  by (simp add: lock_scope_def incident_target_def watch_scope_row_def Let_def)

lemma published_run: "ir_current_run_id (watched lc cg og) = Some 10" "ir_mode (watched lc cg og) = M_automatic"
  by (simp_all add: watched_def fresh_incident_def watch_intake_def example_intake_def)

lemma published_waits: "waits_for_observation 1 0 published_db"
  by (simp add: waits_for_observation_def published_scope published_here_def published_run accepted_run_def del: One_nat_def)

theorem repeated_failures_hand_off_witness:
  "\<exists>a. find_decision 1 0 (fail_all 1 0 ''PROFILE_UNREADABLE'' (replicate 5 (watch_env 1000000 100)) published_db) = Some a
    \<and> sh_state a = SH_handed_off"
  using repeated_failures_hand_off [OF published_waits, of "''PROFILE_UNREADABLE''" "replicate 5 (watch_env 1000000 100)"] by auto

subsection \<open>Authorization\<close>

lemma authorize_session_opens:
  assumes "authorize_session_in e n now k g db = Inr (x, db')"
  shows "\<exists>i lc s f. find_incident k db = Some i \<and> observing_lifecycle (ir_lifecycle i) = Inr lc \<and> x = se_session_id s
    \<and> db_sessions db' = db_sessions db @ [s] \<and> se_incident_id s = k \<and> se_state s = OS_authorized
    \<and> se_authorization_source s = sg_source g \<and> se_authorized_by s = sg_actor g
    \<and> db_incidents db' = update_where (\<lambda>i. ir_incident_id i = k) f (db_incidents db) \<and> ir_lifecycle (f i) = lc
    \<and> (\<forall>i. ir_incident_id (f i) = ir_incident_id i)"
proof -
  from assms obtain subject db1 i t target lc sc db2 ss where p: "granted_profile e g db = Inr (subject, db1)"
    and i: "find_incident k db1 = Some i" and c: "session_checks now g subject i db1 = Inr (t, target, lc)"
    and m: "mark_stale_in e n k ''observation_changed'' ''observation.authorize'' (update_incident k
       (\<lambda>x. x\<lparr>ir_lifecycle := lc, ir_observation_generation := ir_observation_generation i + 1\<rparr>) db1) = Inr db2"
    and r: "insert_row se_session_id (new_session e now g t target i sc) (db_sessions db2) = Inr ss" "db' = db2\<lparr>db_sessions := ss\<rparr>"
      "x = se_session_id (new_session e now g t target i sc)"
    by (auto simp: authorize_session_in_def bind_result_Inr_iff Let_def split: if_splits option.splits)
  have s: "db_sessions db1 = db_sessions db" "db_incidents db1 = db_incidents db"
    using p granted_profile_same [OF p]
    by (auto simp: granted_profile_def store_profile_def bind_result_Inr_iff same_core_def Let_def split: option.splits if_splits prod.splits)
  note k = mark_stale_frame [OF m, unfolded knowledge_only_def]
  have o: "observing_lifecycle (ir_lifecycle i) = Inr lc"
    using c by (auto simp: session_checks_def bind_result_Inr_iff split: if_splits option.splits)
  show ?thesis
  proof (intro exI conjI)
    show "find_incident k db = Some i" using i s by simp
    show "db_sessions db' = db_sessions db @ [new_session e now g t target i sc]"
      using r(1,2) k s by (simp add: insert_row_Inr_iff update_incident_def)
    show "db_incidents db' = update_where (\<lambda>i. ir_incident_id i = k)
        (\<lambda>x. x\<lparr>ir_lifecycle := lc, ir_observation_generation := ir_observation_generation i + 1\<rparr>) (db_incidents db)"
      using r(2) k s by (simp add: update_incident_def)
    show "se_incident_id (new_session e now g t target i sc) = k" using find_row_key [OF i] by (simp add: new_session_def)
  qed (use o r(3) in \<open>simp_all add: new_session_def\<close>)
qed

text \<open>The automatic grant, in terms of the tables.\<close>

lemma authorize_automatic_opens:
  assumes "authorize_automatic_in e i g h db = Inr (x, db')" and "find_incident (ir_incident_id i) db = Some i" and "ir_lifecycle i = L_open"
  shows "\<exists>s. x = se_session_id s \<and> db_sessions db' = db_sessions db @ [s] \<and> se_incident_id s = ir_incident_id i \<and> se_state s = OS_authorized
    \<and> se_authorization_source s = AS_automatic \<and> se_authorized_by s = AUTO_OBSERVATION_ACTOR
    \<and> map_option ir_lifecycle (find_incident (ir_incident_id i) db') = Some L_observing_recovery"
proof -
  let ?k = "ir_incident_id i"
  from assms(1) obtain t db1 db2 y where d1: "complete_identity t (hg_identity h) db = Inr db1"
    and d2: "authorize_session_in e 3 (env_later e) ?k (automatic_grant h (env_now e)) db1 = Inr (x, db2)"
    and d3: "record_control e ?k AUTO_OBSERVATION_ACTION g g AUTO_OBSERVATION_ACTOR y db2 = Inr db'"
    by (auto simp: authorize_automatic_in_def bind_result_Inr_iff split: option.splits)
  have s: "db_sessions db1 = db_sessions db" "db_incidents db1 = db_incidents db"
    using d1 complete_identity_same [OF d1] by (auto simp: complete_identity_def same_core_def split: if_splits option.splits)
  from authorize_session_opens [OF d2] obtain j lc s f where j: "find_incident ?k db1 = Some j" "observing_lifecycle (ir_lifecycle j) = Inr lc"
    and x: "x = se_session_id s" "db_sessions db2 = db_sessions db1 @ [s]" "se_incident_id s = ?k" "se_state s = OS_authorized"
      "se_authorization_source s = AS_automatic" "se_authorized_by s = AUTO_OBSERVATION_ACTOR"
    and f: "db_incidents db2 = update_where (\<lambda>i. ir_incident_id i = ?k) f (db_incidents db1)" "ir_lifecycle (f j) = lc"
      "\<forall>i. ir_incident_id (f i) = ir_incident_id i"
    by (auto simp: automatic_grant_def)
  have "j = i" using j(1) assms(2) s(2) by simp
  moreover have "observing_lifecycle L_open = Inr L_observing_recovery"
    by (simp add: observing_lifecycle_def INCIDENT_LIFECYCLE_def machine_eval)
  ultimately have lc: "lc = L_observing_recovery" using j(2) assms(3) by simp
  from record_control_Inr [OF d3] have c: "db_sessions db' = db_sessions db2" "db_incidents db' = db_incidents db2" by auto
  have "find_incident ?k db' = map_option (\<lambda>r. if ir_incident_id r = ?k then f r else r) (find_incident ?k db1)"
    unfolding c f(1) by (rule find_row_update_where) (simp add: f(3))
  then have "map_option ir_lifecycle (find_incident ?k db') = Some L_observing_recovery"
    using j(1) f(2) lc \<open>j = i\<close> by simp
  with x c(1) s(1) show ?thesis by (intro exI [of _ s]) simp
qed

text \<open>\<^bold>\<open>C28\<close> (\<open>authorize_automatic_observation\<close>) An automatic observation is authorized only at the generation of a published
  conclusion of an incident that nobody took over, paused, cancelled or suspended, that is open and not handed off
  by its alert, has no authorized session and was not decided at this generation; it then has exactly the session
  the decision names, of the system and of the automatic source, and moves the incident to
  \<open>observing_recovery\<close>.\<close>

theorem automatic_authorization_guarded:
  assumes "authorize_automatic_observation k g grant refusal locked e db = (Inr (Some a), db')" and "sh_state a = SH_authorized"
  shows "\<exists>i sc s h. find_incident k db = Some i \<and> lock_scope db (Some k) [] = Inr sc \<and> grant = Some h \<and> refusal = None
    \<and> ir_control_generation i = g \<and> ir_conclusion i \<noteq> None \<and> published_here i db \<and> ir_mode i = M_automatic
    \<and> \<not> sc_global_suspended sc \<and> \<not> sc_target_suspended sc \<and> ir_state i \<notin> {IS_paused, IS_cancelled} \<and> ir_lifecycle i = L_open
    \<and> \<not> has_authorized k db \<and> undecided_yet k g db
    \<and> sh_session_id a = Some (se_session_id s) \<and> find_decision k g db' = Some a \<and> s \<in> set (db_sessions db')
    \<and> se_incident_id s = k \<and> se_state s = OS_authorized \<and> se_authorization_source s = AS_automatic
    \<and> se_authorized_by s = AUTO_OBSERVATION_ACTOR \<and> db_sessions db' = db_sessions db @ [s]
    \<and> map_option ir_lifecycle (find_incident k db') = Some L_observing_recovery"
proof -
  have n: "\<not> (g < 0 \<or> (grant = None \<and> refusal = None) \<or> refusal = Some [])"
    using assms(1) unfolding authorize_automatic_observation_def by (auto split: if_splits)
  from assms(1) obtain sc where sc: "lock_scope db (Some k) [] = Inr sc"
    unfolding authorize_automatic_observation_def if_not_P [OF n] by (cases "lock_scope db (Some k) []") auto
  from assms(1) obtain i where i: "find_incident k db = Some i" and l: "\<not> locked"
    unfolding authorize_automatic_observation_def if_not_P [OF n] by (cases "find_incident k db") (auto simp: sc split: if_splits)
  from assms(1) have u: "\<not> settled_elsewhere (env_now e) i g (find_decision k g db)"
    unfolding authorize_automatic_observation_def if_not_P [OF n] by (auto simp: sc i l split: if_splits)
  from assms(1) have d: "decide_automatic e i g grant refusal sc db = Inr (a, db')"
    unfolding authorize_automatic_observation_def if_not_P [OF n]
    by (cases "decide_automatic e i g grant refusal sc db") (auto simp: sc i l u)
  have k: "ir_incident_id i = k" using find_row_key [OF i] .
  from d show ?thesis
  proof (cases rule: decide_automatic_cases)
    case (skip reason)
    with record_auto_put [OF skip] assms(2) show ?thesis by simp
  next
    case (authorize h x db1)
    note ref = authorize(1) [unfolded auto_observation_refusal_def]
    have guards: "ir_control_generation i = g" "ir_conclusion i \<noteq> None" "published_here i db" "ir_mode i = M_automatic"
      "\<not> sc_global_suspended sc" "\<not> sc_target_suspended sc" "ir_state i \<notin> {IS_paused, IS_cancelled}" "\<not> has_authorized k db"
      "ir_lifecycle i = L_open"
      using ref k by (simp_all split: if_splits)
    from authorize_automatic_opens [OF authorize(4)] k i guards(9) obtain s where s: "x = se_session_id s" "db_sessions db1 = db_sessions db @ [s]"
      "se_incident_id s = k" "se_state s = OS_authorized" "se_authorization_source s = AS_automatic"
      "se_authorized_by s = AUTO_OBSERVATION_ACTOR" "map_option ir_lifecycle (find_incident k db1) = Some L_observing_recovery" by auto
    note r = record_auto_put [OF authorize(5), unfolded k]
    have db': "db_sessions db' = db_sessions db1" "db_incidents db' = db_incidents db1" using r by (simp_all add: put_decision_def)
    have f: "find_decision k g db' = Some a" using r find_put_decision [of k g a db1] by (simp del: find_put_decision)
    have sid: "sh_session_id a = Some (se_session_id s)" using r s(1) by simp
    have new: "db_sessions db' = db_sessions db @ [s]" "map_option ir_lifecycle (find_incident k db') = Some L_observing_recovery"
      using s(2,7) by (simp_all add: db')
    then have "s \<in> set (db_sessions db')" by simp
    note facts = i sc authorize(2,3) guards settled_undecided [OF u] sid f this s(3-6) new
    show ?thesis by (intro exI conjI; rule facts)
  qed
qed

definition healing_grant :: SelfHealGrant where
  "healing_grant = \<lparr>hg_session_id = 101, hg_profile_revision = watch_revision, hg_profile = ''x'', hg_deadline_seconds = 900,
     hg_max_samples = 5, hg_sample_interval_seconds = 30, hg_sustained_window_seconds = 60, hg_identity = Some watch_identity\<rparr>"

abbreviation published_incident :: incident_row where
  "published_incident \<equiv> (watched L_open 0 0)\<lparr>ir_conclusion := Some (JObj fmempty)\<rparr>"

abbreviation identified_target :: target_row where
  "identified_target \<equiv> watch_target\<lparr>tg_integration_id := Some ''i'', tg_cluster_uid := Some ''c'', tg_namespace := Some ''ns'', tg_workload := Some ''svc''\<rparr>"

lemma healing_grant_simps:
  "automatic_grant healing_grant 1000000 = \<lparr>sg_revision = None, sg_actor = AUTO_OBSERVATION_ACTOR, sg_source = AS_automatic,
     sg_deadline_at = 901000000, sg_max_samples = 5, sg_sample_interval_seconds = 30, sg_sustained_window_seconds = 60,
     sg_profile_revision = Some watch_revision, sg_profile = Some ''x'', sg_session_id = Some 101, sg_first_due_at = None\<rparr>"
  "hg_identity healing_grant = Some watch_identity"
  by (simp_all add: automatic_grant_def healing_grant_def seconds_def)

lemma healing_identified: "complete_identity 5 (Some watch_identity) published_db = Inr (published_db\<lparr>db_targets := [identified_target]\<rparr>)"
  by (simp add: complete_identity_def watch_identity_def watch_target_def identity_filled_def identity_complete_def identity_bare_def)

lemma healing_authorized: "\<exists>s db'. authorize_session_in (watch_env 1000000 100) 3 1000000 1 (automatic_grant healing_grant 1000000)
    (published_db\<lparr>db_targets := [identified_target]\<rparr>) = Inr (s, db') \<and> db_controls db' = []"
proof -
  let ?base = "published_db\<lparr>db_targets := [identified_target]\<rparr>"
  let ?db = "?base\<lparr>db_profiles := [watch_profile]\<rparr>"
  let ?g = "automatic_grant healing_grant 1000000"
  have g: "\<not> grant_refused ?g" by (simp add: grant_refused_def healing_grant_simps watch_revision_def AUTO_OBSERVATION_ACTOR_def)
  have st: "store_profile (watch_env 1000000 100) watch_revision (Some ''x'') ?base = Inr ?db"
    by (simp add: store_profile_def watch_parts zeros watch_profile_def Let_def)
  have p: "granted_profile (watch_env 1000000 100) ?g ?base = Inr (Some (''ns'', ''svc''), ?db)"
    by (simp add: granted_profile_def healing_grant_simps st watch_signals or_old_def)
  have c: "session_checks 1000000 ?g (Some (''ns'', ''svc'')) published_incident ?db =
      Inr (5, watch_place\<lparr>t_revision := None\<rparr>, L_observing_recovery)"
    by (simp add: session_checks_def registered_target_def watch_target_def watch_place_def profile_mismatch_def healing_grant_simps
        has_authorized_def observing_lifecycle_def machine_eval INCIDENT_LIFECYCLE_def)
  have l: "lock_scope ?db (Some 1) [] = Inr watch_scope_row"
    by (simp add: lock_scope_def incident_target_def watch_scope_row_def Let_def)
  show ?thesis
    unfolding authorize_session_in_def if_not_P [OF g] p bind_result.simps prod.case
    by (simp add: c l authorize_stale update_incident_def insert_row_def Let_def del: One_nat_def)
qed

theorem automatic_authorization_guarded_witness:
  "\<exists>a db' s. authorize_automatic_observation 1 0 (Some healing_grant) None False (watch_env 1000000 100) published_db = (Inr (Some a), db')
    \<and> sh_state a = SH_authorized \<and> db_sessions db' = [s] \<and> se_authorization_source s = AS_automatic"
proof -
  let ?e = "watch_env 1000000 100"
  obtain x db1 where o: "authorize_session_in ?e 3 1000000 1 (automatic_grant healing_grant 1000000)
      (published_db\<lparr>db_targets := [identified_target]\<rparr>) = Inr (x, db1)" "db_controls db1 = []"
    using healing_authorized by blast
  have "\<exists>db2. authorize_automatic_in ?e published_incident 0 healing_grant published_db = Inr (x, db2)"
    by (simp add: authorize_automatic_in_def healing_identified healing_grant_simps(2) o record_control_def insert_row_def del: One_nat_def)
  then obtain db2 where d: "authorize_automatic_in ?e published_incident 0 healing_grant published_db = Inr (x, db2)" by blast
  have r: "auto_observation_refusal published_incident watch_scope_row 0 published_db = None"
    by (simp add: auto_observation_refusal_def published_here_def published_run accepted_run_def watch_scope_row_def has_authorized_def)
  obtain a db3 where a: "record_auto_observation 1 0 SH_authorized None (Some x) db2 = (a, db3)" by (meson surj_pair)
  have st: "sh_state a = SH_authorized" using record_auto_put [OF a] by blast
  have call: "authorize_automatic_observation 1 0 (Some healing_grant) None False ?e published_db = (Inr (Some a), db3)"
    unfolding authorize_automatic_observation_def
    by (simp add: published_scope settled_elsewhere_def decide_automatic_def r d a del: One_nat_def)
  from automatic_authorization_guarded [OF call st] obtain s where "db_sessions db3 = [s]" "se_authorization_source s = AS_automatic"
    by (elim exE conjE) simp
  with call st show ?thesis by blast
qed

end
