(* ===== verification/Knowledge_Review.thy ===== *)
theory Knowledge_Review
  imports Store_Sessions Store_Knowledge "HOL-Library.Product_Lexorder" "HOL-Library.List_Lexorder" "HOL-Library.Char_ord"
begin

section \<open>Drafting, review and publication of knowledge (\<open>knowledge/store.py\<close>)\<close>

text \<open>
  The mutations of \<open>KnowledgeStore\<close>: a worker writes the next version of a postmortem, which enters review
  in the same transaction when every citation validated; a person approves, rejects or returns it, or
  revokes a published revision. Each is one transaction that replays a request whose key was used before,
  checks the expected generation, writes audit rows and records the request with its result last.

  The guard triggers of migration 0008 repeat the checks made here and are not modelled as branches. A unique
  key that is taken is \<open>INTEGRITY_REFUSED\<close>, of a request \<open>IDEMPOTENCY_CONFLICT\<close> (\<open>refused\<close>). Fresh ids: in
  \<open>record_draft\<close> index 0 is the postmortem, 1 the audit event, then one per dispute and the event of the
  submission; in a review index 0 is the audit event, then the entry and the event of each proposal.
\<close>

subsection \<open>Actors, requests and results\<close>

datatype PrincipalKind = basic_auth | worker

fun principal_name :: "PrincipalKind \<Rightarrow> string" where
  "principal_name basic_auth = ''basic_auth''"
| "principal_name worker = ''worker''"

record Actor =
  ac_actor_id :: string
  ac_principal_kind :: PrincipalKind

datatype f13_action = A_generate | A_submit | A_mark_stale | A_approve | A_reject | A_return | A_revoke

fun action_name :: "f13_action \<Rightarrow> string" where
  "action_name A_generate = ''generate''"
| "action_name A_submit = ''submit''"
| "action_name A_mark_stale = ''mark_stale''"
| "action_name A_approve = ''approve''"
| "action_name A_reject = ''reject''"
| "action_name A_return = ''return''"
| "action_name A_revoke = ''revoke''"

definition WORKER_ACTIONS :: "f13_action set" where
  "WORKER_ACTIONS = {A_generate, A_submit, A_mark_stale}"

definition blank :: "string \<Rightarrow> bool" where
  "blank s \<longleftrightarrow> strip is_space s = []"

definition require_actor :: "Actor \<Rightarrow> f13_action \<Rightarrow> perr option" where
  "require_actor a action = (if blank (ac_actor_id a) then Some E_INVALID_INPUT
     else if (ac_principal_kind a = worker) \<noteq> (action \<in> WORKER_ACTIONS) then Some E_PRINCIPAL_NOT_ALLOWED else None)"

definition actor_pair :: "Actor \<Rightarrow> string \<times> string" where
  "actor_pair a = (ac_actor_id a, principal_name (ac_principal_kind a))"

definition actor_json :: "Actor \<Rightarrow> json" where
  "actor_json a = JArr [JStr (ac_actor_id a), JStr (principal_name (ac_principal_kind a))]"

text \<open>What an approval published for one proposal.\<close>

record published_entry =
  pb_entry_id :: uuid
  pb_revision :: int
  pb_generation :: int
  pb_action :: string

record ActionResult =
  rs_action :: string
  rs_object_kind :: string
  rs_object_id :: uuid
  rs_generation :: int
  rs_version :: "int option"
  rs_revision :: "int option"
  rs_state :: "string option"
  rs_published :: "(string, published_entry) fmap"
  rs_replayed :: bool

definition opt_json :: "('a \<Rightarrow> json) \<Rightarrow> 'a option \<Rightarrow> json" where
  "opt_json f x = (case x of None \<Rightarrow> JNull | Some v \<Rightarrow> f v)"

definition published_json :: "published_entry \<Rightarrow> json" where
  "published_json p = JObj (fmap_of_list [(''entry_id'', JStr (uuid_str (pb_entry_id p))), (''revision'', JInt (pb_revision p)),
     (''generation'', JInt (pb_generation p)), (''action'', JStr (pb_action p))])"

definition result_payload :: "ActionResult \<Rightarrow> json" where
  "result_payload r = JObj (fmap_of_list [(''action'', JStr (rs_action r)), (''object_kind'', JStr (rs_object_kind r)),
     (''object_id'', JStr (uuid_str (rs_object_id r))), (''generation'', JInt (rs_generation r)),
     (''version'', opt_json JInt (rs_version r)), (''revision'', opt_json JInt (rs_revision r)),
     (''state'', opt_json JStr (rs_state r)), (''published'', JObj (fmmap published_json (rs_published r)))])"

text \<open>Reading a recorded result back. None is the \<open>KeyError\<close> or \<open>ValueError\<close> of a row this store never wrote.\<close>

fun json_str :: "json option \<Rightarrow> string option" where
  "json_str (Some (JStr s)) = Some s"
| "json_str _ = None"

fun json_int :: "json option \<Rightarrow> int option" where
  "json_int (Some (JInt n)) = Some n"
| "json_int _ = None"

fun json_opt :: "(json option \<Rightarrow> 'a option) \<Rightarrow> json option \<Rightarrow> 'a option option" where
  "json_opt f (Some JNull) = Some None"
| "json_opt f j = map_option Some (f j)"

definition published_of :: "json \<Rightarrow> published_entry option" where
  "published_of j = (case j of
      JObj m \<Rightarrow> (case (Option.bind (json_str (fmlookup m ''entry_id'')) parse_uuid, json_int (fmlookup m ''revision''),
          json_int (fmlookup m ''generation''), json_str (fmlookup m ''action'')) of
        (Some k, Some r, Some g, Some a) \<Rightarrow> Some \<lparr>pb_entry_id = k, pb_revision = r, pb_generation = g, pb_action = a\<rparr>
      | _ \<Rightarrow> None)
    | _ \<Rightarrow> None)"

fun published_map :: "json option \<Rightarrow> (string, published_entry) fmap option" where
  "published_map (Some (JObj m)) =
     (if fmpred (\<lambda>k v. published_of v \<noteq> None) m then Some (fmmap (\<lambda>v. the (published_of v)) m) else None)"
| "published_map _ = None"

definition result_of_payload :: "json \<Rightarrow> ActionResult option" where
  "result_of_payload j = (case j of
      JObj m \<Rightarrow> (case (json_str (fmlookup m ''action''), json_str (fmlookup m ''object_kind''),
          Option.bind (json_str (fmlookup m ''object_id'')) parse_uuid, json_int (fmlookup m ''generation''),
          json_opt json_int (fmlookup m ''version''), json_opt json_int (fmlookup m ''revision''),
          json_opt json_str (fmlookup m ''state''), published_map (fmlookup m ''published'')) of
        (Some a, Some kind, Some k, Some g, Some v, Some r, Some s, Some p) \<Rightarrow>
          Some \<lparr>rs_action = a, rs_object_kind = kind, rs_object_id = k, rs_generation = g, rs_version = v, rs_revision = r,
            rs_state = s, rs_published = p, rs_replayed = True\<rparr>
      | _ \<Rightarrow> None)
    | _ \<Rightarrow> None)"

text \<open>The recorded result of the same request, a refusal for another one, or nothing.\<close>

definition replay :: "env \<Rightarrow> string \<Rightarrow> string \<Rightarrow> json \<Rightarrow> db \<Rightarrow> perr + ActionResult option" where
  "replay e key action request db = (case find_row fr_idempotency_key key (db_f13_requests db) of
      None \<Rightarrow> Inr None
    | Some q \<Rightarrow> if fr_action q \<noteq> action \<or> fr_request_sha256 q \<noteq> env_json_sha256 e request then Inl E_IDEMPOTENCY_CONFLICT
        else (case result_of_payload (fr_result q) of None \<Rightarrow> Inl E_UNCAUGHT | Some r \<Rightarrow> Inr (Some r)))"

text \<open>The error codes of this store for a unique key that is taken.\<close>

definition refused :: "perr \<Rightarrow> perr + 'a \<Rightarrow> perr + 'a" where
  "refused code r = (case r of Inl E_IDENTITY_CONFLICT \<Rightarrow> Inl code | _ \<Rightarrow> r)"

definition review_audit ::
  "env \<Rightarrow> nat \<Rightarrow> string \<Rightarrow> string \<Rightarrow> uuid \<Rightarrow> string \<Rightarrow> Actor \<Rightarrow> int \<Rightarrow> int option \<Rightarrow> int option \<Rightarrow> string option \<Rightarrow> db \<Rightarrow> perr + db" where
  "review_audit e n key kind object_id action actor expected version revision reason db =
     refused E_INTEGRITY_REFUSED (f13_audit e n key kind object_id action (actor_pair actor) expected version revision reason db)"

definition record_result :: "env \<Rightarrow> string \<Rightarrow> string \<Rightarrow> json \<Rightarrow> ActionResult \<Rightarrow> db \<Rightarrow> ActionResult tx" where
  "record_result e key action request r db =
     bind_result (refused E_IDEMPOTENCY_CONFLICT (record_request e key action request (result_payload r) db)) (\<lambda>db'. Inr (r, db'))"

subsection \<open>The parts of a draft\<close>

record Watermark =
  wm_incident_control_generation :: int
  wm_observation_generation :: int
  wm_observation_session_id :: uuid
  wm_observation_ending_id :: uuid
  wm_run_count :: int
  wm_last_run_id :: "uuid option"
  wm_input_watermark :: int
  wm_evidence_snapshot_sha256 :: string

record ConclusionDraft =
  cd_key :: string
  cd_section :: string
  cd_body :: string
  cd_author :: draft_author
  cd_certainty :: certainty
  cd_citations_valid :: bool
  cd_evidence_refs :: "json list"

record ProposalDraft =
  pd_key :: string
  pd_name :: string
  pd_tags :: "string list"
  pd_content :: "(string, json) fmap"
  pd_supersedes_entry_id :: "uuid option"

record DisputeDraft =
  dd_conclusion_key :: string
  dd_reason :: string

definition is_sha256 :: "string \<Rightarrow> bool" where
  "is_sha256 s \<longleftrightarrow> length s = 64 \<and> set s \<subseteq> set ''0123456789abcdef''"

definition valid_watermark :: "Watermark \<Rightarrow> bool" where
  "valid_watermark w \<longleftrightarrow> 0 \<le> wm_incident_control_generation w \<and> 0 \<le> wm_observation_generation w \<and> 0 \<le> wm_run_count w
     \<and> 0 \<le> wm_input_watermark w \<and> (wm_run_count w = 0) = (wm_last_run_id w = None) \<and> is_sha256 (wm_evidence_snapshot_sha256 w)"

definition ref_text :: "(string, json) fmap \<Rightarrow> string \<Rightarrow> bool" where
  "ref_text m k = (case json_str (fmlookup m k) of None \<Rightarrow> False | Some s \<Rightarrow> s \<noteq> [])"

definition valid_ref :: "json \<Rightarrow> bool" where
  "valid_ref r = (case r of JObj m \<Rightarrow> list_all (ref_text m) [''evidence_id'', ''scope'', ''window_start'', ''window_end'']
       \<and> fmlookup m ''citable_as_fact'' \<in> {Some (JBool True), Some (JBool False)} | _ \<Rightarrow> False)"

definition citable :: "json \<Rightarrow> bool" where
  "citable r = (case r of JObj m \<Rightarrow> fmlookup m ''citable_as_fact'' = Some (JBool True) | _ \<Rightarrow> False)"

definition valid_conclusion :: "ConclusionDraft \<Rightarrow> bool" where
  "valid_conclusion c \<longleftrightarrow> \<not> blank (cd_key c) \<and> \<not> blank (cd_section c)
     \<and> (cd_author c = AU_code) = (cd_certainty c = CT_deterministic)
     \<and> (cd_citations_valid c \<or> cd_certainty c = CT_uncertain)
     \<and> list_all valid_ref (cd_evidence_refs c)
     \<and> (cd_author c = AU_model \<longrightarrow> cd_evidence_refs c \<noteq> [])
     \<and> (cd_certainty c = CT_supported \<longrightarrow> list_ex citable (cd_evidence_refs c))"

definition valid_proposal :: "ProposalDraft \<Rightarrow> bool" where
  "valid_proposal p \<longleftrightarrow> \<not> blank (pd_key p) \<and> \<not> blank (pd_name p) \<and> [] \<notin> set (pd_tags p)"

definition superseded_entries :: "ProposalDraft list \<Rightarrow> uuid list" where
  "superseded_entries ps = List.map_filter pd_supersedes_entry_id ps"

definition valid_draft ::
  "Watermark \<Rightarrow> ConclusionDraft list \<Rightarrow> ProposalDraft list \<Rightarrow> DisputeDraft list \<Rightarrow> int option \<Rightarrow> bool" where
  "valid_draft w cs ps ds revises \<longleftrightarrow> valid_watermark w \<and> cs \<noteq> [] \<and> list_all valid_conclusion cs \<and> list_all valid_proposal ps
     \<and> (case revises of None \<Rightarrow> True | Some v \<Rightarrow> 1 \<le> v)
     \<and> distinct (map cd_key cs) \<and> distinct (map pd_key ps) \<and> distinct (superseded_entries ps)
     \<and> list_all (\<lambda>d. \<not> blank (dd_reason d) \<and> dd_conclusion_key d \<in> set (map cd_key cs)) ds"

fun author_name :: "draft_author \<Rightarrow> string" where
  "author_name AU_code = ''code''"
| "author_name AU_model = ''model''"

fun certainty_name :: "certainty \<Rightarrow> string" where
  "certainty_name CT_deterministic = ''deterministic''"
| "certainty_name CT_supported = ''supported''"
| "certainty_name CT_uncertain = ''uncertain''"

definition watermark_json :: "Watermark \<Rightarrow> json" where
  "watermark_json w = JObj (fmap_of_list [(''incident_control_generation'', JInt (wm_incident_control_generation w)),
     (''observation_generation'', JInt (wm_observation_generation w)),
     (''observation_session_id'', JStr (uuid_str (wm_observation_session_id w))),
     (''observation_ending_id'', JStr (uuid_str (wm_observation_ending_id w))), (''run_count'', JInt (wm_run_count w)),
     (''last_run_id'', opt_json (JStr \<circ> uuid_str) (wm_last_run_id w)), (''input_watermark'', JInt (wm_input_watermark w)),
     (''evidence_snapshot_sha256'', JStr (wm_evidence_snapshot_sha256 w))])"

definition conclusion_json :: "ConclusionDraft \<Rightarrow> json" where
  "conclusion_json c = JObj (fmap_of_list [(''key'', JStr (cd_key c)), (''section'', JStr (cd_section c)), (''body'', JStr (cd_body c)),
     (''author'', JStr (author_name (cd_author c))), (''certainty'', JStr (certainty_name (cd_certainty c))),
     (''citations_valid'', JBool (cd_citations_valid c)), (''evidence_refs'', JArr (cd_evidence_refs c))])"

definition proposal_json :: "ProposalDraft \<Rightarrow> json" where
  "proposal_json p = JObj (fmap_of_list [(''key'', JStr (pd_key p)), (''name'', JStr (pd_name p)), (''tags'', JArr (map JStr (pd_tags p))),
     (''content'', JObj (pd_content p)), (''supersedes_entry_id'', opt_json (JStr \<circ> uuid_str) (pd_supersedes_entry_id p))])"

definition dispute_json :: "DisputeDraft \<Rightarrow> json" where
  "dispute_json d = JObj (fmap_of_list [(''conclusion_key'', JStr (dd_conclusion_key d)), (''reason'', JStr (dd_reason d))])"

subsection \<open>Writing a draft\<close>

text \<open>The arguments of \<open>record_draft\<close>.\<close>

record draft =
  df_incident_id :: uuid
  df_expected_generation :: int
  df_idempotency_key :: string
  df_actor :: Actor
  df_content :: "(string, json) fmap"
  df_watermark :: Watermark
  df_conclusions :: "ConclusionDraft list"
  df_proposals :: "ProposalDraft list"
  df_disputes :: "DisputeDraft list"
  df_revises_version :: "int option"

definition content_text :: "env \<Rightarrow> draft \<Rightarrow> string" where
  "content_text e d = env_canonical e (JObj (df_content d))"

definition draft_request :: "env \<Rightarrow> draft \<Rightarrow> json" where
  "draft_request e d = JObj (fmap_of_list [(''action'', JStr ''generate''), (''incident_id'', JStr (uuid_str (df_incident_id d))),
     (''expected_generation'', JInt (df_expected_generation d)), (''actor'', actor_json (df_actor d)),
     (''content_sha256'', JStr (env_sha256 e (content_text e d))),
     (''watermark'', JStr (env_canonical e (watermark_json (df_watermark d)))),
     (''conclusions'', JStr (env_canonical e (JArr (map conclusion_json (df_conclusions d))))),
     (''proposals'', JStr (env_canonical e (JArr (map proposal_json (df_proposals d))))),
     (''disputes'', JStr (env_canonical e (JArr (map dispute_json (df_disputes d))))),
     (''revises_version'', opt_json JInt (df_revises_version d))])"

definition reviewable :: "draft \<Rightarrow> bool" where
  "reviewable d \<longleftrightarrow> list_all cd_citations_valid (df_conclusions d)"

definition draft_refused :: "draft \<Rightarrow> perr option" where
  "draft_refused d = (case require_actor (df_actor d) A_generate of
      Some err \<Rightarrow> Some err
    | None \<Rightarrow> if blank (df_idempotency_key d) \<or> df_expected_generation d < 0
          \<or> \<not> valid_draft (df_watermark d) (df_conclusions d) (df_proposals d) (df_disputes d) (df_revises_version d)
        then Some E_INVALID_INPUT else None)"

text \<open>The head is created at generation 0 when the incident has none.\<close>

definition ensure_postmortem :: "env \<Rightarrow> uuid \<Rightarrow> db \<Rightarrow> postmortem_row tx" where
  "ensure_postmortem e k db = (case find_row ph_incident_id k (db_postmortems db) of
      Some h \<Rightarrow> Inr (h, db)
    | None \<Rightarrow> (let h = \<lparr>ph_postmortem_id = env_uuid4 e 0, ph_incident_id = k, ph_generation = 0, ph_latest_version = 0\<rparr> in
        bind_result (refused E_INTEGRITY_REFUSED (insert_row ph_postmortem_id h (db_postmortems db))) (\<lambda>hs.
          Inr (h, db\<lparr>db_postmortems := hs\<rparr>))))"

definition check_observation :: "uuid \<Rightarrow> Watermark \<Rightarrow> db \<Rightarrow> bool" where
  "check_observation k w db \<longleftrightarrow>
     (\<exists>en \<in> set (db_endings db). \<exists>s \<in> set (db_sessions db). en_ending_id en = wm_observation_ending_id w
        \<and> en_session_id en = wm_observation_session_id w \<and> se_session_id s = en_session_id en \<and> se_incident_id s = k
        \<and> en_incident_id en = k \<and> se_state s \<noteq> OS_authorized \<and> se_observation_generation s = wm_observation_generation w)
   \<and> (case wm_last_run_id w of None \<Rightarrow> True
      | Some r \<Rightarrow> (\<exists>x \<in> set (db_runs db). rr_run_id x = r \<and> rr_incident_id x = k))"

text \<open>The version as it is written: a draft of the next number.\<close>

definition new_version :: "env \<Rightarrow> draft \<Rightarrow> postmortem_row \<Rightarrow> postmortem_version_row" where
  "new_version e d h = (let w = df_watermark d in
     \<lparr>pv_postmortem_id = ph_postmortem_id h, pv_version = ph_latest_version h + 1, pv_state = PM_draft, pv_stale_reason = None,
      pv_incident_control_generation = wm_incident_control_generation w, pv_observation_generation = wm_observation_generation w,
      pv_run_count = wm_run_count w, pv_last_run_id = wm_last_run_id w, pv_input_watermark = wm_input_watermark w,
      pv_evidence_snapshot_sha256 = wm_evidence_snapshot_sha256 w, pv_observation_session_id = wm_observation_session_id w,
      pv_observation_ending_id = wm_observation_ending_id w, pv_revises_version = df_revises_version d,
      pv_content = content_text e d, pv_content_sha256 = env_sha256 e (content_text e d),
      pv_generated_by = ac_actor_id (df_actor d), pv_created_at = env_later e\<rparr>)"

definition conclusion_rows :: "draft \<Rightarrow> uuid \<Rightarrow> int \<Rightarrow> conclusion_row list" where
  "conclusion_rows d p v = map (\<lambda>(n, c). \<lparr>cn_postmortem_id = p, cn_version = v, cn_conclusion_key = cd_key c, cn_ordinal = n,
     cn_section = cd_section c, cn_body = cd_body c, cn_author = cd_author c, cn_certainty = cd_certainty c,
     cn_citations_valid = cd_citations_valid c, cn_evidence_refs = JArr (cd_evidence_refs c)\<rparr>)
     (List.enumerate 0 (df_conclusions d))"

definition proposal_rows :: "env \<Rightarrow> draft \<Rightarrow> uuid \<Rightarrow> int \<Rightarrow> proposal_row list" where
  "proposal_rows e d p v = map (\<lambda>x. (let text = env_canonical e (JObj (pd_content x)) in
     \<lparr>pp_postmortem_id = p, pp_version = v, pp_proposal_key = pd_key x, pp_name = pd_name x, pp_tags = pd_tags x,
      pp_content = text, pp_content_sha256 = env_sha256 e text, pp_supersedes_entry_id = pd_supersedes_entry_id x\<rparr>)) (df_proposals d)"

definition dispute_rows :: "env \<Rightarrow> draft \<Rightarrow> uuid \<Rightarrow> int \<Rightarrow> dispute_row list" where
  "dispute_rows e d p v = map (\<lambda>(n, x). \<lparr>dp_dispute_id = env_uuid4 e (2 + n), dp_postmortem_id = p, dp_version = v,
     dp_conclusion_key = dd_conclusion_key x, dp_reason = dd_reason x, dp_raised_by = ac_actor_id (df_actor d),
     dp_event_id = env_uuid4 e 1\<rparr>) (List.enumerate 0 (df_disputes d))"

text \<open>A proposal names an entry that exists (foreign key); the keys of the parts are new.\<close>

definition insert_parts :: "env \<Rightarrow> draft \<Rightarrow> uuid \<Rightarrow> int \<Rightarrow> db \<Rightarrow> perr + db" where
  "insert_parts e d p v db =
     (let cs = conclusion_rows d p v; ps = proposal_rows e d p v; ds = dispute_rows e d p v in
      if (\<exists>c \<in> set (db_conclusions db). cn_postmortem_id c = p \<and> cn_version c = v \<and> cn_conclusion_key c \<in> set (map cn_conclusion_key cs))
       \<or> (\<exists>x \<in> set (db_proposals db). pp_postmortem_id x = p \<and> pp_version x = v \<and> pp_proposal_key x \<in> set (map pp_proposal_key ps))
       \<or> \<not> set (superseded_entries (df_proposals d)) \<subseteq> ke_entry_id ` set (db_entries db)
       \<or> \<not> distinct (map dp_dispute_id ds) \<or> dp_dispute_id ` set (db_disputes db) \<inter> dp_dispute_id ` set ds \<noteq> {}
      then Inl E_INTEGRITY_REFUSED
      else Inr (db\<lparr>db_conclusions := db_conclusions db @ cs, db_proposals := db_proposals db @ ps, db_disputes := db_disputes db @ ds\<rparr>))"

definition version_row :: "uuid \<Rightarrow> int \<Rightarrow> db \<Rightarrow> postmortem_version_row option" where
  "version_row p v db = find_row (\<lambda>x. (pv_postmortem_id x, pv_version x)) (p, v) (db_postmortem_versions db)"

definition set_version :: "uuid \<Rightarrow> int \<Rightarrow> (postmortem_version_row \<Rightarrow> postmortem_version_row) \<Rightarrow> db \<Rightarrow> db" where
  "set_version p v f db = db\<lparr>db_postmortem_versions :=
     update_where (\<lambda>x. pv_postmortem_id x = p \<and> pv_version x = v) f (db_postmortem_versions db)\<rparr>"

text \<open>The checks under the locks, after the replay.\<close>

definition draft_checks :: "env \<Rightarrow> draft \<Rightarrow> postmortem_row \<Rightarrow> db \<Rightarrow> perr + unit" where
  "draft_checks e d h db = (let p = ph_postmortem_id h in
     if ph_generation h \<noteq> df_expected_generation d then Inl E_GENERATION_CONFLICT
     else if \<not> check_observation (df_incident_id d) (df_watermark d) db then Inl E_INVALID_INPUT
     else bind_result (moved_components e (df_incident_id d) (new_version e d h) db) (\<lambda>moved.
       if moved \<noteq> [] then Inl E_WATERMARK_MOVED
       else if \<exists>v \<in> set (db_postmortem_versions db). pv_postmortem_id v = p \<and> pv_state v = PM_under_review then Inl E_OPEN_VERSION_EXISTS
       else (case df_revises_version d of
           None \<Rightarrow> Inr ()
         | Some r \<Rightarrow> if map_option pv_state (version_row p r db) = Some PM_returned then Inr () else Inl E_ILLEGAL_TRANSITION)))"

text \<open>The regeneration a return asked for is done once a reviewable version exists.\<close>

definition regeneration_done :: "draft \<Rightarrow> db \<Rightarrow> db" where
  "regeneration_done d db = (if df_revises_version d \<noteq> None \<and> reviewable d
     then db\<lparr>db_generation_jobs := update_where (\<lambda>j. gj_incident_id j = df_incident_id d
         \<and> gj_pending_regeneration_version j = df_revises_version d) (\<lambda>j. j\<lparr>gj_pending_regeneration_version := None\<rparr>) (db_generation_jobs db)\<rparr>
     else db)"

definition write_draft :: "env \<Rightarrow> draft \<Rightarrow> postmortem_row \<Rightarrow> db \<Rightarrow> perr + db" where
  "write_draft e d h db = (let p = ph_postmortem_id h; g = df_expected_generation d; v = ph_latest_version h + 1 in
     bind_result (review_audit e 1 (df_idempotency_key d) ''postmortem'' p ''generate'' (df_actor d) g (Some v) None None
       (regeneration_done d db)) (\<lambda>db1.
     bind_result (refused E_INTEGRITY_REFUSED (insert_row (\<lambda>x. (pv_postmortem_id x, pv_version x)) (new_version e d h)
       (db_postmortem_versions db1))) (\<lambda>versions.
     insert_parts e d p v (db1\<lparr>db_postmortem_versions := versions,
       db_postmortems := update_where (\<lambda>x. ph_postmortem_id x = p) (\<lambda>x. x\<lparr>ph_generation := g + 1, ph_latest_version := v\<rparr>)
         (db_postmortems db1)\<rparr>))))"

definition submit_draft :: "env \<Rightarrow> draft \<Rightarrow> postmortem_row \<Rightarrow> db \<Rightarrow> perr + int \<times> PostmortemState \<times> db" where
  "submit_draft e d h db = (let p = ph_postmortem_id h; g = df_expected_generation d + 1; v = ph_latest_version h + 1 in
     if \<not> reviewable d then Inr (g, PM_draft, db)
     else bind_result (review_audit e (2 + length (df_disputes d)) (df_idempotency_key d) ''postmortem'' p ''submit'' (df_actor d) g
         (Some v) None None db) (\<lambda>db1. case fire POSTMORTEM PM_draft ''submit_for_review'' of
       Inl err \<Rightarrow> Inl E_UNCAUGHT
     | Inr s \<Rightarrow> Inr (g + 1, PM_under_review, set_version p v (\<lambda>x. x\<lparr>pv_state := s\<rparr>) (bump_postmortem p g db1))))"

definition state_name :: "PostmortemState \<Rightarrow> string" where
  "state_name s = (case s of PM_draft \<Rightarrow> ''draft'' | PM_under_review \<Rightarrow> ''under_review'' | PM_approved \<Rightarrow> ''approved''
     | PM_rejected \<Rightarrow> ''rejected'' | PM_returned \<Rightarrow> ''returned'' | PM_stale \<Rightarrow> ''stale'')"

definition postmortem_result :: "string \<Rightarrow> uuid \<Rightarrow> int \<Rightarrow> int \<Rightarrow> PostmortemState \<Rightarrow> (string, published_entry) fmap \<Rightarrow> ActionResult" where
  "postmortem_result action p g v s published = \<lparr>rs_action = action, rs_object_kind = ''postmortem'', rs_object_id = p, rs_generation = g,
     rs_version = Some v, rs_revision = None, rs_state = Some (state_name s), rs_published = published, rs_replayed = False\<rparr>"

definition record_draft_in :: "env \<Rightarrow> draft \<Rightarrow> db \<Rightarrow> ActionResult tx" where
  "record_draft_in e d db = (if find_incident (df_incident_id d) db = None then Inl E_NOT_FOUND
     else bind_result (ensure_postmortem e (df_incident_id d) db) (\<lambda>(h, db0).
       bind_result (replay e (df_idempotency_key d) ''generate'' (draft_request e d) db0) (\<lambda>before.
       case before of Some r \<Rightarrow> Inr (r, db0)
       | None \<Rightarrow> bind_result (draft_checks e d h db0) (\<lambda>_.
           bind_result (write_draft e d h db0) (\<lambda>db1.
           bind_result (submit_draft e d h db1) (\<lambda>(g, s, db2).
           record_result e (df_idempotency_key d) ''generate'' (draft_request e d)
             (postmortem_result ''generate'' (ph_postmortem_id h) g (ph_latest_version h + 1) s fmempty) db2))))))"

definition record_draft :: "draft \<Rightarrow> env \<Rightarrow> db \<Rightarrow> ActionResult outcome" where
  "record_draft d e db = (case draft_refused d of Some err \<Rightarrow> (Inl err, db) | None \<Rightarrow> transaction db (record_draft_in e d db))"

subsection \<open>Publication\<close>

text \<open>The view \<open>opspilot_knowledge_revision_states\<close>.\<close>

definition revision_state :: "uuid \<Rightarrow> int \<Rightarrow> db \<Rightarrow> KnowledgeState option" where
  "revision_state k r db =
     (if find_row (\<lambda>x. (kr_entry_id x, kr_revision x)) (k, r) (db_revisions db) = None then None
      else if \<exists>x \<in> set (db_revocations db). kx_entry_id x = k \<and> kx_revision x = r then Some KR_revoked
      else if \<exists>x \<in> set (db_revisions db). kr_entry_id x = k \<and> kr_supersedes_revision x = Some r then Some KR_superseded
      else Some KR_active)"

definition put_entry :: "uuid \<Rightarrow> (entry_row \<Rightarrow> entry_row) \<Rightarrow> db \<Rightarrow> db" where
  "put_entry k f db = db\<lparr>db_entries := update_where (\<lambda>x. ke_entry_id x = k) f (db_entries db)\<rparr>"

text \<open>The entry a proposal goes to and its generation: a new one, or the named one at its expected generation.\<close>

definition proposal_entry :: "env \<Rightarrow> nat \<Rightarrow> (uuid \<times> int) list \<Rightarrow> proposal_row \<Rightarrow> db \<Rightarrow> perr + uuid \<times> int \<times> db" where
  "proposal_entry e n gens p db = (case pp_supersedes_entry_id p of
      None \<Rightarrow> bind_result (refused E_INTEGRITY_REFUSED (insert_row ke_entry_id
          \<lparr>ke_entry_id = env_uuid4 e n, ke_generation = 0, ke_latest_revision = 0\<rparr> (db_entries db)))
        (\<lambda>es. Inr (env_uuid4 e n, 0, db\<lparr>db_entries := es\<rparr>))
    | Some k \<Rightarrow> (case map_of gens k of None \<Rightarrow> Inl E_UNCAUGHT
      | Some g \<Rightarrow> if map_option ke_generation (find_row ke_entry_id k (db_entries db)) \<noteq> Some g then Inl E_ENTRY_GENERATION_CONFLICT
          else Inr (k, g, db)))"

definition superseded_revision :: "uuid \<Rightarrow> int \<Rightarrow> db \<Rightarrow> perr + int option" where
  "superseded_revision k latest db = (if latest = 0 then Inr None
     else case revision_state k latest db of None \<Rightarrow> Inl E_INCONSISTENT_STATE
     | Some s \<Rightarrow> Inr (if s = KR_active then Some latest else None))"

definition new_revision :: "env \<Rightarrow> uuid \<Rightarrow> int \<Rightarrow> uuid \<Rightarrow> int \<Rightarrow> proposal_row \<Rightarrow> int option \<Rightarrow> Actor \<Rightarrow> uuid \<Rightarrow> revision_row" where
  "new_revision e k r p v x supersedes actor event = \<lparr>kr_entry_id = k, kr_revision = r, kr_name = pp_name x, kr_tags = pp_tags x,
     kr_content = pp_content x, kr_content_sha256 = pp_content_sha256 x, kr_source_postmortem_id = p, kr_source_version = v,
     kr_source_proposal_key = pp_proposal_key x, kr_supersedes_revision = supersedes, kr_approved_by = ac_actor_id actor,
     kr_approved_by_kind = principal_name (ac_principal_kind actor), kr_event_id = event, kr_approved_at = env_later e\<rparr>"

definition publish_one ::
  "env \<Rightarrow> nat \<Rightarrow> string \<Rightarrow> Actor \<Rightarrow> uuid \<Rightarrow> int \<Rightarrow> (uuid \<times> int) list \<Rightarrow> proposal_row \<Rightarrow> db \<Rightarrow> (string \<times> published_entry) tx" where
  "publish_one e n key actor p v gens x db =
     bind_result (proposal_entry e n gens x db) (\<lambda>(k, g, db1).
     case find_row ke_entry_id k (db_entries db1) of None \<Rightarrow> Inl E_INCONSISTENT_STATE
     | Some en \<Rightarrow> (let r = ke_latest_revision en + 1 in
         bind_result (superseded_revision k (ke_latest_revision en) db1) (\<lambda>sup.
         let action = (if sup \<noteq> None then ''supersede'' else ''publish'') in
         bind_result (review_audit e (n + 1) key ''knowledge_entry'' k action actor g None (Some r) None db1) (\<lambda>db2.
         bind_result (refused E_INTEGRITY_REFUSED (insert_row (\<lambda>y. (kr_entry_id y, kr_revision y))
             (new_revision e k r p v x sup actor (env_uuid4 e (n + 1))) (db_revisions db2))) (\<lambda>rs.
         Inr ((pp_proposal_key x, \<lparr>pb_entry_id = k, pb_revision = r, pb_generation = g + 1, pb_action = action\<rparr>),
           (put_entry k (\<lambda>y. y\<lparr>ke_generation := g + 1, ke_latest_revision := r\<rparr>) db2)\<lparr>db_revisions := rs\<rparr>))))))"

fun publish_proposals ::
  "env \<Rightarrow> nat \<Rightarrow> string \<Rightarrow> Actor \<Rightarrow> uuid \<Rightarrow> int \<Rightarrow> (uuid \<times> int) list \<Rightarrow> proposal_row list \<Rightarrow> db \<Rightarrow> (string \<times> published_entry) list tx" where
  "publish_proposals e n key actor p v gens [] db = Inr ([], db)"
| "publish_proposals e n key actor p v gens (x # xs) db =
     bind_result (publish_one e n key actor p v gens x db) (\<lambda>(b, db1).
     bind_result (publish_proposals e (n + 2) key actor p v gens xs db1) (\<lambda>(bs, db2). Inr (b # bs, db2)))"

text \<open>By key, then in the order of the named entries: \<open>str\<close> of a UUID orders as its number, and no entry
  comes first.\<close>

definition proposals_of :: "uuid \<Rightarrow> int \<Rightarrow> db \<Rightarrow> proposal_row list" where
  "proposals_of p v db = sort_key (\<lambda>x. case pp_supersedes_entry_id x of None \<Rightarrow> 0 | Some k \<Rightarrow> Suc k)
     (sort_key pp_proposal_key (filter (\<lambda>x. pp_postmortem_id x = p \<and> pp_version x = v) (db_proposals db)))"

definition publish_version ::
  "env \<Rightarrow> string \<Rightarrow> Actor \<Rightarrow> uuid \<Rightarrow> int \<Rightarrow> (uuid \<times> int) list \<Rightarrow> db \<Rightarrow> (string, published_entry) fmap tx" where
  "publish_version e key actor p v gens db =
     (let ps = proposals_of p v db in
      if set (map fst gens) \<noteq> set (List.map_filter pp_supersedes_entry_id ps) then Inl E_ENTRY_GENERATION_CONFLICT
      else bind_result (publish_proposals e 1 key actor p v gens ps db) (\<lambda>(bs, db'). Inr (fmap_of_list bs, db')))"

subsection \<open>Review actions\<close>

text \<open>The arguments of \<open>approve\<close>, \<open>reject\<close>, \<open>return_for_revision\<close> and \<open>mark_stale\<close>; the expected generations of the
  named entries are the items of a dict.\<close>

record review =
  rv_action :: f13_action
  rv_postmortem_id :: uuid
  rv_version :: int
  rv_expected_generation :: int
  rv_idempotency_key :: string
  rv_actor :: Actor
  rv_reason :: "string option"
  rv_entry_generations :: "(uuid \<times> int) list option"

fun trigger_of :: "f13_action \<Rightarrow> string" where
  "trigger_of A_mark_stale = ''mark_stale''"
| "trigger_of A_approve = ''human_approve''"
| "trigger_of A_reject = ''human_reject''"
| "trigger_of A_return = ''human_return_for_revision''"
| "trigger_of _ = []"

definition review_request :: "review \<Rightarrow> json" where
  "review_request r = JObj (fmap_of_list ([(''action'', JStr (action_name (rv_action r))),
     (''postmortem_id'', JStr (uuid_str (rv_postmortem_id r))), (''version'', JInt (rv_version r)),
     (''reason'', opt_json JStr (rv_reason r)), (''expected_generation'', JInt (rv_expected_generation r)),
     (''actor'', actor_json (rv_actor r))] @
     (case rv_entry_generations r of None \<Rightarrow> []
      | Some gs \<Rightarrow> [(''entry_generations'', JObj (fmap_of_list (map (\<lambda>(k, g). (uuid_str k, JInt g)) gs)))])))"

definition review_refused :: "review \<Rightarrow> perr option" where
  "review_refused r = (case require_actor (rv_actor r) (rv_action r) of
      Some err \<Rightarrow> Some err
    | None \<Rightarrow> if blank (rv_idempotency_key r) \<or> rv_version r < 1 \<or> rv_expected_generation r < 0
          \<or> (rv_action r \<in> {A_reject, A_return, A_mark_stale} \<and> (case rv_reason r of None \<Rightarrow> True | Some s \<Rightarrow> blank s))
          \<or> list_ex (\<lambda>(k, g). g < 0) (or_old (rv_entry_generations r) [])
        then Some E_INVALID_INPUT else None)"

definition approve_refused :: "env \<Rightarrow> postmortem_row \<Rightarrow> postmortem_version_row \<Rightarrow> db \<Rightarrow> perr + unit" where
  "approve_refused e h row db =
     (if \<exists>c \<in> set (db_conclusions db). cn_postmortem_id c = pv_postmortem_id row \<and> cn_version c = pv_version row \<and> \<not> cn_citations_valid c
      then Inl E_CITATIONS_INVALID
      else if \<exists>x \<in> set (db_disputes db). dp_postmortem_id x = pv_postmortem_id row \<and> dp_version x = pv_version row
      then Inl E_DISPUTED
      else bind_result (moved_components e (ph_incident_id h) row db) (\<lambda>moved.
        if moved \<noteq> [] then Inl E_WATERMARK_MOVED else Inr ()))"

definition review_checks :: "env \<Rightarrow> review \<Rightarrow> postmortem_row \<Rightarrow> db \<Rightarrow> perr + PostmortemState" where
  "review_checks e r h db =
     (if ph_generation h \<noteq> rv_expected_generation r then Inl E_GENERATION_CONFLICT
      else case version_row (rv_postmortem_id r) (rv_version r) db of
        None \<Rightarrow> Inl E_NOT_FOUND
      | Some row \<Rightarrow> (case fire POSTMORTEM (pv_state row) (trigger_of (rv_action r)) of
          Inl err \<Rightarrow> Inl E_ILLEGAL_TRANSITION
        | Inr target \<Rightarrow> if rv_action r = A_approve then bind_result (approve_refused e h row db) (\<lambda>_. Inr target) else Inr target))"

text \<open>A return makes the worker's next scan regenerate the version.\<close>

definition request_regeneration :: "uuid \<Rightarrow> int \<Rightarrow> db \<Rightarrow> db" where
  "request_regeneration k v db = db\<lparr>db_generation_jobs :=
     (if find_row gj_incident_id k (db_generation_jobs db) = None
      then db_generation_jobs db @ [\<lparr>gj_incident_id = k, gj_lease_owner = None, gj_lease_epoch = 0, gj_lease_until = None,
        gj_pending_regeneration_version = Some v, gj_failure_watermark = None, gj_consecutive_failures = 0,
        gj_next_attempt_at = None, gj_last_error_code = None\<rparr>]
      else update_where (\<lambda>j. gj_incident_id j = k) (\<lambda>j. j\<lparr>gj_pending_regeneration_version := Some v, gj_consecutive_failures := 0,
        gj_next_attempt_at := None, gj_last_error_code := None, gj_failure_watermark := None\<rparr>) (db_generation_jobs db))\<rparr>"

definition write_review :: "env \<Rightarrow> review \<Rightarrow> postmortem_row \<Rightarrow> PostmortemState \<Rightarrow> db \<Rightarrow> (string, published_entry) fmap tx" where
  "write_review e r h target db = (let p = rv_postmortem_id r; v = rv_version r; g = rv_expected_generation r in
     bind_result (review_audit e 0 (rv_idempotency_key r) ''postmortem'' p (action_name (rv_action r)) (rv_actor r) g (Some v) None
       (rv_reason r) db) (\<lambda>db1.
     let db2 = set_version p v (\<lambda>x. x\<lparr>pv_state := target,
           pv_stale_reason := (if rv_action r = A_mark_stale then rv_reason r else None)\<rparr>) (bump_postmortem p g db1);
         db3 = (if rv_action r = A_return then request_regeneration (ph_incident_id h) v db2 else db2) in
     if rv_action r = A_approve
     then publish_version e (rv_idempotency_key r) (rv_actor r) p v (or_old (rv_entry_generations r) []) db3
     else Inr (fmempty, db3)))"

definition transition_in :: "env \<Rightarrow> review \<Rightarrow> db \<Rightarrow> ActionResult tx" where
  "transition_in e r db = (let p = rv_postmortem_id r; action = action_name (rv_action r) in
     case find_row ph_postmortem_id p (db_postmortems db) of
       None \<Rightarrow> Inl E_NOT_FOUND
     | Some h \<Rightarrow> bind_result (replay e (rv_idempotency_key r) action (review_request r) db) (\<lambda>before.
         case before of Some x \<Rightarrow> Inr (x, db)
         | None \<Rightarrow> bind_result (review_checks e r h db) (\<lambda>target.
             bind_result (write_review e r h target db) (\<lambda>(published, db1).
             record_result e (rv_idempotency_key r) action (review_request r)
               (postmortem_result action p (rv_expected_generation r + 1) (rv_version r) target published) db1))))"

definition transition :: "review \<Rightarrow> env \<Rightarrow> db \<Rightarrow> ActionResult outcome" where
  "transition r e db = (case review_refused r of Some err \<Rightarrow> (Inl err, db) | None \<Rightarrow> transaction db (transition_in e r db))"

text \<open>The entry points.\<close>

definition mark_stale :: "uuid \<Rightarrow> int \<Rightarrow> string \<Rightarrow> int \<Rightarrow> string \<Rightarrow> Actor \<Rightarrow> env \<Rightarrow> db \<Rightarrow> ActionResult outcome" where
  "mark_stale p v reason g key actor e db = (if reason \<notin> set STALE_REASONS then (Inl E_INVALID_INPUT, db)
     else transition \<lparr>rv_action = A_mark_stale, rv_postmortem_id = p, rv_version = v, rv_expected_generation = g,
       rv_idempotency_key = key, rv_actor = actor, rv_reason = Some reason, rv_entry_generations = None\<rparr> e db)"

definition approve :: "uuid \<Rightarrow> int \<Rightarrow> int \<Rightarrow> string \<Rightarrow> Actor \<Rightarrow> (uuid \<times> int) list option \<Rightarrow> env \<Rightarrow> db \<Rightarrow> ActionResult outcome" where
  "approve p v g key actor gens = transition \<lparr>rv_action = A_approve, rv_postmortem_id = p, rv_version = v,
     rv_expected_generation = g, rv_idempotency_key = key, rv_actor = actor, rv_reason = None,
     rv_entry_generations = Some (or_old gens [])\<rparr>"

definition reject :: "uuid \<Rightarrow> int \<Rightarrow> string \<Rightarrow> int \<Rightarrow> string \<Rightarrow> Actor \<Rightarrow> env \<Rightarrow> db \<Rightarrow> ActionResult outcome" where
  "reject p v reason g key actor = transition \<lparr>rv_action = A_reject, rv_postmortem_id = p, rv_version = v,
     rv_expected_generation = g, rv_idempotency_key = key, rv_actor = actor, rv_reason = Some reason, rv_entry_generations = None\<rparr>"

definition return_for_revision :: "uuid \<Rightarrow> int \<Rightarrow> string \<Rightarrow> int \<Rightarrow> string \<Rightarrow> Actor \<Rightarrow> env \<Rightarrow> db \<Rightarrow> ActionResult outcome" where
  "return_for_revision p v reason g key actor = transition \<lparr>rv_action = A_return, rv_postmortem_id = p, rv_version = v,
     rv_expected_generation = g, rv_idempotency_key = key, rv_actor = actor, rv_reason = Some reason, rv_entry_generations = None\<rparr>"

subsection \<open>Revocation\<close>

definition revoke_request :: "uuid \<Rightarrow> int \<Rightarrow> string \<Rightarrow> int \<Rightarrow> Actor \<Rightarrow> json" where
  "revoke_request k r reason g actor = JObj (fmap_of_list [(''action'', JStr ''revoke''), (''entry_id'', JStr (uuid_str k)),
     (''revision'', JInt r), (''reason'', JStr reason), (''expected_generation'', JInt g), (''actor'', actor_json actor)])"

definition revoke_in :: "env \<Rightarrow> uuid \<Rightarrow> int \<Rightarrow> string \<Rightarrow> int \<Rightarrow> string \<Rightarrow> Actor \<Rightarrow> db \<Rightarrow> ActionResult tx" where
  "revoke_in e k r reason g key actor db = (case find_row ke_entry_id k (db_entries db) of
      None \<Rightarrow> Inl E_NOT_FOUND
    | Some en \<Rightarrow> bind_result (replay e key ''revoke'' (revoke_request k r reason g actor) db) (\<lambda>before.
        case before of Some x \<Rightarrow> Inr (x, db)
        | None \<Rightarrow>
            if ke_generation en \<noteq> g then Inl E_GENERATION_CONFLICT
            else case revision_state k r db of
              None \<Rightarrow> Inl E_NOT_FOUND
            | Some s \<Rightarrow> if s \<noteq> KR_active then Inl E_ILLEGAL_TRANSITION
                else bind_result (review_audit e 0 key ''knowledge_entry'' k ''revoke'' actor g None (Some r) (Some reason) db) (\<lambda>db1.
                  record_result e key ''revoke'' (revoke_request k r reason g actor)
                    \<lparr>rs_action = ''revoke'', rs_object_kind = ''knowledge_entry'', rs_object_id = k, rs_generation = g + 1,
                     rs_version = None, rs_revision = Some r, rs_state = Some ''revoked'', rs_published = fmempty, rs_replayed = False\<rparr>
                    ((put_entry k (\<lambda>x. x\<lparr>ke_generation := g + 1\<rparr>) db1)\<lparr>db_revocations := db_revocations db1 @
                      [\<lparr>kx_entry_id = k, kx_revision = r, kx_reason = reason, kx_revoked_by = ac_actor_id actor,
                        kx_revoked_by_kind = principal_name (ac_principal_kind actor), kx_event_id = env_uuid4 e 0\<rparr>]\<rparr>))))"

definition revoke :: "uuid \<Rightarrow> int \<Rightarrow> string \<Rightarrow> int \<Rightarrow> string \<Rightarrow> Actor \<Rightarrow> env \<Rightarrow> db \<Rightarrow> ActionResult outcome" where
  "revoke k r reason g key actor e db = (case require_actor actor A_revoke of
      Some err \<Rightarrow> (Inl err, db)
    | None \<Rightarrow> if blank key \<or> blank reason \<or> r < 1 \<or> g < 0 then (Inl E_INVALID_INPUT, db)
        else transaction db (revoke_in e k r reason g key actor db))"

subsection \<open>Reads\<close>

text \<open>The knowledge read: the active revision of an entry with its freshness, joined with its source version and
  the ending of the observation that version rests on.\<close>

record knowledge_read =
  kn_revision :: revision_row
  kn_approved_at :: time
  kn_generated_at :: time
  kn_observation_ended_at :: time
  kn_evidence_snapshot_sha256 :: string

definition knowledge_read_of :: "revision_row \<Rightarrow> db \<Rightarrow> knowledge_read option" where
  "knowledge_read_of x db = (case version_row (kr_source_postmortem_id x) (kr_source_version x) db of
      None \<Rightarrow> None
    | Some v \<Rightarrow> (case find_row en_ending_id (pv_observation_ending_id v) (db_endings db) of
        None \<Rightarrow> None
      | Some en \<Rightarrow> Some \<lparr>kn_revision = x, kn_approved_at = kr_approved_at x, kn_generated_at = pv_created_at v,
          kn_observation_ended_at = en_recorded_at en, kn_evidence_snapshot_sha256 = pv_evidence_snapshot_sha256 v\<rparr>))"

definition active_revision :: "uuid \<Rightarrow> db \<Rightarrow> knowledge_read option" where
  "active_revision k db = (case List.map_filter (\<lambda>x. knowledge_read_of x db)
      (filter (\<lambda>x. kr_entry_id x = k \<and> revision_state k (kr_revision x) db = Some KR_active) (db_revisions db)) of
    [] \<Rightarrow> None | y # ys \<Rightarrow> Some y)"

definition knowledge_from_postmortem :: "uuid \<Rightarrow> db \<Rightarrow> (revision_row \<times> KnowledgeState option) list" where
  "knowledge_from_postmortem p db = map (\<lambda>x. (x, revision_state (kr_entry_id x) (kr_revision x) db))
     (sort_key (\<lambda>x. (kr_source_version x, kr_source_proposal_key x)) (filter (\<lambda>x. kr_source_postmortem_id x = p) (db_revisions db)))"

definition audit_trail :: "string \<Rightarrow> uuid \<Rightarrow> db \<Rightarrow> f13_audit_row list" where
  "audit_trail kind k db = sort_key fa_resulting_generation (filter (\<lambda>a. fa_object_kind a = kind \<and> fa_object_id a = k) (db_f13_audit db))"

end
