(* ===== verification/Knowledge_Machine.thy ===== *)
theory Knowledge_Machine
  imports Knowledge_Review
begin

section \<open>The abstract machine of postmortems and knowledge\<close>

text \<open>
  What an operation may do to the knowledge tables, as seven kinds of change: a new head, a draft with its
  parts, a move of a version along the postmortem lifecycle, a new entry, a published revision, a revocation and
  a recorded request. \<open>knowledge_step\<close> is any request of \<open>KnowledgeStore\<close>, the stale marking inside a
  business transaction, or anything that leaves these tables alone and removes no incident; every step is a
  sequence of changes (\<open>knowledge_refines\<close>).
\<close>

definition f13_same :: "db \<Rightarrow> db \<Rightarrow> bool" where
  "f13_same db db' \<longleftrightarrow> db_postmortems db' = db_postmortems db \<and> db_postmortem_versions db' = db_postmortem_versions db
     \<and> db_conclusions db' = db_conclusions db \<and> db_disputes db' = db_disputes db \<and> db_proposals db' = db_proposals db
     \<and> db_entries db' = db_entries db \<and> db_revisions db' = db_revisions db \<and> db_revocations db' = db_revocations db
     \<and> db_f13_audit db' = db_f13_audit db \<and> db_f13_requests db' = db_f13_requests db"

lemma f13_same_refl [simp]: "f13_same db db"
  by (simp add: f13_same_def)

lemma f13_same_trans: "f13_same a b \<Longrightarrow> f13_same b c \<Longrightarrow> f13_same a c"
  by (simp add: f13_same_def)

abbreviation find_head :: "uuid \<Rightarrow> db \<Rightarrow> postmortem_row option" where
  "find_head p db \<equiv> find_row ph_postmortem_id p (db_postmortems db)"

abbreviation find_entry :: "uuid \<Rightarrow> db \<Rightarrow> entry_row option" where
  "find_entry k db \<equiv> find_row ke_entry_id k (db_entries db)"

abbreviation version_key :: "postmortem_version_row \<Rightarrow> uuid \<times> int" where
  "version_key v \<equiv> (pv_postmortem_id v, pv_version v)"

text \<open>A version whose citations all validated and that nobody disputes.\<close>

definition clean_version :: "uuid \<Rightarrow> int \<Rightarrow> db \<Rightarrow> bool" where
  "clean_version p v db \<longleftrightarrow>
     (\<forall>c \<in> set (db_conclusions db). cn_postmortem_id c = p \<and> cn_version c = v \<longrightarrow> cn_citations_valid c)
   \<and> (\<forall>x \<in> set (db_disputes db). \<not> (dp_postmortem_id x = p \<and> dp_version x = v))"

definition audits :: "f13_audit_row \<Rightarrow> string \<Rightarrow> uuid \<Rightarrow> int \<Rightarrow> bool" where
  "audits a kind k g \<longleftrightarrow> fa_object_kind a = kind \<and> fa_object_id a = k \<and> fa_expected_generation a = g \<and> fa_resulting_generation a = g + 1"

text \<open>Only the state and its reason of a version change.\<close>

definition content_same :: "postmortem_version_row \<Rightarrow> postmortem_version_row \<Rightarrow> bool" where
  "content_same v w \<longleftrightarrow> w = v\<lparr>pv_state := pv_state w, pv_stale_reason := pv_stale_reason w\<rparr>"

definition revises :: "proposal_row \<Rightarrow> revision_row \<Rightarrow> bool" where
  "revises p x \<longleftrightarrow> pp_postmortem_id p = kr_source_postmortem_id x \<and> pp_version p = kr_source_version x
     \<and> pp_proposal_key p = kr_source_proposal_key x \<and> pp_name p = kr_name x \<and> pp_tags p = kr_tags x
     \<and> pp_content p = kr_content x \<and> pp_content_sha256 p = kr_content_sha256 x"

definition approves :: "f13_audit_row \<Rightarrow> revision_row \<Rightarrow> bool" where
  "approves a x \<longleftrightarrow> fa_event_id a = kr_event_id x \<and> fa_object_kind a = ''knowledge_entry'' \<and> fa_object_id a = kr_entry_id x
     \<and> fa_revision a = Some (kr_revision x) \<and> fa_actor_id a = kr_approved_by x \<and> fa_principal_kind a = ''basic_auth''
     \<and> fa_action a = (if kr_supersedes_revision x = None then ''publish'' else ''supersede'')"

inductive f13_change :: "db \<Rightarrow> db \<Rightarrow> bool" where
  other: "f13_same db db' \<Longrightarrow> f13_change db db'"
| headed: "f13_same (db\<lparr>db_postmortems := db_postmortems db @ [h]\<rparr>) db' \<Longrightarrow>
     ph_postmortem_id h \<notin> ph_postmortem_id ` set (db_postmortems db) \<Longrightarrow>
     ph_incident_id h \<notin> ph_incident_id ` set (db_postmortems db) \<Longrightarrow>
     ph_generation h = 0 \<Longrightarrow> ph_latest_version h = 0 \<Longrightarrow> f13_change db db'"
| moved: "f13_same (db\<lparr>db_f13_audit := db_f13_audit db @ [a],
       db_postmortems := update_where (\<lambda>x. ph_postmortem_id x = p) (\<lambda>x. x\<lparr>ph_generation := ph_generation h + 1\<rparr>) (db_postmortems db),
       db_postmortem_versions := update_where (\<lambda>x. pv_postmortem_id x = p \<and> pv_version x = v) f (db_postmortem_versions db)\<rparr>) db' \<Longrightarrow>
     find_head p db = Some h \<Longrightarrow> audits a ''postmortem'' p (ph_generation h) \<Longrightarrow> version_row p v db = Some row \<Longrightarrow>
     (\<And>x. content_same x (f x) \<and> pv_state (f x) = s) \<Longrightarrow> fire POSTMORTEM (pv_state row) t = Inr s \<Longrightarrow>
     (s = PM_approved \<Longrightarrow> clean_version p v db) \<Longrightarrow> f13_change db db'"
| drafted: "f13_same (db\<lparr>db_f13_audit := db_f13_audit db @ [a],
       db_postmortems := update_where (\<lambda>x. ph_postmortem_id x = p)
         (\<lambda>x. x\<lparr>ph_generation := ph_generation h + 1, ph_latest_version := ph_latest_version h + 1\<rparr>) (db_postmortems db),
       db_postmortem_versions := db_postmortem_versions db @ [w], db_conclusions := db_conclusions db @ cs,
       db_proposals := db_proposals db @ ps, db_disputes := db_disputes db @ ds\<rparr>) db' \<Longrightarrow>
     find_head p db = Some h \<Longrightarrow> audits a ''postmortem'' p (ph_generation h) \<Longrightarrow>
     version_key w = (p, ph_latest_version h + 1) \<Longrightarrow> version_row p (ph_latest_version h + 1) db = None \<Longrightarrow> pv_state w = PM_draft \<Longrightarrow>
     (\<forall>c \<in> set cs. cn_postmortem_id c = p \<and> cn_version c = ph_latest_version h + 1) \<Longrightarrow>
     (\<forall>x \<in> set ps. pp_postmortem_id x = p \<and> pp_version x = ph_latest_version h + 1) \<Longrightarrow>
     (\<forall>x \<in> set ds. dp_postmortem_id x = p \<and> dp_version x = ph_latest_version h + 1) \<Longrightarrow> f13_change db db'"
| entered: "f13_same (db\<lparr>db_entries := db_entries db @ [en]\<rparr>) db' \<Longrightarrow> ke_entry_id en \<notin> ke_entry_id ` set (db_entries db) \<Longrightarrow>
     ke_generation en = 0 \<Longrightarrow> ke_latest_revision en = 0 \<Longrightarrow> f13_change db db'"
| published: "f13_same (db\<lparr>db_f13_audit := db_f13_audit db @ [a],
       db_entries := update_where (\<lambda>y. ke_entry_id y = kr_entry_id x)
         (\<lambda>y. y\<lparr>ke_generation := ke_generation en + 1, ke_latest_revision := ke_latest_revision en + 1\<rparr>) (db_entries db),
       db_revisions := db_revisions db @ [x]\<rparr>) db' \<Longrightarrow>
     find_entry (kr_entry_id x) db = Some en \<Longrightarrow> audits a ''knowledge_entry'' (kr_entry_id x) (ke_generation en) \<Longrightarrow> approves a x \<Longrightarrow>
     kr_revision x = ke_latest_revision en + 1 \<Longrightarrow> superseded_revision (kr_entry_id x) (ke_latest_revision en) db = Inr (kr_supersedes_revision x) \<Longrightarrow>
     map_option pv_state (version_row (kr_source_postmortem_id x) (kr_source_version x) db) = Some PM_approved \<Longrightarrow>
     q \<in> set (db_proposals db) \<Longrightarrow> revises q x \<Longrightarrow> f13_change db db'"
| revoked: "f13_same (db\<lparr>db_f13_audit := db_f13_audit db @ [a],
       db_entries := update_where (\<lambda>y. ke_entry_id y = kx_entry_id x) (\<lambda>y. y\<lparr>ke_generation := ke_generation en + 1\<rparr>) (db_entries db),
       db_revocations := db_revocations db @ [x]\<rparr>) db' \<Longrightarrow>
     find_entry (kx_entry_id x) db = Some en \<Longrightarrow> audits a ''knowledge_entry'' (kx_entry_id x) (ke_generation en) \<Longrightarrow>
     revision_state (kx_entry_id x) (kx_revision x) db = Some KR_active \<Longrightarrow> f13_change db db'"
| requested: "f13_same (db\<lparr>db_f13_requests := db_f13_requests db @ [q]\<rparr>) db' \<Longrightarrow>
     find_row fr_idempotency_key (fr_idempotency_key q) (db_f13_requests db) = None \<Longrightarrow> f13_change db db'"

abbreviation f13_changes :: "db \<Rightarrow> db \<Rightarrow> bool" where
  "f13_changes \<equiv> f13_change\<^sup>*\<^sup>*"

subsection \<open>Requests and steps\<close>

text \<open>The requests of the store, by entry point.\<close>

datatype f13_call =
    Draft draft
  | Review review
  | Revoke uuid int string int string Actor

fun perform :: "f13_call \<Rightarrow> env \<Rightarrow> db \<Rightarrow> ActionResult outcome" where
  "perform (Draft d) = record_draft d"
| "perform (Review r) = transition r"
| "perform (Revoke k r reason g key actor) = revoke k r reason g key actor"

fun key_of :: "f13_call \<Rightarrow> string" where
  "key_of (Draft d) = df_idempotency_key d"
| "key_of (Review r) = rv_idempotency_key r"
| "key_of (Revoke k r reason g key actor) = key"

fun action_of :: "f13_call \<Rightarrow> string" where
  "action_of (Draft d) = ''generate''"
| "action_of (Review r) = action_name (rv_action r)"
| "action_of (Revoke k r reason g key actor) = ''revoke''"

fun request_of :: "env \<Rightarrow> f13_call \<Rightarrow> json" where
  "request_of e (Draft d) = draft_request e d"
| "request_of e (Review r) = review_request r"
| "request_of e (Revoke k r reason g key actor) = revoke_request k r reason g actor"

definition incidents_kept :: "db \<Rightarrow> db \<Rightarrow> bool" where
  "incidents_kept db db' \<longleftrightarrow> (\<forall>k. find_incident k db \<noteq> None \<longrightarrow> find_incident k db' \<noteq> None)"

inductive knowledge_step :: "db \<Rightarrow> db \<Rightarrow> bool" where
  step_call: "knowledge_step db (snd (perform q e db))"
| step_business: "f13_same db db1 \<Longrightarrow> mark_stale_in e n i reason source db1 = Inr db2 \<Longrightarrow> f13_same db2 db' \<Longrightarrow>
     incidents_kept db db' \<Longrightarrow> knowledge_step db db'"
| step_elsewhere: "f13_same db db' \<Longrightarrow> incidents_kept db db' \<Longrightarrow> knowledge_step db db'"

abbreviation knowledge_steps :: "db \<Rightarrow> db \<Rightarrow> bool" where
  "knowledge_steps \<equiv> knowledge_step\<^sup>*\<^sup>*"

subsection \<open>Every step is a sequence of changes\<close>

lemma change_same: "f13_change db db1 \<Longrightarrow> f13_same db1 db2 \<Longrightarrow> f13_changes db db2"
  by (rule converse_rtranclp_into_rtranclp, assumption) (blast intro: other)

lemma refused_Inr [simp]: "refused code r = Inr x \<longleftrightarrow> r = Inr x"
  by (cases r) (auto simp: refused_def split: perr.splits)

lemma review_audit_Inr:
  assumes "review_audit e n key kind k action actor g v r reason db = Inr db'"
  shows "\<exists>a. db' = db\<lparr>db_f13_audit := db_f13_audit db @ [a]\<rparr> \<and> audits a kind k g \<and> fa_event_id a = env_uuid4 e n
    \<and> fa_action a = action \<and> fa_revision a = r \<and> fa_actor_id a = ac_actor_id actor
    \<and> fa_principal_kind a = principal_name (ac_principal_kind actor)"
  using assms by (auto simp: review_audit_def f13_audit_def bind_result_Inr_iff insert_row_Inr_iff audits_def actor_pair_def)

lemma record_result_Inr:
  assumes "record_result e key action request r db = Inr (x, db')"
  shows "x = r \<and> (\<exists>q. db' = db\<lparr>db_f13_requests := db_f13_requests db @ [q]\<rparr> \<and> fr_idempotency_key q = key
    \<and> fr_action q = action \<and> fr_request_sha256 q = env_json_sha256 e request \<and> fr_result q = result_payload r
    \<and> find_row fr_idempotency_key key (db_f13_requests db) = None)"
  using assms by (auto simp: record_result_def record_request_def bind_result_Inr_iff insert_row_Inr_iff find_row_None_iff)

lemma record_result_change:
  assumes "record_result e key action request r db = Inr (x, db')"
  shows "f13_change db db'"
proof -
  from record_result_Inr [OF assms] obtain q where q: "db' = db\<lparr>db_f13_requests := db_f13_requests db @ [q]\<rparr>"
    "fr_idempotency_key q = key" "find_row fr_idempotency_key key (db_f13_requests db) = None" by blast
  show ?thesis by (rule requested [where q = q]) (use q in simp_all)
qed

text \<open>Publication: a new entry when none is named, then the revision.\<close>

lemma proposal_entry_changes:
  assumes "proposal_entry e n gens x db = Inr (k, g, db')"
  shows "f13_changes db db' \<and> map_option ke_generation (find_entry k db') = Some g
    \<and> db_postmortem_versions db' = db_postmortem_versions db \<and> db_proposals db' = db_proposals db"
proof (cases "pp_supersedes_entry_id x")
  case None
  let ?en = "\<lparr>ke_entry_id = env_uuid4 e n, ke_generation = 0, ke_latest_revision = 0\<rparr>"
  from assms None have r: "env_uuid4 e n \<notin> ke_entry_id ` set (db_entries db)" "k = env_uuid4 e n" "g = 0"
    "db' = db\<lparr>db_entries := db_entries db @ [?en]\<rparr>"
    by (auto simp: proposal_entry_def bind_result_Inr_iff insert_row_Inr_iff)
  have "f13_change db db'" by (rule entered [where en = ?en]) (use r in simp_all)
  moreover have "find_entry k db' = Some ?en"
    using r(1,2) by (simp add: r(4) find_row_append find_row_None_iff [THEN iffD2])
  ultimately show ?thesis using r by (simp add: r_into_rtranclp)
next
  case (Some k')
  with assms show ?thesis by (auto simp: proposal_entry_def split: option.splits if_splits)
qed

lemma publish_one_changes:
  assumes "publish_one e n key actor p v gens x db = Inr (b, db')" and actor: "ac_principal_kind actor = basic_auth"
    and app: "map_option pv_state (version_row p v db) = Some PM_approved"
    and x: "x \<in> set (db_proposals db)" "pp_postmortem_id x = p" "pp_version x = v"
  shows "f13_changes db db' \<and> db_postmortem_versions db' = db_postmortem_versions db \<and> db_proposals db' = db_proposals db"
proof -
  from assms(1) obtain k g db1 en sup db2 rs where e: "proposal_entry e n gens x db = Inr (k, g, db1)" and en: "find_entry k db1 = Some en"
    and sup: "superseded_revision k (ke_latest_revision en) db1 = Inr sup"
    and au: "review_audit e (n + 1) key ''knowledge_entry'' k (if sup \<noteq> None then ''supersede'' else ''publish'') actor g None
        (Some (ke_latest_revision en + 1)) None db1 = Inr db2"
    and rs: "insert_row (\<lambda>y. (kr_entry_id y, kr_revision y)) (new_revision e k (ke_latest_revision en + 1) p v x sup actor (env_uuid4 e (n + 1)))
        (db_revisions db2) = Inr rs"
    and db': "db' = (put_entry k (\<lambda>y. y\<lparr>ke_generation := g + 1, ke_latest_revision := ke_latest_revision en + 1\<rparr>) db2)\<lparr>db_revisions := rs\<rparr>"
    unfolding publish_one_def Let_def bind_result_Inr_iff by (auto simp: bind_result_Inr_iff split: option.splits)
  note pe = proposal_entry_changes [OF e]
  have g: "g = ke_generation en" using pe en by simp
  from review_audit_Inr [OF au] obtain a where a: "db2 = db1\<lparr>db_f13_audit := db_f13_audit db1 @ [a]\<rparr>" "audits a ''knowledge_entry'' k g"
    "fa_event_id a = env_uuid4 e (n + 1)" "fa_action a = (if sup \<noteq> None then ''supersede'' else ''publish'')"
    "fa_revision a = Some (ke_latest_revision en + 1)" "fa_actor_id a = ac_actor_id actor" "fa_principal_kind a = ''basic_auth''"
    using actor by auto
  define y where "y = new_revision e k (ke_latest_revision en + 1) p v x sup actor (env_uuid4 e (n + 1))"
  note rs = rs [folded y_def]
  have xs: "kr_entry_id y = k" "kr_revision y = ke_latest_revision en + 1" "kr_source_postmortem_id y = p" "kr_source_version y = v"
    "kr_supersedes_revision y = sup" "kr_event_id y = env_uuid4 e (n + 1)" "kr_approved_by y = ac_actor_id actor" "revises x y"
    using x by (simp_all add: y_def new_revision_def revises_def)
  have "f13_change db1 db'"
  proof (rule published [where a = a and x = y and en = en and q = x])
    show "f13_same (db1\<lparr>db_f13_audit := db_f13_audit db1 @ [a],
       db_entries := update_where (\<lambda>z. ke_entry_id z = kr_entry_id y)
         (\<lambda>z. z\<lparr>ke_generation := ke_generation en + 1, ke_latest_revision := ke_latest_revision en + 1\<rparr>) (db_entries db1),
       db_revisions := db_revisions db1 @ [y]\<rparr>) db'"
      using rs by (simp add: db' a(1) put_entry_def g xs(1) f13_same_def insert_row_Inr_iff)
    show "approves a y" using a xs by (auto simp: approves_def audits_def)
  qed (use en a(2) g sup xs app x(1) pe in \<open>simp_all add: version_row_def\<close>)
  with pe show ?thesis by (auto simp: db' a(1) put_entry_def intro: rtranclp.rtrancl_into_rtrancl)
qed

lemma publish_proposals_changes:
  assumes "publish_proposals e n key actor p v gens xs db = Inr (bs, db')" and "ac_principal_kind actor = basic_auth"
    and "map_option pv_state (version_row p v db) = Some PM_approved"
    and "\<And>x. x \<in> set xs \<Longrightarrow> x \<in> set (db_proposals db) \<and> pp_postmortem_id x = p \<and> pp_version x = v"
  shows "f13_changes db db'"
  using assms
proof (induction xs arbitrary: n db bs)
  case (Cons x xs)
  from Cons.prems(1) obtain b db1 bs' where o: "publish_one e n key actor p v gens x db = Inr (b, db1)"
    and r: "publish_proposals e (n + 2) key actor p v gens xs db1 = Inr (bs', db')"
    by (auto simp: bind_result_Inr_iff)
  have x: "x \<in> set (db_proposals db)" "pp_postmortem_id x = p" "pp_version x = v" using Cons.prems(4) by simp_all
  from publish_one_changes [OF o Cons.prems(2,3) x]
  have c: "f13_changes db db1" "db_postmortem_versions db1 = db_postmortem_versions db" "db_proposals db1 = db_proposals db" by blast+
  have "f13_changes db1 db'"
  proof (rule Cons.IH [OF r Cons.prems(2)])
    show "map_option pv_state (version_row p v db1) = Some PM_approved" using Cons.prems(3) by (simp add: version_row_def c(2))
    show "y \<in> set (db_proposals db1) \<and> pp_postmortem_id y = p \<and> pp_version y = v" if "y \<in> set xs" for y
      using Cons.prems(4) [of y] that by (simp only: c(3) list.set insert_iff simp_thms)
  qed
  with c(1) show ?case by simp
qed simp

lemma publish_version_changes:
  assumes "publish_version e key actor p v gens db = Inr (bs, db')" and "ac_principal_kind actor = basic_auth"
    and "map_option pv_state (version_row p v db) = Some PM_approved"
  shows "f13_changes db db'"
proof -
  note a = assms(1) [unfolded publish_version_def Let_def]
  then obtain bs' where b: "publish_proposals e 1 key actor p v gens (proposals_of p v db) db = Inr (bs', db')"
    by (cases "publish_proposals e 1 key actor p v gens (proposals_of p v db) db") (simp_all split: if_splits prod.splits)
  show ?thesis
  proof (rule publish_proposals_changes [OF b assms(2,3)])
    fix x assume "x \<in> set (proposals_of p v db)"
    then show "x \<in> set (db_proposals db) \<and> pp_postmortem_id x = p \<and> pp_version x = v" by (simp add: proposals_of_def)
  qed
qed

subsection \<open>Reviews\<close>

lemma review_checks_Inr:
  assumes "review_checks e r h db = Inr s"
  obtains row t where "ph_generation h = rv_expected_generation r" and "version_row (rv_postmortem_id r) (rv_version r) db = Some row"
    and "t = trigger_of (rv_action r)" and "fire POSTMORTEM (pv_state row) t = Inr s"
    and "rv_action r = A_approve \<Longrightarrow> clean_version (rv_postmortem_id r) (rv_version r) db \<and> moved_components e (ph_incident_id h) row db = Inr []"
proof -
  from assms obtain row where g: "ph_generation h = rv_expected_generation r"
    and row: "version_row (rv_postmortem_id r) (rv_version r) db = Some row"
    by (auto simp: review_checks_def split: if_splits option.splits)
  from row have k: "pv_postmortem_id row = rv_postmortem_id r" "pv_version row = rv_version r"
    unfolding version_row_def by (auto dest: find_row_key)
  from assms g row have "fire POSTMORTEM (pv_state row) (trigger_of (rv_action r)) = Inr s"
    by (auto simp: review_checks_def bind_result_Inr_iff split: if_splits sum.splits)
  moreover have "clean_version (rv_postmortem_id r) (rv_version r) db \<and> moved_components e (ph_incident_id h) row db = Inr []"
    if "rv_action r = A_approve"
  proof -
    from assms g row that have "approve_refused e h row db = Inr ()"
      by (auto simp: review_checks_def bind_result_Inr_iff split: sum.splits)
    with k show ?thesis by (auto simp: approve_refused_def clean_version_def bind_result_Inr_iff split: if_splits)
  qed
  ultimately show thesis using that [OF g row refl] by blast
qed

lemma write_review_changes:
  assumes "write_review e r h s db = Inr (bs, db')" and "review_checks e r h db = Inr s" and h: "find_head (rv_postmortem_id r) db = Some h"
    and "rv_action r = A_approve \<Longrightarrow> ac_principal_kind (rv_actor r) = basic_auth"
  shows "f13_changes db db'"
proof -
  let ?p = "rv_postmortem_id r" and ?v = "rv_version r" and ?g = "rv_expected_generation r"
  let ?f = "\<lambda>x. x\<lparr>pv_state := s, pv_stale_reason := (if rv_action r = A_mark_stale then rv_reason r else None)\<rparr>"
  from assms(1) obtain db1 where au: "review_audit e 0 (rv_idempotency_key r) ''postmortem'' ?p (action_name (rv_action r)) (rv_actor r) ?g
      (Some ?v) None (rv_reason r) db = Inr db1"
    and w: "(let db2 = set_version ?p ?v ?f (bump_postmortem ?p ?g db1);
        db3 = (if rv_action r = A_return then request_regeneration (ph_incident_id h) ?v db2 else db2) in
      if rv_action r = A_approve then publish_version e (rv_idempotency_key r) (rv_actor r) ?p ?v (or_old (rv_entry_generations r) []) db3
      else Inr (fmempty, db3)) = Inr (bs, db')"
    by (auto simp: write_review_def Let_def bind_result_Inr_iff)
  let ?db2 = "set_version ?p ?v ?f (bump_postmortem ?p ?g db1)"
  from review_audit_Inr [OF au] obtain a where a: "db1 = db\<lparr>db_f13_audit := db_f13_audit db @ [a]\<rparr>" "audits a ''postmortem'' ?p ?g" by blast
  from assms(2) obtain row t where g: "ph_generation h = ?g" and row: "version_row ?p ?v db = Some row"
    and fire: "fire POSTMORTEM (pv_state row) t = Inr s" and cl: "rv_action r = A_approve \<Longrightarrow> clean_version ?p ?v db"
    and t: "t = trigger_of (rv_action r)"
    by (rule review_checks_Inr) blast
  have ap: "rv_action r = A_approve" if "s = PM_approved"
    using fire that t unfolding postmortem_fire_approved by (cases "rv_action r") (simp_all add: postmortem_fire_approved)
  have m: "f13_change db ?db2"
  proof (rule moved [where a = a and p = ?p and v = ?v and f = ?f and h = h and row = row and s = s and t = t])
    show "f13_same (db\<lparr>db_f13_audit := db_f13_audit db @ [a],
       db_postmortems := update_where (\<lambda>x. ph_postmortem_id x = ?p) (\<lambda>x. x\<lparr>ph_generation := ph_generation h + 1\<rparr>) (db_postmortems db),
       db_postmortem_versions := update_where (\<lambda>x. pv_postmortem_id x = ?p \<and> pv_version x = ?v) ?f (db_postmortem_versions db)\<rparr>) ?db2"
      by (simp add: a(1) set_version_def bump_postmortem_def g f13_same_def)
  qed (use h a(2) g row fire ap cl in \<open>simp_all add: content_same_def\<close>)
  show ?thesis
  proof (cases "rv_action r = A_approve")
    case False
    let ?db3 = "if rv_action r = A_return then request_regeneration (ph_incident_id h) ?v ?db2 else ?db2"
    from w False have "db' = ?db3" by (simp add: Let_def)
    then have "f13_same ?db2 db'" by (simp add: request_regeneration_def f13_same_def)
    with m show ?thesis by (rule change_same)
  next
    case True
    with w have pv: "publish_version e (rv_idempotency_key r) (rv_actor r) ?p ?v (or_old (rv_entry_generations r) []) ?db2 = Inr (bs, db')"
      by (simp add: Let_def)
    have "s = PM_approved" using fire t True by (cases "pv_state row") (auto simp: POSTMORTEM_def machine_eval)
    moreover have "version_row ?p ?v ?db2 = Some (?f row)"
      using row find_row_key [OF row [unfolded version_row_def]]
      by (simp add: version_row_def set_version_def bump_postmortem_def a(1) find_row_update_where)
    ultimately have "map_option pv_state (version_row ?p ?v ?db2) = Some PM_approved" by simp
    from publish_version_changes [OF pv assms(4) [OF True] this] m show ?thesis by (rule converse_rtranclp_into_rtranclp [rotated])
  qed
qed

lemma transition_changes:
  assumes "transition_in e r db = Inr (x, db')" and "rv_action r = A_approve \<Longrightarrow> ac_principal_kind (rv_actor r) = basic_auth"
  shows "f13_changes db db'"
proof -
  from assms(1) obtain h before where h: "find_head (rv_postmortem_id r) db = Some h"
    and b: "replay e (rv_idempotency_key r) (action_name (rv_action r)) (review_request r) db = Inr before"
    by (auto simp: transition_in_def Let_def bind_result_Inr_iff split: option.splits)
  show ?thesis
  proof (cases before)
    case (Some y)
    with assms(1) h b show ?thesis by (simp add: transition_in_def Let_def)
  next
    case None
    with assms(1) h b obtain s bs db1 where c: "review_checks e r h db = Inr s" and w: "write_review e r h s db = Inr (bs, db1)"
      and q: "record_result e (rv_idempotency_key r) (action_name (rv_action r)) (review_request r)
        (postmortem_result (action_name (rv_action r)) (rv_postmortem_id r) (rv_expected_generation r + 1) (rv_version r) s bs) db1 = Inr (x, db')"
      by (auto simp: transition_in_def Let_def bind_result_Inr_iff)
    from write_review_changes [OF w c h assms(2)] record_result_change [OF q] show ?thesis by (rule rtranclp.rtrancl_into_rtrancl)
  qed
qed

lemma revoke_in_changes:
  assumes "revoke_in e k r reason g key actor db = Inr (x, db')"
  shows "f13_changes db db'"
proof -
  from assms obtain en before where en: "find_entry k db = Some en"
    and b: "replay e key ''revoke'' (revoke_request k r reason g actor) db = Inr before"
    by (auto simp: revoke_in_def bind_result_Inr_iff split: option.splits)
  show ?thesis
  proof (cases before)
    case (Some y)
    with assms en b show ?thesis by (simp add: revoke_in_def)
  next
    case None
    let ?x = "\<lparr>kx_entry_id = k, kx_revision = r, kx_reason = reason, kx_revoked_by = ac_actor_id actor,
       kx_revoked_by_kind = principal_name (ac_principal_kind actor), kx_event_id = env_uuid4 e 0\<rparr>"
    from assms en b None have g: "ke_generation en = g" and s: "revision_state k r db = Some KR_active"
      by (auto simp: revoke_in_def split: if_splits option.splits)
    with assms en b None obtain db1 rs where au: "review_audit e 0 key ''knowledge_entry'' k ''revoke'' actor g None (Some r) (Some reason) db = Inr db1"
      and q: "record_result e key ''revoke'' (revoke_request k r reason g actor) rs
         ((put_entry k (\<lambda>x. x\<lparr>ke_generation := g + 1\<rparr>) db1)\<lparr>db_revocations := db_revocations db1 @ [?x]\<rparr>) = Inr (x, db')"
      by (auto simp: revoke_in_def bind_result_Inr_iff)
    from review_audit_Inr [OF au] obtain a where a: "db1 = db\<lparr>db_f13_audit := db_f13_audit db @ [a]\<rparr>" "audits a ''knowledge_entry'' k g" by blast
    have "f13_change db ((put_entry k (\<lambda>x. x\<lparr>ke_generation := g + 1\<rparr>) db1)\<lparr>db_revocations := db_revocations db1 @ [?x]\<rparr>)"
      by (rule revoked [where a = a and x = ?x and en = en]) (use en a g s in \<open>simp_all add: put_entry_def f13_same_def\<close>)
    from this record_result_change [OF q] show ?thesis by (meson converse_rtranclp_into_rtranclp r_into_rtranclp)
  qed
qed

subsection \<open>Drafts\<close>

definition heads_distinct :: "db \<Rightarrow> bool" where
  "heads_distinct db \<longleftrightarrow> distinct (map ph_postmortem_id (db_postmortems db)) \<and> distinct (map version_key (db_postmortem_versions db))"

lemma ensure_changes:
  assumes "ensure_postmortem e k db = Inr (h, db')" and "heads_distinct db"
  shows "f13_changes db db' \<and> find_head (ph_postmortem_id h) db' = Some h \<and> db_postmortem_versions db' = db_postmortem_versions db"
proof (cases "find_row ph_incident_id k (db_postmortems db)")
  case (Some x)
  with assms find_row_distinct [of ph_postmortem_id "db_postmortems db" x] find_row_in_set [OF Some] show ?thesis
    by (auto simp: ensure_postmortem_def heads_distinct_def)
next
  case None
  let ?h = "\<lparr>ph_postmortem_id = env_uuid4 e 0, ph_incident_id = k, ph_generation = 0, ph_latest_version = 0\<rparr>"
  from assms(1) None have i: "env_uuid4 e 0 \<notin> ph_postmortem_id ` set (db_postmortems db)" "h = ?h" "db' = db\<lparr>db_postmortems := db_postmortems db @ [?h]\<rparr>"
    by (auto simp: ensure_postmortem_def Let_def bind_result_Inr_iff insert_row_Inr_iff)
  have "f13_change db db'" by (rule headed [where h = ?h]) (use i None in \<open>simp_all add: find_row_None_iff\<close>)
  moreover have "find_head (ph_postmortem_id h) db' = Some h"
    using i(1) by (simp add: i(2,3) find_row_append find_row_None_iff [THEN iffD2])
  ultimately show ?thesis by (simp add: i(3) r_into_rtranclp)
qed

lemma write_draft_changes:
  assumes "write_draft e d h db = Inr db'" and "find_head (ph_postmortem_id h) db = Some h" and "ph_generation h = df_expected_generation d"
  shows "f13_change db db' \<and> version_row (ph_postmortem_id h) (ph_latest_version h + 1) db' = Some (new_version e d h)
    \<and> find_head (ph_postmortem_id h) db' = Some (h\<lparr>ph_generation := ph_generation h + 1, ph_latest_version := ph_latest_version h + 1\<rparr>)"
proof -
  let ?p = "ph_postmortem_id h" and ?v = "ph_latest_version h + 1" and ?g = "df_expected_generation d" and ?w = "new_version e d h"
  from assms(1) obtain db1 vs where au: "review_audit e 1 (df_idempotency_key d) ''postmortem'' ?p ''generate'' (df_actor d) ?g (Some ?v) None None
        (regeneration_done d db) = Inr db1"
    and vs: "insert_row version_key ?w (db_postmortem_versions db1) = Inr vs"
    and ins: "insert_parts e d ?p ?v (db1\<lparr>db_postmortem_versions := vs,
        db_postmortems := update_where (\<lambda>x. ph_postmortem_id x = ?p) (\<lambda>x. x\<lparr>ph_generation := ?g + 1, ph_latest_version := ?v\<rparr>)
          (db_postmortems db1)\<rparr>) = Inr db'"
    by (auto simp: write_draft_def Let_def bind_result_Inr_iff)
  have rg: "f13_same db (regeneration_done d db)" by (simp add: regeneration_done_def f13_same_def)
  from review_audit_Inr [OF au] obtain a where a: "db1 = (regeneration_done d db)\<lparr>db_f13_audit := db_f13_audit (regeneration_done d db) @ [a]\<rparr>"
    "audits a ''postmortem'' ?p ?g" by blast
  have w: "version_key ?w = (?p, ?v)" "pv_state ?w = PM_draft" by (simp_all add: new_version_def Let_def)
  from vs w a(1) rg have new: "version_row ?p ?v db = None" and v: "vs = db_postmortem_versions db @ [?w]"
    by (simp_all add: insert_row_Inr_iff version_row_def find_row_None_iff f13_same_def)
  let ?cs = "conclusion_rows d ?p ?v" and ?ps = "proposal_rows e d ?p ?v" and ?ds = "dispute_rows e d ?p ?v"
  have same: "f13_same (db\<lparr>db_f13_audit := db_f13_audit db @ [a],
       db_postmortems := update_where (\<lambda>x. ph_postmortem_id x = ?p)
         (\<lambda>x. x\<lparr>ph_generation := ph_generation h + 1, ph_latest_version := ph_latest_version h + 1\<rparr>) (db_postmortems db),
       db_postmortem_versions := db_postmortem_versions db @ [?w], db_conclusions := db_conclusions db @ ?cs,
       db_proposals := db_proposals db @ ?ps, db_disputes := db_disputes db @ ?ds\<rparr>) db'"
    using ins rg v assms(3) by (auto simp: insert_parts_def Let_def f13_same_def a(1) split: if_splits)
  have "f13_change db db'"
    by (rule drafted [OF same assms(2)])
      (use a(2) assms(3) w new in \<open>auto simp: conclusion_rows_def proposal_rows_def dispute_rows_def Let_def\<close>)
  moreover have "version_row ?p ?v db' = Some ?w"
    using same w new by (simp add: f13_same_def version_row_def find_row_append)
  moreover have "find_head ?p db' = Some (h\<lparr>ph_generation := ph_generation h + 1, ph_latest_version := ph_latest_version h + 1\<rparr>)"
  proof -
    have "db_postmortems db' = update_where (\<lambda>x. ph_postmortem_id x = ?p)
         (\<lambda>x. x\<lparr>ph_generation := ph_generation h + 1, ph_latest_version := ph_latest_version h + 1\<rparr>) (db_postmortems db)"
      using same by (simp add: f13_same_def)
    then show ?thesis using assms(2) by (simp add: find_row_update_where)
  qed
  ultimately show ?thesis by blast
qed

lemma submit_draft_changes:
  assumes "submit_draft e d h db = Inr (g, s, db')" and h: "find_head (ph_postmortem_id h) db = Some h'" "ph_generation h' = df_expected_generation d + 1"
    and row: "version_row (ph_postmortem_id h) (ph_latest_version h + 1) db = Some row" "pv_state row = PM_draft"
  shows "f13_changes db db'"
proof (cases "reviewable d")
  case False
  with assms(1) show ?thesis by (simp add: submit_draft_def Let_def)
next
  case True
  let ?p = "ph_postmortem_id h" and ?v = "ph_latest_version h + 1" and ?g = "df_expected_generation d + 1"
  have fire: "fire POSTMORTEM PM_draft ''submit_for_review'' = Inr PM_under_review" by (simp add: POSTMORTEM_def machine_eval)
  from assms(1) True obtain db1 where au: "review_audit e (2 + length (df_disputes d)) (df_idempotency_key d) ''postmortem'' ?p ''submit'' (df_actor d) ?g
         (Some ?v) None None db = Inr db1"
    and db': "db' = set_version ?p ?v (\<lambda>x. x\<lparr>pv_state := PM_under_review\<rparr>) (bump_postmortem ?p ?g db1)"
    by (auto simp: submit_draft_def Let_def bind_result_Inr_iff fire)
  from review_audit_Inr [OF au] obtain a where a: "db1 = db\<lparr>db_f13_audit := db_f13_audit db @ [a]\<rparr>" "audits a ''postmortem'' ?p ?g" by blast
  have "f13_change db db'"
  proof (rule moved [where a = a and p = ?p and v = ?v and f = "\<lambda>x. x\<lparr>pv_state := PM_under_review\<rparr>" and h = h' and row = row
        and s = PM_under_review and t = "''submit_for_review''"])
    show "f13_same (db\<lparr>db_f13_audit := db_f13_audit db @ [a],
       db_postmortems := update_where (\<lambda>x. ph_postmortem_id x = ?p) (\<lambda>x. x\<lparr>ph_generation := ph_generation h' + 1\<rparr>) (db_postmortems db),
       db_postmortem_versions := update_where (\<lambda>x. pv_postmortem_id x = ?p \<and> pv_version x = ?v) (\<lambda>x. x\<lparr>pv_state := PM_under_review\<rparr>)
         (db_postmortem_versions db)\<rparr>) db'"
      by (simp add: db' a(1) set_version_def bump_postmortem_def h(2) f13_same_def)
  qed (use h a(2) row fire in \<open>simp_all add: content_same_def\<close>)
  then show ?thesis by blast
qed

lemma record_draft_changes:
  assumes "record_draft_in e d db = Inr (x, db')" and "heads_distinct db"
  shows "f13_changes db db'"
proof -
  from assms(1) obtain h db0 before where en: "ensure_postmortem e (df_incident_id d) db = Inr (h, db0)"
    and b: "replay e (df_idempotency_key d) ''generate'' (draft_request e d) db0 = Inr before"
    by (auto simp: record_draft_in_def bind_result_Inr_iff split: if_splits)
  note c = ensure_changes [OF en assms(2)]
  show ?thesis
  proof (cases before)
    case (Some y)
    with assms(1) en b c show ?thesis by (auto simp: record_draft_in_def split: if_splits)
  next
    case None
    with assms(1) en b obtain db1 g s db2 where k: "draft_checks e d h db0 = Inr ()" and w: "write_draft e d h db0 = Inr db1"
      and s: "submit_draft e d h db1 = Inr (g, s, db2)"
      and q: "record_result e (df_idempotency_key d) ''generate'' (draft_request e d)
             (postmortem_result ''generate'' (ph_postmortem_id h) g (ph_latest_version h + 1) s fmempty) db2 = Inr (x, db')"
      by (auto simp: record_draft_in_def bind_result_Inr_iff split: if_splits)
    have g: "ph_generation h = df_expected_generation d" using k by (auto simp: draft_checks_def Let_def split: if_splits)
    note wc = write_draft_changes [OF w _ g]
    have "f13_changes db1 db2"
      by (rule submit_draft_changes [OF s]) (use wc c g in \<open>auto simp: new_version_def Let_def\<close>)
    with c wc record_result_change [OF q] show ?thesis by (meson rtranclp.rtrancl_into_rtrancl rtranclp_trans)
  qed
qed

subsection \<open>Stale marks and the refinement\<close>

lemma mark_versions_changes:
  assumes "mark_versions e n i p g reason source ws db = Inr db'" and "find_head p db = Some h" and "ph_generation h = g"
    and "distinct (map pv_version ws)"
    and "\<And>w. w \<in> set ws \<Longrightarrow> version_row p (pv_version w) db = Some w \<and> pv_state w \<in> {PM_draft, PM_under_review}"
  shows "f13_changes db db'"
  using assms
proof (induction ws arbitrary: n g h db)
  case (Cons w ws)
  from Cons.prems(1) obtain m where m: "moved_components e i w db = Inr m" by (auto simp: bind_result_Inr_iff)
  have w: "version_row p (pv_version w) db = Some w" "pv_state w \<in> {PM_draft, PM_under_review}" using Cons.prems(5) by simp_all
  show ?case
  proof (cases "m = []")
    case True
    with Cons.prems(1) m have r: "mark_versions e (n + 2) i p g reason source ws db = Inr db'" by simp
    show ?thesis by (rule Cons.IH [OF r Cons.prems(2,3)]) (use Cons.prems(4,5) in simp_all)
  next
    case False
    let ?f = "stale_row reason" and ?actor = "''system:'' @ source" and ?key = "''stale:'' @ source @ '':'' @ uuid_str (env_uuid4 e (n + 1))"
    from Cons.prems(1) m False obtain db1 db2 where
      au: "f13_audit e n ?key ''postmortem'' p ''mark_stale'' (?actor, ''worker'') g (Some (pv_version w)) None (Some reason) db = Inr db1"
      and rq: "record_request e ?key ''mark_stale'' (stale_request p (pv_version w) reason g ?actor) (stale_result p (pv_version w) (g + 1))
         ((bump_postmortem p g db1)\<lparr>db_postmortem_versions :=
            update_where (\<lambda>v. pv_postmortem_id v = p \<and> pv_version v = pv_version w) ?f (db_postmortem_versions db1)\<rparr>) = Inr db2"
      and r: "mark_versions e (n + 2) i p (g + 1) reason source ws db2 = Inr db'"
      by (auto simp: Let_def bind_result_Inr_iff stale_row_def [abs_def])
    from au obtain a where a: "db1 = db\<lparr>db_f13_audit := db_f13_audit db @ [a]\<rparr>" "audits a ''postmortem'' p g"
      by (auto simp: f13_audit_def bind_result_Inr_iff insert_row_Inr_iff audits_def)
    let ?db1 = "(bump_postmortem p g db1)\<lparr>db_postmortem_versions :=
            update_where (\<lambda>v. pv_postmortem_id v = p \<and> pv_version v = pv_version w) ?f (db_postmortem_versions db1)\<rparr>"
    from rq obtain q where q: "db2 = ?db1\<lparr>db_f13_requests := db_f13_requests ?db1 @ [q]\<rparr>"
      "find_row fr_idempotency_key (fr_idempotency_key q) (db_f13_requests ?db1) = None"
      by (auto simp: record_request_def bind_result_Inr_iff insert_row_Inr_iff find_row_None_iff)
    have fire: "fire POSTMORTEM (pv_state w) ''mark_stale'' = Inr PM_stale" using w(2) by (auto simp: POSTMORTEM_def machine_eval)
    have c1: "f13_change db ?db1"
    proof (rule moved [where a = a and p = p and v = "pv_version w" and f = ?f and h = h and row = w and s = PM_stale and t = "''mark_stale''"])
      show "f13_same (db\<lparr>db_f13_audit := db_f13_audit db @ [a],
         db_postmortems := update_where (\<lambda>x. ph_postmortem_id x = p) (\<lambda>x. x\<lparr>ph_generation := ph_generation h + 1\<rparr>) (db_postmortems db),
         db_postmortem_versions := update_where (\<lambda>x. pv_postmortem_id x = p \<and> pv_version x = pv_version w) ?f (db_postmortem_versions db)\<rparr>) ?db1"
        using Cons.prems(3) by (simp add: a(1) bump_postmortem_def f13_same_def)
    qed (use Cons.prems(2,3) a(2) w fire in \<open>simp_all add: content_same_def stale_row_def\<close>)
    have c2: "f13_change ?db1 db2" by (rule requested [where q = q]) (use q in simp_all)
    have h2: "find_head p db2 = Some (h\<lparr>ph_generation := g + 1\<rparr>)"
      using Cons.prems(2) find_row_key [OF Cons.prems(2)] by (simp add: q(1) bump_postmortem_def a(1) find_row_update_where)
    have rows: "version_row p (pv_version x) db2 = Some x \<and> pv_state x \<in> {PM_draft, PM_under_review}" if x: "x \<in> set ws" for x
    proof -
      from x Cons.prems(4) have ne: "pv_version x \<noteq> pv_version w" by (auto simp: image_iff)
      have o: "version_row p (pv_version x) db = Some x \<and> pv_state x \<in> {PM_draft, PM_under_review}" using Cons.prems(5) x by simp
      then have "pv_version x = pv_version x \<and> pv_postmortem_id x = p" by (auto simp: version_row_def dest: find_row_key)
      with o ne show ?thesis
        by (simp add: version_row_def q(1) bump_postmortem_def a(1) find_row_update_where stale_row_def)
    qed
    have "f13_changes db2 db'"
      by (rule Cons.IH [OF r h2 _ _ rows]) (use Cons.prems(4) in simp_all)
    with c1 c2 show ?thesis by (meson converse_rtranclp_into_rtranclp)
  qed
qed simp

lemma stale_changes:
  assumes "mark_stale_in e n i reason source db = Inr db'" and "heads_distinct db"
  shows "f13_changes db db'"
proof -
  note m = assms(1) [unfolded mark_stale_in_def]
  have "db' = db \<or> (\<exists>h. find_row ph_incident_id i (db_postmortems db) = Some h
     \<and> mark_versions e n i (ph_postmortem_id h) (ph_generation h) reason source (open_versions (ph_postmortem_id h) db) db = Inr db')"
  proof (cases "find_row ph_incident_id i (db_postmortems db)")
    case None
    with m show ?thesis by (simp split: if_splits)
  next
    case (Some h)
    with m show ?thesis by (cases "open_versions (ph_postmortem_id h) db") (simp_all split: if_splits del: mark_versions.simps)
  qed
  then consider "db' = db" | h where "find_row ph_incident_id i (db_postmortems db) = Some h"
    "mark_versions e n i (ph_postmortem_id h) (ph_generation h) reason source (open_versions (ph_postmortem_id h) db) db = Inr db'" by blast
  then show ?thesis
  proof cases
    case 2
    let ?p = "ph_postmortem_id h"
    have "find_head ?p db = Some h"
      using find_row_distinct [of ph_postmortem_id] find_row_in_set [OF 2(1)] assms(2) by (auto simp: heads_distinct_def)
    moreover have "distinct (map pv_version (open_versions ?p db))"
      using assms(2) by (auto simp: open_versions_def heads_distinct_def distinct_map inj_on_def)
    moreover have "version_row ?p (pv_version w) db = Some w \<and> pv_state w \<in> {PM_draft, PM_under_review}" if "w \<in> set (open_versions ?p db)" for w
      using that assms(2) find_row_distinct [of version_key "db_postmortem_versions db" w]
      by (auto simp: open_versions_def heads_distinct_def version_row_def)
    ultimately show ?thesis using mark_versions_changes [OF 2(2)] by blast
  qed simp
qed

lemma require_basic: "require_actor a act = None \<Longrightarrow> act \<notin> WORKER_ACTIONS \<Longrightarrow> ac_principal_kind a = basic_auth"
  by (cases "ac_principal_kind a") (simp_all add: require_actor_def split: if_splits)

lemma perform_changes:
  assumes "heads_distinct db"
  shows "f13_changes db (snd (perform q e db))"
proof (cases q)
  case (Draft d)
  show ?thesis
  proof (cases "draft_refused d")
    case None
    then show ?thesis using record_draft_changes [OF _ assms]
      by (cases "record_draft_in e d db") (auto simp: Draft record_draft_def)
  qed (simp add: Draft record_draft_def)
next
  case (Review r)
  show ?thesis
  proof (cases "review_refused r")
    case None
    then have "ac_principal_kind (rv_actor r) = basic_auth" if "rv_action r = A_approve"
      using that require_basic [of "rv_actor r" "rv_action r"] by (simp add: review_refused_def WORKER_ACTIONS_def split: option.splits)
    from transition_changes [OF _ this] None show ?thesis
      by (cases "transition_in e r db") (auto simp: Review transition_def)
  qed (simp add: Review transition_def)
next
  case (Revoke k r reason g key actor)
  show ?thesis
    by (cases "revoke_in e k r reason g key actor db")
      (auto simp: Revoke revoke_def split: option.splits dest: revoke_in_changes)
qed

lemma knowledge_refines: "knowledge_step db db' \<Longrightarrow> heads_distinct db \<Longrightarrow> f13_changes db db'"
proof (induction rule: knowledge_step.induct)
  case (step_business db db1 e n i reason source db2 db')
  have "heads_distinct db1" using step_business by (simp add: heads_distinct_def f13_same_def)
  from stale_changes [OF step_business(2) this] other [OF step_business(1)] other [OF step_business(3)] show ?case
    by (meson converse_rtranclp_into_rtranclp rtranclp.rtrancl_into_rtrancl)
qed (auto intro: perform_changes other)

end
