(* ===== verification/Knowledge_Safety.thy ===== *)
theory Knowledge_Safety
  imports Knowledge_Machine
begin

section \<open>What holds of postmortems and knowledge in every reachable state\<close>

text \<open>
  \<open>knowledge_ok\<close> is kept by every change of the machine: rows are identified by their keys, an approved version
  is clean, a revision stands for an approved proposal and an audit row of a person, the revisions of an entry
  are numbered without gap with at most the last one active, and the audit rows of an object are exactly its
  generations. \<open>version_next\<close> is how one version may change.
\<close>

definition clean_ok :: "db \<Rightarrow> bool" where
  "clean_ok db \<longleftrightarrow> (\<forall>w \<in> set (db_postmortem_versions db). pv_state w = PM_approved \<longrightarrow> clean_version (pv_postmortem_id w) (pv_version w) db)"

definition approved_ok :: "db \<Rightarrow> bool" where
  "approved_ok db \<longleftrightarrow> (\<forall>x \<in> set (db_revisions db).
     map_option pv_state (version_row (kr_source_postmortem_id x) (kr_source_version x) db) = Some PM_approved
     \<and> (\<exists>q \<in> set (db_proposals db). revises q x) \<and> (\<exists>a \<in> set (db_f13_audit db). approves a x))"

definition revisions_of :: "uuid \<Rightarrow> db \<Rightarrow> revision_row list" where
  "revisions_of k db = filter (\<lambda>x. kr_entry_id x = k) (db_revisions db)"

definition revisions_ok :: "db \<Rightarrow> bool" where
  "revisions_ok db \<longleftrightarrow> distinct (map ke_entry_id (db_entries db))
     \<and> (\<forall>x \<in> set (db_revisions db). find_entry (kr_entry_id x) db \<noteq> None)
     \<and> (\<forall>en \<in> set (db_entries db). 0 \<le> ke_latest_revision en
        \<and> map kr_revision (revisions_of (ke_entry_id en) db) = [1..ke_latest_revision en]
        \<and> (\<forall>r. revision_state (ke_entry_id en) r db = Some KR_active \<longrightarrow> r = ke_latest_revision en))"

definition f13_trail :: "string \<Rightarrow> uuid \<Rightarrow> db \<Rightarrow> f13_audit_row list" where
  "f13_trail kind k db = filter (\<lambda>a. fa_object_kind a = kind \<and> fa_object_id a = k) (db_f13_audit db)"

definition f13_audit_ok :: "db \<Rightarrow> bool" where
  "f13_audit_ok db \<longleftrightarrow> (\<forall>h \<in> set (db_postmortems db). 0 \<le> ph_generation h
       \<and> map fa_resulting_generation (f13_trail ''postmortem'' (ph_postmortem_id h) db) = [1..ph_generation h])
     \<and> (\<forall>en \<in> set (db_entries db). 0 \<le> ke_generation en
       \<and> map fa_resulting_generation (f13_trail ''knowledge_entry'' (ke_entry_id en) db) = [1..ke_generation en])
     \<and> (\<forall>a \<in> set (db_f13_audit db). fa_expected_generation a = fa_resulting_generation a - 1
       \<and> (fa_object_kind a = ''postmortem'' \<longrightarrow> find_head (fa_object_id a) db \<noteq> None)
       \<and> (fa_object_kind a = ''knowledge_entry'' \<longrightarrow> find_entry (fa_object_id a) db \<noteq> None))"

definition knowledge_ok :: "db \<Rightarrow> bool" where
  "knowledge_ok db \<longleftrightarrow> heads_distinct db \<and> clean_ok db \<and> approved_ok db \<and> revisions_ok db \<and> f13_audit_ok db"

text \<open>A settled version stays as it is; an open one keeps its content.\<close>

definition version_next :: "postmortem_version_row \<Rightarrow> postmortem_version_row \<Rightarrow> bool" where
  "version_next w w' \<longleftrightarrow> content_same w w' \<and> (pv_state w \<notin> {PM_draft, PM_under_review} \<longrightarrow> w' = w)
     \<and> (pv_state w = PM_under_review \<longrightarrow> pv_state w' \<noteq> PM_draft)"

lemma f13_same_views:
  assumes "f13_same db db'"
  shows "heads_distinct db' = heads_distinct db" "clean_ok db' = clean_ok db" "approved_ok db' = approved_ok db"
    "revisions_ok db' = revisions_ok db" "f13_audit_ok db' = f13_audit_ok db" "version_row p v db' = version_row p v db"
    "find_row fr_idempotency_key key (db_f13_requests db') = find_row fr_idempotency_key key (db_f13_requests db)"
  using assms
  by (simp_all add: f13_same_def heads_distinct_def clean_ok_def clean_version_def approved_ok_def version_row_def revisions_ok_def
      revisions_of_def revision_state_def f13_audit_ok_def f13_trail_def)

subsection \<open>Versions\<close>

lemma fire_open: "fire POSTMORTEM s t = Inr s' \<Longrightarrow> s \<in> {PM_draft, PM_under_review} \<and> s' \<noteq> PM_draft"
  by (cases s) (auto simp: POSTMORTEM_def machine_eval split: if_splits)

lemma content_same_refl [simp]: "content_same w w"
  unfolding content_same_def by (cases w) simp

lemma content_same_key [simp]:
  assumes "content_same w w'"
  shows "pv_postmortem_id w' = pv_postmortem_id w" "pv_version w' = pv_version w"
  by (subst assms [unfolded content_same_def], simp)+

lemma content_same_trans: "content_same a b \<Longrightarrow> content_same b c \<Longrightarrow> content_same a c"
  unfolding content_same_def by (cases a; cases b; cases c) simp

lemma version_next_refl [simp]: "version_next w w"
  by (simp add: version_next_def)

lemma version_next_trans: "version_next a b \<Longrightarrow> version_next b c \<Longrightarrow> version_next a c"
  unfolding version_next_def using content_same_trans by blast

lemma heads_distinct_change: "f13_change db db' \<Longrightarrow> heads_distinct db \<Longrightarrow> heads_distinct db'"
proof (induction rule: f13_change.induct)
  case (moved p v f db h a db' row s t)
  have k: "pv_postmortem_id (f x) = pv_postmortem_id x \<and> pv_version (f x) = pv_version x" for x using moved.hyps(5) [of x] by simp
  have "map version_key (update_where (\<lambda>x. pv_postmortem_id x = p \<and> pv_version x = v) f (db_postmortem_versions db))
      = map version_key (db_postmortem_versions db)" by (intro map_update_where) (simp add: k)
  moreover have "map ph_postmortem_id (update_where (\<lambda>x. ph_postmortem_id x = p) (\<lambda>x. x\<lparr>ph_generation := ph_generation h + 1\<rparr>) (db_postmortems db))
      = map ph_postmortem_id (db_postmortems db)" by (intro map_update_where) simp
  ultimately show ?case using moved.prems unfolding f13_same_views(1) [OF moved.hyps(1)] by (simp add: heads_distinct_def)
next
  case (drafted db ds ps cs w p h a db')
  have "map ph_postmortem_id (update_where (\<lambda>x. ph_postmortem_id x = p)
       (\<lambda>x. x\<lparr>ph_generation := ph_generation h + 1, ph_latest_version := ph_latest_version h + 1\<rparr>) (db_postmortems db))
      = map ph_postmortem_id (db_postmortems db)" by (intro map_update_where) simp
  with drafted.prems drafted.hyps(4,5) show ?case unfolding f13_same_views(1) [OF drafted.hyps(1)]
    by (simp add: heads_distinct_def version_row_def find_row_None_iff)
qed (simp_all add: f13_same_views(1), simp_all add: heads_distinct_def)

lemma version_change:
  assumes "f13_change db db'" and "version_row p v db = Some w"
  shows "\<exists>w'. version_row p v db' = Some w' \<and> version_next w w'"
  using assms
proof (induction rule: f13_change.induct)
  case (moved p' v' f db h a db' row s t)
  have k: "version_key w = (p, v)" using moved.prems by (auto simp: version_row_def dest: find_row_key)
  have r: "version_row p v db' = map_option (\<lambda>x. if pv_postmortem_id x = p' \<and> pv_version x = v' then f x else x) (version_row p v db)"
    unfolding f13_same_views(6) [OF moved.hyps(1)] using moved.hyps(5) by (simp add: version_row_def find_row_update_where)
  show ?case
  proof (cases "p = p' \<and> v = v'")
    case True
    with moved.prems moved.hyps(4) have "row = w" by simp
    with fire_open [OF moved.hyps(6)] moved.hyps(5) [of w] have "version_next w (f w)" by (auto simp: version_next_def)
    with True r moved.prems k show ?thesis by simp
  next
    case False
    with r moved.prems k show ?thesis by auto
  qed
next
  case (drafted db ds ps cs x p' h a db')
  then have "version_row p v db' = Some w"
    unfolding f13_same_views(6) [OF drafted.hyps(1)] by (simp add: version_row_def find_row_append)
  then show ?case by simp
qed (simp_all add: f13_same_views(6), simp_all add: version_row_def)

lemma version_changes:
  assumes "f13_changes db db'" and "version_row p v db = Some w"
  shows "\<exists>w'. version_row p v db' = Some w' \<and> version_next w w'"
  using assms
proof (induction rule: rtranclp_induct)
  case base
  then show ?case by simp
next
  case (step y z)
  then show ?case using version_change version_next_trans by blast
qed

subsection \<open>Approved versions and published revisions\<close>

lemma clean_version_append:
  assumes "(q, r) \<noteq> (p, v)" and "clean_version q r db" and cs: "\<forall>c \<in> set cs. cn_postmortem_id c = p \<and> cn_version c = v"
    and ds: "\<forall>x \<in> set ds. dp_postmortem_id x = p \<and> dp_version x = v"
  shows "clean_version q r (db\<lparr>db_conclusions := db_conclusions db @ cs, db_disputes := db_disputes db @ ds\<rparr>)"
proof -
  have "\<not> (cn_postmortem_id c = q \<and> cn_version c = r)" if "c \<in> set cs" for c using cs that assms(1) by blast
  moreover have "\<not> (dp_postmortem_id x = q \<and> dp_version x = r)" if "x \<in> set ds" for x using ds that assms(1) by blast
  ultimately show ?thesis using assms(2) by (simp add: clean_version_def) blast
qed

lemma clean_ok_change:
  assumes "f13_change db db'" and "clean_ok db" and "heads_distinct db"
  shows "clean_ok db'"
  using assms
proof (induction rule: f13_change.induct)
  case (moved p v f db h a db' row s t)
  let ?db = "db\<lparr>db_f13_audit := db_f13_audit db @ [a],
       db_postmortems := update_where (\<lambda>x. ph_postmortem_id x = p) (\<lambda>x. x\<lparr>ph_generation := ph_generation h + 1\<rparr>) (db_postmortems db),
       db_postmortem_versions := update_where (\<lambda>x. pv_postmortem_id x = p \<and> pv_version x = v) f (db_postmortem_versions db)\<rparr>"
  have c: "clean_version q r ?db = clean_version q r db" for q r by (simp add: clean_version_def)
  have "clean_version (pv_postmortem_id w) (pv_version w) ?db" if w: "w \<in> set (db_postmortem_versions ?db)" "pv_state w = PM_approved" for w
  proof -
    from w(1) obtain x where x: "x \<in> set (db_postmortem_versions db)" "w = (if pv_postmortem_id x = p \<and> pv_version x = v then f x else x)"
      by (auto simp: set_update_where)
    show ?thesis
    proof (cases "pv_postmortem_id x = p \<and> pv_version x = v")
      case True
      with x w(2) moved.hyps(5) [of x] have "s = PM_approved" "pv_postmortem_id w = p" "pv_version w = v" by auto
      with moved.hyps(7) show ?thesis by (simp add: c)
    next
      case False
      with x w(2) moved.prems(1) show ?thesis by (simp add: c clean_ok_def)
    qed
  qed
  then have "clean_ok ?db" unfolding clean_ok_def by blast
  with f13_same_views(2) [OF moved.hyps(1)] show ?case by simp
next
  case (drafted db ds ps cs x p h a db')
  have "clean_version (pv_postmortem_id w) (pv_version w) (db\<lparr>db_conclusions := db_conclusions db @ cs, db_disputes := db_disputes db @ ds\<rparr>)"
    if w: "w \<in> set (db_postmortem_versions db)" "pv_state w = PM_approved" for w
  proof -
    have "(pv_postmortem_id w, pv_version w) \<noteq> (p, ph_latest_version h + 1)"
      using w(1) drafted.hyps(5) by (auto simp: version_row_def find_row_None_iff)
    moreover have "clean_version (pv_postmortem_id w) (pv_version w) db" using drafted.prems(1) w by (simp add: clean_ok_def)
    ultimately show ?thesis by (rule clean_version_append [OF _ _ drafted.hyps(7,9)])
  qed
  then have "clean_ok (db\<lparr>db_conclusions := db_conclusions db @ cs, db_disputes := db_disputes db @ ds\<rparr>)"
    by (simp add: clean_ok_def)
  then show ?case using drafted.hyps(6) unfolding f13_same_views(2) [OF drafted.hyps(1)]
    by (simp add: clean_ok_def clean_version_def)
qed (simp_all add: f13_same_views(2), simp_all add: clean_ok_def clean_version_def)

lemma approved_kept:
  assumes "f13_change db db'" and "map_option pv_state (version_row p v db) = Some PM_approved"
  shows "map_option pv_state (version_row p v db') = Some PM_approved"
proof -
  from assms(2) obtain w where w: "version_row p v db = Some w" "pv_state w = PM_approved" by auto
  from version_change [OF assms(1) w(1)] w(2) show ?thesis by (auto simp: version_next_def)
qed

lemma approved_ok_change:
  assumes "f13_change db db'" and "approved_ok db"
  shows "approved_ok db'"
proof -
  have sub: "set (db_proposals db) \<subseteq> set (db_proposals db')" "set (db_f13_audit db) \<subseteq> set (db_f13_audit db')"
    using assms(1) by (cases; force simp: f13_same_def)+
  have old: "map_option pv_state (version_row (kr_source_postmortem_id x) (kr_source_version x) db') = Some PM_approved
     \<and> (\<exists>q \<in> set (db_proposals db'). revises q x) \<and> (\<exists>a \<in> set (db_f13_audit db'). approves a x)" if x: "x \<in> set (db_revisions db)" for x
  proof -
    from assms(2) x have "map_option pv_state (version_row (kr_source_postmortem_id x) (kr_source_version x) db) = Some PM_approved"
      "\<exists>q \<in> set (db_proposals db). revises q x" "\<exists>a \<in> set (db_f13_audit db). approves a x" by (auto simp: approved_ok_def)
    with approved_kept [OF assms(1)] sub show ?thesis by blast
  qed
  have same: "approved_ok db'" if "db_revisions db' = db_revisions db"
    unfolding approved_ok_def that using old by blast
  from assms(1) show ?thesis
  proof cases
    case (published x en a q)
    have "map_option pv_state (version_row (kr_source_postmortem_id x) (kr_source_version x) db') = Some PM_approved"
      by (rule approved_kept [OF assms(1) published(7)])
    moreover have "db_revisions db' = db_revisions db @ [x]" "db_proposals db' = db_proposals db" "db_f13_audit db' = db_f13_audit db @ [a]"
      using published(1) by (simp_all add: f13_same_def)
    ultimately show ?thesis using old published(4,8,9) unfolding approved_ok_def by auto
  qed (rule same, simp add: f13_same_def)+
qed

subsection \<open>The revisions of an entry\<close>

lemma revisions_same:
  assumes "revisions_ok db" and "db_revisions db' = db_revisions db" and "db_revocations db' = db_revocations db @ xs"
    and "map ke_entry_id (db_entries db') = map ke_entry_id (db_entries db)"
    and "map ke_latest_revision (db_entries db') = map ke_latest_revision (db_entries db)"
  shows "revisions_ok db'"
proof -
  have f: "(find_entry k db' = None) = (find_entry k db = None)" for k
    using assms(4) by (metis find_row_None_iff list.set_map)
  have act: "revision_state k r db' = Some KR_active \<Longrightarrow> revision_state k r db = Some KR_active" for k r
    by (auto simp: revision_state_def assms(2,3) split: if_splits)
  have en: "\<exists>en' \<in> set (db_entries db). ke_entry_id en' = ke_entry_id en \<and> ke_latest_revision en' = ke_latest_revision en"
    if en: "en \<in> set (db_entries db')" for en
  proof -
    from en obtain n where n: "n < length (db_entries db')" "en = db_entries db' ! n" by (auto simp: in_set_conv_nth)
    moreover have "length (db_entries db') = length (db_entries db)" using assms(4) by (rule map_eq_imp_length_eq)
    ultimately have l: "n < length (db_entries db)" by simp
    have "ke_entry_id (db_entries db ! n) = ke_entry_id en" "ke_latest_revision (db_entries db ! n) = ke_latest_revision en"
      using arg_cong [OF assms(4), of "\<lambda>x. x ! n"] arg_cong [OF assms(5), of "\<lambda>x. x ! n"] n l by simp_all
    with l show ?thesis by (metis nth_mem)
  qed
  show ?thesis
    unfolding revisions_ok_def revisions_of_def assms(2,4) f
  proof (intro conjI ballI allI impI)
    fix en assume "en \<in> set (db_entries db')"
    from en [OF this] obtain en' where e: "en' \<in> set (db_entries db)" "ke_entry_id en' = ke_entry_id en" "ke_latest_revision en' = ke_latest_revision en"
      by blast
    with assms(1) show "0 \<le> ke_latest_revision en"
      "map kr_revision (filter (\<lambda>x. kr_entry_id x = ke_entry_id en) (db_revisions db)) = [1..ke_latest_revision en]"
      by (auto simp: revisions_ok_def revisions_of_def)
    show "r = ke_latest_revision en" if "revision_state (ke_entry_id en) r db' = Some KR_active" for r
      using act [OF that] assms(1) e by (auto simp: revisions_ok_def)
  qed (use assms(1) in \<open>simp_all add: revisions_ok_def\<close>)
qed

lemma revision_listed:
  assumes "revisions_ok db" and "en \<in> set (db_entries db)" and "revision_state (ke_entry_id en) r db \<noteq> None"
  shows "1 \<le> r \<and> r \<le> ke_latest_revision en"
proof -
  from assms(3) have "(ke_entry_id en, r) \<in> (\<lambda>x. (kr_entry_id x, kr_revision x)) ` set (db_revisions db)"
    by (auto simp: revision_state_def find_row_None_iff split: if_splits)
  then have "r \<in> set (map kr_revision (revisions_of (ke_entry_id en) db))" by (force simp: revisions_of_def)
  moreover have "map kr_revision (revisions_of (ke_entry_id en) db) = [1..ke_latest_revision en]"
    using assms(1,2) by (simp add: revisions_ok_def)
  ultimately show ?thesis by simp
qed

text \<open>A published revision leaves none but itself active.\<close>

lemma published_active:
  assumes ok: "revisions_ok db" and en: "en \<in> set (db_entries db)" "kr_entry_id x = ke_entry_id en"
    and r: "kr_revision x = ke_latest_revision en + 1"
    and sup: "superseded_revision (ke_entry_id en) (ke_latest_revision en) db = Inr (kr_supersedes_revision x)"
    and db': "db_revisions db' = db_revisions db @ [x]" "db_revocations db' = db_revocations db"
    and act: "revision_state (ke_entry_id en) s db' = Some KR_active"
  shows "s = ke_latest_revision en + 1"
proof (rule ccontr)
  assume s: "s \<noteq> ke_latest_revision en + 1"
  let ?k = "ke_entry_id en" and ?L = "ke_latest_revision en"
  have a: "revision_state ?k s db = Some KR_active" "kr_supersedes_revision x \<noteq> Some s"
    using act s r en(2) by (auto simp: revision_state_def db' find_row_append split: if_splits option.splits)
  then have L: "s = ?L" using ok en(1) by (auto simp: revisions_ok_def)
  have "1 \<le> ?L" using revision_listed [OF ok en(1), of s] a(1) L by simp
  with sup a L show False by (simp add: superseded_revision_def)
qed

lemma upto_Suc: "0 \<le> n \<Longrightarrow> [1..n + 1] = [1..n] @ [n + 1]" for n :: int
  using upto_rec2 [of 1 "n + 1"] by simp

lemma revisions_ok_published:
  assumes ok: "revisions_ok db" and en: "find_entry (kr_entry_id x) db = Some en" and r: "kr_revision x = ke_latest_revision en + 1"
    and sup: "superseded_revision (kr_entry_id x) (ke_latest_revision en) db = Inr (kr_supersedes_revision x)"
    and db': "db_revisions db' = db_revisions db @ [x]" "db_revocations db' = db_revocations db"
      "db_entries db' = update_where (\<lambda>y. ke_entry_id y = kr_entry_id x)
         (\<lambda>y. y\<lparr>ke_generation := ke_generation en + 1, ke_latest_revision := ke_latest_revision en + 1\<rparr>) (db_entries db)"
  shows "revisions_ok db'"
proof -
  let ?k = "kr_entry_id x"
  have k: "ke_entry_id en = ?k" "en \<in> set (db_entries db)" using find_row_key [OF en] find_row_in_set [OF en] by simp_all
  have ids: "map ke_entry_id (db_entries db') = map ke_entry_id (db_entries db)" unfolding db'(3) by (intro map_update_where) simp
  have f: "(find_entry q db' = None) = (find_entry q db = None)" for q using ids by (metis find_row_None_iff list.set_map)
  have d: "distinct (map ke_entry_id (db_entries db))" using ok by (simp add: revisions_ok_def)
  show ?thesis
    unfolding revisions_ok_def ids f
  proof (intro conjI ballI allI impI)
    show "find_entry (kr_entry_id y) db \<noteq> None" if "y \<in> set (db_revisions db')" for y
      using that ok en by (auto simp: db'(1) revisions_ok_def)
    fix en' assume "en' \<in> set (db_entries db')"
    then obtain y where y: "y \<in> set (db_entries db)"
      "en' = (if ke_entry_id y = ?k then y\<lparr>ke_generation := ke_generation en + 1, ke_latest_revision := ke_latest_revision en + 1\<rparr> else y)"
      by (auto simp: db'(3) set_update_where)
    have old: "0 \<le> ke_latest_revision y" "map kr_revision (revisions_of (ke_entry_id y) db) = [1..ke_latest_revision y]"
      "\<And>s. revision_state (ke_entry_id y) s db = Some KR_active \<Longrightarrow> s = ke_latest_revision y"
      using ok y(1) by (auto simp: revisions_ok_def)
    have "0 \<le> ke_latest_revision en' \<and> map kr_revision (revisions_of (ke_entry_id en') db') = [1..ke_latest_revision en']
       \<and> (\<forall>s. revision_state (ke_entry_id en') s db' = Some KR_active \<longrightarrow> s = ke_latest_revision en')"
    proof (cases "ke_entry_id y = ?k")
      case True
      have "y = en" using find_row_distinct [OF d y(1)] en True by simp
      have e: "ke_entry_id en' = ke_entry_id en" "ke_latest_revision en' = ke_latest_revision en + 1" using y(2) True \<open>y = en\<close> by simp_all
      have "s = ke_latest_revision en + 1" if "revision_state (ke_entry_id en) s db' = Some KR_active" for s
        by (rule published_active [OF ok k(2) _ r _ db'(1,2) that]) (use k(1) sup in simp_all)
      moreover have "map kr_revision (revisions_of (ke_entry_id en) db') = [1..ke_latest_revision en + 1]"
        using old \<open>y = en\<close> k(1) r by (simp add: revisions_of_def db'(1) upto_Suc)
      ultimately show ?thesis using old(1) \<open>y = en\<close> unfolding e by simp
    next
      case False
      then have e: "en' = y" using y(2) by simp
      have "revision_state (ke_entry_id y) s db' = revision_state (ke_entry_id y) s db" for s
        using False by (auto simp: revision_state_def db' find_row_append split: option.splits)
      with old False show ?thesis unfolding e by (simp add: revisions_of_def db'(1))
    qed
    then show "0 \<le> ke_latest_revision en'" "map kr_revision (revisions_of (ke_entry_id en') db') = [1..ke_latest_revision en']"
      "\<And>s. revision_state (ke_entry_id en') s db' = Some KR_active \<Longrightarrow> s = ke_latest_revision en'" by blast+
  qed (rule d)
qed

lemma revisions_ok_entered:
  assumes ok: "revisions_ok db" and en: "ke_entry_id en \<notin> ke_entry_id ` set (db_entries db)" "ke_latest_revision en = 0"
    and db': "db_revisions db' = db_revisions db" "db_revocations db' = db_revocations db" "db_entries db' = db_entries db @ [en]"
  shows "revisions_ok db'"
proof -
  have st: "revision_state k r db' = revision_state k r db" for k r by (simp add: revision_state_def db')
  have none: "revisions_of (ke_entry_id en) db = []"
  proof -
    have "\<forall>x \<in> set (db_revisions db). kr_entry_id x \<in> ke_entry_id ` set (db_entries db)"
      using ok by (simp add: revisions_ok_def find_row_None_iff)
    with en(1) show ?thesis unfolding revisions_of_def filter_empty_conv by metis
  qed
  have "revision_state (ke_entry_id en) r db = None" for r
    using none by (auto simp: revision_state_def revisions_of_def filter_empty_conv find_row_None_iff)
  with none have "0 \<le> ke_latest_revision en \<and> map kr_revision (revisions_of (ke_entry_id en) db) = [1..ke_latest_revision en]
     \<and> (\<forall>r. revision_state (ke_entry_id en) r db = Some KR_active \<longrightarrow> r = ke_latest_revision en)"
    using en(2) by simp
  then show ?thesis
    using ok en(1) by (simp add: revisions_ok_def st revisions_of_def db' find_row_append) (auto split: option.splits)
qed

lemma revisions_ok_change:
  assumes "f13_change db db'" and "revisions_ok db"
  shows "revisions_ok db'"
  using assms(1)
proof cases
  case (entered en)
  show ?thesis by (rule revisions_ok_entered [OF assms(2) entered(2,4)]) (use entered(1) in \<open>simp_all add: f13_same_def\<close>)
next
  case (published x en a q)
  show ?thesis
    by (rule revisions_ok_published [OF assms(2) published(2,5,6)]) (use published(1) in \<open>simp_all add: f13_same_def\<close>)
next
  case (revoked x en a)
  let ?g = "\<lambda>y. y\<lparr>ke_generation := ke_generation en + 1\<rparr>" and ?P = "\<lambda>y. ke_entry_id y = kx_entry_id x"
  have m: "map ke_entry_id (update_where ?P ?g (db_entries db)) = map ke_entry_id (db_entries db)"
    "map ke_latest_revision (update_where ?P ?g (db_entries db)) = map ke_latest_revision (db_entries db)"
    by (intro map_update_where, simp)+
  show ?thesis by (rule revisions_same [OF assms(2)]) (use revoked(1) m in \<open>simp_all add: f13_same_def\<close>)
qed (rule revisions_same [OF assms(2), where xs = "[]"], simp_all add: f13_same_def)+

subsection \<open>The audit of the objects\<close>

lemma f13_trail_append [simp]:
  "f13_trail kind k (db\<lparr>db_f13_audit := db_f13_audit db @ [a]\<rparr>) =
     f13_trail kind k db @ (if fa_object_kind a = kind \<and> fa_object_id a = k then [a] else [])"
  by (simp add: f13_trail_def)

text \<open>The generations of the objects of one kind, by their audit rows.\<close>

definition generations_ok :: "string \<Rightarrow> (uuid \<times> int) list \<Rightarrow> f13_audit_row list \<Rightarrow> bool" where
  "generations_ok kind gs as \<longleftrightarrow> (\<forall>(k, g) \<in> set gs. 0 \<le> g
      \<and> map fa_resulting_generation (filter (\<lambda>a. fa_object_kind a = kind \<and> fa_object_id a = k) as) = [1..g])
    \<and> (\<forall>a \<in> set as. fa_expected_generation a = fa_resulting_generation a - 1 \<and> (fa_object_kind a = kind \<longrightarrow> fa_object_id a \<in> fst ` set gs))"

definition head_generations :: "db \<Rightarrow> (uuid \<times> int) list" where
  "head_generations db = map (\<lambda>h. (ph_postmortem_id h, ph_generation h)) (db_postmortems db)"

definition entry_generations :: "db \<Rightarrow> (uuid \<times> int) list" where
  "entry_generations db = map (\<lambda>en. (ke_entry_id en, ke_generation en)) (db_entries db)"

lemma f13_audit_ok_iff:
  "f13_audit_ok db \<longleftrightarrow> generations_ok ''postmortem'' (head_generations db) (db_f13_audit db)
     \<and> generations_ok ''knowledge_entry'' (entry_generations db) (db_f13_audit db)"
  by (auto simp: f13_audit_ok_def generations_ok_def head_generations_def entry_generations_def f13_trail_def find_row_None_iff image_image)

lemma generations_new: "generations_ok kind gs as \<Longrightarrow> k \<notin> fst ` set gs \<Longrightarrow> generations_ok kind (gs @ [(k, 0)]) as"
  by (auto simp: generations_ok_def filter_empty_conv)

lemma generations_other: "generations_ok kind gs as \<Longrightarrow> audits a kind' k g \<Longrightarrow> kind' \<noteq> kind \<Longrightarrow> generations_ok kind gs (as @ [a])"
  by (auto simp: generations_ok_def audits_def)

lemma generations_bump:
  assumes "generations_ok kind gs as" and "audits a kind k g" and "(k, g) \<in> set gs" and "distinct (map fst gs)"
  shows "generations_ok kind (map (\<lambda>(x, n). (x, if x = k then g + 1 else n)) gs) (as @ [a])"
  unfolding generations_ok_def
proof (intro conjI ballI)
  fix y assume "y \<in> set (map (\<lambda>(x, n). (x, if x = k then g + 1 else n)) gs)"
  then obtain x n where y: "(x, n) \<in> set gs" "y = (x, if x = k then g + 1 else n)" by auto
  let ?rows = "\<lambda>x as. filter (\<lambda>a. fa_object_kind a = kind \<and> fa_object_id a = x) as"
  have old: "0 \<le> n" "map fa_resulting_generation (?rows x as) = [1..n]"
    using assms(1) y(1) by (auto simp: generations_ok_def)
  show "case y of (x, n) \<Rightarrow> 0 \<le> n \<and> map fa_resulting_generation (?rows x (as @ [a])) = [1..n]"
  proof (cases "x = k")
    case True
    have "n = g" using assms(3,4) y(1) True by (metis eq_key_imp_eq_value)
    with True assms(2) have "?rows x (as @ [a]) = ?rows x as @ [a]" "fa_resulting_generation a = n + 1" by (simp_all add: audits_def)
    with old y(2) True \<open>n = g\<close> show ?thesis by (simp add: upto_Suc)
  next
    case False
    with assms(2) have "?rows x (as @ [a]) = ?rows x as" by (simp add: audits_def)
    with old y(2) False show ?thesis by simp
  qed
next
  fix b assume b: "b \<in> set (as @ [a])"
  have "fst ` set (map (\<lambda>(x, n). (x, if x = k then g + 1 else n)) gs) = fst ` set gs"
    by (simp add: image_image split_def)
  moreover have "fa_expected_generation b = fa_resulting_generation b - 1 \<and> (fa_object_kind b = kind \<longrightarrow> fa_object_id b \<in> fst ` set gs)"
  proof (cases "b = a")
    case True
    have "k \<in> fst ` set gs" using assms(3) by (rule rev_image_eqI) simp
    with True assms(2) show ?thesis by (simp add: audits_def)
  next
    case False
    with b have "b \<in> set as" by simp
    with assms(1) show ?thesis unfolding generations_ok_def by blast
  qed
  ultimately show "fa_expected_generation b = fa_resulting_generation b - 1"
    "fa_object_kind b = kind \<longrightarrow> fa_object_id b \<in> fst ` set (map (\<lambda>(x, n). (x, if x = k then g + 1 else n)) gs)"
    by simp_all
qed

lemma bumped_generations:
  assumes "find_row key k t = Some h" and "\<And>x. key (f x) = key x" and "\<And>x. gen (f x) = gen h + 1" and "distinct (map key t)"
  shows "map (\<lambda>x. (key x, gen x)) (update_where (\<lambda>x. key x = k) f t)
      = map (\<lambda>(x, n). (x, if x = k then gen h + 1 else n)) (map (\<lambda>x. (key x, gen x)) t)"
  using assms(2,3) by (simp add: update_where_def comp_def)

lemma audit_ok_bump_head:
  assumes "f13_audit_ok db" and "heads_distinct db" and "find_head p db = Some h" and "audits a ''postmortem'' p (ph_generation h)"
    and "\<And>x. ph_postmortem_id (f x) = ph_postmortem_id x" and "\<And>x. ph_generation (f x) = ph_generation h + 1"
    and "db_f13_audit db' = db_f13_audit db @ [a]" and "db_postmortems db' = update_where (\<lambda>x. ph_postmortem_id x = p) f (db_postmortems db)"
    and "db_entries db' = db_entries db"
  shows "f13_audit_ok db'"
proof -
  have "distinct (map ph_postmortem_id (db_postmortems db))" using assms(2) by (simp add: heads_distinct_def)
  moreover have "(p, ph_generation h) \<in> set (head_generations db)"
    using find_row_in_set [OF assms(3)] find_row_key [OF assms(3)] by (force simp: head_generations_def)
  moreover have "map fst (head_generations db) = map ph_postmortem_id (db_postmortems db)" by (simp add: head_generations_def)
  ultimately show ?thesis
    using assms(1,4) bumped_generations [of ph_postmortem_id p "db_postmortems db" h f ph_generation, OF assms(3,5,6)]
    by (simp add: f13_audit_ok_iff assms(7-9) head_generations_def [of db'] entry_generations_def [of db'] head_generations_def [of db, symmetric]
        entry_generations_def [of db, symmetric] generations_bump generations_other)
qed

lemma audit_ok_bump_entry:
  assumes "f13_audit_ok db" and "revisions_ok db" and "find_entry k db = Some en" and "audits a ''knowledge_entry'' k (ke_generation en)"
    and "\<And>x. ke_entry_id (f x) = ke_entry_id x" and "\<And>x. ke_generation (f x) = ke_generation en + 1"
    and "db_f13_audit db' = db_f13_audit db @ [a]" and "db_entries db' = update_where (\<lambda>x. ke_entry_id x = k) f (db_entries db)"
    and "db_postmortems db' = db_postmortems db"
  shows "f13_audit_ok db'"
proof -
  have "distinct (map ke_entry_id (db_entries db))" using assms(2) by (simp add: revisions_ok_def)
  moreover have "(k, ke_generation en) \<in> set (entry_generations db)"
    using find_row_in_set [OF assms(3)] find_row_key [OF assms(3)] by (force simp: entry_generations_def)
  moreover have "map fst (entry_generations db) = map ke_entry_id (db_entries db)" by (simp add: entry_generations_def)
  ultimately show ?thesis
    using assms(1,4) bumped_generations [of ke_entry_id k "db_entries db" en f ke_generation, OF assms(3,5,6)]
    by (simp add: f13_audit_ok_iff assms(7-9) head_generations_def [of db'] entry_generations_def [of db'] head_generations_def [of db, symmetric]
        entry_generations_def [of db, symmetric] generations_bump generations_other)
qed

lemma audit_ok_change:
  assumes "f13_change db db'" and "f13_audit_ok db" and "heads_distinct db" and "revisions_ok db"
  shows "f13_audit_ok db'"
  using assms(1)
proof cases
  case (headed h)
  then have "db_f13_audit db' = db_f13_audit db" "db_entries db' = db_entries db" "db_postmortems db' = db_postmortems db @ [h]"
    by (simp_all add: f13_same_def)
  with headed assms(2) show ?thesis
    by (simp add: f13_audit_ok_iff head_generations_def entry_generations_def generations_new image_image)
next
  case (entered en)
  then have "db_f13_audit db' = db_f13_audit db" "db_postmortems db' = db_postmortems db" "db_entries db' = db_entries db @ [en]"
    by (simp_all add: f13_same_def)
  with entered assms(2) show ?thesis
    by (simp add: f13_audit_ok_iff head_generations_def entry_generations_def generations_new image_image)
next
  case (moved p v f h a row s t)
  show ?thesis by (rule audit_ok_bump_head [OF assms(2,3) moved(2,3)]) (use moved(1) in \<open>simp_all add: f13_same_def\<close>)
next
  case (drafted ds ps cs w p h a)
  show ?thesis by (rule audit_ok_bump_head [OF assms(2,3) drafted(2,3)]) (use drafted(1) in \<open>simp_all add: f13_same_def\<close>)
next
  case (published x en a q)
  show ?thesis by (rule audit_ok_bump_entry [OF assms(2,4) published(2,3)]) (use published(1) in \<open>simp_all add: f13_same_def\<close>)
next
  case (revoked x en a)
  show ?thesis by (rule audit_ok_bump_entry [OF assms(2,4) revoked(2,3)]) (use revoked(1) in \<open>simp_all add: f13_same_def\<close>)
next
  case other
  with assms(2) f13_same_views(5) [OF other] show ?thesis by simp
next
  case (requested q)
  with assms(2) show ?thesis by (simp add: f13_same_def f13_audit_ok_iff head_generations_def entry_generations_def)
qed

subsection \<open>The invariant\<close>

lemma knowledge_ok_change: "f13_change db db' \<Longrightarrow> knowledge_ok db \<Longrightarrow> knowledge_ok db'"
  by (simp add: knowledge_ok_def heads_distinct_change clean_ok_change approved_ok_change revisions_ok_change audit_ok_change)

lemma knowledge_ok_changes: "f13_changes db db' \<Longrightarrow> knowledge_ok db \<Longrightarrow> knowledge_ok db'"
  by (induction rule: rtranclp_induct) (blast intro: knowledge_ok_change)+

lemma knowledge_steps_changes: "knowledge_steps db db' \<Longrightarrow> knowledge_ok db \<Longrightarrow> f13_changes db db' \<and> knowledge_ok db'"
proof (induction rule: rtranclp_induct)
  case (step y z)
  then have "f13_changes y z" using knowledge_refines by (simp add: knowledge_ok_def)
  with step show ?case using knowledge_ok_changes by (meson rtranclp_trans)
qed simp

definition knowledge_reachable :: "db \<Rightarrow> bool" where
  "knowledge_reachable db \<longleftrightarrow> knowledge_steps initial_db db"

lemma knowledge_ok_initial: "knowledge_ok initial_db"
  by (simp add: knowledge_ok_def heads_distinct_def clean_ok_def approved_ok_def revisions_ok_def f13_audit_ok_def initial_db_def)

lemma knowledge_reachable_ok: "knowledge_reachable db \<Longrightarrow> knowledge_ok db"
  unfolding knowledge_reachable_def using knowledge_steps_changes knowledge_ok_initial by blast

end
