(* ===== verification/Knowledge_Requests.thy ===== *)
theory Knowledge_Requests
  imports Knowledge_Safety
begin

section \<open>Requests and their recorded results\<close>

text \<open>
  A committed request can be sent again: its result is read back from the row that recorded it, and a key that
  was used is bound to its request. First the round trip of a result through its JSON form.
\<close>

subsection \<open>UUIDs and results as text\<close>

lemma hex_value_char: "d < 16 \<Longrightarrow> hex_value (hex_char d) = Some d"
proof -
  assume "d < 16"
  moreover have "\<forall>d \<in> set [0..<16]. hex_value (hex_char d) = Some d" by code_simp
  ultimately show ?thesis by simp
qed

text \<open>The characters of a UUID are those of \<open>hex_char\<close> and the dash.\<close>

lemma hex_char_in: "d < 16 \<Longrightarrow> hex_char d \<in> set ''0123456789abcdef''"
  unfolding hex_char_def by (rule nth_mem) simp

lemma hex_digits_in: "set (hex_digits n v) \<subseteq> set ''0123456789abcdef''"
proof
  fix c assume "c \<in> set (hex_digits n v)"
  then obtain i where "c = hex_char (v div 16 ^ (n - 1 - i) mod 16)" by (auto simp: hex_digits_def)
  then show "c \<in> set ''0123456789abcdef''" using hex_char_in [of "v div 16 ^ (n - 1 - i) mod 16"] by simp
qed

lemma hex_plain: "c \<in> set ''0123456789abcdef'' \<Longrightarrow> \<not> is_space c \<and> c \<notin> {CHR ''_'', CHR ''-'', CHR ''+'', CHR ''u'', CHR ''x'', CHR ''X'', CHR ''{'', CHR ''}''}"
proof -
  have "\<forall>c \<in> set ''0123456789abcdef''. \<not> is_space c \<and> c \<notin> {CHR ''_'', CHR ''-'', CHR ''+'', CHR ''u'', CHR ''x'', CHR ''X'', CHR ''{'', CHR ''}''}"
    by code_simp
  then show "c \<in> set ''0123456789abcdef'' \<Longrightarrow> ?thesis" by blast
qed

lemma replace_all_absent: "c \<notin> set s \<Longrightarrow> replace_all (c # p) s = s"
  by (induction s) auto

lemma replace_all_char: "replace_all [c] s = filter (\<lambda>x. x \<noteq> c) s"
  by (induction s) auto

lemma strip_plain: "\<forall>c \<in> set s. \<not> P c \<Longrightarrow> strip P s = s"
proof -
  assume s: "\<forall>c \<in> set s. \<not> P c"
  have d: "dropWhile P t = t" if "\<forall>c \<in> set t. \<not> P c" for t using that by (cases t) auto
  from d [of s] d [of "rev s"] s show ?thesis by (simp add: strip_def)
qed

lemma hex_digits_Suc: "hex_digits (Suc n) v = hex_digits n (v div 16) @ [hex_char (v mod 16)]"
proof -
  have "v div 16 ^ (n - i) = v div 16 div 16 ^ (n - 1 - i)" if "i < n" for i
  proof -
    from that have "n - i = Suc (n - 1 - i)" by simp
    then show ?thesis by (simp add: div_mult2_eq)
  qed
  then show ?thesis by (simp add: hex_digits_def)
qed

lemma hex_run_append: "s \<noteq> [] \<or> b \<Longrightarrow> d < 16 \<Longrightarrow> hex_run b n (s @ [hex_char d]) = map_option (\<lambda>m. 16 * m + d) (hex_run b n s)
    \<or> hex_run b n s = None"
proof (induction s arbitrary: b n)
  case Nil
  with hex_plain [OF hex_char_in] show ?case by (simp add: hex_value_char)
next
  case (Cons c cs)
  with hex_plain [OF hex_char_in [OF Cons.prems(2)]] show ?case by (cases cs) (auto simp: hex_value_char split: option.splits)
qed

lemma hex_run_digits: "hex_run True n (hex_digits m v) = Some (n * 16 ^ m + v mod 16 ^ m)"
proof (induction m arbitrary: v)
  case 0
  then show ?case by (simp add: hex_digits_def)
next
  case (Suc m)
  have "16 * (v div 16 mod 16 ^ m) + v mod 16 = v mod 16 ^ Suc m" by (simp add: mod_mult2_eq)
  with hex_run_append [of "hex_digits m (v div 16)" True "v mod 16" n] Suc.IH show ?case
    by (simp add: hex_digits_Suc algebra_simps)
qed

lemma hex_run_number: "hex_run False 0 (hex_digits (Suc m) v) = Some (v mod 16 ^ Suc m)"
proof -
  obtain d ds where d: "hex_digits (Suc m) v = d # ds" by (cases "hex_digits (Suc m) v") (simp_all add: hex_digits_def)
  then have "d \<in> set ''0123456789abcdef''" using hex_digits_in [of "Suc m" v] by auto
  from hex_plain [OF this] have "hex_run False 0 (d # ds) = hex_run True 0 (d # ds)" by simp
  with d show ?thesis using hex_run_digits [of 0 "Suc m" v] by simp
qed

lemma int16_digits: "int16 (hex_digits 32 u) = Some (int (u mod 16 ^ 32))"
proof -
  let ?h = "hex_digits 32 u"
  have p: "\<forall>c \<in> set ?h. \<not> is_space c \<and> c \<notin> {CHR ''_'', CHR ''-'', CHR ''+'', CHR ''u'', CHR ''x'', CHR ''X'', CHR ''{'', CHR ''}''}"
    using hex_digits_in [of 32 u] hex_plain by blast
  have "length ?h = 32" by (simp add: hex_digits_def)
  then obtain a b cs where h: "?h = a # b # cs" by (metis length_Suc_conv numeral_eq_Suc pred_numeral_simps(2,3))
  from p have "strip is_space ?h = ?h" by (intro strip_plain) blast
  moreover from p h have "a \<noteq> CHR ''-''" "a \<noteq> CHR ''+''" "b \<noteq> CHR ''x''" "b \<noteq> CHR ''X''" by auto
  moreover have "hex_run False 0 ?h = Some (u mod 16 ^ 32)" using hex_run_number [of 31 u] by simp
  ultimately show ?thesis using h by (simp add: int16_def Let_def)
qed

lemma uuid_str_digits: "filter (\<lambda>c. c \<noteq> CHR ''-'') (uuid_str u) = hex_digits 32 u"
proof -
  let ?h = "hex_digits 32 u"
  have keep: "filter (\<lambda>c. c \<noteq> CHR ''-'') s = s" if "set s \<subseteq> set ?h" for s
    using that hex_digits_in [of 32 u] hex_plain by (intro filter_True) blast
  have sub: "set (take n (drop m ?h)) \<subseteq> set ?h" for m n by (meson set_drop_subset set_take_subset subset_trans)
  have "filter (\<lambda>c. c \<noteq> CHR ''-'') (uuid_str u) = take 8 ?h @ take 4 (drop 8 ?h) @ take 4 (drop 12 ?h) @ take 4 (drop 16 ?h) @ drop 20 ?h"
    using keep [OF sub [of _ 0]] keep [OF sub] keep [OF set_drop_subset] by (simp add: uuid_str_def Let_def)
  also have "\<dots> = ?h"
    using append_take_drop_id [of 8 ?h] append_take_drop_id [of 4 "drop 8 ?h"] append_take_drop_id [of 4 "drop 12 ?h"]
      append_take_drop_id [of 4 "drop 16 ?h"] by simp
  finally show ?thesis .
qed

lemma parse_uuid_str: "u < 2 ^ 128 \<Longrightarrow> parse_uuid (uuid_str u) = Some u"
proof -
  assume u: "u < 2 ^ 128"
  have "c \<in> set ''0123456789abcdef'' \<or> c = CHR ''-''" if "c \<in> set (uuid_str u)" for c
  proof (cases "c = CHR ''-''")
    case False
    with that have "c \<in> set (hex_digits 32 u)" by (simp flip: uuid_str_digits)
    with hex_digits_in show ?thesis by blast
  qed simp
  then have p: "c \<notin> {CHR ''u'', CHR ''{'', CHR ''}''}" if "c \<in> set (uuid_str u)" for c using that hex_plain by fastforce
  then have "replace_all ''urn:'' (uuid_str u) = uuid_str u" "replace_all ''uuid:'' (uuid_str u) = uuid_str u"
    "strip (\<lambda>c. c \<in> set ''{}'') (uuid_str u) = uuid_str u"
    by (intro replace_all_absent strip_plain; force)+
  moreover have "length (hex_digits 32 u) = 32" by (simp add: hex_digits_def)
  moreover have "(16 :: nat) ^ 32 = 2 ^ 128" by simp
  ultimately show ?thesis using int16_digits [of u] u by (simp add: parse_uuid_def replace_all_char uuid_str_digits Let_def)
qed

definition result_ids :: "ActionResult \<Rightarrow> bool" where
  "result_ids r \<longleftrightarrow> rs_object_id r < 2 ^ 128 \<and> fmpred (\<lambda>k p. pb_entry_id p < 2 ^ 128) (rs_published r)"

lemma published_round: "pb_entry_id p < 2 ^ 128 \<Longrightarrow> published_of (published_json p) = Some p"
  by (simp add: published_of_def published_json_def parse_uuid_str)

lemma published_map_round:
  assumes "fmpred (\<lambda>k p. pb_entry_id p < 2 ^ 128) m"
  shows "published_map (Some (JObj (fmmap published_json m))) = Some m"
proof -
  have r: "published_of (published_json p) = Some p" if "fmlookup m k = Some p" for k p
    using assms that by (auto simp: fmpred_iff intro: published_round)
  have "fmpred (\<lambda>k v. published_of v \<noteq> None) (fmmap published_json m)"
    by (auto simp: fmpred_iff r)
  moreover have "fmmap (\<lambda>v. the (published_of v)) (fmmap published_json m) = m"
  proof (rule fmap_ext)
    fix k show "fmlookup (fmmap (\<lambda>v. the (published_of v)) (fmmap published_json m)) k = fmlookup m k"
      by (cases "fmlookup m k") (simp_all add: r)
  qed
  ultimately show ?thesis by simp
qed

lemma opt_json_round: "json_opt json_int (Some (opt_json JInt v)) = Some v" "json_opt json_str (Some (opt_json JStr s)) = Some s"
  by (cases v; simp add: opt_json_def) (cases s; simp add: opt_json_def)

lemma result_round: "result_ids r \<Longrightarrow> result_of_payload (result_payload r) = Some (r\<lparr>rs_replayed := True\<rparr>)"
  by (simp add: result_of_payload_def result_payload_def result_ids_def parse_uuid_str published_map_round opt_json_round
      del: published_map.simps)

subsection \<open>A committed request is recorded\<close>

definition recorded :: "f13_call \<Rightarrow> env \<Rightarrow> ActionResult \<Rightarrow> db \<Rightarrow> bool" where
  "recorded q e x db \<longleftrightarrow> (\<exists>r. find_row fr_idempotency_key (key_of q) (db_f13_requests db) = Some r \<and> fr_action r = action_of q
     \<and> fr_request_sha256 r = env_json_sha256 e (request_of e q) \<and> result_of_payload (fr_result r) = Some (x\<lparr>rs_replayed := True\<rparr>))"

text \<open>What the request needs to find again: its incident, its postmortem or its entry.\<close>

fun object_there :: "f13_call \<Rightarrow> db \<Rightarrow> bool" where
  "object_there (Draft d) db = (find_incident (df_incident_id d) db \<noteq> None \<and> find_row ph_incident_id (df_incident_id d) (db_postmortems db) \<noteq> None)"
| "object_there (Review r) db = (find_head (rv_postmortem_id r) db \<noteq> None)"
| "object_there (Revoke k r reason g key actor) db = (find_entry k db \<noteq> None)"

fun well_formed :: "f13_call \<Rightarrow> bool" where
  "well_formed (Draft d) = (draft_refused d = None)"
| "well_formed (Review r) = (review_refused r = None)"
| "well_formed (Revoke k r reason g key actor) = (require_actor actor A_revoke = None \<and> \<not> (blank key \<or> blank reason \<or> r < 1 \<or> g < 0))"

lemma replay_recorded:
  assumes "replay e key action request db = Inr (Some x)"
  shows "\<exists>r. find_row fr_idempotency_key key (db_f13_requests db) = Some r \<and> fr_action r = action
    \<and> fr_request_sha256 r = env_json_sha256 e request \<and> result_of_payload (fr_result r) = Some (x\<lparr>rs_replayed := True\<rparr>)"
proof -
  from assms obtain r where r: "find_row fr_idempotency_key key (db_f13_requests db) = Some r" "fr_action r = action"
    "fr_request_sha256 r = env_json_sha256 e request" "result_of_payload (fr_result r) = Some x"
    by (auto simp: replay_def split: option.splits if_splits)
  have "x\<lparr>rs_replayed := True\<rparr> = x" using r(4) by (auto simp: result_of_payload_def split: json.splits option.splits)
  with r show ?thesis by simp
qed

lemma record_result_recorded:
  assumes "record_result e key action request r db = Inr (x, db')" and "result_ids x"
  shows "\<exists>q. find_row fr_idempotency_key key (db_f13_requests db') = Some q \<and> fr_action q = action
    \<and> fr_request_sha256 q = env_json_sha256 e request \<and> result_of_payload (fr_result q) = Some (x\<lparr>rs_replayed := True\<rparr>)"
proof -
  from record_result_Inr [OF assms(1)] obtain q where "x = r" "db' = db\<lparr>db_f13_requests := db_f13_requests db @ [q]\<rparr>"
    "fr_idempotency_key q = key" "fr_action q = action" "fr_request_sha256 q = env_json_sha256 e request" "fr_result q = result_payload r"
    "find_row fr_idempotency_key key (db_f13_requests db) = None" by blast
  with assms(2) show ?thesis by (simp add: find_row_append result_round)
qed

lemma transition_recorded:
  assumes "transition_in e r db = Inr (x, db')" and "result_ids x"
  shows "recorded (Review r) e x db' \<and> find_head (rv_postmortem_id r) db \<noteq> None"
proof -
  from assms(1) obtain h before where h: "find_head (rv_postmortem_id r) db = Some h"
    and b: "replay e (rv_idempotency_key r) (action_name (rv_action r)) (review_request r) db = Inr before"
    by (auto simp: transition_in_def Let_def bind_result_Inr_iff split: option.splits)
  show ?thesis
  proof (cases before)
    case (Some y)
    with assms(1) h b have "x = y" "db' = db" by (simp_all add: transition_in_def Let_def)
    with b Some h show ?thesis by (auto simp: recorded_def dest: replay_recorded)
  next
    case None
    with assms(1) h b obtain y db1 where "record_result e (rv_idempotency_key r) (action_name (rv_action r)) (review_request r) y db1 = Inr (x, db')"
      by (auto simp: transition_in_def Let_def bind_result_Inr_iff)
    with h assms(2) show ?thesis by (auto simp: recorded_def dest: record_result_recorded)
  qed
qed

lemma revoke_recorded:
  assumes "revoke_in e k r reason g key actor db = Inr (x, db')" and "result_ids x"
  shows "recorded (Revoke k r reason g key actor) e x db' \<and> find_entry k db \<noteq> None"
proof -
  from assms(1) obtain en before where en: "find_entry k db = Some en"
    and b: "replay e key ''revoke'' (revoke_request k r reason g actor) db = Inr before"
    by (auto simp: revoke_in_def bind_result_Inr_iff split: option.splits)
  show ?thesis
  proof (cases before)
    case (Some y)
    with assms(1) en b have "x = y" "db' = db" by (simp_all add: revoke_in_def)
    with b Some en show ?thesis by (auto simp: recorded_def dest: replay_recorded)
  next
    case None
    with assms(1) en b obtain y db1 where "record_result e key ''revoke'' (revoke_request k r reason g actor) y db1 = Inr (x, db')"
      by (auto simp: revoke_in_def bind_result_Inr_iff split: if_splits option.splits)
    with en assms(2) show ?thesis by (auto simp: recorded_def dest: record_result_recorded)
  qed
qed

lemma draft_recorded:
  assumes "record_draft_in e d db = Inr (x, db')" and "result_ids x"
  shows "recorded (Draft d) e x db' \<and> find_incident (df_incident_id d) db \<noteq> None
    \<and> (\<exists>h db0. ensure_postmortem e (df_incident_id d) db = Inr (h, db0))"
proof -
  from assms(1) obtain h db0 before where i: "find_incident (df_incident_id d) db \<noteq> None"
    and en: "ensure_postmortem e (df_incident_id d) db = Inr (h, db0)"
    and b: "replay e (df_idempotency_key d) ''generate'' (draft_request e d) db0 = Inr before"
    by (auto simp: record_draft_in_def bind_result_Inr_iff split: if_splits)
  have "recorded (Draft d) e x db'"
  proof (cases before)
    case (Some y)
    with assms(1) i en b have "x = y" "db' = db0" by (simp_all add: record_draft_in_def split: if_splits)
    with b Some show ?thesis by (auto simp: recorded_def dest: replay_recorded)
  next
    case None
    with assms(1) i en b obtain y db1 where "record_result e (df_idempotency_key d) ''generate'' (draft_request e d) y db1 = Inr (x, db')"
      by (auto simp: record_draft_in_def bind_result_Inr_iff split: if_splits)
    with assms(2) show ?thesis by (auto simp: recorded_def dest: record_result_recorded)
  qed
  with i en show ?thesis by blast
qed

text \<open>The objects and the recorded requests stay.\<close>

definition kept_rows :: "db \<Rightarrow> db \<Rightarrow> bool" where
  "kept_rows db db' \<longleftrightarrow> ph_postmortem_id ` set (db_postmortems db) \<subseteq> ph_postmortem_id ` set (db_postmortems db')
     \<and> ph_incident_id ` set (db_postmortems db) \<subseteq> ph_incident_id ` set (db_postmortems db')
     \<and> ke_entry_id ` set (db_entries db) \<subseteq> ke_entry_id ` set (db_entries db')
     \<and> (\<forall>key r. find_row fr_idempotency_key key (db_f13_requests db) = Some r \<longrightarrow> find_row fr_idempotency_key key (db_f13_requests db') = Some r)"

lemma update_where_keys: "(\<And>x. key (f x) = key x) \<Longrightarrow> key ` set (update_where P f t) = key ` set t"
  using map_update_where [of P key f t] by (metis list.set_map)

lemma kept_rows_change: "f13_change db db' \<Longrightarrow> kept_rows db db'"
  by (erule f13_change.cases) (auto simp: kept_rows_def f13_same_def update_where_keys find_row_append)

lemma kept_rows_changes: "f13_changes db db' \<Longrightarrow> kept_rows db db'"
proof (induction rule: rtranclp_induct)
  case (step y z)
  from kept_rows_change [OF step(2)] step(3) show ?case unfolding kept_rows_def by (meson subset_trans)
qed (simp add: kept_rows_def)

text \<open>No request touches an incident.\<close>

lemma audit_incidents: "review_audit e n key kind k action actor g v r reason db = Inr db' \<Longrightarrow> db_incidents db' = db_incidents db"
  by (auto dest: review_audit_Inr)

lemma result_incidents: "record_result e key action request r db = Inr (x, db') \<Longrightarrow> db_incidents db' = db_incidents db"
  by (auto dest: record_result_Inr)

lemma publish_one_incidents: "publish_one e n key actor p v gens x db = Inr (b, db') \<Longrightarrow> db_incidents db' = db_incidents db"
  unfolding publish_one_def Let_def proposal_entry_def
  by (auto simp: bind_result_Inr_iff insert_row_Inr_iff put_entry_def dest!: audit_incidents split: option.splits if_splits)

lemma publish_proposals_incidents: "publish_proposals e n key actor p v gens xs db = Inr (bs, db') \<Longrightarrow> db_incidents db' = db_incidents db"
proof (induction xs arbitrary: n db bs)
  case (Cons x xs)
  from Cons.prems obtain b db1 bs' where "publish_one e n key actor p v gens x db = Inr (b, db1)"
    "publish_proposals e (n + 2) key actor p v gens xs db1 = Inr (bs', db')" by (auto simp: bind_result_Inr_iff)
  with Cons.IH publish_one_incidents show ?case by metis
qed simp

lemma write_review_incidents: "write_review e r h s db = Inr (bs, db') \<Longrightarrow> db_incidents db' = db_incidents db"
  unfolding write_review_def publish_version_def Let_def
  by (auto simp: bind_result_Inr_iff set_version_def bump_postmortem_def request_regeneration_def
      dest!: audit_incidents publish_proposals_incidents split: if_splits)

lemma transition_incidents: "transition_in e r db = Inr (x, db') \<Longrightarrow> db_incidents db' = db_incidents db"
  unfolding transition_in_def Let_def
  by (auto simp: bind_result_Inr_iff dest!: write_review_incidents result_incidents split: option.splits)

lemma revoke_incidents: "revoke_in e k r reason g key actor db = Inr (x, db') \<Longrightarrow> db_incidents db' = db_incidents db"
  unfolding revoke_in_def
  by (auto simp: bind_result_Inr_iff put_entry_def dest!: audit_incidents result_incidents split: option.splits if_splits)

lemma draft_incidents:
  assumes "record_draft_in e d db = Inr (x, db')"
  shows "db_incidents db' = db_incidents db"
proof -
  from assms obtain h db0 before where en: "ensure_postmortem e (df_incident_id d) db = Inr (h, db0)"
    and rest: "(case before of Some r \<Rightarrow> Inr (r, db0)
       | None \<Rightarrow> bind_result (draft_checks e d h db0) (\<lambda>_.
           bind_result (write_draft e d h db0) (\<lambda>db1.
           bind_result (submit_draft e d h db1) (\<lambda>(g, s, db2).
           record_result e (df_idempotency_key d) ''generate'' (draft_request e d)
             (postmortem_result ''generate'' (ph_postmortem_id h) g (ph_latest_version h + 1) s fmempty) db2)))) = Inr (x, db')"
    by (auto simp: record_draft_in_def bind_result_Inr_iff split: if_splits)
  have "db_incidents db0 = db_incidents db"
    using en by (auto simp: ensure_postmortem_def Let_def bind_result_Inr_iff split: option.splits)
  moreover have "db_incidents db1 = db_incidents db0" if "write_draft e d h db0 = Inr db1" for db1
    using that unfolding write_draft_def insert_parts_def Let_def
    by (auto simp: bind_result_Inr_iff regeneration_done_def dest!: audit_incidents split: if_splits)
  moreover have "db_incidents db2 = db_incidents db1" if "submit_draft e d h db1 = Inr (g, s, db2)" for db1 db2 g s
  proof -
    have f: "fire POSTMORTEM PM_draft ''submit_for_review'' = Inr PM_under_review" by (simp add: POSTMORTEM_def machine_eval)
    show ?thesis using that unfolding submit_draft_def Let_def
      by (auto simp: bind_result_Inr_iff set_version_def bump_postmortem_def f dest!: audit_incidents split: if_splits)
  qed
  ultimately show ?thesis using rest
    by (cases before) (auto simp: bind_result_Inr_iff dest!: result_incidents)
qed

lemma perform_incidents: "db_incidents (snd (perform q e db)) = db_incidents db"
proof (cases q)
  case (Draft d)
  then show ?thesis
    by (cases "record_draft_in e d db") (auto simp: record_draft_def dest: draft_incidents split: option.splits)
next
  case (Review r)
  then show ?thesis
    by (cases "transition_in e r db") (auto simp: transition_def dest: transition_incidents split: option.splits)
next
  case (Revoke k r reason g key actor)
  then show ?thesis
    by (cases "revoke_in e k r reason g key actor db") (auto simp: revoke_def dest: revoke_incidents split: option.splits)
qed

lemma incidents_stay: "knowledge_steps db db' \<Longrightarrow> incidents_kept db db'"
proof (induction rule: rtranclp_induct)
  case (step y z)
  from step(2) have "incidents_kept y z"
    by cases (simp_all add: incidents_kept_def perform_incidents)
  with step(3) show ?case by (simp add: incidents_kept_def)
qed (simp add: incidents_kept_def)

subsection \<open>Sending a request again\<close>

lemma perform_recorded:
  assumes "perform q e db = (Inr x, db')" and "result_ids x" and "heads_distinct db"
  shows "recorded q e x db' \<and> object_there q db' \<and> well_formed q"
proof -
  have ch: "f13_changes db db'" using perform_changes [OF assms(3), of q e] assms(1) by simp
  note kept = kept_rows_changes [OF ch, unfolded kept_rows_def]
  show ?thesis
  proof (cases q)
    case (Draft d)
    from assms(1) Draft have wf: "draft_refused d = None" by (auto simp: record_draft_def split: option.splits)
    with assms(1) Draft have t: "record_draft_in e d db = Inr (x, db')"
      by (cases "record_draft_in e d db") (auto simp: record_draft_def)
    note r = draft_recorded [OF t assms(2)]
    have "find_row ph_incident_id (df_incident_id d) (db_postmortems db') \<noteq> None"
    proof -
      from r obtain h db0 where en: "ensure_postmortem e (df_incident_id d) db = Inr (h, db0)" by blast
      have "df_incident_id d \<in> ph_incident_id ` set (db_postmortems db0)"
      proof (cases "find_row ph_incident_id (df_incident_id d) (db_postmortems db)")
        case None
        with en show ?thesis by (auto simp: ensure_postmortem_def Let_def bind_result_Inr_iff insert_row_Inr_iff)
      next
        case (Some y)
        with en have "db0 = db" by (simp add: ensure_postmortem_def)
        with find_row_SomeD [OF Some] show ?thesis by (auto intro: rev_image_eqI)
      qed
      moreover have "kept_rows db0 db'"
      proof -
        from t en obtain before where b: "replay e (df_idempotency_key d) ''generate'' (draft_request e d) db0 = Inr before"
          by (auto simp: record_draft_in_def bind_result_Inr_iff split: if_splits)
        show ?thesis
        proof (cases before)
          case (Some y)
          with t en b have "db' = db0" by (auto simp: record_draft_in_def split: if_splits)
          then show ?thesis by (simp add: kept_rows_def)
        next
          case None
          with t en b obtain db1 g s db2 y where k: "draft_checks e d h db0 = Inr ()" and w: "write_draft e d h db0 = Inr db1"
            and s: "submit_draft e d h db1 = Inr (g, s, db2)"
            and q: "record_result e (df_idempotency_key d) ''generate'' (draft_request e d) y db2 = Inr (x, db')"
            by (auto simp: record_draft_in_def bind_result_Inr_iff split: if_splits)
          have g: "ph_generation h = df_expected_generation d" using k by (auto simp: draft_checks_def Let_def split: if_splits)
          note c = ensure_changes [OF en assms(3)]
          note wc = write_draft_changes [OF w _ g]
          have "f13_changes db1 db2"
            by (rule submit_draft_changes [OF s]) (use wc c g in \<open>auto simp: new_version_def Let_def\<close>)
          with wc c record_result_change [OF q] have "f13_changes db0 db'"
            by (meson converse_rtranclp_into_rtranclp rtranclp.rtrancl_into_rtrancl)
          then show ?thesis by (rule kept_rows_changes)
        qed
      qed
      ultimately show ?thesis by (auto simp: kept_rows_def find_row_None_iff)
    qed
    moreover have "find_incident (df_incident_id d) db' \<noteq> None" using r draft_incidents [OF t] by simp
    ultimately show ?thesis using r wf Draft by simp
  next
    case (Review r)
    from assms(1) Review have wf: "review_refused r = None" by (auto simp: transition_def split: option.splits)
    with assms(1) Review have t: "transition_in e r db = Inr (x, db')"
      by (cases "transition_in e r db") (auto simp: transition_def)
    from transition_recorded [OF t assms(2)] kept wf Review show ?thesis by (auto simp: find_row_None_iff)
  next
    case (Revoke k r reason g key actor)
    from assms(1) Revoke have wf: "well_formed q" by (auto simp: revoke_def split: option.splits if_splits)
    with assms(1) Revoke have t: "revoke_in e k r reason g key actor db = Inr (x, db')"
      by (cases "revoke_in e k r reason g key actor db") (auto simp: revoke_def split: if_splits)
    from revoke_recorded [OF t assms(2)] kept wf Revoke show ?thesis by (auto simp: find_row_None_iff)
  qed
qed

end
