(* ===== verification/Knowledge_Examples.thy ===== *)
theory Knowledge_Examples
  imports Knowledge_Requests Observation_Examples
begin

section \<open>A postmortem from its draft to the published and the revoked knowledge\<close>

text \<open>
  The incident of \<open>Observation_Examples\<close> after its confirmed recovery: a worker drafts the postmortem with one
  conclusion and one proposal, which enters review; a person approves it, which publishes the proposal, and
  later revokes the published revision.
\<close>

definition post_watermark :: Watermark where
  "post_watermark = \<lparr>wm_incident_control_generation = 1, wm_observation_generation = 1, wm_observation_session_id = 101,
     wm_observation_ending_id = 501, wm_run_count = 1, wm_last_run_id = Some 10, wm_input_watermark = 0,
     wm_evidence_snapshot_sha256 = replicate 64 (CHR ''0'')\<rparr>"

definition post_conclusion :: ConclusionDraft where
  "post_conclusion = \<lparr>cd_key = ''c'', cd_section = ''timeline'', cd_body = ''b'', cd_author = AU_code, cd_certainty = CT_deterministic,
     cd_citations_valid = True, cd_evidence_refs = []\<rparr>"

definition post_proposal :: ProposalDraft where
  "post_proposal = \<lparr>pd_key = ''p'', pd_name = ''runbook'', pd_tags = [], pd_content = fmempty, pd_supersedes_entry_id = None\<rparr>"

definition drafter :: Actor where
  "drafter = \<lparr>ac_actor_id = ''drafter'', ac_principal_kind = worker\<rparr>"

definition post_draft :: draft where
  "post_draft = \<lparr>df_incident_id = 1, df_expected_generation = 0, df_idempotency_key = ''k1'',
     df_actor = drafter, df_content = fmempty, df_watermark = post_watermark,
     df_conclusions = [post_conclusion], df_proposals = [post_proposal], df_disputes = [], df_revises_version = None\<rparr>"

definition post_human :: Actor where
  "post_human = \<lparr>ac_actor_id = ''alice'', ac_principal_kind = basic_auth\<rparr>"

definition post_approval :: review where
  "post_approval = \<lparr>rv_action = A_approve, rv_postmortem_id = 600, rv_version = 1, rv_expected_generation = 2,
     rv_idempotency_key = ''k2'', rv_actor = post_human, rv_reason = None, rv_entry_generations = Some []\<rparr>"

lemma post_fields [simp]:
  "df_incident_id post_draft = 1" "df_expected_generation post_draft = 0" "df_idempotency_key post_draft = ''k1''"
  "df_actor post_draft = drafter" "ac_actor_id drafter = ''drafter''" "ac_principal_kind drafter = worker" "df_watermark post_draft = post_watermark"
  "df_conclusions post_draft = [post_conclusion]" "df_proposals post_draft = [post_proposal]" "df_disputes post_draft = []"
  "df_revises_version post_draft = None" "rv_action post_approval = A_approve" "rv_postmortem_id post_approval = 600"
  "rv_version post_approval = 1" "rv_expected_generation post_approval = 2" "rv_idempotency_key post_approval = ''k2''"
  "rv_actor post_approval = post_human" "rv_reason post_approval = None" "rv_entry_generations post_approval = Some []"
  "ac_actor_id post_human = ''alice''" "ac_principal_kind post_human = basic_auth"
  by (simp_all add: post_draft_def post_approval_def post_human_def drafter_def)

lemma confirmed_fields [simp]:
  "db_incidents confirmed_db = [watched L_resolved 1 1]" "db_runs confirmed_db = [accepted_run]" "db_sessions confirmed_db = [completed_session]"
  "db_endings confirmed_db = [confirmed_ending]" "db_inputs confirmed_db = []" "db_evidence confirmed_db = []"
  "db_postmortems confirmed_db = []" "db_postmortem_versions confirmed_db = []" "db_conclusions confirmed_db = []"
  "db_disputes confirmed_db = []" "db_proposals confirmed_db = []" "db_entries confirmed_db = []" "db_revisions confirmed_db = []"
  "db_revocations confirmed_db = []" "db_f13_audit confirmed_db = []" "db_f13_requests confirmed_db = []"
  by (simp_all add: confirmed_db_def watch_db_def opened_db_eq registered_db_eq initial_db_def)

lemma post_refused [simp]: "draft_refused post_draft = None" "review_refused post_approval = None"
  by code_simp+

definition post_head :: "int \<Rightarrow> postmortem_row" where
  "post_head g = \<lparr>ph_postmortem_id = 600, ph_incident_id = 1, ph_generation = g, ph_latest_version = 1\<rparr>"

definition post_version :: "PostmortemState \<Rightarrow> postmortem_version_row" where
  "post_version s = (new_version (watch_env 130000000 600) post_draft \<lparr>ph_postmortem_id = 600, ph_incident_id = 1, ph_generation = 0,
     ph_latest_version = 0\<rparr>)\<lparr>pv_state := s\<rparr>"

definition post_event :: "uuid \<Rightarrow> string \<Rightarrow> string \<Rightarrow> Actor \<Rightarrow> int \<Rightarrow> f13_audit_row" where
  "post_event k key action actor g = \<lparr>fa_event_id = k, fa_idempotency_key = key, fa_object_kind = ''postmortem'', fa_object_id = 600,
     fa_action = action, fa_version = Some 1, fa_revision = None, fa_actor_id = ac_actor_id actor,
     fa_principal_kind = principal_name (ac_principal_kind actor), fa_reason = None, fa_expected_generation = g, fa_resulting_generation = g + 1\<rparr>"

definition draft_row :: f13_request_row where
  "draft_row = \<lparr>fr_idempotency_key = ''k1'', fr_action = ''generate'', fr_request_sha256 = replicate 64 (CHR ''0''),
     fr_result = result_payload (postmortem_result ''generate'' 600 2 1 PM_under_review fmempty)\<rparr>"

definition post_proposal_row :: proposal_row where
  "post_proposal_row = \<lparr>pp_postmortem_id = 600, pp_version = 1, pp_proposal_key = ''p'', pp_name = ''runbook'', pp_tags = [], pp_content = [],
     pp_content_sha256 = replicate 64 (CHR ''0''), pp_supersedes_entry_id = None\<rparr>"

definition post_conclusion_row :: conclusion_row where
  "post_conclusion_row = \<lparr>cn_postmortem_id = 600, cn_version = 1, cn_conclusion_key = ''c'', cn_ordinal = 0,
     cn_section = ''timeline'', cn_body = ''b'', cn_author = AU_code, cn_certainty = CT_deterministic,
     cn_citations_valid = True, cn_evidence_refs = JArr []\<rparr>"

definition under_review_db :: db where
  "under_review_db = confirmed_db\<lparr>db_postmortems := [post_head 2], db_postmortem_versions := [post_version PM_under_review],
     db_conclusions := [post_conclusion_row], db_proposals := [post_proposal_row],
     db_f13_audit := [post_event 601 ''k1'' ''generate'' drafter 0, post_event 602 ''k1'' ''submit'' drafter 1],
     db_f13_requests := [draft_row]\<rparr>"

abbreviation new_head :: postmortem_row where
  "new_head \<equiv> \<lparr>ph_postmortem_id = 600, ph_incident_id = 1, ph_generation = 0, ph_latest_version = 0\<rparr>"

lemma post_run: "ir_current_run_id (watched L_resolved 1 1) = Some 10"
  by (simp add: watched_def watch_intake_def example_intake_def fresh_incident_def)

lemma post_run_fields: "rr_run_id accepted_run = 10" "rr_incident_id accepted_run = 1"
  by (simp_all add: accepted_run_def fresh_run_def)

lemma post_session: "se_session_id completed_session = 101" "se_incident_id completed_session = 1" "se_state completed_session = OS_completed"
  "se_observation_generation completed_session = 1"
  by (simp_all add: completed_session_def end_session_row_def third_session_def lease_row_def)

lemma post_moved: "db_incidents db = [watched L_resolved 1 1] \<Longrightarrow> db_runs db = [accepted_run] \<Longrightarrow> db_inputs db = [] \<Longrightarrow> db_evidence db = []
  \<Longrightarrow> moved_components (watch_env t n) 1 (post_version s) db = Inr []"
  by (simp add: moved_components_def post_version_def new_version_def Let_def post_watermark_def run_count_def last_input_def evidence_snapshot_def
      post_run post_run_fields watch_env_def example_env_def del: One_nat_def)

lemma post_new_version: "new_version (watch_env 130000000 600) post_draft new_head = post_version PM_draft"
  by (simp add: post_version_def new_version_def Let_def)

lemma post_checks: "draft_checks (watch_env 130000000 600) post_draft new_head (confirmed_db\<lparr>db_postmortems := [new_head]\<rparr>) = Inr ()"
  by (simp add: draft_checks_def Let_def post_new_version post_moved check_observation_def post_watermark_def confirmed_ending_def post_session
      post_run_fields del: One_nat_def)

lemma post_canonical: "env_canonical (watch_env t n) j = []" and post_json: "env_json_sha256 (watch_env t n) j = replicate 64 (CHR ''0'')"
  by (simp_all add: watch_env_def example_env_def)

lemma post_written: "write_draft (watch_env 130000000 600) post_draft new_head (confirmed_db\<lparr>db_postmortems := [new_head]\<rparr>) =
  Inr (under_review_db\<lparr>db_postmortems := [post_head 1], db_postmortem_versions := [post_version PM_draft],
    db_f13_audit := [post_event 601 ''k1'' ''generate'' drafter 0], db_f13_requests := []\<rparr>)"
  by (simp add: write_draft_def Let_def review_audit_def refused_def f13_audit_def regeneration_done_def insert_row_def post_new_version insert_parts_def
      conclusion_rows_def proposal_rows_def dispute_rows_def enumerate_eq_zip superseded_entries_def post_conclusion_def post_proposal_def
      post_conclusion_row_def post_proposal_row_def under_review_db_def post_head_def post_event_def actor_pair_def post_canonical del: One_nat_def)

lemma post_submitted: "submit_draft (watch_env 130000000 600) post_draft new_head (under_review_db\<lparr>db_postmortems := [post_head 1],
    db_postmortem_versions := [post_version PM_draft], db_f13_audit := [post_event 601 ''k1'' ''generate'' drafter 0], db_f13_requests := []\<rparr>)
  = Inr (2, PM_under_review, under_review_db\<lparr>db_f13_requests := []\<rparr>)"
proof -
  have f: "fire POSTMORTEM PM_draft ''submit_for_review'' = Inr PM_under_review" by (simp add: POSTMORTEM_def machine_eval)
  have v: "pv_postmortem_id (post_version s) = 600" "pv_version (post_version s) = 1" "(post_version s)\<lparr>pv_state := s'\<rparr> = post_version s'" for s s'
    by (simp_all add: post_version_def new_version_def Let_def)
  have c: "cd_citations_valid post_conclusion" by (simp add: post_conclusion_def)
  show ?thesis
    by (simp add: submit_draft_def Let_def reviewable_def c review_audit_def refused_def f13_audit_def insert_row_def f set_version_def bump_postmortem_def
        under_review_db_def post_head_def post_event_def actor_pair_def v del: One_nat_def)
qed

lemma post_drafted: "record_draft post_draft (watch_env 130000000 600) confirmed_db =
  (Inr (postmortem_result ''generate'' 600 2 1 PM_under_review fmempty), under_review_db)"
proof -
  have "ensure_postmortem (watch_env 130000000 600) 1 confirmed_db = Inr (new_head, confirmed_db\<lparr>db_postmortems := [new_head]\<rparr>)"
    by (simp add: ensure_postmortem_def refused_def insert_row_def Let_def del: One_nat_def)
  moreover have "replay (watch_env 130000000 600) ''k1'' ''generate'' r (confirmed_db\<lparr>db_postmortems := [new_head]\<rparr>) = Inr None" for r
    by (simp add: replay_def)
  moreover have "record_result (watch_env 130000000 600) ''k1'' ''generate'' r (postmortem_result ''generate'' 600 2 1 PM_under_review fmempty)
      (under_review_db\<lparr>db_f13_requests := []\<rparr>) = Inr (postmortem_result ''generate'' 600 2 1 PM_under_review fmempty, under_review_db)" for r
    by (simp add: record_result_def record_request_def refused_def insert_row_def draft_row_def under_review_db_def post_json)
  ultimately have "record_draft_in (watch_env 130000000 600) post_draft confirmed_db =
      Inr (postmortem_result ''generate'' 600 2 1 PM_under_review fmempty, under_review_db)"
    by (simp add: record_draft_in_def post_checks post_written post_submitted del: One_nat_def)
  then show ?thesis by (simp add: record_draft_def)
qed

subsection \<open>The approval\<close>

definition post_entry :: "int \<Rightarrow> entry_row" where
  "post_entry g = \<lparr>ke_entry_id = 701, ke_generation = g, ke_latest_revision = 1\<rparr>"

definition post_revision :: revision_row where
  "post_revision = new_revision (watch_env 140000000 700) 701 1 600 1 post_proposal_row None post_human 702"

definition published_event :: f13_audit_row where
  "published_event = \<lparr>fa_event_id = 702, fa_idempotency_key = ''k2'', fa_object_kind = ''knowledge_entry'', fa_object_id = 701,
     fa_action = ''publish'', fa_version = None, fa_revision = Some 1, fa_actor_id = ''alice'', fa_principal_kind = ''basic_auth'',
     fa_reason = None, fa_expected_generation = 0, fa_resulting_generation = 1\<rparr>"

definition post_published :: ActionResult where
  "post_published = postmortem_result ''approve'' 600 3 1 PM_approved (fmap_of_list [(''p'',
     \<lparr>pb_entry_id = 701, pb_revision = 1, pb_generation = 1, pb_action = ''publish''\<rparr>)])"

definition approval_row :: f13_request_row where
  "approval_row = \<lparr>fr_idempotency_key = ''k2'', fr_action = ''approve'', fr_request_sha256 = replicate 64 (CHR ''0''),
     fr_result = result_payload post_published\<rparr>"

definition published_knowledge_db :: db where
  "published_knowledge_db = under_review_db\<lparr>db_postmortems := [post_head 3], db_postmortem_versions := [post_version PM_approved],
     db_entries := [post_entry 1], db_revisions := [post_revision],
     db_f13_audit := db_f13_audit under_review_db @ [post_event 700 ''k2'' ''approve'' post_human 2, published_event],
     db_f13_requests := [draft_row, approval_row]\<rparr>"

lemma post_row_simps [simp]:
  "pv_postmortem_id (post_version s) = 600" "pv_version (post_version s) = 1" "pv_state (post_version s) = s"
  "pv_stale_reason (post_version s) = None" "(post_version s)\<lparr>pv_state := s', pv_stale_reason := None\<rparr> = post_version s'"
  "ph_postmortem_id (post_head g) = 600" "ph_incident_id (post_head g) = 1" "ph_generation (post_head g) = g"
  "(post_head g)\<lparr>ph_generation := g'\<rparr> = post_head g'" "fa_event_id (post_event k key action actor g) = k"
  by (simp_all add: post_version_def new_version_def Let_def post_head_def post_event_def)

lemma under_review_fields [simp]:
  "db_incidents under_review_db = [watched L_resolved 1 1]" "db_runs under_review_db = [accepted_run]" "db_inputs under_review_db = []"
  "db_evidence under_review_db = []" "db_postmortems under_review_db = [post_head 2]"
  "db_postmortem_versions under_review_db = [post_version PM_under_review]" "db_conclusions under_review_db = [post_conclusion_row]"
  "db_disputes under_review_db = []" "db_proposals under_review_db = [post_proposal_row]" "db_entries under_review_db = []"
  "db_revisions under_review_db = []" "db_revocations under_review_db = []" "db_f13_requests under_review_db = [draft_row]"
  "db_f13_audit under_review_db = [post_event 601 ''k1'' ''generate'' drafter 0, post_event 602 ''k1'' ''submit'' drafter 1]"
  by (simp_all add: under_review_db_def)

lemma post_reviewed: "review_checks (watch_env 140000000 700) post_approval (post_head 2) under_review_db = Inr PM_approved"
proof -
  have f: "fire POSTMORTEM PM_under_review ''human_approve'' = Inr PM_approved" by (simp add: POSTMORTEM_def machine_eval)
  have m: "moved_components (watch_env 140000000 700) 1 (post_version PM_under_review) under_review_db = Inr []"
    by (rule post_moved) simp_all
  have v: "version_row 600 1 under_review_db = Some (post_version PM_under_review)" by (simp add: version_row_def find_row_def)
  show ?thesis
    by (simp add: review_checks_def v f approve_refused_def m del: One_nat_def) (simp add: post_conclusion_row_def)
qed

lemma post_written_review:
  "write_review (watch_env 140000000 700) post_approval (post_head 2) PM_approved under_review_db =
     Inr (rs_published post_published, published_knowledge_db\<lparr>db_f13_requests := [draft_row]\<rparr>)"
proof -
  have ps: "proposals_of 600 1 db = [post_proposal_row]" if "db_proposals db = [post_proposal_row]" for db
    using that by (simp add: proposals_of_def post_proposal_row_def)
  have o: "or_old (Some []) [] = []" "List.map_filter pp_supersedes_entry_id [post_proposal_row] = []"
      "pp_supersedes_entry_id post_proposal_row = None" "pp_proposal_key post_proposal_row = ''p''"
    by (simp_all add: or_old_def post_proposal_row_def List.map_filter_def)
  show ?thesis
    by (simp add: write_review_def Let_def review_audit_def refused_def f13_audit_def insert_row_def set_version_def bump_postmortem_def
        publish_version_def ps o publish_one_def proposal_entry_def superseded_revision_def put_entry_def del: One_nat_def)
      (simp add: published_knowledge_db_def post_published_def postmortem_result_def post_event_def published_event_def post_entry_def post_revision_def
        actor_pair_def new_revision_def del: One_nat_def)
qed

lemma post_approved: "perform (Review post_approval) (watch_env 140000000 700) under_review_db = (Inr post_published, published_knowledge_db)"
proof -
  have h: "find_row ph_postmortem_id 600 (db_postmortems under_review_db) = Some (post_head 2)" by (simp add: find_row_def)
  have n: "replay (watch_env 140000000 700) ''k2'' a r under_review_db = Inr None" for a r
    by (simp add: replay_def find_row_def draft_row_def)
  have p: "postmortem_result ''approve'' 600 3 1 PM_approved (rs_published post_published) = post_published"
    by (simp add: post_published_def postmortem_result_def)
  have "record_result (watch_env 140000000 700) ''k2'' ''approve'' r post_published (published_knowledge_db\<lparr>db_f13_requests := [draft_row]\<rparr>) =
      Inr (post_published, published_knowledge_db)" for r
    by (simp add: record_result_def record_request_def refused_def insert_row_def draft_row_def approval_row_def published_knowledge_db_def post_json)
  then have "transition_in (watch_env 140000000 700) post_approval under_review_db = Inr (post_published, published_knowledge_db)"
    by (simp add: transition_in_def Let_def h n post_reviewed post_written_review p del: One_nat_def)
  then show ?thesis by (simp add: transition_def)
qed

lemma post_drafted_call: "perform (Draft post_draft) (watch_env 130000000 600) confirmed_db =
  (Inr (postmortem_result ''generate'' 600 2 1 PM_under_review fmempty), under_review_db)"
  by (simp add: post_drafted)

subsection \<open>The revocation\<close>

lemma published_fields [simp]:
  "db_postmortem_versions published_knowledge_db = [post_version PM_approved]" "db_entries published_knowledge_db = [post_entry 1]"
  "db_revisions published_knowledge_db = [post_revision]" "db_revocations published_knowledge_db = []"
  "db_postmortems published_knowledge_db = [post_head 3]" "db_f13_requests published_knowledge_db = [draft_row, approval_row]"
  by (simp_all add: published_knowledge_db_def)

lemma post_revision_fields [simp]: "kr_entry_id post_revision = 701" "kr_revision post_revision = 1" "kr_supersedes_revision post_revision = None"
  "kr_source_postmortem_id post_revision = 600" "kr_source_version post_revision = 1"
  by (simp_all add: post_revision_def new_revision_def)

definition post_revocation :: f13_call where
  "post_revocation = Revoke 701 1 ''wrong'' 1 ''k3'' post_human"

definition withdrawn_db :: db where
  "withdrawn_db = snd (perform post_revocation (watch_env 150000000 800) published_knowledge_db)"

lemma post_revoked: "\<exists>x. fst (perform post_revocation (watch_env 150000000 800) published_knowledge_db) = Inr x
  \<and> revision_state 701 1 withdrawn_db = Some KR_revoked"
proof -
  have b: "\<not> blank ''k3''" "\<not> blank ''wrong''" "require_actor post_human A_revoke = None" by code_simp+
  have f: "find_row ke_entry_id 701 [post_entry 1] = Some (post_entry 1)" "ke_generation (post_entry 1) = 1" "ke_entry_id (post_entry 1) = 701"
    by (simp_all add: find_row_def post_entry_def)
  have s: "revision_state 701 1 published_knowledge_db = Some KR_active" by (simp add: revision_state_def find_row_def)
  have n: "replay e ''k3'' a r published_knowledge_db = Inr None" for e a r
    by (simp add: replay_def find_row_def draft_row_def approval_row_def)
  have k: "fr_idempotency_key draft_row = ''k1''" "fr_idempotency_key approval_row = ''k2''"
    by (simp_all add: draft_row_def approval_row_def)
  have a: "db_f13_audit published_knowledge_db = [post_event 601 ''k1'' ''generate'' drafter 0, post_event 602 ''k1'' ''submit'' drafter 1,
      post_event 700 ''k2'' ''approve'' post_human 2, published_event]" "fa_event_id published_event = 702"
    by (simp_all add: published_knowledge_db_def published_event_def)
  show ?thesis
    by (simp add: withdrawn_db_def post_revocation_def revoke_def b revoke_in_def f s n review_audit_def refused_def f13_audit_def insert_row_def a
        record_result_def record_request_def k put_entry_def del: One_nat_def)
      (simp add: revision_state_def find_row_def)
qed

lemma post_reachable: "knowledge_reachable confirmed_db" "knowledge_reachable under_review_db" "knowledge_reachable published_knowledge_db"
  "knowledge_reachable withdrawn_db"
proof -
  have "f13_same initial_db confirmed_db" by (simp add: f13_same_def initial_db_def)
  moreover have "incidents_kept initial_db confirmed_db" by (simp add: incidents_kept_def initial_db_def find_row_def)
  ultimately show c: "knowledge_reachable confirmed_db" unfolding knowledge_reachable_def by (blast intro: step_elsewhere)
  have "knowledge_step confirmed_db under_review_db" using step_call [of confirmed_db "Draft post_draft" "watch_env 130000000 600"] by (simp add: post_drafted)
  with c show u: "knowledge_reachable under_review_db" unfolding knowledge_reachable_def by (rule rtranclp.rtrancl_into_rtrancl)
  have "knowledge_step under_review_db published_knowledge_db"
    using step_call [of under_review_db "Review post_approval" "watch_env 140000000 700"] by (simp only: post_approved snd_conv)
  with u show p: "knowledge_reachable published_knowledge_db" unfolding knowledge_reachable_def by (rule rtranclp.rtrancl_into_rtrancl)
  have "knowledge_step published_knowledge_db withdrawn_db" unfolding withdrawn_db_def by (rule step_call)
  with p show "knowledge_reachable withdrawn_db" unfolding knowledge_reachable_def by (rule rtranclp.rtrancl_into_rtrancl)
qed

end
