(* ===== verification/Knowledge_Properties.thy ===== *)
theory Knowledge_Properties
  imports Knowledge_Examples
begin

section \<open>Properties of the postmortem review and of the knowledge\<close>

text \<open>
  Over every history of drafts, reviews and revocations, with business transactions that mark versions stale
  anywhere between them: what publishes knowledge, what a settled version and a withdrawn revision may still
  become, what the audit says, and what sending a request again does.
\<close>

lemma post_resolve:
  "version_row 600 1 published_knowledge_db = Some (post_version PM_approved)" "find_entry 701 published_knowledge_db = Some (post_entry 1)"
  "find_head 600 published_knowledge_db = Some (post_head 3)"
  by (simp_all add: version_row_def find_row_def post_entry_def)

lemma post_read: "\<exists>y. knowledge_read_of post_revision published_knowledge_db = Some y \<and> kn_revision y = post_revision"
proof -
  have "db_endings published_knowledge_db = [confirmed_ending]" by (simp add: published_knowledge_db_def under_review_db_def)
  moreover have "en_ending_id confirmed_ending = pv_observation_ending_id (post_version PM_approved)"
    by (simp add: confirmed_ending_def post_version_def new_version_def Let_def post_watermark_def)
  ultimately show ?thesis by (simp add: knowledge_read_of_def post_resolve find_row_def)
qed

text \<open>\<^bold>\<open>C12\<close> (\<open>KnowledgeStore.approve\<close>, \<open>_publish\<close>) Every published revision of a knowledge entry stands for a proposal of a
  postmortem version that is approved, all of whose citations validated and that nobody disputed; it carries the
  proposal's name, tags, content and hash unchanged, and an audit row of an authenticated person, never of a
  worker, records its publication.\<close>

theorem knowledge_only_from_review:
  assumes "knowledge_reachable db" and "x \<in> set (db_revisions db)"
  shows "\<exists>w q a. version_row (kr_source_postmortem_id x) (kr_source_version x) db = Some w \<and> pv_state w = PM_approved
    \<and> clean_version (kr_source_postmortem_id x) (kr_source_version x) db
    \<and> q \<in> set (db_proposals db) \<and> revises q x \<and> a \<in> set (db_f13_audit db) \<and> approves a x"
proof -
  have ok: "clean_ok db" "approved_ok db" using knowledge_reachable_ok [OF assms(1)] by (simp_all add: knowledge_ok_def)
  from ok(2) assms(2) obtain w where w: "version_row (kr_source_postmortem_id x) (kr_source_version x) db = Some w" "pv_state w = PM_approved"
    and r: "\<exists>q \<in> set (db_proposals db). revises q x" "\<exists>a \<in> set (db_f13_audit db). approves a x"
    by (auto simp: approved_ok_def)
  from w(1) have "w \<in> set (db_postmortem_versions db)" "version_key w = (kr_source_postmortem_id x, kr_source_version x)"
    unfolding version_row_def by (auto dest: find_row_SomeD)
  with ok(1) w(2) have "clean_version (kr_source_postmortem_id x) (kr_source_version x) db" by (auto simp: clean_ok_def)
  with w r show ?thesis by blast
qed

theorem knowledge_only_from_review_witness:
  "\<exists>w q a. version_row 600 1 published_knowledge_db = Some w \<and> pv_state w = PM_approved \<and> clean_version 600 1 published_knowledge_db
    \<and> q \<in> set (db_proposals published_knowledge_db) \<and> revises q post_revision \<and> a \<in> set (db_f13_audit published_knowledge_db)
    \<and> approves a post_revision"
  using knowledge_only_from_review [OF post_reachable(3), of post_revision] by simp

text \<open>\<^bold>\<open>C13\<close> (\<open>KnowledgeStore.revoke\<close>, \<open>_publish\<close>, the view \<open>opspilot_knowledge_revision_states\<close>) The revisions of a knowledge entry are
  numbered from 1 without a gap, and at most one of them, the latest, is active and read.\<close>

lemma active_revision_Some:
  assumes "active_revision k db = Some y"
  shows "kr_entry_id (kn_revision y) = k \<and> kn_revision y \<in> set (db_revisions db)
    \<and> revision_state k (kr_revision (kn_revision y)) db = Some KR_active"
proof -
  from assms have "y \<in> set (List.map_filter (\<lambda>x. knowledge_read_of x db)
      (filter (\<lambda>x. kr_entry_id x = k \<and> revision_state k (kr_revision x) db = Some KR_active) (db_revisions db)))"
    unfolding active_revision_def by (auto split: list.splits)
  then obtain x where "x \<in> set (db_revisions db)" "kr_entry_id x = k" "revision_state k (kr_revision x) db = Some KR_active"
    "knowledge_read_of x db = Some y" by (auto simp: List.map_filter_def)
  moreover from this(4) have "kn_revision y = x" by (auto simp: knowledge_read_of_def split: option.splits)
  ultimately show ?thesis by simp
qed

theorem one_active_revision:
  assumes "knowledge_reachable db" and "find_entry k db = Some en"
  shows "map kr_revision (revisions_of k db) = [1..ke_latest_revision en]
    \<and> (\<forall>r. revision_state k r db = Some KR_active \<longrightarrow> r = ke_latest_revision en)
    \<and> (\<forall>y. active_revision k db = Some y \<longrightarrow> kr_entry_id (kn_revision y) = k \<and> kr_revision (kn_revision y) = ke_latest_revision en)"
proof -
  have ok: "revisions_ok db" using knowledge_reachable_ok [OF assms(1)] by (simp add: knowledge_ok_def)
  from find_row_SomeD [OF assms(2)] have en: "en \<in> set (db_entries db)" "ke_entry_id en = k" by simp_all
  with ok have r: "map kr_revision (revisions_of k db) = [1..ke_latest_revision en]"
    "\<forall>r. revision_state k r db = Some KR_active \<longrightarrow> r = ke_latest_revision en" by (auto simp: revisions_ok_def)
  then show ?thesis using active_revision_Some by blast
qed

theorem one_active_revision_witness:
  "map kr_revision (revisions_of 701 published_knowledge_db) = [1..ke_latest_revision (post_entry 1)]
    \<and> map_option kn_revision (active_revision 701 published_knowledge_db) = Some post_revision"
proof -
  have "ke_latest_revision (post_entry 1) = 1" by (simp add: post_entry_def)
  moreover obtain y where y: "knowledge_read_of post_revision published_knowledge_db = Some y" "kn_revision y = post_revision"
    using post_read by blast
  then have "map_option kn_revision (active_revision 701 published_knowledge_db) = Some post_revision"
    by (simp add: active_revision_def revision_state_def find_row_def List.map_filter_def y)
  ultimately show ?thesis using one_active_revision [OF post_reachable(3) post_resolve(2)] by simp
qed

subsection \<open>Nothing settled comes back\<close>

lemma published_state:
  assumes "revision_state k r db = Some s" and "s \<noteq> KR_active"
    and "db_revisions db' = db_revisions db @ xs" and "db_revocations db' = db_revocations db @ rs"
    and "\<forall>x \<in> set rs. (kx_entry_id x, kx_revision x) \<noteq> (k, r)"
  shows "revision_state k r db' = Some s"
proof (cases s)
  case KR_revoked
  with assms show ?thesis by (auto simp: revision_state_def find_row_append split: if_splits)
next
  case KR_superseded
  with assms show ?thesis by (auto simp: revision_state_def find_row_append split: if_splits)
qed (use assms(2) in simp)

lemma withdrawn_change:
  assumes "f13_change db db'" and "revision_state k r db = Some s" and "s \<noteq> KR_active"
  shows "revision_state k r db' = Some s"
  using assms(1)
proof cases
  case (published x en a q)
  then show ?thesis by (intro published_state [OF assms(2,3), of _ "[x]" "[]"]) (simp_all add: f13_same_def)
next
  case (revoked x en a)
  with assms(2,3) have "(kx_entry_id x, kx_revision x) \<noteq> (k, r)" by auto
  with revoked show ?thesis by (intro published_state [OF assms(2,3), of _ "[]" "[x]"]) (simp_all add: f13_same_def)
qed (rule published_state [OF assms(2,3), of _ "[]" "[]"]; simp add: f13_same_def)+

lemma withdrawn_changes:
  assumes "f13_changes db db'" and "revision_state k r db = Some s" and "s \<noteq> KR_active"
  shows "revision_state k r db' = Some s"
  using assms(1) by (induction rule: rtranclp_induct) (use assms withdrawn_change in blast)+

text \<open>\<^bold>\<open>C14\<close> (\<open>KnowledgeStore.revoke\<close>) A knowledge revision that was revoked or superseded is never active again, whatever
  drafts, reviews, revocations and business transactions follow.\<close>

theorem withdrawn_knowledge_final:
  assumes "knowledge_reachable db" and "revision_state k r db = Some s" and "s \<noteq> KR_active" and "knowledge_steps db db'"
  shows "revision_state k r db' = Some s \<and> (\<forall>y. active_revision k db' = Some y \<longrightarrow> kr_revision (kn_revision y) \<noteq> r)"
proof -
  have "f13_changes db db'" using knowledge_steps_changes [OF assms(4) knowledge_reachable_ok [OF assms(1)]] by simp
  from withdrawn_changes [OF this assms(2,3)] have s: "revision_state k r db' = Some s" .
  with active_revision_Some [of k db'] assms(3) show ?thesis by force
qed

theorem withdrawn_knowledge_final_witness:
  "revision_state 701 1 withdrawn_db = Some KR_revoked
    \<and> revision_state 701 1 (snd (perform (Review post_approval) (watch_env 160000000 900) withdrawn_db)) = Some KR_revoked"
proof -
  have r: "revision_state 701 1 withdrawn_db = Some KR_revoked" using post_revoked by simp
  have "knowledge_steps withdrawn_db (snd (perform (Review post_approval) (watch_env 160000000 900) withdrawn_db))"
    by (rule r_into_rtranclp) (rule step_call)
  from withdrawn_knowledge_final [OF post_reachable(4) r _ this] r show ?thesis by simp
qed

text \<open>\<^bold>\<open>C15\<close> (\<open>KnowledgeStore._transition\<close>, the lifecycle of a postmortem version) A postmortem version keeps its content, its
  watermark and its author for ever; once approved, rejected, returned or stale it keeps its state too.\<close>

theorem reviewed_versions_final:
  assumes "knowledge_reachable db" and "version_row p v db = Some w" and "knowledge_steps db db'"
  shows "\<exists>w'. version_row p v db' = Some w' \<and> w' = w\<lparr>pv_state := pv_state w', pv_stale_reason := pv_stale_reason w'\<rparr>
    \<and> (pv_state w \<in> {PM_approved, PM_rejected, PM_returned, PM_stale} \<longrightarrow> w' = w)"
proof -
  have "f13_changes db db'" using knowledge_steps_changes [OF assms(3) knowledge_reachable_ok [OF assms(1)]] by simp
  from version_changes [OF this assms(2)] obtain w' where "version_row p v db' = Some w'" "version_next w w'" by blast
  moreover from \<open>version_next w w'\<close> have "w' = w\<lparr>pv_state := pv_state w', pv_stale_reason := pv_stale_reason w'\<rparr>"
    unfolding version_next_def content_same_def by (elim conjE)
  moreover from \<open>version_next w w'\<close> have "pv_state w \<in> {PM_approved, PM_rejected, PM_returned, PM_stale} \<longrightarrow> w' = w"
    unfolding version_next_def by (elim conjE) auto
  ultimately show ?thesis by blast
qed

theorem reviewed_versions_final_witness: "version_row 600 1 withdrawn_db = Some (post_version PM_approved)"
proof -
  have "knowledge_steps published_knowledge_db withdrawn_db"
    unfolding withdrawn_db_def by (rule r_into_rtranclp) (rule step_call)
  from reviewed_versions_final [OF post_reachable(3) post_resolve(1) this] show ?thesis by auto
qed

subsection \<open>The audit\<close>

lemma sorted_trail: "sorted (map f xs) \<Longrightarrow> sort_key f xs = xs"
  by (simp add: sort_key_id_if_sorted)

text \<open>(\<open>KnowledgeStore.audit_trail\<close>, \<open>_audit\<close>) The audit trail of a postmortem holds exactly one row for every generation
  it went through, from 1 to its present one, in this order: no change of it is missing from its audit.\<close>

theorem postmortem_audit_complete:
  assumes "knowledge_reachable db" and "find_head p db = Some h"
  shows "map fa_resulting_generation (audit_trail ''postmortem'' p db) = [1..ph_generation h]
    \<and> (\<forall>a \<in> set (audit_trail ''postmortem'' p db). fa_expected_generation a = fa_resulting_generation a - 1)"
proof -
  have ok: "f13_audit_ok db" using knowledge_reachable_ok [OF assms(1)] by (simp add: knowledge_ok_def)
  from find_row_SomeD [OF assms(2)] have "h \<in> set (db_postmortems db)" "ph_postmortem_id h = p" by simp_all
  with ok have m: "map fa_resulting_generation (f13_trail ''postmortem'' p db) = [1..ph_generation h]" by (auto simp: f13_audit_ok_def)
  have "audit_trail ''postmortem'' p db = f13_trail ''postmortem'' p db"
    unfolding audit_trail_def f13_trail_def [symmetric] by (rule sorted_trail) (simp add: m)
  with m ok show ?thesis by (auto simp: f13_trail_def f13_audit_ok_def)
qed

theorem postmortem_audit_complete_witness:
  "map fa_resulting_generation (audit_trail ''postmortem'' 600 published_knowledge_db) = [1..3]"
  using postmortem_audit_complete [OF post_reachable(3) post_resolve(3)] by simp

subsection \<open>Sending a request again\<close>

lemma recorded_replay:
  assumes "recorded q e x db" and "env_json_sha256 e' (request_of e' q) = env_json_sha256 e (request_of e q)"
  shows "replay e' (key_of q) (action_of q) (request_of e' q) db = Inr (Some (x\<lparr>rs_replayed := True\<rparr>))"
  using assms by (auto simp: recorded_def replay_def)

lemma perform_again:
  assumes "replay e (key_of q) (action_of q) (request_of e q) db = Inr (Some x)" and "object_there q db" and "well_formed q"
  shows "perform q e db = (Inr x, db)"
proof (cases q)
  case (Draft d)
  from assms(2) Draft obtain h where "find_row ph_incident_id (df_incident_id d) (db_postmortems db) = Some h" by auto
  then have "ensure_postmortem e (df_incident_id d) db = Inr (h, db)" by (simp add: ensure_postmortem_def)
  with assms Draft have "record_draft_in e d db = Inr (x, db)" by (simp add: record_draft_in_def)
  with assms(3) Draft show ?thesis by (simp add: record_draft_def)
next
  case (Review r)
  with assms have "transition_in e r db = Inr (x, db)" by (auto simp: transition_in_def Let_def)
  with assms(3) Review show ?thesis by (simp add: transition_def)
next
  case (Revoke k r reason g key actor)
  with assms have "revoke_in e k r reason g key actor db = Inr (x, db)" by (auto simp: revoke_in_def)
  with assms(3) Revoke show ?thesis by (simp add: revoke_def)
qed

lemma committed_stays:
  assumes "knowledge_reachable db" and "perform q e db = (Inr x, db')" and "result_ids x" and "knowledge_steps db' db''"
  shows "recorded q e x db'' \<and> object_there q db'' \<and> well_formed q"
proof -
  have ok: "knowledge_ok db" using knowledge_reachable_ok [OF assms(1)] .
  with perform_recorded [OF assms(2,3)] have r: "recorded q e x db'" "object_there q db'" "well_formed q" by (simp_all add: knowledge_ok_def)
  have "knowledge_step db db'" using step_call [of db q e] assms(2) by simp
  with knowledge_steps_changes [OF _ ok] have "knowledge_ok db'" by blast
  from knowledge_steps_changes [OF assms(4) this] have k: "kept_rows db' db''" by (simp add: kept_rows_changes)
  from incidents_stay [OF assms(4)] have i: "incidents_kept db' db''" .
  have "object_there q db''" using r(2) k i
    by (cases q) (auto simp: kept_rows_def incidents_kept_def find_row_None_iff)
  moreover have "recorded q e x db''" using r(1) k by (auto simp: recorded_def kept_rows_def)
  ultimately show ?thesis using r(3) by simp
qed

text \<open>\<^bold>\<open>C16\<close> (\<open>KnowledgeStore._replay\<close>, \<open>_record_request\<close>) A draft, a review or a revocation that committed can be sent again with its
  key at any later time, after any other operations: it answers the recorded result, read back from its JSON
  form and marked as replayed, and changes nothing.\<close>

theorem requests_replay:
  assumes "knowledge_reachable db" and "perform q e db = (Inr x, db')" and "result_ids x" and "knowledge_steps db' db''"
    and "env_json_sha256 e' (request_of e' q) = env_json_sha256 e (request_of e q)"
  shows "perform q e' db'' = (Inr (x\<lparr>rs_replayed := True\<rparr>), db'')"
proof -
  note c = committed_stays [OF assms(1-4)]
  show ?thesis by (rule perform_again [OF recorded_replay [OF _ assms(5)]]) (use c in simp_all)
qed

lemma post_published_ids: "result_ids post_published"
  by (simp add: result_ids_def post_published_def postmortem_result_def fmpred_iff)

theorem requests_replay_witness:
  "perform (Review post_approval) (watch_env 160000000 900) withdrawn_db = (Inr (post_published\<lparr>rs_replayed := True\<rparr>), withdrawn_db)"
proof (rule requests_replay [OF post_reachable(2) post_approved post_published_ids])
  show "knowledge_steps published_knowledge_db withdrawn_db"
    unfolding withdrawn_db_def by (rule r_into_rtranclp) (rule step_call)
qed (simp add: post_json)

lemma replay_bound:
  assumes "recorded q e x db" and "key_of q' = key_of q"
    and "action_of q' \<noteq> action_of q \<or> env_json_sha256 e' (request_of e' q') \<noteq> env_json_sha256 e (request_of e q)"
  shows "replay e' (key_of q') (action_of q') (request_of e' q') db = Inl E_IDEMPOTENCY_CONFLICT"
  using assms by (auto simp: recorded_def replay_def)

text \<open>\<^bold>\<open>C17\<close> (\<open>KnowledgeStore._replay\<close>) A key that a committed request used stays bound to it: another action, or the same with other
  arguments, is refused under this key at any later time and leaves the database as it is.\<close>

theorem keys_are_bound:
  assumes "knowledge_reachable db" and "perform q e db = (Inr x, db')" and "result_ids x" and "knowledge_steps db' db''"
    and "key_of q' = key_of q"
    and "action_of q' \<noteq> action_of q \<or> env_json_sha256 e' (request_of e' q') \<noteq> env_json_sha256 e (request_of e q)"
  shows "\<exists>err. perform q' e' db'' = (Inl err, db'')"
proof -
  have "recorded q e x db''" using committed_stays [OF assms(1-4)] by simp
  note b = replay_bound [OF this assms(5,6)]
  show ?thesis
  proof (cases q')
    case (Draft d)
    have "\<exists>err. record_draft_in e' d db'' = Inl err"
    proof (cases "ensure_postmortem e' (df_incident_id d) db''")
      case (Inr a)
      then obtain h db0 where a: "ensure_postmortem e' (df_incident_id d) db'' = Inr (h, db0)" by (cases a) simp
      then have "db_f13_requests db0 = db_f13_requests db''"
        by (auto simp: ensure_postmortem_def Let_def bind_result_Inr_iff split: option.splits)
      with b Draft have "replay e' (df_idempotency_key d) ''generate'' (draft_request e' d) db0 = Inl E_IDEMPOTENCY_CONFLICT"
        by (simp add: replay_def)
      with a show ?thesis by (simp add: record_draft_in_def)
    qed (simp add: record_draft_in_def)
    with Draft show ?thesis by (auto simp: record_draft_def split: option.splits)
  next
    case (Review r)
    with b have "\<exists>err. transition_in e' r db'' = Inl err" by (auto simp: transition_in_def Let_def split: option.splits)
    with Review show ?thesis by (auto simp: transition_def split: option.splits)
  next
    case (Revoke k r reason g key actor)
    with b have "\<exists>err. revoke_in e' k r reason g key actor db'' = Inl err" by (auto simp: revoke_in_def split: option.splits)
    with Revoke show ?thesis by (auto simp: revoke_def split: option.splits)
  qed
qed

theorem keys_are_bound_witness:
  "\<exists>err. perform (Revoke 701 1 ''wrong'' 1 ''k2'' post_human) (watch_env 160000000 900) published_knowledge_db = (Inl err, published_knowledge_db)"
  by (rule keys_are_bound [OF post_reachable(2) post_approved post_published_ids]) simp_all

end
