(* ===== verification/Generation_Jobs.thy ===== *)
theory Generation_Jobs
  imports Knowledge_Review
begin

section \<open>The schedule of postmortem generation (\<open>knowledge/jobs.py\<close>)\<close>

text \<open>
  The worker's side of drafting: which incidents are due, the lease of one generation, its budget of model
  requests, and how it is closed. The attempts are a table only this store reads and writes, so the state is
  the database together with it (\<open>gen_db\<close>). A watermark is stored as JSON; the key that failures are counted
  under is computed from it and, by the candidate scan, in SQL from the tables.

  A statement inside a transaction reads the later clock \<open>env_later\<close>, \<open>_db_now\<close> the earlier \<open>env_now\<close>. Fresh ids:
  index 0 is the attempt, then one per outbox row. A violated \<open>CHECK\<close> is \<open>STORAGE_UNAVAILABLE\<close>.
\<close>

subsection \<open>Tables and constants\<close>

datatype attempt_status = AT_running | AT_succeeded | AT_failed | AT_superseded | AT_abandoned

record attempt_row =
  at_attempt_id :: uuid
  at_incident_id :: uuid
  at_lease_owner :: uuid
  at_lease_epoch :: int
  at_status :: attempt_status
  at_error_code :: "string option"
  at_watermark :: "(string, json) fmap"
  at_revises_version :: "int option"
  at_version :: "int option"
  at_model :: string
  at_response_model :: "string option"
  at_model_profile :: string
  at_prompt_version :: string
  at_output_schema_version :: string
  at_input_policy_version :: string
  at_input_sha256 :: "string option"
  at_input_bytes :: "int option"
  at_max_model_requests :: int
  at_model_requests :: int
  at_prompt_tokens :: int
  at_completion_tokens :: int
  at_model_calls :: json
  at_started_at :: time
  at_finished_at :: "time option"

record gen_db =
  gd_db :: db
  gd_attempts :: "attempt_row list"

type_synonym 'a gen_tx = "perr + 'a \<times> gen_db"
type_synonym 'a gen_outcome = "(perr + 'a) \<times> gen_db"

definition gen_transaction :: "gen_db \<Rightarrow> 'a gen_tx \<Rightarrow> 'a gen_outcome" where
  "gen_transaction g r = (case r of Inl err \<Rightarrow> (Inl err, g) | Inr (x, g') \<Rightarrow> (Inr x, g'))"

definition MAX_ATTEMPTS_PER_WATERMARK :: int where "MAX_ATTEMPTS_PER_WATERMARK = 3"
definition BACKOFF_BASE_SECONDS :: int where "BACKOFF_BASE_SECONDS = 60"
definition BACKOFF_MAX_SECONDS :: int where "BACKOFF_MAX_SECONDS = 3600"
definition GENERATION_LEASE_SECONDS :: int where "GENERATION_LEASE_SECONDS = 900"

definition POSTMORTEM_INPUT_POLICY_VERSION :: string where
  "POSTMORTEM_INPUT_POLICY_VERSION = ''f13-postmortem-input-v4''"

definition RETRYABLE_ATTEMPT_ERRORS :: "string set" where
  "RETRYABLE_ATTEMPT_ERRORS = {''MODEL_UNAVAILABLE'', ''MODEL_REJECTED'', ''OUTPUT_INVALID''}"

definition COUNTED_ERRORS :: "string set" where
  "COUNTED_ERRORS = RETRYABLE_ATTEMPT_ERRORS \<union> {''LEASE_LOST''}"

definition run_finished :: "RunExecution \<Rightarrow> bool" where
  "run_finished s \<longleftrightarrow> terminal RUN_EXECUTION s = Inr True"

subsection \<open>The key of a failure\<close>

text \<open>The parts of a key and the version it regenerates, \<open>str\<close> of each joined by colons.\<close>

fun join_colon :: "string list \<Rightarrow> string" where
  "join_colon [] = []"
| "join_colon [x] = x"
| "join_colon (x # xs) = x @ '':'' @ join_colon xs"

definition failure_key :: "string list \<Rightarrow> int option \<Rightarrow> string" where
  "failure_key parts revises = join_colon parts @ ''#r'' @ (case revises of None \<Rightarrow> [] | Some v \<Rightarrow> string_of_int v)"

definition watermark_key :: "Watermark \<Rightarrow> int option \<Rightarrow> string" where
  "watermark_key w revises = failure_key [string_of_int (wm_incident_control_generation w), string_of_int (wm_observation_generation w),
     string_of_int (wm_run_count w), (case wm_last_run_id w of None \<Rightarrow> [] | Some k \<Rightarrow> uuid_str k),
     string_of_int (wm_input_watermark w)] revises"

text \<open>\<open>_watermark_json\<close>: the fields with UUIDs as text. \<open>_key_of\<close> reads them back; None is a \<open>KeyError\<close>.\<close>

definition watermark_fields :: "Watermark \<Rightarrow> (string, json) fmap" where
  "watermark_fields w = fmap_of_list [(''incident_control_generation'', JInt (wm_incident_control_generation w)),
     (''observation_generation'', JInt (wm_observation_generation w)),
     (''observation_session_id'', JStr (uuid_str (wm_observation_session_id w))),
     (''observation_ending_id'', JStr (uuid_str (wm_observation_ending_id w))), (''run_count'', JInt (wm_run_count w)),
     (''last_run_id'', opt_json (JStr \<circ> uuid_str) (wm_last_run_id w)), (''input_watermark'', JInt (wm_input_watermark w)),
     (''evidence_snapshot_sha256'', JStr (wm_evidence_snapshot_sha256 w))]"

fun key_int :: "json option \<Rightarrow> string option" where
  "key_int (Some (JInt n)) = Some (string_of_int n)"
| "key_int _ = None"

fun key_text :: "json option \<Rightarrow> string option" where
  "key_text (Some JNull) = Some []"
| "key_text (Some (JStr s)) = Some s"
| "key_text _ = None"

definition key_of_stored :: "(string, json) fmap \<Rightarrow> int option \<Rightarrow> string option" where
  "key_of_stored m revises = (case (key_int (fmlookup m ''incident_control_generation''), key_int (fmlookup m ''observation_generation''),
       key_int (fmlookup m ''run_count''), key_text (fmlookup m ''last_run_id''), key_int (fmlookup m ''input_watermark'')) of
     (Some c, Some g, Some n, Some r, Some i) \<Rightarrow> Some (failure_key [c, g, n, r, i] revises)
   | _ \<Rightarrow> None)"

text \<open>The same key in SQL, from the incident and its job row.\<close>

definition pending_of :: "generation_job_row option \<Rightarrow> int option" where
  "pending_of j = Option.bind j gj_pending_regeneration_version"

definition key_sql :: "incident_row \<Rightarrow> generation_job_row option \<Rightarrow> db \<Rightarrow> string" where
  "key_sql i j db = join_colon [string_of_int (ir_control_generation i), string_of_int (ir_observation_generation i),
       string_of_int (run_count (ir_incident_id i) db), (case ir_current_run_id i of None \<Rightarrow> [] | Some r \<Rightarrow> uuid_str r),
       string_of_int (last_input (ir_incident_id i) db)]
     @ ''#r'' @ (case pending_of j of None \<Rightarrow> [] | Some v \<Rightarrow> string_of_int v)"

subsection \<open>Candidates\<close>

abbreviation find_job :: "uuid \<Rightarrow> db \<Rightarrow> generation_job_row option" where
  "find_job k db \<equiv> find_row gj_incident_id k (db_generation_jobs db)"

text \<open>The sessions of the incident's observation generation that have ended, with their endings.\<close>

definition ended_observations :: "incident_row \<Rightarrow> db \<Rightarrow> (session_row \<times> ending_row) list" where
  "ended_observations i db = [(s, en). s \<leftarrow> db_sessions db, se_incident_id s = ir_incident_id i
       \<and> se_observation_generation s = ir_observation_generation i \<and> se_state s \<noteq> OS_authorized,
     en \<leftarrow> db_endings db, en_session_id en = se_session_id s]"

text \<open>The input policy of the latest attempt that was too large: by the time it finished, those without one
  last, then by its start.\<close>

definition too_large_policy :: "uuid \<Rightarrow> attempt_row list \<Rightarrow> string option" where
  "too_large_policy k attempts =
     (let rows = filter (\<lambda>a. at_incident_id a = k \<and> at_error_code a = Some ''INPUT_TOO_LARGE'') attempts in
      case rev (sort_key (\<lambda>a. (case at_finished_at a of None \<Rightarrow> (0 :: nat, 0) | Some t \<Rightarrow> (1, t), at_started_at a)) rows) of
        [] \<Rightarrow> None | a # as \<Rightarrow> Some (at_input_policy_version a))"

definition policy_reopens :: "string \<Rightarrow> uuid \<Rightarrow> generation_job_row option \<Rightarrow> attempt_row list \<Rightarrow> bool" where
  "policy_reopens policy k j attempts \<longleftrightarrow> Option.bind j gj_last_error_code = Some ''INPUT_TOO_LARGE''
     \<and> too_large_policy k attempts \<noteq> Some policy"

definition capped :: "string \<Rightarrow> incident_row \<Rightarrow> generation_job_row option \<Rightarrow> gen_db \<Rightarrow> bool" where
  "capped policy i j g \<longleftrightarrow> MAX_ATTEMPTS_PER_WATERMARK \<le> (case j of None \<Rightarrow> 0 | Some x \<Rightarrow> gj_consecutive_failures x)
     \<and> Option.bind j gj_failure_watermark = Some (key_sql i j (gd_db g))
     \<and> \<not> policy_reopens policy (ir_incident_id i) j (gd_attempts g)"

definition backing_off :: "time \<Rightarrow> incident_row \<Rightarrow> generation_job_row option \<Rightarrow> db \<Rightarrow> bool" where
  "backing_off now i j db \<longleftrightarrow> (case Option.bind j gj_next_attempt_at of None \<Rightarrow> False | Some t \<Rightarrow> now < t)
     \<and> Option.bind j gj_failure_watermark = Some (key_sql i j db)"

text \<open>A version in review, approved or rejected at the incident's present watermark.\<close>

definition produced :: "incident_row \<Rightarrow> uuid option \<Rightarrow> db \<Rightarrow> bool" where
  "produced i p db \<longleftrightarrow> (\<exists>v \<in> set (db_postmortem_versions db). Some (pv_postmortem_id v) = p
     \<and> pv_state v \<notin> {PM_stale, PM_draft, PM_returned}
     \<and> pv_incident_control_generation v = ir_control_generation i \<and> pv_observation_generation v = ir_observation_generation i
     \<and> pv_last_run_id v = ir_current_run_id i \<and> pv_run_count v = run_count (ir_incident_id i) db
     \<and> pv_input_watermark v = last_input (ir_incident_id i) db)"

definition is_candidate :: "time \<Rightarrow> string \<Rightarrow> incident_row \<Rightarrow> gen_db \<Rightarrow> bool" where
  "is_candidate now policy i g = (let db = gd_db g; k = ir_incident_id i; j = find_job k db;
       p = map_option ph_postmortem_id (find_row ph_incident_id k (db_postmortems db)) in
     (\<forall>a \<in> set (db_sessions db). \<not> (se_incident_id a = k \<and> se_state a = OS_authorized))
   \<and> (\<forall>r \<in> set (db_runs db). rr_incident_id r = k \<longrightarrow> run_finished (rr_state r))
   \<and> (case Option.bind j gj_lease_until of None \<Rightarrow> True | Some t \<Rightarrow> t \<le> now)
   \<and> \<not> backing_off now i j db
   \<and> \<not> capped policy i j g
   \<and> (\<forall>u \<in> set (db_postmortem_versions db). \<not> (Some (pv_postmortem_id u) = p \<and> pv_state u = PM_under_review))
   \<and> (pending_of j \<noteq> None \<or> \<not> produced i p db))"

definition candidate_rows :: "time \<Rightarrow> string \<Rightarrow> uuid option \<Rightarrow> nat \<Rightarrow> gen_db \<Rightarrow> (uuid \<times> time) list" where
  "candidate_rows now policy only limit g =
     take limit (sort_key (\<lambda>(k, t). (t, k))
       [(ir_incident_id i, en_recorded_at en). i \<leftarrow> db_incidents (gd_db g), is_candidate now policy i g
          \<and> (case only of None \<Rightarrow> True | Some k \<Rightarrow> ir_incident_id i = k), (s, en) \<leftarrow> ended_observations i (gd_db g)])"

definition candidates :: "nat \<Rightarrow> string \<Rightarrow> env \<Rightarrow> gen_db \<Rightarrow> uuid list" where
  "candidates limit policy e g = map fst (candidate_rows (env_now e) policy None limit g)"

text \<open>The watermark now, of the ended observation of the current generation.\<close>

definition current_watermark :: "env \<Rightarrow> uuid \<Rightarrow> db \<Rightarrow> perr + Watermark" where
  "current_watermark e k db = (case find_incident k db of
      None \<Rightarrow> Inl E_NOT_ELIGIBLE
    | Some i \<Rightarrow> (case ended_observations i db of
        [] \<Rightarrow> Inl E_NOT_ELIGIBLE
      | (s, en) # rest \<Rightarrow> Inr \<lparr>wm_incident_control_generation = ir_control_generation i,
          wm_observation_generation = ir_observation_generation i, wm_observation_session_id = se_session_id s,
          wm_observation_ending_id = en_ending_id en, wm_run_count = run_count k db, wm_last_run_id = ir_current_run_id i,
          wm_input_watermark = last_input k db, wm_evidence_snapshot_sha256 = evidence_snapshot e k db\<rparr>))"

subsection \<open>Counting a failure\<close>

definition update_job :: "uuid \<Rightarrow> (generation_job_row \<Rightarrow> generation_job_row) \<Rightarrow> db \<Rightarrow> db" where
  "update_job k f db = db\<lparr>db_generation_jobs := update_where (\<lambda>j. gj_incident_id j = k) f (db_generation_jobs db)\<rparr>"

definition failures_after :: "generation_job_row \<Rightarrow> string \<Rightarrow> string option \<Rightarrow> int" where
  "failures_after j key err = (let n = (if gj_failure_watermark j = Some key then gj_consecutive_failures j + 1 else 1);
       m = (case err of None \<Rightarrow> n | Some c \<Rightarrow> if c \<notin> COUNTED_ERRORS then MAX_ATTEMPTS_PER_WATERMARK else n)
     in min m MAX_ATTEMPTS_PER_WATERMARK)"

definition backoff :: "time \<Rightarrow> int \<Rightarrow> time option" where
  "backoff now failures = (if MAX_ATTEMPTS_PER_WATERMARK \<le> failures then None
     else Some (now + seconds (min (BACKOFF_BASE_SECONDS * 2 ^ nat (failures - 1)) BACKOFF_MAX_SECONDS)))"

definition count_attempt_failure :: "generation_job_row \<Rightarrow> string \<Rightarrow> string option \<Rightarrow> time \<Rightarrow> db \<Rightarrow> db" where
  "count_attempt_failure j key err now db = (let n = failures_after j key err in
     update_job (gj_incident_id j) (\<lambda>x. x\<lparr>gj_consecutive_failures := n, gj_failure_watermark := Some key,
       gj_last_error_code := err, gj_next_attempt_at := backoff now n\<rparr>) db)"

subsection \<open>The outbox row of a closed attempt\<close>

definition outbox_attempt :: "env \<Rightarrow> attempt_row \<Rightarrow> db \<Rightarrow> perr + db" where
  "outbox_attempt e a db = insert_entry e ''generation'' (''generation:'' @ uuid_str (at_attempt_id a)) (at_incident_id a) None fmempty
     [(''incident_id'', FV_uuid (at_incident_id a)), (''attempt_id'', FV_uuid (at_attempt_id a)),
      (''model'', FV_json (JStr (case at_response_model a of None \<Rightarrow> at_model a | Some m \<Rightarrow> if m = [] then at_model a else m))),
      (''prompt_revision'', FV_json (JStr (at_prompt_version a))), (''input_tokens'', FV_json (JInt (at_prompt_tokens a))),
      (''output_tokens'', FV_json (JInt (at_completion_tokens a))),
      (''total_tokens'', FV_json (JInt (at_prompt_tokens a + at_completion_tokens a))),
      (''started_at'', FV_datetime (at_started_at a)),
      (''ended_at'', case at_finished_at a of None \<Rightarrow> FV_json JNull | Some t \<Rightarrow> FV_datetime t)] db"

subsection \<open>Taking the lease\<close>

record Claim =
  gc_attempt_id :: uuid
  gc_incident_id :: uuid
  gc_owner :: uuid
  gc_epoch :: int
  gc_max_model_requests :: int
  gc_revises_version :: "int option"

definition ensure_job :: "uuid \<Rightarrow> db \<Rightarrow> perr + db" where
  "ensure_job k db = (if find_job k db \<noteq> None then Inr db
     else if find_incident k db = None then Inl E_STORAGE_UNAVAILABLE
     else Inr (db\<lparr>db_generation_jobs := db_generation_jobs db @ [\<lparr>gj_incident_id = k, gj_lease_owner = None, gj_lease_epoch = 0,
       gj_lease_until = None, gj_pending_regeneration_version = None, gj_failure_watermark = None, gj_consecutive_failures = 0,
       gj_next_attempt_at = None, gj_last_error_code = None\<rparr>]\<rparr>))"

definition put_attempt :: "uuid \<Rightarrow> (attempt_row \<Rightarrow> attempt_row) \<Rightarrow> attempt_row list \<Rightarrow> attempt_row list" where
  "put_attempt k f = update_where (\<lambda>a. at_attempt_id a = k) f"

definition abandoned :: "env \<Rightarrow> attempt_row \<Rightarrow> attempt_row" where
  "abandoned e a = a\<lparr>at_status := AT_abandoned, at_error_code := Some ''LEASE_LOST'', at_finished_at := Some (env_later e)\<rparr>"

text \<open>The attempts left running under a lapsed lease, one after the other; the job row is read again after each.\<close>

fun abandon_all :: "env \<Rightarrow> attempt_row list \<Rightarrow> generation_job_row \<Rightarrow> gen_db \<Rightarrow> generation_job_row gen_tx" where
  "abandon_all e [] j g = Inr (j, g)"
| "abandon_all e (a # as) j g =
     bind_result (outbox_attempt e (abandoned e a) (gd_db g)) (\<lambda>db1.
     case key_of_stored (at_watermark a) (at_revises_version a) of None \<Rightarrow> Inl E_UNCAUGHT
     | Some key \<Rightarrow> (let db2 = count_attempt_failure j key (Some ''LEASE_LOST'') (env_now e) db1 in
         case find_job (gj_incident_id j) db2 of None \<Rightarrow> Inl E_INCONSISTENT_STATE
         | Some j' \<Rightarrow> abandon_all e as j' \<lparr>gd_db = db2, gd_attempts = put_attempt (at_attempt_id a) (abandoned e) (gd_attempts g)\<rparr>))"

definition running_of :: "uuid \<Rightarrow> attempt_row list \<Rightarrow> attempt_row list" where
  "running_of k attempts = filter (\<lambda>a. at_incident_id a = k \<and> at_status a = AT_running) attempts"

definition policy_of :: "(string, string) fmap \<Rightarrow> string" where
  "policy_of versions = (case fmlookup versions ''input_policy_version'' of None \<Rightarrow> POSTMORTEM_INPUT_POLICY_VERSION | Some p \<Rightarrow> p)"

text \<open>A cap that an older input policy caused is lifted.\<close>

definition fresh_count :: "generation_job_row \<Rightarrow> db \<Rightarrow> db" where
  "fresh_count j db = (if MAX_ATTEMPTS_PER_WATERMARK \<le> gj_consecutive_failures j \<and> gj_last_error_code j = Some ''INPUT_TOO_LARGE''
     then update_job (gj_incident_id j) (\<lambda>x. x\<lparr>gj_consecutive_failures := 0, gj_failure_watermark := None\<rparr>) db else db)"

definition new_attempt ::
  "env \<Rightarrow> generation_job_row \<Rightarrow> uuid \<Rightarrow> (string, string) fmap \<Rightarrow> int \<Rightarrow> Watermark \<Rightarrow> attempt_row option" where
  "new_attempt e j owner versions budget w =
     (case (fmlookup versions ''model'', fmlookup versions ''model_profile'', fmlookup versions ''prompt_version'',
        fmlookup versions ''output_schema_version'', fmlookup versions ''input_policy_version'') of
       (Some m, Some pr, Some pv, Some ov, Some iv) \<Rightarrow> Some
         \<lparr>at_attempt_id = env_uuid4 e 0, at_incident_id = gj_incident_id j, at_lease_owner = owner, at_lease_epoch = gj_lease_epoch j + 1,
          at_status = AT_running, at_error_code = None, at_watermark = watermark_fields w,
          at_revises_version = gj_pending_regeneration_version j, at_version = None, at_model = m, at_response_model = None,
          at_model_profile = pr, at_prompt_version = pv, at_output_schema_version = ov, at_input_policy_version = iv,
          at_input_sha256 = None, at_input_bytes = None, at_max_model_requests = budget, at_model_requests = 0,
          at_prompt_tokens = 0, at_completion_tokens = 0, at_model_calls = JArr [], at_started_at = env_later e, at_finished_at = None\<rparr>
     | _ \<Rightarrow> None)"

text \<open>The insertion: a budget that is not positive violates a \<open>CHECK\<close>, a second running attempt of the incident
  the unique index.\<close>

definition insert_attempt :: "attempt_row \<Rightarrow> attempt_row list \<Rightarrow> perr + attempt_row list" where
  "insert_attempt a attempts = (if at_max_model_requests a \<le> 0 then Inl E_STORAGE_UNAVAILABLE
     else if running_of (at_incident_id a) attempts \<noteq> [] then Inl E_IDENTITY_CONFLICT
     else insert_row at_attempt_id a attempts)"

definition open_attempt ::
  "env \<Rightarrow> generation_job_row \<Rightarrow> uuid \<Rightarrow> (string, string) fmap \<Rightarrow> int \<Rightarrow> int \<Rightarrow> gen_db \<Rightarrow> Claim option gen_tx" where
  "open_attempt e j owner versions budget lease_secs g = (let k = gj_incident_id j; db0 = fresh_count j (gd_db g) in
     bind_result (current_watermark e k db0) (\<lambda>w.
     case new_attempt e j owner versions budget w of None \<Rightarrow> Inl E_UNCAUGHT
     | Some a \<Rightarrow> bind_result (insert_attempt a (gd_attempts g)) (\<lambda>attempts.
         Inr (Some \<lparr>gc_attempt_id = at_attempt_id a, gc_incident_id = k, gc_owner = owner, gc_epoch = at_lease_epoch a,
             gc_max_model_requests = budget, gc_revises_version = gj_pending_regeneration_version j\<rparr>,
           \<lparr>gd_db = update_job k (\<lambda>x. x\<lparr>gj_lease_owner := Some owner, gj_lease_epoch := gj_lease_epoch j + 1,
               gj_lease_until := Some (env_later e + seconds lease_secs)\<rparr>) db0,
            gd_attempts = attempts\<rparr>))))"

definition release_lease :: "uuid \<Rightarrow> db \<Rightarrow> db" where
  "release_lease k = update_job k (\<lambda>x. x\<lparr>gj_lease_owner := None, gj_lease_until := None\<rparr>)"

definition claim_generation_in ::
  "env \<Rightarrow> uuid \<Rightarrow> uuid \<Rightarrow> (string, string) fmap \<Rightarrow> int \<Rightarrow> int \<Rightarrow> gen_db \<Rightarrow> Claim option gen_tx" where
  "claim_generation_in e k owner versions budget lease_secs g =
     bind_result (ensure_job k (gd_db g)) (\<lambda>db0.
     case find_job k db0 of None \<Rightarrow> Inl E_INCONSISTENT_STATE
     | Some j \<Rightarrow>
         if (case gj_lease_until j of None \<Rightarrow> False | Some t \<Rightarrow> env_now e < t) then Inr (None, g\<lparr>gd_db := db0\<rparr>)
         else bind_result (abandon_all e (running_of k (gd_attempts g)) j (g\<lparr>gd_db := db0\<rparr>)) (\<lambda>(j1, g1).
           if candidate_rows (env_later e) (policy_of versions) (Some k) 1 g1 = []
           then Inr (None, g1\<lparr>gd_db := release_lease k (gd_db g1)\<rparr>)
           else open_attempt e j1 owner versions budget lease_secs g1))"

definition claim_generation ::
  "uuid \<Rightarrow> uuid \<Rightarrow> (string, string) fmap \<Rightarrow> int \<Rightarrow> int \<Rightarrow> env \<Rightarrow> gen_db \<Rightarrow> Claim option gen_outcome" where
  "claim_generation k owner versions budget lease_secs e g = gen_transaction g (claim_generation_in e k owner versions budget lease_secs g)"

subsection \<open>Counting requests and closing the attempt\<close>

definition lease_held :: "uuid \<Rightarrow> Claim \<Rightarrow> time \<Rightarrow> db \<Rightarrow> bool" where
  "lease_held k c now db \<longleftrightarrow> (case find_job k db of None \<Rightarrow> False
     | Some j \<Rightarrow> gj_lease_owner j = Some (gc_owner c) \<and> gj_lease_epoch j = gc_epoch c
         \<and> (case gj_lease_until j of None \<Rightarrow> False | Some t \<Rightarrow> now < t))"

definition reservable :: "Claim \<Rightarrow> time \<Rightarrow> attempt_row \<Rightarrow> db \<Rightarrow> bool" where
  "reservable c now a db \<longleftrightarrow> at_status a = AT_running \<and> lease_held (at_incident_id a) c now db
     \<and> at_model_requests a < at_max_model_requests a"

definition reserve_model_request :: "Claim \<Rightarrow> env \<Rightarrow> gen_db \<Rightarrow> int gen_outcome" where
  "reserve_model_request c e g = (case find_row at_attempt_id (gc_attempt_id c) (gd_attempts g) of
      Some a \<Rightarrow> if reservable c (env_now e) a (gd_db g)
        then (Inr (at_model_requests a + 1),
          g\<lparr>gd_attempts := put_attempt (gc_attempt_id c) (\<lambda>x. x\<lparr>at_model_requests := at_model_requests x + 1\<rparr>) (gd_attempts g)\<rparr>)
        else (Inl (if lease_held (gc_incident_id c) c (env_later e) (gd_db g) then E_BUDGET_EXHAUSTED else E_LEASE_LOST), g)
    | None \<Rightarrow> (Inl (if lease_held (gc_incident_id c) c (env_later e) (gd_db g) then E_BUDGET_EXHAUSTED else E_LEASE_LOST), g))"

text \<open>The arguments of \<open>finish\<close>.\<close>

record closing =
  fn_status :: attempt_status
  fn_watermark :: "Watermark option"
  fn_error_code :: "string option"
  fn_version :: "int option"
  fn_response_model :: "string option"
  fn_input_sha256 :: "string option"
  fn_input_bytes :: "int option"
  fn_prompt_tokens :: int
  fn_completion_tokens :: int
  fn_citations_failed :: bool
  fn_model_calls :: "json list option"

definition ATTEMPT_ERRORS :: "string list" where
  "ATTEMPT_ERRORS = [''MODEL_REJECTED'', ''MODEL_UNAVAILABLE'', ''INPUT_TOO_LARGE'', ''OUTPUT_INVALID'', ''WATERMARK_MOVED'',
     ''GENERATION_CONFLICT'', ''LEASE_LOST'']"

definition closed_attempt :: "env \<Rightarrow> closing \<Rightarrow> attempt_row \<Rightarrow> attempt_row" where
  "closed_attempt e f a = a\<lparr>at_status := fn_status f, at_error_code := fn_error_code f, at_version := fn_version f,
     at_response_model := fn_response_model f, at_input_sha256 := fn_input_sha256 f, at_input_bytes := fn_input_bytes f,
     at_prompt_tokens := fn_prompt_tokens f, at_completion_tokens := fn_completion_tokens f,
     at_model_calls := JArr (case fn_model_calls f of None \<Rightarrow> [] | Some xs \<Rightarrow> xs), at_finished_at := Some (env_later e)\<rparr>"

text \<open>The \<open>CHECK\<close>s of a row.\<close>

definition attempt_checks :: "attempt_row \<Rightarrow> bool" where
  "attempt_checks a \<longleftrightarrow> (case at_error_code a of None \<Rightarrow> True | Some c \<Rightarrow> c \<in> set ATTEMPT_ERRORS)
     \<and> (case at_version a of None \<Rightarrow> True | Some v \<Rightarrow> 0 < v)
     \<and> (case at_input_sha256 a of None \<Rightarrow> True | Some s \<Rightarrow> is_sha256 s)
     \<and> (case at_input_bytes a of None \<Rightarrow> True | Some n \<Rightarrow> 0 \<le> n)
     \<and> 0 < at_max_model_requests a \<and> 0 \<le> at_model_requests a \<and> at_model_requests a \<le> at_max_model_requests a
     \<and> 0 \<le> at_prompt_tokens a \<and> 0 \<le> at_completion_tokens a
     \<and> (at_status a = AT_running) = (at_finished_at a = None)
     \<and> (at_status a \<in> {AT_failed, AT_superseded, AT_abandoned}) = (at_error_code a \<noteq> None)
     \<and> (at_status a = AT_succeeded) = (at_version a \<noteq> None)"

definition finish_key :: "closing \<Rightarrow> attempt_row \<Rightarrow> string option" where
  "finish_key f a = (case fn_watermark f of Some w \<Rightarrow> Some (watermark_key w (at_revises_version a))
     | None \<Rightarrow> key_of_stored (at_watermark a) (at_revises_version a))"

definition settle_job :: "env \<Rightarrow> closing \<Rightarrow> generation_job_row \<Rightarrow> string \<Rightarrow> db \<Rightarrow> db" where
  "settle_job e f j key db =
     (if fn_status f = AT_failed \<or> (fn_status f = AT_succeeded \<and> fn_citations_failed f)
      then count_attempt_failure j key (fn_error_code f) (env_now e) db
      else if fn_status f = AT_succeeded
      then update_job (gj_incident_id j) (\<lambda>x. x\<lparr>gj_consecutive_failures := 0, gj_failure_watermark := None,
        gj_next_attempt_at := None, gj_last_error_code := None\<rparr>) db
      else update_job (gj_incident_id j) (\<lambda>x. x\<lparr>gj_last_error_code := fn_error_code f\<rparr>) db)"

definition finish_in :: "Claim \<Rightarrow> closing \<Rightarrow> env \<Rightarrow> gen_db \<Rightarrow> unit gen_tx" where
  "finish_in c f e g = (case find_job (gc_incident_id c) (gd_db g) of
      None \<Rightarrow> Inl E_INCONSISTENT_STATE
    | Some j \<Rightarrow> (case List.find (\<lambda>a. at_attempt_id a = gc_attempt_id c \<and> at_status a = AT_running) (gd_attempts g) of
        None \<Rightarrow> Inl E_LEASE_LOST
      | Some a \<Rightarrow>
          if \<not> attempt_checks (closed_attempt e f a) then Inl E_STORAGE_UNAVAILABLE
          else if \<not> (gj_lease_owner j = Some (gc_owner c) \<and> gj_lease_epoch j = gc_epoch c) then Inl E_LEASE_LOST
          else bind_result (outbox_attempt e (closed_attempt e f a) (gd_db g)) (\<lambda>db1.
            case finish_key f a of None \<Rightarrow> Inl E_UNCAUGHT
            | Some key \<Rightarrow> Inr ((), \<lparr>gd_db = release_lease (gc_incident_id c) (settle_job e f j key db1),
                gd_attempts = put_attempt (gc_attempt_id c) (closed_attempt e f) (gd_attempts g)\<rparr>))))"

definition finish :: "Claim \<Rightarrow> closing \<Rightarrow> env \<Rightarrow> gen_db \<Rightarrow> unit gen_outcome" where
  "finish c f e g = gen_transaction g (finish_in c f e g)"

subsection \<open>The compensation scan\<close>

text \<open>The open versions behind their incident, with the reason to record, oldest first.\<close>

fun stale_rows :: "env \<Rightarrow> postmortem_version_row list \<Rightarrow> db \<Rightarrow> perr + (uuid \<times> int \<times> string) list" where
  "stale_rows e [] db = Inr []"
| "stale_rows e (v # vs) db = (case find_row ph_postmortem_id (pv_postmortem_id v) (db_postmortems db) of
     None \<Rightarrow> stale_rows e vs db
   | Some h \<Rightarrow> bind_result (moved_components e (ph_incident_id h) v db) (\<lambda>moved.
       bind_result (stale_rows e vs db) (\<lambda>rest.
         Inr (case stale_reason_for moved of None \<Rightarrow> rest | Some r \<Rightarrow> (pv_postmortem_id v, pv_version v, r) # rest))))"

definition stale_versions :: "nat \<Rightarrow> env \<Rightarrow> db \<Rightarrow> perr + (uuid \<times> int \<times> string) list" where
  "stale_versions limit e db = stale_rows e (take limit (sort_key pv_created_at
     (filter (\<lambda>v. pv_state v \<in> {PM_draft, PM_under_review} \<and> find_row ph_postmortem_id (pv_postmortem_id v) (db_postmortems db) \<noteq> None)
       (db_postmortem_versions db)))) db"

end
