(* ===== verification/Generation_Machine.thy ===== *)
theory Generation_Machine
  imports Generation_Jobs Knowledge_Machine
begin

section \<open>The abstract machine of generation attempts\<close>

text \<open>
  Five kinds of change of the job rows and the attempts: something else happened, a lease without a running
  attempt was cleared, an attempt was opened under the next epoch, a request was counted, a running attempt was
  closed. Every operation of \<open>GenerationStore\<close> is a sequence of them (\<open>generation_refines\<close>). A worker holds only
  claims that were issued to it (\<open>issued\<close>). Other transactions leave the leases alone and at most clear the
  failures of a job, as the requests of \<open>KnowledgeStore\<close> do (\<open>perform_jobs\<close>).
\<close>

definition same_lease :: "generation_job_row \<Rightarrow> generation_job_row \<Rightarrow> bool" where
  "same_lease j j' \<longleftrightarrow> gj_lease_owner j' = gj_lease_owner j \<and> gj_lease_epoch j' = gj_lease_epoch j \<and> gj_lease_until j' = gj_lease_until j"

definition same_tally :: "generation_job_row \<Rightarrow> generation_job_row \<Rightarrow> bool" where
  "same_tally j j' \<longleftrightarrow> gj_consecutive_failures j' = gj_consecutive_failures j \<and> gj_failure_watermark j' = gj_failure_watermark j
     \<and> gj_next_attempt_at j' = gj_next_attempt_at j \<and> gj_last_error_code j' = gj_last_error_code j"

definition unfailed :: "generation_job_row \<Rightarrow> bool" where
  "unfailed j \<longleftrightarrow> gj_consecutive_failures j = 0 \<and> gj_failure_watermark j = None \<and> gj_next_attempt_at j = None \<and> gj_last_error_code j = None"

definition unleased :: "generation_job_row \<Rightarrow> bool" where
  "unleased j \<longleftrightarrow> gj_lease_owner j = None \<and> gj_lease_epoch j = 0 \<and> gj_lease_until j = None"

definition jobs_kept :: "db \<Rightarrow> db \<Rightarrow> bool" where
  "jobs_kept db db' \<longleftrightarrow> (\<forall>k. case find_job k db of
      None \<Rightarrow> (\<forall>j'. find_job k db' = Some j' \<longrightarrow> unleased j' \<and> unfailed j')
    | Some j \<Rightarrow> (\<exists>j'. find_job k db' = Some j' \<and> same_lease j j' \<and> (same_tally j j' \<or> unfailed j')))"

lemma jobs_kept_refl [simp]: "db_generation_jobs db' = db_generation_jobs db \<Longrightarrow> jobs_kept db db'"
  by (auto simp: jobs_kept_def same_lease_def same_tally_def split: option.splits)

lemma find_update_job:
  "(\<And>j. gj_incident_id (f j) = gj_incident_id j) \<Longrightarrow>
   find_job k' (update_job k f db) = (if k' = k then map_option f (find_job k db) else find_job k' db)"
proof -
  assume f: "\<And>j. gj_incident_id (f j) = gj_incident_id j"
  have "find_job k' (update_job k f db) = map_option (\<lambda>j. if gj_incident_id j = k then f j else j) (find_job k' db)"
    unfolding update_job_def by (simp add: find_row_update_where f)
  then show ?thesis by (cases "find_job k' db") (auto dest: find_row_SomeD)
qed

lemma update_job_db [simp]:
  "db_incidents (update_job k f db) = db_incidents db" "db_sessions (update_job k f db) = db_sessions db"
  "db_endings (update_job k f db) = db_endings db" "db_runs (update_job k f db) = db_runs db" "db_inputs (update_job k f db) = db_inputs db"
  "db_evidence (update_job k f db) = db_evidence db" "db_postmortems (update_job k f db) = db_postmortems db"
  "db_postmortem_versions (update_job k f db) = db_postmortem_versions db"
  by (simp_all add: update_job_def)

definition issued :: "Claim \<Rightarrow> gen_db \<Rightarrow> bool" where
  "issued c g \<longleftrightarrow> (\<exists>a \<in> set (gd_attempts g). at_attempt_id a = gc_attempt_id c \<and> at_incident_id a = gc_incident_id c
     \<and> at_lease_owner a = gc_owner c \<and> at_lease_epoch a = gc_epoch c)"

text \<open>What an attempt keeps for ever.\<close>

definition attempt_same :: "attempt_row \<Rightarrow> attempt_row \<Rightarrow> bool" where
  "attempt_same a b \<longleftrightarrow> at_attempt_id b = at_attempt_id a \<and> at_incident_id b = at_incident_id a \<and> at_lease_owner b = at_lease_owner a
     \<and> at_lease_epoch b = at_lease_epoch a \<and> at_max_model_requests b = at_max_model_requests a
     \<and> at_watermark b = at_watermark a \<and> at_revises_version b = at_revises_version a"

text \<open>A next attempt is due exactly below the cap of a counted failure, and a key is kept exactly while one is
  counted.\<close>

definition tally_ok :: "generation_job_row \<Rightarrow> bool" where
  "tally_ok j \<longleftrightarrow> 0 \<le> gj_consecutive_failures j \<and> gj_consecutive_failures j \<le> MAX_ATTEMPTS_PER_WATERMARK
     \<and> (gj_next_attempt_at j \<noteq> None \<longleftrightarrow> 1 \<le> gj_consecutive_failures j \<and> gj_consecutive_failures j < MAX_ATTEMPTS_PER_WATERMARK)
     \<and> (gj_failure_watermark j = None \<longleftrightarrow> gj_consecutive_failures j = 0)"

definition other_jobs :: "uuid \<Rightarrow> db \<Rightarrow> db \<Rightarrow> bool" where
  "other_jobs k db db' \<longleftrightarrow> (\<forall>k'. k' \<noteq> k \<longrightarrow> find_job k' db' = find_job k' db)"

inductive gen_change :: "gen_db \<Rightarrow> gen_db \<Rightarrow> bool" where
  kept: "jobs_kept (gd_db g) (gd_db g') \<Longrightarrow> gd_attempts g' = gd_attempts g \<Longrightarrow> gen_change g g'"
| released: "find_job k (gd_db g) = Some j \<Longrightarrow> find_job k (gd_db g') = Some j' \<Longrightarrow> other_jobs k (gd_db g) (gd_db g') \<Longrightarrow>
     gj_lease_epoch j' = gj_lease_epoch j \<Longrightarrow> (tally_ok j \<Longrightarrow> tally_ok j') \<Longrightarrow> running_of k (gd_attempts g) = [] \<Longrightarrow>
     gd_attempts g' = gd_attempts g \<Longrightarrow> gen_change g g'"
| opened: "find_job k (gd_db g) = Some j \<Longrightarrow> find_job k (gd_db g') = Some j' \<Longrightarrow> other_jobs k (gd_db g) (gd_db g') \<Longrightarrow>
     gj_lease_epoch j' = gj_lease_epoch j + 1 \<Longrightarrow> gj_lease_owner j' = Some (at_lease_owner a) \<Longrightarrow> (tally_ok j \<Longrightarrow> tally_ok j') \<Longrightarrow>
     running_of k (gd_attempts g) = [] \<Longrightarrow> at_incident_id a = k \<Longrightarrow> at_lease_epoch a = gj_lease_epoch j + 1 \<Longrightarrow> at_status a = AT_running \<Longrightarrow>
     at_model_requests a = 0 \<Longrightarrow> 0 < at_max_model_requests a \<Longrightarrow>
     at_attempt_id a \<notin> at_attempt_id ` set (gd_attempts g) \<Longrightarrow> gd_attempts g' = gd_attempts g @ [a] \<Longrightarrow> gen_change g g'"
| counted: "jobs_kept (gd_db g) (gd_db g') \<Longrightarrow> a \<in> set (gd_attempts g) \<Longrightarrow> at_status a = AT_running \<Longrightarrow>
     at_model_requests a < at_max_model_requests a \<Longrightarrow>
     gd_attempts g' = put_attempt (at_attempt_id a) (\<lambda>x. x\<lparr>at_model_requests := at_model_requests x + 1\<rparr>) (gd_attempts g) \<Longrightarrow> gen_change g g'"
| closed: "a \<in> set (gd_attempts g) \<Longrightarrow> at_status a = AT_running \<Longrightarrow>
     (\<And>x. attempt_same x (F x) \<and> at_status (F x) \<noteq> AT_running \<and> at_model_requests (F x) = at_model_requests x) \<Longrightarrow>
     gd_attempts g' = put_attempt (at_attempt_id a) F (gd_attempts g) \<Longrightarrow>
     find_job (at_incident_id a) (gd_db g) = Some j \<Longrightarrow> find_job (at_incident_id a) (gd_db g') = Some j' \<Longrightarrow>
     other_jobs (at_incident_id a) (gd_db g) (gd_db g') \<Longrightarrow> gj_lease_epoch j' = gj_lease_epoch j \<Longrightarrow> (tally_ok j \<Longrightarrow> tally_ok j') \<Longrightarrow> gen_change g g'"

abbreviation gen_changes :: "gen_db \<Rightarrow> gen_db \<Rightarrow> bool" where
  "gen_changes \<equiv> gen_change\<^sup>*\<^sup>*"

inductive gen_step :: "gen_db \<Rightarrow> gen_db \<Rightarrow> bool" where
  step_claim: "gen_step g (snd (claim_generation k owner versions budget lease_secs e g))"
| step_reserve: "issued c g \<Longrightarrow> gen_step g (snd (reserve_model_request c e g))"
| step_finish: "issued c g \<Longrightarrow> gen_step g (snd (finish c f e g))"
| step_other: "jobs_kept (gd_db g) (gd_db g') \<Longrightarrow> gd_attempts g' = gd_attempts g \<Longrightarrow> gen_step g g'"

abbreviation gen_steps :: "gen_db \<Rightarrow> gen_db \<Rightarrow> bool" where
  "gen_steps \<equiv> gen_step\<^sup>*\<^sup>*"

subsection \<open>The operations are sequences of changes\<close>

lemma failures_bounds: "0 \<le> gj_consecutive_failures j \<Longrightarrow> 1 \<le> failures_after j key err \<and> failures_after j key err \<le> MAX_ATTEMPTS_PER_WATERMARK"
  by (auto simp: failures_after_def Let_def MAX_ATTEMPTS_PER_WATERMARK_def split: option.splits)

lemma count_find:
  "find_job k (count_attempt_failure j key err now db) = (if k = gj_incident_id j then map_option (\<lambda>x. x\<lparr>
      gj_consecutive_failures := failures_after j key err, gj_failure_watermark := Some key, gj_last_error_code := err,
      gj_next_attempt_at := backoff now (failures_after j key err)\<rparr>) (find_job k db) else find_job k db)"
  by (simp add: count_attempt_failure_def Let_def find_update_job)

lemma counted_tally_ok: "tally_ok j \<Longrightarrow> tally_ok (x\<lparr>gj_consecutive_failures := failures_after j key err, gj_failure_watermark := Some key,
    gj_last_error_code := err, gj_next_attempt_at := backoff now (failures_after j key err)\<rparr>)"
  using failures_bounds [of j key err] by (auto simp: tally_ok_def backoff_def)

lemma outbox_attempt_jobs: "outbox_attempt e a db = Inr db' \<Longrightarrow> db_generation_jobs db' = db_generation_jobs db"
  by (auto simp: outbox_attempt_def dest: insert_entry_Inr)

lemma put_attempt_running:
  assumes "\<And>x. at_incident_id (F x) = at_incident_id x \<and> at_status (F x) \<noteq> AT_running"
  shows "running_of k (put_attempt i F as) = filter (\<lambda>a. at_attempt_id a \<noteq> i) (running_of k as)"
  unfolding put_attempt_def update_where_def running_of_def using assms by (induction as) auto

text \<open>Closing the attempts left running, of an incident whose job row is \<open>j\<close>.\<close>

lemma abandon_all_changes:
  assumes "abandon_all e as j g = Inr (j1, g1)" and "set as \<subseteq> set (running_of k (gd_attempts g))" and "distinct (map at_attempt_id as)"
    and "gj_incident_id j = k" and "find_job k (gd_db g) = Some j"
  shows "gen_changes g g1 \<and> find_job k (gd_db g1) = Some j1 \<and> gj_incident_id j1 = k \<and> gj_lease_epoch j1 = gj_lease_epoch j
    \<and> running_of k (gd_attempts g1) = filter (\<lambda>a. at_attempt_id a \<notin> at_attempt_id ` set as) (running_of k (gd_attempts g))"
  using assms
proof (induction as arbitrary: j g)
  case (Cons a as)
  from Cons.prems(1) obtain db1 key where o: "outbox_attempt e (abandoned e a) (gd_db g) = Inr db1"
    and key: "key_of_stored (at_watermark a) (at_revises_version a) = Some key"
    by (auto simp: bind_result_Inr_iff Let_def split: option.splits)
  define db2 where "db2 = count_attempt_failure j key (Some ''LEASE_LOST'') (env_now e) db1"
  have fj: "find_job k' db1 = find_job k' (gd_db g)" for k' using outbox_attempt_jobs [OF o] by simp
  define j' where "j' = j\<lparr>gj_consecutive_failures := failures_after j key (Some ''LEASE_LOST''), gj_failure_watermark := Some key,
      gj_last_error_code := Some ''LEASE_LOST'', gj_next_attempt_at := backoff (env_now e) (failures_after j key (Some ''LEASE_LOST''))\<rparr>"
  have j': "find_job k db2 = Some j'" using Cons.prems(4,5) by (simp add: db2_def count_find fj j'_def)
  have oth: "other_jobs k (gd_db g) db2" using Cons.prems(4) by (simp add: other_jobs_def db2_def count_find fj)
  define g2 where "g2 = \<lparr>gd_db = db2, gd_attempts = put_attempt (at_attempt_id a) (abandoned e) (gd_attempts g)\<rparr>"
  have rest: "abandon_all e as j' g2 = Inr (j1, g1)"
    using Cons.prems(1,4) by (simp add: o key Let_def db2_def [symmetric] j' g2_def)
  have F: "attempt_same x (abandoned e x) \<and> at_status (abandoned e x) \<noteq> AT_running \<and> at_model_requests (abandoned e x) = at_model_requests x" for x
    by (simp add: attempt_same_def abandoned_def)
  have run: "running_of k (gd_attempts g2) = filter (\<lambda>b. at_attempt_id b \<noteq> at_attempt_id a) (running_of k (gd_attempts g))"
    unfolding g2_def gen_db.simps by (rule put_attempt_running) (simp add: abandoned_def)
  have a: "a \<in> set (gd_attempts g)" "at_status a = AT_running" "at_incident_id a = k"
    using Cons.prems(2) by (auto simp: running_of_def)
  have "gen_change g g2"
  proof (rule closed [OF a(1,2) F])
    show "gd_attempts g2 = put_attempt (at_attempt_id a) (abandoned e) (gd_attempts g)" by (simp add: g2_def)
    show "find_job (at_incident_id a) (gd_db g) = Some j" using a(3) Cons.prems(5) by simp
    show "find_job (at_incident_id a) (gd_db g2) = Some j'" using a(3) j' by (simp add: g2_def)
    show "other_jobs (at_incident_id a) (gd_db g) (gd_db g2)" using a(3) oth by (simp add: g2_def)
    show "gj_lease_epoch j' = gj_lease_epoch j" by (simp add: j'_def)
    show "tally_ok j \<Longrightarrow> tally_ok j'" unfolding j'_def by (rule counted_tally_ok)
  qed
  moreover have "gen_changes g2 g1 \<and> find_job k (gd_db g1) = Some j1 \<and> gj_incident_id j1 = k \<and> gj_lease_epoch j1 = gj_lease_epoch j'
    \<and> running_of k (gd_attempts g1) = filter (\<lambda>a. at_attempt_id a \<notin> at_attempt_id ` set as) (running_of k (gd_attempts g2))"
  proof (rule Cons.IH [OF rest])
    show "set as \<subseteq> set (running_of k (gd_attempts g2))" 
    proof
      fix x assume x: "x \<in> set as"
      with Cons.prems(2) have "x \<in> set (running_of k (gd_attempts g))" by auto
      moreover from x Cons.prems(3) have "at_attempt_id x \<noteq> at_attempt_id a" by (metis distinct.simps(2) image_eqI list.set_map list.simps(9))
      ultimately show "x \<in> set (running_of k (gd_attempts g2))" by (simp add: run)
    qed
    show "gj_incident_id j' = k" using Cons.prems(4) by (simp add: j'_def)
    show "find_job k (gd_db g2) = Some j'" using j' by (simp add: g2_def)
  qed (use Cons.prems(3) in simp)
  ultimately show ?case
    by (auto simp: run j'_def filter_filter conj_commute intro: converse_rtranclp_into_rtranclp)
qed simp

lemma running_distinct: "distinct (map at_attempt_id as) \<Longrightarrow> distinct (map at_attempt_id (running_of k as))"
  unfolding running_of_def by (rule distinct_map_filter)

lemma ensure_job_kept:
  assumes "ensure_job k db = Inr db'"
  shows "jobs_kept db db' \<and> find_job k db' \<noteq> None \<and> db_incidents db' = db_incidents db"
  using assms by (auto simp: ensure_job_def jobs_kept_def unleased_def unfailed_def same_lease_def same_tally_def find_row_append
      split: if_splits option.splits)

lemma fresh_count_job:
  assumes "find_job (gj_incident_id j) db = Some j"
  shows "\<exists>j'. find_job (gj_incident_id j) (fresh_count j db) = Some j' \<and> same_lease j j' \<and> gj_incident_id j' = gj_incident_id j
    \<and> gj_pending_regeneration_version j' = gj_pending_regeneration_version j
    \<and> (tally_ok j \<longrightarrow> tally_ok j')" and "k \<noteq> gj_incident_id j \<Longrightarrow> find_job k (fresh_count j db) = find_job k db"
  using assms by (auto simp: fresh_count_def find_update_job same_lease_def tally_ok_def MAX_ATTEMPTS_PER_WATERMARK_def)

lemma open_attempt_opens:
  assumes "open_attempt e j owner versions budget secs g = Inr (r, g')" and "find_job (gj_incident_id j) (gd_db g) = Some j"
    and "running_of (gj_incident_id j) (gd_attempts g) = []"
  shows "gen_change g g' \<and> (\<exists>c a j'. r = Some c \<and> gd_attempts g' = gd_attempts g @ [a] \<and> at_status a = AT_running
    \<and> at_attempt_id a = gc_attempt_id c \<and> at_incident_id a = gc_incident_id c \<and> at_lease_owner a = gc_owner c \<and> at_lease_epoch a = gc_epoch c
    \<and> at_max_model_requests a = gc_max_model_requests c \<and> gc_incident_id c = gj_incident_id j \<and> gc_owner c = owner
    \<and> gc_max_model_requests c = budget \<and> find_job (gj_incident_id j) (gd_db g') = Some j'
    \<and> gj_lease_until j' = Some (env_later e + seconds secs) \<and> gj_lease_owner j' = Some owner \<and> gj_lease_epoch j' = gc_epoch c
    \<and> gc_epoch c = gj_lease_epoch j + 1)"
proof -
  define k where "k = gj_incident_id j"
  define db0 where "db0 = fresh_count j (gd_db g)"
  define s where "s = (\<lambda>x :: generation_job_row. x\<lparr>gj_lease_owner := Some owner, gj_lease_epoch := gj_lease_epoch j + 1,
      gj_lease_until := Some (env_later e + seconds secs)\<rparr>)"
  from assms(1) obtain w a attempts where na: "new_attempt e j owner versions budget w = Some a"
    and ins: "insert_attempt a (gd_attempts g) = Inr attempts"
    and r: "r = Some \<lparr>gc_attempt_id = at_attempt_id a, gc_incident_id = k, gc_owner = owner, gc_epoch = at_lease_epoch a,
             gc_max_model_requests = budget, gc_revises_version = gj_pending_regeneration_version j\<rparr>"
    and g': "g' = \<lparr>gd_db = update_job k s db0, gd_attempts = attempts\<rparr>"
    by (auto simp: open_attempt_def Let_def bind_result_Inr_iff k_def db0_def s_def split: option.splits)
  from na have a: "at_incident_id a = k" "at_lease_epoch a = gj_lease_epoch j + 1" "at_status a = AT_running" "at_model_requests a = 0"
      "at_lease_owner a = owner" "at_max_model_requests a = budget"
    by (auto simp: new_attempt_def k_def split: option.splits)
  from ins have i: "0 < at_max_model_requests a" "at_attempt_id a \<notin> at_attempt_id ` set (gd_attempts g)" "attempts = gd_attempts g @ [a]"
    by (auto simp: insert_attempt_def insert_row_Inr_iff split: if_splits)
  from fresh_count_job(1) [OF assms(2)] obtain j0 where j0: "find_job k db0 = Some j0" "tally_ok j \<longrightarrow> tally_ok j0"
    unfolding k_def db0_def by blast
  have f: "find_job k (gd_db g') = Some (s j0)" using j0(1) by (simp add: g' find_update_job s_def)
  have oth: "other_jobs k (gd_db g) (gd_db g')"
    using fresh_count_job(2) [OF assms(2)] by (simp add: other_jobs_def g' find_update_job s_def db0_def k_def)
  have ch: "gen_change g g'"
  proof (rule opened [OF assms(2) [folded k_def] f oth])
    show "tally_ok j \<Longrightarrow> tally_ok (s j0)" using j0(2) by (simp add: tally_ok_def s_def)
    show "running_of k (gd_attempts g) = []" using assms(3) by (simp add: k_def)
    show "gd_attempts g' = gd_attempts g @ [a]" by (simp add: g' i(3))
  qed (use a i in \<open>simp_all add: s_def\<close>)
  show ?thesis using ch f a i(3) by (simp add: r g' s_def k_def)
qed

lemma release_lease_releases:
  assumes "find_job k (gd_db g) = Some j" and "running_of k (gd_attempts g) = []"
  shows "gen_change g (g\<lparr>gd_db := release_lease k (gd_db g)\<rparr>)"
  by (rule released [OF assms(1) _ _ _ _ assms(2), where j' = "j\<lparr>gj_lease_owner := None, gj_lease_until := None\<rparr>"])
    (auto simp: release_lease_def find_update_job assms(1) other_jobs_def tally_ok_def)

lemma claim_in_cases:
  assumes "claim_generation_in e k owner versions budget secs g = Inr (r, g')" and "distinct (map at_attempt_id (gd_attempts g))"
  obtains db0 j where "ensure_job k (gd_db g) = Inr db0" "find_job k db0 = Some j" "r = None" "g' = g\<lparr>gd_db := db0\<rparr>"
    "\<exists>t. gj_lease_until j = Some t \<and> env_now e < t"
  | db0 j j1 g1 where "ensure_job k (gd_db g) = Inr db0" "find_job k db0 = Some j"
    "gen_changes (g\<lparr>gd_db := db0\<rparr>) g1" "find_job k (gd_db g1) = Some j1" "gj_incident_id j1 = k" "running_of k (gd_attempts g1) = []"
    "abandon_all e (running_of k (gd_attempts g)) j (g\<lparr>gd_db := db0\<rparr>) = Inr (j1, g1)"
    "if candidate_rows (env_later e) (policy_of versions) (Some k) 1 g1 = []
     then r = None \<and> g' = g1\<lparr>gd_db := release_lease k (gd_db g1)\<rparr>
     else open_attempt e j1 owner versions budget secs g1 = Inr (r, g')"
proof -
  from assms(1) obtain db0 j where e: "ensure_job k (gd_db g) = Inr db0" and j: "find_job k db0 = Some j"
    and rest: "(if (case gj_lease_until j of None \<Rightarrow> False | Some t \<Rightarrow> env_now e < t) then Inr (None, g\<lparr>gd_db := db0\<rparr>)
         else bind_result (abandon_all e (running_of k (gd_attempts g)) j (g\<lparr>gd_db := db0\<rparr>)) (\<lambda>(j1, g1).
           if candidate_rows (env_later e) (policy_of versions) (Some k) 1 g1 = []
           then Inr (None, g1\<lparr>gd_db := release_lease k (gd_db g1)\<rparr>)
           else open_attempt e j1 owner versions budget secs g1)) = Inr (r, g')"
  proof -
    from assms(1) obtain db0 where e: "ensure_job k (gd_db g) = Inr db0" by (auto simp: claim_generation_in_def bind_result_Inr_iff)
    from assms(1) obtain j where j: "find_job k db0 = Some j"
      by (cases "find_job k db0") (auto simp: claim_generation_in_def bind_result_Inr_iff e)
    from assms(1) show ?thesis by (intro that [OF e j]) (simp only: claim_generation_in_def e j bind_result.simps option.case)
  qed
  show thesis
  proof (cases "case gj_lease_until j of None \<Rightarrow> False | Some t \<Rightarrow> env_now e < t")
    case True
    with rest have "r = None" "g' = g\<lparr>gd_db := db0\<rparr>" by simp_all
    moreover from True have "\<exists>t. gj_lease_until j = Some t \<and> env_now e < t" by (auto split: option.splits)
    ultimately show thesis using that(1) e j by blast
  next
    case False
    with rest obtain j1 g1 where ab: "abandon_all e (running_of k (gd_attempts g)) j (g\<lparr>gd_db := db0\<rparr>) = Inr (j1, g1)"
      and c: "(if candidate_rows (env_later e) (policy_of versions) (Some k) 1 g1 = []
           then Inr (None, g1\<lparr>gd_db := release_lease k (gd_db g1)\<rparr>)
           else open_attempt e j1 owner versions budget secs g1) = Inr (r, g')"
      by (auto simp: bind_result_Inr_iff)
    have k: "gj_incident_id j = k" using find_row_SomeD [OF j] by simp
    from abandon_all_changes [OF ab _ running_distinct [OF assms(2)] k] j
    have ch: "gen_changes (g\<lparr>gd_db := db0\<rparr>) g1" "find_job k (gd_db g1) = Some j1" "gj_incident_id j1 = k" "running_of k (gd_attempts g1) = []"
      by (auto simp: filter_empty_conv)
    show thesis by (rule that(2) [OF e j ch ab]) (use c in \<open>auto split: if_splits\<close>)
  qed
qed

lemma generation_claimed:
  assumes "claim_generation_in e k owner versions budget secs g = Inr (r, g')" and "distinct (map at_attempt_id (gd_attempts g))"
  shows "gen_changes g g'"
  using assms
proof (rule claim_in_cases)
  fix db0 j assume "ensure_job k (gd_db g) = Inr db0" "g' = g\<lparr>gd_db := db0\<rparr>"
  then show ?thesis using ensure_job_kept by (intro r_into_rtranclp kept) auto
next
  fix db0 j j1 g1
  assume e: "ensure_job k (gd_db g) = Inr db0" and c: "gen_changes (g\<lparr>gd_db := db0\<rparr>) g1" and j1: "find_job k (gd_db g1) = Some j1"
    and i: "gj_incident_id j1 = k" and n: "running_of k (gd_attempts g1) = []"
    and x: "if candidate_rows (env_later e) (policy_of versions) (Some k) 1 g1 = []
     then r = None \<and> g' = g1\<lparr>gd_db := release_lease k (gd_db g1)\<rparr>
     else open_attempt e j1 owner versions budget secs g1 = Inr (r, g')"
  have "gen_change g (g\<lparr>gd_db := db0\<rparr>)" using ensure_job_kept [OF e] by (intro kept) auto
  from this c have "gen_changes g g1" by (rule converse_rtranclp_into_rtranclp)
  moreover have "gen_change g1 g'"
  proof (cases "candidate_rows (env_later e) (policy_of versions) (Some k) 1 g1 = []")
    case True
    with x release_lease_releases [OF j1 n] show ?thesis by simp
  next
    case False
    with x open_attempt_opens [of e j1 owner versions budget secs g1 r g'] j1 i n show ?thesis by simp
  qed
  ultimately show ?thesis by (rule rtranclp.rtrancl_into_rtrancl)
qed

lemma settle_job_find:
  assumes "find_job (gj_incident_id j) db = Some j"
  shows "\<exists>j'. find_job (gj_incident_id j) (settle_job e f j key db) = Some j' \<and> gj_lease_epoch j' = gj_lease_epoch j
      \<and> gj_incident_id j' = gj_incident_id j \<and> (tally_ok j \<longrightarrow> tally_ok j')"
    and "k \<noteq> gj_incident_id j \<Longrightarrow> find_job k (settle_job e f j key db) = find_job k db"
  using assms counted_tally_ok [where j = j and x = j and key = key and err = "fn_error_code f" and now = "env_now e"]
  by (auto simp: settle_job_def count_find find_update_job tally_ok_def MAX_ATTEMPTS_PER_WATERMARK_def)

lemma find_attempt: "find_row at_attempt_id k as = Some a \<Longrightarrow> a \<in> set as \<and> at_attempt_id a = k"
  by (rule find_row_SomeD)

lemma same_attempt: "distinct (map at_attempt_id as) \<Longrightarrow> a \<in> set as \<Longrightarrow> b \<in> set as \<Longrightarrow> at_attempt_id a = at_attempt_id b \<Longrightarrow> a = b"
  by (auto simp: distinct_map inj_on_def)

lemma finish_closes:
  assumes "finish_in c f e g = Inr (x, g')" and "issued c g" and "distinct (map at_attempt_id (gd_attempts g))"
  shows "gen_change g g'"
proof -
  from assms(1) obtain j a db1 key where j: "find_job (gc_incident_id c) (gd_db g) = Some j"
    and a: "List.find (\<lambda>a. at_attempt_id a = gc_attempt_id c \<and> at_status a = AT_running) (gd_attempts g) = Some a"
    and ck: "attempt_checks (closed_attempt e f a)" and o: "outbox_attempt e (closed_attempt e f a) (gd_db g) = Inr db1"
    and g': "g' = \<lparr>gd_db = release_lease (gc_incident_id c) (settle_job e f j key db1),
                gd_attempts = put_attempt (gc_attempt_id c) (closed_attempt e f) (gd_attempts g)\<rparr>"
    by (auto simp: finish_in_def bind_result_Inr_iff split: option.splits if_splits)
  from a have as: "a \<in> set (gd_attempts g)" "at_attempt_id a = gc_attempt_id c" "at_status a = AT_running" by (auto simp: find_Some_iff)
  from assms(2) obtain b where b: "b \<in> set (gd_attempts g)" "at_attempt_id b = gc_attempt_id c" "at_incident_id b = gc_incident_id c"
    by (auto simp: issued_def)
  with same_attempt [OF assms(3) as(1) b(1)] as(2) have inc: "at_incident_id a = gc_incident_id c" by simp
  have st: "fn_status f \<noteq> AT_running" using ck by (simp add: attempt_checks_def closed_attempt_def)
  have k: "gj_incident_id j = gc_incident_id c" using find_row_SomeD [OF j] by simp
  have j1: "find_job k' db1 = find_job k' (gd_db g)" for k' using outbox_attempt_jobs [OF o] by simp
  from settle_job_find(1) [of j db1 e f key] j j1 k obtain j2 where j2: "find_job (gc_incident_id c) (settle_job e f j key db1) = Some j2"
    "gj_lease_epoch j2 = gj_lease_epoch j" "tally_ok j \<longrightarrow> tally_ok j2" by auto
  show ?thesis
  proof (rule closed [OF as(1,3)])
    show "attempt_same x (closed_attempt e f x) \<and> at_status (closed_attempt e f x) \<noteq> AT_running
      \<and> at_model_requests (closed_attempt e f x) = at_model_requests x" for x
      using st by (simp add: attempt_same_def closed_attempt_def)
    show "gd_attempts g' = put_attempt (at_attempt_id a) (closed_attempt e f) (gd_attempts g)" by (simp add: g' as(2))
    show "find_job (at_incident_id a) (gd_db g) = Some j" using j inc by simp
    show "find_job (at_incident_id a) (gd_db g') = Some (j2\<lparr>gj_lease_owner := None, gj_lease_until := None\<rparr>)"
      using j2(1) inc by (simp add: g' release_lease_def find_update_job)
    show "other_jobs (at_incident_id a) (gd_db g) (gd_db g')"
      using settle_job_find(2) [of j db1 _ e f key] j j1 k inc by (simp add: other_jobs_def g' release_lease_def find_update_job)
  qed (use j2 in \<open>simp_all add: tally_ok_def\<close>)
qed

lemma reserve_counts:
  assumes "reserve_model_request c e g = (r, g')" and "g' \<noteq> g"
  shows "\<exists>a. a \<in> set (gd_attempts g) \<and> at_attempt_id a = gc_attempt_id c \<and> at_status a = AT_running
    \<and> at_model_requests a < at_max_model_requests a \<and> gd_db g' = gd_db g \<and> r = Inr (at_model_requests a + 1)
    \<and> gd_attempts g' = put_attempt (at_attempt_id a) (\<lambda>x. x\<lparr>at_model_requests := at_model_requests x + 1\<rparr>) (gd_attempts g)"
proof -
  from assms obtain a where a: "find_row at_attempt_id (gc_attempt_id c) (gd_attempts g) = Some a" and ok: "reservable c (env_now e) a (gd_db g)"
    by (auto simp: reserve_model_request_def split: option.splits if_splits)
  with assms(1) find_attempt [OF a] show ?thesis
    by (intro exI [of _ a]) (auto simp: reserve_model_request_def reservable_def)
qed

lemma gen_transaction_snd: "snd (gen_transaction g r) = (case r of Inl err \<Rightarrow> g | Inr (x, g') \<Rightarrow> g')"
  by (auto simp: gen_transaction_def split: sum.split)

lemma generation_refines: "gen_step g g' \<Longrightarrow> distinct (map at_attempt_id (gd_attempts g)) \<Longrightarrow> gen_changes g g'"
proof (induction rule: gen_step.induct)
  case (step_claim g k owner versions budget secs e)
  then show ?case
    by (auto simp: claim_generation_def gen_transaction_snd dest: generation_claimed split: sum.split)
next
  case (step_reserve c g e)
  show ?case
  proof (cases "snd (reserve_model_request c e g) = g")
    case False
    from reserve_counts [OF prod.collapse [symmetric] False] obtain a where a: "a \<in> set (gd_attempts g)" "at_status a = AT_running"
      "at_model_requests a < at_max_model_requests a" "gd_db (snd (reserve_model_request c e g)) = gd_db g"
      "gd_attempts (snd (reserve_model_request c e g)) =
         put_attempt (at_attempt_id a) (\<lambda>x. x\<lparr>at_model_requests := at_model_requests x + 1\<rparr>) (gd_attempts g)" by blast
    have "gen_change g (snd (reserve_model_request c e g))" by (rule counted [OF _ a(1-3,5)]) (simp add: a(4))
    then show ?thesis by blast
  qed simp
next
  case (step_finish c g f e)
  then show ?case
    by (auto simp: finish_def gen_transaction_snd dest: finish_closes split: sum.split)
next
  case (step_other g g')
  then show ?case by (blast intro: kept)
qed

subsection \<open>The requests of the knowledge store keep the jobs\<close>

lemma request_regeneration_kept: "jobs_kept db (request_regeneration k v db)"
proof (cases "find_job k db")
  case None
  then show ?thesis
    by (auto simp: jobs_kept_def request_regeneration_def find_row_append unleased_def unfailed_def same_lease_def same_tally_def split: option.splits)
next
  case (Some j)
  then have "request_regeneration k v db = update_job k (\<lambda>j. j\<lparr>gj_pending_regeneration_version := Some v, gj_consecutive_failures := 0,
        gj_next_attempt_at := None, gj_last_error_code := None, gj_failure_watermark := None\<rparr>) db"
    by (simp add: request_regeneration_def update_job_def)
  then show ?thesis
    by (auto simp: jobs_kept_def find_update_job same_lease_def unfailed_def same_tally_def split: option.splits)
qed

lemma regeneration_done_kept: "jobs_kept db (regeneration_done d db)"
proof -
  have f: "find_job k (db\<lparr>db_generation_jobs := update_where P (\<lambda>j. j\<lparr>gj_pending_regeneration_version := None\<rparr>) (db_generation_jobs db)\<rparr>)
      = map_option (\<lambda>j. if P j then j\<lparr>gj_pending_regeneration_version := None\<rparr> else j) (find_job k db)" for k P
    by (simp add: find_row_update_where)
  show ?thesis unfolding regeneration_done_def
    by (auto simp only: jobs_kept_def f split: if_splits option.splits) (auto simp: same_lease_def same_tally_def)
qed

lemma audit_jobs: "review_audit e n key kind k action actor g v r reason db = Inr db' \<Longrightarrow> db_generation_jobs db' = db_generation_jobs db"
  by (auto dest: review_audit_Inr)

lemma result_jobs: "record_result e key action request r db = Inr (x, db') \<Longrightarrow> db_generation_jobs db' = db_generation_jobs db"
  by (auto dest: record_result_Inr)

lemma publish_one_jobs: "publish_one e n key actor p v gens x db = Inr (b, db') \<Longrightarrow> db_generation_jobs db' = db_generation_jobs db"
  unfolding publish_one_def Let_def proposal_entry_def
  by (auto simp: bind_result_Inr_iff insert_row_Inr_iff put_entry_def dest!: audit_jobs split: option.splits if_splits)

lemma publish_proposals_jobs: "publish_proposals e n key actor p v gens xs db = Inr (bs, db') \<Longrightarrow> db_generation_jobs db' = db_generation_jobs db"
proof (induction xs arbitrary: n db bs)
  case (Cons x xs)
  from Cons.prems obtain b db1 bs' where "publish_one e n key actor p v gens x db = Inr (b, db1)"
    "publish_proposals e (n + 2) key actor p v gens xs db1 = Inr (bs', db')" by (auto simp: bind_result_Inr_iff)
  with Cons.IH publish_one_jobs show ?case by metis
qed simp

lemma jobs_kept_cong: "db_generation_jobs a' = db_generation_jobs a \<Longrightarrow> db_generation_jobs b' = db_generation_jobs b \<Longrightarrow> jobs_kept a' b' = jobs_kept a b"
  unfolding jobs_kept_def by (simp only:)

lemma write_review_jobs:
  assumes "write_review e r h s db = Inr (bs, db')"
  shows "jobs_kept db db'"
proof -
  let ?p = "rv_postmortem_id r" and ?v = "rv_version r"
  from assms obtain db1 where au: "db_generation_jobs db1 = db_generation_jobs db"
    and x: "(let db2 = set_version ?p ?v (\<lambda>x. x\<lparr>pv_state := s, pv_stale_reason := (if rv_action r = A_mark_stale then rv_reason r else None)\<rparr>)
           (bump_postmortem ?p (rv_expected_generation r) db1);
         db3 = (if rv_action r = A_return then request_regeneration (ph_incident_id h) ?v db2 else db2) in
     if rv_action r = A_approve
     then publish_version e (rv_idempotency_key r) (rv_actor r) ?p ?v (or_old (rv_entry_generations r) []) db3
     else Inr (fmempty, db3)) = Inr (bs, db')"
    unfolding write_review_def Let_def by (auto simp: bind_result_Inr_iff dest: audit_jobs)
  have s: "db_generation_jobs (set_version ?p ?v F (bump_postmortem ?p g db1)) = db_generation_jobs db" for F g
    by (simp add: set_version_def bump_postmortem_def au)
  show ?thesis
  proof (cases "rv_action r = A_return")
    case True
    with x have "\<exists>db2. db_generation_jobs db2 = db_generation_jobs db \<and> db' = request_regeneration (ph_incident_id h) ?v db2"
      using s by (auto simp: Let_def)
    then show ?thesis using request_regeneration_kept jobs_kept_cong by (metis (full_types))
  next
    case False
    with x s have "db_generation_jobs db' = db_generation_jobs db"
      by (auto simp: Let_def publish_version_def bind_result_Inr_iff dest!: publish_proposals_jobs split: if_splits)
    then show ?thesis by simp
  qed
qed

lemma transition_jobs: "transition_in e r db = Inr (x, db') \<Longrightarrow> jobs_kept db db'"
proof -
  assume "transition_in e r db = Inr (x, db')"
  then consider "db' = db" | h s bs db1 where "write_review e r h s db = Inr (bs, db1)" "db_generation_jobs db' = db_generation_jobs db1"
    unfolding transition_in_def Let_def by (auto simp: bind_result_Inr_iff dest: result_jobs split: option.splits)
  then show ?thesis
  proof cases
    case 2
    then show ?thesis using write_review_jobs [OF 2(1)] jobs_kept_cong [OF refl 2(2)] by simp
  qed simp
qed

lemma revoke_jobs: "revoke_in e k r reason g key actor db = Inr (x, db') \<Longrightarrow> db_generation_jobs db' = db_generation_jobs db"
  unfolding revoke_in_def
  by (auto simp: bind_result_Inr_iff put_entry_def dest!: audit_jobs result_jobs split: option.splits if_splits)

lemma draft_jobs:
  assumes "record_draft_in e d db = Inr (x, db')"
  shows "jobs_kept db db'"
proof -
  from assms obtain h db0 before where en: "ensure_postmortem e (df_incident_id d) db = Inr (h, db0)"
    and rest: "(case before of Some r \<Rightarrow> Inr (r, db0)
       | None \<Rightarrow> bind_result (draft_checks e d h db0) (\<lambda>_.
           bind_result (write_draft e d h db0) (\<lambda>db1.
           bind_result (submit_draft e d h db1) (\<lambda>(g, s, db2).
           record_result e (df_idempotency_key d) ''generate'' (draft_request e d)
             (postmortem_result ''generate'' (ph_postmortem_id h) g (ph_latest_version h + 1) s fmempty) db2)))) = Inr (x, db')"
    by (auto simp: record_draft_in_def bind_result_Inr_iff split: if_splits)
  have e0: "db_generation_jobs db0 = db_generation_jobs db"
    using en by (auto simp: ensure_postmortem_def Let_def bind_result_Inr_iff split: option.splits)
  have w: "db_generation_jobs db1 = db_generation_jobs (regeneration_done d db0)" if "write_draft e d h db0 = Inr db1" for db1
    using that unfolding write_draft_def insert_parts_def Let_def
    by (auto simp: bind_result_Inr_iff dest!: audit_jobs split: if_splits)
  have s: "db_generation_jobs db2 = db_generation_jobs db1" if "submit_draft e d h db1 = Inr (g, s, db2)" for db1 db2 g s
  proof -
    have f: "fire POSTMORTEM PM_draft ''submit_for_review'' = Inr PM_under_review" by (simp add: POSTMORTEM_def machine_eval)
    show ?thesis using that unfolding submit_draft_def Let_def
      by (auto simp: bind_result_Inr_iff set_version_def bump_postmortem_def f dest!: audit_jobs split: if_splits)
  qed
  show ?thesis
  proof (cases before)
    case None
    with rest w s have "db_generation_jobs db' = db_generation_jobs (regeneration_done d db0)"
      by (auto simp: bind_result_Inr_iff dest!: result_jobs)
    then show ?thesis using regeneration_done_kept [of db0 d] by (metis jobs_kept_cong e0)
  qed (use rest e0 in simp)
qed

lemma perform_jobs: "jobs_kept db (snd (perform q e db))"
proof (cases q)
  case (Draft d)
  then show ?thesis by (cases "record_draft_in e d db") (auto simp: record_draft_def dest: draft_jobs split: option.splits)
next
  case (Review r)
  then show ?thesis by (cases "transition_in e r db") (auto simp: transition_def dest: transition_jobs split: option.splits)
next
  case (Revoke k r reason g key actor)
  then show ?thesis
    by (cases "revoke_in e k r reason g key actor db") (auto simp: revoke_def dest: revoke_jobs split: option.splits)
qed

text \<open>A request of \<open>KnowledgeStore\<close> is a step of the schedule.\<close>

lemma step_knowledge: "gen_step g (g\<lparr>gd_db := snd (perform q e (gd_db g))\<rparr>)"
  by (rule step_other) (simp_all add: perform_jobs)

end
