(* ===== verification/Generation_Safety.thy ===== *)
theory Generation_Safety
  imports Generation_Machine
begin

section \<open>What holds of generation attempts in every reachable state\<close>

text \<open>
  \<open>gen_ok\<close>: attempts have their own ids and, within an incident, their own epochs; a running attempt is that of
  the lease its job row names; budgets and failure counts are within their bounds. An attempt changes only
  while it runs (\<open>attempt_next\<close>).
\<close>

definition attempt_ok :: "gen_db \<Rightarrow> attempt_row \<Rightarrow> bool" where
  "attempt_ok g a \<longleftrightarrow> 0 \<le> at_model_requests a \<and> at_model_requests a \<le> at_max_model_requests a
     \<and> (\<exists>j. find_job (at_incident_id a) (gd_db g) = Some j \<and> at_lease_epoch a \<le> gj_lease_epoch j
        \<and> (at_status a = AT_running \<longrightarrow> gj_lease_owner j = Some (at_lease_owner a) \<and> gj_lease_epoch j = at_lease_epoch a))"

definition own_epochs :: "attempt_row list \<Rightarrow> bool" where
  "own_epochs as \<longleftrightarrow> (\<forall>a \<in> set as. \<forall>b \<in> set as. at_incident_id a = at_incident_id b \<and> at_lease_epoch a = at_lease_epoch b
     \<longrightarrow> at_attempt_id a = at_attempt_id b)"

definition gen_ok :: "gen_db \<Rightarrow> bool" where
  "gen_ok g \<longleftrightarrow> distinct (map at_attempt_id (gd_attempts g)) \<and> (\<forall>a \<in> set (gd_attempts g). attempt_ok g a)
     \<and> own_epochs (gd_attempts g)
     \<and> (\<forall>k j. find_job k (gd_db g) = Some j \<longrightarrow> tally_ok j)"

lemma put_attempt_ids: "(\<And>x. at_attempt_id (F x) = at_attempt_id x) \<Longrightarrow> map at_attempt_id (put_attempt i F as) = map at_attempt_id as"
  unfolding put_attempt_def by (rule map_update_where) simp

lemma in_put_attempt: "x \<in> set (put_attempt i F as) \<longleftrightarrow> (\<exists>y \<in> set as. x = (if at_attempt_id y = i then F y else y))"
  unfolding put_attempt_def set_update_where image_iff ..

lemma own_epochs_put:
  assumes "own_epochs as" and F: "\<And>x. at_attempt_id (F x) = at_attempt_id x \<and> at_incident_id (F x) = at_incident_id x
    \<and> at_lease_epoch (F x) = at_lease_epoch x"
  shows "own_epochs (put_attempt i F as)"
  unfolding own_epochs_def
proof (intro ballI impI)
  fix x y assume "x \<in> set (put_attempt i F as)" "y \<in> set (put_attempt i F as)"
    and e: "at_incident_id x = at_incident_id y \<and> at_lease_epoch x = at_lease_epoch y"
  then obtain x' y' where x: "x' \<in> set as" "x = (if at_attempt_id x' = i then F x' else x')"
    and y: "y' \<in> set as" "y = (if at_attempt_id y' = i then F y' else y')" unfolding in_put_attempt by blast
  have same: "at_attempt_id u = at_attempt_id u' \<and> at_incident_id u = at_incident_id u' \<and> at_lease_epoch u = at_lease_epoch u'"
    if "u = (if at_attempt_id u' = i then F u' else u')" for u u'
    using F [of u'] unfolding that by (cases "at_attempt_id u' = i") simp_all
  from same [OF x(2)] same [OF y(2)] e have "at_incident_id x' = at_incident_id y'" "at_lease_epoch x' = at_lease_epoch y'" by metis+
  then have "at_attempt_id x' = at_attempt_id y'" using assms(1) x(1) y(1) unfolding own_epochs_def by blast
  then show "at_attempt_id x = at_attempt_id y" using same [OF x(2)] same [OF y(2)] by metis
qed

lemma unfailed_ok: "unfailed j \<Longrightarrow> tally_ok j"
  by (simp add: unfailed_def tally_ok_def MAX_ATTEMPTS_PER_WATERMARK_def)

lemma kept_tally:
  assumes "jobs_kept db db'" and "\<forall>k j. find_job k db = Some j \<longrightarrow> tally_ok j" and "find_job k db' = Some j'"
  shows "tally_ok j'"
proof (cases "find_job k db")
  case None
  with assms(1,3) have "unfailed j'" unfolding jobs_kept_def by (metis (mono_tags, lifting) option.simps(4))
  then show ?thesis by (rule unfailed_ok)
next
  case (Some j)
  with assms(1,3) have "same_tally j j' \<or> unfailed j'"
    using assms(1) [unfolded jobs_kept_def, THEN spec [of _ k]] by simp
  moreover from Some assms(2) have "tally_ok j" by blast
  ultimately show ?thesis
  proof (elim disjE)
    assume "same_tally j j'"
    then have "gj_consecutive_failures j' = gj_consecutive_failures j" "gj_failure_watermark j' = gj_failure_watermark j"
      "gj_next_attempt_at j' = gj_next_attempt_at j" unfolding same_tally_def by blast+
    with \<open>tally_ok j\<close> show ?thesis unfolding tally_ok_def by simp
  qed (rule unfailed_ok)
qed

lemma kept_lease:
  assumes "jobs_kept db db'" and "find_job k db = Some j"
  shows "\<exists>j'. find_job k db' = Some j' \<and> same_lease j j'"
  using assms(1) [unfolded jobs_kept_def, THEN spec [of _ k]] assms(2) by auto

lemma kept_attempt:
  assumes "jobs_kept (gd_db g) (gd_db g')" and "attempt_ok g a"
  shows "attempt_ok g' a"
proof -
  from assms(2) obtain j where j: "find_job (at_incident_id a) (gd_db g) = Some j" "at_lease_epoch a \<le> gj_lease_epoch j"
    "at_status a = AT_running \<longrightarrow> gj_lease_owner j = Some (at_lease_owner a) \<and> gj_lease_epoch j = at_lease_epoch a"
    by (auto simp: attempt_ok_def)
  from kept_lease [OF assms(1) j(1)] obtain j' where "find_job (at_incident_id a) (gd_db g') = Some j'" "same_lease j j'" by blast
  with j assms(2) show ?thesis by (simp add: attempt_ok_def same_lease_def)
qed

lemma other_attempt:
  assumes "other_jobs k (gd_db g) (gd_db g')" and "attempt_ok g a" and "at_incident_id a \<noteq> k"
  shows "attempt_ok g' a"
  using assms by (auto simp: attempt_ok_def other_jobs_def)

text \<open>An attempt of the incident whose job row moved: it no longer runs.\<close>

lemma moved_attempt:
  assumes "attempt_ok g a" and "find_job (at_incident_id a) (gd_db g) = Some j" and "find_job (at_incident_id a) (gd_db g') = Some j'"
    and "gj_lease_epoch j \<le> gj_lease_epoch j'" and "at_status a \<noteq> AT_running"
  shows "attempt_ok g' a"
  using assms by (auto simp: attempt_ok_def)

lemma other_tally:
  assumes "other_jobs k (gd_db g) (gd_db g')" and "find_job k (gd_db g) = Some j" and "find_job k (gd_db g') = Some j'"
    and "tally_ok j \<Longrightarrow> tally_ok j'" and "\<forall>k j. find_job k (gd_db g) = Some j \<longrightarrow> tally_ok j"
  shows "\<forall>k j. find_job k (gd_db g') = Some j \<longrightarrow> tally_ok j"
  using assms by (metis option.inject other_jobs_def)

lemma none_running: "running_of k as = [] \<Longrightarrow> a \<in> set as \<Longrightarrow> at_incident_id a = k \<Longrightarrow> at_status a \<noteq> AT_running"
  by (auto simp: running_of_def filter_empty_conv)

lemma gen_okD:
  assumes "gen_ok g"
  shows "distinct (map at_attempt_id (gd_attempts g))" and "a \<in> set (gd_attempts g) \<Longrightarrow> attempt_ok g a"
    and "a \<in> set (gd_attempts g) \<Longrightarrow> b \<in> set (gd_attempts g) \<Longrightarrow> at_incident_id a = at_incident_id b \<Longrightarrow>
      at_lease_epoch a = at_lease_epoch b \<Longrightarrow> a = b"
    and "\<forall>k j. find_job k (gd_db g) = Some j \<longrightarrow> tally_ok j"
  using assms unfolding gen_ok_def own_epochs_def by (blast, blast, metis same_attempt, blast)

lemma gen_okI:
  "distinct (map at_attempt_id (gd_attempts g)) \<Longrightarrow> (\<And>a. a \<in> set (gd_attempts g) \<Longrightarrow> attempt_ok g a) \<Longrightarrow> own_epochs (gd_attempts g) \<Longrightarrow>
   (\<forall>k j. find_job k (gd_db g) = Some j \<longrightarrow> tally_ok j) \<Longrightarrow> gen_ok g"
  by (simp add: gen_ok_def)

lemma gen_ok_epochs: "gen_ok g \<Longrightarrow> own_epochs (gd_attempts g)"
  by (simp add: gen_ok_def)

text \<open>After a change of some rows of the table.\<close>

lemma gen_ok_put:
  assumes ok: "gen_ok g" and g': "gd_attempts g' = put_attempt i F (gd_attempts g)"
    and F: "\<And>x. at_attempt_id (F x) = at_attempt_id x \<and> at_incident_id (F x) = at_incident_id x \<and> at_lease_epoch (F x) = at_lease_epoch x"
    and each: "\<And>y. y \<in> set (gd_attempts g) \<Longrightarrow> attempt_ok g' (if at_attempt_id y = i then F y else y)"
    and tally: "\<forall>k j. find_job k (gd_db g') = Some j \<longrightarrow> tally_ok j"
  shows "gen_ok g'"
proof (rule gen_okI [OF _ _ _ tally])
  have "map at_attempt_id (gd_attempts g') = map at_attempt_id (gd_attempts g)" unfolding g' by (rule put_attempt_ids) (simp add: F)
  with gen_okD(1) [OF ok] show "distinct (map at_attempt_id (gd_attempts g'))" by simp
  show "own_epochs (gd_attempts g')" unfolding g' by (rule own_epochs_put [OF gen_ok_epochs [OF ok]]) (simp add: F)
  show "attempt_ok g' a" if a: "a \<in> set (gd_attempts g')" for a
  proof -
    from a obtain y where "y \<in> set (gd_attempts g)" "a = (if at_attempt_id y = i then F y else y)"
      unfolding g' in_put_attempt by blast
    with each show ?thesis by blast
  qed
qed

lemma one_running:
  assumes "gen_ok g" and "a \<in> set (gd_attempts g)" "at_status a = AT_running" and "b \<in> set (gd_attempts g)" "at_status b = AT_running"
    and "at_incident_id a = at_incident_id b"
  shows "a = b"
proof -
  from gen_okD(2) [OF assms(1,2)] gen_okD(2) [OF assms(1,4)] assms(3,5,6) have "at_lease_epoch a = at_lease_epoch b"
    by (auto simp: attempt_ok_def)
  with gen_okD(3) [OF assms(1,2,4)] assms(6) show ?thesis by blast
qed

lemma gen_ok_opened:
  assumes ok: "gen_ok g" and j: "find_job k (gd_db g) = Some j" "find_job k (gd_db g') = Some j'" "other_jobs k (gd_db g) (gd_db g')"
    and e: "gj_lease_epoch j' = gj_lease_epoch j + 1" "gj_lease_owner j' = Some (at_lease_owner a)" and t: "tally_ok j \<Longrightarrow> tally_ok j'"
    and n: "running_of k (gd_attempts g) = []" and a: "at_incident_id a = k" "at_lease_epoch a = gj_lease_epoch j + 1"
      "at_model_requests a = 0" "0 < at_max_model_requests a" "at_attempt_id a \<notin> at_attempt_id ` set (gd_attempts g)"
    and g': "gd_attempts g' = gd_attempts g @ [a]"
  shows "gen_ok g'"
proof (rule gen_okI)
  have le: "at_lease_epoch b \<le> gj_lease_epoch j" if "b \<in> set (gd_attempts g)" "at_incident_id b = k" for b
    using gen_okD(2) [OF ok that(1)] that(2) j(1) by (auto simp: attempt_ok_def)
  have old: "attempt_ok g' b" if b: "b \<in> set (gd_attempts g)" for b
  proof (cases "at_incident_id b = k")
    case True
    show ?thesis by (rule moved_attempt [where j = j and j' = j', OF gen_okD(2) [OF ok b]]) (use True j e none_running [OF n b True] in simp_all)
  next
    case False
    show ?thesis by (rule other_attempt [OF j(3) gen_okD(2) [OF ok b] False])
  qed
  have new: "attempt_ok g' a" using a j(2) e by (simp add: attempt_ok_def)
  show "attempt_ok g' b" if "b \<in> set (gd_attempts g')" for b using that old new by (auto simp: g')
  show "distinct (map at_attempt_id (gd_attempts g'))" using gen_okD(1) [OF ok] a(5) by (simp add: g')
  have sep: "at_lease_epoch b \<noteq> at_lease_epoch a" if "b \<in> set (gd_attempts g)" "at_incident_id b = at_incident_id a" for b
    using le [OF that(1)] that(2) a(1,2) by simp
  show "own_epochs (gd_attempts g')" unfolding own_epochs_def
  proof (intro ballI impI)
    fix x y assume xy: "x \<in> set (gd_attempts g')" "y \<in> set (gd_attempts g')"
      and e: "at_incident_id x = at_incident_id y \<and> at_lease_epoch x = at_lease_epoch y"
    then consider "x \<in> set (gd_attempts g)" "y \<in> set (gd_attempts g)" | "x = a" "y = a"
      | "x \<in> set (gd_attempts g)" "y = a" | "x = a" "y \<in> set (gd_attempts g)" by (auto simp: g')
    then show "at_attempt_id x = at_attempt_id y"
    proof cases
      case 1
      with e gen_okD(3) [OF ok] show ?thesis by blast
    next
      case 3
      with e sep [of x] show ?thesis by simp
    next
      case 4
      with e sep [of y] show ?thesis by simp
    qed simp
  qed
  show "\<forall>k j. find_job k (gd_db g') = Some j \<longrightarrow> tally_ok j" by (rule other_tally [OF j(3,1,2) t gen_okD(4) [OF ok]])
qed

lemma gen_ok_closed:
  assumes ok: "gen_ok g" and a: "a \<in> set (gd_attempts g)" "at_status a = AT_running"
    and F: "\<And>x. attempt_same x (F x) \<and> at_status (F x) \<noteq> AT_running \<and> at_model_requests (F x) = at_model_requests x"
    and g': "gd_attempts g' = put_attempt (at_attempt_id a) F (gd_attempts g)"
    and j: "find_job (at_incident_id a) (gd_db g) = Some j" "find_job (at_incident_id a) (gd_db g') = Some j'"
      "other_jobs (at_incident_id a) (gd_db g) (gd_db g')" "gj_lease_epoch j' = gj_lease_epoch j" and t: "tally_ok j \<Longrightarrow> tally_ok j'"
  shows "gen_ok g'"
proof (rule gen_ok_put [OF ok g'])
  show "at_attempt_id (F x) = at_attempt_id x \<and> at_incident_id (F x) = at_incident_id x \<and> at_lease_epoch (F x) = at_lease_epoch x" for x
    using F [of x] by (simp add: attempt_same_def)
  show "\<forall>k j. find_job k (gd_db g') = Some j \<longrightarrow> tally_ok j" by (rule other_tally [OF j(3,1,2) t gen_okD(4) [OF ok]])
  fix y assume y: "y \<in> set (gd_attempts g)"
  show "attempt_ok g' (if at_attempt_id y = at_attempt_id a then F y else y)"
  proof (cases "at_attempt_id y = at_attempt_id a")
    case True
    with same_attempt [OF gen_okD(1) [OF ok] y a(1)] have ya: "y = a" by blast
    from gen_okD(2) [OF ok y] F [of a] j show ?thesis unfolding ya by (auto simp: attempt_ok_def attempt_same_def)
  next
    case False
    have "attempt_ok g' y"
    proof (cases "at_incident_id y = at_incident_id a")
      case True
      with False one_running [OF ok y _ a] have "at_status y \<noteq> AT_running" by blast
      then show ?thesis by (intro moved_attempt [where j = j and j' = j', OF gen_okD(2) [OF ok y]]) (use True j in simp_all)
    next
      case False
      show ?thesis by (rule other_attempt [OF j(3) gen_okD(2) [OF ok y] False])
    qed
    with False show ?thesis by simp
  qed
qed

lemma gen_ok_change:
  assumes "gen_change g g'" and ok: "gen_ok g"
  shows "gen_ok g'"
  using assms(1)
proof cases
  case kept
  show ?thesis
  proof (rule gen_okI)
    show "\<forall>k j. find_job k (gd_db g') = Some j \<longrightarrow> tally_ok j" using kept_tally [OF kept(1) gen_okD(4) [OF ok]] by blast
    show "attempt_ok g' a" if "a \<in> set (gd_attempts g')" for a
      using that kept_attempt [OF kept(1) gen_okD(2) [OF ok]] kept(2) by simp
  qed (use kept(2) gen_okD(1) [OF ok] gen_ok_epochs [OF ok] in simp_all)
next
  case (released k j j')
  show ?thesis
  proof (rule gen_okI)
    show "\<forall>k j. find_job k (gd_db g') = Some j \<longrightarrow> tally_ok j"
      by (rule other_tally [OF released(3,1,2,5) gen_okD(4) [OF ok]])
    fix a assume "a \<in> set (gd_attempts g')"
    then have a: "a \<in> set (gd_attempts g)" using released(7) by simp
    show "attempt_ok g' a"
    proof (cases "at_incident_id a = k")
      case True
      show ?thesis
        by (rule moved_attempt [where j = j and j' = j', OF gen_okD(2) [OF ok a]]) (use True released(1,2,4) none_running [OF released(6) a True] in simp_all)
    next
      case False
      show ?thesis by (rule other_attempt [OF released(3) gen_okD(2) [OF ok a] False])
    qed
  qed (use released(7) gen_okD(1) [OF ok] gen_ok_epochs [OF ok] in simp_all)
next
  case (opened k j j' a)
  show ?thesis by (rule gen_ok_opened [OF ok opened(1-9,11-14)])
next
  case (counted a)
  show ?thesis
  proof (rule gen_ok_put [OF ok counted(5)])
    show "\<forall>k j. find_job k (gd_db g') = Some j \<longrightarrow> tally_ok j" using kept_tally [OF counted(1) gen_okD(4) [OF ok]] by blast
    fix y assume y: "y \<in> set (gd_attempts g)"
    note k = kept_attempt [OF counted(1) gen_okD(2) [OF ok y]]
    show "attempt_ok g' (if at_attempt_id y = at_attempt_id a then y\<lparr>at_model_requests := at_model_requests y + 1\<rparr> else y)"
    proof (cases "at_attempt_id y = at_attempt_id a")
      case True
      with same_attempt [OF gen_okD(1) [OF ok] y counted(2)] have "y = a" by blast
      with k counted(4) show ?thesis by (simp add: attempt_ok_def)
    qed (use k in simp)
  qed simp
next
  case (closed a F j j')
  show ?thesis by (rule gen_ok_closed [OF ok closed])
qed

lemma gen_ok_changes: "gen_changes g g' \<Longrightarrow> gen_ok g \<Longrightarrow> gen_ok g'"
  by (induction rule: rtranclp_induct) (blast intro: gen_ok_change)+

lemma gen_steps_changes: "gen_steps g g' \<Longrightarrow> gen_ok g \<Longrightarrow> gen_changes g g' \<and> gen_ok g'"
proof (induction rule: rtranclp_induct)
  case (step y z)
  then have "gen_changes y z" using generation_refines gen_okD(1) by blast
  with step show ?case using gen_ok_changes by (meson rtranclp_trans)
qed simp

definition initial_gen :: gen_db where
  "initial_gen = \<lparr>gd_db = initial_db, gd_attempts = []\<rparr>"

definition gen_reachable :: "gen_db \<Rightarrow> bool" where
  "gen_reachable g \<longleftrightarrow> gen_steps initial_gen g"

lemma initial_gen_ok: "gen_ok initial_gen"
  by (simp add: initial_gen_def gen_ok_def initial_db_def own_epochs_def)

lemma gen_reachable_ok: "gen_reachable g \<Longrightarrow> gen_ok g"
  unfolding gen_reachable_def using gen_steps_changes initial_gen_ok by blast

subsection \<open>Closed attempts and held leases\<close>

text \<open>An attempt stays, keeps what it is, and once closed keeps everything.\<close>

definition attempt_next :: "attempt_row \<Rightarrow> attempt_row \<Rightarrow> bool" where
  "attempt_next a b \<longleftrightarrow> attempt_same a b \<and> (at_status a \<noteq> AT_running \<longrightarrow> b = a)"

lemma attempt_next_trans: "attempt_next a b \<Longrightarrow> attempt_next b c \<Longrightarrow> attempt_next a c"
  by (auto simp: attempt_next_def attempt_same_def)

lemma attempt_next_refl [simp]: "attempt_next a a"
  by (simp add: attempt_next_def attempt_same_def)

lemma attempt_change:
  assumes "gen_change g g'" and ok: "gen_ok g" and a: "a \<in> set (gd_attempts g)"
  shows "\<exists>b \<in> set (gd_attempts g'). attempt_next a b"
  using assms(1)
proof cases
  case (counted x)
  show ?thesis
  proof (cases "at_attempt_id a = at_attempt_id x")
    case True
    with same_attempt [OF gen_okD(1) [OF ok] a counted(2)] counted(3)
    have "attempt_next a (a\<lparr>at_model_requests := at_model_requests a + 1\<rparr>)" by (simp add: attempt_next_def attempt_same_def)
    moreover have "a\<lparr>at_model_requests := at_model_requests a + 1\<rparr> \<in> set (gd_attempts g')"
      unfolding counted(5) in_put_attempt using a True by (intro bexI [of _ a]) simp_all
    ultimately show ?thesis by blast
  next
    case False
    have "a \<in> set (gd_attempts g')" unfolding counted(5) in_put_attempt using a False by (intro bexI [of _ a]) simp_all
    then show ?thesis using attempt_next_refl by blast
  qed
next
  case (closed x F j j')
  show ?thesis
  proof (cases "at_attempt_id a = at_attempt_id x")
    case True
    with same_attempt [OF gen_okD(1) [OF ok] a closed(1)] closed(2) have "at_status a = AT_running" by blast
    with closed(3) [of a] have "attempt_next a (F a)" by (simp add: attempt_next_def)
    moreover have "F a \<in> set (gd_attempts g')" unfolding closed(4) in_put_attempt using a True by (intro bexI [of _ a]) simp_all
    ultimately show ?thesis by blast
  next
    case False
    have "a \<in> set (gd_attempts g')" unfolding closed(4) in_put_attempt using a False by (intro bexI [of _ a]) simp_all
    then show ?thesis using attempt_next_refl by blast
  qed
qed (use a in \<open>auto intro: bexI [of _ a]\<close>)

lemma attempt_changes: "gen_changes g g' \<Longrightarrow> gen_ok g \<Longrightarrow> a \<in> set (gd_attempts g) \<Longrightarrow> \<exists>b \<in> set (gd_attempts g'). attempt_next a b"
proof (induction rule: rtranclp_induct)
  case (step y z)
  then obtain b where "b \<in> set (gd_attempts y)" "attempt_next a b" by blast
  moreover have "gen_ok y" using gen_ok_changes step.hyps(1) step.prems(1) by blast
  ultimately show ?case using attempt_change [OF step.hyps(2)] attempt_next_trans by blast
qed (use attempt_next_refl in blast)

text \<open>While the attempt of a claim runs, its lease stands until the same time.\<close>

definition lease_stands :: "uuid \<Rightarrow> uuid \<Rightarrow> time \<Rightarrow> gen_db \<Rightarrow> bool" where
  "lease_stands k i t g \<longleftrightarrow> (\<exists>a \<in> set (gd_attempts g). at_attempt_id a = i \<and> at_incident_id a = k
     \<and> (at_status a = AT_running \<longrightarrow> map_option gj_lease_until (find_job k (gd_db g)) = Some (Some t)))"

lemma lease_stands_change:
  assumes "gen_change g g'" and ok: "gen_ok g" and s: "lease_stands k i t g"
  shows "lease_stands k i t g'"
proof -
  from s obtain a where a: "a \<in> set (gd_attempts g)" "at_attempt_id a = i" "at_incident_id a = k"
    and r: "at_status a = AT_running \<longrightarrow> map_option gj_lease_until (find_job k (gd_db g)) = Some (Some t)" by (auto simp: lease_stands_def)
  from attempt_change [OF assms(1) ok a(1)] obtain b where b: "b \<in> set (gd_attempts g')" "attempt_next a b" by blast
  have bid: "at_attempt_id b = i" "at_incident_id b = k" using b(2) a by (simp_all add: attempt_next_def attempt_same_def)
  have "map_option gj_lease_until (find_job k (gd_db g')) = Some (Some t)" if run: "at_status b = AT_running"
  proof -
    have ar: "at_status a = AT_running" using b(2) run by (auto simp: attempt_next_def)
    with r obtain j where j: "find_job k (gd_db g) = Some j" "gj_lease_until j = Some t" by auto
    have kj: "map_option gj_lease_until (find_job k (gd_db g')) = Some (Some t)" if "jobs_kept (gd_db g) (gd_db g')"
      using kept_lease [OF that j(1)] j(2) by (auto simp: same_lease_def)
    have none: "running_of k (gd_attempts g) \<noteq> []" using a ar by (auto simp: running_of_def filter_empty_conv)
    have oj: "map_option gj_lease_until (find_job k (gd_db g')) = Some (Some t)" if "other_jobs k' (gd_db g) (gd_db g')" "k' \<noteq> k" for k'
      using that j by (simp add: other_jobs_def)
    from assms(1) show ?thesis
    proof cases
      case (closed x F j1 j2)
      show ?thesis
      proof (cases "at_incident_id x = k")
        case True
        with one_running [OF ok closed(1,2) a(1) ar] a(3) have "x = a" by simp
        have "at_attempt_id y \<noteq> i \<or> at_status y \<noteq> AT_running" if "y \<in> set (gd_attempts g')" for y
        proof -
          from that obtain z where z: "y = (if at_attempt_id z = at_attempt_id x then F z else z)"
            unfolding closed(4) in_put_attempt by blast
          show ?thesis using closed(3) [of z] a(2) \<open>x = a\<close> by (cases "at_attempt_id z = i") (simp_all add: z)
        qed
        with b(1) bid run show ?thesis by blast
      qed (use oj [OF closed(7)] in simp)
    qed (use kj none oj in auto)
  qed
  with b(1) bid show ?thesis by (auto simp: lease_stands_def)
qed

lemma lease_stands_changes: "gen_changes g g' \<Longrightarrow> gen_ok g \<Longrightarrow> lease_stands k i t g \<Longrightarrow> lease_stands k i t g'"
proof (induction rule: rtranclp_induct)
  case (step y z)
  then show ?case using lease_stands_change gen_ok_changes by blast
qed simp

end
