(* ===== verification/Generation_Properties.thy ===== *)
theory Generation_Properties
  imports Generation_Safety Knowledge_Examples
begin

section \<open>Properties of the generation schedule\<close>

text \<open>
  One generation runs per incident under a lease that nobody else can take while it lasts; a closed attempt is
  final; requests and failures are bounded; an incident whose observation ended is claimed when it is due, and
  three failures at one watermark stop it until the watermark moves.
\<close>

subsection \<open>A claimed incident\<close>

text \<open>The incident of \<open>Observation_Examples\<close> with its Run completed, and the claim of a worker on it.\<close>

definition gen_start :: gen_db where
  "gen_start = \<lparr>gd_db = confirmed_db\<lparr>db_runs := [accepted_run\<lparr>rr_state := R_completed\<rparr>]\<rparr>, gd_attempts = []\<rparr>"

definition gen_versions :: "(string, string) fmap" where
  "gen_versions = fmap_of_list [(''model'', ''m''), (''model_profile'', ''p''), (''prompt_version'', ''v1''),
     (''output_schema_version'', ''s1''), (''input_policy_version'', ''i1'')]"

definition gen_claim :: Claim where
  "gen_claim = \<lparr>gc_attempt_id = 600, gc_incident_id = 1, gc_owner = 7, gc_epoch = 1, gc_max_model_requests = 2, gc_revises_version = None\<rparr>"

definition gen_claimed :: gen_db where
  "gen_claimed = snd (claim_generation 1 7 gen_versions 2 900 (watch_env 130000000 600) gen_start)"

lemma start_reachable: "gen_reachable gen_start"
proof -
  have "gen_step initial_gen gen_start"
    by (rule step_other) (simp_all add: initial_gen_def gen_start_def initial_db_def confirmed_db_def watch_db_def opened_db_eq registered_db_eq)
  then show ?thesis unfolding gen_reachable_def by blast
qed

lemma gen_claimed_reachable: "gen_reachable gen_claimed"
  using start_reachable gen_step.step_claim unfolding gen_reachable_def gen_claimed_def by (meson rtranclp.rtrancl_into_rtrancl)

lemma gen_start_fields [simp]:
  "db_incidents (gd_db gen_start) = [watched L_resolved 1 1]" "db_runs (gd_db gen_start) = [accepted_run\<lparr>rr_state := R_completed\<rparr>]"
  "db_sessions (gd_db gen_start) = [completed_session]" "db_endings (gd_db gen_start) = [confirmed_ending]"
  "db_generation_jobs (gd_db gen_start) = []" "db_postmortems (gd_db gen_start) = []" "db_postmortem_versions (gd_db gen_start) = []"
  "db_inputs (gd_db gen_start) = []" "gd_attempts gen_start = []"
  by (simp_all add: gen_start_def confirmed_db_def watch_db_def opened_db_eq registered_db_eq initial_db_def)

subsection \<open>When a claim is given\<close>

lemma ended_observations_cong:
  "db_sessions db' = db_sessions db \<Longrightarrow> db_endings db' = db_endings db \<Longrightarrow> ended_observations i db' = ended_observations i db"
  unfolding ended_observations_def by (simp only:)

lemma ended_ensure [simp]: "ended_observations i (db\<lparr>db_generation_jobs := js\<rparr>) = ended_observations i db"
  by (rule ended_observations_cong) simp_all

lemma backing_off_later: "t \<le> t' \<Longrightarrow> backing_off t' i j db \<Longrightarrow> backing_off t i j db"
  by (auto simp: backing_off_def split: option.splits)

lemma later_candidate:
  assumes "t \<le> t'" and "is_candidate t policy i g"
  shows "is_candidate t' policy i g"
proof -
  have "case x of None \<Rightarrow> True | Some u \<Rightarrow> u \<le> t'" if "case x of None \<Rightarrow> True | Some u \<Rightarrow> u \<le> t" for x :: "time option"
    using that assms(1) by (cases x) simp_all
  with backing_off_later [OF assms(1)] assms(2) show ?thesis unfolding is_candidate_def Let_def by blast
qed

lemma ensure_candidate:
  assumes "ensure_job k (gd_db g) = Inr db0" and "ir_incident_id i = k"
  shows "is_candidate t policy i (g\<lparr>gd_db := db0\<rparr>) = is_candidate t policy i g"
proof (cases "find_job k (gd_db g)")
  case None
  define j where "j = \<lparr>gj_incident_id = k, gj_lease_owner = None, gj_lease_epoch = 0,
       gj_lease_until = None, gj_pending_regeneration_version = None, gj_failure_watermark = None, gj_consecutive_failures = 0,
       gj_next_attempt_at = None, gj_last_error_code = None\<rparr>"
  from None assms(1) have db0: "db0 = (gd_db g)\<lparr>db_generation_jobs := db_generation_jobs (gd_db g) @ [j]\<rparr>"
    by (simp add: ensure_job_def j_def split: if_splits)
  have f: "find_job k db0 = Some j" using None by (simp add: db0 find_row_append j_def)
  have p: "produced i p db0 = produced i p (gd_db g)" for p by (simp add: produced_def db0 run_count_def last_input_def)
  have b: "backing_off t i (Some j) db0 = backing_off t i None (gd_db g)" by (simp add: backing_off_def j_def)
  have c: "capped policy i (Some j) (g\<lparr>gd_db := db0\<rparr>) = capped policy i None g"
    by (simp add: capped_def j_def MAX_ATTEMPTS_PER_WATERMARK_def)
  have d: "db_sessions db0 = db_sessions (gd_db g)" "db_runs db0 = db_runs (gd_db g)" "db_postmortems db0 = db_postmortems (gd_db g)"
    "db_postmortem_versions db0 = db_postmortem_versions (gd_db g)" by (simp_all add: db0)
  have g0: "gd_db (g\<lparr>gd_db := db0\<rparr>) = db0" by simp
  show ?thesis unfolding is_candidate_def Let_def assms(2) g0 f None p b c d by (simp add: j_def pending_of_def)
qed (use assms in \<open>auto simp: ensure_job_def\<close>)

lemma candidate_in:
  assumes "k \<in> fst ` set (candidate_rows t policy only limit g)"
  shows "\<exists>i \<in> set (db_incidents (gd_db g)). ir_incident_id i = k \<and> is_candidate t policy i g \<and> ended_observations i (gd_db g) \<noteq> []
    \<and> (only = None \<or> only = Some k)"
proof -
  from assms obtain p where k: "k = fst p" and p: "p \<in> set (candidate_rows t policy only limit g)" by blast
  have "p \<in> set [(ir_incident_id i, en_recorded_at en). i \<leftarrow> db_incidents (gd_db g), is_candidate t policy i g
          \<and> (case only of None \<Rightarrow> True | Some k \<Rightarrow> ir_incident_id i = k), (s, en) \<leftarrow> ended_observations i (gd_db g)]"
    using in_set_takeD [OF p [unfolded candidate_rows_def]] by (simp only: set_sort)
  then obtain i where i: "i \<in> set (db_incidents (gd_db g))" and pi: "p \<in> set (if is_candidate t policy i g
          \<and> (case only of None \<Rightarrow> True | Some k \<Rightarrow> ir_incident_id i = k) then map (\<lambda>(s, en). (ir_incident_id i, en_recorded_at en)) (ended_observations i (gd_db g)) else [])"
    by (auto simp only: set_concat set_map UN_iff image_iff)
  then have c: "is_candidate t policy i g" "case only of None \<Rightarrow> True | Some k \<Rightarrow> ir_incident_id i = k"
    and m: "p \<in> set (map (\<lambda>(s, en). (ir_incident_id i, en_recorded_at en)) (ended_observations i (gd_db g)))" by (auto simp only: list.set empty_iff split: if_splits)
  from m have "fst p = ir_incident_id i" "ended_observations i (gd_db g) \<noteq> []" by auto
  with i c k show ?thesis by (intro bexI [of _ i]) (cases only; simp)+
qed

lemma sort_nonempty: "xs \<noteq> [] \<Longrightarrow> sort_key f xs \<noteq> []"
  by (metis length_0_conv length_sort)

lemma candidate_found:
  assumes "i \<in> set (db_incidents (gd_db g))" "ir_incident_id i = k" "is_candidate t policy i g" "ended_observations i (gd_db g) \<noteq> []"
  shows "candidate_rows t policy (Some k) 1 g \<noteq> []"
proof -
  let ?L = "[(ir_incident_id i, en_recorded_at en). i \<leftarrow> db_incidents (gd_db g), is_candidate t policy i g
      \<and> (case Some k of None \<Rightarrow> True | Some k \<Rightarrow> ir_incident_id i = k), (s, en) \<leftarrow> ended_observations i (gd_db g)]"
  have "?L \<noteq> []"
  proof
    assume e: "?L = []"
    from e [unfolded concat_eq_Nil_conv set_map ball_simps, rule_format, OF imageI [OF assms(1)]] assms(2-4)
    show False by (simp add: concat_eq_Nil_conv)
  qed
  from sort_nonempty [OF this, of "\<lambda>(k, t). (t, k)"] show ?thesis unfolding candidate_rows_def take_eq_Nil by (simp only: one_neq_zero simp_thms)
qed

lemma claim_due:
  assumes "ensure_job k (gd_db g) = Inr db0" and "find_job k db0 = Some j" and "\<not> (\<exists>t. gj_lease_until j = Some t \<and> env_now e < t)"
    and "running_of k (gd_attempts g) = []"
  shows "claim_generation_in e k owner versions budget secs g =
    (if candidate_rows (env_later e) (policy_of versions) (Some k) 1 (g\<lparr>gd_db := db0\<rparr>) = []
     then Inr (None, g\<lparr>gd_db := release_lease k db0\<rparr>) else open_attempt e j owner versions budget secs (g\<lparr>gd_db := db0\<rparr>))"
proof -
  have "\<not> (case gj_lease_until j of None \<Rightarrow> False | Some t \<Rightarrow> env_now e < t)" using assms(3) by (auto split: option.splits)
  then show ?thesis by (simp add: claim_generation_in_def assms)
qed

lemma current_watermark_ended:
  assumes "find_incident k db = Some i" and "ended_observations i db \<noteq> []"
  shows "\<exists>w. current_watermark e k db = Inr w"
  using assms by (auto simp: current_watermark_def split: list.splits)

lemma fresh_count_db [simp]: "db_incidents (fresh_count j db) = db_incidents db" "ended_observations i (fresh_count j db) = ended_observations i db"
  by (auto simp: fresh_count_def intro: ended_observations_cong)

lemma due_claimed:
  assumes "k \<in> set (candidates limit (policy_of versions) e0 g)" and "running_of k (gd_attempts g) = []"
    and "distinct (map ir_incident_id (db_incidents (gd_db g)))" and "env_now e0 \<le> env_now e" "env_now e \<le> env_later e"
    and "{''model'', ''model_profile'', ''prompt_version'', ''output_schema_version'', ''input_policy_version''} \<subseteq> fset (fmdom versions)"
    and "0 < budget" and "env_uuid4 e 0 \<notin> at_attempt_id ` set (gd_attempts g)"
  shows "\<exists>c g' a j. claim_generation k owner versions budget secs e g = (Inr (Some c), g') \<and> gc_incident_id c = k \<and> gc_owner c = owner
    \<and> gc_max_model_requests c = budget \<and> gd_attempts g' = gd_attempts g @ [a] \<and> at_attempt_id a = gc_attempt_id c
    \<and> at_incident_id a = k \<and> at_lease_owner a = owner \<and> at_lease_epoch a = gc_epoch c \<and> at_max_model_requests a = budget
    \<and> at_status a = AT_running \<and> find_job k (gd_db g') = Some j \<and> gj_lease_owner j = Some owner \<and> gj_lease_epoch j = gc_epoch c
    \<and> gj_lease_until j = Some (env_later e + seconds secs)
    \<and> gc_epoch c = (case find_job k (gd_db g) of None \<Rightarrow> 0 | Some j0 \<Rightarrow> gj_lease_epoch j0) + 1"
proof -
  from assms(1) candidate_in [of k "env_now e0" "policy_of versions" None limit g] obtain i where i: "i \<in> set (db_incidents (gd_db g))"
    "ir_incident_id i = k" "is_candidate (env_now e0) (policy_of versions) i g" "ended_observations i (gd_db g) \<noteq> []"
    by (auto simp: candidates_def)
  have fi: "find_incident k (gd_db g) = Some i" using find_row_distinct [OF assms(3) i(1)] i(2) by simp
  then obtain db0 where db0: "ensure_job k (gd_db g) = Inr db0" by (cases "find_job k (gd_db g)") (auto simp: ensure_job_def)
  have e0: "jobs_kept (gd_db g) db0" "find_job k db0 \<noteq> None" "db_incidents db0 = db_incidents (gd_db g)" using ensure_job_kept [OF db0] by simp_all
  then obtain j where j: "find_job k db0 = Some j" by blast
  have ended: "ended_observations i db0 = ended_observations i (gd_db g)" using db0 by (auto simp: ensure_job_def split: if_splits)
  have cand: "is_candidate t (policy_of versions) i (g\<lparr>gd_db := db0\<rparr>)" if "env_now e0 \<le> t" for t
    using ensure_candidate [OF db0 i(2)] later_candidate [OF that i(3)] by simp
  have lease: "\<not> (\<exists>t. gj_lease_until j = Some t \<and> env_now e < t)"
    using cand [OF assms(4)] j i(2) by (auto simp: is_candidate_def Let_def)
  have "candidate_rows (env_later e) (policy_of versions) (Some k) 1 (g\<lparr>gd_db := db0\<rparr>) \<noteq> []"
    by (rule candidate_found [of i]) (use i e0(3) ended cand assms(4,5) in auto)
  then have c: "claim_generation_in e k owner versions budget secs g = open_attempt e j owner versions budget secs (g\<lparr>gd_db := db0\<rparr>)"
    by (simp add: claim_due [OF db0 j lease assms(2)])
  have jk: "gj_incident_id j = k" using find_row_SomeD [OF j] by simp
  obtain w where w: "current_watermark e k (fresh_count j db0) = Inr w"
    using current_watermark_ended [of k "fresh_count j db0" i] fi i(4) e0(3) ended by auto
  from assms(6) obtain a where a: "new_attempt e j owner versions budget w = Some a"
    by (auto simp: new_attempt_def fmdom_notI fmlookup_dom_iff dest!: fmdomE)
  then have at: "at_attempt_id a = env_uuid4 e 0" "at_max_model_requests a = budget" "at_incident_id a = k"
    by (auto simp: new_attempt_def jk split: option.splits)
  have "insert_attempt a (gd_attempts g) = Inr (gd_attempts g @ [a])"
    using at assms(2,7,8) by (simp add: insert_attempt_def insert_row_def)
  then obtain r g' where o: "open_attempt e j owner versions budget secs (g\<lparr>gd_db := db0\<rparr>) = Inr (r, g')"
    using w a jk by (simp add: open_attempt_def Let_def)
  have "find_job (gj_incident_id j) (gd_db (g\<lparr>gd_db := db0\<rparr>)) = Some j" "running_of (gj_incident_id j) (gd_attempts (g\<lparr>gd_db := db0\<rparr>)) = []"
    using j jk assms(2) by simp_all
  from open_attempt_opens [OF o this, THEN conjunct2, unfolded jk] obtain c' a' j' where "r = Some c'" "gd_attempts g' = gd_attempts g @ [a']" "at_status a' = AT_running"
    "at_attempt_id a' = gc_attempt_id c'" "at_incident_id a' = k" "at_lease_owner a' = owner" "at_lease_epoch a' = gc_epoch c'" "at_max_model_requests a' = gc_max_model_requests c'" "gc_incident_id c' = k" "gc_owner c' = owner" "gc_max_model_requests c' = budget"
    "find_job k (gd_db g') = Some j'" "gj_lease_until j' = Some (env_later e + seconds secs)" "gj_lease_owner j' = Some owner"
    "gj_lease_epoch j' = gc_epoch c'" "gc_epoch c' = gj_lease_epoch j + 1" by (elim exE conjE) simp
  moreover have "gj_lease_epoch j = (case find_job k (gd_db g) of None \<Rightarrow> 0 | Some j0 \<Rightarrow> gj_lease_epoch j0)"
    using db0 j by (auto simp: ensure_job_def find_row_append split: if_splits option.splits)
  ultimately show ?thesis
    by (intro exI [of _ c'] exI [of _ g'] exI [of _ a'] exI [of _ j']) (simp add: claim_generation_def gen_transaction_def c o)
qed

text \<open>\<^bold>\<open>C22\<close> (\<open>candidates\<close>, \<open>claim\<close>) Every incident the scan lists can be claimed, now or later, as long as no attempt of it was
  left running: the worker gets the lease of the next epoch, one above the epoch of the job row (1 when the
  incident had none), with an attempt that runs under it, until the lease's time is over.\<close>

theorem due_incidents_claimable:
  assumes "k \<in> set (candidates limit (policy_of versions) e0 g)" and "running_of k (gd_attempts g) = []"
    and "distinct (map ir_incident_id (db_incidents (gd_db g)))" and "env_now e0 \<le> env_now e" "env_now e \<le> env_later e"
    and "{''model'', ''model_profile'', ''prompt_version'', ''output_schema_version'', ''input_policy_version''} \<subseteq> fset (fmdom versions)"
    and "0 < budget" and "env_uuid4 e 0 \<notin> at_attempt_id ` set (gd_attempts g)"
  shows "\<exists>c g' a j. claim_generation k owner versions budget secs e g = (Inr (Some c), g') \<and> gc_incident_id c = k \<and> gc_owner c = owner
    \<and> gc_max_model_requests c = budget \<and> gd_attempts g' = gd_attempts g @ [a] \<and> at_attempt_id a = gc_attempt_id c
    \<and> at_incident_id a = k \<and> at_lease_owner a = owner \<and> at_lease_epoch a = gc_epoch c \<and> at_max_model_requests a = budget
    \<and> at_status a = AT_running \<and> find_job k (gd_db g') = Some j \<and> gj_lease_owner j = Some owner \<and> gj_lease_epoch j = gc_epoch c
    \<and> gj_lease_until j = Some (env_later e + seconds secs)
    \<and> gc_epoch c = (case find_job k (gd_db g) of None \<Rightarrow> 0 | Some j0 \<Rightarrow> gj_lease_epoch j0) + 1"
  by (rule due_claimed [OF assms])

lemma start_candidate: "candidates 5 ''i1'' (watch_env 130000000 600) gen_start = [1]"
proof -
  have r: "run_finished R_completed" by (simp add: run_finished_def RUN_EXECUTION_def machine_eval)
  have s: "se_session_id completed_session = 101" "se_incident_id completed_session = 1" "se_state completed_session = OS_completed"
    "se_observation_generation completed_session = 1" by (rule post_session)+
  have e: "en_session_id confirmed_ending = 101" "en_recorded_at confirmed_ending = 123000000" by (simp_all add: confirmed_ending_def)
  show ?thesis
    by (simp add: candidates_def candidate_rows_def is_candidate_def Let_def r s e backing_off_def capped_def MAX_ATTEMPTS_PER_WATERMARK_def
        produced_def pending_of_def ended_observations_def del: One_nat_def)
qed

lemma gen_policy: "policy_of gen_versions = ''i1''"
  by (simp add: policy_of_def gen_versions_def)

lemma start_listed: "1 \<in> set (candidates 5 (policy_of gen_versions) (watch_env 130000000 600) gen_start)"
  by (simp add: gen_policy start_candidate)

lemma start_idle: "running_of 1 (gd_attempts gen_start) = []"
  by (simp add: running_of_def)

lemma start_incidents: "distinct (map ir_incident_id (db_incidents (gd_db gen_start)))"
  by simp

lemma gen_keys:
  "{''model'', ''model_profile'', ''prompt_version'', ''output_schema_version'', ''input_policy_version''} \<subseteq> fset (fmdom gen_versions)"
  by (simp add: gen_versions_def)

lemma start_due:
  "\<exists>c g' a j. claim_generation 1 7 gen_versions 2 900 (watch_env 130000000 600) gen_start = (Inr (Some c), g') \<and> gc_incident_id c = 1
    \<and> gc_owner c = 7 \<and> gc_max_model_requests c = 2 \<and> gd_attempts g' = gd_attempts gen_start @ [a] \<and> at_attempt_id a = gc_attempt_id c
    \<and> at_incident_id a = 1 \<and> at_lease_owner a = 7 \<and> at_lease_epoch a = gc_epoch c \<and> at_max_model_requests a = 2
    \<and> at_status a = AT_running \<and> find_job 1 (gd_db g') = Some j \<and> gj_lease_owner j = Some 7 \<and> gj_lease_epoch j = gc_epoch c
    \<and> gj_lease_until j = Some (env_later (watch_env 130000000 600) + seconds 900)
    \<and> gc_epoch c = (case find_job 1 (gd_db gen_start) of None \<Rightarrow> 0 | Some j0 \<Rightarrow> gj_lease_epoch j0) + 1"
  by (rule due_claimed [OF start_listed start_idle start_incidents _ _ gen_keys]) (simp_all del: One_nat_def)

lemma start_job: "find_job 1 (gd_db gen_start) = None"
  by simp

theorem due_incidents_claimable_witness:
  "\<exists>c g'. claim_generation 1 7 gen_versions 2 900 (watch_env 130000000 600) gen_start = (Inr (Some c), g') \<and> gc_owner c = 7
    \<and> find_job 1 (gd_db gen_start) = None \<and> gc_epoch c = 1"
  using start_job due_incidents_claimable [OF start_listed start_idle start_incidents _ _ gen_keys, of "watch_env 130000000 600" 2 7 900]
  by (auto simp del: One_nat_def)

subsection \<open>Exclusive leases\<close>

text \<open>\<^bold>\<open>C18\<close> (the unique index of running attempts, \<open>claim\<close>) In every reachable state an incident has at most one running
  attempt, which is the one of the epoch and the owner that the job row names.\<close>

theorem one_generation_per_incident:
  assumes "gen_reachable g" and "a \<in> set (gd_attempts g)" "at_status a = AT_running"
    and "b \<in> set (gd_attempts g)" "at_status b = AT_running" "at_incident_id b = at_incident_id a"
  shows "b = a \<and> (\<exists>j. find_job (at_incident_id a) (gd_db g) = Some j \<and> gj_lease_owner j = Some (at_lease_owner a)
    \<and> gj_lease_epoch j = at_lease_epoch a)"
proof -
  have ok: "gen_ok g" using gen_reachable_ok [OF assms(1)] .
  from one_running [OF ok assms(4,5,2,3,6)] gen_okD(2) [OF ok assms(2)] assms(3) show ?thesis by (auto simp: attempt_ok_def)
qed

lemma gen_claimed_parts:
  obtains c a j where "claim_generation 1 7 gen_versions 2 900 (watch_env 130000000 600) gen_start = (Inr (Some c), gen_claimed)"
    "gc_incident_id c = 1" "gc_owner c = 7" "a \<in> set (gd_attempts gen_claimed)" "at_attempt_id a = gc_attempt_id c" "at_status a = AT_running"
    "at_incident_id a = 1" "at_lease_owner a = 7" "at_lease_epoch a = gc_epoch c" "find_job 1 (gd_db gen_claimed) = Some j"
    "gj_lease_owner j = Some 7" "gj_lease_epoch j = gc_epoch c" "at_max_model_requests a = 2"
  using start_due unfolding gen_claimed_def by (elim exE conjE) simp

theorem one_generation_per_incident_witness:
  "\<exists>a j. a \<in> set (gd_attempts gen_claimed) \<and> at_status a = AT_running \<and> find_job 1 (gd_db gen_claimed) = Some j \<and> gj_lease_owner j = Some 7"
proof -
  obtain c a j where p: "a \<in> set (gd_attempts gen_claimed)" "at_status a = AT_running" "at_incident_id a = 1" "at_lease_owner a = 7"
    "find_job 1 (gd_db gen_claimed) = Some j" using gen_claimed_parts by metis
  from one_generation_per_incident [OF gen_claimed_reachable p(1,2,1,2) refl] p show ?thesis by auto
qed

lemma claim_leases:
  assumes "claim_generation k owner versions budget secs e g = (Inr (Some c), g1)" and ok: "gen_ok g"
  shows "gen_ok g1 \<and> lease_stands k (gc_attempt_id c) (env_later e + seconds secs) g1"
proof -
  from assms(1) have i: "claim_generation_in e k owner versions budget secs g = Inr (Some c, g1)"
    by (auto simp: claim_generation_def gen_transaction_def split: sum.splits)
  from gen_ok_changes [OF generation_claimed [OF i gen_okD(1) [OF ok]] ok] have "gen_ok g1" .
  moreover have "lease_stands k (gc_attempt_id c) (env_later e + seconds secs) g1"
    using i gen_okD(1) [OF ok]
  proof (rule claim_in_cases)
    fix db0 j j1 g0
    assume j: "find_job k (gd_db g0) = Some j1" "gj_incident_id j1 = k" "running_of k (gd_attempts g0) = []"
      and x: "if candidate_rows (env_later e) (policy_of versions) (Some k) 1 g0 = []
         then Some c = None \<and> g1 = g0\<lparr>gd_db := release_lease k (gd_db g0)\<rparr>
         else open_attempt e j1 owner versions budget secs g0 = Inr (Some c, g1)"
    from x have "open_attempt e j1 owner versions budget secs g0 = Inr (Some c, g1)" by (auto split: if_splits)
    from open_attempt_opens [OF this] j show ?thesis by (auto simp: lease_stands_def)
  qed simp_all
  ultimately show ?thesis by blast
qed

text \<open>\<^bold>\<open>C19\<close> (\<open>GenerationStore.claim\<close>) Two workers never generate for one incident at the same time: from a claim until the end of its
  lease, while its attempt runs, every other claim of the incident gets nothing and changes nothing, whatever
  happened in between.\<close>

theorem generation_leases_exclude:
  assumes "gen_reachable g" and "claim_generation k owner versions budget secs e g = (Inr (Some c), g1)" and "gen_steps g1 g2"
    and "a \<in> set (gd_attempts g2)" "at_attempt_id a = gc_attempt_id c" "at_status a = AT_running"
    and "env_now e2 < env_later e + seconds secs"
  shows "claim_generation k owner2 versions2 budget2 secs2 e2 g2 = (Inr None, g2)"
proof -
  note l = claim_leases [OF assms(2) gen_reachable_ok [OF assms(1)]]
  from gen_steps_changes [OF assms(3)] l have ch: "gen_changes g1 g2" "gen_ok g2" by simp_all
  have "gen_ok g1" "lease_stands k (gc_attempt_id c) (env_later e + seconds secs) g1" using l by blast+
  from lease_stands_changes [OF ch(1) this] obtain b where b: "b \<in> set (gd_attempts g2)" "at_attempt_id b = gc_attempt_id c"
    "at_status b = AT_running \<longrightarrow> map_option gj_lease_until (find_job k (gd_db g2)) = Some (Some (env_later e + seconds secs))"
    unfolding lease_stands_def by blast
  with same_attempt [OF gen_okD(1) [OF ch(2)] b(1) assms(4)] assms(5,6) obtain j where "find_job k (gd_db g2) = Some j"
    "gj_lease_until j = Some (env_later e + seconds secs)" by auto
  with assms(7) show ?thesis by (simp add: claim_generation_def claim_generation_in_def ensure_job_def gen_transaction_def)
qed

theorem generation_leases_exclude_witness:
  "claim_generation 1 8 gen_versions 2 900 (watch_env 140000000 700) gen_claimed = (Inr None, gen_claimed)"
proof -
  obtain c a where p: "claim_generation 1 7 gen_versions 2 900 (watch_env 130000000 600) gen_start = (Inr (Some c), gen_claimed)"
    "a \<in> set (gd_attempts gen_claimed)" "at_attempt_id a = gc_attempt_id c" "at_status a = AT_running" using gen_claimed_parts by metis
  show ?thesis by (rule generation_leases_exclude [OF start_reachable p(1) rtranclp.rtrancl_refl p(2-4)]) (simp add: seconds_def)
qed

text \<open>\<^bold>\<open>C20\<close> (\<open>reserve_model_request\<close>, \<open>finish\<close>) An attempt that was closed, by its worker or as abandoned by the next claim, is final: its
  row never changes again, and every later request or closing under its claim is refused without effect.\<close>

theorem closed_attempts_final:
  assumes "gen_reachable g" and "a \<in> set (gd_attempts g)" "at_status a \<noteq> AT_running" and "gen_steps g g'"
    and "gc_attempt_id c = at_attempt_id a"
  shows "a \<in> set (gd_attempts g') \<and> (\<exists>err. reserve_model_request c e g' = (Inl err, g')) \<and> (\<exists>err. finish c f e g' = (Inl err, g'))"
proof -
  have ch: "gen_changes g g'" and ok: "gen_ok g'" using gen_steps_changes [OF assms(4) gen_reachable_ok [OF assms(1)]] by simp_all
  from attempt_changes [OF ch gen_reachable_ok [OF assms(1)] assms(2)] assms(3) have a: "a \<in> set (gd_attempts g')"
    by (auto simp: attempt_next_def)
  have only: "b = a" if "b \<in> set (gd_attempts g')" "at_attempt_id b = gc_attempt_id c" for b
    using same_attempt [OF gen_okD(1) [OF ok] that(1) a] that(2) assms(5) by simp
  have "\<exists>err. reserve_model_request c e g' = (Inl err, g')"
    using only assms(3) by (auto simp: reserve_model_request_def reservable_def dest: find_attempt split: option.splits)
  moreover have "List.find (\<lambda>a. at_attempt_id a = gc_attempt_id c \<and> at_status a = AT_running) (gd_attempts g') = None"
    using only assms(3) by (auto simp: find_None_iff)
  then have "\<exists>err. finish c f e g' = (Inl err, g')" by (auto simp: finish_def finish_in_def gen_transaction_def split: option.splits)
  ultimately show ?thesis using a by blast
qed

definition gen_failure :: closing where
  "gen_failure = \<lparr>fn_status = AT_failed, fn_watermark = Some post_watermark, fn_error_code = Some ''MODEL_UNAVAILABLE'', fn_version = None,
     fn_response_model = None, fn_input_sha256 = None, fn_input_bytes = None, fn_prompt_tokens = 0, fn_completion_tokens = 0,
     fn_citations_failed = False, fn_model_calls = None\<rparr>"

lemma gen_failed:
  obtains g' a where "gen_reachable g'" "a \<in> set (gd_attempts g')" "at_status a = AT_failed"
proof -
  obtain c a j where "claim_generation 1 7 gen_versions 2 900 (watch_env 130000000 600) gen_start = (Inr (Some c), gen_claimed)"
    and p: "gc_incident_id c = 1" "gc_owner c = 7" "a \<in> set (gd_attempts gen_claimed)" "at_attempt_id a = gc_attempt_id c"
    "at_status a = AT_running" "at_incident_id a = 1" "at_lease_owner a = 7" "at_lease_epoch a = gc_epoch c" "find_job 1 (gd_db gen_claimed) = Some j"
    "gj_lease_owner j = Some 7" "gj_lease_epoch j = gc_epoch c" "at_max_model_requests a = 2" by (rule gen_claimed_parts)
  let ?e = "watch_env 140000000 700"
  have ok: "gen_ok gen_claimed" using gen_reachable_ok [OF gen_claimed_reachable] .
  have isd: "issued c gen_claimed" using p by (auto simp: issued_def)
  have "List.find (\<lambda>a. at_attempt_id a = gc_attempt_id c \<and> at_status a = AT_running) (gd_attempts gen_claimed) \<noteq> None"
    using p by (auto simp: find_None_iff)
  then obtain b where b: "List.find (\<lambda>a. at_attempt_id a = gc_attempt_id c \<and> at_status a = AT_running) (gd_attempts gen_claimed) = Some b"
    by blast
  then have "b \<in> set (gd_attempts gen_claimed)" "at_attempt_id b = gc_attempt_id c" by (auto simp: find_Some_iff)
  with same_attempt [OF gen_okD(1) [OF ok] _ p(3)] p(4) have ba: "b = a" by simp
  have ck: "attempt_checks (closed_attempt ?e gen_failure a)"
    using gen_okD(2) [OF ok p(3)] p(12) by (simp add: attempt_checks_def closed_attempt_def gen_failure_def ATTEMPT_ERRORS_def attempt_ok_def)
  obtain db1 where o: "outbox_attempt ?e (closed_attempt ?e gen_failure a) (gd_db gen_claimed) = Inr db1"
    by (simp add: outbox_attempt_def insert_entry_def KINDS_def)
  have "\<exists>g'. finish_in c gen_failure ?e gen_claimed = Inr ((), g') \<and>
      gd_attempts g' = put_attempt (gc_attempt_id c) (closed_attempt ?e gen_failure) (gd_attempts gen_claimed)"
    using p b ck o by (simp add: finish_in_def ba finish_key_def gen_failure_def)
  then obtain g' where g': "finish_in c gen_failure ?e gen_claimed = Inr ((), g')"
    "gd_attempts g' = put_attempt (gc_attempt_id c) (closed_attempt ?e gen_failure) (gd_attempts gen_claimed)" by blast
  have "gen_step gen_claimed g'" using gen_step.step_finish [OF isd, of gen_failure ?e] g'(1) by (simp add: finish_def gen_transaction_def)
  then have "gen_reachable g'" using gen_claimed_reachable unfolding gen_reachable_def by (meson rtranclp.rtrancl_into_rtrancl)
  moreover have "closed_attempt ?e gen_failure a \<in> set (gd_attempts g')" unfolding g'(2) in_put_attempt using p(3,4) by (intro bexI [of _ a]) simp_all
  moreover have "at_status (closed_attempt ?e gen_failure a) = AT_failed" by (simp add: closed_attempt_def gen_failure_def)
  ultimately show thesis by (rule that)
qed

theorem closed_attempts_final_witness:
  "\<exists>a c g. at_status a = AT_failed \<and> a \<in> set (gd_attempts g) \<and> (\<exists>err. finish c gen_failure (watch_env 150000000 800) g = (Inl err, g))"
proof -
  obtain g a where g: "gen_reachable g" "a \<in> set (gd_attempts g)" "at_status a = AT_failed" by (rule gen_failed)
  let ?c = "gen_claim\<lparr>gc_attempt_id := at_attempt_id a\<rparr>"
  from closed_attempts_final [OF g(1,2) _ rtranclp.rtrancl_refl, of ?c "watch_env 150000000 800" gen_failure] g show ?thesis by auto
qed

subsection \<open>Budgets and failures\<close>

text \<open>\<^bold>\<open>C21\<close> (\<open>reserve_model_request\<close>, \<open>_count_failure\<close>) In every reachable state an attempt has sent at most the requests of its own
  budget; its incident counts at most three failures, keeps the key they were counted
  at exactly while one is counted, and has a next attempt scheduled exactly when one or two are counted: after
  a counted failure below the cap the next attempt is always due, without one or at the cap it never is.\<close>

theorem generation_bounds:
  assumes "gen_reachable g" and "a \<in> set (gd_attempts g)"
  shows "0 \<le> at_model_requests a \<and> at_model_requests a \<le> at_max_model_requests a
    \<and> (\<exists>j. find_job (at_incident_id a) (gd_db g) = Some j \<and> at_lease_epoch a \<le> gj_lease_epoch j
      \<and> 0 \<le> gj_consecutive_failures j \<and> gj_consecutive_failures j \<le> 3
      \<and> (gj_next_attempt_at j \<noteq> None) = (gj_consecutive_failures j \<in> {1, 2})
      \<and> (gj_failure_watermark j = None) = (gj_consecutive_failures j = 0))"
proof -
  have ok: "gen_ok g" using gen_reachable_ok [OF assms(1)] .
  from gen_okD(2) [OF ok assms(2)] obtain j where a: "0 \<le> at_model_requests a" "at_model_requests a \<le> at_max_model_requests a"
    and j: "find_job (at_incident_id a) (gd_db g) = Some j" "at_lease_epoch a \<le> gj_lease_epoch j" by (auto simp: attempt_ok_def)
  from gen_okD(4) [OF ok] j(1) have "tally_ok j" by blast
  with a j show ?thesis by (auto simp: tally_ok_def MAX_ATTEMPTS_PER_WATERMARK_def)
qed

theorem generation_bounds_witness:
  "\<exists>a j. a \<in> set (gd_attempts gen_claimed) \<and> at_max_model_requests a = 2 \<and> at_model_requests a \<le> 2
    \<and> find_job (at_incident_id a) (gd_db gen_claimed) = Some j \<and> gj_consecutive_failures j \<le> 3"
proof -
  obtain c a j where p: "a \<in> set (gd_attempts gen_claimed)" "at_max_model_requests a = 2" using gen_claimed_parts by metis
  from generation_bounds [OF gen_claimed_reachable p(1)] p show ?thesis by auto
qed

text \<open>(\<open>watermark_key\<close>, \<open>_key_of\<close>, \<open>_KEY_SQL\<close>) The key under which a failure is counted is the same however it is computed: by the
  worker from the watermark it read, from the watermark stored with the attempt, and in SQL by the candidate
  scan from the tables.\<close>

theorem failure_keys_agree:
  assumes "current_watermark e k db = Inr w" and "find_incident k db = Some i"
  shows "watermark_key w (pending_of j) = key_sql i j db \<and> key_of_stored (watermark_fields w) v = Some (watermark_key w v)"
proof
  have k: "ir_incident_id i = k" using find_row_SomeD [OF assms(2)] by simp
  from assms show "watermark_key w (pending_of j) = key_sql i j db"
    by (auto simp: current_watermark_def watermark_key_def key_sql_def failure_key_def k split: list.splits)
  show "key_of_stored (watermark_fields w) v = Some (watermark_key w v)"
    by (cases "wm_last_run_id w") (simp_all add: key_of_stored_def watermark_fields_def watermark_key_def opt_json_def)
qed

theorem failure_keys_agree_witness:
  "\<exists>w. current_watermark (watch_env 130000000 600) 1 (gd_db gen_start) = Inr w
    \<and> watermark_key w None = key_sql (watched L_resolved 1 1) None (gd_db gen_start)"
proof -
  have "find_incident 1 (gd_db gen_start) = Some (watched L_resolved 1 1)" by (simp add: find_row_def)
  moreover have "ended_observations (watched L_resolved 1 1) (gd_db gen_start) \<noteq> []"
    using post_session by (simp add: ended_observations_def confirmed_ending_def)
  ultimately obtain w where w: "current_watermark (watch_env 130000000 600) 1 (gd_db gen_start) = Inr w"
    and i: "find_incident 1 (gd_db gen_start) = Some (watched L_resolved 1 1)" using current_watermark_ended by blast
  from failure_keys_agree [OF w i, of None] w show ?thesis by (auto simp: pending_of_def)
qed

text \<open>Failures of one incident at one key, one after the other.\<close>

fun fail_times :: "uuid \<Rightarrow> string \<Rightarrow> (string option \<times> time) list \<Rightarrow> db \<Rightarrow> db" where
  "fail_times k key [] db = db"
| "fail_times k key (x # xs) db = (case find_job k db of None \<Rightarrow> db
     | Some j \<Rightarrow> fail_times k key xs (count_attempt_failure j key (fst x) (snd x) db))"

lemma fail_times_append: "fail_times k key (xs @ [x]) db = (let db' = fail_times k key xs db in case find_job k db' of None \<Rightarrow> db'
     | Some j \<Rightarrow> count_attempt_failure j key (fst x) (snd x) db')"
  by (induction xs arbitrary: db) (auto simp: Let_def split: option.splits)

lemma fail_times_state:
  assumes "find_job k db = Some j" and "gj_failure_watermark j \<noteq> Some key" and "xs \<noteq> []"
    and "\<forall>x \<in> set xs. fst x = None \<or> the (fst x) \<in> COUNTED_ERRORS"
  shows "\<exists>j'. find_job k (fail_times k key xs db) = Some j' \<and> gj_failure_watermark j' = Some key
    \<and> gj_consecutive_failures j' = min (int (length xs)) 3
    \<and> gj_next_attempt_at j' = backoff (snd (last xs)) (min (int (length xs)) 3)"
  using assms(3,4)
proof (induction xs rule: rev_induct)
  case (snoc x xs)
  have k: "gj_incident_id j = k" using find_row_SomeD [OF assms(1)] by simp
  have c: "case fst x of None \<Rightarrow> True | Some err \<Rightarrow> err \<in> COUNTED_ERRORS" using snoc.prems by (auto split: option.splits)
  show ?case
  proof (cases "xs = []")
    case True
    have "failures_after j key (fst x) = 1" using assms(2) c by (auto simp: failures_after_def Let_def MAX_ATTEMPTS_PER_WATERMARK_def split: option.splits)
    with True assms(1) k show ?thesis by (simp add: count_find)
  next
    case False
    with snoc obtain j1 where j1: "find_job k (fail_times k key xs db) = Some j1" "gj_failure_watermark j1 = Some key"
      "gj_consecutive_failures j1 = min (int (length xs)) 3" by auto
    have k1: "gj_incident_id j1 = k" using find_row_SomeD [OF j1(1)] by simp
    have "failures_after j1 key (fst x) = min (int (length (xs @ [x]))) 3"
      using j1(2,3) c by (auto simp: failures_after_def Let_def MAX_ATTEMPTS_PER_WATERMARK_def split: option.splits)
    with j1 k1 show ?thesis by (simp add: fail_times_append Let_def count_find)
  qed
qed simp

text \<open>\<^bold>\<open>C23\<close> (\<open>_count_failure\<close>) Retryable failures at one watermark delay the next attempt by 60 seconds, then by 120, and the third
  stops generation: no next attempt is scheduled.\<close>

theorem failures_back_off:
  assumes "find_job k db = Some j" and "gj_failure_watermark j \<noteq> Some key" and "xs \<noteq> []"
    and "\<forall>x \<in> set xs. fst x = None \<or> the (fst x) \<in> COUNTED_ERRORS"
  shows "\<exists>j'. find_job k (fail_times k key xs db) = Some j' \<and> gj_failure_watermark j' = Some key
    \<and> gj_consecutive_failures j' = min (int (length xs)) 3
    \<and> gj_next_attempt_at j' = (if length xs = 1 then Some (snd (last xs) + seconds 60)
        else if length xs = 2 then Some (snd (last xs) + seconds 120) else None)"
proof -
  from assms(3) have "0 < length xs" by simp
  then have "length xs = 1 \<or> length xs = 2 \<or> 3 \<le> length xs" by arith
  then consider "length xs = 1" | "length xs = 2" | "3 \<le> length xs" by blast
  then have "backoff (snd (last xs)) (min (int (length xs)) 3) = (if length xs = 1 then Some (snd (last xs) + seconds 60)
        else if length xs = 2 then Some (snd (last xs) + seconds 120) else None)"
    by cases (simp_all add: backoff_def MAX_ATTEMPTS_PER_WATERMARK_def BACKOFF_BASE_SECONDS_def BACKOFF_MAX_SECONDS_def)
  with fail_times_state [OF assms] show ?thesis by auto
qed

definition idle_job :: generation_job_row where
  "idle_job = \<lparr>gj_incident_id = 1, gj_lease_owner = None, gj_lease_epoch = 0, gj_lease_until = None, gj_pending_regeneration_version = None,
     gj_failure_watermark = None, gj_consecutive_failures = 0, gj_next_attempt_at = None, gj_last_error_code = None\<rparr>"

theorem failures_back_off_witness:
  "\<exists>j. find_job 1 (fail_times 1 ''key'' [(Some ''MODEL_UNAVAILABLE'', 5), (None, 9), (Some ''LEASE_LOST'', 12)]
      (gd_db gen_start\<lparr>db_generation_jobs := [idle_job]\<rparr>)) = Some j \<and> gj_consecutive_failures j = 3 \<and> gj_next_attempt_at j = None"
proof -
  define xs where "xs = [(Some ''MODEL_UNAVAILABLE'', 5 :: time), (None, 9), (Some ''LEASE_LOST'', 12)]"
  define db where "db = gd_db gen_start\<lparr>db_generation_jobs := [idle_job]\<rparr>"
  have j: "find_job 1 db = Some idle_job" by (simp add: db_def find_row_def idle_job_def)
  have n: "gj_failure_watermark idle_job \<noteq> Some ''key''" by (simp add: idle_job_def)
  have c: "\<forall>x \<in> set xs. fst x = None \<or> the (fst x) \<in> COUNTED_ERRORS" by (simp add: xs_def COUNTED_ERRORS_def RETRYABLE_ATTEMPT_ERRORS_def)
  have xs: "xs \<noteq> []" "length xs = 3" by (simp_all add: xs_def)
  from failures_back_off [OF j n xs(1) c] obtain j' where "find_job 1 (fail_times 1 ''key'' xs db) = Some j'"
    "gj_consecutive_failures j' = 3" "gj_next_attempt_at j' = None" using xs(2) by auto
  then show ?thesis unfolding xs_def db_def by blast
qed

text \<open>(\<open>claim\<close>, the candidate scan) While an incident stays at the watermark at which it reached the cap, it is neither listed nor
  claimed, under the input policy that capped it: the claim gets nothing and opens no attempt.\<close>

theorem capped_never_claimed:
  assumes "find_incident k (gd_db g) = Some i" and "distinct (map ir_incident_id (db_incidents (gd_db g)))"
    and "find_job k (gd_db g) = Some j" and "capped (policy_of versions) i (Some j) g" and "running_of k (gd_attempts g) = []"
  shows "k \<notin> set (candidates limit (policy_of versions) e g)
    \<and> (\<exists>g'. claim_generation k owner versions budget secs e g = (Inr None, g') \<and> gd_attempts g' = gd_attempts g)"
proof -
  have no: "candidate_rows t (policy_of versions) only limit g = [] \<or> k \<notin> fst ` set (candidate_rows t (policy_of versions) only limit g)" for t only limit
  proof (rule disjI2, rule notI)
    assume "k \<in> fst ` set (candidate_rows t (policy_of versions) only limit g)"
    from candidate_in [OF this] obtain i' where i': "i' \<in> set (db_incidents (gd_db g))" "ir_incident_id i' = k" "is_candidate t (policy_of versions) i' g"
      by blast
    with assms(1) find_row_distinct [OF assms(2) i'(1)] have "i' = i" by simp
    with i'(2,3) assms(3,4) show False by (auto simp: is_candidate_def Let_def)
  qed
  have e: "candidate_rows t (policy_of versions) (Some k) n g = []" for t n
  proof (rule ccontr)
    assume ne: "candidate_rows t (policy_of versions) (Some k) n g \<noteq> []"
    then obtain x where x: "x \<in> set (candidate_rows t (policy_of versions) (Some k) n g)" using last_in_set by blast
    then have "fst x \<in> fst ` set (candidate_rows t (policy_of versions) (Some k) n g)" by (rule imageI)
    from candidate_in [OF this] have "fst x = k" by auto
    with no [of t "Some k" n] ne imageI [OF x, of fst] show False by simp
  qed
  have s: "ensure_job k (gd_db g) = Inr (gd_db g)" using assms(3) by (simp add: ensure_job_def)
  have "\<exists>g'. claim_generation_in e k owner versions budget secs g = Inr (None, g') \<and> gd_attempts g' = gd_attempts g"
  proof (cases "\<exists>t. gj_lease_until j = Some t \<and> env_now e < t")
    case True
    then show ?thesis by (auto simp: claim_generation_in_def s assms(3))
  next
    case False
    from claim_due [OF s assms(3) False assms(5)] e show ?thesis by simp
  qed
  then have "\<exists>g'. claim_generation k owner versions budget secs e g = (Inr None, g') \<and> gd_attempts g' = gd_attempts g"
    by (auto simp: claim_generation_def gen_transaction_def)
  moreover have "k \<notin> set (candidates limit (policy_of versions) e g)" using no [of "env_now e" None limit] by (auto simp: candidates_def)
  ultimately show ?thesis by blast
qed

definition capped_gen :: gen_db where
  "capped_gen = gen_start\<lparr>gd_db := gd_db gen_start\<lparr>db_generation_jobs := [\<lparr>gj_incident_id = 1, gj_lease_owner = None, gj_lease_epoch = 3,
     gj_lease_until = None, gj_pending_regeneration_version = None,
     gj_failure_watermark = Some (key_sql (watched L_resolved 1 1) None (gd_db gen_start)), gj_consecutive_failures = 3,
     gj_next_attempt_at = None, gj_last_error_code = Some ''MODEL_UNAVAILABLE''\<rparr>]\<rparr>\<rparr>"

theorem capped_never_claimed_witness:
  "1 \<notin> set (candidates 5 ''i1'' (watch_env 140000000 700) capped_gen)
    \<and> (\<exists>g'. claim_generation 1 7 gen_versions 2 900 (watch_env 140000000 700) capped_gen = (Inr None, g') \<and> gd_attempts g' = [])"
proof -
  let ?j = "hd (db_generation_jobs (gd_db capped_gen))"
  have j: "find_job 1 (gd_db capped_gen) = Some ?j" by (simp add: capped_gen_def find_row_def)
  have i: "find_incident 1 (gd_db capped_gen) = Some (watched L_resolved 1 1)" by (simp add: capped_gen_def find_row_def)
  have c: "capped (policy_of gen_versions) (watched L_resolved 1 1) (Some ?j) capped_gen"
    by (simp add: capped_def capped_gen_def MAX_ATTEMPTS_PER_WATERMARK_def key_sql_def pending_of_def policy_reopens_def run_count_def last_input_def)
  have r: "running_of 1 (gd_attempts capped_gen) = []" "gd_attempts capped_gen = []" by (simp_all add: running_of_def capped_gen_def)
  have d: "distinct (map ir_incident_id (db_incidents (gd_db capped_gen)))" by (simp add: capped_gen_def)
  from capped_never_claimed [OF i d j c r(1), of 5 "watch_env 140000000 700" 7 2 900] show ?thesis by (simp add: gen_policy r(2))
qed

end
