(* ===== verification/Retention_Sets.thy ===== *)
theory Retention_Sets
  imports Prelude "HOL-Library.While_Combinator"
begin

section \<open>Merging sets of incidents (\<open>_Sets\<close> of \<open>retention.py\<close>)\<close>

text \<open>
  A union-find without path compression. \<open>parent\<close> is a dictionary, here its items in the order of insertion;
  an id that is not a key is its own parent, which is what \<open>setdefault\<close> makes of it. The order of \<open>str\<close> on UUIDs is
  the order of the numbers they write with 32 hexadecimal digits. The loop of \<open>find\<close> is a while loop; it ends
  because a parent is never larger (\<open>find_terminates\<close>).

  What a client of such sets relies on is the locale \<open>merging\<close>: after merging pairs one after the other two ids have the
  same root exactly when the pairs connect them.
\<close>

subsection \<open>The dictionary\<close>

type_synonym sets = "(uuid \<times> uuid) list"

definition parent_of :: "sets \<Rightarrow> uuid \<Rightarrow> uuid" where
  "parent_of s x = (case map_of s x of None \<Rightarrow> x | Some y \<Rightarrow> y)"

definition sets_add :: "uuid \<Rightarrow> sets \<Rightarrow> sets" where
  "sets_add x s = (if map_of s x = None then s @ [(x, x)] else s)"

definition sets_find :: "sets \<Rightarrow> uuid \<Rightarrow> uuid" where
  "sets_find s x = while (\<lambda>y. parent_of s y \<noteq> y) (parent_of s) x"

definition sets_put :: "uuid \<Rightarrow> uuid \<Rightarrow> sets \<Rightarrow> sets" where
  "sets_put k v s = map (\<lambda>(a, b). if a = k then (a, v) else (a, b)) s"

definition sets_union :: "uuid \<times> uuid \<Rightarrow> sets \<Rightarrow> sets" where
  "sets_union e s = (let s1 = sets_add (fst e) s; ra = sets_find s1 (fst e); s2 = sets_add (snd e) s1; rb = sets_find s2 (snd e)
     in if ra \<noteq> rb then sets_put (max ra rb) (min ra rb) s2 else s2)"

text \<open>\<open>members()[root]\<close>.\<close>

definition sets_members :: "sets \<Rightarrow> uuid \<Rightarrow> uuid list" where
  "sets_members s root = filter (\<lambda>x. sets_find s x = root) (map fst s)"

subsection \<open>Roots\<close>

definition sets_ok :: "sets \<Rightarrow> bool" where
  "sets_ok s \<longleftrightarrow> distinct (map fst s) \<and> (\<forall>(x, y) \<in> set s. y \<le> x \<and> y \<in> fst ` set s)"

lemma sets_ok_Nil [simp]: "sets_ok []"
  by (simp add: sets_ok_def)

lemma parent_add [simp]: "parent_of (sets_add x s) = parent_of s"
  by (rule ext) (auto simp: parent_of_def sets_add_def map_add_def split: option.splits)

lemma find_add [simp]: "sets_find (sets_add x s) = sets_find s"
  by (rule ext) (simp add: sets_find_def)

lemma keys_add: "fst ` set (sets_add x s) = insert x (fst ` set s)"
  by (auto simp: sets_add_def map_of_eq_None_iff image_iff dest: map_of_SomeD)

lemma sets_ok_add [simp]: "sets_ok s \<Longrightarrow> sets_ok (sets_add x s)"
  by (auto simp: sets_ok_def sets_add_def map_of_eq_None_iff)

lemma parent_le: "sets_ok s \<Longrightarrow> parent_of s x \<le> x"
  by (auto simp: sets_ok_def parent_of_def split: option.splits dest!: map_of_SomeD)

lemma parent_key: "sets_ok s \<Longrightarrow> x \<in> fst ` set s \<Longrightarrow> parent_of s x \<in> fst ` set s"
  by (auto simp: sets_ok_def parent_of_def image_iff split: option.splits dest!: map_of_SomeD)

lemma find_unfold: "sets_find s x = (if parent_of s x = x then x else sets_find s (parent_of s x))"
  unfolding sets_find_def by (subst while_unfold) simp

lemma sets_ok_less: "sets_ok s \<Longrightarrow> parent_of s x \<noteq> x \<Longrightarrow> parent_of s x < x"
  using parent_le [of s x] by simp

lemma find_terminates: "sets_ok s \<Longrightarrow> \<exists>r. while_option (\<lambda>y. parent_of s y \<noteq> y) (parent_of s) x = Some r"
  by (rule measure_while_option_Some [where P = "\<lambda>_. True" and f = "\<lambda>y. y"]) (simp_all add: sets_ok_less)

lemma find_root: "sets_ok s \<Longrightarrow> parent_of s (sets_find s x) = sets_find s x"
proof (induction x rule: less_induct)
  case (less x)
  then show ?case
  proof (cases "parent_of s x = x")
    case False
    with less show ?thesis by (subst (1 2) find_unfold) (simp add: sets_ok_less)
  qed (simp add: find_unfold)
qed

lemma find_least: "sets_ok s \<Longrightarrow> sets_find s x \<le> x"
proof (induction x rule: less_induct)
  case (less x)
  show ?case
  proof (cases "parent_of s x = x")
    case True
    then show ?thesis by (simp add: find_unfold)
  next
    case False
    have "sets_find s x = sets_find s (parent_of s x)" using False by (subst find_unfold) simp
    moreover have "sets_find s (parent_of s x) \<le> parent_of s x" using less sets_ok_less [OF less.prems False] by blast
    ultimately show ?thesis using sets_ok_less [OF less.prems False] by simp
  qed
qed

lemma find_key: "sets_ok s \<Longrightarrow> x \<in> fst ` set s \<Longrightarrow> sets_find s x \<in> fst ` set s"
proof (induction x rule: less_induct)
  case (less x)
  show ?case
  proof (cases "parent_of s x = x")
    case True
    with less.prems show ?thesis by (simp add: find_unfold)
  next
    case False
    with less sets_ok_less [OF less.prems(1) False] parent_key [OF less.prems] show ?thesis by (subst find_unfold) simp
  qed
qed

lemma find_fixed: "parent_of s x = x \<Longrightarrow> sets_find s x = x"
  by (subst find_unfold) simp

lemma find_find: "sets_ok s \<Longrightarrow> sets_find s (sets_find s x) = sets_find s x"
  by (rule find_fixed) (rule find_root)

subsection \<open>Merging two sets\<close>

lemma parent_put: "k \<in> fst ` set s \<Longrightarrow> parent_of (sets_put k v s) x = (if x = k then v else parent_of s x)"
proof -
  have "map_of (sets_put k v s) x = (if x = k then map_option (\<lambda>_. v) (map_of s x) else map_of s x)" for x
    unfolding sets_put_def by (induction s) auto
  moreover assume "k \<in> fst ` set s"
  then have "map_of s k \<noteq> None" by (simp add: map_of_eq_None_iff)
  ultimately show ?thesis by (auto simp: parent_of_def)
qed

lemma keys_put [simp]: "map fst (sets_put k v s) = map fst s"
  by (induction s) (auto simp: sets_put_def)

lemma sets_ok_put:
  assumes "sets_ok s" and "v \<in> fst ` set s" and "v \<le> k"
  shows "sets_ok (sets_put k v s)"
proof -
  have k: "fst ` set (sets_put k v s) = fst ` set s" by (metis keys_put list.set_map)
  have "y \<le> x \<and> y \<in> fst ` set s" if "(x, y) \<in> set (sets_put k v s)" for x y
    using that assms by (force simp: sets_put_def sets_ok_def split: if_splits)
  then show ?thesis using assms(1) unfolding sets_ok_def k keys_put by blast
qed

lemma find_put:
  assumes ok: "sets_ok s" and k: "k \<in> fst ` set s" "parent_of s k = k" and v: "parent_of s v = v" "v < k"
  shows "sets_find (sets_put k v s) x = (if sets_find s x = k then v else sets_find s x)"
proof (induction x rule: less_induct)
  case (less x)
  have fv: "sets_find (sets_put k v s) v = v" by (rule find_fixed) (use k v in \<open>simp add: parent_put\<close>)
  show ?case
  proof (cases "x = k")
    case True
    with fv k v show ?thesis by (subst find_unfold) (simp add: parent_put find_fixed)
  next
    case False
    show ?thesis
    proof (cases "parent_of s x = x")
      case True
      with False k show ?thesis by (simp add: find_fixed parent_put)
    next
      case neq: False
      have "sets_find (sets_put k v s) x = sets_find (sets_put k v s) (parent_of s x)"
        using False neq k by (subst find_unfold) (simp add: parent_put)
      moreover have "sets_find s x = sets_find s (parent_of s x)" using neq by (subst find_unfold) simp
      ultimately show ?thesis using less [OF sets_ok_less [OF ok neq]] by simp
    qed
  qed
qed

lemma union_roots:
  assumes "sets_ok s"
  shows "sets_ok (sets_union (a, b) s)" and "sets_find (sets_union (a, b) s) x =
    (if sets_find s x = max (sets_find s a) (sets_find s b) then min (sets_find s a) (sets_find s b) else sets_find s x)"
    and "fst ` set (sets_union (a, b) s) = {a, b} \<union> fst ` set s"
proof -
  define t where "t = sets_add b (sets_add a s)"
  define k where "k = max (sets_find s a) (sets_find s b)"
  define v where "v = min (sets_find s a) (sets_find s b)"
  have u: "sets_union (a, b) s = (if sets_find s a \<noteq> sets_find s b then sets_put k v t else t)"
    by (simp add: sets_union_def Let_def t_def k_def v_def)
  have ok: "sets_ok t" using assms by (simp add: t_def)
  have keys: "fst ` set t = {a, b} \<union> fst ` set s" by (simp add: t_def keys_add insert_commute)
  have ft: "sets_find t = sets_find s" "parent_of t = parent_of s" by (simp_all add: t_def)
  have "sets_find t a \<in> fst ` set t" "sets_find t b \<in> fst ` set t" using find_key [OF ok] keys by blast+
  then have kv: "k \<in> fst ` set t" "v \<in> fst ` set t" unfolding ft k_def v_def by (auto simp: max_def min_def)
  have r: "parent_of t k = k" "parent_of t v = v" using find_root [OF assms] unfolding ft k_def v_def by (auto simp: max_def min_def)
  have kp: "fst ` set (sets_put k v t) = fst ` set t" by (metis keys_put list.set_map)
  show "sets_ok (sets_union (a, b) s)" using sets_ok_put [OF ok kv(2), of k] ok by (simp add: u v_def k_def)
  show "fst ` set (sets_union (a, b) s) = {a, b} \<union> fst ` set s" using keys kp by (simp add: u)
  show "sets_find (sets_union (a, b) s) x = (if sets_find s x = max (sets_find s a) (sets_find s b)
      then min (sets_find s a) (sets_find s b) else sets_find s x)"
  proof (cases "sets_find s a = sets_find s b")
    case False
    then have "v < k" by (auto simp: v_def k_def)
    from find_put [OF ok kv(1) r(1,2) this, of x] False show ?thesis by (simp add: u ft v_def k_def)
  qed (simp add: u ft)
qed

subsection \<open>What the clients rely on\<close>

text \<open>Ids are connected when pairs lead from one to the other, in either direction.\<close>

definition connected :: "('a \<times> 'a) set \<Rightarrow> ('a \<times> 'a) set" where
  "connected E = (E \<union> E\<inverse>)\<^sup>*"

lemma connected_refl [simp]: "(x, x) \<in> connected E"
  by (simp add: connected_def)

lemma connected_sym: "(x, y) \<in> connected E \<Longrightarrow> (y, x) \<in> connected E"
proof -
  have "sym (E \<union> E\<inverse>)" by (auto simp: sym_def)
  then show "(x, y) \<in> connected E \<Longrightarrow> (y, x) \<in> connected E" unfolding connected_def by (meson sym_rtrancl symD)
qed

lemma connected_trans: "(x, y) \<in> connected E \<Longrightarrow> (y, z) \<in> connected E \<Longrightarrow> (x, z) \<in> connected E"
  unfolding connected_def by (rule rtrancl_trans)

lemma connected_mono: "E \<subseteq> F \<Longrightarrow> connected E \<subseteq> connected F"
  unfolding connected_def by (intro rtrancl_mono) auto

lemma connected_insert:
  "(x, y) \<in> connected (insert (a, b) E) \<longleftrightarrow> (x, y) \<in> connected E \<or> (x, a) \<in> connected E \<and> (b, y) \<in> connected E
    \<or> (x, b) \<in> connected E \<and> (a, y) \<in> connected E"
proof
  assume "(x, y) \<in> connected (insert (a, b) E)"
  then show "(x, y) \<in> connected E \<or> (x, a) \<in> connected E \<and> (b, y) \<in> connected E \<or> (x, b) \<in> connected E \<and> (a, y) \<in> connected E"
    unfolding connected_def [of "insert (a, b) E"]
  proof (induction rule: rtrancl_induct)
    case (step y z)
    from step.hyps(2) consider "(y, z) \<in> connected E" | "y = a" "z = b" | "y = b" "z = a"
      by (auto simp: connected_def)
    then show ?case
    proof cases
      case 1
      with step.IH show ?thesis by (meson connected_trans)
    next
      case 2
      with step.IH show ?thesis by (meson connected_refl connected_sym connected_trans)
    next
      case 3
      with step.IH show ?thesis by (meson connected_refl connected_sym connected_trans)
    qed
  qed simp
next
  have "(a, b) \<in> connected (insert (a, b) E)" by (auto simp: connected_def)
  moreover have "connected E \<subseteq> connected (insert (a, b) E)" by (rule connected_mono) blast
  moreover assume "(x, y) \<in> connected E \<or> (x, a) \<in> connected E \<and> (b, y) \<in> connected E \<or> (x, b) \<in> connected E \<and> (a, y) \<in> connected E"
  ultimately show "(x, y) \<in> connected (insert (a, b) E)" by (meson connected_trans connected_sym subsetD)
qed

locale merging =
  fixes good :: "'s \<Rightarrow> bool" and root :: "'s \<Rightarrow> 'a \<Rightarrow> 'a" and merge :: "'a \<times> 'a \<Rightarrow> 's \<Rightarrow> 's"
  assumes good_merge: "good s \<Longrightarrow> good (merge e s)"
    and root_merge: "good s \<Longrightarrow> root (merge (a, b) s) x = root (merge (a, b) s) y \<longleftrightarrow>
      root s x = root s y \<or> root s x = root s a \<and> root s b = root s y \<or> root s x = root s b \<and> root s a = root s y"
begin

definition represents :: "'s \<Rightarrow> ('a \<times> 'a) set \<Rightarrow> bool" where
  "represents s E \<longleftrightarrow> good s \<and> (\<forall>x y. root s x = root s y \<longleftrightarrow> (x, y) \<in> connected E)"

lemma represents_merge: "represents s E \<Longrightarrow> represents (merge e s) (insert e E)"
  unfolding represents_def by (cases e) (simp add: good_merge root_merge connected_insert)

lemma represents_fold: "represents s E \<Longrightarrow> represents (fold merge es s) (E \<union> set es)"
proof (induction es arbitrary: s E)
  case (Cons e es)
  from Cons.IH [OF represents_merge [OF Cons.prems]] show ?case by (simp add: Un_commute)
qed simp

lemma same_root: "represents s E \<Longrightarrow> root s x = root s y \<longleftrightarrow> (x, y) \<in> connected E"
  by (simp add: represents_def)

end

lemma union_same_root:
  assumes "sets_ok s"
  shows "sets_find (sets_union (a, b) s) x = sets_find (sets_union (a, b) s) y \<longleftrightarrow>
      sets_find s x = sets_find s y \<or> sets_find s x = sets_find s a \<and> sets_find s b = sets_find s y
      \<or> sets_find s x = sets_find s b \<and> sets_find s a = sets_find s y"
  unfolding union_roots(2) [OF assms] by (auto simp: max_def min_def)

interpretation merged_sets: merging sets_ok sets_find sets_union
  by unfold_locales (metis surj_pair union_roots(1), rule union_same_root)

lemma represents_start: "sets_ok s \<Longrightarrow> (\<And>x. parent_of s x = x) \<Longrightarrow> merged_sets.represents s {}"
  by (simp add: merged_sets.represents_def connected_def find_fixed)

lemma keys_union_fold: "sets_ok s \<Longrightarrow> fst ` set (fold sets_union es s) = fst ` set s \<union> fst ` set es \<union> snd ` set es"
proof (induction es arbitrary: s)
  case (Cons e es)
  obtain a b where e: "e = (a, b)" by (cases e)
  from Cons.IH [OF union_roots(1) [OF Cons.prems, of a b]] union_roots(3) [OF Cons.prems, of a b] show ?case
    by (auto simp: e)
qed simp

lemma in_members: "x \<in> set (sets_members s r) \<longleftrightarrow> x \<in> fst ` set s \<and> sets_find s x = r"
  by (simp add: sets_members_def)

end
