(* ===== verification/Retention.thy ===== *)
theory Retention
  imports Retention_Sets Generation_Jobs Observation_Store
begin

section \<open>Raw payload retention (\<open>retention.py\<close>)\<close>

text \<open>
  A pass empties the raw payloads of incidents that were closed long enough ago and that nothing keeps. It
  scans once, joins the rows into units, and applies each unit in a transaction that checks again under its
  locks. The five payload tables are one list of rows here, each with its table, its key and the column that
  attributes it; \<open>closed_at\<close> and the rows of release observation that the scan joins are beside the database.

  Between the scan and a unit other transactions run (\<open>ue_others\<close>, the \<open>after_scan\<close> seam among them); a unit
  can fail as a whole (\<open>ue_fault\<close>, with whether the connection is lost) and a row on its own (\<open>ue_row_fault\<close>). The clock
  of a statement is the clock of its transaction. A day of an interval has 24 hours, as in a session in UTC. The dictionaries a plan is looked up in are functions: every
  lookup is at one of their keys (\<open>row_in_group\<close>).
\<close>

subsection \<open>Tables\<close>

datatype payload_table = T_evidence | T_signal_readings | T_release_results | T_comparison_queries | T_alert_deliveries
datatype payload_state = PS_present | PS_absent | PS_cleaned

text \<open>What attributes a row: the text of its Run's id, its sample, its comparison, or its incident.\<close>

datatype payload_home = Of_run string | Of_sample uuid | Of_comparison uuid | Of_incident "uuid option"

record payload_row =
  py_table :: payload_table
  py_keys :: "string list"
  py_home :: payload_home
  py_raw_sha256 :: "string option"
  py_payload :: "string option"
  py_state :: payload_state

record ret_db =
  rt_gen :: gen_db
  rt_closed_at :: "uuid \<Rightarrow> time option"
  rt_release_sessions :: "(uuid \<times> uuid) list"
  rt_release_samples :: "(uuid \<times> uuid) list"
  rt_comparisons :: "(uuid \<times> uuid) list"
  rt_payloads :: "payload_row list"

abbreviation rt_db :: "ret_db \<Rightarrow> db" where
  "rt_db d \<equiv> gd_db (rt_gen d)"

definition MIN_DAYS :: int where "MIN_DAYS = 30"

definition ACTIVE_RUN_STATES :: "RunExecution set" where
  "ACTIVE_RUN_STATES = {R_queued, R_paused, R_running, R_waiting_human, R_blocked}"

definition CODES :: "string list" where
  "CODES = [''NOT_CLOSED'', ''CLOSED_AT_MISSING'', ''WITHIN_RETENTION'', ''ACTIVE_RUN'', ''ACTIVE_OBSERVATION'',
     ''POSTMORTEM_GENERATION_PENDING'', ''DRAFT_UNDER_REVIEW'', ''ACTIVE_KNOWLEDGE'']"

definition days_interval :: "int \<Rightarrow> time" where
  "days_interval n = seconds (n * 86400)"

subsection \<open>The scan\<close>

text \<open>A row to clean with the incidents it belongs to (\<open>_Row\<close>).\<close>

record kept_row =
  rw_table :: payload_table
  rw_keys :: "string list"
  rw_raw_sha256 :: "string option"
  rw_incidents :: "uuid list"

definition object_id :: "kept_row \<Rightarrow> string" where
  "object_id r = join_colon (rw_keys r)"

text \<open>\<open>_links\<close>: the incidents the anomaly link of a release observation names.\<close>

definition links :: "uuid \<Rightarrow> ret_db \<Rightarrow> uuid list" where
  "links observation d = (case find_row rl_observation_id observation (db_release_links (rt_db d)) of
      None \<Rightarrow> []
    | Some l \<Rightarrow> rl_incident_id l # (case rl_related_incident_id l of None \<Rightarrow> [] | Some i \<Rightarrow> [i]))"

datatype observed_subject = On_incident uuid | On_release uuid

definition session_subject :: "uuid \<Rightarrow> ret_db \<Rightarrow> observed_subject option" where
  "session_subject k d = (case find_session k (rt_db d) of
      Some s \<Rightarrow> Some (On_incident (se_incident_id s))
    | None \<Rightarrow> map_option On_release (map_of (rt_release_sessions d) k))"

definition sample_subject :: "uuid \<Rightarrow> ret_db \<Rightarrow> observed_subject option" where
  "sample_subject k d = (case find_row sm_sample_id k (db_samples (rt_db d)) of
      Some s \<Rightarrow> session_subject (sm_session_id s) d
    | None \<Rightarrow> Option.bind (map_of (rt_release_samples d) k) (\<lambda>session. session_subject session d))"

definition run_owner :: "string \<Rightarrow> ret_db \<Rightarrow> uuid list" where
  "run_owner run_id d = (case List.find (\<lambda>r. uuid_str (rr_run_id r) = run_id) (db_runs (rt_db d)) of
      None \<Rightarrow> [] | Some r \<Rightarrow> [rr_incident_id r])"

definition row_owners :: "payload_row \<Rightarrow> ret_db \<Rightarrow> uuid list" where
  "row_owners p d = (case (py_table p, py_home p) of
      (T_evidence, Of_run run_id) \<Rightarrow> run_owner run_id d
    | (T_signal_readings, Of_sample k) \<Rightarrow> (case sample_subject k d of
          Some (On_incident i) \<Rightarrow> [i] | Some (On_release ob) \<Rightarrow> links ob d | None \<Rightarrow> [])
    | (T_release_results, Of_sample k) \<Rightarrow> (case sample_subject k d of Some (On_release ob) \<Rightarrow> links ob d | _ \<Rightarrow> [])
    | (T_comparison_queries, Of_comparison k) \<Rightarrow> (case map_of (rt_comparisons d) k of Some ob \<Rightarrow> links ob d | None \<Rightarrow> [])
    | (T_alert_deliveries, Of_incident i) \<Rightarrow> (case i of None \<Rightarrow> [] | Some k \<Rightarrow> [k])
    | _ \<Rightarrow> [])"

definition kept_row_of :: "payload_row \<Rightarrow> ret_db \<Rightarrow> kept_row" where
  "kept_row_of p d = \<lparr>rw_table = py_table p, rw_keys = py_keys p, rw_raw_sha256 = py_raw_sha256 p,
     rw_incidents = sort (remdups (row_owners p d))\<rparr>"

definition present_rows :: "ret_db \<Rightarrow> kept_row list" where
  "present_rows d = concat (map (\<lambda>t. map (\<lambda>p. kept_row_of p d)
       (filter (\<lambda>p. py_table p = t \<and> py_state p = PS_present \<and> row_owners p d \<noteq> []) (rt_payloads d)))
     [T_evidence, T_signal_readings, T_release_results, T_comparison_queries, T_alert_deliveries])"

definition merge_pairs :: "db \<Rightarrow> (uuid \<times> uuid) list" where
  "merge_pairs db = [(ir_incident_id i, k). i \<leftarrow> db_incidents db,
     k \<leftarrow> (case ir_merged_into_incident_id i of None \<Rightarrow> [] | Some k \<Rightarrow> [k])]"

definition merge_sets :: "uuid list \<Rightarrow> db \<Rightarrow> sets" where
  "merge_sets wanted db = fold sets_union (merge_pairs db) (fold sets_add wanted [])"

definition merge_groups :: "uuid list \<Rightarrow> db \<Rightarrow> uuid \<Rightarrow> uuid list" where
  "merge_groups wanted db i = (let s = merge_sets wanted db in sets_members s (sets_find s i))"

subsection \<open>What keeps an incident\<close>

definition lifecycle_code :: "int \<Rightarrow> time \<Rightarrow> uuid \<Rightarrow> ret_db \<Rightarrow> string list" where
  "lifecycle_code days now k d = (case find_incident k (rt_db d) of None \<Rightarrow> []
    | Some i \<Rightarrow> if ir_lifecycle i \<noteq> L_closed then [''NOT_CLOSED'']
        else (case rt_closed_at d k of None \<Rightarrow> [''CLOSED_AT_MISSING'']
          | Some t \<Rightarrow> if now - days_interval days < t then [''WITHIN_RETENTION''] else []))"

definition active_run :: "uuid \<Rightarrow> db \<Rightarrow> bool" where
  "active_run k db \<longleftrightarrow> (\<exists>r \<in> set (db_runs db). rr_incident_id r = k \<and> rr_state r \<in> ACTIVE_RUN_STATES)"

definition active_observation :: "uuid \<Rightarrow> db \<Rightarrow> bool" where
  "active_observation k db \<longleftrightarrow> (\<exists>s \<in> set (db_sessions db). se_incident_id s = k \<and> se_state s = OS_authorized)"

definition generation_pending :: "time \<Rightarrow> uuid \<Rightarrow> gen_db \<Rightarrow> bool" where
  "generation_pending now k g \<longleftrightarrow> running_of k (gd_attempts g) \<noteq> []
     \<or> (\<exists>j \<in> set (db_generation_jobs (gd_db g)). gj_incident_id j = k \<and> (gj_pending_regeneration_version j \<noteq> None
        \<or> (case gj_lease_until j of None \<Rightarrow> False | Some t \<Rightarrow> now < t)))"

definition under_review :: "uuid \<Rightarrow> db \<Rightarrow> bool" where
  "under_review k db \<longleftrightarrow> (\<exists>v \<in> set (db_postmortem_versions db). \<exists>p \<in> set (db_postmortems db).
     ph_postmortem_id p = pv_postmortem_id v \<and> ph_incident_id p = k \<and> pv_state v = PM_under_review)"

definition active_knowledge :: "uuid \<Rightarrow> db \<Rightarrow> bool" where
  "active_knowledge k db \<longleftrightarrow> (\<exists>r \<in> set (db_revisions db). \<exists>p \<in> set (db_postmortems db).
     ph_postmortem_id p = kr_source_postmortem_id r \<and> ph_incident_id p = k
     \<and> revision_state (kr_entry_id r) (kr_revision r) db = Some KR_active)"

definition reasons :: "int \<Rightarrow> time \<Rightarrow> uuid \<Rightarrow> ret_db \<Rightarrow> string list" where
  "reasons days now k d = (let found = lifecycle_code days now k d
       @ (if active_run k (rt_db d) then [''ACTIVE_RUN''] else [])
       @ (if active_observation k (rt_db d) then [''ACTIVE_OBSERVATION''] else [])
       @ (if generation_pending now k (rt_gen d) then [''POSTMORTEM_GENERATION_PENDING''] else [])
       @ (if under_review k (rt_db d) then [''DRAFT_UNDER_REVIEW''] else [])
       @ (if active_knowledge k (rt_db d) then [''ACTIVE_KNOWLEDGE''] else [])
     in filter (\<lambda>c. c \<in> set found) CODES)"

subsection \<open>The plan and its units\<close>

record plan =
  pn_rows :: "kept_row list"
  pn_groups :: "uuid \<Rightarrow> uuid list"
  pn_reasons :: "uuid \<Rightarrow> string list"

definition cleanable :: "plan \<Rightarrow> uuid \<Rightarrow> bool" where
  "cleanable plan i \<longleftrightarrow> (\<forall>m \<in> set (pn_groups plan i). pn_reasons plan m = [])"

definition blocked_by :: "plan \<Rightarrow> uuid \<Rightarrow> string list" where
  "blocked_by plan i = (if pn_reasons plan i \<noteq> [] then pn_reasons plan i else [''MERGE_GROUP_BLOCKED''])"

definition scan :: "int \<Rightarrow> time \<Rightarrow> ret_db \<Rightarrow> plan" where
  "scan days now d = (let rows = present_rows d; owners = remdups (concat (map rw_incidents rows)) in
     \<lparr>pn_rows = rows, pn_groups = merge_groups owners (rt_db d), pn_reasons = (\<lambda>k. reasons days now k d)\<rparr>)"

definition unit_pairs :: "plan \<Rightarrow> kept_row list \<Rightarrow> (uuid \<times> uuid) list" where
  "unit_pairs plan rows = concat (map (\<lambda>row. let first = hd (rw_incidents row) in
     concat (map (\<lambda>i. (first, i) # map (\<lambda>m. (first, m)) (pn_groups plan i))
       (pn_groups plan first @ tl (rw_incidents row)))) rows)"

definition units :: "plan \<Rightarrow> kept_row list \<Rightarrow> (uuid list \<times> kept_row list) list" where
  "units plan rows = (let s = fold sets_union (unit_pairs plan rows) [];
       root = (\<lambda>row. sets_find s (hd (rw_incidents row))) in
     map (\<lambda>r. (sets_members s r, filter (\<lambda>row. root row = r) rows)) (sort (remdups (map root rows))))"

definition ready :: "plan \<Rightarrow> kept_row list" where
  "ready plan = filter (\<lambda>r. \<forall>i \<in> set (rw_incidents r). cleanable plan i) (pn_rows plan)"

definition held :: "plan \<Rightarrow> uuid list" where
  "held plan = sort (remdups (concat (map (\<lambda>row. concat (map (pn_groups plan)
     (filter (\<lambda>i. \<not> cleanable plan i) (rw_incidents row)))) (pn_rows plan))))"

subsection \<open>Applying a unit\<close>

record unit_env =
  ue_now :: time
  ue_others :: "ret_db \<Rightarrow> ret_db"
  ue_fault :: "(string \<times> bool) option"
  ue_row_fault :: "kept_row \<Rightarrow> string option"

definition names :: "kept_row \<Rightarrow> payload_row \<Rightarrow> bool" where
  "names r p \<longleftrightarrow> py_table p = rw_table r \<and> py_keys p = rw_keys r"

definition emptied :: "payload_row \<Rightarrow> payload_row" where
  "emptied p = p\<lparr>py_payload := None, py_state := PS_cleaned\<rparr>"

text \<open>\<open>_clean\<close>: the guarded update, with whether a row was updated.\<close>

definition clean :: "kept_row \<Rightarrow> ret_db \<Rightarrow> bool \<times> ret_db" where
  "clean r d = (\<exists>p \<in> set (rt_payloads d). names r p \<and> py_state p = PS_present,
     d\<lparr>rt_payloads := update_where (\<lambda>p. names r p \<and> py_state p = PS_present) emptied (rt_payloads d)\<rparr>)"

text \<open>The lines of a report: of a row (\<open>_line\<close>: kind, incident, table, object id, hash, error), of an incident of a
  unit that rolled back, of an incident that is kept, and the summary.\<close>

datatype ret_line =
    Row_line string uuid payload_table string "string option" "string option"
  | Unit_failed uuid string
  | Blocked uuid "string list"
  | Summary bool int nat nat nat nat

definition row_line :: "string \<Rightarrow> kept_row \<Rightarrow> string option \<Rightarrow> ret_line" where
  "row_line kind r err = Row_line kind (hd (rw_incidents r)) (rw_table r) (object_id r) (rw_raw_sha256 r) err"

fun clean_rows :: "unit_env \<Rightarrow> kept_row list \<Rightarrow> ret_db \<Rightarrow> ret_line list \<times> ret_db" where
  "clean_rows u [] d = ([], d)"
| "clean_rows u (r # rs) d = (case ue_row_fault u r of
      Some err \<Rightarrow> (let (out, d') = clean_rows u rs d in (row_line ''failed'' r (Some err) # out, d'))
    | None \<Rightarrow> (let (updated, d1) = clean r d; (out, d') = clean_rows u rs d1 in
        (if updated then row_line ''cleaned'' r None # out else out, d')))"

definition apply_unit :: "unit_env \<Rightarrow> int \<Rightarrow> uuid list \<Rightarrow> kept_row list \<Rightarrow> ret_db \<Rightarrow> ret_line list option \<times> ret_db" where
  "apply_unit u days incidents rows d =
     (let groups = merge_groups incidents (rt_db d); members = concat (map groups incidents) in
      if set members \<noteq> set incidents \<or> (\<exists>m \<in> set members. reasons days (ue_now u) m d \<noteq> []) then (None, d)
      else (let (out, d') = clean_rows u rows d in (Some out, d')))"

text \<open>The loop over the units: lines, further kept incidents, the state.\<close>

fun apply_units ::
  "(nat \<Rightarrow> unit_env) \<Rightarrow> nat \<Rightarrow> int \<Rightarrow> (uuid list \<times> kept_row list) list \<Rightarrow> ret_db \<Rightarrow> ret_line list \<times> ret_line list \<times> ret_db" where
  "apply_units es n days [] d = ([], [], d)"
| "apply_units es n days ((incidents, rows) # us) d = (let u = es n; d1 = ue_others u d in
     case ue_fault u of
       Some (err, broken) \<Rightarrow> (let failed = map (\<lambda>i. Unit_failed i err) (sort incidents) in
         if broken then (failed, [], d1)
         else (let (ls, bs, d') = apply_units es (Suc n) days us d1 in (failed @ ls, bs, d')))
     | None \<Rightarrow> (case apply_unit u days incidents rows d1 of
         (None, d2) \<Rightarrow> (let changed = map (\<lambda>i. Blocked i [''CHANGED_AFTER_SCAN'']) (sort (remdups (concat (map rw_incidents rows))));
             (ls, bs, d') = apply_units es (Suc n) days us d2 in (ls, changed @ bs, d'))
       | (Some out, d2) \<Rightarrow> (let (ls, bs, d') = apply_units es (Suc n) days us d2 in (out @ ls, bs, d'))))"

fun line_cleaned :: "ret_line \<Rightarrow> bool" where
  "line_cleaned (Row_line kind i t ob sha err) = (kind = ''cleaned'')"
| "line_cleaned _ = False"

record report =
  rp_lines :: "ret_line list"
  rp_failed :: nat

definition run_retention ::
  "int \<Rightarrow> bool \<Rightarrow> time \<Rightarrow> (nat \<Rightarrow> unit_env) \<Rightarrow> ret_db \<Rightarrow> (string + report) \<times> ret_db" where
  "run_retention days apply now es d = (if days < MIN_DAYS then (Inl ''RETENTION_DAYS_INVALID'', d)
     else (let plan = scan days now d; rows = ready plan;
         blocked = map (\<lambda>i. Blocked i (blocked_by plan i)) (held plan) in
       if \<not> apply
       then (Inr \<lparr>rp_lines = map (\<lambda>r. row_line ''candidate'' r None) rows @ blocked
           @ [Summary apply days (length rows) 0 0 (length blocked)], rp_failed = 0\<rparr>, d)
       else (let (ls, changed, d') = apply_units es 0 days (units plan rows) d;
           cleaned = length (filter line_cleaned ls); failed = length ls - cleaned; kept = blocked @ changed in
         (Inr \<lparr>rp_lines = ls @ kept @ [Summary apply days (length rows) cleaned failed (length kept)], rp_failed = failed\<rparr>, d'))))"

end
