(* ===== verification/Retention_Plan.thy ===== *)
theory Retention_Plan
  imports Retention
begin

section \<open>What a retention plan holds\<close>

text \<open>
  The groups of a plan are the incidents that merge pointers connect; a unit holds every incident connected to
  one of its rows, and the units share out the rows.
\<close>

subsection \<open>Merge groups\<close>

abbreviation conn :: "ret_db \<Rightarrow> (uuid \<times> uuid) set" where
  "conn d \<equiv> connected (set (merge_pairs (rt_db d)))"

lemma add_all:
  assumes "sets_ok s"
  shows "sets_ok (fold sets_add xs s) \<and> parent_of (fold sets_add xs s) = parent_of s \<and> fst ` set (fold sets_add xs s) = set xs \<union> fst ` set s"
  using assms by (induction xs arbitrary: s) (simp_all add: keys_add)

lemma merge_sets_represents:
  "merged_sets.represents (merge_sets wanted db) (set (merge_pairs db))"
  "fst ` set (merge_sets wanted db) = set wanted \<union> fst ` set (merge_pairs db) \<union> snd ` set (merge_pairs db)"
proof -
  note a = add_all [OF sets_ok_Nil, of wanted]
  have "merged_sets.represents (fold sets_add wanted []) {}"
    by (rule represents_start) (use a in \<open>simp_all add: parent_of_def\<close>)
  from merged_sets.represents_fold [OF this, of "merge_pairs db"]
  show "merged_sets.represents (merge_sets wanted db) (set (merge_pairs db))" by (simp add: merge_sets_def)
  show "fst ` set (merge_sets wanted db) = set wanted \<union> fst ` set (merge_pairs db) \<union> snd ` set (merge_pairs db)"
    using keys_union_fold [of "fold sets_add wanted []" "merge_pairs db"] a by (simp add: merge_sets_def)
qed

lemma connected_Field: "(x, y) \<in> connected E \<Longrightarrow> y = x \<or> y \<in> fst ` E \<union> snd ` E"
  unfolding connected_def by (erule rtranclE) force+

lemma merge_groups_keys: "m \<in> set (merge_groups wanted db i) \<Longrightarrow> m \<in> set wanted \<union> fst ` set (merge_pairs db) \<union> snd ` set (merge_pairs db)"
  using merge_sets_represents(2) [of wanted db] by (simp add: merge_groups_def Let_def in_members)

lemma merge_groups_connected:
  assumes "i \<in> set wanted \<union> fst ` set (merge_pairs db) \<union> snd ` set (merge_pairs db)"
  shows "m \<in> set (merge_groups wanted db i) \<longleftrightarrow> (i, m) \<in> connected (set (merge_pairs db))"
proof -
  have "m \<in> set wanted \<union> fst ` set (merge_pairs db) \<union> snd ` set (merge_pairs db)" if "(i, m) \<in> connected (set (merge_pairs db))"
    using connected_Field [OF that] assms by blast
  moreover have "m \<in> set (merge_groups wanted db i) \<longleftrightarrow> m \<in> set wanted \<union> fst ` set (merge_pairs db) \<union> snd ` set (merge_pairs db)
      \<and> sets_find (merge_sets wanted db) m = sets_find (merge_sets wanted db) i"
    unfolding merge_groups_def Let_def in_members merge_sets_represents(2) ..
  moreover have "sets_find (merge_sets wanted db) m = sets_find (merge_sets wanted db) i \<longleftrightarrow> (i, m) \<in> connected (set (merge_pairs db))"
    unfolding merged_sets.same_root [OF merge_sets_represents(1)] by (rule iffI) (erule connected_sym)+
  ultimately show ?thesis by blast
qed

subsection \<open>The scan\<close>

definition released :: "int \<Rightarrow> time \<Rightarrow> ret_db \<Rightarrow> uuid \<Rightarrow> bool" where
  "released days now d i \<longleftrightarrow> (\<forall>m. (i, m) \<in> conn d \<longrightarrow> reasons days now m d = [])"

definition wanted :: "ret_db \<Rightarrow> uuid list" where
  "wanted d = remdups (concat (map rw_incidents (present_rows d)))"

lemma scan_fields [simp]:
  "pn_rows (scan days now d) = present_rows d" "pn_groups (scan days now d) = merge_groups (wanted d) (rt_db d)"
  "pn_reasons (scan days now d) k = reasons days now k d"
  by (simp_all add: scan_def Let_def wanted_def)

lemma kept_row_of_fields [simp]:
  "set (rw_incidents (kept_row_of p d)) = set (row_owners p d)" "names (kept_row_of p d) q \<longleftrightarrow> py_table q = py_table p \<and> py_keys q = py_keys p"
  by (simp_all add: kept_row_of_def names_def)

lemma in_concat_filter: "r \<in> set (concat (map (\<lambda>t. map f (filter (\<lambda>p. g p = t \<and> P p \<and> Q p) xs)) ts)) \<longleftrightarrow>
    (\<exists>t \<in> set ts. \<exists>p \<in> set xs. g p = t \<and> r = f p \<and> P p \<and> Q p)"
  by (induction ts) auto

lemma in_present_rows: "r \<in> set (present_rows d) \<longleftrightarrow>
    (\<exists>p \<in> set (rt_payloads d). r = kept_row_of p d \<and> py_state p = PS_present \<and> row_owners p d \<noteq> [])"
proof -
  let ?T = "[T_evidence, T_signal_readings, T_release_results, T_comparison_queries, T_alert_deliveries]"
  have t: "py_table p \<in> set ?T" for p by (cases "py_table p") simp_all
  have "r \<in> set (present_rows d) \<longleftrightarrow> (\<exists>t \<in> set ?T. \<exists>p \<in> set (rt_payloads d). py_table p = t \<and> r = kept_row_of p d
      \<and> py_state p = PS_present \<and> row_owners p d \<noteq> [])"
    unfolding present_rows_def by (rule in_concat_filter)
  with t show ?thesis by blast
qed

lemma row_incidents: "r \<in> set (present_rows d) \<Longrightarrow> rw_incidents r \<noteq> []"
  by (auto simp: in_present_rows simp flip: set_empty)

text \<open>Every lookup of a plan is at a key of its dictionaries.\<close>

lemma row_in_group: "r \<in> set (present_rows d) \<Longrightarrow> i \<in> set (rw_incidents r) \<Longrightarrow>
    m \<in> set (merge_groups (wanted d) (rt_db d) i) \<longleftrightarrow> (i, m) \<in> conn d"
  by (rule merge_groups_connected) (auto simp: wanted_def)

lemma group_of_member:
  assumes "r \<in> set (present_rows d)" and "i \<in> set (rw_incidents r)" and "(i, k) \<in> conn d"
  shows "m \<in> set (merge_groups (wanted d) (rt_db d) k) \<longleftrightarrow> (k, m) \<in> conn d"
  by (rule merge_groups_connected, rule merge_groups_keys [where i = i]) (use row_in_group [OF assms(1,2)] assms(3) in blast)

lemma cleanable_released: "r \<in> set (present_rows d) \<Longrightarrow> i \<in> set (rw_incidents r) \<Longrightarrow>
    cleanable (scan days now d) i \<longleftrightarrow> released days now d i"
  unfolding cleanable_def released_def scan_fields using row_in_group by blast

lemma in_ready: "r \<in> set (ready (scan days now d)) \<longleftrightarrow>
    r \<in> set (present_rows d) \<and> (\<forall>i \<in> set (rw_incidents r). released days now d i)"
  by (auto simp: ready_def cleanable_released)

subsection \<open>Units\<close>

lemma in_unit_pairs:
  assumes "set rows \<subseteq> set (present_rows d)"
  shows "(x, y) \<in> set (unit_pairs (scan days now d) rows) \<longleftrightarrow>
    (\<exists>r \<in> set rows. x = hd (rw_incidents r) \<and> (\<exists>i \<in> set (rw_incidents r). (i, y) \<in> conn d))"
proof -
  let ?g = "merge_groups (wanted d) (rt_db d)"
  have one: "(\<exists>i \<in> set (?g (hd (rw_incidents r)) @ tl (rw_incidents r)). y = i \<or> y \<in> set (?g i)) \<longleftrightarrow>
      (\<exists>i \<in> set (rw_incidents r). (i, y) \<in> conn d)" if "r \<in> set rows" for r
  proof -
    have r: "r \<in> set (present_rows d)" using that assms by blast
    from row_incidents [OF r] obtain f t where f: "rw_incidents r = f # t" by (cases "rw_incidents r") auto
    have g: "m \<in> set (?g i) \<longleftrightarrow> (i, m) \<in> conn d" if "i = f \<or> i \<in> set t" for i m
      using row_in_group [OF r, of i m] that f by auto
    have gf: "m \<in> set (?g k) \<longleftrightarrow> (k, m) \<in> conn d" if "(f, k) \<in> conn d" for k m
      using group_of_member [OF r, of f k m] that f by simp
    show ?thesis
    proof
      assume "\<exists>i \<in> set (?g (hd (rw_incidents r)) @ tl (rw_incidents r)). y = i \<or> y \<in> set (?g i)"
      then obtain i where i: "i \<in> set (?g f) \<or> i \<in> set t" "y = i \<or> y \<in> set (?g i)" using f by auto
      from i(1) show "\<exists>i \<in> set (rw_incidents r). (i, y) \<in> conn d"
      proof
        assume "i \<in> set (?g f)"
        then have fi: "(f, i) \<in> conn d" using g by blast
        with i(2) gf have "(f, y) \<in> conn d" by (meson connected_trans)
        then show ?thesis by (simp add: f)
      next
        assume "i \<in> set t"
        with i(2) g have "(i, y) \<in> conn d" by auto
        with \<open>i \<in> set t\<close> show ?thesis by (auto simp: f)
      qed
    next
      assume "\<exists>i \<in> set (rw_incidents r). (i, y) \<in> conn d"
      then consider "(f, y) \<in> conn d" | i where "i \<in> set t" "(i, y) \<in> conn d" by (auto simp: f)
      then show "\<exists>i \<in> set (?g (hd (rw_incidents r)) @ tl (rw_incidents r)). y = i \<or> y \<in> set (?g i)"
      proof cases
        case 1
        then have "y \<in> set (?g f)" using g by blast
        then show ?thesis by (auto simp: f)
      next
        case 2
        then have "y \<in> set (?g i)" using g by blast
        with 2(1) show ?thesis by (auto simp: f)
      qed
    qed
  qed
  have "(x, y) \<in> set (unit_pairs (scan days now d) rows) \<longleftrightarrow> (\<exists>r \<in> set rows. x = hd (rw_incidents r)
      \<and> (\<exists>i \<in> set (?g (hd (rw_incidents r)) @ tl (rw_incidents r)). y = i \<or> y \<in> set (?g i)))"
    unfolding unit_pairs_def Let_def set_concat set_map UN_iff scan_fields by (simp add: image_iff) blast
  also have "\<dots> \<longleftrightarrow> (\<exists>r \<in> set rows. x = hd (rw_incidents r) \<and> (\<exists>i \<in> set (rw_incidents r). (i, y) \<in> conn d))"
    using one by blast
  finally show ?thesis .
qed

lemma unit_sets:
  fixes plan rows
  defines "s \<equiv> fold sets_union (unit_pairs plan rows) []"
  shows "sets_find s x = sets_find s y \<longleftrightarrow> (x, y) \<in> connected (set (unit_pairs plan rows))"
    and "fst ` set s = fst ` set (unit_pairs plan rows) \<union> snd ` set (unit_pairs plan rows)"
proof -
  have "merged_sets.represents [] {}" by (rule represents_start) (simp_all add: parent_of_def)
  from merged_sets.same_root [OF merged_sets.represents_fold [OF this, of "unit_pairs plan rows"]]
  show "sets_find s x = sets_find s y \<longleftrightarrow> (x, y) \<in> connected (set (unit_pairs plan rows))" by (simp add: s_def)
  show "fst ` set s = fst ` set (unit_pairs plan rows) \<union> snd ` set (unit_pairs plan rows)"
    using keys_union_fold [OF sets_ok_Nil, of "unit_pairs plan rows"] by (simp add: s_def)
qed

lemma pair_connected: "(x, y) \<in> E \<Longrightarrow> (x, y) \<in> connected E"
  by (auto simp: connected_def)

text \<open>A unit of rows of a scan: its incidents and rows, closed under the merge pointers.\<close>

lemma unit_facts:
  assumes u: "(incidents, rs) \<in> set (units (scan days now d) rows)" and rows: "set rows \<subseteq> set (present_rows d)"
  shows "x \<in> set incidents \<Longrightarrow> (x, m) \<in> conn d \<Longrightarrow> m \<in> set incidents"
    and "x \<in> set incidents \<Longrightarrow> \<exists>r \<in> set rows. \<exists>i \<in> set (rw_incidents r). (i, x) \<in> conn d"
    and "r \<in> set rs \<Longrightarrow> r \<in> set rows \<and> set (rw_incidents r) \<subseteq> set incidents"
proof -
  define E where "E = set (unit_pairs (scan days now d) rows)"
  define s where "s = fold sets_union (unit_pairs (scan days now d) rows) []"
  have find: "sets_find s x = sets_find s y \<longleftrightarrow> (x, y) \<in> connected E" for x y unfolding s_def E_def by (rule unit_sets)
  have keys: "fst ` set s = fst ` E \<union> snd ` E" unfolding s_def E_def by (rule unit_sets)
  have pairs: "(x, y) \<in> E \<longleftrightarrow> (\<exists>r \<in> set rows. x = hd (rw_incidents r) \<and> (\<exists>i \<in> set (rw_incidents r). (i, y) \<in> conn d))" for x y
    unfolding E_def by (rule in_unit_pairs [OF rows])
  from u obtain k where inc: "incidents = sets_members s k" and rs: "rs = filter (\<lambda>r. sets_find s (hd (rw_incidents r)) = k) rows"
    unfolding units_def Let_def s_def by auto
  have mem: "x \<in> set incidents \<longleftrightarrow> x \<in> fst ` E \<union> snd ` E \<and> sets_find s x = k" for x by (simp add: inc in_members keys)
  have owned: "\<exists>r \<in> set rows. (hd (rw_incidents r), x) \<in> connected E \<and> (\<exists>i \<in> set (rw_incidents r). (i, x) \<in> conn d)"
    if "x \<in> fst ` E \<union> snd ` E" for x
  proof -
    from that consider y where "(x, y) \<in> E" | y where "(y, x) \<in> E" by force
    then show ?thesis
    proof cases
      case 1
      then obtain r where r: "r \<in> set rows" "x = hd (rw_incidents r)" using pairs by blast
      have "hd (rw_incidents r) \<in> set (rw_incidents r)" using row_incidents r(1) rows by (meson hd_in_set subsetD)
      moreover have "(hd (rw_incidents r), x) \<in> connected E" "(hd (rw_incidents r), x) \<in> conn d" by (simp_all add: r(2))
      ultimately show ?thesis using r(1) by blast
    next
      case 2
      then obtain r where r: "r \<in> set rows" "y = hd (rw_incidents r)" "\<exists>i \<in> set (rw_incidents r). (i, x) \<in> conn d" using pairs by blast
      have "(hd (rw_incidents r), x) \<in> connected E" using pair_connected [OF 2] r(2) by simp
      with r(1,3) show ?thesis by blast
    qed
  qed
  show "m \<in> set incidents" if x: "x \<in> set incidents" and m: "(x, m) \<in> conn d"
  proof -
    from x mem owned obtain r i where r: "r \<in> set rows" "(hd (rw_incidents r), x) \<in> connected E" "i \<in> set (rw_incidents r)" "(i, x) \<in> conn d" by meson
    from connected_trans [OF r(4) m] r(1,3) pairs have "(hd (rw_incidents r), m) \<in> E" by blast
    note e = this
    have "sets_find s m = sets_find s x" using pair_connected [OF e] r(2) find by metis
    moreover have "m \<in> snd ` E" using e by (metis image_eqI snd_conv)
    ultimately show ?thesis using x mem by simp
  qed
  show "\<exists>r \<in> set rows. \<exists>i \<in> set (rw_incidents r). (i, x) \<in> conn d" if "x \<in> set incidents" using that mem owned by blast
  show "r \<in> set rows \<and> set (rw_incidents r) \<subseteq> set incidents" if r: "r \<in> set rs"
  proof -
    have rr: "r \<in> set rows" "sets_find s (hd (rw_incidents r)) = k" using r rs by simp_all
    have "i \<in> set incidents" if "i \<in> set (rw_incidents r)" for i
    proof -
      have "\<exists>k \<in> set (rw_incidents r). (k, i) \<in> conn d" using that connected_refl by (rule bexI [rotated])
      with rr(1) have e: "(hd (rw_incidents r), i) \<in> E" unfolding pairs by blast
      then have "i \<in> snd ` E" by (metis image_eqI snd_conv)
      moreover have "sets_find s i = k" using find pair_connected [OF e] rr(2) by metis
      ultimately show ?thesis using mem by simp
    qed
    with rr(1) show ?thesis by blast
  qed
qed

lemma units_cover: "(\<exists>u \<in> set (units plan rows). r \<in> set (snd u)) \<longleftrightarrow> r \<in> set rows"
  unfolding units_def Let_def by auto

end
