(* ===== verification/Retention_Properties.thy ===== *)
theory Retention_Properties
  imports Retention_Plan Store_Fence
begin

section \<open>Properties of retention\<close>

text \<open>
  A payload is emptied only when every incident connected to one of its own may be cleaned at that moment, and
  a pass that nothing disturbs empties exactly those.
\<close>

subsection \<open>Cleaning changes payloads only\<close>

lemma reasons_payloads [simp]: "reasons days now k (d\<lparr>rt_payloads := ps\<rparr>) = reasons days now k d"
  by (simp add: reasons_def lifecycle_code_def)

lemma released_payloads [simp]: "released days now (d\<lparr>rt_payloads := ps\<rparr>) i = released days now d i"
  by (simp add: released_def)

lemma emptied_fields [simp]: "py_state (emptied p) = PS_cleaned" "names r (emptied p) = names r p" "py_table (emptied p) = py_table p"
  "py_keys (emptied p) = py_keys p" "py_home (emptied p) = py_home p" "py_raw_sha256 (emptied p) = py_raw_sha256 p" "py_payload (emptied p) = None"
  by (simp_all add: emptied_def names_def)

definition empty_where :: "(payload_row \<Rightarrow> bool) \<Rightarrow> ret_db \<Rightarrow> ret_db" where
  "empty_where P d = d\<lparr>rt_payloads := map (\<lambda>p. if py_state p = PS_present \<and> P p then emptied p else p) (rt_payloads d)\<rparr>"

lemma empty_payloads: "rt_payloads (empty_where P d) = map (\<lambda>p. if py_state p = PS_present \<and> P p then emptied p else p) (rt_payloads d)"
  by (simp add: empty_where_def)

lemma empty_none: "(\<And>p. p \<in> set (rt_payloads d) \<Longrightarrow> py_state p = PS_present \<Longrightarrow> \<not> P p) \<Longrightarrow> empty_where P d = d"
proof -
  assume "\<And>p. p \<in> set (rt_payloads d) \<Longrightarrow> py_state p = PS_present \<Longrightarrow> \<not> P p"
  then have "map (\<lambda>p. if py_state p = PS_present \<and> P p then emptied p else p) (rt_payloads d) = rt_payloads d" by (intro map_idI) auto
  then show ?thesis by (simp add: empty_where_def)
qed

lemma empty_twice: "(\<And>p. Q (emptied p) = Q p) \<Longrightarrow> empty_where Q (empty_where P d) = empty_where (\<lambda>p. P p \<or> Q p) d"
proof -
  assume "\<And>p. Q (emptied p) = Q p"
  then have "(\<lambda>p. if py_state p = PS_present \<and> Q p then emptied p else p) \<circ> (\<lambda>p. if py_state p = PS_present \<and> P p then emptied p else p)
      = (\<lambda>p. if py_state p = PS_present \<and> (P p \<or> Q p) then emptied p else p)" by (intro ext) auto
  then show ?thesis by (simp add: empty_where_def)
qed

lemma empty_where_db [simp]: "rt_gen (empty_where P d) = rt_gen d" "conn (empty_where P d) = conn d"
  "reasons days now k (empty_where P d) = reasons days now k d" "released days now (empty_where P d) i = released days now d i"
  by (simp_all add: empty_where_def)

lemma clean_state: "snd (clean r d) = empty_where (names r) d"
  by (auto simp: clean_def empty_where_def update_where_def)

lemma clean_rows_state: "clean_rows u rs d = (out, d') \<Longrightarrow> d' = empty_where (\<lambda>p. \<exists>r \<in> set rs. names r p \<and> ue_row_fault u r = None) d"
proof (induction rs arbitrary: d out)
  case Nil
  then show ?case by (simp add: empty_none)
next
  case (Cons r rs)
  show ?case
  proof (cases "ue_row_fault u r")
    case (Some err)
    with Cons show ?thesis by (auto split: prod.splits)
  next
    case None
    with Cons.prems obtain out' where "clean_rows u rs (snd (clean r d)) = (out', d')" by (auto split: prod.splits)
    from Cons.IH [OF this] have "d' = empty_where (\<lambda>p. names r p \<or> (\<exists>r \<in> set rs. names r p \<and> ue_row_fault u r = None)) d"
      by (simp add: clean_state empty_twice)
    with None show ?thesis by (auto simp: empty_where_def)
  qed
qed

lemma failed_rows_reported: "clean_rows u rs d = (out, d') \<Longrightarrow> r \<in> set rs \<Longrightarrow> ue_row_fault u r = Some err \<Longrightarrow> row_line ''failed'' r (Some err) \<in> set out"
  by (induction rs arbitrary: d out) (auto split: prod.splits option.splits if_splits)

lemma clean_lines: "clean_rows u rs d = (out, d') \<Longrightarrow> (\<And>r. ue_row_fault u r = None) \<Longrightarrow> (\<forall>l \<in> set out. line_cleaned l)"
  by (induction rs arbitrary: d out) (auto simp: row_line_def split: prod.splits if_splits)

lemma apply_unit_checked:
  assumes "apply_unit u days incidents rs d = (Some out, d')"
  shows "clean_rows u rs d = (out, d')" and "i \<in> set incidents \<Longrightarrow> released days (ue_now u) d i"
proof -
  have members: "set (concat (map (merge_groups incidents (rt_db d)) incidents)) = {m. \<exists>i \<in> set incidents. (i, m) \<in> conn d}"
    by (auto simp: merge_groups_connected)
  show "clean_rows u rs d = (out, d')" using assms by (auto simp: apply_unit_def Let_def split: if_splits prod.splits)
  show "released days (ue_now u) d i" if "i \<in> set incidents"
  proof -
    have "\<forall>m \<in> set (concat (map (merge_groups incidents (rt_db d)) incidents)). reasons days (ue_now u) m d = []"
      using assms by (auto simp: apply_unit_def Let_def simp del: set_concat set_map split: if_splits)
    with members that show ?thesis unfolding released_def by blast
  qed
qed

lemma apply_unit_runs:
  assumes "\<And>i. i \<in> set incidents \<Longrightarrow> released days (ue_now u) d i" and "\<And>i m. i \<in> set incidents \<Longrightarrow> (i, m) \<in> conn d \<Longrightarrow> m \<in> set incidents"
  shows "apply_unit u days incidents rs d = (Some (fst (clean_rows u rs d)), snd (clean_rows u rs d))"
proof -
  have members: "set (concat (map (merge_groups incidents (rt_db d)) incidents)) = {m. \<exists>i \<in> set incidents. (i, m) \<in> conn d}"
    by (auto simp: merge_groups_connected)
  also have "\<dots> = set incidents"
  proof (intro set_eqI iffI)
    show "m \<in> set incidents" if "m \<in> {m. \<exists>i \<in> set incidents. (i, m) \<in> conn d}" for m using that assms(2) by blast
    show "m \<in> {m. \<exists>i \<in> set incidents. (i, m) \<in> conn d}" if "m \<in> set incidents" for m
      using that connected_refl [of m] by blast
  qed
  finally have m: "set (concat (map (merge_groups incidents (rt_db d)) incidents)) = set incidents" .
  have "reasons days (ue_now u) m d = []" if "m \<in> set incidents" for m
    using assms(1) [OF that, unfolded released_def, rule_format, OF connected_refl] .
  with m show ?thesis by (simp add: apply_unit_def Let_def split: prod.splits)
qed

subsection \<open>A payload is emptied only when its incidents are released\<close>

text \<open>\<^bold>\<open>C24\<close> (\<open>_apply_unit\<close>) Whatever other transactions did since the scan, a unit empties a payload only if at that moment
  every incident the merge pointers connect to an incident of the payload is closed for at least the given days
  and nothing keeps it.\<close>

theorem emptied_only_when_released:
  assumes "(incidents, rs) \<in> set (units (scan days now d0) (ready (scan days now d0)))"
    and "apply_unit u days incidents rs d = (res, d')" and "p \<in> set (rt_payloads d)" and "p \<notin> set (rt_payloads d')"
  shows "py_state p = PS_present \<and> (\<exists>r \<in> set (present_rows d0). names r p
    \<and> (\<forall>i \<in> set (rw_incidents r). \<forall>m. (i, m) \<in> connected (set (merge_pairs (rt_db d))) \<longrightarrow> reasons days (ue_now u) m d = []))"
proof -
  let ?rows = "ready (scan days now d0)"
  have sub: "set ?rows \<subseteq> set (present_rows d0)" by (auto simp: in_ready)
  obtain out where res: "res = Some out"
    using assms(2-4) by (cases res) (auto simp: apply_unit_def Let_def split: if_splits prod.splits)
  note ck = apply_unit_checked [OF assms(2) [unfolded res]]
  from clean_rows_state [OF ck(1)] assms(3,4) obtain r where r: "r \<in> set rs" "names r p" "py_state p = PS_present"
    by (auto simp: empty_where_def image_iff split: if_splits)
  from unit_facts(3) [OF assms(1) sub r(1)] have "r \<in> set (present_rows d0)" "set (rw_incidents r) \<subseteq> set incidents" using sub by auto
  with r ck(2) show ?thesis by (auto simp: released_def)
qed

subsection \<open>A pass that nothing disturbs\<close>

definition undisturbed :: "time \<Rightarrow> (nat \<Rightarrow> unit_env) \<Rightarrow> bool" where
  "undisturbed now es \<longleftrightarrow> (\<forall>n. now \<le> ue_now (es n) \<and> ue_others (es n) = id \<and> ue_fault (es n) = None \<and> ue_row_fault (es n) = (\<lambda>r. None))"

text \<open>The payloads that are due, by the rules of the module.\<close>

definition payload_due :: "int \<Rightarrow> time \<Rightarrow> ret_db \<Rightarrow> payload_row \<Rightarrow> bool" where
  "payload_due days now d p \<longleftrightarrow> py_state p = PS_present \<and> row_owners p d \<noteq> []
     \<and> (\<forall>i \<in> set (row_owners p d). \<forall>m. (i, m) \<in> connected (set (merge_pairs (rt_db d))) \<longrightarrow> reasons days now m d = [])"

lemma reasons_nil: "reasons days now k d = [] \<longleftrightarrow> lifecycle_code days now k d = [] \<and> \<not> active_run k (rt_db d)
    \<and> \<not> active_observation k (rt_db d) \<and> \<not> generation_pending now k (rt_gen d) \<and> \<not> under_review k (rt_db d) \<and> \<not> active_knowledge k (rt_db d)"
proof -
  have "set (lifecycle_code days now k d) \<subseteq> set CODES" by (auto simp: lifecycle_code_def CODES_def split: option.splits)
  then show ?thesis unfolding reasons_def Let_def filter_empty_conv
    by (cases "lifecycle_code days now k d") (auto simp: CODES_def split: if_splits)
qed

lemma reasons_later:
  assumes "reasons days now k d = []" and "now \<le> now'"
  shows "reasons days now' k d = []"
proof -
  have "lifecycle_code days now' k d = []" if "lifecycle_code days now k d = []"
    using that assms(2) by (auto simp: lifecycle_code_def split: option.splits if_splits)
  moreover have "\<not> generation_pending now' k (rt_gen d)" if "\<not> generation_pending now k (rt_gen d)"
    using that assms(2) by (fastforce simp: generation_pending_def split: option.splits)
  ultimately show ?thesis using assms(1) by (simp add: reasons_nil)
qed

lemma released_later: "released days now d i \<Longrightarrow> now \<le> now' \<Longrightarrow> released days now' d i"
  unfolding released_def using reasons_later by blast

lemma quiet_units:
  assumes "undisturbed now es" and "\<And>u i. u \<in> set us \<Longrightarrow> i \<in> set (fst u) \<Longrightarrow> released days now d i"
    and "\<And>u i m. u \<in> set us \<Longrightarrow> i \<in> set (fst u) \<Longrightarrow> (i, m) \<in> conn d \<Longrightarrow> m \<in> set (fst u)"
  shows "\<exists>ls. apply_units es n days us d = (ls, [], empty_where (\<lambda>p. \<exists>u \<in> set us. \<exists>r \<in> set (snd u). names r p) d) \<and> (\<forall>l \<in> set ls. line_cleaned l)"
  using assms(2,3)
proof (induction us arbitrary: n d)
  case Nil
  then show ?case by (simp add: empty_none)
next
  case (Cons u us)
  obtain incidents rs where u: "u = (incidents, rs)" by (cases u)
  have q: "now \<le> ue_now (es n)" "ue_others (es n) = id" "ue_fault (es n) = None" "ue_row_fault (es n) = (\<lambda>r. None)"
    using assms(1) unfolding undisturbed_def by blast+
  obtain out d1 where c: "clean_rows (es n) rs d = (out, d1)" by fastforce
  have d1: "d1 = empty_where (\<lambda>p. \<exists>r \<in> set rs. names r p) d" using clean_rows_state [OF c] q(4) by simp
  have "apply_unit (es n) days incidents rs d = (Some (fst (clean_rows (es n) rs d)), snd (clean_rows (es n) rs d))"
  proof (rule apply_unit_runs)
    show "released days (ue_now (es n)) d i" if "i \<in> set incidents" for i
      using Cons.prems(1) [of u i] released_later q(1) that by (simp add: u)
    show "m \<in> set incidents" if "i \<in> set incidents" "(i, m) \<in> conn d" for i m
      using Cons.prems(2) [of u i m] that by (simp add: u)
  qed
  then have a: "apply_unit (es n) days incidents rs d = (Some out, d1)" by (simp add: c)
  have "\<exists>ls. apply_units es (Suc n) days us d1 = (ls, [], empty_where (\<lambda>p. \<exists>u \<in> set us. \<exists>r \<in> set (snd u). names r p) d1) \<and> (\<forall>l \<in> set ls. line_cleaned l)"
  proof (rule Cons.IH)
    show "released days now d1 i" if "v \<in> set us" "i \<in> set (fst v)" for v i using Cons.prems(1) [of v i] that by (simp add: d1)
    show "m \<in> set (fst v)" if "v \<in> set us" "i \<in> set (fst v)" "(i, m) \<in> conn d1" for v i m
      using Cons.prems(2) [of v i m] that by (simp add: d1)
  qed
  then obtain ls where ls: "apply_units es (Suc n) days us d1 = (ls, [], empty_where (\<lambda>p. \<exists>u \<in> set us. \<exists>r \<in> set (snd u). names r p) d1)"
    "\<forall>l \<in> set ls. line_cleaned l" by blast
  have "empty_where (\<lambda>p. \<exists>u \<in> set us. \<exists>r \<in> set (snd u). names r p) d1 = empty_where (\<lambda>p. \<exists>v \<in> set (u # us). \<exists>r \<in> set (snd v). names r p) d"
    unfolding d1 by (simp add: empty_twice u)
  moreover have "\<forall>l \<in> set out. line_cleaned l" using clean_lines [OF c] q(4) by simp
  ultimately show ?case using ls by (simp add: u q a Let_def) blast
qed

definition payload_id :: "payload_row \<Rightarrow> payload_table \<times> string list" where
  "payload_id p = (py_table p, py_keys p)"

lemma ready_payload_due:
  assumes "distinct (map payload_id (rt_payloads d))" and "p \<in> set (rt_payloads d)" and "py_state p = PS_present"
  shows "(\<exists>r \<in> set (ready (scan days now d)). names r p) \<longleftrightarrow> payload_due days now d p"
proof
  assume "\<exists>r \<in> set (ready (scan days now d)). names r p"
  then obtain r where r: "r \<in> set (present_rows d)" "\<forall>i \<in> set (rw_incidents r). released days now d i" "names r p" by (auto simp: in_ready)
  then obtain q where q: "q \<in> set (rt_payloads d)" "r = kept_row_of q d" "row_owners q d \<noteq> []" unfolding in_present_rows by blast
  have "payload_id p = payload_id q" using r(3) q(2) by (simp add: payload_id_def)
  with assms(1,2) q(1) have "p = q" by (auto simp: distinct_map inj_on_def)
  with q r(2) assms(3) show "payload_due days now d p" by (simp add: payload_due_def released_def)
next
  assume du: "payload_due days now d p"
  then have "kept_row_of p d \<in> set (ready (scan days now d))" using assms(2) by (auto simp: in_ready in_present_rows payload_due_def released_def)
  then show "\<exists>r \<in> set (ready (scan days now d)). names r p" by force
qed

lemma undisturbed_run:
  assumes "undisturbed now es" and "distinct (map payload_id (rt_payloads d))"
  shows "\<exists>ls. apply_units es 0 days (units (scan days now d) (ready (scan days now d))) d = (ls, [], empty_where (payload_due days now d) d)
    \<and> (\<forall>l \<in> set ls. line_cleaned l)"
proof -
  let ?rows = "ready (scan days now d)" and ?us = "units (scan days now d) (ready (scan days now d))"
  have sub: "set ?rows \<subseteq> set (present_rows d)" by (auto simp: in_ready)
  have closed: "m \<in> set (fst u)" if "u \<in> set ?us" "i \<in> set (fst u)" "(i, m) \<in> conn d" for u i m
    using unit_facts(1) [of "fst u" "snd u", OF _ sub that(2,3)] that(1) by simp
  have rel: "released days now d i" if u: "u \<in> set ?us" "i \<in> set (fst u)" for u i
  proof -
    have "(fst u, snd u) \<in> set ?us" using u(1) by simp
    from unit_facts(2) [OF this sub u(2)] obtain r k where r: "r \<in> set ?rows" "k \<in> set (rw_incidents r)" "(k, i) \<in> conn d" by blast
    then have "released days now d k" by (simp add: in_ready)
    with r(3) connected_trans show ?thesis unfolding released_def by metis
  qed
  have "\<exists>ls. apply_units es 0 days ?us d = (ls, [], empty_where (\<lambda>p. \<exists>u \<in> set ?us. \<exists>r \<in> set (snd u). names r p) d) \<and> (\<forall>l \<in> set ls. line_cleaned l)"
    by (rule quiet_units [OF assms(1)]) (use closed rel in blast)+
  moreover have "(\<exists>u \<in> set ?us. \<exists>r \<in> set (snd u). names r p) = payload_due days now d p"
    if "p \<in> set (rt_payloads d)" "py_state p = PS_present" for p
    using ready_payload_due [OF assms(2) that] units_cover [of "scan days now d" ?rows] by blast
  then have "empty_where (\<lambda>p. \<exists>u \<in> set ?us. \<exists>r \<in> set (snd u). names r p) d = empty_where (payload_due days now d) d"
    by (simp add: empty_where_def cong: conj_cong)
  ultimately show ?thesis by simp
qed

text \<open>\<^bold>\<open>C25\<close> (\<open>run_retention\<close>) A pass with \<open>apply\<close> that no other transaction and no failure disturbs empties exactly the due payloads:
  those present whose incidents, with all that the merge pointers connect to them, are released. It changes
  nothing else, no row of the database and no other column of a payload row, and a dry run changes nothing.\<close>

theorem retention_exact:
  assumes "MIN_DAYS \<le> days" and "undisturbed now es" and "distinct (map payload_id (rt_payloads d))"
  shows "(\<exists>rep. run_retention days True now es d = (Inr rep,
        d\<lparr>rt_payloads := map (\<lambda>p. if payload_due days now d p then p\<lparr>py_payload := None, py_state := PS_cleaned\<rparr> else p) (rt_payloads d)\<rparr>) \<and> rp_failed rep = 0)
    \<and> (\<exists>rep. run_retention days False now es d = (Inr rep, d))"
proof -
  obtain ls where ls: "apply_units es 0 days (units (scan days now d) (ready (scan days now d))) d = (ls, [], empty_where (payload_due days now d) d)"
    "\<forall>l \<in> set ls. line_cleaned l" using undisturbed_run [OF assms(2,3)] by blast
  have f: "filter line_cleaned ls = ls" using ls(2) by (simp add: filter_id_conv)
  have e: "empty_where (payload_due days now d) d =
      d\<lparr>rt_payloads := map (\<lambda>p. if payload_due days now d p then p\<lparr>py_payload := None, py_state := PS_cleaned\<rparr> else p) (rt_payloads d)\<rparr>"
    by (simp add: empty_where_def emptied_def payload_due_def cong: if_cong)
  show ?thesis using assms(1) ls(1) f by (simp add: run_retention_def Let_def e)
qed

text \<open>What a unit must find under its own transaction: the incidents connected to its own are its own, and
  each of them is released.\<close>

definition unit_stands :: "int \<Rightarrow> time \<Rightarrow> uuid list \<Rightarrow> ret_db \<Rightarrow> bool" where
  "unit_stands days now incidents d \<longleftrightarrow> (\<forall>i \<in> set incidents. released days now d i \<and> (\<forall>m. (i, m) \<in> conn d \<longrightarrow> m \<in> set incidents))"

lemma apply_unit_None: "apply_unit u days incidents rs d = (None, d') \<Longrightarrow> d' = d \<and> \<not> unit_stands days (ue_now u) incidents d"
  using apply_unit_runs [of incidents days u d rs] unfolding unit_stands_def
  by (auto simp: apply_unit_def Let_def split: if_splits prod.splits)

lemma apply_unit_stands:
  assumes "apply_unit u days incidents rs d = (Some out, d')"
  shows "unit_stands days (ue_now u) incidents d"
proof -
  have "set (concat (map (merge_groups incidents (rt_db d)) incidents)) = set incidents"
    using assms by (auto simp: apply_unit_def Let_def simp del: set_concat set_map split: if_splits)
  then have "m \<in> set incidents" if "i \<in> set incidents" "(i, m) \<in> conn d" for i m
    using that by (auto simp: merge_groups_connected)
  with apply_unit_checked(2) [OF assms] show ?thesis unfolding unit_stands_def by blast
qed

text \<open>\<^bold>\<open>C26\<close> (\<open>_apply_unit\<close>) A unit writes nothing exactly when it no longer stands at the moment it runs: when an
  incident connected to its own is not one of its own, or one of them is not released (open, closed too recently or
  kept by something). In a unit that runs, a row whose update fails is reported and keeps its payload, and every
  other present row of the unit is emptied.\<close>

theorem row_failures_isolated:
  assumes "apply_unit u days incidents rs d = (res, d')"
  shows "(res = None) = (\<not> unit_stands days (ue_now u) incidents d) \<and> (case res of None \<Rightarrow> d' = d
    | Some out \<Rightarrow> rt_payloads d' = map (\<lambda>p. if py_state p = PS_present \<and> (\<exists>r \<in> set rs. names r p \<and> ue_row_fault u r = None)
          then emptied p else p) (rt_payloads d)
        \<and> (\<forall>r \<in> set rs. \<forall>err. ue_row_fault u r = Some err \<longrightarrow> row_line ''failed'' r (Some err) \<in> set out))"
proof (cases res)
  case None
  with assms apply_unit_None show ?thesis by simp
next
  case (Some out)
  from apply_unit_checked(1) [OF assms [unfolded Some]] have c: "clean_rows u rs d = (out, d')" .
  from clean_rows_state [OF c] failed_rows_reported [OF c] apply_unit_stands [OF assms [unfolded Some]]
  show ?thesis by (simp add: Some empty_where_def)
qed

subsection \<open>An example\<close>

text \<open>Incident 1 was merged into 2 and both are closed; 3 is closed, but was merged into 4, which is open.\<close>

definition old_incident :: "uuid \<Rightarrow> uuid option \<Rightarrow> IncidentLifecycle \<Rightarrow> incident_row" where
  "old_incident k m lc = example_incident_row\<lparr>ir_incident_id := k, ir_merged_into_incident_id := m, ir_lifecycle := lc\<rparr>"

definition delivery_payload :: "string \<Rightarrow> uuid option \<Rightarrow> payload_row" where
  "delivery_payload key i = \<lparr>py_table = T_alert_deliveries, py_keys = [key], py_home = Of_incident i, py_raw_sha256 = None,
     py_payload = Some ''{}'', py_state = PS_present\<rparr>"

definition old_db :: ret_db where
  "old_db = \<lparr>rt_gen = \<lparr>gd_db = initial_db\<lparr>db_incidents := [old_incident 1 (Some 2) L_closed, old_incident 2 None L_closed,
       old_incident 3 (Some 4) L_closed, old_incident 4 None L_open]\<rparr>, gd_attempts = []\<rparr>,
     rt_closed_at = (\<lambda>k. Some 0), rt_release_sessions = [], rt_release_samples = [], rt_comparisons = [],
     rt_payloads = [delivery_payload ''a'' (Some 1), delivery_payload ''b'' (Some 3), delivery_payload ''c'' None]\<rparr>"

definition quiet :: "nat \<Rightarrow> unit_env" where
  "quiet n = \<lparr>ue_now = 3000000000000, ue_others = id, ue_fault = None, ue_row_fault = (\<lambda>r. None)\<rparr>"

lemma quiet_undisturbed: "undisturbed 3000000000000 quiet"
  by (simp add: undisturbed_def quiet_def)

lemma old_conn: "(i, m) \<in> connected (set (merge_pairs (rt_db old_db))) \<longleftrightarrow> m = i \<or> {i, m} = {1, 2} \<or> {i, m} = {3, 4}"
proof -
  have "set (merge_pairs (rt_db old_db)) = {(1, 2), (3, 4)}" by (simp add: merge_pairs_def old_db_def old_incident_def del: One_nat_def)
  moreover have "(x, y) \<in> connected {} \<longleftrightarrow> y = x" for x y :: nat by (auto simp: connected_def)
  ultimately show ?thesis by (auto simp: connected_insert doubleton_eq_iff del: One_nat_def)
qed

lemma old_reasons: "reasons 30 3000000000000 k old_db = [] \<longleftrightarrow> k \<noteq> 4"
  by (auto simp: reasons_nil lifecycle_code_def old_db_def old_incident_def initial_db_def find_row_Cons active_run_def
      active_observation_def generation_pending_def running_of_def under_review_def active_knowledge_def days_interval_def seconds_def del: One_nat_def)

lemma old_due: "payload_due 30 3000000000000 old_db (delivery_payload k i) \<longleftrightarrow> i \<in> {Some 1, Some 2} \<or> (\<exists>j. i = Some j \<and> j \<notin> {1, 2, 3, 4})"
  by (cases i) (auto simp: payload_due_def row_owners_def delivery_payload_def old_conn old_reasons doubleton_eq_iff simp del: One_nat_def)

lemma old_payloads: "rt_payloads old_db = [delivery_payload ''a'' (Some 1), delivery_payload ''b'' (Some 3), delivery_payload ''c'' None]"
  by (simp add: old_db_def)

lemma old_keys: "distinct (map payload_id (rt_payloads old_db))"
  by (simp add: old_payloads payload_id_def delivery_payload_def)

theorem retention_exact_witness:
  "\<exists>rep. run_retention 30 True 3000000000000 quiet old_db = (Inr rep, old_db\<lparr>rt_payloads :=
      [(delivery_payload ''a'' (Some 1))\<lparr>py_payload := None, py_state := PS_cleaned\<rparr>, delivery_payload ''b'' (Some 3), delivery_payload ''c'' None]\<rparr>)"
proof -
  have "MIN_DAYS \<le> 30" by (simp add: MIN_DAYS_def)
  from retention_exact [OF this quiet_undisturbed old_keys] show ?thesis
    by (auto simp: old_payloads old_due del: One_nat_def)
qed

lemma old_unit:
  obtains incidents rs where "(incidents, rs) \<in> set (units (scan 30 3000000000000 old_db) (ready (scan 30 3000000000000 old_db)))"
    "apply_unit (quiet 0) 30 incidents rs old_db = (Some (fst (clean_rows (quiet 0) rs old_db)), snd (clean_rows (quiet 0) rs old_db))"
    "delivery_payload ''a'' (Some 1) \<notin> set (rt_payloads (snd (clean_rows (quiet 0) rs old_db)))"
proof -
  let ?rows = "ready (scan 30 3000000000000 old_db)" and ?p = "delivery_payload ''a'' (Some 1)"
  have p: "?p \<in> set (rt_payloads old_db)" "py_state ?p = PS_present" by (simp_all add: old_payloads delivery_payload_def)
  have "payload_due 30 3000000000000 old_db ?p" by (simp add: old_due)
  with ready_payload_due [OF old_keys p] obtain r where r: "r \<in> set ?rows" "names r ?p" by blast
  with units_cover [of "scan 30 3000000000000 old_db" ?rows r] obtain incidents rs
    where u: "(incidents, rs) \<in> set (units (scan 30 3000000000000 old_db) ?rows)" "r \<in> set rs" by auto
  have sub: "set ?rows \<subseteq> set (present_rows old_db)" by (auto simp: in_ready)
  have rel: "released 30 3000000000000 old_db i" if i: "i \<in> set incidents" for i
  proof -
    from unit_facts(2) [OF u(1) sub i] obtain q k where "q \<in> set ?rows" "k \<in> set (rw_incidents q)" "(k, i) \<in> conn old_db" by blast
    then show ?thesis using connected_trans unfolding in_ready released_def by metis
  qed
  have "apply_unit (quiet 0) 30 incidents rs old_db = (Some (fst (clean_rows (quiet 0) rs old_db)), snd (clean_rows (quiet 0) rs old_db))"
  proof (rule apply_unit_runs)
    show "released 30 (ue_now (quiet 0)) old_db i" if "i \<in> set incidents" for i using rel [OF that] by (simp add: quiet_def)
    show "m \<in> set incidents" if "i \<in> set incidents" "(i, m) \<in> conn old_db" for i m by (rule unit_facts(1) [OF u(1) sub that])
  qed
  moreover have "?p \<notin> set (rt_payloads (snd (clean_rows (quiet 0) rs old_db)))"
  proof -
    obtain out d' where c: "clean_rows (quiet 0) rs old_db = (out, d')" by fastforce
    have d': "d' = empty_where (\<lambda>p. \<exists>r \<in> set rs. names r p) old_db" using clean_rows_state [OF c] by (simp add: quiet_def)
    show ?thesis
    proof
      assume "?p \<in> set (rt_payloads (snd (clean_rows (quiet 0) rs old_db)))"
      then have "?p \<in> (\<lambda>q. if py_state q = PS_present \<and> (\<exists>r \<in> set rs. names r q) then emptied q else q) ` set (rt_payloads old_db)"
        by (simp only: c d' snd_conv empty_payloads set_map)
      then obtain q where q: "?p = (if py_state q = PS_present \<and> (\<exists>r \<in> set rs. names r q) then emptied q else q)" by (rule imageE)
      show False
      proof (cases "py_state q = PS_present \<and> (\<exists>r \<in> set rs. names r q)")
        case True
        with q have "py_state ?p = PS_cleaned" by simp
        with p(2) show False by simp
      next
        case False
        with q have "?p = q" by (simp only: if_False)
        with False p(2) u(2) r(2) show False by blast
      qed
    qed
  qed
  ultimately show thesis using u(1) that by blast
qed

theorem emptied_only_when_released_witness:
  "\<exists>incidents rs. (incidents, rs) \<in> set (units (scan 30 3000000000000 old_db) (ready (scan 30 3000000000000 old_db)))
    \<and> delivery_payload ''a'' (Some 1) \<notin> set (rt_payloads (snd (apply_unit (quiet 0) 30 incidents rs old_db))) \<and> py_state (delivery_payload ''a'' (Some 1)) = PS_present"
proof -
  obtain incidents rs where u: "(incidents, rs) \<in> set (units (scan 30 3000000000000 old_db) (ready (scan 30 3000000000000 old_db)))"
    "apply_unit (quiet 0) 30 incidents rs old_db = (Some (fst (clean_rows (quiet 0) rs old_db)), snd (clean_rows (quiet 0) rs old_db))"
    "delivery_payload ''a'' (Some 1) \<notin> set (rt_payloads (snd (clean_rows (quiet 0) rs old_db)))" by (rule old_unit)
  have "delivery_payload ''a'' (Some 1) \<in> set (rt_payloads old_db)" by (simp add: old_payloads)
  from emptied_only_when_released [OF u(1,2) this u(3)] have "py_state (delivery_payload ''a'' (Some 1)) = PS_present" by blast
  moreover have "delivery_payload ''a'' (Some 1) \<notin> set (rt_payloads (snd (apply_unit (quiet 0) 30 incidents rs old_db)))"
    using u(3) unfolding u(2) snd_conv .
  ultimately show ?thesis using u(1) by blast
qed

definition broken_row :: unit_env where
  "broken_row = (quiet 0)\<lparr>ue_row_fault := (\<lambda>r. Some ''QueryCanceled: timeout'')\<rparr>"

theorem row_failures_isolated_witness:
  "row_line ''failed'' (kept_row_of (delivery_payload ''a'' (Some 1)) old_db) (Some ''QueryCanceled: timeout'')
      \<in> set (the (fst (apply_unit broken_row 30 [1, 2] [kept_row_of (delivery_payload ''a'' (Some 1)) old_db] old_db)))
    \<and> rt_payloads (snd (apply_unit broken_row 30 [1, 2] [kept_row_of (delivery_payload ''a'' (Some 1)) old_db] old_db)) = rt_payloads old_db
    \<and> fst (apply_unit broken_row 30 [3] [kept_row_of (delivery_payload ''b'' (Some 3)) old_db] old_db) = None"
proof -
  let ?r = "kept_row_of (delivery_payload ''a'' (Some 1)) old_db"
  have a: "apply_unit broken_row 30 [1, 2] [?r] old_db = (Some (fst (clean_rows broken_row [?r] old_db)), snd (clean_rows broken_row [?r] old_db))"
  proof (rule apply_unit_runs)
    show "released 30 (ue_now broken_row) old_db i" if "i \<in> set [1, 2]" for i
      using that by (auto simp: released_def old_conn old_reasons broken_row_def quiet_def doubleton_eq_iff simp del: One_nat_def)
    show "m \<in> set [1, 2]" if "i \<in> set [1, 2]" "(i, m) \<in> conn old_db" for i m
      using that by (auto simp: old_conn doubleton_eq_iff simp del: One_nat_def)
  qed
  from row_failures_isolated [OF a] have "rt_payloads (snd (clean_rows broken_row [?r] old_db)) = rt_payloads old_db
      \<and> row_line ''failed'' ?r (Some ''QueryCanceled: timeout'') \<in> set (fst (clean_rows broken_row [?r] old_db))"
    by (simp add: broken_row_def del: clean_rows.simps One_nat_def)
  moreover have "(3, 4) \<in> conn old_db" by (simp add: old_conn del: One_nat_def)
  then have "\<not> unit_stands 30 (ue_now broken_row) [3] old_db" by (auto simp: unit_stands_def)
  with row_failures_isolated [OF prod.collapse [symmetric], of broken_row 30 "[3]" "[kept_row_of (delivery_payload ''b'' (Some 3)) old_db]" old_db]
  have "fst (apply_unit broken_row 30 [3] [kept_row_of (delivery_payload ''b'' (Some 3)) old_db] old_db) = None" by blast
  ultimately show ?thesis unfolding a fst_conv snd_conv option.sel by blast
qed

text \<open>\<^bold>\<open>C27\<close> (\<open>_Sets.find\<close>) The loop of \<open>find\<close> ends in every set that merging pairs can build, at the least id of the set.\<close>

theorem set_find_terminates:
  "\<exists>r. while_option (\<lambda>y. parent_of (fold sets_union es []) y \<noteq> y) (parent_of (fold sets_union es [])) x = Some r
    \<and> (x, r) \<in> connected (set es) \<and> r = (LEAST y. (x, y) \<in> connected (set es))"
proof -
  define s where "s = fold sets_union es []"
  have "merged_sets.represents [] {}" by (rule represents_start) (simp_all add: parent_of_def)
  from merged_sets.represents_fold [OF this, of es] have rep: "merged_sets.represents s (set es)" by (simp add: s_def)
  then have ok: "sets_ok s" by (simp add: merged_sets.represents_def)
  from find_terminates [OF ok] obtain r where r: "while_option (\<lambda>y. parent_of s y \<noteq> y) (parent_of s) x = Some r" by blast
  then have f: "r = sets_find s x" by (simp add: sets_find_def while_def)
  have c: "(x, r) \<in> connected (set es)" using merged_sets.same_root [OF rep] find_find [OF ok] f by metis
  moreover have "r \<le> y" if "(x, y) \<in> connected (set es)" for y
    using merged_sets.same_root [OF rep, of x y] that find_least [OF ok, of y] f by simp
  then have "(LEAST y. (x, y) \<in> connected (set es)) = r" using c by (intro Least_equality)
  ultimately show ?thesis using r unfolding s_def by blast
qed

end
