(* ===== verification/Spec2Isabelle.thy ===== *)
theory Spec2Isabelle
  imports Domain_Intake Alert_Safety Store_Progress Observation_Properties Self_Heal_Properties Knowledge_Properties Generation_Properties Retention_Properties
begin

text \<open>
  OpsPilot is an agent for production operations. Alerts, releases and people open incidents; workers
  take leased Runs of an incident, let a model plan tool calls and publish a conclusion; people control
  the incident at any time. All durable state is in one PostgreSQL database, which every process reaches
  through the operations of \<open>src/opspilot/persistence\<close>; the lifecycle rules are in \<open>src/opspilot/domain\<close>.

  \<^bold>\<open>Layers.\<close>
  \<^item> \<open>Prelude\<close>, \<open>State_Machine\<close>: identifiers, clock readings, JSON values, tables as lists of rows; the
    transition-table engine of \<open>domain/base.py\<close> with its contract, the locale \<open>lifecycle\<close>, which every
    table of the domain layer interprets.
  \<^item> \<open>Domain_Control\<close>, \<open>Domain_Subjects\<close>, \<open>Domain_Runs\<close>, \<open>Domain_Evidence\<close>, \<open>Domain_Knowledge\<close>, \<open>Domain_Records\<close>,
    \<open>Domain_Scheduling\<close>, \<open>Domain_Observation\<close>, \<open>Domain_Intake\<close>: one theory per file of \<open>domain/\<close>, with the
    functions under their names there.
  \<^item> \<open>Store_Base\<close>: the rows and tables (migrations 0001 to 0024), the record \<open>db\<close>, the environment \<open>env\<close> (clock,
    fresh ids, hashes), transactions and the lease fence of \<open>persistence/base.py\<close>. \<open>Store_Fence\<close>: the locale
    \<open>fenced_write\<close>, the contract of a write under a lease, and \<open>lease_checked\<close>, which gives it.
  \<^item> \<open>Store_Outbox\<close>, \<open>Store_Budgets\<close>, \<open>Store_Steps\<close>, \<open>Store_Sessions\<close>, \<open>Store_Knowledge\<close>, \<open>Store_Runs\<close>, \<open>Store_Incidents\<close>,
    \<open>Store_Controls\<close>, \<open>Store_Alerts\<close>: the operations of \<open>persistence/outbox.py\<close> (with the run-state trigger of
    migration 0024), \<open>budgets.py\<close>, \<open>steps.py\<close>, \<open>observation/revocation.py\<close>, the stale marking of
    \<open>knowledge/store.py\<close>, \<open>runs.py\<close>, \<open>incidents.py\<close> with \<open>recovery.py\<close>, \<open>controls.py\<close>, and \<open>alerts.py\<close> with
    \<open>correlation.py\<close>. An operation is a function of its arguments, an \<open>env\<close> and the database, and returns its
    result or the error it raises together with the database after commit or rollback.
  \<^item> \<open>Store_Core\<close>, \<open>Store_System\<close>: the abstract machine \<open>core_step\<close> (work, decision, intake) over incidents, Runs,
    audit rows and inputs, its invariants, and the proof that every operation is a step of it.
  \<^item> \<open>Store_Safety\<close>, \<open>Store_Progress\<close>, \<open>Alert_Safety\<close>: \<open>store_step\<close> is any operation with any arguments, \<open>reachable\<close>
    a state after any history of them from the empty database; the system-wide properties.
  \<^item> \<open>Observation_Judge\<close>, \<open>Observation_Store\<close>, \<open>Observation_Grants\<close>: \<open>observation/store.py\<close> and \<open>observation/bindings.py\<close>
    for incidents: the verdict on a sample, the sampling jobs, submission, the deadline sweep, the recorded
    history and its replay; authorization by a human or after a publication. \<open>Observation_Steps\<close> shows them
    to be steps of the core machine.
  \<^item> \<open>Observation_Machine\<close>: the five changes a session may undergo. \<open>Observation_Frames\<close>, \<open>Observation_Refinement\<close>: every
    operation of the store, with the hash and the parser of one world and readings that passed their
    validator (\<open>observed_step\<close>), is a sequence of them. \<open>Observation_Trace\<close> folds the samples of a session through
    the verdict; \<open>Observation_Safety\<close> keeps each session row equal to its fold in every reachable state.
    \<open>Observation_Examples\<close> is a concrete history from registration to a confirmed recovery, on which the
    properties of \<open>Observation_Properties\<close> are witnessed.
  \<^item> \<open>Self_Heal\<close>, \<open>Self_Heal_Properties\<close>: the decisions on automatic observation (\<open>opspilot_self_heal_authorizations\<close>),
    how every operation of the store changes them, their invariant and what they promise.
  \<^item> \<open>Knowledge_Review\<close>: the mutations of \<open>KnowledgeStore\<close> (\<open>knowledge/store.py\<close>): drafts, review actions, publication,
    revocation, the replay of a request, and the knowledge reads of an entry. \<open>Knowledge_Machine\<close>: seven kinds of
    change of the knowledge tables, of which every request, and the stale marking inside any business
    transaction, is a sequence (\<open>knowledge_refines\<close>); \<open>knowledge_step\<close> has the other operations of the store as
    steps that leave these tables alone and remove no incident, as \<open>knowledge_only\<close> shows of \<open>mark_stale_in\<close>.
    \<open>Knowledge_Safety\<close> has the invariants of all reachable states, \<open>Knowledge_Requests\<close> the round trip of a
    recorded result and what stays for a later replay, \<open>Knowledge_Examples\<close> a postmortem from its draft to the
    revoked revision, on which \<open>Knowledge_Properties\<close> is witnessed.
  \<^item> \<open>Generation_Jobs\<close>: \<open>GenerationStore\<close> of \<open>knowledge/jobs.py\<close>: the candidate scan, the claim of a generation, its
    request budget, closing it, the failure count with its backoff, the compensation scan. Its state \<open>gen_db\<close>
    is the database with the table of attempts. \<open>Generation_Machine\<close>: five kinds of change of job rows and
    attempts, of which every operation under a claim the store gave is a sequence (\<open>generation_refines\<close>); other
    transactions leave the leases alone (\<open>jobs_kept\<close>), as \<open>perform_jobs\<close> shows of the requests of
    \<open>KnowledgeStore\<close>. \<open>Generation_Safety\<close> has the invariants of all reachable states, \<open>Generation_Properties\<close> what
    the schedule promises.
  \<^item> \<open>Retention_Sets\<close>: the union-find of \<open>retention.py\<close> with its contract, the locale \<open>merging\<close>: ids have the same
    root exactly when the merged pairs connect them. \<open>Retention\<close>: the scan for raw payloads, what keeps an incident,
    the units of a pass, applying them, the report. \<open>Retention_Plan\<close>: merge groups are the connected incidents,
    units are closed under the merge pointers and share out the rows. \<open>Retention_Properties\<close>: what a pass empties,
    whatever else happens and when nothing disturbs it. The payload columns, \<open>closed_at\<close> and the rows of release
    observation the scan joins are in \<open>ret_db\<close> beside \<open>gen_db\<close>.

  \<^bold>\<open>How the parts interact.\<close> A decision (\<open>control\<close>) raises the control generation of its incident; a claim
  raises the epoch of its Run; a suspension raises the generation of its scope. The three are in the
  lease, and the fence compares them at every write, so a superseded worker writes nothing
  new; what it may still do is settle the measured seconds of a dispatch it had reserved
  (\<open>superseded_lease_never_writes\<close>). The operations that move what a postmortem draft was assembled
  from call \<open>mark_stale_in\<close>; every change of a Run's state fires the outbox trigger; the controls that
  end observation call \<open>revoke_authorized_sessions\<close>; an alert opens its incident through \<open>accept_in\<close> or joins
  one through \<open>append_input_in\<close>.

  \<^bold>\<open>Bounds and fuel.\<close> A merge chain is followed for \<open>MERGE_CHAIN_LIMIT\<close> (16) pointers, as in the source, and
  \<open>chase_in_closure\<close> shows that the rows locked after as many rounds hold it unless a pointer was set in between. The trigger's probe for a free
  ordinal is bounded by the number of rows (\<open>run_state_trigger_terminates\<close>). The loop of the union-find is a while
  loop, and \<open>set_find_terminates\<close> shows that it ends. The sweep and the backlog pass
  are loops over single transactions; the backlog loop is given one environment per transaction and
  ends when no row is in excess.

  \<^bold>\<open>Simplifications.\<close> Integers are unbounded, as Python's are; a stored float is its exact rational value.
  Row and advisory locks appear as the atomicity of an operation; the statements of an alert's correlation
  that read before the locks are an argument (\<open>reads\<close>), with any interference of other transactions.
  A character of the model is one byte, so octet lengths are lengths of strings. Instants the database clock gives are the
  two readings of the environment. A name-based UUID is a function of its name, the namespace fixed.
  Text is ordered by character codes where a statement orders by it. JSON objects are finite maps; Python's
  identification of 1, 1.0 and \<open>True\<close> in comparisons is modelled for tool ordinals only. The \<open>CHECK\<close> on
  the outbox payload size and the guard triggers of the migrations (append-only tables, matching audit
  rows) are not branches: the modelled statements satisfy them. A rolled-back transaction does
  not consume identity values. The one row of \<open>opspilot_scope_controls\<close> is always there. Connection
  failures and their retries are not modelled.

  \<^bold>\<open>Not modelled.\<close> The observation of releases, the model-driven drafting of postmortems (prompt,
  model calls, the input read by \<open>read_input\<close>, the worker loop around the schedule), the investigation loop and its prompts, the tool gateway, the observer, the web
  service, the worker processes, text redaction, the delivery thread of the outbox, the evaluation harness, scripts and
  acceptance suites: HTTP, processes, model calls and rendering around the modelled operations.
\<close>

end
